(* ===== verification/Prelude.thy ===== *)
theory Prelude
  imports Main
begin

text \<open>
  Shared vocabulary of the development: the result type that stands for the exceptions of
  \<^verbatim>\<open>src/src/error.h\<close>, its sequencing operation and the loops over it, and the generic list
  facts the component theories share. Nothing here models a component of Simit; the facts are
  collected in \<open>result_simps\<close> and \<open>list_facts\<close> or declared \<open>[simp]\<close>.
\<close>

named_theorems result_simps \<open>facts that compute with results\<close>
named_theorems list_facts \<open>facts on lists used by several components\<close>

section \<open>Results\<close>

text \<open>
  \<^verbatim>\<open>simit_iassert\<close>, \<^verbatim>\<open>simit_uassert\<close> and \<^verbatim>\<open>simit_tassert\<close> throw a SimitException of the
  corresponding ErrorReport kind (User, Internal, Temporary) when their condition fails; the
  model is of a build with SIMIT_ASSERTS, where the internal assertions are checked.
  \<open>OutOfRange\<close> is the exception of \<^verbatim>\<open>std::map::at\<close> and \<open>Undefined\<close> stands for what C++ leaves
  undefined (a read outside an array, a dereferenced end iterator).
\<close>

datatype error = UserError string | InternalError string | TemporaryError string
  | OutOfRange | Undefined

type_synonym 'a result = "error + 'a"

definition rbind :: "'a result \<Rightarrow> ('a \<Rightarrow> 'b result) \<Rightarrow> 'b result" where
  "rbind m f = (case m of Inl e \<Rightarrow> Inl e | Inr x \<Rightarrow> f x)"

definition uassert :: "bool \<Rightarrow> string \<Rightarrow> 'a result \<Rightarrow> 'a result" where
  "uassert c msg k = (if c then k else Inl (UserError msg))"

definition iassert :: "bool \<Rightarrow> string \<Rightarrow> 'a result \<Rightarrow> 'a result" where
  "iassert c msg k = (if c then k else Inl (InternalError msg))"

definition tassert :: "bool \<Rightarrow> string \<Rightarrow> 'a result \<Rightarrow> 'a result" where
  "tassert c msg k = (if c then k else Inl (TemporaryError msg))"

definition nth_result :: "'a list \<Rightarrow> nat \<Rightarrow> 'a result" where
  "nth_result xs i = (if i < length xs then Inr (xs ! i) else Inl Undefined)"

definition map_at :: "('k \<rightharpoonup> 'v) \<Rightarrow> 'k \<Rightarrow> 'v result" where
  "map_at m k = (case m k of None \<Rightarrow> Inl OutOfRange | Some v \<Rightarrow> Inr v)"

fun rfold :: "('a \<Rightarrow> 's \<Rightarrow> 's result) \<Rightarrow> 'a list \<Rightarrow> 's \<Rightarrow> 's result" where
  "rfold f [] s = Inr s"
| "rfold f (x # xs) s = rbind (f x s) (rfold f xs)"

fun rmap :: "('a \<Rightarrow> 'b result) \<Rightarrow> 'a list \<Rightarrow> 'b list result" where
  "rmap f [] = Inr []"
| "rmap f (x # xs) = rbind (f x) (\<lambda>y. rbind (rmap f xs) (\<lambda>ys. Inr (y # ys)))"

lemma rbind_simps [simp, result_simps]:
  "rbind (Inl e) f = Inl e" "rbind (Inr x) f = f x"
  by (simp_all add: rbind_def)

lemma rbind_eq_Inr [result_simps]:
  "rbind m f = Inr y \<longleftrightarrow> (\<exists>x. m = Inr x \<and> f x = Inr y)"
  by (cases m) simp_all

lemma rbind_assoc: "rbind (rbind m f) g = rbind m (\<lambda>x. rbind (f x) g)"
  by (cases m) simp_all

lemma assert_eq_Inr [result_simps]:
  "uassert c msg k = Inr y \<longleftrightarrow> c \<and> k = Inr y"
  "iassert c msg k = Inr y \<longleftrightarrow> c \<and> k = Inr y"
  "tassert c msg k = Inr y \<longleftrightarrow> c \<and> k = Inr y"
  by (simp_all add: uassert_def iassert_def tassert_def)

lemma assert_True [simp]:
  "uassert True msg k = k" "iassert True msg k = k" "tassert True msg k = k"
  by (simp_all add: uassert_def iassert_def tassert_def)

lemma assert_False [simp]:
  "uassert False msg k = Inl (UserError msg)" "iassert False msg k = Inl (InternalError msg)"
  "tassert False msg k = Inl (TemporaryError msg)"
  by (simp_all add: uassert_def iassert_def tassert_def)

lemma nth_result_eq_Inr [result_simps]:
  "nth_result xs i = Inr y \<longleftrightarrow> i < length xs \<and> xs ! i = y"
  by (auto simp: nth_result_def)

lemma nth_result_ok [simp]: "i < length xs \<Longrightarrow> nth_result xs i = Inr (xs ! i)"
  by (simp add: nth_result_def)

lemma map_at_eq_Inr [result_simps]: "map_at m k = Inr y \<longleftrightarrow> m k = Some y"
  by (simp add: map_at_def split: option.split)

lemma map_at_Some [simp]: "m k = Some v \<Longrightarrow> map_at m k = Inr v"
  by (simp add: map_at_def)

lemma rbind_rfold_Nil [simp]: "rbind m (rfold f []) = m"
  by (cases m) simp_all

lemma rfold_append: "rfold f (xs @ ys) s = rbind (rfold f xs s) (rfold f ys)"
proof (induction xs arbitrary: s)
  case (Cons x xs)
  then show ?case by (cases "f x s") simp_all
qed simp

text \<open>A loop whose body always succeeds on the states of an invariant is an ordinary fold.\<close>

lemma rfold_ok:
  assumes "\<And>x s. x \<in> set xs \<Longrightarrow> P s \<Longrightarrow> f x s = Inr (g x s)"
    and "\<And>x s. x \<in> set xs \<Longrightarrow> P s \<Longrightarrow> P (g x s)" and "P s"
  shows "rfold f xs s = Inr (fold g xs s)"
  using assms by (induction xs arbitrary: s) simp_all

lemma rfold_invariant:
  assumes "rfold f xs s = Inr t" and "P s"
    and "\<And>x s t. x \<in> set xs \<Longrightarrow> P s \<Longrightarrow> f x s = Inr t \<Longrightarrow> P t"
  shows "P t"
  using assms by (induction xs arbitrary: s) (auto simp: rbind_eq_Inr)

text \<open>A loop along a list with an invariant that counts the iterations.\<close>

lemma rfold_counting:
  assumes "Q 0 s" and "\<And>i t. i < length xs \<Longrightarrow> Q i t \<Longrightarrow> \<exists>t'. f (xs ! i) t = Inr t' \<and> Q (Suc i) t'"
  shows "\<exists>t. rfold f xs s = Inr t \<and> Q (length xs) t"
  using assms
proof (induction xs arbitrary: s Q)
  case (Cons x xs)
  obtain t where t: "f x s = Inr t" "Q 1 t" using Cons.prems(2) [of 0 s] Cons.prems(1) by auto
  have "\<exists>u. rfold f xs t = Inr u \<and> Q (Suc (length xs)) u"
    using Cons.prems(2) t(2) by (intro Cons.IH [of "\<lambda>i. Q (Suc i)"]) fastforce+
  with t(1) show ?case by simp
qed auto

lemma rmap_ok: "(\<And>x. x \<in> set xs \<Longrightarrow> f x = Inr (g x)) \<Longrightarrow> rmap f xs = Inr (map g xs)"
  by (induction xs) simp_all

lemma rmap_eq_Inr:
  "rmap f xs = Inr ys \<longleftrightarrow>
     length ys = length xs \<and> (\<forall>i < length xs. f (xs ! i) = Inr (ys ! i))"
proof (induction xs arbitrary: ys)
  case Nil
  then show ?case by auto
next
  case (Cons x xs)
  show ?case
    by (cases ys) (auto simp: rbind_eq_Inr Cons.IH nth_Cons split: nat.splits)
qed

section \<open>Lists\<close>

lemma concat_blocks_length:
  "(\<And>b. b \<in> set bs \<Longrightarrow> length b = k) \<Longrightarrow> length (concat bs) = length bs * k"
  by (induction bs) simp_all

lemma concat_blocks_nth [list_facts]:
  assumes "\<And>b. b \<in> set bs \<Longrightarrow> length b = k" and "i < length bs" and "j < k"
  shows "concat bs ! (i * k + j) = bs ! i ! j"
  using assms
proof (induction bs arbitrary: i)
  case Nil
  then show ?case by simp
next
  case (Cons b bs)
  show ?case
  proof (cases i)
    case 0
    with Cons.prems show ?thesis by (simp add: nth_append)
  next
    case (Suc i')
    have "concat bs ! (i' * k + j) = bs ! i' ! j"
      using Cons.prems Suc by (intro Cons.IH) auto
    with Cons.prems Suc show ?thesis by (simp add: nth_append)
  qed
qed

lemma mixed_radix_less [list_facts]:
  fixes i j k n :: nat
  assumes "i < n" and "j < k"
  shows "i * k + j < n * k"
proof -
  have "i * k + j < i * k + k" using assms(2) by simp
  also have "\<dots> = Suc i * k" by simp
  also have "\<dots> \<le> n * k" using assms(1) by (intro mult_le_mono1) simp
  finally show ?thesis .
qed

lemma mixed_radix_inj:
  fixes i j i' j' k :: nat
  assumes "i * k + j = i' * k + j'" and "j < k" and "j' < k"
  shows "i = i' \<and> j = j'"
proof -
  have "i = (i * k + j) div k" "j = (i * k + j) mod k" using assms(2) by simp_all
  moreover have "i' = (i' * k + j') div k" "j' = (i' * k + j') mod k" using assms(3) by simp_all
  ultimately show ?thesis using assms(1) by metis
qed

end
