(* ===== verification/Util.thy ===== *)
theory Util
  imports Prelude
begin

text \<open>
  The helpers of \<^verbatim>\<open>src/src/util\<close>: strings (\<^verbatim>\<open>util.cpp\<close>), the loop over a vector of ranges and
  the offset of a multi-index into a row-major array (\<^verbatim>\<open>util.cpp\<close>, \<^verbatim>\<open>variadic.h\<close>), the
  collection helpers the other components call (\<^verbatim>\<open>collections.h\<close>) and the generator of fresh names
  (\<^verbatim>\<open>name_generator.cpp\<close>). Counters that C++ keeps in an unsigned are natural numbers: none of them
  can reach $2^{32}$ before memory is exhausted.
\<close>

section \<open>Definitions\<close>

subsection \<open>Decimal text of a number (std::to\_string)\<close>

definition digit_char :: "nat \<Rightarrow> char" where
  "digit_char d = char_of (48 + d)"

fun to_string :: "nat \<Rightarrow> string" where
  "to_string n = (if n < 10 then [digit_char n] else to_string (n div 10) @ [digit_char (n mod 10)])"

declare to_string.simps [simp del]

definition int_to_string :: "int \<Rightarrow> string" where
  "int_to_string n = (if n < 0 then CHR ''-'' # to_string (nat (- n)) else to_string (nat n))"

subsection \<open>Strings\<close>

fun join :: "string list \<Rightarrow> string \<Rightarrow> string" where
  "join [] sep = []"
| "join (x # xs) sep = x @ concat (map (\<lambda>y. sep @ y) xs)"

text \<open>The lines \<^verbatim>\<open>std::getline\<close> delivers: a newline at the very end opens no further line.\<close>

function getlines :: "string \<Rightarrow> string list" where
  "getlines str =
     (if str = [] then []
      else case dropWhile (\<lambda>c. c \<noteq> CHR 0x0A) str of
          [] \<Rightarrow> [str]
        | _ # rest \<Rightarrow> takeWhile (\<lambda>c. c \<noteq> CHR 0x0A) str # getlines rest)"
  by pat_completeness auto
termination
proof (relation "measure length")
  fix str :: string and y rest
  assume "dropWhile (\<lambda>c. c \<noteq> CHR 0x0A) str = y # rest"
  then have "length (y # rest) \<le> length str" by (metis length_dropWhile_le)
  then show "(rest, str) \<in> measure length" by simp
qed simp

declare getlines.simps [simp del]

definition indent :: "string \<Rightarrow> nat \<Rightarrow> string" where
  "indent str num =
     (let ind = replicate num CHR '' '' in
      case getlines str of
        [] \<Rightarrow> []
      | l # ls \<Rightarrow> ind @ l @ concat (map (\<lambda>l. [CHR 0x0A] @ ind @ l) ls))"

text \<open>\<^verbatim>\<open>std::string::find\<close>: the position of the first occurrence.\<close>

fun str_find :: "string \<Rightarrow> string \<Rightarrow> nat option" where
  "str_find delim [] = (if delim = [] then Some 0 else None)"
| "str_find delim (c # cs) =
     (if take (length delim) (c # cs) = delim then Some 0
      else map_option Suc (str_find delim cs))"

text \<open>
  The loop of \<^verbatim>\<open>split\<close>; its string argument is the part of \<open>str\<close> from \<open>prev\<close> on. With an empty
  delimiter the loop does not advance, so the function is a partial one.
\<close>

partial_function (option) split_loop ::
  "string \<Rightarrow> string \<Rightarrow> bool \<Rightarrow> string list \<Rightarrow> string list option" where
  "split_loop str delim keepDelim results =
     (case str_find delim str of
        None \<Rightarrow> Some (if str \<noteq> [] then results @ [(if keepDelim then delim else []) @ str]
                      else results)
      | Some n \<Rightarrow>
          split_loop (drop (n + length delim) str) delim keepDelim
            (if n \<noteq> 0 then results @ [(if keepDelim then delim else []) @ take n str]
             else results))"

definition split :: "string \<Rightarrow> string \<Rightarrow> bool \<Rightarrow> string list option" where
  "split str delim keepDelim = split_loop str delim keepDelim []"

definition escape_char :: "char \<Rightarrow> string" where
  "escape_char s =
     (if s = CHR 0x07 then [CHR 0x5C, CHR ''a'']
      else if s = CHR 0x08 then [CHR 0x5C, CHR ''b'']
      else if s = CHR 0x0C then [CHR 0x5C, CHR ''f'']
      else if s = CHR 0x0A then [CHR 0x5C, CHR ''n'']
      else if s = CHR 0x0D then [CHR 0x5C, CHR ''r'']
      else if s = CHR 0x09 then [CHR 0x5C, CHR ''t'']
      else if s = CHR 0x0B then [CHR 0x5C, CHR ''v'']
      else if s = CHR 0x5C then [CHR 0x5C, CHR 0x5C]
      else if s = CHR 0x27 then [CHR 0x5C, CHR 0x27]
      else if s = CHR 0x22 then [CHR 0x5C, CHR 0x22]
      else if s = CHR 0x3F then [CHR 0x5C, CHR 0x3F]
      else [s])"

definition escape :: "string \<Rightarrow> string" where
  "escape str = concat (map escape_char str)"

definition trim :: "string \<Rightarrow> string \<Rightarrow> string" where
  "trim str ws =
     (case dropWhile (\<lambda>c. c \<in> set ws) str of
        [] \<Rightarrow> []
      | s \<Rightarrow> rev (dropWhile (\<lambda>c. c \<in> set ws) (rev s)))"

subsection \<open>Loops over a vector of ranges\<close>

text \<open>
  \<^verbatim>\<open>variableLoop\<close> calls \<open>inner\<close> with the index vector current; \<open>idx\<close> holds the indices of the outer
  levels. A range that is not positive runs no iteration.
\<close>

fun variableLoop ::
  "int list \<Rightarrow> nat list \<Rightarrow> (nat list \<Rightarrow> 's \<Rightarrow> 's result) \<Rightarrow> 's \<Rightarrow> 's result" where
  "variableLoop [] idx inner s = inner idx s"
| "variableLoop (r # rs) idx inner s =
     rfold (\<lambda>i. variableLoop rs (idx @ [i]) inner) [0..<nat r] s"

subsection \<open>Offsets into n-dimensional arrays\<close>

fun productHelper :: "int \<Rightarrow> int list \<Rightarrow> int" where
  "productHelper p [] = p"
| "productHelper p (val # rest) = productHelper (p * val) rest"

definition product_of :: "int list \<Rightarrow> int" where
  "product_of vals = (case vals of [] \<Rightarrow> 1 | val # rest \<Rightarrow> productHelper 1 (val # rest))"

text \<open>
  The overloads that take the indices as arguments: a lone index is its own offset, whatever
  dimensions are left.
\<close>

fun computeOffset :: "int list \<Rightarrow> int list \<Rightarrow> int" where
  "computeOffset dims [] = 0"
| "computeOffset dims [i] = i"
| "computeOffset dims (i # rest) = i * product_of (tl dims) + computeOffset (tl dims) rest"

text \<open>The overloads that take a vector of indices recurse until no dimension is left.\<close>

fun computeOffsetVec :: "int list \<Rightarrow> int list \<Rightarrow> int" where
  "computeOffsetVec [] indices = 0"
| "computeOffsetVec (d # dims) [] = 0"
| "computeOffsetVec (d # dims) (i # indices) = i * product_of dims + computeOffsetVec dims indices"

subsection \<open>Collections\<close>

definition isAllZeros :: "int list \<Rightarrow> bool" where
  "isAllZeros offsets = list_all (\<lambda>off. off = 0) offsets"

definition locate :: "'a list \<Rightarrow> 'a \<Rightarrow> nat result" where
  "locate collection value =
     (if value \<in> set collection then Inr (length (takeWhile (\<lambda>x. x \<noteq> value) collection))
      else Inl Undefined)"

text \<open>
  The range loop over \<^verbatim>\<open>util::zip\<close>: the iterators differ as long as \<^emph>\<open>one\<close> of the two collections
  has elements left, so the loop dereferences the end of the shorter one.
\<close>

fun zip_const :: "'a list \<Rightarrow> 'b list \<Rightarrow> ('a \<times> 'b) list result" where
  "zip_const [] [] = Inr []"
| "zip_const (x # xs) (y # ys) = rbind (zip_const xs ys) (\<lambda>ps. Inr ((x, y) # ps))"
| "zip_const _ _ = Inl Undefined"

subsection \<open>Fresh names\<close>

record name_generator =
  takenNames :: "string \<rightharpoonup> nat"
  defaultName :: string

text \<open>The do-while loop: \<open>takenNames[suggestion]++\<close> reads 0 where the map has no entry.\<close>

partial_function (option) freshNameLoop ::
  "string \<Rightarrow> (string \<rightharpoonup> nat) \<Rightarrow> (string \<times> (string \<rightharpoonup> nat)) option" where
  "freshNameLoop suggestion taken =
     (let n = (case taken suggestion of None \<Rightarrow> 0 | Some n \<Rightarrow> n);
          name = suggestion @ to_string n;
          taken' = taken(suggestion \<mapsto> n + 1)
      in if taken' name \<noteq> None then freshNameLoop suggestion taken' else Some (name, taken'))"

partial_function (option) getName ::
  "name_generator \<Rightarrow> string \<Rightarrow> (string \<times> name_generator) option" where
  "getName g suggestion =
     (if suggestion = [] then getName g (defaultName g)
      else if takenNames g suggestion = None then
        Some (suggestion, g\<lparr>takenNames := (takenNames g)(suggestion \<mapsto> 1)\<rparr>)
      else Option.bind (freshNameLoop suggestion (takenNames g))
             (\<lambda>(name, taken). getName (g\<lparr>takenNames := taken\<rparr>) name))"

fun getNames :: "name_generator \<Rightarrow> string list \<Rightarrow> (string list \<times> name_generator) option" where
  "getNames g [] = Some ([], g)"
| "getNames g (s # ss) =
     Option.bind (getName g s) (\<lambda>(n, g').
     Option.bind (getNames g' ss) (\<lambda>(ns, g''). Some (n # ns, g'')))"

section \<open>Facts\<close>

subsection \<open>Decimal text\<close>

lemma of_char_digit_char: "d < 10 \<Longrightarrow> of_char (digit_char d) = 48 + d"
  by (simp add: digit_char_def)

lemma digit_char_inj: "a < 10 \<Longrightarrow> b < 10 \<Longrightarrow> digit_char a = digit_char b \<longleftrightarrow> a = b"
  using of_char_digit_char by (metis add_left_cancel)

lemma to_string_not_Nil [simp]: "to_string n \<noteq> []"
  by (subst to_string.simps) simp

lemma to_string_inj: "to_string m = to_string n \<Longrightarrow> m = n"
proof (induction m arbitrary: n rule: to_string.induct)
  case (1 m)
  show ?case
  proof (cases "m < 10")
    case m: True
    show ?thesis
    proof (cases "n < 10")
      case True
      with m "1.prems" show ?thesis
        by (simp add: to_string.simps [of m] to_string.simps [of n] digit_char_inj)
    next
      case False
      then have "length (to_string n) \<ge> 2"
        by (subst to_string.simps) (simp add: Suc_leI)
      moreover have "length (to_string m) = 1" using m by (subst to_string.simps) simp
      ultimately show ?thesis using "1.prems" by simp
    qed
  next
    case m: False
    then have len: "length (to_string m) \<ge> 2"
      by (subst to_string.simps) (simp add: Suc_leI)
    have n: "\<not> n < 10"
    proof
      assume "n < 10"
      then have "length (to_string n) = 1" by (subst to_string.simps) simp
      with len "1.prems" show False by simp
    qed
    from "1.prems" m n have "to_string (m div 10) = to_string (n div 10)"
      and "m mod 10 = n mod 10"
      by (simp_all add: to_string.simps [of m] to_string.simps [of n] digit_char_inj)
    with "1.IH" [OF m] have "m div 10 = n div 10" by blast
    with \<open>m mod 10 = n mod 10\<close> show ?thesis by (metis div_mult_mod_eq)
  qed
qed

subsection \<open>Offsets\<close>

lemma productHelper_eq: "productHelper p vs = p * prod_list vs"
  by (induction vs arbitrary: p) (simp_all add: mult.assoc)

lemma product_of_eq [simp]: "product_of vs = prod_list vs"
  by (simp add: product_of_def productHelper_eq split: list.split)

definition in_bounds :: "int list \<Rightarrow> int list \<Rightarrow> bool" where
  "in_bounds dims idx = list_all2 (\<lambda>d i. 0 \<le> i \<and> i < d) dims idx"

lemma in_bounds_Nil [simp]: "in_bounds [] idx \<longleftrightarrow> idx = []" "in_bounds dims [] \<longleftrightarrow> dims = []"
  by (simp_all add: in_bounds_def)

lemma in_bounds_Cons [simp]:
  "in_bounds (d # dims) idx \<longleftrightarrow> (\<exists>i is. idx = i # is \<and> 0 \<le> i \<and> i < d \<and> in_bounds dims is)"
  by (auto simp: in_bounds_def list_all2_Cons1)

lemma computeOffset_Cons:
  "in_bounds dims is \<Longrightarrow>
   computeOffset (d # dims) (i # is) = i * prod_list dims + computeOffset dims is"
  by (cases "is") (auto simp: in_bounds_def)

lemma computeOffset_eq_Vec: "in_bounds dims idx \<Longrightarrow> computeOffset dims idx = computeOffsetVec dims idx"
  by (induction dims arbitrary: idx) (auto simp: computeOffset_Cons)

lemma int_mixed_radix:
  fixes i r d q :: int
  assumes "0 \<le> i" "i < d" "0 \<le> r" "r < q"
  shows "0 \<le> i * q + r" "i * q + r < d * q" "(i * q + r) div q = i" "(i * q + r) mod q = r"
proof -
  have "i * q + r < i * q + q" using assms(4) by simp
  also have "\<dots> = (i + 1) * q" by (simp add: algebra_simps)
  also have "\<dots> \<le> d * q" using assms by (intro mult_right_mono) auto
  finally show "i * q + r < d * q" .
  show "0 \<le> i * q + r" using assms by simp
  show "(i * q + r) div q = i" using assms by simp
  show "(i * q + r) mod q = r" using assms by simp
qed

lemma computeOffset_bounds:
  "in_bounds dims idx \<Longrightarrow> 0 \<le> computeOffset dims idx \<and> computeOffset dims idx < prod_list dims"
proof (induction dims arbitrary: idx)
  case (Cons d dims)
  then obtain i "is" where idx: "idx = i # is" "0 \<le> i" "i < d" "in_bounds dims is" by auto
  with Cons.IH int_mixed_radix(1,2) [of i d "computeOffset dims is" "prod_list dims"]
  show ?case by (simp add: computeOffset_Cons)
qed simp

lemma computeOffset_inj:
  "in_bounds dims idx \<Longrightarrow> in_bounds dims jdx \<Longrightarrow> computeOffset dims idx = computeOffset dims jdx
   \<Longrightarrow> idx = jdx"
proof (induction dims arbitrary: idx jdx)
  case (Cons d dims)
  then obtain i "is" j js where *: "idx = i # is" "0 \<le> i" "i < d" "in_bounds dims is"
    "jdx = j # js" "0 \<le> j" "j < d" "in_bounds dims js" by auto
  let ?q = "prod_list dims"
  have eq: "i * ?q + computeOffset dims is = j * ?q + computeOffset dims js"
    using Cons.prems * by (simp add: computeOffset_Cons)
  have "(i * ?q + computeOffset dims is) div ?q = i" "(j * ?q + computeOffset dims js) div ?q = j"
    using int_mixed_radix(3) * computeOffset_bounds by blast+
  with eq have "i = j" by simp
  with eq Cons.IH * show ?case by simp
qed simp

lemma computeOffset_surj:
  "list_all (\<lambda>d. 0 < d) dims \<Longrightarrow> 0 \<le> n \<Longrightarrow> n < prod_list dims \<Longrightarrow>
   \<exists>idx. in_bounds dims idx \<and> computeOffset dims idx = n"
proof (induction dims arbitrary: n)
  case (Cons d dims)
  let ?q = "prod_list dims"
  have q: "0 < ?q" using Cons.prems(1) by (induction dims) auto
  have "0 \<le> n mod ?q" "n mod ?q < ?q" using q by simp_all
  with Cons obtain "is" where "is": "in_bounds dims is" "computeOffset dims is = n mod ?q"
    by auto
  have "n div ?q < d"
  proof (rule ccontr)
    assume "\<not> n div ?q < d"
    then have "d * ?q \<le> n div ?q * ?q" using q by (intro mult_right_mono) auto
    also have "\<dots> \<le> n" using q by (metis div_mult_mod_eq le_add_same_cancel1 pos_mod_sign)
    finally show False using Cons.prems(3) by simp
  qed
  moreover have "0 \<le> n div ?q" using Cons.prems(2) q by (simp add: pos_imp_zdiv_nonneg_iff)
  ultimately have "in_bounds (d # dims) (n div ?q # is)" using "is" by simp
  moreover have "computeOffset (d # dims) (n div ?q # is) = n"
    using "is" by (simp add: computeOffset_Cons)
  ultimately show ?case by blast
qed simp

text \<open>The range loop visits the index vectors in row-major order.\<close>

fun index_vectors :: "int list \<Rightarrow> nat list list" where
  "index_vectors [] = [[]]"
| "index_vectors (r # rs) = concat (map (\<lambda>i. map ((#) i) (index_vectors rs)) [0..<nat r])"

lemma rfold_concat: "rfold f (concat xss) s = rfold (rfold f) xss s"
proof (induction xss arbitrary: s)
  case (Cons xs xss)
  then show ?case by (cases "rfold f xs s") (simp_all add: rfold_append)
qed simp

lemma rfold_map: "rfold f (map g xs) s = rfold (\<lambda>x. f (g x)) xs s"
proof (induction xs arbitrary: s)
  case (Cons x xs)
  then show ?case by (cases "f (g x) s") simp_all
qed simp

lemma variableLoop_eq_rfold:
  "variableLoop rs idx inner s = rfold (\<lambda>v. inner (idx @ v)) (index_vectors rs) s"
proof (induction rs arbitrary: idx s)
  case (Cons r rs)
  have "variableLoop rs (idx @ [i]) inner =
      rfold (\<lambda>v. inner (idx @ v)) (map ((#) i) (index_vectors rs))" for i
    by (rule ext) (simp add: Cons.IH rfold_map)
  then show ?case by (simp add: rfold_concat rfold_map)
qed simp

lemma length_index_vectors:
  "list_all (\<lambda>r. 0 \<le> r) rs \<Longrightarrow> int (length (index_vectors rs)) = prod_list rs"
proof (induction rs)
  case (Cons r rs)
  have "length (index_vectors (r # rs)) = nat r * length (index_vectors rs)"
    by (simp add: length_concat comp_def sum_list_triv)
  with Cons show ?case by simp
qed simp

lemma index_vectors_in_bounds: "v \<in> set (index_vectors rs) \<Longrightarrow> in_bounds rs (map int v)"
  by (induction rs arbitrary: v) (auto simp: zless_nat_eq_int_zless)

lemma map_concat_range:
  fixes L :: nat and n :: nat
  assumes "\<And>i. i < n \<Longrightarrow> f i = [i * L..<Suc i * L]"
  shows "concat (map f [0..<n]) = [0..<n * L]"
  using assms
proof (induction n)
  case (Suc n)
  have "concat (map f [0..<Suc n]) = [0..<n * L] @ [n * L..<Suc n * L]"
    using Suc by simp
  also have "\<dots> = [0..<Suc n * L]"
    using upt_add_eq_append [of 0 "n * L" L] by (simp add: add.commute)
  finally show ?case .
qed simp

lemma index_vectors_row_major:
  "list_all (\<lambda>r. 0 \<le> r) rs \<Longrightarrow>
   map (\<lambda>v. nat (computeOffset rs (map int v))) (index_vectors rs) = [0..<nat (prod_list rs)]"
proof (induction rs)
  case (Cons r rs)
  let ?L = "nat (prod_list rs)"
  have P: "0 \<le> prod_list rs" using Cons.prems by (induction rs) auto
  define off where "off rs v = nat (computeOffset rs (map int v))" for rs v
  have step: "map (off (r # rs)) (map ((#) i) (index_vectors rs)) = [i * ?L..<Suc i * ?L]" for i
  proof -
    have "off (r # rs) (i # v) = i * ?L + off rs v" if "v \<in> set (index_vectors rs)" for v
    proof -
      have b: "in_bounds rs (map int v)" using that by (rule index_vectors_in_bounds)
      with computeOffset_bounds [OF b] P show ?thesis
        by (simp add: off_def computeOffset_Cons nat_add_distrib nat_mult_distrib)
    qed
    then have "map (off (r # rs)) (map ((#) i) (index_vectors rs))
        = map (\<lambda>x. i * ?L + x) (map (off rs) (index_vectors rs))"
      by simp
    also have "map (off rs) (index_vectors rs) = [0..<?L]"
      using Cons by (simp add: off_def [abs_def])
    also have "map (\<lambda>x. i * ?L + x) [0..<?L] = [i * ?L..<Suc i * ?L]"
      using map_add_upt [of "i * ?L" ?L] by (simp add: add.commute)
    finally show ?thesis .
  qed
  have "map (off (r # rs)) (index_vectors (r # rs))
      = concat (map (\<lambda>i. map (off (r # rs)) (map ((#) i) (index_vectors rs))) [0..<nat r])"
    by (simp add: map_concat comp_def)
  also have "\<dots> = [0..<nat r * ?L]"
    by (rule map_concat_range) (rule step)
  also have "nat r * ?L = nat (prod_list (r # rs))"
    using Cons.prems P by (simp add: nat_mult_distrib)
  finally show ?case by (simp add: off_def [abs_def])
qed simp

subsection \<open>Splitting and joining\<close>

lemma str_find_bound: "str_find delim str = Some n \<Longrightarrow> n + length delim \<le> length str"
proof (induction str arbitrary: n)
  case (Cons c cs)
  show ?case
  proof (cases "take (length delim) (c # cs) = delim")
    case True
    then have "length delim \<le> length (c # cs)" by (metis length_take min.cobounded1)
    with True Cons.prems show ?thesis by simp
  next
    case False
    with Cons.prems obtain m where "str_find delim cs = Some m" "n = Suc m" by auto
    with Cons.IH show ?thesis by fastforce
  qed
qed (simp split: if_splits)

lemma str_find_singleton:
  "str_find [c] str = (if c \<in> set str then Some (length (takeWhile (\<lambda>x. x \<noteq> c) str)) else None)"
  by (induction str) auto

lemma split_loop_terminates:
  assumes "delim \<noteq> []"
  shows "\<exists>r. split_loop str delim keep results = Some r"
proof (induction "length str" arbitrary: str results rule: less_induct)
  case less
  show ?case
  proof (cases "str_find delim str")
    case None
    then show ?thesis by (simp add: split_loop.simps)
  next
    case (Some n)
    have "length (drop (n + length delim) str) < length str"
      using str_find_bound [OF Some] assms by (cases delim) auto
    from less [OF this] Some show ?thesis by (simp add: split_loop.simps [of str])
  qed
qed

lemma split_loop_empty_delim: "split_loop str [] keep results = None"
proof (rule ccontr)
  assume "split_loop str [] keep results \<noteq> None"
  then obtain r where r: "split_loop str [] keep results = Some r" by auto
  have "[] \<noteq> ([] :: string)"
  proof (rule split_loop.raw_induct [where P = "\<lambda>str delim keep res r. delim \<noteq> []", OF _ r])
    fix f :: "string \<Rightarrow> string \<Rightarrow> bool \<Rightarrow> string list \<Rightarrow> string list option"
    fix str delim :: string and keep res r
    assume IH: "\<And>str delim keep res r. f str delim keep res = Some r \<Longrightarrow> delim \<noteq> []"
      and eq: "(case str_find delim str of
          None \<Rightarrow> Some (if str \<noteq> [] then res @ [(if keep then delim else []) @ str] else res)
        | Some n \<Rightarrow> f (drop (n + length delim) str) delim keep
            (if n \<noteq> 0 then res @ [(if keep then delim else []) @ take n str] else res)) = Some r"
    show "delim \<noteq> []"
    proof (cases "str_find delim str")
      case None
      then show ?thesis by (cases str) auto
    next
      case (Some n)
      with eq have "f (drop (n + length delim) str) delim keep
          (if n \<noteq> 0 then res @ [(if keep then delim else []) @ take n str] else res) = Some r"
        by simp
      then show ?thesis by (rule IH)
    qed
  qed
  then show False by simp
qed

lemma split_loop_join:
  "(\<And>p. p \<in> set parts \<Longrightarrow> p \<noteq> [] \<and> c \<notin> set p) \<Longrightarrow>
   split_loop (join parts [c]) [c] False results = Some (results @ parts)"
proof (induction parts arbitrary: results)
  case Nil
  then show ?case by (simp add: split_loop.simps)
next
  case (Cons p ps)
  from Cons.prems have p: "p \<noteq> []" "c \<notin> set p" by auto
  show ?case
  proof (cases ps)
    case Nil
    with p show ?thesis by (simp add: split_loop.simps str_find_singleton)
  next
    case (Cons q qs)
    have j: "join (p # ps) [c] = p @ c # join ps [c]" by (simp add: Cons)
    have tw: "takeWhile (\<lambda>x. x \<noteq> c) (p @ c # join ps [c]) = p"
      using p(2) by (simp add: takeWhile_append)
    have "str_find [c] (join (p # ps) [c]) = Some (length p)"
      by (simp only: str_find_singleton j tw) simp
    then have "split_loop (join (p # ps) [c]) [c] False results
        = split_loop (join ps [c]) [c] False (results @ [p])"
      using p(1) by (subst split_loop.simps) (simp only: j, simp)
    also have "\<dots> = Some ((results @ [p]) @ ps)"
      using Cons.prems by (intro Cons.IH) auto
    finally show ?thesis by simp
  qed
qed

subsection \<open>Fresh names\<close>

lemma infinite_suffixes: "infinite {suggestion @ to_string k |k. n \<le> k}"
proof -
  have "inj_on (\<lambda>k. suggestion @ to_string k) {n..}"
    by (auto simp: inj_on_def dest: to_string_inj)
  moreover have "infinite {n..}" by (simp add: infinite_Ici)
  ultimately have "infinite ((\<lambda>k. suggestion @ to_string k) ` {n..})"
    using finite_imageD by blast
  moreover have "(\<lambda>k. suggestion @ to_string k) ` {n..} = {suggestion @ to_string k |k. n \<le> k}"
    by auto
  ultimately show ?thesis by simp
qed

lemma free_suffix:
  assumes "finite (dom taken)"
  shows "\<exists>k \<ge> n. taken (suggestion @ to_string k) = None"
proof (rule ccontr)
  assume "\<not> ?thesis"
  then have "{suggestion @ to_string k |k. n \<le> k} \<subseteq> dom taken" by auto
  with assms infinite_suffixes show False using finite_subset by blast
qed

lemma freshNameLoop_at:
  assumes "taken (suggestion @ to_string k) = None" and "n \<le> k"
    and "(case taken suggestion of None \<Rightarrow> 0 | Some n \<Rightarrow> n) = n"
  shows "\<exists>name taken'. freshNameLoop suggestion taken = Some (name, taken') \<and> taken name = None \<and>
           name \<noteq> [] \<and> dom taken' = insert suggestion (dom taken) \<and> name \<noteq> suggestion"
  using assms
proof (induction "k - n" arbitrary: n taken)
  case 0
  then have "taken (suggestion @ to_string n) = None" by simp
  then show ?case using "0.prems"(3)
    by (subst freshNameLoop.simps) (auto simp: Let_def)
next
  case (Suc d)
  let ?taken = "taken(suggestion \<mapsto> n + 1)"
  show ?case
  proof (cases "taken (suggestion @ to_string n)")
    case None
    then show ?thesis using Suc.prems(3)
      by (subst freshNameLoop.simps) (auto simp: Let_def)
  next
    case (Some v)
    have "n < k" using Suc.hyps(2) by simp
    have "\<exists>name taken'. freshNameLoop suggestion ?taken = Some (name, taken') \<and>
        ?taken name = None \<and> name \<noteq> [] \<and> dom taken' = insert suggestion (dom ?taken) \<and>
        name \<noteq> suggestion"
      using Suc.prems Suc.hyps(2) by (intro Suc.hyps(1) [of "n + 1"]) auto
    moreover have "freshNameLoop suggestion taken = freshNameLoop suggestion ?taken"
      using Some Suc.prems(3) by (subst freshNameLoop.simps) (simp add: Let_def)
    ultimately show ?thesis by (auto split: if_splits)
  qed
qed

lemma getName_free:
  assumes "s \<noteq> []" and "takenNames g s = None"
  shows "getName g s = Some (s, g\<lparr>takenNames := (takenNames g)(s \<mapsto> 1)\<rparr>)"
  using assms by (subst getName.simps) simp

lemma getName_nonempty:
  assumes fin: "finite (dom (takenNames g))" and "s \<noteq> []"
  shows "\<exists>name g'. getName g s = Some (name, g') \<and> takenNames g name = None \<and>
    dom (takenNames g') = insert name (dom (takenNames g)) \<and> defaultName g' = defaultName g"
proof (cases "takenNames g s")
  case None
  with assms show ?thesis by (simp add: getName_free)
next
  case (Some m)
  obtain k where "m \<le> k" "takenNames g (s @ to_string k) = None"
    using free_suffix [OF fin] by blast
  with Some freshNameLoop_at [of "takenNames g" s k m]
  obtain name taken' where f: "freshNameLoop s (takenNames g) = Some (name, taken')"
    "takenNames g name = None" "name \<noteq> []" "dom taken' = insert s (dom (takenNames g))"
    "name \<noteq> s"
    by auto
  have "dom taken' = dom (takenNames g)" using f(4) Some by auto
  then have "taken' name = None" using f(2) by (metis domIff)
  with f have "getName g s =
      Some (name, g\<lparr>takenNames := taken'(name \<mapsto> 1)\<rparr>)"
    using assms(2) Some by (subst getName.simps) (simp add: getName_free)
  with f \<open>dom taken' = dom (takenNames g)\<close> show ?thesis by simp
qed

lemma getName_fresh:
  assumes "finite (dom (takenNames g))" and "defaultName g \<noteq> []"
  shows "\<exists>name g'. getName g s = Some (name, g') \<and> takenNames g name = None \<and>
    dom (takenNames g') = insert name (dom (takenNames g)) \<and> defaultName g' = defaultName g"
proof (cases "s = []")
  case True
  with assms getName_nonempty [of g "defaultName g"] show ?thesis
    by (subst getName.simps) simp
qed (rule getName_nonempty [OF assms(1)])

text \<open>
  C29. Names drawn one after the other from a name generator are pairwise different and different
  from every name it had handed out before, whatever the suggestions are (the suggestions may
  repeat, be empty, or coincide with generated names); the search for a free suffix always ends.
\<close>
lemma getNames_fresh:
  assumes "finite (dom (takenNames g))" and "defaultName g \<noteq> []"
  shows "\<exists>ns g'. getNames g ss = Some (ns, g') \<and> length ns = length ss \<and> distinct ns \<and>
    set ns \<inter> dom (takenNames g) = {} \<and> dom (takenNames g') = set ns \<union> dom (takenNames g)"
  using assms
proof (induction ss arbitrary: g)
  case (Cons s ss)
  obtain n g1 where n: "getName g s = Some (n, g1)" "takenNames g n = None"
    "dom (takenNames g1) = insert n (dom (takenNames g))" "defaultName g1 = defaultName g"
    using getName_fresh [OF Cons.prems] by blast
  have "finite (dom (takenNames g1))" "defaultName g1 \<noteq> []"
    using n Cons.prems by simp_all
  from Cons.IH [OF this] obtain ns g2 where ns: "getNames g1 ss = Some (ns, g2)"
    "length ns = length ss" "distinct ns" "set ns \<inter> dom (takenNames g1) = {}"
    "dom (takenNames g2) = set ns \<union> dom (takenNames g1)"
    by blast
  have "getNames g (s # ss) = Some (n # ns, g2)" by (simp add: n ns)
  moreover have "distinct (n # ns)" using ns n by auto
  moreover have "set (n # ns) \<inter> dom (takenNames g) = {}" using ns n by auto
  ultimately show ?case using ns n by auto
qed simp

theorem getNames_fresh_witness:
  "\<exists>ns g'. getNames \<lparr>takenNames = Map.empty, defaultName = ''x''\<rparr> [''a0'', ''a'', ''a'', []] =
       Some (ns, g') \<and> length ns = 4 \<and> distinct ns"
  using getNames_fresh [of "\<lparr>takenNames = Map.empty, defaultName = ''x''\<rparr>" "[''a0'', ''a'', ''a'', []]"]
  by auto

section \<open>Properties\<close>



text \<open>
  The variable-depth loop visits every multi-index exactly once and in row-major order: a body
  that records the offset of its index vector records 0, 1, 2, ... up to the product of the ranges.
\<close>
theorem variableLoop_row_major:
  assumes "list_all (\<lambda>r. 0 \<le> r) rs"
  shows "variableLoop rs [] (\<lambda>v acc. Inr (acc @ [nat (computeOffset rs (map int v))])) [] =
     Inr [0..<nat (prod_list rs)]"
proof -
  have "rfold (\<lambda>v acc. Inr (acc @ [f v])) vs acc = Inr (acc @ map f vs)"
    for f :: "nat list \<Rightarrow> nat" and vs acc
    by (induction vs arbitrary: acc) simp_all
  then show ?thesis using index_vectors_row_major [OF assms] by (simp add: variableLoop_eq_rfold)
qed

theorem variableLoop_row_major_witness:
  "variableLoop [2, 3] [] (\<lambda>v acc. Inr (acc @ [nat (computeOffset [2, 3] (map int v))])) [] =
     Inr [0..<6]"
  using variableLoop_row_major [of "[2, 3]"] by simp

text \<open>
  Splitting a string at a separator undoes joining with it: nonempty parts that do not contain
  the separator come back unchanged and in order.
\<close>
theorem split_join_roundtrip:
  assumes "\<forall>p \<in> set parts. p \<noteq> [] \<and> c \<notin> set p"
  shows "split (join parts [c]) [c] False = Some parts"
  using assms by (simp add: split_def split_loop_join)

theorem split_join_roundtrip_witness:
  "split (join [''ab'', ''c'', ''de''] '','') '','' False = Some [''ab'', ''c'', ''de'']"
  using split_join_roundtrip [of "[''ab'', ''c'', ''de'']" "CHR '',''"] by simp

text \<open>
  The splitting loop ends exactly when the delimiter is not empty: with an empty delimiter
  \<^verbatim>\<open>find\<close> succeeds at the same position for ever.
\<close>
theorem split_terminates_iff: "(\<exists>r. split str delim keepDelim = Some r) \<longleftrightarrow> delim \<noteq> []"
  using split_loop_terminates [of delim str keepDelim "[]"] split_loop_empty_delim [of str keepDelim "[]"]
  by (auto simp: split_def)

end
