(* ===== verification/Scoped_Map.thy ===== *)
theory Scoped_Map
  imports Prelude
begin

text \<open>
  \<^verbatim>\<open>src/src/util/scopedmap.h\<close>: a stack of scopes, each a \<^verbatim>\<open>std::map\<close>, the innermost first. The
  locale \<open>symbol_table\<close> states what its clients (the renamings of the path expression visitors, the
  symbol tables of the front end) rely on; the operations below are its interpretation.
\<close>

section \<open>Definitions\<close>

datatype SearchScope = AllScopes | CurrentOnly

record ('k, 'v) scoped_map =
  scopes :: "('k \<rightharpoonup> 'v) list"

definition mk_scoped_map :: "('k \<rightharpoonup> 'v) \<Rightarrow> ('k, 'v) scoped_map" where
  "mk_scoped_map sc = \<lparr>scopes = [sc]\<rparr>"

definition levels :: "('k, 'v) scoped_map \<Rightarrow> nat" where
  "levels m = length (scopes m)"

definition clear :: "('k, 'v) scoped_map \<Rightarrow> ('k, 'v) scoped_map result" where
  "clear m = iassert (levels m = 1) ''levels() == 1'' (Inr \<lparr>scopes = [Map.empty]\<rparr>)"

definition scope :: "('k \<rightharpoonup> 'v) \<Rightarrow> ('k, 'v) scoped_map \<Rightarrow> ('k, 'v) scoped_map" where
  "scope sc m = \<lparr>scopes = sc # scopes m\<rparr>"

definition unscope :: "('k, 'v) scoped_map \<Rightarrow> ('k, 'v) scoped_map result" where
  "unscope m = (case scopes m of [] \<Rightarrow> Inl Undefined | _ # rest \<Rightarrow> Inr \<lparr>scopes = rest\<rparr>)"

text \<open>\<open>insert\<close> with a key and a value assigns through \<^verbatim>\<open>operator[]\<close>, with a pair it keeps an old entry.\<close>

definition insert_symbol :: "'k \<Rightarrow> 'v \<Rightarrow> ('k, 'v) scoped_map \<Rightarrow> ('k, 'v) scoped_map result" where
  "insert_symbol symbol value m =
     (case scopes m of
        [] \<Rightarrow> Inl Undefined
      | front # rest \<Rightarrow> Inr \<lparr>scopes = front(symbol \<mapsto> value) # rest\<rparr>)"

definition insert_pair :: "'k \<times> 'v \<Rightarrow> ('k, 'v) scoped_map \<Rightarrow> ('k, 'v) scoped_map result" where
  "insert_pair symVal m =
     (case scopes m of
        [] \<Rightarrow> Inl Undefined
      | front # rest \<Rightarrow>
          Inr \<lparr>scopes = (if front (fst symVal) = None then front(fst symVal \<mapsto> snd symVal)
                         else front) # rest\<rparr>)"

fun contains_scopes :: "('k \<rightharpoonup> 'v) list \<Rightarrow> 'k \<Rightarrow> bool" where
  "contains_scopes [] symbol = False"
| "contains_scopes (sc # scs) symbol = (sc symbol \<noteq> None \<or> contains_scopes scs symbol)"

definition contains_symbol :: "('k, 'v) scoped_map \<Rightarrow> 'k \<Rightarrow> SearchScope \<Rightarrow> bool result" where
  "contains_symbol m symbol searchScope =
     (case searchScope of
        CurrentOnly \<Rightarrow> (case scopes m of [] \<Rightarrow> Inl Undefined | front # _ \<Rightarrow> Inr (front symbol \<noteq> None))
      | AllScopes \<Rightarrow> Inr (contains_scopes (scopes m) symbol))"

fun get_scopes :: "('k \<rightharpoonup> 'v) list \<Rightarrow> 'k \<Rightarrow> 'v result" where
  "get_scopes [] symbol = Inl (InternalError ''symbol not in symbol table'')"
| "get_scopes (sc # scs) symbol =
     (case sc symbol of Some v \<Rightarrow> Inr v | None \<Rightarrow> get_scopes scs symbol)"

definition get_symbol :: "('k, 'v) scoped_map \<Rightarrow> 'k \<Rightarrow> SearchScope \<Rightarrow> 'v result" where
  "get_symbol m symbol searchScope =
     (case searchScope of
        CurrentOnly \<Rightarrow>
          (case scopes m of
             [] \<Rightarrow> Inl Undefined
           | front # _ \<Rightarrow> iassert (front symbol \<noteq> None) ''symbol not in current scope''
                            (map_at front symbol))
      | AllScopes \<Rightarrow> get_scopes (scopes m) symbol)"

section \<open>What a client relies on\<close>

locale symbol_table =
  fixes enter :: "('k \<rightharpoonup> 'v) \<Rightarrow> 'm \<Rightarrow> 'm"
    and leave :: "'m \<Rightarrow> 'm result"
    and bind :: "'k \<Rightarrow> 'v \<Rightarrow> 'm \<Rightarrow> 'm result"
    and look :: "'m \<Rightarrow> 'k \<Rightarrow> 'v option"
    and depth :: "'m \<Rightarrow> nat"
  assumes leave_enter: "leave (enter sc m) = Inr m"
    and look_enter: "look (enter sc m) k = (case sc k of Some v \<Rightarrow> Some v | None \<Rightarrow> look m k)"
    and depth_enter: "depth (enter sc m) = Suc (depth m)"
    and bind_total: "0 < depth m \<Longrightarrow> \<exists>m'. bind k v m = Inr m'"
    and look_bind: "bind k v m = Inr m' \<Longrightarrow> look m' k' = (if k' = k then Some v else look m k')"
    and depth_bind: "bind k v m = Inr m' \<Longrightarrow> depth m' = depth m"
    and leave_bind: "bind k v m = Inr m' \<Longrightarrow> leave m' = leave m"
begin

text \<open>Whatever a client binds in a scope it opened is gone when it closes that scope.\<close>

lemma bindings_total: "0 < depth m \<Longrightarrow> \<exists>m'. rfold (\<lambda>(k, v). bind k v) kvs m = Inr m' \<and> depth m' = depth m"
proof (induction kvs arbitrary: m)
  case (Cons kv kvs)
  obtain k v where kv: "kv = (k, v)" by (cases kv)
  obtain m1 where m1: "bind k v m = Inr m1" using bind_total [OF Cons.prems] by blast
  from depth_bind [OF m1] Cons.IH [of m1] Cons.prems show ?case by (simp add: kv m1)
qed simp

lemma leave_bindings: "rfold (\<lambda>(k, v). bind k v) kvs m = Inr m' \<Longrightarrow> leave m' = leave m"
proof (induction kvs arbitrary: m)
  case (Cons kv kvs)
  then show ?case
    by (cases kv) (auto simp: rbind_eq_Inr dest: leave_bind)
qed simp

lemma look_bindings:
  "rfold (\<lambda>(k, v). bind k v) kvs m = Inr m' \<Longrightarrow>
   look m' k = (case map_of (rev kvs) k of Some v \<Rightarrow> Some v | None \<Rightarrow> look m k)"
proof (induction kvs arbitrary: m)
  case (Cons kv kvs)
  obtain k1 v1 where kv: "kv = (k1, v1)" by (cases kv)
  with Cons.prems obtain m1 where m1: "bind k1 v1 m = Inr m1"
    and r: "rfold (\<lambda>(k, v). bind k v) kvs m1 = Inr m'" by (auto simp: rbind_eq_Inr)
  from Cons.IH [OF r] look_bind [OF m1] show ?case
    by (auto simp: kv map_add_def split: option.splits)
qed simp

lemma scope_discipline:
  "\<exists>m'. rfold (\<lambda>(k, v). bind k v) kvs (enter sc m) = Inr m' \<and> leave m' = Inr m \<and>
     (\<forall>k. look m' k = (case map_of (rev kvs) k of Some v \<Rightarrow> Some v
                       | None \<Rightarrow> (case sc k of Some v \<Rightarrow> Some v | None \<Rightarrow> look m k)))"
proof -
  have "0 < depth (enter sc m)" by (simp add: depth_enter)
  from bindings_total [OF this] obtain m' where m': "rfold (\<lambda>(k, v). bind k v) kvs (enter sc m) = Inr m'"
    by blast
  show ?thesis
    by (intro exI [of _ m'] conjI allI)
      (simp_all add: m' leave_bindings [OF m'] leave_enter look_bindings [OF m'] look_enter
        split: option.split)
qed

end

section \<open>The interpretation\<close>

definition look_symbol :: "('k, 'v) scoped_map \<Rightarrow> 'k \<Rightarrow> 'v option" where
  "look_symbol m k = (case get_symbol m k AllScopes of Inl _ \<Rightarrow> None | Inr v \<Rightarrow> Some v)"

lemmas scoped_map_defs = scope_def unscope_def insert_symbol_def insert_pair_def
  contains_symbol_def get_symbol_def look_symbol_def levels_def

interpretation scoped: symbol_table scope unscope insert_symbol look_symbol levels
  by unfold_locales (auto simp: scoped_map_defs split: list.splits option.splits)

lemma get_scopes_contains: "(\<exists>v. get_scopes scs k = Inr v) \<longleftrightarrow> contains_scopes scs k"
  by (induction scs) (auto split: option.splits)

lemma contains_look: "contains_symbol m k AllScopes = Inr (look_symbol m k \<noteq> None)"
  using get_scopes_contains [of "scopes m" k]
  by (auto simp: scoped_map_defs split: sum.splits)

lemma get_look: "look_symbol m k = Some v \<Longrightarrow> get_symbol m k AllScopes = Inr v"
  by (simp add: look_symbol_def split: sum.splits)

section \<open>Properties\<close>

text \<open>
  C27. The scope discipline: after opening a scope and inserting any sequence of pairs, a lookup
  finds the last value inserted for a symbol, else its binding in the scope that was opened, else
  what the enclosing scopes say; and closing the scope restores the table exactly.
\<close>

theorem scoped_map_discipline:
  "\<exists>m'. rfold (\<lambda>(k, v). insert_symbol k v) kvs (scope sc m) = Inr m' \<and> unscope m' = Inr m \<and>
     (\<forall>k. look_symbol m' k = (case map_of (rev kvs) k of Some v \<Rightarrow> Some v
                              | None \<Rightarrow> (case sc k of Some v \<Rightarrow> Some v | None \<Rightarrow> look_symbol m k)))"
  by (rule scoped.scope_discipline)

end
