(* ===== verification/Tokens.thy ===== *)
theory Tokens
  imports Util
begin

text \<open>
  \<^verbatim>\<open>src/src/frontend/token.h\<close> and \<^verbatim>\<open>token.cpp\<close>: token kinds, tokens with their positions and the
  token stream between the scanner and the parser. The enumerators of \<^verbatim>\<open>Token::Type\<close> carry the
  prefix \<open>T_\<close>. The union of an \<^verbatim>\<open>int\<close> and a \<^verbatim>\<open>double\<close> in a token is the datatype \<open>token_value\<close>;
  the type of doubles is a parameter \<open>'d\<close>, because nothing here computes with them. Line and column
  numbers are natural numbers. The locale \<open>token_source\<close> states what a parser relies on.
\<close>

section \<open>Definitions\<close>

datatype (plugins only: size) TokenType =
    T_END | T_UNKNOWN | T_INT_LITERAL | T_FLOAT_LITERAL | T_STRING_LITERAL | T_IDENT | T_AND
  | T_OR | T_NEG | T_INT | T_FLOAT | T_BOOL | T_COMPLEX | T_STRING
  | T_TENSOR | T_MATRIX | T_VECTOR | T_ELEMENT | T_SET | T_GRID | T_OPAQUE
  | T_VAR | T_CONST | T_EXTERN | T_EXPORT | T_FUNC | T_INOUT | T_APPLY
  | T_MAP | T_TO | T_WITH | T_THROUGH | T_REDUCE | T_WHILE | T_DO
  | T_IF | T_ELIF | T_ELSE | T_FOR | T_IN | T_BLOCKEND | T_RETURN
  | T_TEST | T_PRINT | T_PRINTLN | T_NEW | T_DELETE | T_RARROW | T_LP
  | T_RP | T_LB | T_RB | T_LC | T_RC | T_LA | T_RA
  | T_COMMA | T_PERIOD | T_COL | T_SEMICOL | T_ASSIGN | T_PLUS | T_MINUS
  | T_STAR | T_SLASH | T_DOTSTAR | T_DOTSLASH | T_EXP | T_TRANSPOSE | T_BACKSLASH
  | T_EQ | T_NE | T_LE | T_GE | T_NOT | T_XOR | T_TRUE
  | T_FALSE | T_IVAR

text \<open>
  The enumerator values of \<^verbatim>\<open>Token::Type\<close>, by which C++ compares token types; \<open>token_types\<close> lists
  the enumerators in order.
\<close>

primrec token_code :: "TokenType \<Rightarrow> nat" where
  "token_code T_END = 0"
| "token_code T_UNKNOWN = 1"
| "token_code T_INT_LITERAL = 2"
| "token_code T_FLOAT_LITERAL = 3"
| "token_code T_STRING_LITERAL = 4"
| "token_code T_IDENT = 5"
| "token_code T_AND = 6"
| "token_code T_OR = 7"
| "token_code T_NEG = 8"
| "token_code T_INT = 9"
| "token_code T_FLOAT = 10"
| "token_code T_BOOL = 11"
| "token_code T_COMPLEX = 12"
| "token_code T_STRING = 13"
| "token_code T_TENSOR = 14"
| "token_code T_MATRIX = 15"
| "token_code T_VECTOR = 16"
| "token_code T_ELEMENT = 17"
| "token_code T_SET = 18"
| "token_code T_GRID = 19"
| "token_code T_OPAQUE = 20"
| "token_code T_VAR = 21"
| "token_code T_CONST = 22"
| "token_code T_EXTERN = 23"
| "token_code T_EXPORT = 24"
| "token_code T_FUNC = 25"
| "token_code T_INOUT = 26"
| "token_code T_APPLY = 27"
| "token_code T_MAP = 28"
| "token_code T_TO = 29"
| "token_code T_WITH = 30"
| "token_code T_THROUGH = 31"
| "token_code T_REDUCE = 32"
| "token_code T_WHILE = 33"
| "token_code T_DO = 34"
| "token_code T_IF = 35"
| "token_code T_ELIF = 36"
| "token_code T_ELSE = 37"
| "token_code T_FOR = 38"
| "token_code T_IN = 39"
| "token_code T_BLOCKEND = 40"
| "token_code T_RETURN = 41"
| "token_code T_TEST = 42"
| "token_code T_PRINT = 43"
| "token_code T_PRINTLN = 44"
| "token_code T_NEW = 45"
| "token_code T_DELETE = 46"
| "token_code T_RARROW = 47"
| "token_code T_LP = 48"
| "token_code T_RP = 49"
| "token_code T_LB = 50"
| "token_code T_RB = 51"
| "token_code T_LC = 52"
| "token_code T_RC = 53"
| "token_code T_LA = 54"
| "token_code T_RA = 55"
| "token_code T_COMMA = 56"
| "token_code T_PERIOD = 57"
| "token_code T_COL = 58"
| "token_code T_SEMICOL = 59"
| "token_code T_ASSIGN = 60"
| "token_code T_PLUS = 61"
| "token_code T_MINUS = 62"
| "token_code T_STAR = 63"
| "token_code T_SLASH = 64"
| "token_code T_DOTSTAR = 65"
| "token_code T_DOTSLASH = 66"
| "token_code T_EXP = 67"
| "token_code T_TRANSPOSE = 68"
| "token_code T_BACKSLASH = 69"
| "token_code T_EQ = 70"
| "token_code T_NE = 71"
| "token_code T_LE = 72"
| "token_code T_GE = 73"
| "token_code T_NOT = 74"
| "token_code T_XOR = 75"
| "token_code T_TRUE = 76"
| "token_code T_FALSE = 77"
| "token_code T_IVAR = 78"

definition token_types :: "TokenType list" where
  "token_types =
  [T_END, T_UNKNOWN, T_INT_LITERAL, T_FLOAT_LITERAL, T_STRING_LITERAL, T_IDENT, T_AND,
   T_OR, T_NEG, T_INT, T_FLOAT, T_BOOL, T_COMPLEX, T_STRING,
   T_TENSOR, T_MATRIX, T_VECTOR, T_ELEMENT, T_SET, T_GRID, T_OPAQUE,
   T_VAR, T_CONST, T_EXTERN, T_EXPORT, T_FUNC, T_INOUT, T_APPLY,
   T_MAP, T_TO, T_WITH, T_THROUGH, T_REDUCE, T_WHILE, T_DO,
   T_IF, T_ELIF, T_ELSE, T_FOR, T_IN, T_BLOCKEND, T_RETURN,
   T_TEST, T_PRINT, T_PRINTLN, T_NEW, T_DELETE, T_RARROW, T_LP,
   T_RP, T_LB, T_RB, T_LC, T_RC, T_LA, T_RA,
   T_COMMA, T_PERIOD, T_COL, T_SEMICOL, T_ASSIGN, T_PLUS, T_MINUS,
   T_STAR, T_SLASH, T_DOTSTAR, T_DOTSLASH, T_EXP, T_TRANSPOSE, T_BACKSLASH,
   T_EQ, T_NE, T_LE, T_GE, T_NOT, T_XOR, T_TRUE,
   T_FALSE, T_IVAR]"

lemma token_types_nth: "token_types ! token_code t = t"
  by (cases t) (simp_all add: token_types_def)

lemma token_code_inject: "token_code a = token_code b \<longleftrightarrow> a = b"
  by (metis token_types_nth)

instantiation TokenType :: equal
begin

definition "equal_TokenType a b \<longleftrightarrow> token_code a = token_code b"

instance
  by standard (simp add: equal_TokenType_def token_code_inject)

end

datatype 'd token_value = NoValue | IntValue int | FloatValue 'd

record 'd token =
  token_type :: TokenType
  token_value :: "'d token_value"
  token_str :: string
  lineBegin :: nat
  colBegin :: nat
  lineEnd :: nat
  colEnd :: nat

definition quoted :: "string \<Rightarrow> string" where
  "quoted s = [CHR 0x27] @ s @ [CHR 0x27]"

primrec tokenTypeString :: "TokenType \<Rightarrow> string" where
  "tokenTypeString T_END = ''end of file''"
| "tokenTypeString T_UNKNOWN = ''unknown''"
| "tokenTypeString T_INT_LITERAL = ''an integer literal''"
| "tokenTypeString T_FLOAT_LITERAL = ''a float literal''"
| "tokenTypeString T_STRING_LITERAL = ''a string literal''"
| "tokenTypeString T_IDENT = ''an identifier''"
| "tokenTypeString T_AND = quoted ''and''"
| "tokenTypeString T_OR = quoted ''or''"
| "tokenTypeString T_NEG = quoted ''-''"
| "tokenTypeString T_INT = quoted ''int''"
| "tokenTypeString T_FLOAT = quoted ''float''"
| "tokenTypeString T_BOOL = quoted ''bool''"
| "tokenTypeString T_COMPLEX = quoted ''complex''"
| "tokenTypeString T_STRING = quoted ''string''"
| "tokenTypeString T_TENSOR = quoted ''tensor''"
| "tokenTypeString T_MATRIX = quoted ''matrix''"
| "tokenTypeString T_VECTOR = quoted ''vector''"
| "tokenTypeString T_ELEMENT = quoted ''element''"
| "tokenTypeString T_SET = quoted ''set''"
| "tokenTypeString T_GRID = quoted ''grid''"
| "tokenTypeString T_OPAQUE = quoted ''opaque''"
| "tokenTypeString T_VAR = quoted ''var''"
| "tokenTypeString T_CONST = quoted ''const''"
| "tokenTypeString T_IVAR = quoted ''ivar''"
| "tokenTypeString T_EXTERN = quoted ''extern''"
| "tokenTypeString T_EXPORT = quoted ''export''"
| "tokenTypeString T_FUNC = quoted ''func''"
| "tokenTypeString T_INOUT = quoted ''inout''"
| "tokenTypeString T_APPLY = quoted ''apply''"
| "tokenTypeString T_MAP = quoted ''map''"
| "tokenTypeString T_TO = quoted ''to''"
| "tokenTypeString T_WITH = quoted ''with''"
| "tokenTypeString T_THROUGH = quoted ''through''"
| "tokenTypeString T_REDUCE = quoted ''reduce''"
| "tokenTypeString T_WHILE = quoted ''while''"
| "tokenTypeString T_DO = quoted ''do''"
| "tokenTypeString T_IF = quoted ''if''"
| "tokenTypeString T_ELIF = quoted ''elif''"
| "tokenTypeString T_ELSE = quoted ''else''"
| "tokenTypeString T_FOR = quoted ''for''"
| "tokenTypeString T_IN = quoted ''in''"
| "tokenTypeString T_BLOCKEND = quoted ''end''"
| "tokenTypeString T_RETURN = quoted ''return''"
| "tokenTypeString T_TEST = quoted ''test''"
| "tokenTypeString T_PRINT = quoted ''print''"
| "tokenTypeString T_PRINTLN = quoted ''println''"
| "tokenTypeString T_NEW = quoted ''new''"
| "tokenTypeString T_DELETE = quoted ''delete''"
| "tokenTypeString T_RARROW = quoted ''->''"
| "tokenTypeString T_LP = quoted ''(''"
| "tokenTypeString T_RP = quoted '')''"
| "tokenTypeString T_LB = quoted ''[''"
| "tokenTypeString T_RB = quoted '']''"
| "tokenTypeString T_LC = quoted ''{''"
| "tokenTypeString T_RC = quoted ''}''"
| "tokenTypeString T_LA = quoted ''<''"
| "tokenTypeString T_RA = quoted ''>''"
| "tokenTypeString T_COMMA = quoted '',''"
| "tokenTypeString T_PERIOD = quoted ''.''"
| "tokenTypeString T_COL = quoted '':''"
| "tokenTypeString T_SEMICOL = quoted '';''"
| "tokenTypeString T_ASSIGN = quoted ''=''"
| "tokenTypeString T_PLUS = quoted ''+''"
| "tokenTypeString T_MINUS = quoted ''-''"
| "tokenTypeString T_STAR = quoted ''*''"
| "tokenTypeString T_SLASH = quoted ''/''"
| "tokenTypeString T_DOTSTAR = quoted ''.*''"
| "tokenTypeString T_DOTSLASH = quoted ''./''"
| "tokenTypeString T_EXP = quoted ''^''"
| "tokenTypeString T_TRANSPOSE = quoted ([CHR 0x27])"
| "tokenTypeString T_BACKSLASH = quoted ([CHR 0x5C])"
| "tokenTypeString T_EQ = quoted ''==''"
| "tokenTypeString T_NE = quoted ''!=''"
| "tokenTypeString T_LE = quoted ''<=''"
| "tokenTypeString T_GE = quoted ''>=''"
| "tokenTypeString T_NOT = quoted ''not''"
| "tokenTypeString T_XOR = quoted ''xor''"
| "tokenTypeString T_TRUE = quoted ''true''"
| "tokenTypeString T_FALSE = quoted ''false''"

text \<open>\<^verbatim>\<open>std::to_string(int)\<close>; the text of a double is a parameter.\<close>

definition token_toString :: "('d \<Rightarrow> string) \<Rightarrow> 'd token \<Rightarrow> string" where
  "token_toString showd t =
     (let ty = token_type t in
      if ty = T_INT_LITERAL then
        quoted (case token_value t of IntValue n \<Rightarrow> int_to_string n | _ \<Rightarrow> [])
      else if ty = T_FLOAT_LITERAL then
        quoted (case token_value t of FloatValue d \<Rightarrow> showd d | _ \<Rightarrow> [])
      else if ty = T_STRING_LITERAL then
        quoted ([CHR 0x22] @ escape (token_str t) @ [CHR 0x22])
      else if ty = T_IDENT then quoted (token_str t)
      else tokenTypeString ty)"

subsection \<open>The token stream\<close>

type_synonym 'd token_stream = "'d token list"

definition pushToken :: "'d token \<Rightarrow> 'd token_stream \<Rightarrow> 'd token_stream" where
  "pushToken newToken tokens = tokens @ [newToken]"

definition mkToken :: "TokenType \<Rightarrow> nat \<Rightarrow> nat \<Rightarrow> nat \<Rightarrow> 'd token" where
  "mkToken ty line col len =
     \<lparr>token_type = ty, token_value = NoValue, token_str = [], lineBegin = line, colBegin = col,
      lineEnd = line, colEnd = col + len - 1\<rparr>"

definition addToken :: "TokenType \<Rightarrow> nat \<Rightarrow> nat \<Rightarrow> nat \<Rightarrow> 'd token_stream \<Rightarrow> 'd token_stream" where
  "addToken ty line col len tokens = pushToken (mkToken ty line col len) tokens"

definition skip :: "'d token_stream \<Rightarrow> 'd token_stream result" where
  "skip tokens = (case tokens of [] \<Rightarrow> Inl Undefined | _ # rest \<Rightarrow> Inr rest)"

definition consume :: "TokenType \<Rightarrow> 'd token_stream \<Rightarrow> (bool \<times> 'd token_stream) result" where
  "consume ty tokens =
     (case tokens of
        [] \<Rightarrow> Inl Undefined
      | front # rest \<Rightarrow> Inr (if token_type front = ty then (True, rest) else (False, tokens)))"

text \<open>The value-initialised token that \<^verbatim>\<open>peek\<close> delivers past the end.\<close>

definition endToken :: "'d token" where
  "endToken = \<lparr>token_type = T_END, token_value = IntValue 0, token_str = [], lineBegin = 0,
     colBegin = 0, lineEnd = 0, colEnd = 0\<rparr>"

definition peek :: "nat \<Rightarrow> 'd token_stream \<Rightarrow> 'd token result" where
  "peek k tokens =
     (if k = 0 then (case tokens of [] \<Rightarrow> Inl Undefined | front # _ \<Rightarrow> Inr front)
      else case drop k tokens of [] \<Rightarrow> Inr endToken | t # _ \<Rightarrow> Inr t)"

section \<open>What a parser relies on\<close>

locale token_source =
  fixes look_ahead :: "nat \<Rightarrow> 's \<Rightarrow> 'd token result"
    and advance :: "'s \<Rightarrow> 's result"
    and accept :: "TokenType \<Rightarrow> 's \<Rightarrow> (bool \<times> 's) result"
    and remaining :: "'s \<Rightarrow> 'd token list"
  assumes look_ahead_nth: "k < length (remaining s) \<Longrightarrow> look_ahead k s = Inr (remaining s ! k)"
    and look_ahead_end:
      "length (remaining s) \<le> k \<Longrightarrow> 0 < k \<Longrightarrow> \<exists>t. look_ahead k s = Inr t \<and> token_type t = T_END"
    and advance_tl: "remaining s \<noteq> [] \<Longrightarrow> \<exists>s'. advance s = Inr s' \<and> remaining s' = tl (remaining s)"
    and accept_hit: "remaining s \<noteq> [] \<Longrightarrow> token_type (hd (remaining s)) = ty \<Longrightarrow>
      \<exists>s'. accept ty s = Inr (True, s') \<and> remaining s' = tl (remaining s)"
    and accept_miss: "remaining s \<noteq> [] \<Longrightarrow> token_type (hd (remaining s)) \<noteq> ty \<Longrightarrow>
      accept ty s = Inr (False, s)"
begin

text \<open>
  Accepting is looking ahead and then advancing, and a stream that ends with an end token never
  runs dry under a parser that does not accept the end token.
\<close>

lemma accept_look_ahead:
  assumes "remaining s \<noteq> []"
  shows "\<exists>b s' t. accept ty s = Inr (b, s') \<and> look_ahead 0 s = Inr t \<and> (b \<longleftrightarrow> token_type t = ty) \<and>
    remaining s' = (if b then tl (remaining s) else remaining s)"
proof -
  have la: "look_ahead 0 s = Inr (hd (remaining s))"
    using look_ahead_nth [of 0 s] assms by (simp add: hd_conv_nth)
  show ?thesis
  proof (cases "token_type (hd (remaining s)) = ty")
    case True
    from accept_hit [OF assms this] obtain s' where "accept ty s = Inr (True, s')"
      "remaining s' = tl (remaining s)" by blast
    with la True show ?thesis by auto
  next
    case False
    with accept_miss [OF assms this] la show ?thesis by auto
  qed
qed

lemma accept_keeps_end:
  assumes "remaining s \<noteq> []" and "token_type (last (remaining s)) = T_END" and "ty \<noteq> T_END"
    and "accept ty s = Inr (b, s')"
  shows "remaining s' \<noteq> [] \<and> token_type (last (remaining s')) = T_END"
proof (cases "token_type (hd (remaining s)) = ty")
  case True
  with accept_hit [OF assms(1) True] assms(4) have s': "remaining s' = tl (remaining s)" by auto
  have "tl (remaining s) \<noteq> []"
    using True assms(1-3) by (cases "remaining s") auto
  with s' assms(1,2) show ?thesis by (simp add: last_tl)
next
  case False
  with accept_miss [OF assms(1) False] assms show ?thesis by simp
qed

end

interpretation stream: token_source peek skip consume "\<lambda>tokens. tokens"
proof
  fix k and s :: "'a token list"
  assume "length s \<le> k" "0 < k"
  then show "\<exists>t. peek k s = Inr t \<and> token_type t = T_END"
    by (simp add: peek_def endToken_def)
qed (auto simp: peek_def skip_def consume_def hd_conv_nth Cons_nth_drop_Suc [symmetric]
     split: list.splits)

section \<open>Properties\<close>

text \<open>
  \<^verbatim>\<open>TokenStream::consume\<close> agrees with \<^verbatim>\<open>peek(0)\<close>: on a non-empty stream it answers whether the
  front token has the requested type, removes exactly that token if so and nothing otherwise.
\<close>

theorem consume_agrees_with_peek:
  assumes "tokens \<noteq> []"
  shows "\<exists>b rest t. consume ty tokens = Inr (b, rest) \<and> peek 0 tokens = Inr t \<and>
    (b \<longleftrightarrow> token_type t = ty) \<and> rest = (if b then tl tokens else tokens)"
  by (rule stream.accept_look_ahead [OF assms])

theorem consume_agrees_with_peek_witness:
  "\<exists>b rest t. consume T_LP [mkToken T_LP 1 1 1 :: nat token] = Inr (b, rest) \<and>
    peek 0 [mkToken T_LP 1 1 1 :: nat token] = Inr t \<and> (b \<longleftrightarrow> token_type t = T_LP) \<and>
    rest = (if b then tl [mkToken T_LP 1 1 1] else [mkToken T_LP 1 1 1])"
  by (rule consume_agrees_with_peek) simp

end
