(* ===== verification/Scanner.thy ===== *)
theory Scanner
  imports Tokens
begin

text \<open>
  \<^verbatim>\<open>src/src/frontend/scanner.cpp\<close>: the scanner that turns a program text into a token stream and a
  list of parse errors. The variables of \<^verbatim>\<open>Scanner::lex\<close> and what is left of the input stream are the
  record \<open>scan_state\<close>; one pass through the loop body is \<open>lex_step\<close>, with one definition per group of
  cases; the loop \<open>lex_loop\<close> terminates because every step consumes input. Characters are bytes,
  classified as the C locale does. \<^verbatim>\<open>std::strtod\<close>, whose value no part of the scanner looks at, is the
  parameter \<open>strtod\<close>; \<^verbatim>\<open>std::strtol\<close> with base 0 is modelled, with its octal reading of a leading
  zero, its saturation and the conversion from \<^verbatim>\<open>long\<close> to a 32-bit \<^verbatim>\<open>int\<close>.
\<close>

section \<open>Definitions\<close>

subsection \<open>Character classes\<close>

definition isdigit :: "char \<Rightarrow> bool" where
  "isdigit c = (48 \<le> (of_char c :: nat) \<and> (of_char c :: nat) \<le> 57)"

definition isalpha :: "char \<Rightarrow> bool" where
  "isalpha c = ((65 \<le> (of_char c :: nat) \<and> (of_char c :: nat) \<le> 90) \<or>
     (97 \<le> (of_char c :: nat) \<and> (of_char c :: nat) \<le> 122))"

definition isalnum :: "char \<Rightarrow> bool" where
  "isalnum c = (isalpha c \<or> isdigit c)"

definition isspace :: "char \<Rightarrow> bool" where
  "isspace c = (c = CHR 0x20 \<or> (9 \<le> (of_char c :: nat) \<and> (of_char c :: nat) \<le> 13))"

definition word_char :: "char \<Rightarrow> bool" where
  "word_char c = (c = CHR ''_'' \<or> isalnum c)"

subsection \<open>Keywords\<close>

definition getTokenType :: "string \<Rightarrow> TokenType" where
  "getTokenType token =
     (if token = ''int'' then T_INT
      else if token = ''float'' then T_FLOAT
      else if token = ''bool'' then T_BOOL
      else if token = ''complex'' then T_COMPLEX
      else if token = ''string'' then T_STRING
      else if token = ''tensor'' then T_TENSOR
      else if token = ''matrix'' then T_MATRIX
      else if token = ''vector'' then T_VECTOR
      else if token = ''element'' then T_ELEMENT
      else if token = ''set'' then T_SET
      else if token = ''grid'' then T_GRID
      else if token = ''opaque'' then T_OPAQUE
      else if token = ''var'' then T_VAR
      else if token = ''const'' then T_CONST
      else if token = ''extern'' then T_EXTERN
      else if token = ''export'' then T_EXPORT
      else if token = ''func'' then T_FUNC
      else if token = ''inout'' then T_INOUT
      else if token = ''apply'' then T_APPLY
      else if token = ''map'' then T_MAP
      else if token = ''to'' then T_TO
      else if token = ''with'' then T_WITH
      else if token = ''reduce'' then T_REDUCE
      else if token = ''through'' then T_THROUGH
      else if token = ''while'' then T_WHILE
      else if token = ''do'' then T_DO
      else if token = ''if'' then T_IF
      else if token = ''elif'' then T_ELIF
      else if token = ''else'' then T_ELSE
      else if token = ''for'' then T_FOR
      else if token = ''in'' then T_IN
      else if token = ''end'' then T_BLOCKEND
      else if token = ''return'' then T_RETURN
      else if token = ''print'' then T_PRINT
      else if token = ''println'' then T_PRINTLN
      else if token = ''new'' then T_NEW
      else if token = ''delete'' then T_DELETE
      else if token = ''and'' then T_AND
      else if token = ''or'' then T_OR
      else if token = ''not'' then T_NOT
      else if token = ''xor'' then T_XOR
      else if token = ''true'' then T_TRUE
      else if token = ''false'' then T_FALSE
      else if token = ''ivar'' then T_IVAR
      else T_IDENT)"

subsection \<open>The state of the scanner\<close>

datatype ScanState = INITIAL | SLTEST | MLTEST

record parse_error =
  firstLine :: nat
  firstColumn :: nat
  lastLine :: nat
  lastColumn :: nat
  msg :: string

record 'd scan_state =
  input :: string
  line :: nat
  col :: nat
  scanState :: ScanState
  tokens :: "'d token_stream"
  errors :: "parse_error list"

definition reportError :: "string \<Rightarrow> nat \<Rightarrow> nat \<Rightarrow> 'd scan_state \<Rightarrow> 'd scan_state" where
  "reportError m l c st =
     st\<lparr>errors := errors st @
        [\<lparr>firstLine = l, firstColumn = c, lastLine = l, lastColumn = c, msg = m\<rparr>]\<rparr>"

text \<open>The character \<^verbatim>\<open>(char)peek()\<close>: the end of the stream is \<^verbatim>\<open>EOF\<close>, whose low byte is 255.\<close>

definition peek_char :: "string \<Rightarrow> char" where
  "peek_char s = (case s of [] \<Rightarrow> CHR 0xFF | c # _ \<Rightarrow> c)"

text \<open>Report the symbol and skip to the next white space; \<open>s\<close> and \<open>c\<close> are the current input and column.\<close>

definition unexpectedSymbol :: "string \<Rightarrow> nat \<Rightarrow> 'd scan_state \<Rightarrow> 'd scan_state" where
  "unexpectedSymbol s c st =
     (reportError (''unexpected symbol '' @ quoted [peek_char s]) (line st) c st)
       \<lparr>input := dropWhile (\<lambda>x. \<not> isspace x) s,
        col := c + length (takeWhile (\<lambda>x. \<not> isspace x) s)\<rparr>"

subsection \<open>Words and symbols\<close>

definition scanWord :: "'d scan_state \<Rightarrow> 'd scan_state" where
  "scanWord st =
     (let tokenString = takeWhile word_char (input st); ty = getTokenType tokenString in
      st\<lparr>input := dropWhile word_char (input st),
         tokens := pushToken
           \<lparr>token_type = ty, token_value = NoValue,
            token_str = (if ty = T_IDENT then tokenString else []),
            lineBegin = line st, colBegin = col st,
            lineEnd = line st, colEnd = col st + length tokenString - 1\<rparr> (tokens st),
         col := col st + length tokenString\<rparr>)"

definition symbol :: "TokenType \<Rightarrow> nat \<Rightarrow> 'd scan_state \<Rightarrow> 'd scan_state" where
  "symbol ty len st =
     st\<lparr>input := drop len (input st), tokens := addToken ty (line st) (col st) len (tokens st),
        col := col st + len\<rparr>"

text \<open>A symbol that may be followed by a second character: \<open>t2\<close> if it is \<open>c2\<close>, else \<open>t1\<close>.\<close>

definition symbol2 :: "char \<Rightarrow> TokenType \<Rightarrow> TokenType \<Rightarrow> 'd scan_state \<Rightarrow> 'd scan_state" where
  "symbol2 c2 t2 t1 st =
     (case tl (input st) of
        [] \<Rightarrow> symbol t1 1 st
      | c # _ \<Rightarrow> if c = c2 then symbol t2 2 st else symbol t1 1 st)"

definition scanPeriod :: "'d scan_state \<Rightarrow> 'd scan_state" where
  "scanPeriod st =
     (case tl (input st) of
        [] \<Rightarrow> symbol T_PERIOD 1 st
      | c # _ \<Rightarrow> if c = CHR ''*'' then symbol T_DOTSTAR 2 st
                else if c = CHR ''/'' then symbol T_DOTSLASH 2 st
                else symbol T_PERIOD 1 st)"

definition scanBang :: "'d scan_state \<Rightarrow> 'd scan_state" where
  "scanBang st =
     (let rest = tl (input st);
          err = (reportError (''unexpected symbol '' @ quoted ''!'') (line st) (col st) st)
            \<lparr>input := dropWhile (\<lambda>x. \<not> isspace x) rest,
             col := col st + 1 + length (takeWhile (\<lambda>x. \<not> isspace x) rest)\<rparr>
      in case rest of
           [] \<Rightarrow> err
         | c # _ \<Rightarrow> if c = CHR ''='' then symbol T_NE 2 st else err)"

subsection \<open>Comments and tests\<close>

text \<open>The loop over a multi-line comment: what is left of the input, the line and the column.\<close>

fun commentLoop :: "string \<Rightarrow> nat \<Rightarrow> nat \<Rightarrow> string \<times> nat \<times> nat" where
  "commentLoop [] l c = ([], l, c)"
| "commentLoop (x # xs) l c =
     (if x = CHR ''%'' then
        (case xs of
           [] \<Rightarrow> ([], l, c + 2)
         | y # ys \<Rightarrow>
             let l' = (if y = CHR 0x0A then l + 1 else l); c' = (if y = CHR 0x0A then 1 else c + 2)
             in if y = CHR ''}'' then (ys, l', c') else commentLoop ys l' c')
      else if x = CHR 0x0A then commentLoop xs (l + 1) 1
      else commentLoop xs l (c + 1))"

definition scanComment :: "'d scan_state \<Rightarrow> 'd scan_state" where
  "scanComment st =
     (case commentLoop (tl (input st)) (line st) (col st + 1) of
        (rest, l, c) \<Rightarrow>
          let st' = st\<lparr>input := rest, line := l, col := c\<rparr>
          in if rest = [] then reportError ''unclosed comment'' l c st' else st')"

definition scanPercent :: "'d scan_state \<Rightarrow> 'd scan_state" where
  "scanPercent st =
     (let rest = tl (input st);
          comment = takeWhile (\<lambda>x. x \<noteq> CHR 0x0A) rest;
          sl = st\<lparr>input := dropWhile (\<lambda>x. x \<noteq> CHR 0x0A) rest, col := col st + length comment + 1\<rparr>
      in case rest of
           [] \<Rightarrow> sl
         | c # _ \<Rightarrow>
             if c = CHR ''!'' then (symbol T_TEST 2 st)\<lparr>scanState := SLTEST\<rparr>
             else if c = CHR ''{'' then
               (if peek_char rest = CHR ''!'' then
                  (symbol T_TEST 2 st)\<lparr>scanState := MLTEST\<rparr>
                else scanComment st)
             else if c = CHR ''}'' then
               (let st' = st\<lparr>input := tl rest, col := col st + 2\<rparr>
                in if scanState st = MLTEST then st'\<lparr>scanState := INITIAL\<rparr>
                   else reportError (''could not find corresponding '' @ quoted ''!%{'')
                          (line st) (col st) st')
             else sl)"

subsection \<open>String literals\<close>

definition unescape :: "char \<Rightarrow> char option" where
  "unescape c =
     (if c = CHR ''a'' then Some (CHR 0x07)
      else if c = CHR ''b'' then Some (CHR 0x08)
      else if c = CHR ''f'' then Some (CHR 0x0C)
      else if c = CHR ''n'' then Some (CHR 0x0A)
      else if c = CHR ''r'' then Some (CHR 0x0D)
      else if c = CHR ''t'' then Some (CHR 0x09)
      else if c = CHR ''v'' then Some (CHR 0x0B)
      else if c = CHR 0x5C then Some (CHR 0x5C)
      else if c = CHR 0x27 then Some (CHR 0x27)
      else if c = CHR 0x22 then Some (CHR 0x22)
      else if c = CHR 0x3F then Some (CHR 0x3F)
      else None)"

text \<open>
  The loop over the characters of a literal: what is left of the input, the column, the contents and
  the columns at which an unrecognized escape sequence was reported.
\<close>

fun stringLoop :: "string \<Rightarrow> nat \<Rightarrow> string \<Rightarrow> nat list \<Rightarrow> string \<times> nat \<times> string \<times> nat list" where
  "stringLoop [] c str errs = ([], c, str, errs)"
| "stringLoop (x # xs) c str errs =
     (if x = CHR 0x22 then (x # xs, c, str, errs)
      else if x = CHR 0x5C then
        (case xs of
           [] \<Rightarrow> ([], c + 1, str, errs @ [c])
         | y # ys \<Rightarrow>
             (case unescape y of
                Some e \<Rightarrow> stringLoop ys (c + 2) (str @ [e]) errs
              | None \<Rightarrow> stringLoop xs (c + 1) str (errs @ [c])))
      else stringLoop xs (c + 1) (str @ [x]) errs)"

definition scanString :: "'d scan_state \<Rightarrow> 'd scan_state" where
  "scanString st =
     (case stringLoop (tl (input st)) (col st + 1) [] [] of
        (rest, c, str, errs) \<Rightarrow>
          let st1 = fold (\<lambda>e. reportError ''unrecognized escape sequence'' (line st) e) errs st;
              st2 = st1\<lparr>tokens := pushToken
                \<lparr>token_type = T_STRING_LITERAL, token_value = NoValue, token_str = str,
                 lineBegin = line st, colBegin = col st, lineEnd = line st, colEnd = c\<rparr> (tokens st1)\<rparr>
          in if rest \<noteq> [] then st2\<lparr>input := tl rest, col := c + 1\<rparr>
             else reportError ''unclosed string literal'' (line st) c
                    (st2\<lparr>input := rest, col := c\<rparr>))"

subsection \<open>White space\<close>

definition newline :: "nat \<Rightarrow> 'd scan_state \<Rightarrow> 'd scan_state" where
  "newline len st =
     st\<lparr>input := drop len (input st), line := line st + 1, col := 1,
        scanState := (if scanState st = SLTEST then INITIAL else scanState st)\<rparr>"

definition scanCarriageReturn :: "'d scan_state \<Rightarrow> 'd scan_state" where
  "scanCarriageReturn st =
     (case tl (input st) of
        [] \<Rightarrow> newline 1 st
      | c # _ \<Rightarrow> if c = CHR 0x0A then newline 2 st else newline 1 st)"

definition blank :: "'d scan_state \<Rightarrow> 'd scan_state" where
  "blank st = st\<lparr>input := tl (input st), col := col st + 1\<rparr>"

subsection \<open>Numbers\<close>

definition digit_val :: "char \<Rightarrow> nat" where
  "digit_val c = of_char c - 48"

definition digits_val :: "nat \<Rightarrow> string \<Rightarrow> nat" where
  "digits_val base s = foldl (\<lambda>n c. base * n + digit_val c) 0 s"

text \<open>\<^verbatim>\<open>strtol(s, &end, 0)\<close> on a string of decimal digits: a leading zero selects base 8.\<close>

definition strtol :: "string \<Rightarrow> int" where
  "strtol s =
     min (2 ^ 63 - 1)
       (int (if s \<noteq> [] \<and> hd s = CHR ''0''
             then digits_val 8 (takeWhile (\<lambda>c. digit_val c < 8) (tl s))
             else digits_val 10 s))"

definition long_to_int :: "int \<Rightarrow> int" where
  "long_to_int n = (n + 2 ^ 31) mod 2 ^ 32 - 2 ^ 31"

text \<open>
  The fractional part and the exponent: \<open>Inl\<close> is the input and column at which a digit was missing,
  \<open>Inr\<close> the type and text of the token with the input and column after it.
\<close>

definition scanFraction ::
  "string \<Rightarrow> string \<Rightarrow> nat \<Rightarrow> (string \<times> nat) + (TokenType \<times> string \<times> string \<times> nat)" where
  "scanFraction tokenString s c =
     (if s \<noteq> [] \<and> hd s = CHR ''.'' then
        (let s1 = tl s; ds = takeWhile isdigit s1 in
         if s1 = [] \<or> \<not> isdigit (hd s1) then Inl (s1, c + 1)
         else Inr (T_FLOAT_LITERAL, tokenString @ CHR ''.'' # ds, drop (length ds) s1,
                   c + 1 + length ds))
      else Inr (T_INT_LITERAL, tokenString, s, c))"

definition scanExponent ::
  "TokenType \<Rightarrow> string \<Rightarrow> string \<Rightarrow> nat \<Rightarrow>
     (string \<times> nat) + (TokenType \<times> string \<times> string \<times> nat)" where
  "scanExponent ty tokenString s c =
     (if s \<noteq> [] \<and> (hd s = CHR ''e'' \<or> hd s = CHR ''E'') then
        (let s1 = tl s;
             sign = (if s1 \<noteq> [] \<and> (hd s1 = CHR ''+'' \<or> hd s1 = CHR ''-'') then [hd s1] else []);
             s2 = drop (length sign) s1; c2 = c + 1 + length sign;
             ds = takeWhile isdigit s2
         in if s2 = [] \<or> \<not> isdigit (hd s2) then Inl (s2, c2)
            else Inr (T_FLOAT_LITERAL, tokenString @ hd s # sign @ ds, drop (length ds) s2,
                      c2 + length ds))
      else Inr (ty, tokenString, s, c))"

definition numberToken ::
  "(string \<Rightarrow> 'd) \<Rightarrow> TokenType \<Rightarrow> string \<Rightarrow> string \<Rightarrow> nat \<Rightarrow> 'd scan_state \<Rightarrow> 'd scan_state" where
  "numberToken strtod ty tokenString s c st =
     st\<lparr>input := s, col := c,
        tokens := pushToken
          \<lparr>token_type = ty,
           token_value = (if ty = T_INT_LITERAL then IntValue (long_to_int (strtol tokenString))
                          else FloatValue (strtod tokenString)),
           token_str = [], lineBegin = line st, colBegin = col st,
           lineEnd = line st, colEnd = c - 1\<rparr> (tokens st)\<rparr>"

definition scanNumber :: "(string \<Rightarrow> 'd) \<Rightarrow> 'd scan_state \<Rightarrow> 'd scan_state" where
  "scanNumber strtod st =
     (let s = input st in
      if peek_char s \<noteq> CHR ''.'' \<and> \<not> isdigit (peek_char s) then unexpectedSymbol s (col st) st
      else
        let ds = takeWhile isdigit s in
        case scanFraction ds (drop (length ds) s) (col st + length ds) of
          Inl (s1, c1) \<Rightarrow> unexpectedSymbol s1 c1 st
        | Inr (ty1, ts1, s1, c1) \<Rightarrow>
            (case scanExponent ty1 ts1 s1 c1 of
               Inl (s2, c2) \<Rightarrow> unexpectedSymbol s2 c2 st
             | Inr (ty2, ts2, s2, c2) \<Rightarrow> numberToken strtod ty2 ts2 s2 c2 st))"

subsection \<open>The loop\<close>

definition lex_step :: "(string \<Rightarrow> 'd) \<Rightarrow> 'd scan_state \<Rightarrow> 'd scan_state" where
  "lex_step strtod st =
     (let c = peek_char (input st) in
      if c = CHR ''_'' \<or> isalpha c then scanWord st
      else if c = CHR ''('' then symbol T_LP 1 st
      else if c = CHR '')'' then symbol T_RP 1 st
      else if c = CHR ''['' then symbol T_LB 1 st
      else if c = CHR '']'' then symbol T_RB 1 st
      else if c = CHR ''{'' then symbol T_LC 1 st
      else if c = CHR ''}'' then symbol T_RC 1 st
      else if c = CHR ''<'' then symbol2 (CHR ''='') T_LE T_LA st
      else if c = CHR ''>'' then symbol2 (CHR ''='') T_GE T_RA st
      else if c = CHR '','' then symbol T_COMMA 1 st
      else if c = CHR ''.'' then scanPeriod st
      else if c = CHR '':'' then symbol T_COL 1 st
      else if c = CHR '';'' then symbol T_SEMICOL 1 st
      else if c = CHR ''='' then symbol2 (CHR ''='') T_EQ T_ASSIGN st
      else if c = CHR ''*'' then symbol T_STAR 1 st
      else if c = CHR ''/'' then symbol T_SLASH 1 st
      else if c = CHR 0x5C then symbol T_BACKSLASH 1 st
      else if c = CHR ''^'' then symbol T_EXP 1 st
      else if c = CHR 0x27 then symbol T_TRANSPOSE 1 st
      else if c = CHR ''!'' then scanBang st
      else if c = CHR ''%'' then scanPercent st
      else if c = CHR 0x22 then scanString st
      else if c = CHR 0x0D then scanCarriageReturn st
      else if c = CHR 0x0B \<or> c = CHR 0x0C \<or> c = CHR 0x0A then newline 1 st
      else if c = CHR 0x20 \<or> c = CHR 0x09 then blank st
      else if c = CHR ''+'' then symbol T_PLUS 1 st
      else if c = CHR ''-'' then symbol2 (CHR ''>'') T_RARROW T_MINUS st
      else scanNumber strtod st)"

subsection \<open>Every step consumes input\<close>

lemma isspace_cases:
  "isspace c \<longleftrightarrow> c \<in> {CHR 0x20, CHR 0x09, CHR 0x0A, CHR 0x0B, CHR 0x0C, CHR 0x0D}"
proof -
  have eq: "c = d \<longleftrightarrow> (of_char c :: nat) = of_char d" for d by simp
  have "(9 \<le> (of_char c :: nat) \<and> (of_char c :: nat) \<le> 13) \<longleftrightarrow>
      of_char c \<in> {9 :: nat, 10, 11, 12, 13}" by auto
  then show ?thesis
    by (simp only: isspace_def insert_iff empty_iff eq [of "CHR 0x20"] eq [of "CHR 0x09"]
        eq [of "CHR 0x0A"] eq [of "CHR 0x0B"] eq [of "CHR 0x0C"] eq [of "CHR 0x0D"]) auto
qed

declare commentLoop.simps(2) [simp del] stringLoop.simps(2) [simp del]

lemma commentLoop_length: "length (fst (commentLoop s l c)) \<le> length s"
proof (induction "length s" arbitrary: s l c rule: less_induct)
  case less
  have IH: "length (fst (commentLoop ys l' c')) \<le> n" if "length ys < length s" "length ys \<le> n"
    for ys l' c' n
    using less [OF that(1), of l' c'] that(2) by (rule order_trans)
  show ?case
  proof (cases s)
    case (Cons x xs)
    show ?thesis
    proof (cases xs)
      case Nil
      with Cons IH [of xs] show ?thesis by (simp add: commentLoop.simps(2) [of x "[]" l c])
    next
      case (Cons y ys)
      with \<open>s = x # xs\<close> IH [of ys] IH [of xs] show ?thesis
        by (simp add: commentLoop.simps(2) [of x "y # ys" l c] Let_def)
    qed
  qed simp
qed

lemma stringLoop_length: "length (fst (stringLoop s c str errs)) \<le> length s"
proof (induction "length s" arbitrary: s c str errs rule: less_induct)
  case less
  have IH: "length (fst (stringLoop ys c' str' errs')) \<le> n" if "length ys < length s" "length ys \<le> n"
    for ys c' str' errs' n
    using less [OF that(1), of c' str' errs'] that(2) by (rule order_trans)
  show ?case
  proof (cases s)
    case (Cons x xs)
    show ?thesis
    proof (cases xs)
      case Nil
      with Cons show ?thesis by (simp add: stringLoop.simps(2) [of x "[]" c str errs])
    next
      case (Cons y ys)
      with \<open>s = x # xs\<close> IH [of ys] IH [of xs] show ?thesis
        by (simp add: stringLoop.simps(2) [of x "y # ys" c str errs] split: option.split)
    qed
  qed simp
qed

definition single_symbols :: "TokenType set" where
  "single_symbols = {T_LP, T_RP, T_LB, T_RB, T_LC, T_RC, T_COMMA, T_COL, T_SEMICOL, T_STAR,
     T_SLASH, T_BACKSLASH, T_EXP, T_TRANSPOSE, T_PLUS}"

definition double_symbols :: "(TokenType \<times> TokenType) set" where
  "double_symbols = {(T_LE, T_LA), (T_GE, T_RA), (T_EQ, T_ASSIGN), (T_RARROW, T_MINUS)}"

lemma lex_step_outcome:
  assumes "word_char (peek_char (input st)) \<Longrightarrow> P (scanWord st)"
    and "\<And>ty. ty \<in> single_symbols \<Longrightarrow> P (symbol ty 1 st)"
    and "\<And>c ty2 ty1. (ty2, ty1) \<in> double_symbols \<Longrightarrow> P (symbol2 c ty2 ty1 st)"
    and "P (scanPeriod st)" and "P (scanBang st)" and "P (scanPercent st)" and "P (scanString st)"
    and "P (scanCarriageReturn st)" and "P (newline 1 st)" and "P (blank st)"
    and "\<not> isspace (peek_char (input st)) \<Longrightarrow> peek_char (input st) \<noteq> CHR ''.'' \<Longrightarrow> P (scanNumber strtod st)"
  shows "P (lex_step strtod st)"
proof -
  have ifI: "(c \<Longrightarrow> P a) \<Longrightarrow> (\<not> c \<Longrightarrow> P b) \<Longrightarrow> P (if c then a else b)" for c a b by simp
  show ?thesis
    unfolding lex_step_def Let_def
    by (intro ifI assms)
      (auto simp: single_symbols_def double_symbols_def isspace_cases word_char_def isalnum_def)
qed

lemma commentLoop_shorter: "commentLoop s l c = (rest, l', c') \<Longrightarrow> length rest \<le> length s"
  using commentLoop_length [of s l c] by simp

lemma stringLoop_shorter: "stringLoop s c str errs = (rest, c', str', errs') \<Longrightarrow> length rest \<le> length s"
  using stringLoop_length [of s c str errs] by simp

lemma fold_reportError_input [simp]: "input (fold (\<lambda>e. reportError m l e) errs st) = input st"
  by (induction errs arbitrary: st) (simp_all add: reportError_def)

lemma dropWhile_Suc: "length (dropWhile P xs) < Suc (length xs)"
  using length_dropWhile_le [of P xs] by simp

lemma scanFraction_shorter:
  "scanFraction ts s c = Inl (s', c') \<Longrightarrow> length s' < length s"
  "scanFraction ts s c = Inr (ty, ts', s', c') \<Longrightarrow> length s' \<le> length s"
  by (auto simp: scanFraction_def Let_def split: if_splits)

lemma scanExponent_shorter:
  "scanExponent ty ts s c = Inl (s', c') \<Longrightarrow> length s' < length s"
  "scanExponent ty ts s c = Inr (ty', ts', s', c') \<Longrightarrow> length s' \<le> length s"
  by (cases s; auto simp: scanExponent_def Let_def split: if_splits)+

lemma scanNumber_shorter:
  assumes "input st = c # cs" and "\<not> isspace c" and "c \<noteq> CHR ''.''"
  shows "length (input (scanNumber strtod st)) < length (input st)"
proof -
  let ?ds = "takeWhile isdigit (c # cs)"
  have un: "length (input (unexpectedSymbol s c' st)) \<le> length s" for s c'
    by (simp add: unexpectedSymbol_def reportError_def length_dropWhile_le)
  show ?thesis
  proof (cases "isdigit c")
    case False
    with assms dropWhile_Suc show ?thesis
      by (simp add: scanNumber_def peek_char_def unexpectedSymbol_def reportError_def)
  next
    case True
    then have d: "length (drop (length ?ds) (c # cs)) < length (c # cs)" by simp
    have un_less: "length (input (unexpectedSymbol s c' st)) < length (c # cs)"
      if "length s \<le> length (drop (length ?ds) (c # cs))" for s c'
      using un [of s c'] that d by simp
    show ?thesis
    proof (cases "scanFraction ?ds (drop (length ?ds) (c # cs)) (col st + length ?ds)")
      case (Inl r)
      then show ?thesis
        using True assms un_less scanFraction_shorter(1)
        by (cases r) (fastforce simp: scanNumber_def peek_char_def)
    next
      case (Inr r)
      obtain ty1 ts1 s1 c1 where r: "r = (ty1, ts1, s1, c1)" by (cases r)
      from scanFraction_shorter(2) Inr r
      have s1: "length s1 \<le> length (drop (length ?ds) (c # cs))" by blast
      show ?thesis
      proof (cases "scanExponent ty1 ts1 s1 c1")
        case (Inl q)
        obtain s2 c2 where q: "q = (s2, c2)" by (cases q)
        with Inl have "length s2 < length s1" by (auto intro: scanExponent_shorter(1))
        with s1 have "length (input (unexpectedSymbol s2 c2 st)) < length (c # cs)"
          by (intro un_less) simp
        with Inl Inr r q True assms show ?thesis
          by (simp add: scanNumber_def peek_char_def)
      next
        case (Inr q)
        obtain ty2 ts2 s2 c2 where q: "q = (ty2, ts2, s2, c2)" by (cases q)
        with Inr have "length s2 \<le> length s1" by (auto intro: scanExponent_shorter(2))
        with s1 d have "length s2 < length (c # cs)" by simp
        with Inr \<open>_ = Inr r\<close> r q True assms show ?thesis
          by (simp add: scanNumber_def numberToken_def peek_char_def)
      qed
    qed
  qed
qed

lemma lex_step_consumes:
  assumes "input st \<noteq> []"
  shows "length (input (lex_step strtod st)) < length (input st)"
proof -
  obtain c cs where st: "input st = c # cs" using assms by (cases "input st") auto
  have dl: "length (dropWhile P cs) < Suc (length cs)" for P by (rule dropWhile_Suc)
  show ?thesis
  proof (rule lex_step_outcome [where P = "\<lambda>t. length (input t) < length (input st)"])
    show "length (input (scanWord st)) < length (input st)" if "word_char (peek_char (input st))"
      using that dl by (simp add: scanWord_def st peek_char_def Let_def)
    show "length (input (symbol ty 1 st)) < length (input st)" for ty
      by (simp add: symbol_def st)
    show "length (input (symbol2 c ty2 ty1 st)) < length (input st)" for c ty2 ty1
      by (simp add: symbol2_def symbol_def st split: list.split)
    show "length (input (scanPeriod st)) < length (input st)"
      by (simp add: scanPeriod_def symbol_def st split: list.split)
    show "length (input (scanBang st)) < length (input st)"
      using dl [of "\<lambda>x. \<not> isspace x"]
      by (cases cs) (auto simp: scanBang_def symbol_def st reportError_def)
    have "length (input (scanComment st)) < length (input st)"
      using commentLoop_shorter [of cs "line st" "col st + 1"]
      by (auto simp: scanComment_def st reportError_def Let_def less_Suc_eq_le split: prod.split)
    then show "length (input (scanPercent st)) < length (input st)"
      using dl [of "\<lambda>x. x \<noteq> CHR 0x0A"]
      by (cases cs) (simp_all add: scanPercent_def symbol_def reportError_def Let_def st)
    show "length (input (scanString st)) < length (input st)"
      using stringLoop_shorter [of cs "col st + 1" "[]" "[]"]
      by (auto simp: scanString_def st reportError_def Let_def less_Suc_eq_le split: prod.split)
    show "length (input (scanCarriageReturn st)) < length (input st)"
      by (simp add: scanCarriageReturn_def newline_def st split: list.split)
    show "length (input (newline 1 st)) < length (input st)" by (simp add: newline_def st)
    show "length (input (blank st)) < length (input st)" by (simp add: blank_def st)
    show "length (input (scanNumber strtod st)) < length (input st)"
      if "\<not> isspace (peek_char (input st))" "peek_char (input st) \<noteq> CHR ''.''"
      using that by (intro scanNumber_shorter [OF st]) (simp_all add: peek_char_def st)
  qed
qed

function lex_loop :: "(string \<Rightarrow> 'd) \<Rightarrow> 'd scan_state \<Rightarrow> 'd scan_state" where
  "lex_loop strtod st = (if input st = [] then st else lex_loop strtod (lex_step strtod st))"
  by pat_completeness auto
termination
  by (relation "measure (\<lambda>(strtod, st). length (input st))") (auto intro: lex_step_consumes)

declare lex_loop.simps [simp del]

definition lex_init :: "string \<Rightarrow> 'd scan_state" where
  "lex_init program =
     \<lparr>input = program, line = 1, col = 1, scanState = INITIAL, tokens = [], errors = []\<rparr>"

definition lex :: "(string \<Rightarrow> 'd) \<Rightarrow> string \<Rightarrow> 'd token_stream \<times> parse_error list" where
  "lex strtod program =
     (let st = lex_loop strtod (lex_init program);
          st' = (if scanState st \<noteq> INITIAL
                 then reportError ''unclosed test'' (line st) (col st) st else st)
      in (addToken T_END (line st) (col st) 1 (tokens st), errors st'))"

end
