(* ===== verification/Scanner_Correct.thy ===== *)
theory Scanner_Correct
  imports Scanner
begin

text \<open>
  Correctness of the scanner: what one step may do (\<open>step_ok\<close>), that scanning printed tokens gives
  them back, the shape of the token stream, and what the treatment of comments and tests does.
\<close>


section \<open>Facts\<close>

lemma lex_loop_invariant:
  assumes "P st" and "\<And>st. input st \<noteq> [] \<Longrightarrow> P st \<Longrightarrow> P (lex_step strtod st)"
  shows "P (lex_loop strtod st)" and "input (lex_loop strtod st) = []"
proof -
  have "P (lex_loop strtod st) \<and> input (lex_loop strtod st) = []" using assms
  proof (induction strtod st rule: lex_loop.induct)
    case (1 strtod st)
    then show ?case by (cases "input st = []") (simp_all add: lex_loop.simps [of strtod st])
  qed
  then show "P (lex_loop strtod st)" "input (lex_loop strtod st) = []" by simp_all
qed

lemma lex_loop_done: "input st = [] \<Longrightarrow> lex_loop strtod st = st"
  by (simp add: lex_loop.simps)

text \<open>What one step adds to the tokens, and how it moves the line and the state.\<close>

definition scanned_types :: "TokenType set" where
  "scanned_types = - {T_END, T_UNKNOWN, T_NEG}"

definition step_ok :: "'d scan_state \<Rightarrow> 'd scan_state \<Rightarrow> bool" where
  "step_ok st st' \<longleftrightarrow>
     (tokens st' = tokens st \<or>
       (\<exists>t. tokens st' = tokens st @ [t] \<and> token_type t \<in> scanned_types \<and>
          lineBegin t = line st \<and> lineEnd t = line st \<and> colBegin t = col st)) \<and>
     line st \<le> line st' \<and> (scanState st \<noteq> MLTEST \<longrightarrow> scanState st' \<noteq> MLTEST)"

lemma step_okI_same:
  "tokens st' = tokens st \<Longrightarrow> line st \<le> line st' \<Longrightarrow>
   (scanState st \<noteq> MLTEST \<Longrightarrow> scanState st' \<noteq> MLTEST) \<Longrightarrow> step_ok st st'"
  by (simp add: step_ok_def)

lemma step_okI_token:
  "tokens st' = tokens st @ [t] \<Longrightarrow> token_type t \<in> scanned_types \<Longrightarrow> lineBegin t = line st \<Longrightarrow>
   lineEnd t = line st \<Longrightarrow> colBegin t = col st \<Longrightarrow> line st' = line st \<Longrightarrow>
   (scanState st \<noteq> MLTEST \<Longrightarrow> scanState st' \<noteq> MLTEST) \<Longrightarrow> step_ok st st'"
  by (auto simp: step_ok_def)

lemma reportError_fields [simp]:
  "tokens (reportError m l c st) = tokens st" "line (reportError m l c st) = line st"
  "col (reportError m l c st) = col st" "scanState (reportError m l c st) = scanState st"
  "input (reportError m l c st) = input st"
  by (simp_all add: reportError_def)

lemma fold_reportError_fields [simp]:
  "tokens (fold (\<lambda>e. reportError m l e) errs st) = tokens st"
  "line (fold (\<lambda>e. reportError m l e) errs st) = line st"
  "scanState (fold (\<lambda>e. reportError m l e) errs st) = scanState st"
  by (induction errs arbitrary: st) simp_all

lemma symbol_ok: "ty \<in> scanned_types \<Longrightarrow> step_ok st (symbol ty len st)"
  by (rule step_okI_token [of _ _ "mkToken ty (line st) (col st) len"])
    (simp_all add: symbol_def addToken_def pushToken_def mkToken_def)

lemma unexpectedSymbol_ok: "step_ok st (unexpectedSymbol s c st)"
  by (rule step_okI_same) (simp_all add: unexpectedSymbol_def)

lemma commentLoop_line: "commentLoop s l c = (rest, l', c') \<Longrightarrow> l \<le> l'"
proof (induction "length s" arbitrary: s l c rule: less_induct)
  case less
  show ?case
  proof (cases s)
    case (Cons x xs)
    note IH = less.hyps [of xs] less.hyps [of "tl xs"]
    show ?thesis
      using less.prems IH Cons
      by (cases xs) (fastforce simp: commentLoop.simps(2) [of x] Let_def split: if_splits)+
  qed (use less.prems in simp)
qed

lemma getTokenType_scanned: "getTokenType w \<in> scanned_types"
  by (simp add: getTokenType_def scanned_types_def)

lemma scanFraction_type:
  "scanFraction ts s c = Inr (ty, r) \<Longrightarrow> ty = T_INT_LITERAL \<or> ty = T_FLOAT_LITERAL"
  by (auto simp: scanFraction_def Let_def split: if_splits)

lemma scanExponent_type:
  "scanExponent ty ts s c = Inr (ty', r) \<Longrightarrow> ty' = ty \<or> ty' = T_FLOAT_LITERAL"
  by (auto simp: scanExponent_def Let_def split: if_splits)

lemma numberToken_ok: "ty \<in> scanned_types \<Longrightarrow> step_ok st (numberToken strtod ty ts s c st)"
  by (simp add: step_ok_def numberToken_def pushToken_def)

lemma scanNumber_ok: "step_ok st (scanNumber strtod st)"
proof -
  have "ty \<in> scanned_types" if "ty = T_INT_LITERAL \<or> ty = T_FLOAT_LITERAL" for ty
    using that by (auto simp: scanned_types_def)
  then show ?thesis
    by (auto simp: scanNumber_def Let_def unexpectedSymbol_ok
        intro!: numberToken_ok dest!: scanFraction_type scanExponent_type split: sum.split prod.split)
qed

lemma lex_step_ok: "step_ok st (lex_step strtod st)"
proof (rule lex_step_outcome [where P = "step_ok st"])
  have sym: "ty \<in> scanned_types" if "ty \<in> single_symbols \<or> (\<exists>t. (ty, t) \<in> double_symbols \<or> (t, ty) \<in> double_symbols)"
    for ty using that by (auto simp: single_symbols_def double_symbols_def scanned_types_def)
  show "step_ok st (scanWord st)"
    by (simp add: step_ok_def scanWord_def Let_def pushToken_def getTokenType_scanned)
  show "step_ok st (symbol ty 1 st)" if "ty \<in> single_symbols" for ty
    using that sym by (intro symbol_ok) blast
  show "step_ok st (symbol2 c ty2 ty1 st)" if "(ty2, ty1) \<in> double_symbols" for c ty2 ty1
    using that sym by (auto simp: symbol2_def intro!: symbol_ok split: list.split)
  show "step_ok st (scanPeriod st)"
    by (auto simp: scanPeriod_def scanned_types_def intro!: symbol_ok split: list.split)
  show "step_ok st (scanBang st)"
    by (auto simp: scanBang_def Let_def scanned_types_def intro!: symbol_ok step_okI_same split: list.split)
  have "step_ok st (scanComment st)"
    by (rule step_okI_same) (auto simp: scanComment_def Let_def dest: commentLoop_line split: prod.split)
  moreover have "step_ok st ((symbol T_TEST 2 st)\<lparr>scanState := SLTEST\<rparr>)"
    using symbol_ok [of T_TEST st 2] by (simp add: step_ok_def scanned_types_def)
  ultimately show "step_ok st (scanPercent st)"
    by (auto simp: scanPercent_def Let_def peek_char_def intro!: step_okI_same split: list.split)
  show "step_ok st (scanString st)"
    by (auto simp: scanString_def Let_def pushToken_def step_ok_def scanned_types_def split: prod.split)
  show "step_ok st (scanCarriageReturn st)"
    by (auto simp: scanCarriageReturn_def newline_def intro!: step_okI_same split: list.split)
  show "step_ok st (newline 1 st)" by (rule step_okI_same) (simp_all add: newline_def)
  show "step_ok st (blank st)" by (rule step_okI_same) (simp_all add: blank_def)
  show "step_ok st (scanNumber strtod st)" by (rule scanNumber_ok)
qed

definition tokens_ok :: "'d scan_state \<Rightarrow> bool" where
  "tokens_ok st \<longleftrightarrow> scanState st \<noteq> MLTEST \<and> 1 \<le> line st \<and> sorted (map lineBegin (tokens st)) \<and>
     (\<forall>t \<in> set (tokens st). token_type t \<in> scanned_types \<and> lineEnd t = lineBegin t \<and>
        1 \<le> lineBegin t \<and> lineBegin t \<le> line st)"

lemma tokens_ok_step: "step_ok st st' \<Longrightarrow> tokens_ok st \<Longrightarrow> tokens_ok st'"
  by (fastforce simp: step_ok_def tokens_ok_def sorted_append)

lemma tokens_ok_loop: "tokens_ok (lex_loop strtod (lex_init program))"
proof (rule lex_loop_invariant(1))
  show "tokens_ok (lex_init program)" by (simp add: tokens_ok_def lex_init_def)
qed (rule tokens_ok_step [OF lex_step_ok])


subsection \<open>Scanning printed tokens back\<close>

definition spelling :: "TokenType \<Rightarrow> string" where
  "spelling ty = butlast (tl (tokenTypeString ty))"

definition spellable :: "TokenType \<Rightarrow> bool" where
  "spellable ty \<longleftrightarrow> ty \<notin> {T_END, T_UNKNOWN, T_INT_LITERAL, T_FLOAT_LITERAL, T_STRING_LITERAL,
     T_IDENT, T_NEG, T_TEST}"

text \<open>What may come after a word, a number and a symbol without becoming a part of it.\<close>

definition ends_word :: "string \<Rightarrow> bool" where
  "ends_word rest \<longleftrightarrow> rest = [] \<or> \<not> word_char (hd rest)"

definition ends_number :: "string \<Rightarrow> bool" where
  "ends_number rest \<longleftrightarrow> rest = [] \<or> \<not> isdigit (hd rest) \<and> hd rest \<notin> {CHR ''.'', CHR ''e'', CHR ''E''}"

definition ends_symbol :: "string \<Rightarrow> bool" where
  "ends_symbol rest \<longleftrightarrow> rest = [] \<or> hd rest \<notin> {CHR ''='', CHR ''>'', CHR ''*'', CHR ''/''}"

definition ends_spelling :: "TokenType \<Rightarrow> string \<Rightarrow> bool" where
  "ends_spelling ty rest = (if isalpha (hd (spelling ty)) then ends_word rest else ends_symbol rest)"

definition pushed :: "'d token \<Rightarrow> string \<Rightarrow> nat \<Rightarrow> 'd scan_state \<Rightarrow> 'd scan_state" where
  "pushed t rest c st = st\<lparr>input := rest, tokens := tokens st @ [t], col := c\<rparr>"

lemma lex_step_word:
  assumes "input st = w @ rest" and "ends_word rest" and "list_all word_char w" and "w \<noteq> []"
    and "hd w = CHR ''_'' \<or> isalpha (hd w)"
  shows "lex_step strtod st = pushed
    \<lparr>token_type = getTokenType w, token_value = NoValue,
     token_str = (if getTokenType w = T_IDENT then w else []),
     lineBegin = line st, colBegin = col st, lineEnd = line st, colEnd = col st + length w - 1\<rparr>
    rest (col st + length w) st"
proof -
  have tw: "takeWhile word_char (w @ rest) = w" and dw: "dropWhile word_char (w @ rest) = rest"
    using assms(2,3)
    by (cases rest; auto simp: ends_word_def list_all_iff takeWhile_append dropWhile_append)+
  have "peek_char (input st) = hd w" using assms(1,4) by (cases w) (simp_all add: peek_char_def)
  then have "lex_step strtod st = scanWord st" using assms(5) by (simp add: lex_step_def)
  then show ?thesis
    by (simp add: scanWord_def assms(1) tw dw Let_def pushToken_def pushed_def)
qed

definition symbol_token :: "TokenType \<Rightarrow> 'd scan_state \<Rightarrow> 'd token" where
  "symbol_token ty st = mkToken ty (line st) (col st) (length (spelling ty))"

lemmas lex_step_symbol_defs = spelling_def quoted_def lex_step_def peek_char_def isalpha_def symbol_def
  symbol2_def scanPeriod_def scanBang_def pushed_def symbol_token_def addToken_def pushToken_def
  Let_def numeral_2_eq_2

lemma lex_step_spelling:
  assumes "spellable ty" and "input st = spelling ty @ rest" and "ends_spelling ty rest"
  shows "lex_step strtod st =
    pushed (symbol_token ty st) rest (col st + length (spelling ty)) st"
proof (cases "spelling ty \<noteq> [] \<and> list_all word_char (spelling ty) \<and>
    isalpha (hd (spelling ty)) \<and> getTokenType (spelling ty) = ty")
  case True
  then have "ends_word rest" using assms(3) by (simp add: ends_spelling_def)
  from lex_step_word [OF assms(2) this, of strtod] True assms(1) show ?thesis
    by (auto simp: symbol_token_def mkToken_def spellable_def)
next
  case False
  have "ty \<in> single_symbols \<or> ty \<in> Domain double_symbols \<or> ty \<in> Range double_symbols \<or>
      ty \<in> {T_PERIOD, T_DOTSTAR, T_DOTSLASH, T_NE}"
    using False assms(1)
    by (cases ty) (simp_all add: single_symbols_def double_symbols_def spellable_def spelling_def
        quoted_def getTokenType_def word_char_def isalnum_def isalpha_def)
  then have ty: "ty \<in> {T_LP, T_RP, T_LB, T_RB, T_LC, T_RC, T_COMMA, T_COL, T_SEMICOL, T_STAR,
      T_SLASH, T_BACKSLASH, T_EXP, T_TRANSPOSE, T_PLUS, T_LE, T_LA, T_GE, T_RA, T_EQ, T_ASSIGN,
      T_RARROW, T_MINUS, T_PERIOD, T_DOTSTAR, T_DOTSLASH, T_NE}"
    by (auto simp: single_symbols_def double_symbols_def)
  then have "ends_symbol rest" using assms(3) by (auto simp: ends_spelling_def spelling_def quoted_def isalpha_def)
  then consider (Nil) "rest = []"
    | (more) c r where "rest = c # r" "c \<noteq> CHR ''=''" "c \<noteq> CHR ''>''" "c \<noteq> CHR ''*''" "c \<noteq> CHR ''/''"
    by (cases rest) (auto simp: ends_symbol_def)
  then show ?thesis
    by (cases; insert ty assms(2); elim insertE emptyE)
      (simp_all add: lex_step_symbol_defs)
qed

lemma digits_val_append: "digits_val b (s @ [c]) = b * digits_val b s + digit_val c"
  by (simp add: digits_val_def)

lemma digit_val_digit_char: "d < 10 \<Longrightarrow> digit_val (digit_char d) = d"
  by (simp add: digit_val_def of_char_digit_char)

lemma isdigit_digit_char: "d < 10 \<Longrightarrow> isdigit (digit_char d)"
  by (simp add: isdigit_def of_char_digit_char)

lemma to_string_digits: "list_all isdigit (to_string n)"
proof (induction n rule: to_string.induct)
  case (1 n)
  then show ?case by (subst to_string.simps) (simp add: isdigit_digit_char)
qed

lemma digits_val_to_string: "digits_val 10 (to_string n) = n"
proof (induction n rule: to_string.induct)
  case (1 n)
  show ?case
  proof (cases "n < 10")
    case True
    then show ?thesis
      by (subst to_string.simps) (simp add: digits_val_def digit_val_digit_char)
  next
    case False
    with 1 show ?thesis
      by (subst to_string.simps) (simp add: digits_val_append digit_val_digit_char)
  qed
qed

lemma to_string_hd: "hd (to_string n) = CHR ''0'' \<Longrightarrow> n = 0"
proof (induction n rule: to_string.induct)
  case (1 n)
  have "digit_char 0 = char_of (of_char (CHR ''0'') :: nat)" unfolding digit_char_def by simp
  then have z: "CHR ''0'' = digit_char 0" by (simp only: char_of_char)
  show ?case
  proof (cases "n < 10")
    case True
    with "1.prems" show ?thesis by (simp add: to_string.simps [of n] z digit_char_inj)
  next
    case False
    with "1.prems" have "hd (to_string (n div 10)) = CHR ''0''"
      by (simp add: to_string.simps [of n])
    with "1.IH" [OF False] False show ?thesis by simp
  qed
qed

lemma strtol_to_string:
  assumes "n < 2 ^ 31"
  shows "long_to_int (strtol (to_string n)) = int n"
proof -
  have "strtol (to_string n) = int n"
  proof (cases "hd (to_string n) = CHR ''0''")
    case True
    then have n: "n = 0" by (rule to_string_hd)
    then have "tl (to_string n) = []" by (simp add: to_string.simps)
    with True n show ?thesis by (simp add: strtol_def digits_val_def)
  next
    case False
    with assms show ?thesis by (simp add: strtol_def digits_val_to_string)
  qed
  with assms show ?thesis by (simp add: long_to_int_def)
qed

lemma lex_step_int:
  assumes "input st = to_string n @ rest" and "ends_number rest" and "n < 2 ^ 31"
  shows "lex_step strtod st = pushed
    \<lparr>token_type = T_INT_LITERAL, token_value = IntValue (int n), token_str = [],
     lineBegin = line st, colBegin = col st, lineEnd = line st,
     colEnd = col st + length (to_string n) - 1\<rparr>
    rest (col st + length (to_string n)) st"
proof -
  obtain d ds where d: "to_string n = d # ds" by (cases "to_string n") auto
  then have dig: "isdigit d" using to_string_digits [of n] by simp
  have tw: "takeWhile isdigit (to_string n @ rest) = to_string n"
    using assms(2) to_string_digits [of n]
    by (cases rest) (auto simp: ends_number_def list_all_iff takeWhile_append)
  have fr: "scanFraction ts rest c = Inr (T_INT_LITERAL, ts, rest, c)"
    and ex: "scanExponent ty ts rest c = Inr (ty, ts, rest, c)" for ts c ty
    using assms(2) by (auto simp: scanFraction_def scanExponent_def ends_number_def)
  have "peek_char (input st) = d" by (simp add: peek_char_def assms(1) d)
  moreover have "\<not> isalpha d" "d \<notin> {CHR ''_'', CHR ''('', CHR '')'', CHR ''['', CHR '']'', CHR ''{'',
      CHR ''}'', CHR ''<'', CHR ''>'', CHR '','', CHR ''.'', CHR '':'', CHR '';'', CHR ''='',
      CHR ''*'', CHR ''/'', CHR 0x5C, CHR ''^'', CHR 0x27, CHR ''!'', CHR ''%'', CHR 0x22, CHR 0x0D,
      CHR 0x0B, CHR 0x0C, CHR 0x0A, CHR 0x20, CHR 0x09, CHR ''+'', CHR ''-''}"
    using dig by (auto simp: isdigit_def isalpha_def)
  ultimately have "lex_step strtod st = scanNumber strtod st"
    by (simp add: lex_step_def)
  also have "\<dots> = numberToken strtod T_INT_LITERAL (to_string n) rest
      (col st + length (to_string n)) st"
    using dig \<open>peek_char (input st) = d\<close> by (simp add: scanNumber_def assms(1) tw fr ex Let_def)
  finally show ?thesis
    by (simp add: numberToken_def strtol_to_string [OF assms(3)] pushed_def pushToken_def)
qed

text \<open>A string literal: scanning undoes \<^verbatim>\<open>util::escape\<close>.\<close>

lemma stringLoop_escape_char:
  "\<exists>c'. stringLoop (escape_char x @ s) c str errs = stringLoop s c' (str @ [x]) errs"
proof (cases "escape_char x = [x]")
  case True
  then have "x \<noteq> CHR 0x5C" "x \<noteq> CHR 0x22" by (auto simp: escape_char_def)
  then have "stringLoop (x # s) c str errs = stringLoop s (c + 1) (str @ [x]) errs"
    by (simp add: stringLoop.simps(2))
  with True show ?thesis by auto
next
  case False
  then obtain e where "escape_char x = [CHR 0x5C, e]" "unescape e = Some x"
    by (auto simp: escape_char_def unescape_def split: if_splits)
  then have "stringLoop (escape_char x @ s) c str errs = stringLoop s (c + 2) (str @ [x]) errs"
    by (simp add: stringLoop.simps(2) [of "CHR 0x5C"])
  then show ?thesis by blast
qed

lemma stringLoop_escape:
  "\<exists>c'. stringLoop (escape s @ CHR 0x22 # rest) c str errs = (CHR 0x22 # rest, c', str @ s, errs)"
proof (induction s arbitrary: c str)
  case Nil
  then show ?case by (simp add: escape_def stringLoop.simps(2))
next
  case (Cons x s)
  obtain c1 where "stringLoop (escape_char x @ escape s @ CHR 0x22 # rest) c str errs =
      stringLoop (escape s @ CHR 0x22 # rest) c1 (str @ [x]) errs"
    using stringLoop_escape_char by blast
  with Cons.IH [of c1 "str @ [x]"] show ?case by (simp add: escape_def)
qed

lemma lex_step_string:
  assumes "input st = [CHR 0x22] @ escape s @ [CHR 0x22] @ rest"
  shows "\<exists>c. lex_step strtod st = pushed
    \<lparr>token_type = T_STRING_LITERAL, token_value = NoValue, token_str = s,
     lineBegin = line st, colBegin = col st, lineEnd = line st, colEnd = c\<rparr> rest (c + 1) st"
proof -
  obtain c where c: "stringLoop (escape s @ CHR 0x22 # rest) (col st + 1) [] [] =
      (CHR 0x22 # rest, c, [] @ s, [])" using stringLoop_escape by blast
  have "lex_step strtod st = scanString st"
    by (simp add: lex_step_def peek_char_def assms isalpha_def)
  with c show ?thesis
    by (intro exI [of _ c]) (simp add: scanString_def assms pushed_def pushToken_def)
qed

subsection \<open>Sequences of lexemes\<close>

datatype lexeme = Spelled TokenType | Ident string | IntLit nat | StrLit string

fun lexeme_text :: "lexeme \<Rightarrow> string" where
  "lexeme_text (Spelled ty) = spelling ty"
| "lexeme_text (Ident w) = w"
| "lexeme_text (IntLit n) = to_string n"
| "lexeme_text (StrLit s) = [CHR 0x22] @ escape s @ [CHR 0x22]"

fun lexeme_ok :: "lexeme \<Rightarrow> bool" where
  "lexeme_ok (Spelled ty) = spellable ty"
| "lexeme_ok (Ident w) = (w \<noteq> [] \<and> list_all word_char w \<and> (hd w = CHR ''_'' \<or> isalpha (hd w)) \<and>
     getTokenType w = T_IDENT)"
| "lexeme_ok (IntLit n) = (n < 2 ^ 31)"
| "lexeme_ok (StrLit s) = True"

fun lexeme_kind :: "lexeme \<Rightarrow> TokenType \<times> 'd token_value \<times> string" where
  "lexeme_kind (Spelled ty) = (ty, NoValue, [])"
| "lexeme_kind (Ident w) = (T_IDENT, NoValue, w)"
| "lexeme_kind (IntLit n) = (T_INT_LITERAL, IntValue (int n), [])"
| "lexeme_kind (StrLit s) = (T_STRING_LITERAL, NoValue, s)"

fun ends_lexeme :: "lexeme \<Rightarrow> string \<Rightarrow> bool" where
  "ends_lexeme (Spelled ty) rest = ends_spelling ty rest"
| "ends_lexeme (Ident w) rest = ends_word rest"
| "ends_lexeme (IntLit n) rest = ends_number rest"
| "ends_lexeme (StrLit s) rest = True"

lemma ends_lexeme_blank: "rest = [] \<or> hd rest = CHR '' '' \<Longrightarrow> ends_lexeme l rest"
  by (cases l) (auto simp: ends_spelling_def ends_word_def ends_symbol_def ends_number_def word_char_def isalnum_def
      isalpha_def isdigit_def)

definition token_kind :: "'d token \<Rightarrow> TokenType \<times> 'd token_value \<times> string" where
  "token_kind t = (token_type t, token_value t, token_str t)"

definition quiet_step :: "'d scan_state \<Rightarrow> string \<Rightarrow> (TokenType \<times> 'd token_value \<times> string) list \<Rightarrow>
    'd scan_state \<Rightarrow> bool" where
  "quiet_step st rest ks st' \<longleftrightarrow> input st' = rest \<and> scanState st' = scanState st \<and>
     errors st' = errors st \<and> map token_kind (tokens st') = map token_kind (tokens st) @ ks"

lemma lex_step_lexeme:
  assumes "lexeme_ok l" and "input st = lexeme_text l @ rest" and "ends_lexeme l rest"
  shows "quiet_step st rest [lexeme_kind l] (lex_step strtod st)"
proof (cases l)
  case (Spelled ty)
  with lex_step_spelling [of ty st rest strtod] assms show ?thesis
    by (simp add: quiet_step_def pushed_def token_kind_def symbol_token_def mkToken_def)
next
  case (Ident w)
  with lex_step_word [of st w rest strtod] assms show ?thesis
    by (simp add: quiet_step_def pushed_def token_kind_def)
next
  case (IntLit n)
  with lex_step_int [of st n rest strtod] assms show ?thesis
    by (simp add: quiet_step_def pushed_def token_kind_def)
next
  case (StrLit s)
  with lex_step_string [of st s rest strtod] assms show ?thesis
    by (auto simp: quiet_step_def pushed_def token_kind_def)
qed

lemma lex_step_blank:
  "input st = CHR '' '' # rest \<Longrightarrow> quiet_step st rest [] (lex_step strtod st)"
  by (simp add: quiet_step_def lex_step_def peek_char_def isalpha_def blank_def)

lemma lexeme_text_not_Nil: "lexeme_ok l \<Longrightarrow> lexeme_text l \<noteq> []"
proof (cases l)
  case (Spelled ty)
  assume "lexeme_ok l"
  with Spelled show ?thesis
    by (cases ty) (simp_all add: spellable_def spelling_def quoted_def)
qed auto

lemma lex_loop_lexemes:
  assumes "list_all lexeme_ok ls" and "input st = join (map lexeme_text ls) '' ''"
  shows "quiet_step st [] (map lexeme_kind ls) (lex_loop strtod st)"
  using assms
proof (induction ls arbitrary: st)
  case Nil
  then show ?case by (simp add: quiet_step_def lex_loop.simps)
next
  case (Cons l ls)
  define rest where "rest = (if ls = [] then [] else CHR '' '' # join (map lexeme_text ls) '' '')"
  have inp: "input st = lexeme_text l @ rest"
    using Cons.prems(2) by (cases ls) (simp_all add: rest_def)
  have ne: "input st \<noteq> []" using inp lexeme_text_not_Nil Cons.prems(1) by simp
  let ?st1 = "lex_step strtod st"
  have step: "quiet_step st rest [lexeme_kind l] ?st1"
    using Cons.prems(1) inp by (intro lex_step_lexeme) (auto simp: rest_def intro!: ends_lexeme_blank)
  show ?case
  proof (cases "ls = []")
    case True
    with step ne show ?thesis
      by (simp add: quiet_step_def rest_def lex_loop.simps [of strtod st] lex_loop.simps [of strtod ?st1])
  next
    case False
    let ?st2 = "lex_step strtod ?st1"
    have "quiet_step ?st1 (join (map lexeme_text ls) '' '') [] ?st2"
      using step False by (intro lex_step_blank) (simp add: quiet_step_def rest_def)
    moreover from this have "quiet_step ?st2 [] (map lexeme_kind ls) (lex_loop strtod ?st2)"
      using Cons.prems(1) by (intro Cons.IH) (simp_all add: quiet_step_def)
    moreover have "lex_loop strtod st = lex_loop strtod ?st2"
      using ne step False
      by (simp add: lex_loop.simps [of strtod st] lex_loop.simps [of strtod ?st1] quiet_step_def rest_def)
    ultimately show ?thesis using step by (simp add: quiet_step_def)
  qed
qed


subsection \<open>Comments\<close>

lemma commentLoop_plain:
  "CHR ''%'' \<notin> set body \<Longrightarrow>
   \<exists>l' c'. commentLoop (body @ CHR ''%'' # CHR ''}'' # rest) l c = (rest, l', c')"
proof (induction body arbitrary: l c)
  case Nil
  then show ?case by (simp add: commentLoop.simps(2) Let_def)
next
  case (Cons x xs)
  from Cons.prems have "x \<noteq> CHR ''%''" "CHR ''%'' \<notin> set xs" by auto
  with Cons.IH show ?case by (simp add: commentLoop.simps(2) [of x])
qed

lemma scanComment_closed:
  assumes "CHR ''%'' \<notin> set body"
    and "input st = CHR ''%'' # CHR ''{'' # body @ CHR ''%'' # CHR ''}'' # rest"
  shows "\<exists>l c. lex_step strtod st =
    (if rest = [] then reportError ''unclosed comment'' l c (st\<lparr>input := rest, line := l, col := c\<rparr>)
     else st\<lparr>input := rest, line := l, col := c\<rparr>)"
proof -
  obtain l c where "commentLoop ((CHR ''{'' # body) @ CHR ''%'' # CHR ''}'' # rest) (line st) (col st + 1)
      = (rest, l, c)"
    using commentLoop_plain [of "CHR ''{'' # body"] assms(1) by fastforce
  moreover have "lex_step strtod st = scanComment st"
    by (simp add: lex_step_def assms(2) peek_char_def isalpha_def scanPercent_def)
  ultimately show ?thesis
    by (intro exI [of _ l] exI [of _ c]) (simp add: scanComment_def assms(2))
qed

section \<open>Properties\<close>

text \<open>
  C1. Scanning is the inverse of printing. Take any sequence of keywords and symbols (spelled as
  \<^verbatim>\<open>tokenTypeString\<close> spells them in messages), identifiers, integer literals below $2^{31}$ and string
  literals printed through \<^verbatim>\<open>util::escape\<close>; join their texts with blanks; the scanner delivers exactly
  these tokens with their values, then the end token, and reports no error.
\<close>

theorem lex_roundtrip:
  assumes "list_all lexeme_ok ls"
  shows "map token_kind (fst (lex strtod (join (map lexeme_text ls) '' ''))) =
      map lexeme_kind ls @ [(T_END, NoValue, [])]
    \<and> snd (lex strtod (join (map lexeme_text ls) '' '')) = []"
proof -
  let ?st = "lex_init (join (map lexeme_text ls) '' '')"
  have "quiet_step ?st [] (map lexeme_kind ls) (lex_loop strtod ?st)"
    using assms by (rule lex_loop_lexemes) (simp add: lex_init_def)
  then show ?thesis
    by (simp add: lex_def Let_def quiet_step_def lex_init_def addToken_def pushToken_def
        mkToken_def token_kind_def)
qed

theorem lex_roundtrip_witness:
  "map token_kind (fst (lex (\<lambda>s. s)
      (join (map lexeme_text [Spelled T_FUNC, Ident ''f1'', Spelled T_LE, IntLit 42,
                              StrLit [CHR ''a'', CHR 0x0A, CHR 0x22]]) '' ''))) =
   [(T_FUNC, NoValue, []), (T_IDENT, NoValue, ''f1''), (T_LE, NoValue, []),
    (T_INT_LITERAL, IntValue 42, []), (T_STRING_LITERAL, NoValue, [CHR ''a'', CHR 0x0A, CHR 0x22]),
    (T_END, NoValue, [])]"
  using lex_roundtrip [of "[Spelled T_FUNC, Ident ''f1'', Spelled T_LE, IntLit 42,
      StrLit [CHR ''a'', CHR 0x0A, CHR 0x22]]" "\<lambda>s. s"]
  by (simp add: spellable_def word_char_def isalnum_def isalpha_def isdigit_def getTokenType_def)

text \<open>
  The scanner always consumes its whole input and delivers a stream whose last token, and no
  other, is the end token; the kinds \<open>T_UNKNOWN\<close> and \<open>T_NEG\<close> of the enumeration never occur.
\<close>

theorem lex_end_token:
  "input (lex_loop strtod (lex_init program)) = [] \<and>
   (\<exists>ts. map token_type (fst (lex strtod program)) = ts @ [T_END] \<and>
      T_END \<notin> set ts \<and> T_UNKNOWN \<notin> set ts \<and> T_NEG \<notin> set ts)"
proof -
  let ?st = "lex_loop strtod (lex_init program)"
  have "input ?st = []" by (rule lex_loop_invariant(2) [where P = "\<lambda>_. True"]) simp_all
  moreover have "tokens_ok ?st" by (rule tokens_ok_loop)
  ultimately show ?thesis
    by (auto simp: lex_def Let_def addToken_def pushToken_def mkToken_def tokens_ok_def
        scanned_types_def)
qed

text \<open>
  The positions of the tokens are those of a left-to-right scan: every token lies on one line,
  lines count from 1, and the lines of the stream never decrease.
\<close>

theorem lex_lines_sorted:
  "sorted (map lineBegin (fst (lex strtod program))) \<and>
   list_all (\<lambda>t. lineEnd t = lineBegin t \<and> 1 \<le> lineBegin t) (fst (lex strtod program))"
proof -
  let ?st = "lex_loop strtod (lex_init program)"
  have "tokens_ok ?st" by (rule tokens_ok_loop)
  then show ?thesis
    by (auto simp: lex_def Let_def addToken_def pushToken_def mkToken_def tokens_ok_def
        sorted_append list_all_iff)
qed

text \<open>
  C31. The scanner never opens a multi-line test: the state \<open>MLTEST\<close> is unreachable, because the branch
  that sets it looks for an exclamation mark at a position where it just read a brace. So a text
  between \<^verbatim>\<open>%{!\<close> and \<^verbatim>\<open>%}\<close> is skipped as a comment and yields no token.
\<close>

theorem multi_line_test_unreachable:
  assumes "CHR ''%'' \<notin> set body"
  shows "scanState (lex_loop strtod (lex_init program)) \<noteq> MLTEST \<and>
    map token_type (fst (lex strtod (''%{!'' @ body @ [CHR ''%'', CHR ''}'', CHR 0x0A]))) = [T_END]"
proof -
  define st :: "'a scan_state" where
    "st = lex_init (''%{!'' @ body @ [CHR ''%'', CHR ''}'', CHR 0x0A])"
  have inp: "input st = CHR ''%'' # CHR ''{'' # (CHR ''!'' # body) @ CHR ''%'' # CHR ''}'' # [CHR 0x0A]"
    and tk: "tokens st = []" by (simp_all add: st_def lex_init_def)
  have "CHR ''%'' \<notin> set (CHR ''!'' # body)" using assms by simp
  from scanComment_closed [OF this inp, of strtod] obtain st1
    where st1: "lex_step strtod st = st1" "input st1 = [CHR 0x0A]" "tokens st1 = []"
    by (auto simp: tk)
  have "lex_step strtod st1 = newline 1 st1"
    by (simp add: lex_step_def peek_char_def isalpha_def st1(2))
  then have "lex_loop strtod st = newline 1 st1"
    using st1(1,2) inp lex_loop_done [of "newline 1 st1" strtod]
    by (simp add: lex_loop.simps [of strtod st] lex_loop.simps [of strtod st1]) (simp add: newline_def)
  then have "tokens (lex_loop strtod st) = []" by (simp add: newline_def st1(3))
  then show ?thesis
    using tokens_ok_loop [of strtod program]
    by (simp add: tokens_ok_def lex_def Let_def addToken_def pushToken_def mkToken_def st_def)
qed

theorem multi_line_test_unreachable_witness:
  "scanState (lex_loop (\<lambda>s. s) (lex_init ''%{! end %} x'')) \<noteq> MLTEST \<and>
   map token_type (fst (lex (\<lambda>s. s) (''%{!'' @ '' f'' @ [CHR ''%'', CHR ''}'', CHR 0x0A]))) = [T_END]"
  by (rule multi_line_test_unreachable) simp

text \<open>
  A multi-line comment that is properly closed as the last thing of the program is nevertheless
  reported as unclosed: the check after the comment loop looks at the end of the input instead of at
  how the loop ended.
\<close>

theorem closed_comment_reported_unclosed:
  assumes "CHR ''%'' \<notin> set body"
  shows "map msg (snd (lex strtod (''%{'' @ body @ ''%}''))) = [''unclosed comment'']"
proof -
  define st :: "'a scan_state" where "st = lex_init (''%{'' @ body @ ''%}'')"
  have inp: "input st = CHR ''%'' # CHR ''{'' # body @ CHR ''%'' # CHR ''}'' # []"
    and er: "errors st = []" "scanState st = INITIAL" by (simp_all add: st_def lex_init_def)
  from scanComment_closed [OF assms inp, of strtod] obtain st1
    where st1: "lex_step strtod st = st1" "input st1 = []" "map msg (errors st1) = [''unclosed comment'']"
      "scanState st1 = INITIAL"
    by (auto simp: er reportError_def)
  then have "lex_loop strtod st = st1"
    by (simp add: lex_loop.simps [of strtod st] lex_loop.simps [of strtod st1] inp)
  with st1 show ?thesis by (simp add: lex_def st_def)
qed

theorem closed_comment_reported_unclosed_witness:
  "map msg (snd (lex (\<lambda>s. s) (''%{'' @ ''note'' @ ''%}''))) = [''unclosed comment'']"
  by (rule closed_comment_reported_unclosed) simp

end
