(* ===== verification/Tensor_Type.thy ===== *)
theory Tensor_Type
  imports Util "HOL-Library.Word"
begin

text \<open>
  The tensor types of the C++ interface (\<^verbatim>\<open>src/src/tensor_type.h\<close>, \<^verbatim>\<open>tensor_type.cpp\<close>): component
  types with their sizes, and dense or blocked tensor types. Sizes are kept at their width, the
  64 bits of \<^verbatim>\<open>size_t\<close>; the union of the class is a datatype with one constructor per member.
\<close>

section \<open>Definitions\<close>

datatype ComponentType = CT_Float | CT_Double | CT_Int | CT_Boolean | CT_FloatComplex
  | CT_DoubleComplex

text \<open>The byte sizes of the target (x86-64), where \<^verbatim>\<open>float_complex\<close> is a pair of floats.\<close>

fun componentSize :: "ComponentType \<Rightarrow> nat" where
  "componentSize CT_Float = 4"
| "componentSize CT_Double = 8"
| "componentSize CT_Int = 4"
| "componentSize CT_Boolean = 1"
| "componentSize CT_FloatComplex = 8"
| "componentSize CT_DoubleComplex = 16"

fun componentType_string :: "ComponentType \<Rightarrow> string" where
  "componentType_string CT_Float = ''float''"
| "componentType_string CT_Double = ''double''"
| "componentType_string CT_Int = ''int''"
| "componentType_string CT_Boolean = ''bool''"
| "componentType_string CT_FloatComplex = ''float_complex''"
| "componentType_string CT_DoubleComplex = ''double_complex''"

datatype tensor_type = Dense ComponentType "int list" | Blocked tensor_type "int list"

fun isBlocked :: "tensor_type \<Rightarrow> bool" where
  "isBlocked (Dense _ _) = False"
| "isBlocked (Blocked _ _) = True"

fun getBlockType :: "tensor_type \<Rightarrow> tensor_type result" where
  "getBlockType (Blocked b _) = Inr b"
| "getBlockType (Dense _ _) = Inl (InternalError ''isBlocked()'')"

fun getComponentType :: "tensor_type \<Rightarrow> ComponentType result" where
  "getComponentType (Dense c _) = Inr c"
| "getComponentType (Blocked _ _) = Inl (InternalError ''!isBlocked()'')"

fun tensor_dimensions :: "tensor_type \<Rightarrow> int list" where
  "tensor_dimensions (Dense _ ds) = ds"
| "tensor_dimensions (Blocked _ ds) = ds"

definition getOrder :: "tensor_type \<Rightarrow> nat" where
  "getOrder t = length (tensor_dimensions t)"

definition getDimension :: "tensor_type \<Rightarrow> nat \<Rightarrow> 64 word result" where
  "getDimension t i =
     iassert (i < getOrder t) ''i<getOrder()'' (Inr (word_of_int (tensor_dimensions t ! i)))"

fun getSize :: "tensor_type \<Rightarrow> 64 word" where
  "getSize (Dense _ ds) = fold (\<lambda>d size. size * word_of_int d) ds 1"
| "getSize (Blocked b ds) = fold (\<lambda>d size. size * word_of_int d) ds (getSize b)"

definition dimensions_string :: "tensor_type \<Rightarrow> string" where
  "dimensions_string t =
     (if getOrder t > 0
      then ''['' @ join (map (\<lambda>d. to_string (unat (word_of_int d :: 64 word))) (tensor_dimensions t)) '',''
           @ '']''
      else [])"

fun tensor_string :: "tensor_type \<Rightarrow> string" where
  "tensor_string (Dense c ds) =
     ''tensor'' @ dimensions_string (Dense c ds) @ ''('' @ componentType_string c @ '')''"
| "tensor_string (Blocked b ds) =
     ''tensor'' @ dimensions_string (Blocked b ds) @ ''('' @ tensor_string b @ '')''"

text \<open>The comparison operator of the class ignores its arguments.\<close>

definition tensor_type_eq :: "tensor_type \<Rightarrow> tensor_type \<Rightarrow> bool" where
  "tensor_type_eq l r = True"

section \<open>Facts\<close>

fun component_count :: "tensor_type \<Rightarrow> int" where
  "component_count (Dense _ ds) = prod_list ds"
| "component_count (Blocked b ds) = component_count b * prod_list ds"

lemma fold_size: "fold (\<lambda>d size. size * word_of_int d) ds w = (w * word_of_int (prod_list ds) :: 64 word)"
  by (induction ds arbitrary: w) (simp_all add: mult.assoc)

lemma getSize_count: "getSize t = word_of_int (component_count t)"
  by (induction t) (simp_all add: fold_size)

text \<open>
  The size of a tensor type, computed in 64-bit arithmetic over all nesting levels, is the
  number of its scalar components as long as that number fits 64 bits.
\<close>
theorem getSize_components:
  assumes "0 \<le> component_count t" and "component_count t < 2 ^ 64"
  shows "uint (getSize t) = component_count t"
  using assms by (simp add: getSize_count uint_word_of_int)

theorem getSize_components_witness:
  "uint (getSize (Blocked (Dense CT_Double [3, 3]) [10, 20])) = 1800"
  using getSize_components [of "Blocked (Dense CT_Double [3, 3]) [10, 20]"] by simp

end
