(* ===== verification/Graph.thy ===== *)
theory Graph
  imports Tensor_Type
begin

text \<open>
  The sets and fields of \<^verbatim>\<open>src/src/graph.h\<close> and \<^verbatim>\<open>src/src/graph.cpp\<close>. The objects live in an
  explicit store \<open>graph\<close>: sets at addresses, the data buffers of their set_fields as memory blocks, and
  the field references (\<^verbatim>\<open>FieldRefBase\<close> objects) with the block their data pointer points to, since
  the code reallocates blocks and keeps the references up to date. A field is addressed by its set
  and its position in the vector \<^verbatim>\<open>set_fields\<close>. Memory is a list of cells, a cell that was never
  written holding \<open>None\<close>; a component value is the bit pattern of the C++ value, 0 for what
  \<^verbatim>\<open>calloc\<close> and \<^verbatim>\<open>memset\<close> write. Allocation always succeeds, \<^verbatim>\<open>realloc\<close> always moves, and element
  counts stay below $2^{31}$, so that the \<^verbatim>\<open>int\<close> arithmetic on them does not wrap.
\<close>

section \<open>Memory\<close>

type_synonym 'a memory = "'a option list"

definition calloc_cells :: "nat \<Rightarrow> 'a \<Rightarrow> 'a memory" where
  "calloc_cells n zero = replicate n (Some zero)"

definition realloc_cells :: "'a memory \<Rightarrow> nat \<Rightarrow> 'a memory" where
  "realloc_cells m n = take n m @ replicate (n - length m) None"

definition memset_cells :: "'a memory \<Rightarrow> nat \<Rightarrow> nat \<Rightarrow> 'a \<Rightarrow> 'a memory result" where
  "memset_cells m from n v =
     (if from + n \<le> length m then Inr (take from m @ replicate n (Some v) @ drop (from + n) m)
      else Inl Undefined)"

definition mem_cell :: "'a memory \<Rightarrow> int \<Rightarrow> 'a option result" where
  "mem_cell m i = (if 0 \<le> i \<and> nat i < length m then Inr (m ! nat i) else Inl Undefined)"

definition mem_write :: "'a memory \<Rightarrow> int \<Rightarrow> 'a option \<Rightarrow> 'a memory result" where
  "mem_write m i v = (if 0 \<le> i \<and> nat i < length m then Inr (m[nat i := v]) else Inl Undefined)"

section \<open>The store\<close>

type_synonym component = nat

record field_data =
  fd_name :: string
  fd_componentType :: ComponentType
  fd_dimensions :: "int list"
  fd_size :: nat
  fd_data :: nat
  fieldReferences :: "nat list"

datatype set_kind = Unstructured | Grid

record set_data =
  kind :: set_kind
  set_name :: string
  spatialFieldName :: string
  numElements :: int
  endpointSets :: "nat list"
  endpoints :: "int memory"
  dimensions :: "int list"
  underlyingPointSet :: "nat option"
  gridPoints :: "int list"
  gridEdges :: "int list"
  capacity :: nat
  fieldNames :: "string \<rightharpoonup> nat"
  set_fields :: "field_data list"

record field_ref =
  ref_fieldData :: "nat \<times> nat"
  ref_data :: nat

record graph =
  sets :: "nat \<rightharpoonup> set_data"
  blocks :: "nat \<rightharpoonup> component memory"
  nextBlock :: nat
  refs :: "nat \<rightharpoonup> field_ref"

text \<open>Following a pointer to a set, a field, a block or a field reference.\<close>

definition deref :: "('k \<rightharpoonup> 'v) \<Rightarrow> 'k \<Rightarrow> 'v result" where
  "deref m a = (case m a of None \<Rightarrow> Inl Undefined | Some v \<Rightarrow> Inr v)"

abbreviation getSet :: "graph \<Rightarrow> nat \<Rightarrow> set_data result" where
  "getSet G s \<equiv> deref (sets G) s"

definition putSet :: "nat \<Rightarrow> set_data \<Rightarrow> graph \<Rightarrow> graph" where
  "putSet s S G = G\<lparr>sets := (sets G)(s \<mapsto> S)\<rparr>"

definition getFieldAt :: "graph \<Rightarrow> nat \<times> nat \<Rightarrow> field_data result" where
  "getFieldAt G p = rbind (getSet G (fst p)) (\<lambda>S. nth_result (set_fields S) (snd p))"

definition putField :: "nat \<times> nat \<Rightarrow> field_data \<Rightarrow> graph \<Rightarrow> graph result" where
  "putField p f G =
     rbind (getSet G (fst p)) (\<lambda>S.
     if snd p < length (set_fields S)
     then Inr (putSet (fst p) (S\<lparr>set_fields := (set_fields S)[snd p := f]\<rparr>) G) else Inl Undefined)"

section \<open>Construction of sets\<close>

definition capacityIncrement :: nat where
  "capacityIncrement = 1024"

definition getCardinality :: "set_data \<Rightarrow> nat" where
  "getCardinality S = length (endpointSets S)"

text \<open>
  The private constructor all others delegate to, and the constructor of edge sets; with no endpoint
  sets the latter builds an ordinary set.
\<close>

definition Set_init :: "string \<Rightarrow> set_kind \<Rightarrow> set_data" where
  "Set_init name k =
     \<lparr>kind = k, set_name = name, spatialFieldName = [], numElements = 0, endpointSets = [],
      endpoints = [], dimensions = [], underlyingPointSet = None, gridPoints = [], gridEdges = [],
      capacity = capacityIncrement, fieldNames = Map.empty, set_fields = []\<rparr>"

definition Set_edges :: "string \<Rightarrow> nat list \<Rightarrow> set_data" where
  "Set_edges name eps =
     (let S = (Set_init name Unstructured)\<lparr>endpointSets := eps\<rparr>
      in S\<lparr>endpoints := calloc_cells (capacity S * getCardinality S) 0\<rparr>)"

definition newSet :: "nat \<Rightarrow> string \<Rightarrow> nat list \<Rightarrow> graph \<Rightarrow> graph" where
  "newSet s name eps G = putSet s (Set_edges name eps) G"

text \<open>The destructor frees the buffers of the fields; endpoint memory goes with the set.\<close>

definition destroySet :: "nat \<Rightarrow> graph \<Rightarrow> graph result" where
  "destroySet s G =
     rbind (getSet G s) (\<lambda>S.
     Inr (G\<lparr>sets := (sets G)(s := None),
            blocks := (\<lambda>b. if b \<in> set (map fd_data (set_fields S)) then None else blocks G b)\<rparr>))"

section \<open>Elements\<close>

definition increaseEdgeCapacity :: "set_data \<Rightarrow> set_data" where
  "increaseEdgeCapacity S =
     S\<lparr>endpoints :=
         realloc_cells (endpoints S) ((capacity S + capacityIncrement) * getCardinality S)\<rparr>"

definition endpointError :: "bool \<Rightarrow> set_data \<Rightarrow> int \<Rightarrow> string" where
  "endpointError isLast E f =
     ''Invalid member of set ('' @ set_name E @ (if isLast then '') in addEdge ('' else '')in addEdge ('')
     @ int_to_string f @ '' < '' @ int_to_string (numElements E) @ '')''"

fun addEndpoints :: "graph \<Rightarrow> nat \<Rightarrow> int list \<Rightarrow> set_data \<Rightarrow> set_data result" where
  "addEndpoints G which [] S = Inr S"
| "addEndpoints G which (f # eps) S =
     rbind (nth_result (endpointSets S) which) (\<lambda>a.
     rbind (getSet G a) (\<lambda>E.
     uassert (numElements E > f) (endpointError (eps = []) E f)
       (rbind (mem_write (endpoints S) (numElements S * int (getCardinality S) + int which) (Some f))
          (\<lambda>m. addEndpoints G (Suc which) eps (S\<lparr>endpoints := m\<rparr>)))))"

text \<open>
  One round of the loop of \<^verbatim>\<open>increaseCapacity\<close>: the buffer is reallocated, its new part cleared, and
  the data pointer of every registered reference redirected.
\<close>

definition growField :: "nat \<Rightarrow> nat \<Rightarrow> graph \<Rightarrow> graph result" where
  "growField s i G =
     rbind (getSet G s) (\<lambda>S.
     rbind (getFieldAt G (s, i)) (\<lambda>f.
     rbind (deref (blocks G) (fd_data f)) (\<lambda>old.
     rbind (memset_cells (realloc_cells old ((capacity S + capacityIncrement) * fd_size f))
              (capacity S * fd_size f) (capacityIncrement * fd_size f) 0) (\<lambda>new.
     let b = nextBlock G in
     putField (s, i) (f\<lparr>fd_data := b\<rparr>)
       (G\<lparr>blocks := (blocks G)(fd_data f := None, b \<mapsto> new), nextBlock := b + 1,
          refs := (\<lambda>r. if r \<in> set (fieldReferences f)
                        then map_option (\<lambda>q. q\<lparr>ref_data := b\<rparr>) (refs G r) else refs G r)\<rparr>)))))"

definition increaseCapacity :: "nat \<Rightarrow> graph \<Rightarrow> graph result" where
  "increaseCapacity s G =
     rbind (getSet G s) (\<lambda>S.
     rbind (rfold (growField s) [0..<length (set_fields S)] G) (\<lambda>G'.
     rbind (getSet G' s) (\<lambda>S'.
     Inr (putSet s (S'\<lparr>capacity := capacity S' + capacityIncrement\<rparr>) G'))))"

definition add :: "nat \<Rightarrow> int list \<Rightarrow> graph \<Rightarrow> (int \<times> graph) result" where
  "add s eps G =
     rbind (getSet G s) (\<lambda>S.
     iassert (length eps = getCardinality S) ''Wrong number of endpoints.''
       (let S1 = (if numElements S > int (capacity S) - 1 then increaseEdgeCapacity S else S) in
        rbind (addEndpoints G 0 eps S1) (\<lambda>S2.
        let G2 = putSet s S2 G in
        rbind (if numElements S2 > int (capacity S2) - 1 then increaseCapacity s G2 else Inr G2)
          (\<lambda>G3. rbind (getSet G3 s) (\<lambda>S3.
          Inr (numElements S3, putSet s (S3\<lparr>numElements := numElements S3 + 1\<rparr>) G3))))))"

text \<open>
  \<^verbatim>\<open>remove\<close> indexes every buffer by the element, whatever the number of components per element; the
  six cases of its switch differ only in the type of the pointer.
\<close>

definition removeFromField :: "int \<Rightarrow> int \<Rightarrow> field_data \<Rightarrow> graph \<Rightarrow> graph result" where
  "removeFromField element n f G =
     rbind (deref (blocks G) (fd_data f)) (\<lambda>m.
     rbind (mem_cell m (n - 1)) (\<lambda>v.
     rbind (mem_write m element v) (\<lambda>m'.
     Inr (G\<lparr>blocks := (blocks G)(fd_data f \<mapsto> m')\<rparr>))))"

definition remove :: "nat \<Rightarrow> int \<Rightarrow> graph \<Rightarrow> graph result" where
  "remove s element G =
     rbind (getSet G s) (\<lambda>S.
     uassert (kind S \<noteq> Grid) ''Element removal disallowed for grid edge sets''
       (rbind (rfold (removeFromField element (numElements S)) (set_fields S) G) (\<lambda>G'.
        Inr (putSet s (S\<lparr>numElements := numElements S - 1\<rparr>) G'))))"

text \<open>
  The range loop over a set, from \<^verbatim>\<open>begin()\<close> until the iterator equals \<^verbatim>\<open>end()\<close>; it does not stop
  when the count is negative.
\<close>

partial_function (option) iterate_from :: "int \<Rightarrow> int \<Rightarrow> int list option" where
  "iterate_from cur stop =
     (if cur = stop then Some []
      else Option.bind (iterate_from (cur + 1) stop) (\<lambda>es. Some (cur # es)))"

definition elements :: "set_data \<Rightarrow> int list option" where
  "elements S = iterate_from 0 (numElements S)"

definition createElements :: "nat \<Rightarrow> nat \<Rightarrow> graph \<Rightarrow> graph result" where
  "createElements s num G = rfold (\<lambda>_ G. rbind (add s [] G) (\<lambda>r. Inr (snd r))) [0..<num] G"

section \<open>Endpoints\<close>

definition isHomogeneous :: "set_data \<Rightarrow> bool" where
  "isHomogeneous S =
     (case endpointSets S of [] \<Rightarrow> True | firstEndpointSet # rest \<Rightarrow>
        list_all (\<lambda>a. a = firstEndpointSet) rest)"

definition getEndpoint :: "set_data \<Rightarrow> int \<Rightarrow> nat \<Rightarrow> int option result" where
  "getEndpoint S edge endpointNum =
     mem_cell (endpoints S) (edge * int (getCardinality S) + int endpointNum)"

text \<open>
  The iterator over the endpoints of an edge. Its constructor reads an endpoint at once, also when it
  builds the end iterator.
\<close>

record endpoint_iterator =
  curElem :: int
  retElem :: "int option"
  endpointNum :: nat

definition mk_iterator :: "set_data \<Rightarrow> int \<Rightarrow> nat \<Rightarrow> endpoint_iterator result" where
  "mk_iterator S elem n =
     (if getCardinality S > 0
      then rbind (getEndpoint S elem n) (\<lambda>e. Inr \<lparr>curElem = elem, retElem = e, endpointNum = n\<rparr>)
      else Inr \<lparr>curElem = elem, retElem = Some (-1), endpointNum = n\<rparr>)"

definition iterator_next :: "set_data \<Rightarrow> endpoint_iterator \<Rightarrow> endpoint_iterator result" where
  "iterator_next S it =
     (let n = endpointNum it + 1 in
      if int n > int (getCardinality S) - 1
      then Inr (it\<lparr>endpointNum := n, retElem := Some (-1)\<rparr>)
      else rbind (mem_cell (endpoints S) (curElem it * int (getCardinality S) + int n))
             (\<lambda>e. Inr (it\<lparr>endpointNum := n, retElem := e\<rparr>)))"

fun endpoint_loop :: "set_data \<Rightarrow> nat \<Rightarrow> endpoint_iterator \<Rightarrow> int option list result" where
  "endpoint_loop S 0 it = Inr []"
| "endpoint_loop S (Suc left) it =
     rbind (iterator_next S it) (\<lambda>it'. rbind (endpoint_loop S left it') (\<lambda>es. Inr (retElem it # es)))"

text \<open>
  The loop compares endpoint numbers, from 0 to the cardinality: \<open>left\<close> above counts what is left.
\<close>

definition getEndpoints :: "set_data \<Rightarrow> int \<Rightarrow> int option list result" where
  "getEndpoints S edge =
     rbind (mk_iterator S edge 0) (\<lambda>first.
     rbind (mk_iterator S edge (getCardinality S)) (\<lambda>stop.
     endpoint_loop S (endpointNum stop - endpointNum first) first))"

section \<open>Fields and field references\<close>

definition addField :: "nat \<Rightarrow> ComponentType \<Rightarrow> int list \<Rightarrow> string \<Rightarrow> nat \<Rightarrow> graph \<Rightarrow> graph result" where
  "addField s ct dims name r G =
     rbind (getSet G s) (\<lambda>S.
     let size = nat (prod_list dims); b = nextBlock G;
         f = \<lparr>fd_name = name, fd_componentType = ct, fd_dimensions = dims, fd_size = size,
              fd_data = b, fieldReferences = [r]\<rparr>;
         fs = set_fields S @ [f]
     in Inr (putSet s (S\<lparr>set_fields := fs, fieldNames := (fieldNames S)(name \<mapsto> length fs - 1)\<rparr>)
          (G\<lparr>blocks := (blocks G)(b \<mapsto> calloc_cells (capacity S * size) 0), nextBlock := b + 1,
             refs := (refs G)(r \<mapsto> \<lparr>ref_fieldData = (s, length fs - 1), ref_data = b\<rparr>)\<rparr>)))"

definition setSpatialField :: "nat \<Rightarrow> string \<Rightarrow> graph \<Rightarrow> graph result" where
  "setSpatialField s name G =
     rbind (getSet G s) (\<lambda>S.
     uassert (fieldNames S name \<noteq> None) ''Invalid field name setting spatial field''
       (rbind (map_at (fieldNames S) name) (\<lambda>i.
        rbind (getFieldAt G (s, i)) (\<lambda>f.
        uassert (length (fd_dimensions f) = 1) ''Spatial Data must be order 1''
          (uassert (fd_dimensions f ! 0 = 3) ''Spatial Data must be 3D in order 1''
             (Inr (putSet s (S\<lparr>spatialFieldName := name\<rparr>) G)))))))"

definition getFieldData :: "graph \<Rightarrow> nat \<Rightarrow> string \<Rightarrow> nat result" where
  "getFieldData G s name =
     rbind (getSet G s) (\<lambda>S.
     uassert (fieldNames S name \<noteq> None) (''The Set has no field '' @ name)
       (rbind (map_at (fieldNames S) name) (\<lambda>i. rbind (getFieldAt G (s, i)) (\<lambda>f. Inr (fd_data f)))))"

text \<open>
  The life of a field reference \<open>r\<close>: construction on a field, copy construction, copy and move
  assignment, destruction. The registered references of a field form a \<^verbatim>\<open>std::set\<close>.
\<close>

definition registerRef :: "nat \<times> nat \<Rightarrow> nat \<Rightarrow> graph \<Rightarrow> graph result" where
  "registerRef p r G =
     rbind (getFieldAt G p) (\<lambda>f. putField p (f\<lparr>fieldReferences := List.insert r (fieldReferences f)\<rparr>) G)"

definition unregisterRef :: "nat \<times> nat \<Rightarrow> nat \<Rightarrow> graph \<Rightarrow> graph result" where
  "unregisterRef p r G =
     rbind (getFieldAt G p) (\<lambda>f. putField p (f\<lparr>fieldReferences := removeAll r (fieldReferences f)\<rparr>) G)"

definition newRef :: "nat \<times> nat \<Rightarrow> nat \<Rightarrow> graph \<Rightarrow> graph result" where
  "newRef p r G =
     rbind (getFieldAt G p) (\<lambda>f.
     registerRef p r (G\<lparr>refs := (refs G)(r \<mapsto> \<lparr>ref_fieldData = p, ref_data = fd_data f\<rparr>)\<rparr>))"

definition getField :: "nat \<Rightarrow> ComponentType \<Rightarrow> string \<Rightarrow> nat \<Rightarrow> graph \<Rightarrow> graph result" where
  "getField s ct name r G =
     rbind (getSet G s) (\<lambda>S.
     uassert (fieldNames S name \<noteq> None) ''Invalid field name in getField()''
       (rbind (map_at (fieldNames S) name) (\<lambda>i.
        rbind (getFieldAt G (s, i)) (\<lambda>f.
        uassert (ct = fd_componentType f) ''Incorrect field type.'' (newRef (s, i) r G)))))"

definition copyRef :: "nat \<Rightarrow> nat \<Rightarrow> graph \<Rightarrow> graph result" where
  "copyRef r other G =
     rbind (deref (refs G) other) (\<lambda>q.
     registerRef (ref_fieldData q) r (G\<lparr>refs := (refs G)(r \<mapsto> q)\<rparr>))"

text \<open>
  The move constructor swaps the members of the source with the members of the object under
  construction, which were never initialised: afterwards the source holds no usable pointer.
\<close>

definition moveRef :: "nat \<Rightarrow> nat \<Rightarrow> graph \<Rightarrow> graph result" where
  "moveRef r other G =
     rbind (deref (refs G) other) (\<lambda>q.
     rbind (unregisterRef (ref_fieldData q) other
              (G\<lparr>refs := (refs G)(other := None, r \<mapsto> q)\<rparr>)) (registerRef (ref_fieldData q) r))"

definition assignRef :: "nat \<Rightarrow> nat \<Rightarrow> graph \<Rightarrow> graph result" where
  "assignRef r other G = rbind (deref (refs G) r) (\<lambda>_. copyRef r other G)"

definition moveAssignRef :: "nat \<Rightarrow> nat \<Rightarrow> graph \<Rightarrow> graph result" where
  "moveAssignRef r other G =
     rbind (deref (refs G) r) (\<lambda>mine.
     rbind (deref (refs G) other) (\<lambda>q.
     rbind (unregisterRef (ref_fieldData q) other
              (G\<lparr>refs := (refs G)(r \<mapsto> q, other \<mapsto> mine)\<rparr>)) (registerRef (ref_fieldData q) r)))"

definition destroyRef :: "nat \<Rightarrow> graph \<Rightarrow> graph result" where
  "destroyRef r G =
     rbind (deref (refs G) r) (\<lambda>q.
     rbind (unregisterRef (ref_fieldData q) r G) (\<lambda>G'. Inr (G'\<lparr>refs := (refs G')(r := None)\<rparr>)))"

text \<open>
  Reading and writing the tensor of an element through a reference of type
  \<^verbatim>\<open>FieldRef<T,dimensions...>\<close>: \<open>ct\<close> is the component type of \<^verbatim>\<open>T\<close>, \<open>dims\<close> the dimensions of the
  reference's type, which nothing compares with those of the field.
\<close>

definition getElemDataPtr :: "graph \<Rightarrow> nat \<Rightarrow> ComponentType \<Rightarrow> int \<Rightarrow> nat \<Rightarrow> (nat \<times> int) result" where
  "getElemDataPtr G r ct element elementFieldSize =
     rbind (deref (refs G) r) (\<lambda>q.
     rbind (getFieldAt G (ref_fieldData q)) (\<lambda>f.
     iassert (componentSize ct = componentSize (fd_componentType f))
       ''sizeof(T) == componentSize(fieldData->type->getComponentType())''
       (Inr (ref_data q, element * int elementFieldSize))))"

definition writeCells :: "nat \<Rightarrow> int \<Rightarrow> component list \<Rightarrow> graph \<Rightarrow> graph result" where
  "writeCells b base vals G =
     rbind (deref (blocks G) b) (\<lambda>m.
     rbind (rfold (\<lambda>i m. mem_write m (base + int i) (Some (vals ! i))) [0..<length vals] m)
       (\<lambda>m'. Inr (G\<lparr>blocks := (blocks G)(b \<mapsto> m')\<rparr>)))"

definition setTensor ::
  "nat \<Rightarrow> ComponentType \<Rightarrow> int list \<Rightarrow> int \<Rightarrow> component list \<Rightarrow> graph \<Rightarrow> graph result" where
  "setTensor r ct dims element vals G =
     (let size = nat (product_of dims) in
      iassert (length vals = size) ''Incorrect number of init values''
        (rbind (getElemDataPtr G r ct element size) (\<lambda>p. writeCells (fst p) (snd p) vals G)))"

definition getComponent ::
  "graph \<Rightarrow> nat \<Rightarrow> ComponentType \<Rightarrow> int list \<Rightarrow> int \<Rightarrow> int list \<Rightarrow> component option result" where
  "getComponent G r ct dims element index =
     rbind (getElemDataPtr G r ct element (nat (product_of dims))) (\<lambda>p.
     rbind (deref (blocks G) (fst p)) (\<lambda>m. mem_cell m (snd p + computeOffset dims index)))"

end
