(* ===== verification/Graph_Store.thy ===== *)
theory Graph_Store
  imports Graph
begin

text \<open>
  The store of \<open>Graph\<close> under growth: memory facts, the state after the buffers of a set were
  reallocated, the invariants \<open>graph_ok\<close> (sets, buffers) and \<open>refs_ok\<close> (the registry of field
  references), and what adding an element does to the store when it fits and when it does not.
\<close>

section \<open>Memory\<close>

definition write_list :: "'a memory \<Rightarrow> nat \<Rightarrow> 'a list \<Rightarrow> 'a memory" where
  "write_list m i vs = take i m @ map Some vs @ drop (i + length vs) m"

lemma length_write_list [simp]: "i + length vs \<le> length m \<Longrightarrow> length (write_list m i vs) = length m"
  by (simp add: write_list_def)

lemma write_list_Nil [simp]: "write_list m i [] = m"
  by (simp add: write_list_def)

lemma nth_write_list:
  assumes "i + length vs \<le> length m" and "j < length m"
  shows "write_list m i vs ! j = (if i \<le> j \<and> j < i + length vs then Some (vs ! (j - i)) else m ! j)"
proof -
  have len: "length (take i m) = i" using assms(1) by simp
  consider "j < i" | "i \<le> j" "j < i + length vs" | "i + length vs \<le> j" by linarith
  then show ?thesis
  proof cases
    case 3
    then have "\<not> j - i < length vs" by linarith
    with 3 assms len show ?thesis by (simp add: write_list_def nth_append)
  qed (use assms len in \<open>auto simp: write_list_def nth_append\<close>)
qed

lemma write_list_update:
  assumes "i + length vs < length m"
  shows "write_list (m[i := Some v]) (Suc i) vs = write_list m i (v # vs)"
proof (rule nth_equalityI)
  show "length (write_list (m[i := Some v]) (Suc i) vs) = length (write_list m i (v # vs))"
    using assms by simp
  fix j assume "j < length (write_list (m[i := Some v]) (Suc i) vs)"
  then have "j < length m" using assms by simp
  then show "write_list (m[i := Some v]) (Suc i) vs ! j = write_list m i (v # vs) ! j"
    using assms by (auto simp: nth_write_list nth_Cons' nth_list_update)
qed

lemma mem_write_at [simp]: "i < length m \<Longrightarrow> mem_write m (int i) v = Inr (m[i := v])"
  by (simp add: mem_write_def)

lemma mem_cell_at [simp]: "i < length m \<Longrightarrow> mem_cell m (int i) = Inr (m ! i)"
  by (simp add: mem_cell_def)

lemma grow_memory:
  assumes "length old = c * z"
  shows "memset_cells (realloc_cells old ((c + k) * z)) (c * z) (k * z) v
    = Inr (old @ replicate (k * z) (Some v))"
  using assms by (simp add: memset_cells_def realloc_cells_def add_mult_distrib)

lemma deref_Some [simp]: "m a = Some v \<Longrightarrow> deref m a = Inr v"
  by (simp add: deref_def)

lemma deref_None [simp]: "m a = None \<Longrightarrow> deref m a = Inl Undefined"
  by (simp add: deref_def)

lemma deref_eq_Inr [result_simps]: "deref m a = Inr v \<longleftrightarrow> m a = Some v"
  by (simp add: deref_def split: option.split)

lemma writeCells_ok:
  assumes "blocks G b = Some m" and "base + length vs \<le> length m"
  shows "writeCells b (int base) vs G = Inr (G\<lparr>blocks := (blocks G)(b \<mapsto> write_list m base vs)\<rparr>)"
proof -
  have "rfold (\<lambda>i m. mem_write m (int base + int i) (Some (vs ! i))) [0..<k] m
      = Inr (write_list m base (take k vs))" if "k \<le> length vs" for k
    using that
  proof (induction k)
    case (Suc k)
    let ?m = "write_list m base (take k vs)"
    have "mem_write ?m (int base + int k) (Some (vs ! k)) = Inr (?m[base + k := Some (vs ! k)])"
      using Suc assms(2) by (simp add: mem_write_def nat_add_distrib)
    also have "?m[base + k := Some (vs ! k)] = write_list m base (take (Suc k) vs)"
    proof (rule nth_equalityI)
      fix j assume "j < length (?m[base + k := Some (vs ! k)])"
      then have j: "j < length m" using Suc assms(2) by simp
      have l: "base + length (take k vs) \<le> length m" "base + length (take (Suc k) vs) \<le> length m"
        using Suc.prems assms(2) by simp_all
      show "?m[base + k := Some (vs ! k)] ! j = write_list m base (take (Suc k) vs) ! j"
        using j Suc.prems assms(2)
        by (auto simp: nth_write_list [OF l(1)] nth_write_list [OF l(2)] nth_list_update nth_append)
    qed (use Suc assms(2) in simp)
    finally show ?case using Suc by (simp add: rfold_append)
  qed simp
  from this [of "length vs"] assms(1) show ?thesis by (simp add: writeCells_def)
qed

section \<open>Adding an element\<close>

definition valid_endpoints :: "graph \<Rightarrow> set_data \<Rightarrow> int list \<Rightarrow> bool" where
  "valid_endpoints G S eps =
     list_all2 (\<lambda>a e. \<exists>E. sets G a = Some E \<and> e < numElements E) (endpointSets S) eps"

lemma addEndpoints_ok:
  assumes "list_all2 (\<lambda>a e. \<exists>E. sets G a = Some E \<and> e < numElements E)
      (drop which (endpointSets S)) eps"
    and "numElements S = int n" and "(n + 1) * getCardinality S \<le> length (endpoints S)"
    and "which \<le> getCardinality S"
  shows "addEndpoints G which eps S =
    Inr (S\<lparr>endpoints := write_list (endpoints S) (n * getCardinality S + which) eps\<rparr>)"
  using assms
proof (induction eps arbitrary: which S rule: list.induct)
  case (Cons f eps)
  let ?c = "getCardinality S"
  have lt: "which < length (endpointSets S)"
  proof (rule ccontr)
    assume "\<not> which < length (endpointSets S)"
    then have "drop which (endpointSets S) = []" by simp
    with Cons.prems(1) show False by simp
  qed
  then have d: "drop which (endpointSets S) = endpointSets S ! which # drop (Suc which) (endpointSets S)"
    by (rule Cons_nth_drop_Suc [symmetric])
  with Cons.prems(1) obtain E where E: "sets G (endpointSets S ! which) = Some E" "f < numElements E"
    and rest: "list_all2 (\<lambda>a e. \<exists>E. sets G a = Some E \<and> e < numElements E)
      (drop (Suc which) (endpointSets S)) eps"
    by auto
  have len: "Suc which + length eps = ?c"
    using list_all2_lengthD [OF rest] lt by (simp add: getCardinality_def)
  then have bound: "n * ?c + which + length eps < length (endpoints S)"
    using Cons.prems(3) by simp
  have w: "mem_write (endpoints S) (numElements S * int ?c + int which) (Some f)
      = Inr ((endpoints S)[n * ?c + which := Some f])"
    using bound mem_write_at [of "n * ?c + which" "endpoints S"] Cons.prems(2) by simp
  let ?S = "S\<lparr>endpoints := (endpoints S)[n * ?c + which := Some f]\<rparr>"
  have "addEndpoints G (Suc which) eps ?S =
      Inr (?S\<lparr>endpoints := write_list (endpoints ?S) (n * ?c + Suc which) eps\<rparr>)"
    using Cons.IH [of "Suc which" ?S] rest Cons.prems lt by (simp add: getCardinality_def)
  with E lt w bound show ?case by (simp add: write_list_update)
qed simp

section \<open>Growing the buffers\<close>

definition grown_fields :: "nat \<Rightarrow> nat \<Rightarrow> field_data list \<Rightarrow> field_data list" where
  "grown_fields nb i fs =
     map (\<lambda>j. if j < i then (fs ! j)\<lparr>fd_data := nb + j\<rparr> else fs ! j) [0..<length fs]"

definition buffers_ok :: "graph \<Rightarrow> set_data \<Rightarrow> bool" where
  "buffers_ok G S \<longleftrightarrow>
     distinct (map fd_data (set_fields S)) \<and>
     (\<forall>f \<in> set (set_fields S). fd_data f < nextBlock G \<and>
        (\<exists>m. blocks G (fd_data f) = Some m \<and> length m = capacity S * fd_size f))"

definition extension :: "field_data \<Rightarrow> component memory" where
  "extension f = replicate (capacityIncrement * fd_size f) (Some 0)"

definition grown :: "nat \<Rightarrow> set_data \<Rightarrow> nat \<Rightarrow> graph \<Rightarrow> graph \<Rightarrow> bool" where
  "grown s S i G G' \<longleftrightarrow>
     (let fs = set_fields S; nb = nextBlock G in
      sets G' = (sets G)(s \<mapsto> S\<lparr>set_fields := grown_fields nb i fs\<rparr>) \<and> nextBlock G' = nb + i \<and>
      (\<forall>b. blocks G' b =
         (if nb \<le> b \<and> b < nb + i
          then map_option (\<lambda>m. m @ extension (fs ! (b - nb))) (blocks G (fd_data (fs ! (b - nb))))
          else if b \<in> fd_data ` set (take i fs) then None else blocks G b)) \<and>
      (\<forall>r. map_option ref_fieldData (refs G' r) = map_option ref_fieldData (refs G r)) \<and>
      (\<forall>r. (\<forall>j < i. r \<notin> set (fieldReferences (fs ! j))) \<longrightarrow> refs G' r = refs G r) \<and>
      (\<forall>r. \<forall>j < i. r \<in> set (fieldReferences (fs ! j)) \<longrightarrow>
         (\<forall>k. j < k \<and> k < i \<longrightarrow> r \<notin> set (fieldReferences (fs ! k))) \<longrightarrow>
         refs G' r = map_option (\<lambda>q. q\<lparr>ref_data := nb + j\<rparr>) (refs G r)))"

lemma length_grown_fields [simp]: "length (grown_fields nb i fs) = length fs"
  by (simp add: grown_fields_def)

lemma nth_grown_fields:
  "j < length fs \<Longrightarrow>
   grown_fields nb i fs ! j = (if j < i then (fs ! j)\<lparr>fd_data := nb + j\<rparr> else fs ! j)"
  by (simp add: grown_fields_def)

lemma grown_fields_0 [simp]: "grown_fields nb 0 fs = fs"
  by (rule nth_equalityI) (simp_all add: nth_grown_fields)

lemma grown_fields_Suc:
  "i < length fs \<Longrightarrow>
   (grown_fields nb i fs)[i := (fs ! i)\<lparr>fd_data := nb + i\<rparr>] = grown_fields nb (Suc i) fs"
  by (rule nth_equalityI) (auto simp: nth_grown_fields nth_list_update less_Suc_eq)

lemma set_data_ref_data:
  "map_option ref_fieldData x = map_option ref_fieldData y \<Longrightarrow>
   map_option (\<lambda>q. q\<lparr>ref_data := d\<rparr>) x = map_option (\<lambda>q. q\<lparr>ref_data := d\<rparr>) (y :: field_ref option)"
  by (cases x; cases y) simp_all

lemma take_Suc_image: "i < length fs \<Longrightarrow> f ` set (take (Suc i) fs) = insert (f (fs ! i)) (f ` set (take i fs))"
  by (simp add: take_Suc_conv_app_nth)

lemma growField_ok:
  assumes G: "sets G s = Some S" and b: "buffers_ok G S" and i: "i < length (set_fields S)"
    and g: "grown s S i G G'"
  shows "\<exists>G''. growField s i G' = Inr G'' \<and> grown s S (Suc i) G G''"
proof -
  let ?fs = "set_fields S" and ?nb = "nextBlock G"
  let ?f = "?fs ! i"
  obtain m where m: "blocks G (fd_data ?f) = Some m" "length m = capacity S * fd_size ?f"
    and lt: "fd_data ?f < ?nb"
    using b nth_mem [OF i] unfolding buffers_ok_def by blast
  have notin: "fd_data ?f \<notin> fd_data ` set (take i ?fs)"
  proof
    assume "fd_data ?f \<in> fd_data ` set (take i ?fs)"
    then obtain k where "k < i" "fd_data (?fs ! k) = fd_data ?f"
      using i by (auto simp: in_set_conv_nth)
    with b i show False by (simp add: buffers_ok_def distinct_conv_nth)
  qed
  have S': "sets G' s = Some (S\<lparr>set_fields := grown_fields ?nb i ?fs\<rparr>)"
    and nb': "nextBlock G' = ?nb + i"
    using g by (simp_all add: grown_def Let_def)
  have f': "getFieldAt G' (s, i) = Inr ?f"
    using S' i by (simp add: getFieldAt_def nth_grown_fields)
  have m': "blocks G' (fd_data ?f) = Some m"
    using g lt notin m(1) by (simp add: grown_def Let_def)
  define G'' where "G'' = putSet s (S\<lparr>set_fields := grown_fields ?nb (Suc i) ?fs\<rparr>)
    (G'\<lparr>blocks := (blocks G')(fd_data ?f := None, ?nb + i \<mapsto> m @ extension ?f),
        nextBlock := ?nb + i + 1,
        refs := (\<lambda>r. if r \<in> set (fieldReferences ?f)
                  then map_option (\<lambda>q. q\<lparr>ref_data := ?nb + i\<rparr>) (refs G' r) else refs G' r)\<rparr>)"
  have "growField s i G' = Inr G''"
    using S' f' m' m(2) nb' i
    by (simp add: growField_def grow_memory Let_def putField_def G''_def grown_fields_Suc
        extension_def)
  moreover have "grown s S (Suc i) G G''"
    unfolding grown_def Let_def
  proof (intro conjI allI impI)
    show "sets G'' = (sets G)(s \<mapsto> S\<lparr>set_fields := grown_fields ?nb (Suc i) ?fs\<rparr>)"
      using g by (simp add: G''_def putSet_def grown_def Let_def)
    show "nextBlock G'' = ?nb + Suc i" by (simp add: G''_def putSet_def)
    fix b' show "blocks G'' b' = (if ?nb \<le> b' \<and> b' < ?nb + Suc i
        then map_option (\<lambda>m. m @ extension (?fs ! (b' - ?nb))) (blocks G (fd_data (?fs ! (b' - ?nb))))
        else if b' \<in> fd_data ` set (take (Suc i) ?fs) then None else blocks G b')"
      using g lt m(1) i by (auto simp: G''_def putSet_def grown_def Let_def take_Suc_image)
  next
    fix r
    have D: "map_option ref_fieldData (refs G' r) = map_option ref_fieldData (refs G r)"
      using g by (simp add: grown_def Let_def)
    then show "map_option ref_fieldData (refs G'' r) = map_option ref_fieldData (refs G r)"
      by (auto simp: G''_def putSet_def option.map_comp comp_def)
    show "refs G'' r = refs G r" if "\<forall>j < Suc i. r \<notin> set (fieldReferences (?fs ! j))"
      using g that by (simp add: G''_def putSet_def grown_def Let_def)
    fix j
    assume j: "j < Suc i" "r \<in> set (fieldReferences (?fs ! j))"
      "\<forall>k. j < k \<and> k < Suc i \<longrightarrow> r \<notin> set (fieldReferences (?fs ! k))"
    show "refs G'' r = map_option (\<lambda>q. q\<lparr>ref_data := ?nb + j\<rparr>) (refs G r)"
    proof (cases "j = i")
      case True
      with j(2) show ?thesis
        by (simp add: G''_def putSet_def set_data_ref_data [OF D])
    next
      case False
      with j have "r \<notin> set (fieldReferences ?f)" by simp
      with j False g show ?thesis by (simp add: G''_def putSet_def grown_def Let_def)
    qed
  qed
  ultimately show ?thesis by blast
qed

lemma growFields_ok:
  assumes "sets G s = Some S" and "buffers_ok G S" and "i \<le> length (set_fields S)"
  shows "\<exists>G'. rfold (growField s) [0..<i] G = Inr G' \<and> grown s S i G G'"
  using assms(3)
proof (induction i)
  case 0
  have "(sets G)(s \<mapsto> S) = sets G" using assms(1) by (simp add: fun_upd_idem)
  then show ?case by (auto simp: grown_def Let_def)
next
  case (Suc i)
  then obtain G' where "rfold (growField s) [0..<i] G = Inr G'" "grown s S i G G'" by auto
  moreover from this(2) obtain G'' where "growField s i G' = Inr G''" "grown s S (Suc i) G G''"
    using growField_ok [OF assms(1,2)] Suc.prems by (metis Suc_le_lessD)
  ultimately show ?case by (auto simp: rfold_append)
qed

lemma increaseCapacity_ok:
  assumes "sets G s = Some S" and "buffers_ok G S"
  shows "\<exists>H. grown s S (length (set_fields S)) G H \<and>
    increaseCapacity s G =
      Inr (putSet s (S\<lparr>set_fields := grown_fields (nextBlock G) (length (set_fields S)) (set_fields S),
                       capacity := capacity S + capacityIncrement\<rparr>) H)"
proof -
  obtain H where H: "rfold (growField s) [0..<length (set_fields S)] G = Inr H"
    "grown s S (length (set_fields S)) G H"
    using growFields_ok [OF assms] by blast
  then have "sets H s = Some (S\<lparr>set_fields := grown_fields (nextBlock G) (length (set_fields S)) (set_fields S)\<rparr>)"
    by (simp add: grown_def Let_def)
  with H assms(1) show ?thesis
    by (intro exI [of _ H]) (simp add: increaseCapacity_def)
qed

section \<open>The invariant of the store\<close>

definition field_ok :: "graph \<Rightarrow> set_data \<Rightarrow> field_data \<Rightarrow> bool" where
  "field_ok G S f \<longleftrightarrow> fd_data f < nextBlock G \<and> fd_size f = nat (prod_list (fd_dimensions f)) \<and>
     (\<exists>m. blocks G (fd_data f) = Some m \<and> length m = capacity S * fd_size f \<and> None \<notin> set m)"

definition set_ok :: "graph \<Rightarrow> set_data \<Rightarrow> bool" where
  "set_ok G S \<longleftrightarrow>
     0 \<le> numElements S \<and> numElements S \<le> int (capacity S) \<and>
     length (endpoints S) = capacity S * getCardinality S \<and>
     (\<forall>i < nat (numElements S) * getCardinality S. endpoints S ! i \<noteq> None) \<and>
     (\<forall>a \<in> set (endpointSets S). sets G a \<noteq> None) \<and>
     (\<forall>f \<in> set (set_fields S). field_ok G S f) \<and>
     (\<forall>x i. fieldNames S x = Some i \<longrightarrow> i < length (set_fields S) \<and> fd_name (set_fields S ! i) = x)"

definition graph_ok :: "graph \<Rightarrow> bool" where
  "graph_ok G \<longleftrightarrow>
     (\<forall>s S. sets G s = Some S \<longrightarrow> set_ok G S) \<and>
     (\<forall>p q f g. getFieldAt G p = Inr f \<longrightarrow> getFieldAt G q = Inr g \<longrightarrow> fd_data f = fd_data g \<longrightarrow> p = q)"

text \<open>The registry of references: a live reference is registered with its field and points to its buffer.\<close>

definition refs_ok :: "graph \<Rightarrow> bool" where
  "refs_ok G \<longleftrightarrow>
     (\<forall>r q. refs G r = Some q \<longrightarrow> (\<exists>f. getFieldAt G (ref_fieldData q) = Inr f \<and>
        r \<in> set (fieldReferences f) \<and> ref_data q = fd_data f)) \<and>
     (\<forall>p f r. getFieldAt G p = Inr f \<longrightarrow> r \<in> set (fieldReferences f) \<longrightarrow>
        (\<exists>q. refs G r = Some q \<and> ref_fieldData q = p))"

lemma getFieldAt_eq_Inr [result_simps]:
  "getFieldAt G p = Inr f \<longleftrightarrow>
   (\<exists>S. sets G (fst p) = Some S \<and> snd p < length (set_fields S) \<and> set_fields S ! snd p = f)"
  by (auto simp: getFieldAt_def result_simps)

lemma graph_okD:
  assumes "graph_ok G" and "sets G s = Some S"
  shows "set_ok G S" and "buffers_ok G S"
proof -
  show ok: "set_ok G S" using assms by (simp add: graph_ok_def)
  have "i = j" if "i < length (set_fields S)" "j < length (set_fields S)"
    "fd_data (set_fields S ! i) = fd_data (set_fields S ! j)" for i j
  proof -
    have "getFieldAt G (s, i) = Inr (set_fields S ! i)" "getFieldAt G (s, j) = Inr (set_fields S ! j)"
      using assms(2) that by (simp_all add: result_simps)
    with assms(1) that(3) have "(s, i) = (s, j)" unfolding graph_ok_def by blast
    then show ?thesis by simp
  qed
  then show "buffers_ok G S"
    using ok by (auto simp: buffers_ok_def set_ok_def field_ok_def distinct_conv_nth)
qed

section \<open>What adding an element does\<close>

text \<open>
  The state after an element was added, in four parts: the set itself, its endpoints, the buffers of
  its fields (each possibly moved and extended by zeros), and the references to them.
\<close>

definition added_set :: "nat \<Rightarrow> set_data \<Rightarrow> graph \<Rightarrow> set_data \<Rightarrow> graph \<Rightarrow> bool" where
  "added_set s S G S' G' \<longleftrightarrow>
     sets G' = (sets G)(s \<mapsto> S') \<and>
     S' = S\<lparr>numElements := numElements S + 1, endpoints := endpoints S', capacity := capacity S',
            set_fields := set_fields S'\<rparr> \<and>
     numElements S' \<le> int (capacity S') \<and> length (set_fields S') = length (set_fields S)"

definition added_endpoints :: "set_data \<Rightarrow> int list \<Rightarrow> set_data \<Rightarrow> bool" where
  "added_endpoints S eps S' \<longleftrightarrow>
     (let n = nat (numElements S); c = getCardinality S in
      length (endpoints S') = capacity S' * c \<and>
      (\<forall>i < n * c. endpoints S' ! i = endpoints S ! i) \<and>
      (\<forall>k < c. endpoints S' ! (n * c + k) = Some (eps ! k)))"

definition moved_buffer :: "graph \<Rightarrow> field_data \<Rightarrow> nat \<Rightarrow> graph \<Rightarrow> field_data \<Rightarrow> bool" where
  "moved_buffer G f cap G' f' \<longleftrightarrow>
     f' = f\<lparr>fd_data := fd_data f'\<rparr> \<and> fd_data f' < nextBlock G' \<and>
     (fd_data f' = fd_data f \<or> nextBlock G \<le> fd_data f') \<and>
     (\<exists>m z. blocks G (fd_data f) = Some m \<and> blocks G' (fd_data f') = Some (m @ replicate z (Some 0)) \<and>
        length m + z = cap * fd_size f)"

definition added_buffers :: "set_data \<Rightarrow> graph \<Rightarrow> set_data \<Rightarrow> graph \<Rightarrow> bool" where
  "added_buffers S G S' G' \<longleftrightarrow>
     nextBlock G \<le> nextBlock G' \<and> distinct (map fd_data (set_fields S')) \<and>
     list_all2 (\<lambda>f f'. moved_buffer G f (capacity S') G' f') (set_fields S) (set_fields S') \<and>
     (\<forall>b < nextBlock G. b \<notin> fd_data ` set (set_fields S) \<longrightarrow> blocks G' b = blocks G b)"

definition added_refs :: "set_data \<Rightarrow> graph \<Rightarrow> set_data \<Rightarrow> graph \<Rightarrow> bool" where
  "added_refs S G S' G' \<longleftrightarrow>
     (\<forall>r. (\<forall>f \<in> set (set_fields S). r \<notin> set (fieldReferences f)) \<longrightarrow> refs G' r = refs G r) \<and>
     (\<forall>r. map_option ref_fieldData (refs G' r) = map_option ref_fieldData (refs G r)) \<and>
     (\<forall>r q. \<forall>j < length (set_fields S). r \<in> set (fieldReferences (set_fields S ! j)) \<longrightarrow>
        (\<forall>k < length (set_fields S). k \<noteq> j \<longrightarrow> r \<notin> set (fieldReferences (set_fields S ! k))) \<longrightarrow>
        refs G r = Some q \<longrightarrow> ref_data q = fd_data (set_fields S ! j) \<longrightarrow>
        refs G' r = Some (q\<lparr>ref_data := fd_data (set_fields S' ! j)\<rparr>))"

definition added :: "nat \<Rightarrow> set_data \<Rightarrow> int list \<Rightarrow> graph \<Rightarrow> set_data \<Rightarrow> graph \<Rightarrow> bool" where
  "added s S eps G S' G' \<longleftrightarrow>
     added_set s S G S' G' \<and> added_endpoints S eps S' \<and> added_buffers S G S' G' \<and> added_refs S G S' G'"

lemma added_endpoints_write:
  assumes "numElements S = int n" and "length eps = getCardinality S" and "n < cap"
    and "n \<le> capacity S" and "length (endpoints S) = capacity S * getCardinality S"
    and E: "E = write_list M (n * getCardinality S) eps" and M: "length M = cap * getCardinality S"
    and "\<And>i. i < n * getCardinality S \<Longrightarrow> M ! i = endpoints S ! i"
    and "endpoints S' = E" and "capacity S' = cap"
  shows "added_endpoints S eps S'"
proof -
  let ?c = "getCardinality S"
  have room: "n * ?c + ?c \<le> length M"
    using mult_le_mono1 [of "Suc n" cap ?c] assms(3) M by simp
  then show ?thesis
    using assms by (simp add: added_endpoints_def nth_write_list)
qed

lemma add_within_capacity:
  assumes ok: "graph_ok G" and S: "sets G s = Some S" and v: "valid_endpoints G S eps"
    and cap: "numElements S < int (capacity S)"
  shows "\<exists>S' G'. add s eps G = Inr (numElements S, G') \<and> added s S eps G S' G'"
proof -
  let ?c = "getCardinality S"
  have "0 \<le> numElements S" using graph_okD(1) [OF ok S] by (simp add: set_ok_def)
  then obtain n where n: "numElements S = int n" by (rule nonneg_int_cases)
  then have nc: "n < capacity S" using cap by simp
  have len: "length eps = ?c"
    using v by (simp add: valid_endpoints_def getCardinality_def list_all2_lengthD)
  have lenE: "length (endpoints S) = capacity S * ?c" using graph_okD(1) [OF ok S] by (simp add: set_ok_def)
  have room: "(n + 1) * ?c \<le> length (endpoints S)"
    using mult_le_mono1 [of "Suc n" "capacity S" ?c] nc lenE by simp
  let ?E = "write_list (endpoints S) (n * ?c) eps"
  let ?S = "S\<lparr>endpoints := ?E, numElements := int n + 1\<rparr>"
  have "addEndpoints G 0 eps S = Inr (S\<lparr>endpoints := ?E\<rparr>)"
    using addEndpoints_ok [of G 0 S eps n] v n room by (simp add: valid_endpoints_def)
  then have "add s eps G = Inr (numElements S, putSet s ?S G)"
    using S len cap n by (simp add: add_def Let_def putSet_def)
  moreover have "added_set s S G ?S (putSet s ?S G)"
    using n nc by (simp add: added_set_def putSet_def)
  moreover have "added_endpoints S eps ?S"
    using added_endpoints_write [OF n len nc _ lenE refl lenE] nc by simp
  moreover have "added_buffers S G ?S (putSet s ?S G)"
  proof -
    have "moved_buffer G f (capacity S) (putSet s ?S G) f" if f: "f \<in> set (set_fields S)" for f
    proof -
      obtain m where "blocks G (fd_data f) = Some m" "length m = capacity S * fd_size f"
        "fd_data f < nextBlock G"
        using graph_okD(2) [OF ok S] f unfolding buffers_ok_def by blast
      then show ?thesis
        unfolding moved_buffer_def
        by (intro conjI exI [of _ m] exI [of _ 0]) (simp_all add: putSet_def)
    qed
    then show ?thesis using graph_okD(2) [OF ok S]
      by (simp add: added_buffers_def buffers_ok_def putSet_def list.rel_refl_strong)
  qed
  moreover have "added_refs S G ?S (putSet s ?S G)"
    by (simp add: added_refs_def putSet_def in_set_conv_nth)
  ultimately show ?thesis unfolding added_def by blast
qed

lemma add_beyond_capacity:
  assumes ok: "graph_ok G" and S: "sets G s = Some S" and v: "valid_endpoints G S eps"
    and cap: "\<not> numElements S < int (capacity S)"
  shows "\<exists>S' G'. add s eps G = Inr (numElements S, G') \<and> added s S eps G S' G'"
proof -
  let ?c = "getCardinality S" and ?cap = "capacity S + capacityIncrement"
  let ?fs = "set_fields S" and ?nb = "nextBlock G"
  have n: "numElements S = int (capacity S)"
    using graph_okD(1) [OF ok S] cap by (simp add: set_ok_def)
  have len: "length eps = ?c"
    using v by (simp add: valid_endpoints_def getCardinality_def list_all2_lengthD)
  have lenE: "length (endpoints S) = capacity S * ?c" using graph_okD(1) [OF ok S] by (simp add: set_ok_def)
  let ?M = "realloc_cells (endpoints S) (?cap * ?c)"
  have lenM: "length ?M = ?cap * ?c" using lenE by (simp add: realloc_cells_def add_mult_distrib)
  have room: "(capacity S + 1) * ?c \<le> length ?M"
    unfolding lenM by (rule mult_le_mono1) (simp add: capacityIncrement_def)
  let ?E = "write_list ?M (capacity S * ?c) eps"
  let ?S1 = "S\<lparr>endpoints := ?M\<rparr>" and ?S2 = "S\<lparr>endpoints := ?E\<rparr>"
  have S2: "addEndpoints G 0 eps ?S1 = Inr ?S2"
    using addEndpoints_ok [of G 0 ?S1 eps "capacity S"] v n room
    by (simp add: valid_endpoints_def getCardinality_def)
  let ?G2 = "putSet s ?S2 G"
  have b2: "buffers_ok ?G2 ?S2" using graph_okD(2) [OF ok S] by (simp add: buffers_ok_def putSet_def)
  have "sets ?G2 s = Some ?S2" by (simp add: putSet_def)
  from increaseCapacity_ok [OF this b2] obtain H
    where H: "grown s ?S2 (length ?fs) ?G2 H" and inc: "increaseCapacity s ?G2 =
      Inr (putSet s (?S2\<lparr>set_fields := grown_fields ?nb (length ?fs) ?fs, capacity := ?cap\<rparr>) H)"
    by (auto simp: putSet_def)
  define S' where "S' = S\<lparr>endpoints := ?E, set_fields := grown_fields ?nb (length ?fs) ?fs, capacity := ?cap,
    numElements := numElements S + 1\<rparr>"
  define G' where "G' = putSet s S' H"
  have "add s eps G = Inr (numElements S, G')"
    using S len n S2 inc
    by (simp add: add_def Let_def increaseEdgeCapacity_def G'_def S'_def putSet_def)
  moreover have "added_set s S G S' G'"
    using n H by (simp add: added_set_def G'_def S'_def putSet_def grown_def Let_def capacityIncrement_def)
  moreover have "added_endpoints S eps S'"
    using lenE by (intro added_endpoints_write [OF n len _ _ lenE refl lenM])
      (simp_all add: S'_def capacityIncrement_def realloc_cells_def nth_append)
  moreover have "added_buffers S G S' G'"
  proof -
    have "moved_buffer G (?fs ! j) ?cap G' (grown_fields ?nb (length ?fs) ?fs ! j)"
      if j: "j < length ?fs" for j
    proof -
      obtain m where m: "blocks G (fd_data (?fs ! j)) = Some m" "length m = capacity S * fd_size (?fs ! j)"
        using graph_okD(2) [OF ok S] nth_mem [OF j] unfolding buffers_ok_def by blast
      with H j have "blocks G' (?nb + j) = Some (m @ extension (?fs ! j))" "nextBlock G' = ?nb + length ?fs"
        by (simp_all add: grown_def Let_def G'_def putSet_def)
      with m j show ?thesis
        by (auto simp: moved_buffer_def nth_grown_fields extension_def add_mult_distrib)
    qed
    moreover have "distinct (map fd_data (grown_fields ?nb (length ?fs) ?fs))"
      by (auto simp: distinct_conv_nth nth_grown_fields)
    ultimately show ?thesis using H
      by (simp add: added_buffers_def list_all2_conv_all_nth S'_def G'_def putSet_def grown_def Let_def)
  qed
  moreover have "added_refs S G S' G'"
  proof -
    have r: "refs G' = refs H" "refs ?G2 = refs G" by (simp_all add: G'_def putSet_def)
    note H' = H [unfolded grown_def Let_def]
    show ?thesis
      unfolding added_refs_def
    proof (intro conjI allI impI)
      fix r assume "\<forall>f \<in> set ?fs. r \<notin> set (fieldReferences f)"
      then have "\<forall>j < length ?fs. r \<notin> set (fieldReferences (?fs ! j))" by simp
      with H' r show "refs G' r = refs G r" by simp
    next
      fix r show "map_option ref_fieldData (refs G' r) = map_option ref_fieldData (refs G r)"
        using H' r by simp
    next
      fix r q j
      assume j: "j < length ?fs" "r \<in> set (fieldReferences (?fs ! j))"
        "\<forall>k < length ?fs. k \<noteq> j \<longrightarrow> r \<notin> set (fieldReferences (?fs ! k))" "refs G r = Some q"
      then have "refs H r = map_option (\<lambda>q. q\<lparr>ref_data := ?nb + j\<rparr>) (refs G r)"
        using H' by (simp add: putSet_def)
      with j r show "refs G' r = Some (q\<lparr>ref_data := fd_data (set_fields S' ! j)\<rparr>)"
        by (simp add: S'_def nth_grown_fields)
    qed
  qed
  ultimately show ?thesis unfolding added_def by blast
qed

lemma add_ok:
  assumes "graph_ok G" and "sets G s = Some S" and "valid_endpoints G S eps"
  shows "\<exists>S' G'. add s eps G = Inr (numElements S, G') \<and> added s S eps G S' G'"
  using add_within_capacity [OF assms] add_beyond_capacity [OF assms] by blast

end
