(* ===== verification/Graph_Invariant.thy ===== *)
theory Graph_Invariant
  imports Graph_Store
begin

text \<open>
  Every operation on sets, fields and field references keeps the invariants of the store: \<open>graph_ok\<close>
  (counts, capacities, endpoint memory, one initialised buffer per field) and \<open>refs_ok\<close> (every live
  reference is registered with its field and points to the field's buffer).
\<close>

section \<open>Adding an element keeps the invariants\<close>

lemma field_data_same:
  assumes "f' = f\<lparr>fd_data := d\<rparr>"
  shows "fd_name f' = fd_name f" "fd_size f' = fd_size f" "fd_dimensions f' = fd_dimensions f"
    "fieldReferences f' = fieldReferences f" "fd_componentType f' = fd_componentType f"
  using assms by simp_all

lemma addedD:
  assumes "added s S eps G S' G'"
  shows "sets G' = (sets G)(s \<mapsto> S')" "numElements S' = numElements S + 1"
    "endpointSets S' = endpointSets S" "kind S' = kind S" "fieldNames S' = fieldNames S"
    "getCardinality S' = getCardinality S" "numElements S' \<le> int (capacity S')"
    "length (set_fields S') = length (set_fields S)"
proof -
  have e: "S' = S\<lparr>numElements := numElements S + 1, endpoints := endpoints S', capacity := capacity S',
            set_fields := set_fields S'\<rparr>"
    using assms by (simp add: added_def added_set_def)
  show "numElements S' = numElements S + 1" "endpointSets S' = endpointSets S" "kind S' = kind S"
    "fieldNames S' = fieldNames S" "getCardinality S' = getCardinality S"
    by (subst e, simp add: getCardinality_def)+
qed (use assms in \<open>simp_all add: added_def added_set_def\<close>)

lemma added_field_s:
  assumes "added s S eps G S' G'" and "i < length (set_fields S)"
  shows "moved_buffer G (set_fields S ! i) (capacity S') G' (set_fields S' ! i)"
  using assms by (simp add: added_def added_buffers_def list_all2_conv_all_nth)

lemma added_other_block:
  assumes ok: "graph_ok G" and S: "sets G s = Some S" and a: "added s S eps G S' G'"
    and p: "getFieldAt G p = Inr f" and "fst p \<noteq> s"
  shows "blocks G' (fd_data f) = blocks G (fd_data f)" "fd_data f < nextBlock G"
proof -
  obtain T where T: "sets G (fst p) = Some T" "snd p < length (set_fields T)" "set_fields T ! snd p = f"
    using p by (auto simp: result_simps)
  have "f \<in> set (set_fields T)" using T(2,3) nth_mem by blast
  then show lt: "fd_data f < nextBlock G"
    using graph_okD(1) [OF ok T(1)] by (simp add: set_ok_def field_ok_def)
  have "fd_data f \<notin> fd_data ` set (set_fields S)"
  proof
    assume "fd_data f \<in> fd_data ` set (set_fields S)"
    then obtain j where "j < length (set_fields S)" "fd_data f = fd_data (set_fields S ! j)"
      by (auto simp: in_set_conv_nth)
    moreover from this(1) S have "getFieldAt G (s, j) = Inr (set_fields S ! j)" by (simp add: result_simps)
    ultimately have "p = (s, j)" using ok p unfolding graph_ok_def by metis
    with assms(5) show False by simp
  qed
  with lt a show "blocks G' (fd_data f) = blocks G (fd_data f)"
    by (simp add: added_def added_buffers_def)
qed

text \<open>Every field keeps its contents, at a new place perhaps and with zeros appended.\<close>

lemma added_field:
  assumes ok: "graph_ok G" and S: "sets G s = Some S" and a: "added s S eps G S' G'"
    and p: "getFieldAt G p = Inr f"
  shows "\<exists>f' m z. getFieldAt G' p = Inr f' \<and> f' = f\<lparr>fd_data := fd_data f'\<rparr> \<and>
     blocks G (fd_data f) = Some m \<and> blocks G' (fd_data f') = Some (m @ replicate z (Some 0))"
proof (cases "fst p = s")
  case True
  with p S have i: "snd p < length (set_fields S)" "f = set_fields S ! snd p"
    by (auto simp: result_simps)
  have "getFieldAt G' p = Inr (set_fields S' ! snd p)"
    using True i addedD(1,8) [OF a] by (simp add: result_simps)
  with added_field_s [OF a i(1)] i(2) show ?thesis unfolding moved_buffer_def by blast
next
  case False
  obtain T where T: "sets G (fst p) = Some T" "snd p < length (set_fields T)" "set_fields T ! snd p = f"
    using p by (auto simp: result_simps)
  then have "f \<in> set (set_fields T)" using nth_mem by blast
  then obtain m where "blocks G (fd_data f) = Some m"
    using graph_okD(1) [OF ok T(1)] by (auto simp: set_ok_def field_ok_def)
  moreover have "getFieldAt G' p = Inr f"
    using T False addedD(1) [OF a] by (simp add: result_simps)
  moreover have "blocks G' (fd_data f) = blocks G (fd_data f)"
    using added_other_block [OF ok S a p False] by simp
  ultimately show ?thesis by (intro exI [of _ f] exI [of _ m] exI [of _ 0]) simp
qed

lemma added_set_ok:
  assumes ok: "graph_ok G" and S: "sets G s = Some S" and a: "added s S eps G S' G'"
    and len: "length eps = getCardinality S"
  shows "set_ok G' S'"
proof -
  have okS: "set_ok G S" using graph_okD(1) [OF ok S] .
  let ?c = "getCardinality S"
  have "0 \<le> numElements S" using okS by (simp add: set_ok_def)
  then have n: "nat (numElements S + 1) = nat (numElements S) + 1" by simp
  have e: "endpoints S' ! i \<noteq> None" if "i < nat (numElements S') * getCardinality S'" for i
  proof (cases "i < nat (numElements S) * ?c")
    case True
    with a okS show ?thesis by (simp add: added_def added_endpoints_def Let_def set_ok_def)
  next
    case False
    define k where "k = i - nat (numElements S) * ?c"
    have i: "i = nat (numElements S) * ?c + k" using False by (simp add: k_def)
    have "i < (nat (numElements S) + 1) * ?c" using that addedD [OF a] n by simp
    then have "k < ?c" using i by (simp add: add_mult_distrib)
    with a i show ?thesis by (simp add: added_def added_endpoints_def Let_def)
  qed
  have f: "field_ok G' S' f" if f': "f \<in> set (set_fields S')" for f
  proof -
    obtain i where i: "i < length (set_fields S)" "f = set_fields S' ! i"
      using f' addedD(8) [OF a] by (auto simp: in_set_conv_nth)
    from added_field_s [OF a i(1)] obtain m z where
      mb: "f = (set_fields S ! i)\<lparr>fd_data := fd_data f\<rparr>" "fd_data f < nextBlock G'"
      "blocks G (fd_data (set_fields S ! i)) = Some m" "blocks G' (fd_data f) = Some (m @ replicate z (Some 0))"
      "length m + z = capacity S' * fd_size (set_fields S ! i)"
      unfolding moved_buffer_def i(2) by blast
    have "field_ok G S (set_fields S ! i)" using okS nth_mem [OF i(1)] by (simp add: set_ok_def)
    with mb(3) have fo: "None \<notin> set m" "fd_size (set_fields S ! i) = nat (prod_list (fd_dimensions (set_fields S ! i)))"
      by (simp_all add: field_ok_def)
    have "fd_size f = fd_size (set_fields S ! i)" "fd_dimensions f = fd_dimensions (set_fields S ! i)"
      using field_data_same [OF mb(1)] by simp_all
    with mb fo show ?thesis by (simp add: field_ok_def)
  qed
  have nm: "i < length (set_fields S') \<and> fd_name (set_fields S' ! i) = x" if "fieldNames S' x = Some i" for x i
  proof -
    have i: "i < length (set_fields S)" "fd_name (set_fields S ! i) = x"
      using that okS addedD(5) [OF a] by (simp_all add: set_ok_def)
    from added_field_s [OF a i(1)] have "set_fields S' ! i = (set_fields S ! i)\<lparr>fd_data := fd_data (set_fields S' ! i)\<rparr>"
      by (simp add: moved_buffer_def)
    then have "fd_name (set_fields S' ! i) = fd_name (set_fields S ! i)" by (rule field_data_same)
    with i addedD(8) [OF a] show ?thesis by simp
  qed
  have "\<forall>x \<in> set (endpointSets S'). sets G' x \<noteq> None"
    using okS addedD(1,3) [OF a] by (simp add: set_ok_def)
  moreover have "length (endpoints S') = capacity S' * getCardinality S'"
    using a addedD(6) [OF a] by (simp add: added_def added_endpoints_def Let_def)
  moreover have "0 \<le> numElements S'" using okS addedD(2) [OF a] by (simp add: set_ok_def)
  ultimately show ?thesis using e f nm addedD(7) [OF a] unfolding set_ok_def by blast
qed

lemma added_graph_ok:
  assumes ok: "graph_ok G" and S: "sets G s = Some S" and a: "added s S eps G S' G'"
    and len: "length eps = getCardinality S"
  shows "graph_ok G'"
  unfolding graph_ok_def
proof (intro conjI allI impI)
  fix t T assume T: "sets G' t = Some T"
  show "set_ok G' T"
  proof (cases "t = s")
    case True
    with T addedD(1) [OF a] have "T = S'" by simp
    with added_set_ok [OF assms] show ?thesis by simp
  next
    case False
    with T addedD(1) [OF a] have T': "sets G t = Some T" by simp
    have "field_ok G' T f" if f: "f \<in> set (set_fields T)" for f
    proof -
      obtain i where "i < length (set_fields T)" "f = set_fields T ! i" using f by (auto simp: in_set_conv_nth)
      then have p: "getFieldAt G (t, i) = Inr f" using T' by (simp add: result_simps)
      have "field_ok G T f" using graph_okD(1) [OF ok T'] f by (simp add: set_ok_def)
      moreover have "blocks G' (fd_data f) = blocks G (fd_data f)" "fd_data f < nextBlock G'"
        using added_other_block [OF ok S a p] False a by (auto simp: added_def added_buffers_def)
      ultimately show ?thesis by (auto simp: field_ok_def)
    qed
    moreover have "sets G' x \<noteq> None" if "sets G x \<noteq> None" for x
      using that addedD(1) [OF a] by simp
    ultimately show ?thesis using graph_okD(1) [OF ok T'] unfolding set_ok_def by blast
  qed
next
  fix p q f g
  assume pf: "getFieldAt G' p = Inr f" and qg: "getFieldAt G' q = Inr g" and eq: "fd_data f = fd_data g"
  have old: "\<exists>f0. getFieldAt G p = Inr f0 \<and>
      (fd_data f = fd_data f0 \<or> fst p = s \<and> nextBlock G \<le> fd_data f)"
    if "getFieldAt G' p = Inr f" for p f
  proof (cases "fst p = s")
    case True
    then have i: "snd p < length (set_fields S)" "f = set_fields S' ! snd p"
      using that addedD(1,8) [OF a] by (auto simp: result_simps)
    from added_field_s [OF a i(1)] i S True show ?thesis
      by (auto simp: moved_buffer_def result_simps)
  next
    case False
    with that addedD(1) [OF a] show ?thesis by (auto simp: result_simps)
  qed
  show "p = q"
  proof (cases "fst p = s \<and> fst q = s")
    case True
    then have "snd p < length (set_fields S')" "f = set_fields S' ! snd p"
      "snd q < length (set_fields S')" "g = set_fields S' ! snd q"
      using pf qg addedD(1) [OF a] by (auto simp: result_simps)
    moreover have "distinct (map fd_data (set_fields S'))" using a by (simp add: added_def added_buffers_def)
    ultimately have "snd p = snd q" using eq by (auto simp: distinct_conv_nth)
    with True show ?thesis by (simp add: prod_eq_iff)
  next
    case False
    obtain f0 g0 where *: "getFieldAt G p = Inr f0" "getFieldAt G q = Inr g0"
      "fd_data f = fd_data f0 \<or> fst p = s \<and> nextBlock G \<le> fd_data f"
      "fd_data g = fd_data g0 \<or> fst q = s \<and> nextBlock G \<le> fd_data g"
      using old [OF pf] old [OF qg] by blast
    have "fd_data f0 < nextBlock G" "fd_data g0 < nextBlock G"
      using *(1,2) graph_okD(2) [OF ok] by (auto simp: result_simps buffers_ok_def)
    with False * eq have "fd_data f0 = fd_data g0" by auto
    with * ok show ?thesis unfolding graph_ok_def by blast
  qed
qed

lemma added_refs_ok:
  assumes ok: "graph_ok G" and rok: "refs_ok G" and S: "sets G s = Some S"
    and a: "added s S eps G S' G'"
  shows "refs_ok G'"
proof -
  have R: "added_refs S G S' G'" using a by (simp add: added_def)
  note reg = rok [unfolded refs_ok_def]
  have sf: "getFieldAt G (s, j) = Inr (set_fields S ! j)" if "j < length (set_fields S)" for j
    using S that by (simp add: result_simps)
  have fref: "fieldReferences f' = fieldReferences f"
    if "getFieldAt G p = Inr f" "getFieldAt G' p = Inr f'" for p f f'
    using added_field [OF ok S a that(1)] that(2) field_data_same(4) by fastforce
  have old: "\<exists>f. getFieldAt G p = Inr f" if "getFieldAt G' p = Inr f'" for p f'
    using that S addedD(1,8) [OF a] by (cases "fst p = s") (auto simp: result_simps)
  have new_ref: "\<exists>q' f'. refs G' r = Some q' \<and> ref_fieldData q' = ref_fieldData q \<and>
      getFieldAt G' (ref_fieldData q) = Inr f' \<and> ref_data q' = fd_data f'"
    if q: "refs G r = Some q" for r q
  proof -
    obtain f where f: "getFieldAt G (ref_fieldData q) = Inr f" "r \<in> set (fieldReferences f)"
      "ref_data q = fd_data f"
      using reg q by blast
    show ?thesis
    proof (cases "fst (ref_fieldData q) = s")
      case True
      let ?i = "snd (ref_fieldData q)"
      have i: "?i < length (set_fields S)" "f = set_fields S ! ?i"
        using f(1) True S by (auto simp: result_simps)
      have other: "r \<notin> set (fieldReferences (set_fields S ! k))"
        if "k < length (set_fields S)" "k \<noteq> ?i" for k
      proof
        assume "r \<in> set (fieldReferences (set_fields S ! k))"
        with reg sf [OF that(1)] q have "ref_fieldData q = (s, k)" by fastforce
        with that(2) show False by simp
      qed
      have "refs G' r = Some (q\<lparr>ref_data := fd_data (set_fields S' ! ?i)\<rparr>)"
        using R i f(2,3) q other unfolding added_refs_def by blast
      moreover have "getFieldAt G' (ref_fieldData q) = Inr (set_fields S' ! ?i)"
        using True i(1) addedD(1,8) [OF a] by (simp add: result_simps)
      ultimately show ?thesis by simp
    next
      case False
      have "r \<notin> set (fieldReferences g)" if "g \<in> set (set_fields S)" for g
      proof
        assume "r \<in> set (fieldReferences g)"
        moreover obtain k where "k < length (set_fields S)" "g = set_fields S ! k"
          using \<open>g \<in> set (set_fields S)\<close> by (auto simp: in_set_conv_nth)
        ultimately have "ref_fieldData q = (s, k)" using reg sf [of k] q by fastforce
        with False show False by simp
      qed
      with R q have "refs G' r = Some q" by (simp add: added_refs_def)
      moreover have "getFieldAt G' (ref_fieldData q) = Inr f"
        using f(1) False addedD(1) [OF a] by (simp add: result_simps)
      ultimately show ?thesis using f(3) by simp
    qed
  qed
  show ?thesis
    unfolding refs_ok_def
  proof (intro conjI allI impI)
    fix r q' assume q': "refs G' r = Some q'"
    have "map_option ref_fieldData (refs G' r) = map_option ref_fieldData (refs G r)"
      using R by (simp add: added_refs_def)
    with q' obtain q where q: "refs G r = Some q" by (cases "refs G r") auto
    with reg obtain f where f: "getFieldAt G (ref_fieldData q) = Inr f" "r \<in> set (fieldReferences f)"
      by blast
    from new_ref [OF q] q' obtain f' where f': "ref_fieldData q' = ref_fieldData q"
      "getFieldAt G' (ref_fieldData q) = Inr f'" "ref_data q' = fd_data f'" by auto
    with fref [OF f(1) f'(2)] f(2)
    show "\<exists>f'. getFieldAt G' (ref_fieldData q') = Inr f' \<and> r \<in> set (fieldReferences f') \<and> ref_data q' = fd_data f'"
      by auto
  next
    fix p f' r assume f': "getFieldAt G' p = Inr f'" "r \<in> set (fieldReferences f')"
    obtain f where "getFieldAt G p = Inr f" using old [OF f'(1)] by blast
    with fref f' reg obtain q where "refs G r = Some q" "ref_fieldData q = p" by metis
    with new_ref show "\<exists>q. refs G' r = Some q \<and> ref_fieldData q = p" by blast
  qed
qed

text \<open>A successful addition had valid endpoints.\<close>

lemma addEndpoints_valid:
  "addEndpoints G which eps S = Inr S' \<Longrightarrow> which \<le> length (endpointSets S) \<Longrightarrow>
   length eps = length (endpointSets S) - which \<Longrightarrow>
   list_all2 (\<lambda>a e. \<exists>E. sets G a = Some E \<and> e < numElements E) (drop which (endpointSets S)) eps"
proof (induction eps arbitrary: which S)
  case (Cons f eps)
  then have lt: "which < length (endpointSets S)" by simp
  from Cons.prems(1) lt obtain E m where E: "sets G (endpointSets S ! which) = Some E" "f < numElements E"
    "addEndpoints G (Suc which) eps (S\<lparr>endpoints := m\<rparr>) = Inr S'"
    by (auto simp: result_simps)
  have "list_all2 (\<lambda>a e. \<exists>E. sets G a = Some E \<and> e < numElements E) (drop (Suc which) (endpointSets S)) eps"
    using Cons.IH [OF E(3)] lt Cons.prems(3) by simp
  with E(1,2) show ?case by (simp add: Cons_nth_drop_Suc [OF lt, symmetric])
qed simp

lemma add_valid:
  assumes "add s eps G = Inr (e, G')"
  shows "\<exists>S. sets G s = Some S \<and> valid_endpoints G S eps"
proof -
  obtain S S1 S2 where S: "sets G s = Some S" "length eps = getCardinality S"
    "S1 = (if numElements S > int (capacity S) - 1 then increaseEdgeCapacity S else S)"
    "addEndpoints G 0 eps S1 = Inr S2"
    using assms by (auto simp: add_def Let_def result_simps)
  have "endpointSets S1 = endpointSets S" by (simp add: S(3) increaseEdgeCapacity_def)
  with addEndpoints_valid [OF S(4)] S(1,2) show ?thesis
    by (simp add: valid_endpoints_def getCardinality_def)
qed

lemma valid_endpoints_length: "valid_endpoints G S eps \<Longrightarrow> length eps = getCardinality S"
  by (simp add: valid_endpoints_def getCardinality_def list_all2_lengthD)

lemma add_preserves:
  assumes "graph_ok G" and "add s eps G = Inr (e, G')"
  shows "graph_ok G' \<and> (refs_ok G \<longrightarrow> refs_ok G')"
proof -
  obtain S where S: "sets G s = Some S" "valid_endpoints G S eps" using add_valid [OF assms(2)] by blast
  obtain S' where "added s S eps G S' G'" using add_ok [OF assms(1) S] assms(2) by auto
  with S assms(1) show ?thesis
    using added_graph_ok added_refs_ok valid_endpoints_length by blast
qed

section \<open>The other operations keep the invariants\<close>

definition same_field :: "field_data \<Rightarrow> field_data \<Rightarrow> bool" where
  "same_field f f' \<longleftrightarrow> fd_name f' = fd_name f \<and> fd_size f' = fd_size f \<and>
     fd_dimensions f' = fd_dimensions f \<and> fd_data f' = fd_data f"

definition same_set :: "set_data \<Rightarrow> set_data \<Rightarrow> bool" where
  "same_set S S' \<longleftrightarrow> numElements S' \<le> numElements S \<and> 0 \<le> numElements S' \<and>
     endpointSets S' = endpointSets S \<and> endpoints S' = endpoints S \<and> capacity S' = capacity S \<and>
     fieldNames S' = fieldNames S \<and> list_all2 same_field (set_fields S) (set_fields S')"

definition same_block :: "component memory \<Rightarrow> component memory \<Rightarrow> bool" where
  "same_block m m' \<longleftrightarrow> length m' = length m \<and> (None \<notin> set m \<longrightarrow> None \<notin> set m')"

lemma same_field_refl [simp]: "same_field f f"
  by (simp add: same_field_def)

lemma same_block_refl [simp]: "same_block m m"
  by (simp add: same_block_def)

lemma same_set_refl: "0 \<le> numElements S \<Longrightarrow> same_set S S"
  by (simp add: same_set_def list_all2_refl)

lemma same_fieldAt:
  assumes "\<And>s S'. sets G' s = Some S' \<Longrightarrow> \<exists>S. sets G s = Some S \<and> same_set S S'"
    and "getFieldAt G' p = Inr f'"
  shows "\<exists>f. getFieldAt G p = Inr f \<and> same_field f f'"
proof -
  obtain S' where S': "sets G' (fst p) = Some S'" "snd p < length (set_fields S')" "set_fields S' ! snd p = f'"
    using assms(2) by (auto simp: result_simps)
  obtain S where S: "sets G (fst p) = Some S" "same_set S S'" using assms(1) [OF S'(1)] by blast
  then have "list_all2 same_field (set_fields S) (set_fields S')" by (simp add: same_set_def)
  then have "length (set_fields S) = length (set_fields S')" "same_field (set_fields S ! snd p) f'"
    using S'(2,3) by (auto simp: list_all2_conv_all_nth)
  with S S' show ?thesis by (simp add: result_simps)
qed

lemma graph_ok_cong:
  assumes ok: "graph_ok G" and nb: "nextBlock G' = nextBlock G"
    and sets: "\<And>s S'. sets G' s = Some S' \<Longrightarrow> \<exists>S. sets G s = Some S \<and> same_set S S'"
    and live: "\<And>s. sets G s \<noteq> None \<Longrightarrow> sets G' s \<noteq> None"
    and bl: "\<And>b m. blocks G b = Some m \<Longrightarrow> \<exists>m'. blocks G' b = Some m' \<and> same_block m m'"
  shows "graph_ok G'"
  unfolding graph_ok_def
proof (intro conjI allI impI)
  fix s S' assume "sets G' s = Some S'"
  then obtain S where S: "sets G s = Some S" "same_set S S'" using sets by blast
  then have okS: "set_ok G S" using graph_okD(1) [OF ok] by blast
  have len: "length (set_fields S') = length (set_fields S)"
    using S(2) by (auto simp: same_set_def dest: list_all2_lengthD)
  have same: "same_field (set_fields S ! i) (set_fields S' ! i)" if "i < length (set_fields S)" for i
    using S(2) that by (simp add: same_set_def list_all2_conv_all_nth)
  have "field_ok G' S' f'" if f': "f' \<in> set (set_fields S')" for f'
  proof -
    obtain i where i: "i < length (set_fields S)" "f' = set_fields S' ! i"
      using f' len by (auto simp: in_set_conv_nth)
    have "field_ok G S (set_fields S ! i)" using okS nth_mem [OF i(1)] by (simp add: set_ok_def)
    then obtain m where m: "fd_data (set_fields S ! i) < nextBlock G"
      "fd_size (set_fields S ! i) = nat (prod_list (fd_dimensions (set_fields S ! i)))"
      "blocks G (fd_data (set_fields S ! i)) = Some m"
      "length m = capacity S * fd_size (set_fields S ! i)" "None \<notin> set m"
      by (auto simp: field_ok_def)
    obtain m' where "blocks G' (fd_data (set_fields S ! i)) = Some m'" "same_block m m'"
      using bl [OF m(3)] by blast
    with m same [OF i(1)] S(2) nb i(2) show ?thesis
      by (simp add: field_ok_def same_field_def same_set_def same_block_def)
  qed
  moreover have "i < length (set_fields S') \<and> fd_name (set_fields S' ! i) = x"
    if "fieldNames S' x = Some i" for x i
    using that okS S(2) len same [of i] by (simp add: set_ok_def same_set_def same_field_def)
  moreover have "endpoints S' ! i \<noteq> None" if "i < nat (numElements S') * getCardinality S'" for i
  proof -
    have "nat (numElements S') * getCardinality S' \<le> nat (numElements S) * getCardinality S"
      using S(2) by (simp add: same_set_def getCardinality_def nat_mono mult_le_mono1)
    then have "i < nat (numElements S) * getCardinality S" using that by linarith
    with okS S(2) show ?thesis by (simp add: set_ok_def same_set_def)
  qed
  moreover have "numElements S' \<le> int (capacity S')" "0 \<le> numElements S'"
    "length (endpoints S') = capacity S' * getCardinality S'"
    "\<forall>a \<in> set (endpointSets S'). sets G' a \<noteq> None"
    using okS S(2) live by (auto simp: set_ok_def same_set_def getCardinality_def)
  ultimately show "set_ok G' S'" unfolding set_ok_def by blast
next
  fix p q f' g'
  assume f': "getFieldAt G' p = Inr f'" and g': "getFieldAt G' q = Inr g'" and eq: "fd_data f' = fd_data g'"
  obtain f g where "getFieldAt G p = Inr f" "same_field f f'" "getFieldAt G q = Inr g" "same_field g g'"
    using same_fieldAt [OF sets f'] same_fieldAt [OF sets g'] by blast
  with eq ok show "p = q" unfolding graph_ok_def same_field_def by metis
qed

text \<open>Registration changes one list of references; writing and removing change one block at a time.\<close>

lemma graph_ok_sets:
  assumes "graph_ok G" and "sets G s = Some S" and "same_set S S'" and "sets G' = (sets G)(s \<mapsto> S')"
    and "nextBlock G' = nextBlock G" and "blocks G' = blocks G"
  shows "graph_ok G'"
proof (rule graph_ok_cong [OF assms(1,5)])
  fix t T assume T: "sets G' t = Some T"
  show "\<exists>S. sets G t = Some S \<and> same_set S T"
  proof (cases "t = s")
    case False
    with T assms(4) have "sets G t = Some T" by simp
    moreover from graph_okD(1) [OF assms(1) this] have "same_set T T"
      by (simp add: same_set_refl set_ok_def)
    ultimately show ?thesis by blast
  qed (use T assms in auto)
qed (use assms in auto)

lemma graph_ok_blocks:
  assumes "graph_ok G" and "blocks G b = Some m" and "same_block m m'"
  shows "graph_ok (G\<lparr>blocks := (blocks G)(b \<mapsto> m')\<rparr>)"
proof (rule graph_ok_cong [OF assms(1)])
  fix t T assume "sets (G\<lparr>blocks := (blocks G)(b \<mapsto> m')\<rparr>) t = Some T"
  then have T: "sets G t = Some T" by simp
  from graph_okD(1) [OF assms(1) this] have "same_set T T" by (simp add: same_set_refl set_ok_def)
  with T show "\<exists>S. sets G t = Some S \<and> same_set S T" by blast
qed (use assms in auto)

lemma registry_ok:
  assumes ok: "graph_ok G" and f: "getFieldAt G p = Inr f"
    and put: "putField p (f\<lparr>fieldReferences := L\<rparr>) (G\<lparr>refs := R\<rparr>) = Inr G'"
  shows "graph_ok G'" and "refs G' = R"
    and "getFieldAt G' q = (if q = p then Inr (f\<lparr>fieldReferences := L\<rparr>) else getFieldAt G q)"
proof -
  obtain S where S: "sets G (fst p) = Some S" "snd p < length (set_fields S)" "set_fields S ! snd p = f"
    using f by (auto simp: result_simps)
  let ?S' = "S\<lparr>set_fields := (set_fields S)[snd p := f\<lparr>fieldReferences := L\<rparr>]\<rparr>"
  have G': "G' = putSet (fst p) ?S' (G\<lparr>refs := R\<rparr>)" using put S by (simp add: putField_def)
  have "list_all2 same_field (set_fields S) ((set_fields S)[snd p := f\<lparr>fieldReferences := L\<rparr>])"
    using S(2,3) by (auto simp: list_all2_conv_all_nth nth_list_update same_field_def)
  then have "same_set S ?S'"
    using graph_okD(1) [OF ok S(1)] by (simp add: same_set_def set_ok_def)
  then show "graph_ok G'"
    by (rule graph_ok_sets [OF ok S(1)]) (simp_all add: G' putSet_def)
  show "refs G' = R" by (simp add: G' putSet_def)
  show "getFieldAt G' q = (if q = p then Inr (f\<lparr>fieldReferences := L\<rparr>) else getFieldAt G q)"
    using S by (cases q; cases p) (auto simp: getFieldAt_def G' putSet_def deref_def nth_result_def)
qed

lemma mem_write_same:
  assumes "mem_write m i v = Inr m'" and "v \<noteq> None"
  shows "same_block m m'"
  using assms set_update_subset_insert [of m "nat i" v]
  by (auto simp: mem_write_def same_block_def split: if_splits)

lemma same_block_trans: "same_block a b \<Longrightarrow> same_block b c \<Longrightarrow> same_block a c"
  by (simp add: same_block_def)

lemma writeCells_block:
  assumes "writeCells b base vals G = Inr G'"
  shows "\<exists>m m'. blocks G b = Some m \<and> same_block m m' \<and> G' = G\<lparr>blocks := (blocks G)(b \<mapsto> m')\<rparr>"
proof -
  obtain m m' where m: "blocks G b = Some m"
    "rfold (\<lambda>i m. mem_write m (base + int i) (Some (vals ! i))) [0..<length vals] m = Inr m'"
    "G' = G\<lparr>blocks := (blocks G)(b \<mapsto> m')\<rparr>"
    using assms by (auto simp: writeCells_def result_simps)
  have "same_block m m'"
    by (rule rfold_invariant [OF m(2), of "same_block m"])
      (auto intro: same_block_trans mem_write_same)
  with m show ?thesis by blast
qed

lemma setTensor_block:
  assumes "setTensor r ct dims element vals G = Inr G'"
  shows "\<exists>b m m'. blocks G b = Some m \<and> same_block m m' \<and> G' = G\<lparr>blocks := (blocks G)(b \<mapsto> m')\<rparr>"
proof -
  obtain b base where "writeCells b base vals G = Inr G'"
    using assms by (auto simp: setTensor_def Let_def result_simps)
  from writeCells_block [OF this] show ?thesis by blast
qed

lemma removeFromField_ok:
  assumes ok: "graph_ok G" and f: "getFieldAt G p = Inr f"
    and r: "removeFromField element n f G = Inr G'"
  shows "graph_ok G' \<and> sets G' = sets G \<and> refs G' = refs G"
proof -
  obtain m v m' where m: "blocks G (fd_data f) = Some m" "mem_cell m (n - 1) = Inr v"
    "mem_write m element v = Inr m'" "G' = G\<lparr>blocks := (blocks G)(fd_data f \<mapsto> m')\<rparr>"
    using r by (auto simp: removeFromField_def result_simps)
  have "same_block m m'"
  proof (cases "None \<in> set m")
    case True
    with m(3) show ?thesis by (auto simp: mem_write_def same_block_def split: if_splits)
  next
    case False
    have "v \<in> set m" using m(2) by (auto simp: mem_cell_def split: if_splits)
    with False have "v \<noteq> None" by (cases v) simp_all
    with m(3) show ?thesis by (rule mem_write_same)
  qed
  with graph_ok_blocks [OF ok m(1)] m(4) show ?thesis by simp
qed

lemma remove_ok:
  assumes ok: "graph_ok G" and r: "remove s element G = Inr G'"
    and S: "sets G s = Some S" and pos: "0 < numElements S"
  shows "graph_ok G' \<and> refs G' = refs G \<and> (\<forall>p. getFieldAt G' p = getFieldAt G p)"
proof -
  obtain H where H: "rfold (removeFromField element (numElements S)) (set_fields S) G = Inr H"
    "G' = putSet s (S\<lparr>numElements := numElements S - 1\<rparr>) H"
    using r S by (auto simp: remove_def result_simps)
  have inv: "graph_ok H \<and> sets H = sets G \<and> refs H = refs G"
  proof (rule rfold_invariant [OF H(1), of "\<lambda>H. graph_ok H \<and> sets H = sets G \<and> refs H = refs G"])
    fix f K K' assume f: "f \<in> set (set_fields S)" and K: "graph_ok K \<and> sets K = sets G \<and> refs K = refs G"
      and step: "removeFromField element (numElements S) f K = Inr K'"
    obtain i where "i < length (set_fields S)" "set_fields S ! i = f" using f by (auto simp: in_set_conv_nth)
    with K S have "getFieldAt K (s, i) = Inr f" by (simp add: result_simps)
    from removeFromField_ok [OF _ this step] K show "graph_ok K' \<and> sets K' = sets G \<and> refs K' = refs G"
      by simp
  qed (use ok in simp)
  let ?S' = "S\<lparr>numElements := numElements S - 1\<rparr>"
  have same: "same_set S ?S'" using pos by (simp add: same_set_def list_all2_refl)
  have "sets H s = Some S" "graph_ok H" using inv S by simp_all
  from graph_ok_sets [OF this(2,1) same, of G'] have "graph_ok G'" by (simp add: H(2) putSet_def)
  moreover have "getFieldAt G' p = getFieldAt G p" for p
    using inv S by (simp add: getFieldAt_def H(2) putSet_def deref_def)
  ultimately show ?thesis using inv by (simp add: H(2) putSet_def)
qed

lemma newSet_ok:
  assumes ok: "graph_ok G" and new: "sets G s = None" and eps: "\<And>a. a \<in> set eps \<Longrightarrow> sets G a \<noteq> None"
  shows "graph_ok (newSet s name eps G)"
proof -
  let ?G = "newSet s name eps G"
  have fields: "getFieldAt G p = Inr f" if "getFieldAt ?G p = Inr f" for p f
    using that new by (auto simp: result_simps newSet_def putSet_def Set_edges_def Set_init_def Let_def
        split: if_splits)
  have "set_ok ?G T" if T: "sets ?G t = Some T" for t T
  proof (cases "t = s")
    case True
    with T eps show ?thesis
      by (auto simp: set_ok_def newSet_def putSet_def Set_edges_def Set_init_def Let_def
          getCardinality_def calloc_cells_def)
  next
    case False
    with T have "sets G t = Some T" by (simp add: newSet_def putSet_def)
    with graph_okD(1) [OF ok this] new show ?thesis
      by (auto simp: set_ok_def field_ok_def newSet_def putSet_def)
  qed
  with fields ok show ?thesis unfolding graph_ok_def by metis
qed

lemma addField_ok:
  assumes ok: "graph_ok G" and a: "addField s ct dims name r G = Inr G'"
  shows "graph_ok G'"
proof -
  obtain S where S: "sets G s = Some S" using a by (auto simp: addField_def result_simps)
  define f where "f = \<lparr>fd_name = name, fd_componentType = ct, fd_dimensions = dims,
    fd_size = nat (prod_list dims), fd_data = nextBlock G, fieldReferences = [r]\<rparr>"
  define S' where "S' = S\<lparr>set_fields := set_fields S @ [f],
    fieldNames := (fieldNames S)(name \<mapsto> length (set_fields S))\<rparr>"
  have G': "sets G' = (sets G)(s \<mapsto> S')" "nextBlock G' = nextBlock G + 1"
    "blocks G' = (blocks G)(nextBlock G \<mapsto> calloc_cells (capacity S * nat (prod_list dims)) 0)"
    using a S by (auto simp: addField_def Let_def putSet_def S'_def f_def)
  have old: "field_ok G' T g" if "field_ok G T g" for T g
    using that G' by (auto simp: field_ok_def)
  have fieldAt: "getFieldAt G p = Inr g \<or> p = (s, length (set_fields S)) \<and> g = f"
    if "getFieldAt G' p = Inr g" for p g
    using that G'(1) S by (cases p) (auto simp: result_simps S'_def nth_append split: if_splits)
  have less: "fd_data g < nextBlock G" if "getFieldAt G p = Inr g" for p g
    using that graph_okD(2) [OF ok] by (auto simp: result_simps buffers_ok_def)
  have "set_ok G' T" if T: "sets G' t = Some T" for t T
  proof (cases "t = s")
    case True
    have okS: "set_ok G S" using graph_okD(1) [OF ok S] .
    have "i < length (set_fields S') \<and> fd_name (set_fields S' ! i) = x" if "fieldNames S' x = Some i" for x i
    proof (cases "x = name")
      case False
      with that okS have "i < length (set_fields S)" "fd_name (set_fields S ! i) = x"
        by (simp_all add: set_ok_def S'_def)
      then show ?thesis by (simp add: S'_def nth_append)
    qed (use that in \<open>simp add: S'_def f_def nth_append\<close>)
    moreover have "field_ok G' S f" using G' by (auto simp: field_ok_def f_def calloc_cells_def)
    moreover have "field_ok G' S' g = field_ok G' S g" for g by (simp add: field_ok_def S'_def)
    moreover have "T = S'" using T True G'(1) by simp
    moreover have "set (set_fields S') = insert f (set (set_fields S))" by (simp add: S'_def)
    moreover have "numElements S' = numElements S" "capacity S' = capacity S" "endpoints S' = endpoints S"
      "endpointSets S' = endpointSets S" "getCardinality S' = getCardinality S"
      by (simp_all add: S'_def getCardinality_def)
    ultimately show ?thesis using old G'(1) okS by (simp add: set_ok_def)
  next
    case False
    with T G'(1) have "sets G t = Some T" by simp
    from graph_okD(1) [OF ok this] G'(1) old show ?thesis by (auto simp: set_ok_def)
  qed
  moreover have "p = q" if "getFieldAt G' p = Inr g" "getFieldAt G' q = Inr h" "fd_data g = fd_data h" for p q g h
  proof -
    have "fd_data f = nextBlock G" by (simp add: f_def)
    with fieldAt [OF that(1)] fieldAt [OF that(2)] less that(3) ok show ?thesis
      unfolding graph_ok_def by (metis less_irrefl)
  qed
  ultimately show ?thesis unfolding graph_ok_def by blast
qed

section \<open>The registry of references\<close>

lemma refs_okD:
  assumes "refs_ok G"
  shows "refs G r = Some q \<Longrightarrow> \<exists>f. getFieldAt G (ref_fieldData q) = Inr f \<and>
      r \<in> set (fieldReferences f) \<and> ref_data q = fd_data f"
    and "getFieldAt G p = Inr f \<Longrightarrow> r \<in> set (fieldReferences f) \<Longrightarrow>
      \<exists>q. refs G r = Some q \<and> ref_fieldData q = p"
  using assms unfolding refs_ok_def by blast+

lemma refs_ok_same:
  assumes "refs_ok G" and "\<And>p. getFieldAt G' p = getFieldAt G p" and "refs G' = refs G"
  shows "refs_ok G'"
  using assms by (simp add: refs_ok_def)

lemma register_ok:
  assumes ok: "graph_ok G" and rok: "refs_ok G" and new: "refs G r = None"
    and f: "getFieldAt G (ref_fieldData q) = Inr f" and q: "ref_data q = fd_data f"
    and reg: "registerRef (ref_fieldData q) r (G\<lparr>refs := (refs G)(r \<mapsto> q)\<rparr>) = Inr G'"
  shows "graph_ok G' \<and> refs_ok G'"
proof -
  let ?p = "ref_fieldData q" and ?f = "f\<lparr>fieldReferences := List.insert r (fieldReferences f)\<rparr>"
  have "getFieldAt (G\<lparr>refs := (refs G)(r \<mapsto> q)\<rparr>) ?p = Inr f" using f by (simp add: getFieldAt_def)
  with reg have put: "putField ?p ?f (G\<lparr>refs := (refs G)(r \<mapsto> q)\<rparr>) = Inr G'"
    by (simp add: registerRef_def)
  note G' = registry_ok [OF ok f put]
  have "refs_ok G'"
    unfolding refs_ok_def
  proof (intro conjI allI impI)
    fix r' q' assume r': "refs G' r' = Some q'"
    show "\<exists>f. getFieldAt G' (ref_fieldData q') = Inr f \<and> r' \<in> set (fieldReferences f) \<and> ref_data q' = fd_data f"
    proof (cases "r' = r")
      case True
      with r' G'(2) q show ?thesis by (simp add: G'(3))
    next
      case False
      with r' G'(2) obtain g where "getFieldAt G (ref_fieldData q') = Inr g" "r' \<in> set (fieldReferences g)"
        "ref_data q' = fd_data g" using refs_okD(1) [OF rok, of r' q'] by auto
      with f show ?thesis by (cases "ref_fieldData q' = ?p") (auto simp: G'(3))
    qed
  next
    fix p' g r' assume g: "getFieldAt G' p' = Inr g" "r' \<in> set (fieldReferences g)"
    show "\<exists>q. refs G' r' = Some q \<and> ref_fieldData q = p'"
    proof (cases "r' = r")
      case True
      have "p' = ?p"
      proof (rule ccontr)
        assume "p' \<noteq> ?p"
        with g True have "getFieldAt G p' = Inr g" "r \<in> set (fieldReferences g)" by (simp_all add: G'(3))
        with refs_okD(2) [OF rok] new show False by fastforce
      qed
      with True G'(2) show ?thesis by simp
    next
      case False
      then have "\<exists>h. getFieldAt G p' = Inr h \<and> r' \<in> set (fieldReferences h)"
        using g f by (cases "p' = ?p") (auto simp: G'(3))
      with refs_okD(2) [OF rok] have "\<exists>q. refs G r' = Some q \<and> ref_fieldData q = p'" by blast
      with False G'(2) show ?thesis by simp
    qed
  qed
  with G'(1) show ?thesis by simp
qed

lemma newRef_ok:
  assumes "graph_ok G" and "refs_ok G" and "refs G r = None" and "newRef p r G = Inr G'"
  shows "graph_ok G' \<and> refs_ok G'"
proof -
  obtain f where f: "getFieldAt G p = Inr f"
    "registerRef p r (G\<lparr>refs := (refs G)(r \<mapsto> \<lparr>ref_fieldData = p, ref_data = fd_data f\<rparr>)\<rparr>) = Inr G'"
    using assms(4) by (auto simp: newRef_def rbind_eq_Inr)
  with register_ok [OF assms(1-3), of "\<lparr>ref_fieldData = p, ref_data = fd_data f\<rparr>" f G'] show ?thesis by simp
qed

lemma getField_ok:
  assumes "graph_ok G" and "refs_ok G" and "refs G r = None" and "getField s ct name r G = Inr G'"
  shows "graph_ok G' \<and> refs_ok G'"
proof -
  obtain p where "newRef p r G = Inr G'"
    using assms(4) by (auto simp: getField_def rbind_eq_Inr assert_eq_Inr)
  with newRef_ok [OF assms(1-3)] show ?thesis by blast
qed

lemma copyRef_ok:
  assumes "graph_ok G" and "refs_ok G" and "refs G r = None" and "copyRef r other G = Inr G'"
  shows "graph_ok G' \<and> refs_ok G'"
proof -
  obtain q where q: "refs G other = Some q"
    "registerRef (ref_fieldData q) r (G\<lparr>refs := (refs G)(r \<mapsto> q)\<rparr>) = Inr G'"
    using assms(4) by (auto simp: copyRef_def rbind_eq_Inr deref_eq_Inr)
  obtain f where "getFieldAt G (ref_fieldData q) = Inr f" "ref_data q = fd_data f"
    using refs_okD(1) [OF assms(2) q(1)] by blast
  with register_ok [OF assms(1-3)] q(2) show ?thesis by blast
qed

lemma destroyRef_ok:
  assumes ok: "graph_ok G" and rok: "refs_ok G" and d: "destroyRef r G = Inr G'"
  shows "graph_ok G' \<and> refs_ok G'"
proof -
  obtain q f where q: "refs G r = Some q" and f: "getFieldAt G (ref_fieldData q) = Inr f"
    using d refs_okD(1) [OF rok, of r] by (auto simp: destroyRef_def rbind_eq_Inr deref_eq_Inr)
  let ?p = "ref_fieldData q" and ?f = "f\<lparr>fieldReferences := removeAll r (fieldReferences f)\<rparr>"
  from q f d obtain H where H: "putField ?p ?f G = Inr H" "G' = H\<lparr>refs := (refs H)(r := None)\<rparr>"
    by (auto simp: destroyRef_def unregisterRef_def rbind_eq_Inr)
  then have "putField ?p ?f (G\<lparr>refs := (refs G)(r := None)\<rparr>) = Inr G'"
    by (auto simp: putField_def putSet_def rbind_eq_Inr deref_eq_Inr split: if_splits)
  note G' = registry_ok [OF ok f this]
  have "refs_ok G'"
    unfolding refs_ok_def
  proof (intro conjI allI impI)
    fix r' q' assume r': "refs G' r' = Some q'"
    then have ne: "r' \<noteq> r" "refs G r' = Some q'" by (auto simp: G'(2) split: if_splits)
    obtain g where "getFieldAt G (ref_fieldData q') = Inr g" "r' \<in> set (fieldReferences g)" "ref_data q' = fd_data g"
      using refs_okD(1) [OF rok ne(2)] by blast
    with f ne(1) show "\<exists>f. getFieldAt G' (ref_fieldData q') = Inr f \<and> r' \<in> set (fieldReferences f) \<and> ref_data q' = fd_data f"
      by (cases "ref_fieldData q' = ?p") (auto simp: G'(3))
  next
    fix p' g r' assume g: "getFieldAt G' p' = Inr g" "r' \<in> set (fieldReferences g)"
    then have h: "\<exists>h. getFieldAt G p' = Inr h \<and> r' \<in> set (fieldReferences h) \<and> (p' = ?p \<longrightarrow> r' \<noteq> r)"
      using f by (cases "p' = ?p") (auto simp: G'(3))
    then obtain q' where q': "refs G r' = Some q'" "ref_fieldData q' = p'" using refs_okD(2) [OF rok] by blast
    with h q have "r' \<noteq> r" by auto
    with q' show "\<exists>q. refs G' r' = Some q \<and> ref_fieldData q = p'" by (simp add: G'(2))
  qed
  with G'(1) show ?thesis by simp
qed

lemma addField_refs_ok:
  assumes rok: "refs_ok G" and a: "addField s ct dims name r G = Inr G'" and new: "refs G r = None"
  shows "refs_ok G'"
proof -
  obtain S where S: "sets G s = Some S" using a by (auto simp: addField_def result_simps)
  define f where "f = \<lparr>fd_name = name, fd_componentType = ct, fd_dimensions = dims,
    fd_size = nat (prod_list dims), fd_data = nextBlock G, fieldReferences = [r]\<rparr>"
  define q where "q = \<lparr>ref_fieldData = (s, length (set_fields S)), ref_data = nextBlock G\<rparr>"
  have G': "sets G' = (sets G)(s \<mapsto> S\<lparr>set_fields := set_fields S @ [f],
      fieldNames := (fieldNames S)(name \<mapsto> length (set_fields S))\<rparr>)" "refs G' = (refs G)(r \<mapsto> q)"
    using a S by (auto simp: addField_def Let_def putSet_def f_def q_def)
  have fieldAt: "getFieldAt G' p = (if p = (s, length (set_fields S)) then Inr f else getFieldAt G p)" for p
    using G'(1) S by (cases p) (auto simp: getFieldAt_def deref_def nth_result_def nth_append)
  have none: "getFieldAt G (s, length (set_fields S)) = Inl Undefined"
    using S by (simp add: getFieldAt_def nth_result_def)
  show ?thesis
    unfolding refs_ok_def
  proof (intro conjI allI impI)
    fix r' q' assume r': "refs G' r' = Some q'"
    show "\<exists>f. getFieldAt G' (ref_fieldData q') = Inr f \<and> r' \<in> set (fieldReferences f) \<and> ref_data q' = fd_data f"
    proof (cases "r' = r")
      case True
      with r' G'(2) have "q' = q" by simp
      with True show ?thesis by (simp add: fieldAt q_def f_def)
    next
      case False
      with r' G'(2) refs_okD(1) [OF rok, of r' q'] none show ?thesis by (auto simp: fieldAt)
    qed
  next
    fix p g r' assume g: "getFieldAt G' p = Inr g" "r' \<in> set (fieldReferences g)"
    show "\<exists>q. refs G' r' = Some q \<and> ref_fieldData q = p"
    proof (cases "p = (s, length (set_fields S))")
      case True
      with g have "r' = r" by (auto simp: fieldAt f_def)
      with True G'(2) show ?thesis by (simp add: q_def)
    next
      case False
      with g refs_okD(2) [OF rok, of p g r'] new have "\<exists>q. refs G r' = Some q \<and> ref_fieldData q = p" "r' \<noteq> r"
        by (auto simp: fieldAt)
      with G'(2) show ?thesis by simp
    qed
  qed
qed

end
