(* ===== verification/Graph_Correct.thy ===== *)
theory Graph_Correct
  imports Graph_Invariant
begin

text \<open>
  What the graph interface promises its clients: reachable stores are well formed, an edge set behaves
  as a growing list of edges, field data survives growth, and the loops over elements and endpoints
  visit what they should. The places where the code does something else are theorems too.
\<close>

section \<open>Client programs\<close>

definition no_sets :: graph where
  "no_sets = \<lparr>sets = Map.empty, blocks = Map.empty, nextBlock = 0, refs = Map.empty\<rparr>"

text \<open>
  The calls a client makes. A new object gets an address no live object has; removal is called on a
  set with elements. Assignment between references is left out, see \<open>assigned_ref_goes_stale\<close> below.
\<close>

inductive graph_step :: "graph \<Rightarrow> graph \<Rightarrow> bool" where
  new_set: "sets G s = None \<Longrightarrow> \<forall>a \<in> set eps. sets G a \<noteq> None \<Longrightarrow> graph_step G (newSet s name eps G)"
| add_element: "add s eps G = Inr (e, G') \<Longrightarrow> graph_step G G'"
| remove_element: "sets G s = Some S \<Longrightarrow> 0 < numElements S \<Longrightarrow> remove s e G = Inr G' \<Longrightarrow> graph_step G G'"
| add_field: "refs G r = None \<Longrightarrow> addField s ct dims name r G = Inr G' \<Longrightarrow> graph_step G G'"
| get_field: "refs G r = None \<Longrightarrow> getField s ct name r G = Inr G' \<Longrightarrow> graph_step G G'"
| spatial_field: "setSpatialField s name G = Inr G' \<Longrightarrow> graph_step G G'"
| copy_ref: "refs G r = None \<Longrightarrow> copyRef r other G = Inr G' \<Longrightarrow> graph_step G G'"
| destroy_ref: "destroyRef r G = Inr G' \<Longrightarrow> graph_step G G'"
| set_tensor: "setTensor r ct dims e vals G = Inr G' \<Longrightarrow> graph_step G G'"

lemma setSpatialField_ok:
  assumes ok: "graph_ok G" and s: "setSpatialField s name G = Inr G'"
  shows "graph_ok G' \<and> (refs_ok G \<longrightarrow> refs_ok G')"
proof -
  obtain S where S: "sets G s = Some S" "G' = putSet s (S\<lparr>spatialFieldName := name\<rparr>) G"
    using s by (auto simp: setSpatialField_def rbind_eq_Inr assert_eq_Inr deref_eq_Inr)
  have same: "same_set S (S\<lparr>spatialFieldName := name\<rparr>)"
    using graph_okD(1) [OF ok S(1)] by (simp add: same_set_def set_ok_def list_all2_refl)
  from graph_ok_sets [OF ok S(1) same, of G'] have "graph_ok G'" by (simp add: S(2) putSet_def)
  moreover have "getFieldAt G' p = getFieldAt G p" for p
    using S by (simp add: getFieldAt_def deref_def putSet_def)
  ultimately show ?thesis using refs_ok_same [of G G'] by (simp add: S(2) putSet_def)
qed

lemma setTensor_ok:
  assumes ok: "graph_ok G" and s: "setTensor r ct dims e vals G = Inr G'"
  shows "graph_ok G' \<and> (refs_ok G \<longrightarrow> refs_ok G')"
proof -
  obtain b m m' where m: "blocks G b = Some m" "same_block m m'" "G' = G\<lparr>blocks := (blocks G)(b \<mapsto> m')\<rparr>"
    using setTensor_block [OF s] by blast
  have "getFieldAt G' p = getFieldAt G p" for p by (simp add: m(3) getFieldAt_def)
  with graph_ok_blocks [OF ok m(1,2)] m(3) show ?thesis using refs_ok_same [of G G'] by simp
qed

lemma graph_step_ok:
  assumes "graph_step G G'" and ok: "graph_ok G" and rok: "refs_ok G"
  shows "graph_ok G' \<and> refs_ok G'"
  using assms(1)
proof cases
  case (new_set s eps name)
  have "getFieldAt G' p = Inr f \<longleftrightarrow> getFieldAt G p = Inr f" for p f
    using new_set by (auto simp: result_simps newSet_def putSet_def Set_edges_def Set_init_def Let_def)
  then have "refs_ok G'" using rok new_set(1) by (simp add: refs_ok_def newSet_def putSet_def)
  with newSet_ok [OF ok] new_set show ?thesis by blast
next
  case (remove_element s S e)
  note r = remove_ok [OF ok remove_element(3,1,2)]
  have "refs_ok G'" by (rule refs_ok_same [OF rok]) (use r in blast)+
  with r show ?thesis by simp
next
  case (add_element s eps e)
  from add_preserves [OF ok this] rok show ?thesis by simp
next
  case (add_field r s ct dims name)
  from addField_ok [OF ok this(2)] addField_refs_ok [OF rok this(2,1)] show ?thesis by simp
next
  case (get_field r s ct name)
  from getField_ok [OF ok rok this] show ?thesis .
next
  case (spatial_field s name)
  from setSpatialField_ok [OF ok this] rok show ?thesis by simp
next
  case (copy_ref r other)
  from copyRef_ok [OF ok rok this] show ?thesis .
next
  case (destroy_ref r)
  from destroyRef_ok [OF ok rok this] show ?thesis .
next
  case (set_tensor r ct dims e vals)
  from setTensor_ok [OF ok this] rok show ?thesis by simp
qed

lemma no_sets_ok: "graph_ok no_sets \<and> refs_ok no_sets"
  by (simp add: graph_ok_def refs_ok_def no_sets_def getFieldAt_def)

lemma reachable_ok: "graph_step\<^sup>*\<^sup>* no_sets G \<Longrightarrow> graph_ok G \<and> refs_ok G"
  by (induction rule: rtranclp_induct) (use no_sets_ok graph_step_ok in blast)+



section \<open>Edge sets as lists of edges\<close>

definition edge_at :: "set_data \<Rightarrow> nat \<Rightarrow> int list" where
  "edge_at S i = map (\<lambda>k. the (endpoints S ! (i * getCardinality S + k))) [0..<getCardinality S]"

definition edges_of :: "graph \<Rightarrow> nat \<Rightarrow> int list list" where
  "edges_of G s = (case sets G s of None \<Rightarrow> [] | Some S \<Rightarrow> map (edge_at S) [0..<nat (numElements S)])"

lemma length_edges_of: "sets G s = Some S \<Longrightarrow> length (edges_of G s) = nat (numElements S)"
  by (simp add: edges_of_def)

lemma added_edges:
  assumes ok: "graph_ok G" and S: "sets G s = Some S" and a: "added s S eps G S' G'"
    and len: "length eps = getCardinality S"
  shows "edges_of G' t = (if t = s then edges_of G s @ [eps] else edges_of G t)"
proof (cases "t = s")
  case True
  let ?n = "nat (numElements S)" and ?c = "getCardinality S"
  have n: "nat (numElements S + 1) = Suc ?n"
    using graph_okD(1) [OF ok S] nat_add_distrib by (fastforce simp: set_ok_def)
  have E: "added_endpoints S eps S'" using a by (simp add: added_def)
  have "edge_at S' i = edge_at S i" if "i < ?n" for i
    using E that mixed_radix_less [of i ?n _ ?c] addedD(6) [OF a]
    by (simp add: edge_at_def added_endpoints_def Let_def)
  moreover have "edge_at S' ?n = eps"
    using E len addedD(6) [OF a]
    by (intro nth_equalityI) (simp_all add: edge_at_def added_endpoints_def Let_def)
  ultimately have "map (edge_at S') [0..<Suc ?n] = map (edge_at S) [0..<?n] @ [eps]" by simp
  then show ?thesis using True S addedD(1,2) [OF a] n by (simp add: edges_of_def)
next
  case False
  then show ?thesis using addedD(1) [OF a] by (simp add: edges_of_def)
qed

text \<open>A store that appends: what a client can rely on when it adds elements one after the other.\<close>

locale append_store =
  fixes push :: "'v \<Rightarrow> 's \<Rightarrow> (int \<times> 's) result" and contents :: "'s \<Rightarrow> 'v list"
    and inv :: "'s \<Rightarrow> bool" and valid :: "'s \<Rightarrow> 'v \<Rightarrow> bool"
  assumes push_ok: "inv s \<Longrightarrow> valid s v \<Longrightarrow>
      \<exists>s'. push v s = Inr (int (length (contents s)), s') \<and> inv s' \<and> contents s' = contents s @ [v]"
    and push_mono: "inv s \<Longrightarrow> valid s v \<Longrightarrow> push v s = Inr (i, s') \<Longrightarrow> valid s w \<Longrightarrow> valid s' w"
begin

definition push_step :: "'v \<Rightarrow> int list \<times> 's \<Rightarrow> (int list \<times> 's) result" where
  "push_step v p = rbind (push v (snd p)) (\<lambda>r. Inr (fst p @ [fst r], snd r))"

lemma push_all:
  assumes "inv s" and "\<And>v. v \<in> set vs \<Longrightarrow> valid s v"
  shows "\<exists>s'. rfold push_step vs (ids, s) =
      Inr (ids @ map int [length (contents s)..<length (contents s) + length vs], s') \<and>
    inv s' \<and> contents s' = contents s @ vs \<and> (\<forall>w. valid s w \<longrightarrow> valid s' w)"
  using assms
proof (induction vs arbitrary: s ids)
  case (Cons v vs)
  then obtain s1 where s1: "push v s = Inr (int (length (contents s)), s1)" "inv s1"
    "contents s1 = contents s @ [v]"
    using push_ok [of s v] by auto
  have mono: "valid s1 w" if "valid s w" for w
    using push_mono [OF Cons.prems(1) _ s1(1) that] Cons.prems(2) by simp
  from Cons.IH [of s1 "ids @ [int (length (contents s))]"] s1 mono Cons.prems(2)
  obtain s' where s': "rfold push_step vs (ids @ [int (length (contents s))], s1) =
      Inr ((ids @ [int (length (contents s))]) @ map int [Suc (length (contents s))..<Suc (length (contents s)) + length vs], s')"
    "inv s'" "contents s' = contents s1 @ vs" "\<forall>w. valid s1 w \<longrightarrow> valid s' w"
    by auto
  have u: "[length (contents s)..<length (contents s) + length (v # vs)] =
      length (contents s) # [Suc (length (contents s))..<Suc (length (contents s)) + length vs]"
    by (simp add: upt_conv_Cons del: upt_Suc)
  have "push_step v (ids, s) = Inr (ids @ [int (length (contents s))], s1)"
    using s1(1) by (simp add: push_step_def)
  then show ?case
    using s1(3) s' mono unfolding u by (intro exI [of _ s']) (simp del: upt_Suc)
qed simp

lemma push_sequence:
  assumes "inv s" and "\<And>v. v \<in> set vs \<Longrightarrow> valid s v"
  shows "\<exists>s'. rfold (\<lambda>v s. rbind (push v s) (\<lambda>r. Inr (snd r))) vs s = Inr s' \<and>
    inv s' \<and> contents s' = contents s @ vs"
proof -
  have "rfold (\<lambda>v s. rbind (push v s) (\<lambda>r. Inr (snd r))) vs s =
      rbind (rfold push_step vs (ids, s)) (\<lambda>p. Inr (snd p))" for ids
  proof (induction vs arbitrary: s ids)
    case (Cons v vs)
    show ?case by (cases "push v s") (simp_all add: push_step_def [of v] Cons.IH)
  qed simp
  with push_all [OF assms] show ?thesis by (metis rbind_simps(2) snd_conv)
qed

end

text \<open>
  An edge set is such a store; the invariant carries the other sets along unchanged and the parts of
  the set itself that adding elements leaves alone.
\<close>

definition unchanged_but :: "nat \<Rightarrow> graph \<Rightarrow> graph \<Rightarrow> bool" where
  "unchanged_but s G0 G \<longleftrightarrow> graph_ok G \<and> (\<forall>t. t \<noteq> s \<longrightarrow> sets G t = sets G0 t) \<and>
     (\<exists>S0 S. sets G0 s = Some S0 \<and> sets G s = Some S \<and> endpointSets S = endpointSets S0 \<and>
        S = S0\<lparr>numElements := numElements S, endpoints := endpoints S, capacity := capacity S,
               set_fields := set_fields S\<rparr>)"

definition valid_edge :: "nat \<Rightarrow> graph \<Rightarrow> int list \<Rightarrow> bool" where
  "valid_edge s G eps \<longleftrightarrow> (\<exists>S. sets G s = Some S \<and> valid_endpoints G S eps)"

lemma valid_edge_mono:
  assumes ok: "graph_ok G" and S: "sets G s = Some S" and a: "added s S eps G S' G'" and v: "valid_edge s G w"
  shows "valid_edge s G' w"
proof -
  have "\<exists>E'. sets G' x = Some E' \<and> e < numElements E'" if "sets G x = Some E" "e < numElements E" for x e E
    using that S addedD(1,2) [OF a] by (cases "x = s") auto
  then have "valid_endpoints G' S' w"
    using v S addedD(3) [OF a] unfolding valid_edge_def valid_endpoints_def
    by (auto elim!: list_all2_mono)
  then show ?thesis using addedD(1) [OF a] by (simp add: valid_edge_def)
qed

interpretation edge_set: append_store "add s" "\<lambda>G. edges_of G s" "unchanged_but s G0" "valid_edge s"
  for s G0
proof
  fix G eps assume u: "unchanged_but s G0 G" and v: "valid_edge s G eps"
  obtain S where S: "sets G s = Some S" "valid_endpoints G S eps" using v by (auto simp: valid_edge_def)
  have ok: "graph_ok G" using u by (simp add: unchanged_but_def)
  obtain S' G' where G': "add s eps G = Inr (numElements S, G')" "added s S eps G S' G'"
    using add_ok [OF ok S] by blast
  have len: "length eps = getCardinality S" using S(2) by (rule valid_endpoints_length)
  have "edges_of G' s = edges_of G s @ [eps]" using added_edges [OF ok S(1) G'(2) len] by simp
  moreover have "numElements S = int (length (edges_of G s))"
    using graph_okD(1) [OF ok S(1)] S(1) by (simp add: length_edges_of set_ok_def)
  moreover have "unchanged_but s G0 G'"
  proof -
    obtain S0 where S0: "sets G0 s = Some S0" "endpointSets S = endpointSets S0"
      "S = S0\<lparr>numElements := numElements S, endpoints := endpoints S, capacity := capacity S,
              set_fields := set_fields S\<rparr>"
      using u S(1) by (auto simp: unchanged_but_def)
    have "S' = S\<lparr>numElements := numElements S', endpoints := endpoints S', capacity := capacity S',
              set_fields := set_fields S'\<rparr>"
      using G'(2) addedD(2) [OF G'(2)] by (simp add: added_def added_set_def)
    also have "\<dots> = S0\<lparr>numElements := numElements S', endpoints := endpoints S', capacity := capacity S',
              set_fields := set_fields S'\<rparr>"
      by (subst S0(3)) simp
    finally have "S' = S0\<lparr>numElements := numElements S', endpoints := endpoints S', capacity := capacity S',
              set_fields := set_fields S'\<rparr>" .
    then show ?thesis
      using u S0(1,2) addedD(1,3) [OF G'(2)] added_graph_ok [OF ok S(1) G'(2) len]
      unfolding unchanged_but_def by (intro conjI exI [of _ S0] exI [of _ S']) auto
  qed
  ultimately show "\<exists>G'. add s eps G = Inr (int (length (edges_of G s)), G') \<and> unchanged_but s G0 G' \<and>
      edges_of G' s = edges_of G s @ [eps]"
    using G'(1) by simp
next
  fix G eps i G' w
  assume u: "unchanged_but s G0 G" and v: "valid_edge s G eps" and p: "add s eps G = Inr (i, G')"
    and w: "valid_edge s G w"
  obtain S where S: "sets G s = Some S" "valid_endpoints G S eps" using v by (auto simp: valid_edge_def)
  have ok: "graph_ok G" using u by (simp add: unchanged_but_def)
  obtain S' where "added s S eps G S' G'" using add_ok [OF ok S] p by auto
  with valid_edge_mono [OF ok S(1)] w show "valid_edge s G' w" by blast
qed

section \<open>Properties\<close>

text \<open>
  C14. On a well-formed store, adding an edge succeeds exactly when it is given one endpoint per
  endpoint set, each below the number of elements of its set. Then the returned reference is the
  number of edges so far, the edge list grows by exactly this edge, also when the arrays had to be
  reallocated, and no other set changes its edges.
\<close>
theorem add_appends_edge:
  assumes "graph_ok G" and "sets G s = Some S"
  shows "((\<exists>r. add s eps G = Inr r) \<longleftrightarrow> valid_endpoints G S eps) \<and>
    (valid_endpoints G S eps \<longrightarrow> (\<exists>G'. add s eps G = Inr (int (length (edges_of G s)), G') \<and>
      edges_of G' s = edges_of G s @ [eps] \<and> (\<forall>t. t \<noteq> s \<longrightarrow> edges_of G' t = edges_of G t) \<and> graph_ok G'))"
proof -
  have ok: "\<exists>G'. add s eps G = Inr (int (length (edges_of G s)), G') \<and>
      edges_of G' s = edges_of G s @ [eps] \<and> (\<forall>t. t \<noteq> s \<longrightarrow> edges_of G' t = edges_of G t) \<and> graph_ok G'"
    if v: "valid_endpoints G S eps"
  proof -
    obtain S' G' where G': "add s eps G = Inr (numElements S, G')" "added s S eps G S' G'"
      using add_ok [OF assms v] by blast
    have "numElements S = int (length (edges_of G s))"
      using graph_okD(1) [OF assms] assms(2) by (simp add: length_edges_of set_ok_def)
    with G' added_edges [OF assms G'(2) valid_endpoints_length [OF v]] add_preserves [OF assms(1) G'(1)]
    show ?thesis by (intro exI [of _ G']) simp
  qed
  moreover have "valid_endpoints G S eps" if "add s eps G = Inr r" for r
    using add_valid [of s eps G "fst r" "snd r"] that assms(2) by auto
  ultimately show ?thesis by blast
qed

definition sample_graph :: graph where
  "sample_graph = newSet 1 ''edges'' [0] (newSet 0 ''points'' [] no_sets)"

lemma sample_graph_reachable: "graph_step\<^sup>*\<^sup>* no_sets sample_graph"
proof -
  have "graph_step no_sets (newSet 0 ''points'' [] no_sets)"
    by (rule new_set) (simp_all add: no_sets_def)
  moreover have "graph_step (newSet 0 ''points'' [] no_sets) sample_graph"
    unfolding sample_graph_def by (rule new_set) (simp_all add: no_sets_def newSet_def putSet_def)
  ultimately show ?thesis by (meson converse_rtranclp_into_rtranclp r_into_rtranclp)
qed

lemmas sample_graph_ok = reachable_ok [OF sample_graph_reachable]

lemma sample_graph_sets:
  "sets sample_graph 0 = Some (Set_edges ''points'' [])" "sets sample_graph 1 = Some (Set_edges ''edges'' [0])"
  by (simp_all add: sample_graph_def newSet_def putSet_def)

theorem add_appends_edge_witness:
  "\<exists>G'. add 1 [-1] sample_graph = Inr (0, G') \<and> edges_of G' 1 = [[-1]] \<and> \<not> (\<exists>r. add 1 [0] sample_graph = Inr r)"
proof -
  have ok: "graph_ok sample_graph" using sample_graph_ok by simp
  have e: "edges_of sample_graph 1 = []"
    using sample_graph_sets(2) by (simp only: edges_of_def) (simp add: Set_edges_def Set_init_def Let_def)
  have "valid_endpoints sample_graph (Set_edges ''edges'' [0]) [-1]"
    "\<not> valid_endpoints sample_graph (Set_edges ''edges'' [0]) [0]"
    by (simp_all add: valid_endpoints_def sample_graph_sets Set_edges_def Set_init_def Let_def)
  with add_appends_edge [OF ok sample_graph_sets(2)] e show ?thesis by force
qed


definition sample_field :: graph where
  "sample_field = (case addField 0 CT_Double [2] ''x'' 7 sample_graph of Inr G \<Rightarrow> G | Inl _ \<Rightarrow> no_sets)"

lemma sample_field_eq: "addField 0 CT_Double [2] ''x'' 7 sample_graph = Inr sample_field"
  by (simp add: sample_field_def addField_def sample_graph_sets Let_def)

lemma sample_field_ok: "graph_ok sample_field \<and> refs_ok sample_field"
proof -
  have "graph_step sample_graph sample_field"
    by (rule add_field [OF _ sample_field_eq])
      (simp add: sample_graph_def newSet_def putSet_def no_sets_def)
  with sample_graph_reachable have "graph_step\<^sup>*\<^sup>* no_sets sample_field" by simp
  then show ?thesis by (rule reachable_ok)
qed

lemma sample_field_refs: "refs sample_field 7 = Some \<lparr>ref_fieldData = (0, 0), ref_data = 0\<rparr>"
  and sample_field_blocks: "blocks sample_field 0 = Some (calloc_cells (1024 * 2) 0)"
  and sample_field_sets: "\<exists>S. sets sample_field 0 = Some S \<and> numElements S = 0 \<and> endpointSets S = [] \<and>
    capacity S = 1024 \<and> set_fields S = [\<lparr>fd_name = ''x'', fd_componentType = CT_Double, fd_dimensions = [2],
      fd_size = 2, fd_data = 0, fieldReferences = [7]\<rparr>]"
  by (simp_all add: sample_field_def addField_def sample_graph_sets sample_graph_def Let_def putSet_def
      newSet_def no_sets_def Set_edges_def Set_init_def capacityIncrement_def)


lemma tensor_cell:
  assumes ok: "graph_ok G" and q: "refs G r = Some q" and f: "getFieldAt G (ref_fieldData q) = Inr f"
    and data: "ref_data q = fd_data f" and m: "blocks G (fd_data f) = Some m"
    and idx: "in_bounds (fd_dimensions f) idx"
  shows "getComponent G r (fd_componentType f) (fd_dimensions f) element idx =
      mem_cell m (element * int (fd_size f) + computeOffset (fd_dimensions f) idx)"
    and "0 \<le> computeOffset (fd_dimensions f) idx" and "computeOffset (fd_dimensions f) idx < int (fd_size f)"
proof -
  have "field_ok G S f" if "sets G (fst (ref_fieldData q)) = Some S" for S
    using graph_okD(1) [OF ok that] f that by (auto simp: set_ok_def result_simps)
  then have size: "fd_size f = nat (prod_list (fd_dimensions f))"
    using f by (auto simp: field_ok_def result_simps)
  then show "getComponent G r (fd_componentType f) (fd_dimensions f) element idx =
      mem_cell m (element * int (fd_size f) + computeOffset (fd_dimensions f) idx)"
    using q f data m by (simp add: getComponent_def getElemDataPtr_def)
  show "0 \<le> computeOffset (fd_dimensions f) idx" "computeOffset (fd_dimensions f) idx < int (fd_size f)"
    using computeOffset_bounds [OF idx] size by simp_all
qed

lemma outside_tensor:
  fixes e e' o' k :: int
  assumes "0 \<le> o'" and "o' < k" and "e' \<noteq> e"
  shows "\<not> (e * k \<le> e' * k + o' \<and> e' * k + o' < e * k + k)"
proof (cases "e' < e")
  case True
  then have "(e' + 1) * k \<le> e * k" using assms by (intro mult_right_mono) auto
  with assms(2) show ?thesis by (simp add: algebra_simps)
next
  case False
  with assms(3) have "(e + 1) * k \<le> e' * k" using assms(1,2) by (intro mult_right_mono) auto
  with assms(1) show ?thesis by (simp add: algebra_simps)
qed

lemma write_list_cell:
  assumes "base + length vals \<le> length m" and "0 \<le> i"
  shows "mem_cell (write_list m base vals) i =
    (if int base \<le> i \<and> i < int base + int (length vals) then Inr (Some (vals ! nat (i - int base)))
     else mem_cell m i)"
proof -
  have "nat i - base = nat (i - int base)" using assms(2) by simp
  with assms show ?thesis
    by (auto simp: mem_cell_def nth_write_list nat_le_iff le_nat_iff nat_less_iff)
qed

text \<open>
  C16. Writing a tensor through a field reference and reading it back component by component gives the
  values written, at row-major positions; no component of another element, of another field or of
  another set is touched.
\<close>
theorem setTensor_getComponent:
  assumes ok: "graph_ok G" and rok: "refs_ok G" and q: "refs G r = Some q"
    and f: "getFieldAt G (ref_fieldData q) = Inr f" and S: "sets G (fst (ref_fieldData q)) = Some S"
    and e: "0 \<le> e" "e < numElements S" and len: "length vals = fd_size f"
  shows "\<exists>G'. setTensor r (fd_componentType f) (fd_dimensions f) e vals G = Inr G' \<and>
    (\<forall>idx. in_bounds (fd_dimensions f) idx \<longrightarrow>
       getComponent G' r (fd_componentType f) (fd_dimensions f) e idx =
         Inr (Some (vals ! nat (computeOffset (fd_dimensions f) idx)))) \<and>
    (\<forall>r' q' f' e' idx. refs G r' = Some q' \<longrightarrow> getFieldAt G (ref_fieldData q') = Inr f' \<longrightarrow>
       in_bounds (fd_dimensions f') idx \<longrightarrow> 0 \<le> e' \<longrightarrow> (ref_fieldData q' \<noteq> ref_fieldData q \<or> e' \<noteq> e) \<longrightarrow>
       getComponent G' r' (fd_componentType f') (fd_dimensions f') e' idx =
         getComponent G r' (fd_componentType f') (fd_dimensions f') e' idx)"
proof -
  have data: "ref_data x = fd_data g" if "refs G y = Some x" "getFieldAt G (ref_fieldData x) = Inr g" for x y g
    using refs_okD(1) [OF rok that(1)] that(2) by auto
  have fok: "field_ok G S f" using graph_okD(1) [OF ok S] f S by (auto simp: set_ok_def result_simps)
  then obtain m where m: "blocks G (fd_data f) = Some m" "length m = capacity S * fd_size f"
    by (auto simp: field_ok_def)
  have size: "nat (prod_list (fd_dimensions f)) = fd_size f" using fok by (simp add: field_ok_def)
  obtain i where i: "e = int i" "i < capacity S"
    using e graph_okD(1) [OF ok S] nonneg_int_cases [OF e(1)] by (auto simp: set_ok_def)
  have room: "i * fd_size f + length vals \<le> length m"
    using mult_le_mono1 [of "Suc i" "capacity S" "fd_size f"] i(2) len m(2) by simp
  define G' where "G' = G\<lparr>blocks := (blocks G)(fd_data f \<mapsto> write_list m (i * fd_size f) vals)\<rparr>"
  have same: "getFieldAt G' p = getFieldAt G p" "refs G' = refs G" for p
    by (simp_all add: G'_def getFieldAt_def)
  have set: "setTensor r (fd_componentType f) (fd_dimensions f) e vals G = Inr G'"
    using q f data [OF q f] len size writeCells_ok [OF m(1) room] i(1)
    by (simp add: setTensor_def getElemDataPtr_def Let_def G'_def)
  then have ok': "graph_ok G'" using setTensor_ok [OF ok] by blast
  have m': "blocks G' (fd_data f) = Some (write_list m (i * fd_size f) vals)" by (simp add: G'_def)
  have "getComponent G' r (fd_componentType f) (fd_dimensions f) e idx =
      Inr (Some (vals ! nat (computeOffset (fd_dimensions f) idx)))"
    if idx: "in_bounds (fd_dimensions f) idx" for idx
    using tensor_cell [OF ok' _ _ data [OF q f] m' idx] q f i(1) len
      write_list_cell [OF room, of "e * int (fd_size f) + computeOffset (fd_dimensions f) idx"] by (simp add: same)
  moreover have "getComponent G' r' (fd_componentType f') (fd_dimensions f') e' idx =
      getComponent G r' (fd_componentType f') (fd_dimensions f') e' idx"
    if r': "refs G r' = Some q'" "getFieldAt G (ref_fieldData q') = Inr f'" "in_bounds (fd_dimensions f') idx"
      "0 \<le> e'" "ref_fieldData q' \<noteq> ref_fieldData q \<or> e' \<noteq> e" for r' q' f' e' idx
  proof (cases "ref_fieldData q' = ref_fieldData q")
    case True
    with r' f have f': "f' = f" "e' \<noteq> e" by simp_all
    note c = tensor_cell [OF ok r'(1,2) data [OF r'(1,2)] m(1) [folded f'(1)] r'(3)]
    note c' = tensor_cell(1) [OF ok' _ _ data [OF r'(1,2)] m' [folded f'(1)] r'(3)]
    let ?x = "e' * int (fd_size f) + computeOffset (fd_dimensions f) idx"
    have "\<not> (int (i * fd_size f) \<le> ?x \<and> ?x < int (i * fd_size f) + int (length vals))"
      using outside_tensor [of "computeOffset (fd_dimensions f) idx" "int (fd_size f)" e' e] c(2,3) f' i(1) len
      by simp
    moreover have "0 \<le> ?x" using r'(4) c(2) f' by simp
    ultimately have "mem_cell (write_list m (i * fd_size f) vals) ?x = mem_cell m ?x"
      using write_list_cell [OF room] by metis
    with c(1) c' r' f' show ?thesis by (simp add: same)
  next
    case False
    with ok r'(2) f have "fd_data f' \<noteq> fd_data f" unfolding graph_ok_def by blast
    then have "blocks G' (fd_data f') = blocks G (fd_data f')" by (simp add: G'_def)
    with r' data [OF r'(1,2)] show ?thesis
      by (simp add: getComponent_def getElemDataPtr_def deref_def same)
  qed
  ultimately show ?thesis using set by blast
qed

definition sample_element :: graph where
  "sample_element = (case add 0 [] sample_field of Inr (_, G) \<Rightarrow> G | Inl _ \<Rightarrow> no_sets)"

lemma sample_element_add: "add 0 [] sample_field = Inr (0, sample_element)"
  and sample_element_ok: "graph_ok sample_element" "refs_ok sample_element"
  and sample_element_ref: "\<exists>q f S. refs sample_element 7 = Some q \<and>
    getFieldAt sample_element (ref_fieldData q) = Inr f \<and> sets sample_element (fst (ref_fieldData q)) = Some S \<and>
    numElements S = 1 \<and> fd_size f = 2 \<and> fd_dimensions f = [2] \<and> fd_componentType f = CT_Double"
proof -
  obtain S where S: "sets sample_field 0 = Some S" "numElements S = 0" "endpointSets S = []"
    "capacity S = 1024" "set_fields S = [\<lparr>fd_name = ''x'', fd_componentType = CT_Double,
      fd_dimensions = [2], fd_size = 2, fd_data = 0, fieldReferences = [7]\<rparr>]"
    using sample_field_sets by blast
  have ok: "graph_ok sample_field" "refs_ok sample_field" using sample_field_ok by simp_all
  have eq: "add 0 [] sample_field = Inr (0, putSet 0 (S\<lparr>numElements := 1\<rparr>) sample_field)"
    using S by (simp add: add_def Let_def getCardinality_def putSet_def)
  then show a: "add 0 [] sample_field = Inr (0, sample_element)" by (simp add: sample_element_def)
  from add_preserves [OF ok(1) a] ok(2) show "graph_ok sample_element" "refs_ok sample_element" by simp_all
  from eq a have se: "sample_element = putSet 0 (S\<lparr>numElements := 1\<rparr>) sample_field" by simp
  from S show "\<exists>q f S. refs sample_element 7 = Some q \<and>
    getFieldAt sample_element (ref_fieldData q) = Inr f \<and> sets sample_element (fst (ref_fieldData q)) = Some S \<and>
    numElements S = 1 \<and> fd_size f = 2 \<and> fd_dimensions f = [2] \<and> fd_componentType f = CT_Double"
    by (simp add: se putSet_def sample_field_refs getFieldAt_def)
qed

theorem setTensor_getComponent_witness:
  "\<exists>G'. setTensor 7 CT_Double [2] 0 [5, 9] sample_element = Inr G' \<and>
     getComponent G' 7 CT_Double [2] 0 [1] = Inr (Some 9)"
proof -
  obtain q f S where *: "refs sample_element 7 = Some q"
    "getFieldAt sample_element (ref_fieldData q) = Inr f" "sets sample_element (fst (ref_fieldData q)) = Some S"
    "numElements S = 1" "fd_size f = 2" "fd_dimensions f = [2]" "fd_componentType f = CT_Double"
    using sample_element_ref by blast
  have "in_bounds [2] [1]" by simp
  with setTensor_getComponent [OF sample_element_ok *(1-3), of 0 "[5, 9]"] *(4-7) show ?thesis by force
qed

text \<open>
  Assigning a field reference to another leaves the assigned reference registered with its old
  field: when the old field's set grows, its data pointer is redirected to the old field's buffer, so
  that the reference reads another field than the one it was assigned.
\<close>
theorem assigned_ref_goes_stale:
  assumes ok: "graph_ok G" and rok: "refs_ok G"
    and q: "refs G r = Some q" "ref_fieldData q = (s, i)"
    and p: "refs G other = Some p" "ref_fieldData p = (t, j)" and ne: "t \<noteq> s"
    and assign: "assignRef r other G = Inr G1" and grow: "increaseCapacity s G1 = Inr G2"
  shows "\<exists>x f g. refs G2 r = Some x \<and> ref_fieldData x = (t, j) \<and> getFieldAt G2 (t, j) = Inr g \<and>
    getFieldAt G2 (s, i) = Inr f \<and> ref_data x = fd_data f \<and> ref_data x \<noteq> fd_data g"
proof -
  obtain f where f: "getFieldAt G (s, i) = Inr f" "r \<in> set (fieldReferences f)"
    using refs_okD(1) [OF rok q(1)] q(2) by auto
  obtain g where g: "getFieldAt G (t, j) = Inr g" using refs_okD(1) [OF rok p(1)] p(2) by auto
  obtain S where S: "sets G s = Some S" "i < length (set_fields S)" "set_fields S ! i = f"
    using f(1) by (auto simp: result_simps)
  let ?g = "g\<lparr>fieldReferences := List.insert r (fieldReferences g)\<rparr>"
  have "getFieldAt (G\<lparr>refs := (refs G)(r \<mapsto> p)\<rparr>) (t, j) = Inr g" using g by (simp add: getFieldAt_def)
  then have put: "putField (t, j) ?g (G\<lparr>refs := (refs G)(r \<mapsto> p)\<rparr>) = Inr G1"
    using assign q p by (simp add: assignRef_def copyRef_def registerRef_def)
  note G1 = registry_ok [OF ok g put]
  have S1: "sets G1 s = Some S" and nb1: "nextBlock G1 = nextBlock G"
    using put S(1) ne by (auto simp: putField_def putSet_def rbind_eq_Inr deref_eq_Inr split: if_splits)
  let ?n = "length (set_fields S)"
  obtain H where H: "grown s S ?n G1 H" and G2: "G2 = putSet s (S\<lparr>set_fields :=
      grown_fields (nextBlock G1) ?n (set_fields S), capacity := capacity S + capacityIncrement\<rparr>) H"
    using increaseCapacity_ok [OF S1 graph_okD(2) [OF G1(1) S1]] grow by auto
  have "r \<notin> set (fieldReferences (set_fields S ! k))" if k: "i < k" "k < ?n" for k
  proof
    assume "r \<in> set (fieldReferences (set_fields S ! k))"
    moreover have "getFieldAt G (s, k) = Inr (set_fields S ! k)" using S(1) k by (simp add: result_simps)
    ultimately have "ref_fieldData q = (s, k)" using refs_okD(2) [OF rok] q(1) by fastforce
    with q(2) k show False by simp
  qed
  moreover have "refs G1 r = Some p" using G1(2) by simp
  ultimately have "refs G2 r = Some (p\<lparr>ref_data := nextBlock G + i\<rparr>)"
    using H S f(2) nb1 by (simp add: G2 putSet_def grown_def Let_def)
  moreover have "getFieldAt G2 (s, i) = Inr (f\<lparr>fd_data := nextBlock G + i\<rparr>)"
    using S nb1 by (simp add: G2 putSet_def getFieldAt_def nth_grown_fields)
  moreover have "getFieldAt G2 (t, j) = Inr ?g"
    using H ne G1(3) [of "(t, j)"] by (simp add: G2 putSet_def getFieldAt_def grown_def Let_def deref_def)
  moreover have "fd_data g < nextBlock G"
  proof -
    obtain T where T: "sets G t = Some T" "g \<in> set (set_fields T)" using g by (auto simp: result_simps)
    from graph_okD(2) [OF ok T(1)] T(2) show ?thesis by (simp add: buffers_ok_def)
  qed
  ultimately show ?thesis using p(2) by simp
qed

definition sample_fields :: graph where
  "sample_fields = (case addField 1 CT_Double [] ''w'' 8 sample_field of Inr G \<Rightarrow> G | Inl _ \<Rightarrow> no_sets)"

lemma sample_fields_sets1: "\<exists>S. sets sample_field 1 = Some S \<and> set_fields S = []"
  by (simp add: sample_field_def addField_def sample_graph_sets Let_def putSet_def)
    (simp add: sample_graph_def newSet_def putSet_def Set_edges_def Set_init_def Let_def)

lemma sample_fields_eq: "addField 1 CT_Double [] ''w'' 8 sample_field = Inr sample_fields"
  using sample_fields_sets1 by (auto simp: sample_fields_def addField_def Let_def)

lemma sample_fields_ok: "graph_ok sample_fields" "refs_ok sample_fields"
proof -
  have "refs sample_field 8 = None"
    by (simp add: sample_field_def addField_def sample_graph_sets Let_def putSet_def)
      (simp add: sample_graph_def newSet_def putSet_def no_sets_def)
  with sample_field_ok sample_fields_eq show "graph_ok sample_fields" "refs_ok sample_fields"
    using addField_ok addField_refs_ok by blast+
qed

lemma sample_fields_refs:
  "\<exists>q. refs sample_fields 7 = Some q \<and> ref_fieldData q = (0, 0)"
  "\<exists>q. refs sample_fields 8 = Some q \<and> ref_fieldData q = (1, 0)"
proof -
  obtain S where S: "sets sample_field 1 = Some S" "set_fields S = []" using sample_fields_sets1 by blast
  have "refs sample_fields = (refs sample_field)(8 \<mapsto> \<lparr>ref_fieldData = (1, 0), ref_data = nextBlock sample_field\<rparr>)"
    using S by (simp add: sample_fields_def addField_def Let_def putSet_def)
  then show "\<exists>q. refs sample_fields 7 = Some q \<and> ref_fieldData q = (0, 0)"
    "\<exists>q. refs sample_fields 8 = Some q \<and> ref_fieldData q = (1, 0)"
    by (simp_all add: sample_field_refs)
qed

theorem assigned_ref_goes_stale_witness:
  "\<exists>G1 G2 x f g. assignRef 7 8 sample_fields = Inr G1 \<and> increaseCapacity 0 G1 = Inr G2 \<and>
     refs G2 7 = Some x \<and> ref_fieldData x = (1, 0) \<and> getFieldAt G2 (1, 0) = Inr g \<and>
     getFieldAt G2 (0, 0) = Inr f \<and> ref_data x = fd_data f \<and> ref_data x \<noteq> fd_data g"
proof -
  obtain q p where q: "refs sample_fields 7 = Some q" "ref_fieldData q = (0, 0)"
    and p: "refs sample_fields 8 = Some p" "ref_fieldData p = (1, 0)" using sample_fields_refs by blast
  obtain f g where f: "getFieldAt sample_fields (0, 0) = Inr f" and g: "getFieldAt sample_fields (1, 0) = Inr g"
    using refs_okD(1) [OF sample_fields_ok(2) q(1)] refs_okD(1) [OF sample_fields_ok(2) p(1)] q(2) p(2) by auto
  let ?R = "(refs sample_fields)(7 \<mapsto> p)"
  obtain G1 where put: "putField (1, 0) (g\<lparr>fieldReferences := List.insert 7 (fieldReferences g)\<rparr>)
      (sample_fields\<lparr>refs := ?R\<rparr>) = Inr G1"
    using g by (auto simp: putField_def result_simps)
  have "getFieldAt (sample_fields\<lparr>refs := ?R\<rparr>) (1, 0) = Inr g" using g by (simp add: getFieldAt_def)
  then have a: "assignRef 7 8 sample_fields = Inr G1"
    using put q p by (simp add: assignRef_def copyRef_def registerRef_def)
  have ok1: "graph_ok G1" by (rule registry_ok(1) [OF sample_fields_ok(1) g put])
  have "getFieldAt G1 (0, 0) = Inr f" using registry_ok(3) [OF sample_fields_ok(1) g put, of "(0, 0)"] f by simp
  then obtain S where S: "sets G1 0 = Some S" by (auto simp: result_simps)
  obtain G2 where "increaseCapacity 0 G1 = Inr G2"
    using increaseCapacity_ok [OF S graph_okD(2) [OF ok1 S]] by blast
  with a assigned_ref_goes_stale [OF sample_fields_ok q p _ a, of G2] show ?thesis by auto
qed

section \<open>Loops over elements and endpoints\<close>

lemma iterate_from_upto: "a \<le> b \<Longrightarrow> iterate_from a b = Some [a..b - 1]"
proof (induction "nat (b - a)" arbitrary: a)
  case 0
  then show ?case by (subst iterate_from.simps) simp
next
  case (Suc n)
  then have "iterate_from (a + 1) b = Some [a + 1..b - 1]" by simp
  with Suc show ?case by (subst iterate_from.simps) (auto simp: upto_rec1)
qed

lemma iterate_from_beyond: "b < a \<Longrightarrow> iterate_from a b = None"
proof (rule ccontr)
  assume "b < a" and "iterate_from a b \<noteq> None"
  then obtain es where "iterate_from a b = Some es" by auto
  from iterate_from.raw_induct [where P = "\<lambda>cur stop es. cur \<le> stop", OF _ this] have "a \<le> b"
    by (fastforce split: if_splits Option.bind_splits)
  with \<open>b < a\<close> show False by simp
qed

text \<open>
  The range loop over a set visits the elements 0, 1, ..., size-1 in this order; it ends exactly
  when the element count is not negative (a removal from an empty set makes it negative).
\<close>
theorem elements_in_order:
  "elements S = (if 0 \<le> numElements S then Some [0..numElements S - 1] else None)"
  by (simp add: elements_def iterate_from_upto iterate_from_beyond)

lemma endpoint_loop_ok:
  assumes "e < numElements S" "e = int i" and "length (endpoints S) = cap * getCardinality S" "i < cap"
    and "k + left = getCardinality S" and "left > 0 \<Longrightarrow> retElem it = endpoints S ! (i * getCardinality S + k)"
    and "curElem it = e" "endpointNum it = k"
  shows "endpoint_loop S left it =
    Inr (map (\<lambda>k. endpoints S ! (i * getCardinality S + k)) [k..<getCardinality S])"
  using assms(5-)
proof (induction left arbitrary: k it)
  case (Suc left)
  let ?c = "getCardinality S"
  let ?r = "if left > 0 then endpoints S ! (i * ?c + Suc k) else Some (-1)"
  have b: "i * ?c + Suc k < length (endpoints S)" if "left > 0"
    using mixed_radix_less [of i cap "Suc k" ?c] that Suc.prems(1) assms(3,4) by simp
  have mc: "mem_cell (endpoints S) (int i * int ?c + int (Suc k)) = Inr (endpoints S ! (i * ?c + Suc k))"
    if "left > 0"
    using mem_cell_at [OF b [OF that]] by (simp add: algebra_simps)
  have "iterator_next S it = Inr (it\<lparr>endpointNum := Suc k, retElem := ?r\<rparr>)"
    using Suc.prems mc assms(2) by (auto simp: iterator_next_def Let_def)
  moreover have "endpoint_loop S left (it\<lparr>endpointNum := Suc k, retElem := ?r\<rparr>) =
      Inr (map (\<lambda>k. endpoints S ! (i * ?c + k)) [Suc k..<?c])"
    using Suc.prems by (intro Suc.IH) simp_all
  moreover have "[k..<?c] = k # [Suc k..<?c]" using Suc.prems(1) by (simp add: upt_conv_Cons)
  ultimately show ?case using Suc.prems(2) by simp
qed simp

lemma getEndpoints_eq:
  assumes ok: "graph_ok G" and S: "sets G s = Some S" and e: "0 \<le> e" "e < numElements S"
    and c: "0 < getCardinality S"
  shows "getEndpoints S e =
    (if e + 1 < int (capacity S) then Inr (map Some (edges_of G s ! nat e)) else Inl Undefined)"
proof -
  let ?c = "getCardinality S"
  define i where "i = nat e"
  have i: "e = int i" "i < nat (numElements S)" using e by (simp_all add: i_def)
  have len: "length (endpoints S) = capacity S * ?c" and cap: "i < capacity S"
    using graph_okD(1) [OF ok S] i by (auto simp: set_ok_def)
  have first: "mk_iterator S e 0 = Inr \<lparr>curElem = e, retElem = endpoints S ! (i * ?c), endpointNum = 0\<rparr>"
    using c i(1) mem_cell_at [of "i * ?c" "endpoints S"] mixed_radix_less [OF cap c] len
    by (simp add: mk_iterator_def getEndpoint_def)
  have edge: "map (\<lambda>k. endpoints S ! (i * ?c + k)) [0..<?c] = map Some (edges_of G s ! i)"
  proof -
    have "endpoints S ! (i * ?c + k) \<noteq> None" if "k < ?c" for k
      using graph_okD(1) [OF ok S] mixed_radix_less [OF i(2) that] by (simp add: set_ok_def)
    then show ?thesis using S i(2) by (simp add: edges_of_def edge_at_def option.expand)
  qed
  show ?thesis
  proof (cases "Suc i < capacity S")
    case True
    then have "i * ?c + ?c < length (endpoints S)" using mixed_radix_less [OF True c] len by simp
    then have "mk_iterator S e ?c = Inr \<lparr>curElem = e, retElem = endpoints S ! (i * ?c + ?c), endpointNum = ?c\<rparr>"
      using c i(1) mem_cell_at [of "i * ?c + ?c" "endpoints S"] by (simp add: mk_iterator_def getEndpoint_def)
    with first True edge i endpoint_loop_ok [OF e(2) i(1) len cap, of 0 ?c] show ?thesis
      by (simp add: getEndpoints_def)
  next
    case False
    with cap have "capacity S = Suc i" by simp
    with len have "mk_iterator S e ?c = Inl Undefined"
      using c i(1) by (simp add: mk_iterator_def getEndpoint_def mem_cell_def nat_add_distrib nat_mult_distrib)
    with first False i(1) show ?thesis by (simp add: getEndpoints_def)
  qed
qed

text \<open>
  Iterating over the endpoints of an edge yields its endpoints in order, except for the edge in
  the last slot of a full array: there building the end iterator reads past the array.
\<close>
theorem getEndpoints_last_slot:
  assumes "graph_ok G" and "sets G s = Some S" and "0 \<le> e" "e < numElements S"
    and "0 < getCardinality S"
  shows "getEndpoints S e =
    (if e + 1 < int (capacity S) then Inr (map Some (edges_of G s ! nat e)) else Inl Undefined)"
  using assms by (rule getEndpoints_eq)

definition sample_edge :: set_data where
  "sample_edge = (Set_edges ''edges'' [0])\<lparr>endpoints := Some (-1) # replicate 1023 (Some 0), numElements := 1\<rparr>"

lemma sample_edge_add: "add 1 [-1] sample_graph = Inr (0, putSet 1 sample_edge sample_graph)"
proof -
  have r: "replicate 1024 (Some (0 :: int)) = Some 0 # replicate 1023 (Some 0)"
    using replicate_Suc [of 1023 "Some (0 :: int)"] by simp
  have s0: "sets sample_graph 0 = Some (Set_edges ''points'' [])"
    "sets sample_graph (Suc 0) = Some (Set_edges ''edges'' [0])"
    using sample_graph_sets by simp_all
  show ?thesis
    by (simp add: add_def s0 Set_edges_def Set_init_def Let_def getCardinality_def capacityIncrement_def
        calloc_cells_def mem_write_def putSet_def sample_edge_def r)
qed

theorem getEndpoints_last_slot_witness: "getEndpoints sample_edge 0 = Inr [Some (-1)]"
proof -
  let ?G = "putSet 1 sample_edge sample_graph"
  have ok: "graph_ok ?G" using add_preserves [OF _ sample_edge_add] sample_graph_ok by simp
  have S: "sets ?G 1 = Some sample_edge" by (simp add: putSet_def)
  have e: "edges_of ?G 1 = [[-1]]" by (simp add: edges_of_def putSet_def sample_edge_def edge_at_def
        getCardinality_def Set_edges_def Set_init_def Let_def)
  have "0 < getCardinality sample_edge" "numElements sample_edge = 1" "capacity sample_edge = 1024"
    by (simp_all add: sample_edge_def getCardinality_def Set_edges_def Set_init_def Let_def capacityIncrement_def)
  with getEndpoints_last_slot [OF ok S, of 0] e show ?thesis by simp
qed

lemma rfold_constant: "rfold (\<lambda>_. f x) [0..<n] s = rfold f (replicate n x) s"
proof -
  have "map (\<lambda>_. x) [0..<n] = replicate n x" by (simp add: map_replicate_const)
  then show ?thesis using rfold_map [of f "\<lambda>_. x" "[0..<n]" s] by simp
qed

text \<open>
  Creating elements adds exactly the requested number of them to a set without endpoints, in a
  well-formed store, whatever the capacity was, and changes no other set.
\<close>
theorem createElements_adds:
  assumes ok: "graph_ok G" and S: "sets G s = Some S" and c: "endpointSets S = []"
  shows "\<exists>G' S'. createElements s num G = Inr G' \<and> graph_ok G' \<and> sets G' s = Some S' \<and>
    numElements S' = numElements S + int num \<and> (\<forall>t. t \<noteq> s \<longrightarrow> sets G' t = sets G t)"
proof -
  have inv: "unchanged_but s G G" using ok S by (auto simp: unchanged_but_def)
  have "valid_edge s G []" using S c by (simp add: valid_edge_def valid_endpoints_def)
  then obtain G' where G': "createElements s num G = Inr G'" "unchanged_but s G G'"
    "edges_of G' s = edges_of G s @ replicate num []"
    using edge_set.push_sequence [OF inv, of "replicate num []"]
      rfold_constant [of "\<lambda>eps G. rbind (add s eps G) (\<lambda>r. Inr (snd r))" "[]" num G]
    by (auto simp: createElements_def)
  then obtain S' where S': "sets G' s = Some S'" by (auto simp: unchanged_but_def)
  have ok': "graph_ok G'" using G'(2) by (simp add: unchanged_but_def)
  have "0 \<le> numElements S" "0 \<le> numElements S'"
    using graph_okD(1) [OF ok S] graph_okD(1) [OF ok' S'] by (simp_all add: set_ok_def)
  moreover have "nat (numElements S') = nat (numElements S) + num"
    using arg_cong [OF G'(3), of length] by (simp add: length_edges_of S S')
  ultimately have "numElements S' = numElements S + int num" by linarith
  with G' S' ok' show ?thesis by (auto simp: unchanged_but_def)
qed

theorem createElements_adds_witness:
  "\<exists>G' S'. createElements 0 3000 sample_graph = Inr G' \<and> sets G' 0 = Some S' \<and> numElements S' = 3000"
  using createElements_adds [OF conjunct1 [OF sample_graph_ok] sample_graph_sets(1), of 3000]
  by (auto simp: Set_edges_def Set_init_def Let_def)

section \<open>Removal\<close>

lemma removeLoop:
  assumes "distinct (map fd_data fs)" and "0 < n"
    and "\<And>f. f \<in> set fs \<Longrightarrow> \<exists>m. blocks G (fd_data f) = Some m \<and> i < length m \<and> n - 1 < length m"
  shows "\<exists>G'. rfold (removeFromField (int i) (int n)) fs G = Inr G' \<and> sets G' = sets G \<and>
    (\<forall>f \<in> set fs. blocks G' (fd_data f) = map_option (\<lambda>m. m[i := m ! (n - 1)]) (blocks G (fd_data f))) \<and>
    (\<forall>b. b \<notin> fd_data ` set fs \<longrightarrow> blocks G' b = blocks G b)"
  using assms
proof (induction fs arbitrary: G)
  case (Cons f fs)
  obtain m where m: "blocks G (fd_data f) = Some m" "i < length m" "n - 1 < length m"
    using Cons.prems(3) by auto
  let ?G = "G\<lparr>blocks := (blocks G)(fd_data f \<mapsto> m[i := m ! (n - 1)])\<rparr>"
  have "int n - 1 = int (n - 1)" using Cons.prems(2) by simp
  then have step: "removeFromField (int i) (int n) f G = Inr ?G"
    using m by (simp add: removeFromField_def del: of_nat_diff)
  have notin: "fd_data f \<notin> fd_data ` set fs" using Cons.prems(1) by simp
  have "\<exists>m. blocks ?G (fd_data g) = Some m \<and> i < length m \<and> n - 1 < length m" if "g \<in> set fs" for g
  proof -
    have "fd_data g \<noteq> fd_data f" using that notin by (metis image_eqI)
    with Cons.prems(3) [of g] that show ?thesis by simp
  qed
  with Cons.IH [of ?G] Cons.prems(1,2) obtain G' where G': "rfold (removeFromField (int i) (int n)) fs ?G = Inr G'"
    "sets G' = sets ?G"
    "\<forall>f \<in> set fs. blocks G' (fd_data f) = map_option (\<lambda>m. m[i := m ! (n - 1)]) (blocks ?G (fd_data f))"
    "\<forall>b. b \<notin> fd_data ` set fs \<longrightarrow> blocks G' b = blocks ?G b"
    by auto
  have "blocks G' (fd_data g) = map_option (\<lambda>m. m[i := m ! (n - 1)]) (blocks G (fd_data g))"
    if "g \<in> set (f # fs)" for g
  proof (cases "g \<in> set fs")
    case True
    with notin have "fd_data g \<noteq> fd_data f" by (metis image_eqI)
    with True G'(3) show ?thesis by simp
  next
    case False
    with that have "g = f" by simp
    with G'(4) notin m(1) show ?thesis by simp
  qed
  with step G' show ?case by auto
qed simp

text \<open>
  C30. Removing an element copies, in every field buffer, the component with the index of the last
  element over the component with the index of the removed one and shortens the set by one. With one
  component per element this moves the last element into the gap; with more it moves one component
  to an unrelated place. The endpoints are not moved: it is always the last edge that disappears.
\<close>
theorem remove_effect:
  assumes ok: "graph_ok G" and S: "sets G s = Some S" and k: "kind S \<noteq> Grid"
    and e: "0 \<le> e" "e < numElements S" and sz: "\<forall>f \<in> set (set_fields S). 0 < fd_size f"
  shows "\<exists>G'. remove s e G = Inr G' \<and> edges_of G' s = butlast (edges_of G s) \<and>
    (\<forall>f \<in> set (set_fields S). blocks G' (fd_data f) =
       map_option (\<lambda>m. m[nat e := m ! (nat (numElements S) - 1)]) (blocks G (fd_data f)))"
proof -
  let ?n = "nat (numElements S)"
  have okS: "set_ok G S" and bok: "buffers_ok G S" using graph_okD [OF ok S] by simp_all
  have n: "numElements S = int ?n" "e = int (nat e)" using e by simp_all
  have "\<exists>m. blocks G (fd_data f) = Some m \<and> nat e < length m \<and> ?n - 1 < length m"
    if f: "f \<in> set (set_fields S)" for f
  proof -
    obtain m where m: "blocks G (fd_data f) = Some m" "length m = capacity S * fd_size f"
      using bok f unfolding buffers_ok_def by blast
    have "?n \<le> capacity S" using okS unfolding set_ok_def by linarith
    also have "\<dots> \<le> capacity S * fd_size f" using sz f by (cases "fd_size f") auto
    finally have "nat e < length m" "?n - 1 < length m" using m(2) e by linarith+
    with m(1) show ?thesis by blast
  qed
  moreover have "0 < ?n" using e by simp
  ultimately obtain H where H: "rfold (removeFromField (int (nat e)) (int ?n)) (set_fields S) G = Inr H"
    "sets H = sets G" "\<forall>f \<in> set (set_fields S). blocks H (fd_data f) =
       map_option (\<lambda>m. m[nat e := m ! (?n - 1)]) (blocks G (fd_data f))"
    using removeLoop [of "set_fields S" ?n G "nat e"] bok unfolding buffers_ok_def by blast
  define G' where "G' = putSet s (S\<lparr>numElements := numElements S - 1\<rparr>) H"
  have "remove s e G = Inr G'" using S k H(1) e n by (simp add: remove_def G'_def)
  moreover have "edges_of G' s = butlast (edges_of G s)"
  proof -
    obtain k where "?n = Suc k" using \<open>0 < ?n\<close> gr0_implies_Suc by blast
    moreover from this have "nat (numElements S - 1) = k" by simp
    moreover have "edge_at (S\<lparr>numElements := numElements S - 1\<rparr>) = edge_at S"
      by (rule ext) (simp add: edge_at_def getCardinality_def)
    ultimately show ?thesis using S by (simp add: edges_of_def G'_def putSet_def)
  qed
  moreover have "blocks G' = blocks H" by (simp add: G'_def putSet_def)
  ultimately show ?thesis using H(3) by auto
qed

theorem remove_effect_witness:
  "\<exists>G'. remove 1 0 (putSet 1 sample_edge sample_graph) = Inr G' \<and> edges_of G' 1 = []"
proof -
  let ?G = "putSet 1 sample_edge sample_graph"
  have ok: "graph_ok ?G" using add_preserves [OF _ sample_edge_add] sample_graph_ok by simp
  have S: "sets ?G 1 = Some sample_edge" by (simp add: putSet_def)
  have "edges_of ?G 1 = [[-1]]" by (simp add: edges_of_def putSet_def sample_edge_def edge_at_def
        getCardinality_def Set_edges_def Set_init_def Let_def)
  with remove_effect [OF ok S, of 0] show ?thesis
    by (auto simp: sample_edge_def Set_edges_def Set_init_def Let_def)
qed

text \<open>
  A moved-from field reference must not be destroyed: the move constructor swaps uninitialised
  members into it, so that its destructor follows a pointer that was never set.
\<close>
theorem moved_from_ref_undefined:
  assumes "r \<noteq> other" and "moveRef r other G = Inr G'"
  shows "destroyRef other G' = Inl Undefined"
proof -
  have "refs G' other = None"
    using assms by (auto simp: moveRef_def unregisterRef_def registerRef_def putField_def putSet_def
        rbind_eq_Inr deref_eq_Inr split: if_splits)
  then show ?thesis by (simp add: destroyRef_def)
qed

theorem moved_from_ref_undefined_witness:
  "\<exists>G'. moveRef 9 7 sample_field = Inr G' \<and> destroyRef 7 G' = Inl Undefined"
proof -
  obtain S f where S: "sets sample_field 0 = Some S" "set_fields S = [f]"
    using sample_field_sets by auto
  then obtain G' where "moveRef 9 7 sample_field = Inr G'"
    by (auto simp: moveRef_def unregisterRef_def registerRef_def putField_def putSet_def getFieldAt_def
        sample_field_refs)
  with moved_from_ref_undefined [of 9 7 sample_field G'] show ?thesis by simp
qed

end
