(* ===== verification/Grid.thy ===== *)
theory Grid
  imports Graph_Correct "HOL-Library.Signed_Division"
begin

text \<open>
  Structured graphs of \<^verbatim>\<open>src/src/graph.h\<close> and \<^verbatim>\<open>graph.cpp\<close>: the constructor of grid edge sets with the
  lookups by coordinates, and the box generator. Both fill sets through \<open>add\<close>; the arrays of element
  references they keep are lists of identifiers, where \<^verbatim>\<open>calloc\<close> leaves identifier 0.
\<close>

section \<open>Definitions\<close>

subsection \<open>Grid edge sets\<close>

definition cumulativeDims :: "int list \<Rightarrow> int \<times> int list" where
  "cumulativeDims dims = fold (\<lambda>d (total, cum). (total * d, cum @ [total * d])) dims (1, [])"

definition list_write :: "'a list \<Rightarrow> nat \<Rightarrow> 'a \<Rightarrow> 'a list result" where
  "list_write xs i v = (if i < length xs then Inr (xs[i := v]) else Inl Undefined)"

text \<open>The bodies of the two loops; their state is the counter and the store.\<close>

definition gridPointBody :: "nat \<Rightarrow> nat \<Rightarrow> nat list \<Rightarrow> nat \<times> graph \<Rightarrow> (nat \<times> graph) result" where
  "gridPointBody this points indices st =
     rbind (add points [] (snd st)) (\<lambda>r.
     rbind (getSet (snd r) this) (\<lambda>S.
     rbind (list_write (gridPoints S) (fst st) (fst r)) (\<lambda>ps.
     Inr (fst st + 1, putSet this (S\<lparr>gridPoints := ps\<rparr>) (snd r)))))"

definition gridEdgeBody ::
  "nat \<Rightarrow> int \<Rightarrow> int list \<Rightarrow> nat list \<Rightarrow> nat \<times> graph \<Rightarrow> (nat \<times> graph) result" where
  "gridEdgeBody this totalPoints cumDims indices st =
     rbind (nth_result cumDims (last indices)) (\<lambda>off.
     rbind (getSet (snd st) this) (\<lambda>S.
     rbind (nth_result (gridPoints S) (nat (int (fst st) mod totalPoints))) (\<lambda>p.
     rbind (nth_result (gridPoints S) (nat ((int (fst st) + off) mod totalPoints))) (\<lambda>q.
     rbind (add this [p, q] (snd st)) (\<lambda>r.
     rbind (getSet (snd r) this) (\<lambda>S'.
     rbind (list_write (gridEdges S') (fst st) (fst r)) (\<lambda>es.
     Inr (fst st + 1, putSet this (S'\<lparr>gridEdges := es\<rparr>) (snd r)))))))))"

definition Set_grid :: "nat \<Rightarrow> string \<Rightarrow> nat \<Rightarrow> int list \<Rightarrow> graph \<Rightarrow> graph result" where
  "Set_grid this name points dims G =
     uassert (length dims > 0) ''Grid Edge Set constructor takes an optional name followed by the underlying point set and a vector of integer dimension sizes''
       (rbind (getSet G points) (\<lambda>P.
        uassert (numElements P = 0) ''Grid Edge Set constructor must be passed an empty underlying point set, which it will then proceed to initialize.''
          (let totalPoints = fst (cumulativeDims dims); cumDims = snd (cumulativeDims dims);
               S = (Set_init name Grid)\<lparr>endpointSets := [points, points]\<rparr>;
               S' = S\<lparr>endpoints := calloc_cells (capacity S * getCardinality S) 0, dimensions := dims,
                       underlyingPointSet := Some points,
                       gridPoints := replicate (nat totalPoints) 0,
                       gridEdges := replicate (nat (totalPoints * int (length dims))) 0\<rparr>
           in rbind (variableLoop dims [] (gridPointBody this points) (0, putSet this S' G)) (\<lambda>st.
              rbind (variableLoop (dims @ [int (length dims)]) [] (gridEdgeBody this totalPoints cumDims)
                       (0, snd st)) (\<lambda>st'.
              Inr (snd st'))))))"

definition gridIndex :: "int list \<Rightarrow> int list \<Rightarrow> int" where
  "gridIndex dims coords = foldr (\<lambda>(d, c) index. index * d + c) (zip dims coords) 0"

definition getGridPoint :: "set_data \<Rightarrow> int list \<Rightarrow> int result" where
  "getGridPoint S coords =
     uassert (kind S = Grid) ''Cannot retrieve grid point of non-grid set''
       (uassert (length coords = length (dimensions S)) ''Must provide number of coords equal to the number of dimensions''
          (let index = gridIndex (dimensions S) coords; totalSize = foldr (\<lambda>d t. t * d) (dimensions S) 1 in
           uassert (index \<ge> 0 \<and> index < totalSize) ''Coordinates must not be negative and must fall within the grid dimensions''
             (nth_result (gridPoints S) (nat index))))"

definition getGridEdge :: "set_data \<Rightarrow> int list \<Rightarrow> int \<Rightarrow> int result" where
  "getGridEdge S coords dir =
     uassert (kind S = Grid) ''Cannot retrieve grid edge of non-grid set''
       (uassert (length coords = length (dimensions S)) ''Must provide number of coords equal to dimensions''
          (let d = int (length (dimensions S));
               index = gridIndex (dimensions S) coords * d + dir;
               totalSize = foldr (\<lambda>d t. t * d) (dimensions S) 1 * d in
           uassert (index \<ge> 0 \<and> index < totalSize) ''Coordinates must not be negative and must fall within the grid dimensions''
             (nth_result (gridEdges S) (nat index))))"

text \<open>The quotient and remainder of C++ truncate; a dimension of size 0 divides by zero.\<close>

fun gridCoords :: "int list \<Rightarrow> int \<Rightarrow> int list result" where
  "gridCoords [] index = Inr []"
| "gridCoords (dimSize # dims) index =
     (if dimSize = 0 then Inl Undefined
      else rbind (gridCoords dims (index sdiv dimSize)) (\<lambda>coords. Inr (index smod dimSize # coords)))"

definition getGridPointCoords :: "set_data \<Rightarrow> int \<Rightarrow> int list result" where
  "getGridPointCoords S elt =
     uassert (kind S = Grid) ''Cannot retrieve grid point coords of non-grid set''
       (rbind (gridCoords (dimensions S) elt) (\<lambda>coords.
        iassert (length coords = length (dimensions S)) ''coords.size() == dimensions.size()'' (Inr coords)))"

subsection \<open>Boxes\<close>

record box =
  nX :: nat
  nY :: nat
  nZ :: nat
  box_refs :: "int list"
  coords2edges :: "((int \<times> int) \<times> int) list"

text \<open>\<^verbatim>\<open>std::map\<close> keyed by pairs of element references, as a list sorted by key; assignment by key.\<close>

definition coord_less :: "int \<times> int \<Rightarrow> int \<times> int \<Rightarrow> bool" where
  "coord_less a b = (fst a < fst b \<or> \<not> fst b < fst a \<and> snd a < snd b)"

fun coord_assign :: "int \<times> int \<Rightarrow> int \<Rightarrow> ((int \<times> int) \<times> int) list \<Rightarrow> ((int \<times> int) \<times> int) list" where
  "coord_assign k v [] = [(k, v)]"
| "coord_assign k v ((k', v') # m) =
     (if coord_less k k' then (k, v) # (k', v') # m
      else if coord_less k' k then (k', v') # coord_assign k v m
      else (k', v) # m)"

definition mk_box :: "nat \<Rightarrow> nat \<Rightarrow> nat \<Rightarrow> int list \<Rightarrow> ((int \<times> int) \<times> int) list \<Rightarrow> box result" where
  "mk_box x y z rs m =
     iassert (length rs = x * y * z) ''refs.size() == nX*nY*nZ''
       (Inr \<lparr>nX = x, nY = y, nZ = z, box_refs = rs, coords2edges = m\<rparr>)"

definition box_at :: "box \<Rightarrow> nat \<Rightarrow> nat \<Rightarrow> nat \<Rightarrow> int result" where
  "box_at b x y z = nth_result (box_refs b) (z * nY b * nX b + y * nX b + x)"

definition getEdge :: "box \<Rightarrow> int \<Rightarrow> int \<Rightarrow> int" where
  "getEdge b p1 p2 = (case map_of (coords2edges b) (p1, p2) of None \<Rightarrow> -1 | Some e \<Rightarrow> e)"

definition getEdges :: "box \<Rightarrow> int list" where
  "getEdges b = map snd (coords2edges b)"

text \<open>The triple loops, as lists of the index triples in loop order; \<open>node0\<close> and its neighbours.\<close>

definition triples :: "nat \<Rightarrow> nat \<Rightarrow> nat \<Rightarrow> (nat \<times> nat \<times> nat) list" where
  "triples a b c = concat (map (\<lambda>x. concat (map (\<lambda>y. map (\<lambda>z. (x, y, z)) [0..<c]) [0..<b])) [0..<a])"

definition node0 :: "nat \<Rightarrow> nat \<Rightarrow> nat \<times> nat \<times> nat \<Rightarrow> nat" where
  "node0 numY numZ p = (case p of (x, y, z) \<Rightarrow> x * numY * numZ + y * numZ + z)"

definition boxPointBody ::
  "nat \<Rightarrow> nat \<Rightarrow> nat \<Rightarrow> nat \<times> nat \<times> nat \<Rightarrow> int list \<times> graph \<Rightarrow> (int list \<times> graph) result" where
  "boxPointBody vertices numY numZ p st =
     rbind (add vertices [] (snd st)) (\<lambda>r.
     rbind (list_write (fst st) (node0 numY numZ p) (fst r)) (\<lambda>ps. Inr (ps, snd r)))"

definition boxEdgeBody ::
  "nat \<Rightarrow> int list \<Rightarrow> nat \<times> nat \<Rightarrow> ((int \<times> int) \<times> int) list \<times> graph \<Rightarrow>
   (((int \<times> int) \<times> int) list \<times> graph) result" where
  "boxEdgeBody edges points nodes st =
     rbind (nth_result points (fst nodes)) (\<lambda>p.
     rbind (nth_result points (snd nodes)) (\<lambda>q.
     rbind (add edges [p, q] (snd st)) (\<lambda>r. Inr (coord_assign (p, q) (fst r) (fst st), snd r))))"

definition boxNodes :: "nat \<Rightarrow> nat \<Rightarrow> nat \<Rightarrow> (nat \<times> nat) list" where
  "boxNodes numX numY numZ =
     map (\<lambda>(x, y, z). (node0 numY numZ (x, y, z), node0 numY numZ (x + 1, y, z))) (triples (numX - 1) numY numZ) @
     map (\<lambda>(x, y, z). (node0 numY numZ (x, y, z), node0 numY numZ (x, y + 1, z))) (triples numX (numY - 1) numZ) @
     map (\<lambda>(x, y, z). (node0 numY numZ (x, y, z), node0 numY numZ (x, y, z + 1))) (triples numX numY (numZ - 1))"

definition createBox :: "nat \<Rightarrow> nat \<Rightarrow> nat \<Rightarrow> nat \<Rightarrow> nat \<Rightarrow> graph \<Rightarrow> (box \<times> graph) result" where
  "createBox vertices edges numX numY numZ G =
     uassert (numX \<ge> 1 \<and> numY \<ge> 1 \<and> numZ \<ge> 1) ''numX >= 1 && numY >= 1 && numZ >= 1''
       (rbind (rfold (boxPointBody vertices numY numZ) (triples numX numY numZ)
                (replicate (numX * numY * numZ) (-1), G)) (\<lambda>st.
        rbind (rfold (boxEdgeBody edges (fst st)) (boxNodes numX numY numZ) ([], snd st)) (\<lambda>st'.
        rbind (mk_box numX numY numZ (fst st) (fst st')) (\<lambda>b. Inr (b, snd st')))))"

end
