(* ===== verification/Grid_Correct.thy ===== *)
theory Grid_Correct
  imports Grid
begin

text \<open>
  The shape of the graphs built by the grid constructor and by the box generator, and the lookups by
  coordinates.
\<close>

section \<open>Dimensions\<close>

lemma cumulativeDims_fold:
  "fold (\<lambda>d (tot, cum). (tot * d, cum @ [tot * d])) dims (t, cum) =
     (t * prod_list dims, cum @ map (\<lambda>j. t * prod_list (take (Suc j) dims)) [0..<length dims])"
proof (induction dims arbitrary: t cum)
  case (Cons d dims)
  have "map (\<lambda>j. t * prod_list (take (Suc j) (d # dims))) [0..<length (d # dims)] =
      t * d # map (\<lambda>j. t * d * prod_list (take (Suc j) dims)) [0..<length dims]"
    unfolding list.size(4) add_Suc_right add_0_right upt_conv_Cons [OF zero_less_Suc]
    by (simp add: map_Suc_upt [symmetric] comp_def mult.assoc del: upt_Suc)
  then show ?case by (simp add: Cons.IH mult.assoc)
qed simp

lemma cumulativeDims_eq:
  "cumulativeDims dims = (prod_list dims, map (\<lambda>j. prod_list (take (Suc j) dims)) [0..<length dims])"
  by (simp add: cumulativeDims_def cumulativeDims_fold)

lemma prod_list_pos: "list_all (\<lambda>d. 0 < d) dims \<Longrightarrow> 0 < prod_list (dims :: int list)"
  by (induction dims) simp_all

lemma total_size: "foldr (\<lambda>d t. t * d) dims 1 = prod_list (dims :: int list)"
  by (induction dims) (simp_all add: mult.commute)

lemma concat_concat: "concat (concat xss) = concat (map concat xss)"
  by (induction xss) simp_all

lemma index_vectors_snoc:
  "index_vectors (rs @ [r]) = concat (map (\<lambda>v. map (\<lambda>j. v @ [j]) [0..<nat r]) (index_vectors rs))"
proof (induction rs)
  case Nil
  show ?case by (simp add: map_concat comp_def)
next
  case (Cons a rs)
  then show ?case by (simp add: map_concat comp_def concat_concat)
qed

lemma last_index_vector:
  assumes "i < length (index_vectors (rs @ [int d]))"
  shows "last (index_vectors (rs @ [int d]) ! i) = i mod d"
proof -
  let ?bs = "map (\<lambda>v. map (\<lambda>j. v @ [j]) [0..<d]) (index_vectors rs)"
  have len: "length b = d" if "b \<in> set ?bs" for b using that by auto
  have i: "i < length (index_vectors rs) * d"
    using assms concat_blocks_length [of ?bs d, OF len] by (simp add: index_vectors_snoc)
  then have d: "0 < d" by (cases d) simp_all
  with i have "i div d < length ?bs" by (simp add: less_mult_imp_div_less)
  from concat_blocks_nth [OF len this, of "i mod d"] d show ?thesis
    using \<open>i div d < length ?bs\<close> by (simp add: index_vectors_snoc)
qed

section \<open>The grid constructor\<close>

definition grid_points_inv :: "nat \<Rightarrow> nat \<Rightarrow> set_data \<Rightarrow> nat \<Rightarrow> nat \<Rightarrow> nat \<times> graph \<Rightarrow> bool" where
  "grid_points_inv this points S0 tot k st \<longleftrightarrow>
     fst st = k \<and> graph_ok (snd st) \<and>
     (\<exists>P. sets (snd st) points = Some P \<and> numElements P = int k \<and> endpointSets P = []) \<and>
     sets (snd st) this = Some (S0\<lparr>gridPoints := map int [0..<k] @ replicate (tot - k) 0\<rparr>)"

lemma map_int_snoc_update:
  "k < tot \<Longrightarrow> (map int [0..<k] @ replicate (tot - k) 0)[k := int k] =
     map int [0..<Suc k] @ replicate (tot - Suc k) 0"
  by (rule nth_equalityI) (auto simp: nth_append nth_list_update less_Suc_eq)

lemma grid_update_ok:
  assumes ok: "graph_ok G" and S: "sets G s = Some S"
  shows "graph_ok (putSet s (S\<lparr>gridPoints := ps\<rparr>) G)" and "graph_ok (putSet s (S\<lparr>gridEdges := es\<rparr>) G)"
proof -
  have "same_set S (S\<lparr>gridPoints := ps\<rparr>)" "same_set S (S\<lparr>gridEdges := es\<rparr>)"
    using graph_okD(1) [OF ok S] by (simp_all add: same_set_def set_ok_def list_all2_refl)
  from graph_ok_sets [OF ok S this(1)] graph_ok_sets [OF ok S this(2)]
  show "graph_ok (putSet s (S\<lparr>gridPoints := ps\<rparr>) G)" and "graph_ok (putSet s (S\<lparr>gridEdges := es\<rparr>) G)"
    by (simp_all add: putSet_def)
qed

lemma gridPointBody_ok:
  assumes inv: "grid_points_inv this points S0 tot k st" and k: "k < tot" and ne: "this \<noteq> points"
  shows "\<exists>st'. gridPointBody this points v st = Inr st' \<and> grid_points_inv this points S0 tot (Suc k) st'"
proof -
  let ?G = "snd st"
  obtain P where P: "sets ?G points = Some P" "numElements P = int k" "endpointSets P = []"
    and ok: "graph_ok ?G" using inv by (auto simp: grid_points_inv_def)
  have v: "valid_endpoints ?G P []" using P(3) by (simp add: valid_endpoints_def)
  obtain P' G' where G': "add points [] ?G = Inr (int k, G')" "added points P [] ?G P' G'"
    using add_ok [OF ok P(1) v] P(2) by auto
  let ?S = "S0\<lparr>gridPoints := map int [0..<k] @ replicate (tot - k) 0\<rparr>"
  let ?S' = "S0\<lparr>gridPoints := map int [0..<Suc k] @ replicate (tot - Suc k) 0\<rparr>"
  have S: "sets G' this = Some ?S"
    using inv ne addedD(1) [OF G'(2)] by (simp add: grid_points_inv_def)
  have ok': "graph_ok G'" using added_graph_ok [OF ok P(1) G'(2)] P(3) by (simp add: getCardinality_def)
  have w: "list_write (gridPoints ?S) k (int k) = Inr (gridPoints ?S')"
    using k map_int_snoc_update [OF k] by (simp add: list_write_def)
  have body: "gridPointBody this points v st = Inr (Suc k, putSet this ?S' G')"
    using inv G'(1) S w by (simp add: gridPointBody_def grid_points_inv_def)
  have "graph_ok (putSet this ?S' G')" using grid_update_ok(1) [OF ok' S, of "gridPoints ?S'"] by simp
  moreover have "sets (putSet this ?S' G') points = Some P'"
    using ne addedD(1) [OF G'(2)] by (simp add: putSet_def)
  ultimately have "grid_points_inv this points S0 tot (Suc k) (Suc k, putSet this ?S' G')"
    using P addedD(2,3) [OF G'(2)] by (simp add: grid_points_inv_def putSet_def)
  with body show ?thesis by blast
qed

definition grid_edge :: "nat \<Rightarrow> int list \<Rightarrow> nat \<Rightarrow> int list" where
  "grid_edge tot cum e = [int (e mod tot), (int e + cum ! (e mod length cum)) mod int tot]"

definition grid_edges_inv ::
  "nat \<Rightarrow> nat \<Rightarrow> string \<Rightarrow> int list \<Rightarrow> nat \<Rightarrow> int list \<Rightarrow> nat \<Rightarrow> nat \<times> graph \<Rightarrow> bool" where
  "grid_edges_inv this points name dims tot cum k st \<longleftrightarrow>
     fst st = k \<and> graph_ok (snd st) \<and>
     (\<exists>P. sets (snd st) points = Some P \<and> numElements P = int tot) \<and>
     (\<exists>S. sets (snd st) this = Some S \<and> kind S = Grid \<and> set_name S = name \<and> dimensions S = dims \<and>
        endpointSets S = [points, points] \<and> numElements S = int k \<and> gridPoints S = map int [0..<tot] \<and>
        gridEdges S = map int [0..<k] @ replicate (tot * length cum - k) 0) \<and>
     edges_of (snd st) this = map (grid_edge tot cum) [0..<k]"

lemma edges_of_grid_update:
  "sets G s = Some S \<Longrightarrow> edges_of (putSet s (S\<lparr>gridEdges := es\<rparr>) G) t = edges_of G t"
  by (auto simp: edges_of_def putSet_def edge_at_def getCardinality_def split: option.split)

lemma gridEdgeBody_ok:
  assumes inv: "grid_edges_inv this points name dims tot cum k st" and k: "k < tot * length cum"
    and ne: "this \<noteq> points" and v: "last v = k mod length cum"
  shows "\<exists>st'. gridEdgeBody this (int tot) cum v st = Inr st' \<and>
    grid_edges_inv this points name dims tot cum (Suc k) st'"
proof -
  let ?G = "snd st" and ?n = "tot * length cum"
  have "?n \<noteq> 0" using k by linarith
  then have pos: "0 < tot" "0 < length cum" by simp_all
  have cnt: "fst st = k" and ok: "graph_ok ?G" using inv by (simp_all add: grid_edges_inv_def)
  have edges: "edges_of ?G this = map (grid_edge tot cum) [0..<k]" using inv by (simp add: grid_edges_inv_def)
  obtain P where P: "sets ?G points = Some P" "numElements P = int tot"
    using inv by (auto simp: grid_edges_inv_def)
  obtain S where S: "sets ?G this = Some S" "kind S = Grid" "set_name S = name" "dimensions S = dims"
    "endpointSets S = [points, points]" "numElements S = int k" "gridPoints S = map int [0..<tot]"
    "gridEdges S = map int [0..<k] @ replicate (?n - k) 0"
    using inv by (auto simp: grid_edges_inv_def)
  let ?off = "cum ! (k mod length cum)"
  let ?p = "int (k mod tot)" and ?q = "(int k + ?off) mod int tot"
  have off: "nth_result cum (last v) = Inr ?off" using v pos by simp
  have p: "nth_result (gridPoints S) (nat (int k mod int tot)) = Inr ?p"
    using pos S(7) by (simp add: nth_result_def zmod_int [symmetric])
  have q: "nth_result (gridPoints S) (nat ?q) = Inr ?q"
    using pos S(7) by (simp add: nth_result_def nat_less_iff)
  have ve: "valid_endpoints ?G S [?p, ?q]" using S(5) P pos by (simp add: valid_endpoints_def zmod_int)
  obtain S' G' where G': "add this [?p, ?q] ?G = Inr (int k, G')" "added this S [?p, ?q] ?G S' G'"
    using add_ok [OF ok S(1) ve] S(6) by auto
  have len: "length [?p, ?q] = getCardinality S" using S(5) by (simp add: getCardinality_def)
  have ok': "graph_ok G'" by (rule added_graph_ok [OF ok S(1) G'(2) len])
  have S': "sets G' this = Some S'" using addedD(1) [OF G'(2)] by simp
  have e': "S' = S\<lparr>numElements := numElements S + 1, endpoints := endpoints S', capacity := capacity S',
      set_fields := set_fields S'\<rparr>"
    using G'(2) by (simp add: added_def added_set_def)
  have keep: "kind S' = Grid" "set_name S' = name" "dimensions S' = dims" "gridPoints S' = map int [0..<tot]"
    "gridEdges S' = map int [0..<k] @ replicate (?n - k) 0"
    by (subst e', simp add: S)+
  let ?es = "map int [0..<Suc k] @ replicate (?n - Suc k) 0"
  have w: "list_write (gridEdges S') k (int k) = Inr ?es"
    using k map_int_snoc_update [OF k] keep(5) by (simp add: list_write_def)
  let ?st = "(Suc k, putSet this (S'\<lparr>gridEdges := ?es\<rparr>) G')"
  have body: "gridEdgeBody this (int tot) cum v st = Inr ?st"
    using cnt off p q S(1) G'(1) S' w by (simp add: gridEdgeBody_def)
  have "edges_of G' this = map (grid_edge tot cum) [0..<Suc k]"
    using added_edges [OF ok S(1) G'(2) len] edges by (simp add: grid_edge_def)
  then have "edges_of (snd ?st) this = map (grid_edge tot cum) [0..<Suc k]"
    using edges_of_grid_update [OF S'] by simp
  moreover have "graph_ok (snd ?st)"
    using grid_update_ok(2) [OF ok' S', of ?es] by simp
  moreover have "sets (snd ?st) points = Some P" using ne P(1) addedD(1) [OF G'(2)] by (simp add: putSet_def)
  ultimately have "grid_edges_inv this points name dims tot cum (Suc k) ?st"
    using P(2) S addedD(2,3) [OF G'(2)] keep by (simp add: grid_edges_inv_def putSet_def)
  with body show ?thesis by blast
qed

lemma new_grid_ok:
  assumes ok: "graph_ok G" and new: "sets G this = None" and P: "sets G points \<noteq> None"
    and S: "S = (Set_init name Grid)\<lparr>endpointSets := [points, points], endpoints := calloc_cells (2048) 0,
      dimensions := dims, underlyingPointSet := Some points, gridPoints := ps, gridEdges := es\<rparr>"
  shows "graph_ok (putSet this S G)"
proof -
  let ?E = "Set_edges name [points, points]"
  have ok1: "graph_ok (putSet this ?E G)"
    using newSet_ok [OF ok new, of "[points, points]" name] P by (simp add: newSet_def)
  have S1: "sets (putSet this ?E G) this = Some ?E" by (simp add: putSet_def)
  have "same_set ?E S"
    by (simp add: same_set_def S Set_edges_def Set_init_def Let_def getCardinality_def capacityIncrement_def)
  from graph_ok_sets [OF ok1 S1 this] show ?thesis by (simp add: putSet_def)
qed

text \<open>What the constructor builds, for positive dimensions over an empty set without endpoints.\<close>

lemma Set_grid_ok:
  assumes ok: "graph_ok G" and new: "sets G this = None" and dims: "list_all (\<lambda>d. 0 < d) dims" "dims \<noteq> []"
    and P: "sets G points = Some P" "numElements P = 0" "endpointSets P = []"
  shows "\<exists>G'. Set_grid this name points dims G = Inr G' \<and>
    grid_edges_inv this points name dims (nat (prod_list dims)) (snd (cumulativeDims dims))
      (nat (prod_list dims) * length dims) (nat (prod_list dims) * length dims, G')"
proof -
  let ?tot = "nat (prod_list dims)" and ?cum = "snd (cumulativeDims dims)"
  have pos: "0 < prod_list dims" using prod_list_pos [OF dims(1)] .
  have tot: "fst (cumulativeDims dims) = int ?tot" using pos by (simp add: cumulativeDims_eq)
  have lc: "length ?cum = length dims" by (simp add: cumulativeDims_eq)
  have ne: "this \<noteq> points" using new P(1) by auto
  define S0 where "S0 = (Set_init name Grid)\<lparr>endpointSets := [points, points], endpoints := calloc_cells (2048) 0,
      dimensions := dims, underlyingPointSet := Some points, gridPoints := replicate ?tot 0,
      gridEdges := replicate (?tot * length dims) 0\<rparr>"
  define G0 where "G0 = putSet this S0 G"
  have ok0: "graph_ok G0" unfolding G0_def using new_grid_ok [OF ok new _ S0_def] P(1) by simp
  have nn: "list_all (\<lambda>r. 0 \<le> r) dims" using dims(1) by (auto simp: list_all_iff)
  have len1: "length (index_vectors dims) = ?tot" using length_index_vectors [OF nn] by simp
  have "int (length (index_vectors (dims @ [int (length dims)]))) = int (?tot * length dims)"
    using length_index_vectors [of "dims @ [int (length dims)]"] nn pos by simp
  then have len2: "length (index_vectors (dims @ [int (length dims)])) = ?tot * length dims"
    by (simp only: of_nat_eq_iff)
  have inv0: "grid_points_inv this points S0 ?tot 0 (0, G0)"
    using ok0 P ne by (simp add: grid_points_inv_def G0_def putSet_def S0_def)
  have "\<exists>st. rfold (gridPointBody this points) (index_vectors dims) (0, G0) = Inr st \<and>
      grid_points_inv this points S0 ?tot (length (index_vectors dims)) st"
    by (rule rfold_counting [of "grid_points_inv this points S0 ?tot"])
      (use inv0 gridPointBody_ok [OF _ _ ne] len1 in auto)
  then obtain st where st: "variableLoop dims [] (gridPointBody this points) (0, G0) = Inr st"
    "grid_points_inv this points S0 ?tot ?tot st"
    using len1 by (auto simp: variableLoop_eq_rfold)
  have empty: "edges_of (snd st) this = []" "sets (snd st) this = Some (S0\<lparr>gridPoints := map int [0..<?tot]\<rparr>)"
    using st(2) by (simp_all add: grid_points_inv_def edges_of_def S0_def Set_init_def)
  have inv1: "grid_edges_inv this points name dims ?tot ?cum 0 (0, snd st)"
    using st(2) empty lc by (auto simp: grid_edges_inv_def grid_points_inv_def S0_def Set_init_def)
  have "\<exists>t. rfold (gridEdgeBody this (int ?tot) ?cum) (index_vectors (dims @ [int (length dims)])) (0, snd st) = Inr t \<and>
      grid_edges_inv this points name dims ?tot ?cum (length (index_vectors (dims @ [int (length dims)]))) t"
  proof (rule rfold_counting [of "grid_edges_inv this points name dims ?tot ?cum"])
    fix i t assume i: "i < length (index_vectors (dims @ [int (length dims)]))"
      and t: "grid_edges_inv this points name dims ?tot ?cum i t"
    show "\<exists>t'. gridEdgeBody this (int ?tot) ?cum (index_vectors (dims @ [int (length dims)]) ! i) t = Inr t' \<and>
        grid_edges_inv this points name dims ?tot ?cum (Suc i) t'"
      using gridEdgeBody_ok [OF t _ ne] last_index_vector [OF i] i len2 lc by simp
  qed (rule inv1)
  then obtain t where t: "variableLoop (dims @ [int (length dims)]) [] (gridEdgeBody this (int ?tot) ?cum) (0, snd st) = Inr t"
    "grid_edges_inv this points name dims ?tot ?cum (?tot * length dims) t"
    using len2 by (auto simp: variableLoop_eq_rfold)
  have "Set_grid this name points dims G = Inr (snd t)"
    using P dims(2) st(1) t(1) pos
    by (simp add: Set_grid_def Let_def tot getCardinality_def G0_def S0_def Set_init_def capacityIncrement_def
        nat_mult_distrib)
  moreover have "t = (?tot * length dims, snd t)" using t(2) by (cases t) (simp add: grid_edges_inv_def)
  ultimately show ?thesis using t(2) by metis
qed

section \<open>Coordinates\<close>

lemma gridIndex_Nil [simp]: "gridIndex [] cs = 0"
  by (simp add: gridIndex_def)

lemma gridIndex_Cons [simp]: "gridIndex (d # ds) (c # cs) = gridIndex ds cs * d + c"
  by (simp add: gridIndex_def)

lemma gridIndex_bounds:
  "in_bounds dims cs \<Longrightarrow> 0 \<le> gridIndex dims cs \<and> gridIndex dims cs < prod_list dims"
proof (induction dims arbitrary: cs)
  case (Cons d dims)
  then obtain c cs' where cs: "cs = c # cs'" "0 \<le> c" "c < d" "in_bounds dims cs'" by auto
  have "0 \<le> gridIndex dims cs'" "gridIndex dims cs' < prod_list dims" using Cons.IH [OF cs(4)] by simp_all
  from int_mixed_radix(1,2) [OF this cs(2,3)] show ?case by (simp add: cs(1) mult.commute)
qed simp

lemma smod_pos: "0 \<le> a \<Longrightarrow> 0 < b \<Longrightarrow> a smod b = a mod (b :: int)" "0 \<le> a \<Longrightarrow> 0 < b \<Longrightarrow> a sdiv b = a div (b :: int)"
  by (cases "a = 0"; simp add: signed_modulo_int_def signed_divide_int_def)+

lemma gridCoords_gridIndex:
  "in_bounds dims cs \<Longrightarrow> gridCoords dims (gridIndex dims cs) = Inr cs"
proof (induction dims arbitrary: cs)
  case (Cons d dims)
  then obtain c cs' where cs: "cs = c # cs'" "0 \<le> c" "c < d" "in_bounds dims cs'" by auto
  have b: "0 \<le> gridIndex dims cs'" "gridIndex dims cs' < prod_list dims" using gridIndex_bounds [OF cs(4)] by simp_all
  have "0 \<le> gridIndex dims cs' * d + c" using b cs by simp
  with int_mixed_radix(3,4) [OF b cs(2,3)] cs Cons.IH [OF cs(4)] show ?case by (simp add: smod_pos)
qed simp

lemma gridIndex_gridCoords:
  "list_all (\<lambda>d. 0 < d) dims \<Longrightarrow> 0 \<le> e \<Longrightarrow> e < prod_list dims \<Longrightarrow>
   \<exists>cs. gridCoords dims e = Inr cs \<and> in_bounds dims cs \<and> gridIndex dims cs = e"
proof (induction dims arbitrary: e)
  case (Cons d dims)
  have d: "0 < d" using Cons.prems(1) by simp
  have "e div d < prod_list dims"
  proof (rule ccontr)
    assume "\<not> e div d < prod_list dims"
    then have "prod_list dims * d \<le> e div d * d" using d by (intro mult_right_mono) auto
    also have "\<dots> \<le> e" using d by (metis div_mult_mod_eq le_add_same_cancel1 pos_mod_sign)
    finally show False using Cons.prems(3) by (simp add: mult.commute)
  qed
  moreover have "0 \<le> e div d" using Cons.prems(2) d by (simp add: pos_imp_zdiv_nonneg_iff)
  ultimately obtain cs where cs: "gridCoords dims (e div d) = Inr cs" "in_bounds dims cs" "gridIndex dims cs = e div d"
    using Cons by auto
  moreover have "in_bounds (d # dims) (e mod d # cs)" using cs(2) d by simp
  moreover have "gridIndex (d # dims) (e mod d # cs) = e" using cs(3) by simp
  ultimately show ?case using d Cons.prems(2) by (simp add: smod_pos)
qed simp

section \<open>Properties of grids\<close>


definition one_set :: graph where
  "one_set = newSet 0 ''points'' [] no_sets"

lemma one_set_ok: "graph_ok one_set" "sets one_set 0 = Some (Set_edges ''points'' [])" "sets one_set 1 = None"
  using newSet_ok [of no_sets 0 "[]"] no_sets_ok by (simp_all add: one_set_def newSet_def putSet_def no_sets_def)


text \<open>
  C22. On the grid a constructor call has built, the lookup of a point by coordinates and the
  coordinates of a point are inverse to each other.
\<close>
theorem grid_coords_roundtrip:
  assumes "graph_ok G" and "sets G this = None" and "list_all (\<lambda>d. 0 < d) dims" and "dims \<noteq> []"
    and "sets G points = Some P" and "numElements P = 0" and "endpointSets P = []"
    and grid: "Set_grid this name points dims G = Inr G'" and S: "sets G' this = Some S"
  shows "(in_bounds dims coords \<longrightarrow> rbind (getGridPoint S coords) (getGridPointCoords S) = Inr coords) \<and>
    (0 \<le> e \<and> e < prod_list dims \<longrightarrow> rbind (getGridPointCoords S e) (getGridPoint S) = Inr e)"
proof -
  have "kind S = Grid" "dimensions S = dims" "gridPoints S = map int [0..<nat (prod_list dims)]"
    using Set_grid_ok [OF assms(1-7), of name] grid S by (auto simp: grid_edges_inv_def)
  note S' = this
  have point: "getGridPoint S cs = Inr (gridIndex dims cs)" if "in_bounds dims cs" for cs
  proof -
    have "length cs = length dims" using that by (simp add: in_bounds_def list_all2_lengthD)
    with gridIndex_bounds [OF that] S' show ?thesis
      by (simp add: getGridPoint_def Let_def total_size nth_result_def nat_less_iff)
  qed
  have coords: "getGridPointCoords S x = Inr cs" if "gridCoords dims x = Inr cs" "in_bounds dims cs" for x cs
    using that S' by (simp add: getGridPointCoords_def in_bounds_def list_all2_lengthD)
  show ?thesis
  proof (intro conjI impI)
    assume "in_bounds dims coords"
    with point coords [OF gridCoords_gridIndex] show "rbind (getGridPoint S coords) (getGridPointCoords S) = Inr coords"
      by simp
  next
    assume "0 \<le> e \<and> e < prod_list dims"
    then obtain cs where "gridCoords dims e = Inr cs" "in_bounds dims cs" "gridIndex dims cs = e"
      using gridIndex_gridCoords [OF assms(3)] by blast
    with point coords show "rbind (getGridPointCoords S e) (getGridPoint S) = Inr e" by simp
  qed
qed

theorem grid_coords_roundtrip_witness:
  "\<exists>G' S. Set_grid 1 ''springs'' 0 [2, 3] one_set = Inr G' \<and> sets G' 1 = Some S \<and>
     rbind (getGridPoint S [1, 2]) (getGridPointCoords S) = Inr [1, 2]"
proof -
  have p: "numElements (Set_edges ''points'' []) = 0" "endpointSets (Set_edges ''points'' []) = []"
    "list_all (\<lambda>d. 0 < d) [2, 3 :: int]" "[2, 3 :: int] \<noteq> []"
    by (simp_all add: Set_edges_def Set_init_def Let_def)
  obtain G' S where G': "Set_grid 1 ''springs'' 0 [2, 3] one_set = Inr G'" "sets G' 1 = Some S"
    using Set_grid_ok [OF one_set_ok(1,3) p(3,4) one_set_ok(2) p(1,2), of "''springs''"]
    by (auto simp: grid_edges_inv_def)
  with grid_coords_roundtrip [OF one_set_ok(1,3) p(3,4) one_set_ok(2) p(1,2) G', of "[1, 2]" 0]
  show ?thesis by auto
qed

text \<open>
  The edge that the lookup by coordinates and direction returns on a constructed grid does not
  start at the point with these coordinates in general, and an edge in the last direction always
  leads back to the point where it starts.
\<close>
theorem grid_edge_lookup:
  assumes "graph_ok G" and "sets G this = None" and "list_all (\<lambda>d. 0 < d) dims" and "dims \<noteq> []"
    and "sets G points = Some P" and "numElements P = 0" and "endpointSets P = []"
    and grid: "Set_grid this name points dims G = Inr G'" and S: "sets G' this = Some S"
    and c: "in_bounds dims coords" and dir: "0 \<le> dir" "dir < int (length dims)"
  shows "\<exists>e. getGridEdge S coords dir = Inr (int e) \<and> int e = gridIndex dims coords * int (length dims) + dir \<and>
    edges_of G' this ! e = [int e mod prod_list dims, (int e + prod_list (take (Suc (nat dir)) dims)) mod prod_list dims] \<and>
    (dir = int (length dims) - 1 \<longrightarrow> edges_of G' this ! e = [int e mod prod_list dims, int e mod prod_list dims])"
proof -
  let ?d = "length dims" and ?tot = "nat (prod_list dims)"
  have pos: "0 < prod_list dims" using prod_list_pos [OF assms(3)] .
  have "kind S = Grid" "dimensions S = dims" "gridEdges S = map int [0..<?tot * ?d]"
    and edges: "edges_of G' this = map (grid_edge ?tot (snd (cumulativeDims dims))) [0..<?tot * ?d]"
    using Set_grid_ok [OF assms(1-7), of name] grid S by (auto simp: grid_edges_inv_def cumulativeDims_eq)
  note S' = this(1-3)
  define e where "e = nat (gridIndex dims coords * int ?d + dir)"
  note b = gridIndex_bounds [OF c]
  have "0 \<le> gridIndex dims coords * int ?d + dir \<and> gridIndex dims coords * int ?d + dir < prod_list dims * int ?d"
    using int_mixed_radix(1,2) [of "gridIndex dims coords" "prod_list dims" dir "int ?d"] b dir by simp
  then have e: "int e = gridIndex dims coords * int ?d + dir" "int e < prod_list dims * int ?d" by (simp_all add: e_def)
  then have lt: "e < ?tot * ?d" using pos by (metis int_nat_eq nat_int of_nat_less_imp_less of_nat_mult order_less_imp_le zless_nat_conj)
  have len: "length coords = ?d" using c by (simp add: in_bounds_def list_all2_lengthD)
  have get: "getGridEdge S coords dir = Inr (int e)"
    using S' len e lt by (simp add: getGridEdge_def Let_def total_size nth_result_def flip: e(1))
  have "int (e mod ?d) = dir" using e(1) dir by (simp add: zmod_int)
  then have md: "e mod ?d = nat dir" by simp
  have "nat dir < ?d" using dir by simp
  have at: "edges_of G' this ! e = [int e mod prod_list dims, (int e + prod_list (take (Suc (nat dir)) dims)) mod prod_list dims]"
    using edges lt md pos \<open>nat dir < ?d\<close> by (simp add: grid_edge_def cumulativeDims_eq zmod_int)
  moreover have "take (Suc (nat dir)) dims = dims" if "dir = int ?d - 1"
    using that assms(4) by (cases dims) simp_all
  ultimately show ?thesis using get e(1) by (intro exI [of _ e]) auto
qed

theorem grid_edge_lookup_witness:
  "\<exists>G' S. Set_grid 1 ''springs'' 0 [2, 2] one_set = Inr G' \<and> sets G' 1 = Some S \<and>
     getGridEdge S [1, 0] 0 = Inr 2 \<and> edges_of G' 1 ! 2 = [2, 0] \<and> gridIndex [2, 2] [1, 0] = 1"
proof -
  have p: "numElements (Set_edges ''points'' []) = 0" "endpointSets (Set_edges ''points'' []) = []"
    "list_all (\<lambda>d. 0 < d) [2, 2 :: int]" "[2, 2 :: int] \<noteq> []"
    by (simp_all add: Set_edges_def Set_init_def Let_def)
  obtain G' S where G': "Set_grid 1 ''springs'' 0 [2, 2] one_set = Inr G'" "sets G' 1 = Some S"
    using Set_grid_ok [OF one_set_ok(1,3) p(3,4) one_set_ok(2) p(1,2), of "''springs''"]
    by (auto simp: grid_edges_inv_def)
  from grid_edge_lookup [OF one_set_ok(1,3) p(3,4) one_set_ok(2) p(1,2) G', of "[1, 0]" 0]
  have "\<exists>e. getGridEdge S [1, 0] 0 = Inr (int e) \<and> int e = 2 \<and> edges_of G' 1 ! e = [2, 0]" by auto
  then show ?thesis using G' by (metis gridIndex_Cons gridIndex_Nil add.left_neutral add_0_right mult_zero_left nat_int of_nat_numeral)
qed

end
