(* ===== verification/Box_Correct.thy ===== *)
theory Box_Correct
  imports Grid_Correct
begin

text \<open>
  The box generator of \<open>Grid\<close>: the vertices and edges it creates, the lookup of edges by their
  vertices, and the mismatch between the generator's and the accessor's vertex order.
\<close>

section \<open>Boxes\<close>

lemma map_of_coord_assign: "map_of (coord_assign k v m) = (map_of m)(k \<mapsto> v)"
proof (induction k v m rule: coord_assign.induct)
  case (2 k v k' v' m)
  have "k = k'" if "\<not> coord_less k k'" "\<not> coord_less k' k"
    using that by (auto simp: coord_less_def prod_eq_iff)
  moreover have "k \<noteq> k'" if "coord_less k' k" using that by (auto simp: coord_less_def)
  ultimately show ?case using 2 by (auto simp: fun_eq_iff)
qed simp

lemma node0_triples: "map (node0 numY numZ) (triples numX numY numZ) = [0..<numX * (numY * numZ)]"
proof -
  have "concat (map (\<lambda>y. map (\<lambda>z. node0 numY numZ (x, y, z)) [0..<numZ]) [0..<numY]) =
      map (\<lambda>i. x * (numY * numZ) + i) [0..<numY * numZ]" for x
  proof -
    have "map (\<lambda>z. node0 numY numZ (x, y, z)) [0..<numZ] =
        map (\<lambda>i. x * (numY * numZ) + i) [y * numZ..<Suc y * numZ]" for y
    proof -
      have u: "[y * numZ..<Suc y * numZ] = map (\<lambda>i. y * numZ + i) [0..<numZ]"
        using map_add_upt [of "y * numZ" numZ] by (simp add: add.commute)
      show ?thesis unfolding u by (simp add: node0_def comp_def mult.assoc add.assoc)
    qed
    then have "concat (map (\<lambda>y. map (\<lambda>z. node0 numY numZ (x, y, z)) [0..<numZ]) [0..<numY]) =
        map (\<lambda>i. x * (numY * numZ) + i) (concat (map (\<lambda>y. [y * numZ..<Suc y * numZ]) [0..<numY]))"
      by (simp only: map_concat map_map comp_def)
    then show ?thesis using map_concat_range [of numY "\<lambda>y. [y * numZ..<Suc y * numZ]" numZ] by simp
  qed
  then have "map (node0 numY numZ) (triples numX numY numZ) =
      concat (map (\<lambda>x. map (\<lambda>i. x * (numY * numZ) + i) [0..<numY * numZ]) [0..<numX])"
    by (simp add: triples_def map_concat comp_def)
  also have "\<dots> = [0..<numX * (numY * numZ)]"
  proof (rule map_concat_range)
    fix x show "map (\<lambda>i. x * (numY * numZ) + i) [0..<numY * numZ] = [x * (numY * numZ)..<Suc x * (numY * numZ)]"
      using map_add_upt [of "x * (numY * numZ)" "numY * numZ"] by (simp add: add.commute)
  qed
  finally show ?thesis .
qed

lemma set_triples: "set (triples a b c) = {(x, y, z). x < a \<and> y < b \<and> z < c}"
  by (auto simp: triples_def image_iff)

lemma node0_less: "x < a \<Longrightarrow> y < b \<Longrightarrow> z < c \<Longrightarrow> node0 b c (x, y, z) < a * (b * c)"
  using mixed_radix_less [of x a "y * c + z" "b * c"] mixed_radix_less [of y b z c]
  by (simp add: node0_def mult.assoc add.assoc)

lemma boxNodes_bound:
  "(i, j) \<in> set (boxNodes numX numY numZ) \<Longrightarrow> i < numX * (numY * numZ) \<and> j < numX * (numY * numZ)"
  by (auto simp: boxNodes_def set_triples intro!: node0_less)

definition box_points_inv :: "nat \<Rightarrow> graph \<Rightarrow> nat \<Rightarrow> int \<Rightarrow> nat \<Rightarrow> int list \<times> graph \<Rightarrow> bool" where
  "box_points_inv vertices G0 N v0 k st \<longleftrightarrow>
     fst st = map (\<lambda>i. v0 + int i) [0..<k] @ replicate (N - k) (-1) \<and> graph_ok (snd st) \<and>
     (\<exists>V. sets (snd st) vertices = Some V \<and> endpointSets V = [] \<and> numElements V = v0 + int k) \<and>
     (\<forall>t. t \<noteq> vertices \<longrightarrow> sets (snd st) t = sets G0 t)"

lemma snoc_update:
  "k < N \<Longrightarrow> (map f [0..<k] @ replicate (N - k) a)[k := f k] = map f [0..<Suc k] @ replicate (N - Suc k) a"
  by (rule nth_equalityI) (auto simp: nth_append nth_list_update less_Suc_eq)

lemma boxPointBody_ok:
  assumes inv: "box_points_inv vertices G0 N v0 k st" and k: "k < N" and node: "node0 numY numZ p = k"
  shows "\<exists>st'. boxPointBody vertices numY numZ p st = Inr st' \<and> box_points_inv vertices G0 N v0 (Suc k) st'"
proof -
  let ?G = "snd st"
  obtain V where V: "sets ?G vertices = Some V" "endpointSets V = []" "numElements V = v0 + int k"
    and ok: "graph_ok ?G" using inv by (auto simp: box_points_inv_def)
  have v: "valid_endpoints ?G V []" using V(2) by (simp add: valid_endpoints_def)
  obtain V' G' where G': "add vertices [] ?G = Inr (v0 + int k, G')" "added vertices V [] ?G V' G'"
    using add_ok [OF ok V(1) v] V(3) by auto
  have "list_write (fst st) k (v0 + int k) = Inr (map (\<lambda>i. v0 + int i) [0..<Suc k] @ replicate (N - Suc k) (-1))"
    using inv k snoc_update [OF k, of "\<lambda>i. v0 + int i" "-1"] by (simp add: box_points_inv_def list_write_def)
  then have "boxPointBody vertices numY numZ p st =
      Inr (map (\<lambda>i. v0 + int i) [0..<Suc k] @ replicate (N - Suc k) (-1), G')"
    using G'(1) node by (simp add: boxPointBody_def)
  moreover have "graph_ok G'" using added_graph_ok [OF ok V(1) G'(2)] V(2) by (simp add: getCardinality_def)
  ultimately show ?thesis
    using inv V addedD(1,2,3) [OF G'(2)] by (simp add: box_points_inv_def)
qed

definition box_edges_inv ::
  "nat \<Rightarrow> nat \<Rightarrow> graph \<Rightarrow> int \<Rightarrow> nat \<Rightarrow> (nat \<times> nat) list \<Rightarrow> nat \<Rightarrow>
   ((int \<times> int) \<times> int) list \<times> graph \<Rightarrow> bool" where
  "box_edges_inv vertices edges G0 v0 N nodes k st \<longleftrightarrow>
     graph_ok (snd st) \<and>
     (\<exists>V. sets (snd st) vertices = Some V \<and> numElements V = v0 + int N) \<and>
     (\<exists>E. sets (snd st) edges = Some E \<and> endpointSets E = [vertices, vertices]) \<and>
     edges_of (snd st) edges = edges_of G0 edges @ map (\<lambda>(i, j). [v0 + int i, v0 + int j]) (take k nodes) \<and>
     dom (map_of (fst st)) = (\<lambda>(i, j). (v0 + int i, v0 + int j)) ` set (take k nodes) \<and>
     (\<forall>p q e. map_of (fst st) (p, q) = Some e \<longrightarrow>
        (\<exists>n < length (edges_of (snd st) edges). e = int n \<and> edges_of (snd st) edges ! n = [p, q]))"

lemma boxEdgeBody_ok:
  assumes inv: "box_edges_inv vertices edges G0 v0 N nodes k st" and k: "k < length nodes"
    and nodes: "\<And>i j. (i, j) \<in> set nodes \<Longrightarrow> i < N \<and> j < N" and ne: "vertices \<noteq> edges"
  shows "\<exists>st'. boxEdgeBody edges (map (\<lambda>i. v0 + int i) [0..<N]) (nodes ! k) st = Inr st' \<and>
    box_edges_inv vertices edges G0 v0 N nodes (Suc k) st'"
proof -
  let ?G = "snd st" and ?pts = "map (\<lambda>i. v0 + int i) [0..<N]"
  obtain i j where ij: "nodes ! k = (i, j)" by (cases "nodes ! k")
  then have lt: "i < N" "j < N" using nodes [of i j] nth_mem [OF k] by simp_all
  let ?p = "v0 + int i" and ?q = "v0 + int j"
  have ok: "graph_ok ?G" using inv by (simp add: box_edges_inv_def)
  obtain V where V: "sets ?G vertices = Some V" "numElements V = v0 + int N" using inv by (auto simp: box_edges_inv_def)
  obtain E where E: "sets ?G edges = Some E" "endpointSets E = [vertices, vertices]" using inv by (auto simp: box_edges_inv_def)
  have v: "valid_endpoints ?G E [?p, ?q]" using V E(2) lt by (simp add: valid_endpoints_def)
  obtain E' G' where G': "add edges [?p, ?q] ?G = Inr (numElements E, G')" "added edges E [?p, ?q] ?G E' G'"
    using add_ok [OF ok E(1) v] by blast
  have len: "length [?p, ?q] = getCardinality E" using E(2) by (simp add: getCardinality_def)
  have n: "numElements E = int (length (edges_of ?G edges))"
    using graph_okD(1) [OF ok E(1)] E(1) by (simp add: length_edges_of set_ok_def)
  let ?st = "(coord_assign (?p, ?q) (numElements E) (fst st), G')"
  have body: "boxEdgeBody edges ?pts (nodes ! k) st = Inr ?st"
    using lt ij G'(1) by (simp add: boxEdgeBody_def)
  have edges': "edges_of G' edges = edges_of ?G edges @ [[?p, ?q]]"
    using added_edges [OF ok E(1) G'(2) len] by simp
  have take: "take (Suc k) nodes = take k nodes @ [(i, j)]" using k ij by (simp add: take_Suc_conv_app_nth)
  have "\<exists>n < length (edges_of G' edges). e = int n \<and> edges_of G' edges ! n = [p, q]"
    if "map_of (fst ?st) (p, q) = Some e" for p q e
  proof (cases "(p, q) = (?p, ?q)")
    case True
    with that have "e = numElements E" by (simp add: map_of_coord_assign)
    with True n edges' show ?thesis by (intro exI [of _ "length (edges_of ?G edges)"]) simp
  next
    case False
    with that have "map_of (fst st) (p, q) = Some e" by (auto simp: map_of_coord_assign split: if_splits)
    then obtain n where "n < length (edges_of ?G edges)" "e = int n" "edges_of ?G edges ! n = [p, q]"
      using inv unfolding box_edges_inv_def by blast
    with edges' show ?thesis by (intro exI [of _ n]) (simp add: nth_append)
  qed
  moreover have "graph_ok G'" using added_graph_ok [OF ok E(1) G'(2) len] .
  moreover have "sets G' vertices = Some V" "sets G' edges = Some E'" "endpointSets E' = [vertices, vertices]"
    using ne V(1) E(2) addedD(1,3) [OF G'(2)] by simp_all
  ultimately have "box_edges_inv vertices edges G0 v0 N nodes (Suc k) ?st"
    using inv V(2) edges' take by (simp add: box_edges_inv_def map_of_coord_assign)
  with body show ?thesis by blast
qed

lemma createBox_ok:
  assumes ok: "graph_ok G" and pos: "1 \<le> numX" "1 \<le> numY" "1 \<le> numZ"
    and V: "sets G vertices = Some V" "endpointSets V = []"
    and E: "sets G edges = Some E" "endpointSets E = [vertices, vertices]"
  shows "\<exists>b G'. createBox vertices edges numX numY numZ G = Inr (b, G') \<and>
    nX b = numX \<and> nY b = numY \<and> nZ b = numZ \<and>
    box_refs b = map (\<lambda>i. numElements V + int i) [0..<numX * (numY * numZ)] \<and>
    box_edges_inv vertices edges G (numElements V) (numX * (numY * numZ)) (boxNodes numX numY numZ)
      (length (boxNodes numX numY numZ)) (coords2edges b, G')"
proof -
  let ?N = "numX * (numY * numZ)" and ?v0 = "numElements V" and ?nodes = "boxNodes numX numY numZ"
  have ne: "vertices \<noteq> edges" using V E by auto
  have lenT: "length (triples numX numY numZ) = ?N" using arg_cong [OF node0_triples, of length] by simp
  have "\<exists>st. rfold (boxPointBody vertices numY numZ) (triples numX numY numZ) (replicate ?N (-1), G) = Inr st \<and>
      box_points_inv vertices G ?N ?v0 (length (triples numX numY numZ)) st"
  proof (rule rfold_counting [of "box_points_inv vertices G ?N ?v0"])
    fix i st assume i: "i < length (triples numX numY numZ)" and inv: "box_points_inv vertices G ?N ?v0 i st"
    have "node0 numY numZ (triples numX numY numZ ! i) = i"
      using arg_cong [OF node0_triples [of numY numZ numX], of "\<lambda>l. l ! i"] i lenT by simp
    with boxPointBody_ok [OF inv] i lenT show "\<exists>st'. boxPointBody vertices numY numZ (triples numX numY numZ ! i) st = Inr st' \<and>
        box_points_inv vertices G ?N ?v0 (Suc i) st'" by simp
  qed (use ok V in \<open>simp add: box_points_inv_def\<close>)
  then obtain st where st: "rfold (boxPointBody vertices numY numZ) (triples numX numY numZ) (replicate ?N (-1), G) = Inr st"
    "box_points_inv vertices G ?N ?v0 ?N st" using lenT by auto
  have pts: "fst st = map (\<lambda>i. ?v0 + int i) [0..<?N]" using st(2) by (simp add: box_points_inv_def)
  have "edges_of (snd st) edges = edges_of G edges" using st(2) ne by (simp add: box_points_inv_def edges_of_def)
  then have inv1: "box_edges_inv vertices edges G ?v0 ?N ?nodes 0 ([], snd st)"
    using st(2) ne E by (auto simp: box_points_inv_def box_edges_inv_def)
  have "\<exists>t. rfold (boxEdgeBody edges (fst st)) ?nodes ([], snd st) = Inr t \<and>
      box_edges_inv vertices edges G ?v0 ?N ?nodes (length ?nodes) t"
    using inv1 boxEdgeBody_ok [OF _ _ boxNodes_bound ne] unfolding pts
    by (intro rfold_counting [of "box_edges_inv vertices edges G ?v0 ?N ?nodes"]) auto
  then obtain t where t: "rfold (boxEdgeBody edges (fst st)) ?nodes ([], snd st) = Inr t"
    "box_edges_inv vertices edges G ?v0 ?N ?nodes (length ?nodes) t" by blast
  have "createBox vertices edges numX numY numZ G =
      Inr (\<lparr>nX = numX, nY = numY, nZ = numZ, box_refs = fst st, coords2edges = fst t\<rparr>, snd t)"
    using st(1) t(1) pts pos by (simp add: createBox_def mk_box_def mult.assoc)
  with t(2) pts show ?thesis by auto
qed


definition two_sets :: graph where
  "two_sets = newSet 1 ''edges'' [0, 0] one_set"

lemma two_sets_ok: "graph_ok two_sets" "sets two_sets 0 = Some (Set_edges ''points'' [])"
  "sets two_sets 1 = Some (Set_edges ''edges'' [0, 0])"
  using newSet_ok [OF one_set_ok(1,3), of "[0, 0]" "''edges''"] one_set_ok(2)
  by (simp_all add: two_sets_def newSet_def putSet_def)

lemma Set_edges_sel [simp]: "endpointSets (Set_edges n eps) = eps" "numElements (Set_edges n eps) = 0"
  by (simp_all add: Set_edges_def Set_init_def Let_def)


text \<open>
  Box access by coordinates does not use the vertex order of the generator: in a 2 by 1 by 3 box
  the vertices at (0,0,0) and (0,0,1) are not joined by an edge.
\<close>
theorem box_access_order:
  "\<exists>b G' p q. createBox 0 1 2 1 3 two_sets = Inr (b, G') \<and> box_at b 0 0 0 = Inr p \<and> box_at b 0 0 1 = Inr q \<and>
     getEdge b p q = -1"
proof -
  have n: "boxNodes 2 1 3 = [(0, 3), (1, 4), (2, 5), (0, 1), (1, 2), (3, 4), (4, 5)]"
    by (simp add: boxNodes_def triples_def node0_def upt_rec)
  obtain b G' where b: "createBox 0 1 2 1 3 two_sets = Inr (b, G')" "nX b = 2" "nY b = 1" "nZ b = 3"
    "box_refs b = map int [0..<6]" "dom (map_of (coords2edges b)) = (\<lambda>(i, j). (int i, int j)) ` set (boxNodes 2 1 3)"
    using createBox_ok [OF two_sets_ok(1) _ _ _ two_sets_ok(2) _ two_sets_ok(3), of 2 1 3]
    by (auto simp: box_edges_inv_def)
  have "(0, 2) \<notin> dom (map_of (coords2edges b))" unfolding b(6) n by simp
  then have "getEdge b 0 2 = -1" by (auto simp: getEdge_def split: option.split)
  moreover have "box_at b 0 0 0 = Inr 0" "box_at b 0 0 1 = Inr 2" using b(2-5) by (simp_all add: box_at_def)
  ultimately show ?thesis using b(1) by blast
qed

end
