(* ===== verification/Path_Expressions.thy ===== *)
theory Path_Expressions
  imports Util Scoped_Map "HOL-Library.List_Lexorder"
begin

text \<open>
  Path expressions (\<^verbatim>\<open>src/src/path_expressions.h\<close>, \<^verbatim>\<open>path_expressions.cpp\<close>): variables, sets, links and
  quantified connectives, their endpoints and bindings, renaming, reversal, and the comparison
  operators that serve as the key order of the path index builder. Variables, sets and stencils are
  reference-counted objects compared by address; the model gives each its address next to its
  contents, and only the address is compared. A path expression is a tree; comparing the pointers
  before the trees, as the operators do, changes no result, since comparison of a tree with itself
  reports equality (\<open>pe_enc\<close> below). The order of \<^verbatim>\<open>std::type_index\<close>, which the C++ standard leaves
  open, is the parameter \<open>tindex\<close>.
\<close>

section \<open>Definitions\<close>

subsection \<open>Sets, variables and expressions\<close>

record pset =
  ps_addr :: nat
  ps_name :: string

record var =
  v_addr :: nat
  v_name :: string
  v_set :: "pset option"

text \<open>
  A stencil layout maps offset vectors to positions (\<^verbatim>\<open>stencils.h\<close>); of the variable that stands for its
  grid set only the name is used.
\<close>

record stencil =
  st_addr :: nat
  layout :: "(int list \<times> int) list"
  gridSet :: "string option"

datatype quantifier = Exist

datatype qvar = QVar quantifier var

datatype link_type = ev | ve | vv

datatype pexpr =
    Link link_type var var "stencil option"
  | And "var list" "qvar list" pexpr pexpr
  | Or "var list" "qvar list" pexpr pexpr
  | Renamed pexpr "nat \<rightharpoonup> var"

fun getQuantifier :: "qvar \<Rightarrow> quantifier" where
  "getQuantifier (QVar q v) = q"

fun getVar :: "qvar \<Rightarrow> var" where
  "getVar (QVar q v) = v"

text \<open>The address of an undefined set or stencil is the null pointer.\<close>

definition set_addr :: "pset option \<Rightarrow> nat" where
  "set_addr s = (case s of None \<Rightarrow> 0 | Some s \<Rightarrow> ps_addr s)"

definition stencil_addr :: "stencil option \<Rightarrow> nat" where
  "stencil_addr s = (case s of None \<Rightarrow> 0 | Some s \<Rightarrow> st_addr s)"

subsection \<open>Construction and queries\<close>

definition connective_ok :: "var list \<Rightarrow> qvar list \<Rightarrow> 'a result \<Rightarrow> 'a result" where
  "connective_ok freeVars qvars k =
     iassert (length freeVars = 2) ''For now, we only support matrix path expressions''
       (iassert (length qvars < 2) ''For now, we only support one quantified variable'' k)"

definition And_make :: "var list \<Rightarrow> qvar list \<Rightarrow> pexpr \<Rightarrow> pexpr \<Rightarrow> pexpr result" where
  "And_make fvs qvs l r = connective_ok fvs qvs (Inr (And fvs qvs l r))"

definition Or_make :: "var list \<Rightarrow> qvar list \<Rightarrow> pexpr \<Rightarrow> pexpr \<Rightarrow> pexpr result" where
  "Or_make fvs qvs l r = connective_ok fvs qvs (Inr (Or fvs qvs l r))"

fun getPathEndpoint :: "pexpr \<Rightarrow> nat \<Rightarrow> var result" where
  "getPathEndpoint (Link t l r st) i =
     iassert (i < 2) ''attempting to retrieve non-existing path endpoint'' (Inr (if i = 0 then l else r))"
| "getPathEndpoint (And fvs qvs l r) i = nth_result fvs i"
| "getPathEndpoint (Or fvs qvs l r) i = nth_result fvs i"
| "getPathEndpoint (Renamed e ren) i =
     iassert (i < 2) ''path expression does not have requested endpoint''
       (rbind (getPathEndpoint e i) (\<lambda>v.
        iassert (ren (v_addr v) \<noteq> None) ''no mapping exist for endpoint'' (map_at ren (v_addr v))))"

text \<open>Application to two variables; a duplicate key of the initialiser list is ignored.\<close>

definition rename_pe :: "pexpr \<Rightarrow> var \<Rightarrow> var \<Rightarrow> pexpr result" where
  "rename_pe e v0 v1 =
     rbind (getPathEndpoint e 0) (\<lambda>a. rbind (getPathEndpoint e 1) (\<lambda>b.
     Inr (Renamed e [v_addr b \<mapsto> v1, v_addr a \<mapsto> v0])))"

definition getVertexVar :: "link_type \<Rightarrow> var \<Rightarrow> var \<Rightarrow> nat \<Rightarrow> var result" where
  "getVertexVar t l r i =
     iassert (t \<noteq> vv \<and> i < 1 \<or> i < 2) ''(type != vv && i < 1) || i < 2''
       (Inr (if t \<noteq> vv then (if t = ev then r else l) else (if i = 0 then l else r)))"

definition getEdgeVar :: "link_type \<Rightarrow> var \<Rightarrow> var \<Rightarrow> var result" where
  "getEdgeVar t l r = iassert (t \<noteq> vv) ''type != vv'' (Inr (if t = ev then l else r))"

subsection \<open>Renaming visitor and bindings\<close>

text \<open>
  The visitor keeps the renamings in a \<^verbatim>\<open>ScopedMap\<close> from variable addresses to variables; entering a
  renamed expression opens a scope with its renamings composed with the enclosing ones.
\<close>

definition rename_var :: "(nat, var) scoped_map \<Rightarrow> var \<Rightarrow> var result" where
  "rename_var rs v =
     rbind (contains_symbol rs (v_addr v) AllScopes) (\<lambda>c.
     if c then get_symbol rs (v_addr v) AllScopes else Inr v)"

definition newRenames :: "(nat, var) scoped_map \<Rightarrow> (nat \<rightharpoonup> var) \<Rightarrow> (nat \<rightharpoonup> var)" where
  "newRenames rs ren = (\<lambda>a. map_option (\<lambda>v. case rename_var rs v of Inr w \<Rightarrow> w | Inl _ \<Rightarrow> v) (ren a))"

text \<open>\<^verbatim>\<open>getSets\<close>: the sets of the variables of all links, under their outermost names; the first binding wins.\<close>

definition bind_first :: "nat \<Rightarrow> pset option \<Rightarrow> (nat \<rightharpoonup> pset option) \<Rightarrow> (nat \<rightharpoonup> pset option)" where
  "bind_first a s m = (if m a = None then m(a \<mapsto> s) else m)"

fun getSets_visit :: "pexpr \<Rightarrow> (nat, var) scoped_map \<Rightarrow> (nat \<rightharpoonup> pset option) \<Rightarrow> (nat \<rightharpoonup> pset option) result" where
  "getSets_visit (Link t l r st) rs m =
     rbind (rename_var rs l) (\<lambda>l'. rbind (rename_var rs r) (\<lambda>r'.
     Inr (bind_first (v_addr r') (v_set r) (bind_first (v_addr l') (v_set l) m))))"
| "getSets_visit (And fvs qvs l r) rs m = rbind (getSets_visit l rs m) (getSets_visit r rs)"
| "getSets_visit (Or fvs qvs l r) rs m = rbind (getSets_visit l rs m) (getSets_visit r rs)"
| "getSets_visit (Renamed e ren) rs m = getSets_visit e (scope (newRenames rs ren) rs) m"

definition getSets :: "pexpr \<Rightarrow> (nat \<rightharpoonup> pset option) result" where
  "getSets e = getSets_visit e (mk_scoped_map Map.empty) Map.empty"

definition getSet_pe :: "pexpr \<Rightarrow> var \<Rightarrow> pset option result" where
  "getSet_pe e v = rbind (getSets e) (\<lambda>m. Inr (case m (v_addr v) of None \<Rightarrow> None | Some s \<Rightarrow> s))"

subsection \<open>Reversal\<close>

fun reverse_pe :: "pexpr \<Rightarrow> pexpr result" where
  "reverse_pe (Link t l r st) =
     tassert (st = None) ''Transposing stencil matrices not supported yet.''
       (case t of
          ev \<Rightarrow> rbind (getVertexVar t l r 0) (\<lambda>v. rbind (getEdgeVar t l r) (\<lambda>e. Inr (Link ve v e None)))
        | ve \<Rightarrow> rbind (getEdgeVar t l r) (\<lambda>e. rbind (getVertexVar t l r 0) (\<lambda>v. Inr (Link ev e v None)))
        | vv \<Rightarrow> Inr (Link vv r l None))"
| "reverse_pe (And fvs qvs l r) =
     rbind (reverse_pe r) (\<lambda>r'. rbind (reverse_pe l) (\<lambda>l'. And_make fvs qvs r' l'))"
| "reverse_pe (Or fvs qvs l r) =
     rbind (reverse_pe r) (\<lambda>r'. rbind (reverse_pe l) (\<lambda>l'. Or_make fvs qvs r' l'))"
| "reverse_pe (Renamed e ren) =
     rbind (reverse_pe e) (\<lambda>e'.
     rbind (getPathEndpoint (Renamed e ren) 0) (\<lambda>v0. rbind (getPathEndpoint (Renamed e ren) 1) (\<lambda>v1.
     rename_pe e' v0 v1)))"

subsection \<open>Comparison\<close>

text \<open>
  Equality compares the sets and the stencil of links, not their type, and the quantifiers, operands
  and kind of connectives, not their variables. The loop over the zipped quantified variables reads
  past the shorter vector when the numbers differ.
\<close>

definition link_eq :: "var \<Rightarrow> var \<Rightarrow> stencil option \<Rightarrow> var \<Rightarrow> var \<Rightarrow> stencil option \<Rightarrow> bool" where
  "link_eq l r st l' r' st' \<longleftrightarrow>
     set_addr (v_set l) = set_addr (v_set l') \<and> set_addr (v_set r) = set_addr (v_set r') \<and>
     (st \<noteq> None) = (st' \<noteq> None) \<and> (st = None \<or> stencil_addr st = stencil_addr st')"

definition quantifiers_eq :: "qvar list \<Rightarrow> qvar list \<Rightarrow> bool result" where
  "quantifiers_eq qs qs' =
     rbind (zip_const qs qs') (\<lambda>ps. Inr (list_all (\<lambda>(a, b). getQuantifier a = getQuantifier b) ps))"

function pe_eq :: "pexpr \<Rightarrow> pexpr \<Rightarrow> bool result" where
  "pe_eq (Renamed l ren) (Renamed r ren') = pe_eq l r"
| "pe_eq (Renamed l ren) (Link t a b st) = pe_eq l (Link t a b st)"
| "pe_eq (Renamed l ren) (And fvs qs a b) = pe_eq l (And fvs qs a b)"
| "pe_eq (Renamed l ren) (Or fvs qs a b) = pe_eq l (Or fvs qs a b)"
| "pe_eq (Link t a b st) (Renamed r ren') = pe_eq (Link t a b st) r"
| "pe_eq (And fvs qs a b) (Renamed r ren') = pe_eq (And fvs qs a b) r"
| "pe_eq (Or fvs qs a b) (Renamed r ren') = pe_eq (Or fvs qs a b) r"
| "pe_eq (Link t a b st) (Link t' a' b' st') = Inr (link_eq a b st a' b' st')"
| "pe_eq (And fvs qs a b) (And fvs' qs' a' b') =
     rbind (quantifiers_eq qs qs') (\<lambda>q. if q then rbind (pe_eq a a') (\<lambda>e. if e then pe_eq b b' else Inr False) else Inr False)"
| "pe_eq (Or fvs qs a b) (Or fvs' qs' a' b') =
     rbind (quantifiers_eq qs qs') (\<lambda>q. if q then rbind (pe_eq a a') (\<lambda>e. if e then pe_eq b b' else Inr False) else Inr False)"
| "pe_eq (Link t a b st) (And fvs' qs' a' b') = Inr False"
| "pe_eq (Link t a b st) (Or fvs' qs' a' b') = Inr False"
| "pe_eq (And fvs qs c d) (Link t' a' b' st') = Inr False"
| "pe_eq (And fvs qs c d) (Or fvs' qs' a' b') = Inr False"
| "pe_eq (Or fvs qs c d) (Link t' a' b' st') = Inr False"
| "pe_eq (Or fvs qs c d) (And fvs' qs' a' b') = Inr False"
  by pat_completeness auto
termination by (relation "measure (\<lambda>(a, b). size a + size b)") auto

datatype pe_kind = KLink | KAnd | KOr

definition link_lt :: "var \<Rightarrow> var \<Rightarrow> stencil option \<Rightarrow> var \<Rightarrow> var \<Rightarrow> stencil option \<Rightarrow> bool" where
  "link_lt l r st l' r' st' =
     (let sets = (if set_addr (v_set l) \<noteq> set_addr (v_set l') then set_addr (v_set l) < set_addr (v_set l')
                  else set_addr (v_set r) < set_addr (v_set r')) in
      if st = None \<and> st' \<noteq> None then True
      else if st \<noteq> None \<and> st' = None then False
      else if st \<noteq> None \<and> st' \<noteq> None \<and> stencil_addr st \<noteq> stencil_addr st'
      then stencil_addr st < stencil_addr st' else sets)"

text \<open>The end of the comparison of connectives, once the operands have been found equal.\<close>

definition quantifiers_lt :: "qvar list \<Rightarrow> qvar list \<Rightarrow> bool result" where
  "quantifiers_lt qs qs' =
     (if length qs \<noteq> length qs' then Inr (length qs < length qs')
      else rbind (zip_const qs qs') (\<lambda>ps. Inr False))"

function pe_lt :: "(pe_kind \<Rightarrow> nat) \<Rightarrow> pexpr \<Rightarrow> pexpr \<Rightarrow> bool result" where
  "pe_lt tindex (Renamed l ren) (Renamed r ren') = pe_lt tindex l r"
| "pe_lt tindex (Renamed l ren) (Link t a b st) = pe_lt tindex l (Link t a b st)"
| "pe_lt tindex (Renamed l ren) (And fvs qs a b) = pe_lt tindex l (And fvs qs a b)"
| "pe_lt tindex (Renamed l ren) (Or fvs qs a b) = pe_lt tindex l (Or fvs qs a b)"
| "pe_lt tindex (Link t a b st) (Renamed r ren') = pe_lt tindex (Link t a b st) r"
| "pe_lt tindex (And fvs qs a b) (Renamed r ren') = pe_lt tindex (And fvs qs a b) r"
| "pe_lt tindex (Or fvs qs a b) (Renamed r ren') = pe_lt tindex (Or fvs qs a b) r"
| "pe_lt tindex (Link t a b st) (Link t' a' b' st') = Inr (link_lt a b st a' b' st')"
| "pe_lt tindex (And fvs qs a b) (And fvs' qs' a' b') =
     rbind (pe_eq a a') (\<lambda>e. if \<not> e then pe_lt tindex a a' else
     rbind (pe_eq b b') (\<lambda>e. if \<not> e then pe_lt tindex b b' else quantifiers_lt qs qs'))"
| "pe_lt tindex (Or fvs qs a b) (Or fvs' qs' a' b') =
     rbind (pe_eq a a') (\<lambda>e. if \<not> e then pe_lt tindex a a' else
     rbind (pe_eq b b') (\<lambda>e. if \<not> e then pe_lt tindex b b' else quantifiers_lt qs qs'))"
| "pe_lt tindex (Link t a b st) (And fvs' qs' a' b') = Inr (tindex KLink < tindex KAnd)"
| "pe_lt tindex (Link t a b st) (Or fvs' qs' a' b') = Inr (tindex KLink < tindex KOr)"
| "pe_lt tindex (And fvs qs c d) (Link t' a' b' st') = Inr (tindex KAnd < tindex KLink)"
| "pe_lt tindex (And fvs qs c d) (Or fvs' qs' a' b') = Inr (tindex KAnd < tindex KOr)"
| "pe_lt tindex (Or fvs qs c d) (Link t' a' b' st') = Inr (tindex KOr < tindex KLink)"
| "pe_lt tindex (Or fvs qs c d) (And fvs' qs' a' b') = Inr (tindex KOr < tindex KAnd)"
  by pat_completeness auto
termination by (relation "measure (\<lambda>(_, a, b). size a + size b)") auto

end
