(* ===== verification/Path_Order.thy ===== *)
theory Path_Order
  imports Path_Expressions
begin

text \<open>
  The comparison operators of path expressions (\<^verbatim>\<open>src/src/path_expressions.cpp\<close>) as an order: where they
  are defined they compare a code of the expressions, so that the memo table of the path index builder
  is keyed by a linear order on codes; where the quantifiers of corresponding connectives differ in number
  they read past the end of a vector.
\<close>

section \<open>The code of an expression\<close>

text \<open>
  The comparison operators order path expressions by a code: the kind and then the operands of a
  connective, the stencil and then the sets of a link, with renamings dropped.
\<close>

fun pe_enc :: "(pe_kind \<Rightarrow> nat) \<Rightarrow> pexpr \<Rightarrow> nat list" where
  "pe_enc tindex (Link t l r st) =
     [tindex KLink, (case st of None \<Rightarrow> 0 | Some s \<Rightarrow> Suc (st_addr s)), set_addr (v_set l), set_addr (v_set r)]"
| "pe_enc tindex (And fvs qs a b) = tindex KAnd # pe_enc tindex a @ pe_enc tindex b @ [length qs]"
| "pe_enc tindex (Or fvs qs a b) = tindex KOr # pe_enc tindex a @ pe_enc tindex b @ [length qs]"
| "pe_enc tindex (Renamed e ren) = pe_enc tindex e"

fun strip :: "pexpr \<Rightarrow> pexpr" where
  "strip (Renamed e ren) = strip e"
| "strip (Link t l r st) = Link t l r st"
| "strip (And fvs qs a b) = And fvs qs a b"
| "strip (Or fvs qs a b) = Or fvs qs a b"

lemma strip_cases:
  obtains t l r st where "strip e = Link t l r st"
  | fvs qs a b where "strip e = And fvs qs a b" | fvs qs a b where "strip e = Or fvs qs a b"
  by (induction e) auto

lemma pe_enc_strip: "pe_enc tindex (strip e) = pe_enc tindex e"
  by (induction e) simp_all

lemma kinds_distinct:
  assumes "inj tindex"
  shows "tindex KLink \<noteq> tindex KAnd" "tindex KLink \<noteq> tindex KOr" "tindex KAnd \<noteq> tindex KOr"
    "tindex KAnd \<noteq> tindex KLink" "tindex KOr \<noteq> tindex KLink" "tindex KOr \<noteq> tindex KAnd"
  using assms by (simp_all add: inj_eq)

lemma pe_enc_prefix_free:
  assumes inj: "inj tindex"
  shows "pe_enc tindex a @ xs = pe_enc tindex b @ ys \<Longrightarrow> pe_enc tindex a = pe_enc tindex b \<and> xs = ys"
proof (induction a arbitrary: b xs ys)
  case (Link t l r st)
  then show ?case
    by (cases b rule: strip_cases) (auto simp: kinds_distinct [OF inj] pe_enc_strip [of tindex b, symmetric])
next
  case (And fvs qs a1 a2)
  show ?case
  proof (cases b rule: strip_cases)
    case (2 fvs' qs' b1 b2)
    with And.prems have "pe_enc tindex a1 @ (pe_enc tindex a2 @ length qs # xs) =
        pe_enc tindex b1 @ (pe_enc tindex b2 @ length qs' # ys)"
      by (simp add: pe_enc_strip [of tindex b, symmetric])
    from And.IH(1) [OF this] And.IH(2) [of "length qs # xs" b2 "length qs' # ys"] 2 show ?thesis
      by (simp add: pe_enc_strip [of tindex b, symmetric])
  qed (use And.prems in \<open>auto simp: kinds_distinct [OF inj] pe_enc_strip [of tindex b, symmetric]\<close>)
next
  case (Or fvs qs a1 a2)
  show ?case
  proof (cases b rule: strip_cases)
    case (3 fvs' qs' b1 b2)
    with Or.prems have "pe_enc tindex a1 @ (pe_enc tindex a2 @ length qs # xs) =
        pe_enc tindex b1 @ (pe_enc tindex b2 @ length qs' # ys)"
      by (simp add: pe_enc_strip [of tindex b, symmetric])
    from Or.IH(1) [OF this] Or.IH(2) [of "length qs # xs" b2 "length qs' # ys"] 3 show ?thesis
      by (simp add: pe_enc_strip [of tindex b, symmetric])
  qed (use Or.prems in \<open>auto simp: kinds_distinct [OF inj] pe_enc_strip [of tindex b, symmetric]\<close>)
next
  case (Renamed e ren)
  then show ?case by simp
qed

lemma connective_enc_eq:
  assumes inj: "inj tindex"
  shows "pe_enc tindex a1 @ pe_enc tindex a2 @ xs = pe_enc tindex b1 @ pe_enc tindex b2 @ ys \<longleftrightarrow>
    pe_enc tindex a1 = pe_enc tindex b1 \<and> pe_enc tindex a2 = pe_enc tindex b2 \<and> xs = ys"
  using pe_enc_prefix_free [OF inj, of a1 "pe_enc tindex a2 @ xs" b1 "pe_enc tindex b2 @ ys"]
    pe_enc_prefix_free [OF inj, of a2 xs b2 ys] by fastforce

lemma append_less_cases:
  fixes a b xs ys :: "nat list"
  assumes "\<And>us vs. a @ us = b @ vs \<Longrightarrow> a = b"
  shows "a @ xs < b @ ys \<longleftrightarrow> a < b \<or> a = b \<and> xs < ys"
  using assms
proof (induction a arbitrary: b)
  case Nil
  then have "b = []" using Nil [of b "[]"] by simp
  then show ?case by simp
next
  case (Cons x a)
  show ?case
  proof (cases b)
    case Nil
    with Cons.prems [of "[]" "x # a"] show ?thesis by simp
  next
    case (Cons y b')
    show ?thesis
    proof (cases "x = y")
      case True
      have "a = b'" if "a @ us = b' @ vs" for us vs
        using Cons.prems [of us vs] that True Cons by simp
      from Cons.IH [OF this] True Cons show ?thesis by simp
    qed (simp add: Cons)
  qed
qed

lemma pe_enc_append_less:
  assumes "inj tindex"
  shows "pe_enc tindex a @ xs < pe_enc tindex b @ ys \<longleftrightarrow>
    pe_enc tindex a < pe_enc tindex b \<or> pe_enc tindex a = pe_enc tindex b \<and> xs < ys"
  by (rule append_less_cases) (use pe_enc_prefix_free [OF assms] in blast)

lemma pe_eq_strip: "pe_eq a b = pe_eq (strip a) (strip b)"
proof -
  have r: "pe_eq (strip a) b = pe_eq (strip a) (strip b)" for a b
    by (induction b; cases a rule: strip_cases) simp_all
  have "pe_eq a (strip b) = pe_eq (strip a) (strip b)" for a b
    by (induction a; cases b rule: strip_cases) simp_all
  moreover have "pe_eq a b = pe_eq a (strip b)"
  proof (induction a arbitrary: b)
    case (Renamed e ren)
    have "pe_eq (Renamed e ren) b = pe_eq e b" for b
      using Renamed.IH [of b] Renamed.IH [of "strip b"]
      by (cases b) (simp_all, metis Renamed.IH strip.simps(1))
    then show ?case using Renamed.IH by metis
  qed (use r [of "Link _ _ _ _"] r [of "And _ _ _ _"] r [of "Or _ _ _ _"] in simp_all)
  ultimately show ?thesis by simp
qed

lemma pe_lt_strip: "pe_lt tindex a b = pe_lt tindex (strip a) (strip b)"
proof -
  have r: "pe_lt tindex (strip a) b = pe_lt tindex (strip a) (strip b)" for a b
    by (induction b; cases a rule: strip_cases) simp_all
  have "pe_lt tindex a (strip b) = pe_lt tindex (strip a) (strip b)" for a b
    by (induction a; cases b rule: strip_cases) simp_all
  moreover have "pe_lt tindex a b = pe_lt tindex a (strip b)"
  proof (induction a arbitrary: b)
    case (Renamed e ren)
    have "pe_lt tindex (Renamed e ren) b = pe_lt tindex e b" for b
      using Renamed.IH [of b] Renamed.IH [of "strip b"]
      by (cases b) (simp_all, metis Renamed.IH strip.simps(1))
    then show ?case using Renamed.IH by metis
  qed (use r [of "Link _ _ _ _"] r [of "And _ _ _ _"] r [of "Or _ _ _ _"] in simp_all)
  ultimately show ?thesis by simp
qed

lemma zip_const_defined: "(\<exists>ps. zip_const xs ys = Inr ps) \<longleftrightarrow> length xs = length ys"
  by (induction xs ys rule: zip_const.induct) (auto simp: rbind_eq_Inr)

lemma quantifiers_agree: "list_all (\<lambda>(a, b). getQuantifier a = getQuantifier b) ps"
proof -
  have "getQuantifier (fst p) = getQuantifier (snd p)" for p
    by (cases "getQuantifier (fst p)"; cases "getQuantifier (snd p)") simp
  then show ?thesis by (simp add: list_all_iff case_prod_beta)
qed

lemma quantifiers_eq_Inr: "quantifiers_eq qs qs' = Inr q \<longleftrightarrow> length qs = length qs' \<and> q"
proof (cases "zip_const qs qs'")
  case (Inl e)
  then show ?thesis using zip_const_defined [of qs qs'] by (simp add: quantifiers_eq_def)
next
  case (Inr ps)
  then have "length qs = length qs'" using zip_const_defined [of qs qs'] by blast
  with Inr show ?thesis by (auto simp: quantifiers_eq_def quantifiers_agree)
qed

lemma quantifiers_lt_Inr: "quantifiers_lt qs qs' = Inr (length qs < length qs')"
  using zip_const_defined [of qs qs'] by (auto simp: quantifiers_lt_def)

text \<open>Whatever the operators return agrees with the code.\<close>

lemma pe_eq_enc:
  assumes inj: "inj tindex"
  shows "pe_eq a b = Inr e \<Longrightarrow> e = (pe_enc tindex a = pe_enc tindex b)"
proof (induction a arbitrary: b e)
  case (Link t l r st)
  have k: "link_eq l r st l' r' st' \<longleftrightarrow> pe_enc tindex (Link t l r st) = pe_enc tindex (Link t' l' r' st')" for t' l' r' st'
    by (cases st; cases st') (auto simp: link_eq_def stencil_addr_def)
  show ?case
  proof (cases b rule: strip_cases)
    case (1 t' l' r' st')
    then have "e = link_eq l r st l' r' st'" using Link.prems by (simp add: pe_eq_strip [of _ b])
    with k [of l' r' st' t'] 1 show ?thesis using pe_enc_strip [of tindex b] by metis
  qed (use Link.prems in \<open>auto simp: pe_eq_strip [of _ b] kinds_distinct [OF inj] pe_enc_strip [of tindex b, symmetric]\<close>)
next
  case (And fvs qs a1 a2)
  show ?case
  proof (cases b rule: strip_cases)
    case (2 fvs' qs' b1 b2)
    then obtain e1 where e1: "length qs = length qs'" "pe_eq a1 b1 = Inr e1" "e1 \<Longrightarrow> pe_eq a2 b2 = Inr e" "\<not> e1 \<Longrightarrow> \<not> e"
      using And.prems by (auto simp: pe_eq_strip [of _ b] rbind_eq_Inr quantifiers_eq_Inr split: if_splits)
    have "pe_enc tindex (And fvs qs a1 a2) = pe_enc tindex (And fvs' qs' b1 b2) \<longleftrightarrow>
        pe_enc tindex a1 = pe_enc tindex b1 \<and> pe_enc tindex a2 = pe_enc tindex b2"
      using e1(1) by (simp add: connective_enc_eq [OF inj])
    moreover have "e1 = (pe_enc tindex a1 = pe_enc tindex b1)" by (rule And.IH(1) [OF e1(2)])
    moreover have "e = (pe_enc tindex a2 = pe_enc tindex b2)" if e1 by (rule And.IH(2) [OF e1(3) [OF that]])
    ultimately show ?thesis using e1(4) 2 pe_enc_strip [of tindex b] by metis
  qed (use And.prems in \<open>auto simp: pe_eq_strip [of _ b] kinds_distinct [OF inj] pe_enc_strip [of tindex b, symmetric]\<close>)
next
  case (Or fvs qs a1 a2)
  show ?case
  proof (cases b rule: strip_cases)
    case (3 fvs' qs' b1 b2)
    then obtain e1 where e1: "length qs = length qs'" "pe_eq a1 b1 = Inr e1" "e1 \<Longrightarrow> pe_eq a2 b2 = Inr e" "\<not> e1 \<Longrightarrow> \<not> e"
      using Or.prems by (auto simp: pe_eq_strip [of _ b] rbind_eq_Inr quantifiers_eq_Inr split: if_splits)
    have "pe_enc tindex (Or fvs qs a1 a2) = pe_enc tindex (Or fvs' qs' b1 b2) \<longleftrightarrow>
        pe_enc tindex a1 = pe_enc tindex b1 \<and> pe_enc tindex a2 = pe_enc tindex b2"
      using e1(1) by (simp add: connective_enc_eq [OF inj])
    moreover have "e1 = (pe_enc tindex a1 = pe_enc tindex b1)" by (rule Or.IH(1) [OF e1(2)])
    moreover have "e = (pe_enc tindex a2 = pe_enc tindex b2)" if e1 by (rule Or.IH(2) [OF e1(3) [OF that]])
    ultimately show ?thesis using e1(4) 3 pe_enc_strip [of tindex b] by metis
  qed (use Or.prems in \<open>auto simp: pe_eq_strip [of _ b] kinds_distinct [OF inj] pe_enc_strip [of tindex b, symmetric]\<close>)
next
  case (Renamed a ren)
  then show ?case using pe_eq_strip [of "Renamed a ren" b] pe_eq_strip [of a b] by simp
qed

lemma connective_less:
  assumes inj: "inj tindex"
  shows "k # pe_enc tindex a1 @ pe_enc tindex a2 @ [m] < k # pe_enc tindex b1 @ pe_enc tindex b2 @ [n :: nat] \<longleftrightarrow>
    (if pe_enc tindex a1 \<noteq> pe_enc tindex b1 then pe_enc tindex a1 < pe_enc tindex b1
     else if pe_enc tindex a2 \<noteq> pe_enc tindex b2 then pe_enc tindex a2 < pe_enc tindex b2 else m < n)"
  by (auto simp: pe_enc_append_less [OF inj])

lemma connective_lt:
  assumes inj: "inj tindex"
    and IH: "\<And>b e. pe_lt tindex a1 b = Inr e \<Longrightarrow> e = (pe_enc tindex a1 < pe_enc tindex b)"
      "\<And>b e. pe_lt tindex a2 b = Inr e \<Longrightarrow> e = (pe_enc tindex a2 < pe_enc tindex b)"
    and c: "rbind (pe_eq a1 b1) (\<lambda>e. if \<not> e then pe_lt tindex a1 b1 else
      rbind (pe_eq a2 b2) (\<lambda>e. if \<not> e then pe_lt tindex a2 b2 else quantifiers_lt qs qs')) = Inr e"
  shows "e = (if pe_enc tindex a1 \<noteq> pe_enc tindex b1 then pe_enc tindex a1 < pe_enc tindex b1
    else if pe_enc tindex a2 \<noteq> pe_enc tindex b2 then pe_enc tindex a2 < pe_enc tindex b2 else length qs < length qs')"
proof -
  obtain e1 where e1: "pe_eq a1 b1 = Inr e1" using c unfolding rbind_eq_Inr by blast
  have k1: "e1 = (pe_enc tindex a1 = pe_enc tindex b1)" by (rule pe_eq_enc [OF inj e1])
  show ?thesis
  proof (cases e1)
    case False
    with c e1 have "pe_lt tindex a1 b1 = Inr e" by simp
    from IH(1) [OF this] k1 False show ?thesis by simp
  next
    case True
    then obtain e2 where e2: "pe_eq a2 b2 = Inr e2" using c e1 by (auto simp: rbind_eq_Inr)
    have k2: "e2 = (pe_enc tindex a2 = pe_enc tindex b2)" by (rule pe_eq_enc [OF inj e2])
    show ?thesis
    proof (cases e2)
      case False
      with c e1 e2 True have "pe_lt tindex a2 b2 = Inr e" by simp
      from IH(2) [OF this] k1 k2 True False show ?thesis by simp
    next
      case e2': True
      with c e1 e2 True have "e = (length qs < length qs')" by (simp add: quantifiers_lt_Inr)
      with k1 k2 True e2' show ?thesis by simp
    qed
  qed
qed

lemma pe_lt_enc:
  assumes inj: "inj tindex"
  shows "pe_lt tindex a b = Inr e \<Longrightarrow> e = (pe_enc tindex a < pe_enc tindex b)"
proof (induction a arbitrary: b e)
  case (Link t l r st)
  then show ?case
    by (cases b rule: strip_cases)
      (auto simp: pe_lt_strip [of _ _ b] pe_enc_strip [of tindex b, symmetric] kinds_distinct [OF inj]
        link_lt_def stencil_addr_def Let_def split: option.splits if_splits)
next
  case (And fvs qs a1 a2)
  show ?case
  proof (cases b rule: strip_cases)
    case (2 fvs' qs' b1 b2)
    then have c: "pe_lt tindex (And fvs qs a1 a2) (And fvs' qs' b1 b2) = Inr e"
      using And.prems by (simp add: pe_lt_strip [of _ _ b])
    have "e = (if pe_enc tindex a1 \<noteq> pe_enc tindex b1 then pe_enc tindex a1 < pe_enc tindex b1
        else if pe_enc tindex a2 \<noteq> pe_enc tindex b2 then pe_enc tindex a2 < pe_enc tindex b2 else length qs < length qs')"
      by (rule connective_lt [OF inj And.IH c [unfolded pe_lt.simps]])
    with 2 show ?thesis
      using connective_less [OF inj, of "tindex KAnd" a1 a2 "length qs" b1 b2 "length qs'"]
      by (simp add: pe_enc_strip [of tindex b, symmetric])
  qed (use And.prems in \<open>auto simp: pe_lt_strip [of _ _ b] kinds_distinct [OF inj] pe_enc_strip [of tindex b, symmetric]\<close>)
next
  case (Or fvs qs a1 a2)
  show ?case
  proof (cases b rule: strip_cases)
    case (3 fvs' qs' b1 b2)
    then have c: "pe_lt tindex (Or fvs qs a1 a2) (Or fvs' qs' b1 b2) = Inr e"
      using Or.prems by (simp add: pe_lt_strip [of _ _ b])
    have "e = (if pe_enc tindex a1 \<noteq> pe_enc tindex b1 then pe_enc tindex a1 < pe_enc tindex b1
        else if pe_enc tindex a2 \<noteq> pe_enc tindex b2 then pe_enc tindex a2 < pe_enc tindex b2 else length qs < length qs')"
      by (rule connective_lt [OF inj Or.IH c [unfolded pe_lt.simps]])
    with 3 show ?thesis
      using connective_less [OF inj, of "tindex KOr" a1 a2 "length qs" b1 b2 "length qs'"]
      by (simp add: pe_enc_strip [of tindex b, symmetric])
  qed (use Or.prems in \<open>auto simp: pe_lt_strip [of _ _ b] kinds_distinct [OF inj] pe_enc_strip [of tindex b, symmetric]\<close>)
next
  case (Renamed a ren)
  then show ?case using pe_lt_strip [of tindex "Renamed a ren" b] pe_lt_strip [of tindex a b] by simp
qed

section \<open>Where the operators are defined\<close>

text \<open>
  Two expressions have the same shape of quantifiers when their connectives all bind the same number
  of variables.
\<close>

fun binds :: "nat \<Rightarrow> pexpr \<Rightarrow> bool" where
  "binds n (Link t l r st) = True"
| "binds n (And fvs qs a b) = (length qs = n \<and> binds n a \<and> binds n b)"
| "binds n (Or fvs qs a b) = (length qs = n \<and> binds n a \<and> binds n b)"
| "binds n (Renamed e ren) = binds n e"

lemma binds_strip: "binds n (strip e) = binds n e"
  by (induction e) simp_all

lemma quantifiers_eq_same: "length qs = length qs' \<Longrightarrow> quantifiers_eq qs qs' = Inr True"
  by (simp add: quantifiers_eq_Inr)

lemma pe_eq_total: "binds n a \<Longrightarrow> binds n b \<Longrightarrow> \<exists>e. pe_eq a b = Inr e"
proof (induction a arbitrary: b)
  case (Link t l r st)
  show ?case by (cases b rule: strip_cases) (auto simp: pe_eq_strip [of _ b])
next
  case (And fvs qs a1 a2)
  show ?case
  proof (cases b rule: strip_cases)
    case (2 fvs' qs' b1 b2)
    then have b: "length qs' = n" "binds n b1" "binds n b2" using And.prems binds_strip [of n b] by simp_all
    obtain e1 e2 where "pe_eq a1 b1 = Inr e1" "pe_eq a2 b2 = Inr e2"
      using And.IH And.prems(1) b by fastforce
    with 2 And.prems(1) b show ?thesis by (auto simp: pe_eq_strip [of _ b] quantifiers_eq_same)
  qed (auto simp: pe_eq_strip [of _ b])
next
  case (Or fvs qs a1 a2)
  show ?case
  proof (cases b rule: strip_cases)
    case (3 fvs' qs' b1 b2)
    then have b: "length qs' = n" "binds n b1" "binds n b2" using Or.prems binds_strip [of n b] by simp_all
    obtain e1 e2 where "pe_eq a1 b1 = Inr e1" "pe_eq a2 b2 = Inr e2"
      using Or.IH Or.prems(1) b by fastforce
    with 3 Or.prems(1) b show ?thesis by (auto simp: pe_eq_strip [of _ b] quantifiers_eq_same)
  qed (auto simp: pe_eq_strip [of _ b])
next
  case (Renamed a ren)
  then obtain e where "pe_eq a b = Inr e" by auto
  then show ?case using pe_eq_strip [of "Renamed a ren" b] pe_eq_strip [of a b] by simp
qed

lemma pe_lt_total: "binds n a \<Longrightarrow> binds n b \<Longrightarrow> \<exists>e. pe_lt tindex a b = Inr e"
proof (induction a arbitrary: b)
  case (Link t l r st)
  show ?case by (cases b rule: strip_cases) (auto simp: pe_lt_strip [of _ _ b])
next
  case (And fvs qs a1 a2)
  show ?case
  proof (cases b rule: strip_cases)
    case (2 fvs' qs' b1 b2)
    then have b: "binds n b1" "binds n b2" using And.prems binds_strip [of n b] by simp_all
    obtain e1 e2 l1 l2 where "pe_eq a1 b1 = Inr e1" "pe_eq a2 b2 = Inr e2"
        "pe_lt tindex a1 b1 = Inr l1" "pe_lt tindex a2 b2 = Inr l2"
      using And.IH And.prems(1) b pe_eq_total [of n] by fastforce
    with 2 show ?thesis by (auto simp: pe_lt_strip [of _ _ b] quantifiers_lt_Inr)
  qed (auto simp: pe_lt_strip [of _ _ b])
next
  case (Or fvs qs a1 a2)
  show ?case
  proof (cases b rule: strip_cases)
    case (3 fvs' qs' b1 b2)
    then have b: "binds n b1" "binds n b2" using Or.prems binds_strip [of n b] by simp_all
    obtain e1 e2 l1 l2 where "pe_eq a1 b1 = Inr e1" "pe_eq a2 b2 = Inr e2"
        "pe_lt tindex a1 b1 = Inr l1" "pe_lt tindex a2 b2 = Inr l2"
      using Or.IH Or.prems(1) b pe_eq_total [of n] by fastforce
    with 3 show ?thesis by (auto simp: pe_lt_strip [of _ _ b] quantifiers_lt_Inr)
  qed (auto simp: pe_lt_strip [of _ _ b])
next
  case (Renamed a ren)
  then obtain e where "pe_lt tindex a b = Inr e" by auto
  then show ?case using pe_lt_strip [of tindex "Renamed a ren" b] pe_lt_strip [of tindex a b] by simp
qed

section \<open>Properties\<close>

text \<open>
  C20. On path expressions whose connectives bind equally many variables the comparison operators are
  defined, and exactly one of \<open>a < b\<close>, \<open>a == b\<close> and \<open>b < a\<close> holds.
\<close>

theorem pe_trichotomy:
  assumes "inj tindex" and "binds n a" and "binds n b"
  shows "\<exists>l e g. pe_lt tindex a b = Inr l \<and> pe_eq a b = Inr e \<and> pe_lt tindex b a = Inr g \<and>
    (l, e, g) \<in> {(True, False, False), (False, True, False), (False, False, True)}"
proof -
  obtain l e g where *: "pe_lt tindex a b = Inr l" "pe_eq a b = Inr e" "pe_lt tindex b a = Inr g"
    using pe_lt_total [of n a b tindex] pe_eq_total [of n a b] pe_lt_total [of n b a tindex] assms(2,3) by auto
  have "l = (pe_enc tindex a < pe_enc tindex b)" "e = (pe_enc tindex a = pe_enc tindex b)"
      "g = (pe_enc tindex b < pe_enc tindex a)"
    using pe_lt_enc [OF assms(1)] pe_eq_enc [OF assms(1)] * by blast+
  then have "(l, e, g) \<in> {(True, False, False), (False, True, False), (False, False, True)}" by auto
  with * show ?thesis by blast
qed

definition kind_order :: "pe_kind \<Rightarrow> nat" where
  "kind_order k = (case k of KLink \<Rightarrow> 0 | KAnd \<Rightarrow> 1 | KOr \<Rightarrow> 2)"

lemma inj_kind_order: "inj kind_order"
  by (auto simp: inj_def kind_order_def split: pe_kind.splits)

definition set_var :: "nat \<Rightarrow> string \<Rightarrow> nat \<Rightarrow> string \<Rightarrow> var" where
  "set_var a name s sname = \<lparr>v_addr = a, v_name = name, v_set = Some \<lparr>ps_addr = s, ps_name = sname\<rparr>\<rparr>"

abbreviation "var_v \<equiv> set_var 10 ''v'' 1 ''V''"
abbreviation "var_w \<equiv> set_var 11 ''w'' 1 ''V''"
abbreviation "var_e \<equiv> set_var 12 ''e'' 2 ''E''"

definition sample_path :: "pexpr" where
  "sample_path = And [var_v, var_w] [QVar Exist var_e] (Link ve var_v var_e None) (Link ev var_e var_w None)"

theorem pe_trichotomy_witness:
  "\<exists>l e g. pe_lt kind_order (Renamed sample_path Map.empty) sample_path = Inr l \<and>
     pe_eq (Renamed sample_path Map.empty) sample_path = Inr e \<and>
     pe_lt kind_order sample_path (Renamed sample_path Map.empty) = Inr g \<and>
    (l, e, g) \<in> {(True, False, False), (False, True, False), (False, False, True)}"
  by (rule pe_trichotomy [OF inj_kind_order, of 1]) (simp_all add: sample_path_def)

text \<open>
  The order is transitive: where \<open>a < b\<close> and \<open>b < c\<close>, a comparison of \<open>a\<close> and \<open>c\<close> that is defined
  yields \<open>a < c\<close>, whatever their quantifiers.
\<close>

theorem pe_lt_transitive:
  assumes "inj tindex" and "pe_lt tindex a b = Inr True" and "pe_lt tindex b c = Inr True"
  shows "pe_lt tindex a c \<noteq> Inr False"
  using assms pe_lt_enc [OF assms(1)] by (metis order_less_trans)

theorem pe_lt_transitive_witness:
  "pe_lt kind_order (Link ve var_v var_e None) sample_path \<noteq> Inr False"
  by (rule pe_lt_transitive [OF inj_kind_order, of _ "Link ev var_e var_w None"])
    (simp_all add: sample_path_def kind_order_def link_lt_def set_addr_def set_var_def)

text \<open>
  Comparing two connectives whose operands have the same shape but bind different numbers of variables
  is undefined: the zipped loop of \<open>==\<close> reads past the end of the shorter vector.
\<close>

theorem pe_lt_mixed_quantifiers:
  "pe_lt tindex (And fvs [] (And gvs [q] a b) c) (And fvs' [] (And gvs' [] a' b') c') = Inl Undefined"
  by (simp add: quantifiers_eq_def)

end
