(* ===== verification/Path_Indices.thy ===== *)
theory Path_Indices
  imports Path_Order Grid_Correct
begin

text \<open>
  Path indices (\<^verbatim>\<open>src/src/path_indices.h\<close>, \<^verbatim>\<open>path_indices.cpp\<close>): the two representations of an index
  (segmented vectors and the endpoint list of an edge set) and the builder that evaluates a path
  expression over a graph, with its memo table. The builder reads the sets of the graph through the
  names bound to their addresses. Array cells that \<^verbatim>\<open>malloc\<close> leaves uninitialised hold \<open>None\<close>, and
  reading one is undefined, as is leaving an array. Counts of elements and neighbors stay below
  $2^{31}$, so that the \<^verbatim>\<open>int\<close> and \<^verbatim>\<open>unsigned\<close> sums do not wrap; identifiers are converted between the two.
\<close>

section \<open>Definitions\<close>

subsection \<open>Standard containers\<close>

text \<open>
  A \<^verbatim>\<open>std::map\<close> that is iterated over is a list sorted by key; \<^verbatim>\<open>insert\<close> keeps an entry that is there,
  \<^verbatim>\<open>m[k] = v\<close> replaces it, and a change through \<^verbatim>\<open>at\<close> needs one. A \<^verbatim>\<open>std::set\<close> is a sorted list.
\<close>

definition smap_insert :: "'k::linorder \<Rightarrow> 'v \<Rightarrow> ('k \<times> 'v) list \<Rightarrow> ('k \<times> 'v) list" where
  "smap_insert k v m = (if k \<in> set (map fst m) then m else insort_key fst (k, v) m)"

definition smap_modify :: "'k \<Rightarrow> ('v \<Rightarrow> 'v) \<Rightarrow> ('k \<times> 'v) list \<Rightarrow> ('k \<times> 'v) list result" where
  "smap_modify k f m =
     (if k \<in> set (map fst m) then Inr (map (\<lambda>p. if fst p = k then (k, f (snd p)) else p) m)
      else Inl OutOfRange)"

definition smap_assign :: "'k::linorder \<Rightarrow> 'v \<Rightarrow> ('k \<times> 'v) list \<Rightarrow> ('k \<times> 'v) list" where
  "smap_assign k v m =
     (if k \<in> set (map fst m) then map (\<lambda>p. if fst p = k then (k, v) else p) m else insort_key fst (k, v) m)"

definition sset_insert :: "nat \<Rightarrow> nat list \<Rightarrow> nat list" where
  "sset_insert x xs = (if x \<in> set xs then xs else insort x xs)"

definition to_unsigned :: "int \<Rightarrow> nat" where
  "to_unsigned i = nat (i mod 2 ^ 32)"

definition read_cell :: "'a memory \<Rightarrow> nat \<Rightarrow> 'a result" where
  "read_cell m i = rbind (mem_cell m (int i)) (\<lambda>c. case c of None \<Rightarrow> Inl Undefined | Some v \<Rightarrow> Inr v)"

definition memcpy_cells :: "'a memory \<Rightarrow> nat \<Rightarrow> 'a list \<Rightarrow> 'a memory result" where
  "memcpy_cells m i vs =
     (if i + length vs \<le> length m then Inr (take i m @ map Some vs @ drop (i + length vs) m) else Inl Undefined)"

text \<open>The range loop over a set; with a negative count it counts until the \<^verbatim>\<open>int\<close> overflows.\<close>

definition set_elements :: "set_data \<Rightarrow> int list result" where
  "set_elements S = (case elements S of None \<Rightarrow> Inl Undefined | Some es \<Rightarrow> Inr es)"

subsection \<open>Segmented path indices\<close>

record segmented =
  numElems :: nat
  coordsData :: "nat memory"
  sinksData :: "nat memory"

definition numNeighbors_all :: "segmented \<Rightarrow> nat result" where
  "numNeighbors_all pidx = read_cell (coordsData pidx) (numElems pidx)"

definition numNeighbors :: "segmented \<Rightarrow> nat \<Rightarrow> nat result" where
  "numNeighbors pidx elemID =
     iassert (numElems pidx > elemID) ''numElems > elemID''
       (rbind (read_cell (coordsData pidx) (elemID + 1)) (\<lambda>b.
        rbind (read_cell (coordsData pidx) elemID) (\<lambda>a. Inr (to_unsigned (int b - int a)))))"

text \<open>The range loop over the neighbors: the iterators run from 0 to the number of neighbors.\<close>

definition neighbors :: "segmented \<Rightarrow> nat \<Rightarrow> nat list result" where
  "neighbors pidx elemID =
     rbind (numNeighbors pidx elemID) (\<lambda>numNbrs.
     rbind (read_cell (coordsData pidx) elemID) (\<lambda>nbrs.
     rmap (\<lambda>currNbr. read_cell (sinksData pidx) (nbrs + currNbr)) [0..<numNbrs]))"

definition empty_index :: segmented where
  "empty_index = \<lparr>numElems = 0, coordsData = [Some 0], sinksData = []\<rparr>"

subsection \<open>Set endpoint path indices\<close>

definition SetEndpoint_make :: "set_data \<Rightarrow> set_data result" where
  "SetEndpoint_make edgeSet =
     iassert (isHomogeneous edgeSet) ''Must be homogeneous because otherwise there are gaps'' (Inr edgeSet)"

definition ep_numElements :: "set_data \<Rightarrow> nat" where
  "ep_numElements edgeSet = to_unsigned (numElements edgeSet)"

definition ep_numNeighbors :: "set_data \<Rightarrow> nat \<Rightarrow> nat result" where
  "ep_numNeighbors edgeSet elemID = Inr (getCardinality edgeSet)"

definition ep_numNeighbors_all :: "set_data \<Rightarrow> nat" where
  "ep_numNeighbors_all edgeSet = ep_numElements edgeSet * getCardinality edgeSet"

definition ep_neighbors :: "set_data \<Rightarrow> nat \<Rightarrow> nat list result" where
  "ep_neighbors edgeSet elemID =
     rbind (getEndpoints edgeSet (int elemID)) (\<lambda>eps.
     rmap (\<lambda>ep. case ep of None \<Rightarrow> Inl Undefined | Some i \<Rightarrow> Inr (to_unsigned i)) eps)"

subsection \<open>Packing\<close>

definition packRow ::
  "bool \<Rightarrow> nat \<times> nat list \<Rightarrow> nat \<times> nat memory \<times> nat memory \<Rightarrow> (nat \<times> nat memory \<times> nat memory) result" where
  "packRow srt p st =
     (case st of (currNbrsStart, coords, sinks) \<Rightarrow>
      rbind (mem_write coords (int (fst p)) (Some currNbrsStart)) (\<lambda>coords'.
      if length (snd p) > 0
      then rbind (memcpy_cells sinks currNbrsStart (if srt then sort (snd p) else snd p)) (\<lambda>sinks'.
           Inr (currNbrsStart + length (snd p), coords', sinks'))
      else Inr (currNbrsStart, coords', sinks)))"

definition pack :: "(nat \<times> nat list) list \<Rightarrow> bool \<Rightarrow> segmented result" where
  "pack pathNeighbors srt =
     (let nnbrs = sum_list (map (\<lambda>p. length (snd p)) pathNeighbors);
          n = length pathNeighbors
      in rbind (rfold (packRow srt) pathNeighbors
                 (0, replicate (n + 1) None, replicate nnbrs None)) (\<lambda>(currNbrsStart, coords, sinks).
         rbind (mem_write coords (int n) (Some currNbrsStart)) (\<lambda>coords'.
         Inr \<lparr>numElems = n, coordsData = coords', sinksData = sinks\<rparr>)))"

subsection \<open>The builder and its bindings\<close>

record builder =
  pathIndices :: "((pexpr \<times> nat) \<times> segmented) list"
  bindings :: "string \<rightharpoonup> nat"

definition bind :: "string \<Rightarrow> nat \<Rightarrow> builder \<Rightarrow> builder" where
  "bind name s B = (if bindings B name = None then B\<lparr>bindings := (bindings B)(name \<mapsto> s)\<rparr> else B)"

definition getBinding :: "(string \<rightharpoonup> nat) \<Rightarrow> pset option \<Rightarrow> nat result" where
  "getBinding bs p = (case p of None \<Rightarrow> Inl (InternalError ''pset.defined()'') | Some s \<Rightarrow> map_at bs (ps_name s))"

definition getBinding_var :: "(string \<rightharpoonup> nat) \<Rightarrow> string option \<Rightarrow> nat result" where
  "getBinding_var bs v = (case v of None \<Rightarrow> Inl (InternalError ''var.defined()'') | Some n \<Rightarrow> map_at bs n)"

subsection \<open>Links\<close>

text \<open>The inner loop of the edge-to-vertex case; its state is the counter \<open>j\<close> and the array \<open>idx\<close>.\<close>

definition evBody ::
  "set_data \<Rightarrow> nat \<Rightarrow> nat \<Rightarrow> int \<Rightarrow> nat \<Rightarrow> nat \<times> nat memory \<Rightarrow> (nat \<times> nat memory) result" where
  "evBody edgeSet vertexSet nnzPerRow e i st =
     rbind (nth_result (endpointSets edgeSet) i) (\<lambda>a.
     if a = vertexSet
     then rbind (getEndpoint edgeSet e i) (\<lambda>c. case c of None \<Rightarrow> Inl Undefined | Some ep \<Rightarrow>
          rbind (mem_write (snd st) (e * int nnzPerRow + int (fst st)) (Some (to_unsigned ep))) (\<lambda>m.
          Inr (fst st + 1, m)))
     else Inr st)"

definition visit_ev :: "graph \<Rightarrow> (string \<rightharpoonup> nat) \<Rightarrow> var \<Rightarrow> var \<Rightarrow> segmented result" where
  "visit_ev G bs l r =
     rbind (getEdgeVar ev l r) (\<lambda>edgeVar. rbind (getBinding bs (v_set edgeVar)) (\<lambda>ea. rbind (getSet G ea) (\<lambda>edgeSet.
     let cardinality = getCardinality edgeSet in
     iassert (cardinality > 0) (''not an edge set'' @ set_name edgeSet)
       (rbind (getVertexVar ev l r 0) (\<lambda>vertexVar. rbind (getBinding bs (v_set vertexVar)) (\<lambda>va.
        let nnzPerRow = length (filter (\<lambda>a. a = va) (endpointSets edgeSet)) in
        rbind (set_elements edgeSet) (\<lambda>es.
        let n = length es; nnz = n * nnzPerRow in
        rbind (rfold (\<lambda>i m. mem_write m (int i) (Some (i * nnzPerRow))) [0..<n + 1] (replicate (n + 1) None)) (\<lambda>coords.
        rbind (rfold (\<lambda>e m. rbind (rfold (evBody edgeSet va nnzPerRow e) [0..<cardinality] (0, m)) (\<lambda>st. Inr (snd st)))
                 es (replicate nnz None)) (\<lambda>sinks.
        Inr \<lparr>numElems = n, coordsData = coords, sinksData = sinks\<rparr>)))))))))"

text \<open>Vertex to edge: every edge is appended to the lists of those of its endpoints that are in the vertex set.\<close>

definition veBody ::
  "set_data \<Rightarrow> nat \<Rightarrow> int \<Rightarrow> nat \<times> int option \<Rightarrow> (nat \<times> nat list) list \<Rightarrow> (nat \<times> nat list) list result" where
  "veBody edgeSet vertexSet e p pathNeighbors =
     (case snd p of None \<Rightarrow> Inl Undefined | Some ep \<Rightarrow>
      iassert (ep \<ge> 0) ''ep.getIdent() >= 0''
        (rbind (nth_result (endpointSets edgeSet) (fst p)) (\<lambda>a.
         if a = vertexSet then smap_modify (to_unsigned ep) (\<lambda>es. es @ [to_unsigned e]) pathNeighbors
         else Inr pathNeighbors)))"

definition visit_ve :: "graph \<Rightarrow> (string \<rightharpoonup> nat) \<Rightarrow> var \<Rightarrow> var \<Rightarrow> segmented result" where
  "visit_ve G bs l r =
     rbind (getEdgeVar ve l r) (\<lambda>edgeVar. rbind (getBinding bs (v_set edgeVar)) (\<lambda>ea. rbind (getSet G ea) (\<lambda>edgeSet.
     iassert (getCardinality edgeSet > 0) (''not an edge set'' @ set_name edgeSet)
       (rbind (getVertexVar ve l r 0) (\<lambda>vertexVar. rbind (getBinding bs (v_set vertexVar)) (\<lambda>va.
        rbind (getSet G va) (\<lambda>vertexSet.
        rbind (set_elements vertexSet) (\<lambda>vs.
        rbind (set_elements edgeSet) (\<lambda>es.
        rbind (rfold (\<lambda>e m.
                 iassert (e \<ge> 0) ''e.getIdent() >= 0''
                   (rbind (getEndpoints edgeSet e) (\<lambda>eps.
                    rfold (veBody edgeSet va e) (zip [0..<length eps] eps) m)))
                 es (fold (\<lambda>v. smap_insert (to_unsigned v) []) vs [])) (\<lambda>pathNeighbors.
        pack pathNeighbors True))))))))))"

text \<open>Vertex to vertex through a stencil: the neighbors of a grid point in the order of the stencil's layout.\<close>

definition getLayoutReversed :: "stencil \<Rightarrow> (int \<times> int list) list" where
  "getLayoutReversed st = fold (\<lambda>kv reversed. smap_assign (snd kv) (fst kv) reversed) (layout st) []"

definition stencilNeighbor :: "set_data \<Rightarrow> int \<Rightarrow> int list \<Rightarrow> int result" where
  "stencilNeighbor throughSet v offsets =
     rbind (getGridPointCoords throughSet v) (\<lambda>base.
     iassert (length offsets = length base) ''offsets.size() == base.size()''
       (rbind (rmap (\<lambda>i.
          uassert (kind throughSet = Grid) ''Can only retrieve dimensions for a grid edge set''
            (rbind (nth_result (dimensions throughSet) i) (\<lambda>d.
             if d = 0 then Inl Undefined else Inr ((base ! i + (offsets ! i + d)) smod d)))) [0..<length base]) (\<lambda>coords.
        getGridPoint throughSet coords)))"

definition vvBody :: "stencil \<Rightarrow> set_data \<Rightarrow> int \<Rightarrow> (nat \<times> nat list) list \<Rightarrow> (nat \<times> nat list) list result" where
  "vvBody st throughSet v m =
     rfold (\<lambda>kv m. rbind (stencilNeighbor throughSet v (snd kv)) (\<lambda>p.
              smap_modify (to_unsigned v) (\<lambda>ns. ns @ [to_unsigned p]) m))
       (getLayoutReversed st) (smap_insert (to_unsigned v) [] m)"

definition visit_vv :: "graph \<Rightarrow> (string \<rightharpoonup> nat) \<Rightarrow> var \<Rightarrow> var \<Rightarrow> stencil option \<Rightarrow> segmented result" where
  "visit_vv G bs l r st =
     (case st of None \<Rightarrow> Inl Undefined | Some stencil \<Rightarrow>
      iassert (gridSet stencil \<noteq> None) ''ptr->gridSet.defined()''
     (rbind (getBinding_var bs (gridSet stencil)) (\<lambda>ta. rbind (getSet G ta) (\<lambda>throughSet.
      rbind (getVertexVar vv l r 0) (\<lambda>v0. rbind (getBinding bs (v_set v0)) (\<lambda>sa. rbind (getSet G sa) (\<lambda>sourceSet.
      rbind (getVertexVar vv l r 1) (\<lambda>v1. rbind (getBinding bs (v_set v1)) (\<lambda>ka. rbind (getSet G ka) (\<lambda>sinkSet.
      iassert (set_name sourceSet = set_name sinkSet) ''sourceSet.getName() == sinkSet.getName()''
        (rbind (set_elements sourceSet) (\<lambda>vs.
         rbind (rfold (vvBody stencil throughSet) vs []) (\<lambda>pathNeighbors.
         pack pathNeighbors False)))))))))))))"

definition visit_link :: "graph \<Rightarrow> (string \<rightharpoonup> nat) \<Rightarrow> link_type \<Rightarrow> var \<Rightarrow> var \<Rightarrow> stencil option \<Rightarrow> segmented result" where
  "visit_link G bs t l r st =
     (case t of ev \<Rightarrow> visit_ev G bs l r | ve \<Rightarrow> visit_ve G bs l r | vv \<Rightarrow> visit_vv G bs l r st)"

subsection \<open>Combining indices\<close>

text \<open>Intersection, union and composition of the neighbor sets, and the quantified disjunction.\<close>

definition addNeighbor :: "nat \<Rightarrow> nat \<Rightarrow> (nat \<times> nat list) list \<Rightarrow> (nat \<times> nat list) list result" where
  "addNeighbor elem nbr m = smap_modify elem (sset_insert nbr) m"

definition collect :: "segmented \<Rightarrow> (nat \<times> nat list) list result" where
  "collect pidx =
     rfold (\<lambda>elem m. rbind (neighbors pidx elem) (\<lambda>nbrs. rfold (addNeighbor elem) nbrs (smap_insert elem [] m)))
       [0..<numElems pidx] []"

definition intersectIndices :: "segmented \<Rightarrow> segmented \<Rightarrow> (nat \<times> nat list) list result" where
  "intersectIndices lhsIndex rhsIndex =
     rbind (collect lhsIndex) (\<lambda>lhsPathNeighbors.
     rfold (\<lambda>elem m. rbind (neighbors rhsIndex elem) (\<lambda>nbrs.
              rfold (\<lambda>nbr m. rbind (map_at (map_of lhsPathNeighbors) elem) (\<lambda>elemNbrs.
                       if nbr \<in> set elemNbrs then addNeighbor elem nbr m else Inr m))
                nbrs (smap_insert elem [] m)))
       [0..<numElems rhsIndex] [])"

definition unionIndices :: "segmented \<Rightarrow> segmented \<Rightarrow> (nat \<times> nat list) list result" where
  "unionIndices lhsIndex rhsIndex =
     rbind (collect lhsIndex) (\<lambda>m.
     rfold (\<lambda>elem m. iassert (elem \<in> set (map fst m)) ''pathNeighbors.find(elem) != pathNeighbors.end()''
              (rbind (neighbors rhsIndex elem) (\<lambda>nbrs. rfold (addNeighbor elem) nbrs m)))
       [0..<numElems rhsIndex] m)"

definition composeIndices :: "segmented \<Rightarrow> segmented \<Rightarrow> (nat \<times> nat list) list result" where
  "composeIndices sourceToQuantified quantifiedToSink =
     rfold (\<lambda>source m. rbind (neighbors sourceToQuantified source) (\<lambda>qs.
              rfold (\<lambda>q m. rbind (neighbors quantifiedToSink q) (\<lambda>sinks. rfold (addNeighbor source) sinks m))
                qs (smap_insert source [] m)))
       [0..<numElems sourceToQuantified] []"

definition disjoinIndices :: "int list \<Rightarrow> segmented \<Rightarrow> segmented \<Rightarrow> (nat \<times> nat list) list result" where
  "disjoinIndices sinkElems sourceToQuantified quantifiedToSink =
     rbind (rfold (\<lambda>source m. rbind (numNeighbors sourceToQuantified source) (\<lambda>k.
              if k > 0 then rfold (\<lambda>s. addNeighbor source (to_unsigned s)) sinkElems (smap_insert source [] m)
              else Inr (smap_insert source [] m)))
              [0..<numElems sourceToQuantified] []) (\<lambda>m.
     rfold (\<lambda>quantified m. rbind (neighbors quantifiedToSink quantified) (\<lambda>sinks.
              rfold (\<lambda>sink. rfold (\<lambda>source. addNeighbor source sink) [0..<numElems sourceToQuantified]) sinks m))
       [0..<numElems quantifiedToSink] m)"

subsection \<open>The visitor\<close>

text \<open>
  The visitor of the subexpressions calls the builder again; \<open>rec\<close> is this call, from an expression,
  an endpoint and the state of the builder. Locations are kept by the address of the variable.
\<close>

type_synonym build_call = "pexpr \<Rightarrow> nat \<Rightarrow> builder \<Rightarrow> (segmented \<times> builder) result"

definition getNumPathEndpoints :: "pexpr \<Rightarrow> nat" where
  "getNumPathEndpoints e = 2"

definition addLocation ::
  "pexpr \<Rightarrow> nat \<Rightarrow> (nat \<rightharpoonup> (pexpr \<times> nat) list) \<Rightarrow> (nat \<rightharpoonup> (pexpr \<times> nat) list) result" where
  "addLocation e ep m =
     rbind (getPathEndpoint e ep) (\<lambda>v.
     Inr (m(v_addr v \<mapsto> (case m (v_addr v) of None \<Rightarrow> [] | Some ls \<Rightarrow> ls) @ [(e, ep)])))"

definition getVarToLocationsMap :: "pexpr list \<Rightarrow> (nat \<rightharpoonup> (pexpr \<times> nat) list) result" where
  "getVarToLocationsMap pexprs =
     rfold (\<lambda>e. rfold (addLocation e) [0..<getNumPathEndpoints e]) pexprs Map.empty"

text \<open>\<open>operator[]\<close> on a missing variable makes an empty vector, whose element 0 is then read.\<close>

definition firstLocation :: "(nat \<rightharpoonup> (pexpr \<times> nat) list) \<Rightarrow> var \<Rightarrow> (pexpr \<times> nat) result" where
  "firstLocation m v = (case m (v_addr v) of None \<Rightarrow> Inl Undefined | Some ls \<Rightarrow> nth_result ls 0)"

definition buildIndex :: "build_call \<Rightarrow> pexpr \<Rightarrow> var \<Rightarrow> var \<Rightarrow> builder \<Rightarrow> (segmented \<times> builder) result" where
  "buildIndex rec pathExpr source sink B =
     rbind (getVarToLocationsMap [pathExpr]) (\<lambda>locs.
     iassert (locs (v_addr source) \<noteq> None) ''source variable is not in the path expression''
       (iassert (locs (v_addr sink) \<noteq> None) ''sink variable is not in the path expression''
          (rbind (firstLocation locs source) (\<lambda>loc. rec (fst loc) (snd loc) B))))"

definition buildIndices ::
  "build_call \<Rightarrow> pexpr \<Rightarrow> pexpr \<Rightarrow> var \<Rightarrow> var \<Rightarrow> var \<Rightarrow> builder \<Rightarrow> ((segmented \<times> segmented) \<times> builder) result" where
  "buildIndices rec lhs rhs source quantified sink B =
     rbind (getVarToLocationsMap [lhs, rhs]) (\<lambda>locs.
     iassert (locs (v_addr quantified) \<noteq> None) ''could not find quantified variable locations''
       (iassert (map_option length (locs (v_addr quantified)) = Some 2) ''quantified binary expr only uses quantified variable once''
          (rbind (firstLocation locs source) (\<lambda>sourceLoc.
           rbind (rec (fst sourceLoc) (snd sourceLoc) B) (\<lambda>(sourceToQuantified, B1).
           rbind (firstLocation locs sink) (\<lambda>sinkLoc.
           let quantifiedLoc = (if snd sinkLoc = 0 then 1 else 0) in
           rbind (rec (fst sinkLoc) quantifiedLoc B1) (\<lambda>(quantifiedToSink, B2).
           Inr ((sourceToQuantified, quantifiedToSink), B2))))))))"

definition visit_and ::
  "build_call \<Rightarrow> var list \<Rightarrow> qvar list \<Rightarrow> pexpr \<Rightarrow> pexpr \<Rightarrow> builder \<Rightarrow> (segmented \<times> builder) result" where
  "visit_and rec freeVars qvars lhs rhs B =
     iassert (length freeVars = 2) ''For now, we only support matrix path expressions''
       (rbind
          (if length qvars = 0
           then rbind (buildIndex rec lhs (freeVars ! 0) (freeVars ! 1) B) (\<lambda>(lhsIndex, B1).
                rbind (buildIndex rec rhs (freeVars ! 0) (freeVars ! 1) B1) (\<lambda>(rhsIndex, B2).
                rbind (intersectIndices lhsIndex rhsIndex) (\<lambda>m. Inr (m, B2))))
           else iassert (length qvars = 1) ''For now, we only support one quantified variable''
                  (rbind (buildIndices rec lhs rhs (freeVars ! 0) (getVar (qvars ! 0)) (freeVars ! 1) B) (\<lambda>((s, q), B1).
                   rbind (composeIndices s q) (\<lambda>m. Inr (m, B1)))))
          (\<lambda>(m, B'). rbind (pack m True) (\<lambda>pidx. Inr (pidx, B'))))"

definition visit_or ::
  "graph \<Rightarrow> build_call \<Rightarrow> var list \<Rightarrow> qvar list \<Rightarrow> pexpr \<Rightarrow> pexpr \<Rightarrow> builder \<Rightarrow> (segmented \<times> builder) result" where
  "visit_or G rec freeVars qvars lhs rhs B =
     iassert (length freeVars = 2) ''For now, we only support matrix path expressions''
       (rbind
          (if length qvars = 0
           then rbind (buildIndex rec lhs (freeVars ! 0) (freeVars ! 1) B) (\<lambda>(lhsIndex, B1).
                rbind (buildIndex rec rhs (freeVars ! 0) (freeVars ! 1) B1) (\<lambda>(rhsIndex, B2).
                rbind (unionIndices lhsIndex rhsIndex) (\<lambda>m. Inr (m, B2))))
           else iassert (length qvars = 1) ''For now, we only support one quantified variable''
                  (rbind (buildIndices rec lhs rhs (freeVars ! 0) (getVar (qvars ! 0)) (freeVars ! 1) B) (\<lambda>((s, q), B1).
                   rbind (getSet_pe (Or freeVars qvars lhs rhs) (freeVars ! 1)) (\<lambda>sinkSet.
                   rbind (getBinding (bindings B1) sinkSet) (\<lambda>ka. rbind (getSet G ka) (\<lambda>K.
                   rbind (set_elements K) (\<lambda>sinkElems.
                   rbind (disjoinIndices sinkElems s q) (\<lambda>m. Inr (m, B1)))))))))
          (\<lambda>(m, B'). rbind (pack m True) (\<lambda>pidx. Inr (pidx, B'))))"

fun visit :: "graph \<Rightarrow> build_call \<Rightarrow> pexpr \<Rightarrow> builder \<Rightarrow> (segmented \<times> builder) result" where
  "visit G rec (Link t l r st) B = rbind (visit_link G (bindings B) t l r st) (\<lambda>pidx. Inr (pidx, B))"
| "visit G rec (And fvs qvs l r) B = visit_and rec fvs qvs l r B"
| "visit G rec (Or fvs qvs l r) B = visit_or G rec fvs qvs l r B"
| "visit G rec (Renamed e ren) B = visit G rec e B"

subsection \<open>Memoized building\<close>

text \<open>
  The memo table is a \<^verbatim>\<open>std::map\<close> keyed by an expression and an endpoint, where keys are the same when
  neither is less than the other. Which keys a lookup compares depends on the shape of the tree; the
  model compares all of them, so that it is undefined when any of these comparisons is.
\<close>

definition key_lt :: "(pe_kind \<Rightarrow> nat) \<Rightarrow> pexpr \<times> nat \<Rightarrow> pexpr \<times> nat \<Rightarrow> bool result" where
  "key_lt tindex a b =
     rbind (pe_lt tindex (fst a) (fst b)) (\<lambda>l. if l then Inr True else
     rbind (pe_lt tindex (fst b) (fst a)) (\<lambda>g. Inr (\<not> g \<and> snd a < snd b)))"

fun memo_find :: "(pe_kind \<Rightarrow> nat) \<Rightarrow> pexpr \<times> nat \<Rightarrow> ((pexpr \<times> nat) \<times> segmented) list \<Rightarrow> segmented option result" where
  "memo_find tindex k [] = Inr None"
| "memo_find tindex k ((k', v) # m) =
     rbind (key_lt tindex k k') (\<lambda>l. rbind (key_lt tindex k' k) (\<lambda>g.
     rbind (memo_find tindex k m) (\<lambda>rest. Inr (if \<not> l \<and> \<not> g then Some v else rest))))"

definition memo_insert ::
  "(pe_kind \<Rightarrow> nat) \<Rightarrow> pexpr \<times> nat \<Rightarrow> segmented \<Rightarrow> builder \<Rightarrow> builder result" where
  "memo_insert tindex k v B =
     rbind (memo_find tindex k (pathIndices B)) (\<lambda>found.
     Inr (if found = None then B\<lparr>pathIndices := pathIndices B @ [(k, v)]\<rparr> else B))"

text \<open>Every location leads to one of the given expressions, so the recursion of the builder is structural.\<close>

lemma getVarToLocationsMap_mem:
  assumes "getVarToLocationsMap es = Inr m" and "m a = Some ls" and "p \<in> set ls"
  shows "fst p \<in> set es"
proof -
  let ?P = "\<lambda>m. \<forall>a ls p. m a = Some ls \<longrightarrow> p \<in> set ls \<longrightarrow> fst p \<in> set es"
  have inner: "?P t" if "rfold (addLocation e) xs s = Inr t" "?P s" "e \<in> set es" for e xs s t
  proof (rule rfold_invariant [OF that(1), of ?P])
    fix x u t assume P: "?P u" and t: "addLocation e x u = Inr t"
    obtain v :: var where "u(v_addr v \<mapsto> (case u (v_addr v) of None \<Rightarrow> [] | Some ls \<Rightarrow> ls) @ [(e, x)]) = t"
      using t unfolding addLocation_def rbind_eq_Inr sum.inject by (elim exE conjE)
    with P that(3) show "?P t" by (auto split: option.splits if_splits) blast+
  qed (rule that(2))
  have "?P m"
  proof (rule rfold_invariant [OF assms(1) [unfolded getVarToLocationsMap_def], of ?P])
    fix e s t assume "e \<in> set es" "?P s" "rfold (addLocation e) [0..<getNumPathEndpoints e] s = Inr t"
    then show "?P t" using inner [of e "[0..<getNumPathEndpoints e]" s t] by blast
  qed simp
  with assms(2,3) show ?thesis by blast
qed

lemma firstLocation_mem:
  assumes "getVarToLocationsMap es = Inr m" and "firstLocation m v = Inr loc"
  shows "fst loc \<in> set es"
proof -
  obtain ls where ls: "m (v_addr v) = Some ls" "0 < length ls" "loc = ls ! 0"
    using assms(2) by (auto simp: firstLocation_def nth_result_eq_Inr split: option.splits)
  then have "loc \<in> set ls" by simp
  from getVarToLocationsMap_mem [OF assms(1) ls(1) this] show ?thesis .
qed

lemma rbind_cong [fundef_cong]: "m = m' \<Longrightarrow> (\<And>x. m' = Inr x \<Longrightarrow> f x = g x) \<Longrightarrow> rbind m f = rbind m' g"
  by (cases m') simp_all

lemma buildIndex_cong:
  "(\<And>ep B. rec e ep B = rec' e ep B) \<Longrightarrow> buildIndex rec e v w B = buildIndex rec' e v w B"
  unfolding buildIndex_def iassert_def
  by (intro rbind_cong refl if_cong) (use firstLocation_mem in fastforce)

lemma buildIndices_cong:
  assumes "\<And>ep B. rec l ep B = rec' l ep B" and "\<And>ep B. rec r ep B = rec' r ep B"
  shows "buildIndices rec l r v q w B = buildIndices rec' l r v q w B"
proof -
  have "rec (fst loc) ep B = rec' (fst loc) ep B"
    if "getVarToLocationsMap [l, r] = Inr m" "firstLocation m u = Inr loc" for m u loc ep B
    using firstLocation_mem [OF that] assms by auto
  then show ?thesis unfolding buildIndices_def iassert_def Let_def
    by (intro rbind_cong refl if_cong) (auto split: prod.splits intro!: rbind_cong)
qed

lemma visit_cong [fundef_cong]:
  assumes "G = G'" and "e = e'" and "B = B'" and rec: "\<And>d ep B. size d < size e' \<Longrightarrow> rec d ep B = rec' d ep B"
  shows "visit G rec e B = visit G' rec' e' B'"
proof -
  have "visit G rec e B = visit G rec' e B" if "\<And>d ep B. size d < size e \<Longrightarrow> rec d ep B = rec' d ep B" for e
    using that
  proof (induction e)
    case (And fvs qvs l r)
    have "rec l = rec' l" "rec r = rec' r" using And.prems by (auto simp: fun_eq_iff)
    then have "buildIndex rec l = buildIndex rec' l" "buildIndex rec r = buildIndex rec' r"
        "buildIndices rec l r = buildIndices rec' l r"
      using buildIndex_cong [of rec l rec'] buildIndex_cong [of rec r rec'] buildIndices_cong [of rec l rec' r]
      by (auto simp: fun_eq_iff)
    then show ?case by (simp add: visit_and_def)
  next
    case (Or fvs qvs l r)
    have "rec l = rec' l" "rec r = rec' r" using Or.prems by (auto simp: fun_eq_iff)
    then have "buildIndex rec l = buildIndex rec' l" "buildIndex rec r = buildIndex rec' r"
        "buildIndices rec l r = buildIndices rec' l r"
      using buildIndex_cong [of rec l rec'] buildIndex_cong [of rec r rec'] buildIndices_cong [of rec l rec' r]
      by (auto simp: fun_eq_iff)
    then show ?case by (simp add: visit_or_def)
  qed simp_all
  with assms show ?thesis by simp
qed

function buildSegmented ::
  "graph \<Rightarrow> (pe_kind \<Rightarrow> nat) \<Rightarrow> pexpr \<Rightarrow> nat \<Rightarrow> builder \<Rightarrow> (segmented \<times> builder) result" where
  "buildSegmented G tindex e sourceEndpoint B =
     rbind (memo_find tindex (e, sourceEndpoint) (pathIndices B)) (\<lambda>found.
     case found of
       Some pidx \<Rightarrow> Inr (pidx, B)
     | None \<Rightarrow>
         rbind (visit G (buildSegmented G tindex) e B) (\<lambda>(pidx, B').
         rbind (memo_insert tindex (e, sourceEndpoint) pidx B') (\<lambda>B2. Inr (pidx, B2))))"
  by pat_completeness auto
termination by (relation "measure (\<lambda>(_, _, e, _, _). size e)") auto

declare buildSegmented.simps [simp del]

end
