(* ===== verification/Path_Index_Rows.thy ===== *)
theory Path_Index_Rows
  imports Path_Indices
begin

text \<open>
  Path indices as lists of rows. The locale \<open>path_index\<close> is the interface of \<^verbatim>\<open>PathIndexImpl\<close>
  (\<^verbatim>\<open>src/src/path_indices.h\<close>): the loops of the builder that read indices are computed in it once, and the
  segmented and the set endpoint index are its interpretations. Packing a map of neighbor lists yields
  the segmented index of its rows.
\<close>

section \<open>Maps with the keys 0 to n-1\<close>

definition enum :: "nat \<Rightarrow> (nat \<Rightarrow> 'v) \<Rightarrow> (nat \<times> 'v) list" where
  "enum n r = map (\<lambda>x. (x, r x)) [0..<n]"

lemma length_enum [simp]: "length (enum n r) = n"
  by (simp add: enum_def)

lemma fst_enum [simp]: "fst ` set (enum n r) = {..<n}" "map fst (enum n r) = [0..<n]"
  by (force simp: enum_def, simp add: enum_def comp_def)

lemma enum_0 [simp]: "enum 0 r = []"
  by (simp add: enum_def)

lemma enum_cong: "(\<And>x. x < n \<Longrightarrow> r x = r' x) \<Longrightarrow> enum n r = enum n r'"
  by (simp add: enum_def)

lemma map_of_enum: "map_of (enum n r) x = (if x < n then Some (r x) else None)"
proof (induction n)
  case (Suc n)
  have "enum (Suc n) r = enum n r @ [(n, r n)]" by (simp add: enum_def)
  with Suc show ?case by (auto simp: map_add_def less_Suc_eq split: option.splits)
qed simp

lemma insort_last: "\<forall>p \<in> set xs. fst p < k \<Longrightarrow> insort_key fst (k, v) xs = xs @ [(k, v)]" for k :: "'k::linorder"
  by (induction xs) auto

lemma smap_insert_enum [simp]: "smap_insert n v (enum n r) = enum (Suc n) (r(n := v))"
proof -
  have "\<forall>p \<in> set (enum n r). fst p < n" by (auto simp: enum_def)
  then show ?thesis by (simp add: smap_insert_def insort_last) (simp add: enum_def)
qed

lemma smap_modify_enum [simp]: "k < n \<Longrightarrow> smap_modify k f (enum n r) = Inr (enum n (r(k := f (r k))))"
  by (simp add: smap_modify_def) (simp add: enum_def)

section \<open>Sorted lists as sets\<close>

lemma sset_insert_sorted: "finite A \<Longrightarrow> sset_insert x (sorted_list_of_set A) = sorted_list_of_set (insert x A)"
  by (cases "x \<in> A") (simp_all add: sset_insert_def insert_absorb sorted_list_of_set_insert_remove)

text \<open>The state of a map of neighbor sets, and adding neighbors to it.\<close>

definition nbr_map :: "nat \<Rightarrow> (nat \<Rightarrow> nat set) \<Rightarrow> (nat \<times> nat list) list" where
  "nbr_map n A = enum n (\<lambda>x. sorted_list_of_set (A x))"

lemma nbr_map_0 [simp]: "nbr_map 0 A = []"
  by (simp add: nbr_map_def)

lemma nbr_map_cong: "(\<And>x. x < n \<Longrightarrow> A x = A' x) \<Longrightarrow> nbr_map n A = nbr_map n A'"
  by (auto simp: nbr_map_def intro: enum_cong)

lemma nbr_map_insert [simp]: "smap_insert n [] (nbr_map n A) = nbr_map (Suc n) (A(n := {}))"
  unfolding nbr_map_def by (simp, rule enum_cong) simp

lemma addNeighbor_nbr_map [simp]:
  assumes "x < n" and "finite (A x)"
  shows "addNeighbor x y (nbr_map n A) = Inr (nbr_map n (A(x := insert y (A x))))"
proof -
  have "(\<lambda>z. sorted_list_of_set (A z))(x := sset_insert y (sorted_list_of_set (A x)))
      = (\<lambda>z. sorted_list_of_set ((A(x := insert y (A x))) z))"
    using sset_insert_sorted [OF assms(2)] by auto
  with assms(1) show ?thesis by (simp add: addNeighbor_def nbr_map_def)
qed

lemma addNeighbors:
  "x < n \<Longrightarrow> finite (A x) \<Longrightarrow> rfold (addNeighbor x) ys (nbr_map n A) = Inr (nbr_map n (A(x := A x \<union> set ys)))"
proof (induction ys arbitrary: A)
  case (Cons y ys)
  let ?A = "A(x := insert y (A x))"
  have "rfold (addNeighbor x) (y # ys) (nbr_map n A) = rfold (addNeighbor x) ys (nbr_map n ?A)"
    using Cons.prems by simp
  also have "\<dots> = Inr (nbr_map n (?A(x := ?A x \<union> set ys)))" by (rule Cons.IH) (use Cons.prems in simp_all)
  also have "?A(x := ?A x \<union> set ys) = A(x := A x \<union> set (y # ys))" by (simp add: fun_eq_iff)
  finally show ?case .
qed simp

lemma addNeighbors_if:
  "x < n \<Longrightarrow> finite (A x) \<Longrightarrow>
   rfold (\<lambda>y m. if P y then addNeighbor x y m else Inr m) ys (nbr_map n A) =
   Inr (nbr_map n (A(x := A x \<union> {y \<in> set ys. P y})))"
proof (induction ys arbitrary: A)
  case (Cons y ys)
  show ?case
  proof (cases "P y")
    case True
    let ?A = "A(x := insert y (A x))" and ?f = "\<lambda>y m. if P y then addNeighbor x y m else Inr m"
    have "rfold ?f (y # ys) (nbr_map n A) = rfold ?f ys (nbr_map n ?A)" using Cons.prems True by simp
    also have "\<dots> = Inr (nbr_map n (?A(x := ?A x \<union> {z \<in> set ys. P z})))" by (rule Cons.IH) (use Cons.prems in simp_all)
    also have "?A(x := ?A x \<union> {z \<in> set ys. P z}) = A(x := A x \<union> {z \<in> set (y # ys). P z})"
      using True by (auto simp: fun_eq_iff)
    finally show ?thesis .
  next
    case False
    then have "{z \<in> set (y # ys). P z} = {z \<in> set ys. P z}" by auto
    with Cons.prems Cons.IH [of A] False show ?thesis by simp
  qed
qed simp

text \<open>A loop over all elements that fills one row per round.\<close>

lemma fill_rows:
  assumes "\<And>x A. x < n \<Longrightarrow> f x (nbr_map x A) = Inr (nbr_map (Suc x) (A(x := R x)))"
  shows "rfold f [0..<n] [] = Inr (nbr_map n R)"
proof -
  have "rfold f [0..<k] [] = Inr (nbr_map k R)" if "k \<le> n" for k
    using that
  proof (induction k)
    case (Suc k)
    have "R(k := R k) = R" by simp
    with Suc assms [of k R] show ?case by (simp add: rfold_append)
  qed simp
  then show ?thesis by simp
qed

text \<open>A loop that changes the rows of a complete map.\<close>

lemma update_rows:
  fixes g :: "'a \<Rightarrow> (nat \<Rightarrow> nat set) \<Rightarrow> (nat \<Rightarrow> nat set)"
  assumes "\<And>x A. x \<in> set xs \<Longrightarrow> (\<And>z. finite (A z)) \<Longrightarrow> f x (nbr_map n A) = Inr (nbr_map n (g x A))"
    and "\<And>x A. x \<in> set xs \<Longrightarrow> (\<And>z. finite (A z)) \<Longrightarrow> (\<And>z. finite (g x A z))" and "\<And>z. finite (A z)"
  shows "rfold f xs (nbr_map n A) = Inr (nbr_map n (fold g xs A))"
  using assms
proof (induction xs arbitrary: A)
  case (Cons x xs)
  have "rfold f xs (nbr_map n (g x A)) = Inr (nbr_map n (fold g xs (g x A)))"
    by (rule Cons.IH) (use Cons.prems in auto)
  with Cons.prems show ?case by simp
qed simp

section \<open>The interface of path indices\<close>

locale path_index =
  fixes size_of :: "'i \<Rightarrow> nat"
    and count :: "'i \<Rightarrow> nat \<Rightarrow> nat result"
    and nbrs :: "'i \<Rightarrow> nat \<Rightarrow> nat list result"
    and valid :: "'i \<Rightarrow> bool"
  assumes nbrs_total: "valid p \<Longrightarrow> x < size_of p \<Longrightarrow> \<exists>ns. nbrs p x = Inr ns \<and> count p x = Inr (length ns)"
begin

definition row :: "'i \<Rightarrow> nat \<Rightarrow> nat list" where
  "row p x = (case nbrs p x of Inl _ \<Rightarrow> [] | Inr ns \<Rightarrow> ns)"

lemma nbrs_row: "valid p \<Longrightarrow> x < size_of p \<Longrightarrow> nbrs p x = Inr (row p x)"
  using nbrs_total [of p x] by (auto simp: row_def)

lemma count_row: "valid p \<Longrightarrow> x < size_of p \<Longrightarrow> count p x = Inr (length (row p x))"
  using nbrs_total [of p x] by (auto simp: row_def)

lemma collect_loop:
  assumes "valid p"
  shows "rfold (\<lambda>x m. rbind (nbrs p x) (\<lambda>ns. rfold (addNeighbor x) ns (smap_insert x [] m))) [0..<size_of p] []
    = Inr (nbr_map (size_of p) (\<lambda>x. set (row p x)))"
  by (rule fill_rows) (simp add: nbrs_row [OF assms] addNeighbors)

lemma intersect_loop:
  assumes "valid p" and "size_of p \<le> n"
  shows "rfold (\<lambda>x m. rbind (nbrs p x) (\<lambda>ns.
      rfold (\<lambda>y m. rbind (map_at (map_of (nbr_map n L)) x) (\<lambda>S. if y \<in> set S then addNeighbor x y m else Inr m))
        ns (smap_insert x [] m))) [0..<size_of p] []
    = Inr (nbr_map (size_of p) (\<lambda>x. {y \<in> set (row p x). y \<in> set (sorted_list_of_set (L x))}))"
proof (rule fill_rows)
  fix x :: nat and A assume x: "x < size_of p"
  then have at: "map_at (map_of (nbr_map n L)) x = Inr (sorted_list_of_set (L x))"
    using assms(2) by (simp add: nbr_map_def map_of_enum)
  have "rfold (\<lambda>y m. if y \<in> set (sorted_list_of_set (L x)) then addNeighbor x y m else Inr m) (row p x)
      (nbr_map (Suc x) (A(x := {}))) = Inr (nbr_map (Suc x) (A(x := {y \<in> set (row p x). y \<in> set (sorted_list_of_set (L x))})))"
    using addNeighbors_if [of x "Suc x" "A(x := {})" "\<lambda>y. y \<in> set (sorted_list_of_set (L x))" "row p x"] by simp
  then show "rbind (nbrs p x) (\<lambda>ns. rfold (\<lambda>y m. rbind (map_at (map_of (nbr_map n L)) x)
        (\<lambda>S. if y \<in> set S then addNeighbor x y m else Inr m)) ns (smap_insert x [] (nbr_map x A))) =
      Inr (nbr_map (Suc x) (A(x := {y \<in> set (row p x). y \<in> set (sorted_list_of_set (L x))})))"
    by (simp only: nbrs_row [OF assms(1) x] at rbind_simps nbr_map_insert)
qed

lemma add_rows_fold:
  "fold (\<lambda>x A. A(x := A x \<union> set (row p x))) [0..<k] L x = (if x < k then L x \<union> set (row p x) else L x)"
  by (induction k arbitrary: x) (auto simp: less_Suc_eq)

lemma union_loop:
  assumes "valid p" and "size_of p = n" and fin: "\<And>z. finite (L z)"
  shows "rfold (\<lambda>x m. iassert (x \<in> set (map fst m)) msg (rbind (nbrs p x) (\<lambda>ns. rfold (addNeighbor x) ns m)))
      [0..<size_of p] (nbr_map n L) = Inr (nbr_map n (\<lambda>x. L x \<union> set (row p x)))"
proof -
  have "rfold (\<lambda>x m. iassert (x \<in> set (map fst m)) msg (rbind (nbrs p x) (\<lambda>ns. rfold (addNeighbor x) ns m)))
      [0..<size_of p] (nbr_map n L) = Inr (nbr_map n (fold (\<lambda>x A. A(x := A x \<union> set (row p x))) [0..<size_of p] L))"
  proof (rule update_rows)
    fix x and A :: "nat \<Rightarrow> nat set" assume "x \<in> set [0..<size_of p]" and "\<And>z. finite (A z)"
    then show "iassert (x \<in> set (map fst (nbr_map n A))) msg (rbind (nbrs p x) (\<lambda>ns. rfold (addNeighbor x) ns (nbr_map n A))) =
        Inr (nbr_map n (A(x := A x \<union> set (row p x))))"
      using assms(1,2) by (simp add: nbrs_row addNeighbors) (simp add: nbr_map_def)
  qed (use fin in auto)
  also have "nbr_map n (fold (\<lambda>x A. A(x := A x \<union> set (row p x))) [0..<size_of p] L) = nbr_map n (\<lambda>x. L x \<union> set (row p x))"
    by (rule nbr_map_cong) (use assms(2) add_rows_fold [of p "size_of p" L] in auto)
  finally show ?thesis .
qed

lemma compose_row:
  assumes "valid q" and "x < n" and "finite (A x)" and "set qs \<subseteq> {..<size_of q}"
  shows "rfold (\<lambda>z m. rbind (nbrs q z) (\<lambda>ns. rfold (addNeighbor x) ns m)) qs (nbr_map n A) =
    Inr (nbr_map n (A(x := A x \<union> (\<Union>z \<in> set qs. set (row q z)))))"
  using assms(3,4)
proof (induction qs arbitrary: A)
  case (Cons z qs)
  let ?f = "\<lambda>z m. rbind (nbrs q z) (\<lambda>ns. rfold (addNeighbor x) ns m)" and ?A = "A(x := A x \<union> set (row q z))"
  have "rfold ?f (z # qs) (nbr_map n A) = rfold ?f qs (nbr_map n ?A)"
    using Cons.prems assms(2) by (simp add: nbrs_row [OF assms(1)] addNeighbors)
  also have "\<dots> = Inr (nbr_map n (?A(x := ?A x \<union> (\<Union>z \<in> set qs. set (row q z)))))"
    by (rule Cons.IH) (use Cons.prems in simp_all)
  also have "?A(x := ?A x \<union> (\<Union>z \<in> set qs. set (row q z))) = A(x := A x \<union> (\<Union>z \<in> set (z # qs). set (row q z)))"
    by (auto simp: fun_eq_iff)
  finally show ?case .
qed simp

lemma compose_loop:
  assumes "valid p" and "valid q" and "\<And>x. x < size_of p \<Longrightarrow> set (row p x) \<subseteq> {..<size_of q}"
  shows "rfold (\<lambda>x m. rbind (nbrs p x) (\<lambda>qs.
      rfold (\<lambda>z m. rbind (nbrs q z) (\<lambda>ns. rfold (addNeighbor x) ns m)) qs (smap_insert x [] m))) [0..<size_of p] []
    = Inr (nbr_map (size_of p) (\<lambda>x. \<Union>z \<in> set (row p x). set (row q z)))"
  by (rule fill_rows) (use compose_row [OF assms(2)] assms(3) in \<open>simp add: nbrs_row [OF assms(1)]\<close>)

end

section \<open>Segmented indices\<close>

text \<open>The segmented index with the given rows.\<close>

definition seg_of :: "nat list list \<Rightarrow> segmented" where
  "seg_of rows = \<lparr>numElems = length rows,
     coordsData = map (\<lambda>i. Some (length (concat (take i rows)))) [0..<length rows + 1],
     sinksData = map Some (concat rows)\<rparr>"

definition seg_valid :: "segmented \<Rightarrow> bool" where
  "seg_valid p \<longleftrightarrow> (\<exists>rows. p = seg_of rows \<and> (\<forall>r \<in> set rows. length r < 2 ^ 32))"

lemma read_cell_Some: "i < length m \<Longrightarrow> m ! i = Some v \<Longrightarrow> read_cell m i = Inr v"
  by (simp add: read_cell_def)

lemma to_unsigned_nat: "0 \<le> i \<Longrightarrow> i < 2 ^ 32 \<Longrightarrow> to_unsigned i = nat i"
  by (simp add: to_unsigned_def)

lemma concat_take_Suc: "i < length rows \<Longrightarrow> concat (take (Suc i) rows) = concat (take i rows) @ rows ! i"
  by (simp add: take_Suc_conv_app_nth)

lemma coords_seg_of: "i \<le> length rows \<Longrightarrow> read_cell (coordsData (seg_of rows)) i = Inr (length (concat (take i rows)))"
  by (intro read_cell_Some) (simp_all add: seg_of_def del: upt_Suc)

lemma concat_nth_row:
  assumes "x < length rows" and "j < length (rows ! x)"
  shows "concat rows ! (length (concat (take x rows)) + j) = rows ! x ! j"
    and "length (concat (take x rows)) + j < length (concat rows)"
proof -
  have "rows = take x rows @ rows ! x # drop (Suc x) rows" using assms(1) by (rule id_take_nth_drop)
  then have "concat rows = concat (take x rows) @ rows ! x @ concat (drop (Suc x) rows)"
    by (metis concat.simps(2) concat_append)
  then show "concat rows ! (length (concat (take x rows)) + j) = rows ! x ! j"
    "length (concat (take x rows)) + j < length (concat rows)"
    using assms(2) by (simp_all add: nth_append)
qed

lemma numNeighbors_seg_of:
  assumes "x < length rows" and "length (rows ! x) < 2 ^ 32"
  shows "numNeighbors (seg_of rows) x = Inr (length (rows ! x))"
proof -
  have "int (length (concat (take (Suc x) rows))) - int (length (concat (take x rows))) = int (length (rows ! x))"
    using assms(1) by (simp add: concat_take_Suc)
  moreover have "numElems (seg_of rows) = length rows" by (simp add: seg_of_def)
  ultimately show ?thesis using assms coords_seg_of [of x rows] coords_seg_of [of "Suc x" rows]
    by (simp add: numNeighbors_def to_unsigned_nat)
qed

lemma neighbors_seg_of:
  assumes "x < length rows" and "length (rows ! x) < 2 ^ 32"
  shows "neighbors (seg_of rows) x = Inr (rows ! x)"
proof -
  let ?s = "length (concat (take x rows))"
  have "rmap (\<lambda>j. read_cell (sinksData (seg_of rows)) (?s + j)) [0..<length (rows ! x)] =
      Inr (map (\<lambda>j. rows ! x ! j) [0..<length (rows ! x)])"
    by (rule rmap_ok, rule read_cell_Some) (use concat_nth_row [OF assms(1)] in \<open>simp_all add: seg_of_def\<close>)
  then show ?thesis using assms coords_seg_of [of x rows]
    by (simp add: neighbors_def numNeighbors_seg_of map_nth)
qed

lemma numElems_seg_of [simp]: "numElems (seg_of rows) = length rows"
  by (simp add: seg_of_def)

interpretation seg: path_index numElems numNeighbors neighbors seg_valid
proof unfold_locales
  fix p x assume "seg_valid p" "x < numElems p"
  then obtain rows where r: "p = seg_of rows" "x < length rows" "length (rows ! x) < 2 ^ 32"
    by (auto simp: seg_valid_def)
  from neighbors_seg_of [OF r(2,3)] numNeighbors_seg_of [OF r(2,3)] r(1)
  show "\<exists>ns. neighbors p x = Inr ns \<and> numNeighbors p x = Inr (length ns)" by simp
qed

lemma seg_row: "x < length rows \<Longrightarrow> length (rows ! x) < 2 ^ 32 \<Longrightarrow> seg.row (seg_of rows) x = rows ! x"
  by (simp add: seg.row_def neighbors_seg_of)

lemma seg_valid_seg_of: "(\<And>r. r \<in> set rows \<Longrightarrow> length r < 2 ^ 32) \<Longrightarrow> seg_valid (seg_of rows)"
  by (auto simp: seg_valid_def)

section \<open>Set endpoint indices\<close>

definition ep_valid :: "set_data \<Rightarrow> bool" where
  "ep_valid S \<longleftrightarrow> (\<exists>G s. graph_ok G \<and> sets G s = Some S) \<and> 0 < getCardinality S \<and>
     numElements S < int (capacity S) \<and> numElements S < 2 ^ 32"

lemma ep_neighbors_eq:
  assumes "graph_ok G" and "sets G s = Some S" and "0 < getCardinality S"
    and "numElements S < int (capacity S)" and "x < nat (numElements S)"
  shows "ep_neighbors S x = Inr (map to_unsigned (edges_of G s ! x))"
proof -
  have e: "0 \<le> int x" "int x < numElements S" using assms(5) by simp_all
  have "rmap (\<lambda>ep. case ep of None \<Rightarrow> Inl Undefined | Some i \<Rightarrow> Inr (to_unsigned i)) (map Some es) =
      Inr (map to_unsigned es)" for es
    by (induction es) simp_all
  with getEndpoints_eq [OF assms(1,2) e assms(3)] assms(4) e show ?thesis by (simp add: ep_neighbors_def)
qed

lemma length_edge: "sets G s = Some S \<Longrightarrow> x < nat (numElements S) \<Longrightarrow> length (edges_of G s ! x) = getCardinality S"
  by (simp add: edges_of_def edge_at_def)

interpretation ep: path_index ep_numElements ep_numNeighbors ep_neighbors ep_valid
proof unfold_locales
  fix S x assume v: "ep_valid S" and x: "x < ep_numElements S"
  then obtain G s where g: "graph_ok G" "sets G s = Some S" "0 < getCardinality S"
    "numElements S < int (capacity S)" "numElements S < 2 ^ 32" by (auto simp: ep_valid_def)
  have "0 \<le> numElements S" using graph_okD(1) [OF g(1,2)] by (simp add: set_ok_def)
  then have x': "x < nat (numElements S)" using x g(5) by (simp add: ep_numElements_def to_unsigned_nat)
  from ep_neighbors_eq [OF g(1-4) x'] length_edge [OF g(2) x']
  show "\<exists>ns. ep_neighbors S x = Inr ns \<and> ep_numNeighbors S x = Inr (length ns)"
    by (simp add: ep_numNeighbors_def)
qed

section \<open>Packing\<close>

lemma packRow_step:
  fixes rows :: "nat list list"
  defines "start i \<equiv> length (concat (take i rows))"
  assumes "i < length rows" and f: "\<And>xs. (if srt then sort xs else xs) = f xs"
  shows "packRow srt (i, rows ! i)
      (start i, map (\<lambda>a. Some (start a)) [0..<i] @ replicate (Suc (length rows) - i) None,
       map Some (concat (map f (take i rows))) @ replicate (length (concat rows) - start i) None)
    = Inr (start (Suc i), map (\<lambda>a. Some (start a)) [0..<Suc i] @ replicate (length rows - i) None,
       map Some (concat (map f (take (Suc i) rows))) @ replicate (length (concat rows) - start (Suc i)) None)"
proof -
  have lf1: "length (f xs) = length xs" for xs by (simp flip: f)
  have lf: "length (concat (map f xs)) = length (concat xs)" for xs :: "nat list list"
    by (induction xs) (simp_all add: lf1)
  have S: "start (Suc i) = start i + length (rows ! i)" using assms(2) by (simp add: start_def concat_take_Suc)
  have le: "start (Suc i) \<le> length (concat rows)"
    unfolding start_def by (metis append_take_drop_id concat_append le_add1 length_append)
  have w: "mem_write (map (\<lambda>a. Some (start a)) [0..<i] @ replicate (Suc (length rows) - i) None) (int i) (Some (start i)) =
      Inr (map (\<lambda>a. Some (start a)) [0..<Suc i] @ replicate (length rows - i) None)"
    using assms(2) by (simp add: mem_write_def list_update_append Suc_diff_le)
  have c: "memcpy_cells (map Some (concat (map f (take i rows))) @ replicate (length (concat rows) - start i) None)
      (start i) (f (rows ! i)) =
      Inr (map Some (concat (map f (take (Suc i) rows))) @ replicate (length (concat rows) - start (Suc i)) None)"
    using assms(2) S le lf [of "take i rows"] by (simp add: memcpy_cells_def take_Suc_conv_app_nth start_def lf1)
  show ?thesis
  proof (cases "rows ! i = []")
    case True
    then have "concat (map f (take (Suc i) rows)) = concat (map f (take i rows))"
      using assms(2) lf1 [of "[]"] by (simp add: take_Suc_conv_app_nth)
    with True w S show ?thesis by (simp add: packRow_def)
  next
    case False
    with w c S show ?thesis by (simp add: packRow_def f)
  qed
qed

lemma pack_enum:
  assumes "length rows = n" and "\<And>x. x < n \<Longrightarrow> r x = rows ! x" and f: "\<And>xs. (if srt then sort xs else xs) = f xs"
  shows "pack (enum n r) srt = Inr (seg_of (map f rows))"
proof -
  define start where "start i = length (concat (take i rows))" for i
  let ?st = "\<lambda>i. (start i, map (\<lambda>a. Some (start a)) [0..<i] @ replicate (Suc (length rows) - i) None,
       map Some (concat (map f (take i rows))) @ replicate (length (concat rows) - start i) None)"
  have lf1: "length (f xs) = length xs" for xs by (simp flip: f)
  have lf: "length (concat (map f xs)) = length (concat xs)" for xs :: "nat list list"
    by (induction xs) (simp_all add: lf1)
  have loop: "rfold (packRow srt) (map (\<lambda>x. (x, rows ! x)) [0..<i]) (?st 0) = Inr (?st i)" if "i \<le> n" for i
    using that
  proof (induction i)
    case (Suc i)
    with packRow_step [of i rows srt f, folded start_def, OF _ f] assms(1) show ?case by (simp add: rfold_append)
  qed simp
  have e: "enum n r = map (\<lambda>x. (x, rows ! x)) [0..<n]" using assms(2) by (simp add: enum_def)
  have s: "sum_list (map (\<lambda>p. length (snd p)) (enum n r)) = length (concat rows)"
    using assms(1) by (simp add: length_concat e) (rule arg_cong [of _ _ sum_list], rule nth_equalityI, simp_all)
  have "start n = length (concat rows)" using assms(1) by (simp add: start_def)
  moreover have "mem_write (map (\<lambda>a. Some (start a)) [0..<n] @ [None]) (int n) (Some (start n)) =
      Inr (map (\<lambda>a. Some (start a)) [0..<Suc n])"
    by (simp add: mem_write_def list_update_append)
  ultimately show ?thesis using loop [of n] assms(1)
    by (simp add: pack_def s Let_def e [symmetric] start_def seg_of_def comp_def take_map lf)
qed

lemmas pack_sorted = pack_enum [where srt = True and f = sort, simplified]
lemmas pack_unsorted = pack_enum [where srt = False and f = "\<lambda>xs. xs", simplified]

lemma pack_nbr_map: "pack (nbr_map n A) True = Inr (seg_of (map (\<lambda>x. sorted_list_of_set (A x)) [0..<n]))"
  unfolding nbr_map_def
  using pack_sorted [of "map (\<lambda>x. sorted_list_of_set (A x)) [0..<n]" n "\<lambda>x. sorted_list_of_set (A x)"]
  by (simp add: sorted_sort_id comp_def)

section \<open>The combining loops on valid indices\<close>

lemma collect_ok: "seg_valid p \<Longrightarrow> collect p = Inr (nbr_map (numElems p) (\<lambda>x. set (seg.row p x)))"
  by (simp add: collect_def seg.collect_loop)

lemma intersectIndices_ok:
  assumes "seg_valid p" and "seg_valid q" and "numElems q = numElems p"
  shows "intersectIndices p q = Inr (nbr_map (numElems p) (\<lambda>x. set (seg.row p x) \<inter> set (seg.row q x)))"
proof -
  have "{y \<in> set (seg.row q x). y \<in> set (sorted_list_of_set (set (seg.row p x)))} = set (seg.row p x) \<inter> set (seg.row q x)" for x
    by auto
  then show ?thesis using assms seg.intersect_loop [OF assms(2), of "numElems p" "\<lambda>x. set (seg.row p x)"]
    by (simp add: intersectIndices_def collect_ok)
qed

lemma unionIndices_ok:
  assumes "seg_valid p" and "seg_valid q" and "numElems q = numElems p"
  shows "unionIndices p q = Inr (nbr_map (numElems p) (\<lambda>x. set (seg.row p x) \<union> set (seg.row q x)))"
  using assms seg.union_loop [OF assms(2,3), of "\<lambda>x. set (seg.row p x)"]
  by (simp add: unionIndices_def collect_ok)

lemma composeIndices_ok:
  assumes "seg_valid p" and "seg_valid q" and "\<And>x. x < numElems p \<Longrightarrow> set (seg.row p x) \<subseteq> {..<numElems q}"
  shows "composeIndices p q = Inr (nbr_map (numElems p) (\<lambda>x. \<Union>z \<in> set (seg.row p x). set (seg.row q z)))"
  using seg.compose_loop [OF assms] by (simp add: composeIndices_def)

text \<open>The quantified disjunction: first the rows of sources with a neighbor, then the sinks with one.\<close>

lemma add_everywhere:
  "(\<And>z. finite (A z)) \<Longrightarrow> n \<le> k \<Longrightarrow>
   rfold (\<lambda>x. addNeighbor x y) [0..<n] (nbr_map k A) = Inr (nbr_map k (\<lambda>x. if x < n then insert y (A x) else A x))"
proof (induction n)
  case (Suc n)
  have "(\<lambda>x. if x < n then insert y (A x) else A x)(n := insert y (A n)) = (\<lambda>x. if x < Suc n then insert y (A x) else A x)"
    by (auto simp: fun_eq_iff less_Suc_eq)
  with Suc show ?case by (simp add: rfold_append)
qed (simp add: nbr_map_def)

lemma add_all_everywhere:
  "(\<And>z. finite (A z)) \<Longrightarrow>
   rfold (\<lambda>y. rfold (\<lambda>x. addNeighbor x y) [0..<n]) ys (nbr_map n A) = Inr (nbr_map n (\<lambda>x. A x \<union> set ys))"
proof (induction ys arbitrary: A)
  case (Cons y ys)
  have e: "nbr_map n (\<lambda>x. if x < n then insert y (A x) else A x) = nbr_map n (\<lambda>x. insert y (A x))"
    by (rule nbr_map_cong) simp
  from Cons.prems add_everywhere [of A n n y] Cons.IH [of "\<lambda>x. insert y (A x)"] show ?case by (simp add: e)
qed simp

lemma fold_union: "fold (\<lambda>z A x. A x \<union> R z) zs A x = A x \<union> (\<Union>z \<in> set zs. R z)"
  by (induction zs arbitrary: A) auto

lemma disjoinIndices_ok:
  assumes p: "seg_valid p" and q: "seg_valid q"
  shows "disjoinIndices sinkElems p q = Inr (nbr_map (numElems p) (\<lambda>x.
    (if seg.row p x = [] then {} else to_unsigned ` set sinkElems) \<union> (\<Union>z < numElems q. set (seg.row q z))))"
proof -
  let ?R = "\<lambda>x. if seg.row p x = [] then {} else to_unsigned ` set sinkElems"
  let ?f = "\<lambda>source m. rbind (numNeighbors p source) (\<lambda>k.
      if k > 0 then rfold (\<lambda>s. addNeighbor source (to_unsigned s)) sinkElems (smap_insert source [] m)
      else Inr (smap_insert source [] m))"
  have rm: "rfold (\<lambda>s. addNeighbor x (to_unsigned s)) ss m = rfold (addNeighbor x) (map to_unsigned ss) m" for x ss m
    by (induction ss arbitrary: m) (simp_all, metis)
  have first: "rfold ?f [0..<numElems p] [] = Inr (nbr_map (numElems p) ?R)"
    by (rule fill_rows) (simp add: seg.count_row [OF p] rm addNeighbors)
  let ?g = "\<lambda>z (A :: nat \<Rightarrow> nat set) x. A x \<union> set (seg.row q z)"
  have "rfold (\<lambda>z m. rbind (neighbors q z) (\<lambda>sinks.
      rfold (\<lambda>y. rfold (\<lambda>x. addNeighbor x y) [0..<numElems p]) sinks m)) [0..<numElems q] (nbr_map (numElems p) ?R) =
      Inr (nbr_map (numElems p) (fold ?g [0..<numElems q] ?R))"
    by (rule update_rows) (simp_all add: seg.nbrs_row [OF q] add_all_everywhere)
  also have "fold ?g [0..<numElems q] ?R = (\<lambda>x. ?R x \<union> (\<Union>z < numElems q. set (seg.row q z)))"
    by (simp add: fun_eq_iff fold_union atLeast0LessThan)
  finally show ?thesis using first by (simp add: disjoinIndices_def)
qed

end
