(* ===== verification/Path_Index_Links.thy ===== *)
theory Path_Index_Links
  imports Path_Index_Rows
begin

text \<open>
  The indices of single links: the edge-to-vertex index lists the endpoints of every edge, the
  vertex-to-edge index is its transpose, and the vertex-to-vertex index lists the grid points a stencil
  reaches, with periodic boundaries. Each is compared with a relation on element numbers that is read off
  the graph.
\<close>

section \<open>Preliminaries\<close>

definition partial_mem :: "nat \<Rightarrow> 'a list \<Rightarrow> 'a memory" where
  "partial_mem n xs = map Some xs @ replicate (n - length xs) None"

lemma partial_mem_Nil: "replicate n None = partial_mem n []"
  by (simp add: partial_mem_def)

lemma partial_mem_full: "length xs = n \<Longrightarrow> partial_mem n xs = map Some xs"
  by (simp add: partial_mem_def)

lemma partial_mem_write:
  assumes "length xs < n"
  shows "mem_write (partial_mem n xs) (int (length xs)) (Some v) = Inr (partial_mem n (xs @ [v]))"
proof -
  obtain k where k: "n - length xs = Suc k" "n - Suc (length xs) = k" using assms by (cases "n - length xs") auto
  then show ?thesis by (simp add: partial_mem_def mem_write_def list_update_append)
qed

definition bound_to :: "(string \<rightharpoonup> nat) \<Rightarrow> pset option \<Rightarrow> nat \<Rightarrow> bool" where
  "bound_to bs s a \<longleftrightarrow> (\<exists>p. s = Some p \<and> bs (ps_name p) = Some a)"

lemma getBinding_bound [simp]: "bound_to bs s a \<Longrightarrow> getBinding bs s = Inr a"
  by (auto simp: bound_to_def getBinding_def)

lemma bound_to_unique: "bound_to bs s a \<Longrightarrow> bound_to bs s b \<Longrightarrow> a = b"
  by (auto simp: bound_to_def)

lemma set_elements_ok: "0 \<le> numElements S \<Longrightarrow> set_elements S = Inr (map int [0..<nat (numElements S)])"
proof -
  assume "0 \<le> numElements S"
  then have "[0..numElements S - 1] = map int [0..<nat (numElements S)]"
    by (intro nth_equalityI) simp_all
  with \<open>0 \<le> numElements S\<close> show ?thesis by (simp add: set_elements_def elements_def iterate_from_upto)
qed

section \<open>Links between edges and vertices\<close>

text \<open>
  An edge set \<open>ea\<close> links to the vertex set \<open>va\<close> when its endpoints are elements of their sets; the counts
  fit the 32 bits of the arrays.
\<close>

definition links_to :: "graph \<Rightarrow> nat \<Rightarrow> nat \<Rightarrow> bool" where
  "links_to G ea va \<longleftrightarrow> (\<exists>ES VS. sets G ea = Some ES \<and> sets G va = Some VS \<and> 0 < getCardinality ES \<and>
     numElements ES * int (getCardinality ES) < 2 ^ 32 \<and> numElements VS < 2 ^ 32 \<and>
     (\<forall>e < nat (numElements ES). \<forall>i < getCardinality ES. 0 \<le> edges_of G ea ! e ! i \<and>
        (endpointSets ES ! i = va \<longrightarrow> edges_of G ea ! e ! i < numElements VS)))"

definition ev_rel :: "graph \<Rightarrow> nat \<Rightarrow> nat \<Rightarrow> (nat \<times> nat) set" where
  "ev_rel G ea va = {(e, v). \<exists>ES. sets G ea = Some ES \<and> e < nat (numElements ES) \<and>
     (\<exists>i < getCardinality ES. endpointSets ES ! i = va \<and> edges_of G ea ! e ! i = int v)}"

definition ev_prefix :: "graph \<Rightarrow> nat \<Rightarrow> set_data \<Rightarrow> nat \<Rightarrow> nat \<Rightarrow> nat \<Rightarrow> nat list" where
  "ev_prefix G ea ES va e k =
     map (\<lambda>i. nat (edges_of G ea ! e ! i)) (filter (\<lambda>i. endpointSets ES ! i = va) [0..<k])"

abbreviation ev_row :: "graph \<Rightarrow> nat \<Rightarrow> set_data \<Rightarrow> nat \<Rightarrow> nat \<Rightarrow> nat list" where
  "ev_row G ea ES va e \<equiv> ev_prefix G ea ES va e (getCardinality ES)"

lemma length_ev_row: "length (ev_row G ea ES va e) = length (filter (\<lambda>a. a = va) (endpointSets ES))"
proof -
  have "filter (\<lambda>a. a = va) (endpointSets ES) =
      map (\<lambda>i. endpointSets ES ! i) (filter (\<lambda>i. endpointSets ES ! i = va) [0..<length (endpointSets ES)])"
    by (metis (mono_tags, lifting) comp_apply filter_cong filter_map map_nth)
  then show ?thesis by (simp add: ev_prefix_def getCardinality_def)
qed

lemma ev_prefix_Suc:
  "ev_prefix G ea ES va e (Suc k) =
   ev_prefix G ea ES va e k @ (if endpointSets ES ! k = va then [nat (edges_of G ea ! e ! k)] else [])"
  by (simp add: ev_prefix_def)

lemma getEndpoint_edge:
  assumes "graph_ok G" and "sets G s = Some S" and "e < nat (numElements S)" and "i < getCardinality S"
  shows "getEndpoint S (int e) i = Inr (Some (edges_of G s ! e ! i))"
proof -
  have b: "e * getCardinality S + i < nat (numElements S) * getCardinality S" by (rule mixed_radix_less [OF assms(3,4)])
  have ok: "set_ok G S" by (rule graph_okD(1) [OF assms(1,2)])
  then have "nat (numElements S) * getCardinality S \<le> length (endpoints S)"
    by (auto simp: set_ok_def intro!: mult_right_mono)
  with b have "e * getCardinality S + i < length (endpoints S)" by simp
  moreover have "endpoints S ! (e * getCardinality S + i) \<noteq> None" using ok b by (simp add: set_ok_def)
  ultimately have "mem_cell (endpoints S) (int (e * getCardinality S + i)) =
      Inr (Some (the (endpoints S ! (e * getCardinality S + i))))" using mem_cell_at by (metis option.collapse)
  with assms show ?thesis by (simp add: getEndpoint_def edges_of_def edge_at_def)
qed

lemma concat_prefix_length: "(\<And>x. length (f x) = k) \<Longrightarrow> length (concat (map f [0..<n])) = n * k"
  by (induction n) simp_all

lemma evBody_loop:
  fixes G ea ES va
  defines "nnz \<equiv> length (filter (\<lambda>a. a = va) (endpointSets ES))"
    and "n \<equiv> nat (numElements ES)"
  assumes ok: "graph_ok G" "sets G ea = Some ES" and l: "links_to G ea va" and e: "e < n"
    and X: "length X = e * nnz"
  shows "k \<le> getCardinality ES \<Longrightarrow>
    rfold (evBody ES va nnz (int e)) [0..<k] (0, partial_mem (n * nnz) X) =
    Inr (length (ev_prefix G ea ES va e k), partial_mem (n * nnz) (X @ ev_prefix G ea ES va e k))"
proof (induction k)
  case (Suc k)
  let ?pre = "ev_prefix G ea ES va e k" and ?v = "edges_of G ea ! e ! k"
  obtain VS where V: "sets G va = Some VS" "numElements VS < 2 ^ 32"
    "0 \<le> ?v" "endpointSets ES ! k = va \<Longrightarrow> ?v < numElements VS"
    using l ok(2) e Suc.prems by (auto simp: links_to_def n_def)
  have ep: "getEndpoint ES (int e) k = Inr (Some ?v)"
    using getEndpoint_edge [OF ok] e Suc.prems by (simp add: n_def)
  have "evBody ES va nnz (int e) k (length ?pre, partial_mem (n * nnz) (X @ ?pre)) =
      Inr (length (ev_prefix G ea ES va e (Suc k)), partial_mem (n * nnz) (X @ ev_prefix G ea ES va e (Suc k)))"
  proof (cases "endpointSets ES ! k = va")
    case True
    have "length (ev_prefix G ea ES va e (Suc k)) \<le> length (ev_row G ea ES va e)"
    proof -
      have "[0..<getCardinality ES] = [0..<Suc k] @ [Suc k..<getCardinality ES]"
        using Suc.prems upt_add_eq_append [of 0 "Suc k" "getCardinality ES - Suc k"] by simp
      then show ?thesis by (simp only: ev_prefix_def length_map filter_append length_append le_add1)
    qed
    then have "length ?pre < nnz" using True length_ev_row [of G ea ES va e] by (simp add: ev_prefix_Suc nnz_def)
    then have lt: "length (X @ ?pre) < n * nnz" using mixed_radix_less [OF e] X by simp
    have "int e * int nnz + int (length ?pre) = int (length (X @ ?pre))" using X by simp
    then have "mem_write (partial_mem (n * nnz) (X @ ?pre)) (int e * int nnz + int (length ?pre)) (Some (to_unsigned ?v)) =
        Inr (partial_mem (n * nnz) ((X @ ?pre) @ [nat ?v]))"
      using partial_mem_write [OF lt, of "to_unsigned ?v"] V True by (simp add: to_unsigned_nat)
    with True ep Suc.prems show ?thesis by (simp add: evBody_def ev_prefix_Suc getCardinality_def)
  next
    case False
    with Suc.prems show ?thesis by (simp add: evBody_def ev_prefix_Suc getCardinality_def)
  qed
  with Suc show ?case by (simp add: rfold_append)
qed (simp add: ev_prefix_def)

lemma ev_edges_loop:
  fixes G ea ES va
  defines "nnz \<equiv> length (filter (\<lambda>a. a = va) (endpointSets ES))"
    and "n \<equiv> nat (numElements ES)"
  assumes ok: "graph_ok G" "sets G ea = Some ES" and l: "links_to G ea va"
  shows "rfold (\<lambda>e m. rbind (rfold (evBody ES va nnz e) [0..<getCardinality ES] (0, m)) (\<lambda>st. Inr (snd st)))
      (map int [0..<n]) (replicate (n * nnz) None) = Inr (map Some (concat (map (ev_row G ea ES va) [0..<n])))"
proof -
  let ?f = "\<lambda>e m. rbind (rfold (evBody ES va nnz e) [0..<getCardinality ES] (0, m)) (\<lambda>st. Inr (snd st))"
  have len: "length (concat (map (ev_row G ea ES va) [0..<e])) = e * nnz" for e
    by (rule concat_prefix_length) (simp add: length_ev_row nnz_def)
  have "rfold ?f (map int [0..<e]) (replicate (n * nnz) None) =
      Inr (partial_mem (n * nnz) (concat (map (ev_row G ea ES va) [0..<e])))" if "e \<le> n" for e
    using that
  proof (induction e)
    case (Suc e)
    then show ?case using evBody_loop [OF ok l, of e, folded nnz_def n_def, OF _ len [of e] order_refl]
      by (simp add: rfold_append)
  qed (simp add: partial_mem_Nil)
  from this [of n] partial_mem_full [OF len [of n]] show ?thesis by simp
qed

lemma fill_loop:
  "rfold (\<lambda>i m. mem_write m (int i) (Some (f i))) [0..<n] (replicate n None) = Inr (map (\<lambda>i. Some (f i)) [0..<n])"
proof -
  have "rfold (\<lambda>i m. mem_write m (int i) (Some (f i))) [0..<k] (replicate n None) = Inr (partial_mem n (map f [0..<k]))"
    if "k \<le> n" for k
    using that
  proof (induction k)
    case (Suc k)
    then show ?case using partial_mem_write [of "map f [0..<k]" n "f k"] by (simp add: rfold_append)
  qed (simp add: partial_mem_Nil)
  from this [of n] show ?thesis by (simp add: partial_mem_full comp_def)
qed

lemma visit_ev_eq:
  assumes ok: "graph_ok G" "sets G ea = Some ES" and l: "links_to G ea va"
    and b: "bound_to bs (v_set lv) ea" "bound_to bs (v_set rv) va"
  shows "visit_ev G bs lv rv = Inr (seg_of (map (ev_row G ea ES va) [0..<nat (numElements ES)]))"
proof -
  let ?n = "nat (numElements ES)" and ?nnz = "length (filter (\<lambda>a. a = va) (endpointSets ES))"
  have c: "0 < getCardinality ES" using l ok(2) by (auto simp: links_to_def)
  have nn: "0 \<le> numElements ES" using graph_okD(1) [OF ok] by (simp add: set_ok_def)
  have len: "length (concat (map (ev_row G ea ES va) [0..<e])) = e * ?nnz" for e
    by (rule concat_prefix_length) (simp add: length_ev_row)
  have coords: "map (\<lambda>i. Some (length (concat (take i (map (ev_row G ea ES va) [0..<?n]))))) [0..<?n + 1] =
      map (\<lambda>i. Some (i * ?nnz)) [0..<?n + 1]"
  proof (intro map_cong refl)
    fix i assume "i \<in> set [0..<?n + 1]"
    then have "take i (map (ev_row G ea ES va) [0..<?n]) = map (ev_row G ea ES va) [0..<i]" by (auto simp: take_map)
    with len [of i] show "Some (length (concat (take i (map (ev_row G ea ES va) [0..<?n])))) = Some (i * ?nnz)" by simp
  qed
  show ?thesis
    using ok b c ev_edges_loop [OF ok l] fill_loop [of "\<lambda>i. i * ?nnz" "?n + 1"] coords
    by (simp add: visit_ev_def getEdgeVar_def getVertexVar_def set_elements_ok [OF nn] Let_def seg_of_def del: upt_Suc)
qed

lemma ev_row_set:
  assumes "graph_ok G" "sets G ea = Some ES" "links_to G ea va" "e < nat (numElements ES)"
  shows "set (ev_row G ea ES va e) = {v. (e, v) \<in> ev_rel G ea va}"
proof -
  have "0 \<le> edges_of G ea ! e ! i" if "i < getCardinality ES" for i
    using assms that by (auto simp: links_to_def)
  then show ?thesis using assms(2,4) by (force simp: ev_prefix_def ev_rel_def)
qed

text \<open>Vertex to edge: the list of a vertex after the first \<open>k\<close> edges, and after \<open>j\<close> endpoints of the next one.\<close>

definition ve_hits :: "graph \<Rightarrow> nat \<Rightarrow> set_data \<Rightarrow> nat \<Rightarrow> nat \<Rightarrow> nat \<Rightarrow> nat \<Rightarrow> nat list" where
  "ve_hits G ea ES va v e j =
     map (\<lambda>_. e) (filter (\<lambda>i. endpointSets ES ! i = va \<and> edges_of G ea ! e ! i = int v) [0..<j])"

definition ve_prefix :: "graph \<Rightarrow> nat \<Rightarrow> set_data \<Rightarrow> nat \<Rightarrow> nat \<Rightarrow> nat \<Rightarrow> nat list" where
  "ve_prefix G ea ES va k v = concat (map (\<lambda>e. ve_hits G ea ES va v e (getCardinality ES)) [0..<k])"

lemma veBody_loop:
  assumes ok: "graph_ok G" "sets G ea = Some ES" and V: "sets G va = Some VS" and l: "links_to G ea va"
    and e: "e < nat (numElements ES)"
  shows "k \<le> getCardinality ES \<Longrightarrow>
    rfold (veBody ES va (int e)) (zip [0..<k] (map Some (take k (edges_of G ea ! e)))) (enum (nat (numElements VS)) r) =
    Inr (enum (nat (numElements VS)) (\<lambda>v. r v @ ve_hits G ea ES va v e k))"
proof (induction k)
  case (Suc k)
  let ?n = "nat (numElements VS)" and ?w = "edges_of G ea ! e ! k" and ?r = "\<lambda>v. r v @ ve_hits G ea ES va v e k"
  have w: "0 \<le> ?w" "endpointSets ES ! k = va \<Longrightarrow> ?w < numElements VS" and V32: "numElements VS < 2 ^ 32"
      and E32: "numElements ES * int (getCardinality ES) < 2 ^ 32" and c: "0 < getCardinality ES"
    using l ok(2) V e Suc.prems by (auto simp: links_to_def)
  have "int e < numElements ES * 1" using e by simp
  also have "\<dots> \<le> numElements ES * int (getCardinality ES)" using c e by (intro mult_left_mono) auto
  finally have e32: "int e < 2 ^ 32" using E32 by simp
  have hits: "ve_hits G ea ES va v e (Suc k) =
      ve_hits G ea ES va v e k @ (if endpointSets ES ! k = va \<and> ?w = int v then [e] else [])" for v
    by (simp add: ve_hits_def)
  have len: "length (edges_of G ea ! e) = getCardinality ES" by (rule length_edge [OF ok(2) e])
  have "veBody ES va (int e) (k, Some ?w) (enum ?n ?r) = Inr (enum ?n (\<lambda>v. r v @ ve_hits G ea ES va v e (Suc k)))"
  proof (cases "endpointSets ES ! k = va")
    case True
    have "to_unsigned ?w = nat ?w" "nat ?w < ?n" using w True V32 by (simp_all add: to_unsigned_nat)
    moreover have "to_unsigned (int e) = e" using e32 by (simp add: to_unsigned_nat)
    moreover have "?r(nat ?w := ?r (nat ?w) @ [e]) = (\<lambda>v. r v @ ve_hits G ea ES va v e (Suc k))"
      using True w(1) by (auto simp: fun_eq_iff hits)
    ultimately show ?thesis using True w Suc.prems by (simp add: veBody_def getCardinality_def)
  next
    case False
    with w Suc.prems show ?thesis by (simp add: veBody_def getCardinality_def hits)
  qed
  moreover have "zip [0..<Suc k] (map Some (take (Suc k) (edges_of G ea ! e))) =
      zip [0..<k] (map Some (take k (edges_of G ea ! e))) @ [(k, Some ?w)]"
    using Suc.prems len by (simp add: take_Suc_conv_app_nth)
  ultimately show ?case using Suc by (simp add: rfold_append)
qed (simp add: ve_hits_def)

lemma insert_vertices: "n \<le> 2 ^ 32 \<Longrightarrow> fold (\<lambda>v. smap_insert (to_unsigned v) []) (map int [0..<n]) [] = enum n (\<lambda>_. [])"
proof (induction n)
  case (Suc n)
  then have "to_unsigned (int n) = n" by (simp add: to_unsigned_nat)
  with Suc show ?case by (simp add: fun_upd_idem)
qed simp

lemma visit_ve_eq:
  assumes ok: "graph_ok G" "sets G ea = Some ES" and V: "sets G va = Some VS" and l: "links_to G ea va"
    and cap: "numElements ES < int (capacity ES)"
    and b: "bound_to bs (v_set rv) ea" "bound_to bs (v_set lv) va"
  shows "visit_ve G bs lv rv =
    Inr (seg_of (map (\<lambda>v. sort (ve_prefix G ea ES va (nat (numElements ES)) v)) [0..<nat (numElements VS)]))"
proof -
  let ?nE = "nat (numElements ES)" and ?nV = "nat (numElements VS)"
  let ?f = "\<lambda>e m. iassert (e \<ge> 0) ''e.getIdent() >= 0'' (rbind (getEndpoints ES e) (\<lambda>eps.
      rfold (veBody ES va e) (zip [0..<length eps] eps) m))"
  have c: "0 < getCardinality ES" and V32: "numElements VS < 2 ^ 32" using l ok(2) V by (auto simp: links_to_def)
  have nn: "0 \<le> numElements ES" "0 \<le> numElements VS"
    using graph_okD(1) [OF ok] graph_okD(1) [OF ok(1) V] by (simp_all add: set_ok_def)
  have "rfold ?f (map int [0..<k]) (enum ?nV (\<lambda>_. [])) = Inr (enum ?nV (ve_prefix G ea ES va k))" if "k \<le> ?nE" for k
    using that
  proof (induction k)
    case (Suc k)
    have len: "length (edges_of G ea ! k) = getCardinality ES" using length_edge [OF ok(2)] Suc.prems by simp
    have "getEndpoints ES (int k) = Inr (map Some (edges_of G ea ! k))"
      using getEndpoints_eq [OF ok, of "int k"] Suc.prems c cap by simp
    moreover have "(\<lambda>v. ve_prefix G ea ES va k v @ ve_hits G ea ES va v k (getCardinality ES)) = ve_prefix G ea ES va (Suc k)"
      by (simp add: fun_eq_iff ve_prefix_def)
    then have "rfold (veBody ES va (int k)) (zip [0..<getCardinality ES] (map Some (edges_of G ea ! k)))
        (enum ?nV (ve_prefix G ea ES va k)) = Inr (enum ?nV (ve_prefix G ea ES va (Suc k)))"
      using veBody_loop [OF ok V l, of k "getCardinality ES" "ve_prefix G ea ES va k"] Suc.prems len by simp
    ultimately show ?case using Suc len by (simp add: rfold_append)
  qed (simp, rule enum_cong, simp add: ve_prefix_def)
  moreover have "pack (enum ?nV (ve_prefix G ea ES va ?nE)) True =
      Inr (seg_of (map sort (map (ve_prefix G ea ES va ?nE) [0..<?nV])))"
    by (rule pack_sorted) simp_all
  moreover have "fold (\<lambda>v. smap_insert (to_unsigned v) ([] :: nat list)) (map int [0..<?nV]) [] = enum ?nV (\<lambda>_. [])"
    using V32 by (intro insert_vertices) simp
  ultimately show ?thesis using ok V b c
    by (simp add: visit_ve_def getEdgeVar_def getVertexVar_def set_elements_ok [OF nn(1)] set_elements_ok [OF nn(2)] comp_def)
qed

lemma ve_row_set:
  assumes "sets G ea = Some ES"
  shows "set (ve_prefix G ea ES va (nat (numElements ES)) v) = {e. (e, v) \<in> ev_rel G ea va}"
  using assms by (auto simp: ve_prefix_def ve_hits_def ev_rel_def)

lemma length_ve_prefix: "length (ve_prefix G ea ES va k v) \<le> k * getCardinality ES"
proof (induction k)
  case (Suc k)
  have "length (filter P [0..<getCardinality ES]) \<le> getCardinality ES" for P
    using length_filter_le [of P "[0..<getCardinality ES]"] by simp
  with Suc show ?case by (simp add: ve_prefix_def ve_hits_def add_mono add.commute)
qed (simp add: ve_prefix_def)

section \<open>Stencils\<close>

text \<open>The layout maps offsets to positions; when the positions differ, reversing it loses none.\<close>

lemma set_smap_assign:
  "k \<notin> fst ` set m \<Longrightarrow> set (smap_assign k v m) = insert (k, v) (set m)"
  by (simp add: smap_assign_def set_insort_key)

lemma length_smap_assign: "length (smap_assign k v m) \<le> Suc (length m)"
  by (simp add: smap_assign_def)

lemma getLayoutReversed_set:
  assumes "distinct (map snd (layout st))"
  shows "set (getLayoutReversed st) = (\<lambda>(off, pos). (pos, off)) ` set (layout st)"
proof -
  have "set (fold (\<lambda>kv m. smap_assign (snd kv) (fst kv) m) ls m) = set m \<union> (\<lambda>(off, pos). (pos, off)) ` set ls"
    if "distinct (map snd ls)" "fst ` set m \<inter> snd ` set ls = {}" for ls :: "(int list \<times> int) list" and m
    using that
  proof (induction ls arbitrary: m)
    case (Cons kv ls)
    let ?m = "smap_assign (snd kv) (fst kv) m"
    have s: "set ?m = insert (snd kv, fst kv) (set m)" using Cons.prems(2) by (intro set_smap_assign) auto
    then have "fst ` set ?m \<inter> snd ` set ls = {}" using Cons.prems by auto
    from Cons.IH [OF _ this] Cons.prems(1) s show ?case by (auto simp: case_prod_beta)
  qed simp
  from this [OF assms, of "[]"] show ?thesis by (simp add: getLayoutReversed_def)
qed

lemma length_getLayoutReversed: "length (getLayoutReversed st) \<le> length (layout st)"
proof -
  have "length (fold (\<lambda>kv m. smap_assign (snd kv) (fst kv) m) ls m) \<le> length m + length ls"
    for ls :: "(int list \<times> int) list" and m
  proof (induction ls arbitrary: m)
    case (Cons kv ls)
    show ?case using Cons.IH [of "smap_assign (snd kv) (fst kv) m"] length_smap_assign [of "snd kv" "fst kv" m] by simp
  qed simp
  from this [of "layout st" "[]"] show ?thesis by (simp add: getLayoutReversed_def)
qed

definition torus :: "int list \<Rightarrow> int list \<Rightarrow> int list \<Rightarrow> int list" where
  "torus dims cs off = map (\<lambda>i. (cs ! i + off ! i) mod dims ! i) [0..<length dims]"

definition offsets_ok :: "int list \<Rightarrow> int list \<Rightarrow> bool" where
  "offsets_ok dims off \<longleftrightarrow> length off = length dims \<and> (\<forall>i < length dims. - (dims ! i) \<le> off ! i)"

definition grid_ok :: "set_data \<Rightarrow> bool" where
  "grid_ok T \<longleftrightarrow> kind T = Grid \<and> list_all (\<lambda>d. 0 < d) (dimensions T) \<and>
     prod_list (dimensions T) < 2 ^ 32 \<and> gridPoints T = map int [0..<nat (prod_list (dimensions T))]"

lemma torus_in_bounds: "list_all (\<lambda>d. 0 < d) dims \<Longrightarrow> in_bounds dims (torus dims cs off)"
  by (simp add: in_bounds_def torus_def list_all2_conv_all_nth list_all_length)

lemma stencilNeighbor_eq:
  assumes T: "grid_ok T" and cs: "in_bounds (dimensions T) cs" "gridIndex (dimensions T) cs = int x"
    and off: "offsets_ok (dimensions T) off"
  shows "stencilNeighbor T (int x) off = Inr (gridIndex (dimensions T) (torus (dimensions T) cs off))"
proof -
  let ?d = "dimensions T"
  have k: "kind T = Grid" "list_all (\<lambda>d. 0 < d) ?d" "gridPoints T = map int [0..<nat (prod_list ?d)]"
    using T by (simp_all add: grid_ok_def)
  have len: "length cs = length ?d" "length off = length ?d"
    using cs(1) off by (auto simp: in_bounds_def list_all2_lengthD offsets_ok_def)
  have co: "getGridPointCoords T (int x) = Inr cs"
    using k(1) gridCoords_gridIndex [OF cs(1)] cs(2) len by (simp add: getGridPointCoords_def)
  have "rmap (\<lambda>i. uassert (kind T = Grid) ''Can only retrieve dimensions for a grid edge set''
      (rbind (nth_result ?d i) (\<lambda>d. if d = 0 then Inl Undefined else Inr ((cs ! i + (off ! i + d)) smod d)))) [0..<length cs] =
      Inr (map (\<lambda>i. (cs ! i + off ! i) mod ?d ! i) [0..<length cs])"
  proof (rule rmap_ok)
    fix i assume "i \<in> set [0..<length cs]"
    then have i: "i < length ?d" using len by simp
    then have d: "0 < ?d ! i" "0 \<le> cs ! i" "- (?d ! i) \<le> off ! i"
      using k(2) cs(1) off by (auto simp: list_all_length in_bounds_def list_all2_conv_all_nth offsets_ok_def)
    then have "(cs ! i + (off ! i + ?d ! i)) smod ?d ! i = (cs ! i + off ! i) mod ?d ! i"
      by (simp add: smod_pos add.assoc [symmetric])
    with i d k(1) show "uassert (kind T = Grid) ''Can only retrieve dimensions for a grid edge set''
      (rbind (nth_result ?d i) (\<lambda>d. if d = 0 then Inl Undefined else Inr ((cs ! i + (off ! i + d)) smod d))) =
      Inr ((cs ! i + off ! i) mod ?d ! i)" by simp
  qed
  moreover have "getGridPoint T (torus ?d cs off) = Inr (gridIndex ?d (torus ?d cs off))"
    using gridIndex_bounds [OF torus_in_bounds [OF k(2)], of cs off] k
    by (simp add: getGridPoint_def total_size Let_def torus_def)
  ultimately show ?thesis using co len by (simp add: stencilNeighbor_def torus_def)
qed

definition stencil_ok :: "graph \<Rightarrow> (string \<rightharpoonup> nat) \<Rightarrow> stencil \<Rightarrow> nat \<Rightarrow> bool" where
  "stencil_ok G bs st sa \<longleftrightarrow> (\<exists>name ta T SS. gridSet st = Some name \<and> bs name = Some ta \<and> sets G ta = Some T \<and>
     sets G sa = Some SS \<and> grid_ok T \<and> numElements SS = prod_list (dimensions T) \<and>
     distinct (map snd (layout st)) \<and> length (layout st) < 2 ^ 32 \<and>
     (\<forall>kv \<in> set (layout st). offsets_ok (dimensions T) (fst kv)))"

definition stencil_rel :: "graph \<Rightarrow> (string \<rightharpoonup> nat) \<Rightarrow> stencil \<Rightarrow> (nat \<times> nat) set" where
  "stencil_rel G bs st = {(x, y). \<exists>name ta T cs off. gridSet st = Some name \<and> bs name = Some ta \<and> sets G ta = Some T \<and>
     in_bounds (dimensions T) cs \<and> gridIndex (dimensions T) cs = int x \<and> off \<in> fst ` set (layout st) \<and>
     gridIndex (dimensions T) (torus (dimensions T) cs off) = int y}"

definition vv_row :: "set_data \<Rightarrow> stencil \<Rightarrow> nat \<Rightarrow> nat list" where
  "vv_row T st x = map (\<lambda>kv. case stencilNeighbor T (int x) (snd kv) of Inl _ \<Rightarrow> 0 | Inr p \<Rightarrow> nat p) (getLayoutReversed st)"

lemma grid_coords_of:
  assumes "grid_ok T" and "x < nat (prod_list (dimensions T))"
  obtains cs where "in_bounds (dimensions T) cs" "gridIndex (dimensions T) cs = int x"
  using gridIndex_gridCoords [of "dimensions T" "int x"] assms by (auto simp: grid_ok_def zless_nat_eq_int_zless)

lemma grid_index_small:
  assumes "grid_ok T" shows "0 \<le> gridIndex (dimensions T) (torus (dimensions T) cs off)"
    "gridIndex (dimensions T) (torus (dimensions T) cs off) < prod_list (dimensions T)"
    "to_unsigned (gridIndex (dimensions T) (torus (dimensions T) cs off)) = nat (gridIndex (dimensions T) (torus (dimensions T) cs off))"
  using gridIndex_bounds [OF torus_in_bounds, of "dimensions T" cs off] assms by (auto simp: grid_ok_def to_unsigned_nat)

lemma vvBody_eq:
  assumes T: "grid_ok T" and x: "x < nat (prod_list (dimensions T))"
    and off: "\<And>kv. kv \<in> set (getLayoutReversed st) \<Longrightarrow> offsets_ok (dimensions T) (snd kv)"
  shows "vvBody st T (int x) (enum x r) = Inr (enum (Suc x) (r(x := vv_row T st x)))"
proof -
  obtain cs where cs: "in_bounds (dimensions T) cs" "gridIndex (dimensions T) cs = int x" using grid_coords_of [OF T x] .
  have x32: "to_unsigned (int x) = x" using x T by (simp add: to_unsigned_nat grid_ok_def zless_nat_eq_int_zless)
  let ?f = "\<lambda>kv m. rbind (stencilNeighbor T (int x) (snd kv)) (\<lambda>p. smap_modify x (\<lambda>ns. ns @ [to_unsigned p]) m)"
  let ?g = "\<lambda>kv. case stencilNeighbor T (int x) (snd kv) of Inl _ \<Rightarrow> 0 | Inr p \<Rightarrow> nat p"
  have "rfold ?f kvs (enum (Suc x) r) = Inr (enum (Suc x) (r(x := r x @ map ?g kvs)))"
    if "\<And>kv. kv \<in> set kvs \<Longrightarrow> offsets_ok (dimensions T) (snd kv)" for kvs :: "('a \<times> int list) list" and r
    using that
  proof (induction kvs arbitrary: r)
    case (Cons kv kvs)
    let ?p = "gridIndex (dimensions T) (torus (dimensions T) cs (snd kv))"
    have p: "stencilNeighbor T (int x) (snd kv) = Inr ?p" using stencilNeighbor_eq [OF T cs] Cons.prems by simp
    have "rfold ?f (kv # kvs) (enum (Suc x) r) = rfold ?f kvs (enum (Suc x) (r(x := r x @ [nat ?p])))"
      using grid_index_small(3) [OF T] by (simp add: p)
    also have "\<dots> = Inr (enum (Suc x) ((r(x := r x @ [nat ?p]))(x := (r(x := r x @ [nat ?p])) x @ map ?g kvs)))"
      by (rule Cons.IH) (use Cons.prems in simp)
    also have "(r(x := r x @ [nat ?p]))(x := (r(x := r x @ [nat ?p])) x @ map ?g kvs) = r(x := r x @ map ?g (kv # kvs))"
      by (simp add: fun_eq_iff p)
    finally show ?case .
  qed simp
  from this [of "getLayoutReversed st" "r(x := [])"] off show ?thesis by (simp add: vvBody_def x32 vv_row_def)
qed

lemma visit_vv_eq:
  assumes st: "gridSet st = Some name" "bs name = Some ta" "sets G ta = Some T" "sets G sa = Some SS"
    "grid_ok T" "numElements SS = prod_list (dimensions T)" "distinct (map snd (layout st))"
    "\<forall>kv \<in> set (layout st). offsets_ok (dimensions T) (fst kv)"
    and b: "bound_to bs (v_set lv) sa" "bound_to bs (v_set rv) sa"
  shows "visit_vv G bs lv rv (Some st) = Inr (seg_of (map (vv_row T st) [0..<nat (numElements SS)]))"
proof -
  let ?n = "nat (numElements SS)"
  have nn: "0 \<le> numElements SS" using st(5,6) prod_list_pos [of "dimensions T"] by (simp add: grid_ok_def)
  have off: "offsets_ok (dimensions T) (snd kv)" if "kv \<in> set (getLayoutReversed st)" for kv
    using that st(8) by (auto simp: getLayoutReversed_set [OF st(7)])
  have "rfold (vvBody st T) (map int [0..<k]) [] = Inr (enum k (vv_row T st))" if "k \<le> ?n" for k
    using that
  proof (induction k)
    case (Suc k)
    then show ?case using vvBody_eq [OF st(5) _ off, where x = k and r = "vv_row T st"] st(6) by (simp add: rfold_append)
  qed simp
  moreover have "pack (enum ?n (vv_row T st)) False = Inr (seg_of (map (vv_row T st) [0..<?n]))"
    by (rule pack_unsorted) simp_all
  ultimately show ?thesis using st b
    by (simp add: visit_vv_def getBinding_var_def getVertexVar_def set_elements_ok [OF nn])
qed

lemma vv_row_set:
  assumes st: "gridSet st = Some name" "bs name = Some ta" "sets G ta = Some T" "grid_ok T" "distinct (map snd (layout st))"
    "\<forall>kv \<in> set (layout st). offsets_ok (dimensions T) (fst kv)" and x: "x < nat (prod_list (dimensions T))"
  shows "set (vv_row T st x) = {y. (x, y) \<in> stencil_rel G bs st}"
proof -
  let ?d = "dimensions T"
  obtain cs where cs: "in_bounds ?d cs" "gridIndex ?d cs = int x" using grid_coords_of [OF st(4) x] .
  have uniq: "cs' = cs" if "in_bounds ?d cs'" "gridIndex ?d cs' = int x" for cs'
    using gridCoords_gridIndex [OF that(1)] gridCoords_gridIndex [OF cs(1)] that(2) cs(2) by simp
  have "snd ` set (getLayoutReversed st) = fst ` set (layout st)"
    by (simp add: getLayoutReversed_set [OF st(5)] image_image case_prod_beta)
  moreover have "(case stencilNeighbor T (int x) off of Inl _ \<Rightarrow> 0 | Inr p \<Rightarrow> nat p) = nat (gridIndex ?d (torus ?d cs off))"
    if "off \<in> fst ` set (layout st)" for off
    using stencilNeighbor_eq [OF st(4) cs, of off] that st(6) by auto
  moreover have "set (vv_row T st x) =
      (\<lambda>off. case stencilNeighbor T (int x) off of Inl _ \<Rightarrow> 0 | Inr p \<Rightarrow> nat p) ` snd ` set (getLayoutReversed st)"
    by (simp add: vv_row_def image_image)
  ultimately have "set (vv_row T st x) = (\<lambda>off. nat (gridIndex ?d (torus ?d cs off))) ` fst ` set (layout st)"
    by (metis (no_types, lifting) image_cong)
  also have "\<dots> = {y. (x, y) \<in> stencil_rel G bs st}"
  proof (intro set_eqI iffI)
    fix y assume "y \<in> (\<lambda>off. nat (gridIndex ?d (torus ?d cs off))) ` fst ` set (layout st)"
    then obtain off where off: "off \<in> fst ` set (layout st)" "y = nat (gridIndex ?d (torus ?d cs off))" by blast
    then have "gridIndex ?d (torus ?d cs off) = int y" using grid_index_small(1) [OF st(4)] by simp
    with off(1) st(1-3) cs show "y \<in> {y. (x, y) \<in> stencil_rel G bs st}" by (auto simp: stencil_rel_def)
  next
    fix y assume "y \<in> {y. (x, y) \<in> stencil_rel G bs st}"
    then obtain cs' off where "in_bounds ?d cs'" "gridIndex ?d cs' = int x" "off \<in> fst ` set (layout st)"
        "gridIndex ?d (torus ?d cs' off) = int y" using st(1-3) by (auto simp: stencil_rel_def)
    with uniq have "off \<in> fst ` set (layout st)" "y = nat (gridIndex ?d (torus ?d cs off))" by auto
    then show "y \<in> (\<lambda>off. nat (gridIndex ?d (torus ?d cs off))) ` fst ` set (layout st)" by blast
  qed
  finally show ?thesis .
qed

end
