(* ===== verification/Path_Semantics.thy ===== *)
theory Path_Semantics
  imports Path_Index_Links
begin

text \<open>
  The logical reading of path expressions: satisfaction under an assignment of elements to variables, the
  relation composed from the relations of the links, and that they agree on canonical, well sorted
  expressions. The indices of single links represent their relations.
\<close>

section \<open>The meaning of path expressions\<close>

definition link_rel ::
  "graph \<Rightarrow> (string \<rightharpoonup> nat) \<Rightarrow> link_type \<Rightarrow> pset option \<Rightarrow> pset option \<Rightarrow> stencil option \<Rightarrow> (nat \<times> nat) set" where
  "link_rel G bs t sl sr st =
     (case t of
        ev \<Rightarrow> {(x, y). \<exists>ea va. bound_to bs sl ea \<and> bound_to bs sr va \<and> (x, y) \<in> ev_rel G ea va}
      | ve \<Rightarrow> {(x, y). \<exists>ea va. bound_to bs sr ea \<and> bound_to bs sl va \<and> (y, x) \<in> ev_rel G ea va}
      | vv \<Rightarrow> (case st of None \<Rightarrow> {} | Some s \<Rightarrow> stencil_rel G bs s))"

section \<open>Well-formed expressions\<close>

definition endpoint_addrs :: "pexpr \<Rightarrow> (nat \<times> nat) option" where
  "endpoint_addrs e =
     (case (getPathEndpoint e 0, getPathEndpoint e 1) of
        (Inr a, Inr b) \<Rightarrow> Some (v_addr a, v_addr b) | _ \<Rightarrow> None)"

text \<open>
  Canonical connectives: the operands of an unquantified one lead from the first to the second free
  variable, those of a quantified one from the first to the quantified and on to the second.
\<close>

definition operands_ok :: "var list \<Rightarrow> qvar list \<Rightarrow> pexpr \<Rightarrow> pexpr \<Rightarrow> bool" where
  "operands_ok fvs qs a b \<longleftrightarrow> length fvs = 2 \<and>
     (let s = v_addr (fvs ! 0); t = v_addr (fvs ! 1) in
      case qs of
        [] \<Rightarrow> endpoint_addrs a = Some (s, t) \<and> endpoint_addrs b = Some (s, t)
      | [q] \<Rightarrow> (let z = v_addr (getVar q) in
               endpoint_addrs a = Some (s, z) \<and> endpoint_addrs b = Some (z, t) \<and> distinct [s, z, t])
      | _ \<Rightarrow> False)"

fun canonical :: "pexpr \<Rightarrow> bool" where
  "canonical (Link t l r st) = True"
| "canonical (And fvs qs a b) = (canonical a \<and> canonical b \<and> operands_ok fvs qs a b)"
| "canonical (Or fvs qs a b) = (canonical a \<and> canonical b \<and> operands_ok fvs qs a b)"
| "canonical (Renamed e ren) = (canonical e \<and> endpoint_addrs (Renamed e ren) \<noteq> None)"

fun sorts :: "pexpr \<Rightarrow> pset option \<times> pset option" where
  "sorts (Link t l r st) = (v_set l, v_set r)"
| "sorts (And fvs qs a b) = (fst (sorts a), snd (sorts b))"
| "sorts (Or fvs qs a b) = (fst (sorts a), snd (sorts b))"
| "sorts (Renamed e ren) = sorts e"

fun well_sorted :: "pexpr \<Rightarrow> bool" where
  "well_sorted (Link t l r st) = True"
| "well_sorted (And fvs qs a b) = (well_sorted a \<and> well_sorted b \<and>
     (if qs = [] then sorts a = sorts b else snd (sorts a) = fst (sorts b)))"
| "well_sorted (Or fvs qs a b) = (well_sorted a \<and> well_sorted b \<and>
     (if qs = [] then sorts a = sorts b
      else snd (sorts a) = fst (sorts b) \<and> getSet_pe (Or fvs qs a b) (fvs ! 1) = Inr (snd (sorts b))))"
| "well_sorted (Renamed e ren) = well_sorted e"

definition link_ok ::
  "graph \<Rightarrow> (string \<rightharpoonup> nat) \<Rightarrow> link_type \<Rightarrow> pset option \<Rightarrow> pset option \<Rightarrow> stencil option \<Rightarrow> bool" where
  "link_ok G bs t sl sr st \<longleftrightarrow>
     (case t of
        ev \<Rightarrow> (\<exists>ea va. bound_to bs sl ea \<and> bound_to bs sr va \<and> links_to G ea va)
      | ve \<Rightarrow> (\<exists>ea va ES. bound_to bs sr ea \<and> bound_to bs sl va \<and> links_to G ea va \<and>
                 sets G ea = Some ES \<and> numElements ES < int (capacity ES))
      | vv \<Rightarrow> (\<exists>sa s. bound_to bs sl sa \<and> bound_to bs sr sa \<and> st = Some s \<and> stencil_ok G bs s sa))"

fun links :: "pexpr \<Rightarrow> (link_type \<times> pset option \<times> pset option \<times> stencil option) list" where
  "links (Link t l r st) = [(t, v_set l, v_set r, st)]"
| "links (And fvs qs a b) = links a @ links b"
| "links (Or fvs qs a b) = links a @ links b"
| "links (Renamed e ren) = links e"

definition links_ok :: "graph \<Rightarrow> (string \<rightharpoonup> nat) \<Rightarrow> pexpr \<Rightarrow> bool" where
  "links_ok G bs e \<longleftrightarrow> (\<forall>(t, sl, sr, st) \<in> set (links e). link_ok G bs t sl sr st)"

definition set_size :: "graph \<Rightarrow> (string \<rightharpoonup> nat) \<Rightarrow> pset option \<Rightarrow> nat" where
  "set_size G bs s =
     (case s of None \<Rightarrow> 0 | Some p \<Rightarrow> (case bs (ps_name p) of None \<Rightarrow> 0 | Some a \<Rightarrow>
        (case sets G a of None \<Rightarrow> 0 | Some S \<Rightarrow> nat (numElements S))))"

lemma set_size_bound: "bound_to bs s a \<Longrightarrow> sets G a = Some S \<Longrightarrow> set_size G bs s = nat (numElements S)"
  by (auto simp: bound_to_def set_size_def)

text \<open>
  Satisfaction under an assignment of elements to variables: a quantified variable ranges over the
  elements of the set it stands for, a renamed variable takes the value of its new name.
\<close>

fun sat :: "graph \<Rightarrow> (string \<rightharpoonup> nat) \<Rightarrow> pexpr \<Rightarrow> (nat \<Rightarrow> nat) \<Rightarrow> bool" where
  "sat G bs (Link t l r st) \<rho> \<longleftrightarrow> (\<rho> (v_addr l), \<rho> (v_addr r)) \<in> link_rel G bs t (v_set l) (v_set r) st"
| "sat G bs (And fvs qs a b) \<rho> \<longleftrightarrow>
     (case qs of [] \<Rightarrow> sat G bs a \<rho> \<and> sat G bs b \<rho>
      | q # _ \<Rightarrow> (\<exists>z < set_size G bs (snd (sorts a)).
                  sat G bs a (\<rho>(v_addr (getVar q) := z)) \<and> sat G bs b (\<rho>(v_addr (getVar q) := z))))"
| "sat G bs (Or fvs qs a b) \<rho> \<longleftrightarrow>
     (case qs of [] \<Rightarrow> sat G bs a \<rho> \<or> sat G bs b \<rho>
      | q # _ \<Rightarrow> (\<exists>z < set_size G bs (snd (sorts a)).
                  sat G bs a (\<rho>(v_addr (getVar q) := z)) \<or> sat G bs b (\<rho>(v_addr (getVar q) := z))))"
| "sat G bs (Renamed e ren) \<rho> \<longleftrightarrow>
     sat G bs e (\<lambda>v. case ren v of None \<Rightarrow> \<rho> v | Some w \<Rightarrow> \<rho> (v_addr w))"

text \<open>The relation of an expression, composed from the relations of its links.\<close>

fun path_rel :: "graph \<Rightarrow> (string \<rightharpoonup> nat) \<Rightarrow> pexpr \<Rightarrow> (nat \<times> nat) set" where
  "path_rel G bs (Link t l r st) = link_rel G bs t (v_set l) (v_set r) st"
| "path_rel G bs (And fvs qs a b) =
     (if qs = [] then path_rel G bs a \<inter> path_rel G bs b else path_rel G bs a O path_rel G bs b)"
| "path_rel G bs (Or fvs qs a b) =
     (if qs = [] then path_rel G bs a \<union> path_rel G bs b
      else {(x, y). x < set_size G bs (fst (sorts a)) \<and> y < set_size G bs (snd (sorts b)) \<and>
              (x \<in> Domain (path_rel G bs a) \<or> y \<in> Range (path_rel G bs b))})"
| "path_rel G bs (Renamed e ren) = path_rel G bs e"

section \<open>Links\<close>

definition seg_repr :: "segmented \<Rightarrow> nat \<Rightarrow> (nat \<times> nat) set \<Rightarrow> bool" where
  "seg_repr p n R \<longleftrightarrow> seg_valid p \<and> numElems p = n \<and> (\<forall>x < n. set (seg.row p x) = {y. (x, y) \<in> R})"

lemma seg_repr_rows:
  assumes "length rows = n" and "\<And>x. x < n \<Longrightarrow> length (rows ! x) < 2 ^ 32"
    and "\<And>x. x < n \<Longrightarrow> set (rows ! x) = {y. (x, y) \<in> R}"
  shows "seg_repr (seg_of rows) n R"
  using assms by (auto simp: seg_repr_def seg_row in_set_conv_nth intro!: seg_valid_seg_of)

lemma links_toD:
  assumes "links_to G ea va" and "sets G ea = Some ES" and "sets G va = Some VS" and "graph_ok G"
  shows "0 < getCardinality ES" "nat (numElements ES) * getCardinality ES < 2 ^ 32" "nat (numElements ES) < 2 ^ 32"
    "nat (numElements VS) < 2 ^ 32" "ev_rel G ea va \<subseteq> {..<nat (numElements ES)} \<times> {..<nat (numElements VS)}"
proof -
  have nn: "0 \<le> numElements ES" using graph_okD(1) [OF assms(4,2)] by (simp add: set_ok_def)
  show c: "0 < getCardinality ES" using assms(1,2) by (auto simp: links_to_def)
  have b: "numElements ES * int (getCardinality ES) < 2 ^ 32" using assms(1,2) by (auto simp: links_to_def)
  then have "int (nat (numElements ES) * getCardinality ES) < int (2 ^ 32)" using nn by simp
  then show p: "nat (numElements ES) * getCardinality ES < 2 ^ 32" by (simp only: of_nat_less_iff)
  have "nat (numElements ES) \<le> nat (numElements ES) * getCardinality ES" using c by simp
  with p show "nat (numElements ES) < 2 ^ 32" by (rule order_le_less_trans [rotated])
  have "numElements VS < 2 ^ 32" using assms(1-3) by (auto simp: links_to_def)
  then show "nat (numElements VS) < 2 ^ 32" by simp
  show "ev_rel G ea va \<subseteq> {..<nat (numElements ES)} \<times> {..<nat (numElements VS)}"
    using assms(1-3) by (fastforce simp: ev_rel_def links_to_def)
qed

lemma link_rel_ev: "bound_to bs sl ea \<Longrightarrow> bound_to bs sr va \<Longrightarrow> link_rel G bs ev sl sr st = ev_rel G ea va"
  by (auto simp: link_rel_def bound_to_def)

lemma link_rel_ve: "bound_to bs sr ea \<Longrightarrow> bound_to bs sl va \<Longrightarrow> link_rel G bs ve sl sr st = (ev_rel G ea va)\<inverse>"
  by (auto simp: link_rel_def bound_to_def)

lemma ev_link_repr:
  assumes ok: "graph_ok G" and b: "bound_to bs (v_set l) ea" "bound_to bs (v_set r) va" and k: "links_to G ea va"
  shows "\<exists>p. visit_ev G bs l r = Inr p \<and>
    seg_repr p (set_size G bs (v_set l)) (link_rel G bs ev (v_set l) (v_set r) st)"
proof -
  obtain ES VS where S: "sets G ea = Some ES" "sets G va = Some VS" using k by (auto simp: links_to_def)
  have R: "link_rel G bs ev (v_set l) (v_set r) st = ev_rel G ea va" by (rule link_rel_ev [OF b])
  have "length (ev_row G ea ES va x) < 2 ^ 32" if "x < nat (numElements ES)" for x
  proof -
    have "length (ev_row G ea ES va x) \<le> getCardinality ES"
      by (subst length_ev_row) (simp add: getCardinality_def)
    also have "\<dots> \<le> nat (numElements ES) * getCardinality ES" using that by simp
    finally show ?thesis using links_toD(2) [OF k S ok] by simp
  qed
  then have "seg_repr (seg_of (map (ev_row G ea ES va) [0..<nat (numElements ES)])) (nat (numElements ES)) (ev_rel G ea va)"
    using ev_row_set [OF ok S(1) k] by (intro seg_repr_rows) simp_all
  with visit_ev_eq [OF ok S(1) k b] R set_size_bound [OF b(1) S(1)] show ?thesis by simp
qed

lemma ve_link_repr:
  assumes ok: "graph_ok G" and b: "bound_to bs (v_set r) ea" "bound_to bs (v_set l) va" and k: "links_to G ea va"
    and cap: "sets G ea = Some ES" "numElements ES < int (capacity ES)"
  shows "\<exists>p. visit_ve G bs l r = Inr p \<and>
    seg_repr p (set_size G bs (v_set l)) (link_rel G bs ve (v_set l) (v_set r) st)"
proof -
  obtain VS where V: "sets G va = Some VS" using k by (auto simp: links_to_def)
  have R: "link_rel G bs ve (v_set l) (v_set r) st = (ev_rel G ea va)\<inverse>" by (rule link_rel_ve [OF b])
  let ?row = "\<lambda>v. sort (ve_prefix G ea ES va (nat (numElements ES)) v)"
  have "length (?row v) < 2 ^ 32" for v
    using links_toD(2) [OF k cap(1) V ok] length_ve_prefix [of G ea ES va "nat (numElements ES)" v] by simp
  then have "seg_repr (seg_of (map ?row [0..<nat (numElements VS)])) (nat (numElements VS)) ((ev_rel G ea va)\<inverse>)"
    using ve_row_set [OF cap(1)] by (intro seg_repr_rows) simp_all
  with visit_ve_eq [OF ok cap(1) V k cap(2) b] R set_size_bound [OF b(2) V] show ?thesis by simp
qed

lemma vv_link_repr:
  assumes b: "bound_to bs (v_set l) sa" "bound_to bs (v_set r) sa" and s: "stencil_ok G bs s sa"
  shows "\<exists>p. visit_vv G bs l r (Some s) = Inr p \<and>
    seg_repr p (set_size G bs (v_set l)) (link_rel G bs vv (v_set l) (v_set r) (Some s))"
proof -
  obtain name ta T SS where st: "gridSet s = Some name" "bs name = Some ta" "sets G ta = Some T" "sets G sa = Some SS"
    "grid_ok T" "numElements SS = prod_list (dimensions T)" "distinct (map snd (layout s))" "length (layout s) < 2 ^ 32"
    "\<forall>kv \<in> set (layout s). offsets_ok (dimensions T) (fst kv)"
    using s by (auto simp: stencil_ok_def)
  have "length (vv_row T s x) < 2 ^ 32" for x
    using length_getLayoutReversed [of s] st(8) by (simp add: vv_row_def)
  then have "seg_repr (seg_of (map (vv_row T s) [0..<nat (numElements SS)])) (nat (numElements SS)) (stencil_rel G bs s)"
    using vv_row_set [of s name bs ta G T] st by (intro seg_repr_rows) simp_all
  with visit_vv_eq [OF st(1-7,9) b] set_size_bound [OF b(1) st(4)] show ?thesis by (simp add: link_rel_def)
qed

lemma visit_link_repr:
  assumes "graph_ok G" and "link_ok G bs t (v_set l) (v_set r) st"
  shows "\<exists>p. visit_link G bs t l r st = Inr p \<and>
    seg_repr p (set_size G bs (v_set l)) (link_rel G bs t (v_set l) (v_set r) st)"
proof (cases t)
  case ev
  with assms(2) obtain ea va where "bound_to bs (v_set l) ea" "bound_to bs (v_set r) va" "links_to G ea va"
    by (auto simp: link_ok_def)
  from ev_link_repr [OF assms(1) this] ev show ?thesis by (simp add: visit_link_def)
next
  case ve
  with assms(2) obtain ea va ES where "bound_to bs (v_set r) ea" "bound_to bs (v_set l) va" "links_to G ea va"
    "sets G ea = Some ES" "numElements ES < int (capacity ES)"
    by (auto simp: link_ok_def)
  from ve_link_repr [OF assms(1) this] ve show ?thesis by (simp add: visit_link_def)
next
  case vv
  with assms(2) obtain sa s where "bound_to bs (v_set l) sa" "bound_to bs (v_set r) sa" "st = Some s" "stencil_ok G bs s sa"
    by (auto simp: link_ok_def)
  with vv_link_repr [OF this(1,2,4)] vv show ?thesis by (simp add: visit_link_def)
qed

lemma stencil_rel_bounded:
  assumes "stencil_ok G bs s sa" and "sets G sa = Some SS"
  shows "stencil_rel G bs s \<subseteq> {..<nat (numElements SS)} \<times> {..<nat (numElements SS)}"
proof -
  obtain name ta T where T: "gridSet s = Some name" "bs name = Some ta" "sets G ta = Some T"
    "grid_ok T" "numElements SS = prod_list (dimensions T)" using assms by (auto simp: stencil_ok_def)
  have "x < nat (numElements SS) \<and> y < nat (numElements SS)"
    if "in_bounds (dimensions T) cs" "gridIndex (dimensions T) cs = int x"
      "gridIndex (dimensions T) (torus (dimensions T) cs off) = int y" for x y cs off
    using gridIndex_bounds [OF that(1)] that(2,3) grid_index_small(2) [OF T(4), of cs off] T(5)
    by (simp add: zless_nat_eq_int_zless)
  with T(1-3) show ?thesis by (auto simp: stencil_rel_def)
qed

lemma link_bounds:
  assumes ok: "graph_ok G" and l: "link_ok G bs t sl sr st"
  shows "link_rel G bs t sl sr st \<subseteq> {..<set_size G bs sl} \<times> {..<set_size G bs sr} \<and>
    set_size G bs sl < 2 ^ 32 \<and> set_size G bs sr < 2 ^ 32"
proof (cases t)
  case ev
  with l obtain ea va where b: "bound_to bs sl ea" "bound_to bs sr va" "links_to G ea va" by (auto simp: link_ok_def)
  obtain ES VS where S: "sets G ea = Some ES" "sets G va = Some VS" using b(3) by (auto simp: links_to_def)
  have "link_rel G bs ev sl sr st = ev_rel G ea va" by (rule link_rel_ev [OF b(1,2)])
  with ev links_toD [OF b(3) S ok] set_size_bound [OF b(1) S(1)] set_size_bound [OF b(2) S(2)] show ?thesis by simp
next
  case ve
  with l obtain ea va where b: "bound_to bs sr ea" "bound_to bs sl va" "links_to G ea va" by (auto simp: link_ok_def)
  obtain ES VS where S: "sets G ea = Some ES" "sets G va = Some VS" using b(3) by (auto simp: links_to_def)
  have "link_rel G bs ve sl sr st = (ev_rel G ea va)\<inverse>" by (rule link_rel_ve [OF b(1,2)])
  with ve links_toD [OF b(3) S ok] set_size_bound [OF b(1) S(1)] set_size_bound [OF b(2) S(2)] show ?thesis by auto
next
  case vv
  with l obtain sa s where b: "bound_to bs sl sa" "bound_to bs sr sa" "st = Some s" "stencil_ok G bs s sa"
    by (auto simp: link_ok_def)
  obtain SS T where S: "sets G sa = Some SS" "numElements SS = prod_list (dimensions T)" "grid_ok T"
    using b(4) by (auto simp: stencil_ok_def)
  with vv b stencil_rel_bounded [OF b(4) S(1)] set_size_bound [OF b(1) S(1)] set_size_bound [OF b(2) S(1)] show ?thesis
    by (auto simp: link_rel_def grid_ok_def)
qed

section \<open>Expressions\<close>

lemma links_ok_simps [simp]:
  "links_ok G bs (Link t l r st) = link_ok G bs t (v_set l) (v_set r) st"
  "links_ok G bs (And fvs qs a b) = (links_ok G bs a \<and> links_ok G bs b)"
  "links_ok G bs (Or fvs qs a b) = (links_ok G bs a \<and> links_ok G bs b)"
  "links_ok G bs (Renamed e ren) = links_ok G bs e"
  by (simp_all add: links_ok_def ball_Un)

lemma sorts_small:
  "graph_ok G \<Longrightarrow> links_ok G bs e \<Longrightarrow>
   set_size G bs (fst (sorts e)) < 2 ^ 32 \<and> set_size G bs (snd (sorts e)) < 2 ^ 32"
proof (induction e)
  case (Link t l r st)
  then show ?case using link_bounds [of G bs t "v_set l" "v_set r" st] by simp
qed simp_all

lemma path_rel_bounds:
  "graph_ok G \<Longrightarrow> links_ok G bs e \<Longrightarrow> well_sorted e \<Longrightarrow>
   path_rel G bs e \<subseteq> {..<set_size G bs (fst (sorts e))} \<times> {..<set_size G bs (snd (sorts e))}"
proof (induction e)
  case (Link t l r st)
  then show ?case using link_bounds [of G bs t "v_set l" "v_set r" st] by simp
next
  case (And fvs qs a b)
  then show ?case by (cases "qs = []") fastforce+
next
  case (Or fvs qs a b)
  then show ?case by (cases "qs = []") fastforce+
qed simp

text \<open>The composed relation is what the logical reading says.\<close>

lemma endpoint_addrs_simps [simp]:
  "endpoint_addrs (Link t l r st) = Some (v_addr l, v_addr r)"
  "length fvs = 2 \<Longrightarrow> endpoint_addrs (And fvs qs a b) = Some (v_addr (fvs ! 0), v_addr (fvs ! 1))"
  "length fvs = 2 \<Longrightarrow> endpoint_addrs (Or fvs qs a b) = Some (v_addr (fvs ! 0), v_addr (fvs ! 1))"
  by (simp_all add: endpoint_addrs_def)

lemma endpoint_addrs_Renamed:
  assumes "endpoint_addrs (Renamed e ren) = Some (u, v)"
  obtains s t v0 v1 where "endpoint_addrs e = Some (s, t)" "ren s = Some v0" "ren t = Some v1" "u = v_addr v0" "v = v_addr v1"
proof -
  obtain a b where ab: "getPathEndpoint (Renamed e ren) 0 = Inr a" "getPathEndpoint (Renamed e ren) 1 = Inr b"
      "u = v_addr a" "v = v_addr b"
    using assms by (auto simp: endpoint_addrs_def split: sum.splits)
  then obtain a' b' where "getPathEndpoint e 0 = Inr a'" "getPathEndpoint e 1 = Inr b'"
      "ren (v_addr a') = Some a" "ren (v_addr b') = Some b"
    by (auto simp: rbind_eq_Inr assert_eq_Inr map_at_eq_Inr)
  with ab(3,4) that show ?thesis by (auto simp: endpoint_addrs_def)
qed

lemma operands_cases:
  assumes "operands_ok fvs qs a b"
  obtains (plain) "qs = []" "endpoint_addrs a = Some (v_addr (fvs ! 0), v_addr (fvs ! 1))"
      "endpoint_addrs b = Some (v_addr (fvs ! 0), v_addr (fvs ! 1))" "length fvs = 2"
    | (quantified) q where "qs = [q]" "endpoint_addrs a = Some (v_addr (fvs ! 0), v_addr (getVar q))"
      "endpoint_addrs b = Some (v_addr (getVar q), v_addr (fvs ! 1))" "length fvs = 2"
      "distinct [v_addr (fvs ! 0), v_addr (getVar q), v_addr (fvs ! 1)]"
  using assms by (auto simp: operands_ok_def Let_def split: list.splits)

lemma sat_path_rel:
  assumes ok: "graph_ok G"
  shows "links_ok G bs e \<Longrightarrow> well_sorted e \<Longrightarrow> canonical e \<Longrightarrow> endpoint_addrs e = Some (s, t) \<Longrightarrow>
    \<rho> s < set_size G bs (fst (sorts e)) \<Longrightarrow> \<rho> t < set_size G bs (snd (sorts e)) \<Longrightarrow>
    sat G bs e \<rho> \<longleftrightarrow> (\<rho> s, \<rho> t) \<in> path_rel G bs e"
proof (induction e arbitrary: s t \<rho>)
  case (Link ty l r st)
  then show ?case by simp
next
  case (And fvs qs a b)
  have op: "operands_ok fvs qs a b" using And.prems by simp
  then have st: "s = v_addr (fvs ! 0)" "t = v_addr (fvs ! 1)" using And.prems(4) by (auto elim!: operands_cases)
  from op show ?case
  proof (cases rule: operands_cases)
    case plain
    with And.prems And.IH(1) [of s t \<rho>] And.IH(2) [of s t \<rho>] st show ?thesis by simp
  next
    case (quantified q)
    let ?z = "v_addr (getVar q)"
    have "sat G bs a (\<rho>(?z := z)) \<longleftrightarrow> ((\<rho>(?z := z)) s, (\<rho>(?z := z)) ?z) \<in> path_rel G bs a"
      and "sat G bs b (\<rho>(?z := z)) \<longleftrightarrow> ((\<rho>(?z := z)) ?z, (\<rho>(?z := z)) t) \<in> path_rel G bs b"
      if "z < set_size G bs (snd (sorts a))" for z
      using that And.prems quantified st by (intro And.IH; auto)+
    then have "sat G bs a (\<rho>(?z := z)) \<longleftrightarrow> (\<rho> s, z) \<in> path_rel G bs a"
      and "sat G bs b (\<rho>(?z := z)) \<longleftrightarrow> (z, \<rho> t) \<in> path_rel G bs b" if "z < set_size G bs (snd (sorts a))" for z
      using that quantified(5) st by simp_all
    moreover have "z < set_size G bs (snd (sorts a))" if "(x, z) \<in> path_rel G bs a" for x z
      using path_rel_bounds [OF ok, of bs a] And.prems that by auto
    ultimately have "(\<exists>z < set_size G bs (snd (sorts a)). sat G bs a (\<rho>(?z := z)) \<and> sat G bs b (\<rho>(?z := z))) \<longleftrightarrow>
        (\<rho> s, \<rho> t) \<in> path_rel G bs a O path_rel G bs b" by blast
    with quantified(1) show ?thesis by simp
  qed
next
  case (Or fvs qs a b)
  have op: "operands_ok fvs qs a b" using Or.prems by simp
  then have st: "s = v_addr (fvs ! 0)" "t = v_addr (fvs ! 1)" using Or.prems(4) by (auto elim!: operands_cases)
  from op show ?case
  proof (cases rule: operands_cases)
    case plain
    with Or.prems Or.IH(1) [of s t \<rho>] Or.IH(2) [of s t \<rho>] st show ?thesis by simp
  next
    case (quantified q)
    let ?z = "v_addr (getVar q)"
    have "sat G bs a (\<rho>(?z := z)) \<longleftrightarrow> ((\<rho>(?z := z)) s, (\<rho>(?z := z)) ?z) \<in> path_rel G bs a"
      and "sat G bs b (\<rho>(?z := z)) \<longleftrightarrow> ((\<rho>(?z := z)) ?z, (\<rho>(?z := z)) t) \<in> path_rel G bs b"
      if "z < set_size G bs (snd (sorts a))" for z
      using that Or.prems quantified st by (intro Or.IH; auto)+
    then have "sat G bs a (\<rho>(?z := z)) \<longleftrightarrow> (\<rho> s, z) \<in> path_rel G bs a"
      and "sat G bs b (\<rho>(?z := z)) \<longleftrightarrow> (z, \<rho> t) \<in> path_rel G bs b" if "z < set_size G bs (snd (sorts a))" for z
      using that quantified(5) st by simp_all
    moreover have "z < set_size G bs (snd (sorts a))" if "(x, z) \<in> path_rel G bs a \<or> (z, y) \<in> path_rel G bs b" for x y z
      using path_rel_bounds [OF ok, of bs a] path_rel_bounds [OF ok, of bs b] Or.prems quantified(1) that by fastforce
    ultimately have "(\<exists>z < set_size G bs (snd (sorts a)). sat G bs a (\<rho>(?z := z)) \<or> sat G bs b (\<rho>(?z := z))) \<longleftrightarrow>
        \<rho> s \<in> Domain (path_rel G bs a) \<or> \<rho> t \<in> Range (path_rel G bs b)" by blast
    with quantified(1) Or.prems(5,6) show ?thesis by simp
  qed
next
  case (Renamed e ren)
  obtain s' t' v0 v1 where e: "endpoint_addrs e = Some (s', t')" "ren s' = Some v0" "ren t' = Some v1"
      "s = v_addr v0" "t = v_addr v1"
    by (rule endpoint_addrs_Renamed [OF Renamed.prems(4)])
  with Renamed.prems Renamed.IH [of s' t' "\<lambda>v. case ren v of None \<Rightarrow> \<rho> v | Some w \<Rightarrow> \<rho> (v_addr w)"] show ?case by simp
qed

end
