(* ===== verification/Path_Index_Correct.thy ===== *)
theory Path_Index_Correct
  imports Path_Semantics
begin

text \<open>
  The path index builder implements the logical reading of path expressions: the index built for an
  expression lists for every element the elements that are related to it. The memo table does not change
  the result, provided the sets and stencils of the links determine them.
\<close>

section \<open>The memo table\<close>

definition link_code :: "link_type \<times> pset option \<times> pset option \<times> stencil option \<Rightarrow> nat \<times> nat \<times> nat" where
  "link_code k = (case k of (t, sl, sr, st) \<Rightarrow>
     ((case st of None \<Rightarrow> 0 | Some s \<Rightarrow> Suc (st_addr s)), set_addr sl, set_addr sr))"

text \<open>Links of the same sets and stencil, which the comparison does not tell apart, are the same.\<close>

definition coherent :: "pexpr set \<Rightarrow> bool" where
  "coherent K \<longleftrightarrow> (\<forall>a \<in> K. \<forall>b \<in> K. \<forall>k \<in> set (links a). \<forall>k' \<in> set (links b). link_code k = link_code k' \<longrightarrow> k = k')"

lemma strip_same: "path_rel G bs (strip e) = path_rel G bs e" "sorts (strip e) = sorts e" "links (strip e) = links e"
  by (induction e) simp_all

lemma enc_same:
  assumes inj: "inj tindex"
  shows "pe_enc tindex a = pe_enc tindex b \<Longrightarrow>
    (\<And>k k'. k \<in> set (links a) \<Longrightarrow> k' \<in> set (links b) \<Longrightarrow> link_code k = link_code k' \<Longrightarrow> k = k') \<Longrightarrow>
    path_rel G bs a = path_rel G bs b \<and> sorts a = sorts b"
proof (induction a arbitrary: b)
  case (Link t l r st)
  show ?case
  proof (cases b rule: strip_cases)
    case (1 t' l' r' st')
    have "pe_enc tindex (Link t l r st) = pe_enc tindex (Link t' l' r' st')"
      using Link.prems(1) pe_enc_strip [of tindex b] 1 by simp
    then have "link_code (t, v_set l, v_set r, st) = link_code (t', v_set l', v_set r', st')" by (simp add: link_code_def)
    moreover have "links b = [(t', v_set l', v_set r', st')]" using strip_same(3) [of b] 1 by simp
    ultimately have "t = t'" "v_set l = v_set l'" "v_set r = v_set r'" "st = st'"
      using Link.prems(2) [of "(t, v_set l, v_set r, st)" "(t', v_set l', v_set r', st')"] by simp_all
    with 1 strip_same(1) [of G bs b] strip_same(2) [of b] show ?thesis by simp
  qed (use Link.prems(1) in \<open>auto simp: kinds_distinct [OF inj] pe_enc_strip [of tindex b, symmetric]\<close>)
next
  case (And fvs qs a1 a2)
  show ?case
  proof (cases b rule: strip_cases)
    case (2 fvs' qs' b1 b2)
    have "pe_enc tindex (And fvs qs a1 a2) = pe_enc tindex (And fvs' qs' b1 b2)"
      using And.prems(1) pe_enc_strip [of tindex b] 2 by metis
    then have e: "pe_enc tindex a1 = pe_enc tindex b1" "pe_enc tindex a2 = pe_enc tindex b2" "length qs = length qs'"
      by (simp_all add: connective_enc_eq [OF inj])
    have l: "links b = links b1 @ links b2" using strip_same(3) [of b] 2 by simp
    have c: "k = k'" if "k \<in> set (links a1) \<union> set (links a2)" "k' \<in> set (links b)" "link_code k = link_code k'" for k k'
      using And.prems(2) [of k k'] that by simp
    have "path_rel G bs a1 = path_rel G bs b1 \<and> sorts a1 = sorts b1" by (rule And.IH(1) [OF e(1)], rule c) (simp_all add: l)
    moreover have "path_rel G bs a2 = path_rel G bs b2 \<and> sorts a2 = sorts b2" by (rule And.IH(2) [OF e(2)], rule c) (simp_all add: l)
    moreover have "qs = [] \<longleftrightarrow> qs' = []" using e(3) by auto
    ultimately have "path_rel G bs (And fvs qs a1 a2) = path_rel G bs (And fvs' qs' b1 b2)"
      "sorts (And fvs qs a1 a2) = sorts (And fvs' qs' b1 b2)" by simp_all
    with 2 strip_same(1) [of G bs b] strip_same(2) [of b] show ?thesis by simp
  qed (use And.prems(1) in \<open>auto simp: kinds_distinct [OF inj] pe_enc_strip [of tindex b, symmetric]\<close>)
next
  case (Or fvs qs a1 a2)
  show ?case
  proof (cases b rule: strip_cases)
    case (3 fvs' qs' b1 b2)
    have "pe_enc tindex (Or fvs qs a1 a2) = pe_enc tindex (Or fvs' qs' b1 b2)"
      using Or.prems(1) pe_enc_strip [of tindex b] 3 by metis
    then have e: "pe_enc tindex a1 = pe_enc tindex b1" "pe_enc tindex a2 = pe_enc tindex b2" "length qs = length qs'"
      by (simp_all add: connective_enc_eq [OF inj])
    have l: "links b = links b1 @ links b2" using strip_same(3) [of b] 3 by simp
    have c: "k = k'" if "k \<in> set (links a1) \<union> set (links a2)" "k' \<in> set (links b)" "link_code k = link_code k'" for k k'
      using Or.prems(2) [of k k'] that by simp
    have "path_rel G bs a1 = path_rel G bs b1 \<and> sorts a1 = sorts b1" by (rule Or.IH(1) [OF e(1)], rule c) (simp_all add: l)
    moreover have "path_rel G bs a2 = path_rel G bs b2 \<and> sorts a2 = sorts b2" by (rule Or.IH(2) [OF e(2)], rule c) (simp_all add: l)
    moreover have "qs = [] \<longleftrightarrow> qs' = []" using e(3) by auto
    ultimately have "path_rel G bs (Or fvs qs a1 a2) = path_rel G bs (Or fvs' qs' b1 b2)"
      "sorts (Or fvs qs a1 a2) = sorts (Or fvs' qs' b1 b2)" by simp_all
    with 3 strip_same(1) [of G bs b] strip_same(2) [of b] show ?thesis by simp
  qed (use Or.prems(1) in \<open>auto simp: kinds_distinct [OF inj] pe_enc_strip [of tindex b, symmetric]\<close>)
next
  case (Renamed e ren)
  then show ?case by simp
qed

text \<open>
  A set of expressions on which the operators are defined and links are determined by their code; the
  keys of the memo table stay in it.
\<close>

definition memo_keys_ok :: "(pe_kind \<Rightarrow> nat) \<Rightarrow> pexpr set \<Rightarrow> bool" where
  "memo_keys_ok tindex K \<longleftrightarrow> (\<forall>a \<in> K. \<forall>b \<in> K. \<exists>l. pe_lt tindex a b = Inr l) \<and> coherent K"

definition expr_repr :: "graph \<Rightarrow> (string \<rightharpoonup> nat) \<Rightarrow> segmented \<Rightarrow> pexpr \<Rightarrow> bool" where
  "expr_repr G bs p e \<longleftrightarrow> seg_repr p (set_size G bs (fst (sorts e))) (path_rel G bs e)"

definition memo_ok :: "graph \<Rightarrow> pexpr set \<Rightarrow> builder \<Rightarrow> bool" where
  "memo_ok G K B \<longleftrightarrow>
     (\<forall>((e, ep), p) \<in> set (pathIndices B). e \<in> K \<and> expr_repr G (bindings B) p e)"

lemma key_lt_total:
  assumes "memo_keys_ok tindex K" "fst k \<in> K" "fst k' \<in> K"
  shows "\<exists>l. key_lt tindex k k' = Inr l"
proof -
  obtain l g where "pe_lt tindex (fst k) (fst k') = Inr l" "pe_lt tindex (fst k') (fst k) = Inr g"
    using assms by (meson memo_keys_ok_def)
  then show ?thesis by (auto simp: key_lt_def)
qed

lemma key_equal:
  assumes inj: "inj tindex" and "key_lt tindex k k' = Inr False" and "key_lt tindex k' k = Inr False"
  shows "pe_enc tindex (fst k) = pe_enc tindex (fst k')"
proof -
  have "pe_lt tindex (fst k) (fst k') = Inr False" "pe_lt tindex (fst k') (fst k) = Inr False"
    using assms(2,3) by (auto simp: key_lt_def rbind_eq_Inr split: if_splits)
  from this [THEN pe_lt_enc [OF inj]] show ?thesis by simp
qed

lemma memo_find_ok:
  assumes inj: "inj tindex" and K: "memo_keys_ok tindex K" "fst k \<in> K"
  shows "(\<And>k' p. (k', p) \<in> set m \<Longrightarrow> fst k' \<in> K) \<Longrightarrow>
    \<exists>r. memo_find tindex k m = Inr r \<and>
      (\<forall>p. r = Some p \<longrightarrow> (\<exists>k'. (k', p) \<in> set m \<and> pe_enc tindex (fst k) = pe_enc tindex (fst k')))"
proof (induction m)
  case (Cons kv m)
  obtain k' v where kv: "kv = (k', v)" by (cases kv) auto
  have kK: "fst k' \<in> K" using Cons.prems [of k' v] kv by simp
  obtain r where r: "memo_find tindex k m = Inr r"
    "\<forall>p. r = Some p \<longrightarrow> (\<exists>k'. (k', p) \<in> set m \<and> pe_enc tindex (fst k) = pe_enc tindex (fst k'))"
    using Cons.IH Cons.prems by auto
  obtain l g where lg: "key_lt tindex k k' = Inr l" "key_lt tindex k' k = Inr g"
    using key_lt_total [OF K kK] key_lt_total [OF K(1) kK K(2)] by auto
  show ?case
  proof (cases "\<not> l \<and> \<not> g")
    case True
    then have "pe_enc tindex (fst k) = pe_enc tindex (fst k')" using key_equal [OF inj, of k k'] lg by simp
    moreover have "memo_find tindex k (kv # m) = Inr (Some v)" using True r(1) lg kv by simp
    moreover have "(k', v) \<in> set (kv # m)" by (simp add: kv)
    ultimately show ?thesis by blast
  next
    case False
    then have "memo_find tindex k (kv # m) = Inr r" using r(1) lg kv by auto
    with r(2) show ?thesis by (meson list.set_intros(2))
  qed
qed simp

lemma memo_lookup:
  assumes inj: "inj tindex" and K: "memo_keys_ok tindex K" "e \<in> K" and B: "memo_ok G K B"
  shows "\<exists>r. memo_find tindex (e, ep) (pathIndices B) = Inr r \<and> (\<forall>p. r = Some p \<longrightarrow> expr_repr G (bindings B) p e)"
proof -
  have "fst k' \<in> K" if "(k', p) \<in> set (pathIndices B)" for k' p using B that by (fastforce simp: memo_ok_def)
  then obtain r where r: "memo_find tindex (e, ep) (pathIndices B) = Inr r"
    "\<And>p. r = Some p \<Longrightarrow> \<exists>k'. (k', p) \<in> set (pathIndices B) \<and> pe_enc tindex e = pe_enc tindex (fst k')"
    using memo_find_ok [OF inj K(1), of "(e, ep)" "pathIndices B"] K(2) by auto
  have "expr_repr G (bindings B) p e" if p: "r = Some p" for p
  proof -
    obtain e' ep' where e': "((e', ep'), p) \<in> set (pathIndices B)" "pe_enc tindex e = pe_enc tindex e'"
      using r(2) [OF p] by auto
    then have "e' \<in> K" "expr_repr G (bindings B) p e'" using B by (auto simp: memo_ok_def)
    moreover have "path_rel G (bindings B) e = path_rel G (bindings B) e' \<and> sorts e = sorts e'"
      using K \<open>e' \<in> K\<close> by (intro enc_same [OF inj e'(2)]) (auto simp: memo_keys_ok_def coherent_def)
    ultimately show ?thesis by (simp add: expr_repr_def)
  qed
  with r(1) show ?thesis by blast
qed

lemma memo_insert_ok:
  assumes inj: "inj tindex" and K: "memo_keys_ok tindex K" "e \<in> K" and B: "memo_ok G K B"
    and p: "expr_repr G (bindings B) p e"
  shows "\<exists>B'. memo_insert tindex (e, ep) p B = Inr B' \<and> memo_ok G K B' \<and> bindings B' = bindings B"
proof -
  obtain r where "memo_find tindex (e, ep) (pathIndices B) = Inr r" using memo_lookup [OF inj K B] by blast
  moreover have "memo_ok G K (B\<lparr>pathIndices := pathIndices B @ [((e, ep), p)]\<rparr>)"
    using B K(2) p by (auto simp: memo_ok_def)
  ultimately show ?thesis using B by (auto simp: memo_insert_def)
qed

section \<open>The builder\<close>

fun subs :: "pexpr \<Rightarrow> pexpr list" where
  "subs (Link t l r st) = [Link t l r st]"
| "subs (And fvs qs a b) = And fvs qs a b # subs a @ subs b"
| "subs (Or fvs qs a b) = Or fvs qs a b # subs a @ subs b"
| "subs (Renamed e ren) = Renamed e ren # subs e"

lemma self_sub [simp]: "e \<in> set (subs e)"
  by (cases e) simp_all

text \<open>What the locations of the variables of canonical operands are.\<close>

lemma endpoint_addrsD:
  assumes "endpoint_addrs e = Some (s, t)"
  obtains a b where "getPathEndpoint e 0 = Inr a" "getPathEndpoint e (Suc 0) = Inr b" "v_addr a = s" "v_addr b = t"
  using assms by (auto simp: endpoint_addrs_def split: sum.splits)

lemma buildIndex_canonical:
  assumes "endpoint_addrs e = Some (v_addr source, v_addr sink)"
  shows "buildIndex rec e source sink B = rec e 0 B"
proof -
  obtain a b where ab: "getPathEndpoint e 0 = Inr a" "getPathEndpoint e (Suc 0) = Inr b" "v_addr a = v_addr source" "v_addr b = v_addr sink"
    by (rule endpoint_addrsD [OF assms])
  show ?thesis
    by (cases "v_addr source = v_addr sink")
      (simp_all add: buildIndex_def getVarToLocationsMap_def getNumPathEndpoints_def addLocation_def ab
        firstLocation_def upt_rec numeral_2_eq_2)
qed

lemma buildIndices_canonical:
  assumes a: "endpoint_addrs a = Some (v_addr source, v_addr q)" and b: "endpoint_addrs b = Some (v_addr q, v_addr sink)"
    and d: "distinct [v_addr source, v_addr q, v_addr sink]"
  shows "buildIndices rec a b source q sink B =
    rbind (rec a 0 B) (\<lambda>(p1, B1). rbind (rec b 0 B1) (\<lambda>(p2, B2). Inr ((p1, p2), B2)))"
proof -
  obtain a0 a1 where a': "getPathEndpoint a 0 = Inr a0" "getPathEndpoint a (Suc 0) = Inr a1" "v_addr a0 = v_addr source" "v_addr a1 = v_addr q"
    by (rule endpoint_addrsD [OF a])
  obtain b0 b1 where b': "getPathEndpoint b 0 = Inr b0" "getPathEndpoint b (Suc 0) = Inr b1" "v_addr b0 = v_addr q" "v_addr b1 = v_addr sink"
    by (rule endpoint_addrsD [OF b])
  have m: "getVarToLocationsMap [a, b] =
      Inr [v_addr source \<mapsto> [(a, 0)], v_addr q \<mapsto> [(a, 1), (b, 0)], v_addr sink \<mapsto> [(b, 1)]]"
    using d by (simp add: getVarToLocationsMap_def getNumPathEndpoints_def addLocation_def a' b' upt_rec numeral_2_eq_2
        fun_upd_twist)
  show ?thesis using d by (simp add: buildIndices_def m firstLocation_def Let_def)
qed

lemma seg_repr_compose:
  assumes "n < 2 ^ 32" and "\<And>x. x < k \<Longrightarrow> A x = {y. (x, y) \<in> R}" and "R \<subseteq> UNIV \<times> {..<n}"
  shows "\<exists>p. pack (nbr_map k A) True = Inr p \<and> seg_repr p k R"
proof -
  have fin: "finite (A x)" "A x \<subseteq> {..<n}" if "x < k" for x
    using assms(2) [OF that] assms(3) finite_subset [of "A x" "{..<n}"] by auto
  have "card (A x) < 2 ^ 32" if "x < k" for x
    using card_mono [OF _ fin(2) [OF that]] assms(1) by simp
  then have "seg_repr (seg_of (map (\<lambda>x. sorted_list_of_set (A x)) [0..<k])) k R"
    using fin assms(2) by (intro seg_repr_rows) simp_all
  then show ?thesis by (simp add: pack_nbr_map)
qed

lemma seg_reprD:
  assumes "seg_repr p n R" shows "seg_valid p" "numElems p = n" "\<And>x. x < n \<Longrightarrow> set (seg.row p x) = {y. (x, y) \<in> R}"
  using assms by (simp_all add: seg_repr_def)

lemma connective_reprs:
  assumes ok: "graph_ok G" and l: "links_ok G bs a" "links_ok G bs b" and w: "well_sorted a" "well_sorted b"
    and p: "expr_repr G bs p a" and q: "expr_repr G bs q b"
  shows "sorts a = sorts b \<Longrightarrow> \<exists>m r. intersectIndices p q = Inr m \<and> pack m True = Inr r \<and>
      seg_repr r (set_size G bs (fst (sorts a))) (path_rel G bs a \<inter> path_rel G bs b)"
    and "sorts a = sorts b \<Longrightarrow> \<exists>m r. unionIndices p q = Inr m \<and> pack m True = Inr r \<and>
      seg_repr r (set_size G bs (fst (sorts a))) (path_rel G bs a \<union> path_rel G bs b)"
    and "snd (sorts a) = fst (sorts b) \<Longrightarrow> \<exists>m r. composeIndices p q = Inr m \<and> pack m True = Inr r \<and>
      seg_repr r (set_size G bs (fst (sorts a))) (path_rel G bs a O path_rel G bs b)"
    and "snd (sorts a) = fst (sorts b) \<Longrightarrow>
      \<exists>m r. disjoinIndices (map int [0..<set_size G bs (snd (sorts b))]) p q = Inr m \<and> pack m True = Inr r \<and>
      seg_repr r (set_size G bs (fst (sorts a))) {(x, y). x < set_size G bs (fst (sorts a)) \<and>
        y < set_size G bs (snd (sorts b)) \<and> (x \<in> Domain (path_rel G bs a) \<or> y \<in> Range (path_rel G bs b))}"
proof -
  let ?n = "set_size G bs (fst (sorts a))" and ?k = "set_size G bs (fst (sorts b))" and ?t = "set_size G bs (snd (sorts b))"
  note P = seg_reprD [OF p [unfolded expr_repr_def]] and Q = seg_reprD [OF q [unfolded expr_repr_def]]
  have Ra: "path_rel G bs a \<subseteq> {..<?n} \<times> {..<set_size G bs (snd (sorts a))}" by (rule path_rel_bounds [OF ok l(1) w(1)])
  have Rb: "path_rel G bs b \<subseteq> {..<?k} \<times> {..<?t}" by (rule path_rel_bounds [OF ok l(2) w(2)])
  have t: "?t < 2 ^ 32" using sorts_small [OF ok l(2)] by simp
  {
    assume s: "sorts a = sorts b"
    have "\<exists>r. pack (nbr_map ?n (\<lambda>x. set (seg.row p x) \<inter> set (seg.row q x))) True = Inr r \<and>
        seg_repr r ?n (path_rel G bs a \<inter> path_rel G bs b)"
      by (rule seg_repr_compose [OF t]) (use P(3) Q(3) s Rb in auto)
    then show "\<exists>m r. intersectIndices p q = Inr m \<and> pack m True = Inr r \<and> seg_repr r ?n (path_rel G bs a \<inter> path_rel G bs b)"
      using intersectIndices_ok [OF P(1) Q(1)] P(2) Q(2) s by simp
    have "\<exists>r. pack (nbr_map ?n (\<lambda>x. set (seg.row p x) \<union> set (seg.row q x))) True = Inr r \<and>
        seg_repr r ?n (path_rel G bs a \<union> path_rel G bs b)"
      by (rule seg_repr_compose [OF t]) (use P(3) Q(3) s Ra Rb in auto)
    then show "\<exists>m r. unionIndices p q = Inr m \<and> pack m True = Inr r \<and> seg_repr r ?n (path_rel G bs a \<union> path_rel G bs b)"
      using unionIndices_ok [OF P(1) Q(1)] P(2) Q(2) s by simp
  }
  {
    assume s: "snd (sorts a) = fst (sorts b)"
    have sub: "set (seg.row p x) \<subseteq> {..<?k}" if "x < ?n" for x using P(3) [OF that] Ra s by auto
    have "(\<Union>z \<in> set (seg.row p x). set (seg.row q z)) = {y. (x, y) \<in> path_rel G bs a O path_rel G bs b}" if "x < ?n" for x
      using P(3) [OF that] Q(3) sub [OF that] by (auto simp: relcomp_unfold)
    then have "\<exists>r. pack (nbr_map ?n (\<lambda>x. \<Union>z \<in> set (seg.row p x). set (seg.row q z))) True = Inr r \<and>
        seg_repr r ?n (path_rel G bs a O path_rel G bs b)"
      by (rule seg_repr_compose [OF t]) (use Rb in auto)
    then show "\<exists>m r. composeIndices p q = Inr m \<and> pack m True = Inr r \<and> seg_repr r ?n (path_rel G bs a O path_rel G bs b)"
      using composeIndices_ok [OF P(1) Q(1)] sub P(2) Q(2) by simp
    let ?R = "{(x, y). x < ?n \<and> y < ?t \<and> (x \<in> Domain (path_rel G bs a) \<or> y \<in> Range (path_rel G bs b))}"
    have "to_unsigned ` set (map int [0..<?t]) = {..<?t}" using t by (force simp: to_unsigned_nat)
    moreover have "(\<Union>z < ?k. set (seg.row q z)) = Range (path_rel G bs b)" using Q(3) Rb by auto
    moreover have "seg.row p x = [] \<longleftrightarrow> x \<notin> Domain (path_rel G bs a)" if "x < ?n" for x
      using P(3) [OF that] by (metis (no_types, lifting) DomainE Domain.DomainI empty_Collect_eq set_empty)
    ultimately have "(if seg.row p x = [] then {} else to_unsigned ` set (map int [0..<?t])) \<union> (\<Union>z < ?k. set (seg.row q z)) =
        {y. (x, y) \<in> ?R}" if "x < ?n" for x
      using that Rb by auto
    then have "\<exists>r. pack (nbr_map ?n (\<lambda>x. (if seg.row p x = [] then {} else to_unsigned ` set (map int [0..<?t])) \<union>
        (\<Union>z < ?k. set (seg.row q z)))) True = Inr r \<and> seg_repr r ?n ?R"
      by (rule seg_repr_compose [OF t]) auto
    then show "\<exists>m r. disjoinIndices (map int [0..<?t]) p q = Inr m \<and> pack m True = Inr r \<and> seg_repr r ?n ?R"
      using disjoinIndices_ok [OF P(1) Q(1), of "map int [0..<?t]"] P(2) Q(2) by simp
  }
qed

definition built :: "graph \<Rightarrow> pexpr set \<Rightarrow> (string \<rightharpoonup> nat) \<Rightarrow> pexpr \<Rightarrow> (segmented \<times> builder) result \<Rightarrow> bool" where
  "built G K bs e r \<longleftrightarrow> (\<exists>p B. r = Inr (p, B) \<and> expr_repr G bs p e \<and> memo_ok G K B \<and> bindings B = bs)"

lemma visit_and_built:
  assumes ok: "graph_ok G" and l: "links_ok G bs (And fvs qs a b)" and w: "well_sorted (And fvs qs a b)"
    and op: "operands_ok fvs qs a b" and B: "memo_ok G K B" "bindings B = bs"
    and rec: "\<And>B. memo_ok G K B \<Longrightarrow> bindings B = bs \<Longrightarrow> built G K bs a (rec a 0 B)"
      "\<And>B. memo_ok G K B \<Longrightarrow> bindings B = bs \<Longrightarrow> built G K bs b (rec b 0 B)"
  shows "built G K bs (And fvs qs a b) (visit_and rec fvs qs a b B)"
proof -
  obtain p B1 where p: "rec a 0 B = Inr (p, B1)" "expr_repr G bs p a" "memo_ok G K B1" "bindings B1 = bs"
    using rec(1) [OF B] by (auto simp: built_def)
  obtain q B2 where q: "rec b 0 B1 = Inr (q, B2)" "expr_repr G bs q b" "memo_ok G K B2" "bindings B2 = bs"
    using rec(2) [OF p(3,4)] by (auto simp: built_def)
  note R = connective_reprs [OF ok _ _ _ _ p(2) q(2)]
  from op show ?thesis
  proof (cases rule: operands_cases)
    case plain
    then obtain m r where "intersectIndices p q = Inr m" "pack m True = Inr r"
        "seg_repr r (set_size G bs (fst (sorts a))) (path_rel G bs a \<inter> path_rel G bs b)"
      using R(1) l w by auto
    with plain p q show ?thesis by (simp add: visit_and_def buildIndex_canonical built_def expr_repr_def)
  next
    case (quantified z)
    then obtain m r where "composeIndices p q = Inr m" "pack m True = Inr r"
        "seg_repr r (set_size G bs (fst (sorts a))) (path_rel G bs a O path_rel G bs b)"
      using R(3) l w by auto
    with quantified p q show ?thesis
      by (simp add: visit_and_def buildIndices_canonical built_def expr_repr_def)
  qed
qed

lemma visit_or_built:
  assumes ok: "graph_ok G" and l: "links_ok G bs (Or fvs qs a b)" and w: "well_sorted (Or fvs qs a b)"
    and op: "operands_ok fvs qs a b" and B: "memo_ok G K B" "bindings B = bs"
    and sink: "\<exists>ka KS. bound_to bs (snd (sorts b)) ka \<and> sets G ka = Some KS"
    and rec: "\<And>B. memo_ok G K B \<Longrightarrow> bindings B = bs \<Longrightarrow> built G K bs a (rec a 0 B)"
      "\<And>B. memo_ok G K B \<Longrightarrow> bindings B = bs \<Longrightarrow> built G K bs b (rec b 0 B)"
  shows "built G K bs (Or fvs qs a b) (visit_or G rec fvs qs a b B)"
proof -
  obtain p B1 where p: "rec a 0 B = Inr (p, B1)" "expr_repr G bs p a" "memo_ok G K B1" "bindings B1 = bs"
    using rec(1) [OF B] by (auto simp: built_def)
  obtain q B2 where q: "rec b 0 B1 = Inr (q, B2)" "expr_repr G bs q b" "memo_ok G K B2" "bindings B2 = bs"
    using rec(2) [OF p(3,4)] by (auto simp: built_def)
  note R = connective_reprs [OF ok _ _ _ _ p(2) q(2)]
  from op show ?thesis
  proof (cases rule: operands_cases)
    case plain
    then obtain m r where "unionIndices p q = Inr m" "pack m True = Inr r"
        "seg_repr r (set_size G bs (fst (sorts a))) (path_rel G bs a \<union> path_rel G bs b)"
      using R(2) l w by auto
    with plain p q show ?thesis by (simp add: visit_or_def buildIndex_canonical built_def expr_repr_def)
  next
    case (quantified z)
    obtain ka KS where ka: "bound_to bs (snd (sorts b)) ka" "sets G ka = Some KS" using sink by auto
    have "0 \<le> numElements KS" using graph_okD(1) [OF ok ka(2)] by (simp add: set_ok_def)
    then have es: "set_elements KS = Inr (map int [0..<set_size G bs (snd (sorts b))])"
      using set_size_bound [OF ka] by (simp add: set_elements_ok)
    obtain m r where "disjoinIndices (map int [0..<set_size G bs (snd (sorts b))]) p q = Inr m" "pack m True = Inr r"
        "seg_repr r (set_size G bs (fst (sorts a))) {(x, y). x < set_size G bs (fst (sorts a)) \<and>
          y < set_size G bs (snd (sorts b)) \<and> (x \<in> Domain (path_rel G bs a) \<or> y \<in> Range (path_rel G bs b))}"
      using R(4) l w quantified(1) by auto
    moreover have "getSet_pe (Or fvs qs a b) (fvs ! Suc 0) = Inr (snd (sorts b))" using w quantified(1) by simp
    ultimately show ?thesis using quantified p q ka es
      by (simp add: visit_or_def buildIndices_canonical built_def expr_repr_def)
  qed
qed

lemma sink_bound:
  "graph_ok G \<Longrightarrow> links_ok G bs e \<Longrightarrow> \<exists>ka KS. bound_to bs (snd (sorts e)) ka \<and> sets G ka = Some KS"
proof (induction e)
  case (Link t l r st)
  then show ?case by (cases t) (auto simp: link_ok_def links_to_def stencil_ok_def)
qed simp_all

lemma visit_built:
  assumes ok: "graph_ok G"
  shows "links_ok G bs e \<Longrightarrow> well_sorted e \<Longrightarrow> canonical e \<Longrightarrow> memo_ok G K B \<Longrightarrow> bindings B = bs \<Longrightarrow>
    (\<And>d B. size d < size e \<Longrightarrow> d \<in> set (subs e) \<Longrightarrow> links_ok G bs d \<Longrightarrow> well_sorted d \<Longrightarrow> canonical d \<Longrightarrow>
      memo_ok G K B \<Longrightarrow> bindings B = bs \<Longrightarrow> built G K bs d (rec d 0 B)) \<Longrightarrow>
    built G K bs e (visit G rec e B)"
proof (induction e)
  case (Link t l r st)
  then show ?case using visit_link_repr [OF ok, of bs t l r st] by (auto simp: built_def expr_repr_def)
next
  case (And fvs qs a b)
  have "built G K bs a (rec a 0 B)" "built G K bs b (rec b 0 B)" if "memo_ok G K B" "bindings B = bs" for B
    using And.prems that by simp_all
  with And.prems show ?case by (simp only: visit.simps) (rule visit_and_built [OF ok]; simp)
next
  case (Or fvs qs a b)
  have "built G K bs a (rec a 0 B)" "built G K bs b (rec b 0 B)" if "memo_ok G K B" "bindings B = bs" for B
    using Or.prems that by simp_all
  with Or.prems sink_bound [OF ok, of bs b] show ?case by (simp only: visit.simps) (rule visit_or_built [OF ok Or.prems(1,2)]; simp)
next
  case (Renamed e ren)
  have "built G K bs e (visit G rec e B)" by (rule Renamed.IH) (use Renamed.prems in simp_all)
  then show ?case by (simp add: built_def expr_repr_def)
qed

lemma subs_trans: "d \<in> set (subs e) \<Longrightarrow> set (subs d) \<subseteq> set (subs e)"
  by (induction e) auto

lemma buildSegmented_built:
  assumes ok: "graph_ok G" and inj: "inj tindex" and K: "memo_keys_ok tindex K"
  shows "set (subs e) \<subseteq> K \<Longrightarrow> links_ok G bs e \<Longrightarrow> well_sorted e \<Longrightarrow> canonical e \<Longrightarrow>
    memo_ok G K B \<Longrightarrow> bindings B = bs \<Longrightarrow> built G K bs e (buildSegmented G tindex e ep B)"
proof (induction "size e" arbitrary: e ep B rule: less_induct)
  case less
  have eK: "e \<in> K" using less.prems(1) by auto
  obtain found where found: "memo_find tindex (e, ep) (pathIndices B) = Inr found"
    "\<And>p. found = Some p \<Longrightarrow> expr_repr G bs p e"
    using memo_lookup [OF inj K eK less.prems(5), of ep] less.prems(6) by auto
  show ?case
  proof (cases found)
    case (Some p)
    with found less.prems(5,6) show ?thesis by (simp add: buildSegmented.simps [of G tindex e] built_def)
  next
    case None
    have "built G K bs e (visit G (buildSegmented G tindex) e B)"
    proof (rule visit_built [OF ok less.prems(2-6)])
      fix d B assume "size d < size e" "d \<in> set (subs e)" "links_ok G bs d" "well_sorted d" "canonical d"
        "memo_ok G K B" "bindings B = bs"
      then show "built G K bs d (buildSegmented G tindex d 0 B)"
        using less.prems(1) subs_trans [of d e] by (intro less.hyps) auto
    qed
    then obtain p B1 where p: "visit G (buildSegmented G tindex) e B = Inr (p, B1)" "expr_repr G bs p e"
      "memo_ok G K B1" "bindings B1 = bs" by (auto simp: built_def)
    then obtain B2 where "memo_insert tindex (e, ep) p B1 = Inr B2" "memo_ok G K B2" "bindings B2 = bs"
      using memo_insert_ok [OF inj K eK p(3), of p ep] by auto
    with found None p show ?thesis by (simp add: buildSegmented.simps [of G tindex e] built_def)
  qed
qed

section \<open>Properties\<close>


text \<open>
  C18. One builder serves a whole sequence of requests: starting with an empty memo table every request of
  the sequence succeeds, and each index, memoized or new, represents its expression.
\<close>

definition build_all ::
  "graph \<Rightarrow> (pe_kind \<Rightarrow> nat) \<Rightarrow> (pexpr \<times> nat) list \<Rightarrow> builder \<Rightarrow> (segmented list \<times> builder) result" where
  "build_all G tindex reqs B =
     rfold (\<lambda>req st. rbind (buildSegmented G tindex (fst req) (snd req) (snd st)) (\<lambda>(p, B'). Inr (fst st @ [p], B'))) reqs ([], B)"

lemma build_all_built:
  assumes ok: "graph_ok G" and inj: "inj tindex" and K: "memo_keys_ok tindex K"
    and e: "\<And>e ep. (e, ep) \<in> set reqs \<Longrightarrow> set (subs e) \<subseteq> K \<and> links_ok G bs e \<and> well_sorted e \<and> canonical e"
    and B: "memo_ok G K B" "bindings B = bs"
  shows "\<exists>ps B'. build_all G tindex reqs B = Inr (ps, B') \<and> list_all2 (\<lambda>req p. expr_repr G bs p (fst req)) reqs ps"
proof -
  let ?Q = "\<lambda>i st. list_all2 (\<lambda>req p. expr_repr G bs p (fst req)) (take i reqs) (fst st) \<and>
      memo_ok G K (snd st) \<and> bindings (snd st) = bs"
  have "\<exists>st. rfold (\<lambda>req st. rbind (buildSegmented G tindex (fst req) (snd req) (snd st)) (\<lambda>(p, B'). Inr (fst st @ [p], B')))
      reqs ([], B) = Inr st \<and> ?Q (length reqs) st"
  proof (rule rfold_counting [of ?Q])
    fix i and st :: "segmented list \<times> builder" assume i: "i < length reqs" and q: "?Q i st"
    obtain d ep where d: "reqs ! i = (d, ep)" by (cases "reqs ! i") auto
    then have "(d, ep) \<in> set reqs" using i by (metis nth_mem)
    then have "built G K bs d (buildSegmented G tindex d ep (snd st))"
      using e q by (intro buildSegmented_built [OF ok inj K]) auto
    then obtain p B' where p: "buildSegmented G tindex d ep (snd st) = Inr (p, B')" "expr_repr G bs p d"
      "memo_ok G K B'" "bindings B' = bs" by (auto simp: built_def)
    with q d i show "\<exists>t'. rbind (buildSegmented G tindex (fst (reqs ! i)) (snd (reqs ! i)) (snd st))
        (\<lambda>(p, B'). Inr (fst st @ [p], B')) = Inr t' \<and> ?Q (Suc i) t'"
      by (simp add: take_Suc_conv_app_nth list_all2_appendI)
  qed (use B in simp)
  then show ?thesis by (auto simp: build_all_def)
qed


definition path_vertices :: set_data where
  "path_vertices = (Set_edges ''V'' [])\<lparr>numElements := 2\<rparr>"

definition path_edges :: set_data where
  "path_edges = (Set_edges ''E'' [0, 0])\<lparr>endpoints := Some 0 # Some 1 # replicate 2046 (Some 0), numElements := 1\<rparr>"

definition path_graph :: graph where
  "path_graph = no_sets\<lparr>sets := [0 \<mapsto> path_vertices, 1 \<mapsto> path_edges]\<rparr>"

definition path_builder :: builder where
  "path_builder = \<lparr>pathIndices = [], bindings = [''V'' \<mapsto> 0, ''E'' \<mapsto> 1]\<rparr>"

lemma path_sets:
  "numElements path_vertices = 2" "numElements path_edges = 1" "endpointSets path_edges = [0, 0]"
  "endpointSets path_vertices = []" "set_fields path_vertices = []" "set_fields path_edges = []"
  "fieldNames path_vertices = Map.empty" "fieldNames path_edges = Map.empty"
  "capacity path_vertices = 1024" "capacity path_edges = 1024" "endpoints path_vertices = []"
  "endpoints path_edges = Some 0 # Some 1 # replicate 2046 (Some 0)"
  by (simp_all add: path_vertices_def path_edges_def Set_edges_def Set_init_def capacityIncrement_def calloc_cells_def
      getCardinality_def)

lemma path_graph_sets: "sets path_graph s = (if s = 0 then Some path_vertices else if s = 1 then Some path_edges else None)"
  by (simp add: path_graph_def no_sets_def)

lemma path_graph_ok: "graph_ok path_graph"
proof -
  have "(Some 0 # Some 1 # replicate 2046 (Some 0)) ! i \<noteq> None" if "i < 2048" for i :: nat
    using that by (cases i; cases "i - 1") auto
  then have "set_ok path_graph path_vertices" "set_ok path_graph path_edges"
    by (auto simp: set_ok_def path_sets getCardinality_def path_graph_sets less_Suc_eq)
  then show ?thesis by (auto simp: graph_ok_def path_graph_sets getFieldAt_eq_Inr path_sets split: if_splits)
qed

lemma path_graph_links: "links_to path_graph 1 0"
proof -
  have "edges_of path_graph 1 = [[0, 1]]"
    by (simp add: edges_of_def path_graph_sets path_sets edge_at_def getCardinality_def upt_rec)
  then show ?thesis by (auto simp: links_to_def path_graph_sets path_sets getCardinality_def less_Suc_eq)
qed

lemma sample_path_keys: "memo_keys_ok kind_order (set (subs sample_path))"
proof -
  have "\<forall>a \<in> set (subs sample_path). binds 1 a" by (simp add: sample_path_def)
  then have "\<forall>a \<in> set (subs sample_path). \<forall>b \<in> set (subs sample_path). \<exists>l. pe_lt kind_order a b = Inr l"
    using pe_lt_total by blast
  moreover have "coherent (set (subs sample_path))"
    by (simp add: coherent_def sample_path_def link_code_def set_addr_def set_var_def)
  ultimately show ?thesis by (simp add: memo_keys_ok_def)
qed

lemma path_bound:
  "bound_to [''V'' \<mapsto> 0, ''E'' \<mapsto> 1] (v_set var_v) 0" "bound_to [''V'' \<mapsto> 0, ''E'' \<mapsto> 1] (v_set var_w) 0"
  "bound_to [''V'' \<mapsto> 0, ''E'' \<mapsto> 1] (v_set var_e) 1"
  by (simp_all add: bound_to_def set_var_def)

lemma sample_path_ok:
  "links_ok path_graph [''V'' \<mapsto> 0, ''E'' \<mapsto> 1] sample_path" "well_sorted sample_path" "canonical sample_path"
proof -
  have "link_ok path_graph [''V'' \<mapsto> 0, ''E'' \<mapsto> 1] ve (v_set var_v) (v_set var_e) None"
    "link_ok path_graph [''V'' \<mapsto> 0, ''E'' \<mapsto> 1] ev (v_set var_e) (v_set var_w) None"
    unfolding link_ok_def using path_bound path_graph_links path_sets path_graph_sets [of 1] by fastforce+
  then show "links_ok path_graph [''V'' \<mapsto> 0, ''E'' \<mapsto> 1] sample_path" by (simp add: sample_path_def)
qed (simp_all add: sample_path_def operands_ok_def set_var_def)



end
