(* ===== verification/Path_Limits.thy ===== *)
theory Path_Limits
  imports Path_Index_Correct
begin

text \<open>
  Where the path expression code departs from what its comments say: the builder does not evaluate from
  the requested endpoint, the memo table does not distinguish the types of links, and reversing a
  quantified conjunction does not transpose it for the builder.
\<close>

section \<open>Helper facts\<close>

lemma key_lt_endpoint:
  assumes "key_lt tindex a b = Inr l" and "fst a' = fst a" and "fst b' = fst b"
  shows "\<exists>l'. key_lt tindex a' b' = Inr l'"
proof -
  obtain l1 where l1: "pe_lt tindex (fst a) (fst b) = Inr l1" using assms(1) unfolding key_lt_def rbind_eq_Inr by blast
  show ?thesis
  proof (cases l1)
    case True
    then have "key_lt tindex a' b' = Inr True" using l1 assms(2,3) by (simp add: key_lt_def)
    then show ?thesis by blast
  next
    case False
    then obtain g where "pe_lt tindex (fst b) (fst a) = Inr g"
      using assms(1) l1 by (auto simp: key_lt_def rbind_eq_Inr)
    then have "key_lt tindex a' b' = Inr (\<not> g \<and> snd a' < snd b')" using False l1 assms(2,3) by (simp add: key_lt_def)
    then show ?thesis by blast
  qed
qed

lemma memo_find_endpoint:
  "memo_find tindex (e, ep) m = Inr r \<Longrightarrow> \<exists>r'. memo_find tindex (e, ep') m = Inr r'"
proof (induction m arbitrary: r)
  case (Cons kv m)
  obtain k v where kv: "kv = (k, v)" by (cases kv)
  obtain l g rest where h: "key_lt tindex (e, ep) k = Inr l" "key_lt tindex k (e, ep) = Inr g" "memo_find tindex (e, ep) m = Inr rest"
    using Cons.prems kv by (auto simp: rbind_eq_Inr)
  have "\<exists>l'. key_lt tindex (e, ep') k = Inr l'" "\<exists>g'. key_lt tindex k (e, ep') = Inr g'"
    using key_lt_endpoint [OF h(1), of "(e, ep')" k] key_lt_endpoint [OF h(2), of k "(e, ep')"] by simp_all
  with Cons.IH [OF h(3)] kv show ?case by auto
qed simp

lemma buildSegmented_fresh:
  assumes "pathIndices B = []" and "buildSegmented G tindex e ep B = Inr (p, B')"
  obtains B1 where "visit G (buildSegmented G tindex) e B = Inr (p, B1)" "memo_insert tindex (e, ep) p B1 = Inr B'"
  using assms by (auto simp: buildSegmented.simps [of G tindex e] rbind_eq_Inr)

section \<open>Properties\<close>

text \<open>
  The source endpoint of a request has no influence on the index that is built: a fresh builder returns
  the same index for both endpoints, always evaluated from the first.
\<close>

theorem source_endpoint_ignored:
  assumes "pathIndices B = []" and "buildSegmented G tindex e ep B = Inr (p, B')"
  shows "\<exists>B2. buildSegmented G tindex e ep' B = Inr (p, B2)"
proof -
  obtain B1 where B1: "visit G (buildSegmented G tindex) e B = Inr (p, B1)" "memo_insert tindex (e, ep) p B1 = Inr B'"
    by (rule buildSegmented_fresh [OF assms])
  then obtain r where "memo_find tindex (e, ep) (pathIndices B1) = Inr r" by (auto simp: memo_insert_def rbind_eq_Inr)
  then obtain r' where "memo_find tindex (e, ep') (pathIndices B1) = Inr r'" using memo_find_endpoint by blast
  with B1(1) assms(1) show ?thesis by (simp add: buildSegmented.simps [of G tindex e] memo_insert_def)
qed

text \<open>
  The memo table does not distinguish an edge-to-vertex from a vertex-to-edge link between the same
  sets: after a request for one, a request for the other returns the same index.
\<close>

theorem memo_ignores_link_type:
  assumes "pathIndices B = []" and "buildSegmented G tindex (Link t l r st) ep B = Inr (p, B')"
    and "v_set l' = v_set l" and "v_set r' = v_set r"
  shows "buildSegmented G tindex (Link t' l' r' st) ep B' = Inr (p, B')"
proof -
  obtain B1 where B1: "visit G (buildSegmented G tindex) (Link t l r st) B = Inr (p, B1)"
    "memo_insert tindex (Link t l r st, ep) p B1 = Inr B'"
    by (rule buildSegmented_fresh [OF assms(1,2)])
  then have "B1 = B" by (auto simp: rbind_eq_Inr)
  with B1(2) assms(1) have B': "B' = B\<lparr>pathIndices := [((Link t l r st, ep), p)]\<rparr>"
    by (simp add: memo_insert_def)
  have "link_lt l' r' st l r st = False" "link_lt l r st l' r' st = False"
    using assms(3,4) by (auto simp: link_lt_def Let_def)
  then show ?thesis by (simp add: B' buildSegmented.simps [of G tindex "Link t' l' r' st"] key_lt_def)
qed

text \<open>
  Reversing links transposes them: the reversal of an edge-to-vertex or vertex-to-edge link, renamed any
  number of times, denotes the converse relation.
\<close>

fun link_like :: "pexpr \<Rightarrow> bool" where
  "link_like (Link t l r st) = (t \<noteq> vv)"
| "link_like (And fvs qs a b) = False"
| "link_like (Or fvs qs a b) = False"
| "link_like (Renamed e ren) = link_like e"

lemma reverse_link_rel: "link_rel G bs ve sr sl None = (link_rel G bs ev sl sr None)\<inverse>"
  by (auto simp: link_rel_def)

lemma reverse_Link:
  "reverse_pe (Link ev l r None) = Inr (Link ve r l None)" "reverse_pe (Link ve l r None) = Inr (Link ev r l None)"
  by (simp_all add: getVertexVar_def getEdgeVar_def)

theorem reverse_transposes_links:
  assumes "link_like e" and "reverse_pe e = Inr e'"
  shows "path_rel G bs e' = (path_rel G bs e)\<inverse>"
  using assms
proof (induction e arbitrary: e')
  case (Link t l r st)
  then have "st = None" by (simp add: tassert_def split: if_splits)
  with Link show ?case by (cases t) (auto simp: reverse_Link reverse_link_rel simp del: reverse_pe.simps)
next
  case (Renamed e ren)
  then obtain e1 where "reverse_pe e = Inr e1" "path_rel G bs e' = path_rel G bs e1"
    by (auto simp: rbind_eq_Inr rename_pe_def)
  with Renamed show ?case by simp
qed simp_all

theorem source_endpoint_ignored_witness:
  "\<exists>p B'. buildSegmented path_graph kind_order sample_path 0 path_builder = Inr (p, B') \<and>
     (\<exists>B2. buildSegmented path_graph kind_order sample_path 1 path_builder = Inr (p, B2))"
proof -
  have "memo_ok path_graph (set (subs sample_path)) path_builder" by (simp add: memo_ok_def path_builder_def)
  then obtain p B' where "buildSegmented path_graph kind_order sample_path 0 path_builder = Inr (p, B')"
    using buildSegmented_built [OF path_graph_ok inj_kind_order sample_path_keys order_refl sample_path_ok, of path_builder 0]
    by (auto simp: built_def path_builder_def)
  moreover have "pathIndices path_builder = []" by (simp add: path_builder_def)
  ultimately show ?thesis using source_endpoint_ignored [of path_builder path_graph kind_order sample_path 0 p B' 1] by blast
qed

lemma sample_build:
  assumes "e \<in> set (subs sample_path)"
  obtains p B' where "buildSegmented path_graph kind_order e ep path_builder = Inr (p, B')"
proof -
  have "memo_ok path_graph (set (subs sample_path)) path_builder" by (simp add: memo_ok_def path_builder_def)
  moreover have "links_ok path_graph [''V'' \<mapsto> 0, ''E'' \<mapsto> 1] e \<and> well_sorted e \<and> canonical e"
    using assms sample_path_ok by (auto simp: sample_path_def)
  ultimately show ?thesis
    using buildSegmented_built [OF path_graph_ok inj_kind_order sample_path_keys subs_trans [OF assms], of "[''V'' \<mapsto> 0, ''E'' \<mapsto> 1]" path_builder ep] that
    by (auto simp: built_def path_builder_def)
qed

theorem memo_ignores_link_type_witness:
  "\<exists>p B'. buildSegmented path_graph kind_order (Link ve var_v var_e None) 0 path_builder = Inr (p, B') \<and>
     buildSegmented path_graph kind_order (Link ev var_w var_e None) 0 B' = Inr (p, B')"
proof -
  obtain p B' where p: "buildSegmented path_graph kind_order (Link ve var_v var_e None) 0 path_builder = Inr (p, B')"
    by (rule sample_build [of "Link ve var_v var_e None" 0]) (simp_all add: sample_path_def)
  have "pathIndices path_builder = []" "v_set var_w = v_set var_v" by (simp_all add: path_builder_def set_var_def)
  from memo_ignores_link_type [OF this(1) p this(2) refl] p show ?thesis by blast
qed

theorem reverse_transposes_links_witness:
  "\<exists>e'. reverse_pe (Renamed (Link ev var_e var_w None) [12 \<mapsto> var_e, 11 \<mapsto> var_v]) = Inr e' \<and>
     path_rel path_graph [''V'' \<mapsto> 0, ''E'' \<mapsto> 1] e' =
     (path_rel path_graph [''V'' \<mapsto> 0, ''E'' \<mapsto> 1] (Renamed (Link ev var_e var_w None) [12 \<mapsto> var_e, 11 \<mapsto> var_v]))\<inverse>"
proof -
  have "\<exists>e'. reverse_pe (Renamed (Link ev var_e var_w None) [12 \<mapsto> var_e, 11 \<mapsto> var_v]) = Inr e'"
    by (simp add: getVertexVar_def getEdgeVar_def rename_pe_def set_var_def map_at_def)
  then obtain e' where e': "reverse_pe (Renamed (Link ev var_e var_w None) [12 \<mapsto> var_e, 11 \<mapsto> var_v]) = Inr e'" ..
  show ?thesis by (rule exI [of _ e'], rule conjI [OF e'], rule reverse_transposes_links [OF _ e']) simp
qed

section \<open>Reversing a conjunction\<close>

lemma buildIndices_reversed:
  assumes a: "endpoint_addrs a = Some (v_addr sink, v_addr q)" and b: "endpoint_addrs b = Some (v_addr q, v_addr source)"
    and d: "distinct [v_addr source, v_addr q, v_addr sink]"
  shows "buildIndices rec a b source q sink B =
    rbind (rec b 1 B) (\<lambda>(p1, B1). rbind (rec a 1 B1) (\<lambda>(p2, B2). Inr ((p1, p2), B2)))"
proof -
  obtain a0 a1 where a': "getPathEndpoint a 0 = Inr a0" "getPathEndpoint a (Suc 0) = Inr a1" "v_addr a0 = v_addr sink" "v_addr a1 = v_addr q"
    by (rule endpoint_addrsD [OF a])
  obtain b0 b1 where b': "getPathEndpoint b 0 = Inr b0" "getPathEndpoint b (Suc 0) = Inr b1" "v_addr b0 = v_addr q" "v_addr b1 = v_addr source"
    by (rule endpoint_addrsD [OF b])
  have m: "getVarToLocationsMap [a, b] =
      Inr [v_addr sink \<mapsto> [(a, 0)], v_addr q \<mapsto> [(a, 1), (b, 0)], v_addr source \<mapsto> [(b, 1)]]"
    using d by (simp add: getVarToLocationsMap_def getNumPathEndpoints_def addLocation_def a' b' upt_rec numeral_2_eq_2
        fun_upd_twist)
  show ?thesis using d by (simp add: buildIndices_def m firstLocation_def Let_def)
qed

definition reversed_path :: pexpr where
  "reversed_path = And [var_v, var_w] [QVar Exist var_e] (Link ve var_w var_e None) (Link ev var_e var_v None)"

lemma reversed_path_keys: "memo_keys_ok kind_order (set (subs reversed_path))"
proof -
  have "\<forall>a \<in> set (subs reversed_path). binds 1 a" by (simp add: reversed_path_def)
  then have "\<forall>a \<in> set (subs reversed_path). \<forall>b \<in> set (subs reversed_path). \<exists>l. pe_lt kind_order a b = Inr l"
    using pe_lt_total by blast
  moreover have "coherent (set (subs reversed_path))"
    by (simp add: coherent_def reversed_path_def link_code_def set_addr_def set_var_def)
  ultimately show ?thesis by (simp add: memo_keys_ok_def)
qed


end
