(* ===== verification/Types.thy ===== *)
theory Types
  imports Util
begin

text \<open>
  The types of the compiler (\<^verbatim>\<open>src/src/domain.h\<close>, \<^verbatim>\<open>domain.cpp\<close>, \<^verbatim>\<open>types.h\<close>, \<^verbatim>\<open>types.cpp\<close>): index sets,
  index domains and the type language, with equality, the block structure of tensors and printing. The
  sets of an index set are expressions of the compiler IR, which is not modelled: their type is the
  parameter \<open>'e\<close>, their equality \<open>eeq\<close>, their printing \<open>eshow\<close> and their type \<open>typeof\<close>. The lookup maps
  of element and named tuple types are computed from the fields, as their only constructors do.
\<close>

section \<open>Definitions\<close>

subsection \<open>Index sets and domains\<close>

datatype 'e index_set = RangeSet nat | ExprSet 'e | DynamicSet | SingleSet 'e

datatype index_kind = Range_kind | Set_kind | Dynamic_kind | Single_kind

fun is_kind :: "'e index_set \<Rightarrow> index_kind" where
  "is_kind (RangeSet n) = Range_kind"
| "is_kind (ExprSet e) = Set_kind"
| "is_kind DynamicSet = Dynamic_kind"
| "is_kind (SingleSet e) = Single_kind"

fun is_getSize :: "'e index_set \<Rightarrow> nat result" where
  "is_getSize (RangeSet n) = Inr n"
| "is_getSize _ = Inl (InternalError ''Only Range index sets have a static size'')"

fun is_getSet :: "'e index_set \<Rightarrow> 'e result" where
  "is_getSet (ExprSet e) = Inr e"
| "is_getSet (SingleSet e) = Inr e"
| "is_getSet _ = Inl (InternalError ''Wrong kind (not a Set or Single)'')"

fun is_eq :: "('e \<Rightarrow> 'e \<Rightarrow> bool) \<Rightarrow> 'e index_set \<Rightarrow> 'e index_set \<Rightarrow> bool" where
  "is_eq eeq (RangeSet m) (RangeSet n) = (m = n)"
| "is_eq eeq (SingleSet a) (SingleSet b) = eeq a b"
| "is_eq eeq (ExprSet a) (ExprSet b) = eeq a b"
| "is_eq eeq DynamicSet DynamicSet = True"
| "is_eq eeq _ _ = False"

fun is_string :: "('e \<Rightarrow> string) \<Rightarrow> 'e index_set \<Rightarrow> string" where
  "is_string eshow (RangeSet n) = ''0:'' @ int_to_string (int n)"
| "is_string eshow (SingleSet e) = eshow e"
| "is_string eshow (ExprSet e) = eshow e"
| "is_string eshow DynamicSet = ''*''"

type_synonym 'e index_domain = "'e index_set list"

text \<open>
  The product of the sizes: an \<^verbatim>\<open>int\<close> multiplied by an \<^verbatim>\<open>unsigned\<close>, converted back to \<^verbatim>\<open>int\<close>.
\<close>

definition to_int32 :: "int \<Rightarrow> int" where
  "to_int32 i = (i + 2 ^ 31) mod 2 ^ 32 - 2 ^ 31"

definition domain_getSize :: "'e index_domain \<Rightarrow> int result" where
  "domain_getSize d = rfold (\<lambda>s size. rbind (is_getSize s) (\<lambda>n. Inr (to_int32 (size * int n)))) d 1"

definition domain_eq :: "('e \<Rightarrow> 'e \<Rightarrow> bool) \<Rightarrow> 'e index_domain \<Rightarrow> 'e index_domain \<Rightarrow> bool" where
  "domain_eq eeq l r = (length l = length r \<and> list_all (\<lambda>i. is_eq eeq (l ! i) (r ! i)) [0..<length l])"

definition domain_times :: "'e index_domain \<Rightarrow> 'e index_domain \<Rightarrow> 'e index_domain" where
  "domain_times l r = l @ r"

definition domain_string :: "('e \<Rightarrow> string) \<Rightarrow> 'e index_domain \<Rightarrow> string" where
  "domain_string eshow d = join (map (is_string eshow) d) ''*''"

subsection \<open>Types\<close>

datatype scalar_type = FloatT | IntT | BooleanT | ComplexT | StringT

datatype 'e simit_type =
    UndefinedType
  | TensorType scalar_type "'e index_domain list" bool
  | ElementType string "(string \<times> 'e simit_type) list"
  | UnstructuredSetType "'e simit_type" "'e list"
  | GridSetType "'e simit_type" "'e index_set" nat
  | UnnamedTupleType "'e simit_type" int
  | NamedTupleType "(string \<times> 'e simit_type) list"
  | ArrayType scalar_type nat
  | OpaqueType

text \<open>\<open>floatBytes\<close> is a global variable of the compiler, 8 unless single precision was asked for.\<close>

definition singleFloat :: "nat \<Rightarrow> bool result" where
  "singleFloat floatBytes =
     iassert (floatBytes = 4 \<or> floatBytes = 8) (''Invalid float size: '' @ int_to_string (int floatBytes))
       (Inr (floatBytes = 4))"

definition scalar_bytes :: "nat \<Rightarrow> scalar_type \<Rightarrow> nat" where
  "scalar_bytes floatBytes s =
     (case s of IntT \<Rightarrow> 4 | BooleanT \<Rightarrow> 1 | ComplexT \<Rightarrow> floatBytes * 2 | StringT \<Rightarrow> 1 | FloatT \<Rightarrow> floatBytes)"

definition isNumeric :: "scalar_type \<Rightarrow> bool" where
  "isNumeric s = (s = IntT \<or> s = FloatT \<or> s = ComplexT)"

fun isTensor :: "'e simit_type \<Rightarrow> bool" where
  "isTensor (TensorType c d v) = True"
| "isTensor _ = False"

fun isElement :: "'e simit_type \<Rightarrow> bool" where
  "isElement (ElementType n fs) = True"
| "isElement _ = False"

fun isUnstructuredSet :: "'e simit_type \<Rightarrow> bool" where
  "isUnstructuredSet (UnstructuredSetType t es) = True"
| "isUnstructuredSet _ = False"

fun isGridSet :: "'e simit_type \<Rightarrow> bool" where
  "isGridSet (GridSetType t p n) = True"
| "isGridSet _ = False"

fun endpoint_exprs :: "'e simit_type \<Rightarrow> 'e list result" where
  "endpoint_exprs (UnstructuredSetType t es) = Inr es"
| "endpoint_exprs _ = Inl (InternalError ''isUnstructuredSet()'')"

subsection \<open>Constructors and fields\<close>

definition fieldNames_of :: "(string \<times> 'e simit_type) list \<Rightarrow> (string \<rightharpoonup> nat)" where
  "fieldNames_of fs = fold (\<lambda>i m. m(fst (fs ! i) \<mapsto> i)) [0..<length fs] Map.empty"

definition hasField :: "(string \<times> 'e simit_type) list \<Rightarrow> string \<Rightarrow> bool" where
  "hasField fs name = (fieldNames_of fs name \<noteq> None)"

definition field :: "string \<Rightarrow> (string \<times> 'e simit_type) list \<Rightarrow> string \<Rightarrow> (string \<times> 'e simit_type) result" where
  "field ename fs name =
     iassert (hasField fs name) (''Undefined field '' @ [CHR 0x27] @ name @ [CHR 0x27] @ '' in '' @ [CHR 0x27] @ ename @ [CHR 0x27])
       (rbind (map_at (fieldNames_of fs) name) (nth_result fs))"

definition elementIndex :: "(string \<times> 'e simit_type) list \<Rightarrow> string \<Rightarrow> nat result" where
  "elementIndex es name =
     iassert (hasField es name) (''Undefined element '' @ [CHR 0x27] @ name @ [CHR 0x27]) (map_at (fieldNames_of es) name)"

definition tuple_element :: "(string \<times> 'e simit_type) list \<Rightarrow> string \<Rightarrow> (string \<times> 'e simit_type) result" where
  "tuple_element es name = rbind (elementIndex es name) (nth_result es)"

definition UnstructuredSet_make :: "'e simit_type \<Rightarrow> 'e list \<Rightarrow> 'e simit_type result" where
  "UnstructuredSet_make t eps = iassert (isElement t) ''elementType.isElement()'' (Inr (UnstructuredSetType t eps))"

definition GridSet_make ::
  "('e \<Rightarrow> 'e simit_type) \<Rightarrow> 'e simit_type \<Rightarrow> 'e index_set \<Rightarrow> nat \<Rightarrow> 'e simit_type result" where
  "GridSet_make typeof t points dims =
     iassert (isElement t) ''elementType.isElement()''
       (iassert (is_kind points = Set_kind) ''underlyingPointSet.getKind() == IndexSet::Kind::Set''
          (rbind (is_getSet points) (\<lambda>e.
           iassert (isUnstructuredSet (typeof e)) ''underlyingPointSet.getSet().type().isUnstructuredSet()''
             (rbind (endpoint_exprs (typeof e)) (\<lambda>eps.
              iassert (length eps = 0) ''getCardinality() == 0'' (Inr (GridSetType t points dims)))))))"

definition UnnamedTuple_make :: "'e simit_type \<Rightarrow> int \<Rightarrow> 'e simit_type result" where
  "UnnamedTuple_make t n = iassert (isElement t) ''elementType.isElement()'' (Inr (UnnamedTupleType t n))"

definition NamedTuple_make :: "(string \<times> 'e simit_type) list \<Rightarrow> 'e simit_type result" where
  "NamedTuple_make es =
     iassert (list_all (\<lambda>e. isElement (snd e)) es) ''elements[i].type.isElement()'' (Inr (NamedTupleType es))"

subsection \<open>The block structure of tensors\<close>

definition maxNest :: "'e index_domain list \<Rightarrow> nat" where
  "maxNest dims = fold (\<lambda>d m. if length d > m then length d else m) dims 0"

text \<open>An index domain with no index sets has no first one to take: reading it is undefined.\<close>

definition getOuterDimensions :: "'e index_domain list \<Rightarrow> 'e index_set list result" where
  "getOuterDimensions dims = rmap (\<lambda>d. nth_result d 0) (filter (\<lambda>d. length d = maxNest dims) dims)"

definition blockDimension :: "nat \<Rightarrow> 'e index_domain \<Rightarrow> 'e index_domain" where
  "blockDimension nest d = (if length d < nest then d else drop 1 d)"

definition tensor_getBlockType :: "scalar_type \<Rightarrow> 'e index_domain list \<Rightarrow> bool \<Rightarrow> 'e simit_type result" where
  "tensor_getBlockType c dims column =
     (if length dims = 0 then Inr (TensorType c [] False)
      else let numNests = length (dims ! 0) in
        iassert (numNests > 0) ''numNests > 0''
          (Inr (if numNests = 1 then TensorType c [] False
                else TensorType c (map (blockDimension (maxNest dims)) dims) column)))"

definition tensor_size :: "'e index_domain list \<Rightarrow> nat result" where
  "tensor_size dims = rfold (\<lambda>d size. rbind (domain_getSize d) (\<lambda>n. Inr (nat ((int size * n) mod 2 ^ 64)))) dims 1"

definition isSparse :: "'e index_domain list \<Rightarrow> bool" where
  "isSparse dims = (\<not> length dims < 2 \<and> list_ex (list_ex (\<lambda>s. is_kind s \<noteq> Range_kind)) dims)"

definition hasSystemDimensions :: "'e index_domain list \<Rightarrow> bool" where
  "hasSystemDimensions dims = list_ex (list_ex (\<lambda>s. is_kind s = Set_kind)) dims"

fun isScalar :: "'e simit_type \<Rightarrow> bool" where
  "isScalar (TensorType c dims v) = (length dims = 0)"
| "isScalar _ = False"

fun isSystemTensorType :: "'e simit_type \<Rightarrow> bool" where
  "isSystemTensorType (TensorType c dims v) = hasSystemDimensions dims"
| "isSystemTensorType _ = False"

definition isElementTensorType :: "'e simit_type \<Rightarrow> bool" where
  "isElementTensorType t = (\<not> isSystemTensorType t)"

subsection \<open>Equality\<close>

definition tensor_eq :: "('e \<Rightarrow> 'e \<Rightarrow> bool) \<Rightarrow> scalar_type \<Rightarrow> 'e index_domain list \<Rightarrow> scalar_type \<Rightarrow> 'e index_domain list \<Rightarrow> bool" where
  "tensor_eq eeq c dims c' dims' =
     (c = c' \<and> length dims = length dims' \<and> list_all (\<lambda>i. domain_eq eeq (dims ! i) (dims' ! i)) [0..<length dims])"

text \<open>Element types are compared by name, the elements of named tuples in order.\<close>

fun type_eq :: "('e \<Rightarrow> 'e \<Rightarrow> bool) \<Rightarrow> 'e simit_type \<Rightarrow> 'e simit_type \<Rightarrow> bool"
  and elements_eq :: "('e \<Rightarrow> 'e \<Rightarrow> bool) \<Rightarrow> (string \<times> 'e simit_type) list \<Rightarrow> (string \<times> 'e simit_type) list \<Rightarrow> bool" where
  "type_eq eeq (TensorType c d v) r = (case r of TensorType c' d' v' \<Rightarrow> tensor_eq eeq c d c' d' | _ \<Rightarrow> False)"
| "type_eq eeq (ElementType n fs) r = (case r of ElementType n' fs' \<Rightarrow> n = n' | _ \<Rightarrow> False)"
| "type_eq eeq (UnstructuredSetType t es) r =
     (case r of UnstructuredSetType t' es' \<Rightarrow>
        length es = length es' \<and> list_all (\<lambda>i. eeq (es ! i) (es' ! i)) [0..<length es] \<and> type_eq eeq t t'
      | _ \<Rightarrow> False)"
| "type_eq eeq (GridSetType t p n) r =
     (case r of GridSetType t' p' n' \<Rightarrow> type_eq eeq t t' \<and> is_eq eeq p p' \<and> n = n' | _ \<Rightarrow> False)"
| "type_eq eeq (UnnamedTupleType t n) r =
     (case r of UnnamedTupleType t' n' \<Rightarrow> type_eq eeq t t' \<and> n = n' | _ \<Rightarrow> False)"
| "type_eq eeq (NamedTupleType es) r =
     (case r of NamedTupleType es' \<Rightarrow> length es = length es' \<and> elements_eq eeq es es' | _ \<Rightarrow> False)"
| "type_eq eeq (ArrayType c n) r = (case r of ArrayType c' n' \<Rightarrow> c = c' \<and> n = n' | _ \<Rightarrow> False)"
| "type_eq eeq OpaqueType r = (r = OpaqueType)"
| "type_eq eeq UndefinedType r = (r = UndefinedType)"
| "elements_eq eeq [] r = True"
| "elements_eq eeq ((n, t) # es) r =
     (case r of [] \<Rightarrow> True | (n', t') # es' \<Rightarrow> n = n' \<and> type_eq eeq t t' \<and> elements_eq eeq es es')"

subsection \<open>Printing\<close>

definition scalar_string :: "scalar_type \<Rightarrow> string" where
  "scalar_string s =
     (case s of IntT \<Rightarrow> ''int'' | FloatT \<Rightarrow> ''float'' | BooleanT \<Rightarrow> ''boolean'' | StringT \<Rightarrow> ''string'' | ComplexT \<Rightarrow> ''complex'')"

fun element_name :: "'e simit_type \<Rightarrow> string result" where
  "element_name (ElementType n fs) = Inr n"
| "element_name _ = Inl (InternalError ''isElement()'')"

lemma maxNest_Max: "maxNest dims = Max (insert 0 (length ` set dims))"
proof -
  have "fold (\<lambda>d m. if length d > m then length d else m) ds m = fold max (map length ds) m"
    for ds :: "'a index_domain list" and m
    by (induction ds arbitrary: m) (simp_all add: max_def not_less)
  then show ?thesis
    unfolding maxNest_def Max.set_eq_fold [of 0 "map length dims", simplified] by simp
qed

lemma maxNest_ge: "d \<in> set dims \<Longrightarrow> length d \<le> maxNest dims"
  by (simp add: maxNest_Max)

lemma maxNest_less: "0 < n \<Longrightarrow> (\<And>d. d \<in> set dims \<Longrightarrow> length d < n) \<Longrightarrow> maxNest dims < n"
  by (auto simp: maxNest_Max)

lemma maxNest_const: "dims \<noteq> [] \<Longrightarrow> \<forall>d \<in> set dims. length d = n \<Longrightarrow> maxNest dims = n"
  unfolding maxNest_Max by (rule Max_eqI) (auto intro: hd_in_set)

lemma maxNest_block:
  assumes "0 < maxNest dims"
  shows "maxNest (map (blockDimension (maxNest dims)) dims) < maxNest dims"
proof (rule maxNest_less [OF assms])
  fix d assume "d \<in> set (map (blockDimension (maxNest dims)) dims)"
  then obtain d' where "d' \<in> set dims" "d = blockDimension (maxNest dims) d'" by auto
  with maxNest_ge [of d' dims] assms show "length d < maxNest dims" by (auto simp: blockDimension_def)
qed

text \<open>
  A tensor prints its outer dimensions and then its block type, which is nested less deeply: the
  recursion ends. A single dimension that is not a column vector is marked by a prime.
\<close>

function tensor_type_string :: "('e \<Rightarrow> string) \<Rightarrow> scalar_type \<Rightarrow> 'e index_domain list \<Rightarrow> bool \<Rightarrow> string result" where
  "tensor_type_string eshow c dims column =
     (if length dims = 0 then Inr (scalar_string c)
      else rbind (getOuterDimensions dims) (\<lambda>outer.
           if length (dims ! 0) = 0 then Inl (InternalError ''numNests > 0'')
           else rbind (if length (dims ! 0) = 1 then Inr (scalar_string c)
                       else tensor_type_string eshow c (map (blockDimension (maxNest dims)) dims) column) (\<lambda>block.
           Inr (''tensor['' @ join (map (is_string eshow) outer) '','' @ '']('' @ block @ '')'' @
                (if length dims = 1 \<and> \<not> column then [CHR 0x27] else [])))))"
  by pat_completeness auto
termination
proof (relation "measure (\<lambda>(_, _, dims, _). maxNest dims)", goal_cases)
  case (2 eshow c dims column outer)
  then have "dims ! 0 \<in> set dims" "0 < length (dims ! 0)" by auto
  then have "0 < maxNest dims" using maxNest_ge [of "dims ! 0" dims] by linarith
  then show ?case using maxNest_block by auto
qed simp

declare tensor_type_string.simps [simp del]

text \<open>Only range sets have a printed size; the other sets print the expression they are.\<close>

definition unstructured_set_string :: "('e \<Rightarrow> string) \<Rightarrow> string \<Rightarrow> 'e list \<Rightarrow> string" where
  "unstructured_set_string eshow name eps =
     ''set{'' @ name @ ''}'' @
     (if length eps > 0 then ''('' @ eshow (eps ! 0) @ concat (map (\<lambda>e. '', '' @ eshow e) (drop 1 eps)) @ '')'' else [])"

definition array_string :: "scalar_type \<Rightarrow> nat \<Rightarrow> string" where
  "array_string c n = scalar_string c @ (if n > 0 then ''['' @ int_to_string (int n) @ '']'' else ''*'')"

fun type_string :: "('e \<Rightarrow> string) \<Rightarrow> 'e simit_type \<Rightarrow> string result"
  and elements_string :: "('e \<Rightarrow> string) \<Rightarrow> bool \<Rightarrow> (string \<times> 'e simit_type) list \<Rightarrow> string result" where
  "type_string eshow (TensorType c dims column) = tensor_type_string eshow c dims column"
| "type_string eshow (ElementType name fs) = Inr name"
| "type_string eshow (UnstructuredSetType t eps) =
     rbind (element_name t) (\<lambda>name. Inr (unstructured_set_string eshow name eps))"
| "type_string eshow (GridSetType t points n) =
     rbind (element_name t) (\<lambda>name.
     Inr (''grid['' @ int_to_string (int n) @ '']{'' @ name @ ''}('' @ is_string eshow points @ '')''))"
| "type_string eshow (UnnamedTupleType t n) =
     rbind (element_name t) (\<lambda>name. Inr (''('' @ name @ ''*'' @ int_to_string n @ '')''))"
| "type_string eshow (NamedTupleType es) =
     rbind (elements_string eshow False es) (\<lambda>body. Inr (''('' @ body @ '')''))"
| "type_string eshow (ArrayType c n) = Inr (array_string c n)"
| "type_string eshow OpaqueType = Inr ''opaque''"
| "type_string eshow UndefinedType = Inr ''undefined type''"
| "elements_string eshow printDelimiter [] = Inr []"
| "elements_string eshow printDelimiter ((n, t) # es) =
     rbind (type_string eshow t) (\<lambda>s.
     rbind (elements_string eshow True es) (\<lambda>rest.
     Inr ((if printDelimiter then '', '' else []) @ n @ '' : '' @ s @ rest)))"

end
