(* ===== verification/Types_Correct.thy ===== *)
theory Types_Correct
  imports Types
begin

text \<open>
  Properties of the compiler types: equality is an equivalence relation, the block decomposition of
  tensor types preserves sizes for uniformly nested dimensions (and only there), printing is total on
  the types the constructors accept, and field lookup finds the declared field.
\<close>

subsection \<open>Equality is an equivalence\<close>

named_theorems type_eq_lists

lemma list_all2_upt:
  "list_all2 P xs ys = (length xs = length ys \<and> list_all (\<lambda>i. P (xs ! i) (ys ! i)) [0..<length xs])"
  by (auto simp: list_all_iff list_all2_conv_all_nth)

lemma domain_eq_all2 [type_eq_lists]: "domain_eq eeq = list_all2 (is_eq eeq)"
  by (intro ext) (simp add: domain_eq_def list_all2_upt [of "is_eq eeq"])

lemma tensor_eq_all2 [type_eq_lists]:
  "tensor_eq eeq c d c' d' = (c = c' \<and> list_all2 (list_all2 (is_eq eeq)) d d')"
  unfolding tensor_eq_def domain_eq_all2 list_all2_upt [of "list_all2 (is_eq eeq)"] by (rule refl)

lemma elements_eq_all2 [type_eq_lists]:
  "(length es = length es' \<and> elements_eq eeq es es')
     = list_all2 (\<lambda>e e'. fst e = fst e' \<and> type_eq eeq (snd e) (snd e')) es es'"
proof (induction es arbitrary: es')
  case (Cons e es)
  show ?case
  proof (cases es')
    case (Cons e' fs)
    then show ?thesis using Cons.IH [of fs] by (cases e; cases e') auto
  qed simp
qed simp

lemma is_eq_equivp: "equivp eeq \<Longrightarrow> equivp (is_eq eeq)"
proof (rule equivpI)
  assume E: "equivp eeq"
  show "reflp (is_eq eeq)"
  proof (rule reflpI)
    fix a show "is_eq eeq a a" using E by (cases a) (auto intro: equivp_reflp)
  qed
  show "symp (is_eq eeq)"
  proof (rule sympI)
    fix a b assume "is_eq eeq a b"
    then show "is_eq eeq b a" using E by (cases a; cases b) (auto intro: equivp_symp)
  qed
  show "transp (is_eq eeq)"
  proof (rule transpI)
    fix a b c assume "is_eq eeq a b" "is_eq eeq b c"
    then show "is_eq eeq a c" using E by (cases a; cases b; cases c) (auto intro: equivp_transp)
  qed
qed

lemmas equivp_parts = equivp_reflp_symp_transp [THEN iffD1, THEN conjunct1]
  equivp_reflp_symp_transp [THEN iffD1, THEN conjunct2, THEN conjunct1]
  equivp_reflp_symp_transp [THEN iffD1, THEN conjunct2, THEN conjunct2]

lemma list_all2_equivp: "equivp P \<Longrightarrow> equivp (list_all2 P)"
  using list.rel_reflp [of P] list.rel_symp [of P] list.rel_transp [of P]
  by (auto simp: equivp_reflp_symp_transp)

lemma unstructured_set_eq:
  "type_eq eeq (UnstructuredSetType t es) r =
     (\<exists>t' es'. r = UnstructuredSetType t' es' \<and> list_all2 eeq es es' \<and> type_eq eeq t t')"
  by (cases r) (auto simp: list_all2_upt)

lemma named_tuple_eq:
  "type_eq eeq (NamedTupleType es) r =
     (\<exists>fs. r = NamedTupleType fs \<and> length es = length fs \<and>
        (\<forall>i < length es. fst (es ! i) = fst (fs ! i) \<and> type_eq eeq (snd (es ! i)) (snd (fs ! i))))"
  by (cases r) (simp_all add: elements_eq_all2 list_all2_conv_all_nth)

lemmas type_eq_rules = type_eq.simps(1,2,4,5,7-9) unstructured_set_eq named_tuple_eq tensor_eq_all2

declare type_eq.simps [simp del]

lemmas lists_equivp = list_all2_equivp [OF list_all2_equivp [OF is_eq_equivp]]

lemma type_eq_refl: "equivp eeq \<Longrightarrow> type_eq eeq t t"
proof (induction t)
  case (NamedTupleType es)
  then have "type_eq eeq t t" if "t \<in> snd ` set es" for t using that by (auto simp: prod_set_simps)
  then show ?case by (auto simp: named_tuple_eq)
qed (auto simp: type_eq_rules
      intro: equivp_reflp [OF lists_equivp] equivp_reflp [OF list_all2_equivp] equivp_reflp [OF is_eq_equivp])

lemma type_eq_sym: "equivp eeq \<Longrightarrow> type_eq eeq t s \<Longrightarrow> type_eq eeq s t"
proof (induction t arbitrary: s)
  case (NamedTupleType es)
  have IH: "type_eq eeq r t" if "t \<in> snd ` set es" "type_eq eeq t r" for r t
    using that NamedTupleType.IH NamedTupleType.prems(1) by (auto simp: prod_set_simps)
  from NamedTupleType.prems(2) obtain fs where fs: "s = NamedTupleType fs" "length es = length fs"
    "\<And>i. i < length es \<Longrightarrow> fst (es ! i) = fst (fs ! i) \<and> type_eq eeq (snd (es ! i)) (snd (fs ! i))"
    unfolding named_tuple_eq by blast
  show ?case unfolding fs(1) named_tuple_eq using fs(2,3) by (auto intro: IH)
qed (auto simp: type_eq_rules split: simit_type.splits
      intro: equivp_symp [OF lists_equivp] equivp_symp [OF list_all2_equivp] equivp_symp [OF is_eq_equivp])

lemma type_eq_trans: "equivp eeq \<Longrightarrow> type_eq eeq t s \<Longrightarrow> type_eq eeq s r \<Longrightarrow> type_eq eeq t r"
proof (induction t arbitrary: s r)
  case (NamedTupleType es)
  have IH: "type_eq eeq t r" if "t \<in> snd ` set es" "type_eq eeq t s" "type_eq eeq s r" for r s t
  proof -
    from that(1) obtain e where "e \<in> set es" "t \<in> Basic_BNFs.snds e" by (auto simp: prod_set_simps)
    then show ?thesis using NamedTupleType.IH NamedTupleType.prems(1) that(2,3) by blast
  qed
  from NamedTupleType.prems(2) obtain fs where fs: "s = NamedTupleType fs" "length es = length fs"
    "\<And>i. i < length es \<Longrightarrow> fst (es ! i) = fst (fs ! i) \<and> type_eq eeq (snd (es ! i)) (snd (fs ! i))"
    unfolding named_tuple_eq by blast
  from NamedTupleType.prems(3) obtain gs where gs: "r = NamedTupleType gs" "length fs = length gs"
    "\<And>i. i < length fs \<Longrightarrow> fst (fs ! i) = fst (gs ! i) \<and> type_eq eeq (snd (fs ! i)) (snd (gs ! i))"
    unfolding fs(1) named_tuple_eq by blast
  have "fst (es ! i) = fst (gs ! i) \<and> type_eq eeq (snd (es ! i)) (snd (gs ! i))" if i: "i < length es" for i
    using fs(3) [OF i] gs(3) [of i] fs(2) i IH [of "snd (es ! i)" "snd (fs ! i)" "snd (gs ! i)"] by simp
  then show ?case using fs(2) gs(1,2) named_tuple_eq by force
next
  case (UnstructuredSetType t es)
  have "list_all2 eeq es gs" if "list_all2 eeq es fs" "list_all2 eeq fs gs" for fs gs
    using that equivp_transp [OF list_all2_equivp [OF UnstructuredSetType.prems(1)]] by metis
  with UnstructuredSetType show ?case by (auto simp: unstructured_set_eq)
qed (auto simp: type_eq_rules split: simit_type.splits
      intro: equivp_transp [OF lists_equivp] equivp_transp [OF list_all2_equivp] equivp_transp [OF is_eq_equivp])



subsection \<open>Sizes and blocks\<close>

fun range_size :: "'e index_set \<Rightarrow> nat" where
  "range_size (RangeSet n) = n"
| "range_size _ = 0"

definition ranges :: "'e index_domain list \<Rightarrow> bool" where
  "ranges dims = list_all (list_all (\<lambda>s. is_kind s = Range_kind)) dims"

definition domain_count :: "'e index_domain \<Rightarrow> nat" where
  "domain_count d = prod_list (map range_size d)"

definition components :: "'e index_domain list \<Rightarrow> nat" where
  "components dims = prod_list (map domain_count dims)"

lemma is_getSize_range: "is_kind s = Range_kind \<Longrightarrow> is_getSize s = Inr (range_size s)"
  by (cases s) simp_all

lemma to_int32_mult: "to_int32 (to_int32 a * b) = to_int32 (a * b)"
proof -
  have "(to_int32 a * b) mod 2 ^ 32 = (a * b) mod 2 ^ 32"
    unfolding to_int32_def by (metis (no_types) add_diff_cancel_right' mod_diff_left_eq mod_mult_left_eq)
  then show ?thesis unfolding to_int32_def by (metis mod_add_left_eq)
qed

lemma to_int32_id: "- (2 ^ 31) \<le> i \<Longrightarrow> i < 2 ^ 31 \<Longrightarrow> to_int32 i = i"
  by (simp add: to_int32_def)

lemma domain_getSize_wraps:
  assumes "list_all (\<lambda>s. is_kind s = Range_kind) d"
  shows "domain_getSize d = Inr (to_int32 (int (domain_count d)))"
proof -
  have "rfold (\<lambda>s size. rbind (is_getSize s) (\<lambda>n. Inr (to_int32 (size * int n)))) d (to_int32 a)
      = Inr (to_int32 (a * int (domain_count d)))" for a
    using assms
    by (induction d arbitrary: a) (simp_all add: domain_count_def is_getSize_range to_int32_mult mult.assoc)
  from this [of 1] show ?thesis by (simp add: domain_getSize_def to_int32_id)
qed

lemma tensor_size_exact:
  assumes "ranges dims" "list_all (\<lambda>d. domain_count d < 2 ^ 31) dims" "components dims < 2 ^ 64" "0 < components dims"
  shows "tensor_size dims = Inr (components dims)"
proof -
  have "rfold (\<lambda>d size. rbind (domain_getSize d) (\<lambda>n. Inr (nat ((int size * n) mod 2 ^ 64)))) dims a
      = Inr (a * components dims)" if "a * components dims < 2 ^ 64" for a
    using assms(1,2,4) that
  proof (induction dims arbitrary: a)
    case (Cons d dims)
    have size: "domain_getSize d = Inr (int (domain_count d))"
      using Cons.prems by (simp add: ranges_def domain_getSize_wraps to_int32_id)
    have pos: "0 < components dims" and "1 \<le> components dims" using Cons.prems(3) by (auto simp: components_def)
    then have "a * domain_count d \<le> a * domain_count d * components dims" by simp
    also have "\<dots> < 2 ^ 64" using Cons.prems(4) by (simp add: components_def ac_simps)
    finally have small: "a * domain_count d < 2 ^ 64" .
    then have "nat ((int a * int (domain_count d)) mod 2 ^ 64) = a * domain_count d"
      by (simp flip: of_nat_mult add: nat_mod_distrib)
    with Cons.IH [of "a * domain_count d"] Cons.prems pos size show ?case
      by (simp add: ranges_def components_def ac_simps)
  qed (simp add: components_def)
  from this [of 1] assms(3) show ?thesis by (simp add: tensor_size_def)
qed

lemma rmap_hd: "list_all (\<lambda>d. d \<noteq> []) dims \<Longrightarrow> rmap (\<lambda>d. nth_result d 0) dims = Inr (map hd dims)"
  by (induction dims) (auto simp: nth_result_def hd_conv_nth)

lemma getOuterDimensions_uniform:
  assumes "dims \<noteq> []" "0 < n" "list_all (\<lambda>d. length d = n) dims"
  shows "getOuterDimensions dims = Inr (map hd dims)"
proof -
  have "maxNest dims = n" using assms by (intro maxNest_const) (auto simp: list_all_iff)
  with assms(3) have "filter (\<lambda>d. length d = maxNest dims) dims = dims" by (simp add: list_all_iff filter_id_conv)
  moreover have "list_all (\<lambda>d. d \<noteq> []) dims" using assms by (auto simp: list_all_iff)
  ultimately show ?thesis unfolding getOuterDimensions_def by (simp add: rmap_hd)
qed

lemma tensor_getBlockType_uniform:
  assumes "dims \<noteq> []" "0 < n" "list_all (\<lambda>d. length d = n) dims"
  shows "tensor_getBlockType c dims v =
    Inr (if n = 1 then TensorType c [] False else TensorType c (map tl dims) v)"
proof -
  have "maxNest dims = n" using assms by (intro maxNest_const) (auto simp: list_all_iff)
  with assms(3) have "map (blockDimension (maxNest dims)) dims = map tl dims"
    by (auto simp: list_all_iff blockDimension_def drop_Suc)
  moreover have "length (dims ! 0) = n" using assms by (auto simp: list_all_iff)
  ultimately show ?thesis using assms(1,2) by (simp add: tensor_getBlockType_def iassert_def Let_def)
qed

lemma domain_count_split: "d \<noteq> [] \<Longrightarrow> domain_count d = range_size (hd d) * domain_count (tl d)"
  by (cases d) (simp_all add: domain_count_def)

lemma components_split:
  "list_all (\<lambda>d. d \<noteq> []) dims \<Longrightarrow>
     components dims = prod_list (map range_size (map hd dims)) * components (map tl dims)"
  by (induction dims) (simp_all add: components_def domain_count_split)

lemma components_pos: "0 < components dims \<longleftrightarrow> list_all (\<lambda>d. 0 < domain_count d) dims"
  by (induction dims) (simp_all add: components_def)

lemma domain_count_tl_le: "d \<noteq> [] \<Longrightarrow> 0 < domain_count d \<Longrightarrow> domain_count (tl d) \<le> domain_count d"
  by (simp add: domain_count_split)

lemma components_flat: "list_all (\<lambda>d. length d = 1) dims \<Longrightarrow> components (map tl dims) = 1"
  by (induction dims) (auto simp: components_def domain_count_def length_Suc_conv)

text \<open>
  C23. The block decomposition of a tensor type: when every dimension is nested equally deeply over ranges
  and the sizes stay below the limits of \<^verbatim>\<open>int\<close> (each dimension) and \<^verbatim>\<open>size_t\<close> (the whole tensor), the size of
  the tensor is the product of its outer dimensions and the size of its block type.
\<close>

theorem block_decomposition:
  assumes "dims \<noteq> []" "0 < n" "list_all (\<lambda>d. length d = n) dims" "ranges dims"
    "list_all (\<lambda>d. domain_count d < 2 ^ 31) dims" "0 < components dims" "components dims < 2 ^ 64"
  shows "\<exists>outer blocks v' size blockSize.
    getOuterDimensions dims = Inr outer \<and> length outer = length dims \<and>
    tensor_getBlockType c dims v = Inr (TensorType c blocks v') \<and>
    tensor_size dims = Inr size \<and> tensor_size blocks = Inr blockSize \<and>
    size = prod_list (map range_size outer) * blockSize"
proof -
  have ne: "list_all (\<lambda>d. d \<noteq> []) dims" using assms(2,3) by (auto simp: list_all_iff)
  define blocks where "blocks = (if n = 1 then [] else map tl dims)"
  have split: "components dims = prod_list (map range_size (map hd dims)) * components blocks"
    using components_split [OF ne] components_flat [of dims] assms(3)
    by (auto simp: blocks_def components_def)
  have pos: "0 < components blocks" using split assms(6) by simp
  have "components blocks \<le> components dims" using split assms(6) by simp
  then have small: "components blocks < 2 ^ 64" using assms(7) by simp
  have "domain_count (tl d) < 2 ^ 31" if "d \<in> set dims" for d
    using domain_count_tl_le [of d] that assms(5,6) ne by (fastforce simp: list_all_iff components_pos)
  then have dims_small: "list_all (\<lambda>d. domain_count d < 2 ^ 31) blocks" by (auto simp: list_all_iff blocks_def)
  have "set (tl d) \<subseteq> set d" for d :: "'a index_domain" by (cases d) auto
  then have "ranges blocks" using assms(4) by (fastforce simp: ranges_def list_all_iff blocks_def)
  with dims_small small pos have "tensor_size blocks = Inr (components blocks)" by (intro tensor_size_exact)
  moreover have "tensor_size dims = Inr (components dims)" using assms(4-7) by (intro tensor_size_exact)
  ultimately show ?thesis
    using getOuterDimensions_uniform [OF assms(1-3)] tensor_getBlockType_uniform [OF assms(1-3)] split
    by (auto simp: blocks_def)
qed

definition sample_dims :: "nat index_domain list" where
  "sample_dims = [[RangeSet 2, RangeSet 3], [RangeSet 4, RangeSet 5]]"

theorem block_decomposition_witness:
  "\<exists>outer blocks v' size blockSize.
    getOuterDimensions sample_dims = Inr outer \<and> length outer = length sample_dims \<and>
    tensor_getBlockType FloatT sample_dims True = Inr (TensorType FloatT blocks v') \<and>
    tensor_size sample_dims = Inr size \<and> tensor_size blocks = Inr blockSize \<and>
    size = prod_list (map range_size outer) * blockSize"
  by (rule block_decomposition [where n = 2])
    (simp_all add: sample_dims_def ranges_def domain_count_def components_def)

text \<open>
  A tensor type whose first dimension is nested less deeply than another one does not decompose: the block
  type is a scalar, the first dimension is not among the outer dimensions, and the printed type mentions
  only the outer index set of the deeper dimension.
\<close>

theorem shallow_first_dimension:
  "getOuterDimensions [[RangeSet a], [RangeSet b, RangeSet c]] = Inr [RangeSet b] \<and>
   tensor_getBlockType s [[RangeSet a], [RangeSet b, RangeSet c]] v = Inr (TensorType s [] False) \<and>
   type_string eshow (TensorType s [[RangeSet a], [RangeSet b, RangeSet c]] v)
     = Inr (''tensor[0:'' @ int_to_string (int b) @ '']('' @ scalar_string s @ '')'') \<and>
   tensor_size [[RangeSet 2], [RangeSet 3, RangeSet 4]] = Inr 24"
  by (simp_all add: getOuterDimensions_def tensor_getBlockType_def maxNest_def nth_result_def iassert_def
      tensor_type_string.simps tensor_size_def domain_getSize_def to_int32_def)

subsection \<open>Printing and field lookup\<close>

lemma block_nonempty:
  assumes "length (dims ! 0) > 1" "dims \<noteq> []" "list_all (\<lambda>d. d \<noteq> []) dims"
  shows "list_all (\<lambda>d. d \<noteq> []) (map (blockDimension (maxNest dims)) dims)"
proof -
  have "1 < maxNest dims" using maxNest_ge [of "dims ! 0" dims] assms(1,2) by auto
  then show ?thesis using assms(3) by (auto simp: list_all_iff blockDimension_def)
qed

lemma tensor_type_string_total:
  "list_all (\<lambda>d. d \<noteq> []) dims \<Longrightarrow> \<exists>s. tensor_type_string eshow c dims v = Inr s"
proof (induction eshow c dims v rule: tensor_type_string.induct)
  case (1 eshow c dims v)
  show ?case
  proof (cases "dims = []")
    case False
    have outer: "getOuterDimensions dims = Inr (map hd (filter (\<lambda>d. length d = maxNest dims) dims))"
      unfolding getOuterDimensions_def using 1(2) by (intro rmap_hd) (simp add: list_all_iff)
    have ne: "length (dims ! 0) \<noteq> 0" using False 1(2) by (auto simp: list_all_iff)
    show ?thesis
    proof (cases "length (dims ! 0) = 1")
      case True
      with False outer show ?thesis by (simp add: tensor_type_string.simps [of eshow c dims v])
    next
      case nested: False
      then have "1 < length (dims ! 0)" using ne by linarith
      from block_nonempty [OF this False 1(2)]
      have "\<exists>s. tensor_type_string eshow c (map (blockDimension (maxNest dims)) dims) v = Inr s"
        using False ne outer nested by (intro 1(1)) auto
      with False outer nested ne show ?thesis by (auto simp: tensor_type_string.simps [of eshow c dims v])
    qed
  qed (simp add: tensor_type_string.simps)
qed

fun printable :: "'e simit_type \<Rightarrow> bool" where
  "printable (TensorType c dims v) = list_all (\<lambda>d. d \<noteq> []) dims"
| "printable (UnstructuredSetType t eps) = isElement t"
| "printable (GridSetType t p n) = isElement t"
| "printable (UnnamedTupleType t n) = isElement t"
| "printable (NamedTupleType es) = list_all (\<lambda>e. isElement (snd e)) es"
| "printable _ = True"

lemma element_name_total: "isElement t \<Longrightarrow> \<exists>n. element_name t = Inr n"
  by (cases t) simp_all

lemma elements_string_total:
  "list_all (\<lambda>e. isElement (snd e)) es \<Longrightarrow> \<exists>s. elements_string eshow b es = Inr s"
proof (induction es arbitrary: b)
  case (Cons e es)
  then obtain n m fs where "e = (n, ElementType m fs)" by (cases e; cases "snd e") auto
  with Cons.IH [of True] Cons.prems show ?case by auto
qed simp

text \<open>
  C33. Printing ends and gives a string for every type whose dimensions are not empty domains and whose sets
  and tuples are over element types, as their constructors check.
\<close>

theorem type_string_total:
  assumes "printable t"
  shows "\<exists>s. type_string eshow t = Inr s"
proof (cases t)
  case (NamedTupleType es)
  with assms elements_string_total [of es eshow False] show ?thesis by auto
qed (use assms in \<open>auto simp: tensor_type_string_total dest: element_name_total\<close>)

theorem type_string_total_witness:
  "\<exists>s. type_string (\<lambda>e. e) (TensorType FloatT [[ExprSet ''V'', RangeSet 3], [ExprSet ''V'', RangeSet 3]] False) = Inr s"
  by (rule type_string_total) simp

lemma fieldNames_of_last:
  "fieldNames_of (fs @ [f]) = (fieldNames_of fs)(fst f \<mapsto> length fs)"
proof -
  have "fold (\<lambda>i m. m(fst ((fs @ [f]) ! i) \<mapsto> i)) [0..<length fs] m = fold (\<lambda>i m. m(fst (fs ! i) \<mapsto> i)) [0..<length fs] m"
    for m :: "string \<rightharpoonup> nat"
    by (rule fold_cong) (auto simp: nth_append)
  then show ?thesis by (simp add: fieldNames_of_def)
qed

lemma fieldNames_of_find:
  "fieldNames_of fs name = (if name \<in> fst ` set fs then Some (Max {i. i < length fs \<and> fst (fs ! i) = name}) else None)"
proof (induction fs rule: rev_induct)
  case (snoc f fs)
  show ?case
  proof (cases "fst f = name")
    case True
    then have "Max {i. i < length (fs @ [f]) \<and> fst ((fs @ [f]) ! i) = name} = length fs"
      by (intro Max_eqI) (auto simp: nth_append)
    with True show ?thesis by (simp add: fieldNames_of_last)
  next
    case False
    then have "{i. i < length (fs @ [f]) \<and> fst ((fs @ [f]) ! i) = name} = {i. i < length fs \<and> fst (fs ! i) = name}"
      by (auto simp: nth_append less_Suc_eq)
    with False snoc.IH show ?thesis by (simp add: fieldNames_of_last)
  qed
qed (simp add: fieldNames_of_def)

lemma field_of_distinct:
  assumes "distinct (map fst fs)" "(name, t) \<in> set fs"
  shows "field ename fs name = Inr (name, t)"
proof -
  obtain i where i: "i < length fs" "fs ! i = (name, t)" using assms(2) by (auto simp: in_set_conv_nth)
  then have "{j. j < length fs \<and> fst (fs ! j) = name} = {i}"
    using nth_eq_iff_index_eq [OF assms(1)] by fastforce
  moreover have "name \<in> fst ` set fs" using assms(2) by force
  ultimately have "fieldNames_of fs name = Some i" unfolding fieldNames_of_find by simp
  with i show ?thesis by (simp add: field_def hasField_def map_at_def nth_result_def iassert_def)
qed

lemma hasField_iff: "hasField fs name \<longleftrightarrow> name \<in> fst ` set fs"
  unfolding hasField_def fieldNames_of_find by simp

end
