(* ===== verification/Reorder.thy ===== *)
theory Reorder
  imports Graph_Store
begin

text \<open>
  Reordering of sets (\<^verbatim>\<open>src/src/reorder.h\<close>, \<^verbatim>\<open>src/src/reorder.cpp\<close>) on the store of theory \<open>Graph\<close>. A failing C
  \<^verbatim>\<open>assert\<close> aborts and is an internal error here, like \<^verbatim>\<open>simit_iassert\<close>. The Hilbert index of a vertex is
  computed in floating point by a library function; it is the parameter \<open>curve\<close>, which gets the coordinates
  of all vertices and the number of one of them.
\<close>

section \<open>Definitions\<close>

subsection \<open>Memory and sorting\<close>

definition mem_slice :: "'a memory \<Rightarrow> int \<Rightarrow> nat \<Rightarrow> 'a memory result" where
  "mem_slice m i n = (if 0 \<le> i \<and> nat i + n \<le> length m then Inr (take n (drop (nat i) m)) else Inl Undefined)"

definition mem_copy :: "'a memory \<Rightarrow> nat \<Rightarrow> 'a memory \<Rightarrow> 'a memory result" where
  "mem_copy m i c = (if i + length c \<le> length m then Inr (take i m @ c @ drop (i + length c) m) else Inl Undefined)"

fun insert_by :: "('a \<Rightarrow> 'a \<Rightarrow> bool) \<Rightarrow> 'a \<Rightarrow> 'a list \<Rightarrow> 'a list" where
  "insert_by lt x [] = [x]"
| "insert_by lt x (y # ys) = (if lt y x then y # insert_by lt x ys else x # y # ys)"

definition stable_sort :: "('a \<Rightarrow> 'a \<Rightarrow> bool) \<Rightarrow> 'a list \<Rightarrow> 'a list" where
  "stable_sort lt xs = foldr (insert_by lt) xs []"

text \<open>
  \<^verbatim>\<open>std::sort\<close> requires a strict weak order on the elements: with any other comparison its behaviour is
  undefined. Among equivalent elements it may choose any order; the stable one stands for it.
\<close>

definition strict_weak_order :: "('a \<Rightarrow> 'a \<Rightarrow> bool) \<Rightarrow> 'a list \<Rightarrow> bool" where
  "strict_weak_order lt xs =
     (list_all (\<lambda>x. \<not> lt x x) xs \<and>
      list_all (\<lambda>x. list_all (\<lambda>y. list_all (\<lambda>z. lt x y \<longrightarrow> lt x z \<or> lt z y) xs) xs) xs \<and>
      list_all (\<lambda>x. list_all (\<lambda>y. lt x y \<longrightarrow> \<not> lt y x) xs) xs)"

definition std_sort :: "('a \<Rightarrow> 'a \<Rightarrow> bool) \<Rightarrow> 'a list \<Rightarrow> 'a list result" where
  "std_sort lt xs = (if strict_weak_order lt xs then Inr (stable_sort lt xs) else Inl Undefined)"

subsection \<open>Vertex orderings\<close>

record vertex =
  vertex_id :: nat
  hilbertId :: nat
  coords :: "component \<times> component \<times> component"

definition vertexComparator :: "vertex \<Rightarrow> vertex \<Rightarrow> bool" where
  "vertexComparator a b = (if hilbertId a \<noteq> hilbertId b then hilbertId a < hilbertId b else vertex_id a < vertex_id b)"

definition createIdTranslationMapping :: "vertex list \<Rightarrow> int list \<Rightarrow> nat \<Rightarrow> int list result" where
  "createIdTranslationMapping reorderedNodes vertexOrdering cntNodes =
     iassert (length vertexOrdering = 0) ''vertexOrdering.size() == 0''
       (rfold (\<lambda>i ord. rbind (nth_result reorderedNodes i) (\<lambda>v.
           if vertex_id v < length ord then Inr (ord[vertex_id v := int i]) else Inl Undefined))
         [0..<cntNodes] (replicate cntNodes 0))"

text \<open>
  The spatial field is read as an array of doubles whatever its component type. The lookup with
  \<^verbatim>\<open>operator[]\<close> of a name that is not in the map gives 0.
\<close>

definition spatial_value :: "component memory \<Rightarrow> nat \<Rightarrow> component result" where
  "spatial_value m i = rbind (mem_cell m (int i)) (\<lambda>c. case c of None \<Rightarrow> Inl Undefined | Some v \<Rightarrow> Inr v)"

definition loadNodes :: "graph \<Rightarrow> nat \<Rightarrow> nat \<Rightarrow> vertex list result" where
  "loadNodes G s numNodes =
     rbind (getSet G s) (\<lambda>S.
     rbind (nth_result (set_fields S) (case fieldNames S (spatialFieldName S) of None \<Rightarrow> 0 | Some i \<Rightarrow> i)) (\<lambda>f.
     if fd_componentType f \<noteq> CT_Double then Inl Undefined
     else rbind (deref (blocks G) (fd_data f)) (\<lambda>spatialData.
          rmap (\<lambda>i. rbind (spatial_value spatialData (i * 3 + 0)) (\<lambda>x.
                    rbind (spatial_value spatialData (i * 3 + 1)) (\<lambda>y.
                    rbind (spatial_value spatialData (i * 3 + 2)) (\<lambda>z.
                    Inr \<lparr>vertex_id = i, hilbertId = 0, coords = (x, y, z)\<rparr>)))) [0..<numNodes])))"

type_synonym hilbert_curve = "(component \<times> component \<times> component) list \<Rightarrow> nat \<Rightarrow> nat"

definition assignHilbertIds :: "hilbert_curve \<Rightarrow> vertex list \<Rightarrow> vertex list" where
  "assignHilbertIds curve nodes =
     map (\<lambda>i. (nodes ! i)\<lparr>vertex_id := i, hilbertId := curve (map coords nodes) i\<rparr>) [0..<length nodes]"

definition hilbertReorder :: "hilbert_curve \<Rightarrow> graph \<Rightarrow> nat \<Rightarrow> int list \<Rightarrow> int list result" where
  "hilbertReorder curve G s vertexOrdering =
     rbind (getSet G s) (\<lambda>S.
     let cntNodes = nat (numElements S) in
     rbind (loadNodes G s cntNodes) (\<lambda>nodes.
     createIdTranslationMapping (stable_sort vertexComparator (assignHilbertIds curve nodes)) vertexOrdering cntNodes))"

subsection \<open>Edge orderings\<close>

definition qsortCompare :: "int \<Rightarrow> int \<Rightarrow> int" where
  "qsortCompare a b = (if a = b then 0 else if a < b then - 1 else 1)"

definition qsort :: "int list \<Rightarrow> int list" where
  "qsort xs = stable_sort (\<lambda>a b. qsortCompare a b < 0) xs"

fun edgeCompare_from :: "int list \<Rightarrow> nat \<Rightarrow> int \<Rightarrow> int \<Rightarrow> nat \<Rightarrow> nat \<Rightarrow> bool" where
  "edgeCompare_from eps c left right i 0 = True"
| "edgeCompare_from eps c left right i (Suc k) =
     (let leftID = eps ! nat (left * int c + int i); rightID = eps ! nat (right * int c + int i) in
      if leftID \<noteq> rightID then leftID < rightID else edgeCompare_from eps c left right (Suc i) k)"

definition edgeCompare :: "int list \<Rightarrow> nat \<Rightarrow> int \<Rightarrow> int \<Rightarrow> bool" where
  "edgeCompare eps c left right = edgeCompare_from eps c left right 0 c"

definition edgeVertexSortReordering :: "graph \<Rightarrow> nat \<Rightarrow> int list \<Rightarrow> int list result" where
  "edgeVertexSortReordering G s edgeOrdering =
     rbind (getSet G s) (\<lambda>S.
     let size = nat (numElements S); c = getCardinality S in
     iassert (length edgeOrdering = 0) ''edgeOrdering.size() == 0''
       (rbind (rmap (\<lambda>index. rmap (\<lambda>i. rbind (mem_cell (endpoints S) (int (index * c + i)))
                  (\<lambda>e. case e of None \<Rightarrow> Inl Undefined | Some v \<Rightarrow> Inr v)) [0..<c]) [0..<size]) (\<lambda>edges.
        std_sort (edgeCompare (concat (map qsort edges)) c) (map int [0..<size]))))"

subsection \<open>Moving the data\<close>

definition reorderFieldData :: "component memory \<Rightarrow> int list \<Rightarrow> nat \<Rightarrow> component memory result" where
  "reorderFieldData data newIndex dim =
     (let n = length newIndex in
      iassert (dim > 0) ''dim > 0''
        (rbind (rfold (\<lambda>i. rfold (\<lambda>x newData.
            iassert (newIndex ! i * int dim + int x < int (n * dim)) ''vertexOrdering[i]*dim + x < capacity * dim''
              (rbind (mem_cell data (int (i * dim + x))) (\<lambda>v. mem_write newData (newIndex ! i * int dim + int x) v)))
            [0..<dim]) [0..<n] (replicate (n * dim) None))
          (mem_copy data 0)))"

text \<open>The six cases of the switch differ only in the type of the pointer.\<close>

definition reorderFields :: "nat \<Rightarrow> int list \<Rightarrow> graph \<Rightarrow> graph result" where
  "reorderFields s newIndex G =
     rbind (getSet G s) (\<lambda>S.
     rfold (\<lambda>f G. rbind (deref (blocks G) (fd_data f)) (\<lambda>data.
                   rbind (reorderFieldData data newIndex (fd_size f)) (\<lambda>m.
                   Inr (G\<lparr>blocks := (blocks G)(fd_data f \<mapsto> m)\<rparr>)))) (set_fields S) G)"

definition reorderEdgeSet :: "nat \<Rightarrow> int list \<Rightarrow> graph \<Rightarrow> graph result" where
  "reorderEdgeSet s edgeOrdering G =
     rbind (getSet G s) (\<lambda>S.
     iassert (int (length edgeOrdering) = numElements S)
       (''Edge       Mapping must be the same size as the edge set'' @ int_to_string (int (length edgeOrdering))
          @ '' != '' @ int_to_string (numElements S))
       (let size = nat (numElements S); c = getCardinality S in
        rbind (mem_slice (endpoints S) 0 (size * c)) (\<lambda>newEndpoints.
        rbind (rfold (\<lambda>edgeIndex new.
            iassert (edgeIndex < length edgeOrdering) ''edgeIndex < edgeOrdering.size()''
              (iassert (edgeOrdering ! edgeIndex < int ((size - 1) * c * 4)) ''edgeOrdering[edgeIndex] < (int) ((size - 1) * cardinality * sizeof(int))''
                (rbind (mem_slice (endpoints S) (edgeOrdering ! edgeIndex * int c) c)
                   (mem_copy new (edgeIndex * c)))))
            [0..<size] newEndpoints) (\<lambda>newEndpoints.
        rbind (mem_copy (endpoints S) 0 newEndpoints) (\<lambda>m.
        reorderFields s edgeOrdering (putSet s (S\<lparr>endpoints := m\<rparr>) G))))))"

definition reorderEdgeSetByVertexOrdering :: "nat \<Rightarrow> int list \<Rightarrow> graph \<Rightarrow> graph result" where
  "reorderEdgeSetByVertexOrdering s vertexOrdering G =
     rbind (getSet G s) (\<lambda>S.
     rbind (rfold (\<lambda>i m. rbind (mem_cell m (int i)) (\<lambda>e.
                case e of None \<Rightarrow> Inl Undefined
                | Some v \<Rightarrow> if 0 \<le> v \<and> nat v < length vertexOrdering
                             then mem_write m (int i) (Some (vertexOrdering ! nat v)) else Inl Undefined))
              [0..<nat (numElements S * int (getCardinality S))] (endpoints S)) (\<lambda>m.
     Inr (putSet s (S\<lparr>endpoints := m\<rparr>) G)))"

definition reorderVertexSet :: "nat \<Rightarrow> nat \<Rightarrow> int list \<Rightarrow> graph \<Rightarrow> graph result" where
  "reorderVertexSet e v vertexOrdering G =
     rbind (getSet G v) (\<lambda>V.
     iassert (int (length vertexOrdering) = numElements V)
       (''Vertex Mapping must be the same size as the vertex set'' @ int_to_string (int (length vertexOrdering))
          @ '' != '' @ int_to_string (numElements V))
       (rbind (reorderEdgeSetByVertexOrdering e vertexOrdering G) (reorderFields v vertexOrdering)))"

definition reorder :: "hilbert_curve \<Rightarrow> nat \<Rightarrow> nat \<Rightarrow> graph \<Rightarrow> (int list \<times> int list \<times> graph) result" where
  "reorder curve e v G =
     rbind (getSet G v) (\<lambda>V.
     iassert (spatialFieldName V \<noteq> []) ''Vertex Set must have a spatial       field set prior to reordering''
       (rbind (hilbertReorder curve G v []) (\<lambda>vertexOrdering.
        rbind (reorderVertexSet e v vertexOrdering G) (\<lambda>G.
        rbind (edgeVertexSortReordering G e []) (\<lambda>edgeOrdering.
        rbind (reorderEdgeSet e edgeOrdering G) (\<lambda>G.
        Inr (edgeOrdering, vertexOrdering, G)))))))"

end
