(* ===== verification/Reorder_Correct.thy ===== *)
theory Reorder_Correct
  imports Reorder "HOL-Library.Multiset" "HOL-Library.Product_Lexorder"
begin

text \<open>
  Reordering a vertex set is an isomorphism of graphs; the order it computes is the order of the Hilbert
  indices. Reordering an edge set moves the endpoints one way and the fields the other way, and the
  comparison used to sort edges is no strict order.
\<close>

section \<open>Moving data along a permutation\<close>

definition permutation :: "nat \<Rightarrow> int list \<Rightarrow> bool" where
  "permutation n ord \<longleftrightarrow> length ord = n \<and> set ord = int ` {..<n}"

abbreviation new_index :: "int list \<Rightarrow> nat \<Rightarrow> nat" where
  "new_index ord i \<equiv> nat (ord ! i)"

lemma permutationD:
  assumes "permutation n ord" and "i < n"
  shows "ord ! i = int (new_index ord i)" and "new_index ord i < n" and "length ord = n"
proof -
  show "length ord = n" using assms(1) by (simp add: permutation_def)
  with assms(2) have "ord ! i \<in> set ord" by (auto intro: nth_mem)
  then show "ord ! i = int (new_index ord i)" "new_index ord i < n" using assms(1) by (auto simp: permutation_def)
qed

lemma permutation_inj:
  assumes "permutation n ord" "i < n" "j < n" "new_index ord i = new_index ord j"
  shows "i = j"
proof -
  have "card (set ord) = length ord" using assms(1) by (simp add: permutation_def card_image)
  then have "distinct ord" by (rule card_distinct)
  moreover have "ord ! i = ord ! j" using permutationD(1) [OF assms(1)] assms(2-4) by metis
  ultimately show ?thesis using assms(1-3) by (simp add: nth_eq_iff_index_eq permutation_def)
qed

lemma permutation_disjoint:
  assumes "permutation n ord" "i < n" "j < n" "x < d" "y < d"
  shows "new_index ord i * d + x = new_index ord j * d + y \<longleftrightarrow> i = j \<and> x = y"
  using mixed_radix_inj [of "new_index ord i" d x "new_index ord j" y] permutation_inj [OF assms(1-3)] assms(4,5)
  by auto

lemma scatter_row:
  assumes p: "permutation n ord" and i: "i < n" and d: "n * d \<le> length data" and new: "length new = n * d"
  shows "\<exists>m. rfold (\<lambda>x newData.
      iassert (ord ! i * int d + int x < int (n * d)) msg
        (rbind (mem_cell data (int (i * d + x))) (\<lambda>v. mem_write newData (ord ! i * int d + int x) v)))
      [0..<d] new = Inr m \<and> length m = n * d \<and>
    (\<forall>k < n * d. m ! k = (if k div d = new_index ord i then data ! (i * d + k mod d) else new ! k))"
proof -
  let ?o = "new_index ord i"
  let ?Q = "\<lambda>x m. length m = n * d \<and>
    (\<forall>k < n * d. m ! k = (if k div d = ?o \<and> k mod d < x then data ! (i * d + k mod d) else new ! k))"
  have step: "\<exists>m'. iassert (ord ! i * int d + int ([0..<d] ! x) < int (n * d)) msg
      (rbind (mem_cell data (int (i * d + [0..<d] ! x))) (\<lambda>v. mem_write m (ord ! i * int d + int ([0..<d] ! x)) v)) = Inr m' \<and>
      ?Q (Suc x) m'" if "x < length [0..<d]" "?Q x m" for x m
  proof -
    from that(1) have x: "x < d" by simp
    have w: "?o * d + x < n * d" using permutationD(2) [OF p i] x by (rule mixed_radix_less)
    have "i * d + x < n * d" using i x by (rule mixed_radix_less)
    then have r: "mem_cell data (int (i * d + x)) = Inr (data ! (i * d + x))" using d by (intro mem_cell_at) simp
    have "mem_write m (ord ! i * int d + int x) v = Inr (m[?o * d + x := v])" for v
      using mem_write_at [of "?o * d + x" m v] w that(2) permutationD(1) [OF p i] by simp
    moreover have "ord ! i * int d + int x < int (n * d)"
      using w permutationD(1) [OF p i] by (metis of_nat_add of_nat_less_iff of_nat_mult)
    moreover have "?Q (Suc x) (m[?o * d + x := data ! (i * d + x)])"
    proof (intro conjI allI impI)
      fix k assume k: "k < n * d"
      show "m[?o * d + x := data ! (i * d + x)] ! k =
          (if k div d = ?o \<and> k mod d < Suc x then data ! (i * d + k mod d) else new ! k)"
      proof (cases "k = ?o * d + x")
        case True
        then show ?thesis using x k that(2) by simp
      next
        case False
        then have "\<not> (k div d = ?o \<and> k mod d = x)" by (metis div_mult_mod_eq)
        then show ?thesis using False k that(2) by (auto simp: less_Suc_eq)
      qed
    qed (use that(2) in simp)
    ultimately show ?thesis using x r by simp
  qed
  have "\<exists>m. rfold (\<lambda>x newData.
      iassert (ord ! i * int d + int x < int (n * d)) msg
        (rbind (mem_cell data (int (i * d + x))) (\<lambda>v. mem_write newData (ord ! i * int d + int x) v)))
      [0..<d] new = Inr m \<and> ?Q (length [0..<d]) m"
    by (rule rfold_counting) (use new step in auto)
  moreover have "k mod d < d" if "k < n * d" for k using that by (cases "d = 0") auto
  ultimately show ?thesis by fastforce
qed

text \<open>The contents of a buffer after its first \<open>n\<close> tensors were moved along a permutation.\<close>

definition scattered :: "nat \<Rightarrow> int list \<Rightarrow> nat \<Rightarrow> 'a memory \<Rightarrow> 'a memory \<Rightarrow> bool" where
  "scattered n ord d data m \<longleftrightarrow> length m = length data \<and>
     (\<forall>i < n. \<forall>x < d. m ! (new_index ord i * d + x) = data ! (i * d + x)) \<and>
     (\<forall>k. n * d \<le> k \<longrightarrow> k < length data \<longrightarrow> m ! k = data ! k)"

lemma mem_copy_front:
  assumes "length c \<le> length m"
  shows "mem_copy m 0 c = Inr (c @ drop (length c) m)"
  using assms by (simp add: mem_copy_def)

lemma reorderFieldData_ok:
  assumes p: "permutation n ord" and d: "0 < d" "n * d \<le> length data"
  shows "\<exists>m. reorderFieldData data ord d = Inr m \<and> scattered n ord d data m"
proof -
  have len: "length ord = n" using p by (simp add: permutation_def)
  let ?msg = "''vertexOrdering[i]*dim + x < capacity * dim''"
  let ?row = "\<lambda>i. rfold (\<lambda>x newData.
      iassert (ord ! i * int d + int x < int (n * d)) ?msg
        (rbind (mem_cell data (int (i * d + x))) (\<lambda>v. mem_write newData (ord ! i * int d + int x) v))) [0..<d]"
  let ?Q = "\<lambda>i m. length m = n * d \<and> (\<forall>j < i. \<forall>x < d. m ! (new_index ord j * d + x) = data ! (j * d + x))"
  have step: "\<exists>m'. ?row ([0..<n] ! i) m = Inr m' \<and> ?Q (Suc i) m'" if "i < length [0..<n]" "?Q i m" for i m
  proof -
    from that(1) have i: "i < n" by simp
    obtain m' where m': "?row i m = Inr m'" "length m' = n * d"
      "\<forall>k < n * d. m' ! k = (if k div d = new_index ord i then data ! (i * d + k mod d) else m ! k)"
      using scatter_row [OF p i d(2), of m ?msg] \<open>?Q i m\<close> by auto
    have "m' ! (new_index ord j * d + x) = data ! (j * d + x)" if "j < Suc i" "x < d" for j x
    proof -
      have "new_index ord j * d + x < n * d"
        using permutationD(2) [OF p, of j] that i by (intro mixed_radix_less) auto
      then show ?thesis
        using m'(3) that \<open>?Q i m\<close> permutation_inj [OF p, of j i] i by (auto simp: less_Suc_eq)
    qed
    with m'(1,2) i show ?thesis by auto
  qed
  have "\<exists>m. rfold ?row [0..<n] (replicate (n * d) None) = Inr m \<and> ?Q (length [0..<n]) m"
    by (rule rfold_counting) (use step in auto)
  then obtain m where m: "rfold ?row [0..<n] (replicate (n * d) None) = Inr m" "?Q n m" by auto
  have "reorderFieldData data ord d = Inr (m @ drop (n * d) data)"
    using m d mem_copy_front [of m data] by (simp add: reorderFieldData_def len Let_def)
  moreover have "scattered n ord d data (m @ drop (n * d) data)"
    unfolding scattered_def
  proof (intro conjI allI impI)
    fix i x assume "i < n" "x < d"
    moreover from this have "new_index ord i * d + x < n * d"
      using permutationD(2) [OF p] by (intro mixed_radix_less) auto
    ultimately show "(m @ drop (n * d) data) ! (new_index ord i * d + x) = data ! (i * d + x)"
      using m(2) by (simp add: nth_append)
  qed (use m(2) d(2) in \<open>auto simp: nth_append\<close>)
  ultimately show ?thesis by blast
qed

text \<open>The store after all fields of a set were moved: other blocks, sets and references are untouched.\<close>

definition fields_moved :: "nat \<Rightarrow> int list \<Rightarrow> field_data list \<Rightarrow> graph \<Rightarrow> graph \<Rightarrow> bool" where
  "fields_moved n ord fs G G' \<longleftrightarrow>
     sets G' = sets G \<and> refs G' = refs G \<and> nextBlock G' = nextBlock G \<and>
     (\<forall>f \<in> set fs. \<exists>data m. blocks G (fd_data f) = Some data \<and> blocks G' (fd_data f) = Some m \<and>
        scattered n ord (fd_size f) data m) \<and>
     (\<forall>b. b \<notin> fd_data ` set fs \<longrightarrow> blocks G' b = blocks G b)"

lemma reorderFields_ok:
  assumes S: "sets G s = Some S" and p: "permutation n ord" and dist: "distinct (map fd_data (set_fields S))"
    and fs: "\<And>f. f \<in> set (set_fields S) \<Longrightarrow>
      0 < fd_size f \<and> (\<exists>m. blocks G (fd_data f) = Some m \<and> n * fd_size f \<le> length m)"
  shows "\<exists>G'. reorderFields s ord G = Inr G' \<and> fields_moved n ord (set_fields S) G G'"
proof -
  let ?fs = "set_fields S"
  let ?move = "\<lambda>f G. rbind (deref (blocks G) (fd_data f)) (\<lambda>data.
      rbind (reorderFieldData data ord (fd_size f)) (\<lambda>m. Inr (G\<lparr>blocks := (blocks G)(fd_data f \<mapsto> m)\<rparr>)))"
  have "\<exists>G'. rfold ?move ?fs G = Inr G' \<and> fields_moved n ord (take (length ?fs) ?fs) G G'"
  proof (rule rfold_counting [where Q = "\<lambda>i. fields_moved n ord (take i ?fs) G"])
    show "fields_moved n ord (take 0 ?fs) G G" by (simp add: fields_moved_def)
    fix i H assume i: "i < length ?fs" and H: "fields_moved n ord (take i ?fs) G H"
    let ?f = "?fs ! i"
    have new: "fd_data ?f \<notin> fd_data ` set (take i ?fs)"
      using dist i by (auto simp: distinct_conv_nth in_set_conv_nth)
    obtain data where data: "blocks G (fd_data ?f) = Some data" "n * fd_size ?f \<le> length data" "0 < fd_size ?f"
      using fs [of ?f] i by auto
    then obtain m where m: "reorderFieldData data ord (fd_size ?f) = Inr m" "scattered n ord (fd_size ?f) data m"
      using reorderFieldData_ok [OF p] by blast
    have Hf: "blocks H (fd_data ?f) = Some data" using H new data(1) by (simp add: fields_moved_def)
    let ?H = "H\<lparr>blocks := (blocks H)(fd_data ?f \<mapsto> m)\<rparr>"
    have "fields_moved n ord (take (Suc i) ?fs) G ?H"
      unfolding fields_moved_def
    proof (intro conjI ballI)
      fix f assume f: "f \<in> set (take (Suc i) ?fs)"
      show "\<exists>data m. blocks G (fd_data f) = Some data \<and> blocks ?H (fd_data f) = Some m \<and> scattered n ord (fd_size f) data m"
      proof (cases "f = ?f")
        case False
        then have "f \<in> set (take i ?fs)" using f i by (simp add: take_Suc_conv_app_nth)
        moreover from this new have "fd_data f \<noteq> fd_data ?f" by (metis imageI)
        ultimately show ?thesis using H by (simp add: fields_moved_def)
      qed (use data m in simp)
    qed (use H i in \<open>auto simp: fields_moved_def take_Suc_conv_app_nth\<close>)
    with Hf m(1) show "\<exists>t'. ?move (?fs ! i) H = Inr t' \<and> fields_moved n ord (take (Suc i) ?fs) G t'" by simp
  qed
  with S show ?thesis by (simp add: reorderFields_def)
qed

section \<open>Vertex sets\<close>

lemma renumber_endpoints:
  assumes len: "k \<le> length m" and v: "\<And>i. i < k \<Longrightarrow> \<exists>u < length ord. m ! i = Some (int u)"
  shows "\<exists>m'. rfold (\<lambda>i m. rbind (mem_cell m (int i)) (\<lambda>e.
        case e of None \<Rightarrow> Inl Undefined
        | Some v \<Rightarrow> if 0 \<le> v \<and> nat v < length ord then mem_write m (int i) (Some (ord ! nat v)) else Inl Undefined))
      [0..<k] m = Inr m' \<and> length m' = length m \<and>
    (\<forall>i < length m. m' ! i = (if i < k then Some (ord ! nat (the (m ! i))) else m ! i))"
proof -
  let ?f = "\<lambda>i m. rbind (mem_cell m (int i)) (\<lambda>e.
        case e of None \<Rightarrow> Inl Undefined
        | Some v \<Rightarrow> if 0 \<le> v \<and> nat v < length ord then mem_write m (int i) (Some (ord ! nat v)) else Inl Undefined)"
  let ?Q = "\<lambda>j m'. length m' = length m \<and>
    (\<forall>i < length m. m' ! i = (if i < j then Some (ord ! nat (the (m ! i))) else m ! i))"
  have "\<exists>m'. ?f ([0..<k] ! j) m1 = Inr m' \<and> ?Q (Suc j) m'" if j: "j < length [0..<k]" and Q: "?Q j m1" for j m1
  proof -
    from j have "j < k" by simp
    with v obtain u where u: "u < length ord" "m ! j = Some (int u)" by blast
    with Q \<open>j < k\<close> len have "?f j m1 = Inr (m1[j := Some (ord ! u)])" by simp
    moreover have "?Q (Suc j) (m1[j := Some (ord ! u)])"
      using Q u \<open>j < k\<close> len by (auto simp: nth_list_update less_Suc_eq)
    moreover have "[0..<k] ! j = j" using \<open>j < k\<close> by simp
    ultimately show ?thesis by metis
  qed
  then have "\<exists>m'. rfold ?f [0..<k] m = Inr m' \<and> ?Q (length [0..<k]) m'"
    by (intro rfold_counting) auto
  then show ?thesis by simp
qed

definition edges_into :: "nat \<Rightarrow> set_data \<Rightarrow> bool" where
  "edges_into n E = list_all (\<lambda>e. case e of None \<Rightarrow> False | Some v \<Rightarrow> 0 \<le> v \<and> v < int n)
     (take (nat (numElements E) * getCardinality E) (endpoints E))"

lemma edges_intoD:
  assumes "edges_into n E" "i < nat (numElements E) * getCardinality E" "i < length (endpoints E)"
  shows "\<exists>u < n. endpoints E ! i = Some (int u)"
proof -
  have "endpoints E ! i \<in> set (take (nat (numElements E) * getCardinality E) (endpoints E))"
    using assms(2,3) by (auto simp: in_set_conv_nth)
  with assms(1) obtain v where "endpoints E ! i = Some v" "0 \<le> v" "v < int n"
    unfolding edges_into_def list_all_iff by (cases "endpoints E ! i") auto
  then show ?thesis by (intro exI [of _ "nat v"]) auto
qed

lemma set_ok_bounds:
  assumes "set_ok G S"
  shows "0 \<le> numElements S" and "nat (numElements S) \<le> capacity S"
    and "length (endpoints S) = capacity S * getCardinality S"
    and "nat (numElements S) * getCardinality S \<le> length (endpoints S)"
proof -
  show *: "0 \<le> numElements S" "length (endpoints S) = capacity S * getCardinality S"
    using assms unfolding set_ok_def by blast+
  show "nat (numElements S) \<le> capacity S" using assms unfolding set_ok_def by linarith
  then show "nat (numElements S) * getCardinality S \<le> length (endpoints S)" using * by simp
qed

lemma buffers_movable:
  assumes "graph_ok G" "sets G s = Some S" "f \<in> set (set_fields S)" "n = nat (numElements S)"
  shows "\<exists>m. blocks G (fd_data f) = Some m \<and> n * fd_size f \<le> length m"
proof -
  have ok: "set_ok G S" using graph_okD(1) [OF assms(1,2)] .
  then have "n \<le> capacity S" using assms(4) set_ok_bounds(2) by simp
  moreover obtain m where "blocks G (fd_data f) = Some m" "length m = capacity S * fd_size f"
    using ok assms(3) by (auto simp: set_ok_def field_ok_def)
  ultimately show ?thesis by simp
qed

text \<open>
  C21. Reordering the vertices along a permutation is an isomorphism: it succeeds on a well-formed store, every
  endpoint \<open>u\<close> of every edge becomes the new number of \<open>u\<close>, the field values of vertex \<open>i\<close> are afterwards those
  of the vertex with its new number, and nothing else in the store changes.
\<close>

theorem reorderVertexSet_isomorphism:
  assumes "graph_ok G" "sets G e = Some E" "sets G v = Some V" "e \<noteq> v" "n = nat (numElements V)"
    "permutation n ord" "edges_into n E" "list_all (\<lambda>f. 0 < fd_size f) (set_fields V)"
  shows "\<exists>G' m. reorderVertexSet e v ord G = Inr G' \<and>
    sets G' = (sets G)(e \<mapsto> E\<lparr>endpoints := m\<rparr>) \<and> refs G' = refs G \<and> length m = length (endpoints E) \<and>
    (\<forall>i < length (endpoints E). m ! i =
       (if i < nat (numElements E) * getCardinality E then Some (ord ! nat (the (endpoints E ! i))) else endpoints E ! i)) \<and>
    (\<forall>f \<in> set (set_fields V). \<exists>data m. blocks G (fd_data f) = Some data \<and> blocks G' (fd_data f) = Some m \<and>
       scattered n ord (fd_size f) data m) \<and>
    (\<forall>b. b \<notin> fd_data ` set (set_fields V) \<longrightarrow> blocks G' b = blocks G b)"
proof -
  have E: "set_ok G E" and V: "set_ok G V" "buffers_ok G V" using graph_okD [OF assms(1)] assms(2,3) by blast+
  let ?k = "nat (numElements E) * getCardinality E"
  have len: "length ord = n" using assms(6) by (simp add: permutation_def)
  have k: "?k \<le> length (endpoints E)" using set_ok_bounds(4) [OF E] .
  obtain m where m: "reorderEdgeSetByVertexOrdering e ord G = Inr (putSet e (E\<lparr>endpoints := m\<rparr>) G)"
    "length m = length (endpoints E)"
    "\<forall>i < length (endpoints E). m ! i = (if i < ?k then Some (ord ! nat (the (endpoints E ! i))) else endpoints E ! i)"
    using renumber_endpoints [OF k, of ord] edges_intoD [OF assms(7)] k len assms(2)
    by (auto simp: reorderEdgeSetByVertexOrdering_def nat_mult_distrib set_ok_bounds(1) [OF E])
  let ?G = "putSet e (E\<lparr>endpoints := m\<rparr>) G"
  have fields: "0 < fd_size f \<and> (\<exists>m. blocks ?G (fd_data f) = Some m \<and> n * fd_size f \<le> length m)"
    if "f \<in> set (set_fields V)" for f
    using buffers_movable [OF assms(1,3) that assms(5)] assms(8) that by (simp add: list_all_iff putSet_def)
  have "sets ?G v = Some V" "distinct (map fd_data (set_fields V))"
    using assms(3,4) V(2) by (simp_all add: putSet_def buffers_ok_def)
  from reorderFields_ok [OF this(1) assms(6) this(2) fields]
  obtain G' where "reorderFields v ord ?G = Inr G'" "fields_moved n ord (set_fields V) ?G G'" by blast
  moreover note set_ok_bounds(1) [OF V(1)]
  ultimately show ?thesis
    using m assms(3,5) len by (auto simp: reorderVertexSet_def fields_moved_def putSet_def)
qed

section \<open>Edge sets\<close>

lemma gather_edges:
  assumes p: "permutation n ord" and c: "n * c \<le> length m" and n: "2 \<le> n" "0 < c"
  shows "\<exists>m'. rfold (\<lambda>i new.
      iassert (i < length ord) msg
        (iassert (ord ! i < int ((n - 1) * c * 4)) msg' (rbind (mem_slice m (ord ! i * int c) c) (mem_copy new (i * c)))))
      [0..<n] (take (n * c) m) = Inr m' \<and> length m' = n * c \<and>
    (\<forall>i < n. \<forall>x < c. m' ! (i * c + x) = m ! (new_index ord i * c + x))"
proof -
  let ?f = "\<lambda>i new. iassert (i < length ord) msg
        (iassert (ord ! i < int ((n - 1) * c * 4)) msg' (rbind (mem_slice m (ord ! i * int c) c) (mem_copy new (i * c))))"
  let ?Q = "\<lambda>i m'. length m' = n * c \<and> (\<forall>j < i. \<forall>x < c. m' ! (j * c + x) = m ! (new_index ord j * c + x))"
  have "\<exists>m'. ?f ([0..<n] ! i) m1 = Inr m' \<and> ?Q (Suc i) m'" if "i < length [0..<n]" "?Q i m1" for i m1
  proof -
    from that(1) have i: "i < n" by simp
    let ?o = "new_index ord i"
    have o: "ord ! i = int ?o" "?o < n" using permutationD [OF p i] by blast+
    have "?o * c + c \<le> n * c" using mult_le_mono1 [of "Suc ?o" n c] o(2) by simp
    then have "mem_slice m (int (?o * c)) c = Inr (take c (drop (?o * c) m))"
      using c unfolding mem_slice_def by (simp del: of_nat_mult)
    moreover have "ord ! i * int c = int (?o * c)" using o(1) by (metis of_nat_mult)
    ultimately have slice: "mem_slice m (ord ! i * int c) c = Inr (take c (drop (?o * c) m))" by metis
    have "i * c + c \<le> n * c" using mult_le_mono1 [of "Suc i" n c] i by simp
    then have copy: "mem_copy m1 (i * c) (take c (drop (?o * c) m)) =
        Inr (take (i * c) m1 @ take c (drop (?o * c) m) @ drop (i * c + c) m1)"
      using that(2) c \<open>?o * c + c \<le> n * c\<close> by (simp add: mem_copy_def min_absorb2)
    have "n \<le> (n - 1) * c * 4" using n by (cases n; cases c) auto
    then have guard: "ord ! i < int ((n - 1) * c * 4)" using o by linarith
    have len: "i < length ord" using p i by (simp add: permutation_def)
    let ?m = "take (i * c) m1 @ take c (drop (?o * c) m) @ drop (i * c + c) m1"
    have "?Q (Suc i) ?m"
    proof (intro conjI allI impI)
      show "length ?m = n * c" using that(2) \<open>i * c + c \<le> n * c\<close> \<open>?o * c + c \<le> n * c\<close> c by simp
      fix j x assume j: "j < Suc i" and x: "x < c"
      show "?m ! (j * c + x) = m ! (new_index ord j * c + x)"
      proof (cases "j = i")
        case True
        moreover have "length (take (i * c) m1) = i * c" using that(2) \<open>i * c + c \<le> n * c\<close> by simp
        moreover have "length (take c (drop (?o * c) m)) = c" using \<open>?o * c + c \<le> n * c\<close> c by simp
        ultimately show ?thesis
          using \<open>?o * c + c \<le> n * c\<close> c x by (simp add: nth_append del: length_take)
      next
        case False
        then have "j * c + x < i * c" using j x by (intro mixed_radix_less) auto
        then show ?thesis
          using that(2) \<open>i * c + c \<le> n * c\<close> j x False by (simp add: nth_append less_Suc_eq)
      qed
    qed
    with slice copy guard len i show ?thesis by simp
  qed
  then have "\<exists>m'. rfold ?f [0..<n] (take (n * c) m) = Inr m' \<and> ?Q (length [0..<n]) m'"
    using c by (intro rfold_counting) auto
  then show ?thesis by simp
qed

text \<open>
  C34. Reordering an edge set along a permutation moves endpoints and fields in opposite directions: the new edge
  \<open>i\<close> has the endpoints of the old edge \<open>ord ! i\<close>, but the fields of the old edge \<open>i\<close> go to the new edge
  \<open>ord ! i\<close>. Edges keep their fields only where the permutation is its own inverse.
\<close>

theorem reorderEdgeSet_effect:
  assumes "graph_ok G" "sets G e = Some E" "n = nat (numElements E)" "2 \<le> n" "0 < getCardinality E"
    "permutation n ord" "list_all (\<lambda>f. 0 < fd_size f) (set_fields E)"
  shows "\<exists>G' m. reorderEdgeSet e ord G = Inr G' \<and>
    sets G' = (sets G)(e \<mapsto> E\<lparr>endpoints := m\<rparr>) \<and>
    (\<forall>i < n. \<forall>x < getCardinality E.
       m ! (i * getCardinality E + x) = endpoints E ! (new_index ord i * getCardinality E + x)) \<and>
    (\<forall>f \<in> set (set_fields E). \<exists>data m'. blocks G (fd_data f) = Some data \<and> blocks G' (fd_data f) = Some m' \<and>
       (\<forall>i < n. \<forall>x < fd_size f. m' ! (new_index ord i * fd_size f + x) = data ! (i * fd_size f + x)))"
proof -
  let ?c = "getCardinality E"
  have E: "set_ok G E" "buffers_ok G E" using graph_okD [OF assms(1,2)] by blast+
  have k: "n * ?c \<le> length (endpoints E)" using set_ok_bounds(4) [OF E(1)] assms(3) by simp
  have len: "length ord = n" using assms(6) by (simp add: permutation_def)
  obtain m where loop: "rfold (\<lambda>i new.
      iassert (i < length ord) ''edgeIndex < edgeOrdering.size()''
        (iassert (ord ! i < int ((n - 1) * ?c * 4)) ''edgeOrdering[edgeIndex] < (int) ((size - 1) * cardinality * sizeof(int))''
           (rbind (mem_slice (endpoints E) (ord ! i * int ?c) ?c) (mem_copy new (i * ?c)))))
      [0..<n] (take (n * ?c) (endpoints E)) = Inr m"
    and m: "length m = n * ?c" "\<forall>i < n. \<forall>x < ?c. m ! (i * ?c + x) = endpoints E ! (new_index ord i * ?c + x)"
    using gather_edges [OF assms(6) k assms(4,5)] by blast
  have "int (length ord) = numElements E" using len assms(3) set_ok_bounds(1) [OF E(1)] by simp
  moreover have "mem_slice (endpoints E) 0 (n * ?c) = Inr (take (n * ?c) (endpoints E))"
    using k by (simp add: mem_slice_def)
  ultimately have edges: "reorderEdgeSet e ord G =
      reorderFields e ord (putSet e (E\<lparr>endpoints := m @ drop (n * ?c) (endpoints E)\<rparr>) G)"
    using loop k m(1) assms(2,3) by (simp add: reorderEdgeSet_def Let_def mem_copy_front)
  let ?m = "m @ drop (n * ?c) (endpoints E)"
  let ?E = "E\<lparr>endpoints := ?m\<rparr>"
  let ?G = "putSet e ?E G"
  have fields: "0 < fd_size f \<and> (\<exists>m. blocks ?G (fd_data f) = Some m \<and> n * fd_size f \<le> length m)"
    if "f \<in> set (set_fields ?E)" for f
    using buffers_movable [OF assms(1,2) _ assms(3)] assms(7) that by (simp add: list_all_iff putSet_def)
  have "sets ?G e = Some ?E" "distinct (map fd_data (set_fields ?E))"
    using E(2) by (simp_all add: putSet_def buffers_ok_def)
  from reorderFields_ok [OF this(1) assms(6) this(2) fields]
  obtain G' where G': "reorderFields e ord ?G = Inr G'" "fields_moved n ord (set_fields ?E) ?G G'" by blast
  have "?m ! (i * ?c + x) = endpoints E ! (new_index ord i * ?c + x)" if "i < n" "x < ?c" for i x
    using m(1,2) that mixed_radix_less [OF that] by (simp add: nth_append)
  moreover have "\<exists>data m'. blocks G (fd_data f) = Some data \<and> blocks G' (fd_data f) = Some m' \<and>
      (\<forall>i < n. \<forall>x < fd_size f. m' ! (new_index ord i * fd_size f + x) = data ! (i * fd_size f + x))"
    if "f \<in> set (set_fields E)" for f
    using G'(2) that unfolding fields_moved_def scattered_def putSet_def by force
  moreover have "sets G' = (sets G)(e \<mapsto> ?E)" using G'(2) by (simp add: fields_moved_def putSet_def)
  moreover have "reorderEdgeSet e ord G = Inr G'" using G'(1) edges by metis
  ultimately show ?thesis by (intro exI [of _ G'] exI [of _ ?m] conjI ballI allI impI)
qed

lemma single_edge_not_reordered:
  assumes "graph_ok G" "sets G e = Some E" "numElements E = 1" "0 < getCardinality E"
  shows "\<exists>msg. reorderEdgeSet e [0] G = Inl (InternalError msg)"
  using assms set_ok_bounds(4) [OF graph_okD(1) [OF assms(1,2)]]
  by (simp add: reorderEdgeSet_def mem_slice_def iassert_def)

section \<open>The computed orderings\<close>

lemma edgeCompare_refl: "edgeCompare eps c x x"
proof -
  have "edgeCompare_from eps c x x i k" for i k by (induction k arbitrary: i) (simp_all add: Let_def)
  then show ?thesis by (simp add: edgeCompare_def)
qed

lemma endpoints_read:
  assumes "set_ok G E" "n = nat (numElements E)"
  shows "\<exists>edges. rmap (\<lambda>index. rmap (\<lambda>i. rbind (mem_cell (endpoints E) (int (index * getCardinality E + i)))
      (\<lambda>e. case e of None \<Rightarrow> Inl Undefined | Some v \<Rightarrow> Inr v)) [0..<getCardinality E]) [0..<n] = Inr edges"
proof -
  let ?c = "getCardinality E"
  have "rbind (mem_cell (endpoints E) (int (index * ?c + i))) (\<lambda>e. case e of None \<Rightarrow> Inl Undefined | Some v \<Rightarrow> Inr v)
      = Inr (the (endpoints E ! (index * ?c + i)))" if "index < n" "i < ?c" for index i
  proof -
    have "index * ?c + i < n * ?c" using that by (rule mixed_radix_less)
    moreover from this obtain v where "endpoints E ! (index * ?c + i) = Some v"
      using assms by (auto simp: set_ok_def)
    moreover have "n * ?c \<le> length (endpoints E)" using set_ok_bounds(4) [OF assms(1)] assms(2) by simp
    ultimately show ?thesis by (simp del: of_nat_add of_nat_mult)
  qed
  then have "rmap (\<lambda>i. rbind (mem_cell (endpoints E) (int (index * ?c + i)))
      (\<lambda>e. case e of None \<Rightarrow> Inl Undefined | Some v \<Rightarrow> Inr v)) [0..<?c]
      = Inr (map (\<lambda>i. the (endpoints E ! (index * ?c + i))) [0..<?c])" if "index < n" for index
    using that by (intro rmap_ok) auto
  then show ?thesis
    by (intro exI [where P = "\<lambda>edges. _ = Inr edges"], rule rmap_ok) simp
qed

text \<open>
  Sorting the edges of a set that is not empty is undefined: the comparison answers true for an edge and
  itself, which \<^verbatim>\<open>std::sort\<close> does not allow.
\<close>

theorem edge_sort_undefined:
  assumes "graph_ok G" "sets G e = Some E" "0 < numElements E"
  shows "edgeVertexSortReordering G e [] = Inl Undefined"
proof -
  let ?n = "nat (numElements E)"
  obtain edges where edges: "rmap (\<lambda>index. rmap (\<lambda>i. rbind (mem_cell (endpoints E) (int (index * getCardinality E + i)))
      (\<lambda>e. case e of None \<Rightarrow> Inl Undefined | Some v \<Rightarrow> Inr v)) [0..<getCardinality E]) [0..<?n] = Inr edges"
    using endpoints_read [OF graph_okD(1) [OF assms(1,2)] refl] by blast
  have "\<not> strict_weak_order (edgeCompare eps c) (map int [0..<?n])" for eps c
    using assms(3) edgeCompare_refl by (auto simp: strict_weak_order_def list_all_iff)
  then show ?thesis using edges assms(2) by (simp add: edgeVertexSortReordering_def Let_def std_sort_def)
qed

lemma set_insert_by: "mset (insert_by lt x xs) = add_mset x (mset xs)"
  by (induction xs) simp_all

lemma mset_stable_sort: "mset (stable_sort lt xs) = mset xs"
  by (induction xs) (simp_all add: stable_sort_def set_insert_by)

lemma insert_by_sorted:
  assumes "sorted_wrt (\<lambda>a b. key a \<le> key b) xs"
  shows "sorted_wrt (\<lambda>a b. key a \<le> (key b :: 'k :: linorder)) (insert_by (\<lambda>a b. key a < key b) x xs)"
  using assms
proof (induction xs)
  case (Cons y ys)
  have "set (insert_by (\<lambda>a b. key a < key b) x ys) = insert x (set ys)"
    using set_insert_by [of "\<lambda>a b. key a < key b" x ys] by (metis set_mset_add_mset_insert set_mset_mset)
  with Cons show ?case by (fastforce simp: not_less)
qed simp

lemma stable_sort_sorted:
  "sorted_wrt (\<lambda>a b. key a \<le> (key b :: 'k :: linorder)) (stable_sort (\<lambda>a b. key a < key b) xs)"
  by (induction xs) (simp_all add: stable_sort_def insert_by_sorted)

definition vertex_key :: "vertex \<Rightarrow> nat \<times> nat" where
  "vertex_key v = (hilbertId v, vertex_id v)"

lemma vertexComparator_key: "vertexComparator = (\<lambda>a b. vertex_key a < vertex_key b)"
  by (intro ext) (auto simp: vertexComparator_def vertex_key_def)

lemma translation_mapping:
  assumes ids: "mset (map vertex_id nodes) = mset [0..<n]"
  shows "\<exists>ord. createIdTranslationMapping nodes [] n = Inr ord \<and> length ord = n \<and>
    (\<forall>k < n. ord ! vertex_id (nodes ! k) = int k)"
proof -
  have len: "length nodes = n" using ids by (metis length_map mset_eq_length length_upt diff_zero)
  have "set (map vertex_id nodes) = {0..<n}" using ids by (metis mset_eq_setD set_upt)
  then have bound: "vertex_id (nodes ! k) < n" if "k < n" for k using that len by (metis atLeastLessThan_iff length_map nth_map nth_mem)
  have "distinct (map vertex_id nodes)" using ids by (metis mset_eq_imp_distinct_iff distinct_upt)
  then have inj: "vertex_id (nodes ! j) = vertex_id (nodes ! k) \<longleftrightarrow> j = k" if "j < n" "k < n" for j k
    using that len by (auto simp: distinct_conv_nth)
  let ?f = "\<lambda>i ord. rbind (nth_result nodes i) (\<lambda>v.
      if vertex_id v < length ord then Inr (ord[vertex_id v := int i]) else Inl Undefined)"
  let ?Q = "\<lambda>i ord. length ord = n \<and> (\<forall>k < i. ord ! vertex_id (nodes ! k) = int k)"
  have "\<exists>ord'. ?f ([0..<n] ! i) ord = Inr ord' \<and> ?Q (Suc i) ord'" if "i < length [0..<n]" "?Q i ord" for i ord
  proof -
    from that(1) have i: "i < n" by simp
    have "?f i ord = Inr (ord[vertex_id (nodes ! i) := int i])" using i len bound that(2) by simp
    moreover have "?Q (Suc i) (ord[vertex_id (nodes ! i) := int i])"
      using that(2) i bound inj by (auto simp: nth_list_update less_Suc_eq)
    moreover have "[0..<n] ! i = i" using i by simp
    ultimately show ?thesis by metis
  qed
  then have "\<exists>ord. rfold ?f [0..<n] (replicate n 0) = Inr ord \<and> ?Q (length [0..<n]) ord"
    by (intro rfold_counting) auto
  then show ?thesis by (auto simp: createIdTranslationMapping_def)
qed

lemma map_hits:
  assumes "set (map f xs) = {0..<n}" "i < n"
  shows "\<exists>k < length xs. f (xs ! k) = (i :: nat)"
proof -
  from assms have "i \<in> set (map f xs)" by simp
  then show ?thesis unfolding in_set_conv_nth by auto
qed

lemma sorted_ordering:
  assumes "sorted_wrt (\<lambda>a b. key a \<le> (key b :: 'k :: linorder)) xs" "distinct (map key xs)" "j < length xs" "k < length xs"
  shows "key (xs ! j) < key (xs ! k) \<longleftrightarrow> j < k"
proof -
  have le: "key (xs ! a) \<le> key (xs ! b)" if "a < b" "b < length xs" for a b
    using assms(1) that by (simp add: sorted_wrt_iff_nth_less)
  have ne: "key (xs ! a) \<noteq> key (xs ! b)" if "a \<noteq> b" "a < length xs" "b < length xs" for a b
    using assms(2) that by (simp add: distinct_conv_nth)
  show ?thesis
    using le [of j k] le [of k j] ne [of j k] assms(3,4) by (cases j k rule: linorder_cases) auto
qed

lemma ordering_by_hilbert_index:
  assumes "length nodes = n"
  shows "\<exists>ord. createIdTranslationMapping (stable_sort vertexComparator (assignHilbertIds curve nodes)) [] n = Inr ord \<and>
    permutation n ord \<and>
    (\<forall>i < n. \<forall>j < n. ord ! i < ord ! j \<longleftrightarrow>
       (curve (map coords nodes) i, i) < (curve (map coords nodes) j, j))"
proof -
  let ?h = "curve (map coords nodes)"
  let ?L = "stable_sort vertexComparator (assignHilbertIds curve nodes)"
  have keys: "map vertex_key (assignHilbertIds curve nodes) = map (\<lambda>i. (?h i, i)) [0..<n]"
    using assms by (simp add: assignHilbertIds_def vertex_key_def)
  have mL: "mset (map vertex_key ?L) = mset (map (\<lambda>i. (?h i, i)) [0..<n])"
    using mset_stable_sort [of vertexComparator "assignHilbertIds curve nodes"] keys by (metis mset_map)
  have "mset (map vertex_id ?L) = image_mset snd (mset (map vertex_key ?L))"
    by (simp add: vertex_key_def image_mset.compositionality comp_def)
  also have "\<dots> = mset [0..<n]" unfolding mL by (simp add: image_mset.compositionality comp_def)
  finally have ids: "mset (map vertex_id ?L) = mset [0..<n]" .
  then obtain ord where ord: "createIdTranslationMapping ?L [] n = Inr ord" "length ord = n"
    "\<forall>k < n. ord ! vertex_id (?L ! k) = int k" using translation_mapping by blast
  have len: "length ?L = n" using ids by (metis length_map mset_eq_length length_upt diff_zero)
  have "set (map vertex_id ?L) = {0..<n}" using ids by (metis mset_eq_setD set_upt)
  then have pos: "\<exists>k < n. vertex_id (?L ! k) = i" if "i < n" for i
    using map_hits [of vertex_id ?L n i] that len by simp
  have key: "vertex_key (?L ! k) = (?h (vertex_id (?L ! k)), vertex_id (?L ! k))" if "k < n" for k
  proof -
    have "vertex_key (?L ! k) \<in> set (map (\<lambda>i. (?h i, i)) [0..<n])"
      unfolding mset_eq_setD [OF mL, symmetric] using that len by simp
    then show ?thesis by (auto simp: vertex_key_def)
  qed
  have sorted: "sorted_wrt (\<lambda>a b. vertex_key a \<le> vertex_key b) ?L"
    unfolding vertexComparator_key by (rule stable_sort_sorted)
  have "distinct (map vertex_key ?L)"
    using mset_eq_imp_distinct_iff [OF mL] by (simp add: distinct_map inj_on_def)
  note order = sorted_ordering [OF sorted this, unfolded len]
  have "ord ! i < ord ! j \<longleftrightarrow> (?h i, i) < (?h j, j)" if i: "i < n" and j: "j < n" for i j
  proof -
    obtain a b where "a < n" "vertex_id (?L ! a) = i" "b < n" "vertex_id (?L ! b) = j"
      using pos [OF i] pos [OF j] by blast
    then show ?thesis using ord(3) order [of a b] key by auto
  qed
  moreover have "set ord = int ` {..<n}"
  proof
    show "set ord \<subseteq> int ` {..<n}"
    proof
      fix x assume "x \<in> set ord"
      then obtain i where "i < n" "x = ord ! i" using ord(2) by (auto simp: in_set_conv_nth)
      moreover from pos this(1) obtain k where "k < n" "vertex_id (?L ! k) = i" by blast
      ultimately show "x \<in> int ` {..<n}" using ord(3) by auto
    qed
    show "int ` {..<n} \<subseteq> set ord"
    proof
      fix x assume "x \<in> int ` {..<n}"
      then obtain k where k: "k < n" "x = int k" by auto
      have "vertex_id (?L ! k) \<in> {0..<n}"
        using \<open>set (map vertex_id ?L) = {0..<n}\<close> k len by (metis length_map nth_map nth_mem)
      with ord(2,3) k show "x \<in> set ord" by (metis atLeastLessThan_iff nth_mem)
    qed
  qed
  ultimately show ?thesis using ord(1,2) by (auto simp: permutation_def)
qed

text \<open>
  C25. The computed vertex ordering is a permutation, and it numbers the vertices in the order of their Hilbert
  indices, vertices with the same index in their old order; whatever the indices are.
\<close>

theorem hilbertReorder_orders:
  assumes "sets G v = Some V" "loadNodes G v (nat (numElements V)) = Inr nodes"
  shows "\<exists>ord. hilbertReorder curve G v [] = Inr ord \<and> permutation (nat (numElements V)) ord \<and>
    (\<forall>i < nat (numElements V). \<forall>j < nat (numElements V). ord ! i < ord ! j \<longleftrightarrow>
       (curve (map coords nodes) i, i) < (curve (map coords nodes) j, j))"
proof -
  have "length nodes = nat (numElements V)"
    using assms by (auto simp: loadNodes_def rbind_eq_Inr rmap_eq_Inr split: if_splits)
  from ordering_by_hilbert_index [OF this] show ?thesis using assms by (simp add: hilbertReorder_def)
qed

section \<open>A sample graph\<close>

definition points_field :: field_data where
  "points_field = \<lparr>fd_name = ''x'', fd_componentType = CT_Double, fd_dimensions = [3], fd_size = 3, fd_data = 0, fieldReferences = []\<rparr>"

definition edges_field :: field_data where
  "edges_field = \<lparr>fd_name = ''k'', fd_componentType = CT_Double, fd_dimensions = [], fd_size = 1, fd_data = 1, fieldReferences = []\<rparr>"

definition points_set :: set_data where
  "points_set = (Set_init ''points'' Unstructured)\<lparr>numElements := 2, capacity := 2, spatialFieldName := ''x'',
     fieldNames := [''x'' \<mapsto> 0], set_fields := [points_field]\<rparr>"

definition edges_set :: set_data where
  "edges_set = (Set_init ''edges'' Unstructured)\<lparr>numElements := 3, capacity := 3, endpointSets := [0, 0],
     endpoints := map Some [0, 1, 1, 0, 0, 0], fieldNames := [''k'' \<mapsto> 0], set_fields := [edges_field]\<rparr>"

definition mesh_sample :: graph where
  "mesh_sample = \<lparr>sets = [0 \<mapsto> points_set, 1 \<mapsto> edges_set],
     blocks = [0 \<mapsto> map Some [1, 2, 3, 4, 5, 6], 1 \<mapsto> map Some [10, 20, 30]], nextBlock = 2, refs = Map.empty\<rparr>"

lemmas mesh_sample_defs = mesh_sample_def points_set_def edges_set_def points_field_def edges_field_def Set_init_def

lemma mesh_sample_sets: "sets mesh_sample 0 = Some points_set" "sets mesh_sample 1 = Some edges_set"
  by (simp_all add: mesh_sample_def)

lemma mesh_sample_ok: "graph_ok mesh_sample"
proof -
  have p: "set_ok mesh_sample points_set"
    by (auto simp: set_ok_def field_ok_def mesh_sample_defs getCardinality_def split: if_splits)
  have e: "set_ok mesh_sample edges_set"
    by (auto simp: set_ok_def field_ok_def mesh_sample_defs getCardinality_def less_Suc_eq numeral_eq_Suc split: if_splits)
  have "S = points_set \<or> S = edges_set" if "sets mesh_sample s = Some S" for s S
    using that by (auto simp: mesh_sample_def split: if_splits)
  with p e have sets: "set_ok mesh_sample S" if "sets mesh_sample s = Some S" for s S using that by blast
  have field: "p = (fd_data f, 0)" if "getFieldAt mesh_sample p = Inr f" for p f
    using that
    by (cases p) (auto simp: getFieldAt_eq_Inr mesh_sample_def points_set_def edges_set_def points_field_def edges_field_def
        split: if_splits)
  show ?thesis
    unfolding graph_ok_def
  proof (intro conjI allI impI)
    fix p q f g assume "getFieldAt mesh_sample p = Inr f" "getFieldAt mesh_sample q = Inr g" "fd_data f = fd_data g"
    then show "p = q" using field by metis
  qed (rule sets)
qed

theorem reorderVertexSet_isomorphism_witness:
  "\<exists>G' m. reorderVertexSet 1 0 [1, 0] mesh_sample = Inr G' \<and>
    sets G' = (sets mesh_sample)(1 \<mapsto> edges_set\<lparr>endpoints := m\<rparr>) \<and> m ! 1 = Some 0"
proof -
  have "permutation 2 [1, 0]" by (auto simp: permutation_def lessThan_Suc numeral_eq_Suc)
  moreover have "2 = nat (numElements points_set)" "list_all (\<lambda>f. 0 < fd_size f) (set_fields points_set)"
    by (simp_all add: points_set_def points_field_def)
  moreover have "edges_into 2 edges_set" by (simp add: edges_into_def edges_set_def Set_init_def getCardinality_def)
  ultimately obtain G' m where "reorderVertexSet 1 0 [1, 0] mesh_sample = Inr G'"
    "sets G' = (sets mesh_sample)(1 \<mapsto> edges_set\<lparr>endpoints := m\<rparr>)"
    "\<forall>i < length (endpoints edges_set). m ! i = (if i < nat (numElements edges_set) * getCardinality edges_set
       then Some ([1, 0] ! nat (the (endpoints edges_set ! i))) else endpoints edges_set ! i)"
    using reorderVertexSet_isomorphism [OF mesh_sample_ok mesh_sample_sets(2,1), of 2 "[1, 0]"] by auto
  moreover from this(3) [rule_format, of 1] have "m ! 1 = Some 0"
    by (simp add: edges_set_def Set_init_def getCardinality_def)
  ultimately show ?thesis by blast
qed

theorem reorderEdgeSet_effect_witness:
  "\<exists>G' m. reorderEdgeSet 1 [1, 2, 0] mesh_sample = Inr G' \<and> sets G' = (sets mesh_sample)(1 \<mapsto> edges_set\<lparr>endpoints := m\<rparr>) \<and>
    m ! 0 = Some 1 \<and> m ! 1 = Some 0"
proof -
  have "permutation 3 [1, 2, 0]" by (auto simp: permutation_def lessThan_Suc numeral_eq_Suc)
  then obtain G' m where "reorderEdgeSet 1 [1, 2, 0] mesh_sample = Inr G'" "sets G' = (sets mesh_sample)(1 \<mapsto> edges_set\<lparr>endpoints := m\<rparr>)"
    "\<forall>i < 3. \<forall>x < getCardinality edges_set. m ! (i * getCardinality edges_set + x)
       = endpoints edges_set ! (new_index [1, 2, 0] i * getCardinality edges_set + x)"
    using reorderEdgeSet_effect [OF mesh_sample_ok mesh_sample_sets(2), of 3 "[1, 2, 0]"]
    by (auto simp: mesh_sample_defs getCardinality_def)
  moreover from this(3) [rule_format, of 0 0] this(3) [rule_format, of 0 1] have "m ! 0 = Some 1 \<and> m ! 1 = Some 0"
    by (simp add: mesh_sample_defs getCardinality_def)
  ultimately show ?thesis by blast
qed

theorem edge_sort_undefined_witness: "edgeVertexSortReordering mesh_sample 1 [] = Inl Undefined"
  by (rule edge_sort_undefined [OF mesh_sample_ok mesh_sample_sets(2)]) (simp add: edges_set_def)

theorem hilbertReorder_orders_witness:
  "\<exists>ord. hilbertReorder (\<lambda>cs i. 5 - i) mesh_sample 0 [] = Inr ord \<and> ord ! 1 < ord ! 0"
proof -
  have "\<exists>nodes. loadNodes mesh_sample 0 (nat (numElements points_set)) = Inr nodes"
    by (simp add: loadNodes_def mesh_sample_defs spatial_value_def mem_cell_def numeral_eq_Suc)
  then obtain nodes where "loadNodes mesh_sample 0 (nat (numElements points_set)) = Inr nodes" ..
  from hilbertReorder_orders [OF mesh_sample_sets(1) this, of "\<lambda>cs i. 5 - i"] show ?thesis
    by (auto simp: points_set_def)
qed

end
