(* ===== verification/Fir.thy ===== *)
theory Fir
  imports Scanner Scoped_Map
begin

text \<open>
  The front-end IR (\<^verbatim>\<open>src/src/frontend/fir.h\<close>) that the parser builds, one datatype per family of node classes with
  the constructors of the source. Pointers to owned nodes are the nodes, a null pointer where the code allows one is
  \<open>None\<close>. The source locations every node carries for later messages are left out, as are the fields that only later
  passes fill in. \<open>'d\<close> is the type of doubles.
\<close>

section \<open>Types\<close>

datatype generic_type = GT_UNKNOWN | GT_RANGE

datatype fir_index_set = RangeIndexSet int | SetIndexSet string | GenericIndexSet generic_type string | DynamicIndexSet

datatype fir_scalar = SC_INT | SC_FLOAT | SC_BOOL | SC_COMPLEX | SC_STRING

datatype fir_tensor_type = ScalarType fir_scalar | NDTensorType "fir_index_set list" fir_tensor_type bool

text \<open>An endpoint holds the index set that names its set; tuple elements are a name and an element type.\<close>

datatype fir_type =
    ElementType string
  | HomogeneousEdgeSetType string fir_index_set int
  | HeterogeneousEdgeSetType string "fir_index_set list"
  | GridSetType string fir_index_set int
  | NamedTupleType "(string \<times> string) list"
  | UnnamedTupleType string int
  | TensorType fir_tensor_type
  | OpaqueType

fun isa_TupleType :: "fir_type \<Rightarrow> bool" where
  "isa_TupleType (NamedTupleType es) = True"
| "isa_TupleType (UnnamedTupleType e n) = True"
| "isa_TupleType _ = False"

section \<open>Expressions\<close>

datatype eq_op = OP_LT | OP_LE | OP_GT | OP_GE | OP_EQ | OP_NE

datatype reduction_op = RED_NONE | RED_SUM

text \<open>The dense literals with their flag \<^verbatim>\<open>transposed\<close>.\<close>

datatype 'd dense_literal =
    IntVectorLiteral "int list" bool
  | FloatVectorLiteral "'d list" bool
  | ComplexVectorLiteral "('d \<times> 'd) list" bool
  | NDTensorLiteral "'d dense_literal list" bool

text \<open>
  A map expression has a function, generic arguments, partial actuals, a target and an optional \<^verbatim>\<open>through\<close> set; it is
  a reduced one when it has a reduction.
\<close>

datatype 'd fir_expr =
    MapExpr string "fir_index_set list" "'d fir_expr list" fir_index_set "fir_index_set option" "reduction_op option"
  | OrExpr "'d fir_expr" "'d fir_expr"
  | AndExpr "'d fir_expr" "'d fir_expr"
  | XorExpr "'d fir_expr" "'d fir_expr"
  | EqExpr "'d fir_expr list" "eq_op list"
  | NotExpr "'d fir_expr"
  | AddExpr "'d fir_expr" "'d fir_expr"
  | SubExpr "'d fir_expr" "'d fir_expr"
  | MulExpr "'d fir_expr" "'d fir_expr"
  | DivExpr "'d fir_expr" "'d fir_expr"
  | ElwiseMulExpr "'d fir_expr" "'d fir_expr"
  | ElwiseDivExpr "'d fir_expr" "'d fir_expr"
  | LeftDivExpr "'d fir_expr" "'d fir_expr"
  | NegExpr bool "'d fir_expr"
  | ExpExpr "'d fir_expr" "'d fir_expr"
  | TransposeExpr "'d fir_expr"
  | CallExpr string "fir_index_set list" "'d fir_expr list"
  | TensorReadExpr "'d fir_expr" "'d fir_expr option list"
  | SetReadExpr "'d fir_expr" "'d fir_expr list"
  | NamedTupleReadExpr "'d fir_expr" string
  | UnnamedTupleReadExpr "'d fir_expr" "'d fir_expr"
  | FieldReadExpr "'d fir_expr" string
  | ParenExpr "'d fir_expr"
  | VarExpr string
  | RangeConst string
  | IntLiteral int
  | FloatLiteral 'd
  | BoolLiteral bool
  | ComplexLiteral 'd 'd
  | StringLiteral string
  | DenseTensorLiteral "'d dense_literal"

text \<open>A read parameter is a slice (\<open>None\<close>) or an expression. \<^verbatim>\<open>RangeConst\<close> is a subclass of \<^verbatim>\<open>VarExpr\<close>.\<close>

fun to_VarExpr :: "'d fir_expr \<Rightarrow> string option" where
  "to_VarExpr (VarExpr x) = Some x"
| "to_VarExpr (RangeConst x) = Some x"
| "to_VarExpr _ = None"

section \<open>Statements and declarations\<close>

datatype 'd for_domain = IndexSetDomain fir_index_set | RangeDomain "'d fir_expr" "'d fir_expr"

datatype 'd fir_stmt =
    StmtBlock "'d fir_stmt list"
  | VarDecl string "fir_tensor_type option" "'d fir_expr option"
  | ConstDecl string "fir_tensor_type option" "'d fir_expr"
  | IVarDecl string
  | WhileStmt "'d fir_expr" "'d fir_stmt"
  | DoWhileStmt "'d fir_stmt" "'d fir_expr"
  | IfStmt "'d fir_expr" "'d fir_stmt" "'d fir_stmt option"
  | ForStmt string "'d for_domain" "'d fir_stmt"
  | PrintStmt "'d fir_expr list" bool
  | ApplyStmt string "fir_index_set list" "'d fir_expr list" fir_index_set
  | ExprStmt "'d fir_expr"
  | AssignStmt "'d fir_expr list" "'d fir_expr"

datatype func_type = FT_INTERNAL | FT_EXPORTED | FT_EXTERNAL

record ident_decl =
  decl_name :: string
  decl_type :: fir_type

text \<open>An argument is an identifier declaration with the flag of \<^verbatim>\<open>InOutArgument\<close>; a generic parameter a name and a type.\<close>

record 'd func_decl =
  func_type :: func_type
  func_name :: string
  genericParams :: "(string \<times> generic_type) list"
  func_args :: "(bool \<times> ident_decl) list"
  func_results :: "ident_decl list"
  func_body :: "'d fir_stmt option"

datatype 'd program_element =
    ElementTypeDecl string "(string \<times> fir_tensor_type) list"
  | ExternDecl string fir_type
  | FuncDecl "'d func_decl"
  | TopConst "'d fir_stmt"
  | Test string "'d fir_expr list" "'d fir_expr"

end
