(* ===== verification/Parser_Monad.thy ===== *)
theory Parser_Monad
  imports Fir
begin

text \<open>
  The state of the parser (\<^verbatim>\<open>class Parser\<close> in \<^verbatim>\<open>src/src/frontend/parser.h\<close>), its exceptions and its helpers. A parsing
  method is a function from states to an outcome and a state: it returns a value, throws \<^verbatim>\<open>SyntaxError\<close>, or runs into
  something C++ leaves undefined (\<open>Fault\<close>). Exceptions keep the state, as the members of the object do. Loops and
  recursive methods carry a bound on their number of rounds, the number of tokens left; \<open>OutOfFuel\<close> says that the
  bound was too small. \<open>Parser_Total\<close> shows that neither \<open>Fault\<close> nor \<open>OutOfFuel\<close> ever happens.
\<close>

section \<open>Outcomes and states\<close>

datatype 'a outcome = Parsed 'a | SyntaxError | Fault error | OutOfFuel

datatype IdentType = GENERIC_PARAM | RANGE_GENERIC_PARAM | TUPLE | FUNCTION | OTHER

text \<open>What the parser does with doubles: printing one in a message and multiplying one by minus one.\<close>

record 'd double_ops =
  showd :: "'d \<Rightarrow> string"
  negd :: "'d \<Rightarrow> 'd"

record 'd pstate =
  p_decls :: "(string, IdentType) scoped_map"
  p_tokens :: "'d token_stream"
  p_errors :: "parse_error list"
  p_doubles :: "'d double_ops"

type_synonym ('d, 'a) parser = "'d pstate \<Rightarrow> 'a outcome \<times> 'd pstate"

definition ret :: "'a \<Rightarrow> ('d, 'a) parser" where
  "ret x = (\<lambda>s. (Parsed x, s))"

definition pbind :: "('d, 'a) parser \<Rightarrow> ('a \<Rightarrow> ('d, 'b) parser) \<Rightarrow> ('d, 'b) parser" where
  "pbind p f = (\<lambda>s. case p s of
       (Parsed x, s') \<Rightarrow> f x s'
     | (SyntaxError, s') \<Rightarrow> (SyntaxError, s')
     | (Fault e, s') \<Rightarrow> (Fault e, s')
     | (OutOfFuel, s') \<Rightarrow> (OutOfFuel, s'))"

definition pthen :: "('d, 'a) parser \<Rightarrow> ('d, 'b) parser \<Rightarrow> ('d, 'b) parser" where
  "pthen p q = pbind p (\<lambda>_. q)"

definition throw :: "('d, 'a) parser" where
  "throw = (\<lambda>s. (SyntaxError, s))"

definition pcatch :: "('d, 'a) parser \<Rightarrow> ('d, 'a) parser \<Rightarrow> ('d, 'a) parser" where
  "pcatch p h = (\<lambda>s. case p s of (SyntaxError, s') \<Rightarrow> h s' | r \<Rightarrow> r)"

definition from_result :: "'a result \<Rightarrow> ('d, 'a) parser" where
  "from_result r = (\<lambda>s. (case r of Inl e \<Rightarrow> Fault e | Inr x \<Rightarrow> Parsed x, s))"

definition fuelled :: "(nat \<Rightarrow> ('d, 'a) parser) \<Rightarrow> ('d, 'a) parser" where
  "fuelled p = (\<lambda>s. p (Suc (length (p_tokens s))) s)"

definition outOfFuel :: "('d, 'a) parser" where
  "outOfFuel = (\<lambda>s. (OutOfFuel, s))"

section \<open>Tokens\<close>

definition p_peek :: "nat \<Rightarrow> ('d, 'd token) parser" where
  "p_peek k = (\<lambda>s. from_result (peek k (p_tokens s)) s)"

definition p_skip :: "('d, unit) parser" where
  "p_skip = (\<lambda>s. case skip (p_tokens s) of Inl e \<Rightarrow> (Fault e, s) | Inr ts \<Rightarrow> (Parsed (), s\<lparr>p_tokens := ts\<rparr>))"

definition p_tryConsume :: "TokenType \<Rightarrow> ('d, bool) parser" where
  "p_tryConsume ty = (\<lambda>s. case consume ty (p_tokens s) of
       Inl e \<Rightarrow> (Fault e, s) | Inr (b, ts) \<Rightarrow> (Parsed b, s\<lparr>p_tokens := ts\<rparr>))"

definition p_reportError :: "'d token \<Rightarrow> string \<Rightarrow> ('d, unit) parser" where
  "p_reportError token expected = (\<lambda>s. (Parsed (), s\<lparr>p_errors := p_errors s @
     [\<lparr>firstLine = lineBegin token, firstColumn = colBegin token, lastLine = lineEnd token, lastColumn = colEnd token,
       msg = ''expected '' @ expected @ '' but got '' @ token_toString (showd (p_doubles s)) token\<rparr>]\<rparr>))"

definition p_consume :: "TokenType \<Rightarrow> ('d, 'd token) parser" where
  "p_consume ty =
     pbind (p_peek 0) (\<lambda>token.
     pbind (p_tryConsume ty) (\<lambda>b.
     if \<not> b then pthen (p_reportError token (tokenTypeString ty)) throw else ret token))"

text \<open>\<^verbatim>\<open>reportError(peek(), ...)\<close> followed by \<^verbatim>\<open>throw SyntaxError()\<close>.\<close>

definition p_unexpected :: "string \<Rightarrow> ('d, 'a) parser" where
  "p_unexpected expected = pbind (p_peek 0) (\<lambda>token. pthen (p_reportError token expected) throw)"

primrec p_skipTo_n :: "TokenType list \<Rightarrow> nat \<Rightarrow> ('d, unit) parser" where
  "p_skipTo_n types 0 = outOfFuel"
| "p_skipTo_n types (Suc n) =
     pbind (p_peek 0) (\<lambda>t.
     if token_type t = T_END then ret ()
     else if list_ex (\<lambda>ty. token_type t = ty) types then ret ()
     else pthen p_skip (p_skipTo_n types n))"

definition p_skipTo :: "TokenType list \<Rightarrow> ('d, unit) parser" where
  "p_skipTo types = fuelled (p_skipTo_n types)"

text \<open>The members of the union in a token: reading the one that was not written is undefined.\<close>

definition token_num :: "'d token \<Rightarrow> ('d, int) parser" where
  "token_num t = (case token_value t of IntValue n \<Rightarrow> ret n | _ \<Rightarrow> from_result (Inl Undefined))"

definition token_fnum :: "'d token \<Rightarrow> ('d, 'd) parser" where
  "token_fnum t = (case token_value t of FloatValue d \<Rightarrow> ret d | _ \<Rightarrow> from_result (Inl Undefined))"

section \<open>Symbols\<close>

definition p_scope :: "('d, unit) parser" where
  "p_scope = (\<lambda>s. (Parsed (), s\<lparr>p_decls := scope Map.empty (p_decls s)\<rparr>))"

definition p_unscope :: "('d, unit) parser" where
  "p_unscope = (\<lambda>s. case unscope (p_decls s) of Inl e \<Rightarrow> (Fault e, s) | Inr m \<Rightarrow> (Parsed (), s\<lparr>p_decls := m\<rparr>))"

definition p_insert :: "string \<Rightarrow> IdentType \<Rightarrow> ('d, unit) parser" where
  "p_insert name ty = (\<lambda>s. case insert_symbol name ty (p_decls s) of
       Inl e \<Rightarrow> (Fault e, s) | Inr m \<Rightarrow> (Parsed (), s\<lparr>p_decls := m\<rparr>))"

definition p_contains :: "string \<Rightarrow> ('d, bool) parser" where
  "p_contains name = (\<lambda>s. from_result (contains_symbol (p_decls s) name AllScopes) s)"

text \<open>\<^verbatim>\<open>if (decls.contains(name)) switch (decls.get(name))\<close>.\<close>

definition p_lookup :: "string \<Rightarrow> ('d, IdentType option) parser" where
  "p_lookup name =
     pbind (p_contains name) (\<lambda>b.
     if b then (\<lambda>s. pbind (from_result (get_symbol (p_decls s) name AllScopes)) (\<lambda>ty. ret (Some ty)) s)
     else ret None)"

text \<open>\<^verbatim>\<open>decls.scope(); ...; decls.unscope();\<close> and the handler that restores the scopes of a function.\<close>

definition inScope :: "('d, 'a) parser \<Rightarrow> ('d, 'a) parser" where
  "inScope p = pthen p_scope (pbind p (\<lambda>x. pthen p_unscope (ret x)))"

primrec p_unscopeTo_n :: "nat \<Rightarrow> nat \<Rightarrow> ('d, unit) parser" where
  "p_unscopeTo_n level 0 = outOfFuel"
| "p_unscopeTo_n level (Suc n) =
     (\<lambda>s. if levels (p_decls s) \<noteq> level then pthen p_unscope (p_unscopeTo_n level n) s else ret () s)"

definition p_unscopeTo :: "nat \<Rightarrow> ('d, unit) parser" where
  "p_unscopeTo level = (\<lambda>s. p_unscopeTo_n level (Suc (levels (p_decls s))) s)"

definition restoringLevels :: "('d, 'a) parser \<Rightarrow> ('d, 'a) parser" where
  "restoringLevels p = (\<lambda>s. pcatch p (pthen (p_unscopeTo (levels (p_decls s))) throw) s)"

section \<open>Loops\<close>

text \<open>\<^verbatim>\<open>do { x = p(); xs.push_back(x); } while (tryConsume(sep))\<close>.\<close>

primrec p_sepBy_n :: "TokenType \<Rightarrow> ('d, 'a) parser \<Rightarrow> nat \<Rightarrow> ('d, 'a list) parser" where
  "p_sepBy_n sep p 0 = outOfFuel"
| "p_sepBy_n sep p (Suc n) =
     pbind p (\<lambda>x.
     pbind (p_tryConsume sep) (\<lambda>b.
     if b then pbind (p_sepBy_n sep p n) (\<lambda>xs. ret (x # xs)) else ret [x]))"

definition p_sepBy :: "TokenType \<Rightarrow> ('d, 'a) parser \<Rightarrow> ('d, 'a list) parser" where
  "p_sepBy sep p = fuelled (p_sepBy_n sep p)"

text \<open>\<^verbatim>\<open>while (cond(peek().type)) xs.push_back(p());\<close>\<close>

primrec p_while_n :: "(TokenType \<Rightarrow> bool) \<Rightarrow> ('d, 'a) parser \<Rightarrow> nat \<Rightarrow> ('d, 'a list) parser" where
  "p_while_n cond p 0 = outOfFuel"
| "p_while_n cond p (Suc n) =
     pbind (p_peek 0) (\<lambda>t.
     if cond (token_type t) then pbind p (\<lambda>x. pbind (p_while_n cond p n) (\<lambda>xs. ret (x # xs))) else ret [])"

definition p_while :: "(TokenType \<Rightarrow> bool) \<Rightarrow> ('d, 'a) parser \<Rightarrow> ('d, 'a list) parser" where
  "p_while cond p = fuelled (p_while_n cond p)"

text \<open>
  The loop of a binary operator of left associativity: while the next token is one of its operators, that token is
  consumed and combined with the next operand.
\<close>

primrec p_binary_n :: "(TokenType \<Rightarrow> ('e \<Rightarrow> 'e \<Rightarrow> 'e) option) \<Rightarrow> ('d, 'e) parser \<Rightarrow> nat \<Rightarrow> 'e \<Rightarrow> ('d, 'e) parser" where
  "p_binary_n op p 0 e = outOfFuel"
| "p_binary_n op p (Suc n) e =
     pbind (p_peek 0) (\<lambda>t.
     case op (token_type t) of
       None \<Rightarrow> ret e
     | Some mk \<Rightarrow> pthen (p_consume (token_type t)) (pbind p (\<lambda>r. p_binary_n op p n (mk e r))))"

definition p_binary :: "(TokenType \<Rightarrow> ('e \<Rightarrow> 'e \<Rightarrow> 'e) option) \<Rightarrow> ('d, 'e) parser \<Rightarrow> ('d, 'e) parser" where
  "p_binary op p = pbind p (\<lambda>e. fuelled (\<lambda>n. p_binary_n op p n e))"

end
