(* ===== verification/Parser.thy ===== *)
theory Parser
  imports Parser_Monad
begin

text \<open>
  The recursive descent parser (\<^verbatim>\<open>src/src/frontend/parser.cpp\<close>), one definition per parsing method. A method that takes
  part in the recursion of expressions or statements gets the recursive method as an argument, and the recursion is
  closed over a bound by \<open>parseExpr_n\<close> and \<open>parseStmt_n\<close>; a method that calls only itself recurses on the bound.
\<close>

section \<open>Identifiers and index sets\<close>

definition parseIdent :: "('d, string) parser" where
  "parseIdent = pbind (p_consume T_IDENT) (\<lambda>t. ret (token_str t))"

definition parseSetIndexSet :: "('d, fir_index_set) parser" where
  "parseSetIndexSet =
     pbind (p_consume T_IDENT) (\<lambda>identToken.
     let identStr = token_str identToken in
     pbind (p_lookup identStr) (\<lambda>ty.
     ret (case ty of
            Some GENERIC_PARAM \<Rightarrow> GenericIndexSet GT_UNKNOWN identStr
          | Some RANGE_GENERIC_PARAM \<Rightarrow> GenericIndexSet GT_RANGE identStr
          | _ \<Rightarrow> SetIndexSet identStr)))"

definition parseIndexSet :: "('d, fir_index_set) parser" where
  "parseIndexSet =
     pbind (p_peek 0) (\<lambda>t.
     if token_type t = T_INT_LITERAL then
       pbind (p_consume T_INT_LITERAL) (\<lambda>intToken. pbind (token_num intToken) (\<lambda>n. ret (RangeIndexSet n)))
     else if token_type t = T_IDENT then parseSetIndexSet
     else p_unexpected ''an index set'')"

definition parseIndexSets :: "('d, fir_index_set list) parser" where
  "parseIndexSets = p_sepBy T_COMMA parseIndexSet"

section \<open>Types\<close>

definition parseElementType :: "('d, string) parser" where
  "parseElementType = pbind (p_consume T_IDENT) (\<lambda>typeToken. ret (token_str typeToken))"

definition parseEndpoint :: "('d, fir_index_set) parser" where
  "parseEndpoint = parseSetIndexSet"

definition parseEndpoints :: "('d, fir_index_set list) parser" where
  "parseEndpoints = p_sepBy T_COMMA parseEndpoint"

definition parseTupleLength :: "('d, int) parser" where
  "parseTupleLength = pbind (p_consume T_INT_LITERAL) token_num"

definition parseUnstructuredSetType :: "('d, fir_type) parser" where
  "parseUnstructuredSetType =
     pthen (p_consume T_SET)
     (pthen (p_consume T_LC)
     (pbind parseElementType (\<lambda>element.
      pthen (p_consume T_RC)
      (pbind (p_peek 2) (\<lambda>t2.
       pbind (if token_type t2 = T_STAR then p_tryConsume T_LP else ret False) (\<lambda>homogeneous.
       if homogeneous then
         pbind parseEndpoint (\<lambda>endpoint.
         pthen (p_consume T_STAR)
         (pbind parseTupleLength (\<lambda>arity.
          pthen (p_consume T_RP) (ret (HomogeneousEdgeSetType element endpoint arity)))))
       else
         pbind (p_tryConsume T_LP) (\<lambda>b.
         if b then
           pbind parseEndpoints (\<lambda>endpoints.
           pthen (p_consume T_RP) (ret (HeterogeneousEdgeSetType element endpoints)))
         else ret (HeterogeneousEdgeSetType element []))))))))"

definition parseGridSetType :: "('d, fir_type) parser" where
  "parseGridSetType =
     pthen (p_consume T_GRID)
     (pthen (p_consume T_LB)
     (pbind (p_consume T_INT_LITERAL) (\<lambda>dimsToken.
      pbind (token_num dimsToken) (\<lambda>dimensions.
      pthen (p_consume T_RB)
      (pthen (p_consume T_LC)
      (pbind parseElementType (\<lambda>element.
       pthen (p_consume T_RC)
       (pthen (p_consume T_LP)
       (pbind parseSetIndexSet (\<lambda>underlyingPointSet.
        pthen (p_consume T_RP) (ret (GridSetType element underlyingPointSet dimensions))))))))))))"

definition parseTupleElement :: "('d, string \<times> string) parser" where
  "parseTupleElement =
     pbind parseIdent (\<lambda>name. pthen (p_consume T_COL) (pbind parseElementType (\<lambda>element. ret (name, element))))"

definition parseNamedTupleType :: "('d, fir_type) parser" where
  "parseNamedTupleType =
     pthen (p_consume T_LP)
     (pbind (p_sepBy T_COMMA parseTupleElement) (\<lambda>elems. pthen (p_consume T_RP) (ret (NamedTupleType elems))))"

definition parseUnnamedTupleType :: "('d, fir_type) parser" where
  "parseUnnamedTupleType =
     pthen (p_consume T_LP)
     (pbind parseElementType (\<lambda>element.
      pthen (p_consume T_STAR)
      (pbind parseTupleLength (\<lambda>length.
       pthen (p_consume T_RP) (ret (UnnamedTupleType element length))))))"

definition parseTensorComponentType :: "('d, fir_tensor_type) parser" where
  "parseTensorComponentType =
     pbind (p_peek 0) (\<lambda>t.
     if token_type t = T_INT then pthen (p_consume T_INT) (ret (ScalarType SC_INT))
     else if token_type t = T_FLOAT then pthen (p_consume T_FLOAT) (ret (ScalarType SC_FLOAT))
     else if token_type t = T_BOOL then pthen (p_consume T_BOOL) (ret (ScalarType SC_BOOL))
     else if token_type t = T_COMPLEX then pthen (p_consume T_COMPLEX) (ret (ScalarType SC_COMPLEX))
     else p_unexpected ''a tensor component type identifier'')"

definition parseScalarType :: "('d, fir_tensor_type) parser" where
  "parseScalarType =
     pbind (p_peek 0) (\<lambda>t.
     if token_type t = T_STRING then pthen (p_consume T_STRING) (ret (ScalarType SC_STRING))
     else parseTensorComponentType)"

primrec parseVectorBlockType_n :: "nat \<Rightarrow> ('d, fir_tensor_type) parser" where
  "parseVectorBlockType_n 0 = outOfFuel"
| "parseVectorBlockType_n (Suc n) =
     pthen (p_consume T_VECTOR)
     (pbind (p_tryConsume T_LB) (\<lambda>b.
      pbind (if b then pbind parseIndexSet (\<lambda>indexSet. pthen (p_consume T_RB) (ret [indexSet])) else ret []) (\<lambda>indexSets.
      pthen (p_consume T_LP)
      (pbind (p_peek 0) (\<lambda>t.
       pbind (if token_type t = T_VECTOR then parseVectorBlockType_n n else parseScalarType) (\<lambda>blockType.
       pthen (p_consume T_RP) (ret (NDTensorType indexSets blockType False))))))))"

definition parseVectorBlockType :: "('d, fir_tensor_type) parser" where
  "parseVectorBlockType = fuelled parseVectorBlockType_n"

primrec parseMatrixBlockType_n :: "nat \<Rightarrow> ('d, fir_tensor_type) parser" where
  "parseMatrixBlockType_n 0 = outOfFuel"
| "parseMatrixBlockType_n (Suc n) =
     pthen (p_consume T_MATRIX)
     (pbind (p_tryConsume T_LB) (\<lambda>b.
      pbind (if b then pbind parseIndexSet (\<lambda>rows.
                       pthen (p_consume T_COMMA)
                       (pbind parseIndexSet (\<lambda>cols.
                        pthen (p_consume T_RB) (ret [rows, cols])))) else ret []) (\<lambda>indexSets.
      pthen (p_consume T_LP)
      (pbind (p_peek 0) (\<lambda>t.
       pbind (if token_type t = T_MATRIX then parseMatrixBlockType_n n else parseScalarType) (\<lambda>blockType.
       pthen (p_consume T_RP) (ret (NDTensorType indexSets blockType False))))))))"

definition parseMatrixBlockType :: "('d, fir_tensor_type) parser" where
  "parseMatrixBlockType = fuelled parseMatrixBlockType_n"

primrec parseTensorBlockType_n :: "nat \<Rightarrow> ('d, fir_tensor_type) parser" where
  "parseTensorBlockType_n 0 = outOfFuel"
| "parseTensorBlockType_n (Suc n) =
     pthen (p_consume T_TENSOR)
     (pbind (p_tryConsume T_LB) (\<lambda>b.
      pbind (if b then pbind parseIndexSets (\<lambda>indexSets. pthen (p_consume T_RB) (ret indexSets)) else ret []) (\<lambda>indexSets.
      pthen (p_consume T_LP)
      (pbind (p_peek 0) (\<lambda>t.
       pbind (if token_type t = T_TENSOR then parseTensorBlockType_n n else parseScalarType) (\<lambda>blockType.
       pthen (p_consume T_RP) (ret (NDTensorType indexSets blockType False))))))))"

definition parseTensorBlockType :: "('d, fir_tensor_type) parser" where
  "parseTensorBlockType = fuelled parseTensorBlockType_n"

fun transposed :: "fir_tensor_type \<Rightarrow> fir_tensor_type" where
  "transposed (NDTensorType indexSets blockType t) = NDTensorType indexSets blockType True"
| "transposed t = t"

definition parseTensorType :: "('d, fir_tensor_type) parser" where
  "parseTensorType =
     pbind (p_peek 0) (\<lambda>t.
     if token_type t \<in> {T_INT, T_FLOAT, T_BOOL, T_COMPLEX, T_STRING} then parseScalarType
     else if token_type t = T_MATRIX then parseMatrixBlockType
     else pbind (if token_type t = T_VECTOR then parseVectorBlockType else parseTensorBlockType) (\<lambda>tensorType.
          pbind (p_peek 0) (\<lambda>t.
          if token_type t = T_TRANSPOSE then pthen (p_consume T_TRANSPOSE) (ret (transposed tensorType))
          else ret tensorType)))"

definition parseType :: "('d, fir_type) parser" where
  "parseType =
     pbind (p_peek 0) (\<lambda>t.
     let ty = token_type t in
     if ty = T_IDENT then pbind parseElementType (\<lambda>e. ret (ElementType e))
     else if ty = T_SET then parseUnstructuredSetType
     else if ty = T_GRID then parseGridSetType
     else if ty = T_LP then
       pbind (p_peek 2) (\<lambda>t2. if token_type t2 = T_COL then parseNamedTupleType else parseUnnamedTupleType)
     else if ty \<in> {T_INT, T_FLOAT, T_BOOL, T_COMPLEX, T_STRING, T_TENSOR, T_MATRIX, T_VECTOR} then
       pbind parseTensorType (\<lambda>tt. ret (TensorType tt))
     else if ty = T_OPAQUE then pthen (p_consume T_OPAQUE) (ret OpaqueType)
     else p_unexpected ''a type identifier'')"

section \<open>Literals\<close>

text \<open>The sign is multiplied to the value in \<^verbatim>\<open>int\<close> arithmetic, which wraps around in two's complement.\<close>

definition parseSign :: "('d, bool) parser" where
  "parseSign =
     pbind (p_peek 0) (\<lambda>t.
     if token_type t = T_PLUS then pthen (p_consume T_PLUS) (ret False)
     else if token_type t = T_MINUS then pthen (p_consume T_MINUS) (ret True)
     else ret False)"

definition parseSignedIntLiteral :: "('d, int) parser" where
  "parseSignedIntLiteral =
     pbind parseSign (\<lambda>negative.
     pbind (p_consume T_INT_LITERAL) (\<lambda>t.
     pbind (token_num t) (\<lambda>n. ret (if negative then long_to_int (- n) else n))))"

definition parseSignedFloatLiteral :: "('d, 'd) parser" where
  "parseSignedFloatLiteral =
     pbind parseSign (\<lambda>negative.
     pbind (p_consume T_FLOAT_LITERAL) (\<lambda>t.
     pbind (token_fnum t) (\<lambda>d s. ret (if negative then negd (p_doubles s) d else d) s)))"

definition parseComplexLiteral :: "('d, 'd \<times> 'd) parser" where
  "parseComplexLiteral =
     pthen (p_consume T_LA)
     (pbind parseSignedFloatLiteral (\<lambda>real.
      pthen (p_consume T_COMMA)
      (pbind parseSignedFloatLiteral (\<lambda>imag.
       pthen (p_consume T_RA) (ret (real, imag))))))"

text \<open>The loop of a vector literal: a comma is optional before the next element.\<close>

primrec p_elems_n :: "(TokenType \<Rightarrow> bool) \<Rightarrow> ('d, 'a) parser \<Rightarrow> nat \<Rightarrow> ('d, 'a list) parser" where
  "p_elems_n starts p 0 = outOfFuel"
| "p_elems_n starts p (Suc n) =
     pbind (p_peek 0) (\<lambda>t.
     if token_type t = T_COMMA then
       pthen (p_consume T_COMMA) (pbind p (\<lambda>x. pbind (p_elems_n starts p n) (\<lambda>xs. ret (x # xs))))
     else if starts (token_type t) then pbind p (\<lambda>x. pbind (p_elems_n starts p n) (\<lambda>xs. ret (x # xs)))
     else ret [])"

definition p_elems :: "(TokenType \<Rightarrow> bool) \<Rightarrow> ('d, 'a) parser \<Rightarrow> ('d, 'a list) parser" where
  "p_elems starts p = pbind p (\<lambda>x. pbind (fuelled (p_elems_n starts p)) (\<lambda>xs. ret (x # xs)))"

definition parseDenseIntVectorLiteral :: "('d, 'd dense_literal) parser" where
  "parseDenseIntVectorLiteral =
     pbind (p_elems (\<lambda>ty. ty \<in> {T_PLUS, T_MINUS, T_INT_LITERAL}) parseSignedIntLiteral) (\<lambda>vals.
     ret (IntVectorLiteral vals False))"

definition parseDenseFloatVectorLiteral :: "('d, 'd dense_literal) parser" where
  "parseDenseFloatVectorLiteral =
     pbind (p_elems (\<lambda>ty. ty \<in> {T_PLUS, T_MINUS, T_FLOAT_LITERAL}) parseSignedFloatLiteral) (\<lambda>vals.
     ret (FloatVectorLiteral vals False))"

definition parseDenseComplexVectorLiteral :: "('d, 'd dense_literal) parser" where
  "parseDenseComplexVectorLiteral =
     pbind (p_elems (\<lambda>ty. ty = T_LA) parseComplexLiteral) (\<lambda>vals. ret (ComplexVectorLiteral vals False))"

definition parseDenseVectorLiteral :: "('d, 'd dense_literal) parser" where
  "parseDenseVectorLiteral =
     pbind (p_peek 0) (\<lambda>t.
     let ty = token_type t in
     if ty = T_INT_LITERAL then parseDenseIntVectorLiteral
     else if ty = T_FLOAT_LITERAL then parseDenseFloatVectorLiteral
     else if ty = T_PLUS \<or> ty = T_MINUS then
       pbind (p_peek 1) (\<lambda>t1.
       if token_type t1 = T_INT_LITERAL then parseDenseIntVectorLiteral
       else if token_type t1 = T_FLOAT_LITERAL then parseDenseFloatVectorLiteral
       else p_unexpected ''a vector literal'')
     else if ty = T_LA then parseDenseComplexVectorLiteral
     else p_unexpected ''a vector literal'')"

definition parseDenseMatrixLiteral :: "('d, 'd dense_literal) parser" where
  "parseDenseMatrixLiteral =
     pbind (p_sepBy T_SEMICOL parseDenseVectorLiteral) (\<lambda>elems.
     ret (if length elems = 1 then elems ! 0 else NDTensorLiteral elems False))"

definition parseDenseTensorLiteralInner :: "('d, 'd dense_literal) parser \<Rightarrow> ('d, 'd dense_literal) parser" where
  "parseDenseTensorLiteralInner parseDenseTensorLiteral =
     pbind (p_peek 0) (\<lambda>t.
     if token_type t = T_LB then
       pbind (p_elems (\<lambda>ty. ty = T_LB) parseDenseTensorLiteral) (\<lambda>elems. ret (NDTensorLiteral elems False))
     else parseDenseMatrixLiteral)"

primrec parseDenseTensorLiteral_n :: "nat \<Rightarrow> ('d, 'd dense_literal) parser" where
  "parseDenseTensorLiteral_n 0 = outOfFuel"
| "parseDenseTensorLiteral_n (Suc n) =
     pthen (p_consume T_LB)
     (pbind (parseDenseTensorLiteralInner (parseDenseTensorLiteral_n n)) (\<lambda>tensor.
      pthen (p_consume T_RB) (ret tensor)))"

definition parseDenseTensorLiteral :: "('d, 'd dense_literal) parser" where
  "parseDenseTensorLiteral = fuelled parseDenseTensorLiteral_n"

definition parseTensorLiteral :: "('d, 'd fir_expr) parser" where
  "parseTensorLiteral =
     pbind (p_peek 0) (\<lambda>t.
     let ty = token_type t in
     if ty = T_INT_LITERAL then pbind (p_consume T_INT_LITERAL) (\<lambda>t. pbind (token_num t) (\<lambda>n. ret (IntLiteral n)))
     else if ty = T_FLOAT_LITERAL then
       pbind (p_consume T_FLOAT_LITERAL) (\<lambda>t. pbind (token_fnum t) (\<lambda>d. ret (FloatLiteral d)))
     else if ty = T_TRUE then pthen (p_consume T_TRUE) (ret (BoolLiteral True))
     else if ty = T_FALSE then pthen (p_consume T_FALSE) (ret (BoolLiteral False))
     else if ty = T_STRING_LITERAL then pbind (p_consume T_STRING_LITERAL) (\<lambda>t. ret (StringLiteral (token_str t)))
     else if ty = T_LA then pbind parseComplexLiteral (\<lambda>c. ret (ComplexLiteral (fst c) (snd c)))
     else if ty = T_LB then pbind parseDenseTensorLiteral (\<lambda>l. ret (DenseTensorLiteral l))
     else p_unexpected ''a tensor literal'')"

section \<open>Expressions\<close>

definition parseExprParams :: "('d, 'd fir_expr) parser \<Rightarrow> ('d, 'd fir_expr list) parser" where
  "parseExprParams parseExpr = p_sepBy T_COMMA parseExpr"

definition parseReadParam :: "('d, 'd fir_expr) parser \<Rightarrow> ('d, 'd fir_expr option) parser" where
  "parseReadParam parseExpr =
     pbind (p_peek 0) (\<lambda>t.
     if token_type t = T_COL then pthen (p_consume T_COL) (ret None)
     else pbind parseExpr (\<lambda>e. ret (Some e)))"

definition parseReadParams :: "('d, 'd fir_expr) parser \<Rightarrow> ('d, 'd fir_expr option list) parser" where
  "parseReadParams parseExpr = p_sepBy T_COMMA (parseReadParam parseExpr)"

text \<open>The optional generic arguments and the optional partial actuals of calls, maps and apply statements.\<close>

definition parseGenericArgs :: "('d, fir_index_set list) parser" where
  "parseGenericArgs =
     pbind (p_tryConsume T_LA) (\<lambda>b.
     if b then pbind parseIndexSets (\<lambda>args. pthen (p_consume T_RA) (ret args)) else ret [])"

definition parsePartialActuals :: "('d, 'd fir_expr) parser \<Rightarrow> ('d, 'd fir_expr list) parser" where
  "parsePartialActuals parseExpr =
     pbind (p_tryConsume T_LP) (\<lambda>b.
     if b then
       pbind (p_tryConsume T_RP) (\<lambda>b.
       if \<not> b then pbind (parseExprParams parseExpr) (\<lambda>args. pthen (p_consume T_RP) (ret args)) else ret [])
     else ret [])"

definition parseVarExpr :: "('d, 'd fir_expr) parser" where
  "parseVarExpr = pbind (p_consume T_IDENT) (\<lambda>t. ret (VarExpr (token_str t)))"

definition parseRangeConst :: "('d, 'd fir_expr) parser" where
  "parseRangeConst = pbind (p_consume T_IDENT) (\<lambda>t. ret (RangeConst (token_str t)))"

definition parseCallExpr :: "('d, 'd fir_expr) parser \<Rightarrow> ('d, 'd fir_expr) parser" where
  "parseCallExpr parseExpr =
     pbind parseIdent (\<lambda>func.
     pbind parseGenericArgs (\<lambda>genericArgs.
     pthen (p_consume T_LP)
     (pbind (p_peek 0) (\<lambda>t.
      pbind (if token_type t \<noteq> T_RP then parseExprParams parseExpr else ret []) (\<lambda>args.
      pthen (p_consume T_RP) (ret (CallExpr func genericArgs args)))))))"

definition parseUnnamedTupleReadExpr :: "('d, 'd fir_expr) parser \<Rightarrow> ('d, 'd fir_expr) parser" where
  "parseUnnamedTupleReadExpr parseExpr =
     pbind parseVarExpr (\<lambda>tuple.
     pthen (p_consume T_LP)
     (pbind parseExpr (\<lambda>index.
      pthen (p_consume T_RP) (ret (UnnamedTupleReadExpr tuple index)))))"

definition parseNamedTupleReadExpr :: "('d, 'd fir_expr) parser" where
  "parseNamedTupleReadExpr =
     pbind parseVarExpr (\<lambda>tuple.
     pthen (p_consume T_PERIOD) (pbind parseIdent (\<lambda>elem. ret (NamedTupleReadExpr tuple elem))))"

text \<open>
  The lookahead that takes \<^verbatim>\<open>f<a,\<close> and \<^verbatim>\<open>f<a>()\<close> for the beginning of a generic call; the case of \<^verbatim>\<open>'>'\<close> falls
  through to the case of \<^verbatim>\<open>','\<close>.
\<close>

definition startsGenericCall :: "('d, bool) parser" where
  "startsGenericCall =
     pbind (p_peek 1) (\<lambda>t1. pbind (p_peek 3) (\<lambda>t3. pbind (p_peek 4) (\<lambda>t4. pbind (p_peek 5) (\<lambda>t5.
     ret (token_type t1 = T_LA \<and>
          (token_type t3 = T_RA \<and> token_type t4 = T_LP \<and> token_type t5 = T_RP \<or> token_type t3 = T_COMMA))))))"

definition parseIdentFactor :: "('d, 'd fir_expr) parser \<Rightarrow> ('d, 'd fir_expr) parser" where
  "parseIdentFactor parseExpr =
     pbind startsGenericCall (\<lambda>b.
     if b then parseCallExpr parseExpr
     else
       pbind (p_peek 0) (\<lambda>t.
       pbind (p_lookup (token_str t)) (\<lambda>ty.
       pbind (p_peek 1) (\<lambda>t1.
       case ty of
         Some FUNCTION \<Rightarrow> parseCallExpr parseExpr
       | Some RANGE_GENERIC_PARAM \<Rightarrow> parseRangeConst
       | Some TUPLE \<Rightarrow>
           if token_type t1 = T_LP then parseUnnamedTupleReadExpr parseExpr
           else if token_type t1 = T_PERIOD then parseNamedTupleReadExpr
           else parseVarExpr
       | _ \<Rightarrow> parseVarExpr))))"

definition parseFactor :: "('d, 'd fir_expr) parser \<Rightarrow> ('d, 'd fir_expr) parser" where
  "parseFactor parseExpr =
     pbind (p_peek 0) (\<lambda>t.
     if token_type t = T_LP then
       pthen (p_consume T_LP) (pbind parseExpr (\<lambda>e. pthen (p_consume T_RP) (ret (ParenExpr e))))
     else if token_type t = T_IDENT then parseIdentFactor parseExpr
     else if token_type t \<in> {T_INT_LITERAL, T_FLOAT_LITERAL, T_STRING_LITERAL, T_TRUE, T_FALSE, T_LB, T_LA} then
       parseTensorLiteral
     else p_unexpected ''an expression'')"

definition parseSetReadExpr :: "('d, 'd fir_expr) parser \<Rightarrow> ('d, 'd fir_expr) parser" where
  "parseSetReadExpr parseExpr =
     pbind (parseFactor parseExpr) (\<lambda>expr.
     pbind (p_tryConsume T_LB) (\<lambda>b.
     if b then
       pbind (p_peek 0) (\<lambda>t.
       pbind (if token_type t \<noteq> T_RB then
                pbind (parseExprParams parseExpr) (\<lambda>source.
                pbind (p_tryConsume T_SEMICOL) (\<lambda>b.
                if b then pbind (parseExprParams parseExpr) (\<lambda>sink. ret (source @ sink)) else ret source))
              else ret []) (\<lambda>indices.
       pthen (p_consume T_RB) (ret (SetReadExpr expr indices))))
     else ret expr))"

definition parseFieldReadExpr :: "('d, 'd fir_expr) parser \<Rightarrow> ('d, 'd fir_expr) parser" where
  "parseFieldReadExpr parseExpr =
     pbind (parseSetReadExpr parseExpr) (\<lambda>expr.
     pbind (p_tryConsume T_PERIOD) (\<lambda>b.
     if b then pbind parseIdent (\<lambda>field. ret (FieldReadExpr expr field)) else ret expr))"

primrec p_tensorReads_n :: "('d, 'd fir_expr) parser \<Rightarrow> nat \<Rightarrow> 'd fir_expr \<Rightarrow> ('d, 'd fir_expr) parser" where
  "p_tensorReads_n parseExpr 0 expr = outOfFuel"
| "p_tensorReads_n parseExpr (Suc n) expr =
     pbind (p_tryConsume T_LP) (\<lambda>b.
     if b then
       pbind (p_peek 0) (\<lambda>t.
       pbind (if token_type t \<noteq> T_RP then parseReadParams parseExpr else ret []) (\<lambda>indices.
       pthen (p_consume T_RP) (p_tensorReads_n parseExpr n (TensorReadExpr expr indices))))
     else ret expr)"

definition parseTensorReadExpr :: "('d, 'd fir_expr) parser \<Rightarrow> ('d, 'd fir_expr) parser" where
  "parseTensorReadExpr parseExpr =
     pbind (parseFieldReadExpr parseExpr) (\<lambda>expr. fuelled (\<lambda>n. p_tensorReads_n parseExpr n expr))"

primrec p_transposes_n :: "nat \<Rightarrow> 'd fir_expr \<Rightarrow> ('d, 'd fir_expr) parser" where
  "p_transposes_n 0 expr = outOfFuel"
| "p_transposes_n (Suc n) expr =
     pbind (p_peek 0) (\<lambda>t.
     if token_type t = T_TRANSPOSE then pthen (p_consume T_TRANSPOSE) (p_transposes_n n (TransposeExpr expr))
     else ret expr)"

definition parseTransposeExpr :: "('d, 'd fir_expr) parser \<Rightarrow> ('d, 'd fir_expr) parser" where
  "parseTransposeExpr parseExpr =
     pbind (parseTensorReadExpr parseExpr) (\<lambda>expr. fuelled (\<lambda>n. p_transposes_n n expr))"

primrec parseExpExpr_n :: "('d, 'd fir_expr) parser \<Rightarrow> nat \<Rightarrow> ('d, 'd fir_expr) parser" where
  "parseExpExpr_n parseExpr 0 = outOfFuel"
| "parseExpExpr_n parseExpr (Suc n) =
     pbind (parseTransposeExpr parseExpr) (\<lambda>expr.
     pbind (p_tryConsume T_EXP) (\<lambda>b.
     if b then pbind (parseExpExpr_n parseExpr n) (\<lambda>rhs. ret (ExpExpr expr rhs)) else ret expr))"

definition parseExpExpr :: "('d, 'd fir_expr) parser \<Rightarrow> ('d, 'd fir_expr) parser" where
  "parseExpExpr parseExpr = fuelled (parseExpExpr_n parseExpr)"

primrec parseNegExpr_n :: "('d, 'd fir_expr) parser \<Rightarrow> nat \<Rightarrow> ('d, 'd fir_expr) parser" where
  "parseNegExpr_n parseExpr 0 = outOfFuel"
| "parseNegExpr_n parseExpr (Suc n) =
     pbind (p_peek 0) (\<lambda>t.
     if token_type t = T_MINUS then
       pthen (p_consume T_MINUS) (pbind (parseNegExpr_n parseExpr n) (\<lambda>operand. ret (NegExpr True operand)))
     else if token_type t = T_PLUS then
       pthen (p_consume T_PLUS) (pbind (parseNegExpr_n parseExpr n) (\<lambda>operand. ret (NegExpr False operand)))
     else parseExpExpr parseExpr)"

definition parseNegExpr :: "('d, 'd fir_expr) parser \<Rightarrow> ('d, 'd fir_expr) parser" where
  "parseNegExpr parseExpr = fuelled (parseNegExpr_n parseExpr)"

fun mulOp :: "TokenType \<Rightarrow> ('d fir_expr \<Rightarrow> 'd fir_expr \<Rightarrow> 'd fir_expr) option" where
  "mulOp ty =
     (if ty = T_STAR then Some MulExpr else if ty = T_SLASH then Some DivExpr
      else if ty = T_BACKSLASH then Some LeftDivExpr else if ty = T_DOTSTAR then Some ElwiseMulExpr
      else if ty = T_DOTSLASH then Some ElwiseDivExpr else None)"

definition parseMulExpr :: "('d, 'd fir_expr) parser \<Rightarrow> ('d, 'd fir_expr) parser" where
  "parseMulExpr parseExpr = p_binary mulOp (parseNegExpr parseExpr)"

fun addOp :: "TokenType \<Rightarrow> ('d fir_expr \<Rightarrow> 'd fir_expr \<Rightarrow> 'd fir_expr) option" where
  "addOp ty = (if ty = T_PLUS then Some AddExpr else if ty = T_MINUS then Some SubExpr else None)"

definition parseAddExpr :: "('d, 'd fir_expr) parser \<Rightarrow> ('d, 'd fir_expr) parser" where
  "parseAddExpr parseExpr = p_binary addOp (parseMulExpr parseExpr)"

primrec parseTerm_n :: "('d, 'd fir_expr) parser \<Rightarrow> nat \<Rightarrow> ('d, 'd fir_expr) parser" where
  "parseTerm_n parseExpr 0 = outOfFuel"
| "parseTerm_n parseExpr (Suc n) =
     pbind (p_peek 0) (\<lambda>t.
     if token_type t = T_NOT then
       pthen (p_consume T_NOT) (pbind (parseTerm_n parseExpr n) (\<lambda>operand. ret (NotExpr operand)))
     else parseAddExpr parseExpr)"

definition parseTerm :: "('d, 'd fir_expr) parser \<Rightarrow> ('d, 'd fir_expr) parser" where
  "parseTerm parseExpr = fuelled (parseTerm_n parseExpr)"

fun eqOp :: "TokenType \<Rightarrow> eq_op option" where
  "eqOp ty =
     (if ty = T_EQ then Some OP_EQ else if ty = T_NE then Some OP_NE else if ty = T_RA then Some OP_GT
      else if ty = T_LA then Some OP_LT else if ty = T_GE then Some OP_GE else if ty = T_LE then Some OP_LE else None)"

primrec p_comparisons_n :: "('d, 'd fir_expr) parser \<Rightarrow> nat \<Rightarrow> ('d, (eq_op \<times> 'd fir_expr) list) parser" where
  "p_comparisons_n p 0 = outOfFuel"
| "p_comparisons_n p (Suc n) =
     pbind (p_peek 0) (\<lambda>t.
     case eqOp (token_type t) of
       None \<Rightarrow> ret []
     | Some op \<Rightarrow> pthen (p_consume (token_type t))
         (pbind p (\<lambda>operand. pbind (p_comparisons_n p n) (\<lambda>rest. ret ((op, operand) # rest)))))"

definition parseEqExpr :: "('d, 'd fir_expr) parser \<Rightarrow> ('d, 'd fir_expr) parser" where
  "parseEqExpr parseExpr =
     pbind (parseTerm parseExpr) (\<lambda>operand.
     pbind (fuelled (p_comparisons_n (parseTerm parseExpr))) (\<lambda>rest.
     ret (case rest of [] \<Rightarrow> operand | _ \<Rightarrow> EqExpr (operand # map snd rest) (map fst rest))))"

definition singleOp :: "TokenType \<Rightarrow> 'f \<Rightarrow> TokenType \<Rightarrow> 'f option" where
  "singleOp op mk ty = (if ty = op then Some mk else None)"

definition parseXorExpr :: "('d, 'd fir_expr) parser \<Rightarrow> ('d, 'd fir_expr) parser" where
  "parseXorExpr parseExpr = p_binary (singleOp T_XOR XorExpr) (parseEqExpr parseExpr)"

definition parseAndExpr :: "('d, 'd fir_expr) parser \<Rightarrow> ('d, 'd fir_expr) parser" where
  "parseAndExpr parseExpr = p_binary (singleOp T_AND AndExpr) (parseXorExpr parseExpr)"

definition parseOrExpr :: "('d, 'd fir_expr) parser \<Rightarrow> ('d, 'd fir_expr) parser" where
  "parseOrExpr parseExpr = p_binary (singleOp T_OR OrExpr) (parseAndExpr parseExpr)"

definition parseMapExpr :: "('d, 'd fir_expr) parser \<Rightarrow> ('d, 'd fir_expr) parser" where
  "parseMapExpr parseExpr =
     pthen (p_consume T_MAP)
     (pbind parseIdent (\<lambda>func.
      pbind parseGenericArgs (\<lambda>genericArgs.
      pbind (parsePartialActuals parseExpr) (\<lambda>partialActuals.
      pthen (p_consume T_TO)
      (pbind parseSetIndexSet (\<lambda>target.
       pbind (p_tryConsume T_THROUGH) (\<lambda>b.
       pbind (if b then pbind parseSetIndexSet (\<lambda>s. ret (Some s)) else ret None) (\<lambda>through.
       pbind (p_tryConsume T_REDUCE) (\<lambda>b.
       if b then pthen (p_consume T_PLUS) (ret (MapExpr func genericArgs partialActuals target through (Some RED_SUM)))
       else ret (MapExpr func genericArgs partialActuals target through None))))))))))"

primrec parseExpr_n :: "nat \<Rightarrow> ('d, 'd fir_expr) parser" where
  "parseExpr_n 0 = outOfFuel"
| "parseExpr_n (Suc n) =
     pbind (p_peek 0) (\<lambda>t.
     if token_type t = T_MAP then parseMapExpr (parseExpr_n n) else parseOrExpr (parseExpr_n n))"

definition parseExpr :: "('d, 'd fir_expr) parser" where
  "parseExpr = fuelled parseExpr_n"

section \<open>Declarations\<close>

definition parseIdentDecl :: "('d, ident_decl) parser" where
  "parseIdentDecl =
     pbind parseIdent (\<lambda>name.
     pthen (p_consume T_COL)
     (pbind parseType (\<lambda>type.
      pthen (p_insert name (if isa_TupleType type then TUPLE else OTHER))
        (ret \<lparr>decl_name = name, decl_type = type\<rparr>))))"

definition parseTensorDecl :: "('d, string \<times> fir_tensor_type) parser" where
  "parseTensorDecl =
     pbind parseIdent (\<lambda>name.
     pthen (p_consume T_COL)
     (pbind parseTensorType (\<lambda>type. pthen (p_insert name OTHER) (ret (name, type)))))"

definition skipStatement :: "('d, 'a option) parser" where
  "skipStatement = pthen (p_skipTo [T_SEMICOL]) (pthen (p_consume T_SEMICOL) (ret None))"

definition parseVarDecl :: "('d, 'd fir_stmt option) parser" where
  "parseVarDecl =
     pcatch
       (pthen (p_consume T_VAR)
        (pbind parseIdent (\<lambda>name.
         pbind (p_tryConsume T_COL) (\<lambda>b.
         pbind (if b then
                  pbind parseTensorType (\<lambda>type.
                  pbind (p_tryConsume T_ASSIGN) (\<lambda>b.
                  if b then pbind parseExpr (\<lambda>initVal. ret (Some type, Some initVal)) else ret (Some type, None)))
                else pthen (p_consume T_ASSIGN) (pbind parseExpr (\<lambda>initVal. ret (None, Some initVal)))) (\<lambda>ti.
         pthen (p_consume T_SEMICOL)
         (pthen (p_insert name OTHER) (ret (Some (VarDecl name (fst ti) (snd ti))))))))))
       skipStatement"

definition parseConstDecl :: "('d, 'd fir_stmt option) parser" where
  "parseConstDecl =
     pcatch
       (pthen (p_consume T_CONST)
        (pbind parseIdent (\<lambda>name.
         pbind (p_tryConsume T_COL) (\<lambda>b.
         pbind (if b then pbind parseTensorType (\<lambda>type. ret (Some type)) else ret None) (\<lambda>type.
         pthen (p_consume T_ASSIGN)
         (pbind parseExpr (\<lambda>initVal.
          pthen (p_consume T_SEMICOL)
          (pthen (p_insert name OTHER) (ret (Some (ConstDecl name type initVal)))))))))))
       skipStatement"

definition parseIVarDecl :: "('d, 'd fir_stmt option) parser" where
  "parseIVarDecl =
     pcatch
       (pthen (p_consume T_IVAR)
        (pbind parseIdent (\<lambda>name. pthen (p_insert name OTHER) (ret (Some (IVarDecl name))))))
       skipStatement"

section \<open>Statements\<close>

definition ends_block :: "TokenType \<Rightarrow> bool" where
  "ends_block ty = (ty \<in> {T_BLOCKEND, T_ELIF, T_ELSE, T_END})"

definition parseStmtBlock :: "('d, 'd fir_stmt option) parser \<Rightarrow> ('d, 'd fir_stmt) parser" where
  "parseStmtBlock parseStmt =
     pbind (p_while (\<lambda>ty. \<not> ends_block ty) parseStmt) (\<lambda>stmts. ret (StmtBlock (List.map_filter (\<lambda>x. x) stmts)))"

definition skipBlock :: "('d, 'a option) parser" where
  "skipBlock = pthen (p_skipTo [T_BLOCKEND]) (pthen (p_consume T_BLOCKEND) (ret None))"

definition parseWhileStmt :: "('d, 'd fir_stmt option) parser \<Rightarrow> ('d, 'd fir_stmt option) parser" where
  "parseWhileStmt parseStmt =
     pcatch
       (pthen (p_consume T_WHILE)
        (pbind parseExpr (\<lambda>cond.
         pbind (inScope (parseStmtBlock parseStmt)) (\<lambda>body.
         pthen (p_consume T_BLOCKEND) (ret (Some (WhileStmt cond body)))))))
       skipBlock"

definition parseDoWhileStmt :: "('d, 'd fir_stmt option) parser \<Rightarrow> ('d, 'd fir_stmt option) parser" where
  "parseDoWhileStmt parseStmt =
     pcatch
       (pthen (p_consume T_DO)
        (pbind (inScope (parseStmtBlock parseStmt)) (\<lambda>body.
         pthen (p_consume T_BLOCKEND)
         (pthen (p_consume T_WHILE)
         (pbind parseExpr (\<lambda>cond. ret (Some (DoWhileStmt body cond))))))))
       (pthen (p_skipTo [T_BLOCKEND, T_ELIF, T_ELSE, T_END, T_VAR, T_CONST, T_IF, T_WHILE, T_DO, T_FOR, T_PRINT, T_PRINTLN])
          (ret None))"

primrec parseElseClause_n :: "('d, 'd fir_stmt option) parser \<Rightarrow> nat \<Rightarrow> ('d, 'd fir_stmt option) parser" where
  "parseElseClause_n parseStmt 0 = outOfFuel"
| "parseElseClause_n parseStmt (Suc n) =
     pbind (p_peek 0) (\<lambda>t.
     if token_type t = T_ELSE then
       pthen (p_consume T_ELSE) (pbind (parseStmtBlock parseStmt) (\<lambda>block. ret (Some block)))
     else if token_type t = T_ELIF then
       pcatch
         (pthen (p_consume T_ELIF)
          (pbind parseExpr (\<lambda>cond.
           pbind (inScope (parseStmtBlock parseStmt)) (\<lambda>ifBody.
           pbind (inScope (parseElseClause_n parseStmt n)) (\<lambda>elseBody.
           ret (Some (IfStmt cond ifBody elseBody)))))))
         (pthen (p_skipTo [T_ELIF, T_ELSE, T_BLOCKEND])
            (pthen (inScope (parseElseClause_n parseStmt n)) (ret None)))
     else ret None)"

definition parseElseClause :: "('d, 'd fir_stmt option) parser \<Rightarrow> ('d, 'd fir_stmt option) parser" where
  "parseElseClause parseStmt = fuelled (parseElseClause_n parseStmt)"

definition parseIfStmt :: "('d, 'd fir_stmt option) parser \<Rightarrow> ('d, 'd fir_stmt option) parser" where
  "parseIfStmt parseStmt =
     pcatch
       (pthen (p_consume T_IF)
        (pbind parseExpr (\<lambda>cond.
         pbind (inScope (parseStmtBlock parseStmt)) (\<lambda>ifBody.
         pbind (inScope (parseElseClause parseStmt)) (\<lambda>elseBody.
         pthen (p_consume T_BLOCKEND) (ret (Some (IfStmt cond ifBody elseBody))))))))
       (pthen (p_skipTo [T_ELIF, T_ELSE, T_BLOCKEND])
        (pthen (parseElseClause parseStmt)
        (pthen (p_consume T_BLOCKEND) (ret None))))"

definition parseForDomain :: "('d, 'd for_domain) parser" where
  "parseForDomain =
     pbind (p_peek 0) (\<lambda>t0. pbind (p_peek 1) (\<lambda>t1.
     if token_type t0 = T_IDENT \<and> token_type t1 \<noteq> T_COL then
       pbind parseSetIndexSet (\<lambda>set. ret (IndexSetDomain set))
     else
       pbind parseExpr (\<lambda>lower.
       pthen (p_consume T_COL) (pbind parseExpr (\<lambda>upper. ret (RangeDomain lower upper))))))"

definition parseForStmt :: "('d, 'd fir_stmt option) parser \<Rightarrow> ('d, 'd fir_stmt option) parser" where
  "parseForStmt parseStmt =
     pcatch
       (pthen (p_consume T_FOR)
        (pbind parseIdent (\<lambda>loopVar.
         pthen (p_consume T_IN)
         (pbind parseForDomain (\<lambda>domain.
          pbind (inScope (pthen (p_insert loopVar OTHER) (parseStmtBlock parseStmt))) (\<lambda>body.
          pthen (p_consume T_BLOCKEND) (ret (Some (ForStmt loopVar domain body)))))))))
       skipBlock"

definition parsePrintStmt :: "('d, 'd fir_stmt option) parser" where
  "parsePrintStmt =
     pcatch
       (pbind (p_peek 0) (\<lambda>t.
        pbind (if token_type t = T_PRINT then pthen (p_consume T_PRINT) (ret False)
               else pthen (p_consume T_PRINTLN) (ret True)) (\<lambda>printNewline.
        pbind (p_sepBy T_COMMA parseExpr) (\<lambda>args.
        pthen (p_consume T_SEMICOL) (ret (Some (PrintStmt args printNewline)))))))
       skipStatement"

definition parseApplyStmt :: "('d, 'd fir_stmt option) parser" where
  "parseApplyStmt =
     pcatch
       (pthen (p_consume T_APPLY)
        (pbind parseIdent (\<lambda>func.
         pbind parseGenericArgs (\<lambda>genericArgs.
         pbind (parsePartialActuals parseExpr) (\<lambda>partialActuals.
         pthen (p_consume T_TO)
         (pbind parseSetIndexSet (\<lambda>target.
          pthen (p_consume T_SEMICOL) (ret (Some (ApplyStmt func genericArgs partialActuals target))))))))))
       skipStatement"

text \<open>The loop that declares the variables an assignment introduces.\<close>

primrec p_declare :: "'d fir_expr list \<Rightarrow> ('d, unit) parser" where
  "p_declare [] = ret ()"
| "p_declare (lhs # rest) =
     pthen (case to_VarExpr lhs of
              None \<Rightarrow> ret ()
            | Some varName \<Rightarrow> pbind (p_contains varName) (\<lambda>b. if \<not> b then p_insert varName OTHER else ret ()))
       (p_declare rest)"

definition parseExprOrAssignStmt :: "('d, 'd fir_stmt option) parser" where
  "parseExprOrAssignStmt =
     pcatch
       (pbind (p_peek 0) (\<lambda>t.
        pbind (if token_type t \<noteq> T_SEMICOL then
                 pbind parseExpr (\<lambda>expr.
                 pbind (p_peek 0) (\<lambda>t.
                 if token_type t \<in> {T_COMMA, T_ASSIGN} then
                   pbind (p_while (\<lambda>ty. ty = T_COMMA) (pthen (p_consume T_COMMA) parseExpr)) (\<lambda>more.
                   pthen (p_consume T_ASSIGN)
                   (pbind parseExpr (\<lambda>rhs.
                    pthen (p_declare (expr # more)) (ret (Some (AssignStmt (expr # more) rhs))))))
                 else ret (Some (ExprStmt expr))))
               else ret None) (\<lambda>stmt.
        pthen (p_consume T_SEMICOL) (ret stmt))))
       skipStatement"

primrec parseStmt_n :: "nat \<Rightarrow> ('d, 'd fir_stmt option) parser" where
  "parseStmt_n 0 = outOfFuel"
| "parseStmt_n (Suc n) =
     pbind (p_peek 0) (\<lambda>t.
     let ty = token_type t in
     if ty = T_VAR then parseVarDecl
     else if ty = T_CONST then parseConstDecl
     else if ty = T_IVAR then parseIVarDecl
     else if ty = T_IF then parseIfStmt (parseStmt_n n)
     else if ty = T_WHILE then parseWhileStmt (parseStmt_n n)
     else if ty = T_DO then parseDoWhileStmt (parseStmt_n n)
     else if ty = T_FOR then parseForStmt (parseStmt_n n)
     else if ty = T_PRINT \<or> ty = T_PRINTLN then parsePrintStmt
     else if ty = T_APPLY then parseApplyStmt
     else parseExprOrAssignStmt)"

definition parseStmt :: "('d, 'd fir_stmt option) parser" where
  "parseStmt = fuelled parseStmt_n"

section \<open>Programs\<close>

definition parseFieldDecl :: "('d, string \<times> fir_tensor_type) parser" where
  "parseFieldDecl = pbind parseTensorDecl (\<lambda>d. pthen (p_consume T_SEMICOL) (ret d))"

definition parseFieldDeclList :: "('d, (string \<times> fir_tensor_type) list) parser" where
  "parseFieldDeclList = p_while (\<lambda>ty. ty = T_IDENT) parseFieldDecl"

definition parseElementTypeDecl :: "('d, 'd program_element) parser" where
  "parseElementTypeDecl =
     pthen (p_consume T_ELEMENT)
     (pbind parseIdent (\<lambda>name.
      pbind parseFieldDeclList (\<lambda>fields.
      pthen (p_consume T_BLOCKEND) (ret (ElementTypeDecl name fields)))))"

definition parseGenericParam :: "('d, string \<times> generic_type) parser" where
  "parseGenericParam =
     pbind (p_peek 0) (\<lambda>t.
     pbind (if token_type t = T_INT_LITERAL then pbind (token_num t) (\<lambda>n. ret (n = 0)) else ret False) (\<lambda>isRange.
     pthen (if isRange then pthen (p_consume T_INT_LITERAL) (pthen (p_consume T_COL) (ret ())) else ret ())
     (pbind (p_consume T_IDENT) (\<lambda>identToken.
      let name = token_str identToken; type = (if isRange then GT_RANGE else GT_UNKNOWN) in
      pthen (p_insert name (if type = GT_RANGE then RANGE_GENERIC_PARAM else GENERIC_PARAM)) (ret (name, type))))))"

definition parseGenericParams :: "('d, (string \<times> generic_type) list) parser" where
  "parseGenericParams =
     pbind (p_tryConsume T_LA) (\<lambda>b.
     if b then pbind (p_sepBy T_COMMA parseGenericParam) (\<lambda>params. pthen (p_consume T_RA) (ret params)) else ret [])"

definition parseArgumentDecl :: "('d, bool \<times> ident_decl) parser" where
  "parseArgumentDecl =
     pbind (p_peek 0) (\<lambda>t.
     pbind (if token_type t = T_INOUT then pthen (p_consume T_INOUT) (ret True) else ret False) (\<lambda>inout.
     pbind parseIdentDecl (\<lambda>d. ret (inout, d))))"

definition parseArguments :: "('d, (bool \<times> ident_decl) list) parser" where
  "parseArguments =
     pthen (p_consume T_LP)
     (pbind (p_peek 0) (\<lambda>t.
      pbind (if token_type t \<noteq> T_RP then p_sepBy T_COMMA parseArgumentDecl else ret []) (\<lambda>arguments.
      pthen (p_consume T_RP) (ret arguments))))"

definition parseResults :: "('d, ident_decl list) parser" where
  "parseResults =
     pbind (p_tryConsume T_RARROW) (\<lambda>b.
     if b then
       pbind (p_tryConsume T_LP) (\<lambda>b.
       if b then pbind (p_sepBy T_COMMA parseIdentDecl) (\<lambda>results. pthen (p_consume T_RP) (ret results))
       else pbind parseIdentDecl (\<lambda>result. ret [result]))
     else ret [])"

definition parseExternDecl :: "('d, 'd program_element) parser" where
  "parseExternDecl =
     pthen (p_consume T_EXTERN)
     (pbind parseIdentDecl (\<lambda>d. pthen (p_consume T_SEMICOL) (ret (ExternDecl (decl_name d) (decl_type d)))))"

definition parseExternFuncDecl :: "('d, 'd program_element) parser" where
  "parseExternFuncDecl =
     restoringLevels
       (pthen (p_consume T_EXTERN)
        (pthen (p_consume T_FUNC)
        (pbind parseIdent (\<lambda>name.
         pthen (p_insert name FUNCTION)
         (pbind (inScope
            (pbind parseGenericParams (\<lambda>generics.
             pbind parseArguments (\<lambda>args.
             pbind parseResults (\<lambda>results.
             ret (FuncDecl \<lparr>func_type = FT_EXTERNAL, func_name = name, genericParams = generics, func_args = args,
               func_results = results, func_body = None\<rparr>)))))) (\<lambda>decl.
          pthen (p_consume T_SEMICOL) (ret decl)))))))"

definition parseFuncDecl :: "('d, 'd program_element) parser" where
  "parseFuncDecl =
     restoringLevels
       (pbind (p_peek 0) (\<lambda>funcToken.
        pthen (p_tryConsume T_EXPORT)
        (pthen (p_consume T_FUNC)
        (pbind parseIdent (\<lambda>name.
         pthen (p_insert name FUNCTION)
         (pbind (inScope
            (pbind parseGenericParams (\<lambda>generics.
             pbind parseArguments (\<lambda>args.
             pbind parseResults (\<lambda>results.
             pbind (inScope (parseStmtBlock parseStmt)) (\<lambda>body.
             ret (FuncDecl \<lparr>func_type = (if token_type funcToken = T_EXPORT then FT_EXPORTED else FT_INTERNAL),
               func_name = name, genericParams = generics, func_args = args, func_results = results,
               func_body = Some body\<rparr>))))))) (\<lambda>decl.
          pthen (p_consume T_BLOCKEND) (ret decl))))))))"

definition parseExternFuncOrDecl :: "('d, 'd program_element) parser" where
  "parseExternFuncOrDecl =
     pbind (p_peek 1) (\<lambda>tokenAfterExtern.
     if token_type tokenAfterExtern = T_FUNC then parseExternFuncDecl else parseExternDecl)"

definition parseTest :: "('d, 'd program_element) parser" where
  "parseTest =
     pthen (p_consume T_TEST)
     (pbind parseIdent (\<lambda>func.
      pbind (p_peek 0) (\<lambda>t.
      if token_type t = T_LP then
        pthen (p_consume T_LP)
        (pbind (p_tryConsume T_RP) (\<lambda>b.
         pbind (if \<not> b then pbind (parseExprParams parseExpr) (\<lambda>args. pthen (p_consume T_RP) (ret args)) else ret []) (\<lambda>args.
         pthen (p_consume T_EQ)
         (pbind parseExpr (\<lambda>expected.
          pthen (p_consume T_SEMICOL) (ret (Test func args expected)))))))
      else p_unexpected ''a test'')))"

definition parseProgramElement :: "('d, 'd program_element option) parser" where
  "parseProgramElement =
     pcatch
       (pbind (p_peek 0) (\<lambda>t.
        let ty = token_type t in
        if ty = T_TEST then pbind parseTest (\<lambda>e. ret (Some e))
        else if ty = T_EXPORT \<or> ty = T_FUNC then pbind parseFuncDecl (\<lambda>e. ret (Some e))
        else if ty = T_ELEMENT then pbind parseElementTypeDecl (\<lambda>e. ret (Some e))
        else if ty = T_EXTERN then pbind parseExternFuncOrDecl (\<lambda>e. ret (Some e))
        else if ty = T_CONST then pbind parseConstDecl (\<lambda>d. ret (map_option TopConst d))
        else p_unexpected ''a program element''))
       (pthen (p_skipTo [T_TEST, T_FUNC, T_EXPORT, T_ELEMENT, T_EXTERN, T_CONST]) (ret None))"

definition parseProgram :: "('d, 'd program_element list) parser" where
  "parseProgram =
     pbind (p_while (\<lambda>ty. ty \<noteq> T_END) parseProgramElement) (\<lambda>elems. ret (List.map_filter (\<lambda>x. x) elems))"

primrec declareIntrinsics :: "string list \<Rightarrow> ('d, unit) parser" where
  "declareIntrinsics [] = ret ()"
| "declareIntrinsics (name # names) = pthen (p_insert name FUNCTION) (declareIntrinsics names)"

definition parse ::
  "'d double_ops \<Rightarrow> string list \<Rightarrow> 'd token_stream \<Rightarrow> parse_error list \<Rightarrow> 'd program_element list outcome \<times> 'd pstate" where
  "parse doubles intrinsics toks errs =
     pthen (declareIntrinsics intrinsics) parseProgram
       \<lparr>p_decls = mk_scoped_map Map.empty, p_tokens = toks, p_errors = errs, p_doubles = doubles\<rparr>"

end
