(* ===== verification/Parser_Logic.thy ===== *)
theory Parser_Logic
  imports Parser "HOL-Library.Sublist"
begin

text \<open>
  The parser is total: on any token stream that ends with an end token it never reads past the stream, never closes a
  scope that is not open and never runs out of the bound on its loops. The proof is a small logic of parsers with one
  rule per combinator; \<open>safe\<close> says that a parser behaves well on states with a given number of tokens left, \<open>eats\<close>
  that it also consumes a token when it returns.
\<close>

section \<open>Good runs\<close>

definition token_ok :: "'d token \<Rightarrow> bool" where
  "token_ok t \<longleftrightarrow> (token_type t = T_INT_LITERAL \<longrightarrow> (\<exists>n. token_value t = IntValue n)) \<and>
     (token_type t = T_FLOAT_LITERAL \<longrightarrow> (\<exists>d. token_value t = FloatValue d))"

definition wf_state :: "'d pstate \<Rightarrow> bool" where
  "wf_state s \<longleftrightarrow> p_tokens s \<noteq> [] \<and> token_type (last (p_tokens s)) = T_END \<and> (\<forall>t \<in> set (p_tokens s). token_ok t) \<and>
     0 < levels (p_decls s)"

abbreviation left :: "'d pstate \<Rightarrow> nat" where
  "left s \<equiv> length (p_tokens s)"

abbreviation depth :: "'d pstate \<Rightarrow> nat" where
  "depth s \<equiv> levels (p_decls s)"

abbreviation front :: "'d pstate \<Rightarrow> TokenType" where
  "front s \<equiv> token_type (hd (p_tokens s))"

text \<open>
  A good run returns or throws, after reporting an error in the second case; errors are only added; scopes that were
  open stay open, and without a new error the run closes every scope it opened.
\<close>

definition good :: "bool \<Rightarrow> 'd pstate \<Rightarrow> 'a outcome \<times> 'd pstate \<Rightarrow> bool" where
  "good eaten s r \<longleftrightarrow> wf_state (snd r) \<and> left (snd r) \<le> left s \<and> prefix (p_errors s) (p_errors (snd r)) \<and>
     depth s \<le> depth (snd r) \<and>
     (case fst r of
        Parsed _ \<Rightarrow> (eaten \<longrightarrow> left (snd r) < left s) \<and> (p_errors (snd r) = p_errors s \<longrightarrow> depth (snd r) = depth s)
      | SyntaxError \<Rightarrow> p_errors (snd r) \<noteq> p_errors s
      | _ \<Rightarrow> False)"

definition eats_on :: "(TokenType \<Rightarrow> bool) \<Rightarrow> nat \<Rightarrow> ('d, 'a) parser \<Rightarrow> bool" where
  "eats_on c n p \<longleftrightarrow> (\<forall>s. wf_state s \<longrightarrow> left s \<le> n \<longrightarrow> c (front s) \<longrightarrow> good True s (p s))"

definition eats :: "nat \<Rightarrow> ('d, 'a) parser \<Rightarrow> bool" where
  "eats n p \<longleftrightarrow> (\<forall>s. wf_state s \<longrightarrow> left s \<le> n \<longrightarrow> good True s (p s))"

definition safe :: "nat \<Rightarrow> ('d, 'a) parser \<Rightarrow> bool" where
  "safe n p \<longleftrightarrow> (\<forall>s. wf_state s \<longrightarrow> left s \<le> n \<longrightarrow> good False s (p s))"

lemma eatsD: "eats n p \<Longrightarrow> wf_state s \<Longrightarrow> left s \<le> n \<Longrightarrow> good True s (p s)"
  by (simp add: eats_def)

lemma safeD: "safe n p \<Longrightarrow> wf_state s \<Longrightarrow> left s \<le> n \<Longrightarrow> good False s (p s)"
  by (simp add: safe_def)

lemma good_weaken: "good True s r \<Longrightarrow> good b s r"
  by (auto simp: good_def split: outcome.splits)

lemma eats_safe: "eats n p \<Longrightarrow> safe n p"
  by (auto simp: eats_def safe_def intro: good_weaken)

lemma eats_on_True: "eats n p \<Longrightarrow> eats_on c n p"
  by (simp add: eats_def eats_on_def)

lemma eats_mono: "eats n p \<Longrightarrow> m \<le> n \<Longrightarrow> eats m p"
  by (simp add: eats_def)

lemma safe_mono: "safe n p \<Longrightarrow> m \<le> n \<Longrightarrow> safe m p"
  by (simp add: safe_def)

lemma eats_0: "eats 0 p"
  by (simp add: eats_def wf_state_def)

text \<open>Running a good parser and then another one.\<close>

lemma good_trans:
  assumes "good b1 s (Parsed x, s1)" "good b2 s1 r"
  shows "good (b1 \<or> b2) s r"
  using assms by (auto simp: good_def split: outcome.splits dest: prefix_order.trans intro: prefix_order.trans)

lemma good_throw_trans:
  assumes "good b1 s (SyntaxError, s1)" "good b2 s1 (r, s2)"
  shows "good False s (r, s2)" "left s1 < left s \<Longrightarrow> good True s (r, s2)"
proof -
  have "p_errors s2 \<noteq> p_errors s" using assms by (auto simp: good_def dest: prefix_order.antisym)
  then show "good False s (r, s2)" "left s1 < left s \<Longrightarrow> good True s (r, s2)"
    using assms by (auto simp: good_def split: outcome.splits intro: prefix_order.trans)
qed

section \<open>The rules\<close>

subsection \<open>Combinators\<close>

lemma good_pbind:
  assumes "good bp s (p s)" "\<And>x s1. p s = (Parsed x, s1) \<Longrightarrow> good bf s1 (f x s1)" "b \<longrightarrow> bp \<or> bf"
  shows "good b s (pbind p f s)"
proof (cases "p s")
  case (Pair r s1)
  show ?thesis
  proof (cases r)
    case (Parsed x)
    have "good (bp \<or> bf) s (f x s1)" using assms(1,2) Pair Parsed by (metis good_trans)
    then have "good b s (f x s1)" using assms(3) by (cases "bp \<or> bf") (auto intro: good_weaken)
    then show ?thesis using Pair Parsed by (simp add: pbind_def)
  qed (use assms(1) Pair in \<open>auto simp: pbind_def good_def\<close>)
qed

lemma good_pcatch:
  assumes "good b s (p s)" "\<And>s1. p s = (SyntaxError, s1) \<Longrightarrow> good b' s1 (h s1) \<and> (b \<longrightarrow> b' \<or> left s1 < left s)"
  shows "good b s (pcatch p h s)"
proof (cases "p s")
  case (Pair r s1)
  show ?thesis
  proof (cases r)
    case SyntaxError
    obtain q s2 where h: "h s1 = (q, s2)" by fastforce
    with SyntaxError Pair assms have *: "good b s (r, s1)" "good b' s1 (q, s2)" "b \<longrightarrow> b' \<or> left s1 < left s" by auto
    then have "left s1 \<le> left s" by (simp add: good_def)
    then have "good b s (q, s2)"
      using good_throw_trans(1) [OF *(1) [unfolded SyntaxError] *(2)] *(2,3) by (auto simp: good_def split: outcome.splits)
    then show ?thesis using Pair SyntaxError h by (simp add: pcatch_def)
  qed (use assms(1) Pair in \<open>auto simp: pcatch_def\<close>)
qed

lemma safe_ret: "safe n (ret x)"
  by (simp add: safe_def ret_def good_def)

lemma safe_bind: "safe n p \<Longrightarrow> (\<And>x. safe n (f x)) \<Longrightarrow> safe n (pbind p f)"
  unfolding safe_def by (intro allI impI good_pbind [where bp = False and bf = False]) (auto simp: good_def)

lemma eats_first: "eats (Suc n) p \<Longrightarrow> (\<And>x. safe n (f x)) \<Longrightarrow> eats (Suc n) (pbind p f)"
  unfolding eats_def safe_def
  by (intro allI impI good_pbind [where bp = True and bf = False]) (force simp: good_def)+

lemma eats_bind: "eats n p \<Longrightarrow> (\<And>x. safe n (f x)) \<Longrightarrow> eats n (pbind p f)"
  unfolding eats_def safe_def
  by (intro allI impI good_pbind [where bp = True and bf = False]) (force simp: good_def)+

lemma eats_later: "safe n p \<Longrightarrow> (\<And>x. eats n (f x)) \<Longrightarrow> eats n (pbind p f)"
  unfolding eats_def safe_def
  by (intro allI impI good_pbind [where bp = False and bf = True]) (force simp: good_def)+

lemma safe_then: "safe n p \<Longrightarrow> safe n q \<Longrightarrow> safe n (pthen p q)"
  by (simp add: pthen_def safe_bind)

lemma eats_then_first: "eats (Suc n) p \<Longrightarrow> safe n q \<Longrightarrow> eats (Suc n) (pthen p q)"
  by (simp add: pthen_def eats_first)

lemma eats_then: "eats n p \<Longrightarrow> safe n q \<Longrightarrow> eats n (pthen p q)"
  by (simp add: pthen_def eats_bind)

lemma eats_then_later: "safe n p \<Longrightarrow> eats n q \<Longrightarrow> eats n (pthen p q)"
  by (simp add: pthen_def eats_later)

lemma safe_catch: "safe n p \<Longrightarrow> safe n h \<Longrightarrow> safe n (pcatch p h)"
  unfolding safe_def by (intro allI impI good_pcatch [where b' = False]) (force simp: good_def)+

lemma eats_catch: "eats n p \<Longrightarrow> eats n h \<Longrightarrow> eats n (pcatch p h)"
  unfolding eats_def by (intro allI impI good_pcatch [where b' = True]) (force simp: good_def)+

lemma safe_if: "(c \<Longrightarrow> safe n p) \<Longrightarrow> (\<not> c \<Longrightarrow> safe n q) \<Longrightarrow> safe n (if c then p else q)"
  by simp

lemma eats_if: "(c \<Longrightarrow> eats n p) \<Longrightarrow> (\<not> c \<Longrightarrow> eats n q) \<Longrightarrow> eats n (if c then p else q)"
  by simp

lemma safe_option: "safe n p \<Longrightarrow> (\<And>x. safe n (f x)) \<Longrightarrow> safe n (case v of None \<Rightarrow> p | Some x \<Rightarrow> f x)"
  by (cases v) simp_all

lemma eats_option: "eats n p \<Longrightarrow> (\<And>x. eats n (f x)) \<Longrightarrow> eats n (case v of None \<Rightarrow> p | Some x \<Rightarrow> f x)"
  by (cases v) simp_all

lemma safe_fuelled: "(\<And>k. safe (min n k) (p k)) \<Longrightarrow> safe n (fuelled p)"
  by (auto simp: safe_def fuelled_def)

lemma eats_fuelled: "(\<And>k. eats (min n k) (p k)) \<Longrightarrow> eats n (fuelled p)"
  by (auto simp: eats_def fuelled_def)

subsection \<open>Tokens\<close>

lemma wf_stateD:
  assumes "wf_state s"
  shows "p_tokens s = hd (p_tokens s) # tl (p_tokens s)" "peek 0 (p_tokens s) = Inr (hd (p_tokens s))"
    "token_ok (hd (p_tokens s))"
  using assms by (cases "p_tokens s"; simp add: wf_state_def peek_def)+

lemma wf_state_tl:
  assumes "wf_state s" "front s \<noteq> T_END"
  shows "wf_state (s\<lparr>p_tokens := tl (p_tokens s)\<rparr>)"
  using assms by (cases "p_tokens s") (auto simp: wf_state_def split: if_splits)

lemma p_peek_wf: "wf_state s \<Longrightarrow> \<exists>t. p_peek k s = (Parsed t, s)"
  by (auto simp: wf_state_def p_peek_def peek_def from_result_def split: list.split)

lemma safe_peek: "safe n (p_peek k)"
  unfolding safe_def
proof (intro allI impI)
  fix s :: "'a pstate" assume s: "wf_state s"
  then obtain t where "p_peek k s = (Parsed t, s)" using p_peek_wf by blast
  with s show "good False s (p_peek k s)" by (simp add: good_def)
qed

lemma p_peek_0: "wf_state s \<Longrightarrow> p_peek 0 s = (Parsed (hd (p_tokens s)), s)"
  by (simp add: p_peek_def from_result_def wf_stateD(2))

lemma p_tryConsume_wf:
  assumes "wf_state s"
  shows "p_tryConsume ty s =
    (if front s = ty then (Parsed True, s\<lparr>p_tokens := tl (p_tokens s)\<rparr>) else (Parsed False, s))"
  using assms by (cases "p_tokens s") (simp_all add: p_tryConsume_def consume_def wf_state_def)

lemma safe_tryConsume: "ty \<noteq> T_END \<Longrightarrow> safe n (p_tryConsume ty)"
  by (auto simp: safe_def p_tryConsume_wf good_def wf_state_tl)

lemma p_reportError_good: "wf_state s \<Longrightarrow> good b s (pthen (p_reportError t e) throw s)"
  by (simp add: pthen_def pbind_def p_reportError_def throw_def good_def wf_state_def)

lemma p_consume_wf:
  assumes "wf_state s"
  shows "p_consume ty s =
    (if front s = ty then (Parsed (hd (p_tokens s)), s\<lparr>p_tokens := tl (p_tokens s)\<rparr>)
     else pthen (p_reportError (hd (p_tokens s)) (tokenTypeString ty)) throw s)"
  using assms by (simp add: p_consume_def pbind_def p_peek_0 p_tryConsume_wf ret_def)

lemma eats_consume: "ty \<noteq> T_END \<Longrightarrow> eats n (p_consume ty)"
  by (auto simp: eats_def p_consume_wf p_reportError_good)
    (auto simp: good_def wf_state_tl, simp add: wf_state_def)

lemma p_unexpected_wf:
  "wf_state s \<Longrightarrow> \<exists>err. p_unexpected e s = (SyntaxError, s\<lparr>p_errors := p_errors s @ [err]\<rparr>)"
  by (auto simp: p_unexpected_def pbind_def p_peek_0 pthen_def p_reportError_def throw_def)

lemma eats_unexpected: "eats n (p_unexpected e)"
  by (simp add: eats_def p_unexpected_def pbind_def p_peek_0 p_reportError_good)

lemma safe_skipTo_n: "safe k (p_skipTo_n types k)"
proof (induction k)
  case (Suc k)
  have "good False s (p_skipTo_n types (Suc k) s)" if "wf_state s" "left s \<le> Suc k" for s :: "'a pstate"
  proof (cases "front s = T_END \<or> list_ex (\<lambda>ty. front s = ty) types")
    case True
    with that show ?thesis by (auto simp: pbind_def p_peek_0 ret_def good_def)
  next
    case False
    let ?s = "s\<lparr>p_tokens := tl (p_tokens s)\<rparr>"
    have wf: "wf_state ?s" using that(1) False wf_state_tl by blast
    have "p_skipTo_n types (Suc k) s = p_skipTo_n types k ?s"
      using False that(1) by (cases "p_tokens s") (auto simp: pbind_def p_peek_0 pthen_def p_skip_def skip_def wf_state_def)
    moreover have "good False ?s (p_skipTo_n types k ?s)" using Suc.IH wf that by (simp add: safe_def)
    ultimately show ?thesis by (auto simp: good_def split: outcome.splits)
  qed
  then show ?case by (simp add: safe_def)
qed (simp add: eats_safe eats_0)

lemma safe_skipTo: "safe n (p_skipTo types)"
  unfolding p_skipTo_def by (intro safe_fuelled) (metis min.cobounded2 safe_mono safe_skipTo_n)

text \<open>The value in a literal token: the first use is right after the token was consumed.\<close>

lemma p_consume_Parsed:
  assumes "p_consume ty s = (Parsed t, s1)" "wf_state s" "ty \<noteq> T_END"
  shows "t = hd (p_tokens s)" "token_type t = ty" "s1 = s\<lparr>p_tokens := tl (p_tokens s)\<rparr>" "wf_state s1" "left s1 < left s"
proof -
  show f: "t = hd (p_tokens s)" "token_type t = ty" "s1 = s\<lparr>p_tokens := tl (p_tokens s)\<rparr>"
    using assms by (auto simp: p_consume_wf pthen_def pbind_def p_reportError_def throw_def split: if_splits)
  then show "wf_state s1" using assms wf_state_tl by auto
  show "left s1 < left s" using f assms(2) by (simp add: wf_state_def)
qed

lemma eats_consume_with:
  fixes g :: "'d token \<Rightarrow> ('d, 'b) parser"
  assumes "\<And>t s. token_ok t \<Longrightarrow> token_type t = ty \<Longrightarrow> wf_state s \<Longrightarrow> left s < n \<Longrightarrow> good False s (g t s)" "ty \<noteq> T_END"
  shows "eats n (pbind (p_consume ty) g)"
proof -
  have "good True s (pbind (p_consume ty) g s)" if s: "wf_state s" "left s \<le> n" for s
  proof (rule good_pbind [where bp = True and bf = False])
    show "good True s (p_consume ty s)" using s by (rule eatsD [OF eats_consume [OF assms(2)]])
    fix t s1 assume "p_consume ty s = (Parsed t, s1)"
    note p = p_consume_Parsed [OF this s(1) assms(2)]
    show "good False s1 (g t s1)" using assms(1) [of t s1] p wf_stateD(3) [OF s(1)] s(2) by simp
  qed simp
  then show ?thesis by (simp add: eats_def)
qed

lemma eats_consume_num:
  "(\<And>x. safe n (f x)) \<Longrightarrow> eats n (pbind (p_consume T_INT_LITERAL) (\<lambda>t. pbind (token_num t) f))"
  by (rule eats_consume_with) (auto simp: token_ok_def token_num_def pbind_def ret_def safe_def)

lemma eats_consume_fnum:
  "(\<And>x. safe n (f x)) \<Longrightarrow> eats n (pbind (p_consume T_FLOAT_LITERAL) (\<lambda>t. pbind (token_fnum t) f))"
  by (rule eats_consume_with) (auto simp: token_ok_def token_fnum_def pbind_def ret_def safe_def)

subsection \<open>Symbols\<close>

lemma insert_symbol_levels: "0 < levels m \<Longrightarrow> \<exists>m'. insert_symbol k v m = Inr m' \<and> levels m' = levels m"
  by (metis scoped.bind_total scoped.depth_bind)

lemma safe_insert: "safe n (p_insert name ty)"
proof -
  have "good False s (p_insert name ty s)" if s: "wf_state s" for s :: "'a pstate"
  proof -
    obtain m where "insert_symbol name ty (p_decls s) = Inr m" "levels m = depth s"
      using insert_symbol_levels s by (metis wf_state_def)
    then show ?thesis using s by (simp add: p_insert_def good_def wf_state_def)
  qed
  then show ?thesis by (simp add: safe_def)
qed

lemma safe_contains: "safe n (p_contains name)"
  by (simp add: safe_def p_contains_def from_result_def contains_symbol_def good_def)

lemma safe_lookup: "safe n (p_lookup name)"
proof -
  have "good False s (p_lookup name s)" if "wf_state s" for s :: "'a pstate"
  proof (cases "contains_scopes (scopes (p_decls s)) name")
    case True
    then obtain v where "get_scopes (scopes (p_decls s)) name = Inr v" using get_scopes_contains by fast
    with True that show ?thesis
      by (simp add: p_lookup_def pbind_def p_contains_def from_result_def contains_symbol_def get_symbol_def ret_def good_def)
  qed (use that in \<open>simp add: p_lookup_def pbind_def p_contains_def from_result_def contains_symbol_def ret_def good_def\<close>)
  then show ?thesis by (simp add: safe_def)
qed

text \<open>A scope opened around a good run is closed again; the handler of a function closes what an error left open.\<close>

lemma p_scope_good: "wf_state s \<Longrightarrow> p_scope s = (Parsed (), s\<lparr>p_decls := scope Map.empty (p_decls s)\<rparr>)"
  "wf_state s \<Longrightarrow> wf_state (s\<lparr>p_decls := scope Map.empty (p_decls s)\<rparr>)"
  by (simp_all add: p_scope_def wf_state_def levels_def scope_def)

lemma p_unscope_good:
  assumes "0 < depth s"
  shows "\<exists>m. p_unscope s = (Parsed (), s\<lparr>p_decls := m\<rparr>) \<and> Suc (levels m) = depth s"
  using assms by (cases "scopes (p_decls s)") (auto simp: p_unscope_def unscope_def levels_def)

lemma good_inScope:
  fixes p :: "('d, 'a) parser"
  assumes s: "wf_state s" and p: "\<And>s1. wf_state s1 \<Longrightarrow> left s1 = left s \<Longrightarrow> good b s1 (p s1)"
  shows "good b s (inScope p s)"
proof -
  let ?s = "s\<lparr>p_decls := scope Map.empty (p_decls s)\<rparr>"
  have d: "depth ?s = Suc (depth s)" by (simp add: levels_def scope_def)
  obtain r s1 where r: "p ?s = (r, s1)" by fastforce
  have g: "good b ?s (r, s1)" using p [of ?s] p_scope_good(2) [OF s] by (simp add: r)
  show ?thesis
  proof (cases r)
    case (Parsed x)
    obtain m where m: "p_unscope s1 = (Parsed (), s1\<lparr>p_decls := m\<rparr>)" "Suc (levels m) = depth s1"
      using p_unscope_good [of s1] g d by (auto simp: good_def)
    have "inScope p s = (Parsed x, s1\<lparr>p_decls := m\<rparr>)"
      using s r m Parsed by (simp add: inScope_def pthen_def pbind_def p_scope_good(1) ret_def)
    then show ?thesis using g m(2) d s Parsed by (auto simp: good_def wf_state_def)
  qed (use g d s r in \<open>auto simp: inScope_def pthen_def pbind_def p_scope_good(1) good_def\<close>)
qed

lemma safe_inScope: "safe n p \<Longrightarrow> safe n (inScope p)"
  unfolding safe_def by (intro allI impI good_inScope) auto

lemma eats_inScope: "eats n p \<Longrightarrow> eats n (inScope p)"
  unfolding eats_def by (intro allI impI good_inScope) auto

lemma p_unscopeTo_n_good:
  assumes "level \<le> depth s" "0 < level" "depth s < level + k"
  shows "\<exists>m. p_unscopeTo_n level k s = (Parsed (), s\<lparr>p_decls := m\<rparr>) \<and> levels m = level"
  using assms
proof (induction k arbitrary: s)
  case (Suc k)
  show ?case
  proof (cases "depth s = level")
    case True
    then show ?thesis by (intro exI [of _ "p_decls s"]) (simp add: ret_def)
  next
    case False
    obtain m where m: "p_unscope s = (Parsed (), s\<lparr>p_decls := m\<rparr>)" "Suc (levels m) = depth s"
      using p_unscope_good [of s] Suc.prems by auto
    have "\<exists>m'. p_unscopeTo_n level k (s\<lparr>p_decls := m\<rparr>) = (Parsed (), s\<lparr>p_decls := m\<rparr>\<lparr>p_decls := m'\<rparr>) \<and> levels m' = level"
      using Suc.prems m(2) False by (intro Suc.IH) auto
    then show ?thesis using False m by (simp add: pthen_def pbind_def)
  qed
qed simp

lemma good_restoringLevels:
  assumes "good b s (p s)" "wf_state s"
  shows "good b s (restoringLevels p s) \<and> left (snd (restoringLevels p s)) = left (snd (p s))"
proof (cases "fst (p s) = SyntaxError")
  case True
  then obtain s1 where p: "p s = (SyntaxError, s1)" by (metis prod.collapse)
  with assms obtain m where m: "p_unscopeTo (depth s) s1 = (Parsed (), s1\<lparr>p_decls := m\<rparr>)" "levels m = depth s"
    using p_unscopeTo_n_good [of "depth s" s1 "Suc (depth s1)"] by (auto simp: p_unscopeTo_def good_def wf_state_def)
  then have "restoringLevels p s = (SyntaxError, s1\<lparr>p_decls := m\<rparr>)"
    by (simp add: restoringLevels_def pcatch_def p pthen_def pbind_def throw_def)
  then show ?thesis using assms p m(2) by (simp add: good_def wf_state_def)
next
  case False
  then have "restoringLevels p s = p s" by (auto simp: restoringLevels_def pcatch_def split: prod.splits outcome.splits)
  then show ?thesis using assms by simp
qed

lemma eats_restoringLevels: "eats n p \<Longrightarrow> eats n (restoringLevels p)"
  by (simp add: eats_def good_restoringLevels)

subsection \<open>Loops\<close>

lemma eats_round:
  "eats (min n (Suc k)) p \<Longrightarrow> (\<And>x. safe (min n k) (f x)) \<Longrightarrow> eats (min n (Suc k)) (pbind p f)"
  unfolding eats_def safe_def
  by (intro allI impI good_pbind [where bp = True and bf = False]) (force simp: good_def)+

lemma eats_round_then: "eats (min n (Suc k)) p \<Longrightarrow> safe (min n k) q \<Longrightarrow> eats (min n (Suc k)) (pthen p q)"
  by (simp add: pthen_def eats_round)

lemmas safe_round = eats_round [THEN eats_safe]
lemmas safe_round_then = eats_round_then [THEN eats_safe]

lemmas safe_rules = safe_ret safe_bind safe_then safe_if safe_option safe_peek safe_tryConsume safe_insert safe_contains
  safe_lookup safe_skipTo safe_inScope eats_consume [THEN eats_safe] eats_unexpected [THEN eats_safe]

lemma eats_sepBy_n: "sep \<noteq> T_END \<Longrightarrow> eats n p \<Longrightarrow> eats (min n k) (p_sepBy_n sep p k)"
proof (induction k)
  case (Suc k)
  then have "eats (min n (Suc k)) p" "safe (min n k) (p_sepBy_n sep p k)" by (simp_all add: eats_mono eats_safe)
  then show ?case using Suc.prems(1) by (auto intro!: eats_round safe_rules)
qed (simp add: eats_0)

lemma eats_sepBy: "sep \<noteq> T_END \<Longrightarrow> eats n p \<Longrightarrow> eats n (p_sepBy sep p)"
  unfolding p_sepBy_def by (intro eats_fuelled eats_sepBy_n)

lemma safe_binary_n: "op T_END = None \<Longrightarrow> eats n p \<Longrightarrow> safe (min n k) (p_binary_n op p k e)"
proof (induction k arbitrary: e)
  case (Suc k)
  have "safe (min n (Suc k)) (pthen (p_consume ty) (pbind p (\<lambda>r. p_binary_n op p k (mk e r))))"
    if "op ty = Some mk" for ty mk
  proof (rule eats_safe, rule eats_round_then)
    show "eats (min n (Suc k)) (p_consume ty)" using that Suc.prems(1) by (auto intro: eats_consume)
    have "safe (min n k) p" using Suc.prems(2) by (simp add: eats_safe eats_mono)
    then show "safe (min n k) (pbind p (\<lambda>r. p_binary_n op p k (mk e r)))"
      using Suc.IH Suc.prems by (intro safe_bind)
  qed
  then show ?case by (auto intro!: safe_bind safe_peek safe_ret split: option.split)
qed (simp add: eats_safe eats_0)

lemma eats_binary: "op T_END = None \<Longrightarrow> eats n p \<Longrightarrow> eats n (p_binary op p)"
  unfolding p_binary_def by (intro eats_bind safe_fuelled safe_binary_n)

subsection \<open>Decisions on the next token\<close>

text \<open>
  \<open>eats_on\<close> restricts the first token; \<open>bites_on\<close> says in addition that a token is gone even when the parser throws, as
  is the case when the parser starts by consuming the token it was chosen for.
\<close>

definition bites_on :: "(TokenType \<Rightarrow> bool) \<Rightarrow> nat \<Rightarrow> ('d, 'a) parser \<Rightarrow> bool" where
  "bites_on c n p \<longleftrightarrow> (\<forall>s. wf_state s \<longrightarrow> left s \<le> n \<longrightarrow> c (front s) \<longrightarrow> good True s (p s) \<and> left (snd (p s)) < left s)"

lemma bites_onD: "bites_on c n p \<Longrightarrow> wf_state s \<Longrightarrow> left s \<le> n \<Longrightarrow> c (front s) \<Longrightarrow> good True s (p s)"
  by (simp add: bites_on_def)

lemma bites_eats_on: "bites_on c n p \<Longrightarrow> eats_on c n p"
  by (simp add: bites_on_def eats_on_def)

lemma eats_on_eats: "eats n p \<longleftrightarrow> eats_on (\<lambda>_. True) n p"
  by (simp add: eats_def eats_on_def)

lemma peek_on:
  assumes "\<And>t. token_ok t \<Longrightarrow> c (token_type t) \<Longrightarrow> eats_on (\<lambda>ty. ty = token_type t) n (f t)"
  shows "eats_on c n (pbind (p_peek 0) f)"
  unfolding eats_on_def
proof (intro allI impI)
  fix s :: "'a pstate" assume s: "wf_state s" "left s \<le> n" "c (front s)"
  then have "good True s (f (hd (p_tokens s)) s)"
    using assms [OF wf_stateD(3) [OF s(1)] s(3)] by (simp add: eats_on_def)
  then show "good True s (pbind (p_peek 0) f s)" using s(1) by (simp add: pbind_def p_peek_0)
qed

lemma eats_peek:
  assumes "\<And>t. token_ok t \<Longrightarrow> eats_on (\<lambda>ty. ty = token_type t) n (f t)"
  shows "eats n (pbind (p_peek 0) f)"
  unfolding eats_on_eats by (rule peek_on) (rule assms)

lemma bites_peek:
  assumes "\<And>t. c (token_type t) \<Longrightarrow> bites_on (\<lambda>ty. ty = token_type t) n (f t)"
  shows "bites_on c n (pbind (p_peek 0) f)"
  using assms by (simp add: bites_on_def pbind_def p_peek_0)

lemma bites_peek_any:
  assumes "\<And>t. bites_on c n (f t)"
  shows "bites_on c n (pbind (p_peek k) f)"
  unfolding bites_on_def
proof (intro allI impI)
  fix s :: "'a pstate" assume s: "wf_state s" "left s \<le> n" "c (front s)"
  obtain t where t: "p_peek k s = (Parsed t, s)" using p_peek_wf [OF s(1)] by blast
  with assms [of t] s show "good True s (pbind (p_peek k) f s) \<and> left (snd (pbind (p_peek k) f s)) < left s"
    by (simp add: pbind_def bites_on_def)
qed

text \<open>A run that starts by dropping the first token and goes on safely.\<close>

lemma bites_drop:
  assumes "safe n q" "wf_state s" "left s \<le> Suc n" "front s \<noteq> T_END" "p s = q (s\<lparr>p_tokens := tl (p_tokens s)\<rparr>)"
  shows "good True s (p s) \<and> left (snd (p s)) < left s"
proof -
  let ?s = "s\<lparr>p_tokens := tl (p_tokens s)\<rparr>"
  have "wf_state ?s" using assms wf_state_tl by blast
  then have g: "good False ?s (q ?s)" using assms(1,3) by (auto intro: safeD)
  have l: "left ?s < left s" using assms(2) by (simp add: wf_state_def)
  have "left (snd (p s)) < left s" unfolding assms(5) using g l by (simp add: good_def)
  then show ?thesis unfolding assms(5) using g l by (auto simp: good_def split: outcome.splits)
qed

lemma bites_consume: "ty \<noteq> T_END \<Longrightarrow> safe n q \<Longrightarrow> bites_on (\<lambda>t. t = ty) (Suc n) (pthen (p_consume ty) q)"
  unfolding bites_on_def by (intro allI impI bites_drop) (auto simp: pthen_def pbind_def p_consume_wf)

lemma bites_tryConsume: "ty \<noteq> T_END \<Longrightarrow> safe n q \<Longrightarrow> bites_on (\<lambda>t. t = ty) (Suc n) (pthen (p_tryConsume ty) q)"
  unfolding bites_on_def by (intro allI impI bites_drop) (auto simp: pthen_def pbind_def p_tryConsume_wf)

lemma bites_noConsume: "bites_on c n q \<Longrightarrow> (\<And>t. c t \<Longrightarrow> t \<noteq> ty) \<Longrightarrow> bites_on c n (pthen (p_tryConsume ty) q)"
  by (auto simp: bites_on_def pthen_def pbind_def p_tryConsume_wf)

lemma bites_skipTo: "bites_on (\<lambda>t. t \<noteq> T_END \<and> t \<notin> set types) n (p_skipTo types)"
proof -
  have "good True s (p_skipTo types s) \<and> left (snd (p_skipTo types s)) < left s"
    if s: "wf_state s" "front s \<noteq> T_END" "front s \<notin> set types" for s :: "'a pstate"
  proof (rule bites_drop [where n = "left s" and q = "p_skipTo_n types (left s)"])
    show "p_skipTo types s = p_skipTo_n types (left s) (s\<lparr>p_tokens := tl (p_tokens s)\<rparr>)"
      using s by (cases "p_tokens s")
        (auto simp: p_skipTo_def fuelled_def pbind_def p_peek_0 pthen_def p_skip_def skip_def wf_state_def list_ex_iff)
  qed (use s safe_skipTo_n in auto)
  then show ?thesis by (simp add: bites_on_def)
qed

lemma bites_bind: "bites_on c (Suc n) p \<Longrightarrow> (\<And>x. safe n (f x)) \<Longrightarrow> bites_on c (Suc n) (pbind p f)"
  unfolding bites_on_def
proof (intro allI impI)
  fix s :: "'a pstate" assume *: "\<forall>s. wf_state s \<longrightarrow> left s \<le> Suc n \<longrightarrow> c (front s) \<longrightarrow> good True s (p s) \<and> left (snd (p s)) < left s"
    "\<And>x. safe n (f x)" "wf_state s" "left s \<le> Suc n" "c (front s)"
  obtain r s1 where r: "p s = (r, s1)" by fastforce
  with * have g: "good True s (r, s1)" "left s1 < left s" by force+
  show "good True s (pbind p f s) \<and> left (snd (pbind p f s)) < left s"
  proof (cases r)
    case (Parsed x)
    have "good False s1 (f x s1)" using g *(2,4) by (intro safeD [of n]) (auto simp: good_def)
    with g Parsed have "good True s (f x s1)" by (metis (full_types) good_trans)
    moreover have "left (snd (f x s1)) \<le> left s1" using \<open>good False s1 (f x s1)\<close> by (simp add: good_def)
    ultimately show ?thesis using r Parsed g by (simp add: pbind_def)
  qed (use g r in \<open>auto simp: pbind_def good_def\<close>)
qed

lemma bites_catch: "bites_on c (Suc n) p \<Longrightarrow> safe n h \<Longrightarrow> bites_on c (Suc n) (pcatch p h)"
  unfolding bites_on_def
proof (intro allI impI)
  fix s :: "'a pstate" assume *: "\<forall>s. wf_state s \<longrightarrow> left s \<le> Suc n \<longrightarrow> c (front s) \<longrightarrow> good True s (p s) \<and> left (snd (p s)) < left s"
    "safe n h" "wf_state s" "left s \<le> Suc n" "c (front s)"
  have g: "good True s (p s)" "left (snd (p s)) < left s" using * by blast+
  have h: "good False s1 (h s1)" if "p s = (SyntaxError, s1)" for s1
    using that g *(2,4) by (intro safeD [of n]) (auto simp: good_def)
  have "left (snd (pcatch p h s)) < left s"
    using g h by (auto simp: pcatch_def good_def split: prod.splits outcome.splits)
  then show "good True s (pcatch p h s) \<and> left (snd (pcatch p h s)) < left s"
    using g h by (auto intro!: good_pcatch [where b' = False])
qed


lemma eats_on_if: "(c \<Longrightarrow> eats_on d n p) \<Longrightarrow> (\<not> c \<Longrightarrow> eats_on d n q) \<Longrightarrow> eats_on d n (if c then p else q)"
  by simp

lemma bites_restoringLevels: "bites_on c n p \<Longrightarrow> bites_on c n (restoringLevels p)"
  unfolding bites_on_def by (metis good_restoringLevels)

end
