(* ===== verification/Parser_Total.thy ===== *)
theory Parser_Total
  imports Parser_Logic
begin

text \<open>
  The parser is total: each parsing method follows the logic of \<open>Parser_Logic\<close>, with the number of tokens left as the
  bound on the recursion, and so does the whole parser.
\<close>

section \<open>Types and literals\<close>

lemma eats_parseIdent: "eats n parseIdent"
  unfolding parseIdent_def by (auto intro!: eats_bind eats_consume safe_ret)

lemma eats_parseSetIndexSet: "eats n parseSetIndexSet"
  unfolding parseSetIndexSet_def Let_def by (auto intro!: eats_bind eats_consume safe_rules)

lemma eats_parseIndexSet: "eats n parseIndexSet"
  unfolding parseIndexSet_def
  by (auto intro!: eats_later safe_peek eats_consume_num safe_ret eats_parseSetIndexSet eats_unexpected)

lemma eats_parseIndexSets: "eats n parseIndexSets"
  unfolding parseIndexSets_def by (simp add: eats_sepBy eats_parseIndexSet)

lemma eats_parseElementType: "eats n parseElementType"
  unfolding parseElementType_def by (auto intro!: eats_bind eats_consume safe_ret)

lemma eats_parseEndpoint: "eats n parseEndpoint"
  by (simp add: parseEndpoint_def eats_parseSetIndexSet)

lemma eats_parseEndpoints: "eats n parseEndpoints"
  unfolding parseEndpoints_def by (simp add: eats_sepBy eats_parseEndpoint)

lemma eats_parseTupleLength: "eats n (parseTupleLength :: ('d, int) parser)"
proof -
  have "(parseTupleLength :: ('d, int) parser) = pbind (p_consume T_INT_LITERAL) (\<lambda>t. pbind (token_num t) ret)"
    by (rule ext) (simp add: parseTupleLength_def pbind_def ret_def split: prod.split outcome.split)
  then show ?thesis by (metis eats_consume_num safe_ret)
qed

lemmas eats_parts = eats_parseIdent eats_parseSetIndexSet eats_parseIndexSet eats_parseIndexSets eats_parseElementType
  eats_parseEndpoint eats_parseEndpoints eats_parseTupleLength

lemmas method_rules = safe_rules eats_parts eats_parts [THEN eats_safe] eats_consume eats_then eats_bind eats_consume_num
  eats_consume_fnum eats_consume_num [THEN eats_safe] eats_consume_fnum [THEN eats_safe] eats_unexpected

lemma eats_parseUnstructuredSetType: "eats n parseUnstructuredSetType"
  unfolding parseUnstructuredSetType_def by (auto intro!: method_rules)

lemma eats_parseGridSetType: "eats n parseGridSetType"
  unfolding parseGridSetType_def by (auto intro!: method_rules)

lemma eats_parseTupleElement: "eats n parseTupleElement"
  unfolding parseTupleElement_def by (auto intro!: method_rules)

lemma eats_parseNamedTupleType: "eats n parseNamedTupleType"
  unfolding parseNamedTupleType_def
  by (auto intro!: method_rules eats_sepBy [THEN eats_safe] eats_parseTupleElement)

lemma eats_parseUnnamedTupleType: "eats n parseUnnamedTupleType"
  unfolding parseUnnamedTupleType_def by (auto intro!: method_rules)

lemma eats_parseTensorComponentType: "eats n parseTensorComponentType"
  unfolding parseTensorComponentType_def by (rule eats_later [OF safe_peek]) (auto intro!: method_rules)

lemma eats_parseScalarType: "eats n parseScalarType"
  unfolding parseScalarType_def
  by (rule eats_later [OF safe_peek]) (auto intro!: method_rules eats_parseTensorComponentType)

lemmas safe_parseScalarType = eats_parseScalarType [THEN eats_safe]

lemma eats_parseVectorBlockType_n: "eats (min n k) (parseVectorBlockType_n k)"
proof (induction k)
  case (Suc k)
  show ?case
    by (simp, rule eats_round_then) (use eats_safe [OF Suc] in \<open>auto intro!: method_rules safe_parseScalarType\<close>)
qed (simp add: eats_0)

lemma eats_parseMatrixBlockType_n: "eats (min n k) (parseMatrixBlockType_n k)"
proof (induction k)
  case (Suc k)
  show ?case
    by (simp, rule eats_round_then) (use eats_safe [OF Suc] in \<open>auto intro!: method_rules safe_parseScalarType\<close>)
qed (simp add: eats_0)

lemma eats_parseTensorBlockType_n: "eats (min n k) (parseTensorBlockType_n k)"
proof (induction k)
  case (Suc k)
  show ?case
    by (simp, rule eats_round_then) (use eats_safe [OF Suc] in \<open>auto intro!: method_rules safe_parseScalarType\<close>)
qed (simp add: eats_0)

lemma eats_parseBlockTypes: "eats n parseVectorBlockType" "eats n parseMatrixBlockType" "eats n parseTensorBlockType"
  unfolding parseVectorBlockType_def parseMatrixBlockType_def parseTensorBlockType_def
  by (intro eats_fuelled eats_parseVectorBlockType_n eats_parseMatrixBlockType_n eats_parseTensorBlockType_n)+

lemma eats_parseTensorType: "eats n parseTensorType"
  unfolding parseTensorType_def
  by (rule eats_later [OF safe_peek]) (auto intro!: method_rules eats_parseScalarType eats_parseBlockTypes)

lemma eats_parseType: "eats n parseType"
proof -
  have tuple: "eats n (pbind (p_peek 2) (\<lambda>t2. if token_type t2 = T_COL then parseNamedTupleType else parseUnnamedTupleType))"
    by (rule eats_later [OF safe_peek]) (simp add: eats_parseNamedTupleType eats_parseUnnamedTupleType)
  show ?thesis
    unfolding parseType_def Let_def
    by (rule eats_later [OF safe_peek])
      (auto intro!: tuple method_rules eats_parseUnstructuredSetType eats_parseGridSetType eats_parseTensorType)
qed

lemma safe_parseSign: "safe n parseSign"
  unfolding parseSign_def by (auto intro!: method_rules)

lemma eats_parseSignedIntLiteral: "eats n parseSignedIntLiteral"
  unfolding parseSignedIntLiteral_def by (rule eats_later [OF safe_parseSign]) (intro eats_consume_num safe_ret)

lemma eats_parseSignedFloatLiteral: "eats n parseSignedFloatLiteral"
  unfolding parseSignedFloatLiteral_def
  by (rule eats_later [OF safe_parseSign]) (intro eats_consume_fnum, simp add: safe_def ret_def good_def)

lemma eats_parseComplexLiteral: "eats n parseComplexLiteral"
  unfolding parseComplexLiteral_def by (auto intro!: method_rules eats_parseSignedFloatLiteral [THEN eats_safe])

lemma safe_elems_n: "eats n p \<Longrightarrow> safe (min n k) (p_elems_n starts p k)"
proof (induction k)
  case (Suc k)
  have p: "eats (min n (Suc k)) p" "safe (min n k) p" using Suc.prems by (auto intro: eats_mono intro!: eats_safe)
  have rest: "safe (min n k) (pbind (p_elems_n starts p k) (\<lambda>xs. ret (x # xs)))" for x
    using Suc by (auto intro: safe_bind safe_ret)
  have elem: "safe (min n (Suc k)) (pbind p (\<lambda>x. pbind (p_elems_n starts p k) (\<lambda>xs. ret (x # xs))))"
    using p rest by (intro safe_round)
  have "safe (min n (Suc k))
    (pthen (p_consume T_COMMA) (pbind p (\<lambda>x. pbind (p_elems_n starts p k) (\<lambda>xs. ret (x # xs)))))"
    using safe_bind [OF p(2) rest] by (intro safe_round_then eats_consume) simp_all
  with elem show ?case by (auto intro!: safe_bind safe_peek safe_ret)
qed (simp add: eats_safe eats_0)

lemma eats_elems: "eats n p \<Longrightarrow> eats n (p_elems starts p)"
  unfolding p_elems_def by (intro eats_bind safe_bind safe_fuelled safe_elems_n safe_ret)

lemma eats_parseDenseVectorLiteral: "eats n parseDenseVectorLiteral"
proof -
  have vec: "eats n parseDenseIntVectorLiteral" "eats n parseDenseFloatVectorLiteral" "eats n parseDenseComplexVectorLiteral"
    unfolding parseDenseIntVectorLiteral_def parseDenseFloatVectorLiteral_def parseDenseComplexVectorLiteral_def
    by (intro eats_bind eats_elems safe_ret eats_parseSignedIntLiteral eats_parseSignedFloatLiteral eats_parseComplexLiteral)+
  have "eats n (pbind (p_peek 1) (\<lambda>t1. if token_type t1 = T_INT_LITERAL then parseDenseIntVectorLiteral
       else if token_type t1 = T_FLOAT_LITERAL then parseDenseFloatVectorLiteral else p_unexpected ''a vector literal''))"
    by (rule eats_later [OF safe_peek]) (simp add: vec eats_unexpected)
  with vec show ?thesis
    unfolding parseDenseVectorLiteral_def Let_def by (intro eats_later [OF safe_peek]) (auto intro: eats_unexpected)
qed

lemma eats_parseDenseMatrixLiteral: "eats n parseDenseMatrixLiteral"
  unfolding parseDenseMatrixLiteral_def
  by (auto intro!: eats_bind eats_sepBy eats_parseDenseVectorLiteral safe_ret)

lemma eats_parseDenseTensorLiteral_n:
  "eats (min n k) (parseDenseTensorLiteral_n k :: ('d, 'd dense_literal) parser)"
proof (induction k)
  case (Suc k)
  have "eats (min n k) (parseDenseTensorLiteralInner (parseDenseTensorLiteral_n k :: ('d, 'd dense_literal) parser))"
    unfolding parseDenseTensorLiteralInner_def
    by (rule eats_later [OF safe_peek]) (auto intro!: eats_bind eats_elems Suc safe_ret eats_parseDenseMatrixLiteral)
  then show ?case by (simp, intro eats_round_then) (auto intro!: method_rules intro: eats_safe)
qed (simp add: eats_0)

lemma eats_parseTensorLiteral: "eats n parseTensorLiteral"
proof -
  have "eats n parseDenseTensorLiteral"
    unfolding parseDenseTensorLiteral_def by (intro eats_fuelled eats_parseDenseTensorLiteral_n)
  then show ?thesis
    unfolding parseTensorLiteral_def Let_def
    by (intro eats_later [OF safe_peek]) (auto intro!: method_rules eats_parseComplexLiteral)
qed

section \<open>Expressions\<close>

lemma eats_parseExprParams: "eats n pE \<Longrightarrow> eats n (parseExprParams pE)"
  unfolding parseExprParams_def by (simp add: eats_sepBy)

lemma eats_parseReadParams:
  assumes "eats n pE"
  shows "eats n (parseReadParams pE)"
proof -
  have "eats n (parseReadParam pE)"
    unfolding parseReadParam_def using assms by (intro eats_later [OF safe_peek]) (auto intro!: method_rules)
  then show ?thesis unfolding parseReadParams_def by (simp add: eats_sepBy)
qed

lemma safe_parseGenericArgs: "safe n parseGenericArgs"
  unfolding parseGenericArgs_def by (auto intro!: method_rules)

lemma safe_parsePartialActuals: "eats n pE \<Longrightarrow> safe n (parsePartialActuals pE)"
  unfolding parsePartialActuals_def by (auto intro!: method_rules eats_parseExprParams [THEN eats_safe])

lemma eats_parseVarExpr: "eats n parseVarExpr"
  unfolding parseVarExpr_def by (auto intro!: method_rules)

lemma eats_parseRangeConst: "eats n parseRangeConst"
  unfolding parseRangeConst_def by (auto intro!: method_rules)

lemma eats_parseCallExpr: "eats n pE \<Longrightarrow> eats (Suc n) (parseCallExpr pE)"
  unfolding parseCallExpr_def
  by (rule eats_first) (auto intro!: method_rules safe_parseGenericArgs eats_parseExprParams [THEN eats_safe])

lemma eats_parseUnnamedTupleReadExpr: "eats n pE \<Longrightarrow> eats (Suc n) (parseUnnamedTupleReadExpr pE)"
  unfolding parseUnnamedTupleReadExpr_def
  by (rule eats_first) (auto intro!: method_rules eats_parseVarExpr intro: eats_safe)

lemma eats_parseNamedTupleReadExpr: "eats n parseNamedTupleReadExpr"
  unfolding parseNamedTupleReadExpr_def by (auto intro!: method_rules eats_parseVarExpr)

lemma safe_startsGenericCall: "safe n startsGenericCall"
  unfolding startsGenericCall_def by (intro safe_bind safe_peek safe_ret)

lemma eats_parseIdentFactor: "eats n pE \<Longrightarrow> eats (Suc n) (parseIdentFactor pE)"
  unfolding parseIdentFactor_def
  by (intro eats_later [OF safe_startsGenericCall] eats_if eats_later [OF safe_peek] eats_later [OF safe_lookup])
    (auto intro: eats_parseCallExpr eats_parseUnnamedTupleReadExpr eats_parseNamedTupleReadExpr eats_parseVarExpr
      eats_parseRangeConst split: option.split IdentType.split)

lemma eats_parseFactor: "eats n pE \<Longrightarrow> eats (Suc n) (parseFactor pE)"
  unfolding parseFactor_def
  by (intro eats_later [OF safe_peek] eats_if eats_then_first eats_consume safe_bind)
    (auto intro: eats_safe eats_parseIdentFactor eats_parseTensorLiteral eats_unexpected intro!: safe_rules)

lemma eats_parseSetReadExpr: "eats n pE \<Longrightarrow> eats (Suc n) (parseSetReadExpr pE)"
  unfolding parseSetReadExpr_def
  by (rule eats_first) (auto intro!: eats_parseFactor safe_rules eats_parseExprParams [THEN eats_safe])

lemma eats_parseFieldReadExpr: "eats n pE \<Longrightarrow> eats (Suc n) (parseFieldReadExpr pE)"
  unfolding parseFieldReadExpr_def by (rule eats_first) (auto intro!: eats_parseSetReadExpr method_rules)

lemma safe_tensorReads_n: "eats n pE \<Longrightarrow> safe (min n k) (p_tensorReads_n pE k e)"
proof (induction k arbitrary: e)
  case (Suc k)
  have "safe (min n (Suc k)) (parseReadParams pE)" using Suc.prems by (auto intro!: eats_safe eats_parseReadParams intro: eats_mono)
  moreover have "safe (min n (Suc k)) (pthen (p_consume T_RP) (p_tensorReads_n pE k e'))" for e'
    using Suc by (intro safe_round_then eats_consume) auto
  ultimately show ?case by (auto intro!: safe_bind safe_tryConsume safe_peek safe_ret)
qed (simp add: eats_safe eats_0)

lemma eats_parseTensorReadExpr: "eats n pE \<Longrightarrow> eats (Suc n) (parseTensorReadExpr pE)"
  unfolding parseTensorReadExpr_def
  by (intro eats_first eats_parseFieldReadExpr safe_fuelled safe_tensorReads_n)

lemma safe_transposes_n: "safe (min n k) (p_transposes_n k (e :: 'd fir_expr))"
proof (induction k arbitrary: e)
  case (Suc k)
  have "safe (min n (Suc k)) (pthen (p_consume T_TRANSPOSE) (p_transposes_n k e'))" for e' :: "'d fir_expr"
    using Suc by (intro safe_round_then eats_consume) auto
  then show ?case by (auto intro!: safe_bind safe_peek safe_ret)
qed (simp add: eats_safe eats_0)

lemma eats_parseTransposeExpr: "eats n pE \<Longrightarrow> eats (Suc n) (parseTransposeExpr pE)"
  unfolding parseTransposeExpr_def by (intro eats_first eats_parseTensorReadExpr safe_fuelled safe_transposes_n)

lemma eats_parseExpExpr_n: "eats n pE \<Longrightarrow> eats (min (Suc n) k) (parseExpExpr_n pE k)"
proof (induction k)
  case (Suc k)
  then have "eats (min (Suc n) (Suc k)) (parseTransposeExpr pE)" by (metis eats_mono eats_parseTransposeExpr min.cobounded1)
  moreover have "safe (min (Suc n) k) (parseExpExpr_n pE k)" using Suc by (intro eats_safe)
  ultimately show ?case unfolding parseExpExpr_n.simps by (intro eats_round) (auto intro!: safe_rules)
qed (simp add: eats_0)

lemma eats_parseExpExpr: "eats n pE \<Longrightarrow> eats (Suc n) (parseExpExpr pE)"
  unfolding parseExpExpr_def by (intro eats_fuelled eats_parseExpExpr_n)

lemma eats_parseNegExpr_n: "eats n pE \<Longrightarrow> eats (min (Suc n) k) (parseNegExpr_n pE k)"
proof (induction k)
  case (Suc k)
  then have e: "eats (min (Suc n) (Suc k)) (parseExpExpr pE)" by (metis eats_mono eats_parseExpExpr min.cobounded1)
  have s: "safe (min (Suc n) k) (parseNegExpr_n pE k)" using Suc by (intro eats_safe)
  have "eats (min (Suc n) (Suc k)) (pthen (p_consume ty) (pbind (parseNegExpr_n pE k) (\<lambda>x. ret (f x))))" if "ty \<noteq> T_END" for ty f
    using that s by (intro eats_round_then eats_consume safe_bind safe_ret)
  with e show ?case unfolding parseNegExpr_n.simps by (intro eats_later [OF safe_peek]) auto
qed (simp add: eats_0)

lemma eats_parseNegExpr: "eats n pE \<Longrightarrow> eats (Suc n) (parseNegExpr pE)"
  unfolding parseNegExpr_def by (intro eats_fuelled eats_parseNegExpr_n)

lemma eats_parseAddExpr: "eats n pE \<Longrightarrow> eats (Suc n) (parseAddExpr pE)"
  unfolding parseAddExpr_def parseMulExpr_def by (intro eats_binary eats_parseNegExpr) simp_all

lemma eats_parseTerm_n: "eats n pE \<Longrightarrow> eats (min (Suc n) k) (parseTerm_n pE k)"
proof (induction k)
  case (Suc k)
  then have "eats (min (Suc n) (Suc k)) (parseAddExpr pE)" by (metis eats_mono eats_parseAddExpr min.cobounded1)
  moreover have "safe (min (Suc n) k) (parseTerm_n pE k)" using Suc by (intro eats_safe)
  then have "eats (min (Suc n) (Suc k)) (pthen (p_consume T_NOT) (pbind (parseTerm_n pE k) (\<lambda>x. ret (NotExpr x))))"
    by (intro eats_round_then eats_consume safe_bind safe_ret) simp_all
  ultimately show ?case unfolding parseTerm_n.simps by (intro eats_later [OF safe_peek]) auto
qed (simp add: eats_0)

lemma eats_parseTerm: "eats n pE \<Longrightarrow> eats (Suc n) (parseTerm pE)"
  unfolding parseTerm_def by (intro eats_fuelled eats_parseTerm_n)

lemma safe_comparisons_n: "eats n p \<Longrightarrow> safe (min n k) (p_comparisons_n p k)"
proof (induction k)
  case (Suc k)
  have p: "safe (min n k) p" using Suc.prems by (auto intro: eats_mono intro!: eats_safe)
  have "safe (min n (Suc k))
    (pthen (p_consume ty) (pbind p (\<lambda>x. pbind (p_comparisons_n p k) (\<lambda>xs. ret ((op, x) # xs)))))" if "ty \<noteq> T_END" for ty op
    using Suc p that by (intro safe_round_then eats_consume safe_bind safe_ret) auto
  then show ?case by (auto intro!: safe_bind safe_peek safe_ret split: option.split)
qed (simp add: eats_safe eats_0)

lemma eats_parseEqExpr: "eats n pE \<Longrightarrow> eats (Suc n) (parseEqExpr pE)"
  unfolding parseEqExpr_def by (intro eats_bind eats_parseTerm safe_bind safe_fuelled safe_comparisons_n safe_ret)

lemma eats_parseOrExpr: "eats n pE \<Longrightarrow> eats (Suc n) (parseOrExpr pE)"
  unfolding parseOrExpr_def parseAndExpr_def parseXorExpr_def
  by (intro eats_binary eats_parseEqExpr) (simp_all add: singleOp_def)

lemma eats_parseMapExpr: "eats n pE \<Longrightarrow> eats (Suc n) (parseMapExpr pE)"
  unfolding parseMapExpr_def
  by (rule eats_then_first) (auto intro!: method_rules safe_parseGenericArgs safe_parsePartialActuals)

lemma eats_parseExpr_n: "eats k (parseExpr_n k)"
proof (induction k)
  case (Suc k)
  then show ?case
    by (auto intro!: eats_later [OF safe_peek] eats_parseMapExpr eats_parseOrExpr)
qed (simp add: eats_0)

lemma eats_parseExpr: "eats n parseExpr"
  unfolding parseExpr_def by (rule eats_fuelled) (metis eats_mono eats_parseExpr_n min.cobounded2)

section \<open>Declarations\<close>

lemma eats_parseIdentDecl: "eats n parseIdentDecl"
  unfolding parseIdentDecl_def by (auto intro!: method_rules eats_parseType [THEN eats_safe])

lemma eats_parseTensorDecl: "eats n parseTensorDecl"
  unfolding parseTensorDecl_def by (auto intro!: method_rules eats_parseTensorType [THEN eats_safe])

lemma eats_skipStatement: "eats n skipStatement"
  unfolding skipStatement_def by (rule eats_then_later [OF safe_skipTo]) (auto intro!: method_rules)

lemma eats_skipBlock: "eats n skipBlock"
  unfolding skipBlock_def by (rule eats_then_later [OF safe_skipTo]) (auto intro!: method_rules)

lemmas safe_operands = eats_parseExpr [THEN eats_safe] eats_parseTensorType [THEN eats_safe]

lemma eats_parseVarDecl: "eats n parseVarDecl"
  unfolding parseVarDecl_def
  by (rule eats_catch [OF _ eats_skipStatement]) (auto intro!: method_rules safe_operands)

lemma bites_parseConstDecl: "bites_on (\<lambda>t. t = T_CONST) (Suc n) parseConstDecl"
  unfolding parseConstDecl_def
  by (intro bites_catch bites_consume eats_skipStatement [THEN eats_safe]) (auto intro!: method_rules safe_operands)

lemma eats_parseConstDecl: "eats n parseConstDecl"
  unfolding parseConstDecl_def
  by (rule eats_catch [OF _ eats_skipStatement]) (auto intro!: method_rules safe_operands)

lemma eats_parseIVarDecl: "eats n parseIVarDecl"
  unfolding parseIVarDecl_def by (rule eats_catch [OF _ eats_skipStatement]) (auto intro!: method_rules)

section \<open>Statements\<close>

lemma safe_while_n: "eats_on cond n p \<Longrightarrow> safe (min n k) (p_while_n cond p k)"
proof (induction k)
  case (Suc k)
  note IH = Suc.IH [OF Suc.prems]
  have "good False s (p_while_n cond p (Suc k) s)" if s: "wf_state s" "left s \<le> min n (Suc k)" for s
  proof (cases "cond (front s)")
    case True
    have p: "good True s (p s)" using Suc.prems s True by (simp add: eats_on_def)
    have "good False s (pbind p (\<lambda>x. pbind (p_while_n cond p k) (\<lambda>xs. ret (x # xs))) s)"
    proof (rule good_pbind [where bp = True and bf = False])
      show "good True s (p s)" by (rule p)
     next
      fix x s1 assume "p s = (Parsed x, s1)"
      then show "good False s1 (pbind (p_while_n cond p k) (\<lambda>xs. ret (x # xs)) s1)"
        using p s by (intro safeD [OF safe_bind [OF IH safe_ret]]) (auto simp: good_def)
    qed simp
    with True s(1) show ?thesis by (simp add: pbind_def p_peek_0)
  qed (use s in \<open>simp add: pbind_def p_peek_0 ret_def good_def\<close>)
  then show ?case by (simp add: safe_def)
qed (simp add: eats_safe eats_0)

lemma safe_while: "eats_on cond n p \<Longrightarrow> safe n (p_while cond p)"
  unfolding p_while_def by (intro safe_fuelled safe_while_n)

lemma safe_parseStmtBlock: "eats n pS \<Longrightarrow> safe n (parseStmtBlock pS)"
  unfolding parseStmtBlock_def by (intro safe_bind safe_while safe_ret eats_on_True)

lemma eats_parseWhileStmt: "eats n pS \<Longrightarrow> eats (Suc n) (parseWhileStmt pS)"
  unfolding parseWhileStmt_def
  by (intro eats_catch [OF _ eats_skipBlock] eats_then_first)
    (auto intro!: method_rules safe_operands safe_parseStmtBlock)

lemma bites_parseDoWhileStmt: "eats n pS \<Longrightarrow> bites_on (\<lambda>t. t = T_DO) (Suc n) (parseDoWhileStmt pS)"
  unfolding parseDoWhileStmt_def
  by (intro bites_catch bites_consume) (auto intro!: method_rules safe_operands safe_parseStmtBlock)

lemma safe_parseElseClause_n: "eats n pS \<Longrightarrow> safe (min n k) (parseElseClause_n pS k)"
proof (induction k)
  case (Suc k)
  note IH = Suc.IH [OF Suc.prems]
  have block: "safe m (parseStmtBlock pS)" if "m \<le> n" for m using Suc.prems that by (metis eats_mono safe_parseStmtBlock)
  let ?elif = "pcatch
         (pthen (p_consume T_ELIF)
          (pbind parseExpr (\<lambda>cond.
           pbind (inScope (parseStmtBlock pS)) (\<lambda>ifBody.
           pbind (inScope (parseElseClause_n pS k)) (\<lambda>elseBody.
           ret (Some (IfStmt cond ifBody elseBody)))))))
         (pthen (p_skipTo [T_ELIF, T_ELSE, T_BLOCKEND])
            (pthen (inScope (parseElseClause_n pS k)) (ret None)))"
  have elif: "bites_on (\<lambda>t. t = T_ELIF) (Suc (min n k)) ?elif"
    by (intro bites_catch bites_consume) (auto intro!: method_rules safe_operands block IH)
  have "good False s (parseElseClause_n pS (Suc k) s)" if s: "wf_state s" "left s \<le> min n (Suc k)" for s
  proof (cases "front s = T_ELSE")
    case True
    have "safe (min n (Suc k)) (pthen (p_consume T_ELSE) (pbind (parseStmtBlock pS) (\<lambda>b. ret (Some b))))"
      by (auto intro!: method_rules block)
    from safeD [OF this s] True s(1) show ?thesis by (simp add: pbind_def p_peek_0)
  next
    case False
    show ?thesis
    proof (cases "front s = T_ELIF")
      case True
      have "good False s (?elif s)"
        by (rule good_weaken, rule bites_onD [OF elif s(1)]) (use s(2) True in auto)
      with True s(1) show ?thesis by (simp add: pbind_def p_peek_0)
    next
      case F: False
      with False s show ?thesis by (simp add: pbind_def p_peek_0 ret_def good_def)
    qed
  qed
  then show ?case by (simp add: safe_def)
qed (simp add: eats_safe eats_0)

lemma safe_parseElseClause: "eats n pS \<Longrightarrow> safe n (parseElseClause pS)"
  unfolding parseElseClause_def by (intro safe_fuelled safe_parseElseClause_n)

lemma bites_parseIfStmt: "eats n pS \<Longrightarrow> bites_on (\<lambda>t. t = T_IF) (Suc n) (parseIfStmt pS)"
  unfolding parseIfStmt_def
  by (intro bites_catch bites_consume) (auto intro!: method_rules safe_operands safe_parseStmtBlock safe_parseElseClause)

lemma eats_parseForDomain: "eats n parseForDomain"
  unfolding parseForDomain_def
  by (intro eats_later [OF safe_peek] eats_if) (auto intro!: method_rules safe_operands eats_parseExpr)

lemma eats_parseForStmt: "eats n pS \<Longrightarrow> eats (Suc n) (parseForStmt pS)"
  unfolding parseForStmt_def
  by (intro eats_catch [OF _ eats_skipBlock] eats_then_first)
    (auto intro!: method_rules eats_parseForDomain [THEN eats_safe] safe_parseStmtBlock)

lemma eats_parsePrintStmt: "eats n parsePrintStmt"
  unfolding parsePrintStmt_def
  by (rule eats_catch [OF _ eats_skipStatement], rule eats_later [OF safe_peek])
    (auto intro!: method_rules eats_sepBy [THEN eats_safe] eats_parseExpr)

lemma eats_parseApplyStmt: "eats n parseApplyStmt"
  unfolding parseApplyStmt_def
  by (rule eats_catch [OF _ eats_skipStatement])
    (auto intro!: method_rules safe_parseGenericArgs safe_parsePartialActuals eats_parseExpr)

lemma safe_declare: "safe n (p_declare es)"
  by (induction es) (auto intro!: safe_rules)

lemma eats_parseExprOrAssignStmt: "eats n parseExprOrAssignStmt"
proof -
  have more: "safe n (p_while (\<lambda>ty. ty = T_COMMA) (pthen (p_consume T_COMMA) parseExpr))" for n
    by (auto intro!: safe_while eats_on_True method_rules safe_operands)
  show ?thesis
    unfolding parseExprOrAssignStmt_def
    by (rule eats_catch [OF _ eats_skipStatement], rule eats_later [OF safe_peek], rule eats_later)
      (auto intro!: method_rules safe_operands more safe_declare simp del: p_declare.simps)
qed

lemma eats_parseStmt_n: "eats k (parseStmt_n k)"
proof (induction k)
  case (Suc k)
  show ?case
    unfolding parseStmt_n.simps Let_def
    by (rule eats_peek)
      (auto intro: bites_eats_on [OF bites_parseIfStmt] bites_eats_on [OF bites_parseDoWhileStmt] Suc eats_on_True
        eats_parseVarDecl eats_parseConstDecl eats_parseIVarDecl eats_parseWhileStmt eats_parseForStmt eats_parsePrintStmt
        eats_parseApplyStmt eats_parseExprOrAssignStmt)
qed (simp add: eats_0)

lemma eats_parseStmt: "eats n parseStmt"
  unfolding parseStmt_def by (rule eats_fuelled) (metis eats_mono eats_parseStmt_n min.cobounded2)

section \<open>Programs\<close>

lemma eats_parseFieldDecl: "eats n parseFieldDecl"
  unfolding parseFieldDecl_def by (auto intro!: method_rules eats_parseTensorDecl)

lemma bites_parseElementTypeDecl: "bites_on (\<lambda>t. t = T_ELEMENT) (Suc n) parseElementTypeDecl"
  unfolding parseElementTypeDecl_def parseFieldDeclList_def
  by (intro bites_consume) (auto intro!: method_rules safe_while eats_on_True eats_parseFieldDecl)

lemma eats_parseGenericParam: "eats n (parseGenericParam :: ('d, string \<times> generic_type) parser)"
proof -
  have rest: "eats m (pbind (if token_type t = T_INT_LITERAL then pbind (token_num t) (\<lambda>n. ret (n = 0)) else ret False) f)"
    if "token_ok t" "\<And>b. eats m (f b)" for m t and f :: "bool \<Rightarrow> ('d, 'a) parser"
  proof (rule eats_later)
    show "safe m (if token_type t = T_INT_LITERAL then pbind (token_num t) (\<lambda>n. ret (n = 0)) else ret False)"
      using that(1) by (auto simp: token_ok_def token_num_def intro!: safe_rules)
  qed (rule that(2))
  show ?thesis
    unfolding parseGenericParam_def Let_def
    by (rule eats_peek, rule eats_on_True, rule rest, assumption, rule eats_then_later) (auto intro!: method_rules)
qed

lemma safe_parseGenericParams: "safe n parseGenericParams"
  unfolding parseGenericParams_def by (auto intro!: method_rules eats_sepBy [THEN eats_safe] eats_parseGenericParam)

lemma eats_parseArgumentDecl: "eats n parseArgumentDecl"
  unfolding parseArgumentDecl_def
  by (rule eats_later [OF safe_peek], rule eats_later) (auto intro!: method_rules eats_parseIdentDecl)

lemma safe_parseArguments: "safe n parseArguments"
  unfolding parseArguments_def by (auto intro!: method_rules eats_sepBy [THEN eats_safe] eats_parseArgumentDecl)

lemma safe_parseResults: "safe n parseResults"
  unfolding parseResults_def
  by (auto intro!: method_rules eats_sepBy [THEN eats_safe] eats_parseIdentDecl eats_parseIdentDecl [THEN eats_safe])

lemmas safe_signature = safe_parseGenericParams safe_parseArguments safe_parseResults

lemma bites_parseExternDecl: "bites_on (\<lambda>t. t = T_EXTERN) (Suc n) parseExternDecl"
  unfolding parseExternDecl_def by (intro bites_consume) (auto intro!: method_rules eats_parseIdentDecl [THEN eats_safe])

lemma bites_parseExternFuncDecl: "bites_on (\<lambda>t. t = T_EXTERN) (Suc n) parseExternFuncDecl"
  unfolding parseExternFuncDecl_def
  by (intro bites_restoringLevels bites_consume) (auto intro!: method_rules safe_signature)

lemma bites_parseExternFuncOrDecl: "bites_on (\<lambda>t. t = T_EXTERN) (Suc n) parseExternFuncOrDecl"
  unfolding parseExternFuncOrDecl_def
  by (intro bites_peek_any) (simp add: bites_parseExternFuncDecl bites_parseExternDecl)

lemma bites_parseFuncDecl: "bites_on (\<lambda>t. t = T_EXPORT \<or> t = T_FUNC) (Suc n) parseFuncDecl"
proof -
  let ?head = "\<lambda>q. pthen (p_tryConsume T_EXPORT) (pthen (p_consume T_FUNC) q)"
  have head: "bites_on (\<lambda>ty. ty = token_type t) (Suc n) (?head q)"
    if "token_type t = T_EXPORT \<or> token_type t = T_FUNC" "safe n q" for t :: "'a token" and q :: "('a, 'b) parser"
    using that(1)
  proof
    assume "token_type t = T_EXPORT"
    with that(2) show ?thesis by (auto intro!: bites_tryConsume safe_then eats_consume [THEN eats_safe])
  next
    assume "token_type t = T_FUNC"
    with that(2) show ?thesis by (auto intro!: bites_noConsume bites_consume)
  qed
  show ?thesis
    unfolding parseFuncDecl_def
    by (intro bites_restoringLevels bites_peek head)
      (auto intro!: method_rules safe_signature safe_parseStmtBlock eats_parseStmt)
qed

lemma bites_parseTest: "bites_on (\<lambda>t. t = T_TEST) (Suc n) parseTest"
  unfolding parseTest_def
  by (intro bites_consume) (auto intro!: method_rules safe_operands eats_parseExprParams [THEN eats_safe] eats_parseExpr)

definition starts_element :: "TokenType \<Rightarrow> bool" where
  "starts_element ty \<longleftrightarrow> ty \<in> {T_TEST, T_FUNC, T_EXPORT, T_ELEMENT, T_EXTERN, T_CONST}"

lemma bites_weaken: "bites_on c n p \<Longrightarrow> (\<And>t. d t \<Longrightarrow> c t) \<Longrightarrow> bites_on d n p"
  by (simp add: bites_on_def)

lemma bites_onD2:
  "bites_on c n p \<Longrightarrow> wf_state s \<Longrightarrow> left s \<le> n \<Longrightarrow> c (front s) \<Longrightarrow> good True s (p s) \<and> left (snd (p s)) < left s"
  by (simp add: bites_on_def)

lemma bites_mono: "bites_on c n p \<Longrightarrow> m \<le> n \<Longrightarrow> bites_on c m p"
  by (simp add: bites_on_def)

lemma bites_parseProgramElement:
  "bites_on (\<lambda>t. t \<noteq> T_END) (Suc n) (parseProgramElement :: ('d, 'd program_element option) parser)"
proof -
  let ?skip = "pthen (p_skipTo [T_TEST, T_FUNC, T_EXPORT, T_ELEMENT, T_EXTERN, T_CONST]) (ret None)
    :: ('d, 'd program_element option) parser"
  have skip: "safe n ?skip" for n by (intro safe_then safe_skipTo safe_ret)
  have elem: "bites_on starts_element (Suc n) (parseProgramElement :: ('d, 'd program_element option) parser)"
    unfolding parseProgramElement_def Let_def
    by (intro bites_catch [OF _ skip] bites_peek)
      (auto simp: starts_element_def intro!: bites_bind safe_ret bites_parseTest bites_parseElementTypeDecl
         bites_parseExternFuncOrDecl bites_parseConstDecl intro: bites_weaken [OF bites_parseFuncDecl])
  have skip_other: "bites_on (\<lambda>t. t \<noteq> T_END \<and> \<not> starts_element t) (Suc n) ?skip"
    unfolding pthen_def by (rule bites_bind [OF bites_weaken [OF bites_skipTo] safe_ret]) (simp add: starts_element_def)
  have "good True s (parseProgramElement s) \<and> left (snd (parseProgramElement s)) < left s"
    if s: "wf_state s" "left s \<le> Suc n" "front s \<noteq> T_END" "\<not> starts_element (front s)" for s :: "'d pstate"
  proof -
    obtain err where err: "p_unexpected ''a program element'' s =
        (SyntaxError :: 'd program_element option outcome, s\<lparr>p_errors := p_errors s @ [err]\<rparr>)"
      using p_unexpected_wf [OF s(1)] by blast
    let ?s = "s\<lparr>p_errors := p_errors s @ [err]\<rparr>"
    have "good True ?s (?skip ?s) \<and> left (snd (?skip ?s)) < left ?s"
      by (rule bites_onD2 [OF skip_other]) (use s in \<open>simp_all add: wf_state_def\<close>)
    moreover have "parseProgramElement s = ?skip ?s"
      using s err by (simp add: parseProgramElement_def starts_element_def pcatch_def pbind_def p_peek_0)
    ultimately show ?thesis by (auto simp: good_def split: outcome.splits dest: prefix_snocD prefix_order.less_imp_le)
  qed
  with elem show ?thesis unfolding bites_on_def by blast
qed

lemma eats_on_parseProgramElement: "eats_on (\<lambda>t. t \<noteq> T_END) n parseProgramElement"
  by (rule bites_eats_on, rule bites_mono, rule bites_parseProgramElement, rule le_SucI [OF order.refl])

lemma safe_parseProgram: "safe n parseProgram"
  unfolding parseProgram_def by (intro safe_bind safe_while safe_ret eats_on_parseProgramElement)

text \<open>Nothing is thrown out of the loop over the program elements, and it ends at the end token.\<close>

definition catches :: "('d, 'a) parser \<Rightarrow> bool" where
  "catches p \<longleftrightarrow> (\<forall>s. fst (p s) \<noteq> SyntaxError)"

lemma catches_bind: "catches p \<Longrightarrow> (\<And>x. catches (f x)) \<Longrightarrow> catches (pbind p f)"
  unfolding catches_def pbind_def by (auto split: prod.split outcome.split) (metis fst_conv)+

lemma catches_peek: "catches (p_peek k)"
  by (simp add: catches_def p_peek_def from_result_def split: sum.split)

lemma catches_skip: "catches p_skip"
  by (simp add: catches_def p_skip_def split: sum.split)

lemma catches_ret: "catches (ret x)"
  by (simp add: catches_def ret_def)

lemma catches_fuelled: "(\<And>k. catches (p k)) \<Longrightarrow> catches (fuelled p)"
  by (simp add: catches_def fuelled_def)

lemma catches_skipTo_n: "catches (p_skipTo_n types k)"
  by (induction k) (auto simp: pthen_def outOfFuel_def catches_def [of "\<lambda>s. (OutOfFuel, s)"]
      intro!: catches_bind catches_peek catches_ret catches_skip)

lemma catches_catch: "catches h \<Longrightarrow> catches (pcatch p h)"
  unfolding catches_def pcatch_def by (auto split: prod.split outcome.split)

lemma catches_parseProgramElement: "catches parseProgramElement"
  unfolding parseProgramElement_def pthen_def p_skipTo_def
  by (intro catches_catch catches_bind catches_ret catches_fuelled catches_skipTo_n)

lemma catches_while_n: "catches p \<Longrightarrow> catches (p_while_n cond p k)"
  by (induction k) (auto simp: outOfFuel_def catches_def [of "\<lambda>s. (OutOfFuel, s)"] intro!: catches_bind catches_peek catches_ret)

lemma catches_parseProgram: "catches parseProgram"
  unfolding parseProgram_def p_while_def
  by (intro catches_bind catches_ret catches_fuelled catches_while_n catches_parseProgramElement)

lemma pbind_Parsed:
  "pbind p f s = (Parsed y, s2) \<longleftrightarrow> (\<exists>x s1. p s = (Parsed x, s1) \<and> f x s1 = (Parsed y, s2))"
  by (auto simp: pbind_def split: prod.splits outcome.splits)

lemma while_n_end:
  "p_while_n cond p k s = (Parsed xs, s2) \<Longrightarrow> \<exists>t. p_peek 0 s2 = (Parsed t, s2) \<and> \<not> cond (token_type t)"
proof (induction k arbitrary: s xs)
  case (Suc k)
  obtain t s1 where t: "p_peek 0 s = (Parsed t, s1)" "(if cond (token_type t) then pbind p (\<lambda>x. pbind (p_while_n cond p k) (\<lambda>xs. ret (x # xs))) else ret []) s1 = (Parsed xs, s2)"
    using Suc.prems by (auto simp: pbind_Parsed)
  moreover have "s1 = s" using t(1) by (auto simp: p_peek_def from_result_def)
  ultimately show ?case using Suc.IH by (cases "cond (token_type t)") (auto simp: pbind_Parsed ret_def)
qed (simp add: outOfFuel_def)

lemma parseProgram_end:
  assumes "parseProgram s = (Parsed prog, s2)" "wf_state s2"
  shows "front s2 = T_END"
proof -
  obtain xs k where "p_while_n (\<lambda>ty. ty \<noteq> T_END) parseProgramElement k s = (Parsed xs, s2)"
    using assms(1) by (auto simp only: parseProgram_def pbind_Parsed p_while_def fuelled_def ret_def)
  from while_n_end [OF this] obtain t where "p_peek 0 s2 = (Parsed t, s2)" "token_type t = T_END" by auto
  then show ?thesis using assms(2) by (simp add: p_peek_0)
qed

lemma parseProgram_total:
  assumes "wf_state s"
  shows "\<exists>prog s2. parseProgram s = (Parsed prog, s2) \<and> good False s (Parsed prog, s2) \<and> front s2 = T_END"
proof -
  obtain r s2 where r: "parseProgram s = (r, s2)" by fastforce
  have g: "good False s (r, s2)" using safeD [OF safe_parseProgram assms order.refl] by (simp add: r)
  have "r \<noteq> SyntaxError" using catches_parseProgram r by (metis catches_def fst_conv)
  with g obtain prog where "r = Parsed prog" by (cases r) (auto simp: good_def)
  with r g parseProgram_end show ?thesis by (fastforce simp: good_def)
qed

lemma declareIntrinsics_total:
  assumes "0 < depth s"
  shows "\<exists>m. declareIntrinsics names s = (Parsed (), s\<lparr>p_decls := m\<rparr>) \<and> levels m = depth s"
  using assms
proof (induction names arbitrary: s)
  case Nil
  then show ?case by (intro exI [of _ "p_decls s"]) (simp add: ret_def)
next
  case (Cons name names)
  obtain m where m: "insert_symbol name FUNCTION (p_decls s) = Inr m" "levels m = depth s"
    using insert_symbol_levels [OF Cons.prems] by blast
  then show ?case using Cons.IH [of "s\<lparr>p_decls := m\<rparr>"] Cons.prems by (simp add: pthen_def pbind_def p_insert_def)
qed

text \<open>The whole parser.\<close>

lemma parse_good:
  assumes "toks \<noteq> []" "token_type (last toks) = T_END" "\<forall>t \<in> set toks. token_ok t"
  shows "\<exists>prog s. parse doubles intrinsics toks errs = (Parsed prog, s) \<and> wf_state s \<and> front s = T_END \<and>
    prefix errs (p_errors s) \<and> (p_errors s = errs \<longrightarrow> depth s = 1)"
proof -
  let ?s = "\<lparr>p_decls = mk_scoped_map Map.empty, p_tokens = toks, p_errors = errs, p_doubles = doubles\<rparr>"
  have d: "depth ?s = 1" by (simp add: levels_def mk_scoped_map_def)
  then obtain m where m: "declareIntrinsics intrinsics ?s = (Parsed (), ?s\<lparr>p_decls := m\<rparr>)" "levels m = 1"
    using declareIntrinsics_total [of ?s intrinsics] by auto
  let ?s1 = "?s\<lparr>p_decls := m\<rparr>"
  have "wf_state ?s1" using assms m(2) by (simp add: wf_state_def)
  from parseProgram_total [OF this] show ?thesis
    using m by (auto simp: parse_def pthen_def pbind_def good_def)
qed

end
