(* ===== verification/Front_End.thy ===== *)
theory Front_End
  imports Scanner_Correct Parser_Total
begin

text \<open>
  The scanner feeding the parser, as \<^verbatim>\<open>Frontend::parseStream\<close> (\<^verbatim>\<open>src/src/frontend/frontend.cpp\<close>) connects them: what the
  parser needs of its tokens is what the scanner gives, so the two together are total on every text.
\<close>

section \<open>The tokens of the scanner\<close>

definition literals_ok :: "'d scan_state \<Rightarrow> bool" where
  "literals_ok st \<longleftrightarrow> (\<forall>t \<in> set (tokens st). token_ok t)"

lemma token_ok_mkToken: "ty \<noteq> T_INT_LITERAL \<Longrightarrow> ty \<noteq> T_FLOAT_LITERAL \<Longrightarrow> token_ok (mkToken ty l c n)"
  by (simp add: token_ok_def mkToken_def)

lemma literals_ok_symbol:
  "literals_ok st \<Longrightarrow> ty \<noteq> T_INT_LITERAL \<Longrightarrow> ty \<noteq> T_FLOAT_LITERAL \<Longrightarrow> literals_ok (symbol ty len st)"
  by (simp add: literals_ok_def symbol_def addToken_def pushToken_def token_ok_mkToken)

lemma getTokenType_no_literal: "getTokenType w \<noteq> T_INT_LITERAL" "getTokenType w \<noteq> T_FLOAT_LITERAL"
  by (simp_all add: getTokenType_def)

lemma literals_ok_number: "literals_ok st \<Longrightarrow> ty \<in> {T_INT_LITERAL, T_FLOAT_LITERAL} \<Longrightarrow> literals_ok (numberToken strtod ty ts s c st)"
  by (auto simp: literals_ok_def numberToken_def pushToken_def token_ok_def)

lemma literals_ok_unexpected: "literals_ok st \<Longrightarrow> literals_ok (unexpectedSymbol s c st)"
  by (simp add: literals_ok_def unexpectedSymbol_def)

lemma literals_ok_scanNumber: "literals_ok st \<Longrightarrow> literals_ok (scanNumber strtod st)"
  by (auto simp: scanNumber_def Let_def literals_ok_unexpected intro!: literals_ok_number
      dest!: scanFraction_type scanExponent_type split: sum.split prod.split)

lemma literals_ok_step:
  assumes "literals_ok st"
  shows "literals_ok (lex_step strtod st)"
proof (rule lex_step_outcome)
  show "literals_ok (scanWord st)"
    using assms getTokenType_no_literal by (auto simp: literals_ok_def scanWord_def Let_def pushToken_def token_ok_def)
  show "literals_ok (symbol ty 1 st)" if "ty \<in> single_symbols" for ty
    using that assms by (intro literals_ok_symbol) (auto simp: single_symbols_def)
  show "literals_ok (symbol2 c ty2 ty1 st)" if "(ty2, ty1) \<in> double_symbols" for c ty2 ty1
    using that assms by (auto simp: symbol2_def double_symbols_def intro!: literals_ok_symbol split: list.split)
  show "literals_ok (scanPeriod st)"
    using assms by (auto simp: scanPeriod_def intro!: literals_ok_symbol split: list.split)
  show "literals_ok (scanBang st)"
    using assms literals_ok_symbol [of st T_NE 2] by (auto simp: scanBang_def Let_def literals_ok_def split: list.split)
  show "literals_ok (scanPercent st)"
    using assms literals_ok_symbol [of st T_TEST 2]
    by (auto simp: scanPercent_def scanComment_def Let_def literals_ok_def split: list.split prod.split)
  show "literals_ok (scanString st)"
    using assms by (auto simp: scanString_def Let_def literals_ok_def pushToken_def token_ok_def split: prod.split)
  show "literals_ok (scanCarriageReturn st)"
    using assms by (auto simp: scanCarriageReturn_def newline_def literals_ok_def split: list.split)
qed (use assms in \<open>simp_all add: newline_def blank_def literals_ok_def literals_ok_scanNumber [unfolded literals_ok_def]\<close>)

lemma lex_wellformed:
  "\<exists>ts t. fst (lex strtod program) = ts @ [t] \<and> token_type t = T_END \<and> (\<forall>t \<in> set ts. token_ok t \<and> token_type t \<noteq> T_END) \<and>
     token_ok t"
proof -
  let ?st = "lex_loop strtod (lex_init program)"
  have "literals_ok ?st"
    by (rule lex_loop_invariant(1)) (simp add: literals_ok_def lex_init_def, rule literals_ok_step)
  moreover have "tokens_ok ?st" by (rule tokens_ok_loop)
  ultimately show ?thesis
    by (auto simp: lex_def Let_def addToken_def pushToken_def literals_ok_def tokens_ok_def scanned_types_def
        token_ok_mkToken) (auto simp: mkToken_def)
qed

section \<open>Properties\<close>

text \<open>
  C2. Every text is scanned and parsed to the end: the scanner and the parser return a program, whatever the text is,
  without reading past the tokens, without closing a scope that is not open, without running out of the bounds on the
  loops and the recursion, and without an exception that nobody catches. The parser stops in front of the end token,
  and the errors of the scanner stay in front of its own.
\<close>

theorem parse_lex_total:
  "\<exists>prog s. parse doubles intrinsics (fst (lex strtod program)) (snd (lex strtod program)) = (Parsed prog, s) \<and>
     p_tokens s \<noteq> [] \<and> token_type (hd (p_tokens s)) = T_END \<and> prefix (snd (lex strtod program)) (p_errors s) \<and>
     0 < levels (p_decls s)"
proof -
  obtain ts t where t: "fst (lex strtod program) = ts @ [t]" "token_type t = T_END" "token_ok t" "\<forall>t \<in> set ts. token_ok t"
    using lex_wellformed [of strtod program] by auto
  have "\<exists>prog s. parse doubles intrinsics (ts @ [t]) (snd (lex strtod program)) = (Parsed prog, s) \<and> wf_state s \<and>
      front s = T_END \<and> prefix (snd (lex strtod program)) (p_errors s) \<and>
      (p_errors s = snd (lex strtod program) \<longrightarrow> depth s = 1)"
    by (rule parse_good) (use t in auto)
  then show ?thesis unfolding t(1) by (auto simp: wf_state_def)
qed

end
