(* ===== verification/Const_Fold.thy ===== *)
theory Const_Fold
  imports Parser
begin

text \<open>
  Constant folding (\<^verbatim>\<open>src/src/frontend/const_fold.cpp\<close>) over the traversal of \<^verbatim>\<open>FIRRewriter\<close>
  (\<^verbatim>\<open>src/src/frontend/fir_rewriter.cpp\<close>), and the check that global constants and tests hold literals
  (\<^verbatim>\<open>src/src/frontend/const_checker.cpp\<close>). The nodes are trees, so updating a node in place is returning the updated node.
\<close>

section \<open>Definitions\<close>

subsection \<open>Folding\<close>

definition neg_int :: "int \<Rightarrow> int" where
  "neg_int n = long_to_int (- n)"

text \<open>\<^verbatim>\<open>NegateTensorLiteral\<close>.\<close>

fun negateTensorLiteral :: "'d double_ops \<Rightarrow> 'd dense_literal \<Rightarrow> 'd dense_literal" where
  "negateTensorLiteral d (IntVectorLiteral vals t) = IntVectorLiteral (map neg_int vals) t"
| "negateTensorLiteral d (FloatVectorLiteral vals t) = FloatVectorLiteral (map (negd d) vals) t"
| "negateTensorLiteral d (ComplexVectorLiteral vals t) =
     ComplexVectorLiteral (map (\<lambda>v. (negd d (fst v), negd d (snd v))) vals) t"
| "negateTensorLiteral d (NDTensorLiteral elems t) = NDTensorLiteral (map (negateTensorLiteral d) elems) t"

text \<open>
  \<^verbatim>\<open>visit(NegExpr)\<close> and \<^verbatim>\<open>visit(TransposeExpr)\<close> with the operand already rewritten. The branch of complex literals negates
  the operand and, for want of a \<^verbatim>\<open>return\<close>, goes on to the last line, which keeps the negation too.
\<close>

definition foldNegExpr :: "'d double_ops \<Rightarrow> bool \<Rightarrow> 'd fir_expr \<Rightarrow> 'd fir_expr" where
  "foldNegExpr d negate operand =
     (case operand of
        IntLiteral val \<Rightarrow> IntLiteral (if negate then neg_int val else val)
      | FloatLiteral val \<Rightarrow> FloatLiteral (if negate then negd d val else val)
      | ComplexLiteral re im \<Rightarrow>
          NegExpr negate (if negate then ComplexLiteral (negd d re) (negd d im) else ComplexLiteral re im)
      | DenseTensorLiteral tensor \<Rightarrow> DenseTensorLiteral (if negate then negateTensorLiteral d tensor else tensor)
      | _ \<Rightarrow> NegExpr negate operand)"

definition foldTransposeExpr :: "'d fir_expr \<Rightarrow> 'd fir_expr" where
  "foldTransposeExpr operand =
     (case operand of
        IntLiteral _ \<Rightarrow> operand
      | FloatLiteral _ \<Rightarrow> operand
      | ComplexLiteral _ _ \<Rightarrow> operand
      | DenseTensorLiteral (IntVectorLiteral vals t) \<Rightarrow> DenseTensorLiteral (IntVectorLiteral vals (\<not> t))
      | DenseTensorLiteral (FloatVectorLiteral vals t) \<Rightarrow> DenseTensorLiteral (FloatVectorLiteral vals (\<not> t))
      | DenseTensorLiteral (ComplexVectorLiteral vals t) \<Rightarrow> DenseTensorLiteral (ComplexVectorLiteral vals (\<not> t))
      | _ \<Rightarrow> TransposeExpr operand)"

fun rewriteExpr :: "'d double_ops \<Rightarrow> 'd fir_expr \<Rightarrow> 'd fir_expr" where
  "rewriteExpr d (MapExpr func gs actuals target through red) = MapExpr func gs (map (rewriteExpr d) actuals) target through red"
| "rewriteExpr d (OrExpr a b) = OrExpr (rewriteExpr d a) (rewriteExpr d b)"
| "rewriteExpr d (AndExpr a b) = AndExpr (rewriteExpr d a) (rewriteExpr d b)"
| "rewriteExpr d (XorExpr a b) = XorExpr (rewriteExpr d a) (rewriteExpr d b)"
| "rewriteExpr d (EqExpr operands ops) = EqExpr (map (rewriteExpr d) operands) ops"
| "rewriteExpr d (NotExpr a) = NotExpr (rewriteExpr d a)"
| "rewriteExpr d (AddExpr a b) = AddExpr (rewriteExpr d a) (rewriteExpr d b)"
| "rewriteExpr d (SubExpr a b) = SubExpr (rewriteExpr d a) (rewriteExpr d b)"
| "rewriteExpr d (MulExpr a b) = MulExpr (rewriteExpr d a) (rewriteExpr d b)"
| "rewriteExpr d (DivExpr a b) = DivExpr (rewriteExpr d a) (rewriteExpr d b)"
| "rewriteExpr d (ElwiseMulExpr a b) = ElwiseMulExpr (rewriteExpr d a) (rewriteExpr d b)"
| "rewriteExpr d (ElwiseDivExpr a b) = ElwiseDivExpr (rewriteExpr d a) (rewriteExpr d b)"
| "rewriteExpr d (LeftDivExpr a b) = LeftDivExpr (rewriteExpr d a) (rewriteExpr d b)"
| "rewriteExpr d (NegExpr negate a) = foldNegExpr d negate (rewriteExpr d a)"
| "rewriteExpr d (ExpExpr a b) = ExpExpr (rewriteExpr d a) (rewriteExpr d b)"
| "rewriteExpr d (TransposeExpr a) = foldTransposeExpr (rewriteExpr d a)"
| "rewriteExpr d (CallExpr func gs args) = CallExpr func gs (map (rewriteExpr d) args)"
| "rewriteExpr d (TensorReadExpr tensor indices) =
     TensorReadExpr (rewriteExpr d tensor) (map (map_option (rewriteExpr d)) indices)"
| "rewriteExpr d (SetReadExpr s indices) = SetReadExpr (rewriteExpr d s) (map (rewriteExpr d) indices)"
| "rewriteExpr d (NamedTupleReadExpr tuple elem) = NamedTupleReadExpr (rewriteExpr d tuple) elem"
| "rewriteExpr d (UnnamedTupleReadExpr tuple index) = UnnamedTupleReadExpr (rewriteExpr d tuple) (rewriteExpr d index)"
| "rewriteExpr d (FieldReadExpr setOrElem field) = FieldReadExpr (rewriteExpr d setOrElem) field"
| "rewriteExpr d (ParenExpr a) = ParenExpr (rewriteExpr d a)"
| "rewriteExpr d e = e"

fun rewriteForDomain :: "'d double_ops \<Rightarrow> 'd for_domain \<Rightarrow> 'd for_domain" where
  "rewriteForDomain d (IndexSetDomain s) = IndexSetDomain s"
| "rewriteForDomain d (RangeDomain lower upper) = RangeDomain (rewriteExpr d lower) (rewriteExpr d upper)"

fun rewriteStmt :: "'d double_ops \<Rightarrow> 'd fir_stmt \<Rightarrow> 'd fir_stmt" where
  "rewriteStmt d (StmtBlock stmts) = StmtBlock (map (rewriteStmt d) stmts)"
| "rewriteStmt d (VarDecl name type initVal) = VarDecl name type (map_option (rewriteExpr d) initVal)"
| "rewriteStmt d (ConstDecl name type initVal) = ConstDecl name type (rewriteExpr d initVal)"
| "rewriteStmt d (IVarDecl name) = IVarDecl name"
| "rewriteStmt d (WhileStmt cond body) = WhileStmt (rewriteExpr d cond) (rewriteStmt d body)"
| "rewriteStmt d (DoWhileStmt body cond) = DoWhileStmt (rewriteStmt d body) (rewriteExpr d cond)"
| "rewriteStmt d (IfStmt cond ifBody elseBody) =
     IfStmt (rewriteExpr d cond) (rewriteStmt d ifBody) (map_option (rewriteStmt d) elseBody)"
| "rewriteStmt d (ForStmt loopVar domain body) = ForStmt loopVar (rewriteForDomain d domain) (rewriteStmt d body)"
| "rewriteStmt d (PrintStmt args nl) = PrintStmt (map (rewriteExpr d) args) nl"
| "rewriteStmt d (ApplyStmt func gs actuals target) = ApplyStmt func gs (map (rewriteExpr d) actuals) target"
| "rewriteStmt d (ExprStmt e) = ExprStmt (rewriteExpr d e)"
| "rewriteStmt d (AssignStmt lhs e) = AssignStmt (map (rewriteExpr d) lhs) (rewriteExpr d e)"

fun rewriteElement :: "'d double_ops \<Rightarrow> 'd program_element \<Rightarrow> 'd program_element" where
  "rewriteElement d (FuncDecl f) = FuncDecl (f\<lparr>func_body := map_option (rewriteStmt d) (func_body f)\<rparr>)"
| "rewriteElement d (TopConst s) = TopConst (rewriteStmt d s)"
| "rewriteElement d (Test func args expected) = Test func (map (rewriteExpr d) args) (rewriteExpr d expected)"
| "rewriteElement d e = e"

definition rewriteProgram :: "'d double_ops \<Rightarrow> 'd program_element list \<Rightarrow> 'd program_element list" where
  "rewriteProgram d elems = map (rewriteElement d) elems"

subsection \<open>Checking\<close>

fun isa_TensorLiteral :: "'d fir_expr \<Rightarrow> bool" where
  "isa_TensorLiteral (IntLiteral _) = True"
| "isa_TensorLiteral (FloatLiteral _) = True"
| "isa_TensorLiteral (BoolLiteral _) = True"
| "isa_TensorLiteral (ComplexLiteral _ _) = True"
| "isa_TensorLiteral (StringLiteral _) = True"
| "isa_TensorLiteral (DenseTensorLiteral _) = True"
| "isa_TensorLiteral _ = False"

text \<open>The messages the check reports, in its order; a declaration with no value is an assertion that cannot fail here.\<close>

fun checkElement :: "'d program_element \<Rightarrow> string list" where
  "checkElement (TopConst (ConstDecl name type initVal)) =
     (if isa_TensorLiteral initVal then [] else [''global constant must be initialized to a literal''])"
| "checkElement (Test func args expected) =
     concat (map (\<lambda>arg. if isa_TensorLiteral arg then [] else [''input to test must be a literal'']) args) @
     (if isa_TensorLiteral expected then [] else [''expected value for test must be a literal''])"
| "checkElement _ = []"

definition constCheck :: "'d program_element list \<Rightarrow> string list" where
  "constCheck elems = concat (map checkElement elems)"

section \<open>The value of a constant expression\<close>

text \<open>
  Literals, signs, transposes and parentheses have a value that does not depend on any variable: a scalar, or a dense
  tensor with its orientation. Transposing a tensor of order two and more is left symbolic, as a parity.
\<close>

datatype 'd cvalue =
    IntV int | FloatV 'd | BoolV bool | ComplexV 'd 'd | StringV string | DenseV "'d dense_literal" bool

fun orientation :: "'d dense_literal \<Rightarrow> bool" where
  "orientation (IntVectorLiteral _ t) = t"
| "orientation (FloatVectorLiteral _ t) = t"
| "orientation (ComplexVectorLiteral _ t) = t"
| "orientation (NDTensorLiteral _ t) = t"

fun upright :: "'d dense_literal \<Rightarrow> 'd dense_literal" where
  "upright (IntVectorLiteral vals _) = IntVectorLiteral vals False"
| "upright (FloatVectorLiteral vals _) = FloatVectorLiteral vals False"
| "upright (ComplexVectorLiteral vals _) = ComplexVectorLiteral vals False"
| "upright (NDTensorLiteral elems _) = NDTensorLiteral elems False"

fun neg_value :: "'d double_ops \<Rightarrow> 'd cvalue \<Rightarrow> 'd cvalue option" where
  "neg_value d (IntV n) = Some (IntV (neg_int n))"
| "neg_value d (FloatV x) = Some (FloatV (negd d x))"
| "neg_value d (ComplexV x y) = Some (ComplexV (negd d x) (negd d y))"
| "neg_value d (DenseV l t) = Some (DenseV (negateTensorLiteral d l) t)"
| "neg_value d v = None"

fun transpose_value :: "'d cvalue \<Rightarrow> 'd cvalue option" where
  "transpose_value (DenseV l t) = Some (DenseV l (\<not> t))"
| "transpose_value (BoolV b) = None"
| "transpose_value (StringV s) = None"
| "transpose_value v = Some v"

fun plus_value :: "'d cvalue \<Rightarrow> 'd cvalue option" where
  "plus_value (BoolV b) = None"
| "plus_value (StringV s) = None"
| "plus_value v = Some v"

fun const_value :: "'d double_ops \<Rightarrow> 'd fir_expr \<Rightarrow> 'd cvalue option" where
  "const_value d (IntLiteral n) = Some (IntV n)"
| "const_value d (FloatLiteral x) = Some (FloatV x)"
| "const_value d (BoolLiteral b) = Some (BoolV b)"
| "const_value d (ComplexLiteral x y) = Some (ComplexV x y)"
| "const_value d (StringLiteral s) = Some (StringV s)"
| "const_value d (DenseTensorLiteral l) = Some (DenseV (upright l) (orientation l))"
| "const_value d (NegExpr negate e) =
     (case const_value d e of None \<Rightarrow> None | Some v \<Rightarrow> if negate then neg_value d v else plus_value v)"
| "const_value d (TransposeExpr e) = (case const_value d e of None \<Rightarrow> None | Some v \<Rightarrow> transpose_value v)"
| "const_value d (ParenExpr e) = const_value d e"
| "const_value d _ = None"

text \<open>Negating a complex literal directly is what folding gets wrong; the predicate rules it out.\<close>

fun isa_ComplexLiteral :: "'d fir_expr \<Rightarrow> bool" where
  "isa_ComplexLiteral (ComplexLiteral _ _) = True"
| "isa_ComplexLiteral _ = False"

fun no_neg_complex :: "'d double_ops \<Rightarrow> 'd fir_expr \<Rightarrow> bool" where
  "no_neg_complex d (NegExpr negate e) =
     (no_neg_complex d e \<and> (negate \<longrightarrow> \<not> isa_ComplexLiteral (rewriteExpr d e)))"
| "no_neg_complex d (TransposeExpr e) = no_neg_complex d e"
| "no_neg_complex d (ParenExpr e) = no_neg_complex d e"
| "no_neg_complex d e = True"

lemma upright_neg: "upright (negateTensorLiteral d l) = negateTensorLiteral d (upright l)"
  "orientation (negateTensorLiteral d l) = orientation l"
  by (cases l; simp)+

lemma const_value_foldNeg:
  assumes "negate \<longrightarrow> \<not> isa_ComplexLiteral e"
  shows "const_value d (foldNegExpr d negate e) = const_value d (NegExpr negate e)"
  using assms by (cases e) (auto simp: foldNegExpr_def upright_neg)

lemma const_value_foldTranspose: "const_value d (foldTransposeExpr e) = const_value d (TransposeExpr e)"
  by (cases e) (auto simp: foldTransposeExpr_def split: dense_literal.split)

lemma rewriteExpr_value: "no_neg_complex d e \<Longrightarrow> const_value d (rewriteExpr d e) = const_value d e"
  by (induction d e rule: no_neg_complex.induct) (simp_all add: const_value_foldNeg const_value_foldTranspose)

text \<open>Signs and transposes around a literal that folding reduces to a literal; for vectors every transpose is one.\<close>

fun isa_vector :: "'d dense_literal \<Rightarrow> bool" where
  "isa_vector (NDTensorLiteral _ _) = False"
| "isa_vector _ = True"

fun signed_literal :: "'d fir_expr \<Rightarrow> bool" where
  "signed_literal (IntLiteral _) = True"
| "signed_literal (FloatLiteral _) = True"
| "signed_literal (DenseTensorLiteral l) = isa_vector l"
| "signed_literal (NegExpr _ e) = signed_literal e"
| "signed_literal (TransposeExpr e) = signed_literal e"
| "signed_literal _ = False"

fun foldable_literal :: "'d fir_expr \<Rightarrow> bool" where
  "foldable_literal (IntLiteral _) = True"
| "foldable_literal (FloatLiteral _) = True"
| "foldable_literal (DenseTensorLiteral l) = isa_vector l"
| "foldable_literal _ = False"

lemma isa_vector_neg [simp]: "isa_vector (negateTensorLiteral d l) = isa_vector l"
  by (cases l) simp_all

lemma foldNeg_foldable: "foldable_literal e \<Longrightarrow> foldable_literal (foldNegExpr d negate e)"
  by (cases e) (auto simp: foldNegExpr_def)

lemma foldTranspose_foldable: "foldable_literal e \<Longrightarrow> foldable_literal (foldTransposeExpr e)"
  by (cases e) (auto simp: foldTransposeExpr_def split: dense_literal.splits)

lemma rewriteExpr_foldable: "signed_literal e \<Longrightarrow> foldable_literal (rewriteExpr d e)"
  by (induction e rule: signed_literal.induct) (simp_all add: foldNeg_foldable foldTranspose_foldable)

lemma foldable_no_complex: "foldable_literal e \<Longrightarrow> \<not> isa_ComplexLiteral e"
  by (cases e) auto

lemma signed_literal_no_complex: "signed_literal e \<Longrightarrow> no_neg_complex d e"
  by (induction e rule: signed_literal.induct)
    (simp_all add: foldable_no_complex rewriteExpr_foldable)

lemma foldable_literal_isa: "foldable_literal e \<Longrightarrow> isa_TensorLiteral e"
  by (cases e) auto

section \<open>Properties\<close>



text \<open>
  A global constant and a test may hold a literal under any number of signs and transposes: for numbers and for
  vectors of any kind, folding leaves a literal of the same value, which the check that follows accepts.
\<close>

theorem const_fold_accepted:
  assumes "signed_literal e"
  shows "checkElement (rewriteElement d (TopConst (ConstDecl name type e))) = [] \<and>
    checkElement (rewriteElement d (Test func [e] e)) = [] \<and> const_value d (rewriteExpr d e) = const_value d e"
  using foldable_literal_isa [OF rewriteExpr_foldable [OF assms, of d]]
    rewriteExpr_value [OF signed_literal_no_complex [OF assms, of d]] by simp

theorem const_fold_accepted_witness:
  "checkElement (rewriteElement \<lparr>showd = (\<lambda>_. []), negd = uminus\<rparr> (TopConst (ConstDecl ''a'' None
     (NegExpr True (TransposeExpr (NegExpr True (FloatLiteral (1 :: int)))))))) = []"
  using const_fold_accepted [of "NegExpr True (TransposeExpr (NegExpr True (FloatLiteral (1 :: int))))"
    "\<lparr>showd = (\<lambda>_. []), negd = uminus\<rparr>" "''a''" None "''f''"] by simp


end
