(* ===== verification/Fir_Printer.thy ===== *)
theory Fir_Printer
  imports Fir
begin

text \<open>
  The printer of the front-end IR (\<^verbatim>\<open>src/src/frontend/fir_printer.cpp\<close>, \<^verbatim>\<open>fir_printer.h\<close>): the text it writes for every
  node, with the level of indentation as an argument of the statements. Nodes the printer has no method for are
  traversed by \<^verbatim>\<open>FIRVisitor\<close>: parentheses print what is in them, a range constant and a generic index set print their
  name and a string literal prints nothing. How a double is written to a stream is the argument \<open>showf\<close>.
\<close>

section \<open>Types\<close>

definition endl :: string where
  "endl = [CHR 0x0A]"

definition printIndent :: "nat \<Rightarrow> string" where
  "printIndent indentLevel = replicate (2 * indentLevel) (CHR '' '')"

fun printIndexSet :: "fir_index_set \<Rightarrow> string" where
  "printIndexSet (RangeIndexSet n) = ''0:'' @ int_to_string n"
| "printIndexSet (SetIndexSet setName) = setName"
| "printIndexSet (GenericIndexSet _ setName) = setName"
| "printIndexSet DynamicIndexSet = ''*''"

fun printScalarType :: "fir_scalar \<Rightarrow> string" where
  "printScalarType SC_INT = ''int''"
| "printScalarType SC_FLOAT = ''float''"
| "printScalarType SC_BOOL = ''bool''"
| "printScalarType SC_COMPLEX = ''complex''"
| "printScalarType SC_STRING = ''string''"

fun printTensorType :: "fir_tensor_type \<Rightarrow> string" where
  "printTensorType (ScalarType t) = printScalarType t"
| "printTensorType (NDTensorType indexSets blockType transposed) =
     ''tensor['' @ join (map printIndexSet indexSets) '','' @ '']('' @ printTensorType blockType @ '')'' @
     (if transposed then [CHR 0x27] else [])"

fun printType :: "fir_type \<Rightarrow> string" where
  "printType (ElementType ident) = ident"
| "printType (HomogeneousEdgeSetType element endpoint arity) =
     ''set{'' @ element @ ''}('' @ printIndexSet endpoint @ '' * '' @ int_to_string arity @ '')''"
| "printType (HeterogeneousEdgeSetType element endpoints) =
     ''set{'' @ element @ ''}'' @
     (if endpoints \<noteq> [] then ''('' @ join (map printIndexSet endpoints) '','' @ '')'' else [])"
| "printType (GridSetType element underlyingPointSet dimensions) =
     ''grid{'' @ element @ ''}['' @ int_to_string dimensions @ '']('' @ printIndexSet underlyingPointSet @ '')''"
| "printType (NamedTupleType elems) = ''('' @ join (map (\<lambda>e. fst e @ '' : '' @ snd e) elems) '', '' @ '')''"
| "printType (UnnamedTupleType element len) = ''('' @ element @ '' * '' @ int_to_string len @ '')''"
| "printType (TensorType t) = printTensorType t"
| "printType OpaqueType = ''opaque''"

section \<open>Expressions\<close>

definition printBoolean :: "bool \<Rightarrow> string" where
  "printBoolean val = (if val then ''true'' else ''false'')"

definition printComplex :: "('d \<Rightarrow> string) \<Rightarrow> 'd \<Rightarrow> 'd \<Rightarrow> string" where
  "printComplex showf re im = ''<'' @ showf re @ '','' @ showf im @ ''>''"

definition printVector :: "string list \<Rightarrow> bool \<Rightarrow> string" where
  "printVector elems transposed = ''['' @ join elems '', '' @ '']'' @ (if transposed then [CHR 0x27] else [])"

fun printDense :: "('d \<Rightarrow> string) \<Rightarrow> 'd dense_literal \<Rightarrow> string" where
  "printDense showf (IntVectorLiteral vals transposed) = printVector (map int_to_string vals) transposed"
| "printDense showf (FloatVectorLiteral vals transposed) = printVector (map showf vals) transposed"
| "printDense showf (ComplexVectorLiteral vals transposed) =
     printVector (map (\<lambda>v. printComplex showf (fst v) (snd v)) vals) transposed"
| "printDense showf (NDTensorLiteral elems transposed) = printVector (map (printDense showf) elems) transposed"

fun printEqOp :: "eq_op \<Rightarrow> string" where
  "printEqOp OP_LT = '' < ''"
| "printEqOp OP_LE = '' <= ''"
| "printEqOp OP_GT = '' > ''"
| "printEqOp OP_GE = '' >= ''"
| "printEqOp OP_EQ = '' == ''"
| "printEqOp OP_NE = '' != ''"

definition printUnaryExpr :: "string \<Rightarrow> string \<Rightarrow> bool \<Rightarrow> string" where
  "printUnaryExpr operand op opAfterOperand =
     (if \<not> opAfterOperand then op else []) @ ''('' @ operand @ '')'' @ (if opAfterOperand then op else [])"

definition printBinaryExpr :: "string \<Rightarrow> string \<Rightarrow> string \<Rightarrow> string" where
  "printBinaryExpr lhs rhs op = ''('' @ lhs @ '') '' @ op @ '' ('' @ rhs @ '')''"

definition printMapOrApply ::
  "string \<Rightarrow> string list \<Rightarrow> fir_index_set \<Rightarrow> fir_index_set option \<Rightarrow> reduction_op option \<Rightarrow> bool \<Rightarrow> string" where
  "printMapOrApply func partialActuals target through reduction isApply =
     (if isApply then ''apply '' else ''map '') @ func @
     (if partialActuals \<noteq> [] then ''('' @ join partialActuals '', '' @ '')'' else []) @
     '' to '' @ printIndexSet target @
     (case through of None \<Rightarrow> [] | Some s \<Rightarrow> '' through '' @ printIndexSet s) @
     (case reduction of Some RED_SUM \<Rightarrow> '' reduce +'' | _ \<Rightarrow> [])"

text \<open>
  The operands and operators of a chain of comparisons; a comparison has one operand more than operators, and the
  text for any other one, which the code reads out of bounds, is not meant.
\<close>

fun printComparisons :: "string list \<Rightarrow> eq_op list \<Rightarrow> string" where
  "printComparisons (operand # operands) (op # ops) =
     printEqOp op @ ''('' @ operand @ '')'' @ printComparisons operands ops"
| "printComparisons _ _ = []"

fun printExpr :: "('d \<Rightarrow> string) \<Rightarrow> 'd fir_expr \<Rightarrow> string" where
  "printExpr showf (MapExpr func genericArgs partialActuals target through reduction) =
     printMapOrApply func (map (printExpr showf) partialActuals) target through reduction False"
| "printExpr showf (OrExpr a b) = printBinaryExpr (printExpr showf a) (printExpr showf b) ''or''"
| "printExpr showf (AndExpr a b) = printBinaryExpr (printExpr showf a) (printExpr showf b) ''and''"
| "printExpr showf (XorExpr a b) = printBinaryExpr (printExpr showf a) (printExpr showf b) ''xor''"
| "printExpr showf (EqExpr operands ops) =
     (case map (printExpr showf) operands of
        [] \<Rightarrow> []
      | operand # rest \<Rightarrow> ''('' @ operand @ '')'' @ printComparisons rest ops)"
| "printExpr showf (NotExpr a) = printUnaryExpr (printExpr showf a) ''not'' False"
| "printExpr showf (AddExpr a b) = printBinaryExpr (printExpr showf a) (printExpr showf b) ''+''"
| "printExpr showf (SubExpr a b) = printBinaryExpr (printExpr showf a) (printExpr showf b) ''-''"
| "printExpr showf (MulExpr a b) = printBinaryExpr (printExpr showf a) (printExpr showf b) ''*''"
| "printExpr showf (DivExpr a b) = printBinaryExpr (printExpr showf a) (printExpr showf b) ''/''"
| "printExpr showf (ElwiseMulExpr a b) = printBinaryExpr (printExpr showf a) (printExpr showf b) ''.*''"
| "printExpr showf (ElwiseDivExpr a b) = printBinaryExpr (printExpr showf a) (printExpr showf b) ''./''"
| "printExpr showf (LeftDivExpr a b) = printBinaryExpr (printExpr showf a) (printExpr showf b) [CHR 0x5C]"
| "printExpr showf (NegExpr negate a) = printUnaryExpr (printExpr showf a) (if negate then ''-'' else ''+'') False"
| "printExpr showf (ExpExpr a b) = printBinaryExpr (printExpr showf a) (printExpr showf b) ''^''"
| "printExpr showf (TransposeExpr a) = printUnaryExpr (printExpr showf a) [CHR 0x27] True"
| "printExpr showf (CallExpr func genericArgs args) =
     func @
     (if genericArgs \<noteq> [] then ''<'' @ join (map printIndexSet genericArgs) '', '' @ ''>'' else []) @
     ''('' @ join (map (printExpr showf) args) '', '' @ '')''"
| "printExpr showf (TensorReadExpr tensor indices) =
     printExpr showf tensor @ ''('' @
     join (map (\<lambda>i. case i of None \<Rightarrow> '':'' | Some e \<Rightarrow> printExpr showf e) indices) '', '' @ '')''"
| "printExpr showf (SetReadExpr s indices) =
     printExpr showf s @ ''['' @ join (map (printExpr showf) indices) '', '' @ '']''"
| "printExpr showf (NamedTupleReadExpr tuple elem) = printExpr showf tuple @ ''.'' @ elem"
| "printExpr showf (UnnamedTupleReadExpr tuple index) = printExpr showf tuple @ ''('' @ printExpr showf index @ '')''"
| "printExpr showf (FieldReadExpr setOrElem field) = printExpr showf setOrElem @ ''.'' @ field"
| "printExpr showf (ParenExpr e) = printExpr showf e"
| "printExpr showf (VarExpr ident) = ident"
| "printExpr showf (RangeConst ident) = ident"
| "printExpr showf (IntLiteral val) = int_to_string val"
| "printExpr showf (FloatLiteral val) = showf val"
| "printExpr showf (BoolLiteral val) = printBoolean val"
| "printExpr showf (ComplexLiteral re im) = printComplex showf re im"
| "printExpr showf (StringLiteral val) = []"
| "printExpr showf (DenseTensorLiteral l) = printDense showf l"

section \<open>Statements and declarations\<close>

definition printVarOrConstDecl ::
  "('d \<Rightarrow> string) \<Rightarrow> nat \<Rightarrow> string \<Rightarrow> fir_tensor_type option \<Rightarrow> 'd fir_expr option \<Rightarrow> bool \<Rightarrow> string" where
  "printVarOrConstDecl showf ind name type initVal isConst =
     printIndent ind @ (if isConst then ''const '' else ''var '') @ name @
     (case type of None \<Rightarrow> [] | Some t \<Rightarrow> '' : '' @ printTensorType t) @
     (case initVal of None \<Rightarrow> [] | Some e \<Rightarrow> '' = '' @ printExpr showf e) @ '';''"

fun printForDomain :: "('d \<Rightarrow> string) \<Rightarrow> 'd for_domain \<Rightarrow> string" where
  "printForDomain showf (IndexSetDomain s) = printIndexSet s"
| "printForDomain showf (RangeDomain lower upper) = printExpr showf lower @ '' : '' @ printExpr showf upper"

fun printStmt :: "('d \<Rightarrow> string) \<Rightarrow> nat \<Rightarrow> 'd fir_stmt \<Rightarrow> string" where
  "printStmt showf ind (StmtBlock stmts) = concat (map (\<lambda>stmt. printStmt showf ind stmt @ endl) stmts)"
| "printStmt showf ind (VarDecl name type initVal) = printVarOrConstDecl showf ind name type initVal False"
| "printStmt showf ind (ConstDecl name type initVal) = printVarOrConstDecl showf ind name type (Some initVal) True"
| "printStmt showf ind (IVarDecl name) = printIndent ind @ ''ivar '' @ name @ '';''"
| "printStmt showf ind (WhileStmt cond body) =
     printIndent ind @ ''while '' @ printExpr showf cond @ endl @ printStmt showf (Suc ind) body @
     printIndent ind @ ''end''"
| "printStmt showf ind (DoWhileStmt body cond) =
     printIndent ind @ ''do '' @ endl @ printStmt showf (Suc ind) body @
     printIndent ind @ ''end while '' @ printExpr showf cond"
| "printStmt showf ind (IfStmt cond ifBody elseBody) =
     printIndent ind @ ''if '' @ printExpr showf cond @ endl @ printStmt showf (Suc ind) ifBody @
     (case elseBody of
        None \<Rightarrow> []
      | Some body \<Rightarrow> printIndent ind @ ''else'' @ endl @ printStmt showf (Suc ind) body @ endl) @
     printIndent ind @ ''end''"
| "printStmt showf ind (ForStmt loopVar domain body) =
     printIndent ind @ ''for '' @ loopVar @ '' in '' @ printForDomain showf domain @ endl @
     printStmt showf (Suc ind) body @ printIndent ind @ ''end''"
| "printStmt showf ind (PrintStmt args printNewline) =
     printIndent ind @ (if printNewline then ''println '' else ''print '') @ join (map (printExpr showf) args) '', '' @ '';''"
| "printStmt showf ind (ApplyStmt func genericArgs partialActuals target) =
     printMapOrApply func (map (printExpr showf) partialActuals) target None None True @ '';''"
| "printStmt showf ind (ExprStmt e) = printIndent ind @ printExpr showf e @ '';''"
| "printStmt showf ind (AssignStmt lhs e) =
     printIndent ind @ join (map (printExpr showf) lhs) '', '' @ '' = '' @ printExpr showf e @ '';''"

definition printIdentDecl :: "ident_decl \<Rightarrow> string" where
  "printIdentDecl decl = decl_name decl @ '' : '' @ printType (decl_type decl)"

definition printArgument :: "bool \<times> ident_decl \<Rightarrow> string" where
  "printArgument arg = (if fst arg then ''inout '' else []) @ printIdentDecl (snd arg)"

definition printGenericParam :: "string \<times> generic_type \<Rightarrow> string" where
  "printGenericParam param = (if snd param = GT_RANGE then ''0:'' else []) @ fst param"

definition printFuncDecl :: "('d \<Rightarrow> string) \<Rightarrow> 'd func_decl \<Rightarrow> string" where
  "printFuncDecl showf decl =
     (case func_type decl of FT_EXPORTED \<Rightarrow> ''export '' | FT_EXTERNAL \<Rightarrow> ''extern '' | FT_INTERNAL \<Rightarrow> []) @
     ''func '' @ func_name decl @
     (if genericParams decl \<noteq> [] then ''<'' @ join (map printGenericParam (genericParams decl)) '', '' @ ''>'' else []) @
     ''('' @ join (map printArgument (func_args decl)) '', '' @ '') '' @
     (if func_results decl \<noteq> [] then ''-> ('' @ join (map printIdentDecl (func_results decl)) '', '' @ '')'' else []) @
     (case func_body decl of
        Some body \<Rightarrow> endl @ printStmt showf 1 body @ ''end''
      | None \<Rightarrow> '';'')"

definition printFieldDecl :: "string \<times> fir_tensor_type \<Rightarrow> string" where
  "printFieldDecl field = fst field @ '' : '' @ printTensorType (snd field) @ '';''"

fun printElement :: "('d \<Rightarrow> string) \<Rightarrow> 'd program_element \<Rightarrow> string" where
  "printElement showf (ElementTypeDecl name fs) =
     ''element '' @ name @ endl @ concat (map (\<lambda>f. printIndent 1 @ printFieldDecl f @ endl) fs) @ ''end''"
| "printElement showf (ExternDecl name type) =
     ''extern '' @ printIdentDecl \<lparr>decl_name = name, decl_type = type\<rparr> @ '';''"
| "printElement showf (FuncDecl f) = printFuncDecl showf f"
| "printElement showf (TopConst s) = printStmt showf 0 s"
| "printElement showf (Test func args expected) =
     ''%! '' @ func @ ''('' @ join (map (printExpr showf) args) '', '' @ '') == '' @ printExpr showf expected @ '';''"

definition printProgram :: "('d \<Rightarrow> string) \<Rightarrow> 'd program_element list \<Rightarrow> string" where
  "printProgram showf elems = concat (map (\<lambda>e. printElement showf e @ endl) elems)"

end
