(* ===== verification/Printer_Text.thy ===== *)
theory Printer_Text
  imports Scanner_Correct Fir_Printer Parser_Monad
begin

text \<open>
  The text of a printed expression as a sequence of lexemes and blanks, and that the scanner finds these lexemes in
  it. Which expressions are meant is the predicate \<open>printable\<close>: it depends on what the identifiers are declared as, and
  leaves out what the printer does not print in a form the parser reads.
\<close>

section \<open>Pieces\<close>

datatype piece = Lx lexeme | Blank

abbreviation Sy :: "TokenType \<Rightarrow> piece" where
  "Sy ty \<equiv> Lx (Spelled ty)"

abbreviation Id :: "string \<Rightarrow> piece" where
  "Id w \<equiv> Lx (Ident w)"

fun piece_text :: "piece \<Rightarrow> string" where
  "piece_text (Lx l) = lexeme_text l"
| "piece_text Blank = '' ''"

definition texts :: "piece list \<Rightarrow> string" where
  "texts ps = concat (map piece_text ps)"

fun lexs :: "piece list \<Rightarrow> lexeme list" where
  "lexs [] = []"
| "lexs (Lx l # ps) = l # lexs ps"
| "lexs (Blank # ps) = lexs ps"

text \<open>Every lexeme is well formed and does not run into the text after it.\<close>

fun chained :: "piece list \<Rightarrow> string \<Rightarrow> bool" where
  "chained [] rest = True"
| "chained (Lx l # ps) rest = (lexeme_ok l \<and> ends_lexeme l (texts ps @ rest) \<and> chained ps rest)"
| "chained (Blank # ps) rest = chained ps rest"

lemma texts_simps [simp]: "texts [] = []" "texts (p # ps) = piece_text p @ texts ps" "texts (ps @ qs) = texts ps @ texts qs"
  by (simp_all add: texts_def)

lemma lexs_append [simp]: "lexs (ps @ qs) = lexs ps @ lexs qs"
  by (induction ps rule: lexs.induct) simp_all

lemma chained_append [simp]: "chained (ps @ qs) rest \<longleftrightarrow> chained ps (texts qs @ rest) \<and> chained qs rest"
  by (induction ps rule: lexs.induct) auto

lemma lex_loop_pieces:
  assumes "chained ps []" "input st = texts ps"
  shows "quiet_step st [] (map lexeme_kind (lexs ps)) (lex_loop strtod st)"
  using assms
proof (induction ps arbitrary: st rule: lexs.induct)
  case 1
  then show ?case by (simp add: quiet_step_def lex_loop.simps)
next
  case (2 l ps)
  let ?st = "lex_step strtod st"
  have step: "quiet_step st (texts ps) [lexeme_kind l] ?st"
    using 2(2,3) by (intro lex_step_lexeme) simp_all
  have "quiet_step ?st [] (map lexeme_kind (lexs ps)) (lex_loop strtod ?st)"
    using 2 step by (intro 2(1)) (simp_all add: quiet_step_def)
  moreover have "input st \<noteq> []" using 2(2,3) lexeme_text_not_Nil by simp
  ultimately show ?case using step by (simp add: lex_loop.simps [of strtod st] quiet_step_def)
next
  case (3 ps)
  let ?st = "lex_step strtod st"
  have step: "quiet_step st (texts ps) [] ?st" using 3(3) by (intro lex_step_blank) simp
  have "quiet_step ?st [] (map lexeme_kind (lexs ps)) (lex_loop strtod ?st)"
    using 3 step by (intro 3(1)) (simp_all add: quiet_step_def)
  moreover have "input st \<noteq> []" using 3(3) by simp
  ultimately show ?case using step by (simp add: lex_loop.simps [of strtod st] quiet_step_def)
qed

lemma lex_pieces:
  assumes "chained ps []"
  shows "snd (lex strtod (texts ps)) = []"
    "map token_kind (fst (lex strtod (texts ps))) = map lexeme_kind (lexs ps) @ [(T_END, NoValue, [])]"
proof -
  have "quiet_step (lex_init (texts ps)) [] (map lexeme_kind (lexs ps)) (lex_loop strtod (lex_init (texts ps)))"
    using assms by (intro lex_loop_pieces) (simp_all add: lex_init_def)
  then show "snd (lex strtod (texts ps)) = []"
    "map token_kind (fst (lex strtod (texts ps))) = map lexeme_kind (lexs ps) @ [(T_END, NoValue, [])]"
    by (simp_all add: quiet_step_def lex_def Let_def lex_init_def addToken_def pushToken_def mkToken_def token_kind_def)
qed

section \<open>The pieces of an expression\<close>

definition commas :: "piece list list \<Rightarrow> piece list" where
  "commas pss = (case pss of [] \<Rightarrow> [] | ps # rest \<Rightarrow> ps @ concat (map (\<lambda>qs. Sy T_COMMA # Blank # qs) rest))"

lemma commas_simps [simp]: "commas [] = []" "commas [ps] = ps"
  "commas (ps # qs # rest) = ps @ Sy T_COMMA # Blank # commas (qs # rest)"
  by (simp_all add: commas_def)

lemma spelling_simps [simp]:
  "spelling T_COMMA = '',''" "spelling T_LP = ''(''" "spelling T_RP = '')''" "spelling T_LB = ''[''" "spelling T_RB = '']''"
  "spelling T_LA = ''<''" "spelling T_RA = ''>''" "spelling T_LE = ''<=''" "spelling T_GE = ''>=''" "spelling T_EQ = ''==''"
  "spelling T_NE = ''!=''" "spelling T_PLUS = ''+''" "spelling T_MINUS = ''-''" "spelling T_STAR = ''*''"
  "spelling T_SLASH = ''/''" "spelling T_DOTSTAR = ''.*''" "spelling T_DOTSLASH = ''./''" "spelling T_EXP = ''^''"
  "spelling T_TRANSPOSE = [CHR 0x27]" "spelling T_BACKSLASH = [CHR 0x5C]" "spelling T_PERIOD = ''.''" "spelling T_COL = '':''"
  "spelling T_TRUE = ''true''" "spelling T_FALSE = ''false''" "spelling T_NOT = ''not''" "spelling T_AND = ''and''"
  "spelling T_OR = ''or''" "spelling T_XOR = ''xor''" "spelling T_MAP = ''map''" "spelling T_TO = ''to''"
  "spelling T_THROUGH = ''through''" "spelling T_REDUCE = ''reduce''"
  by (simp_all add: spelling_def quoted_def)

lemma join_texts_commas: "join (map texts pss) '', '' = texts (commas pss)"
  by (induction pss rule: induct_list012) simp_all

fun core :: "'d fir_expr \<Rightarrow> 'd fir_expr" where
  "core (ParenExpr e) = core e"
| "core e = e"

definition int_pieces :: "int \<Rightarrow> piece list" where
  "int_pieces n = (if n < 0 then [Sy T_MINUS, Lx (IntLit (nat (- n)))] else [Lx (IntLit (nat n))])"

fun index_pieces :: "fir_index_set \<Rightarrow> piece list" where
  "index_pieces (SetIndexSet s) = [Id s]"
| "index_pieces (GenericIndexSet _ s) = [Id s]"
| "index_pieces _ = []"

fun dense_pieces :: "'d dense_literal \<Rightarrow> piece list" where
  "dense_pieces (IntVectorLiteral vals _) = Sy T_LB # commas (map int_pieces vals) @ [Sy T_RB]"
| "dense_pieces (NDTensorLiteral elems _) = Sy T_LB # commas (map dense_pieces elems) @ [Sy T_RB]"
| "dense_pieces _ = []"

definition paren_pieces :: "piece list \<Rightarrow> piece list" where
  "paren_pieces ps = Sy T_LP # ps @ [Sy T_RP]"

definition binary_pieces :: "piece list \<Rightarrow> piece list \<Rightarrow> TokenType \<Rightarrow> piece list" where
  "binary_pieces ps qs ty = paren_pieces ps @ [Blank, Sy ty, Blank] @ paren_pieces qs"

fun eq_token :: "eq_op \<Rightarrow> TokenType" where
  "eq_token OP_LT = T_LA"
| "eq_token OP_LE = T_LE"
| "eq_token OP_GT = T_RA"
| "eq_token OP_GE = T_GE"
| "eq_token OP_EQ = T_EQ"
| "eq_token OP_NE = T_NE"

fun comparison_pieces :: "piece list list \<Rightarrow> eq_op list \<Rightarrow> piece list" where
  "comparison_pieces (ps # pss) (op # ops) = [Blank, Sy (eq_token op), Blank] @ paren_pieces ps @ comparison_pieces pss ops"
| "comparison_pieces _ _ = []"

fun expr_pieces :: "'d fir_expr \<Rightarrow> piece list" where
  "expr_pieces (MapExpr func gs actuals target through red) =
     [Sy T_MAP, Blank, Id func] @ (if actuals = [] then [] else paren_pieces (commas (map expr_pieces actuals))) @
     [Blank, Sy T_TO, Blank] @ index_pieces target @
     (case through of None \<Rightarrow> [] | Some s \<Rightarrow> [Blank, Sy T_THROUGH, Blank] @ index_pieces s) @
     (if red = None then [] else [Blank, Sy T_REDUCE, Blank, Sy T_PLUS])"
| "expr_pieces (OrExpr a b) = binary_pieces (expr_pieces a) (expr_pieces b) T_OR"
| "expr_pieces (AndExpr a b) = binary_pieces (expr_pieces a) (expr_pieces b) T_AND"
| "expr_pieces (XorExpr a b) = binary_pieces (expr_pieces a) (expr_pieces b) T_XOR"
| "expr_pieces (EqExpr operands ops) =
     (case map expr_pieces operands of [] \<Rightarrow> [] | ps # pss \<Rightarrow> paren_pieces ps @ comparison_pieces pss ops)"
| "expr_pieces (NotExpr a) = Sy T_NOT # paren_pieces (expr_pieces a)"
| "expr_pieces (AddExpr a b) = binary_pieces (expr_pieces a) (expr_pieces b) T_PLUS"
| "expr_pieces (SubExpr a b) = binary_pieces (expr_pieces a) (expr_pieces b) T_MINUS"
| "expr_pieces (MulExpr a b) = binary_pieces (expr_pieces a) (expr_pieces b) T_STAR"
| "expr_pieces (DivExpr a b) = binary_pieces (expr_pieces a) (expr_pieces b) T_SLASH"
| "expr_pieces (ElwiseMulExpr a b) = binary_pieces (expr_pieces a) (expr_pieces b) T_DOTSTAR"
| "expr_pieces (ElwiseDivExpr a b) = binary_pieces (expr_pieces a) (expr_pieces b) T_DOTSLASH"
| "expr_pieces (LeftDivExpr a b) = binary_pieces (expr_pieces a) (expr_pieces b) T_BACKSLASH"
| "expr_pieces (NegExpr negate a) = Sy (if negate then T_MINUS else T_PLUS) # paren_pieces (expr_pieces a)"
| "expr_pieces (ExpExpr a b) = binary_pieces (expr_pieces a) (expr_pieces b) T_EXP"
| "expr_pieces (TransposeExpr a) = paren_pieces (expr_pieces a) @ [Sy T_TRANSPOSE]"
| "expr_pieces (CallExpr func gs args) =
     Id func # (if gs = [] then [] else Sy T_LA # commas (map index_pieces gs) @ [Sy T_RA]) @
     paren_pieces (commas (map expr_pieces args))"
| "expr_pieces (TensorReadExpr tensor indices) =
     expr_pieces tensor @
     paren_pieces (commas (map (\<lambda>i. case i of None \<Rightarrow> [Sy T_COL] | Some e \<Rightarrow> expr_pieces e) indices))"
| "expr_pieces (SetReadExpr s indices) = expr_pieces s @ Sy T_LB # commas (map expr_pieces indices) @ [Sy T_RB]"
| "expr_pieces (NamedTupleReadExpr tuple elem) = expr_pieces tuple @ [Sy T_PERIOD, Id elem]"
| "expr_pieces (UnnamedTupleReadExpr tuple index) = expr_pieces tuple @ paren_pieces (expr_pieces index)"
| "expr_pieces (FieldReadExpr setOrElem field) = expr_pieces setOrElem @ [Sy T_PERIOD, Id field]"
| "expr_pieces (ParenExpr e) = expr_pieces e"
| "expr_pieces (VarExpr ident) = [Id ident]"
| "expr_pieces (RangeConst ident) = [Id ident]"
| "expr_pieces (IntLiteral n) = int_pieces n"
| "expr_pieces (BoolLiteral b) = [Sy (if b then T_TRUE else T_FALSE)]"
| "expr_pieces (DenseTensorLiteral l) = dense_pieces l"
| "expr_pieces _ = []"

section \<open>Printable expressions\<close>

definition ident_ok :: "string \<Rightarrow> bool" where
  "ident_ok w = lexeme_ok (Ident w)"

fun index_ok :: "(string \<Rightarrow> IdentType option) \<Rightarrow> fir_index_set \<Rightarrow> bool" where
  "index_ok env (SetIndexSet s) = (ident_ok s \<and> env s \<noteq> Some GENERIC_PARAM \<and> env s \<noteq> Some RANGE_GENERIC_PARAM)"
| "index_ok env (GenericIndexSet ty s) =
     (ident_ok s \<and> env s = Some (if ty = GT_RANGE then RANGE_GENERIC_PARAM else GENERIC_PARAM))"
| "index_ok env _ = False"

fun dense_ok :: "'d dense_literal \<Rightarrow> bool" where
  "dense_ok (IntVectorLiteral vals transposed) = (\<not> transposed \<and> vals \<noteq> [] \<and> list_all (\<lambda>n. \<bar>n\<bar> < 2 ^ 31) vals)"
| "dense_ok (NDTensorLiteral elems transposed) = (\<not> transposed \<and> elems \<noteq> [] \<and> list_all dense_ok elems)"
| "dense_ok _ = False"

text \<open>What may stand before an index in brackets, a field and an index in parentheses.\<close>

fun isa_operand :: "'d fir_expr \<Rightarrow> bool" where
  "isa_operand (VarExpr _) = True"
| "isa_operand (CallExpr _ _ _) = True"
| "isa_operand (NamedTupleReadExpr _ _) = True"
| "isa_operand (UnnamedTupleReadExpr _ _) = True"
| "isa_operand _ = False"

fun isa_SetReadExpr :: "'d fir_expr \<Rightarrow> bool" where
  "isa_SetReadExpr (SetReadExpr _ _) = True"
| "isa_SetReadExpr _ = False"

fun isa_FieldReadExpr :: "'d fir_expr \<Rightarrow> bool" where
  "isa_FieldReadExpr (FieldReadExpr _ _) = True"
| "isa_FieldReadExpr _ = False"

fun isa_TensorReadExpr :: "'d fir_expr \<Rightarrow> bool" where
  "isa_TensorReadExpr (TensorReadExpr _ _) = True"
| "isa_TensorReadExpr _ = False"

fun isa_VarExpr :: "'d fir_expr \<Rightarrow> bool" where
  "isa_VarExpr (VarExpr _) = True"
| "isa_VarExpr _ = False"

definition is_var :: "(string \<Rightarrow> IdentType option) \<Rightarrow> string \<Rightarrow> bool" where
  "is_var env x \<longleftrightarrow> ident_ok x \<and> env x \<noteq> Some FUNCTION \<and> env x \<noteq> Some RANGE_GENERIC_PARAM \<and> env x \<noteq> Some TUPLE"

fun printable :: "(string \<Rightarrow> IdentType option) \<Rightarrow> 'd fir_expr \<Rightarrow> bool" where
  "printable env (MapExpr func gs actuals target through red) =
     (ident_ok func \<and> gs = [] \<and> list_all (printable env) actuals \<and> index_ok env target \<and>
      pred_option (index_ok env) through \<and> red \<noteq> Some RED_NONE)"
| "printable env (OrExpr a b) = (printable env a \<and> printable env b)"
| "printable env (AndExpr a b) = (printable env a \<and> printable env b)"
| "printable env (XorExpr a b) = (printable env a \<and> printable env b)"
| "printable env (EqExpr operands ops) =
     (ops \<noteq> [] \<and> length operands = Suc (length ops) \<and> list_all (printable env) operands)"
| "printable env (NotExpr a) = printable env a"
| "printable env (AddExpr a b) = (printable env a \<and> printable env b)"
| "printable env (SubExpr a b) = (printable env a \<and> printable env b)"
| "printable env (MulExpr a b) = (printable env a \<and> printable env b)"
| "printable env (DivExpr a b) = (printable env a \<and> printable env b)"
| "printable env (ElwiseMulExpr a b) = (printable env a \<and> printable env b)"
| "printable env (ElwiseDivExpr a b) = (printable env a \<and> printable env b)"
| "printable env (LeftDivExpr a b) = (printable env a \<and> printable env b)"
| "printable env (NegExpr negate a) = printable env a"
| "printable env (ExpExpr a b) = (printable env a \<and> printable env b)"
| "printable env (TransposeExpr a) = printable env a"
| "printable env (CallExpr func gs args) =
     (ident_ok func \<and> env func = Some FUNCTION \<and> list_all (index_ok env) gs \<and> list_all (printable env) args)"
| "printable env (TensorReadExpr tensor indices) =
     (printable env tensor \<and> (let t = core tensor in isa_operand t \<or> isa_SetReadExpr t \<or> isa_FieldReadExpr t \<or> isa_TensorReadExpr t) \<and>
      list_all (\<lambda>i. case i of None \<Rightarrow> True | Some e \<Rightarrow> printable env e) indices)"
| "printable env (SetReadExpr s indices) =
     (printable env s \<and> isa_operand (core s) \<and> list_all (printable env) indices)"
| "printable env (NamedTupleReadExpr tuple elem) =
     (case tuple of VarExpr x \<Rightarrow> ident_ok x \<and> env x = Some TUPLE \<and> ident_ok elem | _ \<Rightarrow> False)"
| "printable env (UnnamedTupleReadExpr tuple index) =
     (case tuple of VarExpr x \<Rightarrow> ident_ok x \<and> env x = Some TUPLE \<and> printable env index | _ \<Rightarrow> False)"
| "printable env (FieldReadExpr s field) =
     (printable env s \<and> (isa_operand (core s) \<or> isa_SetReadExpr (core s)) \<and> ident_ok field)"
| "printable env (ParenExpr e) = printable env e"
| "printable env (VarExpr x) = is_var env x"
| "printable env (RangeConst x) = (ident_ok x \<and> env x = Some RANGE_GENERIC_PARAM)"
| "printable env (IntLiteral n) = (0 \<le> n \<and> n < 2 ^ 31)"
| "printable env (BoolLiteral b) = True"
| "printable env (DenseTensorLiteral l) = dense_ok l"
| "printable env _ = False"

end
