(* ===== verification/Printer_Scan.thy ===== *)
theory Printer_Scan
  imports Printer_Text
begin

text \<open>The text of a printable expression is that of its pieces, and scanning it finds the lexemes of the pieces.\<close>

section \<open>The text\<close>

lemma join_pieces: "(\<And>x. x \<in> set xs \<Longrightarrow> f x = texts (g x)) \<Longrightarrow> join (map f xs) '', '' = texts (commas (map g xs))"
proof -
  assume "\<And>x. x \<in> set xs \<Longrightarrow> f x = texts (g x)"
  then have "map f xs = map texts (map g xs)" by simp
  then show ?thesis by (metis join_texts_commas)
qed

lemma texts_paren [simp]: "texts (paren_pieces ps) = ''('' @ texts ps @ '')''"
  by (simp add: paren_pieces_def)

lemma texts_binary [simp]:
  "texts (binary_pieces ps qs ty) = ''('' @ texts ps @ '') '' @ spelling ty @ '' ('' @ texts qs @ '')''"
  by (simp add: binary_pieces_def)

lemma texts_int [simp]: "texts (int_pieces n) = int_to_string n"
  by (simp add: int_pieces_def int_to_string_def)

lemma texts_index: "index_ok env s \<Longrightarrow> texts (index_pieces s) = printIndexSet s"
  by (cases s) simp_all

lemma texts_comparison: "texts (comparison_pieces pss ops) = printComparisons (map texts pss) ops"
proof (induction pss ops rule: comparison_pieces.induct)
  case (1 ps pss op ops)
  then show ?case by (cases op) simp_all
qed simp_all

lemma texts_dense: "dense_ok l \<Longrightarrow> printDense showf l = texts (dense_pieces l)"
proof (induction l)
  case (IntVectorLiteral vals t)
  then show ?case using join_pieces [of vals int_to_string int_pieces] by (simp add: printVector_def)
next
  case (NDTensorLiteral elems t)
  then show ?case using join_pieces [of elems "printDense showf" dense_pieces] by (simp add: printVector_def list_all_iff)
qed simp_all

lemma printExpr_pieces: "printable env e \<Longrightarrow> printExpr showf e = texts (expr_pieces e)"
proof (induction env e rule: printable.induct)
  case (1 env func gs actuals target through red)
  then have "join (map (printExpr showf) actuals) '', '' = texts (commas (map expr_pieces actuals))"
    by (intro join_pieces) (auto simp: list_all_iff)
  moreover have "red = None \<or> red = Some RED_SUM" using 1(2) by (cases red) (auto intro: reduction_op.exhaust)
  ultimately show ?case using 1(2)
    by (cases through) (auto simp: printMapOrApply_def texts_index)
next
  case (5 env operands ops)
  then have "map (printExpr showf) operands = map texts (map expr_pieces operands)" by (simp add: list_all_iff)
  then show ?case by (cases operands) (simp_all add: texts_comparison comp_def cong: map_cong)
next
  case (17 env func gs args)
  then have "join (map (printExpr showf) args) '', '' = texts (commas (map expr_pieces args))"
    by (intro join_pieces) (auto simp: list_all_iff)
  moreover have "join (map printIndexSet gs) '', '' = texts (commas (map index_pieces gs))"
    using 17 by (intro join_pieces) (auto simp: list_all_iff texts_index)
  ultimately show ?case by simp
next
  case (18 env tensor indices)
  then have "join (map (\<lambda>i. case i of None \<Rightarrow> '':'' | Some e \<Rightarrow> printExpr showf e) indices) '', '' =
      texts (commas (map (\<lambda>i. case i of None \<Rightarrow> [Sy T_COL] | Some e \<Rightarrow> expr_pieces e) indices))"
    by (intro join_pieces) (auto simp: list_all_iff split: option.splits)
  then show ?case using 18 by simp
next
  case (19 env s indices)
  then have "join (map (printExpr showf) indices) '', '' = texts (commas (map expr_pieces indices))"
    by (intro join_pieces) (auto simp: list_all_iff)
  then show ?case using 19 by simp
next
  case (20 env tuple elem)
  then show ?case by (cases tuple) simp_all
next
  case (21 env tuple index)
  then show ?case by (cases tuple) simp_all
qed (simp_all add: printBinaryExpr_def printUnaryExpr_def printBoolean_def texts_dense)

section \<open>The lexemes\<close>

text \<open>What may come after an expression: blanks, commas, closing brackets, and what makes it a part of a larger one.\<close>

definition ends_expr :: "'d fir_expr \<Rightarrow> string \<Rightarrow> bool" where
  "ends_expr e rest \<longleftrightarrow> rest = [] \<or> hd rest \<in> {CHR '' '', CHR '','', CHR '')'', CHR '']'', CHR ''('', CHR ''[''} \<or>
     hd rest = CHR ''.'' \<and> (\<forall>n. core e \<noteq> IntLiteral n)"

lemma chained_commas:
  assumes "\<And>ps r. ps \<in> set pss \<Longrightarrow> C r \<Longrightarrow> chained ps r" "\<And>r. C (CHR '','' # r)" "C rest"
  shows "chained (commas pss) rest"
  using assms
proof (induction pss rule: induct_list012)
  case (3 ps qs pss)
  have "chained (commas (qs # pss)) rest" by (rule 3(2)) (use 3 in auto)
  moreover have "chained ps (CHR '','' # CHR '' '' # texts (commas (qs # pss)) @ rest)" using 3(3) 3(4) by auto
  ultimately show ?case by (simp add: spellable_def ends_spelling_def ends_symbol_def isalpha_def)
qed simp_all

lemma chained_commas_map:
  assumes "\<And>x r. x \<in> set xs \<Longrightarrow> C r \<Longrightarrow> chained (g x) r" "\<And>r. C (CHR '','' # r)" "C rest"
  shows "chained (commas (map g xs)) rest"
  by (rule chained_commas [of _ C]) (use assms in auto)

lemmas ends_defs = ends_spelling_def ends_symbol_def ends_word_def ends_number_def word_char_def isalnum_def isalpha_def isdigit_def

text \<open>The ends of words, numbers and symbols before a known character.\<close>

lemma ends_Nil [simp]: "ends_word []" "ends_number []" "ends_symbol []" "ends_spelling ty []"
  by (simp_all add: ends_defs)

lemma ends_word_Cons [simp]: "ends_word (c # r) \<longleftrightarrow> \<not> word_char c"
  by (simp add: ends_word_def)

lemma ends_number_Cons [simp]: "ends_number (c # r) \<longleftrightarrow> \<not> isdigit c \<and> c \<notin> {CHR ''.'', CHR ''e'', CHR ''E''}"
  by (simp add: ends_number_def)

lemma ends_symbol_Cons [simp]: "ends_symbol (c # r) \<longleftrightarrow> c \<notin> {CHR ''='', CHR ''>'', CHR ''*'', CHR ''/''}"
  by (simp add: ends_symbol_def)

lemma chained_index: "index_ok env s \<Longrightarrow> ends_word rest \<Longrightarrow> chained (index_pieces s) rest"
  by (cases s) (auto simp: ident_ok_def)

lemma word_char_simps [simp]: "\<not> word_char (CHR '' '')" "\<not> word_char (CHR '','')" "\<not> word_char (CHR '')'')"
  "\<not> word_char (CHR '']'')" "\<not> word_char (CHR ''('')" "\<not> word_char (CHR ''['')" "\<not> word_char (CHR ''.'')"
  "\<not> word_char (CHR ''<'')" "\<not> word_char (CHR ''>'')"
  by (simp_all add: word_char_def isalnum_def isalpha_def isdigit_def)

lemma isdigit_simps [simp]: "\<not> isdigit (CHR '' '')" "\<not> isdigit (CHR '','')" "\<not> isdigit (CHR '')'')"
  "\<not> isdigit (CHR '']'')" "\<not> isdigit (CHR ''('')" "\<not> isdigit (CHR ''['')" "\<not> isdigit (CHR ''.'')"
  by (simp_all add: isdigit_def)

lemma ends_expr_word: "ends_expr e rest \<Longrightarrow> ends_word rest"
  by (cases rest) (auto simp: ends_expr_def)

lemma ends_expr_symbol: "ends_expr e rest \<Longrightarrow> ends_symbol rest"
  by (cases rest) (auto simp: ends_expr_def)

lemma ends_expr_number: "ends_expr (IntLiteral n) rest \<Longrightarrow> ends_number rest"
  by (cases rest) (auto simp: ends_expr_def)

lemma ends_expr_simps [simp]: "ends_expr e (CHR '')'' # r)" "ends_expr e (CHR '']'' # r)" "ends_expr e (CHR '','' # r)"
  "ends_expr e (CHR ''('' # r)" "ends_expr e (CHR ''['' # r)" "ends_expr e []" "ends_expr e (CHR '' '' # r)"
  by (simp_all add: ends_expr_def)

lemma spellable_simps [simp]: "spellable T_COMMA" "spellable T_LP" "spellable T_RP" "spellable T_LB" "spellable T_RB"
  "spellable T_LA" "spellable T_RA" "spellable T_LE" "spellable T_GE" "spellable T_EQ" "spellable T_NE" "spellable T_PLUS"
  "spellable T_MINUS" "spellable T_STAR" "spellable T_SLASH" "spellable T_DOTSTAR" "spellable T_DOTSLASH" "spellable T_EXP"
  "spellable T_TRANSPOSE" "spellable T_BACKSLASH" "spellable T_PERIOD" "spellable T_COL" "spellable T_TRUE" "spellable T_FALSE"
  "spellable T_NOT" "spellable T_AND" "spellable T_OR" "spellable T_XOR" "spellable T_MAP" "spellable T_TO"
  "spellable T_THROUGH" "spellable T_REDUCE"
  by (simp_all add: spellable_def)

lemma ends_spelling_simps [simp]:
  "ty \<in> {T_COMMA, T_LP, T_RP, T_LB, T_RB, T_LA, T_RA, T_LE, T_GE, T_EQ, T_NE, T_PLUS, T_MINUS, T_STAR, T_SLASH, T_DOTSTAR,
     T_DOTSLASH, T_EXP, T_TRANSPOSE, T_BACKSLASH, T_PERIOD, T_COL} \<Longrightarrow> ends_spelling ty r = ends_symbol r"
  "ty \<in> {T_TRUE, T_FALSE, T_NOT, T_AND, T_OR, T_XOR, T_MAP, T_TO, T_THROUGH, T_REDUCE} \<Longrightarrow> ends_spelling ty r = ends_word r"
  by (auto simp: ends_spelling_def isalpha_def)

text \<open>The first character of a printed expression is one that may come after an opening bracket.\<close>

lemma ident_symbol: "ident_ok w \<Longrightarrow> ends_symbol (w @ r)"
  by (cases w) (auto simp: ident_ok_def word_char_def isalnum_def isalpha_def isdigit_def)

lemma int_symbol: "ends_symbol (int_to_string n @ r)"
proof -
  have "ends_symbol (to_string m @ r)" for m
  proof (cases "to_string m")
    case (Cons c cs)
    then have "isdigit c" using to_string_digits [of m] by simp
    with Cons show ?thesis by (auto simp: isdigit_def)
  qed simp
  then show ?thesis by (simp add: int_to_string_def)
qed

lemma index_symbol: "index_ok env s \<Longrightarrow> ends_symbol (texts (index_pieces s) @ r)"
  by (cases s) (auto simp: ident_symbol)

lemma dense_symbol: "dense_ok l \<Longrightarrow> ends_symbol (texts (dense_pieces l) @ r)"
  by (cases l) simp_all

lemma expr_symbol: "printable env e \<Longrightarrow> ends_symbol (texts (expr_pieces e) @ r)"
proof (induction env e arbitrary: r rule: printable.induct)
  case (5 env operands ops)
  then show ?case by (cases operands) simp_all
next
  case (20 env tuple elem)
  then show ?case by (cases tuple) (simp_all add: ident_symbol)
next
  case (21 env tuple index)
  then show ?case by (cases tuple) (simp_all add: ident_symbol)
qed (simp_all add: ident_symbol int_symbol dense_symbol is_var_def)

lemma commas_symbol: "(\<And>ps r. ps \<in> set pss \<Longrightarrow> ends_symbol (texts ps @ r)) \<Longrightarrow> ends_symbol r \<Longrightarrow> ends_symbol (texts (commas pss) @ r)"
  by (simp add: commas_def split: list.split)

text \<open>A bracketed list of pieces is chained when its elements are, before a comma and before the closing bracket.\<close>

lemma commas_map_symbol:
  "(\<And>x r. x \<in> set xs \<Longrightarrow> ends_symbol (texts (g x) @ r)) \<Longrightarrow> ends_symbol r \<Longrightarrow> ends_symbol (texts (commas (map g xs)) @ r)"
  by (rule commas_symbol) auto

lemma chained_paren: "chained ps (CHR '')'' # rest) \<Longrightarrow> ends_symbol (texts ps @ CHR '')'' # rest) \<Longrightarrow> ends_symbol rest \<Longrightarrow>
  chained (paren_pieces ps) rest"
  by (simp add: paren_pieces_def)

lemma chained_int: "\<bar>n\<bar> < 2 ^ 31 \<Longrightarrow> ends_number rest \<Longrightarrow> chained (int_pieces n) rest"
  using int_symbol [of "- n" rest] by (auto simp: int_pieces_def int_to_string_def)

lemma chained_ints:
  assumes "list_all (\<lambda>n. \<bar>n\<bar> < 2 ^ 31) ns"
  shows "chained (commas (map int_pieces ns)) (CHR '']'' # rest)"
  using assms by (intro chained_commas_map [of _ ends_number]) (auto simp: list_all_iff intro: chained_int)

lemma chained_dense: "dense_ok l \<Longrightarrow> ends_symbol rest \<Longrightarrow> chained (dense_pieces l) rest"
proof (induction l arbitrary: rest)
  case (IntVectorLiteral vals t)
  then have "ends_symbol (texts (commas (map int_pieces vals)) @ CHR '']'' # rest)"
    by (intro commas_map_symbol) (auto simp: int_symbol)
  with IntVectorLiteral show ?case using chained_ints by simp
next
  case (NDTensorLiteral elems t)
  have "chained (commas (map dense_pieces elems)) (CHR '']'' # rest)"
    using NDTensorLiteral by (intro chained_commas_map [of _ ends_symbol]) (auto simp: list_all_iff)
  moreover have "ends_symbol (texts (commas (map dense_pieces elems)) @ CHR '']'' # rest)"
    using NDTensorLiteral by (intro commas_map_symbol) (auto simp: list_all_iff dense_symbol)
  ultimately show ?case using NDTensorLiteral.prems by simp
qed simp_all

definition chained_expr :: "'d fir_expr \<Rightarrow> bool" where
  "chained_expr e \<longleftrightarrow> (\<forall>rest. ends_expr e rest \<longrightarrow> chained (expr_pieces e) rest)"

lemma chained_exprs:
  assumes "\<And>e. e \<in> set es \<Longrightarrow> chained_expr e" "rest \<noteq> []" "hd rest = CHR '')'' \<or> hd rest = CHR '']''"
  shows "chained (commas (map expr_pieces es)) rest"
proof (rule chained_commas_map [of _ "\<lambda>r. r \<noteq> [] \<and> hd r \<in> {CHR '','', CHR '')'', CHR '']''}"])
  show "chained (expr_pieces e) r" if "e \<in> set es" "r \<noteq> [] \<and> hd r \<in> {CHR '','', CHR '')'', CHR '']''}" for e r
  proof -
    have "ends_expr e r" using that(2) by (cases r) auto
    with assms(1) [OF that(1)] show ?thesis by (simp add: chained_expr_def)
  qed
qed (use assms in auto)

lemma chained_paren_expr: "printable env e \<Longrightarrow> chained_expr e \<Longrightarrow> ends_symbol rest \<Longrightarrow> chained (paren_pieces (expr_pieces e)) rest"
  by (intro chained_paren) (auto simp: chained_expr_def expr_symbol)

lemma chained_binary:
  assumes "printable env a \<and> printable env b" "chained_expr a" "chained_expr b" "ends_symbol rest" "spellable ty"
    "ends_spelling ty (CHR '' '' # CHR ''('' # texts (expr_pieces b) @ CHR '')'' # rest)"
  shows "chained (binary_pieces (expr_pieces a) (expr_pieces b) ty) rest"
  using assms by (auto simp: binary_pieces_def intro!: chained_paren_expr)

lemma chained_comparisons:
  assumes "\<And>e. e \<in> set es \<Longrightarrow> chained_expr e \<and> printable env e" "ends_symbol rest"
  shows "chained (comparison_pieces (map expr_pieces es) ops) rest"
  using assms(1)
proof (induction es arbitrary: ops)
  case (Cons e es)
  show ?case
  proof (cases ops)
    case c: (Cons op ops')
    have "ends_symbol (texts (comparison_pieces (map expr_pieces es) ops') @ rest)"
      using assms(2) by (cases es; cases ops') simp_all
    moreover have "chained_expr e" "printable env e" using Cons.prems by auto
    ultimately have "chained (paren_pieces (expr_pieces e)) (texts (comparison_pieces (map expr_pieces es) ops') @ rest)"
      by (intro chained_paren_expr)
    moreover have "chained (comparison_pieces (map expr_pieces es) ops') rest" using Cons by simp
    ultimately show ?thesis by (cases op) (simp_all add: c)
  qed simp
qed simp

lemma expr_end_operand: "isa_operand (core e) \<or> isa_SetReadExpr (core e) \<or> isa_FieldReadExpr (core e) \<or> isa_TensorReadExpr (core e) \<Longrightarrow>
  ends_expr e (CHR ''.'' # r)"
  by (auto simp: ends_expr_def)

lemma exprs_symbol:
  "(\<And>e. e \<in> set es \<Longrightarrow> printable env e) \<Longrightarrow> ends_symbol r \<Longrightarrow> ends_symbol (texts (commas (map expr_pieces es)) @ r)"
  by (rule commas_map_symbol) (auto intro: expr_symbol)

lemma chained_bracket:
  assumes "\<And>e. e \<in> set es \<Longrightarrow> printable env e \<and> chained_expr e" "ends_symbol rest"
  shows "chained (Sy T_LB # commas (map expr_pieces es) @ [Sy T_RB]) rest"
    "chained (paren_pieces (commas (map expr_pieces es))) rest"
  using assms chained_exprs [of es] exprs_symbol [of es env]
  by (auto intro!: chained_paren)

lemma printable_chained: "printable env e \<Longrightarrow> chained_expr e"
proof (induction env e rule: printable.induct)
  case (1 env func gs actuals target through red)
  show ?case unfolding chained_expr_def
  proof (intro allI impI)
    fix rest assume "ends_expr (MapExpr func gs actuals target through red) rest"
    note w = ends_expr_word [OF this] ends_expr_symbol [OF this]
    have "chained (paren_pieces (commas (map expr_pieces actuals))) r" if "ends_symbol r" for r
      using 1 that by (intro chained_bracket(2)) (auto simp: list_all_iff)
    moreover have "chained (index_pieces s) r" if "index_ok env s" "ends_word r" for s r using that by (rule chained_index)
    ultimately show "chained (expr_pieces (MapExpr func gs actuals target through red)) rest"
      using 1(2) w by (cases through) (auto simp: ident_ok_def)
  qed
next
  case (5 env operands ops)
  show ?case unfolding chained_expr_def
  proof (intro allI impI)
    fix rest assume "ends_expr (EqExpr operands ops) rest"
    note w = ends_expr_symbol [OF this]
    obtain e es where e: "operands = e # es" using 5(2) by (cases operands) auto
    have "ends_symbol (texts (comparison_pieces (map expr_pieces es) ops) @ rest)"
      using w by (cases es; cases ops) simp_all
    then have "chained (paren_pieces (expr_pieces e)) (texts (comparison_pieces (map expr_pieces es) ops) @ rest)"
      using 5 by (intro chained_paren_expr [of env]) (auto simp: e)
    moreover have "chained (comparison_pieces (map expr_pieces es) ops) rest"
      using 5 w by (intro chained_comparisons [of _ env]) (auto simp: e list_all_iff)
    ultimately show "chained (expr_pieces (EqExpr operands ops)) rest" by (simp add: e)
  qed
next
  case (17 env func gs args)
  show ?case unfolding chained_expr_def
  proof (intro allI impI)
    fix rest assume "ends_expr (CallExpr func gs args) rest"
    note w = ends_expr_symbol [OF this]
    have "chained (paren_pieces (commas (map expr_pieces args))) rest"
      using 17 w by (intro chained_bracket(2)) (auto simp: list_all_iff)
    moreover have "chained (commas (map index_pieces gs)) (CHR ''>'' # r)" for r
      using 17(2) by (intro chained_commas_map [of _ ends_word]) (auto simp: list_all_iff chained_index)
    moreover have "ends_symbol (texts (commas (map index_pieces gs)) @ CHR ''>'' # r)" if "gs \<noteq> []" for r
      using 17(2) that index_symbol by (cases gs) (auto simp: commas_def)
    ultimately show "chained (expr_pieces (CallExpr func gs args)) rest"
      using 17(2) by (auto simp: ident_ok_def)
  qed
next
  case (18 env tensor indices)
  let ?g = "\<lambda>i. case i of None \<Rightarrow> [Sy T_COL] | Some e \<Rightarrow> expr_pieces e"
  show ?case unfolding chained_expr_def
  proof (intro allI impI)
    fix rest assume "ends_expr (TensorReadExpr tensor indices) rest"
    note w = ends_expr_symbol [OF this]
    have "chained (commas (map ?g indices)) (CHR '')'' # rest)"
    proof (rule chained_commas_map [of _ "\<lambda>r. r \<noteq> [] \<and> hd r \<in> {CHR '','', CHR '')''}"])
      show "chained (?g i) r" if "i \<in> set indices" "r \<noteq> [] \<and> hd r \<in> {CHR '','', CHR '')''}" for i r
      proof (cases i)
        case None
        then show ?thesis using that(2) by (cases r) auto
      next
        case (Some e)
        have "ends_expr e r" using that(2) by (cases r) auto
        moreover have "chained_expr e" using 18 that(1) Some by (auto simp: list_all_iff)
        ultimately show ?thesis by (simp add: chained_expr_def Some)
      qed
    qed auto
    moreover have "ends_symbol (texts (commas (map ?g indices)) @ CHR '')'' # rest)"
      using 18(3) by (intro commas_map_symbol) (auto simp: list_all_iff expr_symbol split: option.splits)
    ultimately have "chained (paren_pieces (commas (map ?g indices))) rest" using w by (intro chained_paren)
    moreover have "chained (expr_pieces tensor) (CHR ''('' # r)" for r using 18 by (simp add: chained_expr_def)
    ultimately show "chained (expr_pieces (TensorReadExpr tensor indices)) rest" by simp
  qed
next
  case (19 env s indices)
  show ?case unfolding chained_expr_def
  proof (intro allI impI)
    fix rest assume "ends_expr (SetReadExpr s indices) rest"
    note w = ends_expr_symbol [OF this]
    have "chained (Sy T_LB # commas (map expr_pieces indices) @ [Sy T_RB]) rest"
      using 19 w by (intro chained_bracket(1) [of _ env]) (auto simp: list_all_iff)
    moreover have "chained (expr_pieces s) (CHR ''['' # r)" for r using 19 by (simp add: chained_expr_def)
    ultimately show "chained (expr_pieces (SetReadExpr s indices)) rest" by simp
  qed
next
  case (20 env tuple elem)
  then show ?case
    by (cases tuple) (auto simp: chained_expr_def ident_ok_def ident_symbol [unfolded ident_ok_def] dest: ends_expr_word)
next
  case (21 env tuple index)
  then show ?case
    by (cases tuple) (auto simp: chained_expr_def ident_ok_def chained_paren_expr dest: ends_expr_symbol)
next
  case (22 env s field)
  then have "chained (expr_pieces s) (CHR ''.'' # r)" for r
    using expr_end_operand [of s] by (auto simp: chained_expr_def)
  with 22(2) ident_symbol show ?case by (auto simp: chained_expr_def ident_ok_def dest: ends_expr_word)
next
  case (26 env n)
  then show ?case by (auto simp: chained_expr_def intro!: chained_int dest: ends_expr_number)
next
  case (28 env l)
  then show ?case by (auto simp: chained_expr_def intro!: chained_dense dest: ends_expr_symbol)
next
  case (23 env e)
  then show ?case by (simp add: chained_expr_def ends_expr_def)
qed (auto simp: chained_expr_def ident_ok_def is_var_def intro!: chained_binary chained_paren_expr
    dest: ends_expr_symbol ends_expr_word)

end
