(* ===== verification/Printer_Reads.thy ===== *)
theory Printer_Reads
  imports Printer_Scan Parser_Total
begin

text \<open>
  The parser reads a printed expression back: a calculus of what a parser reads, on the kinds of the tokens, with one
  rule per combinator, and the levels of precedence that hand an expression on.
\<close>

section \<open>Reading\<close>

type_synonym 'd kind = "TokenType \<times> 'd token_value \<times> string"

definition reads :: "(string \<Rightarrow> IdentType option) \<Rightarrow> ('d, 'a) parser \<Rightarrow> 'd kind list \<Rightarrow> 'd kind list \<Rightarrow> 'a \<Rightarrow> bool" where
  "reads env p T R x \<longleftrightarrow> (\<forall>s. look_symbol (p_decls s) = env \<longrightarrow> map token_kind (p_tokens s) = T \<longrightarrow>
     (\<exists>ts. p s = (Parsed x, s\<lparr>p_tokens := ts\<rparr>) \<and> map token_kind ts = R))"

lemma readsD:
  "reads env p T R x \<Longrightarrow> look_symbol (p_decls s) = env \<Longrightarrow> map token_kind (p_tokens s) = T \<Longrightarrow>
   \<exists>ts. p s = (Parsed x, s\<lparr>p_tokens := ts\<rparr>) \<and> map token_kind ts = R"
  by (simp add: reads_def)

lemma reads_ret: "reads env (ret x) T T x"
  unfolding reads_def ret_def by (intro allI impI exI conjI) auto

lemma reads_bind:
  assumes "reads env p T M x" "reads env (f x) M R y"
  shows "reads env (pbind p f) T R y"
  unfolding reads_def
proof (intro allI impI)
  fix s :: "'a pstate" assume s: "look_symbol (p_decls s) = env" "map token_kind (p_tokens s) = T"
  obtain ts where ts: "p s = (Parsed x, s\<lparr>p_tokens := ts\<rparr>)" "map token_kind ts = M" using readsD [OF assms(1) s] by blast
  have "\<exists>ts'. f x (s\<lparr>p_tokens := ts\<rparr>) = (Parsed y, s\<lparr>p_tokens := ts\<rparr>\<lparr>p_tokens := ts'\<rparr>) \<and> map token_kind ts' = R"
    by (rule readsD [OF assms(2)]) (use s ts in simp_all)
  then show "\<exists>ts. pbind p f s = (Parsed y, s\<lparr>p_tokens := ts\<rparr>) \<and> map token_kind ts = R"
    using ts(1) by (auto simp: pbind_def)
qed

lemma reads_then: "reads env p T M x \<Longrightarrow> reads env q M R y \<Longrightarrow> reads env (pthen p q) T R y"
  unfolding pthen_def by (rule reads_bind)

lemma reads_map: "reads env p T R x \<Longrightarrow> reads env (pbind p (\<lambda>x. ret (f x))) T R (f x)"
  by (erule reads_bind) (rule reads_ret)

lemma reads_look: "(\<And>s. look_symbol (p_decls s) = env \<Longrightarrow> map token_kind (p_tokens s) = T \<Longrightarrow> \<exists>t. p s = (Parsed t, s) \<and> Q t) \<Longrightarrow>
  (\<And>t. Q t \<Longrightarrow> reads env (f t) T R y) \<Longrightarrow> reads env (pbind p f) T R y"
  unfolding reads_def pbind_def by fastforce

lemma reads_peek:
  assumes "\<And>t. token_kind t = k \<Longrightarrow> reads env (f t) (k # T) R y"
  shows "reads env (pbind (p_peek 0) f) (k # T) R y"
proof (rule reads_look)
  show "\<exists>t. p_peek 0 s = (Parsed t, s) \<and> token_kind t = k" if "map token_kind (p_tokens s) = k # T" for s :: "'a pstate"
    using that by (cases "p_tokens s") (auto simp: p_peek_def peek_def from_result_def)
qed (rule assms)

lemma reads_peek_1:
  assumes "\<And>t. token_kind t = k1 \<Longrightarrow> reads env (f t) (k # k1 # T) R y"
  shows "reads env (pbind (p_peek 1) f) (k # k1 # T) R y"
proof (rule reads_look)
  show "\<exists>t. p_peek 1 s = (Parsed t, s) \<and> token_kind t = k1" if "map token_kind (p_tokens s) = k # k1 # T" for s :: "'a pstate"
    using that by (cases "p_tokens s"; cases "tl (p_tokens s)") (auto simp: p_peek_def peek_def from_result_def)
qed (rule assms)

lemma reads_consume:
  assumes "fst k = ty" "\<And>t. token_kind t = k \<Longrightarrow> reads env (f t) T R y"
  shows "reads env (pbind (p_consume ty) f) (k # T) R y"
  unfolding reads_def
proof (intro allI impI)
  fix s :: "'a pstate" assume s: "look_symbol (p_decls s) = env" "map token_kind (p_tokens s) = k # T"
  then obtain t ts where t: "p_tokens s = t # ts" "token_kind t = k" "map token_kind ts = T" by auto
  then have "p_consume ty s = (Parsed t, s\<lparr>p_tokens := ts\<rparr>)"
    using assms(1) by (auto simp: p_consume_def pbind_def p_peek_def peek_def from_result_def p_tryConsume_def consume_def
        ret_def token_kind_def)
  moreover have "\<exists>ts'. f t (s\<lparr>p_tokens := ts\<rparr>) = (Parsed y, s\<lparr>p_tokens := ts\<rparr>\<lparr>p_tokens := ts'\<rparr>) \<and> map token_kind ts' = R"
    by (rule readsD [OF assms(2) [OF t(2)]]) (use s t in simp_all)
  ultimately show "\<exists>ts. pbind (p_consume ty) f s = (Parsed y, s\<lparr>p_tokens := ts\<rparr>) \<and> map token_kind ts = R"
    by (auto simp: pbind_def)
qed

lemma reads_consume_then: "fst k = ty \<Longrightarrow> reads env q T R y \<Longrightarrow> reads env (pthen (p_consume ty) q) (k # T) R y"
  unfolding pthen_def by (rule reads_consume)

lemma reads_tryConsume: "reads env (p_tryConsume ty) (k # T) (if fst k = ty then T else k # T) (fst k = ty)"
  unfolding reads_def
proof (intro allI impI)
  fix s :: "'a pstate" assume "map token_kind (p_tokens s) = k # T"
  then obtain t ts where "p_tokens s = t # ts" "token_kind t = k" "map token_kind ts = T" by auto
  then show "\<exists>ts. p_tryConsume ty s = (Parsed (fst k = ty), s\<lparr>p_tokens := ts\<rparr>) \<and>
      map token_kind ts = (if fst k = ty then T else k # T)"
    by (auto simp: p_tryConsume_def consume_def token_kind_def)
qed

lemma reads_try_yes: "fst k = ty \<Longrightarrow> reads env (f True) T R y \<Longrightarrow> reads env (pbind (p_tryConsume ty) f) (k # T) R y"
  by (rule reads_bind [OF reads_tryConsume]) simp

lemma reads_try_no: "fst k \<noteq> ty \<Longrightarrow> reads env (f False) (k # T) R y \<Longrightarrow> reads env (pbind (p_tryConsume ty) f) (k # T) R y"
  by (rule reads_bind [OF reads_tryConsume]) simp

lemma reads_fuelled: "reads env (p (Suc (length T))) T R x \<Longrightarrow> reads env (fuelled p) T R x"
  unfolding reads_def fuelled_def by (metis length_map)

lemma p_lookup_look: "p_lookup name s = (Parsed (look_symbol (p_decls s) name), s)"
proof (cases "contains_scopes (scopes (p_decls s)) name")
  case True
  then obtain v where "get_scopes (scopes (p_decls s)) name = Inr v" using get_scopes_contains by fast
  with True show ?thesis
    by (simp add: p_lookup_def pbind_def p_contains_def from_result_def contains_symbol_def get_symbol_def ret_def look_symbol_def)
next
  case False
  then have "\<exists>e. get_scopes (scopes (p_decls s)) name = Inl e" using get_scopes_contains by (metis sum.exhaust)
  with False show ?thesis
    by (auto simp: p_lookup_def pbind_def p_contains_def from_result_def contains_symbol_def get_symbol_def ret_def look_symbol_def)
qed

lemma reads_lookup: "reads env (f (env name)) T R y \<Longrightarrow> reads env (pbind (p_lookup name) f) T R y"
  by (rule reads_look [where Q = "\<lambda>t. t = env name"]) (auto simp: p_lookup_look)

lemma reads_num: "token_kind t = (ty, IntValue n, w) \<Longrightarrow> reads env (f n) T R y \<Longrightarrow> reads env (pbind (token_num t) f) T R y"
  by (rule reads_look [where Q = "\<lambda>x. x = n"]) (auto simp: token_num_def ret_def token_kind_def)

section \<open>Loops\<close>

abbreviation kinds :: "piece list \<Rightarrow> 'd kind list" where
  "kinds ps \<equiv> map lexeme_kind (lexs ps)"

lemma reads_sepBy_n:
  assumes "\<And>x k R. x \<in> set xs \<Longrightarrow> fst k \<in> {T_COMMA, c} \<Longrightarrow> reads env p (kinds (g x) @ k # R) (k # R) (f x)"
    and "xs \<noteq> []" "length xs \<le> n" "fst k = c" "c \<noteq> T_COMMA"
  shows "reads env (p_sepBy_n T_COMMA p n) (kinds (commas (map g xs)) @ k # R) (k # R) (map f xs)"
  using assms(1-3)
proof (induction xs arbitrary: n rule: induct_list012)
  case (2 x)
  then obtain m where n: "n = Suc m" by (cases n) auto
  have p: "reads env p (kinds (g x) @ k # R) (k # R) (f x)" using 2(1) assms(4) by simp
  have "reads env (p_sepBy_n T_COMMA p (Suc m)) (kinds (g x) @ k # R) (k # R) [f x]"
    unfolding p_sepBy_n.simps
    by (rule reads_bind [OF p], rule reads_try_no) (use assms(4,5) in \<open>simp_all add: reads_ret\<close>)
  then show ?case by (simp add: n del: p_sepBy_n.simps)
next
  case (3 x y xs)
  then obtain m where n: "n = Suc m" by (cases n) auto
  let ?T = "kinds (commas (map g (y # xs))) @ k # R"
  have "reads env (p_sepBy_n T_COMMA p m) ?T (k # R) (map f (y # xs))"
    using 3 n by (intro 3(2)) auto
  then have "reads env (pbind (p_sepBy_n T_COMMA p m) (\<lambda>xs. ret (f x # xs))) ?T (k # R) (f x # map f (y # xs))"
    by (rule reads_map)
  note rest = this
  let ?C = "(T_COMMA, NoValue, [])"
  have p: "reads env p (kinds (g x) @ ?C # ?T) (?C # ?T) (f x)" using 3(3) by simp
  have "reads env (p_sepBy_n T_COMMA p (Suc m)) (kinds (g x) @ ?C # ?T) (k # R) (f x # map f (y # xs))"
    unfolding p_sepBy_n.simps by (rule reads_bind [OF p], rule reads_try_yes) (use rest in simp_all)
  then show ?case by (simp add: n del: p_sepBy_n.simps)
qed simp

lemma commas_length: "length pss \<le> Suc (length (lexs (commas pss)))"
  by (induction pss rule: induct_list012) simp_all

lemma reads_sepBy:
  assumes "\<And>x k R. x \<in> set xs \<Longrightarrow> fst k \<in> {T_COMMA, c} \<Longrightarrow> reads env p (kinds (g x) @ k # R) (k # R) (f x)"
    and "xs \<noteq> []" "fst k = c" "c \<noteq> T_COMMA"
  shows "reads env (p_sepBy T_COMMA p) (kinds (commas (map g xs)) @ k # R) (k # R) (map f xs)"
  unfolding p_sepBy_def
  by (rule reads_fuelled, rule reads_sepBy_n) (use assms commas_length [of "map g xs"] in auto)

lemma length_concat_Cons: "length xs \<le> length (concat (map (\<lambda>x. c x # h x) xs))"
  by (induction xs) auto

lemma reads_elems_n:
  assumes "\<And>x k R. x \<in> set xs \<Longrightarrow> fst k \<in> {T_COMMA, c} \<Longrightarrow> reads env p (kinds (g x) @ k # R) (k # R) (f x)"
    and "length xs < n" "fst k = c" "c \<noteq> T_COMMA" "\<not> starts c"
  shows "reads env (p_elems_n starts p n)
    (concat (map (\<lambda>x. (T_COMMA, NoValue, []) # kinds (g x)) xs) @ k # R) (k # R) (map f xs)"
  using assms(1,2)
proof (induction xs arbitrary: n)
  case Nil
  then obtain m where n: "n = Suc m" by (cases n) auto
  show ?case unfolding n p_elems_n.simps
    using assms by (auto simp: token_kind_def intro!: reads_peek reads_ret)
next
  case (Cons x xs)
  then obtain m where n: "n = Suc m" by (cases n) auto
  let ?T = "concat (map (\<lambda>x. (T_COMMA, NoValue, []) # kinds (g x)) xs) @ k # R"
  have "reads env (p_elems_n starts p m) ?T (k # R) (map f xs)" using Cons n by (intro Cons.IH) auto
  then have rest: "reads env (pbind (p_elems_n starts p m) (\<lambda>xs. ret (f x # xs))) ?T (k # R) (f x # map f xs)"
    by (rule reads_map)
  have "\<exists>k' R'. ?T = k' # R' \<and> fst k' \<in> {T_COMMA, c}" using assms(3) by (cases xs) auto
  then have "reads env p (kinds (g x) @ ?T) ?T (f x)" using Cons.prems(1) [of x] by auto
  with rest show ?case unfolding n p_elems_n.simps
    by (auto simp: token_kind_def intro!: reads_peek reads_consume_then reads_bind [where x = "f x"])
qed

lemma reads_elems:
  assumes "\<And>x k R. x \<in> set xs \<Longrightarrow> fst k \<in> {T_COMMA, c} \<Longrightarrow> reads env p (kinds (g x) @ k # R) (k # R) (f x)"
    and "xs \<noteq> []" "fst k = c" "c \<noteq> T_COMMA" "\<not> starts c"
  shows "reads env (p_elems starts p) (kinds (commas (map g xs)) @ k # R) (k # R) (map f xs)"
proof -
  obtain y ys where xs: "xs = y # ys" using assms(2) by (cases xs) auto
  let ?T = "concat (map (\<lambda>x. (T_COMMA, NoValue, []) # kinds (g x)) ys) @ k # R"
  have split: "kinds (commas (map g xs)) @ k # R = kinds (g y) @ ?T"
    unfolding xs commas_def by (induction ys) auto
  have "reads env (p_elems_n starts p (Suc (length ?T))) ?T (k # R) (map f ys)"
  proof (rule reads_elems_n [where c = c])
    show "length ys < Suc (length ?T)"
      by (rule le_imp_less_Suc, simp, rule le_SucI, rule trans_le_add1, rule length_concat_Cons)
  qed (use assms xs in auto)
  then have "reads env (fuelled (p_elems_n starts p)) ?T (k # R) (map f ys)" by (rule reads_fuelled)
  then have "reads env (pbind (fuelled (p_elems_n starts p)) (\<lambda>xs. ret (f y # xs))) ?T (k # R) (f y # map f ys)"
    by (rule reads_map)
  moreover have "reads env p (kinds (g y) @ ?T) ?T (f y)"
  proof -
    have "\<exists>k' R'. ?T = k' # R' \<and> fst k' \<in> {T_COMMA, c}" using assms(3) by (cases ys) auto
    then show ?thesis using assms(1) [of y] xs by auto
  qed
  ultimately show ?thesis unfolding p_elems_def split using xs by (auto intro: reads_bind)
qed

lemma reads_binary_none:
  assumes "reads env p T (k # R) x" "op (fst k) = None"
  shows "reads env (p_binary op p) T (k # R) x"
  unfolding p_binary_def
  by (rule reads_bind [OF assms(1)], rule reads_fuelled)
    (use assms(2) in \<open>auto simp: token_kind_def intro!: reads_peek reads_ret split: option.split\<close>)

lemma reads_binary_one:
  assumes "reads env p T (k # M) x" "op (fst k) = Some mk" "reads env p M (k' # R) y" "op (fst k') = None"
  shows "reads env (p_binary op p) T (k' # R) (mk x y)"
proof -
  have "reads env (p_binary_n op p (Suc n) e) (k' # R) (k' # R) e" for n e
    using assms(4) by (auto simp: token_kind_def intro!: reads_peek reads_ret split: option.split)
  note last = this
  have "reads env (p_binary_n op p (Suc (length (k # M))) x) (k # M) (k' # R) (mk x y)"
    unfolding p_binary_n.simps
  proof (rule reads_peek)
    fix t :: "'a token" assume t: "token_kind t = k"
    then have "op (token_type t) = Some mk" using assms(2) by (auto simp: token_kind_def)
    then show "reads env (case op (token_type t) of None \<Rightarrow> ret x
        | Some mk \<Rightarrow> pthen (p_consume (token_type t)) (pbind p (\<lambda>r. p_binary_n op p (length (k # M)) (mk x r)))) (k # M) (k' # R) (mk x y)"
      using t last assms(3) by (auto simp: token_kind_def intro!: reads_consume_then reads_bind simp del: p_binary_n.simps)
  qed
  then show ?thesis unfolding p_binary_def by (intro reads_bind [OF assms(1)] reads_fuelled)
qed

section \<open>The levels of expressions\<close>

text \<open>A level hands on what the tighter level reads when the next token is none of its own.\<close>

lemma token_type_kind: "token_kind t = k \<Longrightarrow> token_type t = fst k"
  by (auto simp: token_kind_def)

lemma token_str_kind: "token_kind t = k \<Longrightarrow> token_str t = snd (snd k)"
  by (auto simp: token_kind_def)

lemma reads_setRead_none:
  "reads env (parseFactor pE) T (k # R) x \<Longrightarrow> fst k \<noteq> T_LB \<Longrightarrow> reads env (parseSetReadExpr pE) T (k # R) x"
  unfolding parseSetReadExpr_def by (erule reads_bind) (auto intro!: reads_try_no reads_ret)

lemma reads_fieldRead_none:
  "reads env (parseSetReadExpr pE) T (k # R) x \<Longrightarrow> fst k \<noteq> T_PERIOD \<Longrightarrow> reads env (parseFieldReadExpr pE) T (k # R) x"
  unfolding parseFieldReadExpr_def by (erule reads_bind) (auto intro!: reads_try_no reads_ret)

lemma reads_tensorReads_none: "fst k \<noteq> T_LP \<Longrightarrow> reads env (p_tensorReads_n pE (Suc n) x) (k # R) (k # R) x"
  by (auto intro!: reads_try_no reads_ret)

lemma reads_tensorRead_none:
  "reads env (parseFieldReadExpr pE) T (k # R) x \<Longrightarrow> fst k \<noteq> T_LP \<Longrightarrow> reads env (parseTensorReadExpr pE) T (k # R) x"
  unfolding parseTensorReadExpr_def by (erule reads_bind) (rule reads_fuelled, rule reads_tensorReads_none)

lemma reads_transposes_none: "fst k \<noteq> T_TRANSPOSE \<Longrightarrow> reads env (p_transposes_n (Suc n) x) (k # R) (k # R) x"
  by (auto simp: token_type_kind intro!: reads_peek reads_ret)

lemma reads_transpose_none:
  "reads env (parseTensorReadExpr pE) T (k # R) x \<Longrightarrow> fst k \<noteq> T_TRANSPOSE \<Longrightarrow> reads env (parseTransposeExpr pE) T (k # R) x"
  unfolding parseTransposeExpr_def by (erule reads_bind) (rule reads_fuelled, rule reads_transposes_none)

lemma reads_exp_n_none:
  "reads env (parseTransposeExpr pE) T (k # R) x \<Longrightarrow> fst k \<noteq> T_EXP \<Longrightarrow> reads env (parseExpExpr_n pE (Suc n)) T (k # R) x"
  unfolding parseExpExpr_n.simps by (erule reads_bind) (auto intro!: reads_try_no reads_ret)

lemma reads_exp_none:
  "reads env (parseTransposeExpr pE) T (k # R) x \<Longrightarrow> fst k \<noteq> T_EXP \<Longrightarrow> reads env (parseExpExpr pE) T (k # R) x"
  unfolding parseExpExpr_def by (rule reads_fuelled) (rule reads_exp_n_none)

lemma reads_neg_n_none:
  assumes "reads env (parseExpExpr pE) (k0 # T) R x" "fst k0 \<noteq> T_MINUS" "fst k0 \<noteq> T_PLUS"
  shows "reads env (parseNegExpr_n pE (Suc n)) (k0 # T) R x"
  unfolding parseNegExpr_n.simps by (rule reads_peek) (use assms in \<open>simp add: token_type_kind\<close>)

lemma reads_neg_none:
  "reads env (parseExpExpr pE) (k0 # T) R x \<Longrightarrow> fst k0 \<noteq> T_MINUS \<Longrightarrow> fst k0 \<noteq> T_PLUS \<Longrightarrow>
   reads env (parseNegExpr pE) (k0 # T) R x"
  unfolding parseNegExpr_def by (rule reads_fuelled) (rule reads_neg_n_none)

lemma reads_term_n_none:
  assumes "reads env (parseAddExpr pE) (k0 # T) R x" "fst k0 \<noteq> T_NOT"
  shows "reads env (parseTerm_n pE (Suc n)) (k0 # T) R x"
  unfolding parseTerm_n.simps by (rule reads_peek) (use assms in \<open>simp add: token_type_kind\<close>)

lemma reads_term_none:
  "reads env (parseAddExpr pE) (k0 # T) R x \<Longrightarrow> fst k0 \<noteq> T_NOT \<Longrightarrow> reads env (parseTerm pE) (k0 # T) R x"
  unfolding parseTerm_def by (rule reads_fuelled) (rule reads_term_n_none)

lemma reads_comparisons_none: "eqOp (fst k) = None \<Longrightarrow> reads env (p_comparisons_n p (Suc n)) (k # R) (k # R) []"
  unfolding p_comparisons_n.simps by (rule reads_peek) (simp add: token_type_kind reads_ret del: eqOp.simps)

lemma reads_eq_none:
  assumes "reads env (parseTerm pE) T (k # R) x" "eqOp (fst k) = None"
  shows "reads env (parseEqExpr pE) T (k # R) x"
  unfolding parseEqExpr_def
  by (rule reads_bind [OF assms(1)], rule reads_bind [where M = "k # R" and x = "[]"], rule reads_fuelled,
      rule reads_comparisons_none [OF assms(2)]) (simp add: reads_ret)

text \<open>The tokens of the operators, and the tokens that end an expression.\<close>

definition postfix_tokens :: "TokenType set" where
  "postfix_tokens = {T_LB, T_PERIOD, T_LP, T_TRANSPOSE, T_EXP}"

definition mul_tokens :: "TokenType set" where
  "mul_tokens = {T_STAR, T_SLASH, T_BACKSLASH, T_DOTSTAR, T_DOTSLASH}"

definition add_tokens :: "TokenType set" where
  "add_tokens = {T_PLUS, T_MINUS}"

definition eq_tokens :: "TokenType set" where
  "eq_tokens = {T_EQ, T_NE, T_RA, T_LA, T_GE, T_LE}"

definition stop_tokens :: "TokenType set" where
  "stop_tokens = {T_RP, T_RB, T_COMMA, T_SEMICOL, T_END}"

lemma op_None: "ty \<notin> mul_tokens \<Longrightarrow> mulOp ty = None" "ty \<notin> add_tokens \<Longrightarrow> addOp ty = None" "ty \<notin> eq_tokens \<Longrightarrow> eqOp ty = None"
  by (auto simp: mul_tokens_def add_tokens_def eq_tokens_def)

lemma stop_None: "ty \<in> stop_tokens \<Longrightarrow> ty \<notin> postfix_tokens" "ty \<in> stop_tokens \<Longrightarrow> ty \<notin> mul_tokens"
  "ty \<in> stop_tokens \<Longrightarrow> ty \<notin> add_tokens" "ty \<in> stop_tokens \<Longrightarrow> ty \<notin> eq_tokens"
  "ty \<in> stop_tokens \<Longrightarrow> ty \<notin> {T_XOR, T_AND, T_OR}"
  by (auto simp: stop_tokens_def postfix_tokens_def mul_tokens_def add_tokens_def eq_tokens_def)

text \<open>From one level to the levels above it, for a text that does not start with a sign, \<^verbatim>\<open>not\<close> or \<^verbatim>\<open>map\<close>.\<close>

lemma climb_exp:
  assumes "reads env (parseTransposeExpr pE) (k0 # T) (k # R) x" "fst k \<notin> postfix_tokens" "fst k0 \<notin> {T_MINUS, T_PLUS}"
  shows "reads env (parseNegExpr pE) (k0 # T) (k # R) x"
  using assms by (intro reads_neg_none reads_exp_none) (auto simp: postfix_tokens_def)

lemma climb_factor:
  assumes "reads env (parseFactor pE) T (k # R) x" "fst k \<notin> {T_LB, T_PERIOD, T_LP, T_TRANSPOSE}"
  shows "reads env (parseTransposeExpr pE) T (k # R) x"
  using assms by (intro reads_transpose_none reads_tensorRead_none reads_fieldRead_none reads_setRead_none) auto

lemma climb_mul:
  "reads env (parseNegExpr pE) T (k # R) x \<Longrightarrow> fst k \<notin> mul_tokens \<Longrightarrow> reads env (parseMulExpr pE) T (k # R) x"
  unfolding parseMulExpr_def by (rule reads_binary_none) (simp_all add: op_None del: mulOp.simps)

lemma climb_add:
  "reads env (parseMulExpr pE) T (k # R) x \<Longrightarrow> fst k \<notin> add_tokens \<Longrightarrow> reads env (parseAddExpr pE) T (k # R) x"
  unfolding parseAddExpr_def by (rule reads_binary_none) (simp_all add: op_None del: addOp.simps)

lemma climb_eq:
  "reads env (parseTerm pE) T (k # R) x \<Longrightarrow> fst k \<notin> eq_tokens \<Longrightarrow> reads env (parseEqExpr pE) T (k # R) x"
  by (rule reads_eq_none) (simp_all add: op_None del: eqOp.simps)

lemma climb_xor:
  "reads env (parseEqExpr pE) T (k # R) x \<Longrightarrow> fst k \<noteq> T_XOR \<Longrightarrow> reads env (parseXorExpr pE) T (k # R) x"
  unfolding parseXorExpr_def by (rule reads_binary_none) (simp_all add: singleOp_def)

lemma climb_and:
  "reads env (parseXorExpr pE) T (k # R) x \<Longrightarrow> fst k \<noteq> T_AND \<Longrightarrow> reads env (parseAndExpr pE) T (k # R) x"
  unfolding parseAndExpr_def by (rule reads_binary_none) (simp_all add: singleOp_def)

lemma climb_or:
  "reads env (parseAndExpr pE) T (k # R) x \<Longrightarrow> fst k \<noteq> T_OR \<Longrightarrow> reads env (parseOrExpr pE) T (k # R) x"
  unfolding parseOrExpr_def by (rule reads_binary_none) (simp_all add: singleOp_def)

lemma climb_expr:
  "reads env (parseOrExpr (parseExpr_n n)) (k0 # T) R x \<Longrightarrow> fst k0 \<noteq> T_MAP \<Longrightarrow> reads env (parseExpr_n (Suc n)) (k0 # T) R x"
  unfolding parseExpr_n.simps by (rule reads_peek) (simp add: token_type_kind)

text \<open>At the end of an expression every level above the operator of the expression hands it on.\<close>

lemma finish_eq:
  assumes "reads env (parseEqExpr (parseExpr_n n)) (k0 # T) (k # R) x" "fst k \<in> stop_tokens" "fst k0 \<noteq> T_MAP"
  shows "reads env (parseExpr_n (Suc n)) (k0 # T) (k # R) x"
  using assms stop_None(5) [OF assms(2)] by (intro climb_expr climb_or climb_and climb_xor) auto

lemma finish_add:
  assumes "reads env (parseAddExpr (parseExpr_n n)) (k0 # T) (k # R) x" "fst k \<in> stop_tokens" "fst k0 \<notin> {T_NOT, T_MAP}"
  shows "reads env (parseExpr_n (Suc n)) (k0 # T) (k # R) x"
  using assms stop_None(4) by (intro finish_eq climb_eq reads_term_none) auto

lemma finish_neg:
  assumes "reads env (parseNegExpr (parseExpr_n n)) (k0 # T) (k # R) x" "fst k \<in> stop_tokens" "fst k0 \<notin> {T_NOT, T_MAP}"
  shows "reads env (parseExpr_n (Suc n)) (k0 # T) (k # R) x"
  using assms stop_None by (intro finish_add climb_add climb_mul) auto

lemma finish_transpose:
  assumes "reads env (parseTransposeExpr (parseExpr_n n)) (k0 # T) (k # R) x" "fst k \<in> stop_tokens"
    "fst k0 \<notin> {T_NOT, T_MAP, T_MINUS, T_PLUS}"
  shows "reads env (parseExpr_n (Suc n)) (k0 # T) (k # R) x"
  using assms stop_None by (intro finish_neg climb_exp) auto

end
