(* ===== verification/Printer_Levels.thy ===== *)
theory Printer_Levels
  imports Printer_Reads
begin

text \<open>
  Each operator, comparison, map expression, call and tuple read of a printed expression, read back by the method of
  the parser that is meant for it, provided that the expressions in it are.
\<close>

section \<open>Reading printed expressions\<close>

declare parseExpr_n.simps [simp del] p_binary_n.simps [simp del] p_tensorReads_n.simps [simp del] p_transposes_n.simps [simp del]
  parseExpExpr_n.simps [simp del] parseNegExpr_n.simps [simp del] parseTerm_n.simps [simp del] p_comparisons_n.simps [simp del]
  mulOp.simps [simp del] addOp.simps [simp del] eqOp.simps [simp del]

text \<open>What a printed expression is read back as: the operands of operators get parentheses, other parentheses go.\<close>

fun norm :: "'d fir_expr \<Rightarrow> 'd fir_expr" where
  "norm (MapExpr func gs actuals target through red) = MapExpr func gs (map norm actuals) target through red"
| "norm (OrExpr a b) = OrExpr (ParenExpr (norm a)) (ParenExpr (norm b))"
| "norm (AndExpr a b) = AndExpr (ParenExpr (norm a)) (ParenExpr (norm b))"
| "norm (XorExpr a b) = XorExpr (ParenExpr (norm a)) (ParenExpr (norm b))"
| "norm (EqExpr operands ops) = EqExpr (map (\<lambda>e. ParenExpr (norm e)) operands) ops"
| "norm (NotExpr a) = NotExpr (ParenExpr (norm a))"
| "norm (AddExpr a b) = AddExpr (ParenExpr (norm a)) (ParenExpr (norm b))"
| "norm (SubExpr a b) = SubExpr (ParenExpr (norm a)) (ParenExpr (norm b))"
| "norm (MulExpr a b) = MulExpr (ParenExpr (norm a)) (ParenExpr (norm b))"
| "norm (DivExpr a b) = DivExpr (ParenExpr (norm a)) (ParenExpr (norm b))"
| "norm (ElwiseMulExpr a b) = ElwiseMulExpr (ParenExpr (norm a)) (ParenExpr (norm b))"
| "norm (ElwiseDivExpr a b) = ElwiseDivExpr (ParenExpr (norm a)) (ParenExpr (norm b))"
| "norm (LeftDivExpr a b) = LeftDivExpr (ParenExpr (norm a)) (ParenExpr (norm b))"
| "norm (NegExpr negate a) = NegExpr negate (ParenExpr (norm a))"
| "norm (ExpExpr a b) = ExpExpr (ParenExpr (norm a)) (ParenExpr (norm b))"
| "norm (TransposeExpr a) = TransposeExpr (ParenExpr (norm a))"
| "norm (CallExpr func gs args) = CallExpr func gs (map norm args)"
| "norm (TensorReadExpr tensor indices) = TensorReadExpr (norm tensor) (map (map_option norm) indices)"
| "norm (SetReadExpr s indices) = SetReadExpr (norm s) (map norm indices)"
| "norm (NamedTupleReadExpr tuple elem) = NamedTupleReadExpr (norm tuple) elem"
| "norm (UnnamedTupleReadExpr tuple index) = UnnamedTupleReadExpr (norm tuple) (norm index)"
| "norm (FieldReadExpr s field) = FieldReadExpr (norm s) field"
| "norm (ParenExpr e) = norm e"
| "norm e = e"

abbreviation S :: "TokenType \<Rightarrow> 'd kind" where
  "S ty \<equiv> (ty, NoValue, [])"

abbreviation expr_kinds :: "'d fir_expr \<Rightarrow> 'd kind list" where
  "expr_kinds e \<equiv> kinds (expr_pieces e)"

definition reads_expr :: "(string \<Rightarrow> IdentType option) \<Rightarrow> nat \<Rightarrow> 'd fir_expr \<Rightarrow> bool" where
  "reads_expr env n e \<longleftrightarrow> (\<forall>k R. fst k \<in> stop_tokens \<longrightarrow> reads env (parseExpr_n n) (expr_kinds e @ k # R) (k # R) (norm e))"

lemma reads_exprD:
  "reads_expr env n e \<Longrightarrow> fst k \<in> stop_tokens \<Longrightarrow> reads env (parseExpr_n n) (expr_kinds e @ k # R) (k # R) (norm e)"
  unfolding reads_expr_def by blast

lemma kinds_paren [simp]: "kinds (paren_pieces ps) = S T_LP # kinds ps @ [S T_RP]"
  by (simp add: paren_pieces_def)

lemma reads_paren:
  assumes "reads_expr env n e"
  shows "reads env (parseFactor (parseExpr_n n)) (S T_LP # expr_kinds e @ S T_RP # M) M (ParenExpr (norm e))"
proof -
  have "reads env (parseExpr_n n) (expr_kinds e @ S T_RP # M) (S T_RP # M) (norm e)"
    using assms by (simp add: reads_expr_def stop_tokens_def)
  then show ?thesis unfolding parseFactor_def
    by (intro reads_peek) (auto simp: token_type_kind intro!: reads_consume_then reads_bind [where x = "norm e"] reads_ret)
qed

lemma transpose_paren:
  assumes "reads_expr env n e" "fst k \<notin> {T_LB, T_PERIOD, T_LP, T_TRANSPOSE}"
  shows "reads env (parseTransposeExpr (parseExpr_n n)) (S T_LP # expr_kinds e @ S T_RP # k # R) (k # R) (ParenExpr (norm e))"
  using assms by (intro climb_factor reads_paren)

lemma neg_paren:
  assumes "reads_expr env n e" "fst k \<notin> postfix_tokens"
  shows "reads env (parseNegExpr (parseExpr_n n)) (S T_LP # expr_kinds e @ S T_RP # k # R) (k # R) (ParenExpr (norm e))"
  using assms by (intro climb_exp transpose_paren) (auto simp: postfix_tokens_def)

lemma mul_paren:
  assumes "reads_expr env n e" "fst k \<notin> postfix_tokens \<union> mul_tokens"
  shows "reads env (parseMulExpr (parseExpr_n n)) (S T_LP # expr_kinds e @ S T_RP # k # R) (k # R) (ParenExpr (norm e))"
  using assms by (intro climb_mul neg_paren) auto

lemma term_paren:
  assumes "reads_expr env n e" "fst k \<notin> postfix_tokens \<union> mul_tokens \<union> add_tokens"
  shows "reads env (parseTerm (parseExpr_n n)) (S T_LP # expr_kinds e @ S T_RP # k # R) (k # R) (ParenExpr (norm e))"
  using assms by (intro reads_term_none climb_add mul_paren) auto

lemma eq_paren:
  assumes "reads_expr env n e" "fst k \<notin> postfix_tokens \<union> mul_tokens \<union> add_tokens \<union> eq_tokens"
  shows "reads env (parseEqExpr (parseExpr_n n)) (S T_LP # expr_kinds e @ S T_RP # k # R) (k # R) (ParenExpr (norm e))"
  using assms by (intro climb_eq term_paren) auto

lemma stop_all: "ty \<in> stop_tokens \<Longrightarrow> ty \<notin> postfix_tokens \<union> mul_tokens \<union> add_tokens \<union> eq_tokens"
  using stop_None by auto

lemmas token_sets = postfix_tokens_def mul_tokens_def add_tokens_def eq_tokens_def

lemma kinds_binary [simp]: "kinds (binary_pieces ps qs ty) = kinds (paren_pieces ps) @ S ty # kinds (paren_pieces qs)"
  by (simp add: binary_pieces_def)

lemma read_mul:
  assumes "reads_expr env n a" "reads_expr env n b" "mulOp ty = Some mk" "fst k \<in> stop_tokens"
  shows "reads env (parseExpr_n (Suc n)) (kinds (binary_pieces (expr_pieces a) (expr_pieces b) ty) @ k # R) (k # R)
    (mk (ParenExpr (norm a)) (ParenExpr (norm b)))"
proof -
  have ty: "ty \<in> mul_tokens" "ty \<notin> postfix_tokens" using assms(3) by (auto simp: token_sets mulOp.simps split: if_splits)
  have "reads env (parseMulExpr (parseExpr_n n)) (S T_LP # expr_kinds a @ S T_RP # S ty # S T_LP # expr_kinds b @ S T_RP # k # R) (k # R)
    (mk (ParenExpr (norm a)) (ParenExpr (norm b)))"
    unfolding parseMulExpr_def
    by (rule reads_binary_one [OF neg_paren, where mk = mk], rule assms(1))
      (use assms ty stop_None in \<open>auto simp: op_None intro!: neg_paren \<close>)
  then show ?thesis using assms(4) stop_None by (auto intro!: finish_add climb_add)
qed

lemma read_add:
  assumes "reads_expr env n a" "reads_expr env n b" "addOp ty = Some mk" "fst k \<in> stop_tokens"
  shows "reads env (parseExpr_n (Suc n)) (kinds (binary_pieces (expr_pieces a) (expr_pieces b) ty) @ k # R) (k # R)
    (mk (ParenExpr (norm a)) (ParenExpr (norm b)))"
proof -
  have ty: "ty \<in> add_tokens" "ty \<notin> postfix_tokens \<union> mul_tokens" using assms(3) by (auto simp: token_sets addOp.simps split: if_splits)
  have "reads env (parseAddExpr (parseExpr_n n)) (S T_LP # expr_kinds a @ S T_RP # S ty # S T_LP # expr_kinds b @ S T_RP # k # R) (k # R)
    (mk (ParenExpr (norm a)) (ParenExpr (norm b)))"
    unfolding parseAddExpr_def
    by (rule reads_binary_one [OF mul_paren, where mk = mk], rule assms(1))
      (use assms ty stop_None in \<open>auto simp: op_None intro!: mul_paren \<close>)
  then show ?thesis using assms(4) stop_None by (auto intro!: finish_add)
qed

lemma logic_None: "ty \<in> {T_XOR, T_AND, T_OR} \<Longrightarrow> ty \<notin> postfix_tokens \<union> mul_tokens \<union> add_tokens \<union> eq_tokens"
  by (auto simp: token_sets)

lemma read_xor:
  assumes "reads_expr env n a" "reads_expr env n b" "fst k \<in> stop_tokens"
  shows "reads env (parseExpr_n (Suc n)) (kinds (binary_pieces (expr_pieces a) (expr_pieces b) T_XOR) @ k # R) (k # R)
    (XorExpr (ParenExpr (norm a)) (ParenExpr (norm b)))"
proof -
  have "reads env (parseXorExpr (parseExpr_n n))
      (S T_LP # expr_kinds a @ S T_RP # S T_XOR # S T_LP # expr_kinds b @ S T_RP # k # R) (k # R)
      (XorExpr (ParenExpr (norm a)) (ParenExpr (norm b)))"
    unfolding parseXorExpr_def
    by (rule reads_binary_one [OF eq_paren [OF assms(1)] _ eq_paren [OF assms(2)], where mk = XorExpr])
      (use stop_all [OF assms(3)] stop_None(5) [OF assms(3)] logic_None in \<open>auto simp: singleOp_def\<close>)
  then show ?thesis using stop_None(5) [OF assms(3)] by (auto intro!: climb_expr climb_or climb_and)
qed

lemma read_and:
  assumes "reads_expr env n a" "reads_expr env n b" "fst k \<in> stop_tokens"
  shows "reads env (parseExpr_n (Suc n)) (kinds (binary_pieces (expr_pieces a) (expr_pieces b) T_AND) @ k # R) (k # R)
    (AndExpr (ParenExpr (norm a)) (ParenExpr (norm b)))"
proof -
  have "reads env (parseAndExpr (parseExpr_n n))
      (S T_LP # expr_kinds a @ S T_RP # S T_AND # S T_LP # expr_kinds b @ S T_RP # k # R) (k # R)
      (AndExpr (ParenExpr (norm a)) (ParenExpr (norm b)))"
    unfolding parseAndExpr_def
    by (rule reads_binary_one [OF climb_xor [OF eq_paren [OF assms(1)]] _ climb_xor [OF eq_paren [OF assms(2)]], where mk = AndExpr])
      (use stop_all [OF assms(3)] stop_None(5) [OF assms(3)] logic_None in \<open>auto simp: singleOp_def\<close>)
  then show ?thesis using stop_None(5) [OF assms(3)] by (auto intro!: climb_expr climb_or)
qed

lemma read_or:
  assumes "reads_expr env n a" "reads_expr env n b" "fst k \<in> stop_tokens"
  shows "reads env (parseExpr_n (Suc n)) (kinds (binary_pieces (expr_pieces a) (expr_pieces b) T_OR) @ k # R) (k # R)
    (OrExpr (ParenExpr (norm a)) (ParenExpr (norm b)))"
proof -
  have "reads env (parseOrExpr (parseExpr_n n))
      (S T_LP # expr_kinds a @ S T_RP # S T_OR # S T_LP # expr_kinds b @ S T_RP # k # R) (k # R)
      (OrExpr (ParenExpr (norm a)) (ParenExpr (norm b)))"
    unfolding parseOrExpr_def
    by (rule reads_binary_one [OF climb_and [OF climb_xor [OF eq_paren [OF assms(1)]]] _
          climb_and [OF climb_xor [OF eq_paren [OF assms(2)]]], where mk = OrExpr])
      (use stop_all [OF assms(3)] stop_None(5) [OF assms(3)] logic_None in \<open>auto simp: singleOp_def\<close>)
  then show ?thesis by (auto intro!: climb_expr)
qed

lemma read_exp:
  assumes "reads_expr env n a" "reads_expr env n b" "fst k \<in> stop_tokens"
  shows "reads env (parseExpr_n (Suc n)) (kinds (binary_pieces (expr_pieces a) (expr_pieces b) T_EXP) @ k # R) (k # R)
    (ExpExpr (ParenExpr (norm a)) (ParenExpr (norm b)))"
proof -
  let ?T = "S T_LP # expr_kinds b @ S T_RP # k # R"
  have k: "fst k \<notin> postfix_tokens" using assms(3) stop_None by blast
  have b: "reads env (parseExpExpr_n (parseExpr_n n) (Suc j)) ?T (k # R) (ParenExpr (norm b))" for j
    using k by (intro reads_exp_n_none transpose_paren assms(2)) (auto simp: token_sets)
  have "reads env (parseExpExpr_n (parseExpr_n n) (Suc (Suc j))) (S T_LP # expr_kinds a @ S T_RP # S T_EXP # ?T) (k # R)
      (ExpExpr (ParenExpr (norm a)) (ParenExpr (norm b)))" for j
    unfolding parseExpExpr_n.simps(2) [of _ "Suc j"]
    by (rule reads_bind [OF transpose_paren [OF assms(1)]], simp, rule reads_try_yes)
      (auto intro!: reads_bind [OF b] reads_ret)
  then have "reads env (parseExpExpr (parseExpr_n n)) (S T_LP # expr_kinds a @ S T_RP # S T_EXP # ?T) (k # R)
      (ExpExpr (ParenExpr (norm a)) (ParenExpr (norm b)))"
    unfolding parseExpExpr_def by (intro reads_fuelled) simp
  then show ?thesis using assms(3) by (auto intro!: finish_neg reads_neg_none)
qed

lemma read_neg:
  assumes "reads_expr env n a" "fst k \<in> stop_tokens" "ty = (if negate then T_MINUS else T_PLUS)"
  shows "reads env (parseExpr_n (Suc n)) (S ty # S T_LP # expr_kinds a @ S T_RP # k # R) (k # R)
    (NegExpr negate (ParenExpr (norm a)))"
proof -
  have k: "fst k \<notin> postfix_tokens" using assms(2) stop_None by blast
  have a: "reads env (parseNegExpr_n (parseExpr_n n) (Suc j)) (S T_LP # expr_kinds a @ S T_RP # k # R) (k # R) (ParenExpr (norm a))" for j
    using k by (intro reads_neg_n_none reads_exp_none transpose_paren assms(1)) (auto simp: token_sets)
  have "reads env (parseNegExpr_n (parseExpr_n n) (Suc (Suc j))) (S ty # S T_LP # expr_kinds a @ S T_RP # k # R) (k # R)
      (NegExpr negate (ParenExpr (norm a)))" for j
    unfolding parseNegExpr_n.simps(2) [of _ "Suc j"]
    by (rule reads_peek) (use assms(3) in \<open>auto simp: token_type_kind intro!: reads_consume_then reads_bind [OF a] reads_ret\<close>)
  then have "reads env (parseNegExpr (parseExpr_n n)) (S ty # S T_LP # expr_kinds a @ S T_RP # k # R) (k # R)
      (NegExpr negate (ParenExpr (norm a)))"
    unfolding parseNegExpr_def by (intro reads_fuelled) simp
  then show ?thesis using assms(2,3) by (auto intro!: finish_neg)
qed

lemma read_not:
  assumes "reads_expr env n a" "fst k \<in> stop_tokens"
  shows "reads env (parseExpr_n (Suc n)) (S T_NOT # S T_LP # expr_kinds a @ S T_RP # k # R) (k # R) (NotExpr (ParenExpr (norm a)))"
proof -
  have k: "fst k \<notin> postfix_tokens \<union> mul_tokens \<union> add_tokens \<union> eq_tokens" using assms(2) by (rule stop_all)
  have a: "reads env (parseTerm_n (parseExpr_n n) (Suc j)) (S T_LP # expr_kinds a @ S T_RP # k # R) (k # R) (ParenExpr (norm a))" for j
    using k by (intro reads_term_n_none climb_add mul_paren assms(1)) auto
  have "reads env (parseTerm_n (parseExpr_n n) (Suc (Suc j))) (S T_NOT # S T_LP # expr_kinds a @ S T_RP # k # R) (k # R)
      (NotExpr (ParenExpr (norm a)))" for j
    unfolding parseTerm_n.simps(2) [of _ "Suc j"]
    by (rule reads_peek) (auto simp: token_type_kind intro!: reads_consume_then reads_bind [OF a] reads_ret)
  then have "reads env (parseTerm (parseExpr_n n)) (S T_NOT # S T_LP # expr_kinds a @ S T_RP # k # R) (k # R)
      (NotExpr (ParenExpr (norm a)))"
    unfolding parseTerm_def by (intro reads_fuelled) simp
  then show ?thesis using assms(2) k by (auto intro!: finish_eq climb_eq)
qed

lemma read_transpose:
  assumes "reads_expr env n a" "fst k \<in> stop_tokens"
  shows "reads env (parseExpr_n (Suc n)) (S T_LP # expr_kinds a @ S T_RP # S T_TRANSPOSE # k # R) (k # R)
    (TransposeExpr (ParenExpr (norm a)))"
proof -
  have k: "fst k \<notin> postfix_tokens" using assms(2) stop_None by blast
  let ?T = "S T_TRANSPOSE # k # R"
  have "reads env (p_transposes_n (Suc (Suc j)) e) ?T (k # R) (TransposeExpr e)" for j and e :: "'a fir_expr"
    unfolding p_transposes_n.simps(2) [of "Suc j"]
    by (rule reads_peek) (use k in \<open>auto simp: token_type_kind token_sets intro!: reads_consume_then reads_transposes_none\<close>)
  then have "reads env (fuelled (\<lambda>n. p_transposes_n n e)) ?T (k # R) (TransposeExpr e)" for e :: "'a fir_expr"
    by (intro reads_fuelled) simp
  moreover have "reads env (parseTensorReadExpr (parseExpr_n n)) (S T_LP # expr_kinds a @ S T_RP # ?T) ?T (ParenExpr (norm a))"
    by (intro reads_tensorRead_none reads_fieldRead_none reads_setRead_none reads_paren assms(1)) auto
  ultimately have "reads env (parseTransposeExpr (parseExpr_n n)) (S T_LP # expr_kinds a @ S T_RP # ?T) (k # R)
      (TransposeExpr (ParenExpr (norm a)))"
    unfolding parseTransposeExpr_def by (intro reads_bind)
  then show ?thesis using assms(2) by (auto intro!: finish_transpose)
qed

subsection \<open>Comparisons\<close>

lemma eqOp_eq_token: "eqOp (eq_token op) = Some op" "eq_token op \<in> eq_tokens" "eq_token op \<notin> postfix_tokens \<union> mul_tokens \<union> add_tokens"
  by (cases op; simp add: eqOp.simps token_sets)+

fun comparison_kinds :: "'d fir_expr list \<Rightarrow> eq_op list \<Rightarrow> 'd kind list" where
  "comparison_kinds (e # es) (op # ops) = S (eq_token op) # S T_LP # expr_kinds e @ S T_RP # comparison_kinds es ops"
| "comparison_kinds _ _ = []"

lemma kinds_comparison: "kinds (comparison_pieces (map expr_pieces es) ops) = comparison_kinds es ops"
  by (induction es ops rule: comparison_kinds.induct) simp_all

lemma comparison_kinds_head:
  assumes "length es = length ops" "fst k \<in> stop_tokens"
  shows "\<exists>k' R'. comparison_kinds es ops @ k # R = k' # R' \<and> fst k' \<notin> postfix_tokens \<union> mul_tokens \<union> add_tokens"
  using assms stop_all [OF assms(2)] eqOp_eq_token by (cases es; cases ops) auto

lemma reads_comparisons:
  assumes "\<And>e. e \<in> set es \<Longrightarrow> reads_expr env n e" "length es = length ops" "length ops < m" "fst k \<in> stop_tokens"
  shows "reads env (p_comparisons_n (parseTerm (parseExpr_n n)) m) (comparison_kinds es ops @ k # R) (k # R)
    (zip ops (map (\<lambda>e. ParenExpr (norm e)) es))"
  using assms(1-3)
proof (induction es ops arbitrary: m rule: list_induct2')
  case 1
  then obtain j where m: "m = Suc j" by (cases m) auto
  have "eqOp (fst k) = None" using stop_None(4) [OF assms(4)] by (rule op_None)
  then show ?case unfolding m by (simp add: reads_comparisons_none)
next
  case (4 e es op ops)
  then obtain j where m: "m = Suc j" by (cases m) auto
  let ?T = "comparison_kinds es ops @ k # R"
  have rest: "reads env (p_comparisons_n (parseTerm (parseExpr_n n)) j) ?T (k # R) (zip ops (map (\<lambda>e. ParenExpr (norm e)) es))"
    using 4 m by (intro 4(1)) auto
  obtain k' R' where k': "?T = k' # R'" "fst k' \<notin> postfix_tokens \<union> mul_tokens \<union> add_tokens"
    using comparison_kinds_head [OF _ assms(4), of es ops R] 4(3) by auto
  have "reads env (parseTerm (parseExpr_n n)) (S T_LP # expr_kinds e @ S T_RP # k' # R') (k' # R') (ParenExpr (norm e))"
    using 4(2) k'(2) by (intro term_paren) auto
  note operand = this [folded k'(1)]
  have "reads env (p_comparisons_n (parseTerm (parseExpr_n n)) (Suc j))
      (S (eq_token op) # S T_LP # expr_kinds e @ S T_RP # ?T) (k # R)
      ((op, ParenExpr (norm e)) # zip ops (map (\<lambda>e. ParenExpr (norm e)) es))"
    unfolding p_comparisons_n.simps
    by (rule reads_peek)
      (auto simp: token_type_kind eqOp_eq_token intro!: reads_consume_then reads_bind [OF operand] reads_bind [OF rest] reads_ret)
  then show ?case by (simp add: m)
qed simp_all

lemma comparison_kinds_length: "length es = length ops \<Longrightarrow> length ops \<le> length (comparison_kinds es ops)"
  by (induction es ops rule: list_induct2) simp_all

lemma read_eq:
  assumes "\<And>e. e \<in> set (e0 # es) \<Longrightarrow> reads_expr env n e" "length es = length ops" "ops \<noteq> []" "fst k \<in> stop_tokens"
  shows "reads env (parseExpr_n (Suc n)) (S T_LP # expr_kinds e0 @ S T_RP # comparison_kinds es ops @ k # R) (k # R)
    (EqExpr (map (\<lambda>e. ParenExpr (norm e)) (e0 # es)) ops)"
proof -
  let ?T = "comparison_kinds es ops @ k # R"
  define z where "z = zip ops (map (\<lambda>e. ParenExpr (norm e)) es)"
  obtain k' R' where k': "?T = k' # R'" "fst k' \<notin> postfix_tokens \<union> mul_tokens \<union> add_tokens"
    using comparison_kinds_head [OF assms(2,4)] by blast
  have "reads env (parseTerm (parseExpr_n n)) (S T_LP # expr_kinds e0 @ S T_RP # k' # R') (k' # R') (ParenExpr (norm e0))"
    using assms(1) k'(2) by (intro term_paren) auto
  note first = this [folded k'(1)]
  have "length ops < Suc (length ?T)" using comparison_kinds_length [OF assms(2)] by simp
  then have rest: "reads env (fuelled (p_comparisons_n (parseTerm (parseExpr_n n)))) ?T (k # R) z"
    unfolding z_def using assms by (intro reads_fuelled reads_comparisons) auto
  have "map fst z = ops" "map snd z = map (\<lambda>e. ParenExpr (norm e)) es" "z \<noteq> []" using assms(2,3) by (auto simp: z_def)
  then have "(case z of [] \<Rightarrow> ParenExpr (norm e0) | _ \<Rightarrow> EqExpr (ParenExpr (norm e0) # map snd z) (map fst z)) =
      EqExpr (map (\<lambda>e. ParenExpr (norm e)) (e0 # es)) ops"
    by (cases z) auto
  then have "reads env (parseEqExpr (parseExpr_n n)) (S T_LP # expr_kinds e0 @ S T_RP # ?T) (k # R)
      (EqExpr (map (\<lambda>e. ParenExpr (norm e)) (e0 # es)) ops)"
    unfolding parseEqExpr_def
    by (intro reads_bind [OF first] reads_bind [OF rest]) (simp only: reads_ret)
  then show ?thesis using assms(4) by (intro finish_eq) auto
qed

subsection \<open>Lists of expressions\<close>

lemma reads_exprs:
  assumes "\<And>e. e \<in> set es \<Longrightarrow> reads_expr env n e" "es \<noteq> []" "fst k = T_RP \<or> fst k = T_RB"
  shows "reads env (parseExprParams (parseExpr_n n)) (kinds (commas (map expr_pieces es)) @ k # R) (k # R) (map norm es)"
  unfolding parseExprParams_def
  by (rule reads_sepBy [where c = "fst k"]) (use assms in \<open>auto simp: reads_expr_def stop_tokens_def\<close>)

definition start_tokens :: "TokenType set" where
  "start_tokens = {T_MAP, T_LP, T_NOT, T_MINUS, T_PLUS, T_IDENT, T_INT_LITERAL, T_TRUE, T_FALSE, T_LB}"

lemma expr_kinds_start: "printable env e \<Longrightarrow> \<exists>k K. expr_kinds e = k # K \<and> fst k \<in> start_tokens"
proof (induction env e rule: printable.induct)
  case (5 env operands ops)
  then show ?case by (cases operands) (simp_all add: start_tokens_def)
next
  case (18 env tensor indices)
  then show ?case by auto
next
  case (20 env tuple elem)
  then show ?case by (cases tuple) (simp_all add: start_tokens_def)
next
  case (21 env tuple index)
  then show ?case by (cases tuple) (simp_all add: start_tokens_def)
next
  case (28 env l)
  then show ?case by (cases l) (simp_all add: start_tokens_def)
qed (auto simp: start_tokens_def int_pieces_def)

lemma reads_read_params:
  assumes "\<And>e. Some e \<in> set is \<Longrightarrow> reads_expr env n e \<and> printable env e" "is \<noteq> []" "fst k = T_RP"
  shows "reads env (parseReadParams (parseExpr_n n))
    (kinds (commas (map (\<lambda>i. case i of None \<Rightarrow> [Sy T_COL] | Some e \<Rightarrow> expr_pieces e) is)) @ k # R) (k # R)
    (map (map_option norm) is)"
  unfolding parseReadParams_def
proof (rule reads_sepBy [where c = T_RP])
  fix i and k' :: "'a kind" and R' assume i: "i \<in> set is" "fst k' \<in> {T_COMMA, T_RP}"
  show "reads env (parseReadParam (parseExpr_n n))
      (kinds (case i of None \<Rightarrow> [Sy T_COL] | Some e \<Rightarrow> expr_pieces e) @ k' # R') (k' # R') (map_option norm i)"
  proof (cases i)
    case None
    then show ?thesis unfolding parseReadParam_def
      by (auto simp: token_type_kind intro!: reads_peek reads_consume_then reads_ret)
  next
    case (Some e)
    with assms(1) i have e: "reads_expr env n e" "printable env e" by auto
    obtain k0 K where k0: "expr_kinds e = k0 # K" "fst k0 \<noteq> T_COL"
      using expr_kinds_start [OF e(2)] by (auto simp: start_tokens_def)
    have "reads env (parseExpr_n n) (k0 # K @ k' # R') (k' # R') (norm e)"
      using reads_exprD [OF e(1), of k' R'] i(2) k0(1) by (auto simp: stop_tokens_def)
    then show ?thesis unfolding parseReadParam_def Some using k0
      by (auto simp: token_type_kind intro!: reads_peek reads_bind [where x = "norm e"] reads_ret)
  qed
qed (use assms in auto)

subsection \<open>Index sets, maps\<close>

lemma reads_ident: "reads env parseIdent ((T_IDENT, v, w) # R) R w"
  unfolding parseIdent_def by (rule reads_consume) (auto simp: token_str_kind intro!: reads_ret)

lemma reads_index: "index_ok env s \<Longrightarrow> reads env parseSetIndexSet (kinds (index_pieces s) @ R) R s"
proof (cases s)
  case (SetIndexSet w)
  assume "index_ok env s"
  then have "(case env w of Some GENERIC_PARAM \<Rightarrow> GenericIndexSet GT_UNKNOWN w | Some RANGE_GENERIC_PARAM \<Rightarrow> GenericIndexSet GT_RANGE w
      | _ \<Rightarrow> SetIndexSet w) = s"
    by (auto simp: SetIndexSet split: option.split IdentType.split)
  then show ?thesis unfolding parseSetIndexSet_def Let_def SetIndexSet
    by (simp, intro reads_consume reads_lookup) (auto simp: token_str_kind reads_ret split: option.splits IdentType.splits)
next
  case (GenericIndexSet ty w)
  assume "index_ok env s"
  then have "(case env w of Some GENERIC_PARAM \<Rightarrow> GenericIndexSet GT_UNKNOWN w | Some RANGE_GENERIC_PARAM \<Rightarrow> GenericIndexSet GT_RANGE w
      | _ \<Rightarrow> SetIndexSet w) = s"
    by (cases ty) (auto simp: GenericIndexSet)
  then show ?thesis unfolding parseSetIndexSet_def Let_def GenericIndexSet
    by (simp, intro reads_consume reads_lookup) (auto simp: token_str_kind reads_ret split: option.splits IdentType.splits)
qed simp_all

lemma reads_index_arg: "index_ok env s \<Longrightarrow> reads env parseIndexSet (kinds (index_pieces s) @ R) R s"
proof -
  assume s: "index_ok env s"
  then obtain v w K where K: "kinds (index_pieces s) @ R = (T_IDENT, v, w) # K" by (cases s) auto
  from reads_index [OF s, of R] show ?thesis unfolding parseIndexSet_def K
    by (intro reads_peek) (simp add: token_type_kind)
qed

lemma reads_genericArgs_none: "fst k \<noteq> T_LA \<Longrightarrow> reads env parseGenericArgs (k # R) (k # R) []"
  unfolding parseGenericArgs_def by (auto intro!: reads_try_no reads_ret)

lemma reads_genericArgs:
  assumes "list_all (index_ok env) gs" "gs \<noteq> []"
  shows "reads env parseGenericArgs (S T_LA # kinds (commas (map index_pieces gs)) @ S T_RA # R) R gs"
proof -
  have "reads env parseIndexSets (kinds (commas (map index_pieces gs)) @ S T_RA # R) (S T_RA # R) (map (\<lambda>s. s) gs)"
    unfolding parseIndexSets_def
    by (rule reads_sepBy [where c = T_RA]) (use assms in \<open>auto simp: list_all_iff intro: reads_index_arg\<close>)
  then show ?thesis unfolding parseGenericArgs_def
    by (auto intro!: reads_try_yes reads_bind [where x = gs] reads_consume_then reads_ret)
qed

lemma read_map:
  assumes "\<And>e. e \<in> set actuals \<Longrightarrow> reads_expr env n e \<and> printable env e" "index_ok env target" "pred_option (index_ok env) through"
    "red \<noteq> Some RED_NONE" "fst k \<in> stop_tokens"
  shows "reads env (parseExpr_n (Suc n)) (expr_kinds (MapExpr func [] actuals target through red) @ k # R) (k # R)
    (MapExpr func [] (map norm actuals) target through red)"
proof -
  let ?red = "(if red = None then [] else [S T_REDUCE, S T_PLUS]) @ k # R"
  let ?thr = "(case through of None \<Rightarrow> [] | Some s \<Rightarrow> S T_THROUGH # kinds (index_pieces s)) @ ?red"
  let ?to = "S T_TO # kinds (index_pieces target) @ ?thr"
  let ?act = "(if actuals = [] then [] else S T_LP # kinds (commas (map expr_pieces actuals)) @ [S T_RP]) @ ?to"
  have k: "fst k \<noteq> T_THROUGH" "fst k \<noteq> T_REDUCE" using assms(5) by (auto simp: stop_tokens_def)
  have act: "reads env (parsePartialActuals (parseExpr_n n)) ?act ?to (map norm actuals)"
  proof (cases "actuals = []")
    case True
    then show ?thesis unfolding parsePartialActuals_def by (auto intro!: reads_try_no reads_ret)
  next
    case False
    then obtain e es where "actuals = e # es" by (cases actuals) auto
    then obtain k0 K where k0: "kinds (commas (map expr_pieces actuals)) @ S T_RP # ?to = k0 # K" "fst k0 \<noteq> T_RP"
      using expr_kinds_start [of env e] assms(1) [of e] by (auto simp: commas_def start_tokens_def)
    have params: "reads env (parseExprParams (parseExpr_n n)) (k0 # K) (S T_RP # ?to) (map norm actuals)"
      unfolding k0(1) [symmetric] using assms(1) False by (intro reads_exprs) auto
    have "reads env (parsePartialActuals (parseExpr_n n)) (S T_LP # k0 # K) ?to (map norm actuals)"
      unfolding parsePartialActuals_def
      by (rule reads_try_yes, simp, simp only: if_True, rule reads_try_no, rule k0(2))
        (simp only: not_False_eq_True if_True, intro reads_bind [OF params] reads_consume_then reads_ret, simp)
    then show ?thesis using False k0(1) by simp
  qed
  have thr: "reads env (pbind (p_tryConsume T_THROUGH) (\<lambda>b. pbind (if b then pbind parseSetIndexSet (\<lambda>s. ret (Some s)) else ret None) f))
      ?thr (k # R) y" if "reads env (f through) ?red (k # R) y" for f and y :: "'a fir_expr"
  proof (cases through)
    case None
    obtain k' K where "?red = k' # K" "fst k' \<noteq> T_THROUGH" using k by (cases red) auto
    with that None show ?thesis by (auto intro!: reads_try_no reads_bind [OF reads_ret])
  next
    case (Some s)
    then have "reads env parseSetIndexSet (kinds (index_pieces s) @ ?red) ?red s" using assms(3) by (intro reads_index) simp
    from reads_map [OF this, of Some] that Some show ?thesis by (auto intro!: reads_try_yes intro: reads_bind)
  qed
  have red: "reads env (pbind (p_tryConsume T_REDUCE) (\<lambda>b. if b then pthen (p_consume T_PLUS) (ret (g (Some RED_SUM))) else ret (g None)))
      ?red (k # R) (g red)" for g :: "reduction_op option \<Rightarrow> 'a fir_expr"
  proof (cases red)
    case None
    then show ?thesis using k by (auto intro!: reads_try_no reads_ret)
  next
    case (Some r)
    then have "r = RED_SUM" using assms(4) by (cases r) auto
    with Some show ?thesis by (auto intro!: reads_try_yes reads_consume_then reads_ret)
  qed
  have K: "expr_kinds (MapExpr func [] actuals target through red) @ k # R = S T_MAP # (T_IDENT, NoValue, func) # ?act"
    by (cases through) simp_all
  obtain k1 K1 where k1: "?act = k1 # K1" "fst k1 \<noteq> T_LA" by (cases "actuals = []") auto
  have gen: "reads env parseGenericArgs ?act ?act []" unfolding k1(1) by (rule reads_genericArgs_none [OF k1(2)])
  have "reads env (parseMapExpr (parseExpr_n n)) (S T_MAP # (T_IDENT, NoValue, func) # ?act) (k # R)
      (MapExpr func [] (map norm actuals) target through red)"
    unfolding parseMapExpr_def
    by (intro reads_consume_then reads_bind [OF reads_ident] reads_bind [OF gen]
        reads_bind [OF act] reads_bind [OF reads_index [OF assms(2)]] thr red) simp_all
  then show ?thesis unfolding K parseExpr_n.simps by (intro reads_peek) (simp add: token_type_kind)
qed

subsection \<open>Operands\<close>

abbreviation I :: "string \<Rightarrow> 'd kind" where
  "I w \<equiv> (T_IDENT, NoValue, w)"

lemma p_peek_Suc: "\<exists>t. p_peek (Suc j) s = (Parsed t, s)"
  by (simp add: p_peek_def peek_def from_result_def split: list.split)

lemma startsGenericCall_pure: "\<exists>b. startsGenericCall s = (Parsed b, s)"
proof -
  obtain t1 t3 t4 t5 where "p_peek 1 s = (Parsed t1, s)" "p_peek 3 s = (Parsed t3, s)" "p_peek 4 s = (Parsed t4, s)"
    "p_peek 5 s = (Parsed t5, s)"
    using p_peek_Suc [of 0 s] p_peek_Suc [of 2 s] p_peek_Suc [of 3 s] p_peek_Suc [of 4 s] by (auto simp: numeral_eq_Suc)
  then show ?thesis by (simp add: startsGenericCall_def pbind_def ret_def)
qed

lemma reads_call_factor:
  assumes "env f = Some FUNCTION" "reads env (parseCallExpr pE) (I f # T) R x"
  shows "reads env (parseFactor pE) (I f # T) R x"
proof -
  have "reads env (parseIdentFactor pE) (I f # T) R x"
    unfolding parseIdentFactor_def
  proof (rule reads_look [where Q = "\<lambda>_. True"])
    fix b
    show "reads env (if b then parseCallExpr pE else
        pbind (p_peek 0) (\<lambda>t. pbind (p_lookup (token_str t)) (\<lambda>ty. pbind (p_peek 1) (\<lambda>t1. case ty of
         Some FUNCTION \<Rightarrow> parseCallExpr pE | Some RANGE_GENERIC_PARAM \<Rightarrow> parseRangeConst
       | Some TUPLE \<Rightarrow> if token_type t1 = T_LP then parseUnnamedTupleReadExpr pE
           else if token_type t1 = T_PERIOD then parseNamedTupleReadExpr else parseVarExpr
       | _ \<Rightarrow> parseVarExpr)))) (I f # T) R x"
    proof (cases b)
      case False
      have "reads env (pbind (p_lookup f) (\<lambda>ty. pbind (p_peek 1) (\<lambda>t1. case ty of
         Some FUNCTION \<Rightarrow> parseCallExpr pE | Some RANGE_GENERIC_PARAM \<Rightarrow> parseRangeConst
       | Some TUPLE \<Rightarrow> if token_type t1 = T_LP then parseUnnamedTupleReadExpr pE
           else if token_type t1 = T_PERIOD then parseNamedTupleReadExpr else parseVarExpr
       | _ \<Rightarrow> parseVarExpr))) (I f # T) R x"
        by (rule reads_lookup, rule reads_look [where Q = "\<lambda>_. True"])
          (use assms p_peek_Suc [of 0] in auto)
      then show ?thesis unfolding if_not_P [OF False] by (intro reads_peek) (simp add: token_str_kind)
    qed (use assms(2) in simp)
  qed (use startsGenericCall_pure in auto)
  then show ?thesis unfolding parseFactor_def by (intro reads_peek) (simp add: token_type_kind)
qed

lemma startsGenericCall_no: "fst k1 \<noteq> T_LA \<Longrightarrow> reads env startsGenericCall (k # k1 # T) (k # k1 # T) False"
  unfolding reads_def
proof (intro allI impI)
  fix s :: "'a pstate" assume a: "fst k1 \<noteq> T_LA" "map token_kind (p_tokens s) = k # k1 # T"
  obtain t1 t3 t4 t5 where t: "p_peek 1 s = (Parsed t1, s)" "p_peek 3 s = (Parsed t3, s)" "p_peek 4 s = (Parsed t4, s)"
    "p_peek 5 s = (Parsed t5, s)"
    using p_peek_Suc [of 0 s] p_peek_Suc [of 2 s] p_peek_Suc [of 3 s] p_peek_Suc [of 4 s] by (auto simp: numeral_eq_Suc)
  have "token_type t1 = fst k1"
    using a(2) t(1) by (cases "p_tokens s"; cases "tl (p_tokens s)") (auto simp: p_peek_def peek_def from_result_def token_kind_def)
  with a t have "startsGenericCall s = (Parsed False, s)" by (simp add: startsGenericCall_def pbind_def ret_def)
  with a(2) show "\<exists>ts. startsGenericCall s = (Parsed False, s\<lparr>p_tokens := ts\<rparr>) \<and> map token_kind ts = k # k1 # T"
    by (intro exI [of _ "p_tokens s"]) simp
qed

lemma reads_ident_factor:
  assumes "fst k1 \<noteq> T_LA" "reads env (case env w of
         Some FUNCTION \<Rightarrow> parseCallExpr pE | Some RANGE_GENERIC_PARAM \<Rightarrow> parseRangeConst
       | Some TUPLE \<Rightarrow> if fst k1 = T_LP then parseUnnamedTupleReadExpr pE
           else if fst k1 = T_PERIOD then parseNamedTupleReadExpr else parseVarExpr
       | _ \<Rightarrow> parseVarExpr) (I w # k1 # T) R x"
  shows "reads env (parseFactor pE) (I w # k1 # T) R x"
proof -
  have "reads env (pbind (p_lookup w) (\<lambda>ty. pbind (p_peek 1) (\<lambda>t1. case ty of
         Some FUNCTION \<Rightarrow> parseCallExpr pE | Some RANGE_GENERIC_PARAM \<Rightarrow> parseRangeConst
       | Some TUPLE \<Rightarrow> if token_type t1 = T_LP then parseUnnamedTupleReadExpr pE
           else if token_type t1 = T_PERIOD then parseNamedTupleReadExpr else parseVarExpr
       | _ \<Rightarrow> parseVarExpr))) (I w # k1 # T) R x"
  proof (rule reads_lookup, rule reads_peek_1)
    fix t :: "'a token" assume "token_kind t = k1"
    from token_type_kind [OF this] show "reads env (case env w of
         Some FUNCTION \<Rightarrow> parseCallExpr pE | Some RANGE_GENERIC_PARAM \<Rightarrow> parseRangeConst
       | Some TUPLE \<Rightarrow> if token_type t = T_LP then parseUnnamedTupleReadExpr pE
           else if token_type t = T_PERIOD then parseNamedTupleReadExpr else parseVarExpr
       | _ \<Rightarrow> parseVarExpr) (I w # k1 # T) R x"
      using assms(2) by (simp only:)
  qed
  then have "reads env (parseIdentFactor pE) (I w # k1 # T) R x"
    unfolding parseIdentFactor_def
    by (intro reads_bind [OF startsGenericCall_no [OF assms(1)]]) (simp only: if_False, intro reads_peek, simp add: token_str_kind)
  then show ?thesis unfolding parseFactor_def by (intro reads_peek) (simp add: token_type_kind)
qed

lemma reads_varExpr: "reads env parseVarExpr (I w # R) R (VarExpr w)"
  unfolding parseVarExpr_def by (rule reads_consume) (auto simp: token_str_kind intro!: reads_ret)

lemma reads_var: "is_var env w \<Longrightarrow> fst k \<noteq> T_LA \<Longrightarrow> reads env (parseFactor pE) (I w # k # R) (k # R) (VarExpr w)"
  by (rule reads_ident_factor) (auto simp: is_var_def reads_varExpr split: option.split IdentType.split)

lemma reads_rangeConst:
  "env w = Some RANGE_GENERIC_PARAM \<Longrightarrow> fst k \<noteq> T_LA \<Longrightarrow> reads env (parseFactor pE) (I w # k # R) (k # R) (RangeConst w)"
  by (rule reads_ident_factor) (auto simp: parseRangeConst_def token_str_kind intro!: reads_consume reads_ret)

lemma reads_namedTuple:
  "env w = Some TUPLE \<Longrightarrow> reads env (parseFactor pE) (I w # S T_PERIOD # I elem # R) R (NamedTupleReadExpr (VarExpr w) elem)"
  by (rule reads_ident_factor)
    (auto simp: parseNamedTupleReadExpr_def intro!: reads_bind [OF reads_varExpr] reads_consume_then reads_bind [OF reads_ident] reads_ret)

lemma reads_unnamedTuple:
  assumes "env w = Some TUPLE" "reads_expr env n e"
  shows "reads env (parseFactor (parseExpr_n n)) (I w # S T_LP # expr_kinds e @ S T_RP # R) R
    (UnnamedTupleReadExpr (VarExpr w) (norm e))"
proof (rule reads_ident_factor)
  have "reads env (parseExpr_n n) (expr_kinds e @ S T_RP # R) (S T_RP # R) (norm e)"
    using assms(2) by (rule reads_exprD) (simp add: stop_tokens_def)
  then have "reads env (parseUnnamedTupleReadExpr (parseExpr_n n)) (I w # S T_LP # expr_kinds e @ S T_RP # R) R
    (UnnamedTupleReadExpr (VarExpr w) (norm e))"
    unfolding parseUnnamedTupleReadExpr_def
    by (intro reads_bind [OF reads_varExpr] reads_consume_then reads_bind [where x = "norm e" and M = "S T_RP # R"] reads_ret) auto
  then show "reads env (case env w of Some FUNCTION \<Rightarrow> parseCallExpr (parseExpr_n n) | Some RANGE_GENERIC_PARAM \<Rightarrow> parseRangeConst
       | Some TUPLE \<Rightarrow> if fst (S T_LP) = T_LP then parseUnnamedTupleReadExpr (parseExpr_n n)
           else if fst (S T_LP) = T_PERIOD then parseNamedTupleReadExpr else parseVarExpr
       | _ \<Rightarrow> parseVarExpr) (I w # S T_LP # expr_kinds e @ S T_RP # R) R (UnnamedTupleReadExpr (VarExpr w) (norm e))"
    by (simp add: assms(1))
qed simp

lemma exprs_start:
  fixes es :: "'d fir_expr list"
  assumes "\<And>e. e \<in> set es \<Longrightarrow> printable env e" "es \<noteq> []"
  shows "\<exists>(k :: 'd kind) K. kinds (commas (map expr_pieces es)) @ R = k # K \<and> fst k \<in> start_tokens"
proof -
  obtain e es' where es: "es = e # es'" using assms(2) by (cases es) auto
  then show ?thesis using expr_kinds_start [of env e] assms(1) [of e] by (auto simp: commas_def)
qed

lemma reads_args:
  assumes "\<And>e. e \<in> set es \<Longrightarrow> reads_expr env n e \<and> printable env e" "c = T_RP \<or> c = T_RB"
    "reads env (f (map norm es)) (S c # R) R y"
  shows "reads env (pbind (p_peek 0) (\<lambda>t. pbind (if token_type t \<noteq> c then parseExprParams (parseExpr_n n) else ret []) f))
    (kinds (commas (map expr_pieces es)) @ S c # R) R y"
proof (cases "es = []")
  case True
  then show ?thesis using assms(3) by (auto simp: token_type_kind intro!: reads_peek reads_bind [OF reads_ret])
next
  case False
  obtain k K where k: "kinds (commas (map expr_pieces es)) @ S c # R = k # K" "fst k \<in> start_tokens"
    using exprs_start [of es env "S c # R"] assms(1) False by auto
  have "reads env (parseExprParams (parseExpr_n n)) (k # K) (S c # R) (map norm es)"
    unfolding k(1) [symmetric] using assms(1,2) False by (intro reads_exprs) auto
  with assms(2,3) k(2) show ?thesis unfolding k(1)
    by (intro reads_peek) (auto simp: token_type_kind start_tokens_def intro: reads_bind)
qed

lemma reads_call:
  assumes "env f = Some FUNCTION" "list_all (index_ok env) gs" "\<And>e. e \<in> set es \<Longrightarrow> reads_expr env n e \<and> printable env e"
  shows "reads env (parseFactor (parseExpr_n n)) (expr_kinds (CallExpr f gs es) @ R) R (CallExpr f gs (map norm es))"
proof -
  let ?A = "S T_LP # kinds (commas (map expr_pieces es)) @ S T_RP # R"
  let ?G = "if gs = [] then ?A else S T_LA # kinds (commas (map index_pieces gs)) @ S T_RA # ?A"
  have gs: "reads env parseGenericArgs ?G ?A gs"
    using reads_genericArgs [OF assms(2)] reads_genericArgs_none [of "S T_LP" env] by auto
  have "reads env (parseCallExpr (parseExpr_n n)) (I f # ?G) R (CallExpr f gs (map norm es))"
    unfolding parseCallExpr_def
    by (intro reads_bind [OF reads_ident] reads_bind [OF gs] reads_consume_then reads_args assms(3) reads_ret) simp_all
  then have "reads env (parseFactor (parseExpr_n n)) (I f # ?G) R (CallExpr f gs (map norm es))"
    using assms(1) by (rule reads_call_factor [rotated])
  then show ?thesis by (cases "gs = []") simp_all
qed

end
