(* ===== verification/Printer_Parse.thy ===== *)
theory Printer_Parse
  imports Printer_Levels
begin

text \<open>
  Literals and the reads of sets, fields and tensors, and the round trip: every printable expression is read back.
\<close>

section \<open>Literals\<close>

abbreviation N :: "nat \<Rightarrow> 'd kind" where
  "N n \<equiv> (T_INT_LITERAL, IntValue (int n), [])"

lemma kinds_int: "kinds (int_pieces n) = (if n < 0 then [S T_MINUS, N (nat (- n))] else [N (nat n)])"
  by (simp add: int_pieces_def)

lemma long_to_int_id: "\<bar>n\<bar> < 2 ^ 31 \<Longrightarrow> long_to_int n = n"
  by (auto simp: long_to_int_def abs_if split: if_splits)

lemma reads_int_token: "reads env (f (int n)) R M y \<Longrightarrow> reads env (pbind (p_consume T_INT_LITERAL) (\<lambda>t. pbind (token_num t) f)) (N n # R) M y"
  by (rule reads_consume) (auto intro: reads_num)

lemma reads_signedInt:
  assumes "\<bar>n\<bar> < 2 ^ 31"
  shows "reads env parseSignedIntLiteral (kinds (int_pieces n) @ R) R n"
proof (cases "n < 0")
  case True
  have n: "long_to_int (- int (nat (- n))) = n" using long_to_int_id [OF assms] True by simp
  have sign: "reads env parseSign (S T_MINUS # N (nat (- n)) # R) (N (nat (- n)) # R) True"
    unfolding parseSign_def by (rule reads_peek) (auto simp: token_type_kind intro!: reads_consume_then reads_ret)
  have "reads env parseSignedIntLiteral (S T_MINUS # N (nat (- n)) # R) R (long_to_int (- int (nat (- n))))"
    unfolding parseSignedIntLiteral_def by (intro reads_bind [OF sign] reads_int_token) (simp add: reads_ret)
  then show ?thesis unfolding kinds_int n using True by simp
next
  case False
  have sign: "reads env parseSign (N (nat n) # R) (N (nat n) # R) False"
    unfolding parseSign_def by (rule reads_peek) (auto simp: token_type_kind intro!: reads_ret)
  have "reads env parseSignedIntLiteral (N (nat n) # R) R (int (nat n))"
    unfolding parseSignedIntLiteral_def by (intro reads_bind [OF sign] reads_int_token) (simp add: reads_ret)
  then show ?thesis unfolding kinds_int using False by simp
qed

lemma ints_start:
  assumes "vals \<noteq> []"
  shows "(\<exists>n K. kinds (commas (map int_pieces vals)) @ R = N n # K) \<or>
    (\<exists>n K. kinds (commas (map int_pieces vals)) @ R = S T_MINUS # N n # K)"
proof -
  obtain v vs where v: "vals = v # vs" using assms by (cases vals) auto
  have "kinds (commas (map int_pieces vals)) @ R = kinds (int_pieces v) @ concat (map (\<lambda>n. S T_COMMA # kinds (int_pieces n)) vs) @ R"
    unfolding v commas_def by (induction vs) simp_all
  then show ?thesis unfolding kinds_int
    by (cases "v < 0") (auto intro: exI [of _ "nat v"] exI [of _ "nat (- v)"])
qed

lemma reads_intVector:
  assumes "vals \<noteq> []" "list_all (\<lambda>n. \<bar>n\<bar> < 2 ^ 31) vals"
  shows "reads env parseDenseVectorLiteral (kinds (commas (map int_pieces vals)) @ S T_RB # R) (S T_RB # R) (IntVectorLiteral vals False)"
proof -
  have els: "reads env (p_elems (\<lambda>ty. ty \<in> {T_PLUS, T_MINUS, T_INT_LITERAL}) parseSignedIntLiteral)
      (kinds (commas (map int_pieces vals)) @ S T_RB # R) (S T_RB # R) (map (\<lambda>n. n) vals)"
    by (rule reads_elems [where c = T_RB]) (use assms in \<open>auto simp: list_all_iff intro!: reads_signedInt\<close>)
  have vec: "reads env parseDenseIntVectorLiteral (kinds (commas (map int_pieces vals)) @ S T_RB # R) (S T_RB # R)
      (IntVectorLiteral vals False)"
    unfolding parseDenseIntVectorLiteral_def by (rule reads_bind [OF els]) (simp add: reads_ret)
  consider (pos) n K where "kinds (commas (map int_pieces vals)) @ S T_RB # R = N n # K"
    | (neg) n K where "kinds (commas (map int_pieces vals)) @ S T_RB # R = S T_MINUS # N n # K"
    using ints_start [OF assms(1), of "S T_RB # R"] by blast
  then show ?thesis
  proof cases
    case pos
    show ?thesis unfolding parseDenseVectorLiteral_def Let_def pos
      by (rule reads_peek) (use vec in \<open>simp add: pos token_type_kind\<close>)
  next
    case neg
    have "reads env (pbind (p_peek 1) (\<lambda>t1. if token_type t1 = T_INT_LITERAL then parseDenseIntVectorLiteral
       else if token_type t1 = T_FLOAT_LITERAL then parseDenseFloatVectorLiteral
       else p_unexpected ''a vector literal'')) (S T_MINUS # N n # K) (S T_RB # R) (IntVectorLiteral vals False)"
      by (rule reads_peek_1) (use vec in \<open>simp add: neg token_type_kind\<close>)
    then show ?thesis unfolding parseDenseVectorLiteral_def Let_def neg
      by (intro reads_peek) (simp add: token_type_kind)
  qed
qed

lemma reads_intMatrix:
  assumes "vals \<noteq> []" "list_all (\<lambda>n. \<bar>n\<bar> < 2 ^ 31) vals"
  shows "reads env parseDenseMatrixLiteral (kinds (commas (map int_pieces vals)) @ S T_RB # R) (S T_RB # R) (IntVectorLiteral vals False)"
proof -
  have "reads env (p_sepBy_n T_SEMICOL parseDenseVectorLiteral (Suc m)) (kinds (commas (map int_pieces vals)) @ S T_RB # R) (S T_RB # R)
      [IntVectorLiteral vals False]" for m
    unfolding p_sepBy_n.simps by (rule reads_bind [OF reads_intVector [OF assms]], rule reads_try_no) (simp_all add: reads_ret)
  then have "reads env (p_sepBy T_SEMICOL parseDenseVectorLiteral) (kinds (commas (map int_pieces vals)) @ S T_RB # R) (S T_RB # R)
      [IntVectorLiteral vals False]"
    unfolding p_sepBy_def by (rule reads_fuelled)
  then show ?thesis unfolding parseDenseMatrixLiteral_def by (rule reads_bind) (simp add: reads_ret)
qed

lemma lexs_commas_elem: "ps \<in> set pss \<Longrightarrow> length (lexs ps) \<le> length (lexs (commas pss))"
  by (induction pss rule: induct_list012) auto

lemma reads_dense: "dense_ok l \<Longrightarrow> length (lexs (dense_pieces l)) \<le> n \<Longrightarrow>
  reads env (parseDenseTensorLiteral_n n) (kinds (dense_pieces l) @ R) R l"
proof (induction l arbitrary: n R)
  case (IntVectorLiteral vals t)
  then obtain m where n: "n = Suc m" by (cases n) auto
  have ok: "vals \<noteq> []" "list_all (\<lambda>n. \<bar>n\<bar> < 2 ^ 31) vals" "\<not> t" using IntVectorLiteral by auto
  obtain k K where k: "kinds (commas (map int_pieces vals)) @ S T_RB # R = k # K" "fst k \<noteq> T_LB"
    using ints_start [OF ok(1), of "S T_RB # R"] by auto
  have inner: "reads env (parseDenseTensorLiteralInner (parseDenseTensorLiteral_n m)) (k # K) (S T_RB # R) (IntVectorLiteral vals t)"
    unfolding parseDenseTensorLiteralInner_def
    by (rule reads_peek) (use reads_intMatrix [OF ok(1,2), of env R] ok(3) k in \<open>simp add: token_type_kind\<close>)
  show ?case unfolding n
    by (simp add: k(1), intro reads_consume_then reads_bind [OF inner] reads_ret) simp_all
next
  case (NDTensorLiteral elems t)
  then obtain m where n: "n = Suc m" by (cases n) auto
  have ok: "elems \<noteq> []" "list_all dense_ok elems" "\<not> t" using NDTensorLiteral by auto
  obtain l ls where l: "elems = l # ls" using ok(1) by (cases elems) auto
  obtain k K where k: "kinds (commas (map dense_pieces elems)) @ S T_RB # R = k # K" "fst k = T_LB"
    using ok(2) l by (cases l) (auto simp: commas_def)
  have "reads env (p_elems (\<lambda>ty. ty = T_LB) (parseDenseTensorLiteral_n m)) (kinds (commas (map dense_pieces elems)) @ S T_RB # R)
      (S T_RB # R) (map (\<lambda>l. l) elems)"
  proof (rule reads_elems [where c = T_RB])
    fix x k' R' assume x: "x \<in> set elems"
    have "length (lexs (dense_pieces x)) \<le> m"
      using NDTensorLiteral.prems(2) lexs_commas_elem [of "dense_pieces x" "map dense_pieces elems"] x n by auto
    then show "reads env (parseDenseTensorLiteral_n m) (kinds (dense_pieces x) @ k' # R') (k' # R') x"
      using NDTensorLiteral.IH x ok(2) by (simp add: list_all_iff)
  qed (use ok in auto)
  then have inner: "reads env (parseDenseTensorLiteralInner (parseDenseTensorLiteral_n m)) (k # K) (S T_RB # R) (NDTensorLiteral elems t)"
    unfolding parseDenseTensorLiteralInner_def k(1)
    by (intro reads_peek) (use ok(3) k(2) in \<open>auto simp: token_type_kind intro: reads_bind reads_ret\<close>)
  show ?case unfolding n
    by (simp add: k(1), intro reads_consume_then reads_bind [OF inner] reads_ret) simp_all
qed simp_all

lemma reads_int: "0 \<le> n \<Longrightarrow> reads env (parseFactor pE) (kinds (int_pieces n) @ R) R (IntLiteral n)"
proof -
  assume "0 \<le> n"
  then have k: "kinds (int_pieces n) = [N (nat n)]" "int (nat n) = n" by (simp_all add: kinds_int)
  have "reads env parseTensorLiteral (N m # R) R (IntLiteral (int m))" for m
    unfolding parseTensorLiteral_def Let_def
    by (rule reads_peek) (auto simp: token_type_kind intro: reads_int_token reads_ret)
  from this [of "nat n"] have "reads env parseTensorLiteral (N (nat n) # R) R (IntLiteral (int (nat n)))" .
  then show ?thesis unfolding k parseFactor_def by (simp, intro reads_peek) (simp add: token_type_kind)
qed

lemma reads_bool: "reads env (parseFactor pE) (S (if b then T_TRUE else T_FALSE) # R) R (BoolLiteral b)"
proof -
  have "reads env parseTensorLiteral (S (if b then T_TRUE else T_FALSE) # R) R (BoolLiteral b)"
    unfolding parseTensorLiteral_def Let_def
    by (rule reads_peek) (auto simp: token_type_kind intro!: reads_consume_then reads_ret)
  then show ?thesis unfolding parseFactor_def by (intro reads_peek) (cases b; simp add: token_type_kind)
qed

lemma reads_denseLiteral:
  assumes "dense_ok l"
  shows "reads env (parseFactor pE) (kinds (dense_pieces l) @ R) R (DenseTensorLiteral l)"
proof -
  have "reads env parseDenseTensorLiteral (kinds (dense_pieces l) @ R) R l"
    unfolding parseDenseTensorLiteral_def by (rule reads_fuelled, rule reads_dense) (use assms in auto)
  moreover obtain K where K: "kinds (dense_pieces l) @ R = S T_LB # K" using assms by (cases l) auto
  ultimately have "reads env parseTensorLiteral (S T_LB # K) R (DenseTensorLiteral l)"
    unfolding parseTensorLiteral_def Let_def
    by (intro reads_peek) (simp add: token_type_kind, erule reads_bind, rule reads_ret)
  then show ?thesis unfolding parseFactor_def K by (intro reads_peek) (simp add: token_type_kind)
qed

section \<open>Reads of sets, fields and tensors\<close>

text \<open>What a method reads before any token that is none of its own, level by level.\<close>

definition reads_operand :: "(string \<Rightarrow> IdentType option) \<Rightarrow> nat \<Rightarrow> 'd fir_expr \<Rightarrow> bool" where
  "reads_operand env n e \<longleftrightarrow> (\<forall>k R. fst k \<noteq> T_LA \<longrightarrow>
     reads env (parseFactor (parseExpr_n n)) (expr_kinds e @ k # R) (k # R) (norm e))"

definition reads_setRead :: "(string \<Rightarrow> IdentType option) \<Rightarrow> nat \<Rightarrow> 'd fir_expr \<Rightarrow> bool" where
  "reads_setRead env n e \<longleftrightarrow> (\<forall>k R. fst k \<notin> {T_LA, T_LB} \<longrightarrow>
     reads env (parseSetReadExpr (parseExpr_n n)) (expr_kinds e @ k # R) (k # R) (norm e))"

definition reads_fieldRead :: "(string \<Rightarrow> IdentType option) \<Rightarrow> nat \<Rightarrow> 'd fir_expr \<Rightarrow> bool" where
  "reads_fieldRead env n e \<longleftrightarrow> (\<forall>k R. fst k \<notin> {T_LA, T_LB, T_PERIOD} \<longrightarrow>
     reads env (parseFieldReadExpr (parseExpr_n n)) (expr_kinds e @ k # R) (k # R) (norm e))"

text \<open>The reads of a tensor are a loop: what comes after an expression is read by the rest of the loop.\<close>

definition reads_tensorRead :: "(string \<Rightarrow> IdentType option) \<Rightarrow> nat \<Rightarrow> 'd fir_expr \<Rightarrow> bool" where
  "reads_tensorRead env n e \<longleftrightarrow> (\<forall>k T R y. fst k \<notin> {T_LA, T_LB, T_PERIOD} \<longrightarrow>
     (\<forall>j. length (k # T) < j \<longrightarrow> reads env (p_tensorReads_n (parseExpr_n n) j (norm e)) (k # T) R y) \<longrightarrow>
     reads env (parseTensorReadExpr (parseExpr_n n)) (expr_kinds e @ k # T) R y)"

lemma reads_operandD: "reads_operand env n e \<Longrightarrow> fst k \<noteq> T_LA \<Longrightarrow>
  reads env (parseFactor (parseExpr_n n)) (expr_kinds e @ k # R) (k # R) (norm e)"
  unfolding reads_operand_def by blast

lemma reads_setReadD: "reads_setRead env n e \<Longrightarrow> fst k \<notin> {T_LA, T_LB} \<Longrightarrow>
  reads env (parseSetReadExpr (parseExpr_n n)) (expr_kinds e @ k # R) (k # R) (norm e)"
  unfolding reads_setRead_def by blast

lemma reads_tensorReadD:
  "reads_tensorRead env n e \<Longrightarrow> fst k \<notin> {T_LA, T_LB, T_PERIOD} \<Longrightarrow>
   (\<And>j. length (k # T) < j \<Longrightarrow> reads env (p_tensorReads_n (parseExpr_n n) j (norm e)) (k # T) R y) \<Longrightarrow>
   reads env (parseTensorReadExpr (parseExpr_n n)) (expr_kinds e @ k # T) R y"
  unfolding reads_tensorRead_def by blast

lemma operand_setRead: "reads_operand env n e \<Longrightarrow> reads_setRead env n e"
  unfolding reads_operand_def reads_setRead_def by (auto intro!: reads_setRead_none)

lemma setRead_fieldRead: "reads_setRead env n e \<Longrightarrow> reads_fieldRead env n e"
  unfolding reads_setRead_def reads_fieldRead_def by (auto intro!: reads_fieldRead_none)

lemma fieldRead_tensorRead: "reads_fieldRead env n e \<Longrightarrow> reads_tensorRead env n e"
  unfolding reads_tensorRead_def parseTensorReadExpr_def
proof (intro allI impI)
  fix k :: "'a kind" and T R y
  assume a: "reads_fieldRead env n e" "fst k \<notin> {T_LA, T_LB, T_PERIOD}"
    "\<forall>j. length (k # T) < j \<longrightarrow> reads env (p_tensorReads_n (parseExpr_n n) j (norm e)) (k # T) R y"
  then have "reads env (parseFieldReadExpr (parseExpr_n n)) (expr_kinds e @ k # T) (k # T) (norm e)"
    unfolding reads_fieldRead_def by blast
  then show "reads env (pbind (parseFieldReadExpr (parseExpr_n n)) (\<lambda>expr. fuelled (\<lambda>j. p_tensorReads_n (parseExpr_n n) j expr)))
      (expr_kinds e @ k # T) R y"
    by (rule reads_bind) (use a(3) in \<open>auto intro!: reads_fuelled\<close>)
qed

lemma tensorRead_expr:
  assumes "reads_tensorRead env n e" "expr_kinds e = I w # K"
  shows "reads_expr env (Suc n) e"
  unfolding reads_expr_def
proof (intro allI impI)
  fix k :: "'a kind" and R assume k: "fst k \<in> stop_tokens"
  have "reads env (p_tensorReads_n (parseExpr_n n) j (norm e)) (k # R) (k # R) (norm e)" if "length (k # R) < j" for j
    using that k by (cases j) (auto intro!: reads_tensorReads_none simp: stop_tokens_def)
  then have "reads env (parseTensorReadExpr (parseExpr_n n)) (expr_kinds e @ k # R) (k # R) (norm e)"
    using k by (intro reads_tensorReadD [OF assms(1)]) (auto simp: stop_tokens_def)
  then show "reads env (parseExpr_n (Suc n)) (expr_kinds e @ k # R) (k # R) (norm e)"
    unfolding assms(2) using k by (auto intro!: finish_transpose reads_transpose_none simp: stop_tokens_def)
qed

text \<open>What is shown of every printable expression.\<close>

definition read_ok :: "(string \<Rightarrow> IdentType option) \<Rightarrow> nat \<Rightarrow> 'd fir_expr \<Rightarrow> bool" where
  "read_ok env n e \<longleftrightarrow> reads_expr env (Suc n) e \<and>
     (isa_operand (core e) \<longrightarrow> reads_operand env n e) \<and>
     (isa_operand (core e) \<or> isa_SetReadExpr (core e) \<longrightarrow> reads_setRead env n e) \<and>
     (isa_operand (core e) \<or> isa_SetReadExpr (core e) \<or> isa_FieldReadExpr (core e) \<longrightarrow> reads_fieldRead env n e) \<and>
     (isa_operand (core e) \<or> isa_SetReadExpr (core e) \<or> isa_FieldReadExpr (core e) \<or> isa_TensorReadExpr (core e) \<longrightarrow>
        reads_tensorRead env n e)"

lemma read_ok_operand: "reads_operand env n e \<Longrightarrow> expr_kinds e = I w # K \<Longrightarrow> read_ok env n e"
  unfolding read_ok_def by (metis operand_setRead setRead_fieldRead fieldRead_tensorRead tensorRead_expr)

lemma read_ok_setRead: "reads_setRead env n e \<Longrightarrow> \<not> isa_operand (core e) \<Longrightarrow> expr_kinds e = I w # K \<Longrightarrow> read_ok env n e"
  unfolding read_ok_def by (metis setRead_fieldRead fieldRead_tensorRead tensorRead_expr)

lemma read_ok_fieldRead:
  "reads_fieldRead env n e \<Longrightarrow> \<not> isa_operand (core e) \<Longrightarrow> \<not> isa_SetReadExpr (core e) \<Longrightarrow> expr_kinds e = I w # K \<Longrightarrow> read_ok env n e"
  unfolding read_ok_def by (metis fieldRead_tensorRead tensorRead_expr)

lemma read_ok_tensorRead:
  "reads_tensorRead env n e \<Longrightarrow> isa_TensorReadExpr (core e) \<Longrightarrow> expr_kinds e = I w # K \<Longrightarrow> read_ok env n e"
  unfolding read_ok_def by (cases "core e") (auto intro: tensorRead_expr)

lemma read_ok_expr:
  assumes "\<not> isa_operand e" "\<not> isa_SetReadExpr e" "\<not> isa_FieldReadExpr e" "\<not> isa_TensorReadExpr e" "core e = e"
    "\<And>k R. fst k \<in> stop_tokens \<Longrightarrow> reads env (parseExpr_n (Suc n)) (expr_kinds e @ k # R) (k # R) (norm e)"
  shows "read_ok env n e"
  using assms unfolding read_ok_def reads_expr_def by auto

lemma sub_reads:
  assumes "\<And>n. length (lexs (expr_pieces a)) \<le> Suc n \<Longrightarrow> read_ok env n a" "length (lexs (expr_pieces a)) \<le> n" "printable env a"
  shows "reads_expr env n a"
proof -
  have "lexs (expr_pieces a) \<noteq> []" using expr_kinds_start [OF assms(3)] by auto
  with assms(2) obtain m where "n = Suc m" by (cases n) auto
  with assms show ?thesis by (auto simp: read_ok_def)
qed

lemma read_setRead:
  assumes "reads_operand env n s" "\<And>e. e \<in> set es \<Longrightarrow> reads_expr env n e \<and> printable env e"
  shows "reads_setRead env n (SetReadExpr s es)"
  unfolding reads_setRead_def
proof (intro allI impI)
  fix k :: "'a kind" and R
  let ?R = "k # R"
  let ?T = "kinds (commas (map expr_pieces es)) @ S T_RB # ?R"
  let ?indices = "\<lambda>t. if token_type t \<noteq> T_RB then pbind (parseExprParams (parseExpr_n n)) (\<lambda>source.
      pbind (p_tryConsume T_SEMICOL) (\<lambda>b. if b then pbind (parseExprParams (parseExpr_n n)) (\<lambda>sink. ret (source @ sink)) else ret source))
    else ret []"
  have "reads env (pbind (p_peek 0) (\<lambda>t. pbind (?indices t) f)) ?T ?R y"
    if f: "reads env (f (map norm es)) (S T_RB # ?R) ?R y" for f and y :: "'a fir_expr"
  proof (cases "es = []")
    case True
    then show ?thesis using f by (auto simp: token_type_kind intro!: reads_peek reads_bind [OF reads_ret])
  next
    case False
    obtain k0 K where k0: "?T = k0 # K" "fst k0 \<in> start_tokens" using exprs_start [of es env "S T_RB # ?R"] assms(2) False by auto
    have "reads env (parseExprParams (parseExpr_n n)) ?T (S T_RB # ?R) (map norm es)"
      using assms(2) False by (intro reads_exprs) auto
    note params = this [unfolded k0(1)]
    have "reads env (pbind (parseExprParams (parseExpr_n n)) (\<lambda>source. pbind (p_tryConsume T_SEMICOL) (\<lambda>b.
        if b then pbind (parseExprParams (parseExpr_n n)) (\<lambda>sink. ret (source @ sink)) else ret source)))
        (k0 # K) (S T_RB # ?R) (map norm es)"
      by (rule reads_bind [OF params], rule reads_try_no) (simp_all add: reads_ret)
    with f k0 show ?thesis
      by (simp only: k0(1), intro reads_peek) (auto simp: token_type_kind start_tokens_def intro: reads_bind)
  qed
  note indices = this
  have s: "reads env (parseFactor (parseExpr_n n)) (expr_kinds s @ S T_LB # ?T) (S T_LB # ?T) (norm s)"
    by (rule reads_operandD [OF assms(1)]) simp
  have "reads env (parseSetReadExpr (parseExpr_n n)) (expr_kinds s @ S T_LB # ?T) ?R (SetReadExpr (norm s) (map norm es))"
    unfolding parseSetReadExpr_def
    by (rule reads_bind [OF s], rule reads_try_yes, simp, simp only: if_True, rule indices) (intro reads_consume_then reads_ret, simp)
  then show "reads env (parseSetReadExpr (parseExpr_n n)) (expr_kinds (SetReadExpr s es) @ ?R) ?R (norm (SetReadExpr s es))"
    by simp
qed

lemma read_fieldRead:
  assumes "reads_setRead env n s"
  shows "reads_fieldRead env n (FieldReadExpr s field)"
  unfolding reads_fieldRead_def
proof (intro allI impI)
  fix k :: "'a kind" and R
  have s: "reads env (parseSetReadExpr (parseExpr_n n)) (expr_kinds s @ S T_PERIOD # I field # k # R)
      (S T_PERIOD # I field # k # R) (norm s)"
    by (rule reads_setReadD [OF assms]) simp
  have "reads env (parseFieldReadExpr (parseExpr_n n)) (expr_kinds s @ S T_PERIOD # I field # k # R) (k # R) (FieldReadExpr (norm s) field)"
    unfolding parseFieldReadExpr_def
    by (rule reads_bind [OF s], rule reads_try_yes, simp) (simp only: if_True, intro reads_bind [OF reads_ident] reads_ret)
  then show "reads env (parseFieldReadExpr (parseExpr_n n)) (expr_kinds (FieldReadExpr s field) @ k # R) (k # R) (norm (FieldReadExpr s field))"
    by simp
qed

lemma read_tensorRead:
  assumes "reads_tensorRead env n t" "\<And>e. Some e \<in> set is \<Longrightarrow> reads_expr env n e \<and> printable env e"
  shows "reads_tensorRead env n (TensorReadExpr t is)"
  unfolding reads_tensorRead_def
proof (intro allI impI)
  fix k :: "'a kind" and T R y
  let ?g = "\<lambda>i. case i of None \<Rightarrow> [Sy T_COL] | Some e \<Rightarrow> expr_pieces e"
  let ?T = "kinds (commas (map ?g is)) @ S T_RP # k # T"
  assume k: "\<forall>j. length (k # T) < j \<longrightarrow> reads env (p_tensorReads_n (parseExpr_n n) j (norm (TensorReadExpr t is))) (k # T) R y"
  have "reads env (pbind (p_peek 0) (\<lambda>t. pbind (if token_type t \<noteq> T_RP then parseReadParams (parseExpr_n n) else ret []) f)) ?T R y"
    if f: "reads env (f (map (map_option norm) is)) (S T_RP # k # T) R y" for f
  proof (cases "is = []")
    case True
    then show ?thesis using f by (auto simp: token_type_kind intro!: reads_peek reads_bind [OF reads_ret])
  next
    case False
    then obtain i is' where i: "is = i # is'" by (cases "is") auto
    obtain k0 K where k0: "?T = k0 # K" "fst k0 \<noteq> T_RP"
    proof (cases i)
      case None
      then show ?thesis using that [of "S T_COL"] by (simp add: i commas_def)
    next
      case (Some e)
      then show ?thesis using expr_kinds_start [of env e] assms(2) [of e] that by (auto simp: i commas_def start_tokens_def)
    qed
    have "reads env (parseReadParams (parseExpr_n n)) ?T (S T_RP # k # T) (map (map_option norm) is)"
      using assms(2) False by (intro reads_read_params) auto
    with f k0 show ?thesis
      by (simp only: k0(1), intro reads_peek) (auto simp: token_type_kind intro: reads_bind)
  qed
  note params = this
  have "reads env (p_tensorReads_n (parseExpr_n n) j (norm t)) (S T_LP # ?T) R y" if j: "length (S T_LP # ?T) < j" for j
  proof -
    obtain m where m: "j = Suc m" using j by (cases j) auto
    have "reads env (p_tensorReads_n (parseExpr_n n) m (TensorReadExpr (norm t) (map (map_option norm) is))) (k # T) R y"
      using k j m by simp
    then show ?thesis unfolding m p_tensorReads_n.simps
      by (intro reads_try_yes) (simp, simp only: if_True, rule params, intro reads_consume_then, simp)
  qed
  then have "reads env (parseTensorReadExpr (parseExpr_n n)) (expr_kinds t @ S T_LP # ?T) R y"
    by (intro reads_tensorReadD [OF assms(1)]) auto
  then show "reads env (parseTensorReadExpr (parseExpr_n n)) (expr_kinds (TensorReadExpr t is) @ k # T) R y" by simp
qed

section \<open>The round trip\<close>

lemma finish_factor:
  assumes "reads env (parseFactor (parseExpr_n n)) (k0 # K @ k # R) (k # R) x" "fst k0 \<notin> {T_NOT, T_MAP, T_MINUS, T_PLUS}"
    "fst k \<in> stop_tokens"
  shows "reads env (parseExpr_n (Suc n)) (k0 # K @ k # R) (k # R) x"
  using assms by (intro finish_transpose climb_factor) (auto simp: stop_tokens_def)

lemma lexs_paren [simp]: "lexs (paren_pieces ps) = Spelled T_LP # lexs ps @ [Spelled T_RP]"
  by (simp add: paren_pieces_def)

lemma lexs_binary [simp]: "lexs (binary_pieces ps qs ty) = lexs (paren_pieces ps) @ Spelled ty # lexs (paren_pieces qs)"
  by (simp add: binary_pieces_def)

lemma postfix_ident:
  "printable env e \<Longrightarrow> isa_operand (core e) \<or> isa_SetReadExpr (core e) \<or> isa_FieldReadExpr (core e) \<or> isa_TensorReadExpr (core e) \<Longrightarrow>
   \<exists>w K. lexs (expr_pieces e) = Ident w # K"
proof (induction env e rule: printable.induct)
  case (20 env tuple elem)
  then show ?case by (cases tuple) simp_all
next
  case (21 env tuple index)
  then show ?case by (cases tuple) simp_all
qed (auto simp: Let_def)

lemma length_commas_map: "x \<in> set xs \<Longrightarrow> length (lexs (g x)) \<le> length (lexs (commas (map g xs)))"
  by (rule lexs_commas_elem) simp

lemma length_comparison:
  "length es = length ops \<Longrightarrow> e \<in> set es \<Longrightarrow> length (lexs (expr_pieces e)) \<le> length (comparison_kinds es ops)"
  by (induction es ops rule: list_induct2) auto

lemma read_ok_binary:
  assumes "expr_pieces e = binary_pieces (expr_pieces a) (expr_pieces b) ty" "norm e = mk (ParenExpr (norm a)) (ParenExpr (norm b))"
    and "core e = e" "\<not> isa_operand e" "\<not> isa_SetReadExpr e" "\<not> isa_FieldReadExpr e" "\<not> isa_TensorReadExpr e"
    and "\<And>n. length (lexs (expr_pieces a)) \<le> Suc n \<Longrightarrow> read_ok env n a" "printable env a"
    and "\<And>n. length (lexs (expr_pieces b)) \<le> Suc n \<Longrightarrow> read_ok env n b" "printable env b"
    and "length (lexs (expr_pieces e)) \<le> Suc n"
    and level: "\<And>k R. reads_expr env n a \<Longrightarrow> reads_expr env n b \<Longrightarrow> fst k \<in> stop_tokens \<Longrightarrow>
      reads env (parseExpr_n (Suc n)) (kinds (binary_pieces (expr_pieces a) (expr_pieces b) ty) @ k # R) (k # R)
        (mk (ParenExpr (norm a)) (ParenExpr (norm b)))"
  shows "read_ok env n e"
proof (rule read_ok_expr)
  have len: "length (lexs (expr_pieces a)) \<le> n" "length (lexs (expr_pieces b)) \<le> n" using assms(1,12) by simp_all
  have "reads_expr env n a" "reads_expr env n b"
    by (rule sub_reads [OF assms(8) len(1) assms(9)], assumption, rule sub_reads [OF assms(10) len(2) assms(11)], assumption)
  then show "reads env (parseExpr_n (Suc n)) (expr_kinds e @ k # R) (k # R) (norm e)" if "fst k \<in> stop_tokens" for k R
    unfolding assms(1,2) using that by (rule level)
qed (use assms in auto)

lemma printable_read: "printable env e \<Longrightarrow> length (lexs (expr_pieces e)) \<le> Suc n \<Longrightarrow> read_ok env n e"
proof (induction env e arbitrary: n rule: printable.induct)
  case (1 env func gs actuals target through red)
  have "reads_expr env n e \<and> printable env e" if e: "e \<in> set actuals" for e
  proof
    show p: "printable env e" using 1(2) e by (auto simp: list_all_iff)
    have "length (lexs (expr_pieces e)) \<le> n"
      using 1(3) e length_commas_map [OF e, of expr_pieces] by (cases "actuals = []") auto
    then show "reads_expr env n e" using 1(1) [OF e p] p by (intro sub_reads)
  qed
  then have "reads env (parseExpr_n (Suc n)) (expr_kinds (MapExpr func [] actuals target through red) @ k # R) (k # R)
      (MapExpr func [] (map norm actuals) target through red)" if "fst k \<in> stop_tokens" for k R
    using 1(2) that by (intro read_map) auto
  then show ?case using 1(2) by (intro read_ok_expr) auto
next
  case (5 env operands ops)
  obtain e0 es where o: "operands = e0 # es" using 5(2) by (cases operands) auto
  have len: "length es = length ops" using 5(2) o by simp
  have "reads_expr env n e" if e: "e \<in> set (e0 # es)" for e
  proof -
    have p: "printable env e" using 5(2) e o by (auto simp: list_all_iff)
    have "length (lexs (expr_pieces e)) \<le> n"
      using 5(3) e length_comparison [OF len, of e] arg_cong [OF kinds_comparison [of es ops], of length] by (auto simp: o)
    then show ?thesis using 5(1) [of e] e p o by (intro sub_reads) auto
  qed
  then have "reads env (parseExpr_n (Suc n)) (S T_LP # expr_kinds e0 @ S T_RP # comparison_kinds es ops @ k # R) (k # R)
      (EqExpr (map (\<lambda>e. ParenExpr (norm e)) (e0 # es)) ops)" if "fst k \<in> stop_tokens" for k R
    using 5(2) len that by (intro read_eq) auto
  then show ?case by (intro read_ok_expr) (auto simp: o kinds_comparison)
next
  case (17 env func gs args)
  have "reads_expr env n e \<and> printable env e" if e: "e \<in> set args" for e
  proof
    show p: "printable env e" using 17(2) e by (auto simp: list_all_iff)
    have "length (lexs (expr_pieces e)) \<le> n" using 17(3) length_commas_map [OF e, of expr_pieces] by simp
    then show "reads_expr env n e" using 17(1) [OF e p] p by (intro sub_reads)
  qed
  then have "reads_operand env n (CallExpr func gs args)"
    using 17(2) unfolding reads_operand_def by (auto simp del: expr_pieces.simps intro!: reads_call)
  then show ?case by (rule read_ok_operand) simp
next
  case (18 env tensor indices)
  have idx: "reads_expr env n e \<and> printable env e" if e: "Some e \<in> set indices" for e
  proof
    show p: "printable env e" using 18(3) e by (auto simp: list_all_iff)
    have "length (lexs (expr_pieces e)) \<le> n"
      using 18(4) length_commas_map [OF e, of "\<lambda>i. case i of None \<Rightarrow> [Sy T_COL] | Some e \<Rightarrow> expr_pieces e"] by simp
    then show "reads_expr env n e" using 18(2) [OF e] p by (intro sub_reads) auto
  qed
  have "read_ok env n tensor" using 18 by (intro 18(1)) auto
  then have "reads_tensorRead env n tensor" using 18(3) by (auto simp: read_ok_def Let_def)
  then have r: "reads_tensorRead env n (TensorReadExpr tensor indices)" using idx by (rule read_tensorRead)
  obtain w K where "lexs (expr_pieces tensor) = Ident w # K" using postfix_ident [of env tensor] 18(3) by (auto simp: Let_def)
  with r show ?case by (intro read_ok_tensorRead) auto
next
  case (19 env s indices)
  have idx: "reads_expr env n e \<and> printable env e" if e: "e \<in> set indices" for e
  proof
    show p: "printable env e" using 19(3) e by (auto simp: list_all_iff)
    have "length (lexs (expr_pieces e)) \<le> n" using 19(4) length_commas_map [OF e, of expr_pieces] by simp
    then show "reads_expr env n e" using 19(2) [OF e] p by (intro sub_reads) auto
  qed
  have "read_ok env n s" using 19 by (intro 19(1)) auto
  then have "reads_operand env n s" using 19(3) by (auto simp: read_ok_def)
  then have r: "reads_setRead env n (SetReadExpr s indices)" using idx by (rule read_setRead)
  obtain w K where "lexs (expr_pieces s) = Ident w # K" using postfix_ident [of env s] 19(3) by auto
  with r show ?case by (intro read_ok_setRead) auto
next
  case (20 env tuple elem)
  then obtain x where x: "tuple = VarExpr x" "env x = Some TUPLE" by (cases tuple) auto
  then have "reads_operand env n (NamedTupleReadExpr tuple elem)"
    unfolding reads_operand_def by (auto intro: reads_namedTuple)
  then show ?case by (rule read_ok_operand) (simp add: x)
next
  case (21 env tuple index)
  then obtain x where x: "tuple = VarExpr x" "env x = Some TUPLE" "printable env index" by (cases tuple) auto
  have "reads_expr env n index" using 21 x by (intro sub_reads) auto
  then have "reads_operand env n (UnnamedTupleReadExpr tuple index)"
    unfolding reads_operand_def x(1) using x(2) by (auto intro: reads_unnamedTuple)
  then show ?case by (rule read_ok_operand) (simp add: x)
next
  case (22 env s field)
  have "read_ok env n s" using 22 by (intro 22(1)) auto
  then have "reads_setRead env n s" using 22(2) by (auto simp: read_ok_def)
  then have r: "reads_fieldRead env n (FieldReadExpr s field)" by (rule read_fieldRead)
  obtain w K where "lexs (expr_pieces s) = Ident w # K" using postfix_ident [of env s] 22(2) by auto
  with r show ?case by (intro read_ok_fieldRead) auto
next
  case (23 env e)
  then show ?case by (simp add: read_ok_def reads_expr_def reads_operand_def reads_setRead_def reads_fieldRead_def reads_tensorRead_def)
next
  case (24 env x)
  then have "reads_operand env n (VarExpr x)" unfolding reads_operand_def by (auto intro: reads_var)
  then show ?case by (rule read_ok_operand) simp
next
  case (25 env x)
  then have "reads env (parseExpr_n (Suc n)) (I x # [] @ k # R) (k # R) (RangeConst x)" if "fst k \<in> stop_tokens" for k R
    using that by (intro finish_factor) (auto intro!: reads_rangeConst simp: stop_tokens_def)
  then show ?case by (intro read_ok_expr) auto
next
  case (26 env m)
  then have K: "lexs (int_pieces m) = [IntLit (nat m)]" by (simp add: int_pieces_def)
  have "reads env (parseExpr_n (Suc n)) (N (nat m) # [] @ k # R) (k # R) (IntLiteral m)" if "fst k \<in> stop_tokens" for k R
    using reads_int [of m env "parseExpr_n n" "k # R"] 26(1) that K by (intro finish_factor) auto
  then show ?case by (intro read_ok_expr) (auto simp: K)
next
  case (27 env b)
  have "reads env (parseExpr_n (Suc n)) (S (if b then T_TRUE else T_FALSE) # [] @ k # R) (k # R) (BoolLiteral b)"
    if "fst k \<in> stop_tokens" for k R
    using reads_bool [of env "parseExpr_n n" b "k # R"] that by (intro finish_factor) simp_all
  then show ?case by (intro read_ok_expr) auto
next
  case (28 env l)
  obtain K where K: "lexs (dense_pieces l) = Spelled T_LB # K" using 28(1) by (cases l) auto
  have "reads env (parseExpr_n (Suc n)) (S T_LB # map lexeme_kind K @ k # R) (k # R) (DenseTensorLiteral l)" if "fst k \<in> stop_tokens" for k R
    using reads_denseLiteral [of l env "parseExpr_n n" "k # R"] 28(1) that K by (intro finish_factor) auto
  then show ?case by (intro read_ok_expr) (auto simp: K)
next
  case (6 env a)
  then show ?case by (intro read_ok_expr) (auto intro!: read_not sub_reads)
next
  case (14 env negate a)
  then show ?case by (intro read_ok_expr) (auto intro!: read_neg sub_reads)
next
  case (16 env a)
  then show ?case by (intro read_ok_expr) (auto intro!: read_transpose sub_reads)
next
  case (2 env a b)
  show ?case
    by (rule read_ok_binary [where mk = OrExpr and a = a and b = b and ty = T_OR, OF _ _ _ _ _ _ _ 2(1) _ 2(2) _ 2(4)])
      (use 2(3) in \<open>simp_all add: read_or  del: kinds_binary lexs_binary\<close>)
next
  case (3 env a b)
  show ?case
    by (rule read_ok_binary [where mk = AndExpr and a = a and b = b and ty = T_AND, OF _ _ _ _ _ _ _ 3(1) _ 3(2) _ 3(4)])
      (use 3(3) in \<open>simp_all add: read_and  del: kinds_binary lexs_binary\<close>)
next
  case (4 env a b)
  show ?case
    by (rule read_ok_binary [where mk = XorExpr and a = a and b = b and ty = T_XOR, OF _ _ _ _ _ _ _ 4(1) _ 4(2) _ 4(4)])
      (use 4(3) in \<open>simp_all add: read_xor  del: kinds_binary lexs_binary\<close>)
next
  case (7 env a b)
  show ?case
    by (rule read_ok_binary [where mk = AddExpr and a = a and b = b and ty = T_PLUS, OF _ _ _ _ _ _ _ 7(1) _ 7(2) _ 7(4)])
      (use 7(3) in \<open>simp_all add: read_add addOp.simps del: kinds_binary lexs_binary\<close>)
next
  case (8 env a b)
  show ?case
    by (rule read_ok_binary [where mk = SubExpr and a = a and b = b and ty = T_MINUS, OF _ _ _ _ _ _ _ 8(1) _ 8(2) _ 8(4)])
      (use 8(3) in \<open>simp_all add: read_add addOp.simps del: kinds_binary lexs_binary\<close>)
next
  case (9 env a b)
  show ?case
    by (rule read_ok_binary [where mk = MulExpr and a = a and b = b and ty = T_STAR, OF _ _ _ _ _ _ _ 9(1) _ 9(2) _ 9(4)])
      (use 9(3) in \<open>simp_all add: read_mul mulOp.simps del: kinds_binary lexs_binary\<close>)
next
  case (10 env a b)
  show ?case
    by (rule read_ok_binary [where mk = DivExpr and a = a and b = b and ty = T_SLASH, OF _ _ _ _ _ _ _ 10(1) _ 10(2) _ 10(4)])
      (use 10(3) in \<open>simp_all add: read_mul mulOp.simps del: kinds_binary lexs_binary\<close>)
next
  case (11 env a b)
  show ?case
    by (rule read_ok_binary [where mk = ElwiseMulExpr and a = a and b = b and ty = T_DOTSTAR, OF _ _ _ _ _ _ _ 11(1) _ 11(2) _ 11(4)])
      (use 11(3) in \<open>simp_all add: read_mul mulOp.simps del: kinds_binary lexs_binary\<close>)
next
  case (12 env a b)
  show ?case
    by (rule read_ok_binary [where mk = ElwiseDivExpr and a = a and b = b and ty = T_DOTSLASH, OF _ _ _ _ _ _ _ 12(1) _ 12(2) _ 12(4)])
      (use 12(3) in \<open>simp_all add: read_mul mulOp.simps del: kinds_binary lexs_binary\<close>)
next
  case (13 env a b)
  show ?case
    by (rule read_ok_binary [where mk = LeftDivExpr and a = a and b = b and ty = T_BACKSLASH, OF _ _ _ _ _ _ _ 13(1) _ 13(2) _ 13(4)])
      (use 13(3) in \<open>simp_all add: read_mul mulOp.simps del: kinds_binary lexs_binary\<close>)
next
  case (15 env a b)
  show ?case
    by (rule read_ok_binary [where mk = ExpExpr and a = a and b = b and ty = T_EXP, OF _ _ _ _ _ _ _ 15(1) _ 15(2) _ 15(4)])
      (use 15(3) in \<open>simp_all add: read_exp  del: kinds_binary lexs_binary\<close>)
qed simp_all

text \<open>An expression without its parentheses.\<close>

fun strip_parens :: "'d fir_expr \<Rightarrow> 'd fir_expr" where
  "strip_parens (MapExpr func gs actuals target through red) = MapExpr func gs (map strip_parens actuals) target through red"
| "strip_parens (OrExpr a b) = OrExpr (strip_parens a) (strip_parens b)"
| "strip_parens (AndExpr a b) = AndExpr (strip_parens a) (strip_parens b)"
| "strip_parens (XorExpr a b) = XorExpr (strip_parens a) (strip_parens b)"
| "strip_parens (EqExpr operands ops) = EqExpr (map strip_parens operands) ops"
| "strip_parens (NotExpr a) = NotExpr (strip_parens a)"
| "strip_parens (AddExpr a b) = AddExpr (strip_parens a) (strip_parens b)"
| "strip_parens (SubExpr a b) = SubExpr (strip_parens a) (strip_parens b)"
| "strip_parens (MulExpr a b) = MulExpr (strip_parens a) (strip_parens b)"
| "strip_parens (DivExpr a b) = DivExpr (strip_parens a) (strip_parens b)"
| "strip_parens (ElwiseMulExpr a b) = ElwiseMulExpr (strip_parens a) (strip_parens b)"
| "strip_parens (ElwiseDivExpr a b) = ElwiseDivExpr (strip_parens a) (strip_parens b)"
| "strip_parens (LeftDivExpr a b) = LeftDivExpr (strip_parens a) (strip_parens b)"
| "strip_parens (NegExpr negate a) = NegExpr negate (strip_parens a)"
| "strip_parens (ExpExpr a b) = ExpExpr (strip_parens a) (strip_parens b)"
| "strip_parens (TransposeExpr a) = TransposeExpr (strip_parens a)"
| "strip_parens (CallExpr func gs args) = CallExpr func gs (map strip_parens args)"
| "strip_parens (TensorReadExpr tensor indices) = TensorReadExpr (strip_parens tensor) (map (map_option strip_parens) indices)"
| "strip_parens (SetReadExpr s indices) = SetReadExpr (strip_parens s) (map strip_parens indices)"
| "strip_parens (NamedTupleReadExpr tuple elem) = NamedTupleReadExpr (strip_parens tuple) elem"
| "strip_parens (UnnamedTupleReadExpr tuple index) = UnnamedTupleReadExpr (strip_parens tuple) (strip_parens index)"
| "strip_parens (FieldReadExpr s field) = FieldReadExpr (strip_parens s) field"
| "strip_parens (ParenExpr e) = strip_parens e"
| "strip_parens e = e"

lemma strip_norm: "strip_parens (norm e) = strip_parens e"
  by (induction e rule: norm.induct) (auto simp: option.map_comp comp_def intro!: option.map_cong0)

lemma parseExpr_printed:
  assumes "printable (look_symbol m) e"
  shows "\<exists>s. parseExpr \<lparr>p_decls = m, p_tokens = fst (lex strtod (printExpr showf e)), p_errors = [], p_doubles = doubles\<rparr> =
      (Parsed (norm e), s) \<and> p_errors s = [] \<and> p_decls s = m \<and> map token_type (p_tokens s) = [T_END]"
proof -
  let ?ts = "fst (lex strtod (printExpr showf e))"
  let ?s = "\<lparr>p_decls = m, p_tokens = ?ts, p_errors = [], p_doubles = doubles\<rparr>"
  have printed: "printExpr showf e = texts (expr_pieces e)" using assms by (rule printExpr_pieces)
  have "chained (expr_pieces e) []" using printable_chained [OF assms] by (simp add: chained_expr_def)
  then have kinds: "map token_kind ?ts = expr_kinds e @ [S T_END]" unfolding printed by (rule lex_pieces)
  have "length ?ts = Suc (length (lexs (expr_pieces e)))" using arg_cong [OF kinds, of length] by simp
  then have re: "reads_expr (look_symbol m) (Suc (length ?ts)) e"
    using printable_read [OF assms, of "length ?ts"] by (simp add: read_ok_def)
  have "reads (look_symbol m) (parseExpr_n (Suc (length ?ts))) (expr_kinds e @ [S T_END]) [S T_END] (norm e)"
    by (rule reads_exprD [OF re]) (simp add: stop_tokens_def)
  from readsD [OF this, of ?s] obtain ts where ts: "parseExpr_n (Suc (length ?ts)) ?s = (Parsed (norm e), ?s\<lparr>p_tokens := ts\<rparr>)"
    "map token_kind ts = [S T_END]" using kinds by auto
  from ts(2) have "map token_type ts = [T_END]" by (auto simp: token_kind_def)
  with ts(1) show ?thesis by (auto simp: parseExpr_def fuelled_def)
qed

section \<open>Properties\<close>



end
