(* ===== verification/Checker_Types.thy ===== *)
theory Checker_Types
  imports Fir_Printer
begin

text \<open>
  The types the type checker works with (\<^verbatim>\<open>src/src/frontend/type_checker.h\<close>, \<^verbatim>\<open>type_checker.cpp\<close>, \<^verbatim>\<open>fir.h\<close>), their comparison,
  the dimensions of tensor types and the text of types in messages. In contrast to the types of \<open>Fir\<close>, which the
  parser builds, an index set that names a set carries the definition of that set (\<^verbatim>\<open>SetIndexSet::setDef\<close>) and an
  element type the set it comes from (\<^verbatim>\<open>ElementType::source\<close>). The code compares definitions as pointers: a definition
  is an address, and a store maps addresses to set types.
\<close>

section \<open>Types and sets\<close>

datatype c_index_set =
    CRange int
  | CSet string "nat option"
  | CGeneric generic_type string "nat option"
  | CDynamic

record elem_type =
  elem_ident :: string
  elem_source :: "c_index_set option"

datatype c_tensor = CScalar fir_scalar | CND "c_index_set list" c_tensor bool

datatype c_type =
    CElement elem_type
  | CSetType nat
  | CNamedTuple "(string option \<times> elem_type) list"
  | CUnnamedTuple elem_type int
  | CTensor c_tensor
  | COpaque
  | CIVar

text \<open>The element of an endpoint is null until the checker has visited the endpoint.\<close>

record endpoint =
  ep_set :: c_index_set
  ep_element :: "elem_type option"

datatype set_shape = Homogeneous endpoint int | Heterogeneous "endpoint list" | GridSet endpoint int

record set_type =
  set_element :: elem_type
  set_shape :: set_shape

fun isa_SetIndexSet :: "c_index_set \<Rightarrow> bool" where
  "isa_SetIndexSet (CSet _ _) = True"
| "isa_SetIndexSet (CGeneric _ _ _) = True"
| "isa_SetIndexSet _ = False"

fun setName :: "c_index_set \<Rightarrow> string" where
  "setName (CSet n _) = n"
| "setName (CGeneric _ n _) = n"
| "setName _ = []"

fun setDef :: "c_index_set \<Rightarrow> nat option" where
  "setDef (CSet _ d) = d"
| "setDef (CGeneric _ _ d) = d"
| "setDef _ = None"

definition getSetDefinition :: "c_index_set \<Rightarrow> nat result" where
  "getSetDefinition s = (case setDef s of None \<Rightarrow> Inl (InternalError ''hasSetDefinition(set)'') | Some a \<Rightarrow> Inr a)"

text \<open>\<^verbatim>\<open>UnstructuredSetType\<close>: arity, endpoints and homogeneity; the arity of a homogeneous set is converted to \<^verbatim>\<open>size_t\<close>.\<close>

fun isa_Unstructured :: "set_shape \<Rightarrow> bool" where
  "isa_Unstructured (GridSet _ _) = False"
| "isa_Unstructured _ = True"

fun getArity :: "set_shape \<Rightarrow> nat" where
  "getArity (Homogeneous _ arity) = nat (arity mod 2 ^ 64)"
| "getArity (Heterogeneous endpoints) = length endpoints"
| "getArity (GridSet _ _) = 0"

fun set_getEndpoint :: "set_shape \<Rightarrow> nat \<Rightarrow> endpoint result" where
  "set_getEndpoint (Homogeneous endpoint _) i = Inr endpoint"
| "set_getEndpoint (Heterogeneous endpoints) i = (if i < length endpoints then Inr (endpoints ! i) else Inl OutOfRange)"
| "set_getEndpoint (GridSet _ _) i = Inl (InternalError ''(bool)ret'')"

fun set_isHomogeneous :: "set_shape \<Rightarrow> bool result" where
  "set_isHomogeneous (Heterogeneous endpoints) =
     rbind (nth_result endpoints 0) (\<lambda>e. Inr (list_all (\<lambda>e'. setName (ep_set e') = setName (ep_set e)) (tl endpoints)))"
| "set_isHomogeneous _ = Inr True"

section \<open>Comparison\<close>

text \<open>
  Unstructured sets are compared as pointers, grids by their dimensions and underlying point sets. The point set of a
  grid is declared before the grid, so its address is smaller; the test of the addresses states this for the
  recursion to end.
\<close>

function compareIndexSets :: "(nat \<Rightarrow> set_type) \<Rightarrow> c_index_set \<Rightarrow> c_index_set \<Rightarrow> bool" where
  "compareIndexSets sets l r =
     (if isa_SetIndexSet l then
        isa_SetIndexSet r \<and>
        (case (setDef l, setDef r) of
           (Some a, Some b) \<Rightarrow>
             (case set_shape (sets a) of
                GridSet lp ldims \<Rightarrow>
                  (case set_shape (sets b) of
                     GridSet rp rdims \<Rightarrow>
                       if ldims \<noteq> rdims then False
                       else (case setDef (ep_set lp) of
                               None \<Rightarrow> False
                             | Some a' \<Rightarrow> if a' < a then compareIndexSets sets (ep_set lp) (ep_set rp) else False)
                   | _ \<Rightarrow> False)
              | _ \<Rightarrow> a = b)
         | _ \<Rightarrow> False)
      else (case (l, r) of (CRange m, CRange n) \<Rightarrow> m = n | _ \<Rightarrow> False))"
  by pat_completeness auto
termination
  by (relation "measure (\<lambda>(sets, l, r). case setDef l of None \<Rightarrow> 0 | Some a \<Rightarrow> a)") (auto dest!: sym [of "Some _"])

declare compareIndexSets.simps [simp del]

definition compareDomains :: "(nat \<Rightarrow> set_type) \<Rightarrow> c_index_set list \<Rightarrow> c_index_set list \<Rightarrow> bool" where
  "compareDomains sets l r = list_all2 (compareIndexSets sets) l r"

fun compareTensors :: "(nat \<Rightarrow> set_type) \<Rightarrow> c_tensor \<Rightarrow> c_tensor \<Rightarrow> bool \<Rightarrow> bool" where
  "compareTensors sets (CScalar l) (CScalar r) ignoreTranspose = (l = r)"
| "compareTensors sets (CND lsets lblock ltrans) (CND rsets rblock rtrans) ignoreTranspose =
     ((ltrans = rtrans \<or> ignoreTranspose) \<and> compareDomains sets lsets rsets \<and> compareTensors sets lblock rblock False)"
| "compareTensors sets _ _ ignoreTranspose = False"

definition compareElements :: "(nat \<Rightarrow> set_type) \<Rightarrow> elem_type \<Rightarrow> elem_type \<Rightarrow> bool" where
  "compareElements sets l r =
     (case (elem_source l, elem_source r) of
        (Some ls, Some rs) \<Rightarrow> compareIndexSets sets ls rs
      | _ \<Rightarrow> elem_ident l = elem_ident r)"

definition compareNullElements :: "(nat \<Rightarrow> set_type) \<Rightarrow> elem_type option \<Rightarrow> elem_type option \<Rightarrow> bool" where
  "compareNullElements sets l r = (case (l, r) of (Some le, Some re) \<Rightarrow> compareElements sets le re | _ \<Rightarrow> False)"

function compareSets :: "(nat \<Rightarrow> set_type) \<Rightarrow> nat \<Rightarrow> nat \<Rightarrow> bool result" where
  "compareSets sets a b =
     (if \<not> compareElements sets (set_element (sets a)) (set_element (sets b)) then Inr False
      else case set_shape (sets a) of
        GridSet lp ldims \<Rightarrow>
          (case set_shape (sets b) of
             GridSet rp rdims \<Rightarrow>
               if ldims \<noteq> rdims then Inr False
               else if \<not> compareNullElements sets (ep_element lp) (ep_element rp) then Inr False
               else if setName (ep_set lp) \<noteq> setName (ep_set rp) then Inr False
               else rbind (getSetDefinition (ep_set lp)) (\<lambda>a'. rbind (getSetDefinition (ep_set rp)) (\<lambda>b'.
                    if a' < a then compareSets sets a' b' else Inl Undefined))
           | _ \<Rightarrow> Inr False)
      | l \<Rightarrow>
          if \<not> isa_Unstructured (set_shape (sets b)) then Inr False
          else if getArity l \<noteq> getArity (set_shape (sets b)) then Inr False
          else rbind (rmap (\<lambda>i.
                 rbind (set_getEndpoint l i) (\<lambda>le. rbind (set_getEndpoint (set_shape (sets b)) i) (\<lambda>re.
                 Inr (compareNullElements sets (ep_element le) (ep_element re))))) [0..<getArity l])
               (\<lambda>bs. Inr (list_all id bs)))"
  by pat_completeness auto
termination
  by (relation "measure (\<lambda>(sets, a, b). a)") auto

declare compareSets.simps [simp del]

definition compareTuples ::
  "(nat \<Rightarrow> set_type) \<Rightarrow> (string option \<times> elem_type) list \<Rightarrow> (string option \<times> elem_type) list \<Rightarrow> bool" where
  "compareTuples sets l r =
     list_all2 (\<lambda>le re.
       \<not> (fst le \<noteq> None \<and> fst re \<noteq> None \<and> fst le \<noteq> fst re) \<and> compareElements sets (snd le) (snd re)) l r"

text \<open>A null type is none of the kinds, so it compares as different.\<close>

fun compareTypes :: "(nat \<Rightarrow> set_type) \<Rightarrow> c_type \<Rightarrow> c_type option \<Rightarrow> bool \<Rightarrow> bool result" where
  "compareTypes sets (CTensor l) (Some (CTensor r)) ignoreTranspose = Inr (compareTensors sets l r ignoreTranspose)"
| "compareTypes sets (CElement l) (Some (CElement r)) ignoreTranspose = Inr (compareElements sets l r)"
| "compareTypes sets (CSetType a) (Some (CSetType b)) ignoreTranspose = compareSets sets a b"
| "compareTypes sets (CNamedTuple l) (Some (CNamedTuple r)) ignoreTranspose = Inr (compareTuples sets l r)"
| "compareTypes sets (CUnnamedTuple l m) (Some (CUnnamedTuple r n)) ignoreTranspose =
     Inr (m = n \<and> compareElements sets l r)"
| "compareTypes sets COpaque (Some COpaque) ignoreTranspose = Inr True"
| "compareTypes sets _ _ ignoreTranspose = Inr False"

section \<open>Dimensions of tensor types\<close>

fun getDimensions_loop :: "c_tensor \<Rightarrow> c_index_set list list \<Rightarrow> c_index_set list list result" where
  "getDimensions_loop (CScalar _) dims = Inr dims"
| "getDimensions_loop (CND indexSets blockType _) dims =
     (let dims' = if dims = [] then replicate (length indexSets) [] else dims in
      iassert (length dims' = length indexSets) ''dims.size() == tensorType->indexSets.size()''
        (getDimensions_loop blockType (map2 (\<lambda>dim s. dim @ [s]) dims' indexSets)))"

definition getDimensions :: "c_tensor \<Rightarrow> c_index_set list list result" where
  "getDimensions t = getDimensions_loop t []"

fun tensor_getComponentType :: "c_tensor \<Rightarrow> fir_scalar" where
  "tensor_getComponentType (CScalar t) = t"
| "tensor_getComponentType (CND _ blockType _) = tensor_getComponentType blockType"

fun tensor_getOrder :: "c_tensor \<Rightarrow> nat" where
  "tensor_getOrder (CScalar _) = 0"
| "tensor_getOrder (CND indexSets _ _) = length indexSets"

fun getTransposed :: "c_tensor \<Rightarrow> bool" where
  "getTransposed (CScalar _) = False"
| "getTransposed (CND _ _ transposed) = transposed"

text \<open>The loop of \<^verbatim>\<open>makeTensorType\<close> wraps the scalar in one block type per nesting level, the innermost level first.\<close>

fun makeTensorType_loop :: "c_index_set list list \<Rightarrow> nat list \<Rightarrow> c_tensor \<Rightarrow> c_tensor result" where
  "makeTensorType_loop dimensions [] blockType = Inr blockType"
| "makeTensorType_loop dimensions (idx # idxs) blockType =
     rbind (rmap (\<lambda>dim. nth_result dim idx) dimensions) (\<lambda>indexSets.
     makeTensorType_loop dimensions idxs (CND indexSets blockType False))"

definition makeTensorType :: "fir_scalar \<Rightarrow> c_index_set list list \<Rightarrow> bool \<Rightarrow> c_tensor result" where
  "makeTensorType componentType dimensions transposed =
     (case dimensions of
        [] \<Rightarrow> Inr (CScalar componentType)
      | dim # _ \<Rightarrow>
          rbind (makeTensorType_loop dimensions (rev [0..<length dim]) (CScalar componentType)) (\<lambda>retType.
          case retType of
            CND indexSets blockType _ \<Rightarrow> Inr (CND indexSets blockType transposed)
          | CScalar _ \<Rightarrow> Inl (InternalError ''(bool)ret'')))"

section \<open>Text of types\<close>

fun printCIndexSet :: "c_index_set \<Rightarrow> string" where
  "printCIndexSet (CRange n) = ''0:'' @ int_to_string n"
| "printCIndexSet (CSet n _) = n"
| "printCIndexSet (CGeneric _ n _) = n"
| "printCIndexSet CDynamic = ''*''"

fun printCTensor :: "c_tensor \<Rightarrow> string" where
  "printCTensor (CScalar t) = printScalarType t"
| "printCTensor (CND indexSets blockType transposed) =
     ''tensor['' @ join (map printCIndexSet indexSets) '','' @ '']('' @ printCTensor blockType @ '')'' @
     (if transposed then [CHR 0x27] else [])"

fun printSetShape :: "string \<Rightarrow> set_shape \<Rightarrow> string" where
  "printSetShape element (Homogeneous endpoint arity) =
     ''set{'' @ element @ ''}('' @ printCIndexSet (ep_set endpoint) @ '' * '' @ int_to_string arity @ '')''"
| "printSetShape element (Heterogeneous endpoints) =
     ''set{'' @ element @ ''}'' @
     (if endpoints \<noteq> [] then ''('' @ join (map (printCIndexSet \<circ> ep_set) endpoints) '','' @ '')'' else [])"
| "printSetShape element (GridSet endpoint dimensions) =
     ''grid{'' @ element @ ''}['' @ int_to_string dimensions @ '']('' @ printCIndexSet (ep_set endpoint) @ '')''"

fun printCType :: "(nat \<Rightarrow> set_type) \<Rightarrow> c_type \<Rightarrow> string" where
  "printCType sets (CElement e) = elem_ident e"
| "printCType sets (CSetType a) = printSetShape (elem_ident (set_element (sets a))) (set_shape (sets a))"
| "printCType sets (CNamedTuple elems) =
     ''('' @ join (map (\<lambda>e. (case fst e of None \<Rightarrow> [] | Some n \<Rightarrow> n @ '' : '') @ elem_ident (snd e)) elems) '', '' @ '')''"
| "printCType sets (CUnnamedTuple e len) = ''('' @ elem_ident e @ '' * '' @ int_to_string len @ '')''"
| "printCType sets (CTensor t) = printCTensor t"
| "printCType sets COpaque = ''opaque''"
| "printCType sets CIVar = ''ivar''"

fun sourceString :: "c_type \<Rightarrow> string" where
  "sourceString (CElement e) =
     (case elem_source e of None \<Rightarrow> [] | Some s \<Rightarrow> '' from set '' @ [CHR 0x27] @ printCIndexSet s @ [CHR 0x27])"
| "sourceString (CUnnamedTuple e len) =
     (case elem_source e of
        None \<Rightarrow> []
      | Some s \<Rightarrow> '' from set '' @ [CHR 0x27] @ ''('' @ printCIndexSet s @ '' * '' @ int_to_string len @ '')'' @ [CHR 0x27])"
| "sourceString _ = []"

definition toString_type :: "(nat \<Rightarrow> set_type) \<Rightarrow> c_type \<Rightarrow> bool \<Rightarrow> string" where
  "toString_type sets type printQuotes =
     (let quote = if printQuotes then [CHR 0x27] else [];
          typeOut = printCType sets type in
      (if typeOut = [] then ''unknown'' else quote @ typeOut @ quote) @ sourceString type)"

text \<open>Printing a null type dereferences it.\<close>

definition toString_null :: "(nat \<Rightarrow> set_type) \<Rightarrow> c_type option \<Rightarrow> string result" where
  "toString_null sets type = (case type of None \<Rightarrow> Inl Undefined | Some t \<Rightarrow> Inr (toString_type sets t True))"

fun toString_scalar :: "fir_scalar \<Rightarrow> string" where
  "toString_scalar SC_INT = ''integer''"
| "toString_scalar SC_FLOAT = ''floating-point''"
| "toString_scalar SC_BOOL = ''boolean''"
| "toString_scalar SC_COMPLEX = ''complex''"
| "toString_scalar SC_STRING = ''string''"

end
