(* ===== verification/Type_Checker.thy ===== *)
theory Type_Checker
  imports Checker_Types Scoped_Map
begin

text \<open>
  The typing of expressions (\<^verbatim>\<open>class TypeChecker\<close> in \<^verbatim>\<open>src/src/frontend/type_checker.h\<close> and \<^verbatim>\<open>type_checker.cpp\<close>), one definition
  per method. A method gets the checks of its operands as arguments and runs them in the order of the source; it
  appends to the reported errors, sets the flags of the checker and returns what it leaves in \<^verbatim>\<open>retType\<close>. Expressions do
  not declare anything, so the environment is an argument: the symbol table, the functions, the fields of element
  types, the set types by address, and the definition that the pass before (\<^verbatim>\<open>ComputeSetDefinitions\<close>) attached to the
  index sets with a given name at this point of the program. Locations are not modelled: an error is its message. A
  call of a generic function ends in an error of its own kind, as the specialisation of such functions, which checks
  and rewrites their bodies, is not modelled.
\<close>

section \<open>State\<close>

datatype Access = ACC_NONE | ACC_READ | ACC_WRITE | ACC_READ_WRITE

record expr_type =
  et_types :: "c_type list"
  et_access :: Access
  et_defined :: bool

definition undefType :: "Access \<Rightarrow> expr_type" where
  "undefType acc = \<lparr>et_types = [], et_access = acc, et_defined = False\<rparr>"

definition exprType :: "c_type list \<Rightarrow> Access \<Rightarrow> expr_type" where
  "exprType ts acc = \<lparr>et_types = ts, et_access = acc, et_defined = True\<rparr>"

definition tensorType :: "c_tensor \<Rightarrow> expr_type" where
  "tensorType t = exprType [CTensor t] ACC_READ"

definition scalarType :: "fir_scalar \<Rightarrow> expr_type" where
  "scalarType t = tensorType (CScalar t)"

definition isVoid :: "expr_type \<Rightarrow> bool" where
  "isVoid t = (et_types t = [])"

definition isSingleValue :: "expr_type \<Rightarrow> bool" where
  "isSingleValue t = (length (et_types t) = 1)"

definition single :: "expr_type \<Rightarrow> c_type option" where
  "single t = (case et_types t of [x] \<Rightarrow> Some x | _ \<Rightarrow> None)"

definition et_isTensor :: "expr_type \<Rightarrow> bool" where
  "et_isTensor t = (case single t of Some (CTensor _) \<Rightarrow> True | _ \<Rightarrow> False)"

definition et_isScalar :: "expr_type \<Rightarrow> bool" where
  "et_isScalar t = (case single t of Some (CTensor (CScalar _)) \<Rightarrow> True | _ \<Rightarrow> False)"

definition isScalarType :: "fir_scalar \<Rightarrow> expr_type \<Rightarrow> bool" where
  "isScalarType sc t = (single t = Some (CTensor (CScalar sc)))"

definition isIndexVar :: "expr_type \<Rightarrow> bool" where
  "isIndexVar t = (single t = Some CIVar)"

definition isOpaque :: "expr_type \<Rightarrow> bool result" where
  "isOpaque t = rbind (nth_result (et_types t) 0) (\<lambda>x. Inr (x = COpaque))"

definition isNumericType :: "fir_scalar \<Rightarrow> bool" where
  "isNumericType t = (t = SC_INT \<or> t = SC_FLOAT \<or> t = SC_COMPLEX)"

definition isNumericTensor :: "expr_type \<Rightarrow> bool" where
  "isNumericTensor t = (case single t of Some (CTensor x) \<Rightarrow> isNumericType (tensor_getComponentType x) | _ \<Rightarrow> False)"

definition isWritable :: "expr_type \<Rightarrow> bool" where
  "isWritable t = (et_access t = ACC_WRITE \<or> et_access t = ACC_READ_WRITE)"

text \<open>\<^verbatim>\<open>to<TensorType>(t.type[0])\<close>.\<close>

definition toTensor :: "expr_type \<Rightarrow> c_tensor result" where
  "toTensor t = rbind (nth_result (et_types t) 0) (\<lambda>x.
     case x of CTensor y \<Rightarrow> Inr y | _ \<Rightarrow> Inl (InternalError ''(bool)ret''))"

record func_sig =
  originalName :: string
  sig_generics :: nat
  sig_args :: "(bool \<times> c_type option) list"
  sig_results :: "c_type list"

record tc_env =
  env_symbols :: "(string, c_type option \<times> Access) scoped_map"
  env_funcs :: "string \<rightharpoonup> func_sig option"
  env_elements :: "string \<rightharpoonup> (string \<rightharpoonup> c_tensor option)"
  env_sets :: "nat \<Rightarrow> set_type"
  env_setDefs :: "string \<rightharpoonup> nat"
  skipCheckDeclared :: bool

record tc_state =
  retTypeChecked :: bool
  hasIndexExpr :: bool
  tc_errors :: "string list"

type_synonym 'a tc = "tc_state \<Rightarrow> ('a \<times> tc_state) result"

definition tret :: "'a \<Rightarrow> 'a tc" where
  "tret x = (\<lambda>s. Inr (x, s))"

definition tbind :: "'a tc \<Rightarrow> ('a \<Rightarrow> 'b tc) \<Rightarrow> 'b tc" where
  "tbind m f = (\<lambda>s. rbind (m s) (\<lambda>(x, s'). f x s'))"

definition tthen :: "unit tc \<Rightarrow> 'b tc \<Rightarrow> 'b tc" where
  "tthen m k = tbind m (\<lambda>_. k)"

definition tlift :: "'a result \<Rightarrow> 'a tc" where
  "tlift r = (\<lambda>s. rbind r (\<lambda>x. Inr (x, s)))"

definition tfail :: "error \<Rightarrow> 'a tc" where
  "tfail e = (\<lambda>s. Inl e)"

definition report :: "string \<Rightarrow> unit tc" where
  "report message = (\<lambda>s. Inr ((), s\<lparr>tc_errors := tc_errors s @ [message], retTypeChecked := False\<rparr>))"

definition reportIf :: "bool \<Rightarrow> string \<Rightarrow> unit tc" where
  "reportIf c message = (if c then report message else tret ())"

definition quote :: "string \<Rightarrow> string" where
  "quote x = [CHR 0x27] @ x @ [CHR 0x27]"

definition reportUndeclared :: "string \<Rightarrow> string \<Rightarrow> unit tc" where
  "reportUndeclared type ident = report (''undeclared '' @ type @ '' '' @ quote ident)"

definition setChecked :: "bool \<Rightarrow> unit tc" where
  "setChecked b = (\<lambda>s. Inr ((), s\<lparr>retTypeChecked := b\<rparr>))"

definition getChecked :: "bool tc" where
  "getChecked = (\<lambda>s. Inr (retTypeChecked s, s))"

text \<open>\<^verbatim>\<open>typeCheck\<close>: visit a node with the flag set, return the flag and restore it.\<close>

definition typeCheck :: "unit tc \<Rightarrow> bool tc" where
  "typeCheck visit = (\<lambda>s. rbind (visit (s\<lparr>retTypeChecked := True\<rparr>)) (\<lambda>(_, s').
     Inr (retTypeChecked s', s'\<lparr>retTypeChecked := retTypeChecked s\<rparr>)))"

definition toString_et :: "tc_env \<Rightarrow> expr_type \<Rightarrow> string" where
  "toString_et env t =
     (case et_types t of
        [] \<Rightarrow> quote ''void''
      | [x] \<Rightarrow> toString_type (env_sets env) x True
      | ts \<Rightarrow> quote (''('' @ join (map (\<lambda>x. toString_type (env_sets env) x False) ts) '', '' @ '')''))"

section \<open>Variables and index sets\<close>

definition hasSymbol :: "tc_env \<Rightarrow> string \<Rightarrow> bool tc" where
  "hasSymbol env name = tlift (contains_symbol (env_symbols env) name AllScopes)"

definition getSymbol :: "tc_env \<Rightarrow> string \<Rightarrow> (c_type option \<times> Access) tc" where
  "getSymbol env name =
     tbind (hasSymbol env name) (\<lambda>b.
     if \<not> b then tfail (InternalError ''hasSymbol(name, scope)'')
     else tlift (get_symbol (env_symbols env) name AllScopes))"

definition visitVarExpr :: "tc_env \<Rightarrow> string \<Rightarrow> expr_type tc" where
  "visitVarExpr env ident =
     tbind (hasSymbol env ident) (\<lambda>b.
     if \<not> b then
       tthen (if skipCheckDeclared env then tret () else reportUndeclared ''variable or constant'' ident)
         (tret (undefType ACC_READ_WRITE))
     else
       tbind (getSymbol env ident) (\<lambda>(varType, varAccess).
       tret (case varType of None \<Rightarrow> undefType varAccess | Some t \<Rightarrow> exprType [t] varAccess)))"

text \<open>An index set of an expression with the definition attached to it.\<close>

fun resolveIndexSet :: "tc_env \<Rightarrow> fir_index_set \<Rightarrow> c_index_set" where
  "resolveIndexSet env (RangeIndexSet n) = CRange n"
| "resolveIndexSet env (SetIndexSet n) = CSet n (env_setDefs env n)"
| "resolveIndexSet env (GenericIndexSet g n) = CGeneric g n (env_setDefs env n)"
| "resolveIndexSet env DynamicIndexSet = CDynamic"

definition visitSetIndexSet :: "tc_env \<Rightarrow> c_index_set \<Rightarrow> unit tc" where
  "visitSetIndexSet env s =
     tbind (hasSymbol env (setName s)) (\<lambda>b.
     if \<not> b then reportUndeclared ''set'' (setName s)
     else
       tbind (getSymbol env (setName s)) (\<lambda>(type, _).
       if setDef s = None \<and> (case type of Some (CSetType _) \<Rightarrow> False | _ \<Rightarrow> True) then
         tbind (tlift (toString_null (env_sets env) type)) (\<lambda>text.
         report (''expected a set but '' @ quote (setName s) @ '' is of type '' @ text))
       else tret ()))"

fun visitIndexSet :: "tc_env \<Rightarrow> c_index_set \<Rightarrow> unit tc" where
  "visitIndexSet env (CSet n d) = visitSetIndexSet env (CSet n d)"
| "visitIndexSet env _ = tret ()"

section \<open>Operators\<close>

definition typeCheckBinaryBoolean :: "tc_env \<Rightarrow> expr_type tc \<Rightarrow> expr_type tc \<Rightarrow> expr_type tc" where
  "typeCheckBinaryBoolean env lhs rhs =
     tbind lhs (\<lambda>lhsType. tbind rhs (\<lambda>rhsType.
     tthen (reportIf (et_defined lhsType \<and> \<not> isScalarType SC_BOOL lhsType)
       (''expected left operand of boolean operation to be a boolean but got an operand of type '' @ toString_et env lhsType))
     (tthen (reportIf (et_defined rhsType \<and> \<not> isScalarType SC_BOOL rhsType)
       (''expected right operand of boolean operation to be a boolean but got an operand of type '' @ toString_et env rhsType))
     (tret (scalarType SC_BOOL)))))"

fun eqOperands :: "tc_env \<Rightarrow> expr_type tc list \<Rightarrow> c_type option \<Rightarrow> unit tc" where
  "eqOperands env [] repType = tret ()"
| "eqOperands env (operand # operands) repType =
     tbind operand (\<lambda>opndType.
     if \<not> et_defined opndType then eqOperands env operands repType
     else if \<not> et_isScalar opndType then
       tthen (report (''comparison operations can only be performed on scalar values, not values of type '' @
         toString_et env opndType)) (eqOperands env operands repType)
     else
       tbind (tlift (nth_result (et_types opndType) 0)) (\<lambda>type.
       case repType of
         None \<Rightarrow> eqOperands env operands (Some type)
       | Some rep \<Rightarrow>
           tbind (tlift (compareTypes (env_sets env) rep (Some type) False)) (\<lambda>same.
           tthen (reportIf (\<not> same) (''value of type '' @ toString_et env opndType @
             '' cannot be compared to value of type '' @ toString_type (env_sets env) rep True))
           (eqOperands env operands repType))))"

definition visitEqExpr :: "tc_env \<Rightarrow> expr_type tc list \<Rightarrow> expr_type tc" where
  "visitEqExpr env operands = tthen (eqOperands env operands None) (tret (scalarType SC_BOOL))"

definition visitNotExpr :: "tc_env \<Rightarrow> expr_type tc \<Rightarrow> expr_type tc" where
  "visitNotExpr env operand =
     tbind operand (\<lambda>opndType.
     tthen (reportIf (et_defined opndType \<and> \<not> isScalarType SC_BOOL opndType)
       (''expected a boolean operand but got an operand of type '' @ toString_et env opndType))
     (tret (scalarType SC_BOOL)))"

text \<open>
  The common start of the binary operations on tensors: both operands are inferred, the flag becomes whether both are
  defined, and each has to satisfy the predicate. The continuation runs when all of this holds.
\<close>

definition binaryOperands ::
  "tc_env \<Rightarrow> bool \<Rightarrow> (expr_type \<Rightarrow> bool) \<Rightarrow> string \<Rightarrow> string \<Rightarrow> expr_type tc \<Rightarrow> expr_type tc \<Rightarrow>
   (expr_type \<Rightarrow> expr_type \<Rightarrow> expr_type tc) \<Rightarrow> expr_type tc" where
  "binaryOperands env noIndexExpr ok lmsg rmsg lhs rhs k =
     tbind lhs (\<lambda>lhsType. tbind rhs (\<lambda>rhsType.
     tthen (setChecked (et_defined lhsType \<and> et_defined rhsType))
     (tthen (\<lambda>s. reportIf (noIndexExpr \<and> hasIndexExpr s) ''Index expression is not allowed in this operation'' s)
     (tthen (reportIf (et_defined lhsType \<and> \<not> ok lhsType) (lmsg @ toString_et env lhsType))
     (tthen (reportIf (et_defined rhsType \<and> \<not> ok rhsType) (rmsg @ toString_et env rhsType))
     (tbind getChecked (\<lambda>checked. if \<not> checked then tret (undefType ACC_NONE) else k lhsType rhsType)))))))"

definition typeCheckBinaryElwise :: "tc_env \<Rightarrow> bool \<Rightarrow> expr_type tc \<Rightarrow> expr_type tc \<Rightarrow> expr_type tc" where
  "typeCheckBinaryElwise env allowStringOperands lhs rhs =
     binaryOperands env False (\<lambda>t. isNumericTensor t \<or> (allowStringOperands \<and> isScalarType SC_STRING t))
       (''expected left operand of element-wise operation to be a numeric tensor '' @
        (if allowStringOperands then ''or string '' else []) @ ''but got an operand of type '')
       (''expected right operand of element-wise operation to be a numeric tensor '' @
        (if allowStringOperands then ''or string '' else []) @ ''but got an operand of type '')
       lhs rhs (\<lambda>lhsType rhsType.
     tbind (tlift (toTensor lhsType)) (\<lambda>ltype. tbind (tlift (toTensor rhsType)) (\<lambda>rtype.
     tbind (tlift (getDimensions ltype)) (\<lambda>ldimensions. tbind (tlift (getDimensions rtype)) (\<lambda>rdimensions.
     let hasScalarOperand = (length ldimensions = 0 \<or> length rdimensions = 0) in
     if (if hasScalarOperand then tensor_getComponentType ltype \<noteq> tensor_getComponentType rtype
         else \<not> compareTensors (env_sets env) ltype rtype False) then
       tthen (report (''cannot perform element-wise operation on tensors of type '' @
         toString_type (env_sets env) (CTensor ltype) True @ '' and type '' @ toString_type (env_sets env) (CTensor rtype) True))
       (tret (undefType ACC_NONE))
     else tret (if 0 < length ldimensions then tensorType ltype else tensorType rtype))))))"

definition tmake :: "fir_scalar \<Rightarrow> c_index_set list list \<Rightarrow> bool \<Rightarrow> expr_type tc" where
  "tmake componentType dimensions transposed =
     tbind (tlift (makeTensorType componentType dimensions transposed)) (\<lambda>t. tret (tensorType t))"

definition mulMessage :: "tc_env \<Rightarrow> string \<Rightarrow> c_tensor \<Rightarrow> string \<Rightarrow> c_tensor \<Rightarrow> string" where
  "mulMessage env lkind ltype rkind rtype =
     ''cannot multiply a '' @ lkind @ '' of type '' @ toString_type (env_sets env) (CTensor ltype) True @
     '' by a '' @ rkind @ '' of type '' @ toString_type (env_sets env) (CTensor rtype) True"

text \<open>The cases of a product by the orders of its operands, after the checks of the operands and their components.\<close>

definition mulDimensions ::
  "tc_env \<Rightarrow> c_tensor \<Rightarrow> c_tensor \<Rightarrow> c_index_set list list \<Rightarrow> c_index_set list list \<Rightarrow> expr_type tc" where
  "mulDimensions env ltype rtype ldimensions rdimensions =
     (let lhsOrder = length ldimensions; rhsOrder = length rdimensions;
          lhsTransposed = getTransposed ltype; rhsTransposed = getTransposed rtype;
          component = tensor_getComponentType ltype; same = compareDomains (env_sets env) in
      if lhsOrder = 0 \<or> rhsOrder = 0 then tret (if 0 < lhsOrder then tensorType ltype else tensorType rtype)
      else if lhsOrder = 1 \<and> rhsOrder = 1 then
        (if lhsTransposed \<and> rhsTransposed then
           tthen (report ''cannot multiply two row vectors'') (tret (undefType ACC_NONE))
         else if \<not> lhsTransposed \<and> \<not> rhsTransposed then
           tthen (report ''cannot multiply two column vectors'') (tret (undefType ACC_NONE))
         else if \<not> same (ldimensions ! 0) (rdimensions ! 0) then
           tthen (report (mulMessage env ''vector'' ltype ''vector'' rtype)) (tret (undefType ACC_NONE))
         else tmake component (if \<not> lhsTransposed then [ldimensions ! 0, rdimensions ! 0] else []) False)
      else if lhsOrder = 2 \<and> rhsOrder = 1 then
        (if \<not> same (ldimensions ! 1) (rdimensions ! 0) then
           tthen (report (mulMessage env ''matrix'' ltype ''vector'' rtype)) (tret (undefType ACC_NONE))
         else tthen (reportIf rhsTransposed ''cannot multiply a matrix by a row vector'')
           (tmake component [ldimensions ! 0] False))
      else if lhsOrder = 1 \<and> rhsOrder = 2 then
        (if \<not> same (ldimensions ! 0) (rdimensions ! 0) then
           tthen (report (mulMessage env ''vector'' ltype ''matrix'' rtype)) (tret (undefType ACC_NONE))
         else tthen (reportIf (\<not> lhsTransposed) ''cannot multiply a column vector by a matrix'')
           (tmake component [rdimensions ! 1] True))
      else if lhsOrder = 2 \<and> rhsOrder = 2 then
        (if \<not> same (ldimensions ! 1) (rdimensions ! 0) then
           tthen (report (mulMessage env ''matrix'' ltype ''matrix'' rtype)) (tret (undefType ACC_NONE))
         else tmake component [ldimensions ! 0, rdimensions ! 1] False)
      else tthen (report ''cannot multiply tensors of order 3 or greater using *'') (tret (undefType ACC_NONE)))"

definition visitMulExpr :: "tc_env \<Rightarrow> expr_type tc \<Rightarrow> expr_type tc \<Rightarrow> expr_type tc" where
  "visitMulExpr env lhs rhs =
     binaryOperands env False isNumericTensor
       ''expected left operand of multiplication operation to be a numeric tensor but got an operand of type ''
       ''expected right operand of multiplication operation to be a numeric tensor but got an operand of type ''
       lhs rhs (\<lambda>lhsType rhsType.
     tbind (tlift (toTensor lhsType)) (\<lambda>ltype. tbind (tlift (toTensor rhsType)) (\<lambda>rtype.
     if tensor_getComponentType ltype \<noteq> tensor_getComponentType rtype then
       tthen (report (''cannot multiply a '' @ toString_scalar (tensor_getComponentType ltype) @ '' tensor by a '' @
         toString_scalar (tensor_getComponentType rtype) @ '' tensor''))
       (tret (undefType ACC_NONE))
     else
       tbind (tlift (getDimensions ltype)) (\<lambda>ldimensions. tbind (tlift (getDimensions rtype)) (\<lambda>rdimensions.
       mulDimensions env ltype rtype ldimensions rdimensions)))))"

definition visitDivExpr :: "tc_env \<Rightarrow> expr_type tc \<Rightarrow> expr_type tc \<Rightarrow> expr_type tc" where
  "visitDivExpr env lhs rhs =
     binaryOperands env True isNumericTensor
       ''expected left operand of division operation to be a numeric tensor but got an operand of type ''
       ''expected right operand of division operation to be a numeric tensor but got an operand of type ''
       lhs rhs (\<lambda>lhsType rhsType.
     tbind (tlift (toTensor lhsType)) (\<lambda>ltype. tbind (tlift (toTensor rhsType)) (\<lambda>rtype.
     if tensor_getComponentType ltype \<noteq> tensor_getComponentType rtype then
       tthen (report (''cannot divide a '' @ toString_scalar (tensor_getComponentType ltype) @ '' tensor by a '' @
         toString_scalar (tensor_getComponentType rtype) @ '' tensor''))
       (tret (undefType ACC_NONE))
     else
       tbind (tlift (getDimensions ltype)) (\<lambda>ldimensions. tbind (tlift (getDimensions rtype)) (\<lambda>rdimensions.
       if 0 < length ldimensions \<and> 0 < length rdimensions then
         tthen (report (''division of a non-scalar tensor of type '' @ toString_type (env_sets env) (CTensor ltype) True @
           '' by a non-scalar tensor of type '' @ toString_type (env_sets env) (CTensor rtype) True @ '' is not supported''))
         (tret (undefType ACC_NONE))
       else tret (if 0 < length ldimensions then tensorType ltype else tensorType rtype))))))"

text \<open>The message about the right operand prints the type of the left one, as the source does.\<close>

definition visitLeftDivExpr :: "tc_env \<Rightarrow> expr_type tc \<Rightarrow> expr_type tc \<Rightarrow> expr_type tc" where
  "visitLeftDivExpr env lhs rhs =
     binaryOperands env True isNumericTensor
       ''expected left operand of solve operation to be a numeric matrix but got an operand of type ''
       ''expected right operand of solve operation to be a numeric column vector but got an operand of type ''
       lhs rhs (\<lambda>lhsType rhsType.
     tbind (tlift (toTensor lhsType)) (\<lambda>ltype. tbind (tlift (toTensor rhsType)) (\<lambda>rtype.
     tthen (reportIf (tensor_getComponentType ltype \<noteq> tensor_getComponentType rtype)
       (''solve operation cannot be performed on a '' @ toString_scalar (tensor_getComponentType ltype) @
        '' tensor and a '' @ toString_scalar (tensor_getComponentType rtype) @ '' tensor''))
     (tbind (tlift (getDimensions ltype)) (\<lambda>ldimensions. tbind (tlift (getDimensions rtype)) (\<lambda>rdimensions.
      tthen (reportIf (length ldimensions \<noteq> 2)
        (''expected left operand of solve operation to be a matrix but got an operand of type '' @ toString_et env lhsType))
      (tthen (reportIf (length rdimensions \<noteq> 1 \<or> getTransposed rtype)
        (''expected right operand of solve operation to be a column vector but got an operand of type '' @
         toString_et env lhsType))
      (tbind getChecked (\<lambda>checked.
       if \<not> checked then tret (undefType ACC_NONE)
       else if \<not> compareDomains (env_sets env) (ldimensions ! 0) (rdimensions ! 0) then
         tthen (report (''solve operation cannot be performed on a matrix of type '' @
           toString_type (env_sets env) (CTensor ltype) True @ '' and a vector of type '' @
           toString_type (env_sets env) (CTensor rtype) True))
         (tret (undefType ACC_NONE))
       else tmake (tensor_getComponentType ltype) [ldimensions ! 1] False)))))))))"

definition visitNegExpr :: "tc_env \<Rightarrow> expr_type tc \<Rightarrow> expr_type tc" where
  "visitNegExpr env operand =
     tbind operand (\<lambda>opndType.
     if \<not> et_defined opndType then tret (undefType ACC_NONE)
     else if \<not> isNumericTensor opndType then
       tthen (report (''expected operand of tensor negation to be a numeric tensor but got an operand of type '' @
         toString_et env opndType)) (tret (undefType ACC_NONE))
     else tbind (tlift (nth_result (et_types opndType) 0)) (\<lambda>t. tret (exprType [t] ACC_READ)))"

text \<open>The operand is taken for a tensor before the test that it is one.\<close>

definition visitTransposeExpr :: "tc_env \<Rightarrow> expr_type tc \<Rightarrow> expr_type tc" where
  "visitTransposeExpr env operand =
     tbind operand (\<lambda>opndType.
     if \<not> et_defined opndType then tret (undefType ACC_NONE)
     else
       tbind (tlift (toTensor opndType)) (\<lambda>tensor. tbind (tlift (getDimensions tensor)) (\<lambda>dimensions.
       if \<not> et_isTensor opndType \<or> length dimensions > 2 then
         tthen (report (''operand of tensor transpose must be a tensor of order 2 or less, but got an operand of type '' @
           toString_et env opndType)) (tret (undefType ACC_NONE))
       else if length dimensions = 0 then tret (tensorType tensor)
       else if length dimensions = 1 then
         tmake (tensor_getComponentType tensor) dimensions (\<not> getTransposed tensor)
       else tmake (tensor_getComponentType tensor) [dimensions ! 1, dimensions ! 0] False)))"

end
