(* ===== verification/Type_Inference.thy ===== *)
theory Type_Inference
  imports Type_Checker
begin

text \<open>
  The rest of the typing of expressions (\<^verbatim>\<open>src/src/frontend/type_checker.cpp\<close>): reads of tensors, sets, tuples and fields,
  literals, calls and maps, and \<open>inferType\<close>, which puts the methods together.
\<close>

section \<open>Reads\<close>

text \<open>The check of one index expression of a tensor read against the outermost index set of its dimension.\<close>

definition checkElementIndex :: "tc_env \<Rightarrow> c_index_set \<Rightarrow> expr_type \<Rightarrow> unit tc" where
  "checkElementIndex env indexSet indexType =
     (case single indexType of
        Some (CElement elem) \<Rightarrow>
          tbind (tlift (getSetDefinition indexSet)) (\<lambda>a.
          let domainElem = set_element (env_sets env a) in
          if elem_ident domainElem \<noteq> [] \<and> elem_ident domainElem \<noteq> elem_ident elem then
            report (''expected an element of type '' @ toString_type (env_sets env) (CElement domainElem) True @
              '' as index but got an element of type '' @ quote (elem_ident elem))
          else (case elem_source elem of
            None \<Rightarrow> tret ()
          | Some source \<Rightarrow>
              reportIf (\<not> compareIndexSets (env_sets env) indexSet source)
                (''expected an element of set '' @ quote (setName indexSet) @
                 '' as index but got an element inferred to be of set '' @ quote (setName source))))
      | _ \<Rightarrow>
          report (''expected an element of set '' @ quote (setName indexSet) @ '' as index but got an index of type '' @
            toString_et env indexType))"

definition checkIndex :: "tc_env \<Rightarrow> c_index_set list \<Rightarrow> expr_type tc \<Rightarrow> unit tc" where
  "checkIndex env dimension index =
     tbind index (\<lambda>indexType.
     if \<not> et_defined indexType then tret ()
     else if isVoid indexType then report ''must pass a non-void value as index''
     else if \<not> isSingleValue indexType then report ''cannot pass multiple values as a single index''
     else if isIndexVar indexType then tret ()
     else
       tbind (tlift (nth_result dimension 0)) (\<lambda>indexSet.
       case indexSet of
         CRange _ \<Rightarrow>
           reportIf (\<not> isScalarType SC_INT indexType)
             (''expected an integral index but got an index of type '' @ toString_et env indexType)
       | CGeneric GT_RANGE _ _ \<Rightarrow>
           reportIf (\<not> isScalarType SC_INT indexType)
             (''expected an integral index but got an index of type '' @ toString_et env indexType)
       | CDynamic \<Rightarrow> tfail (TemporaryError ''not_supported_yet'')
       | _ \<Rightarrow> checkElementIndex env indexSet indexType))"

text \<open>The read parameters are slices (\<open>None\<close>) or the checks of expressions, which depend on \<^verbatim>\<open>allowIndexExpr\<close>.\<close>

fun readIndices ::
  "tc_env \<Rightarrow> bool \<Rightarrow> c_index_set list list \<Rightarrow> (bool \<Rightarrow> expr_type tc) option list \<Rightarrow> c_index_set list list tc" where
  "readIndices env allow (dimension # dimensions) (None # indices) =
     tbind (readIndices env allow dimensions indices) (\<lambda>ds. tret (dimension # ds))"
| "readIndices env allow (dimension # dimensions) (Some index # indices) =
     tthen (checkIndex env dimension (index allow)) (readIndices env allow dimensions indices)"
| "readIndices env allow _ _ = tret []"

fun anyIndexVar :: "bool \<Rightarrow> (bool \<Rightarrow> expr_type tc) option list \<Rightarrow> bool tc" where
  "anyIndexVar allow [] = tret False"
| "anyIndexVar allow (None # indices) = anyIndexVar allow indices"
| "anyIndexVar allow (Some index # indices) =
     tbind (index allow) (\<lambda>t. if et_defined t \<and> isIndexVar t then tret True else anyIndexVar allow indices)"

fun inferNested :: "(bool \<Rightarrow> expr_type tc) option list \<Rightarrow> unit tc" where
  "inferNested [] = tret ()"
| "inferNested (None # indices) = inferNested indices"
| "inferNested (Some index # indices) = tbind (index False) (\<lambda>_. inferNested indices)"

definition isSlice :: "'a option \<Rightarrow> bool" where
  "isSlice index = (index = None)"

text \<open>
  The type of the read. With one dimension left, the orientation is that of the tensor if its blocks are vectors, and
  otherwise whether the index before the last one is an expression; there is none in a read with one index.
\<close>

definition readType ::
  "c_tensor \<Rightarrow> Access \<Rightarrow> (bool \<Rightarrow> expr_type tc) option list \<Rightarrow> c_index_set list list \<Rightarrow> expr_type result" where
  "readType tensor acc indices retDimensions =
     (case tensor of
        CScalar _ \<Rightarrow> Inl (InternalError ''(bool)ret'')
      | CND _ blockType transposed \<Rightarrow>
          if retDimensions = [] then Inr (exprType [CTensor blockType] acc)
          else
            rbind (if length retDimensions = 1 then
                     rbind (getDimensions blockType) (\<lambda>blockDims.
                     if length blockDims = 1 then Inr transposed
                     else if length indices < 2 then Inl Undefined
                     else Inr (\<not> isSlice (indices ! (length indices - 2))))
                   else Inr False) (\<lambda>isTransposed.
            rbind (makeTensorType (tensor_getComponentType tensor) retDimensions isTransposed) (\<lambda>t.
            Inr (exprType [CTensor t] acc))))"

definition readTensor ::
  "tc_env \<Rightarrow> bool \<Rightarrow> expr_type \<Rightarrow> (bool \<Rightarrow> expr_type tc) option list \<Rightarrow> expr_type tc" where
  "readTensor env allow lhsType indices =
     (let acc = et_access lhsType in
      if \<not> et_isTensor lhsType then
        tthen (report (''expected left operand of tensor access to be a tensor but got a '' @ toString_et env lhsType))
        (tret (undefType acc))
      else
        tbind (tlift (toTensor lhsType)) (\<lambda>tensor. tbind (tlift (getDimensions tensor)) (\<lambda>dimensions.
        if length indices \<noteq> length dimensions then
          tthen (report (''tensor access expected '' @ int_to_string (int (length dimensions)) @ '' indices but got '' @
            int_to_string (int (length indices)))) (tret (undefType acc))
        else
          tbind (anyIndexVar allow indices) (\<lambda>hasIndex.
          tthen (\<lambda>s. Inr ((), s\<lparr>hasIndexExpr := hasIndexExpr s \<or> hasIndex\<rparr>))
          (if hasIndex \<and> \<not> allow then
             tthen (report ''Index expression is not allowed in non-assignment'') (tret (undefType acc))
           else if hasIndex \<and> \<not> list_all (\<lambda>i. \<not> isSlice i) indices then
             tthen (report ''Cannot mix index expression and slice: '') (tret (undefType acc))
           else
             tthen (inferNested indices)
             (tbind (readIndices env allow dimensions indices) (\<lambda>retDimensions.
              tlift (readType tensor acc indices retDimensions))))))))"

definition visitTensorReadExpr ::
  "tc_env \<Rightarrow> bool \<Rightarrow> string option \<Rightarrow> (bool \<Rightarrow> expr_type tc) \<Rightarrow> (bool \<Rightarrow> expr_type tc) option list \<Rightarrow> expr_type tc" where
  "visitTensorReadExpr env allow tensorVar tensor indices =
     (case (if list_all (\<lambda>i. \<not> isSlice i) indices then tensorVar else None) of
        Some ident \<Rightarrow>
          tbind (hasSymbol env ident) (\<lambda>b.
          if \<not> b then
            tthen (if skipCheckDeclared env then tret () else reportUndeclared ''variable, constant, or function'' ident)
            (tret (undefType ACC_READ_WRITE))
          else
            tbind (getSymbol env ident) (\<lambda>(varType, varAccess).
            case varType of
              None \<Rightarrow> tret (undefType varAccess)
            | Some t \<Rightarrow> readTensor env allow (exprType [t] varAccess) indices))
      | None \<Rightarrow>
          tbind (tensor allow) (\<lambda>lhsType.
          if \<not> et_defined lhsType then tret (undefType (et_access lhsType))
          else readTensor env allow lhsType indices))"

fun setReadIndices :: "tc_env \<Rightarrow> expr_type tc list \<Rightarrow> unit tc" where
  "setReadIndices env [] = tret ()"
| "setReadIndices env (index # indices) =
     tbind index (\<lambda>indexType.
     tthen (reportIf (et_defined indexType \<and> \<not> isScalarType SC_INT indexType)
       (''underlying set access expects an integral index but got an index of type '' @ toString_et env indexType))
     (setReadIndices env indices))"

text \<open>The set that is read, once the \<open>n\<close> indices are checked.\<close>

definition setAccess :: "tc_env \<Rightarrow> expr_type \<Rightarrow> nat \<Rightarrow> expr_type tc" where
  "setAccess env lhsType n =
     (let acc = et_access lhsType in
      if \<not> et_defined lhsType then tret (undefType acc)
      else if isVoid lhsType then
        tthen (report ''cannot access elements of a void value'') (tret (undefType acc))
      else if \<not> isSingleValue lhsType then
        tthen (report ''can only access elements of a single set'') (tret (undefType acc))
      else (case single lhsType of
        Some (CSetType a) \<Rightarrow>
          tthen
            (case set_shape (env_sets env a) of
               GridSet _ dims \<Rightarrow>
                 if int n \<noteq> 2 * dims then
                   (if n = 0 then tfail Undefined
                    else report (''grid edge set access expects 2 * dimensions = '' @ int_to_string (2 * dims) @
                      '' indices but got '' @ int_to_string (int n)))
                 else tret ()
             | unstructured \<Rightarrow>
                 reportIf (getArity unstructured \<noteq> 0) ''underlying point set cannot have non-zero cardinality'')
          (tret (exprType [CElement (set_element (env_sets env a))] acc))
      | _ \<Rightarrow>
          tthen (report (''expected left operand of set access to be a set but got a '' @ toString_et env lhsType))
          (tret (undefType ACC_NONE))))"

definition visitSetReadExpr :: "tc_env \<Rightarrow> expr_type tc \<Rightarrow> expr_type tc list \<Rightarrow> expr_type tc" where
  "visitSetReadExpr env theSet indices =
     tbind theSet (\<lambda>lhsType. tthen (setReadIndices env indices) (setAccess env lhsType (length indices)))"

definition visitNamedTupleReadExpr :: "tc_env \<Rightarrow> expr_type tc \<Rightarrow> string \<Rightarrow> expr_type tc" where
  "visitNamedTupleReadExpr env tuple elemName =
     tbind tuple (\<lambda>lhsType.
     let acc = et_access lhsType in
     if \<not> et_defined lhsType then tret (undefType acc)
     else (case single lhsType of
       None \<Rightarrow> tfail (InternalError ''lhsType.isSingleValue()'')
     | Some (CNamedTuple elems) \<Rightarrow>
         (case find (\<lambda>e. fst e = Some elemName) elems of
            Some e \<Rightarrow> tret (exprType [CElement (snd e)] acc)
          | None \<Rightarrow> tthen (report (''undefined tuple element '' @ quote elemName)) (tret (undefType acc)))
     | Some t \<Rightarrow>
         tthen (report (''expected left operand of tuple access to be a named tuple but got a '' @
           toString_type (env_sets env) t True)) (tret (undefType acc))))"

definition visitUnnamedTupleReadExpr :: "tc_env \<Rightarrow> expr_type tc \<Rightarrow> expr_type tc \<Rightarrow> expr_type tc" where
  "visitUnnamedTupleReadExpr env tuple index =
     tbind tuple (\<lambda>lhsType. tbind index (\<lambda>indexType.
     tthen (reportIf (et_defined indexType \<and> \<not> isScalarType SC_INT indexType)
       (''tuple access expects an integral index but got an index of type '' @ toString_et env indexType))
     (let acc = et_access lhsType in
      if \<not> et_defined lhsType then tret (undefType acc)
      else (case single lhsType of
        None \<Rightarrow> tfail (InternalError ''lhsType.isSingleValue()'')
      | Some (CUnnamedTuple elem _) \<Rightarrow> tret (exprType [CElement elem] acc)
      | Some t \<Rightarrow>
          tthen (report (''expected left operand of tuple access to be an unnamed tuple but got a '' @
            toString_type (env_sets env) t True)) (tret (undefType acc))))))"

text \<open>
  A field of an element or of a set; the field of a set is a tensor over the set, which is named by the variable it is
  read from.
\<close>

definition fieldOf :: "tc_env \<Rightarrow> elem_type \<Rightarrow> string \<Rightarrow> c_tensor option option result" where
  "fieldOf env elem fieldName =
     (case env_elements env (elem_ident elem) of
        None \<Rightarrow> Inl (InternalError ''hasElementType(elemName)'')
      | Some fs \<Rightarrow> Inr (fs fieldName))"

definition fieldAccess :: "string option \<Rightarrow> Access \<Rightarrow> c_type \<Rightarrow> c_tensor \<Rightarrow> expr_type tc" where
  "fieldAccess lhsVar acc type retType =
     (case type of
        CSetType a \<Rightarrow>
          tbind (tlift (getDimensions retType)) (\<lambda>dims.
          if length dims > 1 then
            tthen (report ''can only access scalar or vector set fields'') (tret (undefType acc))
          else (case lhsVar of
            None \<Rightarrow> tfail (InternalError ''(bool)ret'')
          | Some ident \<Rightarrow>
              tret (exprType [CTensor (CND [CSet ident (Some a)] retType (getTransposed retType))] acc)))
      | _ \<Rightarrow> tret (exprType [CTensor retType] acc))"

fun elementOf :: "tc_env \<Rightarrow> c_type \<Rightarrow> elem_type option" where
  "elementOf env (CElement e) = Some e"
| "elementOf env (CSetType a) = Some (set_element (env_sets env a))"
| "elementOf env _ = None"

definition visitFieldReadExpr :: "tc_env \<Rightarrow> string option \<Rightarrow> expr_type tc \<Rightarrow> string \<Rightarrow> expr_type tc" where
  "visitFieldReadExpr env lhsVar setOrElem fieldName =
     tbind setOrElem (\<lambda>lhsType.
     let acc = et_access lhsType in
     if \<not> et_defined lhsType then tret (undefType acc)
     else if isVoid lhsType then tthen (report ''cannot access fields of a void value'') (tret (undefType acc))
     else if \<not> isSingleValue lhsType then
       tthen (report ''cannot access fields of multiple values'') (tret (undefType acc))
     else
       tbind (tlift (nth_result (et_types lhsType) 0)) (\<lambda>type.
       case elementOf env type of
         None \<Rightarrow>
           tthen (report (''expected left operand of field access to be a set or an element but got a '' @
             toString_type (env_sets env) type True)) (tret (undefType acc))
       | Some elem \<Rightarrow>
           tbind (tlift (fieldOf env elem fieldName)) (\<lambda>field.
           case field of
             None \<Rightarrow> tthen (report (''undefined field '' @ quote fieldName)) (tret (undefType acc))
           | Some None \<Rightarrow> tfail (InternalError ''(bool)ret'')
           | Some (Some retType) \<Rightarrow> fieldAccess lhsVar acc type retType)))"

section \<open>Literals\<close>

datatype dense_kind = DK_UNKNOWN | DK_INT | DK_FLOAT | DK_COMPLEX

record dense_type =
  dimSizes :: "int list"
  dense_kind :: dense_kind

text \<open>The exceptions of the class are the messages they carry.\<close>

datatype dense_result = DenseOk dense_type | DimError | TypeError | DenseFault error

definition addValues :: "dense_kind \<Rightarrow> nat \<Rightarrow> dense_type \<Rightarrow> dense_result" where
  "addValues k len t =
     (if dense_kind t \<noteq> k \<and> dense_kind t \<noteq> DK_UNKNOWN then TypeError
      else DenseOk \<lparr>dimSizes = butlast (dimSizes t) @ [last (dimSizes t) + int len], dense_kind = k\<rparr>)"

definition dense_merge :: "dense_type \<Rightarrow> dense_type \<Rightarrow> dense_result" where
  "dense_merge t other =
     (if dense_kind t \<noteq> dense_kind other then TypeError
      else if length (dimSizes t) - 1 \<noteq> length (dimSizes other) then DimError
      else if butlast (dimSizes t) \<noteq> dimSizes other then DimError
      else DenseOk (t\<lparr>dimSizes := butlast (dimSizes t) @ [last (dimSizes t) + 1]\<rparr>))"

fun mergeAll :: "dense_type \<Rightarrow> dense_result list \<Rightarrow> dense_result" where
  "mergeAll t [] = DenseOk t"
| "mergeAll t (DenseOk right # rest) =
     (case dense_merge t right of DenseOk t' \<Rightarrow> mergeAll t' rest | err \<Rightarrow> err)"
| "mergeAll t (err # rest) = err"

fun getDenseTensorType :: "'d dense_literal \<Rightarrow> dense_result" where
  "getDenseTensorType (IntVectorLiteral vals _) = addValues DK_INT (length vals) \<lparr>dimSizes = [0], dense_kind = DK_UNKNOWN\<rparr>"
| "getDenseTensorType (FloatVectorLiteral vals _) =
     addValues DK_FLOAT (length vals) \<lparr>dimSizes = [0], dense_kind = DK_UNKNOWN\<rparr>"
| "getDenseTensorType (ComplexVectorLiteral vals _) =
     addValues DK_COMPLEX (length vals) \<lparr>dimSizes = [0], dense_kind = DK_UNKNOWN\<rparr>"
| "getDenseTensorType (NDTensorLiteral elems transposed) =
     (if transposed then DenseFault (InternalError ''!ndTensorLit->transposed'')
      else case map getDenseTensorType elems of
        [] \<Rightarrow> DenseFault Undefined
      | DenseOk t # rest \<Rightarrow> mergeAll (t\<lparr>dimSizes := dimSizes t @ [1]\<rparr>) rest
      | err # rest \<Rightarrow> err)"

fun denseComponent :: "dense_kind \<Rightarrow> fir_scalar result" where
  "denseComponent DK_INT = Inr SC_INT"
| "denseComponent DK_FLOAT = Inr SC_FLOAT"
| "denseComponent DK_COMPLEX = Inr SC_COMPLEX"
| "denseComponent DK_UNKNOWN = Inl (InternalError ''reached simit_unreachable location'')"

fun dense_transposed :: "'d dense_literal \<Rightarrow> bool" where
  "dense_transposed (IntVectorLiteral _ t) = t"
| "dense_transposed (FloatVectorLiteral _ t) = t"
| "dense_transposed (ComplexVectorLiteral _ t) = t"
| "dense_transposed (NDTensorLiteral _ t) = t"

text \<open>
  The handler catches every \<^verbatim>\<open>std::exception\<close>, also that of a failed assertion, whose text is empty; reading past the end
  of a vector is not an exception.
\<close>

definition typeCheckDenseTensorLiteral :: "'d dense_literal \<Rightarrow> expr_type tc" where
  "typeCheckDenseTensorLiteral lit =
     (let caught = (\<lambda>what. tthen (report what) (tret (undefType ACC_NONE))) in
      case getDenseTensorType lit of
        DenseOk tensor \<Rightarrow>
          (case denseComponent (dense_kind tensor) of
             Inr componentType \<Rightarrow>
               tret (tensorType (CND (map CRange (rev (dimSizes tensor))) (CScalar componentType)
                 (length (dimSizes tensor) = 1 \<and> \<not> dense_transposed lit)))
           | Inl _ \<Rightarrow> caught [])
      | DimError \<Rightarrow> caught ''mismatched dimension sizes''
      | TypeError \<Rightarrow> caught ''mismatched element types''
      | DenseFault (InternalError _) \<Rightarrow> caught []
      | DenseFault e \<Rightarrow> tfail e)"

section \<open>Calls and maps\<close>

fun checkGenericArgs :: "tc_env \<Rightarrow> fir_index_set list \<Rightarrow> unit tc" where
  "checkGenericArgs env [] = tret ()"
| "checkGenericArgs env (g # gs) =
     tbind (typeCheck (visitIndexSet env (resolveIndexSet env g))) (\<lambda>_. checkGenericArgs env gs)"

definition checkSingle :: "expr_type \<Rightarrow> unit tc \<Rightarrow> unit tc" where
  "checkSingle t k =
     (if \<not> et_defined t then tret ()
      else if isVoid t then report ''must pass a non-void value as argument''
      else if \<not> isSingleValue t then report ''cannot pass multiple values as a single argument''
      else k)"

fun callArgs :: "expr_type tc list \<Rightarrow> expr_type list tc" where
  "callArgs [] = tret []"
| "callArgs (arg # args) =
     tbind arg (\<lambda>t. tthen (checkSingle t (tret ())) (tbind (callArgs args) (\<lambda>ts. tret (t # ts))))"

definition typeCheckOrder :: "tc_env \<Rightarrow> expr_type \<Rightarrow> nat \<Rightarrow> unit tc" where
  "typeCheckOrder env argType order =
     tbind (tlift (toTensor argType)) (\<lambda>t.
     reportIf (\<not> isNumericTensor argType \<or> tensor_getOrder t \<noteq> order)
       (''expected a numeric '' @
        (if order = 0 then ''scalar'' else if order = 1 then ''vector'' else if order = 2 then ''matrix''
         else int_to_string (int order) @ ''-tensor'') @
        '' as argument but got an argument of type '' @ toString_et env argType))"

definition typeCheckIsOpaque :: "tc_env \<Rightarrow> expr_type \<Rightarrow> unit tc" where
  "typeCheckIsOpaque env argType =
     tbind (tlift (isOpaque argType)) (\<lambda>opaque.
     reportIf (\<not> opaque) (''expected an opaque type as argument but got an argument of type '' @ toString_et env argType))"

definition argCount :: "nat \<Rightarrow> expr_type list \<Rightarrow> string \<Rightarrow> unit tc \<Rightarrow> unit tc" where
  "argCount n args cond k = (if length args = n then k else tfail (InternalError cond))"

fun callArgTypes :: "tc_env \<Rightarrow> expr_type list \<Rightarrow> (bool \<times> c_type option) list \<Rightarrow> unit tc" where
  "callArgTypes env (argType # argTypes) (funcArg # funcArgs) =
     tthen
       (if \<not> et_defined argType then tret ()
        else (case single argType of
          None \<Rightarrow> tret ()
        | Some t \<Rightarrow>
            tbind (tlift (compareTypes (env_sets env) t (snd funcArg) False)) (\<lambda>same.
            tthen (if same then tret ()
              else (case snd funcArg of
                None \<Rightarrow> tfail (InternalError ''funcArg->type != nullptr'')
              | Some expected \<Rightarrow>
                  report (''expected argument of type '' @ toString_type (env_sets env) expected True @
                    '' but got an argument of type '' @ toString_et env argType)))
            (reportIf (fst funcArg \<and> \<not> isWritable argType) ''inout argument must be writable''))))
       (callArgTypes env argTypes funcArgs)"
| "callArgTypes env _ _ = tret ()"

definition typeCheckArguments :: "tc_env \<Rightarrow> string \<Rightarrow> expr_type list \<Rightarrow> func_sig \<Rightarrow> unit tc" where
  "typeCheckArguments env funcName argTypes func =
     (if funcName = ''norm'' then
        argCount 1 argTypes ''expr->args.size() == 1'' (typeCheckOrder env (argTypes ! 0) 1)
      else if funcName = ''dot'' then
        argCount 2 argTypes ''expr->args.size() == 2''
          (tthen (typeCheckOrder env (argTypes ! 0) 1)
          (tthen (typeCheckOrder env (argTypes ! 1) 1)
          (tbind (tlift (nth_result (et_types (argTypes ! 0)) 0)) (\<lambda>l. tbind (tlift (nth_result (et_types (argTypes ! 1)) 0)) (\<lambda>r.
           tbind (tlift (compareTypes (env_sets env) l (Some r) True)) (\<lambda>same.
           reportIf (\<not> same) (''cannot call function '' @ quote ''dot'' @ '' on arguments of type '' @
             toString_et env (argTypes ! 0) @ '' and type '' @ toString_et env (argTypes ! 1))))))))
      else if funcName = ''lu'' \<or> funcName = ''chol'' then
        argCount 1 argTypes ''expr->args.size() == 1'' (typeCheckOrder env (argTypes ! 0) 2)
      else if funcName = ''lusolve'' \<or> funcName = ''lltsolve'' then
        argCount 2 argTypes ''expr->args.size() == 2''
          (tthen (typeCheckIsOpaque env (argTypes ! 0)) (typeCheckOrder env (argTypes ! 1) 1))
      else if funcName = ''lumatsolve'' \<or> funcName = ''lltmatsolve'' then
        argCount 2 argTypes ''expr->args.size() == 2''
          (tthen (typeCheckIsOpaque env (argTypes ! 0)) (typeCheckOrder env (argTypes ! 1) 2))
      else callArgTypes env argTypes (sig_args func))"

definition genericCall :: error where
  "genericCall = TemporaryError ''the specialisation of generic functions is not modelled''"

definition visitCallExpr :: "tc_env \<Rightarrow> string \<Rightarrow> fir_index_set list \<Rightarrow> expr_type tc list \<Rightarrow> expr_type tc" where
  "visitCallExpr env funcIdent genericArgs args =
     tthen (checkGenericArgs env genericArgs)
     (tbind (callArgs args) (\<lambda>argTypes.
      case env_funcs env funcIdent of
        None \<Rightarrow> tthen (reportUndeclared ''function'' funcIdent) (tret (undefType ACC_NONE))
      | Some None \<Rightarrow> tret (undefType ACC_NONE)
      | Some (Some func) \<Rightarrow>
          let funcName = if originalName func \<noteq> [] then originalName func else funcIdent in
          tthen (reportIf (length genericArgs > sig_generics func)
            (''passed in '' @ int_to_string (int (length genericArgs)) @ '' generic arguments but function '' @
             quote funcName @ '' expects at most '' @ int_to_string (int (sig_generics func))))
          (tthen (reportIf (length args \<noteq> length (sig_args func))
            (''passed in '' @ int_to_string (int (length args)) @ '' arguments but function '' @ quote funcName @
             '' expects '' @ int_to_string (int (length (sig_args func)))))
          (if sig_generics func \<noteq> 0 then tfail genericCall
           else
             tbind getChecked (\<lambda>checked.
             tthen (if \<not> checked then tret () else typeCheckArguments env funcName argTypes func)
             (tret (exprType (sig_results func) ACC_READ)))))))"

fun mapArgs :: "tc_env \<Rightarrow> expr_type tc list \<Rightarrow> expr_type list tc" where
  "mapArgs env [] = tret []"
| "mapArgs env (arg # args) =
     tbind arg (\<lambda>t.
     tthen (checkSingle t
       (tbind (tlift (isOpaque t)) (\<lambda>opaque.
        reportIf (\<not> (et_isTensor t \<or> opaque))
          (''expected argument to be a tensor or opaque but got an argument of type '' @ toString_et env t))))
     (tbind (mapArgs env args) (\<lambda>ts. tret (t # ts))))"

text \<open>The target of a map: its set, unless it is undeclared, not a set, of unknown type, or generic.\<close>

definition mapTarget :: "tc_env \<Rightarrow> string \<Rightarrow> c_index_set \<Rightarrow> nat option tc" where
  "mapTarget env opString target =
     tbind (typeCheck (visitIndexSet env target)) (\<lambda>ok.
     tbind (if ok then tbind (getSymbol env (setName target)) (\<lambda>(type, _). tret (type \<noteq> None)) else tret False) (\<lambda>known.
     if \<not> known then tthen (setChecked False) (tret None)
     else (case target of
       CSet _ _ \<Rightarrow> tbind (tlift (getSetDefinition target)) (\<lambda>a. tret (Some a))
     | _ \<Rightarrow> tthen (report (opString @ '' operation cannot be applied to a generic set'')) (tret None))))"

definition mapThrough :: "tc_env \<Rightarrow> string \<Rightarrow> c_index_set \<Rightarrow> c_index_set option \<Rightarrow> nat option tc" where
  "mapThrough env opString target through =
     (case through of
        None \<Rightarrow> tret None
      | Some thr \<Rightarrow>
          tbind (typeCheck (visitIndexSet env thr)) (\<lambda>ok.
          tbind (if ok then tbind (getSymbol env (setName thr)) (\<lambda>(type, _). tret (type \<noteq> None)) else tret False) (\<lambda>known.
          if \<not> known then tthen (setChecked False) (tret None)
          else (case thr of
            CSet _ _ \<Rightarrow>
              tbind (tlift (getSetDefinition thr)) (\<lambda>a.
              tthen
                (case set_shape (env_sets env a) of
                   GridSet point _ \<Rightarrow>
                     reportIf (setName (ep_set point) \<noteq> setName target)
                       (opString @ '' operation can only be mapped through grid edge set with target '' @
                        setName target @ '' as an endpoint'')
                 | _ \<Rightarrow> report (opString @ '' operation can only be applied through grid edge sets''))
              (tret (Some a)))
          | _ \<Rightarrow>
              tthen (report (opString @ '' operation cannot be applied through generic sets'')) (tret None)))))"

text \<open>
  The types of the arguments a map passes: the partial actuals, the element of the target, its neighbors if the target
  is an edge set and the function has an argument for them, and the set it goes through. A null element of an endpoint
  would be dereferenced when the tuple is compared or printed.
\<close>

definition endpointElement :: "set_shape \<Rightarrow> nat \<Rightarrow> elem_type result" where
  "endpointElement shape i =
     rbind (set_getEndpoint shape i) (\<lambda>e. case ep_element e of None \<Rightarrow> Inl Undefined | Some elem \<Rightarrow> Inr elem)"

definition neighborsType :: "set_shape \<Rightarrow> c_type option \<Rightarrow> c_type result" where
  "neighborsType shape argType =
     rbind (set_isHomogeneous shape) (\<lambda>homogeneous.
     if \<not> homogeneous \<or> (case argType of Some (CNamedTuple _) \<Rightarrow> True | _ \<Rightarrow> False) then
       rbind (rmap (\<lambda>i. rbind (endpointElement shape i) (\<lambda>e. Inr (None, e))) [0..<getArity shape]) (\<lambda>elems.
       Inr (CNamedTuple elems))
     else rbind (endpointElement shape 0) (\<lambda>e. Inr (CUnnamedTuple e (int (getArity shape)))))"

definition mapActuals :: "tc_env \<Rightarrow> nat \<Rightarrow> nat option \<Rightarrow> func_sig \<Rightarrow> expr_type list \<Rightarrow> expr_type list result" where
  "mapActuals env target through func actuals =
     (let shape = set_shape (env_sets env target);
          actuals' = actuals @ [exprType [CElement (set_element (env_sets env target))] ACC_READ_WRITE] in
      rbind
        (if length actuals' < length (sig_args func) \<and> isa_Unstructured shape \<and> getArity shape > 0 then
           rbind (neighborsType shape (snd (sig_args func ! length actuals'))) (\<lambda>t.
           Inr (actuals' @ [exprType [t] ACC_READ_WRITE]))
         else Inr actuals') (\<lambda>actuals''.
      Inr (actuals'' @ (case through of None \<Rightarrow> [] | Some a \<Rightarrow> [exprType [CSetType a] ACC_READ]))))"

fun mapArgTypes ::
  "tc_env \<Rightarrow> string \<Rightarrow> string \<Rightarrow> expr_type list \<Rightarrow> (bool \<times> c_type option) list \<Rightarrow> unit tc" where
  "mapArgTypes env opString funcName (paramType # paramTypes) (funcArg # funcArgs) =
     tthen
       (if \<not> et_defined paramType then tret ()
        else (case single paramType of
          None \<Rightarrow> tret ()
        | Some t \<Rightarrow>
            tbind (tlift (compareTypes (env_sets env) t (snd funcArg) False)) (\<lambda>same.
            tthen (if same then tret ()
              else tbind (tlift (toString_null (env_sets env) (snd funcArg))) (\<lambda>expected.
                report (opString @ '' operation passes argument of type '' @ toString_type (env_sets env) t True @
                  '' to assembly function '' @ quote funcName @ '' but function expects argument of type '' @ expected)))
            (reportIf (fst funcArg \<and> \<not> isWritable paramType) ''inout argument must be writable''))))
       (mapArgTypes env opString funcName paramTypes funcArgs)"
| "mapArgTypes env opString funcName _ _ = tret ()"

definition typeCheckMapOrApply ::
  "tc_env \<Rightarrow> bool \<Rightarrow> string \<Rightarrow> fir_index_set list \<Rightarrow> expr_type tc list \<Rightarrow> fir_index_set \<Rightarrow> fir_index_set option \<Rightarrow> expr_type tc" where
  "typeCheckMapOrApply env isApply funcIdent genericArgs partialActuals target through =
     (let opString = if isApply then ''apply'' else ''map'';
          ctarget = resolveIndexSet env target in
      tthen (checkGenericArgs env genericArgs)
      (tbind (mapArgs env partialActuals) (\<lambda>actuals.
       tthen (if env_funcs env funcIdent = None then reportUndeclared ''function'' funcIdent else tret ())
       (tbind (mapTarget env opString ctarget) (\<lambda>targetSet.
        tbind (mapThrough env opString ctarget (map_option (resolveIndexSet env) through)) (\<lambda>throughSet.
        case env_funcs env funcIdent of
          None \<Rightarrow> tret (undefType ACC_NONE)
        | Some None \<Rightarrow> tret (undefType ACC_NONE)
        | Some (Some func) \<Rightarrow>
            let funcName = if originalName func \<noteq> [] then originalName func else funcIdent in
            tthen (reportIf (isApply \<and> sig_results func \<noteq> []) ''cannot apply a non-void function'')
            (tthen (reportIf (length genericArgs > sig_generics func)
              (opString @ '' operation passes '' @ int_to_string (int (length genericArgs)) @
               '' generic arguments to assembly function but function '' @ quote funcName @ '' expects at most '' @
               int_to_string (int (sig_generics func))))
            (if sig_generics func \<noteq> 0 then tfail genericCall
             else
               tbind getChecked (\<lambda>checked.
               tthen
                 (if \<not> checked then tret ()
                  else (case targetSet of
                    None \<Rightarrow> tfail Undefined
                  | Some a \<Rightarrow>
                      tbind (tlift (mapActuals env a throughSet func actuals)) (\<lambda>actuals'.
                      if length actuals' \<noteq> length (sig_args func) then
                        report (opString @ '' operation passes '' @ int_to_string (int (length actuals')) @
                          '' arguments to assembly function but function '' @ quote funcName @ '' expects '' @
                          int_to_string (int (length (sig_args func))))
                      else mapArgTypes env opString funcName actuals' (sig_args func))))
               (tret (exprType (sig_results func) ACC_READ)))))))))))"

section \<open>Expressions\<close>

fun inferType :: "tc_env \<Rightarrow> 'd fir_expr \<Rightarrow> bool \<Rightarrow> expr_type tc" where
  "inferType env (MapExpr func genericArgs partialActuals target through _) allow =
     typeCheckMapOrApply env False func genericArgs (map (\<lambda>e. inferType env e allow) partialActuals) target through"
| "inferType env (OrExpr a b) allow = typeCheckBinaryBoolean env (inferType env a allow) (inferType env b allow)"
| "inferType env (AndExpr a b) allow = typeCheckBinaryBoolean env (inferType env a allow) (inferType env b allow)"
| "inferType env (XorExpr a b) allow = typeCheckBinaryBoolean env (inferType env a allow) (inferType env b allow)"
| "inferType env (EqExpr operands _) allow = visitEqExpr env (map (\<lambda>e. inferType env e allow) operands)"
| "inferType env (NotExpr a) allow = visitNotExpr env (inferType env a allow)"
| "inferType env (AddExpr a b) allow = typeCheckBinaryElwise env True (inferType env a allow) (inferType env b allow)"
| "inferType env (SubExpr a b) allow = typeCheckBinaryElwise env False (inferType env a allow) (inferType env b allow)"
| "inferType env (MulExpr a b) allow = visitMulExpr env (inferType env a allow) (inferType env b allow)"
| "inferType env (DivExpr a b) allow = visitDivExpr env (inferType env a allow) (inferType env b allow)"
| "inferType env (ElwiseMulExpr a b) allow = typeCheckBinaryElwise env False (inferType env a allow) (inferType env b allow)"
| "inferType env (ElwiseDivExpr a b) allow = typeCheckBinaryElwise env False (inferType env a allow) (inferType env b allow)"
| "inferType env (LeftDivExpr a b) allow = visitLeftDivExpr env (inferType env a allow) (inferType env b allow)"
| "inferType env (NegExpr _ a) allow = visitNegExpr env (inferType env a allow)"
| "inferType env (ExpExpr a b) allow = tfail (TemporaryError ''not_supported_yet'')"
| "inferType env (TransposeExpr a) allow = visitTransposeExpr env (inferType env a allow)"
| "inferType env (CallExpr func genericArgs args) allow =
     visitCallExpr env func genericArgs (map (\<lambda>e. inferType env e allow) args)"
| "inferType env (TensorReadExpr tensor indices) allow =
     visitTensorReadExpr env allow (to_VarExpr tensor) (inferType env tensor) (map (map_option (inferType env)) indices)"
| "inferType env (SetReadExpr s indices) allow =
     visitSetReadExpr env (inferType env s allow) (map (\<lambda>e. inferType env e allow) indices)"
| "inferType env (NamedTupleReadExpr tuple elem) allow = visitNamedTupleReadExpr env (inferType env tuple allow) elem"
| "inferType env (UnnamedTupleReadExpr tuple index) allow =
     visitUnnamedTupleReadExpr env (inferType env tuple allow) (inferType env index allow)"
| "inferType env (FieldReadExpr setOrElem fieldName) allow =
     visitFieldReadExpr env (to_VarExpr setOrElem) (inferType env setOrElem allow) fieldName"
| "inferType env (ParenExpr e) allow = inferType env e allow"
| "inferType env (VarExpr ident) allow = visitVarExpr env ident"
| "inferType env (RangeConst ident) allow = visitVarExpr env ident"
| "inferType env (IntLiteral _) allow = tret (scalarType SC_INT)"
| "inferType env (FloatLiteral _) allow = tret (scalarType SC_FLOAT)"
| "inferType env (BoolLiteral _) allow = tret (scalarType SC_BOOL)"
| "inferType env (ComplexLiteral _ _) allow = tret (scalarType SC_COMPLEX)"
| "inferType env (StringLiteral _) allow = tret (scalarType SC_STRING)"
| "inferType env (DenseTensorLiteral l) allow = typeCheckDenseTensorLiteral l"

end
