(* ===== verification/Typing.thy ===== *)
theory Typing
  imports Type_Inference
begin

text \<open>
  A reference for the typing of expressions: which expressions have a type, and which, as a function without state,
  messages, flags or repeated visits. Tensor types are seen through their dimensions, one list of index sets per
  dimension with the outermost level first. \<open>Type_Check_Correct\<close> shows that the checker accepts exactly the expressions
  that have a type here.
\<close>

section \<open>Tensor types by their dimensions\<close>

fun tlevels :: "c_tensor \<Rightarrow> c_index_set list list" where
  "tlevels (CScalar _) = []"
| "tlevels (CND indexSets blockType _) = indexSets # tlevels blockType"

definition dims :: "c_tensor \<Rightarrow> c_index_set list list" where
  "dims t = map (\<lambda>j. map (\<lambda>level. level ! j) (tlevels t)) [0..<tensor_getOrder t]"

definition of_levels :: "fir_scalar \<Rightarrow> c_index_set list list \<Rightarrow> c_tensor" where
  "of_levels c ls = foldr (\<lambda>level block. CND level block False) ls (CScalar c)"

fun with_transposed :: "bool \<Rightarrow> c_tensor \<Rightarrow> c_tensor" where
  "with_transposed tr (CND indexSets blockType _) = CND indexSets blockType tr"
| "with_transposed tr t = t"

definition of_dims :: "fir_scalar \<Rightarrow> c_index_set list list \<Rightarrow> bool \<Rightarrow> c_tensor" where
  "of_dims c ds tr =
     with_transposed tr
       (of_levels c (if ds = [] then [] else map (\<lambda>i. map (\<lambda>d. d ! i) ds) [0..<length (hd ds)]))"

text \<open>Well-formed tensor types: every level has the same number of index sets, and only vectors are transposed.\<close>

fun wf_block :: "nat \<Rightarrow> c_tensor \<Rightarrow> bool" where
  "wf_block n (CScalar _) = True"
| "wf_block n (CND indexSets blockType transposed) =
     (length indexSets = n \<and> (transposed \<longrightarrow> n = 1) \<and> wf_block n blockType)"

fun wf_tensor :: "c_tensor \<Rightarrow> bool" where
  "wf_tensor (CScalar _) = True"
| "wf_tensor (CND indexSets blockType transposed) =
     (indexSets \<noteq> [] \<and> wf_block (length indexSets) (CND indexSets blockType transposed))"

fun wf_type :: "c_type \<Rightarrow> bool" where
  "wf_type (CTensor t) = wf_tensor t"
| "wf_type CIVar = False"
| "wf_type _ = True"

section \<open>Operators\<close>

definition numeric :: "expr_type \<Rightarrow> c_tensor option" where
  "numeric t = (case single t of Some (CTensor x) \<Rightarrow> if isNumericType (tensor_getComponentType x) then Some x else None
                               | _ \<Rightarrow> None)"

definition summand :: "bool \<Rightarrow> expr_type \<Rightarrow> c_tensor option" where
  "summand strings t = (if strings \<and> isScalarType SC_STRING t then Some (CScalar SC_STRING) else numeric t)"

definition elwiseType :: "(nat \<Rightarrow> set_type) \<Rightarrow> c_tensor \<Rightarrow> c_tensor \<Rightarrow> c_tensor option" where
  "elwiseType sets l r =
     (if dims l = [] \<or> dims r = [] then
        (if tensor_getComponentType l = tensor_getComponentType r then Some (if dims l = [] then r else l) else None)
      else if compareTensors sets l r False then Some l else None)"

definition mulType :: "(nat \<Rightarrow> set_type) \<Rightarrow> c_tensor \<Rightarrow> c_tensor \<Rightarrow> c_tensor option" where
  "mulType sets l r =
     (let c = tensor_getComponentType l; dl = dims l; dr = dims r; same = compareDomains sets in
      if c \<noteq> tensor_getComponentType r then None
      else if dl = [] then Some r
      else if dr = [] then Some l
      else if length dl = 1 \<and> length dr = 1 then
        (if getTransposed l = getTransposed r \<or> \<not> same (dl ! 0) (dr ! 0) then None
         else Some (if getTransposed l then CScalar c else of_dims c [dl ! 0, dr ! 0] False))
      else if length dl = 2 \<and> length dr = 1 then
        (if same (dl ! 1) (dr ! 0) \<and> \<not> getTransposed r then Some (of_dims c [dl ! 0] False) else None)
      else if length dl = 1 \<and> length dr = 2 then
        (if same (dl ! 0) (dr ! 0) \<and> getTransposed l then Some (of_dims c [dr ! 1] True) else None)
      else if length dl = 2 \<and> length dr = 2 then
        (if same (dl ! 1) (dr ! 0) then Some (of_dims c [dl ! 0, dr ! 1] False) else None)
      else None)"

definition divType :: "c_tensor \<Rightarrow> c_tensor \<Rightarrow> c_tensor option" where
  "divType l r =
     (if tensor_getComponentType l = tensor_getComponentType r \<and> (dims l = [] \<or> dims r = [])
      then Some (if dims l = [] then r else l) else None)"

definition solveType :: "(nat \<Rightarrow> set_type) \<Rightarrow> c_tensor \<Rightarrow> c_tensor \<Rightarrow> c_tensor option" where
  "solveType sets l r =
     (if tensor_getComponentType l = tensor_getComponentType r \<and> length (dims l) = 2 \<and> length (dims r) = 1 \<and>
         \<not> getTransposed r \<and> compareDomains sets (dims l ! 0) (dims r ! 0)
      then Some (of_dims (tensor_getComponentType l) [dims l ! 1] False) else None)"

definition transposeType :: "c_tensor \<Rightarrow> c_tensor option" where
  "transposeType t =
     (let c = tensor_getComponentType t; d = dims t in
      if d = [] then Some t
      else if length d = 1 then Some (of_dims c d (\<not> getTransposed t))
      else if length d = 2 then Some (of_dims c [d ! 1, d ! 0] False)
      else None)"

definition tensorOf :: "expr_type \<Rightarrow> c_tensor option" where
  "tensorOf t = (case single t of Some (CTensor x) \<Rightarrow> Some x | _ \<Rightarrow> None)"

definition binaryType ::
  "(expr_type \<Rightarrow> c_tensor option) \<Rightarrow> (c_tensor \<Rightarrow> c_tensor \<Rightarrow> c_tensor option) \<Rightarrow>
   expr_type option \<Rightarrow> expr_type option \<Rightarrow> expr_type option" where
  "binaryType operand type l r =
     Option.bind l (\<lambda>lt. Option.bind r (\<lambda>rt.
     Option.bind (operand lt) (\<lambda>x. Option.bind (operand rt) (\<lambda>y. map_option tensorType (type x y)))))"

definition boolType :: "expr_type option \<Rightarrow> expr_type option \<Rightarrow> expr_type option" where
  "boolType l r =
     Option.bind l (\<lambda>lt. Option.bind r (\<lambda>rt.
     if isScalarType SC_BOOL lt \<and> isScalarType SC_BOOL rt then Some (scalarType SC_BOOL) else None))"

definition eqType :: "expr_type list \<Rightarrow> bool" where
  "eqType ts = (list_all et_isScalar ts \<and> (\<forall>t \<in> set ts. et_types t = et_types (hd ts)))"

section \<open>Variables, reads and literals\<close>

definition lookup :: "tc_env \<Rightarrow> string \<Rightarrow> (c_type option \<times> Access) option" where
  "lookup env x = (case get_symbol (env_symbols env) x AllScopes of Inl _ \<Rightarrow> None | Inr v \<Rightarrow> Some v)"

definition varType :: "tc_env \<Rightarrow> string \<Rightarrow> expr_type option" where
  "varType env x = (case lookup env x of Some (Some t, acc) \<Rightarrow> Some (exprType [t] acc) | _ \<Rightarrow> None)"

definition elementIndexOk :: "tc_env \<Rightarrow> c_index_set \<Rightarrow> elem_type \<Rightarrow> bool" where
  "elementIndexOk env s e =
     (case setDef s of
        None \<Rightarrow> False
      | Some a \<Rightarrow>
          elem_ident (set_element (env_sets env a)) \<in> {[], elem_ident e} \<and>
          (case elem_source e of None \<Rightarrow> True | Some source \<Rightarrow> compareIndexSets (env_sets env) s source))"

definition indexOk :: "tc_env \<Rightarrow> c_index_set \<Rightarrow> expr_type \<Rightarrow> bool" where
  "indexOk env s t =
     (case s of
        CRange _ \<Rightarrow> isScalarType SC_INT t
      | CGeneric GT_RANGE _ _ \<Rightarrow> isScalarType SC_INT t
      | CDynamic \<Rightarrow> False
      | _ \<Rightarrow> (case single t of Some (CElement e) \<Rightarrow> elementIndexOk env s e | _ \<Rightarrow> False))"

text \<open>The index expressions fit their dimensions; the dimensions of the slices are left.\<close>

definition indicesOk :: "tc_env \<Rightarrow> c_index_set list list \<Rightarrow> expr_type option list \<Rightarrow> bool" where
  "indicesOk env ds is = list_all2 (\<lambda>d i. case i of None \<Rightarrow> True | Some t \<Rightarrow> indexOk env (hd d) t) ds is"

definition sliced :: "c_index_set list list \<Rightarrow> expr_type option list \<Rightarrow> c_index_set list list" where
  "sliced ds is = map fst (filter (\<lambda>(d, i). isSlice i) (zip ds is))"

text \<open>
  The type of a read. With one dimension left it is a row if the tensor is a row of blocks that are vectors, or if the
  index before the last one is an expression; the slice of a tensor with one index has no type.
\<close>

fun readShape :: "c_tensor \<Rightarrow> expr_type option list \<Rightarrow> c_tensor option" where
  "readShape (CScalar _) is = None"
| "readShape (CND ss block tr) is =
     (let t = CND ss block tr; left = sliced (dims t) is in
      if left = [] then Some block
      else if length left = 1 then
        (if length (dims block) = 1 then Some (of_dims (tensor_getComponentType t) left tr)
         else if length is < 2 then None
         else Some (of_dims (tensor_getComponentType t) left (\<not> isSlice (is ! (length is - 2)))))
      else Some (of_dims (tensor_getComponentType t) left False))"

definition tensorRead :: "tc_env \<Rightarrow> expr_type \<Rightarrow> expr_type option list \<Rightarrow> expr_type option" where
  "tensorRead env lt is =
     Option.bind (tensorOf lt) (\<lambda>t.
     if indicesOk env (dims t) is then map_option (\<lambda>x. exprType [CTensor x] (et_access lt)) (readShape t is) else None)"

definition setElement :: "tc_env \<Rightarrow> expr_type \<Rightarrow> nat \<Rightarrow> expr_type option" where
  "setElement env lt n =
     (case single lt of
        Some (CSetType a) \<Rightarrow>
          if (case set_shape (env_sets env a) of
                GridSet _ k \<Rightarrow> int n = 2 * k
              | shape \<Rightarrow> getArity shape = 0)
          then Some (exprType [CElement (set_element (env_sets env a))] (et_access lt)) else None
      | _ \<Rightarrow> None)"

definition setRead :: "tc_env \<Rightarrow> expr_type \<Rightarrow> expr_type list \<Rightarrow> expr_type option" where
  "setRead env lt is = (if list_all (isScalarType SC_INT) is then setElement env lt (length is) else None)"

definition namedRead :: "expr_type \<Rightarrow> string \<Rightarrow> expr_type option" where
  "namedRead lt name =
     (case single lt of
        Some (CNamedTuple es) \<Rightarrow>
          map_option (\<lambda>e. exprType [CElement (snd e)] (et_access lt)) (find (\<lambda>e. fst e = Some name) es)
      | _ \<Rightarrow> None)"

definition unnamedRead :: "expr_type \<Rightarrow> expr_type \<Rightarrow> expr_type option" where
  "unnamedRead lt it =
     (case single lt of
        Some (CUnnamedTuple e _) \<Rightarrow>
          if isScalarType SC_INT it then Some (exprType [CElement e] (et_access lt)) else None
      | _ \<Rightarrow> None)"

definition field_type :: "tc_env \<Rightarrow> elem_type \<Rightarrow> string \<Rightarrow> c_tensor option" where
  "field_type env e f = Option.bind (env_elements env (elem_ident e)) (\<lambda>fs. Option.bind (fs f) id)"

definition fieldRead :: "tc_env \<Rightarrow> string option \<Rightarrow> expr_type \<Rightarrow> string \<Rightarrow> expr_type option" where
  "fieldRead env var lt f =
     (case single lt of
        Some (CElement e) \<Rightarrow> map_option (\<lambda>t. exprType [CTensor t] (et_access lt)) (field_type env e f)
      | Some (CSetType a) \<Rightarrow>
          Option.bind (field_type env (set_element (env_sets env a)) f) (\<lambda>t.
          Option.bind var (\<lambda>x.
          if length (dims t) \<le> 1
          then Some (exprType [CTensor (CND [CSet x (Some a)] t (getTransposed t))] (et_access lt)) else None))
      | _ \<Rightarrow> None)"

definition literalType :: "'d dense_literal \<Rightarrow> expr_type option" where
  "literalType l =
     (case getDenseTensorType l of
        DenseOk t \<Rightarrow>
          (case denseComponent (dense_kind t) of
             Inr c \<Rightarrow> Some (tensorType (CND (map CRange (rev (dimSizes t))) (CScalar c)
                        (length (dimSizes t) = 1 \<and> \<not> dense_transposed l)))
           | Inl _ \<Rightarrow> None)
      | _ \<Rightarrow> None)"

section \<open>Calls and maps\<close>

text \<open>An index set is usable if it is a declared set.\<close>

fun setOk :: "tc_env \<Rightarrow> c_index_set \<Rightarrow> bool" where
  "setOk env (CSet n d) =
     (case lookup env n of None \<Rightarrow> False | Some (t, _) \<Rightarrow> d \<noteq> None \<or> (case t of Some (CSetType _) \<Rightarrow> True | _ \<Rightarrow> False))"
| "setOk env _ = True"

definition orderOk :: "nat \<Rightarrow> expr_type \<Rightarrow> bool" where
  "orderOk n t = (case numeric t of None \<Rightarrow> False | Some x \<Rightarrow> tensor_getOrder x = n)"

definition argOk :: "tc_env \<Rightarrow> expr_type \<Rightarrow> bool \<times> c_type option \<Rightarrow> bool" where
  "argOk env t arg =
     (case single t of
        None \<Rightarrow> False
      | Some x \<Rightarrow> compareTypes (env_sets env) x (snd arg) False = Inr True \<and> (fst arg \<longrightarrow> isWritable t))"

definition callOk :: "tc_env \<Rightarrow> string \<Rightarrow> expr_type list \<Rightarrow> func_sig \<Rightarrow> bool" where
  "callOk env name ts sig =
     (if name = ''norm'' then length ts = 1 \<and> orderOk 1 (ts ! 0)
      else if name = ''dot'' then
        length ts = 2 \<and> orderOk 1 (ts ! 0) \<and> orderOk 1 (ts ! 1) \<and>
        (case (single (ts ! 0), single (ts ! 1)) of
           (Some l, Some r) \<Rightarrow> compareTypes (env_sets env) l (Some r) True = Inr True | _ \<Rightarrow> False)
      else if name = ''lu'' \<or> name = ''chol'' then length ts = 1 \<and> orderOk 2 (ts ! 0)
      else if name = ''lusolve'' \<or> name = ''lltsolve'' then
        length ts = 2 \<and> single (ts ! 0) = Some COpaque \<and> orderOk 1 (ts ! 1)
      else if name = ''lumatsolve'' \<or> name = ''lltmatsolve'' then
        length ts = 2 \<and> single (ts ! 0) = Some COpaque \<and> orderOk 2 (ts ! 1)
      else list_all2 (argOk env) ts (sig_args sig))"

definition callType :: "tc_env \<Rightarrow> string \<Rightarrow> fir_index_set list \<Rightarrow> expr_type list \<Rightarrow> expr_type option" where
  "callType env f gs ts =
     (case env_funcs env f of
        Some (Some sig) \<Rightarrow>
          if gs = [] \<and> list_all isSingleValue ts \<and> sig_generics sig = 0 \<and> length ts = length (sig_args sig) \<and>
             callOk env (if originalName sig \<noteq> [] then originalName sig else f) ts sig
          then Some (exprType (sig_results sig) ACC_READ) else None
      | _ \<Rightarrow> None)"

definition actualOk :: "expr_type \<Rightarrow> bool" where
  "actualOk t = (case single t of Some (CTensor _) \<Rightarrow> True | Some COpaque \<Rightarrow> True | _ \<Rightarrow> False)"

text \<open>The set a map runs over and the grid it goes through.\<close>

definition targetSet :: "tc_env \<Rightarrow> c_index_set \<Rightarrow> nat option" where
  "targetSet env s = (case s of CSet _ d \<Rightarrow> if setOk env s then d else None | _ \<Rightarrow> None)"

definition throughSet :: "tc_env \<Rightarrow> c_index_set \<Rightarrow> c_index_set option \<Rightarrow> nat option option" where
  "throughSet env target thr =
     (case thr of
        None \<Rightarrow> Some None
      | Some s \<Rightarrow>
          Option.bind (targetSet env s) (\<lambda>a.
          case set_shape (env_sets env a) of
            GridSet p _ \<Rightarrow> if setName (ep_set p) = setName target then Some (Some a) else None
          | _ \<Rightarrow> None))"

definition mapType ::
  "tc_env \<Rightarrow> string \<Rightarrow> fir_index_set list \<Rightarrow> expr_type list \<Rightarrow> c_index_set \<Rightarrow> c_index_set option \<Rightarrow> expr_type option" where
  "mapType env f gs ts target thr =
     (case env_funcs env f of
        Some (Some sig) \<Rightarrow>
          if gs = [] \<and> list_all actualOk ts \<and> sig_generics sig = 0 then
            Option.bind (targetSet env target) (\<lambda>a.
            Option.bind (throughSet env target thr) (\<lambda>b.
            case mapActuals env a b sig ts of
              Inr ts' \<Rightarrow>
                if list_all2 (argOk env) ts' (sig_args sig) then Some (exprType (sig_results sig) ACC_READ) else None
            | Inl _ \<Rightarrow> None))
          else None
      | _ \<Rightarrow> None)"

section \<open>Expressions\<close>

fun typeOf :: "tc_env \<Rightarrow> 'd fir_expr \<Rightarrow> expr_type option" where
  "typeOf env (MapExpr f gs es target thr _) =
     Option.bind (those (map (typeOf env) es)) (\<lambda>ts.
     mapType env f gs ts (resolveIndexSet env target) (map_option (resolveIndexSet env) thr))"
| "typeOf env (OrExpr a b) = boolType (typeOf env a) (typeOf env b)"
| "typeOf env (AndExpr a b) = boolType (typeOf env a) (typeOf env b)"
| "typeOf env (XorExpr a b) = boolType (typeOf env a) (typeOf env b)"
| "typeOf env (EqExpr es _) =
     Option.bind (those (map (typeOf env) es)) (\<lambda>ts. if eqType ts then Some (scalarType SC_BOOL) else None)"
| "typeOf env (NotExpr a) =
     Option.bind (typeOf env a) (\<lambda>t. if isScalarType SC_BOOL t then Some (scalarType SC_BOOL) else None)"
| "typeOf env (AddExpr a b) = binaryType (summand True) (elwiseType (env_sets env)) (typeOf env a) (typeOf env b)"
| "typeOf env (SubExpr a b) = binaryType numeric (elwiseType (env_sets env)) (typeOf env a) (typeOf env b)"
| "typeOf env (MulExpr a b) = binaryType numeric (mulType (env_sets env)) (typeOf env a) (typeOf env b)"
| "typeOf env (DivExpr a b) = binaryType numeric divType (typeOf env a) (typeOf env b)"
| "typeOf env (ElwiseMulExpr a b) = binaryType numeric (elwiseType (env_sets env)) (typeOf env a) (typeOf env b)"
| "typeOf env (ElwiseDivExpr a b) = binaryType numeric (elwiseType (env_sets env)) (typeOf env a) (typeOf env b)"
| "typeOf env (LeftDivExpr a b) = binaryType numeric (solveType (env_sets env)) (typeOf env a) (typeOf env b)"
| "typeOf env (NegExpr _ a) = Option.bind (typeOf env a) (\<lambda>t. map_option tensorType (numeric t))"
| "typeOf env (ExpExpr a b) = None"
| "typeOf env (TransposeExpr a) =
     Option.bind (typeOf env a) (\<lambda>t. Option.bind (tensorOf t) (\<lambda>x. map_option tensorType (transposeType x)))"
| "typeOf env (CallExpr f gs es) = Option.bind (those (map (typeOf env) es)) (\<lambda>ts. callType env f gs ts)"
| "typeOf env (TensorReadExpr e is) =
     Option.bind (typeOf env e) (\<lambda>t.
     Option.bind (those (map (\<lambda>i. case i of None \<Rightarrow> Some None | Some x \<Rightarrow> map_option Some (typeOf env x)) is)) (\<lambda>ts.
     tensorRead env t ts))"
| "typeOf env (SetReadExpr s es) =
     Option.bind (typeOf env s) (\<lambda>t. Option.bind (those (map (typeOf env) es)) (\<lambda>ts. setRead env t ts))"
| "typeOf env (NamedTupleReadExpr e name) = Option.bind (typeOf env e) (\<lambda>t. namedRead t name)"
| "typeOf env (UnnamedTupleReadExpr e i) =
     Option.bind (typeOf env e) (\<lambda>t. Option.bind (typeOf env i) (\<lambda>it. unnamedRead t it))"
| "typeOf env (FieldReadExpr e f) = Option.bind (typeOf env e) (\<lambda>t. fieldRead env (to_VarExpr e) t f)"
| "typeOf env (ParenExpr e) = typeOf env e"
| "typeOf env (VarExpr x) = varType env x"
| "typeOf env (RangeConst x) = varType env x"
| "typeOf env (IntLiteral _) = Some (scalarType SC_INT)"
| "typeOf env (FloatLiteral _) = Some (scalarType SC_FLOAT)"
| "typeOf env (BoolLiteral _) = Some (scalarType SC_BOOL)"
| "typeOf env (ComplexLiteral _ _) = Some (scalarType SC_COMPLEX)"
| "typeOf env (StringLiteral _) = Some (scalarType SC_STRING)"
| "typeOf env (DenseTensorLiteral l) = literalType l"

text \<open>An environment in which every declaration was checked without an error and no index variable is declared.\<close>

definition env_ok :: "tc_env \<Rightarrow> bool" where
  "env_ok env \<longleftrightarrow>
     \<not> skipCheckDeclared env \<and>
     (\<forall>x t acc. lookup env x = Some (t, acc) \<longrightarrow> (\<exists>u. t = Some u \<and> wf_type u)) \<and>
     (\<forall>f sig. env_funcs env f = Some sig \<longrightarrow> (\<exists>g. sig = Some g \<and> list_all wf_type (sig_results g))) \<and>
     (\<forall>e fs f t. env_elements env e = Some fs \<and> fs f = Some t \<longrightarrow> (\<exists>u. t = Some u \<and> wf_tensor u))"

end
