(* ===== verification/Type_Check_Logic.thy ===== *)
theory Type_Check_Logic
  imports Typing
begin

text \<open>
  Facts the correctness of the type checker rests on: the dimensions of well-formed tensor types, and a calculus that
  relates a checking method to an option value. A method \<^emph>\<open>refines\<close> \<open>Some x\<close> if, started with the flags as at the
  beginning of a statement, it returns \<open>x\<close> and leaves the state alone; it refines \<open>None\<close> if it fails or reports an error.
\<close>

section \<open>Dimensions\<close>

lemma getDimensions_loop_wf:
  "wf_block n t \<Longrightarrow> 0 < n \<Longrightarrow> length ds = n \<Longrightarrow>
   getDimensions_loop t ds = Inr (map (\<lambda>j. ds ! j @ map (\<lambda>level. level ! j) (tlevels t)) [0..<n])"
proof (induction t arbitrary: ds)
  case (CScalar x)
  then show ?case using map_nth [of ds] by simp
next
  case (CND ss b tr)
  let ?ds = "map2 (\<lambda>dim s. dim @ [s]) ds ss"
  have "ds \<noteq> []" "length ?ds = n" using CND.prems by auto
  then have "getDimensions_loop b ?ds = Inr (map (\<lambda>j. ?ds ! j @ map (\<lambda>level. level ! j) (tlevels b)) [0..<n])"
    using CND by simp
  then show ?case using CND.prems \<open>ds \<noteq> []\<close> by simp
qed

lemma length_dims [simp]: "length (dims t) = tensor_getOrder t"
  by (simp add: dims_def)

lemma dims_Nil_iff [simp]: "dims t = [] \<longleftrightarrow> tensor_getOrder t = 0"
  by (simp flip: length_0_conv)

lemma getDimensions_wf: "wf_tensor t \<Longrightarrow> getDimensions t = Inr (dims t)"
proof (cases t)
  case (CND ss b tr)
  assume wf: "wf_tensor t"
  let ?ds = "map2 (\<lambda>dim s. dim @ [s]) (replicate (length ss) []) ss"
  have "getDimensions_loop b ?ds =
      Inr (map (\<lambda>j. ?ds ! j @ map (\<lambda>level. level ! j) (tlevels b)) [0..<length ss])"
    using wf CND by (intro getDimensions_loop_wf) auto
  then show ?thesis using CND wf by (simp add: getDimensions_def dims_def)
qed (simp add: getDimensions_def dims_def)

lemma dims_length: "d \<in> set (dims t) \<Longrightarrow> length d = length (tlevels t)"
  by (auto simp: dims_def)

lemma dims_nth_length: "j < tensor_getOrder t \<Longrightarrow> length (dims t ! j) = length (tlevels t)"
  by (simp add: dims_def)

lemma order_tlevels: "0 < tensor_getOrder t \<Longrightarrow> 0 < length (tlevels t)"
  by (cases t) simp_all

lemma hd_dims: "j < length ss \<Longrightarrow> dims (CND ss b tr) ! j ! 0 = ss ! j" "j < length ss \<Longrightarrow> dims (CND ss b tr) ! j \<noteq> []"
  by (simp_all add: dims_def)

lemma makeTensorType_loop_ok:
  assumes "\<forall>i \<in> set is. \<forall>d \<in> set ds. i < length d"
  shows "makeTensorType_loop ds is b = Inr (fold (\<lambda>i b. CND (map (\<lambda>d. d ! i) ds) b False) is b)"
  using assms
proof (induction "is" arbitrary: b)
  case (Cons i "is")
  have "rmap (\<lambda>d. nth_result d i) ds = Inr (map (\<lambda>d. d ! i) ds)"
    using Cons.prems by (induction ds) auto
  then show ?case using Cons by simp
qed simp

lemma makeTensorType_ok:
  assumes "\<forall>d \<in> set ds. length d = k" and "0 < k"
  shows "makeTensorType c ds tr = Inr (of_dims c ds tr)"
proof (cases ds)
  case (Cons d rest)
  let ?f = "\<lambda>i b. CND (map (\<lambda>d. d ! i) ds) b False"
  have k: "length d = k" using assms Cons by simp
  have "makeTensorType_loop ds (rev [0..<k]) (CScalar c) = Inr (fold ?f (rev [0..<k]) (CScalar c))"
    using assms by (intro makeTensorType_loop_ok) auto
  also have "fold ?f (rev [0..<k]) (CScalar c) = of_levels c (map (\<lambda>i. map (\<lambda>d. d ! i) ds) [0..<k])"
    by (simp add: of_levels_def foldr_conv_fold rev_map fold_map o_def)
  finally show ?thesis
    using assms(2) Cons k by (auto simp: makeTensorType_def of_dims_def of_levels_def upt_rec)
qed (simp add: makeTensorType_def of_dims_def of_levels_def)

lemma wf_block_of_levels: "\<forall>l \<in> set ls. length l = n \<Longrightarrow> wf_block n (of_levels c ls)"
  by (induction ls) (simp_all add: of_levels_def)

lemma of_levels_Cons: "of_levels c (l # ls) = CND l (of_levels c ls) False"
  by (simp add: of_levels_def)

lemma wf_of_dims:
  assumes "ds \<noteq> []" and "hd ds \<noteq> []" and "tr \<longrightarrow> length ds = 1"
  shows "wf_tensor (of_dims c ds tr)"
proof -
  obtain k where k: "length (hd ds) = Suc k" using assms by (cases "hd ds") auto
  let ?ls = "map (\<lambda>i. map (\<lambda>d. d ! i) ds) [0..<Suc k]"
  obtain l ls where ls: "?ls = l # ls" by (cases ?ls) auto
  have len: "\<forall>x \<in> set ?ls. length x = length ds" by auto
  then have "length l = length ds" "wf_block (length ds) (of_levels c ls)"
    using wf_block_of_levels [of ls "length ds" c] unfolding ls by simp_all
  moreover have "of_dims c ds tr = CND l (of_levels c ls) tr"
    using assms(1) k ls by (simp add: of_dims_def of_levels_Cons)
  ultimately show ?thesis using assms by auto
qed

lemma of_dims_scalar [simp]: "of_dims c [] tr = CScalar c"
  by (simp add: of_dims_def of_levels_def)

lemma compareDomains_length: "compareDomains sets l r \<Longrightarrow> length l = length r"
  by (simp add: compareDomains_def list_all2_lengthD)

section \<open>Evaluation of checking methods\<close>

lemma tbind_simps [simp]:
  "tbind (tret x) f = f x" "tbind (tlift (Inr x)) f = f x" "tthen (tret ()) k = k" "tbind (tlift (Inl e)) f = tfail e"
  "tthen (reportIf False m) k = k" "reportIf True m = report m" "reportIf False m = tret ()" "tbind (tfail e) f = tfail e"
  by (simp_all add: tbind_def tret_def tlift_def tthen_def reportIf_def tfail_def fun_eq_iff)

lemma tlift_simps [simp]: "tlift (Inr x) = tret x" "tlift (Inl e) = tfail e"
  by (simp_all add: tlift_def tret_def tfail_def fun_eq_iff)

definition grows :: "'a tc \<Rightarrow> bool" where
  "grows m \<longleftrightarrow> (\<forall>s x s'. m s = Inr (x, s') \<longrightarrow> length (tc_errors s) \<le> length (tc_errors s'))"

named_theorems grows_rules \<open>checking methods only append to the errors\<close>

lemma grows_basic [grows_rules]:
  "grows (tret x)" "grows (tlift r)" "grows (tfail e)" "grows (report m)" "grows (reportIf c m)"
  "grows (reportUndeclared a a')" "grows (setChecked b)" "grows getChecked"
  "grows (\<lambda>s. Inr ((), s\<lparr>hasIndexExpr := f s\<rparr>))" "grows (\<lambda>s. reportIf (g s) m s)"
  by (auto simp: grows_def tret_def tlift_def tfail_def report_def reportIf_def reportUndeclared_def setChecked_def
      getChecked_def result_simps)

lemma grows_bind [grows_rules]:
  assumes "grows m" and "\<And>x. grows (f x)"
  shows "grows (tbind m f)"
  using assms unfolding grows_def tbind_def by (force simp: rbind_eq_Inr intro: order_trans)

lemma grows_then [grows_rules]: "grows m \<Longrightarrow> grows k \<Longrightarrow> grows (tthen m k)"
  by (simp add: tthen_def grows_bind)

lemma grows_if [grows_rules]: "(c \<Longrightarrow> grows a) \<Longrightarrow> (\<not> c \<Longrightarrow> grows b) \<Longrightarrow> grows (if c then a else b)"
  by simp

lemma grows_typeCheck [grows_rules]: "grows m \<Longrightarrow> grows (typeCheck m)"
  unfolding grows_def typeCheck_def by (force simp: rbind_eq_Inr)

definition ready :: "tc_state \<Rightarrow> bool" where
  "ready s \<longleftrightarrow> retTypeChecked s \<and> \<not> hasIndexExpr s"

definition refines :: "'a tc \<Rightarrow> 'a option \<Rightarrow> bool" where
  "refines m v \<longleftrightarrow> grows m \<and>
     (\<forall>s. ready s \<longrightarrow>
       (case v of
          Some x \<Rightarrow> m s = Inr (x, s)
        | None \<Rightarrow> (\<forall>x s'. m s = Inr (x, s') \<longrightarrow> length (tc_errors s) < length (tc_errors s'))))"

lemma refines_grows: "refines m v \<Longrightarrow> grows m"
  by (simp add: refines_def)

lemma refines_run: "refines m (Some x) \<Longrightarrow> ready s \<Longrightarrow> m s = Inr (x, s)"
  by (auto simp: refines_def)

lemma refines_error: "refines m None \<Longrightarrow> ready s \<Longrightarrow> m s = Inr (x, s') \<Longrightarrow> length (tc_errors s) < length (tc_errors s')"
  by (auto simp: refines_def)

lemma refines_ret: "refines (tret x) (Some x)"
  by (auto simp: refines_def grows_basic) (simp add: tret_def)

lemma refines_fail: "refines (tfail e) None"
  by (auto simp: refines_def grows_basic) (simp add: tfail_def)

lemma refines_report: "refines (report m) None"
  by (auto simp: refines_def grows_basic) (auto simp: report_def)

lemma refines_reportIf: "refines (reportIf c m) (if c then None else Some ())"
  by (simp add: refines_report refines_ret)

lemma refines_setChecked: "refines (setChecked True) (Some ())"
  by (auto simp: refines_def grows_basic) (simp add: setChecked_def ready_def)

lemma refines_getChecked: "refines getChecked (Some True)"
  by (auto simp: refines_def grows_basic) (simp add: getChecked_def ready_def)

lemma refines_bind_None: "refines m None \<Longrightarrow> (\<And>x. grows (f x)) \<Longrightarrow> refines (tbind m f) None"
  unfolding refines_def
  by (auto simp: grows_bind) (fastforce simp: tbind_def rbind_eq_Inr grows_def dest: order_less_le_trans)

lemma refines_bind_Some:
  assumes "refines m (Some x)" and "\<And>x. grows (f x)" and "refines (f x) v"
  shows "refines (tbind m f) v"
proof -
  have "tbind m f s = f x s" if "ready s" for s
    using refines_run [OF assms(1) that] by (simp add: tbind_def)
  then show ?thesis using assms(2,3) refines_grows [OF assms(1)]
    by (auto simp: refines_def grows_bind split: option.split)
qed

lemma refines_bind:
  assumes "refines m v" and "\<And>x. grows (f x)" and "\<And>x. v = Some x \<Longrightarrow> refines (f x) (g x)"
  shows "refines (tbind m f) (Option.bind v g)"
  using assms by (cases v) (auto intro: refines_bind_None refines_bind_Some)

lemma refines_then_None: "refines m None \<Longrightarrow> grows k \<Longrightarrow> refines (tthen m k) None"
  by (simp add: tthen_def refines_bind_None)

lemma refines_then_Some: "refines m (Some ()) \<Longrightarrow> refines k v \<Longrightarrow> refines (tthen m k) v"
  by (auto simp: tthen_def intro: refines_bind_Some refines_grows)

lemma refines_report_then: "grows k \<Longrightarrow> refines (tthen (report m) k) None"
  by (rule refines_then_None [OF refines_report])

lemma refines_reportIf_then: "refines k v \<Longrightarrow> refines (tthen (reportIf c m) k) (if c then None else v)"
  by (simp add: refines_report_then refines_grows)

lemma refines_noIndex: "refines (\<lambda>s. reportIf (b \<and> hasIndexExpr s) m s) (Some ())"
  by (auto simp: refines_def grows_basic ready_def) (simp add: tret_def)

lemma refines_sameIndex: "refines (\<lambda>s. Inr ((), s\<lparr>hasIndexExpr := hasIndexExpr s \<or> False\<rparr>)) (Some ())"
  unfolding refines_def using grows_basic(9) [of "\<lambda>s. hasIndexExpr s \<or> False"] by simp

lemma refines_typeCheck: "refines m v \<Longrightarrow> refines (typeCheck m) (map_option (\<lambda>_. True) v)"
proof -
  assume m: "refines m v"
  have eq: "typeCheck m s = rbind (m s) (\<lambda>(_, s'). Inr (retTypeChecked s', s'\<lparr>retTypeChecked := True\<rparr>))"
    if "ready s" for s
    using that by (cases s) (simp add: typeCheck_def ready_def)
  show ?thesis
  proof (cases v)
    case None
    then show ?thesis using m eq grows_typeCheck [OF refines_grows [OF m]]
      by (fastforce simp: refines_def rbind_eq_Inr)
  next
    case (Some x)
    then show ?thesis using m eq grows_typeCheck [OF refines_grows [OF m]]
      by (auto simp: refines_def ready_def)
  qed
qed

text \<open>The types of a well-typed expression are well formed; \<open>checks\<close> adds this to refinement.\<close>

definition good :: "expr_type \<Rightarrow> bool" where
  "good t \<longleftrightarrow> et_defined t \<and> list_all wf_type (et_types t)"

definition checks :: "expr_type tc \<Rightarrow> expr_type option \<Rightarrow> bool" where
  "checks m v \<longleftrightarrow> refines m v \<and> (\<forall>t. v = Some t \<longrightarrow> good t)"

lemma checks_refines: "checks m v \<Longrightarrow> refines m v"
  by (simp add: checks_def)

lemma checks_grows: "checks m v \<Longrightarrow> grows m"
  by (auto simp: checks_def intro: refines_grows)

lemma checks_good: "checks m (Some t) \<Longrightarrow> good t"
  by (simp add: checks_def)

lemma checksI: "refines m v \<Longrightarrow> (\<And>t. v = Some t \<Longrightarrow> good t) \<Longrightarrow> checks m v"
  by (simp add: checks_def)

lemma single_iff: "single t = Some x \<longleftrightarrow> et_types t = [x]"
  by (auto simp: single_def split: list.split)

lemma isSingleValue_iff: "isSingleValue t \<longleftrightarrow> (\<exists>x. single t = Some x)"
  by (auto simp: isSingleValue_def single_iff length_Suc_conv)

lemma good_simps [simp]:
  "good (exprType ts acc) \<longleftrightarrow> list_all wf_type ts" "good (tensorType t) \<longleftrightarrow> wf_tensor t" "good (scalarType c)"
  by (auto simp: good_def exprType_def tensorType_def scalarType_def)

lemma good_single: "good t \<Longrightarrow> single t = Some x \<Longrightarrow> wf_type x"
  by (simp add: good_def single_iff)

lemma good_defined: "good t \<Longrightarrow> et_defined t"
  by (simp add: good_def)

lemma toTensor_eq: "single t = Some (CTensor x) \<Longrightarrow> toTensor t = Inr x"
  by (simp add: toTensor_def single_iff)

lemma et_isTensor_iff: "et_isTensor t \<longleftrightarrow> (\<exists>x. single t = Some (CTensor x))"
  by (auto simp: et_isTensor_def split: option.split c_type.split)

lemma numeric_iff: "numeric t = Some x \<longleftrightarrow> single t = Some (CTensor x) \<and> isNumericType (tensor_getComponentType x)"
  by (auto simp: numeric_def split: option.split c_type.split)

lemma isNumericTensor_iff: "isNumericTensor t \<longleftrightarrow> (\<exists>x. numeric t = Some x)"
  by (auto simp: isNumericTensor_def numeric_def split: option.split c_type.split)

end
