(* ===== verification/Type_Check_Operators.thy ===== *)
theory Type_Check_Operators
  imports Type_Check_Logic
begin

text \<open>
  The checks of operators, comparisons, lists of operands and variables refine the reference typing of \<open>Typing\<close>, one
  lemma per method of the checker.
\<close>

section \<open>Operators\<close>

lemma grows_binaryOperands [grows_rules]:
  "grows l \<Longrightarrow> grows r \<Longrightarrow> (\<And>x y. grows (k x y)) \<Longrightarrow> grows (binaryOperands env ni ok lm rm l r k)"
  unfolding binaryOperands_def by (intro grows_rules)

lemma refines_binaryOperands:
  assumes l: "checks l lv" and r: "checks r rv" and k: "\<And>x y. grows (k x y)"
    and step: "\<And>x y. lv = Some x \<Longrightarrow> rv = Some y \<Longrightarrow> good x \<Longrightarrow> good y \<Longrightarrow> ok x \<Longrightarrow> ok y \<Longrightarrow> refines (k x y) (g x y)"
  shows "refines (binaryOperands env ni ok lm rm l r k)
    (Option.bind lv (\<lambda>x. Option.bind rv (\<lambda>y. if ok x \<and> ok y then g x y else None)))"
  unfolding binaryOperands_def
proof (rule refines_bind [OF checks_refines [OF l]])
  fix x assume x: "lv = Some x"
  show "refines (tbind r (\<lambda>rhsType. tthen (setChecked (et_defined x \<and> et_defined rhsType))
     (tthen (\<lambda>s. reportIf (ni \<and> hasIndexExpr s) ''Index expression is not allowed in this operation'' s)
     (tthen (reportIf (et_defined x \<and> \<not> ok x) (lm @ toString_et env x))
     (tthen (reportIf (et_defined rhsType \<and> \<not> ok rhsType) (rm @ toString_et env rhsType))
     (tbind getChecked (\<lambda>checked. if \<not> checked then tret (undefType ACC_NONE) else k x rhsType)))))))
     (Option.bind rv (\<lambda>y. if ok x \<and> ok y then g x y else None))"
  proof (rule refines_bind [OF checks_refines [OF r]])
    fix y assume y: "rv = Some y"
    have good: "good x" "good y" using l r x y by (auto dest: checks_good)
    have k': "refines (tbind getChecked (\<lambda>checked. if \<not> checked then tret (undefType ACC_NONE) else k x y)) (g x y)"
      if "ok x" "ok y"
      using step [OF x y good that] by (intro refines_bind_Some [OF refines_getChecked]) (auto intro!: grows_rules k)
    have gr: "grows (tbind getChecked (\<lambda>checked. if \<not> checked then tret (undefType ACC_NONE) else k x y))"
      by (intro grows_rules k)
    have "refines (tthen (reportIf (et_defined y \<and> \<not> ok y) (rm @ toString_et env y))
        (tbind getChecked (\<lambda>checked. if \<not> checked then tret (undefType ACC_NONE) else k x y)))
        (if ok y then g x y else None)" if "ok x"
      using k' that good gr by (cases "ok y") (auto simp: good_defined intro: refines_report_then)
    then show "refines (tthen (setChecked (et_defined x \<and> et_defined y))
     (tthen (\<lambda>s. reportIf (ni \<and> hasIndexExpr s) ''Index expression is not allowed in this operation'' s)
     (tthen (reportIf (et_defined x \<and> \<not> ok x) (lm @ toString_et env x))
     (tthen (reportIf (et_defined y \<and> \<not> ok y) (rm @ toString_et env y))
     (tbind getChecked (\<lambda>checked. if \<not> checked then tret (undefType ACC_NONE) else k x y))))))
     (if ok x \<and> ok y then g x y else None)"
      using good gr
      by (cases "ok x") (auto simp: good_defined intro!: refines_then_Some [OF refines_setChecked]
          refines_then_Some [OF refines_noIndex] refines_report_then grows_rules)
  qed (intro grows_rules k)
qed (intro grows_rules k checks_grows [OF r])

lemma binaryType_alt:
  "binaryType operand type lv rv = Option.bind lv (\<lambda>x. Option.bind rv (\<lambda>y.
     if (\<exists>u. operand x = Some u) \<and> (\<exists>v. operand y = Some v)
     then map_option tensorType (type (the (operand x)) (the (operand y))) else None))"
  unfolding binaryType_def by (cases lv; cases rv) (auto split: Option.bind_split)

lemma refines_tmake:
  "\<forall>d \<in> set ds. length d = k \<Longrightarrow> 0 < k \<Longrightarrow> refines (tmake c ds tr) (Some (tensorType (of_dims c ds tr)))"
  by (simp add: tmake_def makeTensorType_ok [of ds k] refines_ret)

lemma grows_tmake [grows_rules]: "grows (tmake c ds tr)"
  unfolding tmake_def by (intro grows_rules)

lemma numeric_good: "good t \<Longrightarrow> numeric t = Some x \<Longrightarrow> toTensor t = Inr x \<and> wf_tensor x"
  by (auto simp: numeric_iff toTensor_eq dest: good_single)

lemma summand_good: "good t \<Longrightarrow> summand b t = Some x \<Longrightarrow> toTensor t = Inr x \<and> wf_tensor x"
  by (auto simp: summand_def isScalarType_def toTensor_eq numeric_good split: if_splits)

lemma summand_ok:
  "(isNumericTensor t \<or> (b \<and> isScalarType SC_STRING t)) = (\<exists>x. summand b t = Some x)"
  by (auto simp: summand_def isNumericTensor_iff)

lemma summand_False [simp]: "summand False = numeric"
  by (rule ext) (simp add: summand_def)

lemma checks_elwise:
  assumes l: "checks l lv" and r: "checks r rv"
  shows "checks (typeCheckBinaryElwise env b l r) (binaryType (summand b) (elwiseType (env_sets env)) lv rv)"
proof (rule checksI)
  show "refines (typeCheckBinaryElwise env b l r) (binaryType (summand b) (elwiseType (env_sets env)) lv rv)"
    unfolding typeCheckBinaryElwise_def binaryType_alt summand_ok Let_def
  proof (rule refines_binaryOperands [OF l r], goal_cases)
    case (2 x y)
    then obtain u v where uv: "summand b x = Some u" "summand b y = Some v" by blast
    with 2 summand_good [of x b u] summand_good [of y b v] show ?case
      by (auto simp: getDimensions_wf elwiseType_def intro!: refines_ret refines_report_then grows_rules)
  qed (intro grows_rules)
next
  fix t assume "binaryType (summand b) (elwiseType (env_sets env)) lv rv = Some t"
  then show "good t"
    using l r unfolding binaryType_alt
    by (auto simp: elwiseType_def bind_eq_Some_conv split: if_splits dest!: checks_good summand_good)
qed

lemma dims_nonempty: "j < tensor_getOrder t \<Longrightarrow> dims t ! j \<noteq> []"
  using order_tlevels [of t] dims_nth_length [of j t] by auto

lemma wf_of_dims1: "d \<noteq> [] \<Longrightarrow> wf_tensor (of_dims c [d] tr)"
  by (simp add: wf_of_dims)

lemma wf_of_dims2: "d \<noteq> [] \<Longrightarrow> wf_tensor (of_dims c [d, e] False)"
  by (simp add: wf_of_dims)

lemma refines_tmake0: "refines (tmake c [] tr) (Some (tensorType (CScalar c)))"
  by (simp add: tmake_def makeTensorType_def refines_ret)

lemma refines_tmake1: "d \<noteq> [] \<Longrightarrow> refines (tmake c [d] tr) (Some (tensorType (of_dims c [d] tr)))"
  by (rule refines_tmake [of _ "length d"]) auto

lemma refines_tmake2:
  "d \<noteq> [] \<Longrightarrow> length e = length d \<Longrightarrow> refines (tmake c [d, e] tr) (Some (tensorType (of_dims c [d, e] tr)))"
  by (rule refines_tmake [of _ "length d"]) auto

lemmas tmake_rules = refines_ret refines_report_then refines_tmake0 refines_tmake1 refines_tmake2

lemma mulType_wf: "wf_tensor l \<Longrightarrow> wf_tensor r \<Longrightarrow> mulType sets l r = Some t \<Longrightarrow> wf_tensor t"
  by (auto simp: mulType_def Let_def dims_nonempty intro!: wf_of_dims1 wf_of_dims2 split: if_splits)

lemma grows_mulDimensions [grows_rules]: "grows (mulDimensions env l r dl dr)"
  unfolding mulDimensions_def Let_def by (intro grows_rules)

lemma refines_mulDimensions:
  assumes "wf_tensor l" and "wf_tensor r" and "tensor_getComponentType l = tensor_getComponentType r"
  shows "refines (mulDimensions env l r (dims l) (dims r)) (map_option tensorType (mulType (env_sets env) l r))"
  using assms(3) unfolding mulDimensions_def mulType_def Let_def
  by (auto simp: dims_nonempty dims_nth_length dest!: compareDomains_length intro!: tmake_rules grows_rules)

lemma checks_mul:
  assumes l: "checks l lv" and r: "checks r rv"
  shows "checks (visitMulExpr env l r) (binaryType numeric (mulType (env_sets env)) lv rv)"
proof (rule checksI)
  show "refines (visitMulExpr env l r) (binaryType numeric (mulType (env_sets env)) lv rv)"
    unfolding visitMulExpr_def binaryType_alt isNumericTensor_iff [abs_def]
  proof (rule refines_binaryOperands [OF l r], goal_cases)
    case (2 x y)
    then obtain u v where uv: "numeric x = Some u" "numeric y = Some v" by blast
    with 2 numeric_good [of x u] numeric_good [of y v] refines_mulDimensions [of u v env] show ?case
      by (auto simp: getDimensions_wf mulType_def intro!: refines_report_then grows_rules)
  qed (intro grows_rules)
next
  fix t assume "binaryType numeric (mulType (env_sets env)) lv rv = Some t"
  then show "good t"
    using l r unfolding binaryType_alt
    by (auto simp: bind_eq_Some_conv split: if_splits dest!: checks_good numeric_good intro: mulType_wf)
qed

lemma checks_div:
  assumes l: "checks l lv" and r: "checks r rv"
  shows "checks (visitDivExpr env l r) (binaryType numeric divType lv rv)"
proof (rule checksI)
  show "refines (visitDivExpr env l r) (binaryType numeric divType lv rv)"
    unfolding visitDivExpr_def binaryType_alt isNumericTensor_iff [abs_def]
  proof (rule refines_binaryOperands [OF l r], goal_cases)
    case (2 x y)
    then obtain u v where uv: "numeric x = Some u" "numeric y = Some v" by blast
    with 2 numeric_good [of x u] numeric_good [of y v] show ?case
      by (auto simp: getDimensions_wf divType_def intro!: refines_ret refines_report_then grows_rules)
  qed (intro grows_rules)
next
  fix t assume "binaryType numeric divType lv rv = Some t"
  then show "good t"
    using l r unfolding binaryType_alt
    by (auto simp: divType_def bind_eq_Some_conv split: if_splits dest!: checks_good numeric_good)
qed

lemma refines_getChecked_then:
  "refines k v \<Longrightarrow> grows k' \<Longrightarrow> refines (tbind getChecked (\<lambda>checked. if \<not> checked then k' else k)) v"
  by (rule refines_bind_Some [OF refines_getChecked]) (auto intro: grows_rules refines_grows)

lemma checks_leftDiv:
  assumes l: "checks l lv" and r: "checks r rv"
  shows "checks (visitLeftDivExpr env l r) (binaryType numeric (solveType (env_sets env)) lv rv)"
proof (rule checksI)
  show "refines (visitLeftDivExpr env l r) (binaryType numeric (solveType (env_sets env)) lv rv)"
    unfolding visitLeftDivExpr_def binaryType_alt isNumericTensor_iff [abs_def]
  proof (rule refines_binaryOperands [OF l r], goal_cases)
    case (2 x y)
    then obtain u v where uv: "numeric x = Some u" "numeric y = Some v" by blast
    with 2 numeric_good [of x u] numeric_good [of y v] show ?case
      by (auto simp: getDimensions_wf solveType_def dims_nonempty reportIf_def
          intro!: tmake_rules refines_getChecked_then grows_rules)
  qed (intro grows_rules)
next
  fix t assume "binaryType numeric (solveType (env_sets env)) lv rv = Some t"
  then show "good t"
    using l r unfolding binaryType_alt
    by (auto simp: solveType_def bind_eq_Some_conv dims_nonempty split: if_splits intro!: wf_of_dims1)
qed

lemma checks_boolean:
  assumes l: "checks l lv" and r: "checks r rv"
  shows "checks (typeCheckBinaryBoolean env l r) (boolType lv rv)"
proof (rule checksI)
  show "refines (typeCheckBinaryBoolean env l r) (boolType lv rv)"
    unfolding typeCheckBinaryBoolean_def boolType_def
  proof (rule refines_bind [OF checks_refines [OF l]], goal_cases)
    case (2 x)
    show ?case
    proof (rule refines_bind [OF checks_refines [OF r]], goal_cases)
      case (2 y)
      have "et_defined x" "et_defined y" using l r \<open>lv = Some x\<close> 2 by (auto dest!: checks_good simp: good_defined)
      then show ?case by (auto simp: reportIf_def intro!: refines_ret refines_report_then grows_rules)
    qed (intro grows_rules)
  qed (intro grows_rules checks_grows [OF r])
qed (auto simp: boolType_def bind_eq_Some_conv split: if_splits)

lemma checks_not:
  assumes a: "checks a v"
  shows "checks (visitNotExpr env a)
    (Option.bind v (\<lambda>t. if isScalarType SC_BOOL t then Some (scalarType SC_BOOL) else None))"
proof (rule checksI)
  show "refines (visitNotExpr env a)
    (Option.bind v (\<lambda>t. if isScalarType SC_BOOL t then Some (scalarType SC_BOOL) else None))"
    unfolding visitNotExpr_def
  proof (rule refines_bind [OF checks_refines [OF a]], goal_cases)
    case (2 x)
    then have "et_defined x" using a by (auto dest!: checks_good simp: good_defined)
    then show ?case by (auto simp: reportIf_def intro!: refines_ret refines_report_then grows_rules)
  qed (intro grows_rules)
qed (auto simp: bind_eq_Some_conv split: if_splits)

lemma checks_neg:
  assumes a: "checks a v"
  shows "checks (visitNegExpr env a) (Option.bind v (\<lambda>t. map_option tensorType (numeric t)))"
proof (rule checksI)
  show "refines (visitNegExpr env a) (Option.bind v (\<lambda>t. map_option tensorType (numeric t)))"
    unfolding visitNegExpr_def
  proof (rule refines_bind [OF checks_refines [OF a]], goal_cases)
    case (2 x)
    then have "et_defined x" using a by (auto dest!: checks_good simp: good_defined)
    moreover have "et_types x = [CTensor u]" if "numeric x = Some u" for u
      using that by (simp add: numeric_iff single_iff)
    ultimately show ?case
      by (cases "numeric x") (auto simp: isNumericTensor_iff tensorType_def intro!: refines_ret refines_report_then grows_rules)
  qed (intro grows_rules)
qed (use a in \<open>auto simp: bind_eq_Some_conv dest!: checks_good numeric_good\<close>)

lemma transposeType_wf: "wf_tensor t \<Longrightarrow> transposeType t = Some u \<Longrightarrow> wf_tensor u"
  by (auto simp: transposeType_def Let_def dims_nonempty intro!: wf_of_dims split: if_splits simp: hd_conv_nth)

lemma toTensor_tensorOf:
  "(\<exists>e. toTensor t = Inl e) \<and> tensorOf t = None \<or> (\<exists>x. toTensor t = Inr x \<and> (tensorOf t = Some x \<or> tensorOf t = None \<and> \<not> et_isTensor t))"
  by (auto simp: toTensor_def tensorOf_def single_def et_isTensor_def nth_result_def split: list.split c_type.split)

lemma tensorOf_iff: "tensorOf t = Some x \<longleftrightarrow> single t = Some (CTensor x)"
  by (auto simp: tensorOf_def split: option.split c_type.split)

lemma tensorOf_good: "good t \<Longrightarrow> tensorOf t = Some x \<Longrightarrow> toTensor t = Inr x \<and> wf_tensor x \<and> et_isTensor t"
  by (auto simp: tensorOf_iff toTensor_eq et_isTensor_iff dest: good_single)

lemma refines_lift_None: "(\<And>x. r = Inr x \<Longrightarrow> refines (f x) None) \<Longrightarrow> refines (tbind (tlift r) f) None"
  by (cases r) (auto simp: refines_fail)

lemma refines_transposeTensor:
  "wf_tensor t \<Longrightarrow>
   refines (if length (dims t) > 2 then tthen (report m) (tret (undefType ACC_NONE))
     else if length (dims t) = 0 then tret (tensorType t)
     else if length (dims t) = 1 then tmake (tensor_getComponentType t) (dims t) (\<not> getTransposed t)
     else tmake (tensor_getComponentType t) [dims t ! 1, dims t ! 0] False)
   (map_option tensorType (transposeType t))"
  unfolding transposeType_def Let_def using order_tlevels [of t]
  by (auto simp: dims_nonempty dims_nth_length intro!: tmake_rules refines_tmake [of _ "length (tlevels t)"] grows_rules
      dest: dims_length)

lemma checks_transpose:
  assumes a: "checks a v"
  shows "checks (visitTransposeExpr env a)
    (Option.bind v (\<lambda>t. Option.bind (tensorOf t) (\<lambda>x. map_option tensorType (transposeType x))))"
proof (rule checksI)
  show "refines (visitTransposeExpr env a)
    (Option.bind v (\<lambda>t. Option.bind (tensorOf t) (\<lambda>x. map_option tensorType (transposeType x))))"
    unfolding visitTransposeExpr_def
  proof (rule refines_bind [OF checks_refines [OF a]], goal_cases)
    case (2 x)
    then have good: "good x" using a by (auto dest!: checks_good)
    show ?case
    proof (cases "tensorOf x")
      case None
      then show ?thesis using good toTensor_tensorOf [of x]
        by (auto simp: good_defined intro!: refines_lift_None refines_report_then refines_fail grows_rules)
    next
      case (Some t)
      then show ?thesis using tensorOf_good [OF good Some] good refines_transposeTensor [of t]
        by (simp add: good_defined getDimensions_wf)
    qed
  qed (intro grows_rules)
qed (use a in \<open>auto simp: bind_eq_Some_conv dest!: checks_good tensorOf_good intro: transposeType_wf\<close>)

section \<open>Comparisons and lists of operands\<close>

lemma those_Cons: "those (v # vs) = Option.bind v (\<lambda>x. Option.bind (those vs) (\<lambda>xs. Some (x # xs)))"
  by (cases v) (simp_all add: map_option_case split: option.split)

lemma those_Some_iff: "those vs = Some xs \<longleftrightarrow> vs = map Some xs"
proof (induction vs arbitrary: xs)
  case (Cons v vs)
  then show ?case by (cases v; cases xs) auto
qed auto

lemma checks_list_grows: "list_all2 checks ms vs \<Longrightarrow> \<forall>m \<in> set ms. grows m"
  by (induction rule: list_all2_induct) (auto dest: checks_grows)

lemma grows_eqOperands: "\<forall>m \<in> set ms. grows m \<Longrightarrow> grows (eqOperands env ms rep)"
  by (induction ms arbitrary: rep) (auto intro!: grows_rules split: option.split)

definition sameScalars :: "fir_scalar option \<Rightarrow> expr_type list \<Rightarrow> bool" where
  "sameScalars rep ts =
     (case rep of
        Some c \<Rightarrow> list_all (isScalarType c) ts
      | None \<Rightarrow> eqType ts)"

lemma et_isScalar_iff: "et_isScalar t \<longleftrightarrow> (\<exists>c. isScalarType c t)"
  by (auto simp: et_isScalar_def isScalarType_def split: option.split c_type.split c_tensor.split)

lemma sameScalars_simps:
  "sameScalars rep []"
  "sameScalars None (t # ts) \<longleftrightarrow> (\<exists>c. isScalarType c t \<and> sameScalars (Some c) ts)"
  by (auto simp: sameScalars_def eqType_def et_isScalar_iff isScalarType_def single_iff list_all_iff split: option.split)

lemma refines_eqOperands:
  assumes "list_all2 checks ms vs"
  shows "refines (eqOperands env ms (map_option (CTensor \<circ> CScalar) rep))
    (Option.bind (those vs) (\<lambda>ts. if sameScalars rep ts then Some () else None))"
  using assms
proof (induction arbitrary: rep rule: list_all2_induct)
  case Nil
  then show ?case by (simp add: sameScalars_simps refines_ret)
next
  case (Cons m ms v vs)
  have gr: "grows (eqOperands env ms rep')" for rep'
    using checks_list_grows [OF Cons.hyps(2)] by (rule grows_eqOperands)
  show ?case
    unfolding those_Cons eqOperands.simps bind_assoc
  proof (rule refines_bind [OF checks_refines [OF Cons.hyps(1)]], goal_cases)
    case (2 x)
    then have def: "et_defined x" using Cons.hyps(1) by (auto dest!: checks_good simp: good_defined)
    show ?case
    proof (cases "et_isScalar x")
      case False
      then have "\<not> sameScalars rep (x # ts)" for ts
        by (auto simp: sameScalars_def et_isScalar_iff eqType_def split: option.split)
      then show ?thesis using def False gr by (auto simp: bind_eq_None_conv split: Option.bind_split intro!: refines_report_then)
    next
      case True
      then obtain c where c: "single x = Some (CTensor (CScalar c))" by (auto simp: et_isScalar_iff isScalarType_def)
      then have ty: "nth_result (et_types x) 0 = Inr (CTensor (CScalar c))" by (simp add: single_iff)
      show ?thesis
      proof (cases rep)
        case None
        with True def ty c show ?thesis using Cons.IH [of "Some c"]
          by (auto simp: sameScalars_simps isScalarType_def)
      next
        case (Some c')
        with True def ty c gr show ?thesis using Cons.IH [of "Some c'"]
          by (cases "c' = c")
            (auto simp: sameScalars_def isScalarType_def bind_eq_None_conv intro!: refines_report_then split: Option.bind_split)
      qed
    qed
  qed (auto intro!: grows_rules gr split: option.split)
qed

lemma checks_eq:
  assumes "list_all2 checks ms vs"
  shows "checks (visitEqExpr env ms)
    (Option.bind (those vs) (\<lambda>ts. if eqType ts then Some (scalarType SC_BOOL) else None))"
proof (rule checksI)
  have *: "refines (eqOperands env ms None) (Option.bind (those vs) (\<lambda>ts. if eqType ts then Some () else None))"
    using refines_eqOperands [OF assms, of env None] by (simp add: sameScalars_def)
  have "refines (tbind (eqOperands env ms None) (\<lambda>_. tret (scalarType SC_BOOL)))
      (Option.bind (Option.bind (those vs) (\<lambda>ts. if eqType ts then Some () else None)) (\<lambda>_. Some (scalarType SC_BOOL)))"
    by (rule refines_bind [OF *]) (auto intro!: grows_rules refines_ret)
  then show "refines (visitEqExpr env ms)
      (Option.bind (those vs) (\<lambda>ts. if eqType ts then Some (scalarType SC_BOOL) else None))"
    unfolding visitEqExpr_def tthen_def by (cases "those vs") auto
qed (auto simp: bind_eq_Some_conv split: if_splits)

text \<open>The argument lists of calls and maps and the indices of set reads: each is checked in turn.\<close>

lemma grows_checkSingle [grows_rules]: "grows k \<Longrightarrow> grows (checkSingle t k)"
  unfolding checkSingle_def by (intro grows_rules)

lemma refines_checkSingle:
  assumes "good t" and "\<And>x. single t = Some x \<Longrightarrow> refines k (if P x then Some () else None)" and "grows k"
  shows "refines (checkSingle t k) (case single t of None \<Rightarrow> None | Some x \<Rightarrow> if P x then Some () else None)"
  using assms
  by (auto simp: checkSingle_def good_defined isSingleValue_iff split: option.split intro!: refines_report)
    (auto simp: isVoid_def single_iff)

fun checkEach :: "(expr_type \<Rightarrow> unit tc) \<Rightarrow> expr_type tc list \<Rightarrow> expr_type list tc" where
  "checkEach chk [] = tret []"
| "checkEach chk (m # ms) = tbind m (\<lambda>t. tthen (chk t) (tbind (checkEach chk ms) (\<lambda>ts. tret (t # ts))))"

lemma callArgs_checkEach: "callArgs ms = checkEach (\<lambda>t. checkSingle t (tret ())) ms"
  by (induction ms) simp_all

lemma mapArgs_checkEach:
  "mapArgs env ms = checkEach (\<lambda>t. checkSingle t (tbind (tlift (isOpaque t)) (\<lambda>opaque.
     reportIf (\<not> (et_isTensor t \<or> opaque))
       (''expected argument to be a tensor or opaque but got an argument of type '' @ toString_et env t)))) ms"
  by (induction ms) simp_all

lemma tbind_assoc: "tbind (tbind m f) g = tbind m (\<lambda>x. tbind (f x) g)"
  by (auto simp: tbind_def fun_eq_iff rbind_assoc intro!: arg_cong [where f = "rbind _"])

lemma tthen_assoc: "tbind (tthen m k) g = tthen m (tbind k g)"
  by (simp add: tthen_def tbind_assoc)

lemma setReadIndices_checkEach:
  "setReadIndices env ms = tbind (checkEach (\<lambda>t. reportIf (et_defined t \<and> \<not> isScalarType SC_INT t)
     (''underlying set access expects an integral index but got an index of type '' @ toString_et env t)) ms) (\<lambda>_. tret ())"
  by (induction ms) (simp_all add: tbind_assoc tthen_assoc)

lemma grows_checkEach: "\<forall>m \<in> set ms. grows m \<Longrightarrow> (\<And>t. grows (chk t)) \<Longrightarrow> grows (checkEach chk ms)"
  by (induction ms) (auto intro!: grows_rules)

lemma refines_checkEach:
  assumes "list_all2 checks ms vs" and chk: "\<And>t. good t \<Longrightarrow> refines (chk t) (if P t then Some () else None)"
    and gchk: "\<And>t. grows (chk t)"
  shows "refines (checkEach chk ms) (Option.bind (those vs) (\<lambda>ts. if list_all P ts then Some ts else None))"
  using assms(1)
proof (induction rule: list_all2_induct)
  case Nil
  then show ?case by (simp add: refines_ret)
next
  case (Cons m ms v vs)
  note gr = grows_checkEach [OF checks_list_grows [OF Cons.hyps(2)], of chk, OF gchk]
  show ?case
    unfolding those_Cons checkEach.simps bind_assoc
  proof (rule refines_bind [OF checks_refines [OF Cons.hyps(1)]], goal_cases)
    case (2 x)
    then have "good x" using Cons.hyps(1) by (auto dest!: checks_good)
    then have x: "refines (chk x) (if P x then Some () else None)" by (rule chk)
    show ?case
    proof (cases "P x")
      case False
      with x gr show ?thesis
        by (auto simp: bind_eq_None_conv intro!: refines_then_None grows_rules split: Option.bind_split)
    next
      case True
      have "refines (tbind (checkEach chk ms) (\<lambda>ts. tret (x # ts)))
          (Option.bind (Option.bind (those vs) (\<lambda>ts. if list_all P ts then Some ts else None)) (\<lambda>ts. Some (x # ts)))"
        by (rule refines_bind [OF Cons.IH]) (auto intro!: grows_rules refines_ret)
      moreover have "Option.bind (Option.bind (those vs) (\<lambda>ts. if list_all P ts then Some ts else None)) (\<lambda>ts. Some (x # ts)) =
          Option.bind (those vs) (\<lambda>xs. Option.bind (Some (x # xs)) (\<lambda>ts. if list_all P ts then Some ts else None))"
        using True by (cases "those vs") auto
      ultimately show ?thesis using True x by (auto intro: refines_then_Some)
    qed
  qed (intro grows_rules gr gchk)
qed

lemma refines_callArgs:
  assumes "list_all2 checks ms vs"
  shows "refines (callArgs ms) (Option.bind (those vs) (\<lambda>ts. if list_all isSingleValue ts then Some ts else None))"
  unfolding callArgs_checkEach
proof (rule refines_checkEach [OF assms])
  fix t assume "good t"
  then show "refines (checkSingle t (tret ())) (if isSingleValue t then Some () else None)"
    using refines_checkSingle [of t "tret ()" "\<lambda>_. True"]
    by (auto simp: isSingleValue_iff refines_ret grows_basic split: option.splits)
qed (intro grows_rules)

lemma refines_mapArgs:
  assumes "list_all2 checks ms vs"
  shows "refines (mapArgs env ms) (Option.bind (those vs) (\<lambda>ts. if list_all actualOk ts then Some ts else None))"
  unfolding mapArgs_checkEach
proof (rule refines_checkEach [OF assms], goal_cases)
  case (1 t)
  let ?k = "tbind (tlift (isOpaque t)) (\<lambda>opaque. reportIf (\<not> (et_isTensor t \<or> opaque))
       (''expected argument to be a tensor or opaque but got an argument of type '' @ toString_et env t))"
  have "refines ?k (if (case x of CTensor _ \<Rightarrow> True | COpaque \<Rightarrow> True | _ \<Rightarrow> False) then Some () else None)"
    if "single t = Some x" for x
    using that by (auto simp: isOpaque_def single_iff et_isTensor_iff reportIf_def intro!: refines_ret refines_report
        split: c_type.split)
  then have "refines (checkSingle t ?k) (case single t of None \<Rightarrow> None
      | Some x \<Rightarrow> if (case x of CTensor _ \<Rightarrow> True | COpaque \<Rightarrow> True | _ \<Rightarrow> False) then Some () else None)"
    by (rule refines_checkSingle [OF 1]) (auto intro!: grows_rules)
  then show ?case by (auto simp: actualOk_def split: option.splits c_type.splits)
qed (intro grows_rules)

lemma refines_setReadIndices:
  assumes "list_all2 checks ms vs"
  shows "refines (setReadIndices env ms)
    (Option.bind (those vs) (\<lambda>ts. if list_all (isScalarType SC_INT) ts then Some () else None))"
proof -
  have "refines (setReadIndices env ms)
    (Option.bind (Option.bind (those vs) (\<lambda>ts. if list_all (isScalarType SC_INT) ts then Some ts else None)) (\<lambda>_. Some ()))"
    unfolding setReadIndices_checkEach
    by (rule refines_bind [OF refines_checkEach [OF assms]])
      (auto simp: good_defined reportIf_def intro!: refines_ret refines_report grows_rules)
  then show ?thesis by (cases "those vs") (auto split: if_splits)
qed

section \<open>Variables\<close>

lemma contains_get: "contains_scopes scs x \<longleftrightarrow> (\<exists>v. get_scopes scs x = Inr v)"
  by (induction scs) (auto split: option.split)

lemma hasSymbol_lookup: "hasSymbol env x = tret (lookup env x \<noteq> None)"
  by (auto simp: hasSymbol_def contains_symbol_def lookup_def get_symbol_def contains_get tlift_def tret_def
      split: sum.split)

lemma getSymbol_lookup: "lookup env x = Some v \<Longrightarrow> getSymbol env x = tret v"
  unfolding getSymbol_def hasSymbol_lookup
  by (auto simp: lookup_def split: sum.splits)

lemma env_ok_symbol: "env_ok env \<Longrightarrow> lookup env x = Some v \<Longrightarrow> \<exists>t acc. v = (Some t, acc) \<and> wf_type t"
  by (cases v) (auto simp: env_ok_def)

lemma env_ok_skip: "env_ok env \<Longrightarrow> \<not> skipCheckDeclared env"
  by (simp add: env_ok_def)

lemma refines_undeclared: "grows k \<Longrightarrow> refines (tthen (reportUndeclared a x) k) None"
  unfolding reportUndeclared_def by (rule refines_report_then)

lemma checks_var:
  assumes "env_ok env"
  shows "checks (visitVarExpr env x) (varType env x)"
proof (cases "lookup env x")
  case None
  then show ?thesis using env_ok_skip [OF assms]
    by (auto simp: checks_def visitVarExpr_def hasSymbol_lookup varType_def intro!: refines_undeclared grows_rules)
next
  case (Some v)
  then show ?thesis using env_ok_symbol [OF assms Some] getSymbol_lookup [OF Some]
    by (auto simp: checks_def visitVarExpr_def hasSymbol_lookup varType_def intro!: refines_ret)
qed

end
