(* ===== verification/Type_Check_Reads.thy ===== *)
theory Type_Check_Reads
  imports Type_Check_Operators
begin

text \<open>
  The checks of reads of tensors, sets, tuples and fields and of literals refine the reference typing of \<open>Typing\<close>. The
  index expressions of a tensor read are checked three times; each time they have to have the same types.
\<close>

section \<open>Tensor reads\<close>

lemma good_not_ivar: "good t \<Longrightarrow> \<not> isIndexVar t"
  by (auto simp: isIndexVar_def dest: good_single)

lemma grows_checkElementIndex [grows_rules]: "grows (checkElementIndex env s t)"
  unfolding checkElementIndex_def Let_def by (auto intro!: grows_rules split: option.split c_type.split)

lemma refines_elementIndex:
  "refines (checkElementIndex env s t)
    (if (case single t of Some (CElement e) \<Rightarrow> elementIndexOk env s e | _ \<Rightarrow> False) then Some () else None)"
  by (auto simp: checkElementIndex_def elementIndexOk_def getSetDefinition_def Let_def
      intro!: refines_ret refines_report refines_fail split: option.split c_type.split)

lemma grows_checkIndex [grows_rules]: "grows m \<Longrightarrow> grows (checkIndex env d m)"
  unfolding checkIndex_def by (auto intro!: grows_rules split: c_index_set.split generic_type.split)

lemma indexOk_single: "indexOk env s t \<Longrightarrow> isSingleValue t"
  by (auto simp: indexOk_def isScalarType_def isSingleValue_iff split: c_index_set.splits generic_type.splits option.splits)

lemma refines_checkIndex:
  assumes m: "checks m v" and "d \<noteq> []"
  shows "refines (checkIndex env d m) (Option.bind v (\<lambda>t. if indexOk env (hd d) t then Some () else None))"
  unfolding checkIndex_def
proof (rule refines_bind [OF checks_refines [OF m]], goal_cases)
  case (2 t)
  then have good: "good t" using m by (auto dest: checks_good)
  show ?case
  proof (cases "isSingleValue t")
    case False
    then show ?thesis using good indexOk_single [of env "hd d" t] by (auto simp: good_defined intro: refines_report)
  next
    case True
    then have "\<not> isVoid t" by (auto simp: isSingleValue_def isVoid_def)
    moreover have "nth_result d 0 = Inr (hd d)" using assms(2) by (cases d) auto
    ultimately show ?thesis
      using True good good_not_ivar [OF good] refines_elementIndex [of env "hd d" t]
      by (auto simp: good_defined indexOk_def reportIf_def
          intro!: refines_ret refines_report refines_fail split: c_index_set.split generic_type.split)
  qed
qed (auto intro!: grows_rules split: c_index_set.split generic_type.split)

text \<open>How the checks of read parameters relate to their types.\<close>

definition param :: "(bool \<Rightarrow> expr_type tc) option \<Rightarrow> expr_type option option \<Rightarrow> bool" where
  "param c v = (case c of None \<Rightarrow> v = Some None | Some m \<Rightarrow> \<exists>w. v = map_option Some w \<and> (\<forall>a. checks (m a) w))"

lemma param_cases:
  assumes "param c v"
  obtains "c = None" and "v = Some None"
    | m w where "c = Some m" and "v = map_option Some w" and "\<And>a. checks (m a) w"
  using assms by (auto simp: param_def split: option.splits)

definition growing :: "(bool \<Rightarrow> expr_type tc) option \<Rightarrow> bool" where
  "growing c = (\<forall>m a. c = Some m \<longrightarrow> grows (m a))"

lemma param_grow: "param c v \<Longrightarrow> growing c"
  by (auto elim!: param_cases simp: growing_def intro: checks_grows)

lemma param_growing: "list_all2 param cs vs \<Longrightarrow> list_all growing cs"
  by (induction rule: list_all2_induct) (auto dest: param_grow)

lemma grows_anyIndexVar: "list_all growing cs \<Longrightarrow> grows (anyIndexVar a cs)"
  by (induction a cs rule: anyIndexVar.induct) (auto simp: growing_def intro!: grows_rules)

lemma grows_inferNested: "list_all growing cs \<Longrightarrow> grows (inferNested cs)"
  by (induction cs rule: inferNested.induct) (auto simp: growing_def intro!: grows_rules)

lemma grows_readIndices: "list_all growing cs \<Longrightarrow> grows (readIndices env a ds cs)"
  by (induction env a ds cs rule: readIndices.induct) (auto simp: growing_def intro!: grows_rules)

lemma refines_anyIndexVar: "list_all2 param cs vs \<Longrightarrow> refines (anyIndexVar a cs) (map_option (\<lambda>_. False) (those vs))"
proof (induction rule: list_all2_induct)
  case (Cons c cs v vs)
  from Cons.hyps(1) show ?case
  proof (cases rule: param_cases)
    case 1
    then show ?thesis using Cons.IH by (cases "those vs") simp_all
  next
    case (2 m w)
    have "refines (tbind (m a) (\<lambda>t. if et_defined t \<and> isIndexVar t then tret True else anyIndexVar a cs))
        (Option.bind w (\<lambda>_. map_option (\<lambda>_. False) (those vs)))"
      using Cons.IH 2(3) [of a] grows_anyIndexVar [OF param_growing [OF Cons.hyps(2)], of a]
      by (intro refines_bind) (auto intro: checks_refines grows_rules dest!: checks_good good_not_ivar)
    then show ?thesis using 2(1,2) by (cases w; cases "those vs") simp_all
  qed
qed (simp add: refines_ret)

lemma refines_inferNested: "list_all2 param cs vs \<Longrightarrow> refines (inferNested cs) (map_option (\<lambda>_. ()) (those vs))"
proof (induction rule: list_all2_induct)
  case (Cons c cs v vs)
  from Cons.hyps(1) show ?case
  proof (cases rule: param_cases)
    case 1
    then show ?thesis using Cons.IH by (cases "those vs") simp_all
  next
    case (2 m w)
    have "refines (tbind (m False) (\<lambda>_. inferNested cs)) (Option.bind w (\<lambda>_. map_option (\<lambda>_. ()) (those vs)))"
      using Cons.IH 2(3) [of False] grows_inferNested [OF param_growing [OF Cons.hyps(2)]]
      by (intro refines_bind) (auto intro: checks_refines)
    then show ?thesis using 2(1,2) by (cases w; cases "those vs") simp_all
  qed
qed (simp add: refines_ret)

lemma indicesOk_Cons:
  "indicesOk env (d # ds) (i # is) \<longleftrightarrow>
     (case i of None \<Rightarrow> True | Some t \<Rightarrow> indexOk env (hd d) t) \<and> indicesOk env ds is"
  "sliced (d # ds) (i # is) = (if isSlice i then d # sliced ds is else sliced ds is)"
  by (simp_all add: indicesOk_def sliced_def)

lemma refines_readIndices:
  assumes "list_all2 param cs vs" and "length ds = length cs" and "\<forall>d \<in> set ds. d \<noteq> []"
  shows "refines (readIndices env a ds cs)
    (Option.bind (those vs) (\<lambda>ts. if indicesOk env ds ts then Some (sliced ds ts) else None))"
  using assms
proof (induction arbitrary: ds rule: list_all2_induct)
  case Nil
  then show ?case by (simp add: refines_ret indicesOk_def sliced_def)
next
  case (Cons c cs v vs)
  then obtain d ds' where ds: "ds = d # ds'" "length ds' = length cs" "d \<noteq> []" "\<forall>d \<in> set ds'. d \<noteq> []"
    by (cases ds) auto
  let ?rest = "Option.bind (those vs) (\<lambda>ts. if indicesOk env ds' ts then Some (sliced ds' ts) else None)"
  note IH = Cons.IH [OF ds(2,4)]
  note gr = grows_readIndices [OF param_growing [OF Cons.hyps(2)], of env a ds']
  from Cons.hyps(1) show ?case
  proof (cases rule: param_cases)
    case 1
    have "refines (tbind (readIndices env a ds' cs) (\<lambda>xs. tret (d # xs))) (Option.bind ?rest (\<lambda>xs. Some (d # xs)))"
      by (rule refines_bind [OF IH]) (auto intro!: grows_rules refines_ret)
    then show ?thesis using ds(1) 1
      by (cases "those vs") (auto simp: indicesOk_Cons isSlice_def)
  next
    case (2 m w)
    have "refines (tbind (checkIndex env d (m a)) (\<lambda>_. readIndices env a ds' cs))
        (Option.bind (Option.bind w (\<lambda>t. if indexOk env (hd d) t then Some () else None)) (\<lambda>_. ?rest))"
      using IH gr by (intro refines_bind [OF refines_checkIndex [OF 2(3) ds(3)]]) auto
    then show ?thesis using ds(1) 2
      by (cases w; cases "those vs") (auto simp: indicesOk_Cons isSlice_def tthen_def split: if_splits)
  qed
qed

lemma those_length: "those vs = Some ts \<Longrightarrow> length ts = length vs"
  by (simp add: those_Some_iff)

lemma param_slice:
  assumes "list_all2 param cs vs" and "those vs = Some ts" and "k < length cs"
  shows "isSlice (cs ! k) = isSlice (ts ! k)"
proof -
  have "param (cs ! k) (Some (ts ! k))"
    using assms list_all2_nthD [OF assms(1,3)] by (simp add: those_Some_iff list_all2_lengthD)
  then show ?thesis by (cases rule: param_cases) (auto simp: isSlice_def dest!: sym [of "Some _"])
qed

lemma wf_blockType: "wf_tensor (CND ss b tr) \<Longrightarrow> wf_tensor b"
  by (cases b) auto

lemma sliced_subset: "set (sliced ds is) \<subseteq> set ds"
  by (auto simp: sliced_def dest: set_zip_leftD)

lemma readShape_wf:
  assumes wf: "wf_tensor t" and "readShape t is = Some u"
  shows "wf_tensor u"
proof (cases t)
  case (CND ss b tr)
  have "hd (sliced (dims t) is) \<noteq> []" if "sliced (dims t) is \<noteq> []"
    using sliced_subset [of "dims t" "is"] that order_tlevels [of t] dims_length [of "hd (sliced (dims t) is)" t] CND
    by (cases "sliced (dims t) is") auto
  then show ?thesis using assms CND wf_blockType [of ss b tr]
    by (auto simp: Let_def intro!: wf_of_dims split: if_splits)
qed (use assms in simp)

lemma readType_readShape:
  assumes wf: "wf_tensor t" and cs: "list_all2 param cs vs" and ts: "those vs = Some ts"
  shows "readShape t ts = Some u \<Longrightarrow> readType t acc cs (sliced (dims t) ts) = Inr (exprType [CTensor u] acc)"
    and "readShape t ts = None \<Longrightarrow> \<exists>e. readType t acc cs (sliced (dims t) ts) = Inl e"
proof -
  have len: "length ts = length cs" using those_length [OF ts] list_all2_lengthD [OF cs] by simp
  have make: "makeTensorType c (sliced (dims t) ts) x = Inr (of_dims c (sliced (dims t) ts) x)"
    if "0 < tensor_getOrder t" for c x
    using sliced_subset [of "dims t" ts] that order_tlevels [of t]
    by (intro makeTensorType_ok [of _ "length (tlevels t)"]) (auto dest: dims_length)
  show "readType t acc cs (sliced (dims t) ts) = Inr (exprType [CTensor u] acc)" if "readShape t ts = Some u"
    using that make wf len param_slice [OF cs ts] getDimensions_wf [OF wf_blockType]
    by (cases t) (auto simp: readType_def Let_def split: if_splits)
  show "\<exists>e. readType t acc cs (sliced (dims t) ts) = Inl e" if "readShape t ts = None"
    using that wf len getDimensions_wf [OF wf_blockType]
    by (cases t) (auto simp: readType_def Let_def split: if_splits)
qed

lemma indicesOk_length: "indicesOk env ds ts \<Longrightarrow> length ts = length ds"
  by (simp add: indicesOk_def list_all2_lengthD)

lemma grows_readTensor: "list_all growing cs \<Longrightarrow> grows (readTensor env a t cs)"
  unfolding readTensor_def Let_def
  by (intro grows_rules grows_anyIndexVar grows_inferNested grows_readIndices)

lemma refines_readTensor:
  assumes good: "good t" and cs: "list_all2 param cs vs"
  shows "refines (readTensor env a t cs) (Option.bind (those vs) (\<lambda>ts. tensorRead env t ts))"
proof (cases "tensorOf t")
  case None
  then have "\<not> et_isTensor t" by (auto simp: et_isTensor_iff simp flip: tensorOf_iff)
  moreover have "Option.bind (those vs) (\<lambda>ts. tensorRead env t ts) = None"
    using None by (cases "those vs") (simp_all add: tensorRead_def)
  ultimately show ?thesis by (simp add: readTensor_def refines_report_then grows_rules)
next
  case (Some x)
  note tensor = tensorOf_good [OF good Some]
  have gr: "list_all growing cs" using cs by (rule param_growing)
  show ?thesis
  proof (cases "length cs = length (dims x)")
    case False
    then have "Option.bind (those vs) (\<lambda>ts. tensorRead env t ts) = None"
      using list_all2_lengthD [OF cs] indicesOk_length [of env "dims x"] those_length [of vs]
      by (cases "those vs") (auto simp: tensorRead_def Some)
    then show ?thesis using tensor False
      by (simp add: readTensor_def getDimensions_wf refines_report_then grows_rules)
  next
    case True
    let ?read = "tbind (readIndices env a (dims x) cs) (\<lambda>retDimensions. tlift (readType x (et_access t) cs retDimensions))"
    have ne: "\<forall>d \<in> set (dims x). d \<noteq> []" by (auto simp: in_set_conv_nth dims_nonempty)
    have read: "refines ?read (tensorRead env t ts)" if ts: "those vs = Some ts" for ts
    proof -
      have "refines (tlift (readType x (et_access t) cs (sliced (dims x) ts)))
          (map_option (\<lambda>u. exprType [CTensor u] (et_access t)) (readShape x ts))"
      proof (cases "readShape x ts")
        case None
        then obtain e where "readType x (et_access t) cs (sliced (dims x) ts) = Inl e"
          using readType_readShape(2) [of x, OF _ cs ts] tensor by blast
        then show ?thesis using None by (simp add: refines_fail)
      next
        case (Some u)
        then show ?thesis using readType_readShape(1) [of x, OF _ cs ts Some] tensor by (simp add: refines_ret)
      qed
      then have "refines ?read (Option.bind (if indicesOk env (dims x) ts then Some (sliced (dims x) ts) else None)
          (\<lambda>_. map_option (\<lambda>u. exprType [CTensor u] (et_access t)) (readShape x ts)))"
        using refines_readIndices [OF cs _ ne, of env a] True ts
        by (intro refines_bind) (auto intro!: grows_rules split: if_splits)
      then show ?thesis by (simp add: tensorRead_def Some split: if_splits)
    qed
    have eq: "readTensor env a t cs = tbind (anyIndexVar a cs) (\<lambda>hasIndex.
          tthen (\<lambda>s. Inr ((), s\<lparr>hasIndexExpr := hasIndexExpr s \<or> hasIndex\<rparr>))
          (if hasIndex \<and> \<not> a then
             tthen (report ''Index expression is not allowed in non-assignment'') (tret (undefType (et_access t)))
           else if hasIndex \<and> \<not> list_all (\<lambda>i. \<not> isSlice i) cs then
             tthen (report ''Cannot mix index expression and slice: '') (tret (undefType (et_access t)))
           else tthen (inferNested cs) ?read))"
      using tensor True by (simp add: readTensor_def getDimensions_wf Let_def)
    note growths = grows_rules grows_inferNested [OF gr] grows_readIndices [OF gr]
    show ?thesis
    proof (cases "those vs")
      case None
      then show ?thesis unfolding eq using refines_anyIndexVar [OF cs, of a]
        by (auto intro!: refines_bind_None growths)
    next
      case (Some ts)
      have "refines (tthen (inferNested cs) ?read) (tensorRead env t ts)"
        using refines_inferNested [OF cs] Some read [OF Some] by (auto intro: refines_then_Some)
      then have "refines (tthen (\<lambda>s. Inr ((), s\<lparr>hasIndexExpr := hasIndexExpr s \<or> False\<rparr>))
          (tthen (inferNested cs) ?read)) (tensorRead env t ts)"
        by (rule refines_then_Some [OF refines_sameIndex])
      then show ?thesis unfolding eq using refines_anyIndexVar [OF cs, of a] Some
        by (intro refines_bind_Some [of _ False]) (auto intro!: growths)
    qed
  qed
qed

lemma checks_tensorRead:
  assumes ok: "env_ok env" and tensor: "\<And>a. checks (m a) v" and cs: "list_all2 param cs vs"
    and var: "\<And>x. tensorVar = Some x \<Longrightarrow> v = varType env x"
  shows "checks (visitTensorReadExpr env a tensorVar m cs)
    (Option.bind v (\<lambda>t. Option.bind (those vs) (\<lambda>ts. tensorRead env t ts)))"
proof (rule checksI)
  have gr: "list_all growing cs" using cs by (rule param_growing)
  show "refines (visitTensorReadExpr env a tensorVar m cs)
    (Option.bind v (\<lambda>t. Option.bind (those vs) (\<lambda>ts. tensorRead env t ts)))"
  proof (cases "if list_all (\<lambda>i. \<not> isSlice i) cs then tensorVar else None")
    case None
    have "refines (if \<not> et_defined t then tret (undefType (et_access t)) else readTensor env a t cs)
        (Option.bind (those vs) (\<lambda>ts. tensorRead env t ts))" if "v = Some t" for t
      using tensor [of a] that refines_readTensor [OF _ cs] by (auto dest!: checks_good simp: good_defined)
    then show ?thesis unfolding visitTensorReadExpr_def None option.case
      using checks_refines [OF tensor [of a]] grows_readTensor [OF gr] by (intro refines_bind) (auto intro!: grows_rules)
  next
    case (Some x)
    then have v: "v = varType env x" using var by (auto split: if_splits)
    show ?thesis
    proof (cases "lookup env x")
      case None
      then show ?thesis using env_ok_skip [OF ok] v
        by (auto simp: visitTensorReadExpr_def Some hasSymbol_lookup varType_def intro!: refines_undeclared grows_rules)
    next
      case (Some w)
      then obtain t acc where "lookup env x = Some (Some t, acc)" "wf_type t"
        using env_ok_symbol [OF ok Some] by auto
      then show ?thesis
        using refines_readTensor [of "exprType [t] acc", OF _ cs] getSymbol_lookup [of env x] v
          \<open>(if list_all (\<lambda>i. \<not> isSlice i) cs then tensorVar else None) = Some x\<close>
        by (simp add: visitTensorReadExpr_def hasSymbol_lookup varType_def)
    qed
  qed
next
  fix t assume "Option.bind v (\<lambda>t. Option.bind (those vs) (\<lambda>ts. tensorRead env t ts)) = Some t"
  then show "good t" using tensor [of a]
    by (auto simp: bind_eq_Some_conv tensorRead_def split: if_splits dest!: checks_good tensorOf_good intro: readShape_wf)
qed

section \<open>Sets, tuples, fields and literals\<close>

lemma grows_setReadIndices: "\<forall>m \<in> set ms. grows m \<Longrightarrow> grows (setReadIndices env ms)"
  by (induction ms) (auto intro!: grows_rules)

lemma grows_setAccess [grows_rules]: "grows (setAccess env t n)"
  unfolding setAccess_def Let_def by (auto intro!: grows_rules split: option.split c_type.split set_shape.split)

lemma refines_setAccess:
  assumes "good t"
  shows "refines (setAccess env t n) (setElement env t n)"
proof (cases "single t")
  case None
  then show ?thesis using assms
    by (auto simp: setAccess_def Let_def setElement_def good_defined isSingleValue_iff intro!: refines_report_then grows_rules)
next
  case (Some x)
  then have "\<not> isVoid t" "isSingleValue t" by (auto simp: isVoid_def single_iff isSingleValue_iff)
  then show ?thesis using assms Some
    by (auto simp: setAccess_def Let_def setElement_def good_defined reportIf_def
        intro!: refines_ret refines_report_then refines_then_None refines_fail grows_rules
        split: c_type.split set_shape.split)
qed

lemma checks_setRead:
  assumes m: "checks m v" and ms: "list_all2 checks ms vs"
  shows "checks (visitSetReadExpr env m ms) (Option.bind v (\<lambda>t. Option.bind (those vs) (\<lambda>ts. setRead env t ts)))"
proof (rule checksI)
  have gr: "grows (setReadIndices env ms)" using checks_list_grows [OF ms] by (rule grows_setReadIndices)
  have len: "length ts = length ms" if "those vs = Some ts" for ts
    using that ms by (auto simp: those_Some_iff dest: list_all2_lengthD)
  show "refines (visitSetReadExpr env m ms) (Option.bind v (\<lambda>t. Option.bind (those vs) (\<lambda>ts. setRead env t ts)))"
    unfolding visitSetReadExpr_def tthen_def
  proof (rule refines_bind [OF checks_refines [OF m]], goal_cases)
    case (2 t)
    then have good: "good t" using m by (auto dest: checks_good)
    have "refines (tbind (setReadIndices env ms) (\<lambda>_. setAccess env t (length ms)))
        (Option.bind (Option.bind (those vs) (\<lambda>ts. if list_all (isScalarType SC_INT) ts then Some () else None))
          (\<lambda>_. setElement env t (length ms)))"
      using refines_setAccess [OF good] by (intro refines_bind [OF refines_setReadIndices [OF ms]]) (auto intro: grows_rules)
    then show ?case by (cases "those vs") (auto simp: setRead_def len split: if_splits)
  qed (intro grows_rules gr)
qed (auto simp: bind_eq_Some_conv setRead_def setElement_def split: if_splits option.splits c_type.splits)

lemma namedRead_good:
  assumes "namedRead t name = Some u"
  shows "good u"
proof (cases "single t")
  case (Some x)
  then show ?thesis using assms by (cases x) (auto simp: namedRead_def)
qed (use assms in \<open>simp add: namedRead_def\<close>)

lemma unnamedRead_good:
  assumes "unnamedRead t it = Some u"
  shows "good u"
proof (cases "single t")
  case (Some x)
  then show ?thesis using assms by (cases x) (auto simp: unnamedRead_def split: if_splits)
qed (use assms in \<open>simp add: unnamedRead_def\<close>)

lemma checks_namedRead:
  assumes m: "checks m v"
  shows "checks (visitNamedTupleReadExpr env m name) (Option.bind v (\<lambda>t. namedRead t name))"
proof (rule checksI)
  show "refines (visitNamedTupleReadExpr env m name) (Option.bind v (\<lambda>t. namedRead t name))"
    unfolding visitNamedTupleReadExpr_def Let_def
  proof (rule refines_bind [OF checks_refines [OF m]], goal_cases)
    case (2 t)
    then have "et_defined t" using m by (auto dest!: checks_good simp: good_defined)
    then show ?case
      by (auto simp: namedRead_def intro!: refines_ret refines_report_then refines_fail grows_rules
          split: option.split c_type.split)
  qed (auto intro!: grows_rules split: option.split c_type.split)
qed (auto simp: bind_eq_Some_conv dest: namedRead_good)

lemma checks_unnamedRead:
  assumes m: "checks m v" and i: "checks i w"
  shows "checks (visitUnnamedTupleReadExpr env m i) (Option.bind v (\<lambda>t. Option.bind w (\<lambda>it. unnamedRead t it)))"
proof (rule checksI)
  show "refines (visitUnnamedTupleReadExpr env m i) (Option.bind v (\<lambda>t. Option.bind w (\<lambda>it. unnamedRead t it)))"
    unfolding visitUnnamedTupleReadExpr_def Let_def
  proof (rule refines_bind [OF checks_refines [OF m]], goal_cases)
    case (2 t)
    show ?case
    proof (rule refines_bind [OF checks_refines [OF i]], goal_cases)
      case (2 it)
      have "et_defined t" "et_defined it" using m i 2 \<open>v = Some t\<close> by (auto dest!: checks_good simp: good_defined)
      then show ?case
        by (auto simp: unnamedRead_def reportIf_def intro!: refines_ret refines_report_then refines_fail grows_rules
            split: option.split c_type.split)
    qed (auto intro!: grows_rules split: option.split c_type.split)
  qed (auto intro!: grows_rules checks_grows [OF i] split: option.split c_type.split)
qed (auto simp: bind_eq_Some_conv dest: unnamedRead_good)

lemma env_ok_field: "env_ok env \<Longrightarrow> env_elements env e = Some fs \<Longrightarrow> fs f = Some t \<Longrightarrow> \<exists>u. t = Some u \<and> wf_tensor u"
  by (auto simp: env_ok_def)

lemma field_type_wf: "env_ok env \<Longrightarrow> field_type env e f = Some t \<Longrightarrow> wf_tensor t"
  by (auto simp: field_type_def bind_eq_Some_conv dest: env_ok_field)

lemma wf_setField: "wf_tensor t \<Longrightarrow> tensor_getOrder t \<le> 1 \<Longrightarrow> wf_tensor (CND [s] t (getTransposed t))"
  by (cases t) (auto simp: le_Suc_eq)

lemma fieldOf_cases:
  assumes "env_ok env"
  obtains err where "fieldOf env e f = Inl err" and "field_type env e f = None"
    | "fieldOf env e f = Inr None" and "field_type env e f = None"
    | t where "fieldOf env e f = Inr (Some (Some t))" and "field_type env e f = Some t" and "wf_tensor t"
proof (cases "env_elements env (elem_ident e)")
  case (Some fs)
  then show ?thesis using that env_ok_field [OF assms Some, of f]
    by (cases "fs f") (auto simp: fieldOf_def field_type_def)
qed (auto simp: fieldOf_def field_type_def intro: that)

lemma grows_fieldAccess [grows_rules]: "grows (fieldAccess var acc type t)"
  unfolding fieldAccess_def by (auto intro!: grows_rules split: c_type.split option.split)

definition fieldResult :: "string option \<Rightarrow> Access \<Rightarrow> c_type \<Rightarrow> c_tensor \<Rightarrow> expr_type option" where
  "fieldResult var acc type t =
     (case type of
        CSetType a \<Rightarrow>
          Option.bind var (\<lambda>x.
          if length (dims t) \<le> 1
          then Some (exprType [CTensor (CND [CSet x (Some a)] t (getTransposed t))] acc) else None)
      | _ \<Rightarrow> Some (exprType [CTensor t] acc))"

lemma fieldResult_good: "fieldResult var acc type t = Some u \<Longrightarrow> wf_tensor t \<Longrightarrow> good u"
  by (cases type) (auto simp: fieldResult_def bind_eq_Some_conv simp del: wf_tensor.simps split: if_splits intro!: wf_setField)

lemma fieldRead_alt:
  "fieldRead env var lt f =
     Option.bind (single lt) (\<lambda>x. Option.bind (elementOf env x) (\<lambda>e.
     Option.bind (field_type env e f) (\<lambda>t. fieldResult var (et_access lt) x t)))"
  by (auto simp: fieldRead_def fieldResult_def map_option_case split: option.split c_type.split Option.bind_split)

lemma refines_fieldAccess: "wf_tensor t \<Longrightarrow> refines (fieldAccess var acc type t) (fieldResult var acc type t)"
  by (auto simp: fieldAccess_def fieldResult_def getDimensions_wf
      intro!: refines_ret refines_report_then refines_fail grows_rules split: c_type.split option.split Option.bind_split)

lemma checks_fieldRead:
  assumes ok: "env_ok env" and m: "checks m v"
  shows "checks (visitFieldReadExpr env var m f) (Option.bind v (\<lambda>t. fieldRead env var t f))"
proof (rule checksI)
  show "refines (visitFieldReadExpr env var m f) (Option.bind v (\<lambda>t. fieldRead env var t f))"
    unfolding visitFieldReadExpr_def Let_def
  proof (rule refines_bind [OF checks_refines [OF m]], goal_cases)
    case (2 t)
    then have good: "good t" using m by (auto dest: checks_good)
    show ?case
    proof (cases "single t")
      case None
      then show ?thesis using good
        by (auto simp: fieldRead_alt good_defined isSingleValue_iff intro!: refines_report_then grows_rules)
    next
      case (Some x)
      then have x: "\<not> isVoid t" "isSingleValue t" "nth_result (et_types t) 0 = Inr x"
        by (auto simp: isVoid_def single_iff isSingleValue_iff)
      show ?thesis
      proof (cases "elementOf env x")
        case None
        then show ?thesis using x good Some
          by (simp add: fieldRead_alt good_defined refines_report_then grows_rules)
      next
        case (Some e)
        from ok show ?thesis
          by (cases rule: fieldOf_cases [of env e f])
            (use x good Some \<open>single t = Some x\<close> in \<open>simp_all add: fieldRead_alt good_defined refines_fail
              refines_report_then grows_rules refines_fieldAccess\<close>)
      qed
    qed
  qed (auto intro!: grows_rules split: option.split)
next
  fix t assume "Option.bind v (\<lambda>t. fieldRead env var t f) = Some t"
  then show "good t"
    by (auto simp: bind_eq_Some_conv fieldRead_alt dest!: field_type_wf [OF ok] dest: fieldResult_good)
qed

lemma getDense_dims: "getDenseTensorType l = DenseOk t \<Longrightarrow> dimSizes t \<noteq> []"
proof (induction l arbitrary: t)
  case (NDTensorLiteral ls tr)
  have merge: "mergeAll u rs = DenseOk t \<Longrightarrow> dimSizes u \<noteq> [] \<Longrightarrow> dimSizes t \<noteq> []" for u rs t
    by (induction u rs rule: mergeAll.induct) (auto simp: dense_merge_def split: dense_result.splits if_splits)
  show ?case using NDTensorLiteral.prems
    by (auto split: if_splits list.splits dense_result.splits dest!: merge)
qed (auto simp: addValues_def split: if_splits)

lemma checks_literal: "checks (typeCheckDenseTensorLiteral l) (literalType l)"
proof (rule checksI)
  show "refines (typeCheckDenseTensorLiteral l) (literalType l)"
    by (auto simp: typeCheckDenseTensorLiteral_def literalType_def intro!: refines_ret refines_report_then refines_fail grows_rules
        split: dense_result.split sum.split error.split)
next
  fix t assume "literalType l = Some t"
  then show "good t"
    by (auto simp: literalType_def split: dense_result.splits sum.splits dest!: getDense_dims)
qed

end
