(* ===== verification/Type_Check_Correct.thy ===== *)
theory Type_Check_Correct
  imports Type_Check_Reads
begin

text \<open>
  Calls and maps refine the reference typing, and with the operators and reads every expression does: the checker
  accepts an expression, that is reports no error, exactly if it has a type, which is the type returned and is well
  formed.
\<close>

section \<open>Arguments\<close>

definition argument :: "expr_type \<Rightarrow> bool" where
  "argument t \<longleftrightarrow> et_defined t \<and> isSingleValue t"

lemma argument_single: "argument t \<Longrightarrow> \<exists>x. single t = Some x"
  by (simp add: argument_def isSingleValue_iff)

lemma compareTypes_null [simp]: "compareTypes sets x None b = Inr False"
  by (cases x) simp_all

lemma grows_callArgTypes [grows_rules]: "grows (callArgTypes env ts as)"
  by (induction env ts as rule: callArgTypes.induct) (auto intro!: grows_rules split: option.split)

lemma grows_mapArgTypes [grows_rules]: "grows (mapArgTypes env op f ts as)"
  by (induction env op f ts as rule: mapArgTypes.induct) (auto intro!: grows_rules split: option.split)

text \<open>Both loops over the arguments run a step per argument that accepts what \<open>argOk\<close> describes.\<close>

lemma refines_argument:
  assumes "argument t" and x: "single t = Some x" and wrong: "refines wrong None"
  shows "refines
    (tbind (tlift (compareTypes (env_sets env) x (snd a) False)) (\<lambda>same.
      tthen (if same then tret () else wrong) (reportIf (fst a \<and> \<not> isWritable t) m)))
    (if argOk env t a then Some () else None)"
proof (cases "compareTypes (env_sets env) x (snd a) False")
  case (Inl e)
  then show ?thesis using x by (simp add: argOk_def refines_fail)
next
  case (Inr same)
  then show ?thesis using x wrong
    by (cases same) (auto simp: argOk_def reportIf_def intro!: refines_ret refines_report refines_then_None grows_rules)
qed

lemma refines_callArgTypes:
  assumes "length ts = length as" and "list_all argument ts"
  shows "refines (callArgTypes env ts as) (if list_all2 (argOk env) ts as then Some () else None)"
  using assms
proof (induction env ts as rule: callArgTypes.induct)
  case (1 env t ts a as)
  then obtain x where x: "single t = Some x" and t: "argument t" by (auto dest: argument_single)
  have wrong: "refines (case snd a of None \<Rightarrow> tfail (InternalError ''funcArg->type != nullptr'')
      | Some expected \<Rightarrow> report (''expected argument of type '' @ toString_type (env_sets env) expected True @
          '' but got an argument of type '' @ toString_et env t)) None"
    by (auto intro: refines_fail refines_report split: option.split)
  note step = refines_argument [OF t x wrong, of env a "''inout argument must be writable''"]
  have IH: "refines (callArgTypes env ts as) (if list_all2 (argOk env) ts as then Some () else None)"
    using 1 by simp
  show ?case using t x step IH
    by (auto simp: argument_def intro: refines_then_Some refines_then_None grows_rules split: if_splits)
qed (auto simp: refines_ret)

lemma refines_mapArgTypes:
  assumes "length ts = length as" and "list_all argument ts"
  shows "refines (mapArgTypes env op f ts as) (if list_all2 (argOk env) ts as then Some () else None)"
  using assms
proof (induction env op f ts as rule: mapArgTypes.induct)
  case (1 env op f t ts a as)
  then obtain x where x: "single t = Some x" and t: "argument t" by (auto dest: argument_single)
  have wrong: "refines (tbind (tlift (toString_null (env_sets env) (snd a))) (\<lambda>expected.
      report (op @ '' operation passes argument of type '' @ toString_type (env_sets env) x True @
        '' to assembly function '' @ quote f @ '' but function expects argument of type '' @ expected))) None"
    by (intro refines_lift_None refines_report)
  note step = refines_argument [OF t x wrong, of env a "''inout argument must be writable''"]
  have IH: "refines (mapArgTypes env op f ts as) (if list_all2 (argOk env) ts as then Some () else None)"
    using 1 by simp
  show ?case using t x step IH
    by (auto simp: argument_def intro: refines_then_Some refines_then_None grows_rules split: if_splits)
qed (auto simp: refines_ret)

text \<open>A check without a result accepts a condition.\<close>

definition accepts :: "unit tc \<Rightarrow> bool \<Rightarrow> bool" where
  "accepts m P \<longleftrightarrow> refines m (if P then Some () else None)"

lemma accepts_seq:
  assumes "accepts m P" and "P \<Longrightarrow> accepts k Q" and "grows k"
  shows "accepts (tthen m k) (P \<and> Q)"
  using assms by (auto simp: accepts_def intro: refines_then_Some refines_then_None split: if_splits)

lemma accepts_fail: "\<not> P \<Longrightarrow> accepts (tfail e) P"
  by (simp add: accepts_def refines_fail)

lemma accepts_reportIf: "P = (\<not> c) \<Longrightarrow> accepts (reportIf c m) P"
  using refines_reportIf [of c m] by (cases c) (simp_all add: accepts_def)

lemma accepts_order:
  assumes "argument t"
  shows "accepts (typeCheckOrder env t n) (orderOk n t)"
proof -
  obtain x where x: "single t = Some x" using argument_single [OF assms] by blast
  then have ty: "et_types t = [x]" by (simp add: single_iff)
  show ?thesis
  proof (cases x)
    case (CTensor y)
    have "numeric t = (if isNumericTensor t then Some y else None)"
      using x CTensor by (simp add: numeric_def isNumericTensor_def)
    then have "orderOk n t = (\<not> (\<not> isNumericTensor t \<or> tensor_getOrder y \<noteq> n))" by (simp add: orderOk_def)
    moreover have "toTensor t = Inr y" using x CTensor by (simp add: toTensor_eq)
    ultimately show ?thesis
      by (simp only: typeCheckOrder_def tbind_simps) (rule accepts_reportIf, rule refl)
  qed (use x ty in \<open>auto simp: typeCheckOrder_def toTensor_def orderOk_def numeric_def intro: accepts_fail\<close>)
qed

lemma accepts_opaque:
  assumes "argument t"
  shows "accepts (typeCheckIsOpaque env t) (single t = Some COpaque)"
  using argument_single [OF assms]
  by (auto simp: typeCheckIsOpaque_def isOpaque_def single_iff intro: accepts_reportIf)

lemma grows_order [grows_rules]: "grows (typeCheckOrder env t n)" "grows (typeCheckIsOpaque env t)"
  unfolding typeCheckOrder_def typeCheckIsOpaque_def by (intro grows_rules)+

lemma accepts_argCount: "(length ts = n \<Longrightarrow> accepts k P) \<Longrightarrow> accepts (argCount n ts m k) (length ts = n \<and> P)"
  by (cases "length ts = n") (simp_all add: argCount_def accepts_fail)

lemma accepts_dot:
  assumes "argument l" and "argument r"
  shows "accepts
    (tbind (tlift (nth_result (et_types l) 0)) (\<lambda>x. tbind (tlift (nth_result (et_types r) 0)) (\<lambda>y.
     tbind (tlift (compareTypes (env_sets env) x (Some y) True)) (\<lambda>same. reportIf (\<not> same) m))))
    (case (single l, single r) of (Some x, Some y) \<Rightarrow> compareTypes (env_sets env) x (Some y) True = Inr True | _ \<Rightarrow> False)"
proof -
  obtain x y where xy: "single l = Some x" "single r = Some y"
    using argument_single [OF assms(1)] argument_single [OF assms(2)] by blast
  then have "et_types l = [x]" "et_types r = [y]" by (simp_all add: single_iff)
  then show ?thesis using xy
    by (cases "compareTypes (env_sets env) x (Some y) True") (simp_all add: accepts_fail accepts_reportIf)
qed

lemma grows_typeCheckArguments [grows_rules]: "grows (typeCheckArguments env f ts sig)"
  unfolding typeCheckArguments_def argCount_def by (intro grows_rules)

lemma accepts_if: "(c \<Longrightarrow> accepts a P) \<Longrightarrow> (\<not> c \<Longrightarrow> accepts b Q) \<Longrightarrow> accepts (if c then a else b) (if c then P else Q)"
  by simp

lemma accepts_typeCheckArguments:
  assumes "length ts = length (sig_args sig)" and "list_all argument ts"
  shows "accepts (typeCheckArguments env f ts sig) (callOk env f ts sig)"
proof -
  have nth: "argument (ts ! i)" if "i < length ts" for i using assms(2) that by (simp add: list_all_length)
  have args: "accepts (callArgTypes env ts (sig_args sig)) (list_all2 (argOk env) ts (sig_args sig))"
    unfolding accepts_def by (rule refines_callArgTypes [OF assms])
  show ?thesis
    unfolding typeCheckArguments_def callOk_def
    by (intro accepts_if accepts_argCount accepts_seq accepts_order accepts_opaque accepts_dot args grows_rules nth) simp_all
qed

section \<open>Calls\<close>

lemma accepts_visitIndexSet:
  assumes "env_ok env"
  shows "accepts (visitIndexSet env s) (setOk env s)"
proof (cases s)
  case (CSet n d)
  show ?thesis
  proof (cases "lookup env n")
    case None
    then show ?thesis using CSet
      by (simp add: visitSetIndexSet_def hasSymbol_lookup reportUndeclared_def accepts_def refines_report)
  next
    case (Some v)
    then obtain t acc where t: "lookup env n = Some (Some t, acc)" using env_ok_symbol [OF assms Some] by auto
    show ?thesis using CSet getSymbol_lookup [OF t] t
      by (cases t) (auto simp: visitSetIndexSet_def hasSymbol_lookup toString_null_def accepts_def
          intro: refines_report refines_ret)
  qed
qed (simp_all add: accepts_def refines_ret)

lemma grows_visitSetIndexSet [grows_rules]: "grows (visitSetIndexSet env s)"
  unfolding visitSetIndexSet_def hasSymbol_def getSymbol_def by (auto intro!: grows_rules split: prod.split)

lemma grows_visitIndexSet [grows_rules]: "grows (visitIndexSet env s)"
  by (cases s) (auto intro!: grows_rules)

lemma grows_checkGenericArgs [grows_rules]: "grows (checkGenericArgs env gs)"
  by (induction gs) (auto intro!: grows_rules)

lemma refines_checkGenericArgs:
  assumes "env_ok env"
  shows "\<exists>P. accepts (checkGenericArgs env gs) P"
proof (induction gs)
  case Nil
  then show ?case by (auto simp: accepts_def intro!: exI [of _ True] refines_ret)
next
  case (Cons g gs)
  then obtain P where P: "accepts (checkGenericArgs env gs) P" by blast
  let ?s = "resolveIndexSet env g"
  have "refines (typeCheck (visitIndexSet env ?s)) (map_option (\<lambda>_. True) (if setOk env ?s then Some () else None))"
    using accepts_visitIndexSet [OF assms, of ?s] unfolding accepts_def by (rule refines_typeCheck)
  then have "accepts (checkGenericArgs env (g # gs)) (setOk env ?s \<and> P)"
    using P unfolding accepts_def checkGenericArgs.simps
    by (auto intro: refines_bind_Some refines_bind_None grows_rules split: if_splits)
  then show ?case by blast
qed

lemma env_ok_func: "env_ok env \<Longrightarrow> env_funcs env f = Some s \<Longrightarrow> \<exists>g. s = Some g \<and> list_all wf_type (sig_results g)"
  by (auto simp: env_ok_def)

lemma accepts_then_None: "accepts m P \<Longrightarrow> refines k None \<Longrightarrow> refines (tthen m k) None"
  by (auto simp: accepts_def intro: refines_then_Some refines_then_None refines_grows split: if_splits)

lemma refines_checked:
  assumes "accepts m P" and "grows m"
  shows "refines (tbind getChecked (\<lambda>checked. tthen (if \<not> checked then tret () else m) (tret x))) (if P then Some x else None)"
proof (rule refines_bind_Some [OF refines_getChecked])
  show "refines (tthen (if \<not> True then tret () else m) (tret x)) (if P then Some x else None)"
    using assms by (auto simp: accepts_def intro: refines_then_Some refines_then_None refines_ret grows_rules)
qed (use assms in \<open>intro grows_rules\<close>)

lemma refines_guards:
  assumes "\<not> c \<Longrightarrow> \<not> d \<Longrightarrow> \<not> g \<Longrightarrow> refines k v" and "grows k"
  shows "refines (tthen (reportIf c a) (tthen (reportIf d b) (if g then tfail e else k))) (if c \<or> d \<or> g then None else v)"
  using assms
  by (cases c; cases d; cases g) (auto intro!: refines_report_then refines_fail grows_rules)

lemma good_arguments:
  assumes "list_all2 checks ms vs" and "those vs = Some ts" and "list_all isSingleValue ts"
  shows "list_all argument ts" "length ts = length ms"
proof -
  have "list_all2 (\<lambda>m t. good t) ms ts" using assms(1,2)
    by (fastforce simp: those_Some_iff list_all2_conv_all_nth dest: checks_good)
  then show "list_all argument ts" "length ts = length ms" using assms(3)
    by (auto simp: list_all2_conv_all_nth list_all_length argument_def good_defined)
qed

lemma refines_call:
  assumes ok: "env_ok env" and ms: "list_all2 checks ms vs"
  shows "refines (visitCallExpr env f gs ms) (Option.bind (those vs) (callType env f gs))"
proof -
  let ?body = "\<lambda>ts. case env_funcs env f of
        None \<Rightarrow> tthen (reportUndeclared ''function'' f) (tret (undefType ACC_NONE))
      | Some None \<Rightarrow> tret (undefType ACC_NONE)
      | Some (Some func) \<Rightarrow>
          let funcName = if originalName func \<noteq> [] then originalName func else f in
          tthen (reportIf (length gs > sig_generics func)
            (''passed in '' @ int_to_string (int (length gs)) @ '' generic arguments but function '' @
             quote funcName @ '' expects at most '' @ int_to_string (int (sig_generics func))))
          (tthen (reportIf (length ms \<noteq> length (sig_args func))
            (''passed in '' @ int_to_string (int (length ms)) @ '' arguments but function '' @ quote funcName @
             '' expects '' @ int_to_string (int (length (sig_args func)))))
          (if sig_generics func \<noteq> 0 then tfail genericCall
           else
             tbind getChecked (\<lambda>checked.
             tthen (if \<not> checked then tret () else typeCheckArguments env funcName ts func)
             (tret (exprType (sig_results func) ACC_READ)))))"
  have gbody: "grows (?body ts)" for ts
    by (auto intro!: grows_rules simp: Let_def split: option.split)
  have body: "refines (?body ts) (callType env f gs ts)"
    if ts: "those vs = Some ts" and single: "list_all isSingleValue ts" for ts
  proof (cases "env_funcs env f")
    case None
    then show ?thesis by (auto simp: callType_def intro!: refines_undeclared grows_rules)
  next
    case (Some s)
    then obtain sig where sig: "s = Some sig" using env_ok_func [OF ok] by blast
    let ?n = "if originalName sig \<noteq> [] then originalName sig else f"
    note args = good_arguments [OF ms ts single]
    have check: "refines (tbind getChecked (\<lambda>checked. tthen (if \<not> checked then tret () else typeCheckArguments env ?n ts sig)
        (tret (exprType (sig_results sig) ACC_READ))))
        (if callOk env ?n ts sig then Some (exprType (sig_results sig) ACC_READ) else None)"
      if "length ms = length (sig_args sig)"
      using that args by (intro refines_checked accepts_typeCheckArguments grows_rules) simp_all
    have "callType env f gs ts = (if length gs > sig_generics sig \<or> length ms \<noteq> length (sig_args sig) \<or> sig_generics sig \<noteq> 0
        then None else if callOk env ?n ts sig then Some (exprType (sig_results sig) ACC_READ) else None)"
      using Some sig single args by (auto simp: callType_def)
    then show ?thesis
      unfolding Some sig option.case Let_def by (simp only:) (intro refines_guards check grows_rules, simp)
  qed
  have run: "refines (tbind (callArgs ms) ?body) (Option.bind (those vs) (callType env f gs))"
  proof -
    have "refines (tbind (callArgs ms) ?body)
      (Option.bind (Option.bind (those vs) (\<lambda>ts. if list_all isSingleValue ts then Some ts else None)) (callType env f gs))"
      by (rule refines_bind [OF refines_callArgs [OF ms] gbody]) (auto intro!: body simp: bind_eq_Some_conv split: if_splits)
    moreover have "Option.bind (Option.bind (those vs) (\<lambda>ts. if list_all isSingleValue ts then Some ts else None)) (callType env f gs) =
        Option.bind (those vs) (callType env f gs)"
      by (cases "those vs") (auto simp: callType_def split: option.split)
    ultimately show ?thesis by simp
  qed
  show ?thesis
  proof (cases "gs = []")
    case True
    show ?thesis using run unfolding visitCallExpr_def True checkGenericArgs.simps tbind_simps .
  next
    case False
    then have none: "Option.bind (those vs) (callType env f gs) = None"
      by (cases "those vs") (auto simp: callType_def split: option.split)
    obtain P where "accepts (checkGenericArgs env gs) P" using refines_checkGenericArgs [OF ok] by blast
    then show ?thesis using run none unfolding visitCallExpr_def by (auto intro: accepts_then_None)
  qed
qed

section \<open>Maps\<close>

lemma refines_known:
  assumes ok: "env_ok env" and gk: "\<And>b. grows (k b)" and k: "refines (k True) v"
  shows "refines
    (tbind (typeCheck (visitIndexSet env s)) (\<lambda>ok.
     tbind (if ok then tbind (getSymbol env (setName s)) (\<lambda>(type, _). tret (type \<noteq> None)) else tret False) k))
    (if setOk env s \<and> lookup env (setName s) \<noteq> None then v else None)"
proof -
  let ?known = "\<lambda>ok. tbind (if ok then tbind (getSymbol env (setName s)) (\<lambda>(type, _). tret (type \<noteq> None)) else tret False) k"
  have set: "refines (typeCheck (visitIndexSet env s)) (map_option (\<lambda>_. True) (if setOk env s then Some () else None))"
    using accepts_visitIndexSet [OF ok, of s] unfolding accepts_def by (rule refines_typeCheck)
  have gknown: "grows (?known ok)" for ok
    unfolding getSymbol_def hasSymbol_def by (auto intro!: grows_rules gk split: prod.split)
  have known: "refines (?known True) (if lookup env (setName s) \<noteq> None then v else None)"
  proof (cases "lookup env (setName s)")
    case None
    then show ?thesis by (simp add: getSymbol_def hasSymbol_lookup refines_fail)
  next
    case (Some x)
    then show ?thesis using env_ok_symbol [OF ok Some] getSymbol_lookup [OF Some] k by auto
  qed
  show ?thesis
  proof (cases "setOk env s")
    case True
    then show ?thesis using set known gknown by (auto intro: refines_bind_Some)
  next
    case False
    then show ?thesis using set gknown by (auto intro: refines_bind_None)
  qed
qed

lemma setOk_lookup: "setOk env (CSet n d) \<Longrightarrow> lookup env n \<noteq> None"
  by (auto split: option.splits)

lemma grows_mapTarget [grows_rules]: "grows (mapTarget env op s)"
  unfolding mapTarget_def getSymbol_def hasSymbol_def
  by (auto intro!: grows_rules split: prod.split c_index_set.split)

lemma grows_mapThrough [grows_rules]: "grows (mapThrough env op t thr)"
  unfolding mapThrough_def getSymbol_def hasSymbol_def
  by (auto intro!: grows_rules split: option.split prod.split c_index_set.split set_shape.split)

lemma refines_mapTarget:
  assumes "env_ok env"
  shows "refines (mapTarget env op s) (map_option Some (targetSet env s))"
proof (cases "\<exists>n d. s = CSet n d")
  case True
  then obtain n d where s: "s = CSet n d" by blast
  have "refines (mapTarget env op s) (if setOk env s \<and> lookup env (setName s) \<noteq> None then map_option Some d else None)"
    unfolding mapTarget_def
    by (rule refines_known [OF assms])
      (cases d; auto intro!: grows_rules refines_ret refines_fail simp: s getSetDefinition_def split: c_index_set.split)+
  then show ?thesis using s setOk_lookup [of env n d] by (auto simp: targetSet_def split: if_splits)
next
  case False
  have "refines (mapTarget env op s) (if setOk env s \<and> lookup env (setName s) \<noteq> None then None else None)"
    unfolding mapTarget_def
    by (rule refines_known [OF assms]) (use False in \<open>auto intro!: grows_rules refines_report_then split: c_index_set.split\<close>)
  then show ?thesis using False by (auto simp: targetSet_def split: c_index_set.split if_splits)
qed

lemma refines_mapThrough:
  assumes "env_ok env"
  shows "refines (mapThrough env op t thr) (throughSet env t thr)"
proof (cases thr)
  case None
  then show ?thesis by (simp add: mapThrough_def throughSet_def refines_ret)
next
  case thr: (Some s)
  show ?thesis
  proof (cases "\<exists>n d. s = CSet n d")
    case True
    then obtain n d where s: "s = CSet n d" by blast
    let ?v = "Option.bind d (\<lambda>a. case set_shape (env_sets env a) of
            GridSet p _ \<Rightarrow> if setName (ep_set p) = setName t then Some (Some a) else None | _ \<Rightarrow> None)"
    have "refines (mapThrough env op t thr) (if setOk env s \<and> lookup env (setName s) \<noteq> None then ?v else None)"
      unfolding mapThrough_def thr option.case
      by (rule refines_known [OF assms])
        (cases d; auto intro!: grows_rules refines_ret refines_fail refines_report_then refines_then_Some [OF refines_ret]
          simp: s getSetDefinition_def reportIf_def split: c_index_set.split set_shape.split)+
    then show ?thesis using s thr setOk_lookup [of env n d] by (auto simp: targetSet_def throughSet_def split: if_splits)
  next
    case False
    have "refines (mapThrough env op t thr) (if setOk env s \<and> lookup env (setName s) \<noteq> None then None else None)"
      unfolding mapThrough_def thr option.case
      by (rule refines_known [OF assms])
        (use False in \<open>auto intro!: grows_rules refines_report_then split: c_index_set.split set_shape.split\<close>)
    then show ?thesis using False thr
      by (auto simp: targetSet_def throughSet_def split: c_index_set.split if_splits)
  qed
qed

lemma grows_option [grows_rules]: "grows a \<Longrightarrow> (\<And>x. grows (k x)) \<Longrightarrow> grows (case v of None \<Rightarrow> a | Some x \<Rightarrow> k x)"
  by (cases v) simp_all

lemma refines_bind_any: "refines m v \<Longrightarrow> (\<And>x. refines (k x) None) \<Longrightarrow> refines (tbind m k) None"
  by (cases v) (auto intro: refines_bind_None refines_bind_Some refines_grows)

lemma mapActuals_argument:
  assumes "mapActuals env a b sig ts = Inr ts'" and "list_all argument ts"
  shows "list_all argument ts'"
  using assms
  by (auto simp: mapActuals_def Let_def rbind_eq_Inr argument_def exprType_def isSingleValue_def split: if_splits option.splits)

lemma accepts_mapActuals:
  assumes "list_all argument ts"
  shows "accepts (tbind (tlift (mapActuals env a b sig ts)) (\<lambda>ts'.
      if length ts' \<noteq> length (sig_args sig) then report (m ts') else mapArgTypes env op n ts' (sig_args sig)))
    (case mapActuals env a b sig ts of Inr ts' \<Rightarrow> list_all2 (argOk env) ts' (sig_args sig) | Inl _ \<Rightarrow> False)"
proof (cases "mapActuals env a b sig ts")
  case (Inl e)
  then show ?thesis by (simp add: accepts_fail)
next
  case (Inr ts')
  have "list_all argument ts'" using mapActuals_argument [OF Inr assms] .
  then show ?thesis using Inr refines_mapArgTypes [of ts' "sig_args sig" env op n]
    by (auto simp: accepts_def refines_report dest: list_all2_lengthD)
qed

lemma refines_mapCall:
  assumes "list_all argument ts"
  shows "refines
    (tthen (reportIf c m) (tthen (reportIf (length gs > sig_generics sig) m')
      (if sig_generics sig \<noteq> 0 then tfail e
       else
         tbind getChecked (\<lambda>checked.
         tthen
           (if \<not> checked then tret ()
            else (case Some a of
              None \<Rightarrow> tfail Undefined
            | Some a \<Rightarrow>
                tbind (tlift (mapActuals env a b sig ts)) (\<lambda>ts'.
                if length ts' \<noteq> length (sig_args sig) then report (m'' ts') else mapArgTypes env op n ts' (sig_args sig))))
         (tret r)))))
    (if \<not> c \<and> gs = [] \<and> sig_generics sig = 0 then
       (case mapActuals env a b sig ts of
          Inr ts' \<Rightarrow> if list_all2 (argOk env) ts' (sig_args sig) then Some r else None
        | Inl _ \<Rightarrow> None)
     else None)"
proof -
  let ?ok = "case mapActuals env a b sig ts of Inr ts' \<Rightarrow> list_all2 (argOk env) ts' (sig_args sig) | Inl _ \<Rightarrow> False"
  have eq: "(if \<not> c \<and> gs = [] \<and> sig_generics sig = 0 then
       (case mapActuals env a b sig ts of
          Inr ts' \<Rightarrow> if list_all2 (argOk env) ts' (sig_args sig) then Some r else None
        | Inl _ \<Rightarrow> None)
     else None) =
     (if c \<or> length gs > sig_generics sig \<or> sig_generics sig \<noteq> 0 then None else if ?ok then Some r else None)"
    by (auto split: sum.split)
  show ?thesis
    unfolding eq option.case
    by (intro refines_guards refines_checked accepts_mapActuals assms grows_rules)
qed

lemma refines_mapOrApply:
  assumes ok: "env_ok env" and ms: "list_all2 checks ms vs"
  shows "refines (typeCheckMapOrApply env isApply f gs ms target thr)
    (Option.bind (those vs) (\<lambda>ts.
     Option.bind (mapType env f gs ts (resolveIndexSet env target) (map_option (resolveIndexSet env) thr)) (\<lambda>t.
     if isApply \<and> et_types t \<noteq> [] then None else Some t)))"
    (is "refines _ ?v")
proof -
  let ?t = "resolveIndexSet env target" and ?thr = "map_option (resolveIndexSet env) thr"
  obtain P where P: "accepts (checkGenericArgs env gs) P" using refines_checkGenericArgs [OF ok] by blast
  have generic: "refines (tthen (checkGenericArgs env gs) k) ?v" if "refines k ?v" "gs \<noteq> [] \<Longrightarrow> ?v = None" for k
    using that accepts_then_None [OF P] by (cases "gs = []") auto
  have gs: "gs \<noteq> [] \<Longrightarrow> ?v = None"
    by (cases "those vs") (auto simp: mapType_def split: option.split)
  show ?thesis
  proof (cases "env_funcs env f")
    case None
    then have none: "?v = None" by (cases "those vs") (auto simp: mapType_def)
    show ?thesis
      unfolding typeCheckMapOrApply_def Let_def None option.case
    proof (rule generic [OF _ gs], unfold none, rule refines_bind_any [OF refines_mapArgs [OF ms]], goal_cases)
      case (1 x)
      show ?case by (auto intro!: refines_undeclared grows_rules)
    qed
  next
    case (Some s)
    then obtain sig where sig: "env_funcs env f = Some (Some sig)" using env_ok_func [OF ok] by blast
    let ?r = "exprType (sig_results sig) ACC_READ"
    let ?w = "\<lambda>ts. Option.bind (map_option Some (targetSet env ?t)) (\<lambda>x. Option.bind (throughSet env ?t ?thr) (\<lambda>b.
       Option.bind x (\<lambda>a.
       if \<not> (isApply \<and> sig_results sig \<noteq> []) \<and> gs = [] \<and> sig_generics sig = 0 then
         (case mapActuals env a b sig ts of
            Inr ts' \<Rightarrow> if list_all2 (argOk env) ts' (sig_args sig) then Some ?r else None
          | Inl _ \<Rightarrow> None)
       else None)))"
    have w: "?v = Option.bind (Option.bind (those vs) (\<lambda>ts. if list_all actualOk ts then Some ts else None)) ?w"
      by (cases "those vs"; cases "targetSet env ?t"; cases "throughSet env ?t ?thr")
        (auto simp: mapType_def sig exprType_def split: sum.split)
    have arg: "list_all argument ts" if ts: "those vs = Some ts" and "list_all actualOk ts" for ts
    proof (rule good_arguments [OF ms ts])
      show "list_all isSingleValue ts" using that(2)
        by (auto simp: list_all_iff actualOk_def isSingleValue_iff split: option.splits)
    qed
    show ?thesis
      unfolding typeCheckMapOrApply_def Let_def
    proof (rule generic [OF _ gs], unfold w sig option.case option.simps if_False tbind_simps,
        rule refines_bind [OF refines_mapArgs [OF ms]], goal_cases)
      case (1 ts)
      show ?case by (intro grows_rules)
    next
      case (2 ts)
      then have ts: "list_all argument ts" using arg by (auto simp: bind_eq_Some_conv split: if_splits)
      show ?case
      proof (rule refines_then_Some, simp add: refines_ret, rule refines_bind [OF refines_mapTarget [OF ok]], goal_cases)
        case (2 x)
        then obtain a where x: "x = Some a" by auto
        show ?case
          unfolding x bind.simps
          by (rule refines_bind [OF refines_mapThrough [OF ok]]) (intro grows_rules, rule refines_mapCall [OF ts])
      qed (intro grows_rules)
    qed
  qed
qed

lemma refines_map:
  assumes "env_ok env" and "list_all2 checks ms vs"
  shows "refines (typeCheckMapOrApply env False f gs ms target thr)
    (Option.bind (those vs) (\<lambda>ts. mapType env f gs ts (resolveIndexSet env target) (map_option (resolveIndexSet env) thr)))"
  using refines_mapOrApply [OF assms, of False f gs target thr] by simp

section \<open>Expressions\<close>

lemma callType_result: "callType env f gs ts = Some t \<Longrightarrow> \<exists>sig. env_funcs env f = Some (Some sig) \<and> t = exprType (sig_results sig) ACC_READ"
  unfolding callType_def by (cases "env_funcs env f"; cases "the (env_funcs env f)") (auto split: if_split_asm)

lemma mapType_result: "mapType env f gs ts s thr = Some t \<Longrightarrow> \<exists>sig. env_funcs env f = Some (Some sig) \<and> t = exprType (sig_results sig) ACC_READ"
  unfolding mapType_def
  by (cases "env_funcs env f"; cases "the (env_funcs env f)") (auto split: if_split_asm Option.bind_split_asm sum.split_asm)

lemma good_results: "env_ok env \<Longrightarrow> env_funcs env f = Some (Some sig) \<Longrightarrow> good (exprType (sig_results sig) ACC_READ)"
  by (auto dest: env_ok_func)

lemma checks_call:
  assumes ok: "env_ok env" and ms: "list_all2 checks ms vs"
  shows "checks (visitCallExpr env f gs ms) (Option.bind (those vs) (callType env f gs))"
proof (rule checksI [OF refines_call [OF assms]])
  fix t assume "Option.bind (those vs) (callType env f gs) = Some t"
  then show "good t" by (auto simp: bind_eq_Some_conv simp del: good_simps dest!: callType_result intro: good_results [OF ok])
qed

lemma checks_map:
  assumes ok: "env_ok env" and ms: "list_all2 checks ms vs"
  shows "checks (typeCheckMapOrApply env False f gs ms target thr)
    (Option.bind (those vs) (\<lambda>ts. mapType env f gs ts (resolveIndexSet env target) (map_option (resolveIndexSet env) thr)))"
proof (rule checksI [OF refines_map [OF assms]])
  fix t assume "Option.bind (those vs)
    (\<lambda>ts. mapType env f gs ts (resolveIndexSet env target) (map_option (resolveIndexSet env) thr)) = Some t"
  then show "good t" by (auto simp: bind_eq_Some_conv simp del: good_simps dest!: mapType_result intro: good_results [OF ok])
qed

lemma checks_ret: "good t \<Longrightarrow> checks (tret t) (Some t)"
  by (simp add: checks_def refines_ret)

lemma list_checks: "(\<And>e. e \<in> set es \<Longrightarrow> checks (m e) (v e)) \<Longrightarrow> list_all2 checks (map m es) (map v es)"
  by (simp add: list_all2_conv_all_nth)

lemma list_params:
  assumes "\<And>i e a. i \<in> set is \<Longrightarrow> e \<in> set_option i \<Longrightarrow> checks (m e a) (v e)"
  shows "list_all2 param (map (map_option m) is)
    (map (\<lambda>i. case i of None \<Rightarrow> Some None | Some x \<Rightarrow> map_option Some (v x)) is)"
proof -
  have "param (map_option m i) (case i of None \<Rightarrow> Some None | Some x \<Rightarrow> map_option Some (v x))" if "i \<in> set is" for i
    using assms [OF that] by (cases i) (auto simp: param_def)
  then show ?thesis by (simp add: list_all2_conv_all_nth)
qed

lemma var_typeOf: "to_VarExpr e = Some x \<Longrightarrow> typeOf env e = varType env x"
  by (cases e) simp_all

lemma checks_sub: "checks l v \<Longrightarrow> checks r w \<Longrightarrow> checks (typeCheckBinaryElwise env False l r) (binaryType numeric (elwiseType (env_sets env)) v w)"
  using checks_elwise [of l v r w env False] by (simp add: summand_def)

lemma checks_inferType: "env_ok env \<Longrightarrow> checks (inferType env e allow) (typeOf env e)"
proof (induction e arbitrary: allow)
  case (TensorReadExpr e "is")
  show ?case unfolding inferType.simps typeOf.simps
    by (rule checks_tensorRead) (use TensorReadExpr in \<open>auto intro!: list_params dest: var_typeOf\<close>)
next
  case (ExpExpr a b)
  then show ?case by (simp add: checks_def refines_fail)
qed (simp_all only: inferType.simps typeOf.simps,
  (intro checks_map checks_boolean checks_eq checks_not checks_elwise checks_sub checks_mul checks_div checks_leftDiv checks_neg
    checks_transpose checks_call checks_setRead checks_namedRead checks_unnamedRead checks_fieldRead checks_var
    checks_literal checks_ret list_checks; simp)+)

section \<open>The checker and the reference\<close>

lemma infer_accept: "env_ok env \<Longrightarrow> ready s \<Longrightarrow> typeOf env e = Some t \<Longrightarrow> inferType env e allow s = Inr (t, s)"
  using checks_refines [OF checks_inferType, of env e allow] by (auto intro: refines_run)

lemma infer_reject:
  "env_ok env \<Longrightarrow> ready s \<Longrightarrow> typeOf env e = None \<Longrightarrow> inferType env e allow s = Inr (t, s') \<Longrightarrow>
   length (tc_errors s) < length (tc_errors s')"
  using checks_refines [OF checks_inferType, of env e allow] by (auto intro: refines_error)

lemma infer_silent:
  assumes "env_ok env" and "ready s" and "inferType env e allow s = Inr (t, s')" and "tc_errors s' = tc_errors s"
  shows "typeOf env e = Some t" "s' = s"
  using assms infer_accept [of env s e _ allow] infer_reject [of env s e allow t s'] by (cases "typeOf env e"; force)+

text \<open>An environment with a matrix \<open>A\<close> of \<open>2 \<times> 3\<close> floats, a vector \<open>x\<close> of three floats and an integer vector \<open>v\<close>.\<close>

definition sampleEnv :: tc_env where
  "sampleEnv = \<lparr>
     env_symbols = mk_scoped_map [
       ''A'' \<mapsto> (Some (CTensor (CND [CRange 2, CRange 3] (CScalar SC_FLOAT) False)), ACC_READ_WRITE),
       ''x'' \<mapsto> (Some (CTensor (CND [CRange 3] (CScalar SC_FLOAT) False)), ACC_READ_WRITE),
       ''v'' \<mapsto> (Some (CTensor (CND [CRange 3] (CScalar SC_INT) False)), ACC_READ_WRITE)],
     env_funcs = [''step'' \<mapsto> Some \<lparr>originalName = [], sig_generics = 0, sig_args = [], sig_results = []\<rparr>],
     env_elements = Map.empty,
     env_sets = (\<lambda>_. \<lparr>set_element = \<lparr>elem_ident = [], elem_source = None\<rparr>, set_shape = Heterogeneous []\<rparr>),
     env_setDefs = Map.empty,
     skipCheckDeclared = False\<rparr>"

definition startState :: tc_state where
  "startState = \<lparr>retTypeChecked = True, hasIndexExpr = False, tc_errors = []\<rparr>"

lemma ready_startState: "ready startState"
  by (simp add: ready_def startState_def)

lemma env_ok_sampleEnv: "env_ok sampleEnv"
  by (auto simp: env_ok_def sampleEnv_def lookup_def get_symbol_def mk_scoped_map_def split: if_splits)



text \<open>
  C6. The types the checker gives to accepted expressions are well formed: they are defined, every level of a blocked
  tensor has as many index sets as the outermost one, only vectors are marked as transposed, and no tensor type but a
  scalar is without dimensions.
\<close>

theorem inferType_well_formed:
  fixes e :: "'d fir_expr"
  assumes "env_ok env" and "ready s" and "inferType env e allow s = Inr (t, s')" and "tc_errors s' = tc_errors s"
  shows "et_defined t \<and> list_all wf_type (et_types t)"
  using checks_inferType [OF assms(1), of e allow] infer_silent(1) [OF assms] by (auto simp: checks_def good_def)

theorem inferType_well_formed_witness:
  "list_all wf_type (et_types (tensorType (CND [CRange 3] (CScalar SC_FLOAT) True)))"
proof -
  have "inferType sampleEnv (TransposeExpr (VarExpr ''x'') :: int fir_expr) True startState =
      Inr (tensorType (CND [CRange 3] (CScalar SC_FLOAT) True), startState)"
    by code_simp
  from inferType_well_formed [OF env_ok_sampleEnv ready_startState this] show ?thesis by simp
qed

end
