(* ===== verification/Type_Check_Limits.thy ===== *)
theory Type_Check_Limits
  imports Type_Check_Correct
begin

text \<open>
  Where the type checker does not do what it is for: inputs that make it leave its vectors, and the number of times it
  visits nested reads.
\<close>

section \<open>Reads past the end of a vector\<close>



text \<open>
  Transposing a value that is not a tensor does not get the error message meant for it: the type of the operand is
  taken apart before it is checked to be a tensor. The checker reads past the end of an empty vector if the operand is
  void, such as a call of a function without results, and stops with a failed assertion if it is a set, an element, a
  tuple or opaque.
\<close>

theorem transpose_no_tensor:
  fixes e :: "'d fir_expr"
  assumes "inferType env e allow s = Inr (t, s')" and "et_defined t" and "\<nexists>x ts. et_types t = CTensor x # ts"
  shows "inferType env (TransposeExpr e) allow s =
    Inl (if et_types t = [] then Undefined else InternalError ''(bool)ret'')"
proof -
  have "toTensor t = Inl (if et_types t = [] then Undefined else InternalError ''(bool)ret'')"
    using assms(3) by (cases "et_types t") (auto simp: toTensor_def nth_result_def split: c_type.split)
  then show ?thesis using assms(1,2)
    by (cases "et_types t = []") (simp_all add: visitTransposeExpr_def tbind_def tlift_def tfail_def)
qed

theorem transpose_no_tensor_witness:
  "inferType sampleEnv (TransposeExpr (CallExpr ''step'' [] []) :: int fir_expr) False startState = Inl Undefined"
proof -
  have "inferType sampleEnv (CallExpr ''step'' [] [] :: int fir_expr) False startState =
      Inr (exprType [] ACC_READ, startState)"
    by code_simp
  then show ?thesis by (subst transpose_no_tensor) (assumption, simp_all add: exprType_def)
qed

section \<open>Repeated visits\<close>

text \<open>The reads \<open>v(v(\<dots>v(x)))\<close> with \<open>n\<close> indices.\<close>

fun nestedRead :: "string \<Rightarrow> string \<Rightarrow> nat \<Rightarrow> 'd fir_expr" where
  "nestedRead v x 0 = VarExpr x"
| "nestedRead v x (Suc n) = TensorReadExpr (VarExpr v) [Some (nestedRead v x n)]"

definition reports :: "expr_type tc \<Rightarrow> expr_type \<Rightarrow> string list \<Rightarrow> bool" where
  "reports m t es \<longleftrightarrow> (\<forall>s. m s = Inr (t, s\<lparr>tc_errors := tc_errors s @ es, retTypeChecked := False\<rparr>))"

lemma reports_read:
  assumes v: "lookup env v = Some (Some (CTensor (CND [CRange k] (CScalar SC_INT) tr)), acc)"
    and e: "\<And>a. reports (inferType env e a) t es" and t: "\<not> et_defined t \<or> single t = Some (CTensor (CScalar SC_INT))"
  shows "reports (inferType env (TensorReadExpr (VarExpr v) [Some e]) allow) (exprType [CTensor (CScalar SC_INT)] acc)
    (es @ es @ es)"
proof -
  have run: "inferType env e a s = Inr (t, s\<lparr>tc_errors := tc_errors s @ es, retTypeChecked := False\<rparr>)" for a s
    using e by (simp add: reports_def)
  have any: "anyIndexVar allow [Some (inferType env e)] s =
      Inr (False, s\<lparr>tc_errors := tc_errors s @ es, retTypeChecked := False\<rparr>)" for s
    using t by (auto simp: tbind_def run tret_def isIndexVar_def)
  have nested: "inferNested [Some (inferType env e)] s =
      Inr ((), s\<lparr>tc_errors := tc_errors s @ es, retTypeChecked := False\<rparr>)" for s
    by (simp add: tbind_def run tret_def)
  have indices: "readIndices env allow [[CRange k]] [Some (inferType env e)] s =
      Inr ([], s\<lparr>tc_errors := tc_errors s @ es, retTypeChecked := False\<rparr>)" for s
    using t by (auto simp: tthen_def tbind_def run tret_def checkIndex_def isVoid_def isSingleValue_iff isIndexVar_def
        single_iff isScalarType_def nth_result_def)
  have "inferType env (TensorReadExpr (VarExpr v) [Some e]) allow =
      readTensor env allow (exprType [CTensor (CND [CRange k] (CScalar SC_INT) tr)] acc) [Some (inferType env e)]"
    using getSymbol_lookup [OF v] v by (simp add: visitTensorReadExpr_def isSlice_def hasSymbol_lookup)
  then show ?thesis
    unfolding reports_def
    by (simp only:) (simp add: readTensor_def isSlice_def et_isTensor_def single_def exprType_def toTensor_def nth_result_def
        getDimensions_def readType_def tthen_def tbind_def tret_def tlift_def any nested indices
        del: anyIndexVar.simps inferNested.simps readIndices.simps)
qed

text \<open>
  C37. The checker visits the indices of a read three times, once to look for index variables, once for reads inside of
  them and once to check them. An error in a read nested \<open>n\<close> deep is reported \<open>3 ^ n\<close> times, and the time to check the
  expression grows in the same way.
\<close>

theorem nested_read_errors:
  fixes env :: tc_env
  assumes "lookup env v = Some (Some (CTensor (CND [CRange k] (CScalar SC_INT) tr)), acc)"
    and "lookup env x = None" and "\<not> skipCheckDeclared env"
  shows "\<exists>t s'. inferType env (nestedRead v x n :: 'd fir_expr) allow s = Inr (t, s') \<and>
    tc_errors s' = tc_errors s @ replicate (3 ^ n) (''undeclared variable or constant '' @ quote x)"
proof -
  let ?m = "''undeclared variable or constant '' @ quote x" and ?u = "exprType [CTensor (CScalar SC_INT)] acc"
  have "\<exists>t. (\<not> et_defined t \<or> t = ?u) \<and>
      (\<forall>allow. reports (inferType env (nestedRead v x n :: 'd fir_expr) allow) t (replicate (3 ^ n) ?m))"
  proof (induction n)
    case 0
    then show ?case using assms(2,3)
      by (auto simp: reports_def visitVarExpr_def hasSymbol_lookup reportUndeclared_def report_def tthen_def tbind_def
          tret_def undefType_def)
  next
    case (Suc n)
    then obtain t where t: "\<not> et_defined t \<or> t = ?u"
      and rec: "\<forall>allow. reports (inferType env (nestedRead v x n :: 'd fir_expr) allow) t (replicate (3 ^ n) ?m)"
      by blast
    have "\<not> et_defined t \<or> single t = Some (CTensor (CScalar SC_INT))"
      using t by (auto simp: single_def exprType_def)
    from reports_read [OF assms(1) rec [rule_format] this] show ?case
      by (auto simp flip: replicate_add simp: numeral_3_eq_3)
  qed
  then show ?thesis by (auto simp: reports_def)
qed

theorem nested_read_errors_witness:
  "\<exists>t s'. inferType sampleEnv (nestedRead ''v'' ''y'' 4 :: int fir_expr) False startState = Inr (t, s') \<and>
    length (tc_errors s') = 81"
proof -
  have "lookup sampleEnv ''v'' = Some (Some (CTensor (CND [CRange 3] (CScalar SC_INT) False)), ACC_READ_WRITE)"
    and "lookup sampleEnv ''y'' = None" and "\<not> skipCheckDeclared sampleEnv"
    by (simp_all add: lookup_def sampleEnv_def get_symbol_def mk_scoped_map_def)
  from nested_read_errors [OF this, of 4 False startState] obtain t s'
    where run: "inferType sampleEnv (nestedRead ''v'' ''y'' 4 :: int fir_expr) False startState = Inr (t, s')"
      and "tc_errors s' = tc_errors startState @ replicate (3 ^ 4) (''undeclared variable or constant '' @ quote ''y'')"
    by blast
  then have "length (tc_errors s') = 81" by (simp add: startState_def)
  with run show ?thesis by blast
qed

end
