(* ===== verification/Program_Checker.thy ===== *)
theory Program_Checker
  imports Type_Inference
begin

text \<open>
  The statements the type checker visits (\<^verbatim>\<open>src/src/frontend/type_checker.cpp\<close>). A method returns the environment it leaves
  behind. The checker proper is preceded by a pass over the program, \<^verbatim>\<open>ComputeSetDefinitions\<close>, that keeps its own scoped
  table of the sets declared so far and attaches to every index set the definition its name has at that point. Both
  passes visit the nodes in the same order, so they are modelled as one: the environment carries the table of the
  first pass, from which the definitions of the index sets of a node are read when the checker visits the node.
\<close>

section \<open>The environment of both passes\<close>

record prog_env =
  pe_env :: tc_env
  pe_decls :: "(string, nat option) scoped_map"
  pe_next :: nat

text \<open>What the checker sees at a node: its environment with the definitions that the first pass attached there.\<close>

definition setDefs :: "prog_env \<Rightarrow> string \<rightharpoonup> nat" where
  "setDefs p n = (case get_symbol (pe_decls p) n AllScopes of Inr (Some a) \<Rightarrow> Some a | _ \<Rightarrow> None)"

definition viewEnv :: "prog_env \<Rightarrow> tc_env" where
  "viewEnv p = (pe_env p)\<lparr>env_setDefs := setDefs p\<rparr>"

text \<open>\<^verbatim>\<open>Environment::addSymbol\<close>: a symbol that is a set becomes the source of the elements of that set.\<close>

definition sourceOf :: "string \<Rightarrow> nat \<Rightarrow> elem_type \<Rightarrow> c_index_set" where
  "sourceOf name a elem = (if elem_ident elem = [] then CGeneric GT_UNKNOWN name (Some a) else CSet name (Some a))"

definition recordSource :: "string \<Rightarrow> c_type option \<Rightarrow> (nat \<Rightarrow> set_type) \<Rightarrow> nat \<Rightarrow> set_type" where
  "recordSource name type sets =
     (case type of
        Some (CSetType a) \<Rightarrow>
          (let elem = set_element (sets a) in
           sets(a := (sets a)\<lparr>set_element := elem\<lparr>elem_source := Some (sourceOf name a elem)\<rparr>\<rparr>))
      | _ \<Rightarrow> sets)"

definition addSymbol :: "string \<Rightarrow> c_type option \<Rightarrow> Access \<Rightarrow> prog_env \<Rightarrow> prog_env result" where
  "addSymbol name type acc p =
     rbind (insert_symbol name (type, acc) (env_symbols (pe_env p))) (\<lambda>table.
     Inr (p\<lparr>pe_env := (pe_env p)\<lparr>env_symbols := table, env_sets := recordSource name type (env_sets (pe_env p))\<rparr>\<rparr>))"

definition addDecl :: "string \<Rightarrow> nat option \<Rightarrow> prog_env \<Rightarrow> prog_env result" where
  "addDecl name def p = rbind (insert_symbol name def (pe_decls p)) (\<lambda>table. Inr (p\<lparr>pe_decls := table\<rparr>))"

text \<open>The scopes of a block, which both passes open and close together.\<close>

definition enterScope :: "prog_env \<Rightarrow> prog_env" where
  "enterScope p =
     p\<lparr>pe_env := (pe_env p)\<lparr>env_symbols := scope Map.empty (env_symbols (pe_env p))\<rparr>,
       pe_decls := scope Map.empty (pe_decls p)\<rparr>"

definition leaveScope :: "prog_env \<Rightarrow> prog_env result" where
  "leaveScope p =
     rbind (unscope (env_symbols (pe_env p))) (\<lambda>symbols. rbind (unscope (pe_decls p)) (\<lambda>decls.
     Inr (p\<lparr>pe_env := (pe_env p)\<lparr>env_symbols := symbols\<rparr>, pe_decls := decls\<rparr>)))"

definition hasCurrent :: "prog_env \<Rightarrow> string \<Rightarrow> bool tc" where
  "hasCurrent p name = tlift (contains_symbol (env_symbols (pe_env p)) name CurrentOnly)"

definition reportRedefinition :: "string \<Rightarrow> string \<Rightarrow> unit tc" where
  "reportRedefinition type ident = report (''redefinition of '' @ type @ '' '' @ quote ident)"

text \<open>\<^verbatim>\<open>typeCheck\<close> for a node whose visit leaves an environment: the flag and the environment.\<close>

definition typeCheckNode :: "'a tc \<Rightarrow> (bool \<times> 'a) tc" where
  "typeCheckNode visit = (\<lambda>s. rbind (visit (s\<lparr>retTypeChecked := True\<rparr>)) (\<lambda>(x, s').
     Inr ((retTypeChecked s', x), s'\<lparr>retTypeChecked := retTypeChecked s\<rparr>)))"

section \<open>Tensor types\<close>

fun resolveTensor :: "tc_env \<Rightarrow> fir_tensor_type \<Rightarrow> c_tensor" where
  "resolveTensor env (ScalarType t) = CScalar t"
| "resolveTensor env (NDTensorType indexSets blockType transposed) =
     CND (map (resolveIndexSet env) indexSets) (resolveTensor env blockType) transposed"

fun visitIndexSets :: "tc_env \<Rightarrow> c_index_set list \<Rightarrow> unit tc" where
  "visitIndexSets env [] = tret ()"
| "visitIndexSets env (s # ss) =
     tbind (typeCheck (visitIndexSet env s)) (\<lambda>ok. tbind getChecked (\<lambda>checked.
     tthen (setChecked (ok \<and> checked)) (visitIndexSets env ss)))"

fun visitTensorType :: "tc_env \<Rightarrow> c_tensor \<Rightarrow> unit tc" where
  "visitTensorType env (CScalar _) = tret ()"
| "visitTensorType env (CND indexSets blockType transposed) =
     tbind (typeCheck (visitTensorType env blockType)) (\<lambda>ok.
     tthen (setChecked ok)
     (tthen (visitIndexSets env indexSets)
     (tthen (reportIf (case blockType of CND blockSets _ _ \<Rightarrow> length indexSets \<noteq> length blockSets | _ \<Rightarrow> False)
       ''blocked tensor type must contain same number of dimensions as its blocks'')
     (reportIf (transposed \<and> length indexSets \<noteq> 1) ''transposed type must be a vector''))))"

section \<open>Declarations of variables and constants\<close>

fun trivialDimension :: "c_index_set \<Rightarrow> bool" where
  "trivialDimension (CRange n) = (n = 1)"
| "trivialDimension _ = False"

text \<open>The special cases in which the initial value has another type than the variable.\<close>

definition checkInit :: "tc_env \<Rightarrow> bool \<Rightarrow> bool \<Rightarrow> c_tensor \<Rightarrow> expr_type \<Rightarrow> unit tc" where
  "checkInit env isConst isGlobal varType initType =
     (let message = ''cannot initialize a '' @ (if isConst then ''constant'' else ''variable'') @ '' of type '' @
          toString_type (env_sets env) (CTensor varType) True @ '' with an expression of type '' @ toString_et env initType in
      case single initType of
        Some (CTensor init) \<Rightarrow>
          (case (varType, init) of
             (_, CScalar c) \<Rightarrow>
               if tensor_getComponentType varType = c then
                 reportIf isGlobal ''cannot initialize a non-scalar global constant by a scalar value''
               else report message
           | (CND varSets varBlock _, CND initSets initBlock _) \<Rightarrow>
               reportIf (\<not> (isConst \<and> compareTensors (env_sets env) varBlock initBlock False \<and>
                   compareDomains (env_sets env) (dropWhile trivialDimension varSets) (dropWhile trivialDimension initSets)))
                 message
           | _ \<Rightarrow> report message)
      | _ \<Rightarrow> report message)"

definition checkVarType :: "tc_env \<Rightarrow> bool \<Rightarrow> bool \<Rightarrow> c_type option \<Rightarrow> expr_type \<Rightarrow> unit tc" where
  "checkVarType env isConst isGlobal varType initType =
     (case varType of
        None \<Rightarrow> tret ()
      | Some (CTensor t) \<Rightarrow>
          if \<not> et_defined initType then tret ()
          else (case single initType of
            Some x \<Rightarrow>
              if et_isTensor initType then
                tbind (tlift (compareTypes (env_sets env) (CTensor t) (Some x) False)) (\<lambda>same.
                if same then tret () else checkInit env isConst isGlobal t initType)
              else checkInit env isConst isGlobal t initType
          | None \<Rightarrow> checkInit env isConst isGlobal t initType)
      | Some _ \<Rightarrow> report (''cannot declare a non-tensor '' @ (if isConst then ''constant'' else ''variable'')))"

definition typeCheckVarOrConstDecl ::
  "prog_env \<Rightarrow> bool \<Rightarrow> bool \<Rightarrow> string \<Rightarrow> fir_tensor_type option \<Rightarrow> 'd fir_expr option \<Rightarrow> prog_env tc" where
  "typeCheckVarOrConstDecl p isConst isGlobal name type init =
     (let env = viewEnv p in
      tbind (case type of
               None \<Rightarrow> tret None
             | Some t \<Rightarrow>
                 tbind (typeCheck (visitTensorType env (resolveTensor env t))) (\<lambda>ok.
                 tret (if ok then Some (CTensor (resolveTensor env t)) else None))) (\<lambda>declared.
      tbind (case init of None \<Rightarrow> tret (undefType ACC_NONE) | Some e \<Rightarrow> inferType env e False) (\<lambda>initType.
      let varType = if init \<noteq> None \<and> type = None \<and> et_defined initType then
                      (case single initType of Some x \<Rightarrow> Some x | None \<Rightarrow> declared)
                    else declared in
      tbind (hasCurrent p name) (\<lambda>declaredBefore.
      tthen (if declaredBefore then reportRedefinition ''variable or constant'' name else tret ())
      (tbind (tlift (addSymbol name varType (if isConst then ACC_READ else ACC_READ_WRITE) p)) (\<lambda>p'.
       tthen (checkVarType (viewEnv p') isConst isGlobal varType initType)
       (tlift (addDecl name None p'))))))))"

definition visitIVarDecl :: "prog_env \<Rightarrow> string \<Rightarrow> prog_env tc" where
  "visitIVarDecl p name =
     tbind (hasCurrent p name) (\<lambda>declaredBefore.
     tthen (if declaredBefore then reportRedefinition ''variable or constant'' name else tret ())
     (tlift (addSymbol name (Some CIVar) ACC_NONE p)))"

section \<open>Statements\<close>

definition checkCondition :: "tc_env \<Rightarrow> expr_type \<Rightarrow> unit tc" where
  "checkCondition env condType =
     reportIf (et_defined condType \<and> \<not> isScalarType SC_BOOL condType)
       (''expected a boolean conditional expression but got an expression of type '' @ toString_et env condType)"

text \<open>The check of a block in a scope of its own.\<close>

definition scopedBody :: "(prog_env \<Rightarrow> prog_env tc) \<Rightarrow> prog_env \<Rightarrow> prog_env tc" where
  "scopedBody body p = tbind (typeCheckNode (body (enterScope p))) (\<lambda>(_, p'). tlift (leaveScope p'))"

fun visitForDomain :: "tc_env \<Rightarrow> 'd for_domain \<Rightarrow> unit tc" where
  "visitForDomain env (IndexSetDomain s) =
     tbind (typeCheck (visitIndexSet env (resolveIndexSet env s))) (\<lambda>ok. setChecked ok)"
| "visitForDomain env (RangeDomain lower upper) =
     tbind (inferType env lower False) (\<lambda>lowerType. tbind (inferType env upper False) (\<lambda>upperType.
     tthen (reportIf (et_defined lowerType \<and> \<not> isScalarType SC_INT lowerType)
       (''expected lower bound of for-loop range to be integral but got an expression of type '' @ toString_et env lowerType))
     (reportIf (et_defined upperType \<and> \<not> isScalarType SC_INT upperType)
       (''expected upper bound of for-loop range to be integral but got an expression of type '' @ toString_et env upperType))))"

fun loopVarType :: "tc_env \<Rightarrow> 'd for_domain \<Rightarrow> bool \<Rightarrow> c_type option result" where
  "loopVarType env (RangeDomain _ _) typeChecked = Inr (Some (CTensor (CScalar SC_INT)))"
| "loopVarType env (IndexSetDomain s) typeChecked =
     (if typeChecked then
        rbind (getSetDefinition (resolveIndexSet env s)) (\<lambda>a. Inr (Some (CElement (set_element (env_sets env a)))))
      else Inr None)"

fun visitPrintArgs :: "tc_env \<Rightarrow> 'd fir_expr list \<Rightarrow> unit tc" where
  "visitPrintArgs env [] = tret ()"
| "visitPrintArgs env (arg # args) =
     tbind (inferType env arg False) (\<lambda>argType.
     tthen (reportIf (et_defined argType \<and> \<not> et_isTensor argType)
       (''cannot print an expression of type '' @ toString_et env argType))
     (visitPrintArgs env args))"

text \<open>
  Assignments. A variable that is assigned to need not be declared. The first pass declares such a variable after it
  has visited the target, the checker after it has checked all of them.
\<close>

definition declareTarget :: "prog_env \<Rightarrow> 'd fir_expr \<Rightarrow> prog_env result" where
  "declareTarget p lhs =
     (case to_VarExpr lhs of
        None \<Rightarrow> Inr p
      | Some name \<Rightarrow>
          rbind (contains_symbol (pe_decls p) name AllScopes) (\<lambda>known. if known then Inr p else addDecl name None p))"

fun visitTargets :: "prog_env \<Rightarrow> 'd fir_expr list \<Rightarrow> (expr_type list \<times> prog_env) tc" where
  "visitTargets p [] = tret ([], p)"
| "visitTargets p (lhs # rest) =
     tbind (inferType ((viewEnv p)\<lparr>skipCheckDeclared := (to_VarExpr lhs \<noteq> None)\<rparr>) lhs True) (\<lambda>t.
     tbind (tlift (declareTarget p lhs)) (\<lambda>p'.
     tbind (visitTargets p' rest) (\<lambda>(ts, p''). tret (t # ts, p''))))"

definition assignable :: "tc_env \<Rightarrow> c_type \<Rightarrow> c_type \<Rightarrow> bool result" where
  "assignable env target value =
     rbind (compareTypes (env_sets env) target (Some value) False) (\<lambda>same.
     Inr (same \<or> (case (value, target) of
       (CTensor (CScalar c), CTensor t) \<Rightarrow> c = tensor_getComponentType t | _ \<Rightarrow> False)))"

fun isAssignedType :: "c_type \<Rightarrow> bool" where
  "isAssignedType (CTensor _) = True"
| "isAssignedType COpaque = True"
| "isAssignedType _ = False"

definition checkTarget :: "tc_env \<Rightarrow> expr_type \<Rightarrow> c_type \<Rightarrow> unit tc" where
  "checkTarget env lhsType value =
     tthen
       (if \<not> et_defined lhsType then tret ()
        else if isVoid lhsType then report ''cannot assign to a void target''
        else (case single lhsType of
          None \<Rightarrow> report ''cannot assign a single value to multiple targets''
        | Some target \<Rightarrow>
            tbind (tlift (assignable env target value)) (\<lambda>ok.
            reportIf (\<not> ok) (''cannot assign a value of type '' @ toString_type (env_sets env) value True @
              '' to a target of type '' @ toString_et env lhsType))))
     (tthen (reportIf (\<not> isAssignedType value)
       (''cannot assign a non-tensor/opaque value of type '' @ toString_type (env_sets env) value True @ '' to a variable''))
     (reportIf (\<not> isWritable lhsType) ''assignment target is not writable''))"

fun checkTargets :: "tc_env \<Rightarrow> expr_type list \<Rightarrow> c_type list \<Rightarrow> unit tc" where
  "checkTargets env (lhsType # lhsTypes) (value # values) =
     tthen (checkTarget env lhsType value) (checkTargets env lhsTypes values)"
| "checkTargets env _ _ = tret ()"

text \<open>The variables that are not declared yet become constants with the types of the values.\<close>

fun declareTargets :: "prog_env \<Rightarrow> nat \<Rightarrow> 'd fir_expr list \<Rightarrow> expr_type \<Rightarrow> prog_env result" where
  "declareTargets p i [] rhsType = Inr p"
| "declareTargets p i (lhs # rest) rhsType =
     rbind (case to_VarExpr lhs of
              None \<Rightarrow> Inr p
            | Some name \<Rightarrow>
                rbind (contains_symbol (env_symbols (pe_env p)) name AllScopes) (\<lambda>known.
                if known then Inr p
                else rbind (if et_defined rhsType then rbind (nth_result (et_types rhsType) i) (\<lambda>t. Inr (Some t)) else Inr None)
                  (\<lambda>t. addSymbol name t ACC_READ p))) (\<lambda>p'.
     declareTargets p' (Suc i) rest rhsType)"

definition resetIndexExpr :: "unit tc" where
  "resetIndexExpr = (\<lambda>s. Inr ((), s\<lparr>hasIndexExpr := False\<rparr>))"

definition visitAssignStmt :: "prog_env \<Rightarrow> 'd fir_expr list \<Rightarrow> 'd fir_expr \<Rightarrow> prog_env tc" where
  "visitAssignStmt p targets value =
     tbind (inferType (viewEnv p) value True) (\<lambda>rhsType.
     tthen (setChecked (et_defined rhsType))
     (tbind (visitTargets p targets) (\<lambda>(lhsTypes, p').
      tbind getChecked (\<lambda>checked.
      tthen (reportIf (checked \<and> length targets \<noteq> length (et_types rhsType))
        (''cannot assign an expression returning '' @ int_to_string (int (length (et_types rhsType))) @ '' values to '' @
         int_to_string (int (length targets)) @ '' targets''))
      (tbind getChecked (\<lambda>checked'.
       tthen (if checked' then checkTargets (viewEnv p') lhsTypes (et_types rhsType) else tret ())
       (tbind (tlift (declareTargets p' 0 targets rhsType)) (\<lambda>p''.
        tthen resetIndexExpr (tret p'')))))))))"

fun visitStmt :: "prog_env \<Rightarrow> 'd fir_stmt \<Rightarrow> prog_env tc"
  and visitStmts :: "prog_env \<Rightarrow> 'd fir_stmt list \<Rightarrow> prog_env tc" where
  "visitStmt p (StmtBlock stmts) = visitStmts p stmts"
| "visitStmt p (VarDecl name type init) = typeCheckVarOrConstDecl p False False name type init"
| "visitStmt p (ConstDecl name type init) = typeCheckVarOrConstDecl p True False name type (Some init)"
| "visitStmt p (IVarDecl name) = visitIVarDecl p name"
| "visitStmt p (WhileStmt cond body) =
     tbind (inferType (viewEnv p) cond False) (\<lambda>condType.
     tbind (scopedBody (\<lambda>p. visitStmt p body) p) (\<lambda>p'. tthen (checkCondition (viewEnv p') condType) (tret p')))"
| "visitStmt p (DoWhileStmt body cond) =
     tbind (inferType (viewEnv p) cond False) (\<lambda>condType.
     tbind (scopedBody (\<lambda>p. visitStmt p body) p) (\<lambda>p'. tthen (checkCondition (viewEnv p') condType) (tret p')))"
| "visitStmt p (IfStmt cond ifBody elseBody) =
     tbind (inferType (viewEnv p) cond False) (\<lambda>condType.
     tbind (scopedBody (\<lambda>p. visitStmt p ifBody) p) (\<lambda>p'.
     tbind (case elseBody of None \<Rightarrow> tret p' | Some body \<Rightarrow> scopedBody (\<lambda>p. visitStmt p body) p') (\<lambda>p''.
     tthen (checkCondition (viewEnv p'') condType) (tret p''))))"
| "visitStmt p (ForStmt loopVar domain body) =
     (let q = enterScope p in
      tbind (typeCheckNode (visitForDomain (viewEnv q) domain)) (\<lambda>(typeChecked, _).
      tbind (tlift (loopVarType (viewEnv q) domain typeChecked)) (\<lambda>t.
      tbind (tlift (rbind (addSymbol loopVar t ACC_READ q) (addDecl loopVar None))) (\<lambda>q'.
      tbind (typeCheckNode (visitStmt q' body)) (\<lambda>(_, q''). tlift (leaveScope q''))))))"
| "visitStmt p (PrintStmt args _) = tthen (visitPrintArgs (viewEnv p) args) (tret p)"
| "visitStmt p (ApplyStmt func genericArgs actuals target) =
     tbind (typeCheckMapOrApply (viewEnv p) True func genericArgs
       (map (\<lambda>e. inferType (viewEnv p) e False) actuals) target None) (\<lambda>_. tret p)"
| "visitStmt p (ExprStmt e) = tbind (inferType (viewEnv p) e False) (\<lambda>_. tret p)"
| "visitStmt p (AssignStmt targets value) = visitAssignStmt p targets value"
| "visitStmts p [] = tret p"
| "visitStmts p (stmt # stmts) = tbind (typeCheckNode (visitStmt p stmt)) (\<lambda>(_, p'). visitStmts p' stmts)"

end
