(* ===== verification/Program_Typing.thy ===== *)
theory Program_Typing
  imports Typing Program_Checker
begin

text \<open>
  A reference for the typing of statements: which statements are accepted in an environment and which environment they
  leave behind, without flags, messages or the bookkeeping of scopes. A block, a loop or a conditional declares nothing
  outside of itself, so it leaves the environment as it was.
\<close>

section \<open>Declarations\<close>

definition succeed :: "'a result \<Rightarrow> 'a option" where
  "succeed r = (case r of Inr x \<Rightarrow> Some x | Inl _ \<Rightarrow> None)"

definition demand :: "bool \<Rightarrow> 'a option \<Rightarrow> 'a option" where
  "demand c v = (if c then v else None)"

fun tensorTypeOk :: "tc_env \<Rightarrow> c_tensor \<Rightarrow> bool" where
  "tensorTypeOk env (CScalar _) = True"
| "tensorTypeOk env (CND ss b tr) =
     (tensorTypeOk env b \<and> list_all (setOk env) ss \<and>
      (case b of CND bs _ _ \<Rightarrow> length ss = length bs | _ \<Rightarrow> True) \<and> (tr \<longrightarrow> length ss = 1))"

definition declaredHere :: "prog_env \<Rightarrow> string \<Rightarrow> bool" where
  "declaredHere p name = (case scopes (env_symbols (pe_env p)) of [] \<Rightarrow> False | sc # _ \<Rightarrow> sc name \<noteq> None)"

text \<open>
  A variable may be initialised with a value of its type; a local tensor also with a scalar, and a constant with a
  tensor of the same blocks whose leading dimensions of size one differ.
\<close>

definition initOk :: "tc_env \<Rightarrow> bool \<Rightarrow> bool \<Rightarrow> c_tensor \<Rightarrow> c_tensor \<Rightarrow> bool" where
  "initOk env isConst isGlobal t u =
     (compareTensors (env_sets env) t u False \<or>
      (case (t, u) of
         (_, CScalar c) \<Rightarrow> tensor_getComponentType t = c \<and> \<not> isGlobal
       | (CND ts tb _, CND us ub _) \<Rightarrow>
           isConst \<and> compareTensors (env_sets env) tb ub False \<and>
           compareDomains (env_sets env) (dropWhile trivialDimension ts) (dropWhile trivialDimension us)
       | _ \<Rightarrow> False))"

definition bindVar :: "string \<Rightarrow> c_type \<Rightarrow> Access \<Rightarrow> prog_env \<Rightarrow> prog_env option" where
  "bindVar name t acc p = succeed (rbind (addSymbol name (Some t) acc p) (addDecl name None))"

definition declType ::
  "prog_env \<Rightarrow> bool \<Rightarrow> bool \<Rightarrow> string \<Rightarrow> fir_tensor_type option \<Rightarrow> 'd fir_expr option \<Rightarrow> prog_env option" where
  "declType p isConst isGlobal name type init =
     (let env = viewEnv p; acc = if isConst then ACC_READ else ACC_READ_WRITE in
      demand (\<not> declaredHere p name)
      (Option.bind (case init of None \<Rightarrow> Some None | Some e \<Rightarrow> Option.bind (typeOf env e) (\<lambda>t. map_option Some (tensorOf t))) (\<lambda>value.
       case (map_option (resolveTensor env) type, value) of
         (Some t, None) \<Rightarrow> demand (tensorTypeOk env t) (bindVar name (CTensor t) acc p)
       | (Some t, Some u) \<Rightarrow>
           demand (tensorTypeOk env t \<and> initOk env isConst isGlobal t u) (bindVar name (CTensor t) acc p)
       | (None, Some u) \<Rightarrow> demand (initOk env isConst isGlobal u u) (bindVar name (CTensor u) acc p)
       | (None, None) \<Rightarrow> None)))"

section \<open>Statements\<close>

fun domainVar :: "tc_env \<Rightarrow> 'd for_domain \<Rightarrow> c_type option" where
  "domainVar env (IndexSetDomain s) =
     demand (setOk env (resolveIndexSet env s))
       (map_option (\<lambda>a. CElement (set_element (env_sets env a))) (setDef (resolveIndexSet env s)))"
| "domainVar env (RangeDomain l u) =
     Option.bind (typeOf env l) (\<lambda>lt. Option.bind (typeOf env u) (\<lambda>ut.
     demand (isScalarType SC_INT lt \<and> isScalarType SC_INT ut) (Some (CTensor (CScalar SC_INT)))))"

text \<open>A target is a declared one with its type, or a variable that is declared by the assignment.\<close>

definition targetType :: "tc_env \<Rightarrow> 'd fir_expr \<Rightarrow> expr_type option" where
  "targetType env lhs =
     (case to_VarExpr lhs of
        Some x \<Rightarrow> if lookup env x = None then Some (undefType ACC_READ_WRITE) else varType env x
      | None \<Rightarrow> typeOf env lhs)"

fun targetTypes :: "prog_env \<Rightarrow> 'd fir_expr list \<Rightarrow> (expr_type list \<times> prog_env) option" where
  "targetTypes p [] = Some ([], p)"
| "targetTypes p (lhs # rest) =
     Option.bind (targetType (viewEnv p) lhs) (\<lambda>t.
     Option.bind (succeed (declareTarget p lhs)) (\<lambda>p'.
     Option.bind (targetTypes p' rest) (\<lambda>(ts, p''). Some (t # ts, p''))))"

definition targetOk :: "tc_env \<Rightarrow> expr_type \<Rightarrow> c_type \<Rightarrow> bool" where
  "targetOk env t value =
     ((et_defined t \<longrightarrow> (case single t of None \<Rightarrow> False | Some x \<Rightarrow> assignable env x value = Inr True)) \<and>
      isAssignedType value \<and> isWritable t)"

definition assignType :: "prog_env \<Rightarrow> 'd fir_expr list \<Rightarrow> 'd fir_expr \<Rightarrow> prog_env option" where
  "assignType p targets value =
     Option.bind (typeOf (viewEnv p) value) (\<lambda>vt.
     Option.bind (targetTypes p targets) (\<lambda>(ts, p').
     demand (list_all2 (targetOk (viewEnv p')) ts (et_types vt)) (succeed (declareTargets p' 0 targets vt))))"

definition applyOk :: "tc_env \<Rightarrow> string \<Rightarrow> fir_index_set list \<Rightarrow> 'd fir_expr list \<Rightarrow> fir_index_set \<Rightarrow> bool" where
  "applyOk env f gs es target =
     (case Option.bind (those (map (typeOf env) es)) (\<lambda>ts. mapType env f gs ts (resolveIndexSet env target) None) of
        None \<Rightarrow> False | Some t \<Rightarrow> et_types t = [])"

definition condOk :: "tc_env \<Rightarrow> 'd fir_expr \<Rightarrow> bool" where
  "condOk env e = (case typeOf env e of None \<Rightarrow> False | Some t \<Rightarrow> isScalarType SC_BOOL t)"

fun stmtType :: "prog_env \<Rightarrow> 'd fir_stmt \<Rightarrow> prog_env option"
  and stmtsType :: "prog_env \<Rightarrow> 'd fir_stmt list \<Rightarrow> prog_env option" where
  "stmtType p (StmtBlock ss) = stmtsType p ss"
| "stmtType p (VarDecl name type init) = declType p False False name type init"
| "stmtType p (ConstDecl name type init) = declType p True False name type (Some init)"
| "stmtType p (IVarDecl name) = None"
| "stmtType p (WhileStmt c body) = demand (condOk (viewEnv p) c \<and> stmtType (enterScope p) body \<noteq> None) (Some p)"
| "stmtType p (DoWhileStmt body c) = demand (condOk (viewEnv p) c \<and> stmtType (enterScope p) body \<noteq> None) (Some p)"
| "stmtType p (IfStmt c a b) =
     demand (condOk (viewEnv p) c \<and> stmtType (enterScope p) a \<noteq> None \<and>
       (case b of None \<Rightarrow> True | Some b' \<Rightarrow> stmtType (enterScope p) b' \<noteq> None)) (Some p)"
| "stmtType p (ForStmt x domain body) =
     Option.bind (domainVar (viewEnv (enterScope p)) domain) (\<lambda>t.
     Option.bind (bindVar x t ACC_READ (enterScope p)) (\<lambda>q. demand (stmtType q body \<noteq> None) (Some p)))"
| "stmtType p (PrintStmt es nl) =
     demand (list_all (\<lambda>e. case typeOf (viewEnv p) e of None \<Rightarrow> False | Some t \<Rightarrow> et_isTensor t) es) (Some p)"
| "stmtType p (ApplyStmt f gs es target) = demand (applyOk (viewEnv p) f gs es target) (Some p)"
| "stmtType p (ExprStmt e) = demand (typeOf (viewEnv p) e \<noteq> None) (Some p)"
| "stmtType p (AssignStmt targets value) = assignType p targets value"
| "stmtsType p [] = Some p"
| "stmtsType p (s # ss) = Option.bind (stmtType p s) (\<lambda>p'. stmtsType p' ss)"

text \<open>
  Statements without index variables, whose declared tensor types have index sets, and whose declarations without a
  type are initialised with something else than a call, which may return no value or several.
\<close>

fun isCall :: "'d fir_expr \<Rightarrow> bool" where
  "isCall (CallExpr _ _ _) = True"
| "isCall (MapExpr _ _ _ _ _ _) = True"
| "isCall (ParenExpr e) = isCall e"
| "isCall _ = False"

fun hasIndexSets :: "fir_tensor_type \<Rightarrow> bool" where
  "hasIndexSets (ScalarType _) = True"
| "hasIndexSets (NDTensorType ss _ _) = (ss \<noteq> [])"

fun plainDecl :: "fir_tensor_type option \<Rightarrow> 'd fir_expr option \<Rightarrow> bool" where
  "plainDecl (Some t) _ = hasIndexSets t"
| "plainDecl None (Some e) = (\<not> isCall e)"
| "plainDecl None None = False"

fun plainStmt :: "'d fir_stmt \<Rightarrow> bool" where
  "plainStmt (StmtBlock ss) = list_all plainStmt ss"
| "plainStmt (VarDecl _ type init) = plainDecl type init"
| "plainStmt (ConstDecl _ type init) = plainDecl type (Some init)"
| "plainStmt (IVarDecl _) = False"
| "plainStmt (WhileStmt _ body) = plainStmt body"
| "plainStmt (DoWhileStmt body _) = plainStmt body"
| "plainStmt (IfStmt _ a b) = (plainStmt a \<and> (case b of None \<Rightarrow> True | Some b' \<Rightarrow> plainStmt b'))"
| "plainStmt (ForStmt _ _ body) = plainStmt body"
| "plainStmt _ = True"

text \<open>An environment in which all declarations so far were accepted, with at least one scope in both tables.\<close>

definition prog_ok :: "prog_env \<Rightarrow> bool" where
  "prog_ok p \<longleftrightarrow> env_ok (viewEnv p) \<and> scopes (env_symbols (pe_env p)) \<noteq> [] \<and> scopes (pe_decls p) \<noteq> []"

end
