(* ===== verification/Program_Check_Logic.thy ===== *)
theory Program_Check_Logic
  imports Program_Typing Type_Check_Correct
begin

text \<open>
  Facts about the checks of expressions and statements that hold in every environment, also after errors: errors are
  only appended, and the bindings outside of the current scope stay as they are.
\<close>

section \<open>Errors are only appended\<close>

lemma grows_type [grows_rules]:
  "(\<And>x. grows (a x)) \<Longrightarrow> (\<And>x. grows (b x)) \<Longrightarrow> (\<And>x. grows (c x)) \<Longrightarrow> (\<And>x y. grows (d x y)) \<Longrightarrow> (\<And>x. grows (e x)) \<Longrightarrow>
   grows f \<Longrightarrow> grows g \<Longrightarrow>
   grows (case t of CElement x \<Rightarrow> a x | CSetType x \<Rightarrow> b x | CNamedTuple x \<Rightarrow> c x | CUnnamedTuple x y \<Rightarrow> d x y | CTensor x \<Rightarrow> e x
     | COpaque \<Rightarrow> f | CIVar \<Rightarrow> g)"
  by (cases t) simp_all

lemma grows_prod [grows_rules]: "(\<And>x y. grows (k x y)) \<Longrightarrow> grows (case v of (x, y) \<Rightarrow> k x y)"
  by (cases v) simp

lemma grows_result [grows_rules]: "(\<And>x. grows (a x)) \<Longrightarrow> (\<And>x. grows (k x)) \<Longrightarrow> grows (case v of Inl x \<Rightarrow> a x | Inr x \<Rightarrow> k x)"
  by (cases v) simp_all

lemma grows_operators [grows_rules]:
  "grows l \<Longrightarrow> grows r \<Longrightarrow> grows (typeCheckBinaryBoolean env l r)"
  "grows l \<Longrightarrow> grows r \<Longrightarrow> grows (typeCheckBinaryElwise env b l r)"
  "grows l \<Longrightarrow> grows r \<Longrightarrow> grows (visitMulExpr env l r)"
  "grows l \<Longrightarrow> grows r \<Longrightarrow> grows (visitDivExpr env l r)"
  "grows l \<Longrightarrow> grows r \<Longrightarrow> grows (visitLeftDivExpr env l r)"
  "grows l \<Longrightarrow> grows (visitNotExpr env l)"
  "grows l \<Longrightarrow> grows (visitNegExpr env l)"
  "grows l \<Longrightarrow> grows (visitTransposeExpr env l)"
  "\<forall>m \<in> set ms. grows m \<Longrightarrow> grows (visitEqExpr env ms)"
  unfolding typeCheckBinaryBoolean_def typeCheckBinaryElwise_def visitMulExpr_def visitDivExpr_def visitLeftDivExpr_def
    visitNotExpr_def visitNegExpr_def visitTransposeExpr_def visitEqExpr_def Let_def
  by (intro grows_rules grows_eqOperands; assumption)+

lemma grows_reads [grows_rules]:
  "(\<And>b. grows (m b)) \<Longrightarrow> list_all growing cs \<Longrightarrow> grows (visitTensorReadExpr env a var m cs)"
  "grows l \<Longrightarrow> \<forall>m \<in> set ms. grows m \<Longrightarrow> grows (visitSetReadExpr env l ms)"
  "grows l \<Longrightarrow> grows (visitNamedTupleReadExpr env l name)"
  "grows l \<Longrightarrow> grows r \<Longrightarrow> grows (visitUnnamedTupleReadExpr env l r)"
  "grows l \<Longrightarrow> grows (visitFieldReadExpr env var l f)"
  "grows (visitVarExpr env x)"
  "grows (typeCheckDenseTensorLiteral lit)"
  unfolding visitTensorReadExpr_def visitSetReadExpr_def visitNamedTupleReadExpr_def visitUnnamedTupleReadExpr_def
    visitFieldReadExpr_def visitVarExpr_def typeCheckDenseTensorLiteral_def hasSymbol_def getSymbol_def Let_def
  by (auto intro!: grows_rules grows_readTensor grows_setReadIndices split: dense_result.split error.split)

lemma grows_calls [grows_rules]:
  "\<forall>m \<in> set ms. grows m \<Longrightarrow> grows (visitCallExpr env f gs ms)"
  "\<forall>m \<in> set ms. grows m \<Longrightarrow> grows (typeCheckMapOrApply env b f gs ms target thr)"
  unfolding visitCallExpr_def typeCheckMapOrApply_def callArgs_checkEach mapArgs_checkEach Let_def
  by (intro grows_rules grows_checkEach; assumption)+

lemma grows_inferType [grows_rules]: "grows (inferType env e allow)"
proof (induction e arbitrary: allow)
  case (TensorReadExpr e "is")
  then show ?case
    by (auto simp: list_all_iff growing_def intro!: grows_rules split: option.split)
qed (simp_all only: inferType.simps, (intro grows_rules; auto)+)

lemma grows_typeCheckNode [grows_rules]: "grows m \<Longrightarrow> grows (typeCheckNode m)"
  unfolding grows_def typeCheckNode_def by (force simp: rbind_eq_Inr)

lemma grows_visitIndexSets [grows_rules]: "grows (visitIndexSets env ss)"
  by (induction ss) (auto intro!: grows_rules)

lemma grows_visitTensorType [grows_rules]: "grows (visitTensorType env t)"
  by (induction t) (auto intro!: grows_rules)

lemma grows_varType [grows_rules]: "grows (checkVarType env isConst isGlobal t init)"
  unfolding checkVarType_def checkInit_def Let_def by (auto intro!: grows_rules split: c_tensor.split)

lemma grows_redefinition [grows_rules]: "grows (reportRedefinition a x)" "grows (hasCurrent p x)" "grows resetIndexExpr"
  unfolding reportRedefinition_def hasCurrent_def resetIndexExpr_def using grows_basic(9) [of "\<lambda>_. False"] by (intro grows_rules)+

lemma grows_decl [grows_rules]: "grows (typeCheckVarOrConstDecl p isConst isGlobal name type init)"
  unfolding typeCheckVarOrConstDecl_def Let_def by (intro grows_rules)

lemma grows_forDomain [grows_rules]: "grows (visitForDomain env d)"
  by (cases d) (auto intro!: grows_rules)

lemma grows_printArgs [grows_rules]: "grows (visitPrintArgs env es)"
  by (induction es) (auto intro!: grows_rules)

lemma grows_targets [grows_rules]: "grows (visitTargets p es)"
  by (induction es arbitrary: p) (auto intro!: grows_rules)

lemma grows_checkTarget [grows_rules]: "grows (checkTarget env t v)"
  unfolding checkTarget_def by (intro grows_rules)

lemma grows_checkTargets [grows_rules]: "grows (checkTargets env ts vs)"
  by (induction env ts vs rule: checkTargets.induct) (auto intro!: grows_rules)

lemma grows_assign [grows_rules]: "grows (visitAssignStmt p es e)"
  unfolding visitAssignStmt_def by (intro grows_rules)

lemma grows_scopedBody [grows_rules]: "(\<And>q. grows (body q)) \<Longrightarrow> grows (scopedBody body p)"
  unfolding scopedBody_def by (intro grows_rules)

lemma grows_visitStmt:
  "grows (visitStmt p (st :: 'd fir_stmt))" "grows (visitStmts p (ss :: 'd fir_stmt list))"
proof (induction p st and p ss rule: visitStmt_visitStmts.induct)
  case (4 p name)
  then show ?case by (simp add: visitIVarDecl_def) (intro grows_rules)
next
  case (7 p c a b)
  then show ?case by (cases b) (simp; intro grows_rules; simp add: checkCondition_def grows_basic)+
qed (simp_all add: Let_def, (intro grows_rules; auto simp: checkCondition_def intro: grows_rules)+)

declare grows_visitStmt [grows_rules]

section \<open>Scopes\<close>

text \<open>What is bound outside of the current scope, in the tables of both passes.\<close>

definition outer :: "prog_env \<Rightarrow> (string, c_type option \<times> Access) scoped_map result \<times> (string, nat option) scoped_map result" where
  "outer p = (unscope (env_symbols (pe_env p)), unscope (pe_decls p))"

definition keeps :: "prog_env \<Rightarrow> prog_env tc \<Rightarrow> bool" where
  "keeps p m \<longleftrightarrow> (\<forall>s p' s'. m s = Inr (p', s') \<longrightarrow> outer p' = outer p)"

lemma outer_addSymbol: "addSymbol name t acc p = Inr p' \<Longrightarrow> outer p' = outer p"
  by (auto simp: addSymbol_def rbind_eq_Inr outer_def scoped.leave_bind)

lemma outer_addDecl: "addDecl name d p = Inr p' \<Longrightarrow> outer p' = outer p"
  by (auto simp: addDecl_def rbind_eq_Inr outer_def scoped.leave_bind)

lemma outer_leaveScope: "outer q = outer (enterScope p) \<Longrightarrow> leaveScope q = Inr p' \<Longrightarrow> outer p' = outer p"
  by (auto simp: outer_def leaveScope_def enterScope_def rbind_eq_Inr scoped.leave_enter)

lemma outer_declareTarget: "declareTarget p e = Inr p' \<Longrightarrow> outer p' = outer p"
  by (auto simp: declareTarget_def rbind_eq_Inr outer_addDecl split: option.splits if_splits)

lemma outer_declareTargets: "declareTargets p i es t = Inr p' \<Longrightarrow> outer p' = outer p"
  by (induction p i es t rule: declareTargets.induct)
    (fastforce simp: rbind_eq_Inr dest: outer_addSymbol split: option.splits if_splits)+

lemma tbind_Inr: "tbind m f s = Inr (y, s') \<longleftrightarrow> (\<exists>x s1. m s = Inr (x, s1) \<and> f x s1 = Inr (y, s'))"
  by (auto simp: tbind_def rbind_eq_Inr)

lemma typeCheckNode_Inr: "typeCheckNode m s = Inr (y, s') \<Longrightarrow> \<exists>s0 s1. m s0 = Inr (snd y, s1)"
  unfolding typeCheckNode_def by (force simp: rbind_eq_Inr)

lemma keeps_ret: "outer p' = outer p \<Longrightarrow> keeps p (tret p')"
  by (simp add: keeps_def tret_def)

lemma keeps_lift: "(\<And>p'. r = Inr p' \<Longrightarrow> outer p' = outer p) \<Longrightarrow> keeps p (tlift r)"
  by (auto simp: keeps_def tlift_def rbind_eq_Inr)

lemma keeps_bind: "(\<And>x. keeps p (f x)) \<Longrightarrow> keeps p (tbind m f)"
  unfolding keeps_def tbind_def by (auto simp: rbind_eq_Inr)

lemma keeps_bind_lift: "(\<And>x. r = Inr x \<Longrightarrow> keeps p (f x)) \<Longrightarrow> keeps p (tbind (tlift r) f)"
  by (auto simp: keeps_def tbind_Inr tlift_def rbind_eq_Inr)

lemma keeps_then: "keeps p k \<Longrightarrow> keeps p (tthen m k)"
  by (simp add: tthen_def keeps_bind)

lemma keeps_bind_env: "keeps p m \<Longrightarrow> (\<And>p'. outer p' = outer p \<Longrightarrow> keeps p (f p')) \<Longrightarrow> keeps p (tbind m f)"
  unfolding keeps_def tbind_Inr by metis

lemma keeps_node: "keeps p m \<Longrightarrow> (\<And>b p'. outer p' = outer p \<Longrightarrow> keeps q (f (b, p'))) \<Longrightarrow> keeps q (tbind (typeCheckNode m) f)"
  unfolding keeps_def tbind_Inr by (metis typeCheckNode_Inr prod.collapse)

lemma keeps_scopedBody: "(\<And>q. keeps q (body q)) \<Longrightarrow> keeps p (scopedBody body p)"
  unfolding scopedBody_def
  by (rule keeps_node [of "enterScope p"]) (auto intro!: keeps_lift dest: outer_leaveScope)

lemma keeps_cong: "outer q = outer p \<Longrightarrow> keeps q m \<Longrightarrow> keeps p m"
  by (simp add: keeps_def)

lemma keeps_decl: "keeps p (typeCheckVarOrConstDecl p isConst isGlobal name type init)"
  unfolding typeCheckVarOrConstDecl_def Let_def
  by (intro keeps_bind keeps_then keeps_bind_env [OF keeps_lift]) (auto intro!: keeps_lift dest: outer_addSymbol outer_addDecl)

lemma outer_visitTargets: "visitTargets p es s = Inr ((ts, p'), s') \<Longrightarrow> outer p' = outer p"
proof (induction es arbitrary: p ts s s')
  case (Cons e es)
  then obtain q s1 ts1 s2 where q: "declareTarget p e = Inr q" and "visitTargets q es s1 = Inr ((ts1, p'), s2)"
    by (auto simp: tbind_Inr tlift_def rbind_eq_Inr tret_def split: prod.splits)
  with Cons.IH [of q s1 ts1 s2] outer_declareTarget [OF q] show ?case by simp
qed (simp add: tret_def)

lemma keeps_assign: "keeps p (visitAssignStmt p es e)"
proof -
  have *: "keeps p (tbind (visitTargets p es) f)" if "\<And>ts p'. outer p' = outer p \<Longrightarrow> keeps p (f (ts, p'))" for f
    using that unfolding keeps_def tbind_Inr by (metis outer_visitTargets prod.collapse)
  show ?thesis unfolding visitAssignStmt_def
    by (intro keeps_bind keeps_then *, unfold prod.case, intro keeps_bind keeps_then keeps_bind_env [OF keeps_lift])
      (auto intro!: keeps_ret dest: outer_declareTargets)
qed

lemma keeps_visitStmt:
  "keeps p (visitStmt p (st :: 'd fir_stmt))" "keeps p (visitStmts p (ss :: 'd fir_stmt list))"
proof (induction p st and p ss rule: visitStmt_visitStmts.induct)
  case (4 p name)
  then show ?case unfolding visitStmt.simps visitIVarDecl_def
    by (intro keeps_bind keeps_then keeps_lift) (auto dest: outer_addSymbol)
next
  case (5 p c body)
  then show ?case unfolding visitStmt.simps
    by (intro keeps_bind keeps_bind_env [OF keeps_scopedBody] keeps_then keeps_ret)
next
  case (6 p body c)
  then show ?case unfolding visitStmt.simps
    by (intro keeps_bind keeps_bind_env [OF keeps_scopedBody] keeps_then keeps_ret)
next
  case (7 p c a b)
  have b: "keeps p' (case b of None \<Rightarrow> tret p' | Some body \<Rightarrow> scopedBody (\<lambda>p. visitStmt p body) p')" for p'
    using 7(2) by (cases b) (auto intro!: keeps_ret keeps_scopedBody)
  show ?case unfolding visitStmt.simps
    by (intro keeps_bind keeps_bind_env [OF keeps_scopedBody [OF 7(1)]] keeps_bind_env [OF keeps_cong [OF _ b]] keeps_then keeps_ret)
next
  case (8 p x d body)
  show ?case unfolding visitStmt.simps Let_def case_prod_unfold
  proof (rule keeps_bind, rule keeps_bind_lift, rule keeps_bind_lift, goal_cases)
    case (1 _ t q)
    then have "outer q = outer (enterScope p)"
      by (auto simp: rbind_eq_Inr) (metis outer_addSymbol outer_addDecl)
    then show ?case
      by (intro keeps_node [OF 8]) (auto intro!: keeps_lift dest: outer_leaveScope)
  qed
next
  case (14 p st ss)
  show ?case unfolding visitStmts.simps
    by (rule keeps_node [OF 14(1)]) (auto intro: keeps_cong 14(2))
qed (simp_all add: keeps_decl keeps_assign keeps_ret keeps_bind keeps_then)

end
