(* ===== verification/Program_Check_Correct.thy ===== *)
theory Program_Check_Correct
  imports Program_Check_Logic
begin

text \<open>
  The checker of statements refines the reference: it accepts a statement exactly if the typing rules do, and leaves
  the environment they give.
\<close>

section \<open>Environments\<close>

lemma viewEnv_simps [simp]:
  "env_symbols (viewEnv p) = env_symbols (pe_env p)" "env_funcs (viewEnv p) = env_funcs (pe_env p)"
  "env_elements (viewEnv p) = env_elements (pe_env p)" "env_sets (viewEnv p) = env_sets (pe_env p)"
  "skipCheckDeclared (viewEnv p) = skipCheckDeclared (pe_env p)" "lookup (viewEnv p) x = lookup (pe_env p) x"
  by (simp_all add: viewEnv_def lookup_def)

lemma env_ok_viewEnv [simp]: "env_ok (viewEnv p) = env_ok (pe_env p)"
  by (simp add: env_ok_def)

lemma lookup_look: "lookup env x = look_symbol (env_symbols env) x"
  by (simp add: lookup_def look_symbol_def)

lemma env_ok_table:
  assumes "env_ok env" and "\<And>x. look_symbol table x = look_symbol (env_symbols env) x \<or> (\<exists>t acc. look_symbol table x = Some (Some t, acc) \<and> wf_type t)"
  shows "env_ok (env\<lparr>env_symbols := table\<rparr>)"
proof -
  have "\<exists>u. t = Some u \<and> wf_type u" if "look_symbol table x = Some (t, acc)" for x t acc
    using assms(2) [of x] that env_ok_symbol [OF assms(1), of x "(t, acc)"] by (auto simp: lookup_look)
  then show ?thesis using assms(1) by (auto simp: env_ok_def lookup_look)
qed

lemma recordSource_other: "(\<And>a. t \<noteq> CSetType a) \<Longrightarrow> recordSource name (Some t) sets = sets"
  by (cases t) (auto simp: recordSource_def)

lemma addSymbol_ok:
  assumes "prog_ok p" and "wf_type t" and t: "\<And>a. t \<noteq> CSetType a"
  obtains p' where "addSymbol name (Some t) acc p = Inr p'" "prog_ok p'" "leaveScope p' = leaveScope p"
    "pe_decls p' = pe_decls p" "env_sets (pe_env p') = env_sets (pe_env p)" "\<And>x. setDefs p' x = setDefs p x"
proof -
  let ?e = "pe_env p"
  have "0 < Scoped_Map.levels (env_symbols ?e)" using assms(1) by (simp add: prog_ok_def levels_def)
  then obtain table where table: "insert_symbol name (Some t, acc) (env_symbols ?e) = Inr table"
    using scoped.bind_total [of "env_symbols ?e" name "(Some t, acc)"] by blast
  let ?p = "p\<lparr>pe_env := ?e\<lparr>env_symbols := table\<rparr>\<rparr>"
  have add: "addSymbol name (Some t) acc p = Inr ?p"
    by (simp add: addSymbol_def table recordSource_other [OF t])
  have "env_ok (?e\<lparr>env_symbols := table\<rparr>)"
    using assms(1,2) scoped.look_bind [OF table] by (intro env_ok_table) (auto simp: prog_ok_def)
  moreover have "scopes table \<noteq> []" using table assms(1) by (auto simp: insert_symbol_def prog_ok_def split: list.splits)
  ultimately have "prog_ok ?p" using assms(1) by (simp add: prog_ok_def)
  moreover have "leaveScope ?p = leaveScope p"
    using scoped.leave_bind [OF table] by (simp add: leaveScope_def)
  ultimately show ?thesis using that [OF add] by (simp add: setDefs_def)
qed

lemma addDecl_ok:
  assumes "prog_ok p"
  obtains p' where "addDecl name d p = Inr p'" "prog_ok p'" "leaveScope p' = leaveScope p" "pe_env p' = pe_env p"
proof -
  have "0 < Scoped_Map.levels (pe_decls p)" using assms by (simp add: prog_ok_def levels_def)
  then obtain table where table: "insert_symbol name d (pe_decls p) = Inr table"
    using scoped.bind_total [of "pe_decls p" name d] by blast
  have "scopes table \<noteq> []" using table assms by (auto simp: insert_symbol_def prog_ok_def split: list.splits)
  then have "prog_ok (p\<lparr>pe_decls := table\<rparr>)" using assms by (simp add: prog_ok_def)
  moreover have "leaveScope (p\<lparr>pe_decls := table\<rparr>) = leaveScope p"
    using scoped.leave_bind [OF table] by (simp add: leaveScope_def)
  ultimately show ?thesis using that [of "p\<lparr>pe_decls := table\<rparr>"] by (simp add: addDecl_def table)
qed

lemma bindVar_ok:
  assumes "prog_ok p" and "wf_type t" and "\<And>a. t \<noteq> CSetType a"
  obtains p' where "bindVar name t acc p = Some p'" "prog_ok p'" "leaveScope p' = leaveScope p"
proof -
  obtain q where q: "addSymbol name (Some t) acc p = Inr q" "prog_ok q" "leaveScope q = leaveScope p"
    using addSymbol_ok [OF assms, of name acc] by metis
  obtain r where r: "addDecl name None q = Inr r" "prog_ok r" "leaveScope r = leaveScope q"
    using addDecl_ok [OF q(2), of name None] by metis
  show ?thesis by (rule that [of r]) (use q r in \<open>simp_all add: bindVar_def succeed_def\<close>)
qed

lemma leave_enterScope: "leaveScope (enterScope p) = Inr p"
  by (simp add: leaveScope_def enterScope_def scoped.leave_enter)

lemma prog_ok_enterScope: "prog_ok p \<Longrightarrow> prog_ok (enterScope p)"
proof -
  assume p: "prog_ok p"
  have "env_ok ((pe_env p)\<lparr>env_symbols := scope Map.empty (env_symbols (pe_env p))\<rparr>)"
    using p by (intro env_ok_table) (auto simp: prog_ok_def scoped.look_enter)
  then show ?thesis by (simp add: prog_ok_def enterScope_def scope_def)
qed

text \<open>What an accepted statement leaves: a good environment that differs in the current scope only.\<close>

definition leaves :: "prog_env \<Rightarrow> prog_env option \<Rightarrow> bool" where
  "leaves p v \<longleftrightarrow> (\<forall>p'. v = Some p' \<longrightarrow> prog_ok p' \<and> leaveScope p' = leaveScope p)"

lemma leaves_same: "prog_ok p \<Longrightarrow> leaves p (demand c (Some p))"
  by (simp add: leaves_def demand_def)

lemma leaves_demand: "(c \<Longrightarrow> leaves p v) \<Longrightarrow> leaves p (demand c v)"
  by (simp add: leaves_def demand_def)

lemma leaves_bindVar: "prog_ok p \<Longrightarrow> wf_type t \<Longrightarrow> (\<And>a. t \<noteq> CSetType a) \<Longrightarrow> leaves p (bindVar name t acc p)"
  using bindVar_ok [of p t name acc] by (metis leaves_def option.inject)

section \<open>Declarations\<close>

lemma demand_if: "demand c v = (if c then v else None)"
  by (simp add: demand_def)

lemma refines_typeCheckNode: "refines m v \<Longrightarrow> refines (typeCheckNode m) (map_option (Pair True) v)"
proof -
  assume m: "refines m v"
  have eq: "typeCheckNode m s = rbind (m s) (\<lambda>(x, s'). Inr ((retTypeChecked s', x), s'\<lparr>retTypeChecked := True\<rparr>))"
    if "ready s" for s
    using that by (cases s) (simp add: typeCheckNode_def ready_def)
  show ?thesis
  proof (cases v)
    case None
    then show ?thesis using m eq grows_typeCheckNode [OF refines_grows [OF m]]
      by (fastforce simp: refines_def rbind_eq_Inr)
  next
    case (Some x)
    then show ?thesis using m eq grows_typeCheckNode [OF refines_grows [OF m]]
      by (auto simp: refines_def ready_def)
  qed
qed

lemma accepts_typeCheck: "accepts m P \<Longrightarrow> refines (typeCheck m) (if P then Some True else None)"
  unfolding accepts_def by (drule refines_typeCheck) (simp split: if_splits)

lemma refines_checkedNode:
  assumes "accepts m P" and "P \<Longrightarrow> refines (k True) v" and "\<And>b. grows (k b)"
  shows "refines (tbind (typeCheck m) k) (if P then v else None)"
  using accepts_typeCheck [OF assms(1)] assms(2,3) by (cases P) (auto intro: refines_bind_Some refines_bind_None)

lemma accepts_visitIndexSets:
  assumes "env_ok env"
  shows "accepts (visitIndexSets env ss) (list_all (setOk env) ss)"
proof (induction ss)
  case Nil
  then show ?case by (simp add: accepts_def refines_ret)
next
  case (Cons s ss)
  have "refines (tbind getChecked (\<lambda>checked. tthen (setChecked (True \<and> checked)) (visitIndexSets env ss)))
      (if list_all (setOk env) ss then Some () else None)"
    using Cons.IH unfolding accepts_def
    by (intro refines_bind_Some [OF refines_getChecked] grows_rules) (simp add: refines_then_Some [OF refines_setChecked])
  then have "refines (visitIndexSets env (s # ss))
      (if setOk env s then if list_all (setOk env) ss then Some () else None else None)"
    unfolding visitIndexSets.simps by (rule refines_checkedNode [OF accepts_visitIndexSet [OF assms]]) (intro grows_rules)
  then show ?case by (auto simp: accepts_def split: if_splits)
qed

lemma accepts_tensorType:
  assumes "env_ok env"
  shows "accepts (visitTensorType env t) (tensorTypeOk env t)"
proof (induction t)
  case (CScalar c)
  then show ?case by (simp add: accepts_def refines_ret)
next
  case (CND ss b tr)
  let ?P = "list_all (setOk env) ss \<and> (case b of CND bs _ _ \<Rightarrow> length ss = length bs | _ \<Rightarrow> True) \<and> (tr \<longrightarrow> length ss = 1)"
  have rest: "accepts (tthen (visitIndexSets env ss)
     (tthen (reportIf (case b of CND blockSets _ _ \<Rightarrow> length ss \<noteq> length blockSets | _ \<Rightarrow> False) m)
     (reportIf (tr \<and> length ss \<noteq> 1) m'))) ?P" for m m'
    by (intro accepts_seq accepts_visitIndexSets [OF assms] accepts_reportIf grows_rules) (auto split: c_tensor.split)
  have "refines (visitTensorType env (CND ss b tr)) (if tensorTypeOk env b then if ?P then Some () else None else None)"
    unfolding visitTensorType.simps
    by (rule refines_checkedNode [OF CND])
      (use rest in \<open>auto simp: accepts_def intro!: refines_then_Some [OF refines_setChecked] grows_rules\<close>)
  then show ?case by (auto simp: accepts_def split: if_splits)
qed

lemma wf_tensorTypeOk: "tensorTypeOk env (CND ss b tr) \<Longrightarrow> wf_block (length ss) b"
proof (induction b arbitrary: ss tr)
  case (CND bs b tr')
  then show ?case using CND.IH [of bs tr'] by simp
qed simp

lemma wf_declared: "tensorTypeOk env (resolveTensor env t) \<Longrightarrow> hasIndexSets t \<Longrightarrow> wf_tensor (resolveTensor env t)"
  using wf_tensorTypeOk [of env] by (cases t) fastforce+

lemma single_types [simp]:
  "single (exprType [x] acc) = Some x" "single (tensorType t) = Some (CTensor t)" "single (scalarType c) = Some (CTensor (CScalar c))"
  by (simp_all add: single_def exprType_def tensorType_def scalarType_def)

lemma binaryType_single: "binaryType operand type l r = Some t \<Longrightarrow> \<exists>x. single t = Some x"
  by (auto simp: binaryType_def bind_eq_Some_conv)

lemma boolType_single: "boolType l r = Some t \<Longrightarrow> \<exists>x. single t = Some x"
  by (auto simp: boolType_def bind_eq_Some_conv split: if_split_asm)

lemma varType_single: "varType env y = Some t \<Longrightarrow> \<exists>x. single t = Some x"
  by (auto simp: varType_def split: option.split_asm)

lemma literalType_single: "literalType l = Some t \<Longrightarrow> \<exists>x. single t = Some x"
  by (auto simp: literalType_def split: dense_result.split_asm sum.split_asm)

lemma read_single:
  "tensorRead env t is = Some u \<Longrightarrow> \<exists>x. single u = Some x" "setElement env t n = Some u \<Longrightarrow> \<exists>x. single u = Some x"
  "namedRead t name = Some u \<Longrightarrow> \<exists>x. single u = Some x" "unnamedRead t it = Some u \<Longrightarrow> \<exists>x. single u = Some x"
  "fieldRead env var t f = Some u \<Longrightarrow> \<exists>x. single u = Some x"
proof -
  show "tensorRead env t is = Some u \<Longrightarrow> \<exists>x. single u = Some x"
    by (auto simp: tensorRead_def bind_eq_Some_conv split: if_split_asm)
  show "setElement env t n = Some u \<Longrightarrow> \<exists>x. single u = Some x"
    by (auto simp: setElement_def split: option.split_asm c_type.split_asm if_split_asm)
  show "namedRead t name = Some u \<Longrightarrow> \<exists>x. single u = Some x"
    by (auto simp: namedRead_def split: option.split_asm c_type.split_asm)
  show "unnamedRead t it = Some u \<Longrightarrow> \<exists>x. single u = Some x"
    by (auto simp: unnamedRead_def split: option.split_asm c_type.split_asm if_split_asm)
  show "fieldRead env var t f = Some u \<Longrightarrow> \<exists>x. single u = Some x"
    by (auto simp: fieldRead_def bind_eq_Some_conv split: option.split_asm c_type.split_asm if_split_asm)
qed

lemmas type_single = binaryType_single boolType_single varType_single literalType_single read_single

lemma typeOf_single: "typeOf env e = Some t \<Longrightarrow> \<not> isCall e \<Longrightarrow> \<exists>x. single t = Some x"
  by (induction e)
    (auto simp: bind_eq_Some_conv setRead_def intro: type_single split: if_split_asm)

lemma accepts_checkVarType:
  "accepts (checkVarType env isConst isGlobal (Some (CTensor t)) init)
    (\<not> et_defined init \<or> (case tensorOf init of Some u \<Rightarrow> initOk env isConst isGlobal t u | None \<Rightarrow> False))"
proof (cases "et_defined init")
  case False
  then show ?thesis by (simp add: checkVarType_def accepts_def refines_ret)
next
  case def: True
  show ?thesis
  proof (cases "tensorOf init")
    case None
    then show ?thesis using def
      by (auto simp: checkVarType_def checkInit_def tensorOf_def et_isTensor_def accepts_def Let_def
          intro!: refines_report split: option.splits c_type.splits)
  next
    case (Some u)
    then have u: "single init = Some (CTensor u)" by (auto simp: tensorOf_def split: option.splits c_type.splits)
    have special: "accepts (checkInit env isConst isGlobal t init) (initOk env isConst isGlobal t u)"
      if "\<not> compareTensors (env_sets env) t u False"
    proof (cases u)
      case (CScalar c)
      then show ?thesis using u that
        by (cases t; cases "tensor_getComponentType t = c"; cases isGlobal)
          (simp_all add: checkInit_def initOk_def accepts_def Let_def refines_report refines_ret)
    next
      case (CND us ub utr)
      then show ?thesis using u that
        by (cases t; cases isConst) (auto simp: checkInit_def initOk_def accepts_def Let_def reportIf_def refines_report refines_ret)
    qed
    show ?thesis
    proof (cases "compareTensors (env_sets env) t u False")
      case True
      then show ?thesis using def u Some
        by (simp add: checkVarType_def et_isTensor_def initOk_def accepts_def refines_ret)
    next
      case False
      then show ?thesis using def u Some special
        by (simp add: checkVarType_def et_isTensor_def)
    qed
  qed
qed

lemma initOk_cong: "env_sets e = env_sets e' \<Longrightarrow> initOk e = initOk e'"
  unfolding initOk_def [abs_def] by (simp only:)

lemma refines_lift: "refines (tlift r) (succeed r)"
  by (cases r) (simp_all add: succeed_def refines_ret refines_fail)

lemma hasCurrent_declared: "prog_ok p \<Longrightarrow> hasCurrent p name = tret (declaredHere p name)"
  by (auto simp: hasCurrent_def declaredHere_def contains_symbol_def prog_ok_def split: list.splits)

lemma refines_declare:
  fixes x :: c_type
  assumes ok: "prog_ok p"
  shows "refines
    (tbind (hasCurrent p name) (\<lambda>before.
     tthen (if before then reportRedefinition a name else tret ())
     (tbind (tlift (addSymbol name (Some x) acc p)) (\<lambda>p'.
      tthen (checkVarType (viewEnv p') isConst isGlobal (Some x) init) (tlift (addDecl name None p'))))))
    (demand (\<not> declaredHere p name \<and> (case x of CTensor t \<Rightarrow>
        \<not> et_defined init \<or> (case tensorOf init of Some u \<Rightarrow> initOk (viewEnv p) isConst isGlobal t u | None \<Rightarrow> False) | _ \<Rightarrow> False))
      (bindVar name x acc p))"
proof (cases "declaredHere p name")
  case True
  then show ?thesis unfolding hasCurrent_declared [OF ok]
    by (auto simp: demand_def reportRedefinition_def intro!: refines_report_then grows_rules)
next
  case new: False
  show ?thesis
  proof (cases "\<exists>t. x = CTensor t")
    case False
    then have "refines (checkVarType env isConst isGlobal (Some x) init) None" for env
      by (cases x) (auto simp: checkVarType_def refines_report)
    then have "refines (tbind (tlift (addSymbol name (Some x) acc p)) (\<lambda>p'.
        tthen (checkVarType (viewEnv p') isConst isGlobal (Some x) init) (tlift (addDecl name None p')))) None"
      by (intro refines_bind_any [OF refines_lift] refines_then_None grows_rules)
    then show ?thesis using False new unfolding hasCurrent_declared [OF ok]
      by (cases x) (simp_all add: demand_def)
  next
    case True
    then obtain t where t: "x = CTensor t" by blast
    have "0 < Scoped_Map.levels (env_symbols (pe_env p))" using ok by (simp add: prog_ok_def levels_def)
    then obtain q where q: "addSymbol name (Some x) acc p = Inr q" "env_sets (pe_env q) = env_sets (pe_env p)"
      using scoped.bind_total [of "env_symbols (pe_env p)" name "(Some x, acc)"]
      by (auto simp: addSymbol_def t recordSource_other)
    have init: "initOk (viewEnv q) = initOk (viewEnv p)" by (rule initOk_cong) (simp add: q(2))
    show ?thesis unfolding hasCurrent_declared [OF ok] using new t q(1)
        accepts_checkVarType [of "viewEnv q" isConst isGlobal t init, unfolded init]
      by (auto simp: demand_def bindVar_def accepts_def intro!: refines_then_Some refines_then_None refines_lift grows_rules
          split: if_splits)
  qed
qed

lemma refines_decl:
  fixes init :: "'d fir_expr option"
  assumes ok: "prog_ok p" and plain: "plainDecl type init"
  shows "refines (typeCheckVarOrConstDecl p isConst isGlobal name type init) (declType p isConst isGlobal name type init)"
proof -
  let ?env = "viewEnv p" and ?acc = "if isConst then ACC_READ else ACC_READ_WRITE"
  have env: "env_ok ?env" using ok by (simp add: prog_ok_def)
  let ?k = "\<lambda>x it. tbind (hasCurrent p name) (\<lambda>before.
     tthen (if before then reportRedefinition ''variable or constant'' name else tret ())
     (tbind (tlift (addSymbol name x ?acc p)) (\<lambda>p'.
      tthen (checkVarType (viewEnv p') isConst isGlobal x it) (tlift (addDecl name None p')))))"
  let ?m = "\<lambda>e. case e of None \<Rightarrow> tret (undefType ACC_NONE) | Some e \<Rightarrow> inferType ?env e False"
  note tail = refines_declare [OF ok, of name "''variable or constant''" _ ?acc isConst isGlobal]
  show ?thesis
  proof (cases type)
    case None
    then obtain e where e: "init = Some e" "\<not> isCall e" using plain by (cases init) auto
    have "refines (tbind (inferType ?env e False) (\<lambda>it. ?k (if et_defined it then (case single it of Some x \<Rightarrow> Some x | None \<Rightarrow> None) else None) it))
      (Option.bind (typeOf ?env e) (\<lambda>t. case single t of Some x \<Rightarrow>
        demand (\<not> declaredHere p name \<and> (case x of CTensor t' \<Rightarrow> initOk ?env isConst isGlobal t' t' | _ \<Rightarrow> False)) (bindVar name x ?acc p)))"
    proof (rule refines_bind [OF checks_refines [OF checks_inferType [OF env]]], goal_cases)
      case (2 t)
      then obtain x where x: "single t = Some x" using typeOf_single e(2) by blast
      have "et_defined t" using 2 checks_inferType [OF env, of e False] by (auto simp: checks_def good_def)
      with x tail [of x t] show ?case by (cases x) (simp_all add: tensorOf_def)
    qed (intro grows_rules)
    moreover have "declType p isConst isGlobal name type init = (Option.bind (typeOf ?env e) (\<lambda>t. case single t of Some x \<Rightarrow>
        demand (\<not> declaredHere p name \<and> (case x of CTensor t' \<Rightarrow> initOk ?env isConst isGlobal t' t' | _ \<Rightarrow> False)) (bindVar name x ?acc p)))"
      using None e typeOf_single [OF _ e(2), of ?env]
      by (cases "typeOf ?env e") (auto simp: declType_def Let_def demand_def tensorOf_def split: c_type.split)
    ultimately show ?thesis
      using None e by (simp add: typeCheckVarOrConstDecl_def Let_def)
  next
    case (Some ty)
    let ?t = "resolveTensor ?env ty"
    let ?v = "\<lambda>it. demand (\<not> declaredHere p name \<and> (\<not> et_defined it \<or>
        (case tensorOf it of Some u \<Rightarrow> initOk ?env isConst isGlobal ?t u | None \<Rightarrow> False))) (bindVar name (CTensor ?t) ?acc p)"
    have rest: "refines (tbind (?m init) (\<lambda>it. ?k (Some (CTensor ?t)) it))
      (Option.bind (case init of None \<Rightarrow> Some (undefType ACC_NONE) | Some e \<Rightarrow> typeOf ?env e) ?v)"
    proof (rule refines_bind, goal_cases)
      case 1
      then show ?case using checks_refines [OF checks_inferType [OF env]] by (cases init) (auto simp: refines_ret)
    next
      case (3 it)
      then show ?case using tail [of "CTensor ?t" it] by simp
    qed (intro grows_rules)
    have "refines (tbind (typeCheck (visitTensorType ?env ?t)) (\<lambda>ok.
        tbind (?m init) (\<lambda>it. ?k (if ok then Some (CTensor ?t) else None) it)))
      (if tensorTypeOk ?env ?t then
         Option.bind (case init of None \<Rightarrow> Some (undefType ACC_NONE) | Some e \<Rightarrow> typeOf ?env e) ?v else None)"
      by (rule refines_checkedNode [OF accepts_tensorType [OF env]]) (use rest in \<open>auto intro!: grows_rules\<close>)
    moreover have "declType p isConst isGlobal name type init = (if tensorTypeOk ?env ?t then
         Option.bind (case init of None \<Rightarrow> Some (undefType ACC_NONE) | Some e \<Rightarrow> typeOf ?env e) ?v else None)"
      using checks_inferType [OF env, of _ False] unfolding Some
      by (cases init)
        (auto simp: declType_def Let_def demand_def undefType_def checks_def good_def bind_eq_None_conv split: Option.bind_split option.split)
    moreover have "typeCheckVarOrConstDecl p isConst isGlobal name type init =
      tbind (typeCheck (visitTensorType ?env ?t)) (\<lambda>ok.
        tbind (?m init) (\<lambda>it. ?k (if ok then Some (CTensor ?t) else None) it))"
      unfolding Some typeCheckVarOrConstDecl_def Let_def option.case tbind_assoc tbind_simps by simp
    ultimately show ?thesis by simp
  qed
qed

lemma leaves_decl:
  fixes init :: "'d fir_expr option"
  assumes ok: "prog_ok p" and plain: "plainDecl type init"
  shows "leaves p (declType p isConst isGlobal name type init)"
proof -
  have env: "env_ok (viewEnv p)" using ok by (simp add: prog_ok_def)
  have bind: "wf_tensor t \<Longrightarrow> leaves p (bindVar name (CTensor t) acc p)" for t acc
    using ok by (intro leaves_bindVar) auto
  have wf: "wf_tensor (resolveTensor (viewEnv p) t)" if "type = Some t" "tensorTypeOk (viewEnv p) (resolveTensor (viewEnv p) t)" for t
    using that plain by (auto intro: wf_declared)
  have init_wf: "wf_tensor u" if "typeOf (viewEnv p) e = Some t" "tensorOf t = Some u" for e :: "'d fir_expr" and t u
    using checks_inferType [OF env, of e False] that by (auto simp: checks_def tensorOf_def split: option.splits c_type.splits dest: good_single)
  show ?thesis
    unfolding declType_def Let_def
    by (cases type; cases init; intro leaves_demand)
      (auto simp: leaves_def [of p None] bind_eq_Some_conv intro!: leaves_demand bind wf dest: init_wf split: Option.bind_split option.split)
qed

section \<open>Statements\<close>

lemma refines_scopedBody:
  assumes "refines (body (enterScope p)) v" and "leaves (enterScope p) v" and "\<And>q. grows (body q)"
  shows "refines (scopedBody body p) (demand (v \<noteq> None) (Some p))"
proof -
  have "refines (scopedBody body p) (Option.bind (map_option (Pair True) v) (\<lambda>(_, p'). succeed (leaveScope p')))"
    unfolding scopedBody_def
    by (rule refines_bind [OF refines_typeCheckNode [OF assms(1)]]) (auto intro!: grows_rules refines_lift)
  moreover have "Option.bind (map_option (Pair True) v) (\<lambda>(_, p'). succeed (leaveScope p')) = demand (v \<noteq> None) (Some p)"
    using assms(2) by (cases v) (auto simp: leaves_def demand_def leave_enterScope succeed_def)
  ultimately show ?thesis by simp
qed

lemma refines_infer: "prog_ok p \<Longrightarrow> refines (inferType (viewEnv p) e allow) (typeOf (viewEnv p) e)"
  by (intro checks_refines checks_inferType) (simp add: prog_ok_def)

lemma typeOf_defined: "prog_ok p \<Longrightarrow> typeOf (viewEnv p) e = Some t \<Longrightarrow> et_defined t"
  using checks_inferType [of "viewEnv p" e False] by (auto simp: prog_ok_def checks_def good_def)

text \<open>A statement with a condition: its parts are checked, then the condition is.\<close>

lemma refines_condition:
  assumes ok: "prog_ok p" and body: "refines m (demand P (Some p))" and gk: "grows m"
  shows "refines (tbind (inferType (viewEnv p) c False) (\<lambda>ct. tbind m (\<lambda>p'. tthen (checkCondition (viewEnv p') ct) (tret p'))))
    (demand (condOk (viewEnv p) c \<and> P) (Some p))"
proof -
  have cond: "refines (tthen (checkCondition env ct) (tret q)) (demand (isScalarType SC_BOOL ct) (Some q))" if "et_defined ct" for env ct q
    using that by (auto simp: checkCondition_def demand_def intro!: refines_report_then refines_ret grows_rules)
  have "refines (tbind (inferType (viewEnv p) c False) (\<lambda>ct. tbind m (\<lambda>p'. tthen (checkCondition (viewEnv p') ct) (tret p'))))
    (Option.bind (typeOf (viewEnv p) c) (\<lambda>ct. Option.bind (demand P (Some p)) (\<lambda>q. demand (isScalarType SC_BOOL ct) (Some q))))"
    by (intro refines_bind [OF refines_infer [OF ok]] refines_bind [OF body] cond)
      (auto intro!: grows_rules gk simp: checkCondition_def typeOf_defined [OF ok])
  moreover have "(Option.bind (typeOf (viewEnv p) c) (\<lambda>ct. Option.bind (demand P (Some p)) (\<lambda>q. demand (isScalarType SC_BOOL ct) (Some q)))) =
      demand (condOk (viewEnv p) c \<and> P) (Some p)"
    by (cases "typeOf (viewEnv p) c") (auto simp: condOk_def demand_def)
  ultimately show ?thesis by simp
qed

lemma refines_forDomain:
  fixes d :: "'d for_domain"
  assumes ok: "prog_ok p" and gk: "\<And>t. grows (k t)" and k: "\<And>t. domainVar (viewEnv p) d = Some t \<Longrightarrow> refines (k (Some t)) (v t)"
  shows "refines (tbind (typeCheckNode (visitForDomain (viewEnv p) d)) (\<lambda>(typeChecked, _).
      tbind (tlift (loopVarType (viewEnv p) d typeChecked)) k)) (Option.bind (domainVar (viewEnv p) d) v)"
proof (cases d)
  case (IndexSetDomain s)
  let ?s = "resolveIndexSet (viewEnv p) s"
  have env: "env_ok (viewEnv p)" using ok by (simp add: prog_ok_def)
  have "refines (visitForDomain (viewEnv p) d) (if setOk (viewEnv p) ?s then Some () else None)"
    unfolding IndexSetDomain visitForDomain.simps
    by (rule refines_checkedNode [OF accepts_visitIndexSet [OF env]]) (auto intro: refines_setChecked grows_rules)
  note node = refines_typeCheckNode [OF this]
  show ?thesis
  proof (cases "setOk (viewEnv p) ?s")
    case False
    then show ?thesis using node IndexSetDomain
      by (auto simp: demand_def intro!: refines_bind_None grows_rules gk)
  next
    case True
    then have "refines (typeCheckNode (visitForDomain (viewEnv p) d)) (Some (True, ()))" using node by simp
    moreover have "refines (tbind (tlift (loopVarType (viewEnv p) d True)) k) (Option.bind (domainVar (viewEnv p) d) v)"
      using True IndexSetDomain k
      by (cases "setDef ?s") (auto simp: demand_def getSetDefinition_def refines_fail)
    ultimately show ?thesis by (auto intro!: refines_bind_Some grows_rules gk)
  qed
next
  case (RangeDomain l u)
  let ?P = "\<lambda>lt ut. isScalarType SC_INT lt \<and> isScalarType SC_INT ut"
  have "refines (visitForDomain (viewEnv p) d)
      (Option.bind (typeOf (viewEnv p) l) (\<lambda>lt. Option.bind (typeOf (viewEnv p) u) (\<lambda>ut. if ?P lt ut then Some () else None)))"
    unfolding RangeDomain visitForDomain.simps
  proof (intro refines_bind [OF refines_infer [OF ok]], goal_cases)
    case (3 lt ut)
    then have "et_defined lt" "et_defined ut" by (auto intro: typeOf_defined [OF ok])
    moreover have "accepts (tthen (reportIf (\<not> isScalarType SC_INT lt) m) (reportIf (\<not> isScalarType SC_INT ut) m')) (?P lt ut)" for m m'
      by (intro accepts_seq accepts_reportIf grows_rules) auto
    ultimately show ?case by (simp add: accepts_def)
  qed (intro grows_rules)+
  from refines_typeCheckNode [OF this] have node: "refines (typeCheckNode (visitForDomain (viewEnv p) d))
      (map_option (\<lambda>_. (True, ())) (domainVar (viewEnv p) d))"
    by (rule back_subst [of "refines _"])
      (cases "typeOf (viewEnv p) l"; cases "typeOf (viewEnv p) u"; auto simp: RangeDomain demand_def)
  show ?thesis
  proof (cases "domainVar (viewEnv p) d")
    case None
    then show ?thesis using node by (auto intro!: refines_bind_None grows_rules gk)
  next
    case (Some t)
    then have "t = CTensor (CScalar SC_INT)" by (auto simp: RangeDomain bind_eq_Some_conv demand_def split: if_splits)
    then have "refines (tbind (tlift (loopVarType (viewEnv p) d True)) k) (v t)" using k [OF Some] by (simp add: RangeDomain)
    then show ?thesis using node Some by (auto intro!: refines_bind_Some grows_rules gk)
  qed
qed

lemma accepts_printArgs:
  assumes "prog_ok p"
  shows "accepts (visitPrintArgs (viewEnv p) es) (list_all (\<lambda>e. case typeOf (viewEnv p) e of None \<Rightarrow> False | Some t \<Rightarrow> et_isTensor t) es)"
proof (induction es)
  case Nil
  then show ?case by (simp add: accepts_def refines_ret)
next
  case (Cons e es)
  show ?case
  proof (cases "typeOf (viewEnv p) e")
    case None
    then show ?thesis using refines_infer [OF assms, of e False]
      by (auto simp: accepts_def intro!: refines_bind_None grows_rules)
  next
    case (Some t)
    have "accepts (tthen (reportIf (et_defined t \<and> \<not> et_isTensor t) m) (visitPrintArgs (viewEnv p) es))
      (et_isTensor t \<and> list_all (\<lambda>e. case typeOf (viewEnv p) e of None \<Rightarrow> False | Some t \<Rightarrow> et_isTensor t) es)" for m
      using Cons.IH typeOf_defined [OF assms Some] by (intro accepts_seq accepts_reportIf grows_rules) auto
    then show ?thesis using refines_infer [OF assms, of e False] Some
      by (auto simp: accepts_def intro!: refines_bind_Some grows_rules)
  qed
qed

lemma refines_apply:
  fixes es :: "'d fir_expr list"
  assumes ok: "prog_ok p"
  shows "refines (tbind (typeCheckMapOrApply (viewEnv p) True f gs (map (\<lambda>e. inferType (viewEnv p) e False) es) target None) (\<lambda>_. tret p))
    (demand (applyOk (viewEnv p) f gs es target) (Some p))"
proof -
  let ?env = "viewEnv p"
  have env: "env_ok ?env" using ok by (simp add: prog_ok_def)
  have "list_all2 checks (map (\<lambda>e. inferType ?env e False) es) (map (typeOf ?env) es)"
    by (intro list_checks checks_inferType env)
  from refines_mapOrApply [OF env this, of True f gs target None]
  have "refines (tbind (typeCheckMapOrApply ?env True f gs (map (\<lambda>e. inferType ?env e False) es) target None) (\<lambda>_. tret p))
    (Option.bind (Option.bind (those (map (typeOf ?env) es)) (\<lambda>ts. Option.bind (mapType ?env f gs ts (resolveIndexSet ?env target) None) (\<lambda>t.
       if et_types t \<noteq> [] then None else Some t))) (\<lambda>_. Some p))"
    by (intro refines_bind) (auto intro!: refines_ret grows_rules)
  then show ?thesis
    by (rule back_subst [of "refines _"])
      (cases "those (map (typeOf ?env) es)"; auto simp: applyOk_def demand_def split: Option.bind_split option.split)
qed

section \<open>Assignments\<close>

lemma refines_target:
  assumes ok: "prog_ok p"
  shows "refines (inferType ((viewEnv p)\<lparr>skipCheckDeclared := (to_VarExpr lhs \<noteq> None)\<rparr>) lhs True) (targetType (viewEnv p) lhs)"
proof (cases "to_VarExpr lhs")
  case None
  have "(viewEnv p)\<lparr>skipCheckDeclared := False\<rparr> = viewEnv p"
    using ok env_ok_skip [of "viewEnv p"] by (simp add: prog_ok_def)
  then show ?thesis using None refines_infer [OF ok] by (simp add: targetType_def)
next
  case (Some x)
  let ?env = "(viewEnv p)\<lparr>skipCheckDeclared := True\<rparr>"
  have infer: "inferType ?env lhs True = visitVarExpr ?env x" using Some by (cases lhs) auto
  have look: "lookup ?env x = lookup (viewEnv p) x" by (simp add: lookup_def)
  show ?thesis
  proof (cases "lookup (viewEnv p) x")
    case None
    then show ?thesis using Some infer look
      by (simp add: targetType_def visitVarExpr_def hasSymbol_lookup refines_ret)
  next
    case (Some v)
    then obtain t acc where v: "v = (Some t, acc)" using env_ok_symbol [of "viewEnv p" x v] ok by (auto simp: prog_ok_def)
    show ?thesis using \<open>to_VarExpr lhs = Some x\<close> infer look Some v getSymbol_lookup [of ?env x v]
      by (simp add: targetType_def visitVarExpr_def hasSymbol_lookup varType_def refines_ret)
  qed
qed

lemma declareTarget_ok:
  assumes "prog_ok p"
  obtains p' where "declareTarget p lhs = Inr p'" "prog_ok p'" "leaveScope p' = leaveScope p"
proof (cases "to_VarExpr lhs")
  case None
  then show ?thesis using that [of p] assms by (simp add: declareTarget_def)
next
  case (Some x)
  obtain q where q: "addDecl x None p = Inr q" "prog_ok q" "leaveScope q = leaveScope p"
    using addDecl_ok [OF assms, of x None] by metis
  show ?thesis
    by (rule that [of "if contains_scopes (scopes (pe_decls p)) x then p else q"])
      (use Some q assms in \<open>auto simp: declareTarget_def contains_symbol_def\<close>)
qed

lemma targetTypes_ok:
  "prog_ok p \<Longrightarrow> targetTypes p es = Some (ts, q) \<Longrightarrow> prog_ok q \<and> leaveScope q = leaveScope p \<and> length ts = length es"
proof (induction es arbitrary: p ts)
  case (Cons e es)
  obtain p' where p': "declareTarget p e = Inr p'" "prog_ok p'" "leaveScope p' = leaveScope p"
    using declareTarget_ok [OF Cons.prems(1)] by metis
  then obtain ts' where "targetTypes p' es = Some (ts', q)" "length ts = Suc (length ts')"
    using Cons.prems(2) by (auto simp: bind_eq_Some_conv succeed_def)
  then show ?case using Cons.IH [OF p'(2)] p'(3) by simp
qed simp

lemma refines_targets: "prog_ok p \<Longrightarrow> refines (visitTargets p es) (targetTypes p es)"
proof (induction es arbitrary: p)
  case Nil
  then show ?case by (simp add: refines_ret)
next
  case (Cons e es)
  obtain p' where p': "declareTarget p e = Inr p'" "prog_ok p'" using declareTarget_ok [OF Cons.prems] by metis
  have "refines (tbind (visitTargets p' es) (\<lambda>(ts, p''). tret (t # ts, p''))) (Option.bind (targetTypes p' es) (\<lambda>(ts, p''). Some (t # ts, p'')))" for t
    by (rule refines_bind [OF Cons.IH [OF p'(2)]]) (auto intro!: refines_ret grows_rules)
  then show ?case
    unfolding visitTargets.simps targetTypes.simps p'(1)
    by (intro refines_bind [OF refines_target [OF Cons.prems]]) (auto simp: succeed_def intro!: grows_rules)
qed

lemma accepts_checkTarget: "accepts (checkTarget env t v) (targetOk env t v)"
proof -
  let ?P = "et_defined t \<longrightarrow> (case single t of None \<Rightarrow> False | Some x \<Rightarrow> assignable env x v = Inr True)"
  have fits: "accepts
      (if \<not> et_defined t then tret ()
        else if isVoid t then report m
        else (case single t of
          None \<Rightarrow> report m'
        | Some target \<Rightarrow> tbind (tlift (assignable env target v)) (\<lambda>ok. reportIf (\<not> ok) (m'' target)))) ?P" for m m' m''
  proof (cases "single t")
    case None
    then show ?thesis by (auto simp: accepts_def intro: refines_ret refines_report)
  next
    case (Some x)
    then have "\<not> isVoid t" by (auto simp: single_iff isVoid_def)
    then show ?thesis using Some
      by (cases "assignable env x v") (auto simp: accepts_def reportIf_def intro: refines_ret refines_report refines_fail)
  qed
  show ?thesis unfolding checkTarget_def targetOk_def
    by (intro accepts_seq fits accepts_reportIf grows_rules) auto
qed

lemma accepts_checkTargets: "length ts = length vs \<Longrightarrow> accepts (checkTargets env ts vs) (list_all2 (targetOk env) ts vs)"
proof (induction env ts vs rule: checkTargets.induct)
  case (1 env t ts v vs)
  then show ?case by (auto intro!: accepts_seq accepts_checkTarget grows_rules)
qed (auto simp: accepts_def refines_ret)

lemma declareTargets_ok:
  assumes "prog_ok p" and "list_all (\<lambda>t. wf_type t \<and> isAssignedType t) (et_types vt)" and "et_defined vt"
    and "declareTargets p i es vt = Inr p'"
  shows "prog_ok p' \<and> leaveScope p' = leaveScope p"
  using assms(1,4)
proof (induction es arbitrary: p i)
  case (Cons e es)
  have step: "prog_ok q \<and> leaveScope q = leaveScope p"
    if "nth_result (et_types vt) i = Inr t" "addSymbol x (Some t) ACC_READ p = Inr q" for x t q
  proof -
    have "t \<in> set (et_types vt)" using that(1) by (auto simp: nth_result_def split: if_splits)
    then have t: "wf_type t" "isAssignedType t" using assms(2) by (auto simp: list_all_iff)
    then have "\<And>a. t \<noteq> CSetType a" by auto
    then show ?thesis using addSymbol_ok [OF Cons.prems(1) t(1), of x ACC_READ] that(2) by (metis sum.inject(2))
  qed
  obtain q where q: "prog_ok q" "leaveScope q = leaveScope p" "declareTargets q (Suc i) es vt = Inr p'"
    using Cons.prems assms(3) step by (auto simp: rbind_eq_Inr split: option.splits if_splits)
  then show ?case using Cons.IH [OF q(1,3)] by simp
qed simp

lemma refines_resetIndexExpr: "refines resetIndexExpr (Some ())"
  by (auto simp: refines_def ready_def grows_redefinition) (simp add: resetIndexExpr_def)

lemma refines_assign:
  fixes es :: "'d fir_expr list"
  assumes ok: "prog_ok p"
  shows "refines (visitAssignStmt p es e) (assignType p es e)"
proof -
  have check: "refines (tbind getChecked (\<lambda>checked.
      tthen (reportIf (checked \<and> length es \<noteq> length (et_types vt)) m)
      (tbind getChecked (\<lambda>checked'.
       tthen (if checked' then checkTargets (viewEnv q) ts (et_types vt) else tret ())
       (tbind (tlift (declareTargets q 0 es vt)) (\<lambda>p''. tthen resetIndexExpr (tret p'')))))))
      (demand (list_all2 (targetOk (viewEnv q)) ts (et_types vt)) (succeed (declareTargets q 0 es vt)))"
    if len: "length ts = length es" for ts q vt m
  proof -
    have last: "refines (tbind (tlift r) (\<lambda>p''. tthen resetIndexExpr (tret p''))) (succeed r)" for r :: "prog_env result"
      by (cases r) (auto simp: succeed_def intro!: refines_then_Some [OF refines_resetIndexExpr] refines_ret refines_fail)
    have body: "refines (tbind getChecked (\<lambda>checked'.
       tthen (if checked' then checkTargets (viewEnv q) ts (et_types vt) else tret ())
       (tbind (tlift (declareTargets q 0 es vt)) (\<lambda>p''. tthen resetIndexExpr (tret p'')))))
      (demand (list_all2 (targetOk (viewEnv q)) ts (et_types vt)) (succeed (declareTargets q 0 es vt)))"
      if eq: "length es = length (et_types vt)"
      using accepts_checkTargets [of ts "et_types vt" "viewEnv q"] len eq last
      by (intro refines_bind_Some [OF refines_getChecked] grows_rules)
        (auto simp: accepts_def demand_def intro!: refines_then_Some refines_then_None grows_rules)
    show ?thesis
    proof (cases "length es = length (et_types vt)")
      case True
      then show ?thesis using body by (intro refines_bind_Some [OF refines_getChecked] grows_rules) simp
    next
      case False
      then have "\<not> list_all2 (targetOk (viewEnv q)) ts (et_types vt)" using len by (auto dest: list_all2_lengthD)
      then show ?thesis using False
        by (intro refines_bind_Some [OF refines_getChecked] grows_rules)
          (auto simp: demand_def intro!: refines_report_then grows_rules)
    qed
  qed
  show ?thesis
    unfolding visitAssignStmt_def assignType_def
  proof (rule refines_bind [OF refines_infer [OF ok]], goal_cases)
    case (2 vt)
    have "et_defined vt" using typeOf_defined [OF ok 2] .
    moreover have "refines (tbind (visitTargets p es) (\<lambda>(ts, q). tbind getChecked (\<lambda>checked.
      tthen (reportIf (checked \<and> length es \<noteq> length (et_types vt)) m)
      (tbind getChecked (\<lambda>checked'.
       tthen (if checked' then checkTargets (viewEnv q) ts (et_types vt) else tret ())
       (tbind (tlift (declareTargets q 0 es vt)) (\<lambda>p''. tthen resetIndexExpr (tret p'')))))))) 
      (Option.bind (targetTypes p es) (\<lambda>(ts, q).
        demand (list_all2 (targetOk (viewEnv q)) ts (et_types vt)) (succeed (declareTargets q 0 es vt))))" for m
      by (rule refines_bind [OF refines_targets [OF ok]])
        (auto intro!: grows_rules check dest: targetTypes_ok [OF ok])
    ultimately show ?case by (auto intro: refines_then_Some [OF refines_setChecked])
  qed (intro grows_rules)
qed

lemma leaves_assign:
  assumes ok: "prog_ok p"
  shows "leaves p (assignType p es e)"
  unfolding leaves_def
proof (intro allI impI)
  fix p' assume "assignType p es e = Some p'"
  then obtain vt ts q where vt: "typeOf (viewEnv p) e = Some vt" and q: "targetTypes p es = Some (ts, q)"
    and all: "list_all2 (targetOk (viewEnv q)) ts (et_types vt)" and p': "declareTargets q 0 es vt = Inr p'"
    by (auto simp: assignType_def bind_eq_Some_conv demand_def succeed_def split: if_splits sum.splits)
  have "good vt" using checks_inferType [of "viewEnv p" e False] ok vt by (auto simp: checks_def prog_ok_def)
  moreover have "list_all isAssignedType (et_types vt)"
    using all by (auto simp: list_all2_conv_all_nth list_all_length targetOk_def)
  ultimately have "list_all (\<lambda>t. wf_type t \<and> isAssignedType t) (et_types vt)" "et_defined vt"
    by (auto simp: good_def list_all_iff)
  then show "prog_ok p' \<and> leaveScope p' = leaveScope p"
    using declareTargets_ok [OF _ _ _ p'] targetTypes_ok [OF ok q] by metis
qed

section \<open>All statements\<close>

lemma leaves_refl: "prog_ok p \<Longrightarrow> leaves p (Some p)"
  by (simp add: leaves_def)

lemma leaves_trans: "leaves p v \<Longrightarrow> (\<And>q. v = Some q \<Longrightarrow> prog_ok q \<Longrightarrow> leaves q (f q)) \<Longrightarrow> leaves p (Option.bind v f)"
  by (cases v) (auto simp: leaves_def)

lemma refines_block:
  assumes ok: "prog_ok p"
    and IH: "\<And>q. prog_ok q \<Longrightarrow> refines (visitStmt q st) (stmtType q st) \<and> leaves q (stmtType q st)"
  shows "refines (scopedBody (\<lambda>p. visitStmt p st) p) (demand (stmtType (enterScope p) st \<noteq> None) (Some p))"
  using IH [OF prog_ok_enterScope [OF ok]] by (intro refines_scopedBody grows_visitStmt) auto

lemma refines_for:
  fixes d :: "'d for_domain"
  assumes ok: "prog_ok p"
    and IH: "\<And>q. prog_ok q \<Longrightarrow> refines (visitStmt q body) (stmtType q body) \<and> leaves q (stmtType q body)"
  shows "refines (visitStmt p (ForStmt x d body)) (stmtType p (ForStmt x d body))"
proof -
  let ?q = "enterScope p"
  have q: "prog_ok ?q" using ok by (rule prog_ok_enterScope)
  have var: "wf_type t" "t \<noteq> CSetType a" if "domainVar (viewEnv ?q) d = Some t" for t a
    using that by (cases d; auto simp: demand_def bind_eq_Some_conv split: if_splits)+
  have "refines (tbind (tlift (rbind (addSymbol x (Some t) ACC_READ ?q) (addDecl x None))) (\<lambda>q'.
      tbind (typeCheckNode (visitStmt q' body)) (\<lambda>(_, q''). tlift (leaveScope q''))))
      (Option.bind (bindVar x t ACC_READ ?q) (\<lambda>q. demand (stmtType q body \<noteq> None) (Some p)))"
    if t: "domainVar (viewEnv ?q) d = Some t" for t
    unfolding bindVar_def
  proof (rule refines_bind [OF refines_lift], goal_cases)
    case (2 q')
    then have q': "prog_ok q'" "leaveScope q' = Inr p"
      using bindVar_ok [OF q var [OF t], of x ACC_READ] by (auto simp: bindVar_def leave_enterScope)
    have "refines (tbind (typeCheckNode (visitStmt q' body)) (\<lambda>(_, q''). tlift (leaveScope q'')))
      (Option.bind (map_option (Pair True) (stmtType q' body)) (\<lambda>(_, q''). succeed (leaveScope q'')))"
      by (rule refines_bind [OF refines_typeCheckNode]) (use IH [OF q'(1)] in \<open>auto intro!: grows_rules refines_lift\<close>)
    moreover have "Option.bind (map_option (Pair True) (stmtType q' body)) (\<lambda>(_, q''). succeed (leaveScope q'')) =
        demand (stmtType q' body \<noteq> None) (Some p)"
      using IH [OF q'(1)] q'(2) by (cases "stmtType q' body") (auto simp: leaves_def demand_def succeed_def)
    ultimately show ?case by simp
  qed (intro grows_rules)
  then show ?thesis unfolding visitStmt.simps stmtType.simps Let_def
    by (intro refines_forDomain [OF q] grows_rules)
qed

lemma refines_visitStmt:
  "prog_ok p \<Longrightarrow> plainStmt (st :: 'd fir_stmt) \<Longrightarrow> refines (visitStmt p st) (stmtType p st) \<and> leaves p (stmtType p st)"
  "prog_ok p \<Longrightarrow> list_all plainStmt (ss :: 'd fir_stmt list) \<Longrightarrow> refines (visitStmts p ss) (stmtsType p ss) \<and> leaves p (stmtsType p ss)"
proof (induction p st and p ss rule: visitStmt_visitStmts.induct)
  case (5 p c body)
  then show ?case unfolding visitStmt.simps stmtType.simps
    by (intro conjI refines_condition refines_block leaves_same grows_rules) simp_all
next
  case (6 p body c)
  then show ?case unfolding visitStmt.simps stmtType.simps
    by (intro conjI refines_condition refines_block leaves_same grows_rules) simp_all
next
  case (7 p c a b)
  let ?A = "stmtType (enterScope p) a \<noteq> None"
  let ?B = "case b of None \<Rightarrow> True | Some b' \<Rightarrow> stmtType (enterScope p) b' \<noteq> None"
  have A: "refines (scopedBody (\<lambda>p. visitStmt p a) p) (demand ?A (Some p))"
    using 7 by (intro refines_block) auto
  have B: "refines (case b of None \<Rightarrow> tret p | Some body \<Rightarrow> scopedBody (\<lambda>p. visitStmt p body) p) (demand ?B (Some p))"
  proof (cases b)
    case (Some b')
    have "refines (visitStmt q b') (stmtType q b') \<and> leaves q (stmtType q b')" if "prog_ok q" for q
      using 7 that Some by simp
    then show ?thesis using refines_block [OF 7(3), of b'] Some by (simp del: not_None_eq)
  qed (simp add: demand_def refines_ret)
  have "refines (tbind (scopedBody (\<lambda>p. visitStmt p a) p) (\<lambda>p'.
      case b of None \<Rightarrow> tret p' | Some body \<Rightarrow> scopedBody (\<lambda>p. visitStmt p body) p')) (demand (?A \<and> ?B) (Some p))"
  proof (rule back_subst [of "refines _"], rule refines_bind [OF A])
    show "refines (case b of None \<Rightarrow> tret q | Some body \<Rightarrow> scopedBody (\<lambda>p. visitStmt p body) q) (demand ?B (Some p))"
      if "demand ?A (Some p) = Some q" for q using that B by (auto simp: demand_def split: if_splits)
  qed (auto simp: demand_def intro!: grows_rules grows_visitStmt)
  then have "refines (tbind (inferType (viewEnv p) c False) (\<lambda>ct. tbind (tbind (scopedBody (\<lambda>p. visitStmt p a) p) (\<lambda>p'.
      case b of None \<Rightarrow> tret p' | Some body \<Rightarrow> scopedBody (\<lambda>p. visitStmt p body) p')) (\<lambda>p'. tthen (checkCondition (viewEnv p') ct) (tret p'))))
      (demand (condOk (viewEnv p) c \<and> ?A \<and> ?B) (Some p))"
    using 7 by (intro refines_condition grows_rules grows_visitStmt) auto
  then show ?case unfolding visitStmt.simps stmtType.simps tbind_assoc
    using 7 by (auto intro: leaves_same)
next
  case (8 p x d body)
  have "leaves p (stmtType p (ForStmt x d body))"
    using 8 by (auto simp: leaves_def demand_def bind_eq_Some_conv split: if_splits)
  then show ?case using 8 by (intro conjI refines_for) auto
next
  case (9 p es nl)
  have "refines (tthen (visitPrintArgs (viewEnv p) es) (tret p)) (stmtType p (PrintStmt es nl))"
    using accepts_printArgs [OF 9(1), of es] unfolding stmtType.simps accepts_def
    by (auto simp: demand_def intro!: refines_then_Some refines_then_None refines_ret grows_rules split: if_splits)
  then show ?case using 9 by (auto intro: leaves_same)
next
  case (10 p f gs es target)
  then show ?case using refines_apply [OF 10(1), of f gs es target] by (auto intro: leaves_same)
next
  case (11 p e)
  have "refines (tbind (inferType (viewEnv p) e False) (\<lambda>_. tret p)) (Option.bind (typeOf (viewEnv p) e) (\<lambda>_. Some p))"
    by (rule refines_bind [OF refines_infer [OF 11(1)]]) (auto intro: refines_ret grows_rules)
  then show ?case using 11 by (cases "typeOf (viewEnv p) e") (auto simp: demand_def leaves_def)
next
  case (14 p st ss)
  have st: "refines (visitStmt p st) (stmtType p st)" "leaves p (stmtType p st)" using 14 by simp_all
  have ss: "refines (visitStmts q ss) (stmtsType q ss)" "leaves q (stmtsType q ss)" if "prog_ok q" for q
    using 14 that by simp_all
  have "refines (visitStmts p (st # ss)) (Option.bind (map_option (Pair True) (stmtType p st)) (\<lambda>(_, q). stmtsType q ss))"
    unfolding visitStmts.simps
    by (rule refines_bind [OF refines_typeCheckNode [OF st(1)]])
      (use st(2) ss(1) in \<open>auto simp: leaves_def intro!: grows_rules grows_visitStmt\<close>)
  moreover have "Option.bind (map_option (Pair True) (stmtType p st)) (\<lambda>(_, q). stmtsType q ss) = stmtsType p (st # ss)"
    by (cases "stmtType p st") simp_all
  moreover have "leaves p (stmtsType p (st # ss))"
    unfolding stmtsType.simps by (rule leaves_trans [OF st(2) ss(2)])
  ultimately show ?case by simp
qed (auto simp: refines_decl leaves_decl refines_assign leaves_assign refines_ret leaves_refl)

section \<open>The checker and the reference\<close>

definition sampleProg :: prog_env where
  "sampleProg = \<lparr>pe_env = sampleEnv, pe_decls = mk_scoped_map Map.empty, pe_next = 0\<rparr>"

lemma prog_ok_sampleProg: "prog_ok sampleProg"
  using env_ok_sampleEnv by (simp add: prog_ok_def sampleProg_def sampleEnv_def mk_scoped_map_def)

text \<open>A loop that declares \<open>y = A * x\<close>, runs over the components of \<open>x\<close> and assigns to them.\<close>

definition sampleLoop :: "int fir_stmt" where
  "sampleLoop =
     WhileStmt (BoolLiteral True)
       (StmtBlock [
          VarDecl ''y'' None (Some (MulExpr (VarExpr ''A'') (VarExpr ''x''))),
          ForStmt ''i'' (RangeDomain (IntLiteral 0) (IntLiteral 3))
            (StmtBlock [AssignStmt [TensorReadExpr (VarExpr ''x'') [Some (VarExpr ''i'')]] (FloatLiteral 1)])])"

lemma stmtType_sampleLoop: "stmtType sampleProg sampleLoop = Some sampleProg"
proof -
  have "condOk (viewEnv sampleProg) (BoolLiteral True :: int fir_expr)" by code_simp
  moreover have "stmtType (enterScope sampleProg)
       (StmtBlock [
          VarDecl ''y'' None (Some (MulExpr (VarExpr ''A'') (VarExpr ''x''))),
          ForStmt ''i'' (RangeDomain (IntLiteral 0) (IntLiteral 3))
            (StmtBlock [AssignStmt [TensorReadExpr (VarExpr ''x'') [Some (VarExpr ''i'')]] (FloatLiteral (1 :: int))])]) \<noteq> None"
    by code_simp
  ultimately show ?thesis unfolding sampleLoop_def stmtType.simps by (simp only: demand_def if_True simp_thms)
qed



text \<open>
  Accepted statements keep the environment good: every variable has a well-formed type afterwards, and what was
  bound outside of the current scope, the declared sets, functions and element types included, is as before.
\<close>

theorem visitStmt_preserves:
  fixes st :: "'d fir_stmt"
  assumes "prog_ok p" and "ready s" and "plainStmt st" and "visitStmt p st s = Inr (p', s')" and "tc_errors s' = tc_errors s"
  shows "prog_ok p' \<and> leaveScope p' = leaveScope p"
proof -
  note v = refines_visitStmt(1) [OF assms(1,3)]
  have "stmtType p st = Some p'"
  proof (cases "stmtType p st")
    case None
    then show ?thesis using refines_error [of "visitStmt p st" s p' s'] v assms by auto
  next
    case (Some q)
    then show ?thesis using refines_run [of "visitStmt p st" q s] v assms by auto
  qed
  then show ?thesis using v by (simp add: leaves_def)
qed

theorem visitStmt_preserves_witness:
  "\<exists>p' s'. visitStmt sampleProg (AssignStmt [VarExpr ''z''] (VarExpr ''x'') :: int fir_stmt) startState = Inr (p', s') \<and>
     prog_ok p' \<and> leaveScope p' = leaveScope sampleProg"
proof -
  have "stmtType sampleProg (AssignStmt [VarExpr ''z''] (VarExpr ''x'') :: int fir_stmt) \<noteq> None" by code_simp
  then obtain p' where p': "stmtType sampleProg (AssignStmt [VarExpr ''z''] (VarExpr ''x'') :: int fir_stmt) = Some p'" by blast
  have plain: "plainStmt (AssignStmt [VarExpr ''z''] (VarExpr ''x'') :: int fir_stmt)" by simp
  have run: "visitStmt sampleProg (AssignStmt [VarExpr ''z''] (VarExpr ''x'') :: int fir_stmt) startState = Inr (p', startState)"
    using refines_visitStmt(1) [OF prog_ok_sampleProg plain] p' ready_startState by (metis refines_run)
  from visitStmt_preserves [OF prog_ok_sampleProg ready_startState plain run refl] run show ?thesis by blast
qed

text \<open>
  C11. Checking a statement never changes what is bound outside of the current scope, in the symbol table of the checker
  and in the table of set definitions, whether or not errors are reported.
\<close>

theorem visitStmt_scopes:
  fixes st :: "'d fir_stmt"
  assumes "visitStmt p st s = Inr (p', s')"
  shows "unscope (env_symbols (pe_env p')) = unscope (env_symbols (pe_env p)) \<and> unscope (pe_decls p') = unscope (pe_decls p)"
  using keeps_visitStmt(1) [of p st] assms by (auto simp: keeps_def outer_def)

theorem visitStmt_scopes_witness:
  "\<exists>p' s'. visitStmt sampleProg (IVarDecl ''x'' :: int fir_stmt) startState = Inr (p', s') \<and> tc_errors s' \<noteq> [] \<and>
     unscope (env_symbols (pe_env p')) = unscope (env_symbols (pe_env sampleProg))"
proof -
  have "\<exists>p' s'. visitStmt sampleProg (IVarDecl ''x'' :: int fir_stmt) startState = Inr (p', s') \<and> tc_errors s' \<noteq> []"
    by (simp add: visitIVarDecl_def hasCurrent_def sampleProg_def sampleEnv_def mk_scoped_map_def contains_symbol_def
        reportRedefinition_def report_def tthen_def tbind_def tret_def startState_def addSymbol_def insert_symbol_def tlift_def)
  then obtain p' s' where run: "visitStmt sampleProg (IVarDecl ''x'' :: int fir_stmt) startState = Inr (p', s')"
    and "tc_errors s' \<noteq> []" by blast
  with visitStmt_scopes [OF run] show ?thesis by blast
qed

end
