(* ===== verification/Element_Sources.thy ===== *)
theory Element_Sources
  imports Fir
begin

text \<open>
  The pass that infers from which sets the elements of a function come (\<^verbatim>\<open>src/src/frontend/infer_element_sources.cpp\<close>). If
  an argument that is an element, or an element of a tuple, is used as the index of a tensor argument or result, the
  index set of that dimension becomes the source of the element type. The element types of a function are named by
  the position of their declaration among the arguments and results, and by their position in a tuple; a source is the
  node of an index set in the declaration of a tensor, so it comes with the position of that declaration.
\<close>

section \<open>State\<close>

type_synonym elem_ref = "nat \<times> nat"
type_synonym elem_source = "nat \<times> fir_index_set"

text \<open>The table of declarations maps a name to the position of its declaration, or to nothing for other variables.\<close>

record source_state =
  src_decls :: "(string, nat option) scoped_map"
  src_sources :: "elem_ref \<rightharpoonup> elem_source"

definition src_insert :: "string \<Rightarrow> nat option \<Rightarrow> source_state \<Rightarrow> source_state result" where
  "src_insert name decl s = rbind (insert_symbol name decl (src_decls s)) (\<lambda>t. Inr (s\<lparr>src_decls := t\<rparr>))"

definition src_scope :: "source_state \<Rightarrow> source_state" where
  "src_scope s = s\<lparr>src_decls := scope Map.empty (src_decls s)\<rparr>"

definition src_unscope :: "source_state \<Rightarrow> source_state result" where
  "src_unscope s = rbind (unscope (src_decls s)) (\<lambda>t. Inr (s\<lparr>src_decls := t\<rparr>))"

text \<open>The declaration a name refers to, if it is an argument or result of the function.\<close>

definition src_type :: "ident_decl list \<Rightarrow> source_state \<Rightarrow> string \<Rightarrow> (nat \<times> fir_type) option" where
  "src_type ds s name =
     (case get_symbol (src_decls s) name AllScopes of
        Inr (Some i) \<Rightarrow> if i < length ds then Some (i, decl_type (ds ! i)) else None
      | _ \<Rightarrow> None)"

section \<open>Tensor reads\<close>

text \<open>The variable an index names and the tuple element that is read from it.\<close>

fun idxVar :: "'d fir_expr \<Rightarrow> (string \<times> string) option" where
  "idxVar (NamedTupleReadExpr tuple elem) = map_option (\<lambda>x. (x, elem)) (to_VarExpr tuple)"
| "idxVar (UnnamedTupleReadExpr tuple _) = map_option (\<lambda>x. (x, [])) (to_VarExpr tuple)"
| "idxVar e = map_option (\<lambda>x. (x, [])) (to_VarExpr e)"

fun position :: "string \<Rightarrow> string list \<Rightarrow> nat option" where
  "position x [] = None"
| "position x (y # ys) = (if y = x then Some 0 else map_option Suc (position x ys))"

text \<open>The element type that is the type of an index.\<close>

definition idxElem :: "ident_decl list \<Rightarrow> source_state \<Rightarrow> 'd fir_expr \<Rightarrow> elem_ref option" where
  "idxElem ds s idx =
     (case idxVar idx of
        None \<Rightarrow> None
      | Some (idxVarName, idxTupleElem) \<Rightarrow>
          (case src_type ds s idxVarName of
             Some (i, ElementType _) \<Rightarrow> Some (i, 0)
           | Some (i, NamedTupleType elems) \<Rightarrow>
               if idxTupleElem = [] then None else map_option (Pair i) (position idxTupleElem (map fst elems))
           | Some (i, UnnamedTupleType _ _) \<Rightarrow> Some (i, 0)
           | _ \<Rightarrow> None))"

fun isa_SetIndex :: "fir_index_set \<Rightarrow> bool" where
  "isa_SetIndex (SetIndexSet _) = True"
| "isa_SetIndex (GenericIndexSet _ _) = True"
| "isa_SetIndex _ = False"

text \<open>The first use decides: a source that is known already is kept.\<close>

fun inferIndices ::
  "ident_decl list \<Rightarrow> nat \<Rightarrow> fir_index_set list \<Rightarrow> 'd fir_expr option list \<Rightarrow> source_state \<Rightarrow> source_state" where
  "inferIndices ds j (indexSet # indexSets) (index # indices) s =
     inferIndices ds j indexSets indices
       (case index of
          None \<Rightarrow> s
        | Some idx \<Rightarrow>
            (case idxElem ds s idx of
               None \<Rightarrow> s
             | Some r \<Rightarrow>
                 if src_sources s r = None \<and> isa_SetIndex indexSet
                 then s\<lparr>src_sources := (src_sources s)(r \<mapsto> (j, indexSet))\<rparr> else s))"
| "inferIndices ds j _ _ s = s"

definition inferRead :: "ident_decl list \<Rightarrow> 'd fir_expr \<Rightarrow> 'd fir_expr option list \<Rightarrow> source_state \<Rightarrow> source_state" where
  "inferRead ds tensor indices s =
     (case to_VarExpr tensor of
        None \<Rightarrow> s
      | Some name \<Rightarrow>
          (case src_type ds s name of
             Some (j, TensorType (NDTensorType indexSets _ _)) \<Rightarrow> inferIndices ds j indexSets indices s
           | _ \<Rightarrow> s))"

fun inferExpr :: "ident_decl list \<Rightarrow> 'd fir_expr \<Rightarrow> source_state \<Rightarrow> source_state" where
  "inferExpr ds (MapExpr _ _ es _ _ _) s = fold (inferExpr ds) es s"
| "inferExpr ds (OrExpr a b) s = inferExpr ds b (inferExpr ds a s)"
| "inferExpr ds (AndExpr a b) s = inferExpr ds b (inferExpr ds a s)"
| "inferExpr ds (XorExpr a b) s = inferExpr ds b (inferExpr ds a s)"
| "inferExpr ds (EqExpr es _) s = fold (inferExpr ds) es s"
| "inferExpr ds (NotExpr a) s = inferExpr ds a s"
| "inferExpr ds (AddExpr a b) s = inferExpr ds b (inferExpr ds a s)"
| "inferExpr ds (SubExpr a b) s = inferExpr ds b (inferExpr ds a s)"
| "inferExpr ds (MulExpr a b) s = inferExpr ds b (inferExpr ds a s)"
| "inferExpr ds (DivExpr a b) s = inferExpr ds b (inferExpr ds a s)"
| "inferExpr ds (ElwiseMulExpr a b) s = inferExpr ds b (inferExpr ds a s)"
| "inferExpr ds (ElwiseDivExpr a b) s = inferExpr ds b (inferExpr ds a s)"
| "inferExpr ds (LeftDivExpr a b) s = inferExpr ds b (inferExpr ds a s)"
| "inferExpr ds (NegExpr _ a) s = inferExpr ds a s"
| "inferExpr ds (ExpExpr a b) s = inferExpr ds b (inferExpr ds a s)"
| "inferExpr ds (TransposeExpr a) s = inferExpr ds a s"
| "inferExpr ds (CallExpr _ _ es) s = fold (inferExpr ds) es s"
| "inferExpr ds (TensorReadExpr e is) s =
     inferRead ds e is (fold (\<lambda>i s. case i of None \<Rightarrow> s | Some x \<Rightarrow> inferExpr ds x s) is (inferExpr ds e s))"
| "inferExpr ds (SetReadExpr e es) s = fold (inferExpr ds) es (inferExpr ds e s)"
| "inferExpr ds (NamedTupleReadExpr e _) s = inferExpr ds e s"
| "inferExpr ds (UnnamedTupleReadExpr e i) s = inferExpr ds i (inferExpr ds e s)"
| "inferExpr ds (FieldReadExpr e _) s = inferExpr ds e s"
| "inferExpr ds (ParenExpr e) s = inferExpr ds e s"
| "inferExpr ds _ s = s"

section \<open>Statements and functions\<close>

text \<open>Initial values of declarations and the domains of loops are not visited.\<close>

definition inferTarget :: "ident_decl list \<Rightarrow> 'd fir_expr \<Rightarrow> source_state \<Rightarrow> source_state result" where
  "inferTarget ds lhs s =
     (let s' = inferExpr ds lhs s in
      case to_VarExpr lhs of
        None \<Rightarrow> Inr s'
      | Some x \<Rightarrow>
          rbind (contains_symbol (src_decls s') x AllScopes) (\<lambda>known. if known then Inr s' else src_insert x None s'))"

fun inferStmt :: "ident_decl list \<Rightarrow> 'd fir_stmt \<Rightarrow> source_state \<Rightarrow> source_state result"
  and inferStmts :: "ident_decl list \<Rightarrow> 'd fir_stmt list \<Rightarrow> source_state \<Rightarrow> source_state result" where
  "inferStmt ds (StmtBlock ss) s = inferStmts ds ss s"
| "inferStmt ds (VarDecl name _ _) s = src_insert name None s"
| "inferStmt ds (ConstDecl name _ _) s = src_insert name None s"
| "inferStmt ds (IVarDecl _) s = Inr s"
| "inferStmt ds (WhileStmt c body) s = rbind (inferStmt ds body (src_scope (inferExpr ds c s))) src_unscope"
| "inferStmt ds (DoWhileStmt body c) s = rbind (inferStmt ds body (src_scope (inferExpr ds c s))) src_unscope"
| "inferStmt ds (IfStmt c a b) s =
     rbind (rbind (inferStmt ds a (src_scope (inferExpr ds c s))) src_unscope) (\<lambda>s'.
     case b of None \<Rightarrow> Inr s' | Some b' \<Rightarrow> rbind (inferStmt ds b' (src_scope s')) src_unscope)"
| "inferStmt ds (ForStmt x _ body) s =
     rbind (src_insert x None (src_scope s)) (\<lambda>s'. rbind (inferStmt ds body s') src_unscope)"
| "inferStmt ds (PrintStmt es _) s = Inr (fold (inferExpr ds) es s)"
| "inferStmt ds (ApplyStmt _ _ es _) s = Inr (fold (inferExpr ds) es s)"
| "inferStmt ds (ExprStmt e) s = Inr (inferExpr ds e s)"
| "inferStmt ds (AssignStmt targets value) s = rfold (inferTarget ds) targets (inferExpr ds value s)"
| "inferStmts ds [] s = Inr s"
| "inferStmts ds (st # ss) s = rbind (inferStmt ds st s) (inferStmts ds ss)"

text \<open>The names of the arguments and results are declared in the order of the source, a later one hiding an earlier one.\<close>

definition signatureDecls :: "'d func_decl \<Rightarrow> ident_decl list" where
  "signatureDecls f = map snd (func_args f) @ func_results f"

definition inferElementSources :: "'d func_decl \<Rightarrow> (string, nat option) scoped_map \<Rightarrow> (elem_ref \<rightharpoonup> elem_source) result" where
  "inferElementSources f outside =
     (let ds = signatureDecls f; s = src_scope \<lparr>src_decls = outside, src_sources = Map.empty\<rparr> in
      rbind (rfold (\<lambda>g. src_insert (fst g) None) (genericParams f) s) (\<lambda>s'.
      rbind (rfold (\<lambda>(i, d). src_insert (decl_name d) (Some i)) (enumerate 0 ds) s') (\<lambda>s''.
      rbind (case func_body f of None \<Rightarrow> Inr s'' | Some body \<Rightarrow> inferStmt ds body s'') (\<lambda>r. Inr (src_sources r)))))"

text \<open>
  The pass over a program. It skips extern declarations and fields, so the table holds the global constants only; the
  expressions of tests are visited, but no tensor of a signature is visible there.
\<close>

fun inferProgram :: "'d program_element list \<Rightarrow> (string, nat option) scoped_map \<Rightarrow> (elem_ref \<rightharpoonup> elem_source) list result" where
  "inferProgram [] outside = Inr []"
| "inferProgram (FuncDecl f # elems) outside =
     rbind (inferElementSources f outside) (\<lambda>sources. rbind (inferProgram elems outside) (\<lambda>rest. Inr (sources # rest)))"
| "inferProgram (TopConst st # elems) outside =
     rbind (inferStmt [] st \<lparr>src_decls = outside, src_sources = Map.empty\<rparr>) (\<lambda>s.
     rbind (inferProgram elems (src_decls s)) (\<lambda>rest. Inr (Map.empty # rest)))"
| "inferProgram (_ # elems) outside = rbind (inferProgram elems outside) (\<lambda>rest. Inr (Map.empty # rest))"

section \<open>Reference: the uses of a function body\<close>

text \<open>What a name of the signature stands for, and the element type that a use of it as an index refers to.\<close>

definition sigType :: "ident_decl list \<Rightarrow> string \<Rightarrow> (nat \<times> fir_type) option" where
  "sigType ds = map_of (zip (map decl_name ds) (enumerate 0 (map decl_type ds)))"

fun elementAt :: "fir_type \<Rightarrow> string \<Rightarrow> nat option" where
  "elementAt (ElementType _) elem = Some 0"
| "elementAt (UnnamedTupleType _ _) elem = Some 0"
| "elementAt (NamedTupleType elems) elem = (if elem = [] then None else position elem (map fst elems))"
| "elementAt _ elem = None"

definition idxRef :: "ident_decl list \<Rightarrow> 'd fir_expr \<Rightarrow> elem_ref option" where
  "idxRef ds idx =
     Option.bind (idxVar idx) (\<lambda>(x, elem). Option.bind (sigType ds x) (\<lambda>(i, t). map_option (Pair i) (elementAt t elem)))"

text \<open>The element types that index a tensor, each with the index set of the dimension it is used in.\<close>

fun indexUses ::
  "ident_decl list \<Rightarrow> nat \<Rightarrow> fir_index_set list \<Rightarrow> 'd fir_expr option list \<Rightarrow> (elem_ref \<times> elem_source) list" where
  "indexUses ds j (s # ss) (None # is) = indexUses ds j ss is"
| "indexUses ds j (s # ss) (Some idx # is) =
     (case idxRef ds idx of
        Some r \<Rightarrow> if isa_SetIndex s then (r, (j, s)) # indexUses ds j ss is else indexUses ds j ss is
      | None \<Rightarrow> indexUses ds j ss is)"
| "indexUses ds j _ _ = []"

definition readUses :: "ident_decl list \<Rightarrow> 'd fir_expr \<times> 'd fir_expr option list \<Rightarrow> (elem_ref \<times> elem_source) list" where
  "readUses ds read =
     (case Option.bind (to_VarExpr (fst read)) (sigType ds) of
        Some (j, TensorType (NDTensorType indexSets _ _)) \<Rightarrow> indexUses ds j indexSets (snd read)
      | _ \<Rightarrow> [])"

text \<open>The tensor reads in an expression and in a statement, in the order of their evaluation.\<close>

fun exprReads :: "'d fir_expr \<Rightarrow> ('d fir_expr \<times> 'd fir_expr option list) list" where
  "exprReads (MapExpr _ _ es _ _ _) = concat (map exprReads es)"
| "exprReads (OrExpr a b) = exprReads a @ exprReads b"
| "exprReads (AndExpr a b) = exprReads a @ exprReads b"
| "exprReads (XorExpr a b) = exprReads a @ exprReads b"
| "exprReads (EqExpr es _) = concat (map exprReads es)"
| "exprReads (NotExpr a) = exprReads a"
| "exprReads (AddExpr a b) = exprReads a @ exprReads b"
| "exprReads (SubExpr a b) = exprReads a @ exprReads b"
| "exprReads (MulExpr a b) = exprReads a @ exprReads b"
| "exprReads (DivExpr a b) = exprReads a @ exprReads b"
| "exprReads (ElwiseMulExpr a b) = exprReads a @ exprReads b"
| "exprReads (ElwiseDivExpr a b) = exprReads a @ exprReads b"
| "exprReads (LeftDivExpr a b) = exprReads a @ exprReads b"
| "exprReads (NegExpr _ a) = exprReads a"
| "exprReads (ExpExpr a b) = exprReads a @ exprReads b"
| "exprReads (TransposeExpr a) = exprReads a"
| "exprReads (CallExpr _ _ es) = concat (map exprReads es)"
| "exprReads (TensorReadExpr e is) =
     exprReads e @ concat (map (\<lambda>i. case i of None \<Rightarrow> [] | Some x \<Rightarrow> exprReads x) is) @ [(e, is)]"
| "exprReads (SetReadExpr e es) = exprReads e @ concat (map exprReads es)"
| "exprReads (NamedTupleReadExpr e _) = exprReads e"
| "exprReads (UnnamedTupleReadExpr e i) = exprReads e @ exprReads i"
| "exprReads (FieldReadExpr e _) = exprReads e"
| "exprReads (ParenExpr e) = exprReads e"
| "exprReads _ = []"

fun stmtReads :: "'d fir_stmt \<Rightarrow> ('d fir_expr \<times> 'd fir_expr option list) list" where
  "stmtReads (StmtBlock ss) = concat (map stmtReads ss)"
| "stmtReads (WhileStmt c body) = exprReads c @ stmtReads body"
| "stmtReads (DoWhileStmt body c) = exprReads c @ stmtReads body"
| "stmtReads (IfStmt c a b) = exprReads c @ stmtReads a @ (case b of None \<Rightarrow> [] | Some b' \<Rightarrow> stmtReads b')"
| "stmtReads (ForStmt _ _ body) = stmtReads body"
| "stmtReads (PrintStmt es _) = concat (map exprReads es)"
| "stmtReads (ApplyStmt _ _ es _) = concat (map exprReads es)"
| "stmtReads (ExprStmt e) = exprReads e"
| "stmtReads (AssignStmt targets value) = exprReads value @ concat (map exprReads targets)"
| "stmtReads _ = []"

fun stmtLocals :: "'d fir_stmt \<Rightarrow> string list" where
  "stmtLocals (StmtBlock ss) = concat (map stmtLocals ss)"
| "stmtLocals (VarDecl x _ _) = [x]"
| "stmtLocals (ConstDecl x _ _) = [x]"
| "stmtLocals (WhileStmt _ body) = stmtLocals body"
| "stmtLocals (DoWhileStmt body _) = stmtLocals body"
| "stmtLocals (IfStmt _ a b) = stmtLocals a @ (case b of None \<Rightarrow> [] | Some b' \<Rightarrow> stmtLocals b')"
| "stmtLocals (ForStmt x _ body) = x # stmtLocals body"
| "stmtLocals _ = []"

text \<open>A signature without a name twice and a body that does not hide its names.\<close>

definition noHiding :: "'d func_decl \<Rightarrow> bool" where
  "noHiding f =
     (distinct (map decl_name (signatureDecls f)) \<and>
      (case func_body f of None \<Rightarrow> True
       | Some body \<Rightarrow> set (stmtLocals body) \<inter> set (map decl_name (signatureDecls f)) = {}))"

section \<open>Lemmas\<close>

definition agrees :: "ident_decl list \<Rightarrow> source_state \<Rightarrow> bool" where
  "agrees ds s = (\<forall>x. src_type ds s x = sigType ds x)"

definition addUses :: "(elem_ref \<times> elem_source) list \<Rightarrow> source_state \<Rightarrow> source_state" where
  "addUses u s = s\<lparr>src_sources := map_of u ++ src_sources s\<rparr>"

lemma addUses_simps [simp]:
  "addUses [] s = s" "addUses v (addUses u s) = addUses (u @ v) s" "src_decls (addUses u s) = src_decls s"
  "src_sources (addUses u s) = map_of u ++ src_sources s" "src_type ds (addUses u s) = src_type ds s"
  "agrees ds (addUses u s) = agrees ds s"
  by (simp_all add: addUses_def src_type_def agrees_def fun_eq_iff map_add_assoc)

lemma agrees_idxElem: "agrees ds s \<Longrightarrow> idxElem ds s idx = idxRef ds idx"
  by (auto simp: idxElem_def idxRef_def agrees_def split: option.splits fir_type.splits)

lemma agrees_inferIndices: "agrees ds s \<Longrightarrow> inferIndices ds j ss is s = addUses (indexUses ds j ss is) s"
proof (induction ds j ss "is" s rule: inferIndices.induct)
  case (1 ds j a ss i "is" s)
  have step: "s\<lparr>src_sources := (src_sources s)(r \<mapsto> (j, a))\<rparr> = addUses [(r, (j, a))] s" if "src_sources s r = None" for r
    using that by (auto simp: addUses_def map_add_def fun_eq_iff split: option.split)
  have known: "addUses ((r, (j, a)) # u) s = addUses u s" if "src_sources s r = Some b" for r b u
    using that by (auto simp: addUses_def map_add_def fun_eq_iff split: option.split)
  show ?case
  proof (cases i)
    case None
    with 1 show ?thesis by simp
  next
    case (Some idx)
    with 1 show ?thesis
      by (auto simp: agrees_idxElem step known split: option.splits if_splits)
  qed
qed simp_all

lemma agrees_inferRead: "agrees ds s \<Longrightarrow> inferRead ds e is s = addUses (readUses ds (e, is)) s"
  by (auto simp: inferRead_def readUses_def agrees_def [of ds s] agrees_inferIndices [unfolded agrees_def]
      split: option.splits fir_type.splits fir_tensor_type.splits)

definition allUses :: "ident_decl list \<Rightarrow> ('d fir_expr \<times> 'd fir_expr option list) list \<Rightarrow> (elem_ref \<times> elem_source) list" where
  "allUses ds reads = concat (map (readUses ds) reads)"

lemma allUses_simps [simp]:
  "allUses ds [] = []" "allUses ds (a @ b) = allUses ds a @ allUses ds b" "allUses ds [r] = readUses ds r"
  by (simp_all add: allUses_def)

lemma agrees_fold:
  assumes "\<And>x s. x \<in> set xs \<Longrightarrow> agrees ds s \<Longrightarrow> f x s = addUses (allUses ds (g x)) s" and "agrees ds s"
  shows "fold f xs s = addUses (allUses ds (concat (map g xs))) s"
  using assms by (induction xs arbitrary: s) simp_all

lemma agrees_inferExpr: "agrees ds s \<Longrightarrow> inferExpr ds e s = addUses (allUses ds (exprReads e)) s"
proof (induction e arbitrary: s)
  case (TensorReadExpr e "is")
  have "fold (\<lambda>i s. case i of None \<Rightarrow> s | Some x \<Rightarrow> inferExpr ds x s) is s' =
        addUses (allUses ds (concat (map (\<lambda>i. case i of None \<Rightarrow> [] | Some x \<Rightarrow> exprReads x) is))) s'" if "agrees ds s'" for s'
    using TensorReadExpr.IH(2) that by (intro agrees_fold) (auto split: option.split)
  with TensorReadExpr show ?case by (simp add: agrees_inferRead)
next
  case (SetReadExpr e es)
  from agrees_fold [of es ds "inferExpr ds" exprReads "addUses (allUses ds (exprReads e)) s"] SetReadExpr show ?case by simp
qed (simp_all add: agrees_fold)

lemma agrees_inferExprs:
  "agrees ds s \<Longrightarrow> fold (inferExpr ds) es s = addUses (allUses ds (concat (map exprReads es))) s"
  by (rule agrees_fold) (simp_all add: agrees_inferExpr)

text \<open>A statement keeps the outer scopes and what the names of the signature stand for.\<close>

definition outcome :: "ident_decl list \<Rightarrow> source_state \<Rightarrow> (elem_ref \<times> elem_source) list \<Rightarrow> source_state result \<Rightarrow> bool" where
  "outcome ds s u r =
     (case r of Inl _ \<Rightarrow> False
      | Inr s' \<Rightarrow> agrees ds s' \<and> scopes (src_decls s') \<noteq> [] \<and> tl (scopes (src_decls s')) = tl (scopes (src_decls s)) \<and>
          src_sources s' = map_of u ++ src_sources s)"

definition visible :: "ident_decl list \<Rightarrow> source_state \<Rightarrow> bool" where
  "visible ds s = (agrees ds s \<and> scopes (src_decls s) \<noteq> [])"

lemma outcome_Inr: "outcome ds s u (Inr (addUses u s)) = visible ds s"
  by (auto simp: outcome_def visible_def)

lemma outcome_bind:
  assumes "outcome ds s u r"
    and "\<And>s'. r = Inr s' \<Longrightarrow> visible ds s' \<Longrightarrow> outcome ds s' v (f s')"
  shows "outcome ds s (u @ v) (rbind r f)"
  using assms by (auto simp: outcome_def visible_def map_add_assoc split: sum.splits)

lemma outcome_uses: "outcome ds (addUses u s) v r \<Longrightarrow> outcome ds s (u @ v) r"
  by (auto simp: outcome_def split: sum.splits)

lemma visible_addUses [simp]: "visible ds (addUses u s) = visible ds s"
  by (simp add: visible_def)

lemma visible_agrees: "visible ds s \<Longrightarrow> agrees ds s"
  by (simp add: visible_def)

lemma src_sources_scope [simp]: "src_sources (src_scope s) = src_sources s"
  by (simp add: src_scope_def)

lemma sigType_None: "sigType ds x = None \<longleftrightarrow> x \<notin> set (map decl_name ds)"
  by (simp only: sigType_def domIff [symmetric] dom_map_of_zip length_map length_enumerate) simp

lemma outcome_insert:
  assumes "visible ds s" and "x \<notin> set (map decl_name ds)"
  shows "outcome ds s [] (src_insert x None s)"
proof -
  obtain front rest where sc: "scopes (src_decls s) = front # rest" using assms by (cases "scopes (src_decls s)") (auto simp: visible_def)
  have "agrees ds (s\<lparr>src_decls := \<lparr>scopes = front(x \<mapsto> None) # rest\<rparr>\<rparr>)"
    using assms assms(2) [folded sigType_None] by (auto simp: agrees_def visible_def src_type_def get_symbol_def sc)
  then show ?thesis by (simp add: outcome_def src_insert_def insert_symbol_def sc)
qed

lemma outcome_scoped:
  assumes "visible ds s" and "\<And>s'. visible ds s' \<Longrightarrow> outcome ds s' u (body s')"
  shows "outcome ds s u (rbind (body (src_scope s)) src_unscope)"
proof -
  have "visible ds (src_scope s)"
    using assms(1) by (simp add: visible_def agrees_def src_type_def src_scope_def scope_def get_symbol_def)
  from assms(2) [OF this] assms(1) show ?thesis
    by (cases "body (src_scope s)")
      (auto simp: outcome_def src_scope_def scope_def src_unscope_def unscope_def visible_def agrees_def src_type_def get_symbol_def
        split: list.splits)
qed

lemma outcome_target:
  assumes "visible ds s"
  shows "outcome ds s (allUses ds (exprReads lhs)) (inferTarget ds lhs s)"
proof -
  let ?s = "addUses (allUses ds (exprReads lhs)) s"
  have known: "x \<notin> set (map decl_name ds)" if "\<not> contains_scopes (scopes (src_decls s)) x" for x
  proof -
    have "\<not> contains_scopes scs x \<Longrightarrow> \<exists>e. get_scopes scs x = Inl e" for scs :: "(string \<rightharpoonup> nat option) list"
      by (induction scs) (auto split: option.splits)
    from this [OF that] obtain e where "get_scopes (scopes (src_decls s)) x = Inl e" ..
    then have "src_type ds s x = None" by (simp add: src_type_def get_symbol_def)
    with assms have "sigType ds x = None" by (simp add: visible_def agrees_def)
    then show ?thesis by (rule sigType_None [THEN iffD1])
  qed
  have "outcome ds ?s [] (src_insert x None ?s)" if "\<not> contains_scopes (scopes (src_decls s)) x" for x
    using outcome_insert [of ds ?s x] known [OF that] assms by simp
  from outcome_uses [OF this] show ?thesis
    using assms by (auto simp: inferTarget_def Let_def agrees_inferExpr visible_agrees contains_symbol_def outcome_Inr split: option.split)
qed

lemma outcome_rfold:
  assumes "\<And>x s. x \<in> set xs \<Longrightarrow> visible ds s \<Longrightarrow> outcome ds s (allUses ds (g x)) (f x s)" and "visible ds s"
  shows "outcome ds s (allUses ds (concat (map g xs))) (rfold f xs s)"
  using assms
proof (induction xs arbitrary: s)
  case Nil
  then show ?case using outcome_Inr [of ds s "[]"] by simp
next
  case (Cons x xs)
  then show ?case by (auto intro!: outcome_bind)
qed

lemma inferStmts_rfold: "inferStmts ds ss s = rfold (inferStmt ds) ss s"
proof (induction ss arbitrary: s)
  case (Cons st ss)
  then show ?case by (cases "inferStmt ds st s") simp_all
qed simp

lemma outcome_inferStmt:
  "visible ds s \<Longrightarrow> set (stmtLocals st) \<inter> set (map decl_name ds) = {} \<Longrightarrow>
     outcome ds s (allUses ds (stmtReads st)) (inferStmt ds st s)"
proof (induction st arbitrary: s)
  case (StmtBlock ss)
  then show ?case by (auto simp: inferStmts_rfold intro!: outcome_rfold)
next
  case (VarDecl x t i)
  then show ?case using outcome_insert [of ds s x] by simp
next
  case (ConstDecl x t i)
  then show ?case using outcome_insert [of ds s x] by simp
next
  case (IVarDecl x)
  then show ?case using outcome_Inr [of ds s "[]"] by simp
next
  case (WhileStmt c body)
  then show ?case
    by (auto simp: agrees_inferExpr visible_agrees intro!: outcome_uses outcome_scoped)
next
  case (DoWhileStmt body c)
  then show ?case
    by (auto simp: agrees_inferExpr visible_agrees intro!: outcome_uses outcome_scoped)
next
  case (IfStmt c a b)
  have alt: "outcome ds s' (allUses ds (case b of None \<Rightarrow> [] | Some b' \<Rightarrow> stmtReads b'))
      (case b of None \<Rightarrow> Inr s' | Some b' \<Rightarrow> rbind (inferStmt ds b' (src_scope s')) src_unscope)" if "visible ds s'" for s'
    using IfStmt that outcome_Inr [of ds s' "[]"]
    by (auto simp: Int_Un_distrib2 intro!: outcome_scoped split: option.splits)
  have "outcome ds s' (allUses ds (stmtReads a) @ allUses ds (case b of None \<Rightarrow> [] | Some b' \<Rightarrow> stmtReads b'))
      (rbind (rbind (inferStmt ds a (src_scope s')) src_unscope)
        (\<lambda>s'. case b of None \<Rightarrow> Inr s' | Some b' \<Rightarrow> rbind (inferStmt ds b' (src_scope s')) src_unscope))" if "visible ds s'" for s'
    using IfStmt.prems that by (intro outcome_bind outcome_scoped alt IfStmt.IH(1)) (auto simp: Int_Un_distrib2)
  with IfStmt.prems show ?case
    by (auto simp: agrees_inferExpr visible_agrees intro!: outcome_uses [where u = "allUses ds (exprReads c)"])
next
  case (ForStmt x d body)
  have "outcome ds s' ([] @ allUses ds (stmtReads body)) (rbind (src_insert x None s') (inferStmt ds body))" if "visible ds s'" for s'
    using ForStmt that by (intro outcome_bind outcome_insert) auto
  then have "outcome ds s (allUses ds (stmtReads body))
      (rbind (rbind (src_insert x None (src_scope s)) (inferStmt ds body)) src_unscope)"
    by (intro outcome_scoped [where body = "\<lambda>s. rbind (src_insert x None s) (inferStmt ds body)"] ForStmt.prems) simp
  then show ?case by (simp add: rbind_assoc)
next
  case (AssignStmt targets e)
  then show ?case
    by (auto simp: agrees_inferExpr visible_agrees intro!: outcome_uses outcome_rfold outcome_target)
next
  case (ExprStmt e)
  then show ?case by (simp add: agrees_inferExpr visible_agrees outcome_Inr)
qed (simp_all add: agrees_inferExprs visible_agrees outcome_Inr)

text \<open>The table when the body is visited: the generic parameters hidden by the arguments and results.\<close>

lemma insert_generics:
  assumes "scopes (src_decls s) \<noteq> []" "\<And>x i. get_symbol (src_decls s) x AllScopes \<noteq> Inr (Some i)"
  shows "\<exists>t. rfold (\<lambda>g. src_insert (fst g) None) gs s = Inr (s\<lparr>src_decls := t\<rparr>) \<and> scopes t \<noteq> [] \<and>
     (\<forall>x i. get_symbol t x AllScopes \<noteq> Inr (Some i))"
  using assms
proof (induction gs arbitrary: s)
  case Nil
  then show ?case by (intro exI [of _ "src_decls s"]) simp
next
  case (Cons g gs)
  obtain front rest where sc: "scopes (src_decls s) = front # rest" using Cons.prems by (cases "scopes (src_decls s)") auto
  have "get_symbol \<lparr>scopes = front(fst g \<mapsto> None) # rest\<rparr> x AllScopes \<noteq> Inr (Some i)" for x i
    using Cons.prems(2) [of x i] by (auto simp: get_symbol_def sc)
  with Cons.IH [of "s\<lparr>src_decls := \<lparr>scopes = front(fst g \<mapsto> None) # rest\<rparr>\<rparr>"] show ?case
    by (simp add: src_insert_def insert_symbol_def sc)
qed

lemma insert_signature:
  assumes "scopes (src_decls s) \<noteq> []" "distinct (map decl_name ds)"
  shows "\<exists>t. rfold (\<lambda>(i, d). src_insert (decl_name d) (Some i)) (enumerate k ds) s = Inr (s\<lparr>src_decls := t\<rparr>) \<and> scopes t \<noteq> [] \<and>
     (\<forall>x. get_symbol t x AllScopes =
        (case map_of (zip (map decl_name ds) [k..<k + length ds]) x of Some i \<Rightarrow> Inr (Some i) | None \<Rightarrow> get_symbol (src_decls s) x AllScopes))"
  using assms
proof (induction ds arbitrary: s k)
  case Nil
  then show ?case by (intro exI [of _ "src_decls s"]) simp
next
  case (Cons d ds)
  obtain front rest where sc: "scopes (src_decls s) = front # rest" using Cons.prems by (cases "scopes (src_decls s)") auto
  let ?s = "s\<lparr>src_decls := \<lparr>scopes = front(decl_name d \<mapsto> Some k) # rest\<rparr>\<rparr>"
  define m where "m = map_of (zip (map decl_name ds) [Suc k..<Suc k + length ds])"
  have new: "m (decl_name d) = None" using Cons.prems(2) by (auto simp: m_def map_of_eq_None_iff set_zip)
  have zip: "map_of (zip (map decl_name (d # ds)) [k..<k + length (d # ds)]) = m(decl_name d \<mapsto> k)"
    by (simp add: m_def upt_conv_Cons del: upt_Suc)
  have step: "src_insert (decl_name d) (Some k) s = Inr ?s" by (simp add: src_insert_def insert_symbol_def sc)
  have get: "get_symbol \<lparr>scopes = front(decl_name d \<mapsto> Some k) # rest\<rparr> x AllScopes =
      (if x = decl_name d then Inr (Some k) else get_symbol (src_decls s) x AllScopes)" for x
    by (simp add: get_symbol_def sc)
  have "scopes (src_decls ?s) \<noteq> []" "distinct (map decl_name ds)" using Cons.prems(2) by simp_all
  from Cons.IH [OF this, of "Suc k"] obtain t where
    t: "rfold (\<lambda>(i, d). src_insert (decl_name d) (Some i)) (enumerate (Suc k) ds) ?s = Inr (?s\<lparr>src_decls := t\<rparr>)" "scopes t \<noteq> []"
    "\<And>x. get_symbol t x AllScopes = (case m x of Some i \<Rightarrow> Inr (Some i) | None \<Rightarrow> get_symbol (src_decls ?s) x AllScopes)"
    unfolding m_def by blast
  have "get_symbol t x AllScopes =
      (case (m(decl_name d \<mapsto> k)) x of Some i \<Rightarrow> Inr (Some i) | None \<Rightarrow> get_symbol (src_decls s) x AllScopes)" for x
    unfolding t(3) using new by (cases "x = decl_name d"; cases "m x") (simp_all add: get)
  then show ?case
    unfolding zip using t(1,2) by (intro exI [of _ t]) (simp add: step)
qed

lemma sigType_positions:
  "map_of (zip (map decl_name ds) [0..<length ds]) x = map_option fst (sigType ds x)"
  "sigType ds x = Some (i, t) \<Longrightarrow> i < length ds \<and> t = decl_type (ds ! i)"
proof -
  have "map fst (enumerate 0 (map decl_type ds)) = [0..<length ds]" by simp
  then have "zip (map decl_name ds) [0..<length ds] = map (\<lambda>(x, p). (x, fst p)) (zip (map decl_name ds) (enumerate 0 (map decl_type ds)))"
    by (metis zip_map2)
  then show "map_of (zip (map decl_name ds) [0..<length ds]) x = map_option fst (sigType ds x)"
    by (simp add: sigType_def map_of_map)
  show "sigType ds x = Some (i, t) \<Longrightarrow> i < length ds \<and> t = decl_type (ds ! i)"
    by (auto simp: sigType_def dest!: map_of_SomeD simp: set_zip nth_enumerate_eq)
qed

section \<open>The sources of a function\<close>


text \<open>The function \<^verbatim>\<open>func f(p : Point) -> (M : tensor[points](float)) M(p) = 1.0; end\<close>.\<close>

definition sampleSources :: "unit func_decl" where
  "sampleSources = \<lparr>func_type = FT_INTERNAL, func_name = ''f'', genericParams = [],
     func_args = [(False, \<lparr>decl_name = ''p'', decl_type = ElementType ''Point''\<rparr>)],
     func_results = [\<lparr>decl_name = ''M'', decl_type = TensorType (NDTensorType [SetIndexSet ''points''] (ScalarType SC_FLOAT) False)\<rparr>],
     func_body = Some (StmtBlock [AssignStmt [TensorReadExpr (VarExpr ''M'') [Some (VarExpr ''p'')]] (FloatLiteral ())])\<rparr>"


end
