(* ===== verification/Declaration_Checker.thy ===== *)
theory Declaration_Checker
  imports Program_Checker Element_Sources
begin

text \<open>
  The declarations of a program in the type checker (\<^verbatim>\<open>src/src/frontend/type_checker.cpp\<close>): element types, externs, functions,
  global constants and tests. As for statements the pass that attaches the definitions of sets is modelled together
  with the checker. A set type that is declared gets an address when that pass reaches it; its endpoints get their
  element types when the checker visits them. Functions that were cloned from generic ones, the only ones with an
  \<^verbatim>\<open>originalName\<close>, do not occur: calls of generic functions are not modelled.
\<close>

section \<open>Types\<close>

definition plainElem :: "string \<Rightarrow> elem_type" where
  "plainElem ident = \<lparr>elem_ident = ident, elem_source = None\<rparr>"

definition newEndpoint :: "prog_env \<Rightarrow> fir_index_set \<Rightarrow> endpoint" where
  "newEndpoint p s = \<lparr>ep_set = resolveIndexSet (viewEnv p) s, ep_element = None\<rparr>"

definition allocSet :: "string \<Rightarrow> set_shape \<Rightarrow> prog_env \<Rightarrow> nat \<times> prog_env" where
  "allocSet elem shape p =
     (pe_next p,
      p\<lparr>pe_env := (pe_env p)\<lparr>env_sets := (env_sets (pe_env p))(pe_next p := \<lparr>set_element = plainElem elem, set_shape = shape\<rparr>)\<rparr>,
        pe_next := Suc (pe_next p)\<rparr>)"

text \<open>A type with the definitions of its index sets, as the first pass leaves it.\<close>

fun resolveType :: "prog_env \<Rightarrow> fir_type \<Rightarrow> c_type \<times> prog_env" where
  "resolveType p (ElementType ident) = (CElement (plainElem ident), p)"
| "resolveType p (HomogeneousEdgeSetType elem s arity) = apfst CSetType (allocSet elem (Homogeneous (newEndpoint p s) arity) p)"
| "resolveType p (HeterogeneousEdgeSetType elem ss) = apfst CSetType (allocSet elem (Heterogeneous (map (newEndpoint p) ss)) p)"
| "resolveType p (GridSetType elem s dims) = apfst CSetType (allocSet elem (GridSet (newEndpoint p s) dims) p)"
| "resolveType p (NamedTupleType elems) = (CNamedTuple (map (\<lambda>(name, ident). (Some name, plainElem ident)) elems), p)"
| "resolveType p (UnnamedTupleType ident n) = (CUnnamedTuple (plainElem ident) n, p)"
| "resolveType p (TensorType t) = (CTensor (resolveTensor (viewEnv p) t), p)"
| "resolveType p OpaqueType = (COpaque, p)"

fun setAddr :: "c_type \<Rightarrow> nat option" where
  "setAddr (CSetType a) = Some a"
| "setAddr _ = None"

text \<open>\<^verbatim>\<open>ComputeSetDefinitions::visit(IdentDecl)\<close>.\<close>

definition declareIdent :: "prog_env \<Rightarrow> string \<Rightarrow> fir_type \<Rightarrow> (c_type \<times> prog_env) result" where
  "declareIdent p name type =
     (let (t, p') = resolveType p type in rbind (addDecl name (setAddr t) p') (\<lambda>p''. Inr (t, p'')))"

definition visitElementType :: "tc_env \<Rightarrow> elem_type \<Rightarrow> unit tc" where
  "visitElementType env elem =
     (if env_elements env (elem_ident elem) = None then reportUndeclared ''element type'' (elem_ident elem) else tret ())"

definition visitEndpoint :: "tc_env \<Rightarrow> endpoint \<Rightarrow> endpoint tc" where
  "visitEndpoint env ep =
     tbind (typeCheck (visitIndexSet env (ep_set ep))) (\<lambda>ok.
     tthen (setChecked ok)
     (if ok then
        tbind (tlift (getSetDefinition (ep_set ep))) (\<lambda>a. tret (ep\<lparr>ep_element := Some (set_element (env_sets env a))\<rparr>))
      else tret ep))"

fun visitEndpoints :: "tc_env \<Rightarrow> endpoint list \<Rightarrow> endpoint list tc" where
  "visitEndpoints env [] = tret []"
| "visitEndpoints env (ep # eps) =
     tbind (typeCheckNode (visitEndpoint env ep)) (\<lambda>(ok, ep').
     tbind getChecked (\<lambda>checked.
     tthen (setChecked (ok \<and> checked))
     (tbind (visitEndpoints env eps) (\<lambda>eps'. tret (ep' # eps')))))"

definition checkGrid :: "tc_env \<Rightarrow> c_index_set \<Rightarrow> unit tc" where
  "checkGrid env points =
     tbind (tlift (getSetDefinition points)) (\<lambda>a.
     let shape = set_shape (env_sets env a) in
     if \<not> isa_Unstructured shape then
       report (''expected underlying point set of unstructured kind, but set '' @ quote (setName points) @ '' is not an unstructured set'')
     else
       reportIf (getArity shape \<noteq> 0)
         (''expected underlying point set of zero cardinality, but set '' @ quote (setName points) @ '' has cardinality '' @
          int_to_string (int (getArity shape))))"

fun visitSetShape :: "tc_env \<Rightarrow> elem_type \<Rightarrow> set_shape \<Rightarrow> set_shape tc" where
  "visitSetShape env elem (Homogeneous ep arity) =
     tbind (typeCheck (visitElementType env elem)) (\<lambda>elementTypeChecked.
     tbind (typeCheckNode (visitEndpoint env ep)) (\<lambda>(endpointTypeChecked, ep').
     tthen (setChecked (elementTypeChecked \<and> endpointTypeChecked))
     (tthen (reportIf (arity < 1) ''edge set must have positive arity'') (tret (Homogeneous ep' arity)))))"
| "visitSetShape env elem (Heterogeneous eps) =
     tbind (typeCheck (visitElementType env elem)) (\<lambda>ok.
     tthen (setChecked ok) (tbind (visitEndpoints env eps) (\<lambda>eps'. tret (Heterogeneous eps'))))"
| "visitSetShape env elem (GridSet ep dims) =
     tbind (typeCheck (visitElementType env elem)) (\<lambda>elementTypeChecked.
     tbind (typeCheckNode (visitEndpoint env ep)) (\<lambda>(gridSetTypeChecked, ep').
     tthen (setChecked (elementTypeChecked \<and> gridSetTypeChecked))
     (tthen (if elementTypeChecked \<and> gridSetTypeChecked then checkGrid env (ep_set ep) else tret ())
     (tret (GridSet ep' dims)))))"

fun visitTupleElems :: "tc_env \<Rightarrow> (string option \<times> elem_type) list \<Rightarrow> string option list \<Rightarrow> unit tc" where
  "visitTupleElems env [] names = tret ()"
| "visitTupleElems env ((name, elem) # elems) names =
     tbind (typeCheck (tbind (typeCheck (visitElementType env elem)) setChecked)) (\<lambda>ok.
     tbind getChecked (\<lambda>checked.
     tthen (setChecked (ok \<and> checked))
     (tthen (if name \<in> set names then reportRedefinition ''tuple element'' (case name of None \<Rightarrow> [] | Some x \<Rightarrow> x) else tret ())
     (visitTupleElems env elems (name # names)))))"

fun visitType :: "prog_env \<Rightarrow> c_type \<Rightarrow> prog_env tc" where
  "visitType p (CElement elem) = tthen (visitElementType (viewEnv p) elem) (tret p)"
| "visitType p (CSetType a) =
     (let st = env_sets (pe_env p) a in
      tbind (visitSetShape (viewEnv p) (set_element st) (set_shape st)) (\<lambda>shape.
      tret (p\<lparr>pe_env := (pe_env p)\<lparr>env_sets := (env_sets (pe_env p))(a := st\<lparr>set_shape := shape\<rparr>)\<rparr>\<rparr>)))"
| "visitType p (CNamedTuple elems) = tthen (visitTupleElems (viewEnv p) elems []) (tret p)"
| "visitType p (CUnnamedTuple elem n) =
     tbind (typeCheck (visitElementType (viewEnv p) elem)) (\<lambda>ok.
     tthen (setChecked ok) (tthen (reportIf (n < 1) ''tuple must have positive length'') (tret p)))"
| "visitType p (CTensor t) = tthen (visitTensorType (viewEnv p) t) (tret p)"
| "visitType p COpaque = tret p"
| "visitType p CIVar = tret p"

definition visitIdentDecl :: "prog_env \<Rightarrow> c_type \<Rightarrow> prog_env tc" where
  "visitIdentDecl p t = tbind (typeCheckNode (visitType p t)) (\<lambda>(ok, p'). tthen (setChecked ok) (tret p'))"

section \<open>Element types and externs\<close>

text \<open>
  The first pass visits a field as an identifier declaration, so it enters the name of the field into its table, where
  it hides a set of that name.
\<close>

fun visitFields ::
  "prog_env \<Rightarrow> (string \<times> fir_tensor_type) list \<Rightarrow> (string \<rightharpoonup> c_tensor option) \<Rightarrow> ((string \<rightharpoonup> c_tensor option) \<times> prog_env) tc" where
  "visitFields p [] elemFields = tret (elemFields, p)"
| "visitFields p ((name, type) # rest) elemFields =
     (let t = resolveTensor (viewEnv p) type in
      tbind (typeCheck (tbind (typeCheck (visitTensorType (viewEnv p) t)) setChecked)) (\<lambda>ok.
      tthen (if elemFields name \<noteq> None then reportRedefinition ''element field'' name else tret ())
      (tbind (tlift (addDecl name None p)) (\<lambda>p'.
       visitFields p' rest (elemFields(name \<mapsto> if ok then Some t else None))))))"

definition visitElementTypeDecl :: "prog_env \<Rightarrow> string \<Rightarrow> (string \<times> fir_tensor_type) list \<Rightarrow> prog_env tc" where
  "visitElementTypeDecl p name decls =
     tbind (visitFields p decls Map.empty) (\<lambda>(elemFields, p').
     tthen (if env_elements (pe_env p') name \<noteq> None then reportRedefinition ''element type'' name else tret ())
     (tret (p'\<lparr>pe_env := (pe_env p')\<lparr>env_elements := (env_elements (pe_env p'))(name \<mapsto> elemFields)\<rparr>\<rparr>)))"

definition visitExternDecl :: "prog_env \<Rightarrow> string \<Rightarrow> fir_type \<Rightarrow> prog_env tc" where
  "visitExternDecl p name type =
     tbind (tlift (declareIdent p name type)) (\<lambda>(t, p1).
     tbind (typeCheckNode (visitType p1 t)) (\<lambda>(ok, p2).
     tthen (setChecked ok)
     (tbind (hasCurrent p2 name) (\<lambda>declaredBefore.
      tthen (if declaredBefore then reportRedefinition ''variable or constant'' name else tret ())
      (tlift (addSymbol name (if ok then Some t else None) ACC_READ_WRITE p2))))))"

section \<open>Functions\<close>

text \<open>
  The first pass over a signature. Every generic parameter is a set without a known element type. For an argument or
  result the type is returned and the environment in which its index sets were resolved, because these index sets may
  be the sources of element types of the signature.
\<close>

fun declareGenerics :: "prog_env \<Rightarrow> (string \<times> generic_type) list \<Rightarrow> (nat list \<times> prog_env) result" where
  "declareGenerics p [] = Inr ([], p)"
| "declareGenerics p ((name, _) # params) =
     (let (a, p') = allocSet [] (Heterogeneous []) p in
      rbind (addDecl name (Some a) p') (\<lambda>p''. rbind (declareGenerics p'' params) (\<lambda>(as, q). Inr (a # as, q))))"

fun declareSignature :: "prog_env \<Rightarrow> ident_decl list \<Rightarrow> ((tc_env \<times> c_type) list \<times> prog_env) result" where
  "declareSignature p [] = Inr ([], p)"
| "declareSignature p (d # ds) =
     rbind (declareIdent p (decl_name d) (decl_type d)) (\<lambda>(t, p').
     rbind (declareSignature p' ds) (\<lambda>(ts, q). Inr ((viewEnv p, t) # ts, q)))"

definition attachSource :: "(elem_ref \<rightharpoonup> elem_source) \<Rightarrow> (tc_env \<times> c_type) list \<Rightarrow> nat \<Rightarrow> nat \<Rightarrow> elem_type \<Rightarrow> elem_type" where
  "attachSource sources sig i k elem =
     (case sources (i, k) of
        Some (j, s) \<Rightarrow> if j < length sig then elem\<lparr>elem_source := Some (resolveIndexSet (fst (sig ! j)) s)\<rparr> else elem
      | None \<Rightarrow> elem)"

fun attachSources :: "(elem_ref \<rightharpoonup> elem_source) \<Rightarrow> (tc_env \<times> c_type) list \<Rightarrow> nat \<Rightarrow> c_type \<Rightarrow> c_type" where
  "attachSources sources sig i (CElement elem) = CElement (attachSource sources sig i 0 elem)"
| "attachSources sources sig i (CUnnamedTuple elem n) = CUnnamedTuple (attachSource sources sig i 0 elem) n"
| "attachSources sources sig i (CNamedTuple elems) =
     CNamedTuple (map (\<lambda>(k, name, elem). (name, attachSource sources sig i k elem)) (enumerate 0 elems))"
| "attachSources sources sig i t = t"

definition signatureTypes :: "(elem_ref \<rightharpoonup> elem_source) \<Rightarrow> (tc_env \<times> c_type) list \<Rightarrow> c_type list" where
  "signatureTypes sources sig = map (\<lambda>(i, _, t). attachSources sources sig i t) (enumerate 0 sig)"

fun visitGenericParams :: "prog_env \<Rightarrow> (string \<times> generic_type) list \<Rightarrow> nat list \<Rightarrow> prog_env tc" where
  "visitGenericParams p ((name, gt) # params) (a # as) =
     tbind (hasCurrent p name) (\<lambda>declaredBefore.
     tthen (if declaredBefore then reportRedefinition ''function parameter'' name else tret ())
     (tbind (tlift (addSymbol name (Some (if gt = GT_RANGE then CTensor (CScalar SC_INT) else CSetType a)) ACC_READ p)) (\<lambda>p'.
      visitGenericParams p' params as)))"
| "visitGenericParams p _ _ = tret p"

fun visitParams :: "prog_env \<Rightarrow> (string \<times> Access \<times> c_type) list \<Rightarrow> prog_env tc" where
  "visitParams p [] = tret p"
| "visitParams p ((name, acc, t) # params) =
     tbind (typeCheckNode (visitIdentDecl p t)) (\<lambda>(ok, p1).
     tbind getChecked (\<lambda>checked.
     tthen (setChecked (ok \<and> checked))
     (tbind (hasCurrent p1 name) (\<lambda>declaredBefore.
      tthen (if declaredBefore then reportRedefinition ''function parameter'' name else tret ())
      (tbind (tlift (addSymbol name (if ok then Some t else None) acc p1)) (\<lambda>p2.
       visitParams p2 params))))))"

text \<open>The checker opens two scopes, one for the signature and one for the body, the first pass only one.\<close>

definition scopeEnv :: "prog_env \<Rightarrow> prog_env" where
  "scopeEnv p = p\<lparr>pe_env := (pe_env p)\<lparr>env_symbols := scope Map.empty (env_symbols (pe_env p))\<rparr>\<rparr>"

definition unscopeEnv :: "prog_env \<Rightarrow> prog_env result" where
  "unscopeEnv p = rbind (unscope (env_symbols (pe_env p))) (\<lambda>symbols. Inr (p\<lparr>pe_env := (pe_env p)\<lparr>env_symbols := symbols\<rparr>\<rparr>))"

definition visitBody :: "prog_env \<Rightarrow> 'd fir_stmt option \<Rightarrow> prog_env tc" where
  "visitBody p body =
     (case body of
        None \<Rightarrow> tret p
      | Some st \<Rightarrow> tbind (typeCheckNode (visitStmt (scopeEnv p) st)) (\<lambda>(_, p'). tlift (unscopeEnv p')))"

definition paramAccess :: "'d func_decl \<Rightarrow> (string \<times> Access) list" where
  "paramAccess f =
     map (\<lambda>(inOut, d). (decl_name d, if inOut then ACC_READ_WRITE else ACC_READ)) (func_args f) @
     map (\<lambda>d. (decl_name d, ACC_READ_WRITE)) (func_results f)"

definition funcSig :: "'d func_decl \<Rightarrow> c_type list \<Rightarrow> func_sig" where
  "funcSig f ts =
     \<lparr>originalName = [], sig_generics = length (genericParams f),
      sig_args = zip (map fst (func_args f)) (map Some ts), sig_results = drop (length (func_args f)) ts\<rparr>"

definition addFunction :: "string \<Rightarrow> func_sig option \<Rightarrow> prog_env \<Rightarrow> prog_env" where
  "addFunction name sig p = p\<lparr>pe_env := (pe_env p)\<lparr>env_funcs := (env_funcs (pe_env p))(name \<mapsto> sig)\<rparr>\<rparr>"

text \<open>The checks of a function, after the first pass has declared its generic parameters and its signature.\<close>

definition checkFunction :: "prog_env \<Rightarrow> 'd func_decl \<Rightarrow> nat list \<Rightarrow> c_type list \<Rightarrow> prog_env tc" where
  "checkFunction p f as ts =
     tthen (reportIf (func_type f = FT_EXPORTED \<and> genericParams f \<noteq> []) ''exported function cannot have generic parameters'')
     (tbind (visitGenericParams p (genericParams f) as) (\<lambda>p3.
      tbind (visitParams p3 (map2 (\<lambda>(name, acc) t. (name, acc, t)) (paramAccess f) ts)) (\<lambda>p4.
      tbind (visitBody p4 (func_body f)) (\<lambda>p5.
      tbind (tlift (leaveScope p5)) (\<lambda>p6.
      tbind getChecked (\<lambda>ok.
      tthen (if env_funcs (pe_env p6) (func_name f) \<noteq> None then reportRedefinition ''function or procedure'' (func_name f) else tret ())
      (tret (addFunction (func_name f) (if ok then Some (funcSig f ts) else None) p6))))))))"

definition visitFuncDecl :: "prog_env \<Rightarrow> (elem_ref \<rightharpoonup> elem_source) \<Rightarrow> 'd func_decl \<Rightarrow> prog_env tc" where
  "visitFuncDecl p sources f =
     tbind (tlift (addDecl (func_name f) None p)) (\<lambda>p0.
     tbind (tlift (declareGenerics (enterScope p0) (genericParams f))) (\<lambda>(as, p1).
     tbind (tlift (declareSignature p1 (signatureDecls f))) (\<lambda>(sig, p2).
     checkFunction p2 f as (signatureTypes sources sig))))"

section \<open>Programs\<close>

fun inferAll :: "tc_env \<Rightarrow> 'd fir_expr list \<Rightarrow> unit tc" where
  "inferAll env [] = tret ()"
| "inferAll env (e # es) = tbind (inferType env e False) (\<lambda>_. inferAll env es)"

fun visitElem :: "prog_env \<Rightarrow> (elem_ref \<rightharpoonup> elem_source) \<Rightarrow> 'd program_element \<Rightarrow> prog_env tc" where
  "visitElem p sources (ElementTypeDecl name decls) = visitElementTypeDecl p name decls"
| "visitElem p sources (ExternDecl name type) = visitExternDecl p name type"
| "visitElem p sources (FuncDecl f) = visitFuncDecl p sources f"
| "visitElem p sources (TopConst st) =
     (case st of
        ConstDecl name type init \<Rightarrow> typeCheckVarOrConstDecl p True True name type (Some init)
      | _ \<Rightarrow> visitStmt p st)"
| "visitElem p sources (Test name args expected) =
     tthen (inferAll (viewEnv p) args) (tbind (inferType (viewEnv p) expected False) (\<lambda>_. tret p))"

fun visitProgram :: "prog_env \<Rightarrow> ((elem_ref \<rightharpoonup> elem_source) \<times> 'd program_element) list \<Rightarrow> prog_env tc" where
  "visitProgram p [] = tret p"
| "visitProgram p ((sources, elem) # elems) =
     tbind (typeCheckNode (visitElem p sources elem)) (\<lambda>(_, p'). visitProgram p' elems)"

text \<open>The environment of a new checker: the intrinsic functions.\<close>

definition initEnv :: "(string \<rightharpoonup> func_sig) \<Rightarrow> prog_env" where
  "initEnv intrinsics =
     \<lparr>pe_env = \<lparr>env_symbols = mk_scoped_map Map.empty, env_funcs = map_option Some \<circ> intrinsics, env_elements = Map.empty,
        env_sets = (\<lambda>_. \<lparr>set_element = plainElem [], set_shape = Heterogeneous []\<rparr>), env_setDefs = Map.empty,
        skipCheckDeclared = False\<rparr>,
      pe_decls = mk_scoped_map Map.empty, pe_next = 0\<rparr>"

definition initState :: tc_state where
  "initState = \<lparr>retTypeChecked = True, hasIndexExpr = False, tc_errors = []\<rparr>"

definition checkProgram :: "(string \<rightharpoonup> func_sig) \<Rightarrow> 'd program_element list \<Rightarrow> (prog_env \<times> string list) result" where
  "checkProgram intrinsics prog =
     rbind (inferProgram prog (mk_scoped_map Map.empty)) (\<lambda>sources.
     rbind (typeCheckNode (visitProgram (initEnv intrinsics) (zip sources prog)) initState) (\<lambda>((_, p), s).
     Inr (p, tc_errors s)))"

end
