(* ===== verification/Declaration_Typing.thy ===== *)
theory Declaration_Typing
  imports Program_Typing Declaration_Checker
begin

text \<open>
  A reference for declarations and programs in the style of \<open>Program_Typing\<close>: which declarations are accepted and the
  environment they leave, without flags and messages.
\<close>

section \<open>Types\<close>

definition elemOk :: "tc_env \<Rightarrow> elem_type \<Rightarrow> bool" where
  "elemOk env e = (env_elements env (elem_ident e) \<noteq> None)"

text \<open>An endpoint names a set whose definition is known, and gets the element type of that set.\<close>

definition endpointType :: "tc_env \<Rightarrow> endpoint \<Rightarrow> endpoint option" where
  "endpointType env ep =
     demand (setOk env (ep_set ep))
       (map_option (\<lambda>a. ep\<lparr>ep_element := Some (set_element (env_sets env a))\<rparr>) (setDef (ep_set ep)))"

definition pointSet :: "tc_env \<Rightarrow> c_index_set \<Rightarrow> bool" where
  "pointSet env s =
     (case setDef s of None \<Rightarrow> False | Some a \<Rightarrow> isa_Unstructured (set_shape (env_sets env a)) \<and> getArity (set_shape (env_sets env a)) = 0)"

fun shapeType :: "tc_env \<Rightarrow> set_shape \<Rightarrow> set_shape option" where
  "shapeType env (Homogeneous ep arity) = Option.bind (endpointType env ep) (\<lambda>e. demand (1 \<le> arity) (Some (Homogeneous e arity)))"
| "shapeType env (Heterogeneous eps) = map_option Heterogeneous (those (map (endpointType env) eps))"
| "shapeType env (GridSet ep n) = Option.bind (endpointType env ep) (\<lambda>e. demand (pointSet env (ep_set ep)) (Some (GridSet e n)))"

definition withShape :: "prog_env \<Rightarrow> nat \<Rightarrow> set_shape \<Rightarrow> prog_env" where
  "withShape p a shape =
     p\<lparr>pe_env := (pe_env p)\<lparr>env_sets := (env_sets (pe_env p))(a := (env_sets (pe_env p) a)\<lparr>set_shape := shape\<rparr>)\<rparr>\<rparr>"

fun checkedType :: "prog_env \<Rightarrow> c_type \<Rightarrow> prog_env option" where
  "checkedType p (CElement e) = demand (elemOk (viewEnv p) e) (Some p)"
| "checkedType p (CSetType a) =
     demand (elemOk (viewEnv p) (set_element (env_sets (pe_env p) a)))
       (map_option (withShape p a) (shapeType (viewEnv p) (set_shape (env_sets (pe_env p) a))))"
| "checkedType p (CNamedTuple es) = demand (list_all (\<lambda>e. elemOk (viewEnv p) (snd e)) es \<and> distinct (map fst es)) (Some p)"
| "checkedType p (CUnnamedTuple e n) = demand (elemOk (viewEnv p) e \<and> 1 \<le> n) (Some p)"
| "checkedType p (CTensor t) = demand (tensorTypeOk (viewEnv p) t) (Some p)"
| "checkedType p COpaque = Some p"
| "checkedType p CIVar = Some p"

section \<open>Declarations\<close>

fun fieldsType ::
  "prog_env \<Rightarrow> (string \<times> fir_tensor_type) list \<Rightarrow> (string \<rightharpoonup> c_tensor option) \<Rightarrow> ((string \<rightharpoonup> c_tensor option) \<times> prog_env) option" where
  "fieldsType p [] known = Some (known, p)"
| "fieldsType p ((name, type) # rest) known =
     (let t = resolveTensor (viewEnv p) type in
      demand (tensorTypeOk (viewEnv p) t \<and> known name = None)
        (Option.bind (succeed (addDecl name None p)) (\<lambda>p'. fieldsType p' rest (known(name \<mapsto> Some t)))))"

definition elementDeclType :: "prog_env \<Rightarrow> string \<Rightarrow> (string \<times> fir_tensor_type) list \<Rightarrow> prog_env option" where
  "elementDeclType p name fs =
     Option.bind (fieldsType p fs Map.empty) (\<lambda>(known, p').
     demand (env_elements (pe_env p') name = None)
       (Some (p'\<lparr>pe_env := (pe_env p')\<lparr>env_elements := (env_elements (pe_env p'))(name \<mapsto> known)\<rparr>\<rparr>)))"

text \<open>A name that is new in the current scope is bound.\<close>

definition bindNew :: "string \<Rightarrow> c_type \<Rightarrow> Access \<Rightarrow> prog_env \<Rightarrow> prog_env option" where
  "bindNew name t acc p = demand (\<not> declaredHere p name) (succeed (addSymbol name (Some t) acc p))"

definition externType :: "prog_env \<Rightarrow> string \<Rightarrow> fir_type \<Rightarrow> prog_env option" where
  "externType p name type =
     Option.bind (succeed (declareIdent p name type)) (\<lambda>(t, p1).
     Option.bind (checkedType p1 t) (bindNew name t ACC_READ_WRITE))"

fun genericsType :: "prog_env \<Rightarrow> (string \<times> generic_type) list \<Rightarrow> nat list \<Rightarrow> prog_env option" where
  "genericsType p ((name, gt) # params) (a # as) =
     Option.bind (bindNew name (if gt = GT_RANGE then CTensor (CScalar SC_INT) else CSetType a) ACC_READ p) (\<lambda>p'.
     genericsType p' params as)"
| "genericsType p _ _ = Some p"

fun paramsType :: "prog_env \<Rightarrow> (string \<times> Access \<times> c_type) list \<Rightarrow> prog_env option" where
  "paramsType p [] = Some p"
| "paramsType p ((name, acc, t) # params) =
     Option.bind (checkedType p t) (\<lambda>p1. Option.bind (bindNew name t acc p1) (\<lambda>p2. paramsType p2 params))"

definition bodyType :: "prog_env \<Rightarrow> 'd fir_stmt option \<Rightarrow> prog_env option" where
  "bodyType p body =
     (case body of None \<Rightarrow> Some p | Some st \<Rightarrow> Option.bind (stmtType (scopeEnv p) st) (\<lambda>q. succeed (unscopeEnv q)))"

definition functionType :: "prog_env \<Rightarrow> 'd func_decl \<Rightarrow> nat list \<Rightarrow> c_type list \<Rightarrow> prog_env option" where
  "functionType p f as ts =
     demand (\<not> (func_type f = FT_EXPORTED \<and> genericParams f \<noteq> []))
     (Option.bind (genericsType p (genericParams f) as) (\<lambda>p3.
      Option.bind (paramsType p3 (map2 (\<lambda>(name, acc) t. (name, acc, t)) (paramAccess f) ts)) (\<lambda>p4.
      Option.bind (bodyType p4 (func_body f)) (\<lambda>p5.
      Option.bind (succeed (leaveScope p5)) (\<lambda>p6.
      demand (env_funcs (pe_env p6) (func_name f) = None) (Some (addFunction (func_name f) (Some (funcSig f ts)) p6)))))))"

definition funcType :: "prog_env \<Rightarrow> (elem_ref \<rightharpoonup> elem_source) \<Rightarrow> 'd func_decl \<Rightarrow> prog_env option" where
  "funcType p sources f =
     Option.bind (succeed (addDecl (func_name f) None p)) (\<lambda>p0.
     Option.bind (succeed (declareGenerics (enterScope p0) (genericParams f))) (\<lambda>(as, p1).
     Option.bind (succeed (declareSignature p1 (signatureDecls f))) (\<lambda>(sig, p2).
     functionType p2 f as (signatureTypes sources sig))))"

fun elementType :: "prog_env \<Rightarrow> (elem_ref \<rightharpoonup> elem_source) \<Rightarrow> 'd program_element \<Rightarrow> prog_env option" where
  "elementType p sources (ElementTypeDecl name fs) = elementDeclType p name fs"
| "elementType p sources (ExternDecl name type) = externType p name type"
| "elementType p sources (FuncDecl f) = funcType p sources f"
| "elementType p sources (TopConst st) =
     (case st of ConstDecl name type init \<Rightarrow> declType p True True name type (Some init) | _ \<Rightarrow> stmtType p st)"
| "elementType p sources (Test name args expected) =
     demand (list_all (\<lambda>e. typeOf (viewEnv p) e \<noteq> None) (args @ [expected])) (Some p)"

fun programType :: "prog_env \<Rightarrow> ((elem_ref \<rightharpoonup> elem_source) \<times> 'd program_element) list \<Rightarrow> prog_env option" where
  "programType p [] = Some p"
| "programType p ((sources, elem) # elems) = Option.bind (elementType p sources elem) (\<lambda>p'. programType p' elems)"

text \<open>As for statements: declared tensor types have index sets.\<close>

fun plainType :: "fir_type \<Rightarrow> bool" where
  "plainType (TensorType t) = hasIndexSets t"
| "plainType _ = True"

definition plainFunc :: "'d func_decl \<Rightarrow> bool" where
  "plainFunc f =
     (list_all (\<lambda>d. plainType (decl_type d)) (signatureDecls f) \<and> (case func_body f of None \<Rightarrow> True | Some st \<Rightarrow> plainStmt st))"

fun plainElement :: "'d program_element \<Rightarrow> bool" where
  "plainElement (ElementTypeDecl _ fs) = list_all (\<lambda>f. hasIndexSets (snd f)) fs"
| "plainElement (ExternDecl _ type) = plainType type"
| "plainElement (FuncDecl f) = plainFunc f"
| "plainElement (TopConst st) = plainStmt st"
| "plainElement (Test _ _ _) = True"

end
