(* ===== verification/Declaration_Check_Correct.thy ===== *)
theory Declaration_Check_Correct
  imports Program_Check_Correct Declaration_Typing
begin

text \<open>
  The checker of declarations and programs refines the reference: it accepts a program exactly if the typing rules do.
\<close>

section \<open>Combinators\<close>

lemma refines_demand: "refines k v \<Longrightarrow> refines (tthen (if c then reportRedefinition a n else tret ()) k) (demand (\<not> c) v)"
  by (auto simp: demand_def reportRedefinition_def intro: refines_report_then refines_grows)

lemma refines_guard: "refines k v \<Longrightarrow> refines (tthen (reportIf c m) k) (demand (\<not> c) v)"
  using refines_reportIf_then [of k v c m] by (simp add: demand_def split: if_splits)

lemma refines_fresh:
  "prog_ok p \<Longrightarrow> refines k v \<Longrightarrow>
   refines (tbind (hasCurrent p name) (\<lambda>b. tthen (if b then reportRedefinition a name else tret ()) k)) (demand (\<not> declaredHere p name) v)"
  by (simp add: hasCurrent_declared refines_demand)

lemma refines_bindNew:
  assumes "prog_ok p" and "\<And>q. bindNew name t acc p = Some q \<Longrightarrow> refines (k q) (g q)" and "\<And>q. grows (k q)"
  shows "refines (tbind (hasCurrent p name) (\<lambda>b. tthen (if b then reportRedefinition a name else tret ())
     (tbind (tlift (addSymbol name (Some t) acc p)) k))) (Option.bind (bindNew name t acc p) g)"
proof -
  have "refines (tbind (tlift (addSymbol name (Some t) acc p)) k) (Option.bind (succeed (addSymbol name (Some t) acc p)) g)"
    if "\<not> declaredHere p name"
    using assms(2,3) that by (intro refines_bind [OF refines_lift]) (auto simp: bindNew_def demand_def)
  then show ?thesis
    using refines_fresh [OF assms(1), of _ _ name a] assms(3) unfolding bindNew_def
    by (cases "declaredHere p name")
      (auto simp: demand_def hasCurrent_declared [OF assms(1)] reportRedefinition_def intro!: refines_report_then grows_rules)
qed

lemma refines_node:
  assumes "refines m v" and "\<And>x. v = Some x \<Longrightarrow> refines (k True x) (g x)" and "\<And>b x. grows (k b x)"
  shows "refines (tbind (typeCheckNode m) (\<lambda>(ok, x). k ok x)) (Option.bind v g)"
proof -
  have "refines (tbind (typeCheckNode m) (\<lambda>(ok, x). k ok x)) (Option.bind (map_option (Pair True) v) (\<lambda>(_, x). g x))"
    by (rule refines_bind [OF refines_typeCheckNode [OF assms(1)]]) (use assms(2,3) in auto)
  moreover have "Option.bind (map_option (Pair True) v) (\<lambda>(_, x). g x) = Option.bind v g" by (cases v) simp_all
  ultimately show ?thesis by simp
qed

lemma refines_nodeChecked:
  assumes "refines m v" and "\<And>x. v = Some x \<Longrightarrow> refines (k True x) (g x)" and "\<And>b x. grows (k b x)"
  shows "refines (tbind (typeCheckNode m) (\<lambda>(ok, x). tbind getChecked (\<lambda>c. tthen (setChecked (ok \<and> c)) (k ok x)))) (Option.bind v g)"
  using assms
  by (intro refines_node refines_bind_Some [OF refines_getChecked] grows_rules)
    (auto intro!: refines_then_Some [OF refines_setChecked] assms(2))

lemma refines_nodeFlag:
  assumes "refines m v" and "\<And>x. v = Some x \<Longrightarrow> refines (k True x) (g x)" and "\<And>b x. grows (k b x)"
  shows "refines (tbind (typeCheckNode m) (\<lambda>(ok, x). tthen (setChecked ok) (k ok x))) (Option.bind v g)"
  using assms by (intro refines_node grows_rules) (auto intro!: refines_then_Some [OF refines_setChecked] assms(2))

lemma accepts_nested: "accepts m P \<Longrightarrow> accepts (tbind (typeCheck m) setChecked) P"
  using refines_checkedNode [of m P setChecked "Some ()"] by (simp add: accepts_def refines_setChecked grows_rules)

lemma accepts_then: "accepts m P \<Longrightarrow> refines k v \<Longrightarrow> refines (tthen m k) (demand P v)"
  by (auto simp: accepts_def demand_def intro: refines_then_Some refines_then_None refines_grows split: if_splits)

lemma accepts_checked:
  assumes "accepts m P" and "P \<Longrightarrow> refines (k True) v" and "\<And>b. grows (k b)"
  shows "refines (tbind (typeCheck m) k) (demand P v)"
  unfolding demand_def using assms by (rule refines_checkedNode)

section \<open>Types\<close>

lemma accepts_elementType: "accepts (visitElementType env e) (elemOk env e)"
  by (simp add: accepts_def visitElementType_def elemOk_def reportUndeclared_def refines_report refines_ret)

lemma grows_declTypes [grows_rules]:
  "grows (visitElementType env e)" "grows (visitEndpoint env ep)" "grows (checkGrid env s)"
  unfolding visitElementType_def visitEndpoint_def checkGrid_def Let_def by (intro grows_rules)+

lemma grows_visitEndpoints [grows_rules]: "grows (visitEndpoints env eps)"
  by (induction eps) (auto intro!: grows_rules)

lemma grows_visitSetShape [grows_rules]: "grows (visitSetShape env e sh)"
  by (cases sh) (auto intro!: grows_rules)

lemma grows_visitTupleElems [grows_rules]: "grows (visitTupleElems env es names)"
  by (induction env es names rule: visitTupleElems.induct) (auto intro!: grows_rules)

lemma grows_visitType [grows_rules]: "grows (visitType p t)"
  by (cases t) (auto simp: Let_def intro!: grows_rules)

lemma refines_endpoint:
  assumes "env_ok env"
  shows "refines (visitEndpoint env ep) (endpointType env ep)"
proof -
  have "refines (tbind (tlift (getSetDefinition (ep_set ep))) (\<lambda>a. tret (ep\<lparr>ep_element := Some (set_element (env_sets env a))\<rparr>)))
    (map_option (\<lambda>a. ep\<lparr>ep_element := Some (set_element (env_sets env a))\<rparr>) (setDef (ep_set ep)))"
    by (cases "setDef (ep_set ep)") (simp_all add: getSetDefinition_def refines_ret refines_fail)
  then show ?thesis unfolding visitEndpoint_def endpointType_def
    by (intro accepts_checked accepts_visitIndexSet [OF assms] grows_rules) (auto intro!: refines_then_Some [OF refines_setChecked])
qed

lemma refines_endpoints:
  assumes "env_ok env"
  shows "refines (visitEndpoints env eps) (those (map (endpointType env) eps))"
proof (induction eps)
  case (Cons ep eps)
  have "refines (visitEndpoints env (ep # eps))
    (Option.bind (endpointType env ep) (\<lambda>ep'. Option.bind (those (map (endpointType env) eps)) (\<lambda>eps'. Some (ep' # eps'))))"
    unfolding visitEndpoints.simps
    by (rule refines_nodeChecked [OF refines_endpoint [OF assms]])
      (auto intro!: refines_bind [OF Cons.IH] refines_ret grows_rules)
  then show ?case
    by (rule back_subst [of "refines _"]) (cases "endpointType env ep"; cases "those (map (endpointType env) eps)"; simp)
qed (simp add: refines_ret)

lemma accepts_checkGrid: "accepts (checkGrid env s) (pointSet env s)"
  by (auto simp: accepts_def checkGrid_def pointSet_def getSetDefinition_def Let_def refines_report refines_ret refines_fail reportIf_def split: option.split)

lemma refines_setShape:
  assumes "env_ok env"
  shows "refines (visitSetShape env e sh) (demand (elemOk env e) (shapeType env sh))"
proof (cases sh)
  case (Homogeneous ep n)
  have "refines (tbind (typeCheckNode (visitEndpoint env ep)) (\<lambda>(ok, ep').
     tthen (setChecked (True \<and> ok)) (tthen (reportIf (n < 1) m) (tret (Homogeneous ep' n))))) (shapeType env sh)" for m
    using refines_reportIf_then [OF refines_ret, where c = "n < 1"] unfolding Homogeneous shapeType.simps simp_thms
    by (intro refines_nodeFlag refines_endpoint [OF assms] grows_rules) (auto simp: demand_def split: if_splits)
  then show ?thesis unfolding Homogeneous visitSetShape.simps
    by (intro accepts_checked accepts_elementType grows_rules) (auto split: prod.split intro!: grows_rules)
next
  case (Heterogeneous eps)
  have "refines (tbind (visitEndpoints env eps) (\<lambda>eps'. tret (Heterogeneous eps'))) (Option.bind (those (map (endpointType env) eps)) (\<lambda>x. Some (Heterogeneous x)))"
    by (intro refines_bind [OF refines_endpoints [OF assms]] refines_ret grows_rules)
  then have "refines (tthen (setChecked True) (tbind (visitEndpoints env eps) (\<lambda>eps'. tret (Heterogeneous eps')))) (shapeType env sh)"
    unfolding Heterogeneous shapeType.simps
    by (intro refines_then_Some [OF refines_setChecked]) (cases "those (map (endpointType env) eps)"; simp)
  then show ?thesis unfolding Heterogeneous visitSetShape.simps
    by (intro accepts_checked accepts_elementType grows_rules)
next
  case (GridSet ep n)
  have "refines (tbind (typeCheckNode (visitEndpoint env ep)) (\<lambda>(ok, ep').
     tthen (setChecked (True \<and> ok)) (tthen (if True \<and> ok then checkGrid env (ep_set ep) else tret ()) (tret (GridSet ep' n))))) (shapeType env sh)"
    unfolding GridSet shapeType.simps simp_thms
    by (intro refines_nodeFlag refines_endpoint [OF assms] grows_rules) (simp add: accepts_then [OF accepts_checkGrid refines_ret])
  then show ?thesis unfolding GridSet visitSetShape.simps
    by (intro accepts_checked accepts_elementType grows_rules) (auto split: prod.split intro!: grows_rules)
qed

lemma accepts_tupleElems:
  "accepts (visitTupleElems env es names)
     (list_all (\<lambda>e. elemOk env (snd e)) es \<and> distinct (map fst es) \<and> set (map fst es) \<inter> set names = {})"
proof (induction env es names rule: visitTupleElems.induct)
  case (2 env name e es names)
  let ?P = "list_all (\<lambda>e. elemOk env (snd e)) es \<and> distinct (map fst es) \<and> set (map fst es) \<inter> set (name # names) = {}"
  have "refines (visitTupleElems env ((name, e) # es) names) (demand (elemOk env e) (demand (name \<notin> set names) (demand ?P (Some ()))))"
    unfolding visitTupleElems.simps
    using refines_demand [OF 2 [unfolded accepts_def, folded demand_def], of "name \<in> set names" "''tuple element''" "case name of None \<Rightarrow> [] | Some x \<Rightarrow> x"]
    by (intro accepts_checked accepts_nested accepts_elementType grows_rules)
      (auto intro!: refines_bind_Some [OF refines_getChecked] refines_then_Some [OF refines_setChecked] grows_rules)
  then show ?case unfolding accepts_def
    by (rule back_subst [of "refines _"]) (auto simp: demand_def)
qed (simp add: accepts_def refines_ret)

lemma refines_visitType:
  assumes "prog_ok p"
  shows "refines (visitType p t) (checkedType p t)"
proof -
  have env: "env_ok (viewEnv p)" using assms by (simp add: prog_ok_def)
  show ?thesis
  proof (cases t)
    case (CElement e)
    then show ?thesis by (simp add: accepts_then [OF accepts_elementType refines_ret])
  next
    case (CSetType a)
    let ?st = "env_sets (pe_env p) a"
    have "refines (visitType p t) (Option.bind (demand (elemOk (viewEnv p) (set_element ?st)) (shapeType (viewEnv p) (set_shape ?st))) (\<lambda>sh. Some (withShape p a sh)))"
      unfolding CSetType visitType.simps Let_def withShape_def
      by (intro refines_bind [OF refines_setShape [OF env]] refines_ret grows_rules)
    then show ?thesis unfolding CSetType checkedType.simps
      by (rule back_subst [of "refines _"]) (auto simp: demand_def split: Option.bind_split)
  next
    case (CNamedTuple es)
    then show ?thesis using accepts_then [OF accepts_tupleElems refines_ret, of "viewEnv p" es "[]" p] by simp
  next
    case (CUnnamedTuple e n)
    have "refines (visitType p t) (demand (elemOk (viewEnv p) e) (if n < 1 then None else Some p))"
      unfolding CUnnamedTuple visitType.simps
      by (intro accepts_checked accepts_elementType grows_rules refines_then_Some [OF refines_setChecked] refines_reportIf_then refines_ret)
    then show ?thesis unfolding CUnnamedTuple checkedType.simps
      by (rule back_subst [of "refines _"]) (auto simp: demand_def)
  next
    case (CTensor x)
    then show ?thesis using accepts_then [OF accepts_tensorType [OF env] refines_ret, of x p] by simp
  qed (simp_all add: refines_ret)
qed

section \<open>What declarations leave\<close>

lemma succeed_Some: "succeed r = Some x \<longleftrightarrow> r = Inr x"
  by (cases r) (simp_all add: succeed_def)

text \<open>An accepted declaration leaves a good environment, with the outer scopes as they were.\<close>

definition stays :: "prog_env \<Rightarrow> prog_env option \<Rightarrow> bool" where
  "stays p v \<longleftrightarrow> (\<forall>p'. v = Some p' \<longrightarrow> prog_ok p' \<and> outer p' = outer p)"

lemma stays_refl: "prog_ok p \<Longrightarrow> stays p (Some p)"
  by (simp add: stays_def)

lemma stays_demand: "(c \<Longrightarrow> stays p v) \<Longrightarrow> stays p (demand c v)"
  by (simp add: stays_def demand_def)

lemma stays_trans: "stays p v \<Longrightarrow> (\<And>q. v = Some q \<Longrightarrow> prog_ok q \<Longrightarrow> stays q (f q)) \<Longrightarrow> stays p (Option.bind v f)"
  by (cases v) (auto simp: stays_def)

lemma env_ok_sets [simp]: "env_ok (env\<lparr>env_sets := sets\<rparr>) = env_ok env"
  by (simp add: env_ok_def lookup_def)

lemma stays_addDecl: "prog_ok p \<Longrightarrow> stays p (succeed (addDecl name d p))"
  by (erule addDecl_ok [of _ name d]) (auto simp: stays_def succeed_def dest: outer_addDecl)

lemma stays_addSymbol:
  assumes "prog_ok p" and "wf_type t"
  shows "stays p (succeed (addSymbol name (Some t) acc p))"
proof -
  let ?e = "pe_env p"
  have "0 < Scoped_Map.levels (env_symbols ?e)" using assms(1) by (simp add: prog_ok_def levels_def)
  then obtain table where table: "insert_symbol name (Some t, acc) (env_symbols ?e) = Inr table"
    using scoped.bind_total [of "env_symbols ?e" name "(Some t, acc)"] by blast
  let ?p = "p\<lparr>pe_env := ?e\<lparr>env_symbols := table, env_sets := recordSource name (Some t) (env_sets ?e)\<rparr>\<rparr>"
  have add: "addSymbol name (Some t) acc p = Inr ?p" by (simp add: addSymbol_def table)
  have "env_ok (?e\<lparr>env_symbols := table\<rparr>)"
    using assms scoped.look_bind [OF table] by (intro env_ok_table) (auto simp: prog_ok_def)
  then have "env_ok (?e\<lparr>env_symbols := table, env_sets := recordSource name (Some t) (env_sets ?e)\<rparr>)"
    using env_ok_sets [where env = "?e\<lparr>env_symbols := table\<rparr>"] by simp
  moreover have "scopes table \<noteq> []" using table assms(1) by (auto simp: insert_symbol_def prog_ok_def split: list.splits)
  ultimately have "prog_ok ?p" using assms(1) by (simp add: prog_ok_def)
  then show ?thesis using add outer_addSymbol [OF add] by (simp add: stays_def succeed_def)
qed

lemma stays_bindNew: "prog_ok p \<Longrightarrow> wf_type t \<Longrightarrow> stays p (bindNew name t acc p)"
  unfolding bindNew_def by (intro stays_demand stays_addSymbol)

lemma prog_ok_sets: "prog_ok p \<Longrightarrow> prog_ok (p\<lparr>pe_env := (pe_env p)\<lparr>env_sets := sets\<rparr>, pe_next := n\<rparr>)"
  by (simp add: prog_ok_def)

lemma stays_checkedType: "prog_ok p \<Longrightarrow> stays p (checkedType p t)"
proof (cases t)
  case (CSetType a)
  assume "prog_ok p"
  then have "prog_ok (withShape p a sh) \<and> outer (withShape p a sh) = outer p" for sh
    by (simp add: withShape_def prog_ok_def outer_def)
  then show ?thesis unfolding CSetType checkedType.simps by (intro stays_demand) (auto simp: stays_def)
qed (auto intro!: stays_demand stays_refl)

lemma allocSet_ok: "prog_ok p \<Longrightarrow> prog_ok (snd (allocSet e sh p)) \<and> outer (snd (allocSet e sh p)) = outer p"
  by (simp add: allocSet_def prog_ok_sets outer_def)

lemma resolveType_ok: "prog_ok p \<Longrightarrow> prog_ok (snd (resolveType p t)) \<and> outer (snd (resolveType p t)) = outer p"
  by (cases t) (simp_all add: allocSet_ok)

text \<open>A checked type is well formed, if its index sets were not left out.\<close>

fun plainC :: "c_type \<Rightarrow> bool" where
  "plainC (CTensor (CND ss _ _)) = (ss \<noteq> [])"
| "plainC CIVar = False"
| "plainC _ = True"

lemma plain_resolveType: "plainType t \<Longrightarrow> plainC (fst (resolveType p t))"
proof (cases t)
  case (TensorType x)
  then show "plainType t \<Longrightarrow> plainC (fst (resolveType p t))" by (cases x) simp_all
qed (simp_all add: allocSet_def)

lemma plain_attachSources: "plainC t \<Longrightarrow> plainC (attachSources sources sig i t)"
  by (cases t) simp_all

lemma wf_checkedType: "checkedType p t = Some q \<Longrightarrow> plainC t \<Longrightarrow> wf_type t"
proof (cases t)
  case (CTensor x)
  assume "checkedType p t = Some q" "plainC t"
  with CTensor show ?thesis using wf_tensorTypeOk [of "viewEnv p"] by (cases x) (auto simp: demand_def split: if_splits)
qed simp_all

lemma stays_declareIdent:
  assumes "prog_ok p" and "declareIdent p name type = Inr (t, q)"
  shows "prog_ok q \<and> outer q = outer p" and "plainType type \<Longrightarrow> plainC t"
proof -
  obtain t' r where r: "resolveType p type = (t', r)" by (cases "resolveType p type")
  with assms(2) have "addDecl name (setAddr t) r = Inr q" and t: "t' = t"
    by (auto simp: declareIdent_def rbind_eq_Inr)
  then show "prog_ok q \<and> outer q = outer p"
    using stays_addDecl [of r name "setAddr t"] resolveType_ok [OF assms(1), of type] r by (auto simp: stays_def succeed_def)
  show "plainType type \<Longrightarrow> plainC t" using plain_resolveType [of type p] r t by simp
qed

section \<open>Element types and externs\<close>

lemma grows_visitFields [grows_rules]: "grows (visitFields p fs known)"
proof (induction fs arbitrary: p known)
  case (Cons f fs)
  then show ?case by (cases f) (simp only: visitFields.simps Let_def, intro grows_rules)
qed (simp add: grows_rules)

lemma refines_fields:
  "prog_ok p \<Longrightarrow> refines (visitFields p fs known) (fieldsType p fs known)"
proof (induction fs arbitrary: p known)
  case (Cons f fs)
  obtain name type where f: "f = (name, type)" by (cases f)
  let ?t = "resolveTensor (viewEnv p) type"
  have env: "env_ok (viewEnv p)" using Cons.prems by (simp add: prog_ok_def)
  have "refines (tbind (tlift (addDecl name None p)) (\<lambda>p'. visitFields p' fs (known(name \<mapsto> Some ?t))))
      (Option.bind (succeed (addDecl name None p)) (\<lambda>p'. fieldsType p' fs (known(name \<mapsto> Some ?t))))"
    using stays_addDecl [OF Cons.prems, of name None]
    by (intro refines_bind [OF refines_lift] Cons.IH grows_rules) (simp add: stays_def)
  from refines_demand [OF this]
  have "refines (visitFields p (f # fs) known) (demand (tensorTypeOk (viewEnv p) ?t)
      (demand (\<not> known name \<noteq> None) (Option.bind (succeed (addDecl name None p)) (\<lambda>p'. fieldsType p' fs (known(name \<mapsto> Some ?t))))))"
    unfolding f visitFields.simps Let_def
    by (intro accepts_checked accepts_nested accepts_tensorType env grows_rules) (simp only: if_True)
  then show ?case unfolding f fieldsType.simps Let_def
    by (rule back_subst [of "refines _"]) (simp add: demand_def)
qed (simp add: refines_ret)

definition good_fields :: "(string \<rightharpoonup> c_tensor option) \<Rightarrow> bool" where
  "good_fields known \<longleftrightarrow> (\<forall>f t. known f = Some t \<longrightarrow> (\<exists>u. t = Some u \<and> wf_tensor u))"

lemma fieldsType_ok:
  "fieldsType p fs known = Some (known', q) \<Longrightarrow> prog_ok p \<Longrightarrow> good_fields known \<Longrightarrow> list_all (\<lambda>f. hasIndexSets (snd f)) fs \<Longrightarrow>
   prog_ok q \<and> outer q = outer p \<and> good_fields known'"
proof (induction fs arbitrary: p known)
  case (Cons f fs)
  obtain name type where f: "f = (name, type)" by (cases f)
  let ?t = "resolveTensor (viewEnv p) type"
  from Cons.prems(1) obtain p' where ok: "tensorTypeOk (viewEnv p) ?t" and p': "addDecl name None p = Inr p'"
    and rest: "fieldsType p' fs (known(name \<mapsto> Some ?t)) = Some (known', q)"
    by (auto simp: f Let_def demand_def bind_eq_Some_conv succeed_def split: if_splits sum.splits)
  have "wf_tensor ?t" using wf_declared [OF ok] Cons.prems(4) by (simp add: f)
  then have "good_fields (known(name \<mapsto> Some ?t))" using Cons.prems(3) by (simp add: good_fields_def)
  moreover have "prog_ok p'" "outer p' = outer p"
    using stays_addDecl [OF Cons.prems(2), of name None] p' by (simp_all add: stays_def succeed_def)
  moreover have "list_all (\<lambda>f. hasIndexSets (snd f)) fs" using Cons.prems(4) by simp
  ultimately show ?case using Cons.IH [OF rest] by metis
qed simp

lemma refines_elementDecl:
  assumes "prog_ok p" and "list_all (\<lambda>f. hasIndexSets (snd f)) fs"
  shows "refines (visitElementTypeDecl p name fs) (elementDeclType p name fs)" and "stays p (elementDeclType p name fs)"
proof -
  show "refines (visitElementTypeDecl p name fs) (elementDeclType p name fs)"
    unfolding visitElementTypeDecl_def elementDeclType_def
  proof (rule refines_bind [OF refines_fields [OF assms(1)]], goal_cases)
    case (2 x)
    obtain known q where x: "x = (known, q)" by (cases x)
    from refines_demand [OF refines_ret, of "env_elements (pe_env q) name \<noteq> None"] show ?case unfolding x prod.case not_not .
  qed (auto intro!: grows_rules)
  have "prog_ok (q\<lparr>pe_env := (pe_env q)\<lparr>env_elements := (env_elements (pe_env q))(name \<mapsto> known)\<rparr>\<rparr>)"
    if "prog_ok q" "good_fields known" for q known
    using that by (auto simp: prog_ok_def env_ok_def good_fields_def lookup_def)
  then show "stays p (elementDeclType p name fs)"
    using fieldsType_ok [of p fs Map.empty] assms
    by (fastforce simp: stays_def elementDeclType_def bind_eq_Some_conv demand_def outer_def good_fields_def split: if_splits)
qed

lemma refines_bindLast:
  assumes "prog_ok p"
  shows "refines (tbind (hasCurrent p name) (\<lambda>b. tthen (if b then reportRedefinition a name else tret ())
     (tlift (addSymbol name (Some t) acc p)))) (bindNew name t acc p)"
  unfolding bindNew_def by (intro refines_fresh assms refines_lift)

lemma refines_extern:
  assumes ok: "prog_ok p" and plain: "plainType type"
  shows "refines (visitExternDecl p name type) (externType p name type)" and "stays p (externType p name type)"
proof -
  have decl: "prog_ok q" "outer q = outer p" "plainC t" if "succeed (declareIdent p name type) = Some (t, q)" for t q
    using stays_declareIdent [OF ok, of name type t q] plain that by (auto simp: succeed_def split: sum.splits)
  show "refines (visitExternDecl p name type) (externType p name type)"
    unfolding visitExternDecl_def externType_def
  proof (rule refines_bind [OF refines_lift], goal_cases)
    case (2 x)
    obtain t q where x: "x = (t, q)" by (cases x)
    then have q: "prog_ok q" using decl 2 by simp
    have "refines (tbind (hasCurrent r name) (\<lambda>b. tthen (if b then reportRedefinition ''variable or constant'' name else tret ())
        (tlift (addSymbol name (if True then Some t else None) ACC_READ_WRITE r)))) (bindNew name t ACC_READ_WRITE r)"
      if "checkedType q t = Some r" for r
      using refines_bindLast [of r] stays_checkedType [OF q, of t] that by (simp add: stays_def)
    then show ?case unfolding x prod.case
      by (intro refines_nodeFlag refines_visitType q grows_rules)
  qed (auto intro!: grows_rules)
  show "stays p (externType p name type)"
    unfolding externType_def
  proof (cases "succeed (declareIdent p name type)")
    case (Some x)
    obtain t q where x: "x = (t, q)" by (cases x)
    note d = decl [OF Some [unfolded x]]
    have "stays q (Option.bind (checkedType q t) (bindNew name t ACC_READ_WRITE))"
      by (rule stays_trans [OF stays_checkedType [OF d(1)]]) (auto intro: stays_bindNew wf_checkedType d(3))
    then show "stays p (Option.bind (succeed (declareIdent p name type)) (\<lambda>(t, p1). Option.bind (checkedType p1 t) (bindNew name t ACC_READ_WRITE)))"
      using d(2) by (simp add: Some x stays_def)
  qed (simp add: stays_def)
qed

section \<open>Functions\<close>

lemma refines_generics:
  "prog_ok p \<Longrightarrow> refines (visitGenericParams p gs as) (genericsType p gs as) \<and> stays p (genericsType p gs as)"
proof (induction p gs as rule: genericsType.induct)
  case (1 p name gt params a as)
  let ?t = "if gt = GT_RANGE then CTensor (CScalar SC_INT) else CSetType a"
  have new: "stays p (bindNew name ?t ACC_READ p)" by (rule stays_bindNew [OF 1(2)]) simp
  have IH: "refines (visitGenericParams q params as) (genericsType q params as)" "stays q (genericsType q params as)"
    if "bindNew name ?t ACC_READ p = Some q" for q
    using 1(1) new that by (simp_all add: stays_def)
  have "grows (visitGenericParams q gs as)" for q gs as
    by (induction q gs as rule: visitGenericParams.induct) (auto intro!: grows_rules)
  then show ?case unfolding visitGenericParams.simps genericsType.simps
    by (intro conjI refines_bindNew 1(2) IH(1) stays_trans [OF new] IH(2))
qed (simp_all add: refines_ret stays_refl)

lemma grows_visitIdentDecl [grows_rules]: "grows (visitIdentDecl p t)"
  unfolding visitIdentDecl_def by (intro grows_rules)

lemma grows_visitParams [grows_rules]: "grows (visitParams p ps)"
  by (induction p ps rule: visitParams.induct) (auto intro!: grows_rules)

lemma refines_identDecl:
  assumes "prog_ok p"
  shows "refines (visitIdentDecl p t) (checkedType p t)"
proof -
  have "refines (visitIdentDecl p t) (Option.bind (checkedType p t) Some)" unfolding visitIdentDecl_def
    by (rule refines_nodeFlag [OF refines_visitType [OF assms]]) (auto intro: refines_ret grows_rules)
  then show ?thesis by simp
qed

lemma refines_params:
  "prog_ok p \<Longrightarrow> list_all (\<lambda>(_, _, t). plainC t) ps \<Longrightarrow> refines (visitParams p ps) (paramsType p ps) \<and> stays p (paramsType p ps)"
proof (induction ps arbitrary: p)
  case (Cons x ps)
  obtain name acc t where x: "x = (name, acc, t)" by (cases x)
  have plain: "plainC t" "list_all (\<lambda>(_, _, t). plainC t) ps" using Cons.prems(2) by (simp_all add: x)
  have check: "stays p (checkedType p t)" by (rule stays_checkedType [OF Cons.prems(1)])
  have new: "prog_ok q" "stays q (bindNew name t acc q)" if "checkedType p t = Some q" for q
    using check that stays_bindNew [of q t name acc] wf_checkedType [OF that plain(1)] by (simp_all add: stays_def)
  have IH: "refines (visitParams r ps) (paramsType r ps)" "stays r (paramsType r ps)"
    if "checkedType p t = Some q" "bindNew name t acc q = Some r" for q r
    using Cons.IH [of r] new [OF that(1)] that(2) plain(2) by (simp_all add: stays_def)
  have "refines (tbind (hasCurrent q name) (\<lambda>b. tthen (if b then reportRedefinition ''function parameter'' name else tret ())
      (tbind (tlift (addSymbol name (if True then Some t else None) acc q)) (\<lambda>p2. visitParams p2 ps))))
      (Option.bind (bindNew name t acc q) (\<lambda>p2. paramsType p2 ps))" if "checkedType p t = Some q" for q
    unfolding if_True by (intro refines_bindNew new(1) that IH(1) [OF that] grows_rules)
  then have "refines (visitParams p (x # ps)) (paramsType p (x # ps))" unfolding x visitParams.simps paramsType.simps
    by (intro refines_nodeChecked refines_identDecl Cons.prems(1) grows_rules)
  moreover have "stays p (paramsType p (x # ps))" unfolding x paramsType.simps
    by (intro stays_trans [OF check] stays_trans [OF new(2)] IH(2))
  ultimately show ?case by simp
qed (simp add: refines_ret stays_refl)

lemma prog_ok_scopeEnv: "prog_ok p \<Longrightarrow> prog_ok (scopeEnv p)"
  using prog_ok_enterScope [of p] by (simp add: prog_ok_def scopeEnv_def enterScope_def)

lemma unscopeEnv_ok:
  assumes "prog_ok p" and "prog_ok q" and "leaveScope q = leaveScope (scopeEnv p)"
  shows "unscopeEnv q = Inr (p\<lparr>pe_decls := pe_decls q\<rparr>) \<and> prog_ok (p\<lparr>pe_decls := pe_decls q\<rparr>) \<and> outer (p\<lparr>pe_decls := pe_decls q\<rparr>) = outer p"
proof -
  obtain sc rest where d: "scopes (pe_decls p) = sc # rest" using assms(1) by (cases "scopes (pe_decls p)") (auto simp: prog_ok_def)
  obtain sc' rest' where d': "scopes (pe_decls q) = sc' # rest'" using assms(2) by (cases "scopes (pe_decls q)") (auto simp: prog_ok_def)
  obtain t where t: "unscope (env_symbols (pe_env q)) = Inr t" using assms(2)
    by (cases "scopes (env_symbols (pe_env q))") (simp_all add: prog_ok_def unscope_def)
  have u: "unscope (pe_decls p) = Inr \<lparr>scopes = rest\<rparr>" "unscope (pe_decls q) = Inr \<lparr>scopes = rest'\<rparr>"
    by (simp_all add: unscope_def d d')
  from assms(3) have eq: "q\<lparr>pe_env := (pe_env q)\<lparr>env_symbols := t\<rparr>, pe_decls := \<lparr>scopes = rest'\<rparr>\<rparr> = p\<lparr>pe_decls := \<lparr>scopes = rest\<rparr>\<rparr>"
    by (simp add: leaveScope_def scopeEnv_def scoped.leave_enter t u)
  then have "pe_env p = (pe_env q)\<lparr>env_symbols := t\<rparr>" "rest = rest'" "pe_next q = pe_next p"
    by (cases p; cases q; simp)+
  then show ?thesis using assms(1) t d d'
    by (cases p; cases q) (simp add: unscopeEnv_def prog_ok_def outer_def unscope_def)
qed

lemma refines_body:
  fixes body :: "'d fir_stmt option"
  assumes ok: "prog_ok p" and plain: "case body of None \<Rightarrow> True | Some st \<Rightarrow> plainStmt st"
  shows "refines (visitBody p body) (bodyType p body)" and "stays p (bodyType p body)"
proof -
  have s: "refines (visitStmt (scopeEnv p) st) (stmtType (scopeEnv p) st) \<and> leaves (scopeEnv p) (stmtType (scopeEnv p) st)"
    if "body = Some st" for st
    using refines_visitStmt(1) [OF prog_ok_scopeEnv [OF ok], of st] plain that by simp
  show "refines (visitBody p body) (bodyType p body)" unfolding visitBody_def bodyType_def
    using s by (cases body) (auto intro!: refines_ret refines_node refines_lift grows_rules)
  show "stays p (bodyType p body)"
  proof (cases body)
    case (Some st)
    show ?thesis unfolding stays_def
    proof (intro allI impI)
      fix p'
      assume "bodyType p body = Some p'"
      then obtain q where q: "stmtType (scopeEnv p) st = Some q" "unscopeEnv q = Inr p'"
        by (auto simp: Some bodyType_def bind_eq_Some_conv succeed_Some)
      then show "prog_ok p' \<and> outer p' = outer p" using unscopeEnv_ok [OF ok, of q] s [OF Some] by (auto simp: leaves_def)
    qed
  qed (use ok in \<open>simp add: bodyType_def stays_refl\<close>)
qed

lemma declareGenerics_ok:
  "declareGenerics p gs = Inr (as, q) \<Longrightarrow> prog_ok p \<Longrightarrow> prog_ok q \<and> outer q = outer p"
proof (induction gs arbitrary: p as)
  case (Cons g gs)
  obtain name gt where g: "g = (name, gt)" by (cases g)
  let ?r = "snd (allocSet [] (Heterogeneous []) p)" and ?a = "fst (allocSet [] (Heterogeneous []) p)"
  from Cons.prems(1) obtain p' as' where p': "addDecl name (Some ?a) ?r = Inr p'" and rest: "declareGenerics p' gs = Inr (as', q)"
    by (auto simp: g rbind_eq_Inr Let_def case_prod_unfold)
  have "prog_ok p'" "outer p' = outer p"
    using stays_addDecl [of ?r name "Some ?a"] allocSet_ok [OF Cons.prems(2)] p' by (auto simp: stays_def succeed_def)
  then show ?case using Cons.IH [OF rest] by simp
qed simp

lemma declareSignature_ok:
  "declareSignature p ds = Inr (sig, q) \<Longrightarrow> prog_ok p \<Longrightarrow> list_all (\<lambda>d. plainType (decl_type d)) ds \<Longrightarrow>
   prog_ok q \<and> outer q = outer p \<and> list_all (\<lambda>x. plainC (snd x)) sig"
proof (induction ds arbitrary: p sig)
  case (Cons d ds)
  from Cons.prems(1) obtain t p' sig' where p': "declareIdent p (decl_name d) (decl_type d) = Inr (t, p')"
    and rest: "declareSignature p' ds = Inr (sig', q)" and sig: "sig = (viewEnv p, t) # sig'"
    by (auto simp: rbind_eq_Inr)
  from stays_declareIdent [OF Cons.prems(2) p'] Cons.IH [OF rest] Cons.prems(3) sig show ?case by simp
qed simp

lemma leaveScope_ok:
  assumes "prog_ok p" and "prog_ok q" and "outer q = outer (enterScope p)"
  obtains r where "leaveScope q = Inr r" "prog_ok r" "outer r = outer p"
proof -
  let ?r = "q\<lparr>pe_env := (pe_env q)\<lparr>env_symbols := env_symbols (pe_env p)\<rparr>, pe_decls := pe_decls p\<rparr>"
  have leave: "leaveScope q = Inr ?r"
    using assms(3) by (simp add: leaveScope_def outer_def enterScope_def scoped.leave_enter)
  have "env_ok ((pe_env q)\<lparr>env_symbols := env_symbols (pe_env p)\<rparr>)"
    using assms(1,2) by (auto simp: prog_ok_def env_ok_def lookup_def)
  then have "prog_ok ?r" using assms(1) by (simp add: prog_ok_def)
  then show ?thesis using that [OF leave] by (simp add: outer_def)
qed

lemma wf_paramsType:
  "paramsType p ps = Some q \<Longrightarrow> list_all (\<lambda>(_, _, t). plainC t) ps \<Longrightarrow> list_all (\<lambda>(_, _, t). wf_type t) ps"
proof (induction ps arbitrary: p)
  case (Cons x ps)
  then show ?case by (cases x) (auto simp: bind_eq_Some_conv intro: wf_checkedType)
qed simp

text \<open>The parameters of a function have the declared types, with the inferred sources.\<close>

lemma length_declareSignature: "declareSignature p ds = Inr (sig, q) \<Longrightarrow> length sig = length ds"
  by (induction ds arbitrary: p sig) (auto simp: rbind_eq_Inr)

definition sigParams :: "'d func_decl \<Rightarrow> c_type list \<Rightarrow> (string \<times> Access \<times> c_type) list" where
  "sigParams f ts = map2 (\<lambda>(name, acc) t. (name, acc, t)) (paramAccess f) ts"

lemma sigParams_types:
  "length ts = length (signatureDecls f) \<Longrightarrow> list_all (\<lambda>(_, _, t). P t) (sigParams f ts) = list_all P ts"
proof -
  assume "length ts = length (signatureDecls f)"
  then have "length (paramAccess f) = length ts" by (simp add: paramAccess_def signatureDecls_def)
  then have "map (snd \<circ> snd) (sigParams f ts) = ts"
    by (simp add: sigParams_def case_prod_unfold comp_def map_snd_zip)
  then have "list_all P ts = list_all P (map (snd \<circ> snd) (sigParams f ts))" by simp
  then show ?thesis by (simp add: list.pred_map comp_def case_prod_unfold)
qed

lemma plain_signatureTypes: "list_all (\<lambda>x. plainC (snd x)) sig \<Longrightarrow> list_all plainC (signatureTypes sources sig)"
  by (auto simp: list_all_iff signatureTypes_def in_set_enumerate_eq intro!: plain_attachSources) (metis nth_mem snd_conv)

lemma prog_ok_addFunction: "prog_ok p \<Longrightarrow> list_all wf_type (sig_results sig) \<Longrightarrow> prog_ok (addFunction name (Some sig) p)"
  by (auto simp: prog_ok_def env_ok_def addFunction_def lookup_def)

lemma grows_visitGenericParams [grows_rules]: "grows (visitGenericParams p gs as)"
  by (induction p gs as rule: visitGenericParams.induct) (auto intro!: grows_rules)

lemma grows_visitBody [grows_rules]: "grows (visitBody p body)"
  unfolding visitBody_def by (intro grows_rules)

lemma refines_signature:
  fixes f :: "'d func_decl"
  assumes ok: "prog_ok p" and p2: "prog_ok p2" "outer p2 = outer (enterScope p)"
    and plain: "plainFunc f" "list_all plainC ts" "length ts = length (signatureDecls f)"
  shows "refines (checkFunction p2 f as ts) (functionType p2 f as ts)" and "stays p (functionType p2 f as ts)"
proof -
  have params: "list_all (\<lambda>(_, _, t). plainC t) (sigParams f ts)" using plain sigParams_types [OF plain(3)] by simp
  have body: "case func_body f of None \<Rightarrow> True | Some st \<Rightarrow> plainStmt st" using plain(1) by (simp add: plainFunc_def)
  have p3: "prog_ok p3" "outer p3 = outer p2" if "genericsType p2 (genericParams f) as = Some p3" for p3
    using refines_generics [OF p2(1)] that by (simp_all add: stays_def)
  have p4: "prog_ok p4" "outer p4 = outer p3" if "prog_ok p3" "paramsType p3 (sigParams f ts) = Some p4" for p3 p4
    using refines_params [OF that(1) params] that(2) by (simp_all add: stays_def)
  have p5: "prog_ok p5" "outer p5 = outer p4" if "prog_ok p4" "bodyType p4 (func_body f) = Some p5" for p4 p5
    using refines_body(2) [OF that(1) body] that(2) by (simp_all add: stays_def)
  have last: "refines (tbind getChecked (\<lambda>ok.
      tthen (if env_funcs (pe_env p6) (func_name f) \<noteq> None then reportRedefinition a (func_name f) else tret ())
      (tret (addFunction (func_name f) (if ok then Some (funcSig f ts) else None) p6))))
     (demand (env_funcs (pe_env p6) (func_name f) = None) (Some (addFunction (func_name f) (Some (funcSig f ts)) p6)))" for p6 a
    using refines_demand [OF refines_ret, of "env_funcs (pe_env p6) (func_name f) \<noteq> None" a "func_name f"
        "addFunction (func_name f) (Some (funcSig f ts)) p6"]
    by (intro refines_bind_Some [OF refines_getChecked] grows_rules) (simp del: not_None_eq)
  show "refines (checkFunction p2 f as ts) (functionType p2 f as ts)"
    unfolding checkFunction_def functionType_def sigParams_def [symmetric]
    using refines_generics [OF p2(1)] refines_params params p3 p4 refines_body(1) body last
    by (intro refines_guard refines_bind grows_rules refines_lift) blast+
  show "stays p (functionType p2 f as ts)" unfolding stays_def
  proof (intro allI impI)
    fix q
    assume "functionType p2 f as ts = Some q"
    then obtain p3 p4 p5 p6 where r: "genericsType p2 (genericParams f) as = Some p3" "paramsType p3 (sigParams f ts) = Some p4"
      "bodyType p4 (func_body f) = Some p5" "leaveScope p5 = Inr p6" "q = addFunction (func_name f) (Some (funcSig f ts)) p6"
      by (auto simp: functionType_def sigParams_def demand_def bind_eq_Some_conv succeed_Some split: if_splits)
    have "prog_ok p5" "outer p5 = outer (enterScope p)" using p3 [OF r(1)] p4 [OF _ r(2)] p5 [OF _ r(3)] p2(2) by auto
    from leaveScope_ok [OF ok this] have ok6: "prog_ok p6" "outer p6 = outer p" using r(4) by auto
    have "list_all wf_type ts" using wf_paramsType [OF r(2) params] sigParams_types [OF plain(3)] by simp
    then have "list_all wf_type (sig_results (funcSig f ts))" by (auto simp: funcSig_def list_all_iff dest: in_set_dropD)
    then show "prog_ok q \<and> outer q = outer p"
      using prog_ok_addFunction [OF ok6(1)] ok6(2) by (simp add: r(5) addFunction_def outer_def)
  qed
qed

lemma refines_function:
  fixes f :: "'d func_decl"
  assumes ok: "prog_ok p" and plain: "plainFunc f"
  shows "refines (visitFuncDecl p sources f) (funcType p sources f) \<and> stays p (funcType p sources f)"
proof (cases "addDecl (func_name f) None p")
  case (Inl e)
  then show ?thesis by (simp add: visitFuncDecl_def funcType_def succeed_def refines_fail stays_def)
next
  case (Inr p0)
  have p0: "prog_ok p0" "outer p0 = outer p"
    using stays_addDecl [OF ok, of "func_name f" None] Inr by (simp_all add: stays_def succeed_def)
  show ?thesis
  proof (cases "declareGenerics (enterScope p0) (genericParams f)")
    case (Inl e)
    with Inr show ?thesis by (simp add: visitFuncDecl_def funcType_def succeed_def refines_fail stays_def)
  next
    case g: (Inr x)
    obtain as p1 where x: "x = (as, p1)" by (cases x)
    have p1: "prog_ok p1 \<and> outer p1 = outer (enterScope p0)"
      using declareGenerics_ok [OF g [unfolded x] prog_ok_enterScope [OF p0(1)]] .
    show ?thesis
    proof (cases "declareSignature p1 (signatureDecls f)")
      case (Inl e)
      with Inr g x show ?thesis by (simp add: visitFuncDecl_def funcType_def succeed_def refines_fail stays_def)
    next
      case s: (Inr y)
      obtain sig p2 where y: "y = (sig, p2)" by (cases y)
      note sig = declareSignature_ok [OF s [unfolded y]] length_declareSignature [OF s [unfolded y]]
      have "list_all (\<lambda>d. plainType (decl_type d)) (signatureDecls f)" using plain by (simp add: plainFunc_def)
      then have p2: "prog_ok p2" "outer p2 = outer (enterScope p0)" "list_all plainC (signatureTypes sources sig)"
        using sig(1) p1 plain_signatureTypes by auto
      have len: "length (signatureTypes sources sig) = length (signatureDecls f)" using sig(2) by (simp add: signatureTypes_def)
      from refines_signature [OF p0(1) p2(1,2) plain p2(3) len, of as] show ?thesis using p0(2) Inr g s x y
        by (simp add: visitFuncDecl_def funcType_def succeed_def stays_def)
    qed
  qed
qed

section \<open>Programs\<close>

lemma grows_inferAll [grows_rules]: "grows (inferAll env es)"
  by (induction es) (auto intro!: grows_rules)

lemma accepts_inferAll:
  "prog_ok p \<Longrightarrow> accepts (inferAll (viewEnv p) es) (list_all (\<lambda>e. typeOf (viewEnv p) e \<noteq> None) es)"
proof (induction es)
  case (Cons e es)
  have "refines (inferAll (viewEnv p) (e # es)) (Option.bind (typeOf (viewEnv p) e) (\<lambda>_. if list_all (\<lambda>e. typeOf (viewEnv p) e \<noteq> None) es then Some () else None))"
    using Cons unfolding inferAll.simps accepts_def by (intro refines_bind [OF refines_infer] grows_rules) auto
  then show ?case unfolding accepts_def by (rule back_subst [of "refines _"]) (cases "typeOf (viewEnv p) e"; simp)
qed (simp add: accepts_def refines_ret)

lemma leaves_stays: "leaves p v \<Longrightarrow> prog_ok p \<Longrightarrow> stays p v"
proof -
  assume v: "leaves p v" and ok: "prog_ok p"
  have "outer q = outer p" if q: "prog_ok q" and eq: "leaveScope q = leaveScope p" for q
  proof -
    obtain a b c d where u: "unscope (env_symbols (pe_env q)) = Inr a" "unscope (pe_decls q) = Inr b"
      "unscope (env_symbols (pe_env p)) = Inr c" "unscope (pe_decls p) = Inr d"
      using q ok by (auto simp: prog_ok_def unscope_def neq_Nil_conv)
    from eq have e: "q\<lparr>pe_env := (pe_env q)\<lparr>env_symbols := a\<rparr>, pe_decls := b\<rparr> = p\<lparr>pe_env := (pe_env p)\<lparr>env_symbols := c\<rparr>, pe_decls := d\<rparr>"
      by (simp add: leaveScope_def u)
    show ?thesis using arg_cong [OF e, of pe_decls] arg_cong [OF e, of "\<lambda>p. env_symbols (pe_env p)"] by (simp add: outer_def u)
  qed
  then show ?thesis using v by (simp add: stays_def leaves_def)
qed

lemma refines_elem:
  fixes elem :: "'d program_element"
  assumes ok: "prog_ok p" and plain: "plainElement elem"
  shows "refines (visitElem p sources elem) (elementType p sources elem) \<and> stays p (elementType p sources elem)"
proof (cases elem)
  case (ElementTypeDecl name fs)
  then show ?thesis using refines_elementDecl [OF ok, of fs name] plain by simp
next
  case (ExternDecl name type)
  then show ?thesis using refines_extern [OF ok, of type name] plain by simp
next
  case (FuncDecl f)
  then show ?thesis using refines_function [OF ok, of f sources] plain by simp
next
  case (TopConst st)
  have "refines (visitStmt p st) (stmtType p st)" "stays p (stmtType p st)"
    using refines_visitStmt(1) [OF ok, of st] plain TopConst ok by (auto intro: leaves_stays)
  then show ?thesis using plain ok unfolding TopConst
    by (cases st) (auto intro: refines_decl leaves_decl leaves_stays)
next
  case (Test name args expected)
  have "refines (tthen (inferAll (viewEnv p) args) (tbind (inferType (viewEnv p) expected False) (\<lambda>_. tret p)))
      (demand (list_all (\<lambda>e. typeOf (viewEnv p) e \<noteq> None) args) (Option.bind (typeOf (viewEnv p) expected) (\<lambda>_. Some p)))"
    by (intro accepts_then accepts_inferAll ok refines_bind [OF refines_infer] refines_ret grows_rules)
  moreover have "demand (list_all (\<lambda>e. typeOf (viewEnv p) e \<noteq> None) args) (Option.bind (typeOf (viewEnv p) expected) (\<lambda>_. Some p)) =
      elementType p sources elem"
    unfolding Test by (cases "typeOf (viewEnv p) expected") (simp_all add: demand_def)
  ultimately show ?thesis using ok unfolding Test by (simp add: stays_demand stays_refl)
qed

lemma grows_visitElem [grows_rules]: "grows (visitElem p sources (elem :: 'd program_element))"
proof (cases elem)
  case (TopConst st)
  then show ?thesis unfolding TopConst visitElem.simps by (cases st; simp only: fir_stmt.case; intro grows_rules)
qed (auto simp: visitElementTypeDecl_def visitExternDecl_def visitFuncDecl_def checkFunction_def intro!: grows_rules)

lemma grows_visitProgram [grows_rules]: "grows (visitProgram p elems)"
  by (induction p elems rule: visitProgram.induct) (auto intro!: grows_rules)

lemma refines_program:
  "prog_ok p \<Longrightarrow> list_all (\<lambda>x. plainElement (snd x)) elems \<Longrightarrow>
   refines (visitProgram p elems) (programType p elems) \<and> stays p (programType p elems)"
proof (induction elems arbitrary: p)
  case (Cons x elems)
  obtain sources elem where x: "x = (sources, elem)" by (cases x)
  have e: "refines (visitElem p sources elem) (elementType p sources elem)" "stays p (elementType p sources elem)"
    using refines_elem [OF Cons.prems(1), of elem sources] Cons.prems(2) by (simp_all add: x)
  have IH: "refines (visitProgram q elems) (programType q elems)" "stays q (programType q elems)"
    if "elementType p sources elem = Some q" for q
    using Cons.IH [of q] Cons.prems(2) e(2) that by (simp_all add: stays_def)
  have "refines (visitProgram p (x # elems)) (programType p (x # elems))" unfolding x visitProgram.simps programType.simps
    by (intro refines_node e(1) IH grows_rules)
  moreover have "stays p (programType p (x # elems))" unfolding x programType.simps
    by (intro stays_trans [OF e(2)] IH(2))
  ultimately show ?case by simp
qed (simp add: refines_ret stays_refl)

section \<open>The checker of programs and the reference\<close>

lemma prog_ok_initEnv:
  "(\<And>f sig. intrinsics f = Some sig \<Longrightarrow> list_all wf_type (sig_results sig)) \<Longrightarrow> prog_ok (initEnv intrinsics)"
  by (auto simp: prog_ok_def env_ok_def initEnv_def lookup_def mk_scoped_map_def get_symbol_def)

lemma checkProgram_run:
  assumes "refines (visitProgram (initEnv intrinsics) (zip sources prog)) v" and "inferProgram prog (mk_scoped_map Map.empty) = Inr sources"
  shows "checkProgram intrinsics prog = Inr (p, []) \<longleftrightarrow> v = Some p"
proof -
  note node = refines_typeCheckNode [OF assms(1)]
  have start: "ready initState" "tc_errors initState = []" by (simp_all add: ready_def initState_def)
  show ?thesis
  proof (cases v)
    case None
    have "checkProgram intrinsics prog \<noteq> Inr (p, [])"
    proof
      assume "checkProgram intrinsics prog = Inr (p, [])"
      then obtain b s where "typeCheckNode (visitProgram (initEnv intrinsics) (zip sources prog)) initState = Inr ((b, p), s)" "tc_errors s = []"
        using assms(2) by (auto simp: checkProgram_def rbind_eq_Inr)
      then show False
        using refines_error [OF node [unfolded None option.map] start(1)] start(2) by fastforce
    qed
    then show ?thesis using None by simp
  next
    case (Some q)
    have "typeCheckNode (visitProgram (initEnv intrinsics) (zip sources prog)) initState = Inr ((True, q), initState)"
      using refines_run [OF node [unfolded Some option.map] start(1)] .
    then show ?thesis using assms(2) start(2) Some by (simp add: checkProgram_def)
  qed
qed

lemma plain_zip: "list_all plainElement prog \<Longrightarrow> list_all (\<lambda>x. plainElement (snd x)) (zip sources prog)"
  by (auto simp: list_all_iff dest: set_zip_rightD)

text \<open>
  A program over points and springs. The function \<open>f\<close> is mapped over the springs; the tensor it assembles into is
  indexed by the endpoints, so the source of their type is inferred.
\<close>

definition sampleProgram :: "int program_element list" where
  "sampleProgram =
    (let vec = TensorType (NDTensorType [SetIndexSet ''points''] (ScalarType SC_FLOAT) False) in
     [ElementTypeDecl ''Point'' [(''m'', ScalarType SC_FLOAT)],
      ElementTypeDecl ''Spring'' [(''k'', ScalarType SC_FLOAT)],
      ExternDecl ''points'' (HeterogeneousEdgeSetType ''Point'' []),
      ExternDecl ''springs'' (HeterogeneousEdgeSetType ''Spring'' [SetIndexSet ''points'', SetIndexSet ''points'']),
      FuncDecl \<lparr>func_type = FT_INTERNAL, func_name = ''f'', genericParams = [],
        func_args = [(False, \<lparr>decl_name = ''s'', decl_type = ElementType ''Spring''\<rparr>),
                     (False, \<lparr>decl_name = ''p'', decl_type = UnnamedTupleType ''Point'' 2\<rparr>)],
        func_results = [\<lparr>decl_name = ''v'', decl_type = vec\<rparr>],
        func_body = Some (StmtBlock [AssignStmt [TensorReadExpr (VarExpr ''v'') [Some (UnnamedTupleReadExpr (VarExpr ''p'') (IntLiteral 0))]]
                                       (FieldReadExpr (VarExpr ''s'') ''k'')])\<rparr>,
      FuncDecl \<lparr>func_type = FT_EXPORTED, func_name = ''main'', genericParams = [], func_args = [], func_results = [],
        func_body = Some (StmtBlock [VarDecl ''y'' (Some (NDTensorType [SetIndexSet ''points''] (ScalarType SC_FLOAT) False))
                                       (Some (MapExpr ''f'' [] [] (SetIndexSet ''springs'') None (Some RED_SUM)))])\<rparr>])"

definition programSources :: "(elem_ref \<rightharpoonup> elem_source) list" where
  "programSources = [Map.empty, Map.empty, Map.empty, Map.empty, map_of [((1, 0), (2, SetIndexSet ''points''))], Map.empty]"

lemma inferProgram_sample: "inferProgram sampleProgram (mk_scoped_map Map.empty) = Inr programSources"
  by (simp add: sampleProgram_def programSources_def Let_def inferElementSources_def signatureDecls_def mk_scoped_map_def src_scope_def scope_def
      src_insert_def insert_symbol_def inferTarget_def inferRead_def src_type_def get_symbol_def idxElem_def contains_symbol_def
      enumerate_eq_zip eval_nat_numeral)

lemma programType_sample: "programType (initEnv Map.empty) (zip programSources sampleProgram) \<noteq> None"
  by code_simp

lemma plain_sample: "list_all plainElement sampleProgram"
  by code_simp





text \<open>
  C38. A field of an element type that has the name of a set hides the set from the pass that attaches definitions, but
  not from the checker: a later edge set over it, although the set is declared, makes the checker fail with an
  internal error, whatever the names of the set, of the element types and of the edge set are.
\<close>

theorem field_hides_set:
  assumes "P \<noteq> E" and "V \<noteq> S"
  shows "checkProgram intrinsics
     [ElementTypeDecl P [], ExternDecl V (HeterogeneousEdgeSetType P []), ElementTypeDecl E [(V, ScalarType SC_FLOAT)],
      ExternDecl S (HeterogeneousEdgeSetType E [SetIndexSet V, SetIndexSet V]) :: 'd program_element] =
     Inl (InternalError ''hasSetDefinition(set)'')"
  using assms
  by (simp add: checkProgram_def initEnv_def initState_def mk_scoped_map_def visitElementTypeDecl_def visitExternDecl_def declareIdent_def
      allocSet_def newEndpoint_def addDecl_def insert_symbol_def viewEnv_def setDefs_def get_symbol_def typeCheckNode_def tbind_def tthen_def
      tret_def tlift_def Let_def visitElementType_def setChecked_def getChecked_def hasCurrent_def contains_symbol_def addSymbol_def
      recordSource_def plainElem_def sourceOf_def typeCheck_def visitEndpoint_def visitSetIndexSet_def hasSymbol_def getSymbol_def
      getSetDefinition_def)

theorem field_hides_set_witness:
  "checkProgram Map.empty
     [ElementTypeDecl ''Point'' [], ExternDecl ''points'' (HeterogeneousEdgeSetType ''Point'' []),
      ElementTypeDecl ''Mesh'' [(''points'', ScalarType SC_FLOAT)],
      ExternDecl ''edges'' (HeterogeneousEdgeSetType ''Mesh'' [SetIndexSet ''points'', SetIndexSet ''points'']) :: int program_element] =
     Inl (InternalError ''hasSetDefinition(set)'')"
  by (rule field_hides_set) simp_all

end
