(* ===== verification/Set_Addresses.thy ===== *)
theory Set_Addresses
  imports Program_Check_Logic Declaration_Checker
begin

text \<open>
  The addresses of set types. A set type refers to sets that were declared before it, so the definitions of its
  endpoints have smaller addresses than itself. This holds at every point of a check, also after errors; it is what
  lets the comparison of grids, which follows the point set of a grid, end.
\<close>

section \<open>The invariant\<close>

fun shapeDefs :: "set_shape \<Rightarrow> nat set" where
  "shapeDefs (Homogeneous ep _) = set_option (setDef (ep_set ep))"
| "shapeDefs (Heterogeneous eps) = (\<Union>ep\<in>set eps. set_option (setDef (ep_set ep)))"
| "shapeDefs (GridSet ep _) = set_option (setDef (ep_set ep))"

definition ordered :: "prog_env \<Rightarrow> bool" where
  "ordered p \<longleftrightarrow>
     (\<forall>sc\<in>set (scopes (pe_decls p)). \<forall>x a. sc x = Some (Some a) \<longrightarrow> a < pe_next p) \<and>
     (\<forall>a. \<forall>b\<in>shapeDefs (set_shape (env_sets (pe_env p) a)). b < a)"

lemma ordered_setDefs: "ordered p \<Longrightarrow> setDefs p x = Some a \<Longrightarrow> a < pe_next p"
proof -
  have "get_scopes scs x = Inr v \<Longrightarrow> \<exists>sc\<in>set scs. sc x = Some v" for scs and v :: "nat option"
    by (induction scs) (auto split: option.splits)
  then show "ordered p \<Longrightarrow> setDefs p x = Some a \<Longrightarrow> a < pe_next p"
    by (fastforce simp: ordered_def setDefs_def get_symbol_def split: sum.splits option.splits)
qed

lemma ordered_resolve: "ordered p \<Longrightarrow> setDef (resolveIndexSet (viewEnv p) s) = Some a \<Longrightarrow> a < pe_next p"
  by (cases s) (auto simp: viewEnv_def dest: ordered_setDefs)

lemma ordered_addDecl:
  assumes "addDecl name d p = Inr p'" and "ordered p" and "\<And>a. d = Some a \<Longrightarrow> a < pe_next p"
  shows "ordered p'"
  using assms by (auto simp: addDecl_def insert_symbol_def ordered_def rbind_eq_Inr split: list.splits if_splits)

lemma shape_recordSource [simp]: "set_shape (recordSource name t sets a) = set_shape (sets a)"
  by (simp add: recordSource_def Let_def split: option.split c_type.split)

lemma ordered_addSymbol: "addSymbol name t acc p = Inr p' \<Longrightarrow> ordered p \<Longrightarrow> ordered p'"
  by (auto simp: addSymbol_def ordered_def rbind_eq_Inr)

lemma ordered_enterScope: "ordered p \<Longrightarrow> ordered (enterScope p)"
  by (auto simp: ordered_def enterScope_def scope_def)

lemma ordered_leaveScope: "leaveScope p = Inr p' \<Longrightarrow> ordered p \<Longrightarrow> ordered p'"
  by (auto simp: ordered_def leaveScope_def unscope_def rbind_eq_Inr split: list.splits)

lemma ordered_declareTarget: "declareTarget p e = Inr p' \<Longrightarrow> ordered p \<Longrightarrow> ordered p'"
  by (auto simp: declareTarget_def rbind_eq_Inr split: option.splits if_splits dest: ordered_addDecl)

lemma ordered_declareTargets: "declareTargets p i es t = Inr p' \<Longrightarrow> ordered p \<Longrightarrow> ordered p'"
  by (induction p i es t rule: declareTargets.induct)
    (fastforce simp: rbind_eq_Inr dest: ordered_addSymbol split: option.splits if_splits)+

section \<open>Checks preserve it\<close>

definition preserves :: "prog_env tc \<Rightarrow> bool" where
  "preserves m \<longleftrightarrow> (\<forall>s p' s'. m s = Inr (p', s') \<longrightarrow> ordered p')"

named_theorems preserves_rules \<open>checks that preserve the order of addresses\<close>

lemma preserves_ret [preserves_rules]: "ordered p \<Longrightarrow> preserves (tret p)"
  by (simp add: preserves_def tret_def)

lemma preserves_lift: "(\<And>p'. r = Inr p' \<Longrightarrow> ordered p') \<Longrightarrow> preserves (tlift r)"
  by (auto simp: preserves_def tlift_def rbind_eq_Inr)

lemma preserves_bind: "(\<And>x. preserves (f x)) \<Longrightarrow> preserves (tbind m f)"
  unfolding preserves_def tbind_Inr by blast

lemma preserves_then [preserves_rules]: "preserves k \<Longrightarrow> preserves (tthen m k)"
  by (simp add: tthen_def preserves_bind)

lemma preserves_bind_lift: "(\<And>x. r = Inr x \<Longrightarrow> preserves (f x)) \<Longrightarrow> preserves (tbind (tlift r) f)"
  by (auto simp: preserves_def tbind_Inr tlift_def rbind_eq_Inr)

lemma preserves_bind_env: "preserves m \<Longrightarrow> (\<And>p'. ordered p' \<Longrightarrow> preserves (f p')) \<Longrightarrow> preserves (tbind m f)"
  unfolding preserves_def tbind_Inr by blast

lemma preserves_node:
  "preserves m \<Longrightarrow> (\<And>b p'. ordered p' \<Longrightarrow> preserves (f (b, p'))) \<Longrightarrow> preserves (tbind (typeCheckNode m) f)"
  unfolding preserves_def tbind_Inr by (metis typeCheckNode_Inr prod.collapse)

lemma preserves_decl: "ordered p \<Longrightarrow> preserves (typeCheckVarOrConstDecl p isConst isGlobal name type init)"
  unfolding typeCheckVarOrConstDecl_def Let_def
  by (intro preserves_bind preserves_then preserves_bind_lift preserves_lift)
    (auto dest!: ordered_addSymbol elim!: ordered_addDecl)

lemma preserves_scopedBody: "(\<And>q. ordered q \<Longrightarrow> preserves (body q)) \<Longrightarrow> ordered p \<Longrightarrow> preserves (scopedBody body p)"
  unfolding scopedBody_def
  by (intro preserves_node) (auto intro: ordered_enterScope ordered_leaveScope preserves_lift)

lemma ordered_visitTargets: "visitTargets p es s = Inr ((ts, p'), s') \<Longrightarrow> ordered p \<Longrightarrow> ordered p'"
proof (induction es arbitrary: p ts s s')
  case (Cons e es)
  then obtain q s1 ts1 s2 where q: "declareTarget p e = Inr q" and "visitTargets q es s1 = Inr ((ts1, p'), s2)"
    by (auto simp: tbind_Inr tlift_def rbind_eq_Inr tret_def split: prod.splits)
  with Cons.IH [of q s1 ts1 s2] ordered_declareTarget [OF q] Cons.prems(2) show ?case by simp
qed (simp add: tret_def)

lemma preserves_assign: "ordered p \<Longrightarrow> preserves (visitAssignStmt p es e)"
proof -
  assume p: "ordered p"
  have *: "preserves (tbind (visitTargets p es) f)" if "\<And>ts p'. ordered p' \<Longrightarrow> preserves (f (ts, p'))" for f
    using that p unfolding preserves_def tbind_Inr by (metis ordered_visitTargets prod.collapse)
  show ?thesis unfolding visitAssignStmt_def
    by (intro preserves_bind preserves_then *, unfold prod.case, intro preserves_bind preserves_then preserves_bind_lift preserves_ret)
      (auto dest: ordered_declareTargets)
qed

lemma preserves_visitStmt:
  "ordered p \<Longrightarrow> preserves (visitStmt p (st :: 'd fir_stmt))" "ordered p \<Longrightarrow> preserves (visitStmts p (ss :: 'd fir_stmt list))"
proof (induction p st and p ss rule: visitStmt_visitStmts.induct)
  case (4 p name)
  then show ?case unfolding visitStmt.simps visitIVarDecl_def
    by (intro preserves_bind preserves_then preserves_lift) (auto dest: ordered_addSymbol)
next
  case (5 p c body)
  then show ?case unfolding visitStmt.simps
    by (intro preserves_bind preserves_bind_env [OF preserves_scopedBody] preserves_then preserves_ret)
next
  case (6 p body c)
  then show ?case unfolding visitStmt.simps
    by (intro preserves_bind preserves_bind_env [OF preserves_scopedBody] preserves_then preserves_ret)
next
  case (7 p c a b)
  have b: "preserves (case b of None \<Rightarrow> tret p' | Some body \<Rightarrow> scopedBody (\<lambda>p. visitStmt p body) p')" if "ordered p'" for p'
    using 7(2) that by (cases b) (auto intro!: preserves_ret preserves_scopedBody)
  show ?case unfolding visitStmt.simps
    by (intro preserves_bind preserves_bind_env [OF preserves_scopedBody [OF 7(1) 7(3)]] preserves_bind_env [OF b] preserves_then preserves_ret)
next
  case (8 p x d body)
  show ?case unfolding visitStmt.simps Let_def case_prod_unfold
  proof (rule preserves_bind, rule preserves_bind_lift, rule preserves_bind_lift, goal_cases)
    case (1 _ t q)
    then have "ordered q"
      using ordered_enterScope [OF 8(2)] by (auto simp: rbind_eq_Inr dest!: ordered_addSymbol elim: ordered_addDecl)
    then show ?case
      by (intro preserves_node [OF 8(1)]) (auto intro: preserves_lift ordered_leaveScope)
  qed
next
  case (14 p st ss)
  show ?case unfolding visitStmts.simps
    by (rule preserves_node [OF 14(1) [OF 14(3)]]) (auto intro: 14(2))
qed (simp_all add: preserves_decl preserves_assign preserves_ret preserves_bind preserves_then)

section \<open>Declarations\<close>

lemma ordered_allocSet:
  assumes "ordered p" and "\<forall>b\<in>shapeDefs sh. b < pe_next p" and "allocSet e sh p = (a, q)"
  shows "ordered q \<and> a < pe_next q"
  using assms by (fastforce simp: ordered_def allocSet_def less_Suc_eq split: if_splits)

lemma shapeDefs_new: "ordered p \<Longrightarrow> \<forall>b\<in>set_option (setDef (ep_set (newEndpoint p s))). b < pe_next p"
  by (auto simp: newEndpoint_def dest: ordered_resolve)

lemma ordered_resolveType:
  assumes "ordered p" and "resolveType p type = (t, q)"
  shows "ordered q \<and> (\<forall>a. setAddr t = Some a \<longrightarrow> a < pe_next q)"
  using assms shapeDefs_new [OF assms(1)]
  by (cases type) (auto simp: apfst_def map_prod_def split: prod.splits dest!: ordered_allocSet [OF assms(1), rotated])

lemma ordered_declareIdent: "declareIdent p name type = Inr (t, q) \<Longrightarrow> ordered p \<Longrightarrow> ordered q"
  using ordered_resolveType [of p type]
  by (auto simp: declareIdent_def rbind_eq_Inr split: prod.splits intro: ordered_addDecl)

lemma visitEndpoint_set: "visitEndpoint env ep s = Inr (ep', s') \<Longrightarrow> ep_set ep' = ep_set ep"
  by (auto simp: visitEndpoint_def tbind_Inr tthen_def tlift_def tret_def rbind_eq_Inr split: if_splits)

lemma visitEndpoints_sets: "visitEndpoints env eps s = Inr (eps', s') \<Longrightarrow> map ep_set eps' = map ep_set eps"
proof (induction eps arbitrary: eps' s s')
  case (Cons ep eps)
  then show ?case
    by (auto simp: tbind_Inr tthen_def tret_def typeCheckNode_def rbind_eq_Inr split: prod.splits dest!: visitEndpoint_set)
qed (simp add: tret_def)

lemma visitSetShape_defs: "visitSetShape env e sh s = Inr (sh', s') \<Longrightarrow> shapeDefs sh' = shapeDefs sh"
proof (cases sh)
  case (Heterogeneous eps)
  have eq: "(\<Union>ep\<in>set xs. set_option (setDef (ep_set ep))) = (\<Union>x\<in>set (map ep_set xs). set_option (setDef x))" for xs by simp
  assume "visitSetShape env e sh s = Inr (sh', s')"
  then obtain eps' s1 s2 where "visitEndpoints env eps s1 = Inr (eps', s2)" "sh' = Heterogeneous eps'"
    by (auto simp: Heterogeneous tbind_Inr tthen_def tret_def)
  then show ?thesis unfolding Heterogeneous by (simp only: shapeDefs.simps eq visitEndpoints_sets)
qed (auto simp: tbind_Inr tthen_def tret_def typeCheckNode_def rbind_eq_Inr split: prod.splits dest!: visitEndpoint_set)

lemma preserves_visitType [preserves_rules]: "ordered p \<Longrightarrow> preserves (visitType p t)"
proof (cases t)
  case (CSetType a)
  assume "ordered p"
  then show ?thesis unfolding CSetType visitType.simps Let_def preserves_def tbind_Inr
    by (auto simp: tret_def ordered_def dest!: visitSetShape_defs split: if_splits)
qed (auto intro!: preserves_rules preserves_bind)

lemma preserves_visitIdentDecl [preserves_rules]: "ordered p \<Longrightarrow> preserves (visitIdentDecl p t)"
  unfolding visitIdentDecl_def by (rule preserves_node) (auto intro!: preserves_rules)

lemma ordered_visitFields: "visitFields p fs known s = Inr ((known', p'), s') \<Longrightarrow> ordered p \<Longrightarrow> ordered p'"
proof (induction fs arbitrary: p known s)
  case (Cons f fs)
  then obtain q known1 s1 where q: "addDecl (fst f) None p = Inr q" and "visitFields q fs known1 s1 = Inr ((known', p'), s')"
    by (cases f) (auto simp: Let_def tbind_Inr tthen_def tlift_def rbind_eq_Inr)
  with Cons.IH [of q known1 s1] ordered_addDecl [OF q Cons.prems(2)] show ?case by simp
qed (simp add: tret_def)

lemma preserves_elementDecl: "ordered p \<Longrightarrow> preserves (visitElementTypeDecl p name fs)"
proof -
  assume p: "ordered p"
  have *: "preserves (tbind (visitFields p fs known) f)" if "\<And>known' p'. ordered p' \<Longrightarrow> preserves (f (known', p'))" for f known
    using that p unfolding preserves_def tbind_Inr by (metis ordered_visitFields prod.collapse)
  show ?thesis unfolding visitElementTypeDecl_def
    by (intro *, unfold prod.case, intro preserves_then preserves_ret) (simp add: ordered_def)
qed

lemma preserves_extern: "ordered p \<Longrightarrow> preserves (visitExternDecl p name type)"
  unfolding visitExternDecl_def
  by (rule preserves_bind_lift, clarsimp, rule preserves_node)
    (auto intro!: preserves_rules preserves_bind preserves_lift intro: ordered_addSymbol dest!: ordered_declareIdent)

lemma ordered_declareGenerics: "declareGenerics p gs = Inr (as, q) \<Longrightarrow> ordered p \<Longrightarrow> ordered q"
proof (induction gs arbitrary: p as)
  case (Cons g gs)
  obtain name gt where g: "g = (name, gt)" by (cases g)
  obtain a r where r: "allocSet [] (Heterogeneous []) p = (a, r)" by (cases "allocSet [] (Heterogeneous []) p")
  from Cons.prems(1) obtain p' as' where p': "addDecl name (Some a) r = Inr p'" and rest: "declareGenerics p' gs = Inr (as', q)"
    by (auto simp: g r rbind_eq_Inr)
  have "ordered r \<and> a < pe_next r" by (rule ordered_allocSet [OF Cons.prems(2) _ r]) simp
  with ordered_addDecl [OF p'] Cons.IH [OF rest] show ?case by simp
qed simp

lemma ordered_declareSignature: "declareSignature p ds = Inr (sig, q) \<Longrightarrow> ordered p \<Longrightarrow> ordered q"
  by (induction ds arbitrary: p sig) (auto simp: rbind_eq_Inr dest!: ordered_declareIdent)

lemma preserves_generics: "ordered p \<Longrightarrow> preserves (visitGenericParams p gs as)"
  by (induction p gs as rule: visitGenericParams.induct)
    (auto intro!: preserves_rules preserves_bind preserves_bind_lift dest: ordered_addSymbol)

lemma preserves_params: "ordered p \<Longrightarrow> preserves (visitParams p ps)"
proof (induction ps arbitrary: p)
  case (Cons x ps)
  obtain name acc t where x: "x = (name, acc, t)" by (cases x)
  show ?case unfolding x visitParams.simps
    by (rule preserves_node [OF preserves_visitIdentDecl [OF Cons.prems]], unfold prod.case,
        intro preserves_bind preserves_then preserves_bind_lift Cons.IH) (rule ordered_addSymbol)
qed (simp add: preserves_ret)

lemma ordered_scopeEnv: "ordered p \<Longrightarrow> ordered (scopeEnv p)" "unscopeEnv p = Inr p' \<Longrightarrow> ordered p \<Longrightarrow> ordered p'"
  by (auto simp: ordered_def scopeEnv_def unscopeEnv_def rbind_eq_Inr)

lemma preserves_body: "ordered p \<Longrightarrow> preserves (visitBody p (body :: 'd fir_stmt option))"
  unfolding visitBody_def
  by (cases body) (auto intro!: preserves_ret preserves_node preserves_visitStmt ordered_scopeEnv(1) intro: preserves_lift ordered_scopeEnv(2))

lemma preserves_function: "ordered p \<Longrightarrow> preserves (checkFunction p (f :: 'd func_decl) as ts)"
  unfolding checkFunction_def
  by (intro preserves_then preserves_bind_env [OF preserves_generics] preserves_bind_env [OF preserves_params]
      preserves_bind_env [OF preserves_body] preserves_bind_lift preserves_bind preserves_ret)
    (auto simp: addFunction_def ordered_def dest!: ordered_leaveScope)

lemma preserves_elem: "ordered p \<Longrightarrow> preserves (visitElem p sources (elem :: 'd program_element))"
proof (cases elem)
  case (FuncDecl f)
  assume p: "ordered p"
  have "ordered p2" if "addDecl (func_name f) None p = Inr p0" "declareGenerics (enterScope p0) (genericParams f) = Inr (as, p1)"
    "declareSignature p1 (signatureDecls f) = Inr (sig, p2)" for p0 as p1 sig p2
    using ordered_addDecl [OF that(1) p] ordered_declareGenerics [OF that(2)] ordered_declareSignature [OF that(3)]
    by (simp add: ordered_enterScope)
  then show ?thesis unfolding FuncDecl visitElem.simps visitFuncDecl_def
    by (auto intro!: preserves_bind_lift preserves_function split: prod.split)
next
  case (TopConst st)
  assume "ordered p"
  then show ?thesis unfolding TopConst visitElem.simps
    by (cases st; simp only: fir_stmt.case; intro preserves_visitStmt preserves_decl)
qed (auto intro!: preserves_elementDecl preserves_extern preserves_rules preserves_bind)

lemma preserves_program: "ordered p \<Longrightarrow> preserves (visitProgram p elems)"
proof (induction elems arbitrary: p)
  case (Cons x elems)
  then show ?case by (cases x) (auto intro!: preserves_node preserves_elem)
qed (simp add: preserves_ret)

section \<open>The order of addresses\<close>

text \<open>
  C10. Sets refer to earlier sets only: in the environment that the check of a program leaves, whether or not errors were
  reported, the definition attached to an endpoint of a set, the point set of a grid included, has a smaller address
  than the set. So following the point sets of grids ends, and the test of addresses in the comparison of index sets,
  which the code does not have, never decides: two index sets with definitions that are grids are equal exactly if the
  dimensions are and the point sets compare equal.
\<close>

theorem sets_ordered:
  fixes prog :: "'d program_element list"
  assumes "checkProgram intrinsics prog = Inr (p, errs)"
  shows "(\<forall>a. \<forall>b\<in>shapeDefs (set_shape (env_sets (pe_env p) a)). b < a) \<and>
     (\<forall>m n a b lp rp ldims rdims. set_shape (env_sets (pe_env p) a) = GridSet lp ldims \<longrightarrow> set_shape (env_sets (pe_env p) b) = GridSet rp rdims \<longrightarrow>
        setDef (ep_set lp) \<noteq> None \<longrightarrow>
        (compareIndexSets (env_sets (pe_env p)) (CSet m (Some a)) (CSet n (Some b)) \<longleftrightarrow>
         ldims = rdims \<and> compareIndexSets (env_sets (pe_env p)) (ep_set lp) (ep_set rp)))"
proof -
  from assms obtain sources b s where "typeCheckNode (visitProgram (initEnv intrinsics) (zip sources prog)) initState = Inr ((b, p), s)"
    by (auto simp: checkProgram_def rbind_eq_Inr)
  then obtain s0 s1 where "visitProgram (initEnv intrinsics) (zip sources prog) s0 = Inr (p, s1)" using typeCheckNode_Inr by fastforce
  moreover have "ordered (initEnv intrinsics)" by (simp add: ordered_def initEnv_def mk_scoped_map_def)
  ultimately have "ordered p" using preserves_program [of "initEnv intrinsics"] by (auto simp: preserves_def)
  then have lt: "b < a" if "b \<in> shapeDefs (set_shape (env_sets (pe_env p) a))" for a b using that by (simp add: ordered_def)
  have "compareIndexSets (env_sets (pe_env p)) (CSet m (Some a)) (CSet n (Some b)) \<longleftrightarrow>
         ldims = rdims \<and> compareIndexSets (env_sets (pe_env p)) (ep_set lp) (ep_set rp)"
    if "set_shape (env_sets (pe_env p) a) = GridSet lp ldims" "set_shape (env_sets (pe_env p) b) = GridSet rp rdims" "setDef (ep_set lp) = Some c"
    for m n a b c lp rp ldims rdims
    using that lt [of c a] by (simp add: compareIndexSets.simps [of _ "CSet m (Some a)"])
  with lt show ?thesis by auto
qed

text \<open>Points and a two-dimensional grid over them.\<close>

definition gridProgram :: "int program_element list" where
  "gridProgram =
     [ElementTypeDecl ''Point'' [], ElementTypeDecl ''Link'' [], ExternDecl ''points'' (HeterogeneousEdgeSetType ''Point'' []),
      ExternDecl ''links'' (GridSetType ''Link'' (SetIndexSet ''points'') 2)]"

theorem sets_ordered_witness:
  "\<exists>p errs. checkProgram Map.empty gridProgram = Inr (p, errs) \<and> shapeDefs (set_shape (env_sets (pe_env p) 1)) \<subseteq> {0}"
proof -
  have "case checkProgram Map.empty gridProgram of Inl _ \<Rightarrow> False | Inr _ \<Rightarrow> True" by code_simp
  then obtain p errs where run: "checkProgram Map.empty gridProgram = Inr (p, errs)" by (cases "checkProgram Map.empty gridProgram") auto
  have "shapeDefs (set_shape (env_sets (pe_env p) 1)) \<subseteq> {0}" using sets_ordered [OF run] by fastforce
  with run show ?thesis by blast
qed

end
