(* ===== verification/Clone_Generics.thy ===== *)
theory Clone_Generics
  imports Declaration_Checker
begin

text \<open>
  The pass that clones generic functions before the type checker (\<^verbatim>\<open>src/src/frontend/clone_generic_functions.cpp\<close>): every call
  of a generic function gets a function of its own, a copy under a new name, whose body is visited in turn. The pass
  changes the names in the program in place; the model returns the changed nodes. A function comes with its
  \<^verbatim>\<open>originalName\<close>, which is empty unless it is a clone. The nesting of clones may not end, so it is bounded by fuel.
\<close>

section \<open>Traversal\<close>

text \<open>
  The order of the visits is that of the base class (\<^verbatim>\<open>src/src/frontend/fir_visitor.cpp\<close>). For calls and maps, also for
  the map of an apply statement, the pass visits the arguments first and then changes the name of the called function
  (lines 68 to 76).
\<close>

definition oret :: "'a \<Rightarrow> 's \<Rightarrow> ('a \<times> 's) option" where
  "oret x = (\<lambda>s. Some (x, s))"

definition obind :: "('s \<Rightarrow> ('a \<times> 's) option) \<Rightarrow> ('a \<Rightarrow> 's \<Rightarrow> ('b \<times> 's) option) \<Rightarrow> 's \<Rightarrow> ('b \<times> 's) option" where
  "obind m f = (\<lambda>s. case m s of None \<Rightarrow> None | Some (x, s') \<Rightarrow> f x s')"

definition lift1 :: "('a \<Rightarrow> 'b) \<Rightarrow> ('s \<Rightarrow> ('a \<times> 's) option) \<Rightarrow> 's \<Rightarrow> ('b \<times> 's) option" where
  "lift1 c m = obind m (\<lambda>x. oret (c x))"

definition lift2 ::
  "('a \<Rightarrow> 'b \<Rightarrow> 'c) \<Rightarrow> ('s \<Rightarrow> ('a \<times> 's) option) \<Rightarrow> ('s \<Rightarrow> ('b \<times> 's) option) \<Rightarrow> 's \<Rightarrow> ('c \<times> 's) option" where
  "lift2 c m k = obind m (\<lambda>x. obind k (\<lambda>y. oret (c x y)))"

type_synonym 's namer = "string \<Rightarrow> 's \<Rightarrow> (string \<times> 's) option"

fun cloneExpr :: "'s namer \<Rightarrow> 'd fir_expr \<Rightarrow> 's \<Rightarrow> ('d fir_expr \<times> 's) option"
  and cloneExprs :: "'s namer \<Rightarrow> 'd fir_expr list \<Rightarrow> 's \<Rightarrow> ('d fir_expr list \<times> 's) option"
  and cloneParams :: "'s namer \<Rightarrow> 'd fir_expr option list \<Rightarrow> 's \<Rightarrow> ('d fir_expr option list \<times> 's) option" where
  "cloneExpr g (MapExpr f gs es t thr r) = lift2 (\<lambda>es' f'. MapExpr f' gs es' t thr r) (cloneExprs g es) (g f)"
| "cloneExpr g (OrExpr a b) = lift2 OrExpr (cloneExpr g a) (cloneExpr g b)"
| "cloneExpr g (AndExpr a b) = lift2 AndExpr (cloneExpr g a) (cloneExpr g b)"
| "cloneExpr g (XorExpr a b) = lift2 XorExpr (cloneExpr g a) (cloneExpr g b)"
| "cloneExpr g (EqExpr es ops) = lift1 (\<lambda>es'. EqExpr es' ops) (cloneExprs g es)"
| "cloneExpr g (NotExpr a) = lift1 NotExpr (cloneExpr g a)"
| "cloneExpr g (AddExpr a b) = lift2 AddExpr (cloneExpr g a) (cloneExpr g b)"
| "cloneExpr g (SubExpr a b) = lift2 SubExpr (cloneExpr g a) (cloneExpr g b)"
| "cloneExpr g (MulExpr a b) = lift2 MulExpr (cloneExpr g a) (cloneExpr g b)"
| "cloneExpr g (DivExpr a b) = lift2 DivExpr (cloneExpr g a) (cloneExpr g b)"
| "cloneExpr g (ElwiseMulExpr a b) = lift2 ElwiseMulExpr (cloneExpr g a) (cloneExpr g b)"
| "cloneExpr g (ElwiseDivExpr a b) = lift2 ElwiseDivExpr (cloneExpr g a) (cloneExpr g b)"
| "cloneExpr g (LeftDivExpr a b) = lift2 LeftDivExpr (cloneExpr g a) (cloneExpr g b)"
| "cloneExpr g (NegExpr n a) = lift1 (NegExpr n) (cloneExpr g a)"
| "cloneExpr g (ExpExpr a b) = lift2 ExpExpr (cloneExpr g a) (cloneExpr g b)"
| "cloneExpr g (TransposeExpr a) = lift1 TransposeExpr (cloneExpr g a)"
| "cloneExpr g (CallExpr f gs es) = lift2 (\<lambda>es' f'. CallExpr f' gs es') (cloneExprs g es) (g f)"
| "cloneExpr g (TensorReadExpr e ps) = lift2 TensorReadExpr (cloneExpr g e) (cloneParams g ps)"
| "cloneExpr g (SetReadExpr e es) = lift2 SetReadExpr (cloneExpr g e) (cloneExprs g es)"
| "cloneExpr g (NamedTupleReadExpr e x) = lift1 (\<lambda>e'. NamedTupleReadExpr e' x) (cloneExpr g e)"
| "cloneExpr g (UnnamedTupleReadExpr e i) = lift2 UnnamedTupleReadExpr (cloneExpr g e) (cloneExpr g i)"
| "cloneExpr g (FieldReadExpr e x) = lift1 (\<lambda>e'. FieldReadExpr e' x) (cloneExpr g e)"
| "cloneExpr g (ParenExpr e) = lift1 ParenExpr (cloneExpr g e)"
| "cloneExpr g (VarExpr x) = oret (VarExpr x)"
| "cloneExpr g (RangeConst x) = oret (RangeConst x)"
| "cloneExpr g (IntLiteral i) = oret (IntLiteral i)"
| "cloneExpr g (FloatLiteral d) = oret (FloatLiteral d)"
| "cloneExpr g (BoolLiteral b) = oret (BoolLiteral b)"
| "cloneExpr g (ComplexLiteral a b) = oret (ComplexLiteral a b)"
| "cloneExpr g (StringLiteral x) = oret (StringLiteral x)"
| "cloneExpr g (DenseTensorLiteral l) = oret (DenseTensorLiteral l)"
| "cloneExprs g [] = oret []"
| "cloneExprs g (e # es) = lift2 (#) (cloneExpr g e) (cloneExprs g es)"
| "cloneParams g [] = oret []"
| "cloneParams g (None # ps) = lift1 ((#) None) (cloneParams g ps)"
| "cloneParams g (Some e # ps) = lift2 (\<lambda>e' ps'. Some e' # ps') (cloneExpr g e) (cloneParams g ps)"

definition cloneOption :: "('a \<Rightarrow> 's \<Rightarrow> ('a \<times> 's) option) \<Rightarrow> 'a option \<Rightarrow> 's \<Rightarrow> ('a option \<times> 's) option" where
  "cloneOption f v = (case v of None \<Rightarrow> oret None | Some x \<Rightarrow> lift1 Some (f x))"

fun cloneDomain :: "'s namer \<Rightarrow> 'd for_domain \<Rightarrow> 's \<Rightarrow> ('d for_domain \<times> 's) option" where
  "cloneDomain g (IndexSetDomain s) = oret (IndexSetDomain s)"
| "cloneDomain g (RangeDomain l u) = lift2 RangeDomain (cloneExpr g l) (cloneExpr g u)"

fun cloneStmt :: "'s namer \<Rightarrow> 'd fir_stmt \<Rightarrow> 's \<Rightarrow> ('d fir_stmt \<times> 's) option"
  and cloneStmts :: "'s namer \<Rightarrow> 'd fir_stmt list \<Rightarrow> 's \<Rightarrow> ('d fir_stmt list \<times> 's) option"
  and cloneElse :: "'s namer \<Rightarrow> 'd fir_stmt option \<Rightarrow> 's \<Rightarrow> ('d fir_stmt option \<times> 's) option" where
  "cloneStmt g (StmtBlock ss) = lift1 StmtBlock (cloneStmts g ss)"
| "cloneStmt g (VarDecl x t i) = lift1 (VarDecl x t) (cloneOption (cloneExpr g) i)"
| "cloneStmt g (ConstDecl x t i) = lift1 (ConstDecl x t) (cloneExpr g i)"
| "cloneStmt g (IVarDecl x) = oret (IVarDecl x)"
| "cloneStmt g (WhileStmt c body) = lift2 WhileStmt (cloneExpr g c) (cloneStmt g body)"
| "cloneStmt g (DoWhileStmt body c) = lift2 (\<lambda>c' b'. DoWhileStmt b' c') (cloneExpr g c) (cloneStmt g body)"
| "cloneStmt g (IfStmt c a b) = lift2 (\<lambda>(c', a') b'. IfStmt c' a' b') (lift2 Pair (cloneExpr g c) (cloneStmt g a)) (cloneElse g b)"
| "cloneStmt g (ForStmt x d body) = lift2 (ForStmt x) (cloneDomain g d) (cloneStmt g body)"
| "cloneStmt g (PrintStmt es nl) = lift1 (\<lambda>es'. PrintStmt es' nl) (cloneExprs g es)"
| "cloneStmt g (ApplyStmt f gs es t) = lift2 (\<lambda>es' f'. ApplyStmt f' gs es' t) (cloneExprs g es) (g f)"
| "cloneStmt g (ExprStmt e) = lift1 ExprStmt (cloneExpr g e)"
| "cloneStmt g (AssignStmt targets e) = lift2 AssignStmt (cloneExprs g targets) (cloneExpr g e)"
| "cloneStmts g [] = oret []"
| "cloneStmts g (s # ss) = lift2 (#) (cloneStmt g s) (cloneStmts g ss)"
| "cloneElse g None = oret None"
| "cloneElse g (Some s) = lift1 Some (cloneStmt g s)"

definition visitFunc :: "'s namer \<Rightarrow> 'd func_decl \<Rightarrow> 's \<Rightarrow> ('d func_decl \<times> 's) option" where
  "visitFunc g f = lift1 (\<lambda>b. f\<lparr>func_body := b\<rparr>) (cloneOption (cloneStmt g) (func_body f))"

section \<open>Cloning\<close>

record 'd clone_state =
  genericFuncs :: "string \<rightharpoonup> 'd func_decl \<times> string"
  specializedFuncs :: "string \<rightharpoonup> ('d func_decl \<times> string) list"
  clone_count :: nat

definition clonesOf :: "'d clone_state \<Rightarrow> string \<Rightarrow> ('d func_decl \<times> string) list" where
  "clonesOf st cur = (case specializedFuncs st cur of None \<Rightarrow> [] | Some fs \<Rightarrow> fs)"

text \<open>
  The clone is recorded before its body is visited; the record is a pointer, so the names changed in the body later are
  changed in the recorded function.
\<close>

definition recordClone :: "string \<Rightarrow> 'd func_decl \<times> string \<Rightarrow> 'd clone_state \<Rightarrow> 'd clone_state" where
  "recordClone cur f st =
     st\<lparr>specializedFuncs := (specializedFuncs st)(cur \<mapsto> clonesOf st cur @ [f]), genericFuncs := (genericFuncs st)(func_name (fst f) \<mapsto> f)\<rparr>"

definition updateClone :: "string \<Rightarrow> nat \<Rightarrow> 'd func_decl \<times> string \<Rightarrow> 'd clone_state \<Rightarrow> 'd clone_state" where
  "updateClone cur k f st =
     st\<lparr>specializedFuncs := (specializedFuncs st)(cur \<mapsto> (clonesOf st cur)[k := f]), genericFuncs := (genericFuncs st)(func_name (fst f) \<mapsto> f)\<rparr>"

definition newClone :: "'d func_decl \<times> string \<Rightarrow> string \<Rightarrow> 'd func_decl \<times> string" where
  "newClone f newName = ((fst f)\<lparr>func_name := newName\<rparr>, if snd f = [] then func_name (fst f) else snd f)"

definition cloneName :: "string \<Rightarrow> nat \<Rightarrow> string" where
  "cloneName name n = name @ ''@'' @ int_to_string (int n)"

fun cloneIfGeneric :: "nat \<Rightarrow> string \<Rightarrow> 'd clone_state namer" where
  "cloneIfGeneric 0 cur name st = (if genericFuncs st name = None then Some (name, st) else None)"
| "cloneIfGeneric (Suc n) cur name st =
     (case genericFuncs st name of
        None \<Rightarrow> Some (name, st)
      | Some f \<Rightarrow>
          let count = (clone_count st + 1) mod 2 ^ 32;
              newFunc = newClone f (cloneName name count) in
          (case visitFunc (cloneIfGeneric n cur) (fst newFunc) (recordClone cur newFunc (st\<lparr>clone_count := count\<rparr>)) of
             None \<Rightarrow> None
           | Some (f', st') \<Rightarrow> Some (cloneName name count, updateClone cur (length (clonesOf st cur)) (f', snd newFunc) st')))"

section \<open>Programs\<close>

fun visitCloneElem :: "'s namer \<Rightarrow> 'd program_element \<Rightarrow> 's \<Rightarrow> ('d program_element \<times> 's) option" where
  "visitCloneElem g (FuncDecl f) = (if genericParams f = [] then lift1 FuncDecl (visitFunc g f) else oret (FuncDecl f))"
| "visitCloneElem g (TopConst st) = lift1 TopConst (cloneStmt g st)"
| "visitCloneElem g (Test name args expected) = lift2 (Test name) (cloneExprs g args) (cloneExpr g expected)"
| "visitCloneElem g elem = oret elem"

fun nextFunc :: "string \<Rightarrow> 'd program_element \<Rightarrow> string" where
  "nextFunc cur (FuncDecl f) = func_name f"
| "nextFunc cur _ = cur"

text \<open>The elements are visited from the last to the first.\<close>

fun visitReversed :: "nat \<Rightarrow> string \<Rightarrow> 'd program_element list \<Rightarrow> 'd clone_state \<Rightarrow> ('d program_element list \<times> 'd clone_state) option" where
  "visitReversed n cur [] st = Some ([], st)"
| "visitReversed n cur (elem # elems) st =
     (let cur' = nextFunc cur elem in
      case visitCloneElem (cloneIfGeneric n cur') elem st of
        None \<Rightarrow> None
      | Some (elem', st') \<Rightarrow> map_option (apfst ((#) elem')) (visitReversed n cur' elems st'))"

fun addGeneric :: "'d program_element \<Rightarrow> (string \<rightharpoonup> 'd func_decl \<times> string) \<Rightarrow> string \<rightharpoonup> 'd func_decl \<times> string" where
  "addGeneric (FuncDecl f) table = (if genericParams f = [] then table else table(func_name f \<mapsto> (f, [])))"
| "addGeneric _ table = table"

definition findGenerics :: "'d func_decl list \<Rightarrow> 'd program_element list \<Rightarrow> string \<rightharpoonup> 'd func_decl \<times> string" where
  "findGenerics intrinsics prog = fold addGeneric (map FuncDecl intrinsics) (fold addGeneric prog Map.empty)"

text \<open>The clones made for the calls in a function are placed before it, the last one first.\<close>

definition cloneElems :: "'d clone_state \<Rightarrow> string \<Rightarrow> (string \<times> 'd program_element) list" where
  "cloneElems st cur = map (\<lambda>(f, orig). (orig, FuncDecl f)) (clonesOf st cur)"

fun clonesBefore :: "'d clone_state \<Rightarrow> 'd program_element \<Rightarrow> (string \<times> 'd program_element) list" where
  "clonesBefore st (FuncDecl f) = rev (cloneElems st (func_name f))"
| "clonesBefore st _ = []"

definition placeClones ::
  "'d clone_state \<Rightarrow> 'd func_decl list \<Rightarrow> 'd program_element list \<Rightarrow> (string \<times> 'd program_element) list" where
  "placeClones st intrinsics elems =
     concat (map (\<lambda>i. if genericFuncs st (func_name i) = None then [] else cloneElems st (func_name i)) intrinsics) @
     concat (map (\<lambda>elem. clonesBefore st elem @ [([], elem)]) elems)"

definition specialize :: "nat \<Rightarrow> 'd func_decl list \<Rightarrow> 'd program_element list \<Rightarrow> (string \<times> 'd program_element) list option" where
  "specialize n intrinsics prog =
     (case visitReversed n [] (rev prog)
        \<lparr>genericFuncs = findGenerics intrinsics prog, specializedFuncs = Map.empty, clone_count = 0\<rparr> of
        None \<Rightarrow> None
      | Some (elems, st) \<Rightarrow> Some (placeClones st intrinsics (rev elems)))"

end
