(* ===== verification/Clone_Correct.thy ===== *)
theory Clone_Correct
  imports Clone_Generics
begin

text \<open>
  Correctness of the pass that clones generic functions: the calls of a program, facts that carry a property of the
  renaming of one call over the traversal of expressions, statements and programs, and when the pass ends.
\<close>

section \<open>Reference: the calls of a program\<close>

fun exprCalls :: "'d fir_expr \<Rightarrow> string set" where
  "exprCalls (MapExpr f gs es t thr r) = insert f (\<Union>e\<in>set es. exprCalls e)"
| "exprCalls (CallExpr f gs es) = insert f (\<Union>e\<in>set es. exprCalls e)"
| "exprCalls (OrExpr a b) = exprCalls a \<union> exprCalls b"
| "exprCalls (AndExpr a b) = exprCalls a \<union> exprCalls b"
| "exprCalls (XorExpr a b) = exprCalls a \<union> exprCalls b"
| "exprCalls (EqExpr es ops) = (\<Union>e\<in>set es. exprCalls e)"
| "exprCalls (NotExpr a) = exprCalls a"
| "exprCalls (AddExpr a b) = exprCalls a \<union> exprCalls b"
| "exprCalls (SubExpr a b) = exprCalls a \<union> exprCalls b"
| "exprCalls (MulExpr a b) = exprCalls a \<union> exprCalls b"
| "exprCalls (DivExpr a b) = exprCalls a \<union> exprCalls b"
| "exprCalls (ElwiseMulExpr a b) = exprCalls a \<union> exprCalls b"
| "exprCalls (ElwiseDivExpr a b) = exprCalls a \<union> exprCalls b"
| "exprCalls (LeftDivExpr a b) = exprCalls a \<union> exprCalls b"
| "exprCalls (NegExpr n a) = exprCalls a"
| "exprCalls (ExpExpr a b) = exprCalls a \<union> exprCalls b"
| "exprCalls (TransposeExpr a) = exprCalls a"
| "exprCalls (TensorReadExpr e ps) = exprCalls e \<union> (\<Union>p\<in>set ps. case p of None \<Rightarrow> {} | Some x \<Rightarrow> exprCalls x)"
| "exprCalls (SetReadExpr e es) = exprCalls e \<union> (\<Union>e\<in>set es. exprCalls e)"
| "exprCalls (NamedTupleReadExpr e x) = exprCalls e"
| "exprCalls (UnnamedTupleReadExpr e i) = exprCalls e \<union> exprCalls i"
| "exprCalls (FieldReadExpr e x) = exprCalls e"
| "exprCalls (ParenExpr e) = exprCalls e"
| "exprCalls _ = {}"

fun domainCalls :: "'d for_domain \<Rightarrow> string set" where
  "domainCalls (IndexSetDomain s) = {}"
| "domainCalls (RangeDomain l u) = exprCalls l \<union> exprCalls u"

fun stmtCalls :: "'d fir_stmt \<Rightarrow> string set" where
  "stmtCalls (StmtBlock ss) = (\<Union>s\<in>set ss. stmtCalls s)"
| "stmtCalls (VarDecl x t i) = (case i of None \<Rightarrow> {} | Some e \<Rightarrow> exprCalls e)"
| "stmtCalls (ConstDecl x t i) = exprCalls i"
| "stmtCalls (IVarDecl x) = {}"
| "stmtCalls (WhileStmt c body) = exprCalls c \<union> stmtCalls body"
| "stmtCalls (DoWhileStmt body c) = exprCalls c \<union> stmtCalls body"
| "stmtCalls (IfStmt c a b) = exprCalls c \<union> stmtCalls a \<union> (case b of None \<Rightarrow> {} | Some b' \<Rightarrow> stmtCalls b')"
| "stmtCalls (ForStmt x d body) = domainCalls d \<union> stmtCalls body"
| "stmtCalls (PrintStmt es nl) = (\<Union>e\<in>set es. exprCalls e)"
| "stmtCalls (ApplyStmt f gs es t) = insert f (\<Union>e\<in>set es. exprCalls e)"
| "stmtCalls (ExprStmt e) = exprCalls e"
| "stmtCalls (AssignStmt targets e) = (\<Union>e\<in>set targets. exprCalls e) \<union> exprCalls e"

definition funcCalls :: "'d func_decl \<Rightarrow> string set" where
  "funcCalls f = (case func_body f of None \<Rightarrow> {} | Some b \<Rightarrow> stmtCalls b)"

fun elemCalls :: "'d program_element \<Rightarrow> string set" where
  "elemCalls (FuncDecl f) = (if genericParams f = [] then funcCalls f else {})"
| "elemCalls (TopConst st) = stmtCalls st"
| "elemCalls (Test name args e) = (\<Union>e\<in>set args. exprCalls e) \<union> exprCalls e"
| "elemCalls _ = {}"

section \<open>Facts about the traversal\<close>

text \<open>
  \<open>yields\<close> says that a traversal succeeds from the states of an invariant and keeps it; \<open>stuck\<close> that it never does.
\<close>

definition yields :: "('s \<Rightarrow> bool) \<Rightarrow> ('a \<Rightarrow> bool) \<Rightarrow> ('s \<Rightarrow> ('a \<times> 's) option) \<Rightarrow> bool" where
  "yields Inv P m \<longleftrightarrow> (\<forall>s. Inv s \<longrightarrow> (\<exists>x s'. m s = Some (x, s') \<and> Inv s' \<and> P x))"

definition keepsInv :: "('s \<Rightarrow> bool) \<Rightarrow> ('s \<Rightarrow> ('a \<times> 's) option) \<Rightarrow> bool" where
  "keepsInv Inv m \<longleftrightarrow> (\<forall>s x s'. Inv s \<longrightarrow> m s = Some (x, s') \<longrightarrow> Inv s')"

definition stuck :: "('s \<Rightarrow> bool) \<Rightarrow> ('s \<Rightarrow> ('a \<times> 's) option) \<Rightarrow> bool" where
  "stuck Inv m \<longleftrightarrow> (\<forall>s. Inv s \<longrightarrow> m s = None)"

lemma yields_obind:
  assumes "yields Inv Q m" and "\<And>x. Q x \<Longrightarrow> yields Inv P (f x)"
  shows "yields Inv P (obind m f)"
  unfolding yields_def
proof (intro allI impI)
  fix s
  assume "Inv s"
  then obtain x s' where x: "m s = Some (x, s')" "Inv s'" "Q x" using assms(1) by (auto simp: yields_def)
  then show "\<exists>y s'. obind m f s = Some (y, s') \<and> Inv s' \<and> P y" using assms(2) [OF x(3)] by (auto simp: yields_def obind_def)
qed

lemma keepsInv_obind: "keepsInv Inv m \<Longrightarrow> (\<And>x. keepsInv Inv (f x)) \<Longrightarrow> keepsInv Inv (obind m f)"
proof -
  assume m: "keepsInv Inv m" and f: "\<And>x. keepsInv Inv (f x)"
  show ?thesis unfolding keepsInv_def
  proof (intro allI impI)
    fix s y t
    assume s: "Inv s" and "obind m f s = Some (y, t)"
    then obtain x s' where x: "m s = Some (x, s')" "f x s' = Some (y, t)" by (auto simp: obind_def split: option.splits)
    then have "Inv s'" using m s by (auto simp: keepsInv_def)
    then show "Inv t" using f [of x] x(2) by (auto simp: keepsInv_def)
  qed
qed

lemma stuck_obind:
  "stuck Inv m \<Longrightarrow> stuck Inv (obind m f)"
  "keepsInv Inv m \<Longrightarrow> (\<And>x. stuck Inv (f x)) \<Longrightarrow> stuck Inv (obind m f)"
  unfolding stuck_def keepsInv_def obind_def by (auto split: option.split)

lemma yields_ret: "P x \<Longrightarrow> yields Inv P (oret x)"
  by (simp add: yields_def oret_def)

lemma keepsInv_ret: "keepsInv Inv (oret x)"
  by (simp add: keepsInv_def oret_def)

lemma yields_lift1: "yields Inv (\<lambda>y. b \<longrightarrow> y = x) m \<Longrightarrow> yields Inv (\<lambda>y. b \<longrightarrow> y = c x) (lift1 c m)"
  unfolding lift1_def by (rule yields_obind, assumption, rule yields_ret) simp

lemma yields_lift2:
  "yields Inv (\<lambda>y. b \<longrightarrow> y = x) m \<Longrightarrow> yields Inv (\<lambda>z. b \<longrightarrow> z = w) k \<Longrightarrow> yields Inv (\<lambda>y. b \<longrightarrow> y = c x w) (lift2 c m k)"
  unfolding lift2_def by (rule yields_obind, assumption, rule yields_obind, assumption, rule yields_ret) simp

lemma keepsInv_lift:
  "keepsInv Inv m \<Longrightarrow> keepsInv Inv (lift1 c m)" "keepsInv Inv m \<Longrightarrow> keepsInv Inv k \<Longrightarrow> keepsInv Inv (lift2 d m k)"
  unfolding lift1_def lift2_def by (auto intro!: keepsInv_obind keepsInv_ret)

lemma stuck_lift:
  "stuck Inv m \<Longrightarrow> stuck Inv (lift1 c m)" "stuck Inv m \<Longrightarrow> stuck Inv (lift2 d m k)"
  "keepsInv Inv m \<Longrightarrow> stuck Inv k \<Longrightarrow> stuck Inv (lift2 d m k)"
  unfolding lift1_def lift2_def by (auto intro: stuck_obind)

lemma exprCalls_param: "Some x \<in> set ps \<Longrightarrow> f \<in> exprCalls x \<Longrightarrow> f \<in> exprCalls (TensorReadExpr e ps)"
  by force

text \<open>What holds of the calls in an expression or a statement holds of its traversal.\<close>

lemma yields_exprs:
  "(\<And>e. e \<in> set es \<Longrightarrow> yields Inv (\<lambda>e'. b \<longrightarrow> e' = e) (cloneExpr g e)) \<Longrightarrow> yields Inv (\<lambda>es'. b \<longrightarrow> es' = es) (cloneExprs g es)"
  by (induction es) (auto intro!: yields_ret yields_lift2)

lemma yields_params:
  "(\<And>e. Some e \<in> set ps \<Longrightarrow> yields Inv (\<lambda>e'. b \<longrightarrow> e' = e) (cloneExpr g e)) \<Longrightarrow> yields Inv (\<lambda>ps'. b \<longrightarrow> ps' = ps) (cloneParams g ps)"
proof (induction ps)
  case (Cons p ps)
  then show ?case
    using yields_lift1 [of Inv b ps "cloneParams g ps" "(#) None"]
      yields_lift2 [of Inv b _ _ ps "cloneParams g ps" "\<lambda>e' ps'. Some e' # ps'"]
    by (cases p) simp_all
qed (simp add: yields_ret)

lemma yields_cloneExpr:
  "(\<And>f. f \<in> exprCalls e \<Longrightarrow> yields Inv (\<lambda>f'. b \<longrightarrow> f' = f) (g f)) \<Longrightarrow> yields Inv (\<lambda>e'. b \<longrightarrow> e' = e) (cloneExpr g e)"
proof (induction e)
  case (MapExpr f gs es t thr r)
  then show ?case
    by (auto intro!: yields_lift2 [where c = "\<lambda>es' f'. MapExpr f' gs es' t thr r" and x = es and w = f] yields_exprs)
next
  case (CallExpr f gs es)
  then show ?case
    by (auto intro!: yields_lift2 [where c = "\<lambda>es' f'. CallExpr f' gs es'" and x = es and w = f] yields_exprs)
next
  case (EqExpr es ops)
  then show ?case by (auto intro!: yields_lift1 [where c = "\<lambda>es'. EqExpr es' ops" and x = es] yields_exprs)
next
  case (TensorReadExpr e ps)
  have "yields Inv (\<lambda>x'. b \<longrightarrow> x' = x) (cloneExpr g x)" if "Some x \<in> set ps" for x
    using TensorReadExpr.IH(2) [OF that, of x] TensorReadExpr.prems exprCalls_param [OF that, of _ e] by simp
  then show ?case using TensorReadExpr.IH(1) TensorReadExpr.prems
    by (auto intro!: yields_lift2 [where c = TensorReadExpr and x = e and w = ps] yields_params)
next
  case (SetReadExpr e es)
  then show ?case by (auto intro!: yields_lift2 [where c = SetReadExpr and x = e and w = es] yields_exprs)
next
  case (NamedTupleReadExpr e x)
  then show ?case by (auto intro!: yields_lift1 [where c = "\<lambda>e'. NamedTupleReadExpr e' x" and x = e])
next
  case (FieldReadExpr e x)
  then show ?case by (auto intro!: yields_lift1 [where c = "\<lambda>e'. FieldReadExpr e' x" and x = e])
qed (auto intro!: yields_ret yields_lift1 yields_lift2)

lemma keepsInv_exprs: "(\<And>e. e \<in> set es \<Longrightarrow> keepsInv Inv (cloneExpr g e)) \<Longrightarrow> keepsInv Inv (cloneExprs g es)"
  by (induction es) (auto intro!: keepsInv_ret keepsInv_lift)

lemma keepsInv_params: "(\<And>e. Some e \<in> set ps \<Longrightarrow> keepsInv Inv (cloneExpr g e)) \<Longrightarrow> keepsInv Inv (cloneParams g ps)"
proof (induction ps)
  case (Cons p ps)
  then show ?case by (cases p) (auto intro!: keepsInv_lift)
qed (simp add: keepsInv_ret)

lemma keepsInv_cloneExpr: "(\<And>f. f \<in> exprCalls e \<Longrightarrow> keepsInv Inv (g f)) \<Longrightarrow> keepsInv Inv (cloneExpr g e)"
proof (induction e)
  case (TensorReadExpr e ps)
  have "keepsInv Inv (cloneExpr g x)" if "Some x \<in> set ps" for x
    using TensorReadExpr.IH(2) [OF that, of x] TensorReadExpr.prems exprCalls_param [OF that, of _ e] by simp
  then show ?case using TensorReadExpr.IH(1) TensorReadExpr.prems by (auto intro!: keepsInv_lift keepsInv_params)
qed (auto intro!: keepsInv_ret keepsInv_lift keepsInv_exprs)

lemma stuck_exprs:
  "e \<in> set es \<Longrightarrow> stuck Inv (cloneExpr g e) \<Longrightarrow> (\<And>e. e \<in> set es \<Longrightarrow> keepsInv Inv (cloneExpr g e)) \<Longrightarrow> stuck Inv (cloneExprs g es)"
  by (induction es) (auto intro: stuck_lift)

lemma stuck_params:
  "Some e \<in> set ps \<Longrightarrow> stuck Inv (cloneExpr g e) \<Longrightarrow> (\<And>e. Some e \<in> set ps \<Longrightarrow> keepsInv Inv (cloneExpr g e)) \<Longrightarrow> stuck Inv (cloneParams g ps)"
proof (induction ps)
  case (Cons p ps)
  then show ?case by (cases p) (auto intro: stuck_lift)
qed simp

lemma stuck_two:
  assumes "f \<in> exprCalls a \<union> exprCalls b" and "stuck Inv (g f)" and keeps: "\<And>f. f \<in> exprCalls a \<union> exprCalls b \<Longrightarrow> keepsInv Inv (g f)"
    and "f \<in> exprCalls a \<Longrightarrow> stuck Inv (g f) \<Longrightarrow> (\<And>f. f \<in> exprCalls a \<Longrightarrow> keepsInv Inv (g f)) \<Longrightarrow> stuck Inv (cloneExpr g a)"
    and "f \<in> exprCalls b \<Longrightarrow> stuck Inv (g f) \<Longrightarrow> (\<And>f. f \<in> exprCalls b \<Longrightarrow> keepsInv Inv (g f)) \<Longrightarrow> stuck Inv (cloneExpr g b)"
  shows "stuck Inv (lift2 c (cloneExpr g a) (cloneExpr g b))"
proof -
  have k: "keepsInv Inv (cloneExpr g a)" using keeps by (intro keepsInv_cloneExpr) auto
  show ?thesis using assms stuck_lift(2) [of Inv "cloneExpr g a"] stuck_lift(3) [OF k] by auto
qed

lemma stuck_call:
  assumes "f = h \<or> (\<exists>e\<in>set es. f \<in> exprCalls e \<and> stuck Inv (cloneExpr g e))" and "stuck Inv (g f)"
    and keeps: "\<And>e f. e \<in> set es \<Longrightarrow> f \<in> exprCalls e \<Longrightarrow> keepsInv Inv (g f)"
  shows "stuck Inv (lift2 c (cloneExprs g es) (g h))"
proof -
  have k: "keepsInv Inv (cloneExpr g e)" if "e \<in> set es" for e using keeps [OF that] by (rule keepsInv_cloneExpr)
  then have ks: "keepsInv Inv (cloneExprs g es)" by (rule keepsInv_exprs)
  show ?thesis
  proof (cases "f = h")
    case True
    then show ?thesis using stuck_lift(3) [OF ks] assms(2) by simp
  next
    case False
    then obtain e where "e \<in> set es" "stuck Inv (cloneExpr g e)" using assms(1) by auto
    then show ?thesis by (intro stuck_lift(2) stuck_exprs k)
  qed
qed

lemma stuck_cloneExpr:
  "f \<in> exprCalls e \<Longrightarrow> stuck Inv (g f) \<Longrightarrow> (\<And>f. f \<in> exprCalls e \<Longrightarrow> keepsInv Inv (g f)) \<Longrightarrow> stuck Inv (cloneExpr g e)"
proof (induction e)
  case (TensorReadExpr e ps)
  have "keepsInv Inv (cloneExpr g e)" "\<And>x. Some x \<in> set ps \<Longrightarrow> keepsInv Inv (cloneExpr g x)"
    using TensorReadExpr.prems(3) exprCalls_param [of _ ps _ e] by (auto intro!: keepsInv_cloneExpr)
  note keeps = this
  show ?case
  proof (cases "f \<in> exprCalls e")
    case True
    then have "stuck Inv (cloneExpr g e)" using TensorReadExpr by simp
    then show ?thesis by (simp add: stuck_lift(2))
  next
    case False
    then obtain x where x: "Some x \<in> set ps" "f \<in> exprCalls x" using TensorReadExpr.prems(1) by (auto split: option.splits)
    have "stuck Inv (cloneExpr g x)"
      using TensorReadExpr.IH(2) [OF x(1), of x] x TensorReadExpr.prems(2,3) exprCalls_param [OF x(1), of _ e] by simp
    then show ?thesis using stuck_lift(3) [OF keeps(1) stuck_params [OF x(1) _ keeps(2)]] by simp
  qed
next
  case (MapExpr h gs es t thr r)
  then show ?case by (simp only: cloneExpr.simps, intro stuck_call [of f h es]) auto
next
  case (CallExpr h gs es)
  then show ?case by (simp only: cloneExpr.simps, intro stuck_call [of f h es]) auto
next
  case (EqExpr es ops)
  then show ?case by (auto intro!: stuck_lift(1) stuck_exprs keepsInv_cloneExpr)
next
  case (SetReadExpr e es)
  have k: "keepsInv Inv (cloneExpr g e)" "\<And>x. x \<in> set es \<Longrightarrow> keepsInv Inv (cloneExpr g x)"
    using SetReadExpr.prems(3) by (auto intro!: keepsInv_cloneExpr)
  show ?case
  proof (cases "f \<in> exprCalls e")
    case True
    then show ?thesis using SetReadExpr by (simp add: stuck_lift(2))
  next
    case False
    then obtain x where x: "x \<in> set es" "f \<in> exprCalls x" using SetReadExpr.prems(1) by auto
    then have "stuck Inv (cloneExpr g x)" using SetReadExpr by auto
    then show ?thesis using stuck_lift(3) [OF k(1) stuck_exprs [OF x(1) _ k(2)]] by simp
  qed
qed (simp_all only: cloneExpr.simps exprCalls.simps empty_iff, (rule stuck_two stuck_lift(1); blast)+)

lemma yields_option:
  "(\<And>x. v = Some x \<Longrightarrow> yields Inv (\<lambda>x'. b \<longrightarrow> x' = x) (f x)) \<Longrightarrow> yields Inv (\<lambda>v'. b \<longrightarrow> v' = v) (cloneOption f v)"
  by (cases v) (auto simp: cloneOption_def intro!: yields_ret yields_lift1)

lemma keepsInv_option: "(\<And>x. v = Some x \<Longrightarrow> keepsInv Inv (f x)) \<Longrightarrow> keepsInv Inv (cloneOption f v)"
  by (cases v) (auto simp: cloneOption_def intro!: keepsInv_ret keepsInv_lift)

lemma yields_domain:
  "(\<And>f. f \<in> domainCalls d \<Longrightarrow> yields Inv (\<lambda>f'. b \<longrightarrow> f' = f) (g f)) \<Longrightarrow> yields Inv (\<lambda>d'. b \<longrightarrow> d' = d) (cloneDomain g d)"
  by (cases d) (auto intro!: yields_ret yields_lift2 yields_cloneExpr)

lemma keepsInv_domain: "(\<And>f. f \<in> domainCalls d \<Longrightarrow> keepsInv Inv (g f)) \<Longrightarrow> keepsInv Inv (cloneDomain g d)"
  by (cases d) (auto intro!: keepsInv_ret keepsInv_lift keepsInv_cloneExpr)

lemma stuck_domain:
  "f \<in> domainCalls d \<Longrightarrow> stuck Inv (g f) \<Longrightarrow> (\<And>f. f \<in> domainCalls d \<Longrightarrow> keepsInv Inv (g f)) \<Longrightarrow> stuck Inv (cloneDomain g d)"
  by (cases d) (fastforce intro: stuck_lift stuck_cloneExpr keepsInv_cloneExpr)+

lemma yields_stmts:
  "(\<And>st. st \<in> set ss \<Longrightarrow> yields Inv (\<lambda>st'. b \<longrightarrow> st' = st) (cloneStmt g st)) \<Longrightarrow> yields Inv (\<lambda>ss'. b \<longrightarrow> ss' = ss) (cloneStmts g ss)"
  by (induction ss) (auto intro!: yields_ret yields_lift2)

lemma keepsInv_stmts: "(\<And>st. st \<in> set ss \<Longrightarrow> keepsInv Inv (cloneStmt g st)) \<Longrightarrow> keepsInv Inv (cloneStmts g ss)"
  by (induction ss) (auto intro!: keepsInv_ret keepsInv_lift)

lemma stuck_stmts:
  "st \<in> set ss \<Longrightarrow> stuck Inv (cloneStmt g st) \<Longrightarrow> (\<And>st. st \<in> set ss \<Longrightarrow> keepsInv Inv (cloneStmt g st)) \<Longrightarrow> stuck Inv (cloneStmts g ss)"
  by (induction ss) (auto intro: stuck_lift)

lemma yields_else:
  "(\<And>st. v = Some st \<Longrightarrow> yields Inv (\<lambda>st'. b \<longrightarrow> st' = st) (cloneStmt g st)) \<Longrightarrow> yields Inv (\<lambda>v'. b \<longrightarrow> v' = v) (cloneElse g v)"
  by (cases v) (auto intro!: yields_ret yields_lift1)

lemma yields_cloneStmt:
  "(\<And>f. f \<in> stmtCalls st \<Longrightarrow> yields Inv (\<lambda>f'. b \<longrightarrow> f' = f) (g f)) \<Longrightarrow> yields Inv (\<lambda>st'. b \<longrightarrow> st' = st) (cloneStmt g st)"
proof (induction st)
  case (IfStmt c a v)
  have "yields Inv (\<lambda>x. b \<longrightarrow> x = (c, a)) (lift2 Pair (cloneExpr g c) (cloneStmt g a))"
    using IfStmt by (intro yields_lift2 yields_cloneExpr) auto
  moreover have "yields Inv (\<lambda>v'. b \<longrightarrow> v' = v) (cloneElse g v)" using IfStmt by (intro yields_else) auto
  ultimately show ?case
    using yields_lift2 [of Inv b "(c, a)" _ v "cloneElse g v" "\<lambda>(c', a') b'. IfStmt c' a' b'"] by simp
next
  case (DoWhileStmt body c)
  then show ?case
    by (auto intro!: yields_lift2 [where c = "\<lambda>c' b'. DoWhileStmt b' c'" and x = c and w = body] yields_cloneExpr)
next
  case (PrintStmt es nl)
  then show ?case by (auto intro!: yields_lift1 [where c = "\<lambda>es'. PrintStmt es' nl" and x = es] yields_exprs yields_cloneExpr)
next
  case (ApplyStmt f gs es t)
  then show ?case
    by (auto intro!: yields_lift2 [where c = "\<lambda>es' f'. ApplyStmt f' gs es' t" and x = es and w = f] yields_exprs yields_cloneExpr)
next
  case (VarDecl x t i)
  then show ?case by (auto intro!: yields_lift1 yields_option yields_cloneExpr)
qed (auto intro!: yields_ret yields_lift1 yields_lift2 yields_exprs yields_cloneExpr yields_stmts yields_domain)

lemma keepsInv_cloneStmt: "(\<And>f. f \<in> stmtCalls st \<Longrightarrow> keepsInv Inv (g f)) \<Longrightarrow> keepsInv Inv (cloneStmt g st)"
proof (induction st)
  case (IfStmt c a v)
  have "keepsInv Inv (cloneElse g v)" using IfStmt by (cases v) (auto intro!: keepsInv_ret keepsInv_lift)
  then show ?case using IfStmt by (auto intro!: keepsInv_lift keepsInv_cloneExpr)
qed (auto intro!: keepsInv_ret keepsInv_lift keepsInv_exprs keepsInv_cloneExpr keepsInv_stmts keepsInv_domain keepsInv_option)

lemma stuck_cloneStmt:
  "f \<in> stmtCalls st \<Longrightarrow> stuck Inv (g f) \<Longrightarrow> (\<And>f. f \<in> stmtCalls st \<Longrightarrow> keepsInv Inv (g f)) \<Longrightarrow> stuck Inv (cloneStmt g st)"
proof (induction st)
  case (IfStmt c a v)
  have k: "keepsInv Inv (cloneExpr g c)" "keepsInv Inv (cloneStmt g a)"
    using IfStmt.prems(3) by (auto intro!: keepsInv_cloneExpr keepsInv_cloneStmt)
  consider "f \<in> exprCalls c" | "f \<in> stmtCalls a" | b where "v = Some b" "f \<in> stmtCalls b"
    using IfStmt.prems(1) by (auto split: option.splits)
  then show ?case
  proof cases
    case 1
    then have "stuck Inv (cloneExpr g c)" using IfStmt.prems by (intro stuck_cloneExpr) auto
    then show ?thesis by (simp add: stuck_lift(2))
  next
    case 2
    then have "stuck Inv (cloneStmt g a)" using IfStmt by auto
    then show ?thesis using stuck_lift(2) [OF stuck_lift(3) [OF k(1)]] by simp
  next
    case (3 b)
    then have "stuck Inv (cloneStmt g b)" using IfStmt by auto
    then show ?thesis unfolding 3(1) cloneStmt.simps cloneElse.simps by (intro stuck_lift(3) keepsInv_lift(2) k stuck_lift(1))
  qed
next
  case (VarDecl x t i)
  then show ?case by (cases i) (auto simp: cloneOption_def intro!: stuck_lift(1) stuck_cloneExpr)
next
  case (StmtBlock ss)
  then show ?case by (auto intro!: stuck_lift(1) stuck_stmts keepsInv_cloneStmt)
next
  case (WhileStmt c body)
  then show ?case by (auto intro: stuck_lift(2) [OF stuck_cloneExpr] stuck_lift(3) [OF keepsInv_cloneExpr])
next
  case (DoWhileStmt body c)
  then show ?case by (auto intro: stuck_lift(2) [OF stuck_cloneExpr] stuck_lift(3) [OF keepsInv_cloneExpr])
next
  case (ForStmt x d body)
  then show ?case by (auto intro: stuck_lift(2) [OF stuck_domain] stuck_lift(3) [OF keepsInv_domain])
next
  case (PrintStmt es nl)
  then show ?case by (auto intro!: stuck_lift(1) stuck_exprs stuck_cloneExpr keepsInv_cloneExpr)
next
  case (ApplyStmt h gs es t)
  then show ?case
    by (simp only: cloneStmt.simps, intro stuck_call [of f h es]) (auto intro!: stuck_cloneExpr)
next
  case (AssignStmt targets e)
  have k: "keepsInv Inv (cloneExpr g x)" if "x \<in> set targets" for x using AssignStmt.prems(3) that by (auto intro!: keepsInv_cloneExpr)
  then have ks: "keepsInv Inv (cloneExprs g targets)" by (rule keepsInv_exprs)
  show ?case
  proof (cases "f \<in> exprCalls e")
    case True
    then have "stuck Inv (cloneExpr g e)" using AssignStmt.prems(2,3) by (intro stuck_cloneExpr) auto
    then show ?thesis using stuck_lift(3) [OF ks] by simp
  next
    case False
    then obtain x where x: "x \<in> set targets" "f \<in> exprCalls x" using AssignStmt.prems(1) by auto
    then have "stuck Inv (cloneExpr g x)" using AssignStmt.prems(2,3) by (intro stuck_cloneExpr) auto
    then show ?thesis using stuck_lift(2) [OF stuck_exprs [OF x(1) _ k]] by simp
  qed
qed (auto intro: stuck_lift(1) stuck_cloneExpr)

section \<open>Calls of the copies\<close>

text \<open>If every name is changed to one of a set, then all calls of the copy are in the set.\<close>

lemma calls_lift1:
  "yields Inv (\<lambda>x. A x \<subseteq> X) m \<Longrightarrow> (\<And>x. C (c x) = A x) \<Longrightarrow> yields Inv (\<lambda>z. C z \<subseteq> X) (lift1 c m)"
  unfolding lift1_def by (rule yields_obind, assumption, rule yields_ret) simp

lemma calls_lift2:
  "yields Inv (\<lambda>x. A x \<subseteq> X) m \<Longrightarrow> yields Inv (\<lambda>y. B y \<subseteq> X) k \<Longrightarrow> (\<And>x y. C (c x y) = A x \<union> B y) \<Longrightarrow>
   yields Inv (\<lambda>z. C z \<subseteq> X) (lift2 c m k)"
  unfolding lift2_def by (rule yields_obind, assumption, rule yields_obind, assumption, rule yields_ret) simp

abbreviation listCalls :: "'d fir_expr list \<Rightarrow> string set" where
  "listCalls es \<equiv> (\<Union>e\<in>set es. exprCalls e)"

abbreviation paramCalls :: "'d fir_expr option list \<Rightarrow> string set" where
  "paramCalls ps \<equiv> (\<Union>p\<in>set ps. case p of None \<Rightarrow> {} | Some x \<Rightarrow> exprCalls x)"

lemma calls_exprs:
  "(\<And>e. e \<in> set es \<Longrightarrow> yields Inv (\<lambda>e'. exprCalls e' \<subseteq> X) (cloneExpr g e)) \<Longrightarrow> yields Inv (\<lambda>es'. listCalls es' \<subseteq> X) (cloneExprs g es)"
  by (induction es) (auto intro!: yields_ret calls_lift2 [where C = listCalls and A = exprCalls and B = listCalls])

lemma calls_params:
  "(\<And>e. Some e \<in> set ps \<Longrightarrow> yields Inv (\<lambda>e'. exprCalls e' \<subseteq> X) (cloneExpr g e)) \<Longrightarrow>
   yields Inv (\<lambda>ps'. paramCalls ps' \<subseteq> X) (cloneParams g ps)"
proof (induction ps)
  case (Cons p ps)
  then show ?case
    by (cases p) (auto intro!: calls_lift1 [where C = paramCalls and A = paramCalls] calls_lift2 [where C = paramCalls and A = exprCalls and B = paramCalls])
qed (simp add: yields_ret)

lemma calls_name: "yields Inv (\<lambda>h. h \<in> X) (g f) \<Longrightarrow> yields Inv (\<lambda>h. {h} \<subseteq> X) (g f)"
  by simp

lemma calls_cloneExpr:
  "(\<And>f. f \<in> exprCalls e \<Longrightarrow> yields Inv (\<lambda>h. h \<in> X) (g f)) \<Longrightarrow> yields Inv (\<lambda>e'. exprCalls e' \<subseteq> X) (cloneExpr g e)"
proof (induction e)
  case (MapExpr f gs es t thr r)
  have "yields Inv (\<lambda>es'. listCalls es' \<subseteq> X) (cloneExprs g es)" using MapExpr by (intro calls_exprs) auto
  moreover have "yields Inv (\<lambda>h. {h} \<subseteq> X) (g f)" using MapExpr.prems by simp
  ultimately show ?case by (auto intro!: calls_lift2 [where A = listCalls and B = "\<lambda>h. {h}"])
next
  case (CallExpr f gs es)
  have "yields Inv (\<lambda>es'. listCalls es' \<subseteq> X) (cloneExprs g es)" using CallExpr by (intro calls_exprs) auto
  moreover have "yields Inv (\<lambda>h. {h} \<subseteq> X) (g f)" using CallExpr.prems by simp
  ultimately show ?case by (auto intro!: calls_lift2 [where A = listCalls and B = "\<lambda>h. {h}"])
next
  case (EqExpr es ops)
  have "yields Inv (\<lambda>es'. listCalls es' \<subseteq> X) (cloneExprs g es)" using EqExpr by (intro calls_exprs) auto
  then show ?case by (auto intro!: calls_lift1 [where A = listCalls])
next
  case (TensorReadExpr e ps)
  have "yields Inv (\<lambda>x'. exprCalls x' \<subseteq> X) (cloneExpr g x)" if "Some x \<in> set ps" for x
    using TensorReadExpr.IH(2) [OF that] TensorReadExpr.prems exprCalls_param [OF that] by auto
  then have "yields Inv (\<lambda>ps'. paramCalls ps' \<subseteq> X) (cloneParams g ps)" by (rule calls_params)
  moreover have "yields Inv (\<lambda>x'. exprCalls x' \<subseteq> X) (cloneExpr g e)" using TensorReadExpr by auto
  ultimately show ?case by (auto intro!: calls_lift2 [where A = exprCalls and B = paramCalls])
next
  case (SetReadExpr e es)
  have "yields Inv (\<lambda>es'. listCalls es' \<subseteq> X) (cloneExprs g es)" using SetReadExpr by (intro calls_exprs) auto
  moreover have "yields Inv (\<lambda>x'. exprCalls x' \<subseteq> X) (cloneExpr g e)" using SetReadExpr by auto
  ultimately show ?case by (auto intro!: calls_lift2 [where A = exprCalls and B = listCalls])
qed (auto intro!: yields_ret calls_lift1 [where A = exprCalls] calls_lift2 [where A = exprCalls and B = exprCalls])

abbreviation initCalls :: "'d fir_expr option \<Rightarrow> string set" where
  "initCalls v \<equiv> (case v of None \<Rightarrow> {} | Some e \<Rightarrow> exprCalls e)"

abbreviation elseCalls :: "'d fir_stmt option \<Rightarrow> string set" where
  "elseCalls v \<equiv> (case v of None \<Rightarrow> {} | Some st \<Rightarrow> stmtCalls st)"

abbreviation blockCalls :: "'d fir_stmt list \<Rightarrow> string set" where
  "blockCalls ss \<equiv> (\<Union>st\<in>set ss. stmtCalls st)"

lemma calls_stmts:
  "(\<And>st. st \<in> set ss \<Longrightarrow> yields Inv (\<lambda>st'. stmtCalls st' \<subseteq> X) (cloneStmt g st)) \<Longrightarrow> yields Inv (\<lambda>ss'. blockCalls ss' \<subseteq> X) (cloneStmts g ss)"
  by (induction ss) (auto intro!: yields_ret calls_lift2 [where C = blockCalls and A = stmtCalls and B = blockCalls])

lemma calls_else:
  "(\<And>st. v = Some st \<Longrightarrow> yields Inv (\<lambda>st'. stmtCalls st' \<subseteq> X) (cloneStmt g st)) \<Longrightarrow> yields Inv (\<lambda>v'. elseCalls v' \<subseteq> X) (cloneElse g v)"
  by (cases v) (auto intro!: yields_ret calls_lift1 [where C = elseCalls and A = stmtCalls])

lemma calls_init:
  "(\<And>f. f \<in> initCalls v \<Longrightarrow> yields Inv (\<lambda>h. h \<in> X) (g f)) \<Longrightarrow> yields Inv (\<lambda>v'. initCalls v' \<subseteq> X) (cloneOption (cloneExpr g) v)"
  by (cases v) (auto simp: cloneOption_def intro!: yields_ret calls_lift1 [where C = initCalls and A = exprCalls] calls_cloneExpr)

lemma calls_domain:
  "(\<And>f. f \<in> domainCalls d \<Longrightarrow> yields Inv (\<lambda>h. h \<in> X) (g f)) \<Longrightarrow> yields Inv (\<lambda>d'. domainCalls d' \<subseteq> X) (cloneDomain g d)"
  by (cases d) (auto intro!: yields_ret calls_lift2 [where A = exprCalls and B = exprCalls] calls_cloneExpr)

lemma calls_list:
  "(\<And>f. f \<in> listCalls es \<Longrightarrow> yields Inv (\<lambda>h. h \<in> X) (g f)) \<Longrightarrow> yields Inv (\<lambda>es'. listCalls es' \<subseteq> X) (cloneExprs g es)"
  by (intro calls_exprs calls_cloneExpr) auto

lemma calls_cloneStmt:
  "(\<And>f. f \<in> stmtCalls st \<Longrightarrow> yields Inv (\<lambda>h. h \<in> X) (g f)) \<Longrightarrow> yields Inv (\<lambda>st'. stmtCalls st' \<subseteq> X) (cloneStmt g st)"
proof (induction st)
  case (StmtBlock ss)
  have "yields Inv (\<lambda>ss'. blockCalls ss' \<subseteq> X) (cloneStmts g ss)" using StmtBlock by (intro calls_stmts) auto
  then show ?case by (auto intro!: calls_lift1 [where A = blockCalls])
next
  case (VarDecl x t i)
  have "yields Inv (\<lambda>v'. initCalls v' \<subseteq> X) (cloneOption (cloneExpr g) i)" using VarDecl by (intro calls_init) auto
  then show ?case by (auto intro!: calls_lift1 [where A = initCalls])
next
  case (IfStmt c a v)
  have "yields Inv (\<lambda>c'. exprCalls c' \<subseteq> X) (cloneExpr g c)" "yields Inv (\<lambda>a'. stmtCalls a' \<subseteq> X) (cloneStmt g a)"
    using IfStmt by (auto intro!: calls_cloneExpr)
  then have "yields Inv (\<lambda>x. exprCalls (fst x) \<union> stmtCalls (snd x) \<subseteq> X) (lift2 Pair (cloneExpr g c) (cloneStmt g a))"
    by (rule calls_lift2 [where C = "\<lambda>x. exprCalls (fst x) \<union> stmtCalls (snd x)"]) simp
  moreover have "yields Inv (\<lambda>v'. elseCalls v' \<subseteq> X) (cloneElse g v)" using IfStmt by (intro calls_else) auto
  ultimately show ?case
    unfolding cloneStmt.simps by (rule calls_lift2 [where C = stmtCalls]) (simp add: case_prod_unfold)
next
  case (PrintStmt es nl)
  have "yields Inv (\<lambda>es'. listCalls es' \<subseteq> X) (cloneExprs g es)" using PrintStmt by (intro calls_list) auto
  then show ?case by (auto intro!: calls_lift1 [where A = listCalls])
next
  case (ApplyStmt f gs es t)
  have "yields Inv (\<lambda>es'. listCalls es' \<subseteq> X) (cloneExprs g es)" using ApplyStmt by (intro calls_list) auto
  moreover have "yields Inv (\<lambda>h. {h} \<subseteq> X) (g f)" using ApplyStmt.prems by simp
  ultimately show ?case by (auto intro!: calls_lift2 [where A = listCalls and B = "\<lambda>h. {h}"])
next
  case (AssignStmt targets e)
  have "yields Inv (\<lambda>es'. listCalls es' \<subseteq> X) (cloneExprs g targets)" using AssignStmt by (intro calls_list) auto
  moreover have "yields Inv (\<lambda>e'. exprCalls e' \<subseteq> X) (cloneExpr g e)" using AssignStmt by (intro calls_cloneExpr) auto
  ultimately show ?case by (auto intro!: calls_lift2 [where A = listCalls and B = exprCalls])
next
  case (ForStmt x d body)
  then show ?case by (auto intro!: calls_lift2 [where A = domainCalls and B = stmtCalls] calls_domain)
qed (auto intro!: yields_ret calls_lift1 [where A = exprCalls] calls_lift2 [where A = exprCalls and B = stmtCalls] calls_cloneExpr)

lemma calls_visitFunc:
  assumes "\<And>h. h \<in> funcCalls f \<Longrightarrow> yields Inv (\<lambda>h. h \<in> X) (g h)"
  shows "yields Inv (\<lambda>f'. funcCalls f' \<subseteq> X) (visitFunc g f)"
proof -
  have "yields Inv (\<lambda>v. elseCalls v \<subseteq> X) (cloneOption (cloneStmt g) (func_body f))"
    using assms by (cases "func_body f")
      (auto simp: cloneOption_def funcCalls_def intro!: yields_ret calls_lift1 [where C = elseCalls and A = stmtCalls] calls_cloneStmt)
  then show ?thesis unfolding visitFunc_def by (rule calls_lift1) (simp add: funcCalls_def)
qed

section \<open>Clones\<close>

text \<open>Names of the source text have no at sign, so the table of generic functions stays the same for them.\<close>

definition sourceName :: "string \<Rightarrow> bool" where
  "sourceName name = (CHR ''@'' \<notin> set name)"

definition sameTable :: "(string \<rightharpoonup> 'd func_decl \<times> string) \<Rightarrow> 'd clone_state \<Rightarrow> bool" where
  "sameTable table st \<longleftrightarrow> (\<forall>name. sourceName name \<longrightarrow> genericFuncs st name = table name)"

definition sourceTable :: "(string \<rightharpoonup> 'd func_decl \<times> string) \<Rightarrow> bool" where
  "sourceTable table \<longleftrightarrow> (\<forall>name f. table name = Some f \<longrightarrow> sourceName name \<and> (\<forall>h\<in>funcCalls (fst f). sourceName h))"

lemma sourceTable_call: "sourceTable table \<Longrightarrow> table name = Some f \<Longrightarrow> h \<in> funcCalls (fst f) \<Longrightarrow> sourceName h"
  unfolding sourceTable_def by blast

lemma sourceTable_clone: "sourceTable table \<Longrightarrow> \<not> sourceName name \<Longrightarrow> table name = None"
  unfolding sourceTable_def by (cases "table name") auto

lemma funcCalls_newClone: "funcCalls (fst (newClone f name)) = funcCalls (fst f)" "func_name (fst (newClone f name)) = name"
  by (simp_all add: funcCalls_def newClone_def)

lemma not_sourceName: "\<not> sourceName (cloneName name n)"
  by (simp add: sourceName_def cloneName_def)

lemma sameTable_record:
  "sameTable table st \<Longrightarrow> \<not> sourceName (func_name (fst f)) \<Longrightarrow> sameTable table (recordClone cur f (st\<lparr>clone_count := c\<rparr>))"
  "sameTable table st \<Longrightarrow> \<not> sourceName (func_name (fst f)) \<Longrightarrow> sameTable table (updateClone cur k f st)"
  by (auto simp: sameTable_def recordClone_def updateClone_def)

lemma visitFunc_name: "visitFunc g f st = Some (f', st') \<Longrightarrow> func_name f' = func_name f"
  by (auto simp: visitFunc_def lift1_def obind_def oret_def split: option.splits)

lemma keepsInv_visitFunc: "(\<And>h. h \<in> funcCalls f \<Longrightarrow> keepsInv Inv (g h)) \<Longrightarrow> keepsInv Inv (visitFunc g f)"
  unfolding visitFunc_def by (intro keepsInv_lift(1) keepsInv_option keepsInv_cloneStmt) (simp add: funcCalls_def)

lemma yields_visitFunc:
  assumes "\<And>h. h \<in> funcCalls f \<Longrightarrow> yields Inv (\<lambda>h'. b \<longrightarrow> h' = h) (g h)"
  shows "yields Inv (\<lambda>f'. b \<longrightarrow> f' = f) (visitFunc g f)"
proof -
  have "yields Inv (\<lambda>v. b \<longrightarrow> v = func_body f) (cloneOption (cloneStmt g) (func_body f))"
    using assms by (intro yields_option yields_cloneStmt) (simp add: funcCalls_def)
  from yields_lift1 [OF this, of "\<lambda>v. f\<lparr>func_body := v\<rparr>"] show ?thesis by (simp add: visitFunc_def)
qed

lemma stuck_visitFunc:
  "h \<in> funcCalls f \<Longrightarrow> stuck Inv (g h) \<Longrightarrow> (\<And>h. h \<in> funcCalls f \<Longrightarrow> keepsInv Inv (g h)) \<Longrightarrow> stuck Inv (visitFunc g f)"
  by (cases "func_body f") (auto simp: visitFunc_def cloneOption_def funcCalls_def intro!: stuck_lift(1) stuck_cloneStmt)

lemma keepsInv_cloneIfGeneric:
  assumes "sourceTable table"
  shows "sourceName name \<Longrightarrow> keepsInv (sameTable table) (cloneIfGeneric n cur name)"
proof (induction n arbitrary: name)
  case 0
  then show ?case by (simp add: keepsInv_def)
next
  case (Suc n)
  show ?case unfolding keepsInv_def
  proof (intro allI impI)
    fix st x st'
    assume st: "sameTable table st" and run: "cloneIfGeneric (Suc n) cur name st = Some (x, st')"
    show "sameTable table st'"
    proof (cases "genericFuncs st name")
      case None
      then show ?thesis using st run by simp
    next
      case (Some f)
      let ?c = "(clone_count st + 1) mod 2 ^ 32"
      let ?f = "newClone f (cloneName name ?c)"
      from run Some obtain f' st1 where v: "visitFunc (cloneIfGeneric n cur) (fst ?f) (recordClone cur ?f (st\<lparr>clone_count := ?c\<rparr>)) = Some (f', st1)"
        and st': "st' = updateClone cur (length (clonesOf st cur)) (f', snd ?f) st1"
        by (auto simp: Let_def split: option.splits)
      have "table name = Some f" using st Some Suc.prems by (simp add: sameTable_def)
      then have "keepsInv (sameTable table) (visitFunc (cloneIfGeneric n cur) (fst ?f))"
        by (intro keepsInv_visitFunc Suc.IH) (simp only: funcCalls_newClone sourceTable_call [OF assms])
      moreover have "sameTable table (recordClone cur ?f (st\<lparr>clone_count := ?c\<rparr>))"
        by (intro sameTable_record st) (simp add: funcCalls_newClone not_sourceName)
      ultimately have "sameTable table st1" using v by (auto simp: keepsInv_def)
      then show ?thesis unfolding st'
        by (rule sameTable_record) (simp add: visitFunc_name [OF v] funcCalls_newClone not_sourceName)
    qed
  qed
qed

text \<open>If the calls between generic functions have a rank that decreases, cloning ends.\<close>

definition ranked :: "(string \<rightharpoonup> 'd func_decl \<times> string) \<Rightarrow> (string \<Rightarrow> nat) \<Rightarrow> bool" where
  "ranked table rank \<longleftrightarrow> (\<forall>name f. table name = Some f \<longrightarrow> (\<forall>h\<in>funcCalls (fst f). table h \<noteq> None \<longrightarrow> rank h < rank name))"

text \<open>All recorded clones but those under construction call no generic function.\<close>

definition clonesDone :: "(string \<rightharpoonup> 'd func_decl \<times> string) \<Rightarrow> (string \<times> nat) set \<Rightarrow> 'd clone_state \<Rightarrow> bool" where
  "clonesDone table K st \<longleftrightarrow>
     sameTable table st \<and>
     (\<forall>c k. k < length (clonesOf st c) \<longrightarrow> (c, k) \<notin> K \<longrightarrow> funcCalls (fst (clonesOf st c ! k)) \<subseteq> {h. table h = None})"

lemma clonesOf_simps:
  "clonesOf (recordClone cur f st) c = (if c = cur then clonesOf st cur @ [f] else clonesOf st c)"
  "clonesOf (updateClone cur k f st) c = (if c = cur then (clonesOf st cur)[k := f] else clonesOf st c)"
  "clonesOf (st\<lparr>clone_count := n\<rparr>) c = clonesOf st c"
  by (simp_all add: clonesOf_def recordClone_def updateClone_def)

lemma clonesDone_record:
  "clonesDone table K st \<Longrightarrow> \<not> sourceName (func_name (fst f)) \<Longrightarrow>
   clonesDone table (insert (cur, length (clonesOf st cur)) K) (recordClone cur f (st\<lparr>clone_count := n\<rparr>))"
  unfolding clonesDone_def
  by (intro conjI sameTable_record) (auto simp: clonesOf_simps nth_append less_Suc_eq split: if_splits)

lemma clonesDone_update:
  "clonesDone table (insert (cur, k) K) st \<Longrightarrow> \<not> sourceName (func_name (fst f)) \<Longrightarrow> funcCalls (fst f) \<subseteq> {h. table h = None} \<Longrightarrow>
   clonesDone table K (updateClone cur k f st)"
  unfolding clonesDone_def
proof (intro conjI sameTable_record allI impI)
  fix c j
  assume st: "sameTable table st \<and> (\<forall>c j. j < length (clonesOf st c) \<longrightarrow> (c, j) \<notin> insert (cur, k) K \<longrightarrow>
      funcCalls (fst (clonesOf st c ! j)) \<subseteq> {h. table h = None})"
    and f: "funcCalls (fst f) \<subseteq> {h. table h = None}" and j: "j < length (clonesOf (updateClone cur k f st) c)" "(c, j) \<notin> K"
  show "funcCalls (fst (clonesOf (updateClone cur k f st) c ! j)) \<subseteq> {h. table h = None}"
  proof (cases "(c, j) = (cur, k)")
    case True
    then show ?thesis using f j(1) by (simp add: clonesOf_simps)
  next
    case False
    then have "clonesOf (updateClone cur k f st) c ! j = clonesOf st c ! j" by (auto simp: clonesOf_simps)
    moreover have "j < length (clonesOf st c)" using j(1) by (simp add: clonesOf_simps split: if_splits)
    ultimately show ?thesis using st j(2) False by auto
  qed
qed auto

lemma yields_cloneIfGeneric:
  assumes "sourceTable table" and "ranked table rank"
  shows "sourceName name \<Longrightarrow> (table name \<noteq> None \<Longrightarrow> rank name < n) \<Longrightarrow>
    yields (clonesDone table K) (\<lambda>h. h \<in> {h. table h = None}) (cloneIfGeneric n cur name)"
proof (induction n arbitrary: name K)
  case 0
  then show ?case by (auto simp: yields_def clonesDone_def sameTable_def)
next
  case (Suc n)
  show ?case unfolding yields_def
  proof (intro allI impI)
    fix st
    assume st: "clonesDone table K st"
    then have same: "genericFuncs st name = table name" using Suc.prems(1) by (simp add: clonesDone_def sameTable_def)
    show "\<exists>x st'. cloneIfGeneric (Suc n) cur name st = Some (x, st') \<and> clonesDone table K st' \<and> x \<in> {h. table h = None}"
    proof (cases "table name")
      case None
      then show ?thesis using st same by simp
    next
      case (Some f)
      let ?c = "(clone_count st + 1) mod 2 ^ 32"
      let ?f = "newClone f (cloneName name ?c)"
      let ?K = "insert (cur, length (clonesOf st cur)) K"
      have "yields (clonesDone table ?K) (\<lambda>h. h \<in> {h. table h = None}) (cloneIfGeneric n cur h)" if h: "h \<in> funcCalls (fst f)" for h
      proof (rule Suc.IH [OF sourceTable_call [OF assms(1) Some h]])
        assume "table h \<noteq> None"
        then have "rank h < rank name" using assms(2) Some h unfolding ranked_def by blast
        moreover have "rank name < Suc n" using Suc.prems(2) Some by simp
        ultimately show "rank h < n" by simp
      qed
      then have "yields (clonesDone table ?K) (\<lambda>f'. funcCalls f' \<subseteq> {h. table h = None}) (visitFunc (cloneIfGeneric n cur) (fst ?f))"
        by (intro calls_visitFunc) (simp only: funcCalls_newClone)
      moreover have "clonesDone table ?K (recordClone cur ?f (st\<lparr>clone_count := ?c\<rparr>))"
        by (intro clonesDone_record st) (simp add: funcCalls_newClone not_sourceName)
      ultimately obtain f' st1 where v: "visitFunc (cloneIfGeneric n cur) (fst ?f) (recordClone cur ?f (st\<lparr>clone_count := ?c\<rparr>)) = Some (f', st1)"
        "clonesDone table ?K st1" "funcCalls f' \<subseteq> {h. table h = None}" unfolding yields_def by blast
      have "clonesDone table K (updateClone cur (length (clonesOf st cur)) (f', snd ?f) st1)"
        by (intro clonesDone_update v(2)) (simp_all add: visitFunc_name [OF v(1)] funcCalls_newClone not_sourceName v(3))
      moreover have "table (cloneName name ?c) = None" by (rule sourceTable_clone [OF assms(1) not_sourceName])
      ultimately show ?thesis using Some same v(1) by (simp add: Let_def)
    qed
  qed
qed

text \<open>A set of generic functions each of which calls one of them.\<close>

definition recursive :: "(string \<rightharpoonup> 'd func_decl \<times> string) \<Rightarrow> string set \<Rightarrow> bool" where
  "recursive table C \<longleftrightarrow> (\<forall>name\<in>C. sourceName name \<and> (\<exists>f. table name = Some f \<and> funcCalls (fst f) \<inter> C \<noteq> {}))"

lemma stuck_cloneIfGeneric:
  assumes "sourceTable table" and "recursive table C"
  shows "name \<in> C \<Longrightarrow> stuck (sameTable table) (cloneIfGeneric n cur name)"
proof (induction n arbitrary: name)
  case 0
  then show ?case using assms(2) by (auto simp: stuck_def recursive_def sameTable_def)
next
  case (Suc n)
  then obtain f h where f: "sourceName name" "table name = Some f" "h \<in> funcCalls (fst f)" "h \<in> C"
    using assms(2) unfolding recursive_def by blast
  show ?case unfolding stuck_def
  proof (intro allI impI)
    fix st
    assume st: "sameTable table st"
    let ?c = "(clone_count st + 1) mod 2 ^ 32"
    let ?f = "newClone f (cloneName name ?c)"
    have g: "genericFuncs st name = Some f" using st f(1,2) by (simp add: sameTable_def)
    have "stuck (sameTable table) (visitFunc (cloneIfGeneric n cur) (fst ?f))"
    proof (rule stuck_visitFunc [of h])
      show "h \<in> funcCalls (fst ?f)" using f(3) by (simp add: funcCalls_newClone)
      show "stuck (sameTable table) (cloneIfGeneric n cur h)" by (rule Suc.IH [OF f(4)])
      show "keepsInv (sameTable table) (cloneIfGeneric n cur k)" if "k \<in> funcCalls (fst ?f)" for k
        by (rule keepsInv_cloneIfGeneric [OF assms(1) sourceTable_call [OF assms(1) f(2) that [unfolded funcCalls_newClone]]])
    qed
    moreover have "sameTable table (recordClone cur ?f (st\<lparr>clone_count := ?c\<rparr>))"
      by (intro sameTable_record st) (simp add: funcCalls_newClone not_sourceName)
    ultimately show "cloneIfGeneric (Suc n) cur name st = None" using g by (simp add: stuck_def Let_def)
  qed
qed

section \<open>Programs\<close>

lemma visitReversed_Cons:
  "visitReversed n cur (e # es) =
     lift2 (#) (visitCloneElem (cloneIfGeneric n (nextFunc cur e)) e) (visitReversed n (nextFunc cur e) es)"
  by (rule ext) (auto simp: lift2_def obind_def oret_def Let_def apfst_def map_prod_def split: option.split)

lemma visitReversed_Nil: "visitReversed n cur [] = oret []"
  by (rule ext) (simp add: oret_def)

lemma calls_elem:
  "(\<And>h. h \<in> elemCalls e \<Longrightarrow> yields Inv (\<lambda>h. h \<in> X) (g h)) \<Longrightarrow> yields Inv (\<lambda>e'. elemCalls e' \<subseteq> X) (visitCloneElem g e)"
proof (cases e)
  case (FuncDecl f)
  assume h: "\<And>h. h \<in> elemCalls e \<Longrightarrow> yields Inv (\<lambda>h. h \<in> X) (g h)"
  show ?thesis
  proof (cases "genericParams f = []")
    case True
    have "yields Inv (\<lambda>f'. funcCalls f' \<subseteq> X) (visitFunc g f)" using h True FuncDecl by (intro calls_visitFunc) simp
    then have "yields Inv (\<lambda>e'. elemCalls e' \<subseteq> X) (obind (visitFunc g f) (\<lambda>f'. oret (FuncDecl f')))"
      by (rule yields_obind) (simp add: yields_ret)
    then show ?thesis by (simp add: FuncDecl True lift1_def)
  qed (simp add: FuncDecl yields_ret)
next
  case (Test name args v)
  assume h: "\<And>h. h \<in> elemCalls e \<Longrightarrow> yields Inv (\<lambda>h. h \<in> X) (g h)"
  have "yields Inv (\<lambda>es'. listCalls es' \<subseteq> X) (cloneExprs g args)" "yields Inv (\<lambda>e'. exprCalls e' \<subseteq> X) (cloneExpr g v)"
    using h Test by (auto intro!: calls_list calls_cloneExpr)
  then show ?thesis unfolding Test visitCloneElem.simps by (rule calls_lift2 [where C = elemCalls]) simp
qed (auto intro!: yields_ret calls_lift1 [where A = stmtCalls] calls_cloneStmt)

lemma calls_reversed:
  "(\<And>e h cur. e \<in> set es \<Longrightarrow> h \<in> elemCalls e \<Longrightarrow> yields Inv (\<lambda>h. h \<in> X) (cloneIfGeneric n cur h)) \<Longrightarrow>
   yields Inv (\<lambda>es'. (\<Union>e\<in>set es'. elemCalls e) \<subseteq> X) (visitReversed n cur es)"
proof (induction es arbitrary: cur)
  case Nil
  then show ?case by (simp only: visitReversed_Nil yields_ret) (simp add: yields_ret)
next
  case (Cons e es)
  have "yields Inv (\<lambda>e'. elemCalls e' \<subseteq> X) (visitCloneElem (cloneIfGeneric n (nextFunc cur e)) e)"
    by (rule calls_elem) (rule Cons.prems [OF list.set_intros(1)])
  moreover have "yields Inv (\<lambda>es'. (\<Union>e\<in>set es'. elemCalls e) \<subseteq> X) (visitReversed n (nextFunc cur e) es)"
    by (rule Cons.IH) (rule Cons.prems [OF list.set_intros(2)])
  ultimately show ?case unfolding visitReversed_Cons by (rule calls_lift2) simp
qed

lemma yields_elem:
  assumes "\<And>h. h \<in> elemCalls e \<Longrightarrow> yields Inv (\<lambda>h'. b \<longrightarrow> h' = h) (g h)"
  shows "yields Inv (\<lambda>e'. b \<longrightarrow> e' = e) (visitCloneElem g e)"
  using assms by (cases e) (auto intro!: yields_ret yields_lift1 yields_lift2 yields_visitFunc yields_cloneStmt yields_exprs yields_cloneExpr)

lemma yields_reversed:
  "(\<And>e h cur. e \<in> set es \<Longrightarrow> h \<in> elemCalls e \<Longrightarrow> yields Inv (\<lambda>h'. b \<longrightarrow> h' = h) (cloneIfGeneric n cur h)) \<Longrightarrow>
   yields Inv (\<lambda>es'. b \<longrightarrow> es' = es) (visitReversed n cur es)"
proof (induction es arbitrary: cur)
  case Nil
  then show ?case by (simp only: visitReversed_Nil) (simp add: yields_ret)
next
  case (Cons e es)
  have "yields Inv (\<lambda>e'. b \<longrightarrow> e' = e) (visitCloneElem (cloneIfGeneric n (nextFunc cur e)) e)"
    by (rule yields_elem) (rule Cons.prems [OF list.set_intros(1)])
  moreover have "yields Inv (\<lambda>es'. b \<longrightarrow> es' = es) (visitReversed n (nextFunc cur e) es)"
    by (rule Cons.IH) (rule Cons.prems [OF list.set_intros(2)])
  ultimately show ?case unfolding visitReversed_Cons by (rule yields_lift2)
qed

lemma keepsInv_elem: "(\<And>h. h \<in> elemCalls e \<Longrightarrow> keepsInv Inv (g h)) \<Longrightarrow> keepsInv Inv (visitCloneElem g e)"
  by (cases e) (auto intro!: keepsInv_ret keepsInv_lift keepsInv_visitFunc keepsInv_cloneStmt keepsInv_exprs keepsInv_cloneExpr)

lemma stuck_elem:
  assumes "h \<in> elemCalls e" and "stuck Inv (g h)" and k: "\<And>h. h \<in> elemCalls e \<Longrightarrow> keepsInv Inv (g h)"
  shows "stuck Inv (visitCloneElem g e)"
proof (cases e)
  case (FuncDecl f)
  then show ?thesis using assms by (auto intro!: stuck_lift(1) stuck_visitFunc split: if_splits)
next
  case (TopConst st)
  then show ?thesis using assms by (auto intro!: stuck_lift(1) stuck_cloneStmt)
next
  case (Test name args v)
  have x: "keepsInv Inv (cloneExpr g x)" if "x \<in> set args" for x using k that Test by (auto intro!: keepsInv_cloneExpr)
  have ks: "keepsInv Inv (cloneExprs g args)" by (rule keepsInv_exprs [OF x])
  show ?thesis
  proof (cases "h \<in> exprCalls v")
    case True
    then have "stuck Inv (cloneExpr g v)" using assms(2) k Test by (intro stuck_cloneExpr) auto
    then show ?thesis unfolding Test visitCloneElem.simps by (rule stuck_lift(3) [OF ks])
  next
    case False
    then obtain a where a: "a \<in> set args" "h \<in> exprCalls a" using assms(1) Test by auto
    then have "stuck Inv (cloneExpr g a)" using assms(2) k Test by (intro stuck_cloneExpr) auto
    then show ?thesis unfolding Test visitCloneElem.simps by (intro stuck_lift(2) stuck_exprs [OF a(1) _ x])
  qed
qed (use assms in auto)

lemma stuck_reversed:
  assumes "\<And>e h cur. e \<in> set es \<Longrightarrow> h \<in> elemCalls e \<Longrightarrow> keepsInv Inv (cloneIfGeneric n cur h)"
    and "e \<in> set es" and "h \<in> elemCalls e" and "\<And>cur. stuck Inv (cloneIfGeneric n cur h)"
  shows "stuck Inv (visitReversed n cur es)"
  using assms(1,2)
proof (induction es arbitrary: cur)
  case (Cons a es)
  have k: "keepsInv Inv (visitCloneElem (cloneIfGeneric n c) a)" for c
    by (rule keepsInv_elem) (rule Cons.prems(1) [OF list.set_intros(1)])
  show ?case
  proof (cases "e = a")
    case True
    then have "stuck Inv (visitCloneElem (cloneIfGeneric n (nextFunc cur a)) a)"
      using assms(3,4) by (intro stuck_elem [of h] Cons.prems(1) [OF list.set_intros(1)]) simp_all
    then show ?thesis unfolding visitReversed_Cons by (rule stuck_lift(2))
  next
    case False
    then have "e \<in> set es" using Cons.prems(2) by simp
    then have "stuck Inv (visitReversed n (nextFunc cur a) es)" by (intro Cons.IH Cons.prems(1) [OF list.set_intros(2)])
    then show ?thesis unfolding visitReversed_Cons by (rule stuck_lift(3) [OF k])
  qed
qed simp

abbreviation cloneStart :: "(string \<rightharpoonup> 'd func_decl \<times> string) \<Rightarrow> 'd clone_state" where
  "cloneStart table \<equiv> \<lparr>genericFuncs = table, specializedFuncs = Map.empty, clone_count = 0\<rparr>"

lemma cloneStart_done: "clonesDone table {} (cloneStart table)"
  by (simp add: clonesDone_def sameTable_def clonesOf_def)

text \<open>The calls that remain in the program the pass returns; the originals of generic functions stay in it unchanged.\<close>

fun remainingCalls :: "string \<times> 'd program_element \<Rightarrow> string set" where
  "remainingCalls (orig, FuncDecl f) = (if genericParams f = [] \<or> orig \<noteq> [] then funcCalls f else {})"
| "remainingCalls (orig, e) = elemCalls e"

lemma remainingCalls_clones:
  assumes "clonesDone table {} st"
  shows "(orig, e) \<in> set (cloneElems st c) \<Longrightarrow> remainingCalls (orig, e) \<subseteq> {h. table h = None}"
proof -
  assume "(orig, e) \<in> set (cloneElems st c)"
  then obtain f where e: "e = FuncDecl f" "(f, orig) \<in> set (clonesOf st c)" by (auto simp: cloneElems_def)
  then obtain k where "k < length (clonesOf st c)" "clonesOf st c ! k = (f, orig)" by (auto simp: in_set_conv_nth)
  then have "funcCalls f \<subseteq> {h. table h = None}" using assms unfolding clonesDone_def by fastforce
  then show ?thesis by (simp add: e(1))
qed

lemma remainingCalls_elem: "remainingCalls ([], e) = elemCalls e"
  by (cases e) simp_all

lemma clonesBefore_clones: "x \<in> set (clonesBefore st e) \<Longrightarrow> \<exists>c. x \<in> set (cloneElems st c)"
  by (cases e) auto

lemma placed_cases:
  assumes "x \<in> set (placeClones st intrinsics elems)"
  shows "(\<exists>c. x \<in> set (cloneElems st c)) \<or> (\<exists>e\<in>set elems. x = ([], e))"
proof -
  from assms consider c where "x \<in> set (cloneElems st c)"
    | e where "e \<in> set elems" "x \<in> set (clonesBefore st e)" | e where "e \<in> set elems" "x = ([], e)"
    unfolding placeClones_def set_append set_concat set_map by (auto split: if_splits)
  then show ?thesis by cases (blast dest: clonesBefore_clones)+
qed

lemma remainingCalls_placed:
  assumes "clonesDone table {} st" and "(\<Union>e\<in>set elems. elemCalls e) \<subseteq> {h. table h = None}"
  shows "list_all (\<lambda>x. remainingCalls x \<inter> dom table = {}) (placeClones st intrinsics elems)"
  unfolding list_all_iff
proof
  fix x
  assume "x \<in> set (placeClones st intrinsics elems)"
  then consider c where "x \<in> set (cloneElems st c)" | e where "e \<in> set elems" "x = ([], e)"
    using placed_cases by blast
  then have "remainingCalls x \<subseteq> {h. table h = None}"
  proof cases
    case 1
    then show ?thesis using remainingCalls_clones [OF assms(1), of "fst x" "snd x"] by simp
  next
    case 2
    then show ?thesis using assms(2) by (auto simp: remainingCalls_elem)
  qed
  then show "remainingCalls x \<inter> dom table = {}" by auto
qed

section \<open>Properties of the pass\<close>

text \<open>A program for the examples: a function that calls a generic function, which calls another one twice.\<close>

definition sampleFunc :: "string \<Rightarrow> bool \<Rightarrow> int fir_expr \<Rightarrow> int func_decl" where
  "sampleFunc name generic e =
     \<lparr>func_type = FT_INTERNAL, func_name = name, genericParams = (if generic then [(''N'', GT_UNKNOWN)] else []), func_args = [],
      func_results = [], func_body = Some (StmtBlock [ExprStmt e])\<rparr>"

definition cloneSample :: "int program_element list" where
  "cloneSample =
     [FuncDecl (sampleFunc ''sq'' True (VarExpr ''x'')),
      FuncDecl (sampleFunc ''quad'' True (CallExpr ''sq'' [] [CallExpr ''sq'' [] [VarExpr ''x'']])),
      FuncDecl (sampleFunc ''main'' False (CallExpr ''quad'' [] [VarExpr ''x'']))]"

definition loopSample :: "int program_element list" where
  "loopSample =
     [FuncDecl (sampleFunc ''loop'' True (CallExpr ''loop'' [] [])), FuncDecl (sampleFunc ''main'' False (CallExpr ''loop'' [] []))]"

definition plainSample :: "int program_element list" where
  "plainSample =
     [FuncDecl (sampleFunc ''sq'' True (VarExpr ''x'')), FuncDecl (sampleFunc ''main'' False (CallExpr ''f'' [] [VarExpr ''x'']))]"

lemmas sample_defs = cloneSample_def loopSample_def plainSample_def sampleFunc_def findGenerics_def funcCalls_def

text \<open>
  C39. If the generic functions can be ranked so that a generic function only calls generic functions of a smaller
  rank, the pass ends, for every fuel above the ranks, and in the program that it returns no function that will be
  compiled, no constant and no test calls a generic function of the source: every such call calls a clone.
\<close>

theorem specialize_terminates:
  fixes prog :: "'d program_element list"
  assumes "sourceTable (findGenerics intrinsics prog)" and "\<And>e h. e \<in> set prog \<Longrightarrow> h \<in> elemCalls e \<Longrightarrow> sourceName h"
    and "ranked (findGenerics intrinsics prog) rank" and "\<And>name. findGenerics intrinsics prog name \<noteq> None \<Longrightarrow> rank name < n"
  shows "\<exists>out. specialize n intrinsics prog = Some out \<and> list_all (\<lambda>x. remainingCalls x \<inter> dom (findGenerics intrinsics prog) = {}) out"
proof -
  let ?table = "findGenerics intrinsics prog"
  have "yields (clonesDone ?table {}) (\<lambda>h. h \<in> {h. ?table h = None}) (cloneIfGeneric n cur h)" if "e \<in> set prog" "h \<in> elemCalls e" for e h cur
    by (rule yields_cloneIfGeneric [OF assms(1,3) assms(2) [OF that] assms(4)])
  then have "yields (clonesDone ?table {}) (\<lambda>es'. (\<Union>e\<in>set es'. elemCalls e) \<subseteq> {h. ?table h = None}) (visitReversed n [] (rev prog))"
    by (intro calls_reversed) simp
  then obtain es st where v: "visitReversed n [] (rev prog) (cloneStart ?table) = Some (es, st)" "clonesDone ?table {} st"
    "(\<Union>e\<in>set (rev es). elemCalls e) \<subseteq> {h. ?table h = None}"
    using cloneStart_done unfolding yields_def set_rev by blast
  show ?thesis using remainingCalls_placed [OF v(2,3)] v(1) by (simp add: specialize_def)
qed

theorem specialize_terminates_witness:
  "\<exists>out. specialize 2 [] cloneSample = Some out \<and> list_all (\<lambda>x. remainingCalls x \<inter> dom (findGenerics [] cloneSample) = {}) out"
proof (rule specialize_terminates [where rank = "\<lambda>name. if name = ''quad'' then 1 else 0"])
  show "sourceTable (findGenerics [] cloneSample)" by (auto simp: sample_defs sourceTable_def sourceName_def split: if_splits)
  show "ranked (findGenerics [] cloneSample) (\<lambda>name. if name = ''quad'' then 1 else 0)"
    by (auto simp: sample_defs ranked_def split: if_splits)
qed (auto simp: sample_defs sourceName_def)

text \<open>
  C40. A generic function that calls itself, or a cycle of generic functions that call each other, makes the pass run
  forever as soon as one of them is called: each clone calls the generic function again and is cloned again, whatever
  the depth of the nesting.
\<close>

theorem specialize_diverges:
  fixes prog :: "'d program_element list"
  assumes "sourceTable (findGenerics intrinsics prog)" and "\<And>e h. e \<in> set prog \<Longrightarrow> h \<in> elemCalls e \<Longrightarrow> sourceName h"
    and "recursive (findGenerics intrinsics prog) C" and "e \<in> set prog" and "h \<in> elemCalls e" and "h \<in> C"
  shows "specialize n intrinsics prog = None"
proof -
  let ?table = "findGenerics intrinsics prog"
  have "keepsInv (sameTable ?table) (cloneIfGeneric n cur h)" if "e \<in> set (rev prog)" "h \<in> elemCalls e" for e h cur
    using that assms(2) by (intro keepsInv_cloneIfGeneric [OF assms(1)]) simp
  then have "stuck (sameTable ?table) (visitReversed n [] (rev prog))"
    using assms(4,5) stuck_cloneIfGeneric [OF assms(1,3,6)] by (intro stuck_reversed [where e = e and h = h]) simp_all
  moreover have "sameTable ?table (cloneStart ?table)" by (simp add: sameTable_def)
  ultimately have "visitReversed n [] (rev prog) (cloneStart ?table) = None" by (simp add: stuck_def)
  then show ?thesis by (simp add: specialize_def)
qed

theorem specialize_diverges_witness: "specialize 1000 [] loopSample = None"
proof (rule specialize_diverges [where C = "{''loop''}" and h = "''loop''" and e = "loopSample ! 1"])
  show "sourceTable (findGenerics [] loopSample)" by (auto simp: sample_defs sourceTable_def sourceName_def split: if_splits)
  show "recursive (findGenerics [] loopSample) {''loop''}" by (simp add: sample_defs recursive_def sourceName_def)
qed (auto simp: sample_defs sourceName_def)

text \<open>
  In a program that calls no generic function the pass changes nothing: with any fuel it returns the elements of
  the program in their order.
\<close>

theorem specialize_identity:
  fixes prog :: "'d program_element list"
  assumes "\<And>e h. e \<in> set prog \<Longrightarrow> h \<in> elemCalls e \<Longrightarrow> findGenerics intrinsics prog h = None"
  shows "specialize n intrinsics prog = Some (map (Pair []) prog)"
proof -
  let ?s = "cloneStart (findGenerics intrinsics prog)"
  have "yields (\<lambda>s. s = ?s) (\<lambda>h'. True \<longrightarrow> h' = h) (cloneIfGeneric n cur h)" if "e \<in> set prog" "h \<in> elemCalls e" for e h cur
    using assms [OF that] by (cases n) (simp_all add: yields_def)
  then have "yields (\<lambda>s. s = ?s) (\<lambda>es'. True \<longrightarrow> es' = rev prog) (visitReversed n [] (rev prog))"
    by (intro yields_reversed) simp
  then have "visitReversed n [] (rev prog) ?s = Some (rev prog, ?s)" by (simp add: yields_def)
  moreover have "clonesBefore ?s e = []" for e by (cases e) (simp_all add: cloneElems_def clonesOf_def)
  ultimately show ?thesis by (simp add: specialize_def placeClones_def cloneElems_def clonesOf_def if_distrib cong: if_cong)
qed

theorem specialize_identity_witness: "specialize 0 [] plainSample = Some (map (Pair []) plainSample)"
  by (rule specialize_identity) (auto simp: sample_defs)

end
