(* ===== verification/Spec2Isabelle.thy ===== *)
theory Spec2Isabelle
  imports Util Scoped_Map Tokens Scanner Scanner_Correct Tensor_Type Graph Graph_Store Graph_Invariant Graph_Correct
    Grid Grid_Correct Box_Correct Path_Expressions Path_Order Path_Indices Path_Index_Rows Path_Index_Links
    Path_Semantics Path_Index_Correct Path_Limits Types Types_Correct Reorder Reorder_Correct Fir Parser_Monad Parser
    Parser_Logic Parser_Total Front_End Const_Fold Fir_Printer Printer_Text Printer_Scan Printer_Reads Printer_Levels
    Printer_Parse Checker_Types Type_Checker Type_Inference Typing Type_Check_Logic Type_Check_Operators
    Type_Check_Reads Type_Check_Correct Type_Check_Limits Program_Checker Program_Typing Program_Check_Logic
    Program_Check_Correct Element_Sources Declaration_Checker Declaration_Typing Declaration_Check_Correct Set_Addresses
    Clone_Generics Clone_Correct
begin

text \<open>
  This development models and verifies parts of the Simit compiler and runtime (the C++ sources under
  \<^verbatim>\<open>src/src\<close>). Simit programs compute with sets of elements connected by hyperedges and with tensors over
  such sets; the compiler scans and parses a program, checks it and lowers its tensor expressions to
  loops over the graph, and the C++ interface lets a host program build the graph.

  \<^bold>\<open>How the parts interact.\<close> A host program builds sets and fields through \<^verbatim>\<open>graph.h\<close>. The front end turns
  text into tokens (\<^verbatim>\<open>scanner.cpp\<close>, \<^verbatim>\<open>token.cpp\<close>) and tokens into a tree (\<^verbatim>\<open>parser.cpp\<close>), folds constants
  (\<^verbatim>\<open>const_fold.cpp\<close>) and checks types (\<^verbatim>\<open>type_checker.cpp\<close>); symbols live in nested scopes (\<^verbatim>\<open>scopedmap.h\<close>) and
  temporaries get fresh names (\<^verbatim>\<open>name_generator.cpp\<close>). In the compiler, expressions have types over index domains (\<^verbatim>\<open>types.h\<close>,
  \<^verbatim>\<open>domain.h\<close>). The sparsity of a system tensor is described by a path expression (\<^verbatim>\<open>path_expressions.h\<close>), from
  which a path index, the neighbor lists that generated loops run over, is built on the actual graph
  (\<^verbatim>\<open>path_indices.cpp\<close>). A host program may renumber its sets for locality (\<^verbatim>\<open>reorder.cpp\<close>).

  \<^bold>\<open>Theories and what they show.\<close>

  \<^item> \<open>Prelude\<close>: results (\<open>error + 'a\<close>, one error constructor per kind of exception, \<open>Undefined\<close> for what C++ leaves
    undefined), loops over results and list facts.

  \<^item> \<open>Util\<close> (\<^verbatim>\<open>util/\<close>): string helpers, the variable-depth loop, offsets of multi-indices, the name generator. The
    offset is a bijection, the loop visits all indices in row-major order, split undoes join, names are fresh.

  \<^item> \<open>Scoped_Map\<close> (\<^verbatim>\<open>util/scopedmap.h\<close>): the scoped symbol table, with an interface locale whose laws say what a
    lookup sees after an insertion and after leaving a scope.

  \<^item> \<open>Tokens\<close>, \<open>Scanner\<close>, \<open>Scanner_Correct\<close> (\<^verbatim>\<open>frontend/token.*\<close>, \<^verbatim>\<open>frontend/scanner.*\<close>): the token stream and the
    whole scanner, one function per case of its loop; \<^verbatim>\<open>std::strtod\<close> is a parameter. The main result is the round
    trip: scanning a printed sequence of tokens gives the tokens back. The loop consumes input in every
    round, so it terminates; every stream ends with one end token and is ordered by line.

  \<^item> \<open>Tensor_Type\<close> (\<^verbatim>\<open>tensor_type.*\<close>): tensor types of the C++ interface and their 64-bit sizes.

  \<^item> \<open>Types\<close>, \<open>Types_Correct\<close> (\<^verbatim>\<open>types.*\<close>, \<^verbatim>\<open>domain.*\<close>): the types of the compiler. Equality is an equivalence; the
    block decomposition of uniformly nested tensors preserves sizes within the limits of \<^verbatim>\<open>int\<close> and \<^verbatim>\<open>size_t\<close>;
    printing is total. The expressions that name sets are a type parameter.

  \<^item> \<open>Graph\<close>, \<open>Graph_Store\<close>, \<open>Graph_Invariant\<close>, \<open>Graph_Correct\<close> (\<^verbatim>\<open>graph.h\<close>, \<^verbatim>\<open>graph.cpp\<close>): sets, elements, fields
    and field references in an explicit store, because growing a set reallocates its buffers and redirects the
    references to them. A store built by client steps satisfies the invariant (\<open>graph_ok\<close>, \<open>refs_ok\<close>); adding
    an edge refines appending to a list; reads survive growth; writes are read back.

  \<^item> \<open>Grid\<close>, \<open>Grid_Correct\<close>, \<open>Box_Correct\<close>: grid edge sets with their periodic numbering, and boxes.

  \<^item> \<open>Reorder\<close>, \<open>Reorder_Correct\<close> (\<^verbatim>\<open>reorder.*\<close>): renumbering vertices is an isomorphism; the computed order is a
    permutation; renumbering edges separates endpoints from fields.

  \<^item> \<open>Path_Expressions\<close>, \<open>Path_Order\<close>, \<open>Path_Semantics\<close>, \<open>Path_Limits\<close> (\<^verbatim>\<open>path_expressions.*\<close>): path expressions,
    renaming, reversal and the comparison that serves as key order of the memo table; a semantics as a
    relation between elements, given as a specification that the code does not contain.

  \<^item> \<open>Path_Indices\<close>, \<open>Path_Index_Rows\<close>, \<open>Path_Index_Links\<close>, \<open>Path_Index_Correct\<close> (\<^verbatim>\<open>path_indices.*\<close>, \<^verbatim>\<open>stencils.*\<close>):
    the builder with its memo table. The locale \<open>path_index\<close> is the interface of an index (rows of neighbors),
    interpreted for segmented and for set endpoint indices. The index that is built lists exactly the pairs
    that the semantics relates, and the memo table does not change the answers.

  \<^item> \<open>Fir\<close>, \<open>Parser_Monad\<close>, \<open>Parser\<close>, \<open>Parser_Logic\<close>, \<open>Parser_Total\<close>, \<open>Front_End\<close> (\<^verbatim>\<open>frontend/fir.h\<close>, \<^verbatim>\<open>frontend/parser.*\<close>):
    the node classes of the front-end IR as datatypes, and the recursive descent parser with its scopes, its error
    messages and its recovery, one definition per method. On any text, scanning and parsing end with a program
    and a list of errors: the parser never reads past the tokens and no exception leaves it. The proofs use a small
    logic of parsers that are safe and of parsers that consume.

  \<^item> \<open>Const_Fold\<close> (\<^verbatim>\<open>frontend/const_fold.cpp\<close>, \<^verbatim>\<open>fir_rewriter.cpp\<close>, \<^verbatim>\<open>const_checker.cpp\<close>): folding keeps the value of constant
    expressions, except for negated complex literals.

  \<^item> \<open>Fir_Printer\<close>, \<open>Printer_Text\<close>, \<open>Printer_Scan\<close>, \<open>Printer_Reads\<close>, \<open>Printer_Levels\<close>, \<open>Printer_Parse\<close> (\<^verbatim>\<open>frontend/fir_printer.*\<close>):
    the text of every node; a printed expression is scanned and parsed back to itself, up to parentheses.

  \<^item> \<open>Checker_Types\<close>, \<open>Type_Checker\<close>, \<open>Type_Inference\<close> (\<^verbatim>\<open>frontend/type_checker.*\<close>): the types the checker compares and prints,
    and the typing of every kind of expression, with the errors it reports and the flags it sets on the way.

  \<^item> \<open>Typing\<close>, \<open>Type_Check_Logic\<close>, \<open>Type_Check_Operators\<close>, \<open>Type_Check_Reads\<close>, \<open>Type_Check_Correct\<close>, \<open>Type_Check_Limits\<close>: typing
    rules as a function without state, a calculus that relates a checking method to such a rule, and the result that
    the checker accepts exactly the expressions that have a type and gives them that type, which is well formed; the
    last theory has the inputs on which it fails or repeats its work.

  \<^item> \<open>Program_Checker\<close>, \<open>Element_Sources\<close>, \<open>Declaration_Checker\<close> (\<^verbatim>\<open>frontend/type_checker.*\<close>, \<^verbatim>\<open>frontend/infer_element_sources.*\<close>):
    statements, declarations and programs, with the two passes before the checker, which attach to index sets the
    definitions of sets and to element types the sets they come from. Sources are inferred exactly from the tensor
    reads of a body.

  \<^item> \<open>Program_Typing\<close>, \<open>Declaration_Typing\<close>, \<open>Program_Check_Logic\<close>, \<open>Program_Check_Correct\<close>, \<open>Declaration_Check_Correct\<close>,
    \<open>Set_Addresses\<close>: the typing rules for statements, declarations and programs; the checker accepts exactly what they
    accept and leaves the environment they give, which is well formed; scopes are respected also after errors, and sets
    refer to earlier sets only, so that comparing grids ends.

  \<^item> \<open>Clone_Generics\<close>, \<open>Clone_Correct\<close> (\<^verbatim>\<open>frontend/clone_generic_functions.*\<close>): the pass that gives every call of a generic
    function a clone of its own. It ends if the calls between generic functions have no cycle, and then no call of a
    generic function of the source is left; if one of a cycle of generic functions is called, it never ends. A program
    that calls no generic function is returned as it is, which is why \<open>checkProgram\<close> can leave the pass out.

  \<^bold>\<open>Bounds, fuel and assumptions.\<close> Element counts stay below $2^{31}$, so \<^verbatim>\<open>int\<close> arithmetic on them is exact;
  sizes of types and converted literals are kept at their width and wrap. Loops that may not end
  (\<^verbatim>\<open>split\<close> with an empty delimiter, iterating over a negative count) are partial functions into \<open>option\<close>,
  with theorems that say when they return; the others are total, with measures. The methods of the parser carry a
  bound, the number of tokens left when they start; \<open>Parser_Total\<close> shows that it always suffices, because every
  round consumes a token. The fuel of the cloning pass bounds how deep clones are nested. Allocation succeeds. The model is of a build with assertions. Parameters are \<^verbatim>\<open>std::strtod\<close>, the
  operations on doubles and the Hilbert index of a vertex.

  \<^bold>\<open>Not modelled.\<close> Of the type checker the specialisation of generic functions at calls, with the unification of their type
  parameters; the IR emitter, the compiler IR and its passes. Code generation (\<^verbatim>\<open>backend/\<close>) goes through LLVM and CUDA, which are
  not part of the sources; the visualizer, meshes and timers are input and output; the Hilbert curve function is
  vendored C code, and the scaling of coordinates before it is floating point, so both are one parameter of \<open>Reorder\<close>.
\<close>

end
